(* ===== verification/Prelude.thy ===== *)
theory Prelude
  imports Main "HOL-Library.Word" "HOL-Library.Char_ord" "HOL-Library.List_Lexorder"
begin

text \<open>
  Shared vocabulary of the development.

  Go values.  A Go \<open>[]byte\<close> and a Go \<open>string\<close> are both sequences of bytes; they are
  modelled by one type, \<open>bytes\<close> (a list of 8-bit characters), so that the conversions
  \<open>string(b)\<close> and \<open>[]byte(s)\<close> are the identity.  The order \<open><\<close> on \<open>bytes\<close> is the bytewise
  lexicographic order, as in Go.  A \<open>nil\<close> pointer, slice or interface argument, which every
  exported function of the repository rejects with a panic on entry, is excluded by the types.

  Go control flow.  A function that may return an error or panic has the result type
  \<open>('e, 'a) outcome\<close>: \<open>Ok v\<close> for a normal return, \<open>Err e\<close> for an error return with a
  component-specific error value, \<open>Panic msg\<close> for a panic that unwinds to the caller.
\<close>

section \<open>Bytes\<close>

type_synonym byte = char
type_synonym bytes = "char list"

text \<open>Row identifiers (\<open>fsltype.FslID\<close>, an \<open>int64\<close>).\<close>

type_synonym rid = int

abbreviation NL :: byte where "NL \<equiv> CHR 0x0A"
abbreviation CR :: byte where "CR \<equiv> CHR 0x0D"
abbreviation TAB :: byte where "TAB \<equiv> CHR 0x09"
abbreviation SPC :: byte where "SPC \<equiv> CHR 0x20"
abbreviation BSL :: byte where "BSL \<equiv> CHR 0x5C"

definition byte_val :: "byte \<Rightarrow> nat" where
  "byte_val c = of_char c"

lemma byte_val_less [simp]: "byte_val c < 256"
  by (simp add: byte_val_def)

lemma byte_val_inject [simp]: "byte_val c = byte_val d \<longleftrightarrow> c = d"
  by (simp add: byte_val_def)

lemma byte_val_char_of [simp]: "n < 256 \<Longrightarrow> byte_val (char_of n) = n"
  by (simp add: byte_val_def)

text \<open>A length truncated to 32 bits, big-endian (\<open>binary.BigEndian.PutUint32\<close>), and its reading.\<close>

definition PutUint32 :: "nat \<Rightarrow> bytes" where
  "PutUint32 n = (let w = n mod 2 ^ 32 in
     map (\<lambda>k. char_of (w div 256 ^ k mod 256)) [3, 2, 1, 0])"

definition Uint32 :: "bytes \<Rightarrow> nat" where
  "Uint32 s = byte_val (s ! 0) * 2 ^ 24 + byte_val (s ! 1) * 2 ^ 16 + byte_val (s ! 2) * 2 ^ 8 + byte_val (s ! 3)"

lemma length_PutUint32 [simp]: "length (PutUint32 n) = 4"
  by (simp add: PutUint32_def Let_def)

lemma Uint32_PutUint32:
  assumes "n < 2 ^ 32"
  shows "Uint32 (PutUint32 n @ s) = n"
proof -
  have divs: "n div 65536 = n div 256 div 256" "n div 16777216 = n div 256 div 256 div 256"
    by (simp_all add: div_mult2_eq [symmetric])
  have base: "m = m div 256 * 256 + m mod 256" for m :: nat by simp
  have "n div 256 div 256 div 256 < 256" using assms by (simp add: div_mult2_eq [symmetric])
  then have "n div 256 div 256 div 256 mod 256 = n div 256 div 256 div 256" by simp
  then have "Uint32 (PutUint32 n @ s) = n div 256 div 256 div 256 * 16777216 +
      n div 256 div 256 mod 256 * 65536 + n div 256 mod 256 * 256 + n mod 256"
    using assms by (simp add: PutUint32_def Uint32_def Let_def divs byte_val_def)
  with base [of n] base [of "n div 256"] base [of "n div 256 div 256"] show ?thesis by linarith
qed

section \<open>Outcomes of Go functions\<close>

datatype ('e, 'a) outcome = Ok (the_ok: 'a) | Err 'e | Panic string

text \<open>
  Sequencing (\<open>x, err := f(); if err != nil { return err }\<close>) and the wrapping of an
  error value (\<open>fmt.Errorf("...: %w", err)\<close>).
\<close>

definition bind_ok :: "('e, 'a) outcome \<Rightarrow> ('a \<Rightarrow> ('e, 'b) outcome) \<Rightarrow> ('e, 'b) outcome" where
  "bind_ok m f = (case m of Ok x \<Rightarrow> f x | Err e \<Rightarrow> Err e | Panic s \<Rightarrow> Panic s)"

definition wrap_err :: "('e \<Rightarrow> 'f) \<Rightarrow> ('e, 'a) outcome \<Rightarrow> ('f, 'a) outcome" where
  "wrap_err w m = (case m of Ok x \<Rightarrow> Ok x | Err e \<Rightarrow> Err (w e) | Panic s \<Rightarrow> Panic s)"

definition is_ok :: "('e, 'a) outcome \<Rightarrow> bool" where
  "is_ok m = (case m of Ok _ \<Rightarrow> True | _ \<Rightarrow> False)"

definition is_panic :: "('e, 'a) outcome \<Rightarrow> bool" where
  "is_panic m = (case m of Panic _ \<Rightarrow> True | _ \<Rightarrow> False)"

lemma bind_ok_simps [simp]:
  "bind_ok (Ok x) f = f x"
  "bind_ok (Err e) f = Err e"
  "bind_ok (Panic s) f = Panic s"
  by (simp_all add: bind_ok_def)

lemma wrap_err_simps [simp]:
  "wrap_err w (Ok x) = Ok x"
  "wrap_err w (Err e) = Err (w e)"
  "wrap_err w (Panic s) = Panic s"
  by (simp_all add: wrap_err_def)

lemma is_ok_simps [simp]:
  "is_ok (Ok x)" "\<not> is_ok (Err e)" "\<not> is_ok (Panic s)"
  by (simp_all add: is_ok_def)

lemma is_panic_simps [simp]:
  "\<not> is_panic (Ok x)" "\<not> is_panic (Err e)" "is_panic (Panic s)"
  by (simp_all add: is_panic_def)

lemma bind_ok_eq_Ok:
  "bind_ok m f = Ok y \<longleftrightarrow> (\<exists>x. m = Ok x \<and> f x = Ok y)"
  by (cases m) simp_all

lemma bind_ok_assoc: "bind_ok (bind_ok m f) g = bind_ok m (\<lambda>x. bind_ok (f x) g)"
  by (cases m) simp_all

lemma is_panic_bind: "is_panic m \<Longrightarrow> is_panic (bind_ok m f)"
  by (cases m) simp_all

lemma wrap_err_eq_Ok [simp]: "wrap_err w m = Ok x \<longleftrightarrow> m = Ok x"
  by (cases m) simp_all

lemma bind_ok_cong [fundef_cong]:
  assumes "m = m'" and "\<And>x. m' = Ok x \<Longrightarrow> f x = f' x"
  shows "bind_ok m f = bind_ok m' f'"
  using assms by (cases m') simp_all

section \<open>Slices\<close>

text \<open>
  \<open>make\<close> panics when a length or capacity exceeds the largest allocation of the Go
  runtime, \<open>2^48\<close> bytes on 64-bit platforms.
\<close>

definition max_alloc :: nat where
  "max_alloc = 2 ^ 48"

text \<open>The Go slice expression \<open>xs[lo:hi]\<close> for \<open>lo \<le> hi \<le> len(xs)\<close>.\<close>

definition subslice :: "nat \<Rightarrow> nat \<Rightarrow> 'a list \<Rightarrow> 'a list" where
  "subslice lo hi xs = take (hi - lo) (drop lo xs)"

lemma length_subslice [simp]: "hi \<le> length xs \<Longrightarrow> length (subslice lo hi xs) = hi - lo"
  by (simp add: subslice_def)

lemma subslice_full [simp]: "subslice 0 (length xs) xs = xs"
  by (simp add: subslice_def)

lemma subslice_same [simp]: "subslice k k xs = []"
  by (simp add: subslice_def)

lemma subslice_to_end: "subslice lo (length xs) xs = drop lo xs"
  by (simp add: subslice_def)

lemma subslice_append:
  assumes "a \<le> b" and "b \<le> c"
  shows "subslice a b xs @ subslice b c xs = subslice a c xs"
proof -
  from assms have "c - a = (b - a) + (c - b)" and "drop b xs = drop (b - a) (drop a xs)"
    by simp_all
  then show ?thesis by (simp only: subslice_def take_add)
qed

lemma take_append_subslice:
  "a \<le> b \<Longrightarrow> take a xs @ subslice a b xs = take b xs"
  by (metis le_add_diff_inverse subslice_def take_add)

lemma drop_split: "drop p xs = ys @ zs \<Longrightarrow> drop (p + length ys) xs = zs"
  by (metis add.commute append_eq_conv_conj drop_drop)

lemma drop_Cons_nth: "drop p xs = y # ys \<Longrightarrow> p < length xs \<and> xs ! p = y"
  by (metis drop_eq_Nil2 list.distinct(1) not_le nth_via_drop)

section \<open>Bits of natural numbers\<close>

unbundle bit_operations_syntax

lemma and_nat_le2: "(m AND n :: nat) \<le> n"
proof -
  have "int (m AND n) \<le> int n"
    by (simp only: of_nat_and_eq AND_upper2 of_nat_0_le_iff)
  then show ?thesis by simp
qed

section \<open>Theorem collections\<close>

named_theorems go_eval \<open>evaluation rules for closed instances of the model\<close>

end
