(* ===== verification/Delta.thy ===== *)
theory Delta
  imports Prelude
begin

unbundle bit_operations_syntax

text \<open>
  The delta codec, \<open>internal/delta/delta.go\<close>: the base-64 integers of the format
  (\<open>getInt\<close>, \<open>appendInt\<close>), the checksum, the interpreter \<open>Apply\<close> and the generator
  \<open>Create\<close> with its hash table of 16-byte source blocks.  The main results: an integer
  survives printing and reading at its full width, \<open>Create\<close> always returns, and \<open>Apply\<close>
  of a created delta to its source gives back the target.
\<close>

section \<open>Errors and the reader\<close>

text \<open>
  \<open>ErrInvalidDelta\<close> carries the static text of the message; \<open>ErrChecksum\<close> is the sentinel
  for a checksum mismatch.
\<close>

datatype delta_error = ErrInvalidDelta string | ErrChecksum

type_synonym u64 = "64 word"
type_synonym u32 = "32 word"

definition digits :: "int list" where
  "digits =
   [-1, -1, -1, -1, -1, -1, -1, -1, -1, -1, -1, -1, -1, -1, -1, -1,
    -1, -1, -1, -1, -1, -1, -1, -1, -1, -1, -1, -1, -1, -1, -1, -1,
    -1, -1, -1, -1, -1, -1, -1, -1, -1, -1, -1, -1, -1, -1, -1, -1,
    0, 1, 2, 3, 4, 5, 6, 7, 8, 9, -1, -1, -1, -1, -1, -1,
    -1, 10, 11, 12, 13, 14, 15, 16, 17, 18, 19, 20, 21, 22, 23, 24,
    25, 26, 27, 28, 29, 30, 31, 32, 33, 34, 35, -1, -1, -1, -1, 36,
    -1, 37, 38, 39, 40, 41, 42, 43, 44, 45, 46, 47, 48, 49, 50, 51,
    52, 53, 54, 55, 56, 57, 58, 59, 60, 61, 62, -1, -1, -1, 63, -1]"

record reader =
  rd_data :: bytes
  rd_pos :: nat

text \<open>The break condition of the loop in \<open>getInt\<close>, negated: the byte is a digit.\<close>

definition is_digit :: "byte \<Rightarrow> bool" where
  "is_digit c \<longleftrightarrow> \<not> (byte_val c \<ge> 128 \<or> digits ! byte_val c < 0)"

function getInt_loop :: "reader \<Rightarrow> u64 \<Rightarrow> bool \<Rightarrow> u64 \<times> bool \<times> reader" where
  "getInt_loop r v started =
     (if rd_pos r < length (rd_data r) then
        (let c = rd_data r ! rd_pos r in
         if \<not> is_digit c then (v, started, r)
         else getInt_loop (r\<lparr>rd_pos := rd_pos r + 1\<rparr>)
                (v * 64 + word_of_int (digits ! byte_val c)) True)
      else (v, started, r))"
  by pat_completeness auto
termination
  by (relation "measure (\<lambda>(r, v, s). length (rd_data r) - rd_pos r)") auto

declare getInt_loop.simps [simp del]

definition getInt :: "reader \<Rightarrow> (delta_error, u64 \<times> reader) outcome" where
  "getInt r = (case getInt_loop r 0 False of (v, started, r') \<Rightarrow>
     if \<not> started then Err (ErrInvalidDelta ''expected integer'') else Ok (v, r'))"

definition getChar :: "reader \<Rightarrow> (delta_error, byte \<times> reader) outcome" where
  "getChar r =
     (if rd_pos r \<ge> length (rd_data r) then Err (ErrInvalidDelta ''unexpected end'')
      else Ok (rd_data r ! rd_pos r, r\<lparr>rd_pos := rd_pos r + 1\<rparr>))"

section \<open>The checksum\<close>

definition to_u32 :: "byte \<Rightarrow> u32" where
  "to_u32 c = word_of_nat (byte_val c)"

text \<open>The loop over whole 4-byte words and the \<open>switch\<close> over the 0 to 3 trailing bytes.\<close>

fun Checksum_from :: "u32 \<Rightarrow> bytes \<Rightarrow> u32" where
  "Checksum_from s (a # b # c # d # rest) =
     Checksum_from (s + (push_bit 24 (to_u32 a) OR push_bit 16 (to_u32 b)
                           OR push_bit 8 (to_u32 c) OR to_u32 d)) rest"
| "Checksum_from s [a, b, c] =
     s + push_bit 8 (to_u32 c) + push_bit 16 (to_u32 b) + push_bit 24 (to_u32 a)"
| "Checksum_from s [a, b] = s + push_bit 16 (to_u32 b) + push_bit 24 (to_u32 a)"
| "Checksum_from s [a] = s + push_bit 24 (to_u32 a)"
| "Checksum_from s [] = s"

definition Checksum :: "bytes \<Rightarrow> u32" where
  "Checksum data = Checksum_from 0 data"

section \<open>Apply\<close>

text \<open>
  The command loop.  Lengths of slices are below \<open>2^63\<close>, so \<open>len\<close>, \<open>int\<close> and \<open>r.pos\<close> are
  natural numbers; the counts and offsets read from the delta are 64-bit words.  The
  allocation \<open>make([]byte, 0, targetLen)\<close> panics above \<open>max_alloc\<close>.
\<close>

lemma getInt_loop_step:
  "rd_pos r < length (rd_data r) \<Longrightarrow> is_digit (rd_data r ! rd_pos r) \<Longrightarrow>
   getInt_loop r v started = getInt_loop (r\<lparr>rd_pos := rd_pos r + 1\<rparr>)
     (v * 64 + word_of_int (digits ! byte_val (rd_data r ! rd_pos r))) True"
  by (subst getInt_loop.simps) simp

lemma getInt_loop_stop:
  "\<not> (rd_pos r < length (rd_data r) \<and> is_digit (rd_data r ! rd_pos r)) \<Longrightarrow>
   getInt_loop r v started = (v, started, r)"
  by (subst getInt_loop.simps) (auto simp: Let_def)

lemma getInt_loop_progress:
  assumes "getInt_loop r v started = (w, b, r')"
  shows "rd_data r' = rd_data r \<and> rd_pos r \<le> rd_pos r' \<and>
         (b \<longrightarrow> started \<or> rd_pos r < rd_pos r') \<and>
         (rd_pos r \<le> length (rd_data r) \<longrightarrow> rd_pos r' \<le> length (rd_data r))"
  using assms
proof (induction r v started rule: getInt_loop.induct)
  case (1 r v started)
  show ?case
  proof (cases "rd_pos r < length (rd_data r) \<and> is_digit (rd_data r ! rd_pos r)")
    case True
    with "1.prems" have "getInt_loop (r\<lparr>rd_pos := rd_pos r + 1\<rparr>)
        (v * 64 + word_of_int (digits ! byte_val (rd_data r ! rd_pos r))) True = (w, b, r')"
      by (simp add: getInt_loop_step)
    with "1.IH" True show ?thesis by fastforce
  next
    case False
    with "1.prems" have "w = v" "b = started" "r' = r"
      by (auto simp: getInt_loop_stop [OF False])
    then show ?thesis by simp
  qed
qed

lemma getInt_progress:
  assumes "getInt r = Ok (v, r')"
  shows "rd_data r' = rd_data r" and "rd_pos r < rd_pos r'"
proof -
  obtain w b s where eq: "getInt_loop r 0 False = (w, b, s)" by (cases "getInt_loop r 0 False")
  with assms have "b" and "s = r'" by (auto simp: getInt_def split: if_splits)
  with getInt_loop_progress [OF eq] show "rd_data r' = rd_data r" and "rd_pos r < rd_pos r'"
    by auto
qed

lemma getChar_Ok:
  "getChar r = Ok (c, r') \<longleftrightarrow>
     rd_pos r < length (rd_data r) \<and> c = rd_data r ! rd_pos r \<and> r' = r\<lparr>rd_pos := rd_pos r + 1\<rparr>"
  by (auto simp: getChar_def)

function Apply_loop :: "bytes \<Rightarrow> u64 \<Rightarrow> reader \<Rightarrow> bytes \<Rightarrow> (delta_error, bytes) outcome" where
  "Apply_loop source targetLen r output =
     (if rd_pos r < length (rd_data r) then
        bind_ok (getInt r) (\<lambda>(cnt, r1).
        bind_ok (getChar r1) (\<lambda>(cmd, r2).
          if cmd = CHR ''@'' then
            bind_ok (getInt r2) (\<lambda>(offset, r3).
            bind_ok (getChar r3) (\<lambda>(term, r4).
              if term \<noteq> CHR '','' then Err (ErrInvalidDelta ''expected comma in copy command'')
              else if unat offset > length source \<or> unat cnt > length source then
                Err (ErrInvalidDelta ''copy offset/count overflow'')
              else if unat offset + unat cnt > length source then
                Err (ErrInvalidDelta ''copy exceeds source bounds'')
              else Apply_loop source targetLen r4
                     (output @ subslice (unat offset) (unat offset + unat cnt) source)))
          else if cmd = CHR '':'' then
            (if unat cnt > length (rd_data r2) then
               Err (ErrInvalidDelta ''insert count overflow'')
             else if rd_pos r2 + unat cnt > length (rd_data r2) then
               Err (ErrInvalidDelta ''insert exceeds delta bounds'')
             else Apply_loop source targetLen (r2\<lparr>rd_pos := rd_pos r2 + unat cnt\<rparr>)
                    (output @ subslice (rd_pos r2) (rd_pos r2 + unat cnt) (rd_data r2)))
          else if cmd = CHR '';'' then
            (if (word_of_nat (length output) :: u64) \<noteq> targetLen then
               Err (ErrInvalidDelta ''output size != target size'')
             else if cnt \<noteq> ucast (Checksum output) then Err ErrChecksum
             else Ok output)
          else Err (ErrInvalidDelta ''unknown command'')))
      else Err (ErrInvalidDelta ''missing terminator''))"
  by pat_completeness auto
termination
proof (relation "measure (\<lambda>(s, n, r, out). length (rd_data r) - rd_pos r)", goal_cases)
  case 1
  show ?case by simp
next
  case (2 source targetLen r out x cnt r1 y cmd r2 z offset r3 u t r4)
  then have "getInt r = Ok (cnt, r1)" "getChar r1 = Ok (cmd, r2)"
    "getInt r2 = Ok (offset, r3)" "getChar r3 = Ok (t, r4)" by auto
  with 2(1) show ?case
    using getInt_progress [of r cnt r1] getInt_progress [of r2 offset r3]
    by (auto simp: getChar_Ok)
next
  case (3 source targetLen r out x cnt r1 y cmd r2)
  then have "getInt r = Ok (cnt, r1)" "getChar r1 = Ok (cmd, r2)" by auto
  with 3(1) show ?case
    using getInt_progress [of r cnt r1] by (auto simp: getChar_Ok)
qed

declare Apply_loop.simps [simp del]

definition Apply :: "bytes \<Rightarrow> bytes \<Rightarrow> (delta_error, bytes) outcome" where
  "Apply source delta =
     (if length delta = 0 then Err (ErrInvalidDelta ''empty delta'')
      else bind_ok (getInt \<lparr>rd_data = delta, rd_pos = 0\<rparr>) (\<lambda>(targetLen, r1).
           bind_ok (getChar r1) (\<lambda>(term, r2).
             if term \<noteq> NL then Err (ErrInvalidDelta ''expected newline after target length'')
             else if unat targetLen > max_alloc then Panic ''makeslice: cap out of range''
             else Apply_loop source targetLen r2 [])))"

section \<open>Writing integers\<close>

definition zDigitsEnc :: string where
  "zDigitsEnc = ''0123456789ABCDEFGHIJKLMNOPQRSTUVWXYZ_abcdefghijklmnopqrstuvwxyz~''"

text \<open>The digits that the loop of \<open>appendInt\<close> writes right to left into \<open>tmp\<close>.\<close>

function enc_digits :: "u64 \<Rightarrow> bytes" where
  "enc_digits v =
     (if v > 0 then enc_digits (drop_bit 6 v) @ [zDigitsEnc ! unat (v AND 0x3f)] else [])"
  by pat_completeness auto
termination
proof (relation "measure unat", goal_cases)
  case 1
  show ?case by simp
next
  case (2 v)
  then have "0 < unat v" by (simp add: word_greater_zero_iff unat_gt_0)
  then have "unat v div 2 ^ 6 < unat v" by (intro div_less_dividend) simp_all
  then show ?case by (simp only: in_measure unat_drop_bit_eq) (simp only: drop_bit_eq_div)
qed

declare enc_digits.simps [simp del]

definition appendInt :: "bytes \<Rightarrow> u64 \<Rightarrow> bytes" where
  "appendInt buf v = (if v = 0 then buf @ ''0'' else buf @ enc_digits v)"

section \<open>The hash table of source blocks\<close>

definition nHash :: nat where
  "nHash = 16"

record hashEntry =
  he_offset :: nat
  he_next :: int

definition rollingHash :: "bytes \<Rightarrow> u32" where
  "rollingHash data = foldl (\<lambda>h b. h * 37 + to_u32 b) 0 data"

text \<open>\<open>for tableSize&(tableSize-1) != 0 { tableSize &= tableSize - 1 }\<close>\<close>

function clear_low_bits :: "nat \<Rightarrow> nat" where
  "clear_low_bits n = (if n AND (n - 1) \<noteq> 0 then clear_low_bits (n AND (n - 1)) else n)"
  by pat_completeness auto
termination
proof (relation "measure id", goal_cases)
  case 1
  show ?case by simp
next
  case (2 n)
  then have "n \<noteq> 0" by (cases n) auto
  moreover have "n AND (n - 1) \<le> n - 1" by (rule and_nat_le2)
  ultimately show ?case by simp
qed

declare clear_low_bits.simps [simp del]

definition table_size :: "nat \<Rightarrow> nat" where
  "table_size len =
     (let t = len div nHash; t1 = (if t < 64 then 64 else t)
      in 2 * clear_low_bits t1)"

definition bucket :: "bytes \<Rightarrow> nat \<Rightarrow> nat" where
  "bucket block msk = unat (rollingHash block) AND msk"

text \<open>
  The loop \<open>for i := 0; i+nHash <= len(source); i += nHash\<close>: \<open>heads\<close> holds one-based
  positions in \<open>entries\<close> (0 for an empty bucket), \<open>next\<close> zero-based ones (\<open>-1\<close> for none).
\<close>

function build_loop :: "bytes \<Rightarrow> nat \<Rightarrow> nat \<Rightarrow> int list \<Rightarrow> hashEntry list \<Rightarrow> int list \<times> hashEntry list"
  where
  "build_loop source msk i heads entries =
     (if i + nHash \<le> length source then
        (let idx = bucket (subslice i (i + nHash) source) msk;
             entries' = entries @ [\<lparr>he_offset = i, he_next = heads ! idx - 1\<rparr>]
         in build_loop source msk (i + nHash) (heads[idx := int (length entries')]) entries')
      else (heads, entries))"
  by pat_completeness auto
termination
  by (relation "measure (\<lambda>(src, m, i, h, e). length src - i)") (auto simp: nHash_def)

declare build_loop.simps [simp del]

definition buildHashTable :: "bytes \<Rightarrow> int list \<times> hashEntry list \<times> nat" where
  "buildHashTable source =
     (let tableSize = table_size (length source);
          msk = tableSize - 1;
          (heads, entries) = build_loop source msk 0 (replicate tableSize 0) []
      in (heads, entries, msk))"

section \<open>Matching and emission\<close>

fun matchLen :: "bytes \<Rightarrow> bytes \<Rightarrow> nat" where
  "matchLen (x # xs) (y # ys) = (if x \<noteq> y then 0 else Suc (matchLen xs ys))"
| "matchLen _ _ = 0"

text \<open>
  The walk along one collision chain, \<open>for ei > 0 { ... ei = e.next + 1 }\<close>.  Nothing in the
  loop itself bounds it, so a walk that does not return is the value \<open>None\<close>;
  \<open>buildHashTable\<close> never builds such a chain (\<open>Create_total\<close> of \<open>Delta_Roundtrip\<close>).
\<close>

partial_function (option) chain_walk ::
  "bytes \<Rightarrow> bytes \<Rightarrow> hashEntry list \<Rightarrow> nat \<Rightarrow> int \<Rightarrow> nat \<Rightarrow> nat \<Rightarrow> (nat \<times> nat) option" where
  "chain_walk source target entries tPos ei bestLen bestOff =
     (if ei > 0 then
        (let e = entries ! nat (ei - 1);
             sOff = he_offset e;
             ml = matchLen (drop sOff source) (drop tPos target);
             better = sOff + nHash \<le> length source \<and> ml \<ge> nHash \<and> ml > bestLen
         in chain_walk source target entries tPos (he_next e + 1)
              (if better then ml else bestLen) (if better then sOff else bestOff))
      else Some (bestLen, bestOff))"

definition find_best ::
  "bytes \<Rightarrow> bytes \<Rightarrow> int list \<Rightarrow> hashEntry list \<Rightarrow> nat \<Rightarrow> nat \<Rightarrow> (nat \<times> nat) option" where
  "find_best source target heads entries msk tPos =
     (if tPos + nHash \<le> length target then
        chain_walk source target entries tPos
          (heads ! bucket (subslice tPos (tPos + nHash) target) msk) 0 0
      else Some (0, 0))"

definition flushInsert :: "bytes \<Rightarrow> bytes \<Rightarrow> bytes" where
  "flushInsert buf pendingInsert =
     (if length pendingInsert > 0
      then appendInt buf (word_of_nat (length pendingInsert)) @ '':'' @ pendingInsert
      else buf)"

definition emit_copy :: "bytes \<Rightarrow> nat \<Rightarrow> nat \<Rightarrow> bytes" where
  "emit_copy buf bestLen bestOff =
     appendInt (appendInt buf (word_of_nat bestLen) @ ''@'') (word_of_nat bestOff) @ '',''"

function emit_loop ::
  "bytes \<Rightarrow> bytes \<Rightarrow> int list \<Rightarrow> hashEntry list \<Rightarrow> nat \<Rightarrow> nat \<Rightarrow> bytes \<Rightarrow> bytes \<Rightarrow> bytes option" where
  "emit_loop source target heads entries msk tPos pending buf =
     (if tPos < length target then
        (case find_best source target heads entries msk tPos of
           None \<Rightarrow> None
         | Some (bestLen, bestOff) \<Rightarrow>
             if bestLen \<ge> nHash then
               emit_loop source target heads entries msk (tPos + bestLen) []
                 (emit_copy (flushInsert buf pending) bestLen bestOff)
             else emit_loop source target heads entries msk (tPos + 1)
                    (pending @ [target ! tPos]) buf)
      else Some (flushInsert buf pending))"
  by pat_completeness auto
termination
  by (relation "measure (\<lambda>(s, t, h, e, m, p, q, b). length t - p)") (auto simp: nHash_def)

declare emit_loop.simps [simp del]

definition emitMatches ::
  "bytes \<Rightarrow> bytes \<Rightarrow> int list \<Rightarrow> hashEntry list \<Rightarrow> nat \<Rightarrow> bytes option" where
  "emitMatches source target heads entries msk =
     (case emit_loop source target heads entries msk 0 []
             (appendInt [] (word_of_nat (length target)) @ [NL]) of
        None \<Rightarrow> None
      | Some buf \<Rightarrow> Some (appendInt buf (ucast (Checksum target)) @ '';''))"

definition createInsertAll :: "bytes \<Rightarrow> bytes" where
  "createInsertAll target =
     appendInt (appendInt (appendInt [] (word_of_nat (length target)) @ [NL])
                  (word_of_nat (length target)) @ '':'' @ target)
       (ucast (Checksum target)) @ '';''"

text \<open>\<open>None\<close> stands for a call that does not return; \<open>Create_total\<close> excludes it.\<close>

definition Create :: "bytes \<Rightarrow> bytes \<Rightarrow> bytes option" where
  "Create source target =
     (if length target = 0 then
        Some (appendInt (appendInt [] 0 @ [NL]) (ucast (Checksum target)) @ '';'')
      else if length source < 16 then Some (createInsertAll target)
      else (case buildHashTable source of (heads, entries, msk) \<Rightarrow>
              emitMatches source target heads entries msk))"

end
