(* ===== verification/Codec.thy ===== *)
theory Codec
  imports Prelude
begin

text \<open>
  Interfaces between the codecs and their clients.  \<open>item_codec\<close> is a self-delimiting
  format for single items: an encoded item followed by arbitrary data is decoded to the item
  (in a normal form) and that data.  \<open>stream_codec\<close> adds the loops that write a list of
  items and read items until the end of the input.
\<close>

locale item_codec =
  fixes enc :: "'c \<Rightarrow> ('e, 's list) outcome"
    and dec :: "'s list \<Rightarrow> ('e, 'c \<times> 's list) outcome"
    and wf :: "'c \<Rightarrow> bool"
    and norm :: "'c \<Rightarrow> 'c"
    and eof :: 'e
  assumes enc_total: "wf c \<Longrightarrow> \<exists>s. enc c = Ok s"
    and dec_enc: "wf c \<Longrightarrow> enc c = Ok s \<Longrightarrow> dec (s @ r) = Ok (norm c, r)"
    and dec_end: "dec [] = Err eof"
begin

lemma enc_inj_norm:
  assumes "wf c" "wf d" "enc c = Ok (s @ t)" "enc d = Ok s"
  shows "t = [] \<and> norm c = norm d"
  using dec_enc [OF assms(1,3), of "[]"] dec_enc [OF assms(2,4), of t] by simp

lemma enc_nonempty:
  assumes "wf c" "enc c = Ok s"
  shows "s \<noteq> []"
  using dec_enc [OF assms, of "[]"] dec_end by auto

end

locale stream_codec = item_codec enc dec wf norm eof
  for enc :: "'c \<Rightarrow> ('e, 's list) outcome" and dec wf norm eof +
  fixes encs :: "'c list \<Rightarrow> 's list \<Rightarrow> ('e, 's list) outcome"
    and decs :: "'s list \<Rightarrow> 'c list \<Rightarrow> ('e, 'c list) outcome"
  assumes encs_Nil: "encs [] buf = Ok buf"
    and encs_Cons: "enc c = Ok s \<Longrightarrow> encs (c # cs) buf = encs cs (buf @ s)"
    and decs_item: "dec r = Ok (c, r') \<Longrightarrow> decs r acc = decs r' (acc @ [c])"
    and decs_end: "dec r = Err eof \<Longrightarrow> decs r acc = Ok acc"
begin

lemma encs_total: "list_all wf cs \<Longrightarrow> \<exists>s. \<forall>buf. encs cs buf = Ok (buf @ s)"
proof (induction cs)
  case Nil
  show ?case by (auto simp: encs_Nil intro: exI [of _ "[]"])
next
  case (Cons c cs)
  then obtain t s where t: "enc c = Ok t" and s: "\<And>buf. encs cs buf = Ok (buf @ s)"
    using enc_total [of c] by auto
  have "\<forall>buf. encs (c # cs) buf = Ok (buf @ (t @ s))" using t s by (simp add: encs_Cons)
  then show ?case by blast
qed

lemma decs_encs_append:
  "list_all wf cs \<Longrightarrow> encs cs buf = Ok (buf @ s) \<Longrightarrow> decs (s @ r) acc = decs r (acc @ map norm cs)"
proof (induction cs arbitrary: buf s acc)
  case Nil
  then show ?case by (simp add: encs_Nil)
next
  case (Cons c cs)
  then obtain t where t: "enc c = Ok t" using enc_total [of c] by auto
  from Cons.prems encs_total [of cs] obtain u where u: "\<And>buf. encs cs buf = Ok (buf @ u)" by auto
  from Cons.prems t u have s: "s = t @ u" by (simp add: encs_Cons)
  have "decs (s @ r) acc = decs (u @ r) (acc @ [norm c])"
    using Cons.prems t by (simp add: s decs_item dec_enc)
  also have "\<dots> = decs r ((acc @ [norm c]) @ map norm cs)"
    using Cons.IH [of buf u "acc @ [norm c]"] Cons.prems u by simp
  finally show ?case by simp
qed

lemma decs_encs:
  "list_all wf cs \<Longrightarrow> encs cs buf = Ok (buf @ s) \<Longrightarrow> decs s acc = Ok (acc @ map norm cs)"
  using decs_encs_append [of cs buf s "[]" acc] by (simp add: decs_end dec_end)

end

text \<open>
  A delta codec: a delta between two values that fit exists, and applying it to the first
  gives the second.  A chain of deltas created from successive versions therefore rebuilds
  the last version from the first.
\<close>

locale delta_codec =
  fixes mk :: "'a \<Rightarrow> 'a \<Rightarrow> 'd option"
    and ap :: "'a \<Rightarrow> 'd \<Rightarrow> ('e, 'a) outcome"
    and fits :: "'a \<Rightarrow> bool"
  assumes mk_ap: "fits a \<Longrightarrow> fits b \<Longrightarrow> \<exists>d. mk a b = Some d \<and> ap a d = Ok b"
begin

lemma ap_mk: "fits a \<Longrightarrow> fits b \<Longrightarrow> mk a b = Some d \<Longrightarrow> ap a d = Ok b"
  using mk_ap [of a b] by auto

lemma replay_created:
  "fits v \<Longrightarrow> list_all fits vs \<Longrightarrow> list_all2 (\<lambda>(a, b) d. mk a b = Some d) (zip (v # vs) vs) ds \<Longrightarrow>
   foldl (\<lambda>m d. bind_ok m (\<lambda>c. ap c d)) (Ok v) ds = Ok (last (v # vs))"
proof (induction vs arbitrary: v ds)
  case (Cons w ws)
  then obtain d ds' where "ds = d # ds'" "mk v w = Some d" by (auto simp: list_all2_Cons1)
  with Cons ap_mk [of v w d] show ?case by simp
qed simp

end

end
