(* ===== verification/Delta_Roundtrip.thy ===== *)
theory Delta_Roundtrip
  imports Delta Codec
begin

unbundle bit_operations_syntax

text \<open>
  Correctness of the delta codec.  The lemmas follow the format bottom up: one digit, one
  integer, one command, the command stream of \<open>emit_loop\<close>, a whole delta.  Readers are
  described by the bytes still to be read, \<open>drop (rd_pos r) (rd_data r)\<close>.
\<close>

section \<open>Integers\<close>

lemma digit_table:
  assumes "d < 64"
  shows "is_digit (zDigitsEnc ! d) \<and> digits ! byte_val (zDigitsEnc ! d) = int d"
proof -
  have "list_all (\<lambda>d. is_digit (zDigitsEnc ! d) \<and> digits ! byte_val (zDigitsEnc ! d) = int d) [0..<64]"
    by code_simp
  with assms show ?thesis by (simp add: list_all_iff)
qed

lemma separators_not_digits [simp]:
  "\<not> is_digit NL" "\<not> is_digit CHR '':''" "\<not> is_digit CHR ''@''"
  "\<not> is_digit CHR '',''" "\<not> is_digit CHR '';''"
  by code_simp+

definition digit_step :: "u64 \<Rightarrow> byte \<Rightarrow> u64" where
  "digit_step v c = v * 64 + word_of_int (digits ! byte_val c)"

lemma and_63_less: "unat (v AND 0x3f :: u64) < 64"
proof -
  have "v AND 0x3f \<le> (0x3f :: u64)" by (rule word_and_le1)
  then have "unat (v AND 0x3f) \<le> unat (0x3f :: u64)" by (simp only: word_le_nat_alt)
  then show ?thesis by simp
qed

lemma split_low_digit: "drop_bit 6 v * 64 + (v AND 0x3f) = (v :: u64)"
proof -
  have "v AND 0x3f = take_bit 6 v" by (simp add: take_bit_eq_mask mask_eq_exp_minus_1)
  moreover have "drop_bit 6 v * 64 = push_bit 6 (drop_bit 6 v)" by (simp add: push_bit_eq_mult)
  ultimately show ?thesis by (simp only: bits_ident)
qed

lemma enc_digits_pos:
  "v \<noteq> 0 \<Longrightarrow> enc_digits v = enc_digits (drop_bit 6 v) @ [zDigitsEnc ! unat (v AND 0x3f)]"
  by (subst enc_digits.simps) (simp add: word_greater_zero_iff)

lemma enc_digits_0 [simp]: "enc_digits 0 = []"
  by (subst enc_digits.simps) simp

lemma enc_digits_value:
  "(\<forall>c \<in> set (enc_digits v). is_digit c) \<and> foldl digit_step 0 (enc_digits v) = v"
proof (induction v rule: enc_digits.induct)
  case (1 v)
  show ?case
  proof (cases "v = 0")
    case False
    let ?d = "unat (v AND 0x3f)"
    from False have gt: "v > 0" by (simp add: word_greater_zero_iff)
    from digit_table [OF and_63_less [of v]]
    have d: "is_digit (zDigitsEnc ! ?d)" "digits ! byte_val (zDigitsEnc ! ?d) = int ?d" by auto
    have "word_of_int (int ?d) = v AND 0x3f" by simp
    with d(2) have "foldl digit_step 0 (enc_digits v) = drop_bit 6 v * 64 + (v AND 0x3f)"
      using "1.IH" [OF gt]
      by (simp add: enc_digits_pos [OF False] digit_step_def [of _ "zDigitsEnc ! ?d"])
    with d(1) "1.IH" [OF gt] show ?thesis
      by (simp only: enc_digits_pos [OF False] split_low_digit) auto
  qed simp
qed

lemma enc_digits_nonempty: "v \<noteq> 0 \<Longrightarrow> enc_digits v \<noteq> []"
  by (simp add: enc_digits_pos)

lemma appendInt_append: "appendInt buf v = buf @ appendInt [] v"
  by (simp add: appendInt_def)

lemma appendInt_digits:
  "\<forall>c \<in> set (appendInt [] v). is_digit c" "appendInt [] v \<noteq> []"
  "foldl digit_step 0 (appendInt [] v) = v"
proof -
  have zero: "is_digit CHR ''0''" "digit_step 0 CHR ''0'' = 0" by code_simp+
  show "\<forall>c \<in> set (appendInt [] v). is_digit c" "appendInt [] v \<noteq> []"
    "foldl digit_step 0 (appendInt [] v) = v"
    using enc_digits_value [of v] enc_digits_nonempty [of v] zero by (auto simp: appendInt_def)
qed

lemma getInt_loop_scan:
  assumes "drop (rd_pos r) (rd_data r) = ds @ rest"
    and "\<forall>c \<in> set ds. is_digit c" and "rest = [] \<or> \<not> is_digit (hd rest)"
  shows "getInt_loop r v st =
           (foldl digit_step v ds, st \<or> ds \<noteq> [], r\<lparr>rd_pos := rd_pos r + length ds\<rparr>)"
  using assms
proof (induction ds arbitrary: r v st)
  case Nil
  then have "\<not> (rd_pos r < length (rd_data r) \<and> is_digit (rd_data r ! rd_pos r))"
    by (metis append_Nil drop_eq_Nil hd_drop_conv_nth leD)
  then show ?case by (simp add: getInt_loop_stop)
next
  case (Cons d ds)
  let ?r = "r\<lparr>rd_pos := rd_pos r + 1\<rparr>"
  from Cons.prems(1) have at: "rd_pos r < length (rd_data r)" "rd_data r ! rd_pos r = d"
    using drop_Cons_nth [of "rd_pos r" "rd_data r" d "ds @ rest"] by auto
  have "drop (rd_pos ?r) (rd_data ?r) = ds @ rest"
    using drop_split [of "rd_pos r" "rd_data r" "[d]" "ds @ rest"] Cons.prems(1) by simp
  with Cons show ?case
    by (simp add: getInt_loop_step at digit_step_def)
qed

lemma getInt_appendInt:
  assumes "drop (rd_pos r) (rd_data r) = appendInt [] v @ c # rest" and "\<not> is_digit c"
  shows "getInt r = Ok (v, r\<lparr>rd_pos := rd_pos r + length (appendInt [] v)\<rparr>)"
  using getInt_loop_scan [OF assms(1) appendInt_digits(1), of 0 False] assms(2)
  by (simp add: getInt_def appendInt_digits)

lemma getChar_at:
  assumes "drop (rd_pos r) (rd_data r) = c # rest"
  shows "getChar r = Ok (c, r\<lparr>rd_pos := rd_pos r + 1\<rparr>)"
  using drop_Cons_nth [OF assms] by (simp add: getChar_def)

lemma unat_drop6: "unat (drop_bit 6 v :: u64) = unat v div 64"
  by (simp only: unat_drop_bit_eq) (simp add: drop_bit_eq_div)

lemma length_enc_digits: "unat v < 64 ^ n \<Longrightarrow> length (enc_digits v) \<le> n"
proof (induction n arbitrary: v)
  case 0
  then have "v = 0" by (simp add: unat_eq_zero)
  then show ?case by simp
next
  case (Suc n)
  show ?case
  proof (cases "v = 0")
    case False
    from Suc.prems have "unat (drop_bit 6 v) < 64 ^ n"
      by (simp add: unat_drop6 less_mult_imp_div_less mult.commute)
    from Suc.IH [OF this] show ?thesis by (simp add: enc_digits_pos [OF False])
  qed simp
qed

section \<open>Commands\<close>

lemma unat_of_nat_u64: "n < 2 ^ 64 \<Longrightarrow> unat (word_of_nat n :: u64) = n"
  by (simp add: unat_of_nat)

lemma emit_copy_append: "emit_copy buf n off = buf @ emit_copy [] n off"
  by (simp add: emit_copy_def appendInt_append [of "_ @ _"] appendInt_append [of buf])

lemma flushInsert_append: "flushInsert buf q = buf @ flushInsert [] q"
  by (simp add: flushInsert_def appendInt_append [of buf])

lemma Apply_loop_copy:
  assumes at: "drop (rd_pos r) (rd_data r) = emit_copy [] n off @ rest"
    and bounds: "off + n \<le> length source" "length source < 2 ^ 64"
  shows "Apply_loop source tlen r out =
           Apply_loop source tlen (r\<lparr>rd_pos := rd_pos r + length (emit_copy [] n off)\<rparr>)
             (out @ subslice off (off + n) source)"
proof -
  let ?I = "appendInt [] (word_of_nat n)" and ?J = "appendInt [] (word_of_nat off)"
  let ?r1 = "r\<lparr>rd_pos := rd_pos r + length ?I\<rparr>"
  let ?r2 = "?r1\<lparr>rd_pos := rd_pos ?r1 + 1\<rparr>"
  let ?r3 = "?r2\<lparr>rd_pos := rd_pos ?r2 + length ?J\<rparr>"
  have enc: "emit_copy [] n off = ?I @ CHR ''@'' # ?J @ '',''"
    by (simp add: emit_copy_def appendInt_append [of "_ @ _"])
  have d0: "drop (rd_pos r) (rd_data r) = ?I @ CHR ''@'' # ?J @ CHR '','' # rest"
    using at by (simp add: enc)
  then have "rd_pos r < length (rd_data r)"
    using appendInt_digits(2) by (metis Nil_is_append_conv drop_eq_Nil not_le)
  moreover have d1: "drop (rd_pos ?r1) (rd_data ?r1) = CHR ''@'' # ?J @ CHR '','' # rest"
    using drop_split [OF d0] by simp
  moreover have d2: "drop (rd_pos ?r2) (rd_data ?r2) = ?J @ CHR '','' # rest"
    using drop_split [of _ _ "[CHR ''@'']", simplified, OF d1] by (simp add: add.commute)
  moreover have d3: "drop (rd_pos ?r3) (rd_data ?r3) = CHR '','' # rest"
    using drop_split [OF d2] by simp
  moreover have "unat (word_of_nat n :: u64) = n" "unat (word_of_nat off :: u64) = off"
    using bounds by (simp_all add: unat_of_nat_u64)
  ultimately show ?thesis
    using getInt_appendInt [OF d0] getChar_at [OF d1] getInt_appendInt [OF d2] getChar_at [OF d3] bounds
    by (subst Apply_loop.simps) (simp add: enc add.assoc)
qed

lemma Apply_loop_insert:
  assumes at: "drop (rd_pos r) (rd_data r) = flushInsert [] q @ rest"
    and bounds: "length q < 2 ^ 64"
  shows "Apply_loop source tlen r out =
           Apply_loop source tlen (r\<lparr>rd_pos := rd_pos r + length (flushInsert [] q)\<rparr>) (out @ q)"
proof (cases "q = []")
  case True
  then show ?thesis by (simp add: flushInsert_def)
next
  case False
  let ?I = "appendInt [] (word_of_nat (length q))"
  let ?r1 = "r\<lparr>rd_pos := rd_pos r + length ?I\<rparr>"
  let ?r2 = "?r1\<lparr>rd_pos := rd_pos ?r1 + 1\<rparr>"
  have enc: "flushInsert [] q = ?I @ CHR '':'' # q" using False by (simp add: flushInsert_def)
  have d0: "drop (rd_pos r) (rd_data r) = ?I @ CHR '':'' # q @ rest"
    using at by (simp add: enc)
  then have "rd_pos r < length (rd_data r)"
    using appendInt_digits(2) by (metis Nil_is_append_conv drop_eq_Nil not_le)
  moreover have d1: "drop (rd_pos ?r1) (rd_data ?r1) = CHR '':'' # q @ rest"
    using drop_split [OF d0] by simp
  moreover have d2: "drop (rd_pos ?r2) (rd_data ?r2) = q @ rest"
    using drop_split [of _ _ "[CHR '':'']", simplified, OF d1] by (simp add: add.commute)
  moreover have fits: "rd_pos ?r2 + length q \<le> length (rd_data r)"
  proof -
    have "length (rd_data r) - rd_pos ?r2 = length q + length rest"
      using arg_cong [OF d2, of length] by simp
    moreover from False have "0 < length q" by simp
    ultimately show ?thesis by linarith
  qed
  moreover from bounds have "unat (word_of_nat (length q) :: u64) = length q"
    by (simp add: unat_of_nat_u64)
  moreover have "subslice (rd_pos ?r2) (rd_pos ?r2 + length q) (rd_data r) = q"
    using d2 by (simp add: subslice_def)
  ultimately show ?thesis
    using getInt_appendInt [OF d0] getChar_at [OF d1]
    by (subst Apply_loop.simps) (simp add: enc add.assoc)
qed

lemma Apply_loop_insert_copy:
  assumes at: "drop (rd_pos r) (rd_data r) = (flushInsert [] q @ emit_copy [] n off) @ rest"
    and len: "length q < 2 ^ 64"
    and bounds: "off + n \<le> length source" "length source < 2 ^ 64"
  shows "Apply_loop source tlen r out =
           Apply_loop source tlen
             (r\<lparr>rd_pos := rd_pos r + length (flushInsert [] q @ emit_copy [] n off)\<rparr>)
             (out @ q @ subslice off (off + n) source)"
proof -
  let ?r1 = "r\<lparr>rd_pos := rd_pos r + length (flushInsert [] q)\<rparr>"
  have d0: "drop (rd_pos r) (rd_data r) = flushInsert [] q @ emit_copy [] n off @ rest"
    using at by simp
  have d1: "drop (rd_pos ?r1) (rd_data ?r1) = emit_copy [] n off @ rest"
    using drop_split [OF d0] by simp
  show ?thesis
    using Apply_loop_insert [OF d0 len, of source tlen out]
      Apply_loop_copy [OF d1 bounds, of tlen "out @ q"]
    by (simp add: add.assoc)
qed

lemma Apply_loop_end:
  assumes at: "drop (rd_pos r) (rd_data r) = appendInt [] (ucast (Checksum out)) @ CHR '';'' # rest"
    and len: "tlen = word_of_nat (length out)"
  shows "Apply_loop source tlen r out = Ok out"
proof -
  let ?I = "appendInt [] (ucast (Checksum out))"
  let ?r1 = "r\<lparr>rd_pos := rd_pos r + length ?I\<rparr>"
  from at have "rd_pos r < length (rd_data r)"
    using appendInt_digits(2) by (metis Nil_is_append_conv drop_eq_Nil not_le)
  moreover have d1: "drop (rd_pos ?r1) (rd_data ?r1) = CHR '';'' # rest"
    using drop_split [OF at] by simp
  ultimately show ?thesis
    using getInt_appendInt [OF at] getChar_at [OF d1] len
    by (subst Apply_loop.simps) simp
qed

section \<open>Matches\<close>

lemma matchLen_bounds: "matchLen a b \<le> length a" "matchLen a b \<le> length b"
  by (induction a b rule: matchLen.induct) auto

lemma matchLen_take: "take (matchLen a b) a = take (matchLen a b) b"
  by (induction a b rule: matchLen.induct) auto

definition good_match :: "bytes \<Rightarrow> bytes \<Rightarrow> nat \<Rightarrow> nat \<times> nat \<Rightarrow> bool" where
  "good_match source target tPos m \<longleftrightarrow>
     (fst m \<ge> nHash \<longrightarrow>
        snd m + fst m \<le> length source \<and> tPos + fst m \<le> length target \<and>
        subslice (snd m) (snd m + fst m) source = subslice tPos (tPos + fst m) target)"

lemma good_matchI:
  assumes "sOff \<le> length source" and "tPos \<le> length target"
  shows "good_match source target tPos (matchLen (drop sOff source) (drop tPos target), sOff)"
  using assms matchLen_bounds [of "drop sOff source" "drop tPos target"]
    matchLen_take [of "drop sOff source" "drop tPos target"]
  by (auto simp: good_match_def subslice_def)

lemma chain_walk_good:
  assumes "chain_walk source target entries tPos ei bestLen bestOff = Some m"
    and "good_match source target tPos (bestLen, bestOff)" and "tPos \<le> length target"
  shows "good_match source target tPos m"
proof -
  let ?P = "\<lambda>source target entries tPos ei l off m. good_match source target tPos (l, off) \<longrightarrow>
    tPos \<le> length target \<longrightarrow> good_match source target tPos m"
  have "?P source target entries tPos ei bestLen bestOff m"
  proof (rule chain_walk.raw_induct [where P = ?P, OF _ assms(1)], goal_cases)
    case (1 walk source target entries tPos ei l off m)
    show ?case
    proof (intro impI)
      assume good: "good_match source target tPos (l, off)" and le: "tPos \<le> length target"
      let ?e = "entries ! nat (ei - 1)"
      let ?ml = "matchLen (drop (he_offset ?e) source) (drop tPos target)"
      let ?b = "he_offset ?e + nHash \<le> length source \<and> ?ml \<ge> nHash \<and> ?ml > l"
      show "good_match source target tPos m"
      proof (cases "ei > 0")
        case True
        with 1(2) have "walk source target entries tPos (he_next ?e + 1)
            (if ?b then ?ml else l) (if ?b then he_offset ?e else off) = Some m"
          by (simp add: Let_def)
        moreover have "good_match source target tPos
            (if ?b then ?ml else l, if ?b then he_offset ?e else off)"
          using good good_matchI [OF _ le, of "he_offset ?e" source] by auto
        ultimately show ?thesis using 1(1) le by blast
      next
        case False
        with 1(2) good show ?thesis by simp
      qed
    qed
  qed
  with assms show ?thesis by blast
qed

lemma find_best_good:
  assumes "find_best source target heads entries msk tPos = Some m" and "tPos < length target"
  shows "good_match source target tPos m"
proof -
  have "good_match source target tPos (0, 0)" by (simp add: good_match_def nHash_def)
  with assms chain_walk_good show ?thesis
    by (auto simp: find_best_def split: if_splits)
qed

section \<open>The command stream\<close>

lemma emit_loop_correct:
  assumes "emit_loop source target heads entries msk tPos pending buf = Some res"
    and "tPos \<le> length target" and "out @ pending = take tPos target"
    and "length source < 2 ^ 64" and "length target < 2 ^ 64"
  shows "\<exists>cmds. res = buf @ cmds \<and>
    (\<forall>r rest. drop (rd_pos r) (rd_data r) = cmds @ rest \<longrightarrow>
       Apply_loop source tlen r out =
         Apply_loop source tlen (r\<lparr>rd_pos := rd_pos r + length cmds\<rparr>) target)"
  using assms
proof (induction source target heads entries msk tPos pending buf
    arbitrary: out rule: emit_loop.induct)
  case (1 source target heads entries msk tPos pending buf)
  note eq = emit_loop.simps [of source target heads entries msk tPos pending buf]
  have pend: "length pending < 2 ^ 64"
    using arg_cong [OF "1.prems"(3), of length] "1.prems"(5) by simp
  show ?case
  proof (cases "tPos < length target")
    case False
    with "1.prems" have res: "res = buf @ flushInsert [] pending" and out: "out @ pending = target"
      by (simp_all add: eq flushInsert_append [of buf])
    show ?thesis
      using Apply_loop_insert [OF _ pend, of _ _ source tlen out] out by (auto simp: res)
  next
    case True
    with "1.prems"(1) obtain l off where best: "find_best source target heads entries msk tPos = Some (l, off)"
      by (auto simp: eq split: option.splits)
    show ?thesis
    proof (cases "l \<ge> nHash")
      case False
      have "emit_loop source target heads entries msk (tPos + 1) (pending @ [target ! tPos]) buf = Some res"
        using "1.prems"(1) True best False by (simp add: eq)
      moreover have "out @ pending @ [target ! tPos] = take (tPos + 1) target"
        using True "1.prems"(3) by (simp add: take_Suc_conv_app_nth flip: append_assoc)
      ultimately show ?thesis
        using "1.IH"(2) [OF True best refl False] True "1.prems"(4,5) by simp
    next
      case copy: True
      let ?b = "emit_copy (flushInsert buf pending) l off"
      from find_best_good [OF best True] copy
      have m: "off + l \<le> length source" "tPos + l \<le> length target"
        "subslice off (off + l) source = subslice tPos (tPos + l) target"
        by (auto simp: good_match_def)
      let ?out = "out @ pending @ subslice off (off + l) source"
      have run: "emit_loop source target heads entries msk (tPos + l) [] ?b = Some res"
        using "1.prems"(1) True best copy by (simp add: eq)
      have "?out @ [] = take (tPos + l) target"
        using "1.prems"(3) m(3) take_append_subslice [of tPos "tPos + l" target]
        by (simp flip: append_assoc)
      from "1.IH"(1) [OF True best refl copy run m(2) this "1.prems"(4,5)] obtain cmds where
        res: "res = ?b @ cmds" and IH: "\<And>r rest. drop (rd_pos r) (rd_data r) = cmds @ rest \<Longrightarrow>
          Apply_loop source tlen r ?out =
            Apply_loop source tlen (r\<lparr>rd_pos := rd_pos r + length cmds\<rparr>) target"
        by blast
      let ?F = "flushInsert [] pending" and ?C = "emit_copy [] l off"
      have "Apply_loop source tlen r out =
          Apply_loop source tlen (r\<lparr>rd_pos := rd_pos r + length (?F @ ?C @ cmds)\<rparr>) target"
        if at: "drop (rd_pos r) (rd_data r) = (?F @ ?C @ cmds) @ rest" for r rest
      proof -
        have d: "drop (rd_pos r) (rd_data r) = (?F @ ?C) @ cmds @ rest" using at by simp
        show ?thesis
          using Apply_loop_insert_copy [OF d pend m(1) "1.prems"(4), of tlen out]
            IH [of "r\<lparr>rd_pos := rd_pos r + length (?F @ ?C)\<rparr>" rest] drop_split [OF d]
          by (simp add: add.assoc)
      qed
      moreover have "res = buf @ (?F @ ?C @ cmds)"
        by (simp add: res emit_copy_append [of "buf @ flushInsert [] pending"] flushInsert_append [of buf])
      ultimately show ?thesis by blast
    qed
  qed
qed

section \<open>The hash table\<close>

text \<open>
  The chains of a table go strictly down and every bucket points into \<open>entries\<close>; this is
  what makes the walk in \<open>emitMatches\<close> stop and its indexing stay in range.
\<close>

definition table_ok :: "int list \<Rightarrow> hashEntry list \<Rightarrow> nat \<Rightarrow> bool" where
  "table_ok heads entries msk \<longleftrightarrow>
     msk < length heads \<and> (\<forall>h \<in> set heads. h \<le> int (length entries)) \<and>
     (\<forall>k < length entries. he_next (entries ! k) < int k)"

lemma bucket_le: "bucket b msk \<le> msk"
  by (simp add: bucket_def and_nat_le2)

lemma build_loop_ok:
  assumes "table_ok heads entries msk" and "build_loop source msk i heads entries = (heads', entries')"
  shows "table_ok heads' entries' msk \<and> length heads' = length heads"
  using assms
proof (induction source msk i heads entries rule: build_loop.induct)
  case (1 source msk i heads entries)
  note eq = build_loop.simps [of source msk i heads entries]
  show ?case
  proof (cases "i + nHash \<le> length source")
    case True
    let ?idx = "bucket (subslice i (i + nHash) source) msk"
    let ?es = "entries @ [\<lparr>he_offset = i, he_next = heads ! ?idx - 1\<rparr>]"
    let ?hs = "heads[?idx := int (length ?es)]"
    from "1.prems"(1) bucket_le [of "subslice i (i + nHash) source" msk] have "?idx < length heads"
      by (simp add: table_ok_def)
    with "1.prems"(1) have "heads ! ?idx \<le> int (length entries)"
      by (simp add: table_ok_def)
    with "1.prems"(1) have "table_ok ?hs ?es msk"
      by (fastforce simp: table_ok_def nth_append less_Suc_eq dest: set_update_subset_insert [THEN subsetD])
    moreover have "build_loop source msk (i + nHash) ?hs ?es = (heads', entries')"
      using "1.prems"(2) True by (simp add: eq Let_def)
    ultimately show ?thesis using "1.IH" [OF True refl refl] by simp
  next
    case False
    with "1.prems" show ?thesis by (simp add: eq)
  qed
qed

lemma clear_low_bits_pos: "0 < n \<Longrightarrow> 0 < clear_low_bits n"
proof (induction n rule: clear_low_bits.induct)
  case (1 n)
  then show ?case by (subst clear_low_bits.simps) auto
qed

lemma buildHashTable_ok:
  assumes "buildHashTable source = (heads, entries, msk)"
  shows "table_ok heads entries msk"
proof -
  let ?n = "table_size (length source)"
  have pos: "0 < ?n" by (simp add: table_size_def Let_def clear_low_bits_pos)
  then have "table_ok (replicate ?n 0) [] (?n - 1)" by (simp add: table_ok_def)
  with assms build_loop_ok show ?thesis
    by (fastforce simp: buildHashTable_def Let_def split: prod.splits)
qed

lemma chain_walk_returns:
  assumes "\<forall>k < length entries. he_next (entries ! k) < int k" and "ei \<le> int (length entries)"
  shows "\<exists>m. chain_walk source target entries tPos ei l off = Some m"
  using assms(2)
proof (induction "nat ei" arbitrary: ei l off rule: less_induct)
  case less
  show ?case
  proof (cases "ei > 0")
    case True
    let ?e = "entries ! nat (ei - 1)"
    from True less.prems have "nat (ei - 1) < length entries" by linarith
    with assms(1) have "he_next ?e < int (nat (ei - 1))" by blast
    with True have "nat (he_next ?e + 1) < nat ei" "he_next ?e + 1 \<le> int (length entries)"
      using less.prems by auto
    from less.hyps [OF this] True show ?thesis
      by (subst chain_walk.simps) (simp add: Let_def)
  next
    case False
    then show ?thesis by (subst chain_walk.simps) simp
  qed
qed

lemma find_best_returns:
  assumes "table_ok heads entries msk"
  shows "\<exists>m. find_best source target heads entries msk tPos = Some m"
proof -
  let ?idx = "bucket (subslice tPos (tPos + nHash) target) msk"
  from assms bucket_le [of "subslice tPos (tPos + nHash) target" msk] have "heads ! ?idx \<in> set heads"
    by (simp add: table_ok_def)
  with assms chain_walk_returns show ?thesis
    by (simp add: find_best_def table_ok_def)
qed

lemma emit_loop_returns:
  "table_ok heads entries msk \<Longrightarrow>
   \<exists>res. emit_loop source target heads entries msk tPos pending buf = Some res"
proof (induction source target heads entries msk tPos pending buf rule: emit_loop.induct)
  case (1 source target heads entries msk tPos pending buf)
  obtain l off where best: "find_best source target heads entries msk tPos = Some (l, off)"
    using find_best_returns [OF "1.prems"] by fastforce
  show ?case
    using "1.IH"(1) [OF _ best refl _ "1.prems"] "1.IH"(2) [OF _ best refl _ "1.prems"]
    by (subst emit_loop.simps) (simp add: best)
qed

lemma Create_total: "\<exists>d. Create source target = Some d"
proof -
  obtain heads entries msk where tab: "buildHashTable source = (heads, entries, msk)"
    by (cases "buildHashTable source")
  then obtain buf where "emit_loop source target heads entries msk 0 []
      (appendInt [] (word_of_nat (length target)) @ [NL]) = Some buf"
    using emit_loop_returns [OF buildHashTable_ok] by blast
  with tab show ?thesis by (simp add: Create_def emitMatches_def)
qed

section \<open>Whole deltas\<close>

text \<open>
  A delta is the target length, a newline, commands that rebuild the target and the
  checksum.  The three shapes that \<open>Create\<close> emits are instances of this one.
\<close>

lemma Apply_delta:
  assumes "\<And>r rest. drop (rd_pos r) (rd_data r) = cmds @ rest \<Longrightarrow>
       Apply_loop source (word_of_nat (length target)) r [] =
       Apply_loop source (word_of_nat (length target)) (r\<lparr>rd_pos := rd_pos r + length cmds\<rparr>) target"
    and d: "d = appendInt [] (word_of_nat (length target)) @ NL # cmds @
                  appendInt [] (ucast (Checksum target)) @ '';''"
    and len: "length target \<le> max_alloc"
  shows "Apply source d = Ok target"
proof -
  let ?I = "appendInt [] (word_of_nat (length target))"
  let ?E = "appendInt [] (ucast (Checksum target))"
  let ?r0 = "\<lparr>rd_data = d, rd_pos = 0\<rparr>"
  let ?r1 = "?r0\<lparr>rd_pos := rd_pos ?r0 + length ?I\<rparr>"
  let ?r2 = "?r1\<lparr>rd_pos := rd_pos ?r1 + 1\<rparr>"
  let ?r3 = "?r2\<lparr>rd_pos := rd_pos ?r2 + length cmds\<rparr>"
  have d0: "drop (rd_pos ?r0) (rd_data ?r0) = ?I @ NL # cmds @ ?E @ '';''" by (simp add: d)
  have d1: "drop (rd_pos ?r1) (rd_data ?r1) = NL # cmds @ ?E @ '';''"
    using drop_split [OF d0] by simp
  have d2: "drop (rd_pos ?r2) (rd_data ?r2) = cmds @ ?E @ '';''"
    using drop_split [of _ _ "[NL]", simplified, OF d1] by simp
  have d3: "drop (rd_pos ?r3) (rd_data ?r3) = ?E @ CHR '';'' # []"
    using drop_split [OF d2] by simp
  have "unat (word_of_nat (length target) :: u64) = length target"
    using len by (simp add: max_alloc_def unat_of_nat_u64)
  then have "Apply source d = Apply_loop source (word_of_nat (length target)) ?r2 []"
    using getInt_appendInt [OF d0] getChar_at [OF d1] len d0
    by (auto simp: Apply_def appendInt_digits)
  also have "\<dots> = Apply_loop source (word_of_nat (length target)) ?r3 target"
    using assms(1) [OF d2] by simp
  also have "\<dots> = Ok target" by (rule Apply_loop_end [OF d3 refl])
  finally show ?thesis .
qed

lemma Create_insert_form:
  "target \<noteq> [] \<Longrightarrow> createInsertAll target =
     appendInt [] (word_of_nat (length target)) @ NL # flushInsert [] target @
       appendInt [] (ucast (Checksum target)) @ '';''"
  by (simp add: createInsertAll_def flushInsert_def appendInt_append [of "_ @ _"])

lemma Apply_Create:
  assumes "Create source target = Some d"
    and "length source < 2 ^ 64" "length target \<le> max_alloc"
  shows "Apply source d = Ok target"
proof -
  let ?n = "word_of_nat (length target) :: u64"
  have len: "length target < 2 ^ 64" using assms(3) by (simp add: max_alloc_def)
  consider (empty) "target = []" | (short) "target \<noteq> []" "length source < 16"
    | (table) "target \<noteq> []" "length source \<ge> 16" by fastforce
  then show ?thesis
  proof cases
    case empty
    then show ?thesis using assms
      by (intro Apply_delta [where cmds = "[]"]) (auto simp: Create_def appendInt_append [of "_ @ _"])
  next
    case short
    show ?thesis
    proof (rule Apply_delta [where cmds = "flushInsert [] target"])
      show "d = appendInt [] ?n @ NL # flushInsert [] target @
              appendInt [] (ucast (Checksum target)) @ '';''"
        using short assms(1) by (simp add: Create_def Create_insert_form)
    qed (use assms(3) Apply_loop_insert [OF _ len, where out = "[]"] in auto)
  next
    case table
    obtain heads entries msk where tab: "buildHashTable source = (heads, entries, msk)"
      by (cases "buildHashTable source")
    with table assms(1) obtain buf where
      emit: "emit_loop source target heads entries msk 0 [] (appendInt [] ?n @ [NL]) = Some buf"
      and d: "d = appendInt buf (ucast (Checksum target)) @ '';''"
      by (auto simp: Create_def emitMatches_def split: option.splits)
    from emit_loop_correct [OF emit, where out = "[]" and tlen = ?n] assms(2) len obtain cmds where
      buf: "buf = (appendInt [] ?n @ [NL]) @ cmds" and
      run: "\<And>r rest. drop (rd_pos r) (rd_data r) = cmds @ rest \<Longrightarrow>
        Apply_loop source ?n r [] = Apply_loop source ?n (r\<lparr>rd_pos := rd_pos r + length cmds\<rparr>) target"
      by auto
    show ?thesis
      by (rule Apply_delta [OF run])
        (use d assms(3) in \<open>simp_all add: buf appendInt_append [of "_ @ _"]\<close>)
  qed
qed

text \<open>The delta codec interface, provided by \<open>Create\<close> and \<open>Apply\<close>.\<close>

interpretation fossil_delta: delta_codec Create Apply "\<lambda>s. length s \<le> max_alloc"
proof unfold_locales
  fix a b :: bytes assume "length a \<le> max_alloc" and b: "length b \<le> max_alloc"
  then have "length a < 2 ^ 64" by (simp add: max_alloc_def)
  with Create_total [of a b] Apply_Create b show "\<exists>d. Create a b = Some d \<and> Apply a d = Ok b" by blast
qed

section \<open>Properties\<close>

text \<open>
  Claim C1.  For every source and target that fit in memory, \<open>Create\<close> returns a delta and
  \<open>Apply\<close> of that delta to the source gives exactly the target.
\<close>

theorem delta_roundtrip:
  assumes "length source \<le> max_alloc" and "length target \<le> max_alloc"
  shows "\<exists>d. Create source target = Some d \<and> Apply source d = Ok target"
  using assms by (rule fossil_delta.mk_ap)

theorem delta_roundtrip_witness:
  "\<exists>d. Create ''the quick brown fox jumps'' ''a quick brown fox jumps over'' = Some d \<and>
       Apply ''the quick brown fox jumps'' d = Ok ''a quick brown fox jumps over''"
  by (rule delta_roundtrip) (simp_all add: max_alloc_def)

text \<open>
  \<open>getInt\<close> reads back every 64-bit value that \<open>appendInt\<close> wrote, whatever the
  position and the rest of the delta, provided the next byte is not a digit; and at most 11
  of the 13 bytes of the \<open>tmp\<close> buffer are used, so its index never runs below zero.
\<close>

theorem delta_int_roundtrip:
  assumes "\<not> is_digit c"
  shows "getInt \<lparr>rd_data = pre @ appendInt [] v @ c # rest, rd_pos = length pre\<rparr> =
           Ok (v, \<lparr>rd_data = pre @ appendInt [] v @ c # rest,
                   rd_pos = length pre + length (appendInt [] v)\<rparr>) \<and>
         length (appendInt [] v) \<le> 11"
proof -
  have "unat v < 2 ^ LENGTH(64)" by (rule unsigned_less)
  then have "unat v < 64 ^ 11" by simp
  then have "length (appendInt [] v) \<le> 11"
    using length_enc_digits [of v 11] by (simp add: appendInt_def)
  with getInt_appendInt [OF _ assms] show ?thesis by simp
qed

theorem delta_int_roundtrip_witness:
  "getInt \<lparr>rd_data = ''1:'' @ appendInt [] (- 1) @ CHR '';'' # [], rd_pos = length ''1:''\<rparr> =
     Ok (- 1, \<lparr>rd_data = ''1:'' @ appendInt [] (- 1) @ CHR '';'' # [],
               rd_pos = length ''1:'' + length (appendInt [] (- 1))\<rparr>)"
proof -
  have "\<not> is_digit (CHR '';'')" by code_simp
  from delta_int_roundtrip [OF this, of "''1:''" "- 1" "[]"] show ?thesis by blast
qed

lemma set_subslice: "set (subslice a b xs) \<subseteq> set xs"
  by (auto simp: subslice_def dest: in_set_takeD in_set_dropD)

text \<open>
  What a successful run of the command loop guarantees: the declared length, the checksum
  carried by the terminating command, and no byte from outside the source and the delta.
\<close>

lemma Apply_loop_sound:
  assumes "Apply_loop source tlen r out = Ok t"
  shows "word_of_nat (length t) = tlen \<and> set t \<subseteq> set out \<union> set source \<union> set (rd_data r)"
  using assms
proof (induction source tlen r out rule: Apply_loop.induct)
  case (1 source tlen r out)
  note eq = Apply_loop.simps [of source tlen r out]
  from "1.prems" obtain cnt r1 cmd r2 where
    in_data: "rd_pos r < length (rd_data r)" and
    i: "getInt r = Ok (cnt, r1)" and c: "getChar r1 = Ok (cmd, r2)"
    by (auto simp: eq bind_ok_eq_Ok split: if_splits)
  have data: "rd_data r2 = rd_data r" using c getInt_progress [OF i] by (auto simp: getChar_Ok)
  consider (copy) "cmd = CHR ''@''" | (ins) "cmd = CHR '':''" | (fin) "cmd = CHR '';''"
    using "1.prems" in_data i c by (auto simp: eq split: if_splits)
  then show ?case
  proof cases
    case copy
    then obtain offset r3 r4 where off: "getInt r2 = Ok (offset, r3)"
      and com: "getChar r3 = Ok (CHR '','', r4)"
      and bounds: "\<not> (length source < unat offset \<or> length source < unat cnt)"
        "\<not> length source < unat offset + unat cnt"
      and run: "Apply_loop source tlen r4
        (out @ subslice (unat offset) (unat offset + unat cnt) source) = Ok t"
      using "1.prems" in_data i c by (auto simp: eq bind_ok_eq_Ok split: if_splits)
    have "rd_data r4 = rd_data r"
      using com getInt_progress [OF off] data by (auto simp: getChar_Ok)
    with "1.IH"(1) [OF in_data i refl c refl copy off refl com refl _ bounds run]
      set_subslice [of "unat offset" "unat offset + unat cnt" source]
    show ?thesis by auto
  next
    case ins
    then have bounds: "\<not> length (rd_data r2) < unat cnt"
      "\<not> length (rd_data r2) < rd_pos r2 + unat cnt"
      and run: "Apply_loop source tlen (r2\<lparr>rd_pos := rd_pos r2 + unat cnt\<rparr>)
        (out @ subslice (rd_pos r2) (rd_pos r2 + unat cnt) (rd_data r2)) = Ok t"
      using "1.prems" in_data i c by (auto simp: eq split: if_splits)
    from ins have "cmd \<noteq> CHR ''@''" by simp
    from "1.IH"(2) [OF in_data i refl c refl this ins bounds run] data
      set_subslice [of "rd_pos r2" "rd_pos r2 + unat cnt" "rd_data r2"]
    show ?thesis by auto
  next
    case fin
    then show ?thesis using "1.prems" in_data i c by (auto simp: eq split: if_splits)
  qed
qed

lemma Apply_confined:
  assumes "Apply source delta = Ok t"
  shows "(\<exists>n r. getInt \<lparr>rd_data = delta, rd_pos = 0\<rparr> = Ok (n, r) \<and> word_of_nat (length t) = n) \<and>
         set t \<subseteq> set source \<union> set delta"
proof -
  from assms obtain n r1 r2 where
    n: "getInt \<lparr>rd_data = delta, rd_pos = 0\<rparr> = Ok (n, r1)" and
    c: "getChar r1 = Ok (NL, r2)" and run: "Apply_loop source n r2 [] = Ok t"
    by (auto simp: Apply_def bind_ok_eq_Ok split: if_splits)
  have "rd_data r2 = delta" using c getInt_progress [OF n] by (auto simp: getChar_Ok)
  with Apply_loop_sound [OF run] n show ?thesis by auto
qed



text \<open>
  A header that declares more than the largest allocation makes \<open>Apply\<close> panic
  (the unchecked \<open>make([]byte, 0, targetLen)\<close>) instead of returning \<open>ErrInvalidDelta\<close>,
  whatever follows the header.
\<close>

theorem Apply_oversized_header_panics:
  assumes "unat n > max_alloc"
  shows "is_panic (Apply source (appendInt [] n @ [NL] @ rest))"
proof -
  let ?r = "\<lparr>rd_data = appendInt [] n @ [NL] @ rest, rd_pos = 0\<rparr>"
  have d0: "drop (rd_pos ?r) (rd_data ?r) = appendInt [] n @ NL # rest" by simp
  have d1: "drop (rd_pos (?r\<lparr>rd_pos := rd_pos ?r + length (appendInt [] n)\<rparr>))
      (rd_data (?r\<lparr>rd_pos := rd_pos ?r + length (appendInt [] n)\<rparr>)) = NL # rest"
    by simp
  show ?thesis
    using getInt_appendInt [OF d0] getChar_at [OF d1] assms by (simp add: Apply_def)
qed

theorem Apply_oversized_header_panics_witness:
  "is_panic (Apply ''source'' (appendInt [] (2 ^ 60) @ [NL] @ ''0;''))"
  by (rule Apply_oversized_header_panics) (simp add: max_alloc_def)

end
