(* ===== verification/Go_Strings.thy ===== *)
theory Go_Strings
  imports Prelude
begin

text \<open>
  The functions of Go's \<open>strings\<close> and \<open>strconv\<close> packages that the repository uses on
  wire text: \<open>Fields\<close>, \<open>TrimSpace\<close>, \<open>TrimRight\<close>, \<open>SplitN\<close>, \<open>Join\<close>, \<open>Replace\<close>, \<open>Atoi\<close>
  (and \<open>ParseInt(s, 10, 64)\<close>, which agrees with it on 64-bit platforms) and the \<open>%d\<close> verb.
  White space is that of \<open>unicode.IsSpace\<close> read from UTF-8: a lead byte is never a
  continuation byte, so a space starts at a position exactly when one of the encodings
  below does, also in text that is not valid UTF-8.
\<close>

section \<open>White space\<close>

definition ascii_space :: "byte \<Rightarrow> bool" where
  "ascii_space c \<longleftrightarrow> c \<in> set [TAB, NL, CHR 0x0B, CHR 0x0C, CR, SPC]"

text \<open>The number of bytes of the space at the front of a string, 0 when there is none.\<close>

definition space_width :: "bytes \<Rightarrow> nat" where
  "space_width s =
     (case s of
        [] \<Rightarrow> 0
      | c # cs \<Rightarrow>
        if ascii_space c then 1
        else (case cs of
           [] \<Rightarrow> 0
         | d # ds \<Rightarrow>
           if c = CHR 0xC2 \<and> (d = CHR 0x85 \<or> d = CHR 0xA0) then 2
           else (case ds of
              [] \<Rightarrow> 0
            | e # es \<Rightarrow>
              if c = CHR 0xE1 \<and> d = CHR 0x9A \<and> e = CHR 0x80 \<or>
                 c = CHR 0xE2 \<and> d = CHR 0x80 \<and>
                   (0x80 \<le> byte_val e \<and> byte_val e \<le> 0x8A \<or>
                    e = CHR 0xA8 \<or> e = CHR 0xA9 \<or> e = CHR 0xAF) \<or>
                 c = CHR 0xE2 \<and> d = CHR 0x81 \<and> e = CHR 0x9F \<or>
                 c = CHR 0xE3 \<and> d = CHR 0x80 \<and> e = CHR 0x80
              then 3 else 0)))"

fun no_space :: "bytes \<Rightarrow> bool" where
  "no_space [] = True"
| "no_space (c # cs) = (space_width (c # cs) = 0 \<and> no_space cs)"

definition is_token :: "bytes \<Rightarrow> bool" where
  "is_token s \<longleftrightarrow> s \<noteq> [] \<and> no_space s"

section \<open>Splitting and trimming\<close>

function fields_from :: "bytes \<Rightarrow> bytes \<Rightarrow> bytes list" where
  "fields_from cur [] = (if cur = [] then [] else [cur])"
| "fields_from cur (c # cs) =
     (let w = space_width (c # cs) in
      if w > 0 then (if cur = [] then [] else [cur]) @ fields_from [] (drop (w - 1) cs)
      else fields_from (cur @ [c]) cs)"
  by pat_completeness auto
termination
  by (relation "measure (\<lambda>(cur, s). length s)") auto

definition Fields :: "bytes \<Rightarrow> bytes list" where
  "Fields s = fields_from [] s"

function trim_left :: "bytes \<Rightarrow> bytes" where
  "trim_left s = (if space_width s = 0 then s else trim_left (drop (space_width s) s))"
  by pat_completeness auto
termination
  by (relation "measure length") (auto simp: space_width_def split: list.splits)

declare trim_left.simps [simp del]

definition end_space_width :: "bytes \<Rightarrow> nat" where
  "end_space_width s =
     (if length s \<ge> 1 \<and> space_width (drop (length s - 1) s) = 1 then 1
      else if length s \<ge> 2 \<and> space_width (drop (length s - 2) s) = 2 then 2
      else if length s \<ge> 3 \<and> space_width (drop (length s - 3) s) = 3 then 3
      else 0)"

function trim_right :: "bytes \<Rightarrow> bytes" where
  "trim_right s = (if end_space_width s = 0 then s
                   else trim_right (take (length s - end_space_width s) s))"
  by pat_completeness auto
termination
  by (relation "measure length") (auto simp: end_space_width_def split: if_splits)

declare trim_right.simps [simp del]

definition TrimSpace :: "bytes \<Rightarrow> bytes" where
  "TrimSpace s = trim_right (trim_left s)"

text \<open>\<open>strings.TrimRight(s, "\n\r")\<close>\<close>

definition trim_eol :: "bytes \<Rightarrow> bytes" where
  "trim_eol s = rev (dropWhile (\<lambda>c. c = NL \<or> c = CR) (rev s))"

text \<open>The text before and after the first separator byte, if there is one.\<close>

fun cut :: "byte \<Rightarrow> bytes \<Rightarrow> (bytes \<times> bytes) option" where
  "cut sep [] = None"
| "cut sep (c # cs) =
     (if c = sep then Some ([], cs)
      else map_option (\<lambda>(a, b). (c # a, b)) (cut sep cs))"

text \<open>\<open>strings.SplitN(s, " ", n)\<close> for \<open>n \<ge> 1\<close>.\<close>

fun SplitN :: "byte \<Rightarrow> nat \<Rightarrow> bytes \<Rightarrow> bytes list" where
  "SplitN sep 0 s = []"
| "SplitN sep (Suc 0) s = [s]"
| "SplitN sep (Suc (Suc n)) s =
     (case cut sep s of None \<Rightarrow> [s] | Some (a, b) \<Rightarrow> a # SplitN sep (Suc n) b)"

fun Join :: "bytes list \<Rightarrow> bytes \<Rightarrow> bytes" where
  "Join [] sep = []"
| "Join [x] sep = x"
| "Join (x # xs) sep = x @ sep @ Join xs sep"

definition HasPrefix :: "bytes \<Rightarrow> bytes \<Rightarrow> bool" where
  "HasPrefix s p \<longleftrightarrow> take (length p) s = p"

text \<open>\<open>strings.Replace(s, old, new, 1)\<close> for one-byte strings.\<close>

fun replace_first :: "byte \<Rightarrow> byte \<Rightarrow> bytes \<Rightarrow> bytes" where
  "replace_first old new [] = []"
| "replace_first old new (c # cs) = (if c = old then new # cs else c # replace_first old new cs)"

section \<open>Decimal numbers\<close>

definition dec_digit :: "byte \<Rightarrow> bool" where
  "dec_digit c \<longleftrightarrow> 48 \<le> byte_val c \<and> byte_val c \<le> 57"

definition dec_val :: "byte \<Rightarrow> nat" where
  "dec_val c = byte_val c - 48"

definition digit_char :: "nat \<Rightarrow> byte" where
  "digit_char d = char_of (48 + d)"

definition parse_nat :: "bytes \<Rightarrow> nat option" where
  "parse_nat s =
     (if s \<noteq> [] \<and> list_all dec_digit s then Some (foldl (\<lambda>n c. n * 10 + dec_val c) 0 s) else None)"

text \<open>An \<open>int\<close> or \<open>int64\<close> is a 64-bit two's complement number.\<close>

definition int64_min :: int where "int64_min = - (2 ^ 63)"
definition int64_max :: int where "int64_max = 2 ^ 63 - 1"

definition is_int64 :: "int \<Rightarrow> bool" where
  "is_int64 i \<longleftrightarrow> int64_min \<le> i \<and> i \<le> int64_max"

definition Atoi :: "bytes \<Rightarrow> int option" where
  "Atoi s =
     (let (neg, ds) = (case s of c # cs \<Rightarrow> if c = CHR ''-'' then (True, cs)
                                           else if c = CHR ''+'' then (False, cs) else (False, s)
                                 | [] \<Rightarrow> (False, s))
      in case parse_nat ds of
           None \<Rightarrow> None
         | Some n \<Rightarrow> (let i = (if neg then - int n else int n) in if is_int64 i then Some i else None))"

fun show_nat :: "nat \<Rightarrow> bytes" where
  "show_nat n = (if n < 10 then [digit_char n] else show_nat (n div 10) @ [digit_char (n mod 10)])"

declare show_nat.simps [simp del]

definition show_int :: "int \<Rightarrow> bytes" where
  "show_int i = (if i < 0 then CHR ''-'' # show_nat (nat (- i)) else show_nat (nat i))"

text \<open>\<open>hex.EncodeToString\<close>, byte by byte.\<close>

definition hex_byte :: "byte \<Rightarrow> bytes" where
  "hex_byte c = (let d = (\<lambda>n. if n < 10 then char_of (48 + n) else char_of (87 + n))
                 in [d (byte_val c div 16), d (byte_val c mod 16)])"

section \<open>Laws of white space\<close>

lemma space_width_eq_0_append:
  assumes "space_width (c # s) = 0" and "byte_val d < 128"
  shows "space_width (c # s @ d # rest) = 0"
proof -
  have "d \<noteq> CHR 0x85" "d \<noteq> CHR 0xA0" "d \<noteq> CHR 0x9A" "d \<noteq> CHR 0x80" "d \<noteq> CHR 0x81"
    "d \<noteq> CHR 0x9F" "d \<noteq> CHR 0xA8" "d \<noteq> CHR 0xA9" "d \<noteq> CHR 0xAF" "\<not> 128 \<le> byte_val d"
    using assms(2) by (auto simp: byte_val_def)
  then show ?thesis
    using assms(1)
    by (auto simp: space_width_def neq_Nil_conv split: list.splits if_splits)
qed

lemma space_width_space [simp]: "space_width (SPC # s) = 1" "space_width (NL # s) = 1"
  by (simp_all add: space_width_def ascii_space_def)

lemma fields_from_token:
  "no_space a \<Longrightarrow> fields_from cur (a @ SPC # rest) =
     (if cur @ a = [] then [] else [cur @ a]) @ fields_from [] rest"
proof (induction a arbitrary: cur)
  case Nil
  show ?case by simp
next
  case (Cons c a)
  have "byte_val SPC < 128" by code_simp
  with Cons.prems have "space_width (c # a @ SPC # rest) = 0"
    by (intro space_width_eq_0_append) auto
  with Cons show ?case by simp
qed

lemma fields_from_end: "no_space a \<Longrightarrow> fields_from cur a = (if cur @ a = [] then [] else [cur @ a])"
  by (induction a arbitrary: cur) auto

lemma Fields_token: "is_token a \<Longrightarrow> Fields a = [a]"
  by (simp add: Fields_def is_token_def fields_from_end)

lemma Fields_token_space: "is_token a \<Longrightarrow> Fields (a @ SPC # rest) = a # Fields rest"
  by (simp add: Fields_def is_token_def fields_from_token)

lemma Fields_Nil [simp]: "Fields [] = []"
  by (simp add: Fields_def)

lemma Fields_Join: "list_all is_token ts \<Longrightarrow> Fields (Join ts [SPC]) = ts"
proof (induction ts "[SPC]" rule: Join.induct)
  case (3 x y zs)
  then show ?case by (simp add: Fields_token_space)
qed (simp_all add: Fields_token)

lemma no_space_drop: "no_space s \<Longrightarrow> i < length s \<Longrightarrow> space_width (drop i s) = 0"
  by (induction s arbitrary: i) (auto simp: drop_Cons split: nat.splits)

lemma no_space_width: "no_space s \<Longrightarrow> space_width s = 0"
  by (cases s) (simp_all add: space_width_def)

lemma TrimSpace_no_space: "no_space s \<Longrightarrow> TrimSpace s = s"
proof -
  assume s: "no_space s"
  then have "end_space_width s = 0"
    by (auto simp: end_space_width_def no_space_drop)
  with s show ?thesis
    by (simp add: TrimSpace_def trim_left.simps [of s] trim_right.simps [of s] no_space_width)
qed

lemma space_width_ascii:
  assumes "byte_val c < 128"
  shows "space_width (c # s) = (if ascii_space c then 1 else 0)"
proof -
  have "c \<noteq> CHR 0xC2" "c \<noteq> CHR 0xE1" "c \<noteq> CHR 0xE2" "c \<noteq> CHR 0xE3"
    using assms by (auto simp: byte_val_def)
  then show ?thesis by (simp add: space_width_def split: list.split)
qed

lemma no_space_not_ascii: "no_space s \<Longrightarrow> c \<in> set s \<Longrightarrow> \<not> ascii_space c"
  by (induction s) (auto simp: space_width_def)

lemma ascii_space_chars [simp]:
  "ascii_space SPC" "ascii_space NL" "ascii_space CR" "ascii_space TAB"
  by (simp_all add: ascii_space_def)

lemma no_space_mem:
  assumes "no_space s"
  shows "SPC \<notin> set s" "NL \<notin> set s" "CR \<notin> set s" "TAB \<notin> set s"
  using no_space_not_ascii [OF assms] ascii_space_chars by blast+

lemma trim_eol_id: "s = [] \<or> last s \<noteq> NL \<and> last s \<noteq> CR \<Longrightarrow> trim_eol s = s"
  by (cases s rule: rev_cases) (auto simp: trim_eol_def)

lemma trim_eol_NL: "s = [] \<or> last s \<noteq> NL \<and> last s \<noteq> CR \<Longrightarrow> trim_eol (s @ [NL]) = s"
  by (cases s rule: rev_cases) (auto simp: trim_eol_def)

lemma cut_append: "sep \<notin> set a \<Longrightarrow> cut sep (a @ sep # b) = Some (a, b)"
  by (induction a) auto

lemma length_cut: "cut sep s = Some (a, b) \<Longrightarrow> length s = Suc (length a + length b)"
  by (induction s arbitrary: a) (auto split: if_splits)

lemma cut_None: "sep \<notin> set a \<Longrightarrow> cut sep a = None"
  by (induction a) auto

section \<open>Laws of decimal numbers\<close>

lemma digit_char_dec:
  assumes "d < 10"
  shows "dec_digit (digit_char d)" "dec_val (digit_char d) = d"
  using assms by (simp_all add: dec_digit_def dec_val_def digit_char_def)

lemma parse_show_fold:
  "list_all dec_digit (show_nat n) \<and> show_nat n \<noteq> [] \<and>
   foldl (\<lambda>n c. n * 10 + dec_val c) 0 (show_nat n) = n"
proof (induction n rule: show_nat.induct)
  case (1 n)
  show ?case
  proof (cases "n < 10")
    case True
    then show ?thesis by (simp add: show_nat.simps [of n] digit_char_dec)
  next
    case False
    have m: "n mod 10 < 10" by simp
    from False "1.IH" show ?thesis
      by (simp add: show_nat.simps [of n] digit_char_dec [OF m])
  qed
qed

lemma parse_nat_show [simp]: "parse_nat (show_nat n) = Some n"
  using parse_show_fold [of n] by (simp add: parse_nat_def)

lemma show_nat_Cons: "\<exists>c cs. show_nat n = c # cs \<and> dec_digit c"
  using parse_show_fold [of n] by (cases "show_nat n") auto

lemma Atoi_show_int: "is_int64 i \<Longrightarrow> Atoi (show_int i) = Some i"
proof (cases "i < 0")
  case True
  assume "is_int64 i"
  with True show ?thesis by (simp add: Atoi_def show_int_def)
next
  case False
  assume "is_int64 i"
  obtain c cs where c: "show_nat (nat i) = c # cs" "dec_digit c" using show_nat_Cons by blast
  then have "c \<noteq> CHR ''-''" "c \<noteq> CHR ''+''" by (auto simp: dec_digit_def byte_val_def)
  with False \<open>is_int64 i\<close> c(1) parse_nat_show [of "nat i"] show ?thesis
    by (simp add: Atoi_def show_int_def)
qed

lemma Atoi_is_int64: "Atoi s = Some i \<Longrightarrow> is_int64 i"
  by (auto simp: Atoi_def Let_def split: option.splits if_splits prod.splits)

lemma dec_char_ascii: "dec_digit c \<or> c = CHR ''-'' \<Longrightarrow> byte_val c < 128 \<and> \<not> ascii_space c"
  by (auto simp: dec_digit_def ascii_space_def byte_val_def)

definition ascii_graphic :: "byte \<Rightarrow> bool" where
  "ascii_graphic c \<longleftrightarrow> byte_val c < 128 \<and> \<not> ascii_space c"

lemma ascii_no_space: "list_all ascii_graphic s \<Longrightarrow> no_space s"
  by (induction s) (auto simp: space_width_ascii ascii_graphic_def)

lemma dec_digit_no_space: "list_all (\<lambda>c. dec_digit c \<or> c = CHR ''-'') s \<Longrightarrow> no_space s"
  by (rule ascii_no_space) (auto simp: list_all_iff ascii_graphic_def dec_char_ascii)

lemma show_int_token: "is_token (show_int i)"
proof -
  have "list_all (\<lambda>c. dec_digit c \<or> c = CHR ''-'') (show_nat n)" for n
    using parse_show_fold [of n] by (auto simp: list_all_iff)
  then have "no_space (show_int i)"
    by (intro dec_digit_no_space) (simp add: show_int_def)
  then show ?thesis
    using parse_show_fold [of "nat i"] by (auto simp: is_token_def show_int_def)
qed

end
