(* ===== verification/Deck_Encode.thy ===== *)
theory Deck_Encode
  imports Go_Strings
begin

text \<open>
  The escaping of card arguments, \<open>internal/deck/encode.go\<close>: blanks, newlines and
  backslashes become two-byte escapes, so that an escaped text is one line and one
  blank-separated field.
\<close>

definition encode_byte :: "byte \<Rightarrow> bytes" where
  "encode_byte c =
     (if c = SPC then [BSL, CHR ''s''] else if c = NL then [BSL, CHR ''n'']
      else if c = BSL then [BSL, BSL] else [c])"

definition FossilEncode :: "bytes \<Rightarrow> bytes" where
  "FossilEncode s = concat (map encode_byte s)"

fun FossilDecode :: "bytes \<Rightarrow> bytes" where
  "FossilDecode [] = []"
| "FossilDecode [c] = [c]"
| "FossilDecode (c # d # cs) =
     (if c = BSL then
        (if d = CHR ''s'' then SPC # FossilDecode cs
         else if d = CHR ''n'' then NL # FossilDecode cs
         else if d = BSL then BSL # FossilDecode cs
         else c # FossilDecode (d # cs))
      else c # FossilDecode (d # cs))"

lemma FossilEncode_simps [simp]:
  "FossilEncode [] = []" "FossilEncode (c # s) = encode_byte c @ FossilEncode s"
  by (simp_all add: FossilEncode_def)

lemma FossilDecode_plain: "c \<noteq> BSL \<Longrightarrow> FossilDecode (c # s) = c # FossilDecode s"
  by (cases s) auto

lemma Decode_Encode [simp]: "FossilDecode (FossilEncode s) = s"
  by (induction s) (auto simp: encode_byte_def FossilDecode_plain)

lemma FossilEncode_clean: "SPC \<notin> set (FossilEncode s)" "NL \<notin> set (FossilEncode s)"
  by (induction s) (auto simp: encode_byte_def)

lemma FossilEncode_eq_Nil [simp]: "FossilEncode s = [] \<longleftrightarrow> s = []"
  by (cases s) (auto simp: encode_byte_def)

lemma FossilEncode_inject [simp]: "FossilEncode s = FossilEncode t \<longleftrightarrow> s = t"
  by (metis Decode_Encode)

text \<open>
  Escaping is lossless for every byte string, and an escaped text contains
  neither a blank nor a newline, so it is safe inside a blank-separated card line.
\<close>

theorem fossil_escape_roundtrip:
  "FossilDecode (FossilEncode s) = s \<and>
   SPC \<notin> set (FossilEncode s) \<and> NL \<notin> set (FossilEncode s)"
  by (simp add: FossilEncode_clean)

end
