(* ===== verification/Go_Time.thy ===== *)
theory Go_Time
  imports Go_Strings
begin

text \<open>
  The part of Go's \<open>time\<close> package that the artifact format uses: \<open>IsZero\<close>, \<open>Format\<close> and
  \<open>Parse\<close> for the layouts \<open>2006-01-02T15:04:05\<close> and \<open>2006-01-02T15:04:05.000\<close>.  An instant
  is held as its UTC calendar fields; the field ranges are those of \<open>time.Parse\<close>.
\<close>

record gotime =
  gt_year :: int
  gt_month :: nat
  gt_day :: nat
  gt_hour :: nat
  gt_min :: nat
  gt_sec :: nat
  gt_nsec :: nat

definition zero_time :: gotime where
  "zero_time = \<lparr>gt_year = 1, gt_month = 1, gt_day = 1, gt_hour = 0, gt_min = 0, gt_sec = 0, gt_nsec = 0\<rparr>"

definition is_leap :: "int \<Rightarrow> bool" where
  "is_leap y \<longleftrightarrow> y mod 4 = 0 \<and> (y mod 100 \<noteq> 0 \<or> y mod 400 = 0)"

definition days_in :: "nat \<Rightarrow> int \<Rightarrow> nat" where
  "days_in m y = (if m = 2 then (if is_leap y then 29 else 28)
                  else if m \<in> set [4, 6, 9, 11] then 30 else 31)"

definition valid_time :: "gotime \<Rightarrow> bool" where
  "valid_time t \<longleftrightarrow>
     1 \<le> gt_month t \<and> gt_month t \<le> 12 \<and> 1 \<le> gt_day t \<and> gt_day t \<le> days_in (gt_month t) (gt_year t) \<and>
     gt_hour t < 24 \<and> gt_min t < 60 \<and> gt_sec t < 60 \<and> gt_nsec t < 10 ^ 9"

section \<open>Instants\<close>

text \<open>
  \<open>UnixMilli\<close>: milliseconds since 1970-01-01 of the proleptic Gregorian calendar.  A Julian day
  number is held as a count of milliseconds, exactly; the rounding of Go's \<open>float64\<close> value
  is not modelled.
\<close>

definition days_before_year :: "int \<Rightarrow> int" where
  "days_before_year y = 365 * (y - 1) + (y - 1) div 4 - (y - 1) div 100 + (y - 1) div 400"

definition days_before_month :: "nat \<Rightarrow> int \<Rightarrow> int" where
  "days_before_month m y = int (sum_list (map (\<lambda>k. days_in k y) [1..<m]))"

definition UnixSec :: "gotime \<Rightarrow> int" where
  "UnixSec t =
     ((((days_before_year (gt_year t) + days_before_month (gt_month t) (gt_year t) + int (gt_day t) - 1 - 719162) * 24
        + int (gt_hour t)) * 60 + int (gt_min t)) * 60 + int (gt_sec t))"

definition UnixMilli :: "gotime \<Rightarrow> int" where
  "UnixMilli t = UnixSec t * 1000 + int (gt_nsec t div 10 ^ 6)"

definition TimeToJulian :: "gotime \<Rightarrow> int" where
  "TimeToJulian t = 210866760000000 + UnixMilli t"

section \<open>Formatting\<close>

definition pad :: "nat \<Rightarrow> nat \<Rightarrow> bytes" where
  "pad w n = replicate (w - length (show_nat n)) CHR ''0'' @ show_nat n"

definition format_secs :: "gotime \<Rightarrow> bytes" where
  "format_secs t =
     (if gt_year t < 0 then CHR ''-'' # pad 4 (nat (- gt_year t)) else pad 4 (nat (gt_year t)))
     @ ''-'' @ pad 2 (gt_month t) @ ''-'' @ pad 2 (gt_day t)
     @ ''T'' @ pad 2 (gt_hour t) @ '':'' @ pad 2 (gt_min t) @ '':'' @ pad 2 (gt_sec t)"

definition format_millis :: "gotime \<Rightarrow> bytes" where
  "format_millis t = format_secs t @ ''.'' @ pad 3 (gt_nsec t div 10 ^ 6)"

section \<open>Parsing\<close>

definition digits_val :: "bytes \<Rightarrow> nat" where
  "digits_val s = foldl (\<lambda>n c. n * 10 + dec_val c) 0 s"

text \<open>\<open>getnum(s, fixed)\<close>: two digits, or one when \<open>fixed\<close> is false.\<close>

definition getnum :: "bytes \<Rightarrow> bool \<Rightarrow> (nat \<times> bytes) option" where
  "getnum s fixed =
     (case s of
        [] \<Rightarrow> None
      | a # s1 \<Rightarrow>
        if \<not> dec_digit a then None
        else (case s1 of
            b # s2 \<Rightarrow> if dec_digit b then Some (dec_val a * 10 + dec_val b, s2)
                      else if fixed then None else Some (dec_val a, s1)
          | [] \<Rightarrow> if fixed then None else Some (dec_val a, s1)))"

definition skip :: "byte \<Rightarrow> bytes \<Rightarrow> bytes option" where
  "skip c s = (case s of d # ds \<Rightarrow> if d = c then Some ds else None | [] \<Rightarrow> None)"

definition get_year :: "bytes \<Rightarrow> (int \<times> bytes) option" where
  "get_year s = (if length s < 4 \<or> \<not> list_all dec_digit (take 4 s) then None
                 else Some (int (digits_val (take 4 s)), drop 4 s))"

text \<open>\<open>atoi\<close> of the \<open>time\<close> package: an optional sign, then digits only (possibly none).\<close>

definition time_atoi :: "bytes \<Rightarrow> int option" where
  "time_atoi s =
     (let (neg, ds) = (case s of c # cs \<Rightarrow> if c = CHR ''-'' then (True, cs)
                                           else if c = CHR ''+'' then (False, cs) else (False, s)
                                 | [] \<Rightarrow> (False, s))
      in if list_all dec_digit ds then Some (if neg then - int (digits_val ds) else int (digits_val ds))
         else None)"

definition comma_or_period :: "byte \<Rightarrow> bool" where
  "comma_or_period c \<longleftrightarrow> c = CHR ''.'' \<or> c = CHR '',''"

text \<open>The layout element \<open>.000\<close>.\<close>

definition parse_frac3 :: "bytes \<Rightarrow> (nat \<times> bytes) option" where
  "parse_frac3 s =
     (if length s < 4 \<or> \<not> comma_or_period (hd s) then None
      else case time_atoi (take 3 (tl s)) of
             None \<Rightarrow> None
           | Some ns \<Rightarrow> if ns < 0 then None else Some (nat ns * 10 ^ 6, drop 4 s))"

text \<open>A fraction that follows the seconds of a layout without one is accepted too.\<close>

definition parse_frac_any :: "bytes \<Rightarrow> nat \<times> bytes" where
  "parse_frac_any s =
     (if length s \<ge> 2 \<and> comma_or_period (hd s) \<and> dec_digit (s ! 1) then
        (let ds = takeWhile dec_digit (tl s); used = take 9 ds
         in (digits_val used * 10 ^ (9 - length used), drop (1 + length ds) s))
      else (0, s))"

definition parse_clock :: "bytes \<Rightarrow> (nat \<times> nat \<times> nat \<times> bytes) option" where
  "parse_clock s =
     (case getnum s False of None \<Rightarrow> None | Some (h, s1) \<Rightarrow>
      if h \<ge> 24 then None else
      case Option.bind (skip CHR '':'' s1) (\<lambda>s. getnum s True) of None \<Rightarrow> None | Some (m, s2) \<Rightarrow>
      if m \<ge> 60 then None else
      case Option.bind (skip CHR '':'' s2) (\<lambda>s. getnum s True) of None \<Rightarrow> None | Some (sec, s3) \<Rightarrow>
      if sec \<ge> 60 then None else Some (h, m, sec, s3))"

definition parse_date :: "bytes \<Rightarrow> (int \<times> nat \<times> nat \<times> bytes) option" where
  "parse_date s =
     (case get_year s of None \<Rightarrow> None | Some (y, s1) \<Rightarrow>
      case Option.bind (skip CHR ''-'' s1) (\<lambda>s. getnum s True) of None \<Rightarrow> None | Some (m, s2) \<Rightarrow>
      if m < 1 \<or> m > 12 then None else
      case Option.bind (skip CHR ''-'' s2) (\<lambda>s. getnum s True) of None \<Rightarrow> None | Some (d, s3) \<Rightarrow>
      Some (y, m, d, s3))"

text \<open>
  \<open>time.Parse\<close> with the layout \<open>2006-01-02T15:04:05.000\<close> (\<open>frac\<close>) or
  \<open>2006-01-02T15:04:05\<close> (not \<open>frac\<close>).
\<close>

definition time_Parse :: "bool \<Rightarrow> bytes \<Rightarrow> gotime option" where
  "time_Parse frac s =
     (case parse_date s of None \<Rightarrow> None | Some (y, m, d, s1) \<Rightarrow>
      case Option.bind (skip CHR ''T'' s1) parse_clock of None \<Rightarrow> None | Some (h, mi, sec, s2) \<Rightarrow>
      case (if frac then parse_frac3 s2 else Some (parse_frac_any s2)) of
        None \<Rightarrow> None
      | Some (ns, s3) \<Rightarrow>
          if s3 \<noteq> [] \<or> d < 1 \<or> d > days_in m y then None
          else Some \<lparr>gt_year = y, gt_month = m, gt_day = d, gt_hour = h, gt_min = mi,
                     gt_sec = sec, gt_nsec = ns\<rparr>)"

text \<open>
  \<open>time.Parse\<close> with the layouts \<open>time.RFC3339\<close> and \<open>2006-01-02 15:04:05\<close>; the result is an
  instant in nanoseconds since 1970.
\<close>

definition parse_zone :: "bytes \<Rightarrow> (int \<times> bytes) option" where
  "parse_zone s =
     (case s of
        [] \<Rightarrow> None
      | c # s1 \<Rightarrow>
          if c = CHR ''Z'' then Some (0, s1)
          else if c \<noteq> CHR ''+'' \<and> c \<noteq> CHR ''-'' then None
          else case getnum s1 True of None \<Rightarrow> None | Some (h, s2) \<Rightarrow>
               if h > 24 then None else
               case Option.bind (skip CHR '':'' s2) (\<lambda>s. getnum s True) of None \<Rightarrow> None | Some (m, s3) \<Rightarrow>
               if m > 60 then None
               else Some ((if c = CHR ''-'' then - 1 else 1) * (int h * 3600 + int m * 60), s3))"

definition time_Parse_instant :: "byte \<Rightarrow> bool \<Rightarrow> bytes \<Rightarrow> int option" where
  "time_Parse_instant sep zone s =
     (case parse_date s of None \<Rightarrow> None | Some (y, m, d, s1) \<Rightarrow>
      case Option.bind (skip sep s1) parse_clock of None \<Rightarrow> None | Some (h, mi, sec, s2) \<Rightarrow>
      case parse_frac_any s2 of (ns, s3) \<Rightarrow>
      case (if zone then parse_zone s3 else Some (0, s3)) of None \<Rightarrow> None | Some (offset, s4) \<Rightarrow>
        if s4 \<noteq> [] \<or> d < 1 \<or> d > days_in m y then None
        else Some ((UnixSec \<lparr>gt_year = y, gt_month = m, gt_day = d, gt_hour = h, gt_min = mi, gt_sec = sec, gt_nsec = 0\<rparr>
                    - offset) * 10 ^ 9 + int ns))"

section \<open>Laws\<close>

lemma length_show_nat: "n < 10 ^ w \<Longrightarrow> w > 0 \<Longrightarrow> length (show_nat n) \<le> w"
proof (induction w arbitrary: n)
  case (Suc w)
  show ?case
  proof (cases "n < 10")
    case False
    with Suc.prems have "n div 10 < 10 ^ w" "w > 0" by (auto intro: gr0I)
    with Suc.IH [of "n div 10"] False show ?thesis by (simp add: show_nat.simps [of n])
  qed (simp add: show_nat.simps [of n])
qed simp

lemma length_pad: "n < 10 ^ w \<Longrightarrow> w > 0 \<Longrightarrow> length (pad w n) = w"
  using length_show_nat [of n w] by (simp add: pad_def)

lemma pad_digits: "list_all dec_digit (pad w n)"
proof -
  have "dec_digit CHR ''0''" by code_simp
  then show ?thesis using parse_show_fold [of n] by (auto simp: pad_def list_all_iff)
qed

lemma digits_val_zeros: "digits_val (replicate k CHR ''0'' @ s) = digits_val s"
proof (induction k)
  case (Suc k)
  have "dec_val CHR ''0'' = 0" by code_simp
  with Suc show ?case by (simp add: digits_val_def)
qed simp

lemma digits_val_pad: "digits_val (pad w n) = n"
  using parse_show_fold [of n] by (simp only: pad_def digits_val_zeros) (simp add: digits_val_def)

lemma pad2:
  assumes "n < 100"
  obtains a b where "pad 2 n = [a, b]" "dec_digit a" "dec_digit b" "dec_val a * 10 + dec_val b = n"
proof -
  have "length (pad 2 n) = 2" using length_pad [of n 2] assms by simp
  then obtain a b where ab: "pad 2 n = [a, b]"
    by (auto simp: length_Suc_conv numeral_2_eq_2)
  with pad_digits [of 2 n] digits_val_pad [of 2 n] that show thesis
    by (simp add: digits_val_def)
qed

lemma getnum_pad [simp]: "n < 100 \<Longrightarrow> getnum (pad 2 n @ s) fixed = Some (n, s)"
  by (erule pad2) (simp add: getnum_def)

lemma getnum_pad_end [simp]: "n < 100 \<Longrightarrow> getnum (pad 2 n) fixed = Some (n, [])"
  using getnum_pad [of n "[]"] by simp

lemma skip_simps [simp]: "skip c (c # s) = Some s"
  by (simp add: skip_def)

lemma get_year_pad [simp]: "n < 10000 \<Longrightarrow> get_year (pad 4 n @ s) = Some (int n, s)"
  using length_pad [of n 4] pad_digits [of 4 n]
  by (simp add: get_year_def digits_val_pad)

lemma days_in_le: "days_in m y \<le> 31"
  by (simp add: days_in_def)

lemma parse_date_format:
  assumes "0 \<le> y" "y \<le> 9999" "1 \<le> m" "m \<le> 12" "d \<le> 31"
  shows "parse_date (pad 4 (nat y) @ CHR ''-'' # pad 2 m @ CHR ''-'' # pad 2 d @ s) = Some (y, m, d, s)"
  using assms by (simp add: parse_date_def)

lemma parse_clock_format:
  "h < 24 \<Longrightarrow> m < 60 \<Longrightarrow> sec < 60 \<Longrightarrow>
   parse_clock (pad 2 h @ CHR '':'' # pad 2 m @ CHR '':'' # pad 2 sec @ s) = Some (h, m, sec, s)"
  by (simp add: parse_clock_def)

lemma parse_frac3_pad:
  assumes "n < 1000"
  shows "parse_frac3 (CHR ''.'' # pad 3 n) = Some (n * 10 ^ 6, [])"
proof -
  have len: "length (pad 3 n) = 3" using length_pad [of n 3] assms by simp
  then obtain c cs where c: "pad 3 n = c # cs" by (cases "pad 3 n") auto
  with pad_digits [of 3 n] have "dec_digit c" by simp
  then have "c \<noteq> CHR ''-''" "c \<noteq> CHR ''+''" by (auto simp: dec_digit_def byte_val_def)
  with c pad_digits [of 3 n] digits_val_pad [of 3 n] have "time_atoi (pad 3 n) = Some (int n)"
    by (simp add: time_atoi_def)
  with len show ?thesis by (simp add: parse_frac3_def comma_or_period_def)
qed

definition encodable_time :: "gotime \<Rightarrow> bool" where
  "encodable_time t \<longleftrightarrow> valid_time t \<and> 0 \<le> gt_year t \<and> gt_year t \<le> 9999"

lemma time_Parse_millis:
  assumes "encodable_time t"
  shows "time_Parse True (format_millis t) = Some (t\<lparr>gt_nsec := gt_nsec t div 10 ^ 6 * 10 ^ 6\<rparr>)"
  using assms days_in_le [of "gt_month t" "gt_year t"]
  by (auto simp: encodable_time_def valid_time_def time_Parse_def format_millis_def format_secs_def
      parse_date_format parse_clock_format parse_frac3_pad)

lemma time_Parse_secs:
  assumes "encodable_time t"
  shows "time_Parse True (format_secs t) = None"
    and "time_Parse False (format_secs t) = Some (t\<lparr>gt_nsec := 0\<rparr>)"
proof -
  have "parse_frac3 [] = None" "parse_frac_any [] = (0, [])"
    by (simp_all add: parse_frac3_def parse_frac_any_def)
  with assms days_in_le [of "gt_month t" "gt_year t"]
    parse_clock_format [of "gt_hour t" "gt_min t" "gt_sec t" "[]"]
  show "time_Parse True (format_secs t) = None"
    "time_Parse False (format_secs t) = Some (t\<lparr>gt_nsec := 0\<rparr>)"
    by (auto simp: encodable_time_def valid_time_def time_Parse_def format_secs_def parse_date_format)
qed

lemma pad_graphic: "list_all ascii_graphic (pad w n)"
  using pad_digits [of w n] by (auto simp: list_all_iff ascii_graphic_def dec_char_ascii)

lemma format_no_space:
  "0 \<le> gt_year t \<Longrightarrow> no_space (format_secs t)" "0 \<le> gt_year t \<Longrightarrow> no_space (format_millis t)"
proof -
  have "ascii_graphic CHR ''-''" "ascii_graphic CHR ''T''" "ascii_graphic CHR '':''" "ascii_graphic CHR ''.''"
    by code_simp+
  then show "0 \<le> gt_year t \<Longrightarrow> no_space (format_secs t)" "0 \<le> gt_year t \<Longrightarrow> no_space (format_millis t)"
    by (simp_all add: ascii_no_space format_secs_def format_millis_def pad_graphic)
qed

end
