(* ===== verification/Deck.thy ===== *)
theory Deck
  imports Deck_Encode Go_Time
begin

text \<open>
  Artifacts (\<open>internal/deck\<close>): the \<open>Deck\<close> record with one field per card letter
  (\<open>deck.go\<close>), the Z checksum card (\<open>zcard.go\<close>), the R checksum (\<open>rcard.go\<close>), the writer
  \<open>Marshal\<close> (\<open>marshal.go\<close>) and the parser \<open>Parse\<close> (\<open>parse.go\<close>).  MD5 in hexadecimal is
  an argument, \<open>md5hex\<close>.
\<close>

section \<open>The data model (deck.go)\<close>

datatype ArtifactType = Checkin | Wiki | Ticket | Event | Cluster | ForumPost | Attachment | Control

record FileCard =
  fc_Name :: bytes
  fc_UUID :: bytes
  fc_Perm :: bytes
  fc_OldName :: bytes

record TagCard =
  tc_Type :: byte
  tc_Name :: bytes
  tc_UUID :: bytes
  tc_Value :: bytes

abbreviation TagSingleton :: byte where "TagSingleton \<equiv> CHR ''+''"
abbreviation TagPropagating :: byte where "TagPropagating \<equiv> CHR ''*''"
abbreviation TagCancel :: byte where "TagCancel \<equiv> CHR ''-''"

record CherryPick =
  cp_IsBackout :: bool
  cp_Target :: bytes
  cp_Baseline :: bytes

record AttachmentCard =
  ac_Filename :: bytes
  ac_Target :: bytes
  ac_Source :: bytes

record EventCard =
  ec_Date :: gotime
  ec_UUID :: bytes

record TicketField =
  tf_Name :: bytes
  tf_Value :: bytes

record Deck =
  dk_Type :: ArtifactType
  dk_A :: "AttachmentCard option"
  dk_B :: bytes
  dk_C :: bytes
  dk_D :: gotime
  dk_E :: "EventCard option"
  dk_F :: "FileCard list"
  dk_G :: bytes
  dk_H :: bytes
  dk_I :: bytes
  dk_J :: "TicketField list"
  dk_K :: bytes
  dk_L :: bytes
  dk_M :: "bytes list"
  dk_N :: bytes
  dk_P :: "bytes list"
  dk_Q :: "CherryPick list"
  dk_R :: bytes
  dk_T :: "TagCard list"
  dk_U :: bytes
  dk_W :: bytes
  dk_Z :: bytes

text \<open>\<open>&Deck{}\<close>, the zero value.\<close>

definition empty_deck :: Deck where
  "empty_deck =
     \<lparr>dk_Type = Checkin, dk_A = None, dk_B = [], dk_C = [], dk_D = zero_time, dk_E = None,
      dk_F = [], dk_G = [], dk_H = [], dk_I = [], dk_J = [], dk_K = [], dk_L = [], dk_M = [],
      dk_N = [], dk_P = [], dk_Q = [], dk_R = [], dk_T = [], dk_U = [], dk_W = [], dk_Z = []\<rparr>"

section \<open>The Z card (zcard.go)\<close>

datatype deck_error =
    ZTooShort | ZBadFormat | ZMismatch
  | OutOfOrder byte byte
  | BadWSize | WShortContent
  | MalformedLine bytes
  | CardError byte string

type_synonym hasher = "bytes \<Rightarrow> bytes"

definition computeZ :: "hasher \<Rightarrow> bytes \<Rightarrow> bytes" where
  "computeZ md5hex data = md5hex data"

definition VerifyZ :: "hasher \<Rightarrow> bytes \<Rightarrow> (deck_error, unit) outcome" where
  "VerifyZ md5hex data =
     (if length data < 35 then Err ZTooShort
      else let tail = drop (length data - 35) data in
        if tail ! 0 \<noteq> CHR ''Z'' \<or> tail ! 1 \<noteq> SPC \<or> tail ! 34 \<noteq> NL then Err ZBadFormat
        else if computeZ md5hex (take (length data - 35) data) \<noteq> subslice 2 34 tail then Err ZMismatch
        else Ok ())"

section \<open>Marshalling (marshal.go)\<close>

text \<open>
  A byte formatted with \<open>%c\<close>, or converted by \<open>string(b)\<close>, is the UTF-8 encoding of the
  code point with that number.
\<close>

definition rune_string :: "byte \<Rightarrow> bytes" where
  "rune_string c = (if byte_val c < 128 then [c]
                    else [char_of (0xC0 + byte_val c div 64), char_of (0x80 + byte_val c mod 64)])"

definition card_line :: "byte \<Rightarrow> bytes \<Rightarrow> bytes" where
  "card_line c args = c # SPC # args @ [NL]"

definition opt_line :: "byte \<Rightarrow> bytes \<Rightarrow> bytes \<Rightarrow> bytes" where
  "opt_line c field args = (if field \<noteq> [] then card_line c args else [])"

definition opt_arg :: "bytes \<Rightarrow> bytes" where
  "opt_arg s = (if s \<noteq> [] then SPC # s else [])"

definition marshal_A :: "AttachmentCard option \<Rightarrow> bytes" where
  "marshal_A a = (case a of None \<Rightarrow> []
     | Some ac \<Rightarrow> card_line CHR ''A'' (FossilEncode (ac_Filename ac) @ SPC # ac_Target ac @ opt_arg (ac_Source ac)))"

definition marshal_D :: "gotime \<Rightarrow> bytes" where
  "marshal_D t = (if t \<noteq> zero_time then card_line CHR ''D'' (format_millis t) else [])"

definition marshal_E :: "EventCard option \<Rightarrow> bytes" where
  "marshal_E e = (case e of None \<Rightarrow> []
     | Some ec \<Rightarrow> card_line CHR ''E'' (format_secs (ec_Date ec) @ SPC # ec_UUID ec))"

definition F_args :: "FileCard \<Rightarrow> bytes" where
  "F_args f = FossilEncode (fc_Name f)
     @ (if fc_UUID f \<noteq> [] then SPC # fc_UUID f @ opt_arg (fc_Perm f) else [])
     @ (if fc_OldName f \<noteq> [] then SPC # FossilEncode (fc_OldName f) else [])"

text \<open>
  \<open>sort.Slice\<close> orders by the given key; the order of elements with equal keys is not
  specified, and the theorems about it assume distinct keys.
\<close>

definition marshal_F :: "FileCard list \<Rightarrow> bytes" where
  "marshal_F fs = concat (map (\<lambda>f. card_line CHR ''F'' (F_args f)) (sort_key fc_Name fs))"

definition J_args :: "TicketField \<Rightarrow> bytes" where
  "J_args j = FossilEncode (tf_Name j) @ opt_arg (tf_Value j)"

definition marshal_J :: "TicketField list \<Rightarrow> bytes" where
  "marshal_J js = concat (map (\<lambda>j. card_line CHR ''J'' (J_args j)) js)"

definition marshal_M :: "bytes list \<Rightarrow> bytes" where
  "marshal_M ms = concat (map (card_line CHR ''M'') (sort ms))"

definition marshal_P :: "bytes list \<Rightarrow> bytes" where
  "marshal_P ps = (if length ps > 0 then card_line CHR ''P'' (Join ps [SPC]) else [])"

definition Q_args :: "CherryPick \<Rightarrow> bytes" where
  "Q_args q = (if cp_IsBackout q then CHR ''-'' else CHR ''+'') # cp_Target q @ opt_arg (cp_Baseline q)"

definition marshal_Q :: "CherryPick list \<Rightarrow> bytes" where
  "marshal_Q qs = concat (map (\<lambda>q. card_line CHR ''Q'' (Q_args q)) qs)"

definition tag_key :: "TagCard \<Rightarrow> bytes" where
  "tag_key t = rune_string (tc_Type t) @ tc_Name t @ tc_UUID t"

definition T_args :: "TagCard \<Rightarrow> bytes" where
  "T_args t = rune_string (tc_Type t) @ tc_Name t @ SPC # tc_UUID t @ opt_arg (tc_Value t)"

definition marshal_T :: "TagCard list \<Rightarrow> bytes" where
  "marshal_T ts = concat (map (\<lambda>t. card_line CHR ''T'' (T_args t)) (sort_key tag_key ts))"

definition marshal_W :: "bytes \<Rightarrow> bytes" where
  "marshal_W w = (if length w > 0
     then card_line CHR ''W'' (show_int (int (length w))) @ w @ [NL] else [])"

definition marshalCards :: "Deck \<Rightarrow> bytes" where
  "marshalCards d =
     marshal_A (dk_A d)
     @ opt_line CHR ''B'' (dk_B d) (dk_B d)
     @ opt_line CHR ''C'' (dk_C d) (FossilEncode (dk_C d))
     @ marshal_D (dk_D d)
     @ marshal_E (dk_E d)
     @ marshal_F (dk_F d)
     @ opt_line CHR ''G'' (dk_G d) (dk_G d)
     @ opt_line CHR ''H'' (dk_H d) (FossilEncode (dk_H d))
     @ opt_line CHR ''I'' (dk_I d) (dk_I d)
     @ marshal_J (dk_J d)
     @ opt_line CHR ''K'' (dk_K d) (dk_K d)
     @ opt_line CHR ''L'' (dk_L d) (FossilEncode (dk_L d))
     @ marshal_M (dk_M d)
     @ opt_line CHR ''N'' (dk_N d) (dk_N d)
     @ marshal_P (dk_P d)
     @ marshal_Q (dk_Q d)
     @ opt_line CHR ''R'' (dk_R d) (dk_R d)
     @ marshal_T (dk_T d)
     @ opt_line CHR ''U'' (dk_U d) (FossilEncode (dk_U d))
     @ marshal_W (dk_W d)"

definition Marshal :: "hasher \<Rightarrow> Deck \<Rightarrow> bytes" where
  "Marshal md5hex d =
     (let body = marshalCards d in body @ card_line CHR ''Z'' (computeZ md5hex body))"

section \<open>Parsing (parse.go)\<close>

definition parseTimestamp :: "bytes \<Rightarrow> gotime option" where
  "parseTimestamp s0 =
     (let s = TrimSpace s0 in
      case time_Parse True s of Some t \<Rightarrow> Some t | None \<Rightarrow>
      case time_Parse False s of Some t \<Rightarrow> Some t | None \<Rightarrow>
      let s' = replace_first CHR ''t'' CHR ''T'' s in
      case time_Parse True s' of Some t \<Rightarrow> Some t | None \<Rightarrow> time_Parse False s')"

definition parseACard :: "Deck \<Rightarrow> bytes \<Rightarrow> (deck_error, Deck) outcome" where
  "parseACard d args =
     (let parts = SplitN SPC 3 args in
      if length parts < 2 then Err (CardError CHR ''A'' ''A-card needs 2+ fields'')
      else Ok (d\<lparr>dk_A := Some \<lparr>ac_Filename = FossilDecode (parts ! 0), ac_Target = parts ! 1,
                              ac_Source = (if length parts = 3 then parts ! 2 else [])\<rparr>\<rparr>))"

definition parseDCard :: "Deck \<Rightarrow> bytes \<Rightarrow> (deck_error, Deck) outcome" where
  "parseDCard d args =
     (case parseTimestamp args of
        None \<Rightarrow> Err (CardError CHR ''D'' ''cannot parse timestamp'')
      | Some t \<Rightarrow> Ok (d\<lparr>dk_D := t\<rparr>))"

definition parseECard :: "Deck \<Rightarrow> bytes \<Rightarrow> (deck_error, Deck) outcome" where
  "parseECard d args =
     (let parts = SplitN SPC 2 args in
      if length parts \<noteq> 2 then Err (CardError CHR ''E'' ''E-card needs datetime and uuid'')
      else case parseTimestamp (parts ! 0) of
             None \<Rightarrow> Err (CardError CHR ''E'' ''cannot parse timestamp'')
           | Some t \<Rightarrow> Ok (d\<lparr>dk_E := Some \<lparr>ec_Date = t, ec_UUID = parts ! 1\<rparr>\<rparr>))"

definition parseFCard :: "Deck \<Rightarrow> bytes \<Rightarrow> (deck_error, Deck) outcome" where
  "parseFCard d args =
     (let parts = Fields args in
      if length parts = 0 then Err (CardError CHR ''F'' ''empty F-card'')
      else Ok (d\<lparr>dk_F := dk_F d @
        [\<lparr>fc_Name = FossilDecode (parts ! 0),
          fc_UUID = (if length parts \<ge> 2 then parts ! 1 else []),
          fc_Perm = (if length parts \<ge> 3 then parts ! 2 else []),
          fc_OldName = (if length parts \<ge> 4 then FossilDecode (parts ! 3) else [])\<rparr>]\<rparr>))"

definition parseJCard :: "Deck \<Rightarrow> bytes \<Rightarrow> (deck_error, Deck) outcome" where
  "parseJCard d args =
     (let parts = SplitN SPC 2 args in
      Ok (d\<lparr>dk_J := dk_J d @ [\<lparr>tf_Name = FossilDecode (parts ! 0),
                               tf_Value = (if length parts = 2 then parts ! 1 else [])\<rparr>]\<rparr>))"

definition parseQCard :: "Deck \<Rightarrow> bytes \<Rightarrow> (deck_error, Deck) outcome" where
  "parseQCard d args =
     (if length args < 2 then Err (CardError CHR ''Q'' ''Q-card too short'')
      else let parts = SplitN SPC 2 (tl args) in
        Ok (d\<lparr>dk_Q := dk_Q d @ [\<lparr>cp_IsBackout = (hd args = CHR ''-''), cp_Target = parts ! 0,
                                 cp_Baseline = (if length parts = 2 then parts ! 1 else [])\<rparr>]\<rparr>))"

definition parseTCard :: "Deck \<Rightarrow> bytes \<Rightarrow> (deck_error, Deck) outcome" where
  "parseTCard d args =
     (if length args < 2 then Err (CardError CHR ''T'' ''T-card too short'')
      else let parts = SplitN SPC 3 (tl args) in
        if length parts < 2 then Err (CardError CHR ''T'' ''T-card needs name and uuid'')
        else Ok (d\<lparr>dk_T := dk_T d @ [\<lparr>tc_Type = hd args, tc_Name = parts ! 0, tc_UUID = parts ! 1,
                                      tc_Value = (if length parts = 3 then parts ! 2 else [])\<rparr>]\<rparr>))"

definition parseCard :: "Deck \<Rightarrow> byte \<Rightarrow> bytes \<Rightarrow> (deck_error, Deck) outcome" where
  "parseCard d cd args =
     (if cd = CHR ''A'' then parseACard d args
      else if cd = CHR ''D'' then parseDCard d args
      else if cd = CHR ''E'' then parseECard d args
      else if cd = CHR ''F'' then parseFCard d args
      else if cd = CHR ''J'' then parseJCard d args
      else if cd = CHR ''Q'' then parseQCard d args
      else if cd = CHR ''T'' then parseTCard d args
      else if cd = CHR ''B'' then Ok (d\<lparr>dk_B := TrimSpace args\<rparr>)
      else if cd = CHR ''C'' then Ok (d\<lparr>dk_C := FossilDecode args\<rparr>)
      else if cd = CHR ''G'' then Ok (d\<lparr>dk_G := TrimSpace args\<rparr>)
      else if cd = CHR ''H'' then Ok (d\<lparr>dk_H := FossilDecode args\<rparr>)
      else if cd = CHR ''I'' then Ok (d\<lparr>dk_I := TrimSpace args\<rparr>)
      else if cd = CHR ''K'' then Ok (d\<lparr>dk_K := TrimSpace args\<rparr>)
      else if cd = CHR ''L'' then Ok (d\<lparr>dk_L := FossilDecode args\<rparr>)
      else if cd = CHR ''M'' then Ok (d\<lparr>dk_M := dk_M d @ [TrimSpace args]\<rparr>)
      else if cd = CHR ''N'' then Ok (d\<lparr>dk_N := TrimSpace args\<rparr>)
      else if cd = CHR ''P'' then Ok (d\<lparr>dk_P := Fields args\<rparr>)
      else if cd = CHR ''R'' then Ok (d\<lparr>dk_R := TrimSpace args\<rparr>)
      else if cd = CHR ''U'' then Ok (d\<lparr>dk_U := FossilDecode args\<rparr>)
      else Err (CardError cd ''unknown card''))"

definition inferType :: "Deck \<Rightarrow> ArtifactType" where
  "inferType d =
     (if length (dk_M d) > 0 then Cluster
      else if dk_G d \<noteq> [] \<or> dk_H d \<noteq> [] \<or> dk_I d \<noteq> [] then ForumPost
      else if dk_A d \<noteq> None then Attachment
      else if dk_K d \<noteq> [] then Ticket
      else if dk_L d \<noteq> [] then Wiki
      else if dk_E d \<noteq> None then Event
      else if length (dk_F d) > 0 \<or> dk_R d \<noteq> [] then Checkin
      else if length (dk_T d) > 0 then Control
      else Checkin)"

text \<open>The bytes still to be read stand for the \<open>bytes.Reader\<close>.\<close>

definition readLine :: "bytes \<Rightarrow> bytes \<times> bytes" where
  "readLine s = (case cut NL s of None \<Rightarrow> (s, []) | Some (line, rest) \<Rightarrow> (line, rest))"

text \<open>
  The W branch: \<open>line[2:]\<close> panics on a one-byte line, \<open>make\<close> panics on a negative or
  oversized length, and the content is copied from what is left to read.
\<close>

definition parse_W :: "bytes \<Rightarrow> bytes \<Rightarrow> (deck_error, bytes \<times> bytes) outcome" where
  "parse_W line rest =
     (if length line < 2 then Panic ''slice bounds out of range''
      else case Atoi (TrimSpace (drop 2 line)) of
             None \<Rightarrow> Err BadWSize
           | Some sz \<Rightarrow>
               if sz < 0 \<or> sz > int max_alloc then Panic ''makeslice: len out of range''
               else if length rest < nat sz then Err WShortContent
               else Ok (take (nat sz) rest, drop (nat sz + 1) rest))"

lemma length_readLine: "s \<noteq> [] \<Longrightarrow> readLine s = (line, rest) \<Longrightarrow> length rest < length s"
  by (auto simp: readLine_def split: option.splits dest: length_cut)

lemma parse_W_rest: "parse_W line rest = Ok (w, rest') \<Longrightarrow> length rest' \<le> length rest"
  by (auto simp: parse_W_def split: if_splits option.splits)

function Parse_loop :: "bytes \<Rightarrow> Deck \<Rightarrow> byte \<Rightarrow> (deck_error, Deck) outcome" where
  "Parse_loop body d lastCard =
     (if body = [] then Ok d
      else case readLine body of (line, rest) \<Rightarrow>
        if line = [] then Parse_loop rest d lastCard
        else let cd = hd line in
          if cd = CHR ''W'' then
            (if byte_val cd < byte_val lastCard then Err (OutOfOrder cd lastCard)
             else bind_ok (parse_W line rest) (\<lambda>(content, rest').
                    Parse_loop rest' (d\<lparr>dk_W := content\<rparr>) cd))
          else if byte_val cd < byte_val lastCard then Err (OutOfOrder cd lastCard)
          else if length line < 2 \<or> line ! 1 \<noteq> SPC then Err (MalformedLine line)
          else bind_ok (parseCard d cd (drop 2 line)) (\<lambda>d'. Parse_loop rest d' cd))"
  by pat_completeness auto
termination
proof (relation "measure (\<lambda>(body, d, l). length body)", goal_cases)
  case (3 body d lastCard line rest cd x content rest')
  then have "length rest < length body" using length_readLine [of body line rest] by simp
  moreover from 3 have "length rest' \<le> length rest" by (auto dest: parse_W_rest)
  ultimately show ?case by simp
qed (auto dest: length_readLine [OF _ sym])

declare Parse_loop.simps [simp del]

definition Parse :: "hasher \<Rightarrow> bytes \<Rightarrow> (deck_error, Deck) outcome" where
  "Parse md5hex data =
     bind_ok (VerifyZ md5hex data) (\<lambda>_.
     bind_ok (Parse_loop (take (length data - 35) data) empty_deck (char_of (0 :: nat))) (\<lambda>d.
       Ok (d\<lparr>dk_Type := inferType d\<rparr>)))"

section \<open>The R checksum (rcard.go)\<close>

text \<open>
  The bytes that \<open>ComputeR\<close> feeds to MD5, file by file in name order; files without a UUID
  are skipped, and the first failing \<open>getContent\<close> ends the call with its error.
\<close>

fun R_stream :: "(bytes \<Rightarrow> ('e, bytes) outcome) \<Rightarrow> FileCard list \<Rightarrow> bytes \<Rightarrow> ('e, bytes) outcome" where
  "R_stream getContent [] acc = Ok acc"
| "R_stream getContent (f # fs) acc =
     (if fc_UUID f = [] then R_stream getContent fs acc
      else bind_ok (getContent (fc_UUID f)) (\<lambda>content.
             R_stream getContent fs
               (acc @ fc_Name f @ '' '' @ show_int (int (length content)) @ [NL] @ content)))"

definition ComputeR :: "hasher \<Rightarrow> (bytes \<Rightarrow> ('e, bytes) outcome) \<Rightarrow> Deck \<Rightarrow> ('e, bytes) outcome" where
  "ComputeR md5hex getContent d =
     (if length (dk_F d) = 0 then Ok ''d41d8cd98f00b204e9800998ecf8427e''
      else bind_ok (R_stream getContent (sort_key fc_Name (dk_F d)) []) (\<lambda>s. Ok (md5hex s)))"

end
