(* ===== verification/Deck_Roundtrip.thy ===== *)
theory Deck_Roundtrip
  imports Deck "HOL-Library.Multiset"
begin

text \<open>
  \<open>Parse\<close> inverts \<open>Marshal\<close>.  The unit of reasoning is a piece of artifact text together
  with its effect on the deck under construction (\<open>runs\<close>): pieces compose as long as their
  card letters ascend, which is the order check of the parse loop.
\<close>

section \<open>Pieces of artifact text\<close>

text \<open>
  After a card of letter at most \<open>lo\<close>, the loop gets through \<open>txt\<close>, changes the deck by
  \<open>f\<close> and has then seen letters up to \<open>hi\<close>.
\<close>

definition runs :: "bytes \<Rightarrow> byte \<Rightarrow> byte \<Rightarrow> (Deck \<Rightarrow> Deck) \<Rightarrow> bool" where
  "runs txt lo hi f \<longleftrightarrow>
     (\<forall>rest d l. byte_val l \<le> byte_val lo \<longrightarrow>
        (\<exists>l'. byte_val l' \<le> byte_val hi \<and> Parse_loop (txt @ rest) d l = Parse_loop rest (f d) l'))"

definition upd_if :: "bool \<Rightarrow> ('a \<Rightarrow> 'a) \<Rightarrow> 'a \<Rightarrow> 'a" where
  "upd_if b f d = (if b then f d else d)"

lemma runs_append:
  assumes "runs t1 lo m f1" and "runs t2 m' hi f2" and "byte_val m \<le> byte_val m'"
  shows "runs (t1 @ t2) lo hi (f2 \<circ> f1)"
  unfolding runs_def
proof (intro allI impI)
  fix rest d l assume "byte_val l \<le> byte_val lo"
  with assms(1) obtain l1 where l1: "byte_val l1 \<le> byte_val m"
    "Parse_loop (t1 @ t2 @ rest) d l = Parse_loop (t2 @ rest) (f1 d) l1"
    unfolding runs_def by blast
  with assms(3) have "byte_val l1 \<le> byte_val m'" by simp
  with assms(2) obtain l2 where "byte_val l2 \<le> byte_val hi"
    "Parse_loop (t2 @ rest) (f1 d) l1 = Parse_loop rest (f2 (f1 d)) l2"
    unfolding runs_def by blast
  with l1 show "\<exists>l'. byte_val l' \<le> byte_val hi \<and>
      Parse_loop ((t1 @ t2) @ rest) d l = Parse_loop rest ((f2 \<circ> f1) d) l'"
    by auto
qed

lemma runs_Nil: "runs [] c c (\<lambda>d. d)"
  by (auto simp: runs_def)

lemma readLine_line: "NL \<notin> set line \<Longrightarrow> readLine (line @ NL # rest) = (line, rest)"
  by (simp add: readLine_def cut_append)

definition plain_card :: "byte \<Rightarrow> bool" where
  "plain_card c \<longleftrightarrow> c \<noteq> NL \<and> c \<noteq> CHR ''W''"

lemma Parse_loop_line:
  assumes "plain_card c" "NL \<notin> set args" "byte_val l \<le> byte_val c" "parseCard d c args = Ok d'"
  shows "Parse_loop (card_line c args @ rest) d l = Parse_loop rest d' c"
proof -
  have "readLine ((c # SPC # args) @ NL # rest) = (c # SPC # args, rest)"
    using assms by (intro readLine_line) (auto simp: plain_card_def)
  with assms show ?thesis
    by (subst Parse_loop.simps) (simp add: card_line_def plain_card_def)
qed

lemma runs_line:
  assumes "plain_card c" "NL \<notin> set args" "\<And>d. parseCard d c args = Ok (f d)"
  shows "runs (card_line c args) c c f"
  unfolding runs_def using Parse_loop_line [OF assms(1,2) _ assms(3)] by blast

lemma runs_opt:
  assumes "plain_card c" "v \<noteq> [] \<Longrightarrow> NL \<notin> set args" "\<And>d. v \<noteq> [] \<Longrightarrow> parseCard d c args = Ok (f d)"
  shows "runs (opt_line c v args) c c (upd_if (v \<noteq> []) f)"
proof (cases "v = []")
  case True
  then show ?thesis using runs_Nil by (simp add: opt_line_def upd_if_def [abs_def])
next
  case False
  with assms runs_line [of c args f] show ?thesis by (simp add: opt_line_def upd_if_def [abs_def])
qed

text \<open>A group of lines, each of which appends one element to a list field of the deck.\<close>

lemma runs_list:
  assumes "plain_card c"
    and upd: "\<And>g h d. upd g (upd h d) = upd (g \<circ> h) d" "\<And>d. upd (\<lambda>ys. ys) d = d"
    and "\<And>x. x \<in> set xs \<Longrightarrow> NL \<notin> set (g x)"
    and "\<And>x d. x \<in> set xs \<Longrightarrow> parseCard d c (g x) = Ok (upd (\<lambda>ys. ys @ [x]) d)"
  shows "runs (concat (map (\<lambda>x. card_line c (g x)) xs)) c c (upd (\<lambda>ys. ys @ xs))"
  using assms(4,5)
proof (induction xs)
  case Nil
  have "upd (\<lambda>ys. ys @ []) = (\<lambda>d. d)" by (rule ext) (simp add: upd(2))
  then show ?case using runs_Nil by simp
next
  case (Cons x xs)
  have "runs (card_line c (g x)) c c (upd (\<lambda>ys. ys @ [x]))"
    using Cons.prems by (intro runs_line assms(1)) auto
  moreover have "runs (concat (map (\<lambda>x. card_line c (g x)) xs)) c c (upd (\<lambda>ys. ys @ xs))"
    using Cons by auto
  moreover have "upd (\<lambda>ys. ys @ xs) \<circ> upd (\<lambda>ys. ys @ [x]) = upd (\<lambda>ys. ys @ x # xs)"
    by (rule ext) (simp add: upd(1) comp_def)
  ultimately show ?case
    using runs_append [of "card_line c (g x)" c c _ _ c c] by fastforce
qed

section \<open>Well-formed decks\<close>

text \<open>
  What a deck must satisfy to be representable: free text is unrestricted, verbatim
  arguments contain no newline (nor a blank where another argument follows), fields read
  with \<open>TrimSpace\<close> have no surrounding white space, those read with \<open>strings.Fields\<close> none at
  all, times are those the layouts can express, and the keys of sorted cards are distinct.
\<close>

definition line_ok :: "bytes \<Rightarrow> bool" where
  "line_ok s \<longleftrightarrow> NL \<notin> set s"

definition word_ok :: "bytes \<Rightarrow> bool" where
  "word_ok s \<longleftrightarrow> NL \<notin> set s \<and> SPC \<notin> set s"

definition trimmed :: "bytes \<Rightarrow> bool" where
  "trimmed s \<longleftrightarrow> NL \<notin> set s \<and> TrimSpace s = s"

definition A_ok :: "AttachmentCard \<Rightarrow> bool" where
  "A_ok a \<longleftrightarrow> word_ok (ac_Target a) \<and> line_ok (ac_Source a)"

definition D_ok :: "gotime \<Rightarrow> bool" where
  "D_ok t \<longleftrightarrow> encodable_time t \<and> gt_nsec t mod 10 ^ 6 = 0"

definition E_ok :: "EventCard \<Rightarrow> bool" where
  "E_ok e \<longleftrightarrow> encodable_time (ec_Date e) \<and> gt_nsec (ec_Date e) = 0 \<and> line_ok (ec_UUID e)"

definition F_ok :: "FileCard \<Rightarrow> bool" where
  "F_ok f \<longleftrightarrow> is_token (FossilEncode (fc_Name f)) \<and>
     (fc_UUID f \<noteq> [] \<longrightarrow> is_token (fc_UUID f)) \<and>
     (fc_Perm f \<noteq> [] \<longrightarrow> fc_UUID f \<noteq> [] \<and> is_token (fc_Perm f)) \<and>
     (fc_OldName f \<noteq> [] \<longrightarrow> fc_Perm f \<noteq> [] \<and> is_token (FossilEncode (fc_OldName f)))"

definition Q_ok :: "CherryPick \<Rightarrow> bool" where
  "Q_ok q \<longleftrightarrow> cp_Target q \<noteq> [] \<and> word_ok (cp_Target q) \<and> line_ok (cp_Baseline q)"

definition T_ok :: "TagCard \<Rightarrow> bool" where
  "T_ok t \<longleftrightarrow> tc_Type t \<in> set [TagSingleton, TagPropagating, TagCancel] \<and>
     word_ok (tc_Name t) \<and> word_ok (tc_UUID t) \<and> line_ok (tc_Value t)"

definition wf_deck :: "Deck \<Rightarrow> bool" where
  "wf_deck d \<longleftrightarrow>
     (case dk_A d of None \<Rightarrow> True | Some a \<Rightarrow> A_ok a) \<and> D_ok (dk_D d) \<and>
     (case dk_E d of None \<Rightarrow> True | Some e \<Rightarrow> E_ok e) \<and>
     list_all trimmed [dk_B d, dk_G d, dk_I d, dk_K d, dk_N d, dk_R d] \<and>
     list_all F_ok (dk_F d) \<and> distinct (map fc_Name (dk_F d)) \<and>
     list_all (\<lambda>j. line_ok (tf_Value j)) (dk_J d) \<and>
     list_all trimmed (dk_M d) \<and> list_all is_token (dk_P d) \<and> list_all Q_ok (dk_Q d) \<and>
     list_all T_ok (dk_T d) \<and> distinct (map tag_key (dk_T d)) \<and>
     length (dk_W d) \<le> max_alloc"

text \<open>What \<open>Parse\<close> returns for a marshalled deck: sorted cards, the inferred type, no Z.\<close>

definition canonical :: "Deck \<Rightarrow> Deck" where
  "canonical d = d\<lparr>dk_F := sort_key fc_Name (dk_F d), dk_M := sort (dk_M d),
                   dk_T := sort_key tag_key (dk_T d), dk_Type := inferType d, dk_Z := []\<rparr>"

section \<open>One lemma per card\<close>

lemma plain_cards [simp]:
  "plain_card CHR ''A''" "plain_card CHR ''B''" "plain_card CHR ''C''" "plain_card CHR ''D''"
  "plain_card CHR ''E''" "plain_card CHR ''F''" "plain_card CHR ''G''" "plain_card CHR ''H''"
  "plain_card CHR ''I''" "plain_card CHR ''J''" "plain_card CHR ''K''" "plain_card CHR ''L''"
  "plain_card CHR ''M''" "plain_card CHR ''N''" "plain_card CHR ''P''" "plain_card CHR ''Q''"
  "plain_card CHR ''R''" "plain_card CHR ''T''" "plain_card CHR ''U''"
  by (simp_all add: plain_card_def)

lemma SplitN2_opt:
  assumes "SPC \<notin> set a"
  shows "SplitN SPC 2 (a @ opt_arg b) = (if b = [] then [a] else [a, b])"
  using assms by (simp add: opt_arg_def numeral_2_eq_2 cut_append cut_None)

lemma SplitN3_opt:
  assumes "SPC \<notin> set a" "SPC \<notin> set b"
  shows "SplitN SPC 3 (a @ SPC # b @ opt_arg c) = (if c = [] then [a, b] else [a, b, c])"
  using assms by (simp add: opt_arg_def numeral_3_eq_3 cut_append cut_None)

lemma opt_arg_clean: "NL \<notin> set (opt_arg s) \<longleftrightarrow> NL \<notin> set s"
  by (auto simp: opt_arg_def)

lemma runs_A:
  assumes "case a of None \<Rightarrow> True | Some ac \<Rightarrow> A_ok ac"
  shows "runs (marshal_A a) CHR ''A'' CHR ''A'' (upd_if (a \<noteq> None) (dk_A_update (\<lambda>_. a)))"
proof (cases a)
  case None
  then show ?thesis using runs_Nil by (simp add: marshal_A_def upd_if_def [abs_def])
next
  case (Some ac)
  let ?args = "FossilEncode (ac_Filename ac) @ SPC # ac_Target ac @ opt_arg (ac_Source ac)"
  from assms Some have ok: "NL \<notin> set ?args" "SPC \<notin> set (ac_Target ac)"
    by (auto simp: A_ok_def word_ok_def line_ok_def opt_arg_clean FossilEncode_clean)
  have "parseCard d CHR ''A'' ?args = Ok (d\<lparr>dk_A := a\<rparr>)" for d
    using SplitN3_opt [OF FossilEncode_clean(1) ok(2)] Some
    by (simp add: parseCard_def parseACard_def)
  from runs_line [OF _ ok(1) this] Some show ?thesis
    by (simp add: marshal_A_def upd_if_def [abs_def])
qed

lemma parseTimestamp_millis:
  assumes "D_ok t"
  shows "parseTimestamp (format_millis t) = Some t"
proof -
  from assms have t: "t\<lparr>gt_nsec := gt_nsec t div 10 ^ 6 * 10 ^ 6\<rparr> = t"
    by (simp add: D_ok_def minus_mod_eq_div_mult [symmetric])
  from assms have "TrimSpace (format_millis t) = format_millis t"
    by (intro TrimSpace_no_space format_no_space) (simp add: D_ok_def encodable_time_def)
  with assms time_Parse_millis [of t] t show ?thesis
    by (simp add: parseTimestamp_def D_ok_def)
qed

lemma parseTimestamp_secs:
  assumes "encodable_time t" "gt_nsec t = 0"
  shows "parseTimestamp (format_secs t) = Some t"
proof -
  from assms have "TrimSpace (format_secs t) = format_secs t"
    by (intro TrimSpace_no_space format_no_space) (simp add: encodable_time_def)
  moreover from assms(2) have "t\<lparr>gt_nsec := 0\<rparr> = t" by simp
  ultimately show ?thesis
    using time_Parse_secs [OF assms(1)] by (simp add: parseTimestamp_def)
qed

lemma runs_D:
  assumes "D_ok t"
  shows "runs (marshal_D t) CHR ''D'' CHR ''D'' (upd_if (t \<noteq> zero_time) (dk_D_update (\<lambda>_. t)))"
proof (cases "t = zero_time")
  case True
  then show ?thesis using runs_Nil by (simp add: marshal_D_def upd_if_def [abs_def])
next
  case False
  have "NL \<notin> set (format_millis t)"
    using assms by (intro no_space_mem format_no_space) (simp add: D_ok_def encodable_time_def)
  moreover have "parseCard d CHR ''D'' (format_millis t) = Ok (d\<lparr>dk_D := t\<rparr>)" for d
    using parseTimestamp_millis [OF assms] by (simp add: parseCard_def parseDCard_def)
  ultimately show ?thesis
    using False runs_line [of "CHR ''D''" "format_millis t"] by (simp add: marshal_D_def upd_if_def [abs_def])
qed

lemma runs_E:
  assumes "case e of None \<Rightarrow> True | Some ec \<Rightarrow> E_ok ec"
  shows "runs (marshal_E e) CHR ''E'' CHR ''E'' (upd_if (e \<noteq> None) (dk_E_update (\<lambda>_. e)))"
proof (cases e)
  case None
  then show ?thesis using runs_Nil by (simp add: marshal_E_def upd_if_def [abs_def])
next
  case (Some ec)
  let ?t = "format_secs (ec_Date ec)"
  from assms Some have ok: "E_ok ec" by simp
  then have sp: "SPC \<notin> set ?t" "NL \<notin> set ?t"
    using no_space_mem [OF format_no_space(1), of "ec_Date ec"] by (auto simp: E_ok_def encodable_time_def)
  have "NL \<notin> set (?t @ SPC # ec_UUID ec)" using ok sp by (simp add: E_ok_def line_ok_def)
  moreover have "parseCard d CHR ''E'' (?t @ SPC # ec_UUID ec) = Ok (d\<lparr>dk_E := e\<rparr>)" for d
    using sp ok Some parseTimestamp_secs [of "ec_Date ec"]
    by (simp add: parseCard_def parseECard_def numeral_2_eq_2 cut_append E_ok_def)
  ultimately show ?thesis
    using Some runs_line [of "CHR ''E''" "?t @ SPC # ec_UUID ec"]
    by (simp add: marshal_E_def upd_if_def [abs_def])
qed

definition F_words :: "FileCard \<Rightarrow> bytes list" where
  "F_words f = FossilEncode (fc_Name f) #
     (if fc_UUID f = [] then [] else fc_UUID f # (if fc_Perm f = [] then [] else fc_Perm f #
       (if fc_OldName f = [] then [] else [FossilEncode (fc_OldName f)])))"

lemma parseFCard_args:
  assumes "F_ok f"
  shows "NL \<notin> set (F_args f)" "parseFCard d (F_args f) = Ok (d\<lparr>dk_F := dk_F d @ [f]\<rparr>)"
proof -
  have join: "F_args f = Join (F_words f) [SPC]"
    using assms by (auto simp: F_args_def F_words_def F_ok_def opt_arg_def)
  have tok: "list_all is_token (F_words f)"
    using assms by (auto simp: F_words_def F_ok_def)
  then have "NL \<notin> set (Join (F_words f) [SPC])"
    by (auto simp: F_words_def is_token_def dest: no_space_mem(2) split: if_splits)
  with join show "NL \<notin> set (F_args f)" by simp
  have "Fields (F_args f) = F_words f" using Fields_Join [OF tok] join by simp
  with assms show "parseFCard d (F_args f) = Ok (d\<lparr>dk_F := dk_F d @ [f]\<rparr>)"
    by (auto simp: parseFCard_def F_words_def F_ok_def)
qed

lemma runs_F:
  assumes "list_all F_ok fs"
  shows "runs (marshal_F fs) CHR ''F'' CHR ''F'' (dk_F_update (\<lambda>ys. ys @ sort_key fc_Name fs))"
  unfolding marshal_F_def
  by (rule runs_list) (use assms in \<open>auto simp: list_all_iff parseCard_def parseFCard_args comp_def\<close>)

lemma runs_J:
  assumes "list_all (\<lambda>j. line_ok (tf_Value j)) js"
  shows "runs (marshal_J js) CHR ''J'' CHR ''J'' (dk_J_update (\<lambda>ys. ys @ js))"
  unfolding marshal_J_def
proof (rule runs_list)
  fix j d assume "j \<in> set js"
  with assms have "NL \<notin> set (tf_Value j)" by (simp add: list_all_iff line_ok_def)
  then show "NL \<notin> set (J_args j)" by (simp add: J_args_def opt_arg_clean FossilEncode_clean)
  show "parseCard d CHR ''J'' (J_args j) = Ok (dk_J_update (\<lambda>ys. ys @ [j]) d)"
    by (cases d) (simp add: parseCard_def parseJCard_def J_args_def SplitN2_opt FossilEncode_clean)
qed (auto simp: comp_def)

lemma runs_M:
  assumes "list_all trimmed ms"
  shows "runs (marshal_M ms) CHR ''M'' CHR ''M'' (dk_M_update (\<lambda>ys. ys @ sort ms))"
  unfolding marshal_M_def
  by (rule runs_list) (use assms in \<open>auto simp: list_all_iff trimmed_def parseCard_def comp_def\<close>)

lemma runs_Q:
  assumes "list_all Q_ok qs"
  shows "runs (marshal_Q qs) CHR ''Q'' CHR ''Q'' (dk_Q_update (\<lambda>ys. ys @ qs))"
  unfolding marshal_Q_def
proof (rule runs_list)
  fix q d assume "q \<in> set qs"
  with assms have q: "cp_Target q \<noteq> []" "NL \<notin> set (cp_Target q)" "SPC \<notin> set (cp_Target q)"
    "NL \<notin> set (cp_Baseline q)"
    by (auto simp: list_all_iff Q_ok_def word_ok_def line_ok_def)
  then show "NL \<notin> set (Q_args q)" by (auto simp: Q_args_def opt_arg_clean)
  from q(1) have "\<not> length (Q_args q) < 2" by (cases "cp_Target q") (auto simp: Q_args_def)
  then show "parseCard d CHR ''Q'' (Q_args q) = Ok (dk_Q_update (\<lambda>ys. ys @ [q]) d)"
    using q(3) by (cases d) (auto simp: parseCard_def parseQCard_def Q_args_def SplitN2_opt)
qed (auto simp: comp_def)

lemma runs_T:
  assumes "list_all T_ok ts"
  shows "runs (marshal_T ts) CHR ''T'' CHR ''T'' (dk_T_update (\<lambda>ys. ys @ sort_key tag_key ts))"
  unfolding marshal_T_def
proof (rule runs_list)
  fix t d assume "t \<in> set (sort_key tag_key ts)"
  with assms have "T_ok t" by (simp add: list_all_iff)
  then have t: "NL \<notin> set (tc_Name t)" "SPC \<notin> set (tc_Name t)" "NL \<notin> set (tc_UUID t)"
    "SPC \<notin> set (tc_UUID t)" "NL \<notin> set (tc_Value t)"
    and c: "tc_Type t = CHR ''+'' \<or> tc_Type t = CHR ''*'' \<or> tc_Type t = CHR ''-''"
    by (auto simp: T_ok_def word_ok_def line_ok_def)
  from c have rune: "rune_string (tc_Type t) = [tc_Type t]" "tc_Type t \<noteq> NL"
    by (auto simp: rune_string_def byte_val_def)
  then show "NL \<notin> set (T_args t)" using t by (simp add: T_args_def opt_arg_clean)
  show "parseCard d CHR ''T'' (T_args t) = Ok (dk_T_update (\<lambda>ys. ys @ [t]) d)"
    using t rune by (cases d) (simp add: parseCard_def parseTCard_def T_args_def SplitN3_opt)
qed (auto simp: comp_def)

lemma runs_P:
  assumes "list_all is_token ps"
  shows "runs (marshal_P ps) CHR ''P'' CHR ''P'' (upd_if (ps \<noteq> []) (dk_P_update (\<lambda>_. ps)))"
proof (cases "ps = []")
  case True
  then show ?thesis using runs_Nil by (simp add: marshal_P_def upd_if_def [abs_def])
next
  case False
  have "NL \<notin> set (Join ts [SPC])" if "list_all is_token ts" for ts
    using that
    by (induction ts "[SPC]" rule: Join.induct) (auto simp: is_token_def dest: no_space_mem(2))
  then have "runs (card_line CHR ''P'' (Join ps [SPC])) CHR ''P'' CHR ''P'' (dk_P_update (\<lambda>_. ps))"
    using assms by (intro runs_line) (simp_all add: parseCard_def Fields_Join)
  with False show ?thesis by (simp add: marshal_P_def upd_if_def [abs_def])
qed

lemma runs_W:
  assumes "length w \<le> max_alloc"
  shows "runs (marshal_W w) CHR ''W'' CHR ''W'' (upd_if (w \<noteq> []) (dk_W_update (\<lambda>_. w)))"
proof (cases "w = []")
  case True
  then show ?thesis using runs_Nil by (simp add: marshal_W_def upd_if_def [abs_def])
next
  case False
  let ?n = "show_int (int (length w))"
  have tok: "no_space ?n" using show_int_token by (simp add: is_token_def)
  have "Atoi ?n = Some (int (length w))"
    using assms by (intro Atoi_show_int) (simp add: is_int64_def int64_min_def int64_max_def max_alloc_def)
  with assms have W: "parse_W (CHR ''W'' # SPC # ?n) (w @ NL # rest) = Ok (w, rest)" for rest
    by (simp add: parse_W_def TrimSpace_no_space [OF tok])
  have "readLine ((CHR ''W'' # SPC # ?n) @ NL # w @ NL # rest) = (CHR ''W'' # SPC # ?n, w @ NL # rest)" for rest
    using no_space_mem [OF tok] by (intro readLine_line) auto
  with W have "Parse_loop (marshal_W w @ rest) d l = Parse_loop rest (d\<lparr>dk_W := w\<rparr>) CHR ''W''"
    if "byte_val l \<le> byte_val CHR ''W''" for rest d l
    using that False by (subst Parse_loop.simps) (simp add: marshal_W_def card_line_def)
  with False show ?thesis unfolding runs_def by (auto simp: upd_if_def)
qed

section \<open>The whole artifact\<close>

lemma runs_opt_trimmed:
  assumes "plain_card c" "trimmed v" "\<And>d. parseCard d c v = Ok (f (TrimSpace v) d)"
  shows "runs (opt_line c v v) c c (upd_if (v \<noteq> []) (f v))"
  using assms by (intro runs_opt) (auto simp: trimmed_def)

lemma runs_opt_escaped:
  assumes "plain_card c" "\<And>d. parseCard d c (FossilEncode v) = Ok (f v d)"
  shows "runs (opt_line c v (FossilEncode v)) c c (upd_if (v \<noteq> []) (f v))"
  using assms by (intro runs_opt) (auto simp: FossilEncode_clean)

lemma runs_trimmed_fields:
  "trimmed v \<Longrightarrow> runs (opt_line CHR ''B'' v v) CHR ''B'' CHR ''B'' (upd_if (v \<noteq> []) (dk_B_update (\<lambda>_. v)))"
  "trimmed v \<Longrightarrow> runs (opt_line CHR ''G'' v v) CHR ''G'' CHR ''G'' (upd_if (v \<noteq> []) (dk_G_update (\<lambda>_. v)))"
  "trimmed v \<Longrightarrow> runs (opt_line CHR ''I'' v v) CHR ''I'' CHR ''I'' (upd_if (v \<noteq> []) (dk_I_update (\<lambda>_. v)))"
  "trimmed v \<Longrightarrow> runs (opt_line CHR ''K'' v v) CHR ''K'' CHR ''K'' (upd_if (v \<noteq> []) (dk_K_update (\<lambda>_. v)))"
  "trimmed v \<Longrightarrow> runs (opt_line CHR ''N'' v v) CHR ''N'' CHR ''N'' (upd_if (v \<noteq> []) (dk_N_update (\<lambda>_. v)))"
  "trimmed v \<Longrightarrow> runs (opt_line CHR ''R'' v v) CHR ''R'' CHR ''R'' (upd_if (v \<noteq> []) (dk_R_update (\<lambda>_. v)))"
  subgoal by (rule runs_opt_trimmed [where f = "\<lambda>v. dk_B_update (\<lambda>_. v)"]) (simp_all add: parseCard_def)
  subgoal by (rule runs_opt_trimmed [where f = "\<lambda>v. dk_G_update (\<lambda>_. v)"]) (simp_all add: parseCard_def)
  subgoal by (rule runs_opt_trimmed [where f = "\<lambda>v. dk_I_update (\<lambda>_. v)"]) (simp_all add: parseCard_def)
  subgoal by (rule runs_opt_trimmed [where f = "\<lambda>v. dk_K_update (\<lambda>_. v)"]) (simp_all add: parseCard_def)
  subgoal by (rule runs_opt_trimmed [where f = "\<lambda>v. dk_N_update (\<lambda>_. v)"]) (simp_all add: parseCard_def)
  subgoal by (rule runs_opt_trimmed [where f = "\<lambda>v. dk_R_update (\<lambda>_. v)"]) (simp_all add: parseCard_def)
  done

lemma runs_escaped_fields:
  "runs (opt_line CHR ''C'' v (FossilEncode v)) CHR ''C'' CHR ''C'' (upd_if (v \<noteq> []) (dk_C_update (\<lambda>_. v)))"
  "runs (opt_line CHR ''H'' v (FossilEncode v)) CHR ''H'' CHR ''H'' (upd_if (v \<noteq> []) (dk_H_update (\<lambda>_. v)))"
  "runs (opt_line CHR ''L'' v (FossilEncode v)) CHR ''L'' CHR ''L'' (upd_if (v \<noteq> []) (dk_L_update (\<lambda>_. v)))"
  "runs (opt_line CHR ''U'' v (FossilEncode v)) CHR ''U'' CHR ''U'' (upd_if (v \<noteq> []) (dk_U_update (\<lambda>_. v)))"
  subgoal by (rule runs_opt_escaped [where f = "\<lambda>v. dk_C_update (\<lambda>_. v)"]) (simp_all add: parseCard_def)
  subgoal by (rule runs_opt_escaped [where f = "\<lambda>v. dk_H_update (\<lambda>_. v)"]) (simp_all add: parseCard_def)
  subgoal by (rule runs_opt_escaped [where f = "\<lambda>v. dk_L_update (\<lambda>_. v)"]) (simp_all add: parseCard_def)
  subgoal by (rule runs_opt_escaped [where f = "\<lambda>v. dk_U_update (\<lambda>_. v)"]) (simp_all add: parseCard_def)
  done

lemma card_order:
  "byte_val CHR ''A'' \<le> byte_val CHR ''B''"
  "byte_val CHR ''B'' \<le> byte_val CHR ''C''"
  "byte_val CHR ''C'' \<le> byte_val CHR ''D''"
  "byte_val CHR ''D'' \<le> byte_val CHR ''E''"
  "byte_val CHR ''E'' \<le> byte_val CHR ''F''"
  "byte_val CHR ''F'' \<le> byte_val CHR ''G''"
  "byte_val CHR ''G'' \<le> byte_val CHR ''H''"
  "byte_val CHR ''H'' \<le> byte_val CHR ''I''"
  "byte_val CHR ''I'' \<le> byte_val CHR ''J''"
  "byte_val CHR ''J'' \<le> byte_val CHR ''K''"
  "byte_val CHR ''K'' \<le> byte_val CHR ''L''"
  "byte_val CHR ''L'' \<le> byte_val CHR ''M''"
  "byte_val CHR ''M'' \<le> byte_val CHR ''N''"
  "byte_val CHR ''N'' \<le> byte_val CHR ''P''"
  "byte_val CHR ''P'' \<le> byte_val CHR ''Q''"
  "byte_val CHR ''Q'' \<le> byte_val CHR ''R''"
  "byte_val CHR ''R'' \<le> byte_val CHR ''T''"
  "byte_val CHR ''T'' \<le> byte_val CHR ''U''"
  "byte_val CHR ''U'' \<le> byte_val CHR ''W''"
  by (simp_all add: byte_val_def)

text \<open>The deck that the parse loop builds from the cards of \<open>d\<close>, one update per card.\<close>

definition built :: "Deck \<Rightarrow> Deck \<Rightarrow> Deck" where
  "built d =
     upd_if (dk_W d \<noteq> []) (dk_W_update (\<lambda>_. dk_W d)) \<circ>
     upd_if (dk_U d \<noteq> []) (dk_U_update (\<lambda>_. dk_U d)) \<circ>
     dk_T_update (\<lambda>ys. ys @ sort_key tag_key (dk_T d)) \<circ>
     upd_if (dk_R d \<noteq> []) (dk_R_update (\<lambda>_. dk_R d)) \<circ>
     dk_Q_update (\<lambda>ys. ys @ dk_Q d) \<circ>
     upd_if (dk_P d \<noteq> []) (dk_P_update (\<lambda>_. dk_P d)) \<circ>
     upd_if (dk_N d \<noteq> []) (dk_N_update (\<lambda>_. dk_N d)) \<circ>
     dk_M_update (\<lambda>ys. ys @ sort (dk_M d)) \<circ>
     upd_if (dk_L d \<noteq> []) (dk_L_update (\<lambda>_. dk_L d)) \<circ>
     upd_if (dk_K d \<noteq> []) (dk_K_update (\<lambda>_. dk_K d)) \<circ>
     dk_J_update (\<lambda>ys. ys @ dk_J d) \<circ>
     upd_if (dk_I d \<noteq> []) (dk_I_update (\<lambda>_. dk_I d)) \<circ>
     upd_if (dk_H d \<noteq> []) (dk_H_update (\<lambda>_. dk_H d)) \<circ>
     upd_if (dk_G d \<noteq> []) (dk_G_update (\<lambda>_. dk_G d)) \<circ>
     dk_F_update (\<lambda>ys. ys @ sort_key fc_Name (dk_F d)) \<circ>
     upd_if (dk_E d \<noteq> None) (dk_E_update (\<lambda>_. dk_E d)) \<circ>
     upd_if (dk_D d \<noteq> zero_time) (dk_D_update (\<lambda>_. dk_D d)) \<circ>
     upd_if (dk_C d \<noteq> []) (dk_C_update (\<lambda>_. dk_C d)) \<circ>
     upd_if (dk_B d \<noteq> []) (dk_B_update (\<lambda>_. dk_B d)) \<circ>
     upd_if (dk_A d \<noteq> None) (dk_A_update (\<lambda>_. dk_A d))"

lemma wf_deckD:
  assumes "wf_deck d"
  shows "case dk_A d of None \<Rightarrow> True | Some a \<Rightarrow> A_ok a" "D_ok (dk_D d)"
    "case dk_E d of None \<Rightarrow> True | Some e \<Rightarrow> E_ok e"
    "trimmed (dk_B d)" "trimmed (dk_G d)" "trimmed (dk_I d)" "trimmed (dk_K d)" "trimmed (dk_N d)"
    "trimmed (dk_R d)" "list_all F_ok (dk_F d)" "list_all (\<lambda>j. line_ok (tf_Value j)) (dk_J d)"
    "list_all trimmed (dk_M d)" "list_all is_token (dk_P d)" "list_all Q_ok (dk_Q d)"
    "list_all T_ok (dk_T d)" "length (dk_W d) \<le> max_alloc"
  using assms by (simp_all add: wf_deck_def)

lemma runs_marshalCards:
  assumes "wf_deck d"
  shows "runs (marshalCards d) CHR ''A'' CHR ''W'' (built d)"
  unfolding marshalCards_def built_def
  by (intro
      runs_append [OF runs_A _ card_order(1)] runs_append [OF runs_trimmed_fields(1) _ card_order(2)]
      runs_append [OF runs_escaped_fields(1) _ card_order(3)] runs_append [OF runs_D _ card_order(4)]
      runs_append [OF runs_E _ card_order(5)] runs_append [OF runs_F _ card_order(6)]
      runs_append [OF runs_trimmed_fields(2) _ card_order(7)] runs_append [OF runs_escaped_fields(2) _ card_order(8)]
      runs_append [OF runs_trimmed_fields(3) _ card_order(9)] runs_append [OF runs_J _ card_order(10)]
      runs_append [OF runs_trimmed_fields(4) _ card_order(11)] runs_append [OF runs_escaped_fields(3) _ card_order(12)]
      runs_append [OF runs_M _ card_order(13)] runs_append [OF runs_trimmed_fields(5) _ card_order(14)]
      runs_append [OF runs_P _ card_order(15)] runs_append [OF runs_Q _ card_order(16)]
      runs_append [OF runs_trimmed_fields(6) _ card_order(17)] runs_append [OF runs_T _ card_order(18)]
      runs_append [OF runs_escaped_fields(4) _ card_order(19)]
      runs_W wf_deckD [OF assms])

lemma upd_if_frame: "(\<And>d. sel (f d) = sel d) \<Longrightarrow> sel (upd_if b f d) = sel d"
  by (simp add: upd_if_def)

lemmas upd_if_frames =
  upd_if_frame [where sel = dk_Type]
  upd_if_frame [where sel = dk_A]
  upd_if_frame [where sel = dk_B]
  upd_if_frame [where sel = dk_C]
  upd_if_frame [where sel = dk_D]
  upd_if_frame [where sel = dk_E]
  upd_if_frame [where sel = dk_F]
  upd_if_frame [where sel = dk_G]
  upd_if_frame [where sel = dk_H]
  upd_if_frame [where sel = dk_I]
  upd_if_frame [where sel = dk_J]
  upd_if_frame [where sel = dk_K]
  upd_if_frame [where sel = dk_L]
  upd_if_frame [where sel = dk_M]
  upd_if_frame [where sel = dk_N]
  upd_if_frame [where sel = dk_P]
  upd_if_frame [where sel = dk_Q]
  upd_if_frame [where sel = dk_R]
  upd_if_frame [where sel = dk_T]
  upd_if_frame [where sel = dk_U]
  upd_if_frame [where sel = dk_W]
  upd_if_frame [where sel = dk_Z]

lemma upd_if_own:
  "dk_A (upd_if b (dk_A_update (\<lambda>_. vA)) d) = (if b then vA else dk_A d)"
  "dk_B (upd_if b (dk_B_update (\<lambda>_. vB)) d) = (if b then vB else dk_B d)"
  "dk_C (upd_if b (dk_C_update (\<lambda>_. vC)) d) = (if b then vC else dk_C d)"
  "dk_D (upd_if b (dk_D_update (\<lambda>_. vD)) d) = (if b then vD else dk_D d)"
  "dk_E (upd_if b (dk_E_update (\<lambda>_. vE)) d) = (if b then vE else dk_E d)"
  "dk_G (upd_if b (dk_G_update (\<lambda>_. vG)) d) = (if b then vG else dk_G d)"
  "dk_H (upd_if b (dk_H_update (\<lambda>_. vH)) d) = (if b then vH else dk_H d)"
  "dk_I (upd_if b (dk_I_update (\<lambda>_. vI)) d) = (if b then vI else dk_I d)"
  "dk_K (upd_if b (dk_K_update (\<lambda>_. vK)) d) = (if b then vK else dk_K d)"
  "dk_L (upd_if b (dk_L_update (\<lambda>_. vL)) d) = (if b then vL else dk_L d)"
  "dk_N (upd_if b (dk_N_update (\<lambda>_. vN)) d) = (if b then vN else dk_N d)"
  "dk_P (upd_if b (dk_P_update (\<lambda>_. vP)) d) = (if b then vP else dk_P d)"
  "dk_R (upd_if b (dk_R_update (\<lambda>_. vR)) d) = (if b then vR else dk_R d)"
  "dk_U (upd_if b (dk_U_update (\<lambda>_. vU)) d) = (if b then vU else dk_U d)"
  "dk_W (upd_if b (dk_W_update (\<lambda>_. vW)) d) = (if b then vW else dk_W d)"
  by (simp_all add: upd_if_def)

lemma built_empty: "built d empty_deck = (canonical d)\<lparr>dk_Type := Checkin\<rparr>"
  by (rule Deck.equality) (simp_all add: built_def upd_if_frames upd_if_own empty_deck_def canonical_def)

lemma inferType_canonical: "inferType ((canonical d)\<lparr>dk_Type := t\<rparr>) = inferType d"
proof -
  have "length (sort_key k xs) > 0 \<longleftrightarrow> length xs > 0" for k :: "'k \<Rightarrow> 'l :: linorder" and xs
    by simp
  then show ?thesis by (simp add: inferType_def canonical_def)
qed

lemma VerifyZ_card:
  assumes "\<And>s. length (md5hex s) = 32"
  shows "VerifyZ md5hex (body @ card_line CHR ''Z'' (computeZ md5hex body)) = Ok ()"
proof -
  have "subslice 2 34 (card_line CHR ''Z'' (md5hex body)) = md5hex body"
    "card_line CHR ''Z'' (md5hex body) ! 34 = NL"
    using assms [of body] by (simp_all add: card_line_def subslice_def nth_append)
  with assms [of body] show ?thesis
    by (simp add: VerifyZ_def computeZ_def card_line_def)
qed

lemma Parse_Marshal:
  assumes "wf_deck d" and len: "\<And>s. length (md5hex s) = 32"
  shows "Parse md5hex (Marshal md5hex d) = Ok (canonical d)"
proof -
  let ?body = "marshalCards d"
  have "length (card_line CHR ''Z'' (computeZ md5hex ?body)) = 35"
    by (simp add: card_line_def computeZ_def len)
  then have "take (length (Marshal md5hex d) - 35) (Marshal md5hex d) = ?body"
    by (simp add: Marshal_def Let_def)
  moreover have "VerifyZ md5hex (Marshal md5hex d) = Ok ()"
    using VerifyZ_card [OF len] by (simp add: Marshal_def Let_def)
  moreover have "Parse_loop ?body empty_deck (char_of (0 :: nat)) = Ok (built d empty_deck)"
  proof -
    have "byte_val (char_of (0 :: nat)) \<le> byte_val CHR ''A''" by simp
    with runs_marshalCards [OF assms(1)] obtain l where
      "Parse_loop (?body @ []) empty_deck (char_of (0 :: nat)) = Parse_loop [] (built d empty_deck) l"
      unfolding runs_def by blast
    then show ?thesis by (simp add: Parse_loop.simps [of "[]"])
  qed
  ultimately show ?thesis
    by (simp add: Parse_def built_empty inferType_canonical) (simp add: canonical_def)
qed

section \<open>Properties\<close>

text \<open>
  Claim C2.  \<open>Parse\<close> reads back every well-formed deck that \<open>Marshal\<close> writes: the result is
  the deck with its F, M and T cards in sorted order, the artifact type inferred from the
  cards and the Z field left empty.  Nothing is assumed of MD5 but that its hexadecimal form
  has 32 characters.
\<close>

theorem deck_roundtrip:
  assumes "wf_deck d" and "\<And>s. length (md5hex s) = 32"
  shows "Parse md5hex (Marshal md5hex d) = Ok (canonical d)"
  using assms by (rule Parse_Marshal)

definition sample_deck :: Deck where
  "sample_deck = empty_deck\<lparr>dk_C := ''initial check-in'', dk_U := ''ann'',
     dk_F := [\<lparr>fc_Name = ''b'', fc_UUID = ''0b'', fc_Perm = ''x'', fc_OldName = ''a b''\<rparr>,
              \<lparr>fc_Name = ''a'', fc_UUID = ''0a'', fc_Perm = [], fc_OldName = []\<rparr>],
     dk_P := [''p1'', ''p2''],
     dk_T := [\<lparr>tc_Type = TagPropagating, tc_Name = ''branch'', tc_UUID = ''*'', tc_Value = ''trunk''\<rparr>],
     dk_W := ''text''\<rparr>"

theorem deck_roundtrip_witness:
  "Parse (\<lambda>_. replicate 32 CHR ''0'') (Marshal (\<lambda>_. replicate 32 CHR ''0'') sample_deck) =
     Ok (canonical sample_deck)"
proof (rule deck_roundtrip)
  have "list_all F_ok (dk_F sample_deck)" "list_all is_token (dk_P sample_deck)"
    "list_all T_ok (dk_T sample_deck)" "TrimSpace [] = []"
    by code_simp+
  moreover have "D_ok (dk_D sample_deck)"
    by (simp add: D_ok_def sample_deck_def empty_deck_def zero_time_def encodable_time_def
        valid_time_def days_in_def)
  ultimately show "wf_deck sample_deck"
    by (simp add: wf_deck_def sample_deck_def empty_deck_def trimmed_def max_alloc_def)
qed simp

lemma inferType_Type [simp]: "inferType (d\<lparr>dk_Type := t\<rparr>) = inferType d"
  by (simp add: inferType_def)

lemma Z_line_shape:
  assumes "length xs = 35"
  shows "xs = xs ! 0 # xs ! 1 # subslice 2 34 xs @ [xs ! 34]"
proof -
  have "xs = take 34 xs @ [xs ! 34]"
    using assms by (metis take_all_iff le_refl eval_nat_numeral(3) lessI less_le take_Suc_conv_app_nth)
  moreover have "take 34 xs = xs ! 0 # xs ! 1 # subslice 2 34 xs"
    using assms by (cases xs; cases "tl xs") (auto simp: subslice_def numeral_eq_Suc)
  ultimately show ?thesis by simp
qed

text \<open>
  Data that \<open>Parse\<close> accepts is exactly some body followed by the Z card with the
  checksum of that body, and no shorter or differently terminated data is accepted.
\<close>

theorem Parse_Ok_checksummed:
  assumes "Parse md5hex data = Ok d"
  shows "\<exists>body. data = body @ card_line CHR ''Z'' (md5hex body) \<and>
           length (md5hex body) = 32 \<and> dk_Type d = inferType d"
proof -
  let ?n = "length data - 35"
  define tail where "tail = drop ?n data"
  from assms have "VerifyZ md5hex data = Ok ()" and type: "dk_Type d = inferType d"
    by (auto simp: Parse_def bind_ok_eq_Ok)
  from this(1) have len: "length data \<ge> 35" and
    z: "tail ! 0 = CHR ''Z''" "tail ! 1 = SPC" "tail ! 34 = NL" and
    md5: "md5hex (take ?n data) = subslice 2 34 tail"
    by (simp_all add: VerifyZ_def computeZ_def tail_def Let_def split: if_splits)
  have len35: "length tail = 35" using len by (simp add: tail_def)
  have "tail = card_line CHR ''Z'' (md5hex (take ?n data))"
    using Z_line_shape [OF len35] z md5 by (simp add: card_line_def)
  moreover have "length (md5hex (take ?n data)) = 32"
    using len35 md5 by (simp add: subslice_def)
  moreover have "data = take ?n data @ tail" by (simp add: tail_def)
  ultimately show ?thesis using type by metis
qed

theorem Parse_Ok_checksummed_witness:
  "\<exists>body. Marshal (\<lambda>_. replicate 32 CHR ''0'') empty_deck =
     body @ card_line CHR ''Z'' (replicate 32 CHR ''0'')"
proof -
  have "Parse (\<lambda>_. replicate 32 CHR ''0'') (Marshal (\<lambda>_. replicate 32 CHR ''0'') empty_deck) =
      Ok empty_deck"
    by code_simp
  from Parse_Ok_checksummed [OF this] show ?thesis by blast
qed

text \<open>
  A renamed file with no permission loses its old name: \<open>Marshal\<close> leaves no
  placeholder for the empty permission, so \<open>Parse\<close> reads the (escaped) old name as the
  permission and finds no old name, for every such file card.
\<close>

theorem F_card_rename_without_perm:
  assumes "is_token (FossilEncode (fc_Name f))" "is_token (fc_UUID f)"
    "is_token (FossilEncode (fc_OldName f))" and "fc_Perm f = []" "fc_OldName f \<noteq> []"
  shows "parseFCard d (F_args f) = Ok (d\<lparr>dk_F := dk_F d @
           [\<lparr>fc_Name = fc_Name f, fc_UUID = fc_UUID f,
             fc_Perm = FossilEncode (fc_OldName f), fc_OldName = []\<rparr>]\<rparr>)"
proof -
  have "fc_UUID f \<noteq> []" using assms(2) by (auto simp: is_token_def)
  then have "F_args f = Join [FossilEncode (fc_Name f), fc_UUID f, FossilEncode (fc_OldName f)] [SPC]"
    using assms(4,5) by (simp add: F_args_def opt_arg_def)
  then have "Fields (F_args f) = [FossilEncode (fc_Name f), fc_UUID f, FossilEncode (fc_OldName f)]"
    using assms(1-3) by (simp only: Fields_Join list.pred_inject list.set ball_simps simp_thms)
  then show ?thesis by (simp add: parseFCard_def)
qed

theorem F_card_rename_without_perm_witness:
  "parseFCard empty_deck
     (F_args \<lparr>fc_Name = ''new'', fc_UUID = ''0a'', fc_Perm = [], fc_OldName = ''old''\<rparr>) =
   Ok (empty_deck\<lparr>dk_F := [\<lparr>fc_Name = ''new'', fc_UUID = ''0a'', fc_Perm = ''old'', fc_OldName = []\<rparr>]\<rparr>)"
proof -
  let ?f = "\<lparr>fc_Name = ''new'', fc_UUID = ''0a'', fc_Perm = [], fc_OldName = ''old''\<rparr>"
  have "is_token (FossilEncode (fc_Name ?f))" "is_token (fc_UUID ?f)"
    "is_token (FossilEncode (fc_OldName ?f))" "fc_Perm ?f = []" "fc_OldName ?f \<noteq> []"
    by code_simp+
  moreover have "FossilEncode ''old'' = ''old''" by code_simp
  ultimately show ?thesis using F_card_rename_without_perm [of ?f empty_deck] by (simp add: empty_deck_def)
qed

text \<open>
  Checksummed data can still make \<open>Parse\<close> panic: a body whose first line is a
  \<open>W\<close> card with a negative size reaches \<open>make\<close> with that size.
\<close>

theorem Parse_negative_W_panics:
  assumes "n > 0" "n \<le> 2 ^ 63" "\<And>s. length (md5hex s) = 32"
  shows "let body = card_line CHR ''W'' (show_int (- n)) @ rest
         in is_panic (Parse md5hex (body @ card_line CHR ''Z'' (computeZ md5hex body)))"
proof -
  let ?line = "CHR ''W'' # SPC # show_int (- n)"
  let ?body = "card_line CHR ''W'' (show_int (- n)) @ rest"
  have tok: "is_token (show_int (- n))" by (rule show_int_token)
  have clean: "NL \<notin> set ?line"
    using tok by (auto simp: is_token_def no_space_mem)
  have "Atoi (TrimSpace (show_int (- n))) = Some (- n)"
    using assms tok by (simp add: TrimSpace_no_space Atoi_show_int is_token_def is_int64_def
        int64_min_def int64_max_def)
  then have "parse_W ?line rest = Panic ''makeslice: len out of range''"
    using assms(1) by (simp add: parse_W_def)
  moreover have "readLine ?body = (?line, rest)"
    using readLine_line [OF clean, of rest] by (simp add: card_line_def)
  ultimately have "is_panic (Parse_loop ?body empty_deck (char_of (0 :: nat)))"
    by (subst Parse_loop.simps) (simp add: card_line_def)
  moreover have "length (card_line CHR ''Z'' (computeZ md5hex ?body)) = 35"
    by (simp add: card_line_def computeZ_def assms(3))
  moreover have "VerifyZ md5hex (?body @ card_line CHR ''Z'' (computeZ md5hex ?body)) = Ok ()"
    by (rule VerifyZ_card) (rule assms)
  ultimately show ?thesis by (simp add: Parse_def Let_def is_panic_bind)
qed

theorem Parse_negative_W_panics_witness:
  "is_panic (Parse (\<lambda>_. replicate 32 CHR ''0'')
     ((card_line CHR ''W'' ''-1'' @ []) @ card_line CHR ''Z'' (replicate 32 CHR ''0'')))"
proof -
  have "show_int (- 1) = ''-1''" by code_simp
  with Parse_negative_W_panics [of 1 "\<lambda>_. replicate 32 CHR ''0''" "[]"] show ?thesis
    by (simp add: computeZ_def Let_def)
qed

text \<open>
  The R checksum of a check-in does not depend on the order of its F cards, as
  long as no two of them have the same name.
\<close>

theorem ComputeR_order_irrelevant:
  assumes "mset (dk_F d) = mset (dk_F d')" and "distinct (map fc_Name (dk_F d))"
  shows "ComputeR md5hex getContent d = ComputeR md5hex getContent d'"
proof -
  have "sort_key fc_Name (dk_F d) = sort_key fc_Name (dk_F d')"
    using assms by (intro sort_key_inj_key_eq) (simp_all add: distinct_map)
  moreover have "length (dk_F d) = length (dk_F d')" using assms(1) by (rule mset_eq_length)
  ultimately show ?thesis by (simp add: ComputeR_def)
qed

theorem ComputeR_order_irrelevant_witness:
  "ComputeR id (Ok :: bytes \<Rightarrow> (unit, bytes) outcome) sample_deck =
   ComputeR id Ok (sample_deck\<lparr>dk_F := rev (dk_F sample_deck)\<rparr>)"
  by (rule ComputeR_order_irrelevant) (simp_all add: sample_deck_def)

end
