(* ===== verification/Xfer.thy ===== *)
theory Xfer
  imports Deck_Encode
begin

unbundle bit_operations_syntax

text \<open>
  The sync protocol codec (\<open>internal/xfer\<close>): the cards (\<open>card.go\<close>, \<open>card_tablesync.go\<close>),
  their encoders (\<open>encode.go\<close>), their decoders (\<open>decode.go\<close>) and messages (\<open>message.go\<close>).
  The zlib library is a pair of arguments: \<open>deflate\<close>, what the writer produces for a
  payload, and \<open>inflate\<close>, what reading a stream to its end gives (\<open>None\<close> for any error).
  A \<open>bufio.Reader\<close> is the list of the bytes still to be read.
\<close>

section \<open>Cards (card.go, card_tablesync.go)\<close>

datatype Card =
    FileCard (file_UUID: bytes) (file_DeltaSrc: bytes) (file_Content: bytes)
  | CFileCard (cfile_UUID: bytes) (cfile_DeltaSrc: bytes) (cfile_USize: int) (cfile_Content: bytes)
  | IGotCard (igot_UUID: bytes) (igot_IsPrivate: bool)
  | GimmeCard (gimme_UUID: bytes)
  | LoginCard (login_User: bytes) (login_Nonce: bytes) (login_Signature: bytes)
  | PushCard (push_ServerCode: bytes) (push_ProjectCode: bytes)
  | PullCard (pull_ServerCode: bytes) (pull_ProjectCode: bytes)
  | CookieCard (cookie_Value: bytes)
  | CloneCard (clone_Version: int) (clone_SeqNo: int)
  | CloneSeqNoCard (seqno_SeqNo: int)
  | ConfigCard (config_Name: bytes) (config_Content: bytes)
  | ReqConfigCard (reqconfig_Name: bytes)
  | PrivateCard
  | UVFileCard (uvfile_Name: bytes) (uvfile_MTime: int) (uvfile_Hash: bytes) (uvfile_Size: int)
      (uvfile_Flags: int) (uvfile_Content: bytes)
  | UVGimmeCard (uvgimme_Name: bytes)
  | UVIGotCard (uvigot_Name: bytes) (uvigot_MTime: int) (uvigot_Hash: bytes) (uvigot_Size: int)
  | PragmaCard (pragma_Name: bytes) (pragma_Values: "bytes list")
  | ErrorCard (error_Message: bytes)
  | MessageCard (message_Message: bytes)
  | UnknownCard (unknown_Command: bytes) (unknown_Args: "bytes list")
  | SchemaCard (schema_Table: bytes) (schema_Version: int) (schema_Hash: bytes) (schema_MTime: int)
      (schema_Content: bytes)
  | XIGotCard (xigot_Table: bytes) (xigot_PKHash: bytes) (xigot_MTime: int)
  | XGimmeCard (xgimme_Table: bytes) (xgimme_PKHash: bytes)
  | XRowCard (xrow_Table: bytes) (xrow_PKHash: bytes) (xrow_MTime: int) (xrow_Content: bytes)
  | XDeleteCard (xdelete_Table: bytes) (xdelete_PKHash: bytes) (xdelete_MTime: int)
      (xdelete_PKData: bytes)

datatype xfer_error =
    EOF | EmptyLine
  | ArgCount string nat
  | BadNumber string
  | OutOfBounds string int
  | ReadPayload nat
  | ZlibInit nat
  | USizeMismatch int nat

definition UVFlagDeletion :: int where "UVFlagDeletion = 1"
definition UVFlagContentOmitted :: int where "UVFlagContentOmitted = 4"
definition UVFlagNoPayload :: int where "UVFlagNoPayload = UVFlagDeletion OR UVFlagContentOmitted"

section \<open>Encoding (encode.go)\<close>

text \<open>
  Every encoder appends to the buffer; here it returns what it appends.  \<open>%d\<close> is
  \<open>show_int\<close>.
\<close>

definition sp_int :: "int \<Rightarrow> bytes" where
  "sp_int i = SPC # show_int i"

definition uvFileOmitsContent :: "int \<Rightarrow> bool" where
  "uvFileOmitsContent flags \<longleftrightarrow> flags AND 1 \<noteq> 0 \<or> flags AND 4 \<noteq> 0"

definition encodeIGot :: "bytes \<Rightarrow> bool \<Rightarrow> bytes" where
  "encodeIGot uuid isPrivate = ''igot '' @ uuid @ (if isPrivate then '' 1'' else []) @ [NL]"

definition encodeGimme :: "bytes \<Rightarrow> bytes" where
  "encodeGimme uuid = ''gimme '' @ uuid @ [NL]"

definition encodePush :: "bytes \<Rightarrow> bytes \<Rightarrow> (xfer_error, bytes) outcome" where
  "encodePush serverCode projectCode =
     (if projectCode = [] then Panic ''xfer: encodePush: ProjectCode must not be empty''
      else Ok (''push '' @ projectCode @ (if serverCode \<noteq> [] then SPC # serverCode else []) @ [NL]))"

definition encodePull :: "bytes \<Rightarrow> bytes \<Rightarrow> (xfer_error, bytes) outcome" where
  "encodePull serverCode projectCode =
     (if projectCode = [] then Panic ''xfer: encodePull: ProjectCode must not be empty''
      else if serverCode = [] then Panic ''xfer: encodePull: ServerCode must not be empty''
      else Ok (''pull '' @ projectCode @ [SPC] @ serverCode @ [NL]))"

definition encodeCookie :: "bytes \<Rightarrow> bytes" where
  "encodeCookie v = ''cookie '' @ v @ [NL]"

definition encodeReqConfig :: "bytes \<Rightarrow> bytes" where
  "encodeReqConfig name = ''reqconfig '' @ name @ [NL]"

definition encodePrivate :: bytes where
  "encodePrivate = ''private'' @ [NL]"

definition encodeClone :: "int \<Rightarrow> int \<Rightarrow> bytes" where
  "encodeClone version seqNo =
     (if version = 0 \<and> seqNo = 0 then ''clone'' @ [NL]
      else ''clone'' @ sp_int version @ sp_int seqNo @ [NL])"

definition encodeCloneSeqNo :: "int \<Rightarrow> bytes" where
  "encodeCloneSeqNo seqNo = ''clone_seqno'' @ sp_int seqNo @ [NL]"

definition encodeUVGimme :: "bytes \<Rightarrow> bytes" where
  "encodeUVGimme name = ''uvgimme '' @ name @ [NL]"

definition encodePragma :: "bytes \<Rightarrow> bytes list \<Rightarrow> bytes" where
  "encodePragma name values = ''pragma '' @ name @ concat (map ((#) SPC) values) @ [NL]"

definition encodeLogin :: "bytes \<Rightarrow> bytes \<Rightarrow> bytes \<Rightarrow> bytes" where
  "encodeLogin user nonce signature =
     ''login '' @ FossilEncode user @ [SPC] @ nonce @ [SPC] @ signature @ [NL]"

definition encodeError :: "bytes \<Rightarrow> bytes" where
  "encodeError msg = ''error '' @ FossilEncode msg @ [NL]"

definition encodeMessage :: "bytes \<Rightarrow> bytes" where
  "encodeMessage msg = ''message '' @ FossilEncode msg @ [NL]"

definition encodeUVIGot :: "bytes \<Rightarrow> int \<Rightarrow> bytes \<Rightarrow> int \<Rightarrow> bytes" where
  "encodeUVIGot name mtime hash sz = ''uvigot '' @ name @ sp_int mtime @ [SPC] @ hash @ sp_int sz @ [NL]"

definition encodeUnknown :: "bytes \<Rightarrow> bytes list \<Rightarrow> bytes" where
  "encodeUnknown cmd args = cmd @ concat (map ((#) SPC) args) @ [NL]"

definition encodeFile :: "bytes \<Rightarrow> bytes \<Rightarrow> bytes \<Rightarrow> bytes" where
  "encodeFile uuid deltaSrc content =
     ''file '' @ uuid @ (if deltaSrc \<noteq> [] then SPC # deltaSrc else []) @
     sp_int (int (length content)) @ [NL] @ content"

definition encodeCFile :: "(bytes \<Rightarrow> bytes) \<Rightarrow> bytes \<Rightarrow> bytes \<Rightarrow> bytes \<Rightarrow> bytes" where
  "encodeCFile deflate uuid deltaSrc content =
     (let zbuf = deflate content in
      ''cfile '' @ uuid @ (if deltaSrc \<noteq> [] then SPC # deltaSrc else []) @
      sp_int (int (length content)) @ sp_int (int (length zbuf)) @ [NL] @ zbuf)"

definition encodeConfig :: "bytes \<Rightarrow> bytes \<Rightarrow> bytes" where
  "encodeConfig name content =
     ''config '' @ name @ sp_int (int (length content)) @ [NL] @ content @ [NL]"

definition encodeUVFile :: "bytes \<Rightarrow> int \<Rightarrow> bytes \<Rightarrow> int \<Rightarrow> int \<Rightarrow> bytes \<Rightarrow> bytes" where
  "encodeUVFile name mtime hash sz flags content =
     ''uvfile '' @ name @ sp_int mtime @ [SPC] @ hash @ sp_int sz @ sp_int flags @ [NL] @
     (if \<not> uvFileOmitsContent flags then content else [])"

definition encodeSchema :: "bytes \<Rightarrow> int \<Rightarrow> bytes \<Rightarrow> int \<Rightarrow> bytes \<Rightarrow> bytes" where
  "encodeSchema table version hash mtime content =
     ''schema '' @ table @ sp_int version @ [SPC] @ hash @ sp_int mtime @
     sp_int (int (length content)) @ [NL] @ content @ [NL]"

text \<open>The guard the four table sync row encoders share.\<close>

definition with_row_key :: "string \<Rightarrow> bytes \<Rightarrow> bytes \<Rightarrow> bytes \<Rightarrow> (xfer_error, bytes) outcome" where
  "with_row_key fn table pkHash text =
     (if table = [] then Panic (fn @ '': Table must not be empty'')
      else if pkHash = [] then Panic (fn @ '': PKHash must not be empty'')
      else Ok text)"

definition encodeXIGot :: "bytes \<Rightarrow> bytes \<Rightarrow> int \<Rightarrow> (xfer_error, bytes) outcome" where
  "encodeXIGot table pkHash mtime = with_row_key ''encodeXIGot'' table pkHash
     (''xigot '' @ table @ [SPC] @ pkHash @ sp_int mtime @ [NL])"

definition encodeXGimme :: "bytes \<Rightarrow> bytes \<Rightarrow> (xfer_error, bytes) outcome" where
  "encodeXGimme table pkHash = with_row_key ''encodeXGimme'' table pkHash
     (''xgimme '' @ table @ [SPC] @ pkHash @ [NL])"

definition encodeXRow :: "bytes \<Rightarrow> bytes \<Rightarrow> int \<Rightarrow> bytes \<Rightarrow> (xfer_error, bytes) outcome" where
  "encodeXRow table pkHash mtime content = with_row_key ''encodeXRow'' table pkHash
     (''xrow '' @ table @ [SPC] @ pkHash @ sp_int mtime @ sp_int (int (length content)) @ [NL] @
      content @ [NL])"

definition encodeXDelete :: "bytes \<Rightarrow> bytes \<Rightarrow> int \<Rightarrow> bytes \<Rightarrow> (xfer_error, bytes) outcome" where
  "encodeXDelete table pkHash mtime pkData = with_row_key ''encodeXDelete'' table pkHash
     (''xdelete '' @ table @ [SPC] @ pkHash @ sp_int mtime @ sp_int (int (length pkData)) @ [NL] @
      pkData @ [NL])"

fun EncodeCard :: "(bytes \<Rightarrow> bytes) \<Rightarrow> Card \<Rightarrow> (xfer_error, bytes) outcome" where
  "EncodeCard deflate (IGotCard uuid p) = Ok (encodeIGot uuid p)"
| "EncodeCard deflate (GimmeCard uuid) = Ok (encodeGimme uuid)"
| "EncodeCard deflate (PushCard sc pc) = encodePush sc pc"
| "EncodeCard deflate (PullCard sc pc) = encodePull sc pc"
| "EncodeCard deflate (CookieCard v) = Ok (encodeCookie v)"
| "EncodeCard deflate (ReqConfigCard n) = Ok (encodeReqConfig n)"
| "EncodeCard deflate PrivateCard = Ok encodePrivate"
| "EncodeCard deflate (CloneCard v s) = Ok (encodeClone v s)"
| "EncodeCard deflate (CloneSeqNoCard s) = Ok (encodeCloneSeqNo s)"
| "EncodeCard deflate (UVGimmeCard n) = Ok (encodeUVGimme n)"
| "EncodeCard deflate (PragmaCard n vs) = Ok (encodePragma n vs)"
| "EncodeCard deflate (LoginCard u n s) = Ok (encodeLogin u n s)"
| "EncodeCard deflate (ErrorCard m) = Ok (encodeError m)"
| "EncodeCard deflate (MessageCard m) = Ok (encodeMessage m)"
| "EncodeCard deflate (UVIGotCard n t h s) = Ok (encodeUVIGot n t h s)"
| "EncodeCard deflate (FileCard u d c) = Ok (encodeFile u d c)"
| "EncodeCard deflate (CFileCard u d us c) = Ok (encodeCFile deflate u d c)"
| "EncodeCard deflate (ConfigCard n c) = Ok (encodeConfig n c)"
| "EncodeCard deflate (UVFileCard n t h s f c) = Ok (encodeUVFile n t h s f c)"
| "EncodeCard deflate (SchemaCard tb v h t c) = Ok (encodeSchema tb v h t c)"
| "EncodeCard deflate (XIGotCard tb k t) = encodeXIGot tb k t"
| "EncodeCard deflate (XGimmeCard tb k) = encodeXGimme tb k"
| "EncodeCard deflate (XRowCard tb k t c) = encodeXRow tb k t c"
| "EncodeCard deflate (XDeleteCard tb k t p) = encodeXDelete tb k t p"
| "EncodeCard deflate (UnknownCard c a) = Ok (encodeUnknown c a)"

section \<open>Decoding (decode.go)\<close>

definition readPayload :: "bytes \<Rightarrow> int \<Rightarrow> (xfer_error, bytes \<times> bytes) outcome" where
  "readPayload r sz =
     (if sz < 0 then Panic ''xfer.readPayload: size must not be negative''
      else if sz = 0 then Ok ([], r)
      else if sz > int max_alloc then Panic ''makeslice: len out of range''
      else if length r < nat sz then Err (ReadPayload (length r))
      else Ok (take (nat sz) r, drop (nat sz) r))"

definition readPayloadWithTrailingNewline :: "bytes \<Rightarrow> int \<Rightarrow> (xfer_error, bytes \<times> bytes) outcome" where
  "readPayloadWithTrailingNewline r sz =
     bind_ok (readPayload r sz) (\<lambda>(buf, r').
       Ok (buf, case r' of [] \<Rightarrow> [] | b # r'' \<Rightarrow> if b \<noteq> NL then r' else r''))"

text \<open>\<open>strconv.Atoi\<close> and \<open>strconv.ParseInt(_, 10, 64)\<close> with the caller's error wrap.\<close>

definition number :: "string \<Rightarrow> bytes \<Rightarrow> (xfer_error, int) outcome" where
  "number what s = (case Atoi s of Some i \<Rightarrow> Ok i | None \<Rightarrow> Err (BadNumber what))"

definition parseIGot :: "bytes list \<Rightarrow> (xfer_error, Card) outcome" where
  "parseIGot args =
     (if length args < 1 \<or> length args > 2 then Err (ArgCount ''igot'' (length args))
      else Ok (IGotCard (args ! 0) (length args = 2 \<and> args ! 1 = ''1'')))"

definition parseGimme :: "bytes list \<Rightarrow> (xfer_error, Card) outcome" where
  "parseGimme args =
     (if length args \<noteq> 1 then Err (ArgCount ''gimme'' (length args)) else Ok (GimmeCard (args ! 0)))"

definition parsePush :: "bytes list \<Rightarrow> (xfer_error, Card) outcome" where
  "parsePush args =
     (if length args = 1 then Ok (PushCard [] (args ! 0))
      else if length args = 2 then Ok (PushCard (args ! 1) (args ! 0))
      else Err (ArgCount ''push'' (length args)))"

definition parsePull :: "bytes list \<Rightarrow> (xfer_error, Card) outcome" where
  "parsePull args =
     (if length args = 2 then Ok (PullCard (args ! 1) (args ! 0))
      else Err (ArgCount ''pull'' (length args)))"

definition parseCookie :: "bytes list \<Rightarrow> (xfer_error, Card) outcome" where
  "parseCookie args =
     (if length args \<noteq> 1 then Err (ArgCount ''cookie'' (length args)) else Ok (CookieCard (args ! 0)))"

definition parseReqConfig :: "bytes list \<Rightarrow> (xfer_error, Card) outcome" where
  "parseReqConfig args =
     (if length args \<noteq> 1 then Err (ArgCount ''reqconfig'' (length args))
      else Ok (ReqConfigCard (args ! 0)))"

definition parsePrivate :: "bytes list \<Rightarrow> (xfer_error, Card) outcome" where
  "parsePrivate args =
     (if length args \<noteq> 0 then Err (ArgCount ''private'' (length args)) else Ok PrivateCard)"

definition parseClone :: "bytes list \<Rightarrow> (xfer_error, Card) outcome" where
  "parseClone args =
     (if length args \<noteq> 0 \<and> length args \<noteq> 2 then Err (ArgCount ''clone'' (length args))
      else if length args = 2 then
        bind_ok (number ''clone version'' (args ! 0)) (\<lambda>v.
        bind_ok (number ''clone seqno'' (args ! 1)) (\<lambda>s. Ok (CloneCard v s)))
      else Ok (CloneCard 0 0))"

definition parseCloneSeqNo :: "bytes list \<Rightarrow> (xfer_error, Card) outcome" where
  "parseCloneSeqNo args =
     (if length args \<noteq> 1 then Err (ArgCount ''clone_seqno'' (length args))
      else bind_ok (number ''clone_seqno'' (args ! 0)) (\<lambda>s. Ok (CloneSeqNoCard s)))"

definition parseUVGimme :: "bytes list \<Rightarrow> (xfer_error, Card) outcome" where
  "parseUVGimme args =
     (if length args \<noteq> 1 then Err (ArgCount ''uvgimme'' (length args)) else Ok (UVGimmeCard (args ! 0)))"

definition parsePragma :: "bytes list \<Rightarrow> (xfer_error, Card) outcome" where
  "parsePragma args =
     (if length args < 1 then Err (ArgCount ''pragma'' (length args))
      else Ok (PragmaCard (args ! 0) (if length args > 1 then drop 1 args else [])))"

definition parseLogin :: "bytes list \<Rightarrow> (xfer_error, Card) outcome" where
  "parseLogin args =
     (if length args \<noteq> 3 then Err (ArgCount ''login'' (length args))
      else Ok (LoginCard (FossilDecode (args ! 0)) (args ! 1) (args ! 2)))"

definition parseError :: "bytes list \<Rightarrow> (xfer_error, Card) outcome" where
  "parseError args =
     (if length args \<noteq> 1 then Err (ArgCount ''error'' (length args))
      else Ok (ErrorCard (FossilDecode (args ! 0))))"

definition parseMessage :: "bytes list \<Rightarrow> (xfer_error, Card) outcome" where
  "parseMessage args =
     (if length args \<noteq> 1 then Err (ArgCount ''message'' (length args))
      else Ok (MessageCard (FossilDecode (args ! 0))))"

definition parseUVIGot :: "bytes list \<Rightarrow> (xfer_error, Card) outcome" where
  "parseUVIGot args =
     (if length args \<noteq> 4 then Err (ArgCount ''uvigot'' (length args))
      else bind_ok (number ''uvigot mtime'' (args ! 1)) (\<lambda>mtime.
           bind_ok (number ''uvigot size'' (args ! 3)) (\<lambda>sz.
             Ok (UVIGotCard (args ! 0) mtime (args ! 2) sz))))"

definition parseFile :: "bytes \<Rightarrow> bytes list \<Rightarrow> (xfer_error, Card \<times> bytes) outcome" where
  "parseFile r args =
     (if length args \<noteq> 2 \<and> length args \<noteq> 3 then Err (ArgCount ''file'' (length args))
      else let (deltaSrc, sizeStr) = (if length args = 3 then (args ! 1, args ! 2) else ([], args ! 1)) in
        bind_ok (number ''file size'' sizeStr) (\<lambda>sz.
        bind_ok (readPayload r sz) (\<lambda>(content, r'). Ok (FileCard (args ! 0) deltaSrc content, r'))))"

definition decompressCFile :: "(bytes \<Rightarrow> bytes option) \<Rightarrow> bytes \<Rightarrow> (xfer_error, bytes) outcome" where
  "decompressCFile inflate data =
     (case inflate data of
        Some out \<Rightarrow> Ok out
      | None \<Rightarrow>
          (case if length data > 4 then inflate (drop 4 data) else None of
             Some out \<Rightarrow> Ok out
           | None \<Rightarrow> Err (ZlibInit (length data))))"

definition parseCFile ::
  "(bytes \<Rightarrow> bytes option) \<Rightarrow> bytes \<Rightarrow> bytes list \<Rightarrow> (xfer_error, Card \<times> bytes) outcome" where
  "parseCFile inflate r args =
     (if length args \<noteq> 3 \<and> length args \<noteq> 4 then Err (ArgCount ''cfile'' (length args))
      else let (deltaSrc, usizeStr, csizeStr) =
             (if length args = 4 then (args ! 1, args ! 2, args ! 3) else ([], args ! 1, args ! 2)) in
        bind_ok (number ''cfile usize'' usizeStr) (\<lambda>usize.
        bind_ok (number ''cfile csize'' csizeStr) (\<lambda>csize.
        bind_ok (readPayload r csize) (\<lambda>(compressed, r').
        bind_ok (decompressCFile inflate compressed) (\<lambda>decompressed.
          if deltaSrc = [] \<and> int (length decompressed) \<noteq> usize
          then Err (USizeMismatch usize (length decompressed))
          else Ok (CFileCard (args ! 0) deltaSrc usize decompressed, r'))))))"

definition parseConfig :: "bytes \<Rightarrow> bytes list \<Rightarrow> (xfer_error, Card \<times> bytes) outcome" where
  "parseConfig r args =
     (if length args \<noteq> 2 then Err (ArgCount ''config'' (length args))
      else bind_ok (number ''config size'' (args ! 1)) (\<lambda>sz.
           bind_ok (readPayloadWithTrailingNewline r sz) (\<lambda>(content, r').
             Ok (ConfigCard (args ! 0) content, r'))))"

definition parseUVFile :: "bytes \<Rightarrow> bytes list \<Rightarrow> (xfer_error, Card \<times> bytes) outcome" where
  "parseUVFile r args =
     (if length args \<noteq> 5 then Err (ArgCount ''uvfile'' (length args))
      else bind_ok (number ''uvfile mtime'' (args ! 1)) (\<lambda>mtime.
           bind_ok (number ''uvfile size'' (args ! 3)) (\<lambda>sz.
           bind_ok (number ''uvfile flags'' (args ! 4)) (\<lambda>flags.
             if \<not> uvFileOmitsContent flags then
               bind_ok (readPayload r sz) (\<lambda>(content, r').
                 Ok (UVFileCard (args ! 0) mtime (args ! 2) sz flags content, r'))
             else Ok (UVFileCard (args ! 0) mtime (args ! 2) sz flags [], r)))))"

definition max_row_size :: int where "max_row_size = 64 * 2 ^ 20"

definition sized_payload :: "string \<Rightarrow> bytes \<Rightarrow> int \<Rightarrow> (xfer_error, bytes \<times> bytes) outcome" where
  "sized_payload what r sz =
     (if sz < 0 \<or> sz > max_row_size then Err (OutOfBounds what sz)
      else readPayloadWithTrailingNewline r sz)"

definition parseSchema :: "bytes \<Rightarrow> bytes list \<Rightarrow> (xfer_error, Card \<times> bytes) outcome" where
  "parseSchema r args =
     (if length args \<noteq> 5 then Err (ArgCount ''schema'' (length args))
      else bind_ok (number ''schema version'' (args ! 1)) (\<lambda>version.
           bind_ok (number ''schema mtime'' (args ! 3)) (\<lambda>mtime.
           bind_ok (number ''schema size'' (args ! 4)) (\<lambda>sz.
           bind_ok (sized_payload ''schema'' r sz) (\<lambda>(content, r').
             Ok (SchemaCard (args ! 0) version (args ! 2) mtime content, r'))))))"

definition parseXIGot :: "bytes list \<Rightarrow> (xfer_error, Card) outcome" where
  "parseXIGot args =
     (if length args \<noteq> 3 then Err (ArgCount ''xigot'' (length args))
      else bind_ok (number ''xigot mtime'' (args ! 2)) (\<lambda>mtime.
             Ok (XIGotCard (args ! 0) (args ! 1) mtime)))"

definition parseXGimme :: "bytes list \<Rightarrow> (xfer_error, Card) outcome" where
  "parseXGimme args =
     (if length args \<noteq> 2 then Err (ArgCount ''xgimme'' (length args))
      else Ok (XGimmeCard (args ! 0) (args ! 1)))"

definition parseXDelete :: "bytes \<Rightarrow> bytes list \<Rightarrow> (xfer_error, Card \<times> bytes) outcome" where
  "parseXDelete r args =
     (if length args \<noteq> 4 then Err (ArgCount ''xdelete'' (length args))
      else bind_ok (number ''xdelete mtime'' (args ! 2)) (\<lambda>mtime.
           bind_ok (number ''xdelete size'' (args ! 3)) (\<lambda>sz.
           bind_ok (sized_payload ''xdelete'' r sz) (\<lambda>(pkData, r').
             Ok (XDeleteCard (args ! 0) (args ! 1) mtime pkData, r')))))"

definition parseXRow :: "bytes \<Rightarrow> bytes list \<Rightarrow> (xfer_error, Card \<times> bytes) outcome" where
  "parseXRow r args =
     (if length args \<noteq> 4 then Err (ArgCount ''xrow'' (length args))
      else bind_ok (number ''xrow mtime'' (args ! 2)) (\<lambda>mtime.
           bind_ok (number ''xrow size'' (args ! 3)) (\<lambda>sz.
           bind_ok (sized_payload ''xrow'' r sz) (\<lambda>(content, r').
             Ok (XRowCard (args ! 0) (args ! 1) mtime content, r')))))"

text \<open>A card without payload leaves the reader where it is.\<close>

definition no_payload :: "bytes \<Rightarrow> (xfer_error, Card) outcome \<Rightarrow> (xfer_error, Card \<times> bytes) outcome" where
  "no_payload r m = bind_ok m (\<lambda>c. Ok (c, r))"

definition dispatch ::
  "(bytes \<Rightarrow> bytes option) \<Rightarrow> bytes \<Rightarrow> bytes \<Rightarrow> bytes list \<Rightarrow> (xfer_error, Card \<times> bytes) outcome" where
  "dispatch inflate r cmd args =
     (if cmd = ''igot'' then no_payload r (parseIGot args)
      else if cmd = ''gimme'' then no_payload r (parseGimme args)
      else if cmd = ''push'' then no_payload r (parsePush args)
      else if cmd = ''pull'' then no_payload r (parsePull args)
      else if cmd = ''cookie'' then no_payload r (parseCookie args)
      else if cmd = ''reqconfig'' then no_payload r (parseReqConfig args)
      else if cmd = ''private'' then no_payload r (parsePrivate args)
      else if cmd = ''clone'' then no_payload r (parseClone args)
      else if cmd = ''clone_seqno'' then no_payload r (parseCloneSeqNo args)
      else if cmd = ''uvgimme'' then no_payload r (parseUVGimme args)
      else if cmd = ''pragma'' then no_payload r (parsePragma args)
      else if cmd = ''login'' then no_payload r (parseLogin args)
      else if cmd = ''error'' then no_payload r (parseError args)
      else if cmd = ''message'' then no_payload r (parseMessage args)
      else if cmd = ''uvigot'' then no_payload r (parseUVIGot args)
      else if cmd = ''file'' then parseFile r args
      else if cmd = ''cfile'' then parseCFile inflate r args
      else if cmd = ''config'' then parseConfig r args
      else if cmd = ''uvfile'' then parseUVFile r args
      else if cmd = ''schema'' then parseSchema r args
      else if cmd = ''xigot'' then no_payload r (parseXIGot args)
      else if cmd = ''xgimme'' then no_payload r (parseXGimme args)
      else if cmd = ''xrow'' then parseXRow r args
      else if cmd = ''xdelete'' then parseXDelete r args
      else Ok (UnknownCard cmd args, r))"

definition parseLine ::
  "(bytes \<Rightarrow> bytes option) \<Rightarrow> bytes \<Rightarrow> bytes \<Rightarrow> (xfer_error, Card \<times> bytes) outcome" where
  "parseLine inflate r line =
     (case Fields line of [] \<Rightarrow> Err EmptyLine | cmd # args \<Rightarrow> dispatch inflate r cmd args)"

text \<open>
  \<open>ReadString\<close> returns the text up to and including the next newline, or all that is left
  together with \<open>io.EOF\<close>.
\<close>

definition ReadString :: "bytes \<Rightarrow> bytes \<times> bool \<times> bytes" where
  "ReadString r = (case cut NL r of Some (a, b) \<Rightarrow> (a @ [NL], False, b) | None \<Rightarrow> (r, True, []))"

function DecodeCard :: "(bytes \<Rightarrow> bytes option) \<Rightarrow> bytes \<Rightarrow> (xfer_error, Card \<times> bytes) outcome" where
  "DecodeCard inflate r =
     (let (line0, eof, r') = ReadString r; line = trim_eol line0 in
      if eof \<and> line = [] then Err EOF
      else if line = [] \<or> HasPrefix line ''#'' then
        (if eof then Err EOF else DecodeCard inflate r')
      else parseLine inflate r' line)"
  by pat_completeness auto
termination
  by (relation "measure (\<lambda>(inflate, r). length r)")
    (auto simp: ReadString_def split: option.splits dest: length_cut)

declare DecodeCard.simps [simp del]

section \<open>Messages (message.go)\<close>

record Message =
  msg_Cards :: "Card list"

definition maxDecompressedBytes :: nat where
  "maxDecompressedBytes = 50 * 1024 * 1024"

fun encode_cards :: "(bytes \<Rightarrow> bytes) \<Rightarrow> Card list \<Rightarrow> bytes \<Rightarrow> (xfer_error, bytes) outcome" where
  "encode_cards deflate [] buf = Ok buf"
| "encode_cards deflate (c # cs) buf =
     bind_ok (EncodeCard deflate c) (\<lambda>s. encode_cards deflate cs (buf @ s))"

definition EncodeUncompressed :: "(bytes \<Rightarrow> bytes) \<Rightarrow> Message \<Rightarrow> (xfer_error, bytes) outcome" where
  "EncodeUncompressed deflate m = encode_cards deflate (msg_Cards m) []"

definition Encode :: "(bytes \<Rightarrow> bytes) \<Rightarrow> Message \<Rightarrow> (xfer_error, bytes) outcome" where
  "Encode deflate m =
     bind_ok (EncodeUncompressed deflate m) (\<lambda>raw. Ok (PutUint32 (length raw) @ deflate raw))"

text \<open>
  The size limit is applied by reading at most one byte more; a stream that fails only
  beyond the limit is an error in either case.
\<close>

definition decompressBounded :: "(bytes \<Rightarrow> bytes option) \<Rightarrow> bytes \<Rightarrow> bytes option" where
  "decompressBounded inflate data =
     (case inflate data of None \<Rightarrow> None
      | Some raw \<Rightarrow> if length raw > maxDecompressedBytes then None else Some raw)"

text \<open>No parser returns more input than it was given, so the decoding loop ends.\<close>

lemma readPayload_rest: "readPayload r sz = Ok (c, r') \<Longrightarrow> length r' \<le> length r"
  by (auto simp: readPayload_def split: if_splits)

lemma readPayloadNL_rest:
  assumes "readPayloadWithTrailingNewline r sz = Ok (c, r')"
  shows "length r' \<le> length r"
proof -
  from assms obtain r1 where r1: "readPayload r sz = Ok (c, r1)"
    and "r' = (case r1 of [] \<Rightarrow> [] | b # r2 \<Rightarrow> if b \<noteq> NL then r1 else r2)"
    unfolding readPayloadWithTrailingNewline_def bind_ok_eq_Ok by auto
  then have "length r' \<le> length r1" by (cases r1) auto
  with readPayload_rest [OF r1] show ?thesis by simp
qed

lemma sized_payload_rest: "sized_payload what r sz = Ok (c, r') \<Longrightarrow> length r' \<le> length r"
  by (auto simp: sized_payload_def split: if_splits dest: readPayloadNL_rest)

lemma no_payload_rest: "no_payload r m = Ok (c, r') \<Longrightarrow> length r' \<le> length r"
  by (auto simp: no_payload_def bind_ok_eq_Ok)

lemma payload_rest:
  "parseFile r args = Ok (c, r') \<Longrightarrow> length r' \<le> length r"
  "parseCFile inflate r args = Ok (c, r') \<Longrightarrow> length r' \<le> length r"
  "parseConfig r args = Ok (c, r') \<Longrightarrow> length r' \<le> length r"
  "parseUVFile r args = Ok (c, r') \<Longrightarrow> length r' \<le> length r"
  "parseSchema r args = Ok (c, r') \<Longrightarrow> length r' \<le> length r"
  "parseXRow r args = Ok (c, r') \<Longrightarrow> length r' \<le> length r"
  "parseXDelete r args = Ok (c, r') \<Longrightarrow> length r' \<le> length r"
  by (auto simp: parseFile_def parseCFile_def parseConfig_def parseUVFile_def parseSchema_def
      parseXRow_def parseXDelete_def Let_def bind_ok_eq_Ok split: if_splits
      dest: readPayload_rest readPayloadNL_rest sized_payload_rest)

lemma dispatch_rest: "dispatch inflate r cmd args = Ok (c, r') \<Longrightarrow> length r' \<le> length r"
  unfolding dispatch_def
  by (simp split: if_split_asm) (auto dest: payload_rest no_payload_rest)

lemma parseLine_rest: "parseLine inflate r line = Ok (c, r') \<Longrightarrow> length r' \<le> length r"
  by (auto simp: parseLine_def split: list.splits dest: dispatch_rest)

lemma DecodeCard_rest: "DecodeCard inflate r = Ok (c, r') \<Longrightarrow> length r' < length r"
proof (induction inflate r rule: DecodeCard.induct)
  case (1 inflate r)
  obtain line0 eof r1 where rs: "ReadString r = (line0, eof, r1)" by (cases "ReadString r")
  then have shorter: "line0 \<noteq> [] \<Longrightarrow> length r1 < length r"
    by (auto simp: ReadString_def split: option.splits dest: length_cut)
  show ?case
  proof (cases "trim_eol line0 = [] \<or> HasPrefix (trim_eol line0) ''#''")
    case True
    with "1.prems" rs have ne: "\<not> eof"
      by (auto simp: DecodeCard.simps [of inflate r] Let_def split: if_splits)
    with rs have "length r1 < length r" by (auto simp: ReadString_def split: option.splits dest: length_cut)
    with "1.IH" [OF rs [symmetric] refl refl refl _ True ne] "1.prems" rs True ne show ?thesis
      by (simp add: DecodeCard.simps [of inflate r] Let_def)
  next
    case False
    with "1.prems" rs have "parseLine inflate r1 (trim_eol line0) = Ok (c, r')"
      by (auto simp: DecodeCard.simps [of inflate r] Let_def split: if_splits)
    moreover from False have "line0 \<noteq> []" by (auto simp: trim_eol_def)
    ultimately show ?thesis using shorter parseLine_rest [of inflate r1] by fastforce
  qed
qed

function decode_loop :: "(bytes \<Rightarrow> bytes option) \<Rightarrow> bytes \<Rightarrow> Card list \<Rightarrow> (xfer_error, Card list) outcome" where
  "decode_loop inflate r cards =
     (case DecodeCard inflate r of
        Ok (cd, r') \<Rightarrow> decode_loop inflate r' (cards @ [cd])
      | Err e \<Rightarrow> if e = EOF then Ok cards else Err e
      | Panic s \<Rightarrow> Panic s)"
  by pat_completeness auto
termination
  by (relation "measure (\<lambda>(inflate, r, cards). length r)") (auto dest: DecodeCard_rest)

declare decode_loop.simps [simp del]

definition DecodeUncompressed :: "(bytes \<Rightarrow> bytes option) \<Rightarrow> bytes \<Rightarrow> (xfer_error, Message) outcome" where
  "DecodeUncompressed inflate data =
     bind_ok (decode_loop inflate data []) (\<lambda>cards. Ok \<lparr>msg_Cards = cards\<rparr>)"

definition Decode :: "(bytes \<Rightarrow> bytes option) \<Rightarrow> bytes \<Rightarrow> (xfer_error, Message) outcome" where
  "Decode inflate data =
     (if length data = 0 then Ok \<lparr>msg_Cards = []\<rparr>
      else case decompressBounded inflate data of
             Some raw \<Rightarrow> DecodeUncompressed inflate raw
           | None \<Rightarrow>
               (case if length data \<ge> 4 then decompressBounded inflate (drop 4 data) else None of
                  Some raw \<Rightarrow> DecodeUncompressed inflate raw
                | None \<Rightarrow> DecodeUncompressed inflate data))"

end
