(* ===== verification/Xfer_Roundtrip.thy ===== *)
theory Xfer_Roundtrip
  imports Xfer Codec
begin

text \<open>
  Decoding inverts encoding, for one card followed by anything, for a message of cards, and
  through the compressed wire format.  Every encoder writes blank-separated words, a newline
  and a payload; \<open>card_words\<close> and \<open>card_payload\<close> name these parts.
\<close>

section \<open>Well-formed cards\<close>

text \<open>What the code relies on of zlib: reading a written stream gives the data back.\<close>

definition zlib_ok :: "(bytes \<Rightarrow> bytes) \<Rightarrow> (bytes \<Rightarrow> bytes option) \<Rightarrow> bool" where
  "zlib_ok deflate inflate \<longleftrightarrow> (\<forall>s. inflate (deflate s) = Some s)"

definition fits_mem :: "bytes \<Rightarrow> bool" where
  "fits_mem s \<longleftrightarrow> length s \<le> max_alloc"

definition opt_token :: "bytes \<Rightarrow> bool" where
  "opt_token s \<longleftrightarrow> s = [] \<or> is_token s"

definition commands :: "bytes list" where
  "commands = [''igot'', ''gimme'', ''push'', ''pull'', ''cookie'', ''reqconfig'', ''private'', ''clone'',
     ''clone_seqno'', ''uvgimme'', ''pragma'', ''login'', ''error'', ''message'', ''uvigot'', ''file'',
     ''cfile'', ''config'', ''uvfile'', ''schema'', ''xigot'', ''xgimme'', ''xrow'', ''xdelete'']"

fun wf_card :: "(bytes \<Rightarrow> bytes) \<Rightarrow> Card \<Rightarrow> bool" where
  "wf_card z (FileCard u d c) = (is_token u \<and> opt_token d \<and> fits_mem c)"
| "wf_card z (CFileCard u d us c) = (is_token u \<and> opt_token d \<and> fits_mem c \<and> fits_mem (z c))"
| "wf_card z (IGotCard u p) = is_token u"
| "wf_card z (GimmeCard u) = is_token u"
| "wf_card z (LoginCard u n s) = (is_token (FossilEncode u) \<and> is_token n \<and> is_token s)"
| "wf_card z (PushCard s p) = (is_token p \<and> opt_token s)"
| "wf_card z (PullCard s p) = (is_token p \<and> is_token s)"
| "wf_card z (CookieCard v) = is_token v"
| "wf_card z (CloneCard v s) = (is_int64 v \<and> is_int64 s)"
| "wf_card z (CloneSeqNoCard s) = is_int64 s"
| "wf_card z (ConfigCard n c) = (is_token n \<and> fits_mem c)"
| "wf_card z (ReqConfigCard n) = is_token n"
| "wf_card z PrivateCard = True"
| "wf_card z (UVFileCard n t h s f c) =
     (is_token n \<and> is_int64 t \<and> is_token h \<and> is_int64 s \<and> is_int64 f \<and>
      (uvFileOmitsContent f \<or> s = int (length c) \<and> fits_mem c))"
| "wf_card z (UVGimmeCard n) = is_token n"
| "wf_card z (UVIGotCard n t h s) = (is_token n \<and> is_int64 t \<and> is_token h \<and> is_int64 s)"
| "wf_card z (PragmaCard n vs) = (is_token n \<and> list_all is_token vs)"
| "wf_card z (ErrorCard m) = is_token (FossilEncode m)"
| "wf_card z (MessageCard m) = is_token (FossilEncode m)"
| "wf_card z (UnknownCard c a) =
     (is_token c \<and> list_all is_token a \<and> c \<notin> set commands \<and> \<not> HasPrefix c ''#'')"
| "wf_card z (SchemaCard tb v h t c) =
     (is_token tb \<and> is_int64 v \<and> is_token h \<and> is_int64 t \<and> int (length c) \<le> max_row_size)"
| "wf_card z (XIGotCard tb k t) = (is_token tb \<and> is_token k \<and> is_int64 t)"
| "wf_card z (XGimmeCard tb k) = (is_token tb \<and> is_token k)"
| "wf_card z (XRowCard tb k t c) =
     (is_token tb \<and> is_token k \<and> is_int64 t \<and> int (length c) \<le> max_row_size)"
| "wf_card z (XDeleteCard tb k t p) =
     (is_token tb \<and> is_token k \<and> is_int64 t \<and> int (length p) \<le> max_row_size)"

text \<open>
  The decoder's view of a card: the uncompressed size of a \<open>cfile\<close> is that of its content,
  and a \<open>uvfile\<close> whose flags omit the content has none.
\<close>

fun norm_card :: "Card \<Rightarrow> Card" where
  "norm_card (CFileCard u d us c) = CFileCard u d (int (length c)) c"
| "norm_card (UVFileCard n t h s f c) = UVFileCard n t h s f (if uvFileOmitsContent f then [] else c)"
| "norm_card c = c"

section \<open>Words and payload of a card\<close>

abbreviation len_word :: "bytes \<Rightarrow> bytes" where
  "len_word c \<equiv> show_int (int (length c))"

definition opt_words :: "bytes \<Rightarrow> bytes list" where
  "opt_words s = (if s = [] then [] else [s])"

fun card_words :: "(bytes \<Rightarrow> bytes) \<Rightarrow> Card \<Rightarrow> bytes list" where
  "card_words z (FileCard u d c) = [''file'', u] @ opt_words d @ [len_word c]"
| "card_words z (CFileCard u d us c) = [''cfile'', u] @ opt_words d @ [len_word c, len_word (z c)]"
| "card_words z (IGotCard u p) = [''igot'', u] @ (if p then [''1''] else [])"
| "card_words z (GimmeCard u) = [''gimme'', u]"
| "card_words z (LoginCard u n s) = [''login'', FossilEncode u, n, s]"
| "card_words z (PushCard s p) = [''push'', p] @ opt_words s"
| "card_words z (PullCard s p) = [''pull'', p, s]"
| "card_words z (CookieCard v) = [''cookie'', v]"
| "card_words z (CloneCard v s) =
     [''clone''] @ (if v = 0 \<and> s = 0 then [] else [show_int v, show_int s])"
| "card_words z (CloneSeqNoCard s) = [''clone_seqno'', show_int s]"
| "card_words z (ConfigCard n c) = [''config'', n, len_word c]"
| "card_words z (ReqConfigCard n) = [''reqconfig'', n]"
| "card_words z PrivateCard = [''private'']"
| "card_words z (UVFileCard n t h s f c) = [''uvfile'', n, show_int t, h, show_int s, show_int f]"
| "card_words z (UVGimmeCard n) = [''uvgimme'', n]"
| "card_words z (UVIGotCard n t h s) = [''uvigot'', n, show_int t, h, show_int s]"
| "card_words z (PragmaCard n vs) = [''pragma'', n] @ vs"
| "card_words z (ErrorCard m) = [''error'', FossilEncode m]"
| "card_words z (MessageCard m) = [''message'', FossilEncode m]"
| "card_words z (UnknownCard c a) = c # a"
| "card_words z (SchemaCard tb v h t c) = [''schema'', tb, show_int v, h, show_int t, len_word c]"
| "card_words z (XIGotCard tb k t) = [''xigot'', tb, k, show_int t]"
| "card_words z (XGimmeCard tb k) = [''xgimme'', tb, k]"
| "card_words z (XRowCard tb k t c) = [''xrow'', tb, k, show_int t, len_word c]"
| "card_words z (XDeleteCard tb k t p) = [''xdelete'', tb, k, show_int t, len_word p]"

fun card_payload :: "(bytes \<Rightarrow> bytes) \<Rightarrow> Card \<Rightarrow> bytes" where
  "card_payload z (FileCard u d c) = c"
| "card_payload z (CFileCard u d us c) = z c"
| "card_payload z (ConfigCard n c) = c @ [NL]"
| "card_payload z (UVFileCard n t h s f c) = (if uvFileOmitsContent f then [] else c)"
| "card_payload z (SchemaCard tb v h t c) = c @ [NL]"
| "card_payload z (XRowCard tb k t c) = c @ [NL]"
| "card_payload z (XDeleteCard tb k t p) = p @ [NL]"
| "card_payload z c = []"

lemma is_token_nonempty: "is_token s \<Longrightarrow> s \<noteq> []"
  by (simp add: is_token_def)

lemma Join_Cons: "Join (x # xs) [SPC] = x @ concat (map ((#) SPC) xs)"
  by (induction xs arbitrary: x) auto

lemmas encode_defs =
  encodeIGot_def encodeGimme_def encodePush_def encodePull_def encodeCookie_def encodeReqConfig_def
  encodePrivate_def encodeClone_def encodeCloneSeqNo_def encodeUVGimme_def encodePragma_def
  encodeLogin_def encodeError_def encodeMessage_def encodeUVIGot_def encodeUnknown_def encodeFile_def
  encodeCFile_def encodeConfig_def encodeUVFile_def encodeSchema_def encodeXIGot_def encodeXGimme_def
  encodeXRow_def encodeXDelete_def with_row_key_def sp_int_def opt_words_def

lemma EncodeCard_frame:
  assumes "wf_card z c"
  shows "EncodeCard z c = Ok (Join (card_words z c) [SPC] @ NL # card_payload z c)"
  using assms
  by (cases c) (simp_all add: encode_defs Join_Cons is_token_nonempty Let_def del: Join.simps)

lemma command_token: "c \<in> set commands \<Longrightarrow> is_token c \<and> \<not> HasPrefix c ''#''"
proof -
  have "list_all (\<lambda>c. is_token c \<and> \<not> HasPrefix c ''#'') commands" by code_simp
  then show "c \<in> set commands \<Longrightarrow> is_token c \<and> \<not> HasPrefix c ''#''" by (simp add: list_all_iff)
qed

lemma opt_words_tokens: "opt_token s \<Longrightarrow> list_all is_token (opt_words s)"
  by (auto simp: opt_token_def opt_words_def)

lemma one_token: "is_token ''1''"
  by code_simp

lemma card_words_tokens:
  assumes "wf_card z c"
  shows "list_all is_token (card_words z c) \<and> card_words z c \<noteq> [] \<and>
         \<not> HasPrefix (hd (card_words z c)) ''#''"
  using assms
  by (cases c) (simp_all add: command_token commands_def show_int_token opt_words_tokens one_token)

section \<open>Decoding one card\<close>

lemma Join_last:
  assumes "list_all is_token ws" "ws \<noteq> []"
  shows "Join ws [SPC] \<noteq> [] \<and> last (Join ws [SPC]) \<noteq> NL \<and> last (Join ws [SPC]) \<noteq> CR"
  using assms
proof (induction ws "[SPC]" rule: Join.induct)
  case (2 x)
  then have "last x \<in> set x" "no_space x" by (simp_all add: is_token_def)
  then show ?case using 2 no_space_mem [of x] by (metis Join.simps(2) is_token_def list.pred_inject(2))
qed auto

lemma Join_no_NL: "list_all is_token ws \<Longrightarrow> NL \<notin> set (Join ws [SPC])"
  by (induction ws "[SPC]" rule: Join.induct) (auto simp: is_token_def no_space_mem)

lemma HasPrefix_Join:
  assumes "list_all is_token ws" "ws \<noteq> []"
  shows "HasPrefix (Join ws [SPC]) [c] \<longleftrightarrow> HasPrefix (hd ws) [c]"
  using assms by (cases ws; cases "hd ws") (auto simp: Join_Cons HasPrefix_def is_token_def)

lemma DecodeCard_frame:
  assumes "list_all is_token ws" "ws \<noteq> []" "\<not> HasPrefix (hd ws) ''#''"
  shows "DecodeCard inflate (Join ws [SPC] @ NL # r) = dispatch inflate r (hd ws) (tl ws)"
proof -
  let ?l = "Join ws [SPC]"
  have "ReadString (?l @ NL # r) = (?l @ [NL], False, r)"
    using Join_no_NL [OF assms(1)] by (simp add: ReadString_def cut_append)
  moreover have "trim_eol (?l @ [NL]) = ?l" "?l \<noteq> []"
    using Join_last [OF assms(1,2)] by (simp_all add: trim_eol_NL)
  moreover have "Fields ?l = hd ws # tl ws" using assms by (simp add: Fields_Join)
  ultimately show ?thesis
    using HasPrefix_Join [OF assms(1,2)] assms(3)
    by (subst DecodeCard.simps) (simp add: parseLine_def)
qed

lemma number_show_int: "is_int64 i \<Longrightarrow> number what (show_int i) = Ok i"
  by (simp add: number_def Atoi_show_int)

lemma fits_int64: "fits_mem c \<Longrightarrow> is_int64 (int (length c))"
  by (simp add: fits_mem_def is_int64_def int64_min_def int64_max_def max_alloc_def)

lemma row_int64: "int (length c) \<le> max_row_size \<Longrightarrow> is_int64 (int (length c)) \<and> fits_mem c"
  by (simp add: max_row_size_def fits_mem_def is_int64_def int64_min_def int64_max_def max_alloc_def)

lemma readPayload_append: "fits_mem c \<Longrightarrow> readPayload (c @ r) (int (length c)) = Ok (c, r)"
  by (simp add: readPayload_def fits_mem_def)

lemma readPayloadNL_append:
  "fits_mem c \<Longrightarrow> readPayloadWithTrailingNewline (c @ NL # r) (int (length c)) = Ok (c, r)"
  by (simp add: readPayloadWithTrailingNewline_def readPayload_append)

lemma sized_payload_append:
  "int (length c) \<le> max_row_size \<Longrightarrow> sized_payload what (c @ NL # r) (int (length c)) = Ok (c, r)"
  by (simp add: sized_payload_def readPayloadNL_append row_int64)

lemma dispatch_simps:
  "dispatch i r ''igot'' a = no_payload r (parseIGot a)"
  "dispatch i r ''gimme'' a = no_payload r (parseGimme a)"
  "dispatch i r ''push'' a = no_payload r (parsePush a)"
  "dispatch i r ''pull'' a = no_payload r (parsePull a)"
  "dispatch i r ''cookie'' a = no_payload r (parseCookie a)"
  "dispatch i r ''reqconfig'' a = no_payload r (parseReqConfig a)"
  "dispatch i r ''private'' a = no_payload r (parsePrivate a)"
  "dispatch i r ''clone'' a = no_payload r (parseClone a)"
  "dispatch i r ''clone_seqno'' a = no_payload r (parseCloneSeqNo a)"
  "dispatch i r ''uvgimme'' a = no_payload r (parseUVGimme a)"
  "dispatch i r ''pragma'' a = no_payload r (parsePragma a)"
  "dispatch i r ''login'' a = no_payload r (parseLogin a)"
  "dispatch i r ''error'' a = no_payload r (parseError a)"
  "dispatch i r ''message'' a = no_payload r (parseMessage a)"
  "dispatch i r ''uvigot'' a = no_payload r (parseUVIGot a)"
  "dispatch i r ''file'' a = parseFile r a"
  "dispatch i r ''cfile'' a = parseCFile i r a"
  "dispatch i r ''config'' a = parseConfig r a"
  "dispatch i r ''uvfile'' a = parseUVFile r a"
  "dispatch i r ''schema'' a = parseSchema r a"
  "dispatch i r ''xigot'' a = no_payload r (parseXIGot a)"
  "dispatch i r ''xgimme'' a = no_payload r (parseXGimme a)"
  "dispatch i r ''xrow'' a = parseXRow r a"
  "dispatch i r ''xdelete'' a = parseXDelete r a"
  "c \<notin> set commands \<Longrightarrow> dispatch i r c a = Ok (UnknownCard c a, r)"
  by (simp_all add: dispatch_def commands_def)

lemmas parse_defs =
  parseIGot_def parseGimme_def parsePush_def parsePull_def parseCookie_def parseReqConfig_def
  parsePrivate_def parseClone_def parseCloneSeqNo_def parseUVGimme_def parsePragma_def parseLogin_def
  parseError_def parseMessage_def parseUVIGot_def parseFile_def parseCFile_def parseConfig_def
  parseUVFile_def parseSchema_def parseXIGot_def parseXGimme_def parseXRow_def parseXDelete_def
  no_payload_def

lemma dispatch_words:
  assumes "wf_card z c" "zlib_ok z inflate"
  shows "dispatch inflate (card_payload z c @ r) (hd (card_words z c)) (tl (card_words z c)) =
         Ok (norm_card c, r)"
  using assms
  by (cases c)
    (auto simp: dispatch_simps parse_defs number_show_int opt_words_def opt_token_def fits_int64
      row_int64 readPayload_append readPayloadNL_append sized_payload_append decompressCFile_def
      zlib_ok_def)

lemma DecodeCard_EncodeCard:
  assumes "wf_card z c" "zlib_ok z inflate" "EncodeCard z c = Ok s"
  shows "DecodeCard inflate (s @ r) = Ok (norm_card c, r)"
proof -
  have "s = Join (card_words z c) [SPC] @ NL # card_payload z c"
    using EncodeCard_frame [OF assms(1)] assms(3) by simp
  then have "DecodeCard inflate (s @ r) =
      dispatch inflate (card_payload z c @ r) (hd (card_words z c)) (tl (card_words z c))"
    using card_words_tokens [OF assms(1)] by (simp add: DecodeCard_frame)
  with dispatch_words [OF assms(1,2)] show ?thesis by simp
qed

section \<open>Messages\<close>

lemma DecodeCard_Nil: "DecodeCard inflate [] = Err EOF"
  by (subst DecodeCard.simps) (simp add: ReadString_def trim_eol_def)

lemma decode_loop_Ok:
  "DecodeCard inflate r = Ok (c, r') \<Longrightarrow> decode_loop inflate r cs = decode_loop inflate r' (cs @ [c])"
  by (subst decode_loop.simps) simp

lemma decode_loop_EOF: "DecodeCard inflate r = Err EOF \<Longrightarrow> decode_loop inflate r cs = Ok cs"
  by (subst decode_loop.simps) simp

interpretation xfer: stream_codec "EncodeCard deflate" "DecodeCard inflate"
  "\<lambda>c. zlib_ok deflate inflate \<and> wf_card deflate c" norm_card EOF
  "encode_cards deflate" "decode_loop inflate"
  for deflate inflate
proof unfold_locales
  show "DecodeCard inflate (s @ r) = Ok (norm_card c, r)"
    if "zlib_ok deflate inflate \<and> wf_card deflate c" "EncodeCard deflate c = Ok s" for c s r
    using that by (blast intro: DecodeCard_EncodeCard)
qed (auto simp: EncodeCard_frame DecodeCard_Nil decode_loop_Ok decode_loop_EOF)

text \<open>
  A prefix of well-formed cards is consumed and the loop goes on with what follows.
\<close>

lemma decode_loop_prefix:
  assumes "zlib_ok deflate inflate" "list_all (wf_card deflate) cs"
    and "EncodeUncompressed deflate \<lparr>msg_Cards = cs\<rparr> = Ok pre"
  shows "decode_loop inflate (pre @ r) acc = decode_loop inflate r (acc @ map norm_card cs)"
proof (rule xfer.decs_encs_append)
  show "list_all (\<lambda>c. zlib_ok deflate inflate \<and> wf_card deflate c) cs"
    using assms by (simp add: list_all_iff)
  show "encode_cards deflate cs [] = Ok ([] @ pre)" using assms(3) by (simp add: EncodeUncompressed_def)
qed

lemma message_codec:
  assumes "zlib_ok deflate inflate" "list_all (wf_card deflate) cs"
  obtains s where "EncodeUncompressed deflate \<lparr>msg_Cards = cs\<rparr> = Ok s"
    and "DecodeUncompressed inflate s = Ok \<lparr>msg_Cards = map norm_card cs\<rparr>"
proof -
  have wf: "list_all (\<lambda>c. zlib_ok deflate inflate \<and> wf_card deflate c) cs"
    using assms by (simp add: list_all_iff)
  obtain s where s: "\<And>buf. encode_cards deflate cs buf = Ok (buf @ s)"
    using xfer.encs_total [OF wf] by blast
  have "decode_loop inflate s [] = Ok (map norm_card cs)"
    using xfer.decs_encs [OF wf, of "[]" s "[]"] s [of "[]"] by simp
  with s [of "[]"] that show ?thesis by (simp add: EncodeUncompressed_def DecodeUncompressed_def)
qed

section \<open>Properties\<close>

text \<open>
  A well-formed card of any of the 25 types, once encoded and followed by any
  bytes, is decoded to the same card, and exactly the encoded bytes are consumed.
\<close>

theorem xfer_card_roundtrip:
  assumes "zlib_ok deflate inflate" "wf_card deflate c"
  shows "\<exists>s. EncodeCard deflate c = Ok s \<and> DecodeCard inflate (s @ rest) = Ok (norm_card c, rest)"
  using assms EncodeCard_frame DecodeCard_EncodeCard by blast

definition toy_deflate :: "bytes \<Rightarrow> bytes" where
  "toy_deflate s = CHR ''x'' # s"

fun toy_inflate :: "bytes \<Rightarrow> bytes option" where
  "toy_inflate [] = None"
| "toy_inflate (c # s) = (if c = CHR ''x'' then Some s else None)"

theorem xfer_card_roundtrip_witness:
  "\<exists>s. EncodeCard toy_deflate (CFileCard ''a1b2'' ''c3d4'' 7 [NL, CHR ''#'']) = Ok s \<and>
       DecodeCard toy_inflate (s @ ''igot x'') =
         Ok (CFileCard ''a1b2'' ''c3d4'' 2 [NL, CHR ''#''], ''igot x'')"
proof -
  have "zlib_ok toy_deflate toy_inflate" by (simp add: zlib_ok_def toy_deflate_def)
  moreover have "is_token ''a1b2''" "is_token ''c3d4''" by code_simp+
  then have "wf_card toy_deflate (CFileCard ''a1b2'' ''c3d4'' 7 [NL, CHR ''#''])"
    by (simp add: opt_token_def fits_mem_def max_alloc_def toy_deflate_def)
  ultimately show ?thesis
    using xfer_card_roundtrip [of toy_deflate toy_inflate "CFileCard ''a1b2'' ''c3d4'' 7 [NL, CHR ''#'']"
        "''igot x''"] by simp
qed

text \<open>
  Claim C9.  A message of well-formed cards can be serialised, and \<open>DecodeUncompressed\<close> gives
  its cards back in order; no payload byte can be mistaken for card text.
\<close>

theorem xfer_message_roundtrip:
  assumes "zlib_ok deflate inflate" "list_all (wf_card deflate) (msg_Cards m)"
  shows "\<exists>s. EncodeUncompressed deflate m = Ok s \<and>
             DecodeUncompressed inflate s = Ok (m\<lparr>msg_Cards := map norm_card (msg_Cards m)\<rparr>)"
proof -
  obtain s where "EncodeUncompressed deflate \<lparr>msg_Cards = msg_Cards m\<rparr> = Ok s"
    and "DecodeUncompressed inflate s = Ok \<lparr>msg_Cards = map norm_card (msg_Cards m)\<rparr>"
    using message_codec [OF assms] by blast
  then show ?thesis by (cases m) auto
qed

theorem xfer_message_roundtrip_witness:
  "\<exists>s. EncodeUncompressed toy_deflate \<lparr>msg_Cards = [FileCard ''a1'' [] (''gimme x'' @ [NL]), PrivateCard]\<rparr> = Ok s \<and>
       DecodeUncompressed toy_inflate s =
         Ok \<lparr>msg_Cards = [FileCard ''a1'' [] (''gimme x'' @ [NL]), PrivateCard]\<rparr>"
proof -
  let ?m = "\<lparr>msg_Cards = [FileCard ''a1'' [] (''gimme x'' @ [NL]), PrivateCard]\<rparr>"
  have "zlib_ok toy_deflate toy_inflate" by (simp add: zlib_ok_def toy_deflate_def)
  moreover have "is_token ''a1''" by code_simp
  then have "list_all (wf_card toy_deflate) (msg_Cards ?m)"
    by (simp add: opt_token_def fits_mem_def max_alloc_def)
  ultimately show ?thesis using xfer_message_roundtrip [of toy_deflate toy_inflate ?m] by simp
qed

definition zlib_header :: "(bytes \<Rightarrow> bytes option) \<Rightarrow> bool" where
  "zlib_header inflate \<longleftrightarrow> (\<forall>s t. inflate s = Some t \<longrightarrow> s \<noteq> [] \<and> byte_val (hd s) mod 16 = 8)"

text \<open>
  Claim C14.  Through the wire format of \<open>Encode\<close> (size prefix and zlib stream) a message of at
  most 50 MB comes back from \<open>Decode\<close>.  Besides the zlib round trip this uses that a zlib
  stream starts with a byte whose low four bits are 8 (RFC 1950): the size prefix of such
  a message cannot be taken for one.
\<close>

theorem xfer_wire_roundtrip:
  assumes "zlib_ok deflate inflate" "zlib_header inflate" "list_all (wf_card deflate) (msg_Cards m)"
    and "EncodeUncompressed deflate m = Ok raw" "length raw \<le> maxDecompressedBytes"
  shows "\<exists>data. Encode deflate m = Ok data \<and>
                Decode inflate data = Ok (m\<lparr>msg_Cards := map norm_card (msg_Cards m)\<rparr>)"
proof -
  obtain cs where m: "m = \<lparr>msg_Cards = cs\<rparr>" by (cases m) auto
  let ?data = "PutUint32 (length raw) @ deflate raw"
  have "length raw div 16777216 mod 256 < 4"
    using assms(5) by (simp add: maxDecompressedBytes_def)
  then have hd: "byte_val (hd ?data) < 4"
    using assms(5) by (simp add: PutUint32_def Let_def maxDecompressedBytes_def)
  have "inflate ?data = None"
  proof (rule ccontr)
    assume "inflate ?data \<noteq> None"
    then have "byte_val (hd ?data) mod 16 = 8" using assms(2) unfolding zlib_header_def by blast
    with hd show False by simp
  qed
  moreover have "decompressBounded inflate (deflate raw) = Some raw"
    using assms(1,5) by (simp add: decompressBounded_def zlib_ok_def)
  moreover have "length (PutUint32 (length raw)) = 4" by (simp add: PutUint32_def Let_def)
  ultimately have "Decode inflate ?data = DecodeUncompressed inflate raw"
    by (simp add: Decode_def decompressBounded_def)
  moreover obtain s where "EncodeUncompressed deflate m = Ok s"
      "DecodeUncompressed inflate s = Ok \<lparr>msg_Cards = map norm_card cs\<rparr>"
    using message_codec [of deflate inflate cs] assms(1,3) m by (metis Message.select_convs(1))
  ultimately show ?thesis using assms(4) m by (simp add: Encode_def)
qed

theorem xfer_wire_roundtrip_witness:
  "\<exists>data. Encode toy_deflate \<lparr>msg_Cards = [CloneCard 3 (- 1)]\<rparr> = Ok data \<and>
          Decode toy_inflate data = Ok \<lparr>msg_Cards = [CloneCard 3 (- 1)]\<rparr>"
proof -
  let ?m = "\<lparr>msg_Cards = [CloneCard 3 (- 1)]\<rparr>"
  have "zlib_ok toy_deflate toy_inflate" by (simp add: zlib_ok_def toy_deflate_def)
  moreover have "zlib_header toy_inflate"
    unfolding zlib_header_def
  proof (intro allI impI)
    fix s t assume "toy_inflate s = Some t"
    then show "s \<noteq> [] \<and> byte_val (hd s) mod 16 = 8"
      by (cases s) (auto simp: byte_val_def split: if_splits)
  qed
  moreover have "list_all (wf_card toy_deflate) (msg_Cards ?m)"
    by (simp add: is_int64_def int64_min_def int64_max_def)
  moreover have "EncodeUncompressed toy_deflate ?m = Ok (''clone 3 -1'' @ [NL])" by code_simp
  ultimately show ?thesis
    using xfer_wire_roundtrip [of toy_deflate toy_inflate ?m "''clone 3 -1'' @ [NL]"]
    by (simp add: maxDecompressedBytes_def)
qed

text \<open>
  A \<open>file\<close> card with a negative size makes the decoder panic, wherever it stands in
  the message and whatever follows it: \<open>parseFile\<close> passes the size on unchecked, where the
  table sync cards check it.
\<close>

theorem negative_file_size_panics:
  assumes "zlib_ok deflate inflate" "list_all (wf_card deflate) cs"
    and "EncodeUncompressed deflate \<lparr>msg_Cards = cs\<rparr> = Ok pre"
    and "is_token uuid" "is_int64 n" "n < 0"
  shows "is_panic (DecodeUncompressed inflate (pre @ ''file '' @ uuid @ [SPC] @ show_int n @ [NL] @ rest))"
proof -
  let ?ws = "[''file'', uuid, show_int n]"
  have line: "''file '' @ uuid @ [SPC] @ show_int n @ [NL] @ rest = Join ?ws [SPC] @ NL # rest"
    by simp
  have "is_token ''file''" "\<not> HasPrefix ''file'' ''#''" by code_simp+
  then have "DecodeCard inflate (Join ?ws [SPC] @ NL # rest) = dispatch inflate rest ''file'' [uuid, show_int n]"
    using assms(4) by (subst DecodeCard_frame) (simp_all add: show_int_token)
  also have "\<dots> = Panic ''xfer.readPayload: size must not be negative''"
    using assms(5,6) by (simp add: dispatch_simps parseFile_def number_show_int readPayload_def)
  finally show ?thesis
    unfolding DecodeUncompressed_def line decode_loop_prefix [OF assms(1-3)]
    by (subst decode_loop.simps) simp
qed

theorem negative_file_size_panics_witness:
  "is_panic (DecodeUncompressed toy_inflate ((''private'' @ [NL]) @ ''file '' @ ''a1'' @ [SPC] @ show_int (- 1) @ [NL] @ []))"
proof (rule negative_file_size_panics)
  show "zlib_ok toy_deflate toy_inflate" by (simp add: zlib_ok_def toy_deflate_def)
  show "EncodeUncompressed toy_deflate \<lparr>msg_Cards = [PrivateCard]\<rparr> = Ok (''private'' @ [NL])" by code_simp
  show "is_token ''a1''" by code_simp
qed (simp_all add: is_int64_def int64_min_def int64_max_def)

text \<open>
  An \<open>error\<close> or \<open>message\<close> card with empty text is encoded without its argument, and
  the decoder rejects the line, so the whole message containing it fails to decode.
\<close>

theorem empty_error_card_not_decodable:
  assumes "c = ErrorCard [] \<or> c = MessageCard []"
  shows "\<exists>s cmd. EncodeCard deflate c = Ok s \<and> DecodeCard inflate (s @ rest) = Err (ArgCount cmd 0)"
proof -
  have line: "DecodeCard inflate (cmd @ SPC # NL # rest) = dispatch inflate rest cmd []"
    if "is_token cmd" "\<not> HasPrefix cmd ''#''" for cmd
  proof -
    have "NL \<notin> set (cmd @ [SPC])" using that by (simp add: is_token_def no_space_mem)
    from cut_append [OF this, of rest] have "ReadString (cmd @ SPC # NL # rest) = (cmd @ [SPC, NL], False, rest)"
      by (simp add: ReadString_def)
    moreover have "trim_eol ((cmd @ [SPC]) @ [NL]) = cmd @ [SPC]" by (rule trim_eol_NL) simp
    moreover have "Fields (cmd @ [SPC]) = [cmd]"
      using Fields_token_space [OF that(1), of "[]"] by simp
    moreover have "\<not> HasPrefix (cmd @ [SPC]) ''#''"
      using that by (cases cmd) (simp_all add: HasPrefix_def)
    ultimately show ?thesis by (subst DecodeCard.simps) (simp add: parseLine_def)
  qed
  have "is_token ''error''" "is_token ''message''" "\<not> HasPrefix ''error'' ''#''"
    "\<not> HasPrefix ''message'' ''#''" by code_simp+
  with line [of "''error''"] line [of "''message''"] assms show ?thesis
    by (auto simp: encodeError_def encodeMessage_def FossilEncode_def dispatch_simps
        parseError_def parseMessage_def no_payload_def)
qed

theorem empty_error_card_not_decodable_witness:
  "\<exists>s cmd. EncodeCard toy_deflate (ErrorCard []) = Ok s \<and> DecodeCard toy_inflate (s @ []) = Err (ArgCount cmd 0)"
  by (rule empty_error_card_not_decodable) simp

end
