(* ===== verification/Hash.thy ===== *)
theory Hash
  imports Prelude
begin

text \<open>
  Artifact names (\<open>internal/hash/hash.go\<close>).  The digest functions themselves
  (\<open>crypto/sha1\<close>, \<open>golang.org/x/crypto/sha3\<close>) are arguments: \<open>sha1\<close> and \<open>sha3\<close> map content to
  the lower-case hexadecimal form that \<open>SHA1\<close> and \<open>SHA3\<close> return.
\<close>

definition HashSize :: "bytes \<Rightarrow> (unit, nat) outcome" where
  "HashSize hashType =
     (if hashType = [] then Panic ''hash.HashSize: hashType must not be empty''
      else if hashType = ''sha1'' then Ok (20 * 2)
      else if hashType = ''sha3'' then Ok 64
      else Ok 0)"

definition ContentHash :: "(bytes \<Rightarrow> bytes) \<Rightarrow> (bytes \<Rightarrow> bytes) \<Rightarrow> bytes \<Rightarrow> bytes \<Rightarrow> (unit, bytes) outcome" where
  "ContentHash sha1 sha3 content referenceHash =
     (if referenceHash = [] then Panic ''hash.ContentHash: referenceHash must not be empty''
      else if length referenceHash > 40 then Ok (sha3 content)
      else Ok (sha1 content))"

definition is_hex :: "byte \<Rightarrow> bool" where
  "is_hex c \<longleftrightarrow> (48 \<le> byte_val c \<and> byte_val c \<le> 57) \<or> (97 \<le> byte_val c \<and> byte_val c \<le> 102)"

definition IsValidHash :: "bytes \<Rightarrow> (unit, bool) outcome" where
  "IsValidHash h =
     (if h = [] then Panic ''hash.IsValidHash: h must not be empty''
      else if length h \<noteq> 40 \<and> length h \<noteq> 64 then Ok False
      else Ok (list_all is_hex h))"

text \<open>The output format of \<open>SHA1\<close> and \<open>SHA3\<close>: 40 and 64 hexadecimal digits.\<close>

definition hex_digests :: "(bytes \<Rightarrow> bytes) \<Rightarrow> (bytes \<Rightarrow> bytes) \<Rightarrow> bool" where
  "hex_digests sha1 sha3 \<longleftrightarrow>
     (\<forall>s. length (sha1 s) = 40 \<and> list_all is_hex (sha1 s)) \<and>
     (\<forall>s. length (sha3 s) = 64 \<and> list_all is_hex (sha3 s))"

text \<open>
  For a valid reference hash, \<open>ContentHash\<close> returns a valid hash of the same
  length, that is, of the same algorithm: content can be compared with its declared name.
\<close>

theorem ContentHash_matches_reference:
  assumes "hex_digests sha1 sha3" "IsValidHash ref = Ok True"
  shows "\<exists>h. ContentHash sha1 sha3 content ref = Ok h \<and> length h = length ref \<and> IsValidHash h = Ok True"
proof -
  have ref: "length ref = 40 \<or> length ref = 64" "ref \<noteq> []"
    using assms(2) by (auto simp: IsValidHash_def split: if_splits)
  have len: "length (sha1 s) = 40" "length (sha3 s) = 64" for s
    using assms(1) by (simp_all add: hex_digests_def)
  then have "sha1 content \<noteq> []" "sha3 content \<noteq> []" by (metis list.size(3) zero_neq_numeral)+
  with assms(1) ref len show ?thesis
    by (auto simp: ContentHash_def IsValidHash_def hex_digests_def)
qed

theorem ContentHash_matches_reference_witness:
  "\<exists>h. ContentHash (\<lambda>_. replicate 40 CHR ''0'') (\<lambda>_. replicate 64 CHR ''f'') ''data'' (replicate 64 CHR ''a'') = Ok h \<and>
       length h = length (replicate 64 CHR ''a'') \<and> IsValidHash h = Ok True"
proof (rule ContentHash_matches_reference)
  show "hex_digests (\<lambda>_. replicate 40 CHR ''0'') (\<lambda>_. replicate 64 CHR ''f'')"
    by (simp add: hex_digests_def list_all_iff is_hex_def byte_val_def)
  show "IsValidHash (replicate 64 CHR ''a'') = Ok True"
    by (simp add: IsValidHash_def list_all_iff is_hex_def byte_val_def)
qed

end
