(* ===== verification/Repo_Tables.thy ===== *)
theory Repo_Tables
  imports Prelude
begin

text \<open>
  The tables of a repository database that the modelled operations read and write
  (\<open>db/schema.go\<close>), as lists of rows, with the SQL statements the code issues as functions.
  A table with an \<open>INTEGER PRIMARY KEY\<close> has at most one row per key; SQLite gives a new row
  the largest key plus one.  Constraint violations are errors; failures of the database
  engine itself (I/O, locking) are not modelled.  Times in tables are Julian day numbers that
  the modelled code only stores, compares and copies; they are integers here.
\<close>

section \<open>Rows and tables\<close>

record blob_row =
  bl_rid :: rid
  bl_rcvid :: int
  bl_size :: int
  bl_uuid :: bytes
  bl_content :: "bytes option"

record tagxref_row =
  tx_tagid :: int
  tx_tagtype :: int
  tx_srcid :: rid
  tx_origid :: rid
  tx_value :: "bytes option"
  tx_mtime :: int
  tx_rid :: rid

record plink_row =
  pl_pid :: rid
  pl_cid :: rid
  pl_isprim :: bool
  pl_mtime :: int
  pl_baseid :: "rid option"

record event_row =
  ev_type :: bytes
  ev_mtime :: int
  ev_objid :: rid
  ev_tagid :: "int option"
  ev_bgcolor :: "bytes option"
  ev_euser :: "bytes option"
  ev_user :: "bytes option"
  ev_ecomment :: "bytes option"
  ev_comment :: "bytes option"

record mlink_row =
  ml_mid :: rid
  ml_fid :: rid
  ml_pmid :: "rid option"
  ml_pid :: "rid option"
  ml_fnid :: int

record cherrypick_row =
  cp_parentid :: rid
  cp_childid :: rid
  cp_isExclude :: bool

record attachment_row =
  at_attachid :: rid
  at_isLatest :: bool
  at_mtime :: int
  at_src :: bytes
  at_target :: bytes
  at_filename :: bytes
  at_comment :: bytes
  at_user :: bytes

record forumpost_row =
  fp_fpid :: rid
  fp_froot :: rid
  fp_fprev :: "rid option"
  fp_firt :: "rid option"
  fp_fmtime :: int

record config_row =
  cg_name :: bytes
  cg_value :: bytes
  cg_mtime :: "int option"

record user_row =
  us_uid :: int
  us_login :: bytes
  us_pw :: "bytes option"
  us_cap :: bytes
  us_cexpire :: "bytes option"
  us_info :: "bytes option"

record unversioned_row =
  uv_name :: bytes
  uv_mtime :: int
  uv_hash :: "bytes option"
  uv_sz :: int
  uv_encoding :: int
  uv_content :: "bytes option"

record shun_row =
  sh_uuid :: bytes
  sh_mtime :: int
  sh_scom :: bytes

text \<open>
  Extension tables (\<open>internal/repo/tablesync.go\<close>).  A cell holds a value of one of SQLite's
  storage classes; the constructors after \<open>XBlob\<close> are the other values that JSON decoding gives a
  Go \<open>any\<close> (a number not yet converted keeps its text).  A 64-bit float is its bit pattern.
\<close>

datatype xval =
    XNull | XInt int | XReal "64 word" | XText bytes | XBlob bytes
  | XBool bool | XNumber bytes | XNested

record ColumnDef =
  cd_Name :: bytes
  cd_Type :: bytes
  cd_PK :: bool

record TableDef =
  td_Columns :: "ColumnDef list"
  td_Conflict :: bytes

record sync_row =
  sy_name :: bytes
  sy_def :: TableDef
  sy_mtime :: int

record xrow =
  xr_vals :: "(bytes \<times> xval) list"
  xr_mtime :: xval
  xr_owner :: xval

record xtable =
  xt_name :: bytes
  xt_cols :: "ColumnDef list"
  xt_owned :: bool
  xt_rows :: "xrow list"

text \<open>
  The tables \<open>unversioned\<close> and \<open>_sync_schema\<close> are created on demand: \<open>None\<close> while they do not
  exist.
\<close>

record repo =
  t_blob :: "blob_row list"
  t_delta :: "(rid \<times> rid) list"
  t_phantom :: "rid list"
  t_unclustered :: "rid list"
  t_private :: "rid list"
  t_shun :: "shun_row list"
  t_tag :: "(int \<times> bytes) list"
  t_tagxref :: "tagxref_row list"
  t_plink :: "plink_row list"
  t_event :: "event_row list"
  t_leaf :: "rid list"
  t_unsent :: "rid list"
  t_config :: "config_row list"
  t_user :: "user_row list"
  t_unversioned :: "unversioned_row list option"
  t_filename :: "(int \<times> bytes) list"
  t_mlink :: "mlink_row list"
  t_cherrypick :: "cherrypick_row list"
  t_attachment :: "attachment_row list"
  t_forumpost :: "forumpost_row list"
  t_orphan :: "(rid \<times> rid) list"
  t_sync_schema :: "sync_row list option"
  t_xtable :: "xtable list"

definition empty_repo :: repo where
  "empty_repo = \<lparr>t_blob = [], t_delta = [], t_phantom = [], t_unclustered = [], t_private = [],
     t_shun = [], t_tag = [], t_tagxref = [], t_plink = [], t_event = [], t_leaf = [],
     t_unsent = [], t_config = [], t_user = [], t_unversioned = None, t_filename = [], t_mlink = [],
     t_cherrypick = [], t_attachment = [], t_forumpost = [], t_orphan = [],
     t_sync_schema = None, t_xtable = []\<rparr>"

datatype sql_error = NoRows | UniqueFailed | CheckFailed | NoTable | NoColumn | NotNullFailed | BadStatement | BadValue

section \<open>Statements\<close>

text \<open>\<open>SELECT ... FROM blob WHERE rid=?\<close> and \<open>WHERE uuid=?\<close>\<close>

definition blob_by_rid :: "repo \<Rightarrow> rid \<Rightarrow> blob_row option" where
  "blob_by_rid q r = find (\<lambda>b. bl_rid b = r) (t_blob q)"

definition blob_by_uuid :: "repo \<Rightarrow> bytes \<Rightarrow> blob_row option" where
  "blob_by_uuid q u = find (\<lambda>b. bl_uuid b = u) (t_blob q)"

definition next_rid :: "repo \<Rightarrow> rid" where
  "next_rid q = foldr max (map bl_rid (t_blob q)) 0 + 1"

text \<open>\<open>INSERT INTO blob(uuid, size, content, rcvid) VALUES(...)\<close> and \<open>LastInsertId\<close>\<close>

definition insert_blob ::
  "repo \<Rightarrow> bytes \<Rightarrow> int \<Rightarrow> bytes option \<Rightarrow> int \<Rightarrow> (sql_error, repo \<times> rid) outcome" where
  "insert_blob q uuid sz content rcvid =
     (if length uuid < 40 then Err CheckFailed
      else if blob_by_uuid q uuid \<noteq> None then Err UniqueFailed
      else let r = next_rid q in
        Ok (q\<lparr>t_blob := t_blob q @ [\<lparr>bl_rid = r, bl_rcvid = rcvid, bl_size = sz, bl_uuid = uuid,
                                     bl_content = content\<rparr>]\<rparr>, r))"

text \<open>\<open>SELECT srcid FROM delta WHERE rid=?\<close> and \<open>INSERT INTO delta\<close>\<close>

definition delta_src :: "repo \<Rightarrow> rid \<Rightarrow> rid option" where
  "delta_src q r = map_of (t_delta q) r"

definition insert_delta :: "repo \<Rightarrow> rid \<Rightarrow> rid \<Rightarrow> (sql_error, repo) outcome" where
  "insert_delta q r src =
     (if delta_src q r \<noteq> None then Err UniqueFailed
      else Ok (q\<lparr>t_delta := t_delta q @ [(r, src)]\<rparr>))"

text \<open>\<open>INSERT OR IGNORE\<close> of a key.\<close>

definition insert_key :: "rid \<Rightarrow> rid list \<Rightarrow> rid list" where
  "insert_key r t = (if r \<in> set t then t else t @ [r])"

text \<open>\<open>INSERT OR REPLACE INTO tagxref\<close>: at most one row per tag and artifact.\<close>

definition replace_tagxref :: "tagxref_row \<Rightarrow> tagxref_row list \<Rightarrow> tagxref_row list" where
  "replace_tagxref x t = filter (\<lambda>y. \<not> (tx_rid y = tx_rid x \<and> tx_tagid y = tx_tagid x)) t @ [x]"

text \<open>The row of a tag on an artifact; \<open>(rid, tagid)\<close> is unique.\<close>

definition tagxref_of :: "repo \<Rightarrow> int \<Rightarrow> rid \<Rightarrow> tagxref_row option" where
  "tagxref_of q tagid r = find (\<lambda>x. tx_rid x = r \<and> tx_tagid x = tagid) (t_tagxref q)"

text \<open>A transaction is rolled back when its function returns an error or panics.\<close>

definition with_tx :: "repo \<Rightarrow> repo \<times> ('e, 'a) outcome \<Rightarrow> repo \<times> ('e, 'a) outcome" where
  "with_tx q res = (case res of (q', Ok x) \<Rightarrow> (q', Ok x) | (_, Err e) \<Rightarrow> (q, Err e) | (_, Panic s) \<Rightarrow> (q, Panic s))"

section \<open>Well-formed repositories\<close>

text \<open>The constraints of the schema that the database engine maintains.\<close>

definition wf_repo :: "repo \<Rightarrow> bool" where
  "wf_repo q \<longleftrightarrow>
     distinct (map bl_rid (t_blob q)) \<and> distinct (map bl_uuid (t_blob q)) \<and>
     list_all (\<lambda>b. bl_rid b > 0 \<and> length (bl_uuid b) \<ge> 40) (t_blob q) \<and>
     distinct (map fst (t_delta q)) \<and> list_all (\<lambda>(r, s). r \<in> bl_rid ` set (t_blob q)) (t_delta q)"

lemma set_insert_key [simp]: "set (insert_key r t) = insert r (set t)"
  by (auto simp: insert_key_def)

lemma distinct_insert_key [simp]: "distinct (insert_key r t) \<longleftrightarrow> distinct t"
  by (simp add: insert_key_def)

lemma foldr_max_ge: "x \<in> set xs \<Longrightarrow> x \<le> foldr max xs (a :: int)"
  by (induction xs) (auto simp: le_max_iff_disj)

lemma foldr_max_ge0: "(a :: int) \<le> foldr max xs a"
  by (induction xs) (auto simp: le_max_iff_disj)

lemma next_rid_fresh: "b \<in> set (t_blob q) \<Longrightarrow> bl_rid b < next_rid q"
  using foldr_max_ge [of "bl_rid b" "map bl_rid (t_blob q)" 0] by (simp add: next_rid_def)

lemma next_rid_pos: "next_rid q > 0"
  using foldr_max_ge0 [of 0 "map bl_rid (t_blob q)"] by (simp add: next_rid_def)

lemma blob_by_rid_Some: "blob_by_rid q r = Some b \<Longrightarrow> b \<in> set (t_blob q) \<and> bl_rid b = r"
  by (auto simp: blob_by_rid_def find_Some_iff)

lemma blob_by_uuid_Some: "blob_by_uuid q u = Some b \<Longrightarrow> b \<in> set (t_blob q) \<and> bl_uuid b = u"
  by (auto simp: blob_by_uuid_def find_Some_iff)

lemma blob_by_uuid_None: "blob_by_uuid q u = None \<longleftrightarrow> u \<notin> bl_uuid ` set (t_blob q)"
  by (auto simp: blob_by_uuid_def find_None_iff)

lemma find_append: "find P (xs @ ys) = (case find P xs of None \<Rightarrow> find P ys | Some x \<Rightarrow> Some x)"
  by (induction xs) auto

lemma find_filter_other: "(\<And>x. P x \<Longrightarrow> Q x) \<Longrightarrow> find P (filter Q xs) = find P xs"
  by (induction xs) auto

lemma find_key_filter: "find (\<lambda>x. k x = n) (filter (\<lambda>x. k x \<noteq> m) xs) = (if n = m then None else find (\<lambda>x. k x = n) xs)"
  by (induction xs) auto

lemma find_key_replace:
  "find (\<lambda>x. k x = n) (filter (\<lambda>x. k x \<noteq> k r) xs @ [r]) = (if n = k r then Some r else find (\<lambda>x. k x = n) xs)"
  by (simp add: find_append find_key_filter split: option.split)

lemma set_replace_tagxref: "x \<in> set (replace_tagxref x t)"
  by (simp add: replace_tagxref_def)

lemma find_pair_filter:
  "find (\<lambda>x. f x = a \<and> g x = b) (filter (\<lambda>x. f x = a' \<longrightarrow> g x \<noteq> b') xs) =
     (if a = a' \<and> b = b' then None else find (\<lambda>x. f x = a \<and> g x = b) xs)"
  by (induction xs) auto

lemma find_replace_tagxref:
  "find (\<lambda>y. tx_rid y = r \<and> tx_tagid y = i) (replace_tagxref x t) =
     (if tx_rid x = r \<and> tx_tagid x = i then Some x else find (\<lambda>y. tx_rid y = r \<and> tx_tagid y = i) t)"
  by (simp add: replace_tagxref_def find_append find_pair_filter split: option.split)

lemma find_map_update: "(\<And>x. x \<in> set xs \<Longrightarrow> P (f x) = P x) \<Longrightarrow> find P (map f xs) = map_option f (find P xs)"
  by (induction xs) auto

lemma blob_by_rid_next: "blob_by_rid q (next_rid q) = None"
  by (auto simp: blob_by_rid_def find_None_iff dest: next_rid_fresh)

text \<open>What an insertion into \<open>blob\<close> changes.\<close>

lemma insert_blob_Ok:
  assumes "insert_blob q uuid sz content rcvid = Ok (q', r)"
  shows "r = next_rid q" "blob_by_rid q' r = Some \<lparr>bl_rid = r, bl_rcvid = rcvid, bl_size = sz,
           bl_uuid = uuid, bl_content = content\<rparr>"
    and "blob_by_uuid q' uuid = blob_by_rid q' r"
    and "s \<noteq> r \<Longrightarrow> blob_by_rid q' s = blob_by_rid q s"
    and "blob_by_uuid q uuid = None" "length uuid \<ge> 40"
    and "q' = q\<lparr>t_blob := t_blob q'\<rparr>"
    and "u \<noteq> uuid \<Longrightarrow> blob_by_uuid q' u = blob_by_uuid q u"
proof -
  from assms have q': "q' = q\<lparr>t_blob := t_blob q @ [\<lparr>bl_rid = r, bl_rcvid = rcvid, bl_size = sz,
      bl_uuid = uuid, bl_content = content\<rparr>]\<rparr>" and r: "r = next_rid q"
    and fresh: "blob_by_uuid q uuid = None" and len: "length uuid \<ge> 40"
    by (auto simp: insert_blob_def Let_def split: if_splits)
  have none: "find (\<lambda>b. bl_rid b = next_rid q) (t_blob q) = None"
    using blob_by_rid_next [of q] by (simp add: blob_by_rid_def)
  have none': "find (\<lambda>b. bl_uuid b = uuid) (t_blob q) = None"
    using fresh by (simp add: blob_by_uuid_def)
  show "r = next_rid q" "blob_by_uuid q uuid = None" "length uuid \<ge> 40" by fact+
  show "blob_by_rid q' r = Some \<lparr>bl_rid = r, bl_rcvid = rcvid, bl_size = sz, bl_uuid = uuid, bl_content = content\<rparr>"
    using none by (simp add: q' r blob_by_rid_def find_append)
  then show "blob_by_uuid q' uuid = blob_by_rid q' r"
    using none' by (simp add: q' blob_by_uuid_def find_append)
  show "s \<noteq> r \<Longrightarrow> blob_by_rid q' s = blob_by_rid q s"
    by (simp add: q' blob_by_rid_def find_append split: option.split)
  show "q' = q\<lparr>t_blob := t_blob q'\<rparr>" by (simp add: q')
  show "u \<noteq> uuid \<Longrightarrow> blob_by_uuid q' u = blob_by_uuid q u"
    by (simp add: q' blob_by_uuid_def find_append split: option.split)
qed

lemma insert_blob_wf:
  assumes "wf_repo q" "insert_blob q uuid sz content rcvid = Ok (q', r)"
  shows "wf_repo q'" "r > 0"
proof -
  from assms(2) have q': "q' = q\<lparr>t_blob := t_blob q @ [\<lparr>bl_rid = r, bl_rcvid = rcvid, bl_size = sz,
      bl_uuid = uuid, bl_content = content\<rparr>]\<rparr>" and r: "r = next_rid q"
    and "blob_by_uuid q uuid = None" and "length uuid \<ge> 40"
    by (auto simp: insert_blob_def Let_def split: if_splits)
  moreover have "next_rid q \<notin> bl_rid ` set (t_blob q)" using next_rid_fresh by fastforce
  ultimately show "wf_repo q'"
    using assms(1) next_rid_pos [of q] by (auto simp: wf_repo_def blob_by_uuid_None list_all_iff)
  show "r > 0" using r next_rid_pos by simp
qed

end
