(* ===== verification/Blob.thy ===== *)
theory Blob
  imports Repo_Tables Hash Delta_Roundtrip
begin

text \<open>
  Blob storage (\<open>internal/blob\<close>): compression (\<open>compress.go\<close>), storing full content, deltas
  and phantoms, loading and looking up blobs (\<open>blob.go\<close>).  The zlib writer and reader and
  SHA-1 are arguments.  The fault injection of \<open>Decompress\<close> (\<open>simio.Buggify\<close>) is a boolean
  argument, \<open>True\<close> when it fires.  An operation that changes the repository returns the new
  state beside its outcome, since rows written before an error are not rolled back here.
\<close>

section \<open>Compression (compress.go)\<close>

datatype blob_error =
    TooShort nat | ZlibError
  | SqlError sql_error
  | PhantomBlob rid | EmptyContent rid
  | HashMismatch bytes bytes
  | DeltaError delta_error

definition Compress :: "(bytes \<Rightarrow> bytes) \<Rightarrow> bytes \<Rightarrow> bytes" where
  "Compress deflate data = PutUint32 (length data) @ deflate data"

definition Decompress :: "(bytes \<Rightarrow> bytes option) \<Rightarrow> bool \<Rightarrow> bytes \<Rightarrow> (blob_error, bytes) outcome" where
  "Decompress inflate buggify data =
     (if length data < 5 then Err (TooShort (length data))
      else case inflate (drop 4 data) of
             None \<Rightarrow> Err ZlibError
           | Some out \<Rightarrow> Ok (if buggify \<and> length out > 1 then take (length out div 2) out else out))"

section \<open>Loading (blob.go)\<close>

definition Load :: "(bytes \<Rightarrow> bytes option) \<Rightarrow> bool \<Rightarrow> repo \<Rightarrow> rid \<Rightarrow> (blob_error, bytes) outcome" where
  "Load inflate buggify q r =
     (if r \<le> 0 then Panic ''blob.Load: rid must be > 0''
      else case blob_by_rid q r of
             None \<Rightarrow> Err (SqlError NoRows)
           | Some b \<Rightarrow>
               if bl_size b = - 1 then Err (PhantomBlob r)
               else case bl_content b of
                      None \<Rightarrow> Err (EmptyContent r)
                    | Some content \<Rightarrow>
                        if length content = 0 then Err (EmptyContent r)
                        else if length content \<ge> 6 \<and> int (Uint32 content) = bl_size b \<and>
                                byte_val (content ! 4) = 0x78
                        then Decompress inflate buggify content
                        else if int (length content) = bl_size b then Ok content
                        else Decompress inflate buggify content)"

definition Exists :: "repo \<Rightarrow> bytes \<Rightarrow> (blob_error, rid option) outcome" where
  "Exists q uuid =
     (if uuid = [] then Panic ''blob.Exists: uuid must not be empty''
      else Ok (map_option bl_rid (blob_by_uuid q uuid)))"

section \<open>Storing (blob.go)\<close>

text \<open>A row identifier returned without error must be positive (the deferred checks).\<close>

definition check_rid :: "string \<Rightarrow> rid \<Rightarrow> (blob_error, 'a) outcome \<Rightarrow> (blob_error, 'a) outcome" where
  "check_rid fn r m = (if r \<le> 0 \<and> is_ok m then Panic (fn @ '': postcondition violated: rid <= 0 with no error'') else m)"

definition mark_unclustered :: "repo \<Rightarrow> rid \<Rightarrow> repo" where
  "mark_unclustered q r = q\<lparr>t_unclustered := insert_key r (t_unclustered q)\<rparr>"

definition Store ::
  "(bytes \<Rightarrow> bytes) \<Rightarrow> (bytes \<Rightarrow> bytes) \<Rightarrow> (bytes \<Rightarrow> bytes option) \<Rightarrow> bool \<Rightarrow> repo \<Rightarrow> bytes
     \<Rightarrow> repo \<times> (blob_error, rid \<times> bytes) outcome" where
  "Store sha1 deflate inflate buggify q content =
     (if length content = 0 then (q, Panic ''blob.Store: content length must be > 0'')
      else let uuid = sha1 content in
        case Exists q uuid of
          Panic s \<Rightarrow> (q, Panic s)
        | Err e \<Rightarrow> (q, Err e)
        | Ok (Some r) \<Rightarrow> (q, check_rid ''blob.Store'' r (Ok (r, uuid)))
        | Ok None \<Rightarrow>
            (case insert_blob q uuid (int (length content)) (Some (Compress deflate content)) 1 of
               Panic s \<Rightarrow> (q, Panic s)
             | Err e \<Rightarrow> (q, Err (SqlError e))
             | Ok (q1, r) \<Rightarrow>
                 (case Load inflate buggify q1 r of
                    Panic s \<Rightarrow> (q1, Panic s)
                  | Err e \<Rightarrow> (q1, Err e)
                  | Ok readBack \<Rightarrow>
                      if sha1 readBack \<noteq> uuid then (q1, Err (HashMismatch uuid (sha1 readBack)))
                      else (mark_unclustered q1 r, check_rid ''blob.Store'' r (Ok (r, uuid))))))"

text \<open>
  Storing content as a delta: the delta is made against what \<open>Load\<close> returns for the source
  row.  \<open>Create\<close> has no result only where its hash chains would not end, which never happens
  (\<open>Create_total\<close>).
\<close>

definition StoreDelta ::
  "(bytes \<Rightarrow> bytes) \<Rightarrow> (bytes \<Rightarrow> bytes) \<Rightarrow> (bytes \<Rightarrow> bytes option) \<Rightarrow> bool \<Rightarrow> bool \<Rightarrow> repo \<Rightarrow> bytes \<Rightarrow> rid
     \<Rightarrow> (repo \<times> (blob_error, rid \<times> bytes) outcome) option" where
  "StoreDelta sha1 deflate inflate buggify1 buggify2 q content srcRid =
     (if length content = 0 then Some (q, Panic ''blob.StoreDelta: content length must be > 0'')
      else if srcRid \<le> 0 then Some (q, Panic ''blob.StoreDelta: srcRid must be > 0'')
      else let uuid = sha1 content in
        case Exists q uuid of
          Panic s \<Rightarrow> Some (q, Panic s)
        | Err e \<Rightarrow> Some (q, Err e)
        | Ok (Some r) \<Rightarrow> Some (q, check_rid ''blob.StoreDelta'' r (Ok (r, uuid)))
        | Ok None \<Rightarrow>
            (case Load inflate buggify1 q srcRid of
               Panic s \<Rightarrow> Some (q, Panic s)
             | Err e \<Rightarrow> Some (q, Err e)
             | Ok srcContent \<Rightarrow>
                 (case Create srcContent content of
                    None \<Rightarrow> None
                  | Some deltaBytes \<Rightarrow> Some (
                      case insert_blob q uuid (int (length content)) (Some (Compress deflate deltaBytes)) 1 of
                        Panic s \<Rightarrow> (q, Panic s)
                      | Err e \<Rightarrow> (q, Err (SqlError e))
                      | Ok (q1, r) \<Rightarrow>
                          (case insert_delta q1 r srcRid of
                             Panic s \<Rightarrow> (q1, Panic s)
                           | Err e \<Rightarrow> (q1, Err (SqlError e))
                           | Ok q2 \<Rightarrow>
                               (case Load inflate buggify2 q2 r of
                                  Panic s \<Rightarrow> (q2, Panic s)
                                | Err e \<Rightarrow> (q2, Err e)
                                | Ok storedDelta \<Rightarrow>
                                    (case Apply srcContent storedDelta of
                                       Panic s \<Rightarrow> (q2, Panic s)
                                     | Err e \<Rightarrow> (q2, Err (DeltaError e))
                                     | Ok rebuilt \<Rightarrow>
                                         if sha1 rebuilt \<noteq> uuid
                                         then (q2, Err (HashMismatch uuid (sha1 rebuilt)))
                                         else (mark_unclustered q2 r,
                                               check_rid ''blob.StoreDelta'' r (Ok (r, uuid))))))))))"

definition StorePhantom :: "repo \<Rightarrow> bytes \<Rightarrow> repo \<times> (blob_error, rid) outcome" where
  "StorePhantom q uuid =
     (if uuid = [] then (q, Panic ''blob.StorePhantom: uuid must not be empty'')
      else case Exists q uuid of
             Panic s \<Rightarrow> (q, Panic s)
           | Err e \<Rightarrow> (q, Err e)
           | Ok (Some r) \<Rightarrow> (q, check_rid ''blob.StorePhantom'' r (Ok r))
           | Ok None \<Rightarrow>
               (case insert_blob q uuid (- 1) None 0 of
                  Panic s \<Rightarrow> (q, Panic s)
                | Err e \<Rightarrow> (q, Err (SqlError e))
                | Ok (q1, r) \<Rightarrow>
                    if r \<in> set (t_phantom q1) then (q1, Err (SqlError UniqueFailed))
                    else (q1\<lparr>t_phantom := t_phantom q1 @ [r]\<rparr>, check_rid ''blob.StorePhantom'' r (Ok r))))"

section \<open>What the storage relies on\<close>

text \<open>
  The zlib writer with default settings produces the header byte \<open>0x78\<close> (RFC 1950, 32K
  window) and at least one more byte, and its streams read back.
\<close>

definition zlib_writer :: "(bytes \<Rightarrow> bytes) \<Rightarrow> (bytes \<Rightarrow> bytes option) \<Rightarrow> bool" where
  "zlib_writer deflate inflate \<longleftrightarrow>
     (\<forall>s. inflate (deflate s) = Some s \<and> length (deflate s) \<ge> 2 \<and> byte_val (hd (deflate s)) = 0x78)"

definition sha1_names :: "(bytes \<Rightarrow> bytes) \<Rightarrow> bool" where
  "sha1_names sha1 \<longleftrightarrow> (\<forall>s. length (sha1 s) = 40)"

lemma Decompress_Compress:
  assumes "zlib_writer deflate inflate"
  shows "Decompress inflate False (Compress deflate s) = Ok s"
proof -
  have "length (deflate s) \<ge> 2" "inflate (deflate s) = Some s"
    using assms by (simp_all add: zlib_writer_def)
  then show ?thesis by (auto simp: Decompress_def Compress_def)
qed

lemma zlib_writer_head:
  assumes "zlib_writer deflate inflate"
  shows "byte_val (deflate s ! 0) = 0x78"
proof -
  have "length (deflate s) \<ge> 2" "byte_val (hd (deflate s)) = 0x78"
    using assms by (simp_all add: zlib_writer_def)
  then show ?thesis by (cases "deflate s") simp_all
qed

lemma Load_compressed:
  assumes "zlib_writer deflate inflate" "r > 0" "blob_by_rid q r = Some b"
    and "bl_size b = int (length s)" "bl_content b = Some (Compress deflate s)" "length s < 2 ^ 32"
  shows "Load inflate False q r = Ok s"
proof -
  have "int (Uint32 (Compress deflate s)) = bl_size b"
    using assms(4,6) by (simp add: Compress_def Uint32_PutUint32)
  moreover have "byte_val (Compress deflate s ! 4) = 0x78"
    using zlib_writer_head [OF assms(1)] by (simp add: Compress_def nth_append)
  moreover have "length (Compress deflate s) \<ge> 6"
    using assms(1) by (simp add: Compress_def zlib_writer_def)
  ultimately show ?thesis
    using assms Decompress_Compress [OF assms(1)] by (auto simp: Load_def)
qed

lemma Exists_eq: "sha1_names sha1 \<Longrightarrow> Exists q (sha1 c) = Ok (map_option bl_rid (blob_by_uuid q (sha1 c)))"
  unfolding sha1_names_def Exists_def by (metis list.size(3) zero_neq_numeral)

lemma check_rid_pos: "r > 0 \<Longrightarrow> check_rid fn r m = m"
  by (simp add: check_rid_def)

lemma Load_cong: "blob_by_rid q r = blob_by_rid q' r \<Longrightarrow> Load inflate b q r = Load inflate b q' r"
  by (simp add: Load_def)

lemma insert_blob_fresh:
  "length uuid \<ge> 40 \<Longrightarrow> blob_by_uuid q uuid = None \<Longrightarrow>
   \<exists>q'. insert_blob q uuid sz c rc = Ok (q', next_rid q)"
  by (simp add: insert_blob_def Let_def)

lemma mark_unclustered_simps [simp]:
  "blob_by_rid (mark_unclustered q r) s = blob_by_rid q s"
  "blob_by_uuid (mark_unclustered q r) u = blob_by_uuid q u"
  "t_blob (mark_unclustered q r) = t_blob q" "t_delta (mark_unclustered q r) = t_delta q"
  "wf_repo (mark_unclustered q r) = wf_repo q" "delta_src (mark_unclustered q r) s = delta_src q s"
  "t_unclustered (mark_unclustered q r) = insert_key r (t_unclustered q)"
  by (simp_all add: mark_unclustered_def blob_by_rid_def blob_by_uuid_def wf_repo_def delta_src_def)

text \<open>What a successful \<open>Store\<close> may change, with or without an injected fault.\<close>

lemma Store_Ok_frame:
  assumes "Store sha1 deflate inflate buggify q content = (q1, Ok (r, u))"
  shows "u = sha1 content" "map_option bl_rid (blob_by_uuid q1 u) = Some r"
    and "blob_by_uuid q v = Some b \<Longrightarrow> blob_by_uuid q1 v = Some b"
    and "set (t_unclustered q) \<subseteq> set (t_unclustered q1)" "set (t_unclustered q1) \<subseteq> insert r (set (t_unclustered q))"
    and "t_phantom q1 = t_phantom q" "t_shun q1 = t_shun q" "t_private q1 = t_private q"
    and "blob_by_rid q s = Some c \<Longrightarrow> blob_by_rid q1 s = Some c"
proof -
  from assms have u: "u = sha1 content"
    by (auto simp: Store_def Let_def check_rid_def split: if_splits outcome.splits option.splits prod.splits)
  consider (old) "q1 = q" "Exists q u = Ok (Some r)"
    | (new) q0 where "insert_blob q u (int (length content)) (Some (Compress deflate content)) 1 = Ok (q0, r)"
        "q1 = mark_unclustered q0 r"
    using assms u
    by (auto simp: Store_def Let_def check_rid_def split: if_splits outcome.splits option.splits prod.splits)
  then have "map_option bl_rid (blob_by_uuid q1 u) = Some r \<and> (blob_by_uuid q v = Some b \<longrightarrow> blob_by_uuid q1 v = Some b) \<and>
    set (t_unclustered q) \<subseteq> set (t_unclustered q1) \<and> set (t_unclustered q1) \<subseteq> insert r (set (t_unclustered q)) \<and>
    t_phantom q1 = t_phantom q \<and> t_shun q1 = t_shun q \<and> t_private q1 = t_private q \<and>
    (blob_by_rid q s = Some c \<longrightarrow> blob_by_rid q1 s = Some c)"
  proof cases
    case old
    then show ?thesis by (auto simp: Exists_def split: if_splits)
  next
    case new
    note facts = insert_blob_Ok [OF new(1)]
    have other: "t_unclustered q0 = t_unclustered q" "t_phantom q0 = t_phantom q" "t_shun q0 = t_shun q"
      "t_private q0 = t_private q" by (subst facts(7), simp)+
    have "blob_by_uuid q v = Some b \<longrightarrow> blob_by_uuid q0 v = Some b"
      using facts(5) facts(8) [of v] by (cases "v = u") auto
    moreover have "blob_by_rid q s = Some c \<longrightarrow> blob_by_rid q0 s = Some c"
      using facts(1) facts(4) [of s] blob_by_rid_next [of q] by (cases "s = r") auto
    ultimately show ?thesis using facts(2,3) other new(2)
      by (auto simp: mark_unclustered_def blob_by_uuid_def blob_by_rid_def)
  qed
  with u show "u = sha1 content" "map_option bl_rid (blob_by_uuid q1 u) = Some r"
    "blob_by_uuid q v = Some b \<Longrightarrow> blob_by_uuid q1 v = Some b"
    "set (t_unclustered q) \<subseteq> set (t_unclustered q1)" "set (t_unclustered q1) \<subseteq> insert r (set (t_unclustered q))"
    "t_phantom q1 = t_phantom q" "t_shun q1 = t_shun q" "t_private q1 = t_private q"
    "blob_by_rid q s = Some c \<Longrightarrow> blob_by_rid q1 s = Some c"
    by simp_all
qed

section \<open>Properties\<close>

lemma Store_fresh:
  assumes "zlib_writer deflate inflate" "sha1_names sha1" "content \<noteq> []" "length content < 2 ^ 32"
    and "blob_by_uuid q (sha1 content) = None"
    and "insert_blob q (sha1 content) (int (length content)) (Some (Compress deflate content)) 1 = Ok (q1, r)"
  shows "Store sha1 deflate inflate False q content = (mark_unclustered q1 r, Ok (r, sha1 content))"
    and "Load inflate False q1 r = Ok content"
proof -
  note ins = insert_blob_Ok [OF assms(6)]
  have pos: "r > 0" using ins(1) next_rid_pos by simp
  show load: "Load inflate False q1 r = Ok content"
    using ins(2) by (rule Load_compressed [OF assms(1) pos]) (use assms(4) in simp_all)
  then show "Store sha1 deflate inflate False q content = (mark_unclustered q1 r, Ok (r, sha1 content))"
    using assms pos by (simp add: Store_def Let_def Exists_eq check_rid_pos)
qed

text \<open>
  Claim C13.  Storing non-empty content succeeds and gives the row under the content's hash:
  with a hash not yet present the row is new, loading it gives the content back and it is
  marked unclustered; otherwise the repository is left as it is.  Every blob that could be
  loaded before is loaded unchanged, and the schema constraints are kept.
\<close>

theorem Store_Load:
  assumes "zlib_writer deflate inflate" "sha1_names sha1" "wf_repo q"
    and "content \<noteq> []" "length content < 2 ^ 32"
  shows "\<exists>q' r. Store sha1 deflate inflate False q content = (q', Ok (r, sha1 content)) \<and>
           wf_repo q' \<and> map_option bl_rid (blob_by_uuid q' (sha1 content)) = Some r \<and>
           (blob_by_uuid q (sha1 content) = None \<longrightarrow>
              Load inflate False q' r = Ok content \<and> r \<in> set (t_unclustered q')) \<and>
           (blob_by_uuid q (sha1 content) \<noteq> None \<longrightarrow> q' = q) \<and>
           (\<forall>s. blob_by_rid q s \<noteq> None \<longrightarrow> blob_by_rid q' s = blob_by_rid q s)"
proof (cases "blob_by_uuid q (sha1 content)")
  case None
  then obtain q1 where ins: "insert_blob q (sha1 content) (int (length content))
      (Some (Compress deflate content)) 1 = Ok (q1, next_rid q)"
    using insert_blob_fresh [of "sha1 content" q] assms(2) by (metis order_refl sha1_names_def)
  note facts = insert_blob_Ok [OF ins]
  have "\<forall>s. blob_by_rid q s \<noteq> None \<longrightarrow> blob_by_rid q1 s = blob_by_rid q s"
    using facts(4) blob_by_rid_next [of q] by metis
  with None Store_fresh [OF assms(1,2,4,5) None ins] facts(2,3) insert_blob_wf [OF assms(3) ins]
    Load_cong [of "mark_unclustered q1 (next_rid q)" "next_rid q" q1 inflate False]
  show ?thesis by simp
next
  case (Some b)
  then have "bl_rid b > 0"
    using assms(3) blob_by_uuid_Some [OF Some] by (auto simp: wf_repo_def list_all_iff)
  with Some assms show ?thesis by (simp add: Store_def Let_def Exists_eq check_rid_pos)
qed

definition sample_deflate :: "bytes \<Rightarrow> bytes" where
  "sample_deflate s = CHR ''x'' # CHR 0x9C # s"

definition sample_inflate :: "bytes \<Rightarrow> bytes option" where
  "sample_inflate s = (if take 2 s = [CHR ''x'', CHR 0x9C] then Some (drop 2 s) else None)"

definition sample_sha1 :: "bytes \<Rightarrow> bytes" where
  "sample_sha1 s = take 40 (s @ replicate 40 CHR ''0'')"

lemma sample_zlib: "zlib_writer sample_deflate sample_inflate"
  by (simp add: zlib_writer_def sample_deflate_def sample_inflate_def byte_val_def)

lemma sample_names: "sha1_names sample_sha1"
  by (auto simp: sha1_names_def sample_sha1_def min_def)

theorem Store_Load_witness:
  "\<exists>q' r. Store sample_sha1 sample_deflate sample_inflate False empty_repo ''hello'' = (q', Ok (r, sample_sha1 ''hello'')) \<and>
     Load sample_inflate False q' r = Ok ''hello''"
proof -
  have "wf_repo empty_repo" by (simp add: wf_repo_def empty_repo_def)
  moreover have "blob_by_uuid empty_repo (sample_sha1 ''hello'') = None"
    by (simp add: blob_by_uuid_def empty_repo_def)
  ultimately show ?thesis
    using Store_Load [OF sample_zlib sample_names, of empty_repo "''hello''"] by auto
qed

text \<open>
  A phantom swallows the content it stands for: once \<open>StorePhantom\<close> has made a
  row for a hash, \<open>Store\<close> of the content with that hash reports success with the phantom's row
  and writes nothing, and the row still cannot be loaded.
\<close>

theorem Store_keeps_phantom:
  assumes "sha1_names sha1" "wf_repo q" "content \<noteq> []" "blob_by_uuid q (sha1 content) = None"
    and "StorePhantom q (sha1 content) = (q1, Ok r)"
  shows "Store sha1 deflate inflate buggify q1 content = (q1, Ok (r, sha1 content)) \<and>
         Load inflate buggify q1 r = Err (PhantomBlob r)"
proof -
  have ne: "sha1 content \<noteq> []" using assms(1) unfolding sha1_names_def by (metis list.size(3) zero_neq_numeral)
  obtain q0 where ins: "insert_blob q (sha1 content) (- 1) None 0 = Ok (q0, r)"
    and q1: "q1 = q0\<lparr>t_phantom := t_phantom q0 @ [r]\<rparr>"
    using assms(4,5) ne Exists_eq [OF assms(1), of q content] next_rid_pos [of q]
      insert_blob_Ok(1) [of q "sha1 content" "- 1" None 0]
    by (auto simp: StorePhantom_def check_rid_def split: outcome.splits if_splits prod.splits)
  note facts = insert_blob_Ok [OF ins]
  have pos: "r > 0" using facts(1) next_rid_pos by simp
  have "blob_by_rid q1 s = blob_by_rid q0 s" "blob_by_uuid q1 u = blob_by_uuid q0 u" for s u
    by (simp_all add: q1 blob_by_rid_def blob_by_uuid_def)
  with facts(2,3) pos assms(1,3) show ?thesis
    by (simp add: Store_def Let_def Exists_eq check_rid_pos Load_def)
qed

theorem Store_keeps_phantom_witness:
  "\<exists>q1 r. StorePhantom empty_repo (sample_sha1 ''hello'') = (q1, Ok r) \<and>
     Store sample_sha1 sample_deflate sample_inflate False q1 ''hello'' = (q1, Ok (r, sample_sha1 ''hello''))"
proof -
  obtain q1 r where st: "StorePhantom empty_repo (sample_sha1 ''hello'') = (q1, Ok r)"
    by (simp add: StorePhantom_def Exists_def blob_by_uuid_def empty_repo_def insert_blob_def
        sample_sha1_def check_rid_def next_rid_def Let_def)
  moreover have "wf_repo empty_repo" by (simp add: wf_repo_def empty_repo_def)
  moreover have "blob_by_uuid empty_repo (sample_sha1 ''hello'') = None"
    by (simp add: blob_by_uuid_def empty_repo_def)
  ultimately show ?thesis
    using Store_keeps_phantom [OF sample_names _ _ _ st, of sample_deflate sample_inflate False] by blast
qed

end
