(* ===== verification/Content.thy ===== *)
theory Content
  imports Blob
begin

text \<open>
  Expanding stored content (\<open>internal/content/content.go\<close>): walking a delta chain with
  cycle detection, rebuilding the content, and checking it against its name; and the private
  table (\<open>private.go\<close>).  The specification \<open>expands\<close> says, independently of chains and
  loops, which content a row stands for.
\<close>

section \<open>Delta chains\<close>

datatype content_error =
    ChainCycle rid
  | LoadRoot rid blob_error
  | LoadDelta rid blob_error
  | ApplyDelta rid delta_error
  | VerifyQuery
  | VerifyMismatch rid bytes bytes

text \<open>
  The rows walked so far, newest first, are both the \<open>seen\<close> map and, once the walk ends,
  the reversed chain that the code returns.
\<close>

function walk :: "repo \<Rightarrow> rid \<Rightarrow> rid list \<Rightarrow> (content_error, rid list) outcome" where
  "walk q current chain =
     (if current \<in> set chain then Err (ChainCycle current)
      else case delta_src q current of
             None \<Rightarrow> Ok (current # chain)
           | Some source \<Rightarrow> walk q source (current # chain))"
  by pat_completeness auto
termination
proof (relation "measure (\<lambda>(q, current, chain). card (fst ` set (t_delta q) - set chain))", goal_cases)
  case (2 q current chain source)
  then have "current \<in> fst ` set (t_delta q)"
    by (auto simp: delta_src_def intro: rev_image_eqI dest: map_of_SomeD)
  with 2 have "fst ` set (t_delta q) - set (current # chain) \<subset> fst ` set (t_delta q) - set chain" by auto
  then show ?case by (simp add: psubset_card_mono)
qed simp

declare walk.simps [simp del]

definition walkDeltaChain :: "repo \<Rightarrow> rid \<Rightarrow> (content_error, rid list) outcome" where
  "walkDeltaChain q r =
     (if r \<le> 0 then Panic ''content.walkDeltaChain: rid must be > 0'' else walk q r [])"

section \<open>Expansion\<close>

text \<open>
  A chain has no row twice, so the fault injected into the \<open>Load\<close> of each row is a function
  of the row; \<open>flip\<close> is the fault injected at the end, which inverts the first byte.
\<close>

fun apply_chain ::
  "(bytes \<Rightarrow> bytes option) \<Rightarrow> (rid \<Rightarrow> bool) \<Rightarrow> repo \<Rightarrow> bytes \<Rightarrow> rid list \<Rightarrow> (content_error, bytes) outcome" where
  "apply_chain inflate buggify q content [] = Ok content"
| "apply_chain inflate buggify q content (r # rs) =
     bind_ok (wrap_err (LoadDelta r) (Load inflate (buggify r) q r)) (\<lambda>deltaBytes.
     bind_ok (wrap_err (ApplyDelta r) (Apply content deltaBytes)) (\<lambda>content'.
       apply_chain inflate buggify q content' rs))"

definition corrupt_head :: "bytes \<Rightarrow> bytes" where
  "corrupt_head s = (case s of [] \<Rightarrow> [] | c # cs \<Rightarrow> char_of (255 - byte_val c) # cs)"

definition Expand ::
  "(bytes \<Rightarrow> bytes option) \<Rightarrow> (rid \<Rightarrow> bool) \<Rightarrow> bool \<Rightarrow> repo \<Rightarrow> rid \<Rightarrow> (content_error, bytes) outcome" where
  "Expand inflate buggify flip q r =
     (if r \<le> 0 then Panic ''content.Expand: rid must be > 0''
      else bind_ok (walkDeltaChain q r) (\<lambda>chain.
           bind_ok (wrap_err (LoadRoot (hd chain)) (Load inflate (buggify (hd chain)) q (hd chain))) (\<lambda>root.
           bind_ok (apply_chain inflate buggify q root (tl chain)) (\<lambda>content.
             Ok (if flip \<and> length content > 0 then corrupt_head content else content)))))"

definition Verify ::
  "(bytes \<Rightarrow> bytes) \<Rightarrow> (bytes \<Rightarrow> bytes) \<Rightarrow> (bytes \<Rightarrow> bytes option) \<Rightarrow> (rid \<Rightarrow> bool) \<Rightarrow> bool \<Rightarrow> repo \<Rightarrow> rid
     \<Rightarrow> (content_error, unit) outcome" where
  "Verify sha1 sha3 inflate buggify flip q r =
     (if r \<le> 0 then Panic ''content.Verify: rid must be > 0''
      else case blob_by_rid q r of
             None \<Rightarrow> Err VerifyQuery
           | Some b \<Rightarrow>
               bind_ok (Expand inflate buggify flip q r) (\<lambda>content.
                 let computed = (if length (bl_uuid b) = 64 then sha3 content else sha1 content) in
                 if computed \<noteq> bl_uuid b then Err (VerifyMismatch r (bl_uuid b) computed) else Ok ()))"

definition IsPhantom :: "repo \<Rightarrow> rid \<Rightarrow> (content_error, bool) outcome" where
  "IsPhantom q r =
     (if r \<le> 0 then Panic ''content.IsPhantom: rid must be > 0''
      else Ok (length (filter ((=) r) (t_phantom q)) > 0))"

section \<open>Private artifacts (private.go)\<close>

definition IsPrivate :: "repo \<Rightarrow> rid \<Rightarrow> (content_error, bool) outcome" where
  "IsPrivate q r =
     (if r \<le> 0 then Panic ''content.IsPrivate: rid must be positive'' else Ok (r \<in> set (t_private q)))"

definition MakePrivate :: "repo \<Rightarrow> rid \<Rightarrow> (content_error, repo) outcome" where
  "MakePrivate q r =
     (if r \<le> 0 then Panic ''content.MakePrivate: rid must be positive''
      else Ok (q\<lparr>t_private := insert_key r (t_private q)\<rparr>))"

definition MakePublic :: "repo \<Rightarrow> rid \<Rightarrow> (content_error, repo) outcome" where
  "MakePublic q r =
     (if r \<le> 0 then Panic ''content.MakePublic: rid must be positive''
      else Ok (q\<lparr>t_private := filter ((\<noteq>) r) (t_private q)\<rparr>))"

section \<open>The content of a row\<close>

inductive expands :: "(bytes \<Rightarrow> bytes option) \<Rightarrow> repo \<Rightarrow> rid \<Rightarrow> bytes \<Rightarrow> bool"
  for inflate :: "bytes \<Rightarrow> bytes option" and q :: repo where
  expands_root: "delta_src q r = None \<Longrightarrow> Load inflate False q r = Ok c \<Longrightarrow> expands inflate q r c"
| expands_delta: "delta_src q r = Some s \<Longrightarrow> expands inflate q s c \<Longrightarrow> Load inflate False q r = Ok d \<Longrightarrow>
     Apply c d = Ok c' \<Longrightarrow> expands inflate q r c'"

inductive_cases expands_cases: "expands inflate q r c"

lemma expands_fun: "expands inflate q r c \<Longrightarrow> expands inflate q r c' \<Longrightarrow> c = c'"
proof (induction arbitrary: c' rule: expands.induct)
  case (expands_root r c)
  from expands_root.prems expands_root.hyps show ?case by (auto elim: expands_cases)
next
  case (expands_delta r s c d c')
  from expands_delta.prems expands_delta.hyps show ?case
    by (auto elim!: expands_cases [of inflate q r] dest!: expands_delta.IH)
qed

text \<open>The walk from a row, as the list of rows from its root down to it.\<close>

inductive path_from :: "repo \<Rightarrow> rid \<Rightarrow> rid list \<Rightarrow> bool" for q :: repo where
  path_root: "delta_src q r = None \<Longrightarrow> path_from q r [r]"
| path_step: "delta_src q r = Some s \<Longrightarrow> path_from q s p \<Longrightarrow> path_from q r (p @ [r])"

inductive_cases path_from_cases: "path_from q r p"

lemma path_from_fun: "path_from q r p \<Longrightarrow> path_from q r p' \<Longrightarrow> p = p'"
proof (induction arbitrary: p' rule: path_from.induct)
  case (path_root r)
  then show ?case by (auto elim: path_from_cases)
next
  case (path_step r s p)
  from path_step.prems path_step.hyps show ?case by (auto elim!: path_from_cases [of q r] dest: path_step.IH)
qed

lemma path_from_member:
  "path_from q r p \<Longrightarrow> x \<in> set p \<Longrightarrow> \<exists>p'. path_from q x p' \<and> length p' \<le> length p \<and> (x \<noteq> r \<longrightarrow> length p' < length p)"
proof (induction rule: path_from.induct)
  case (path_root r)
  then show ?case by (auto intro: path_from.path_root)
next
  case (path_step r s p)
  show ?case
  proof (cases "x = r")
    case True
    then show ?thesis using path_from.path_step [OF path_step.hyps] by auto
  next
    case False
    with path_step.prems path_step.IH show ?thesis by force
  qed
qed

lemma path_from_distinct: "path_from q r p \<Longrightarrow> distinct p \<and> p \<noteq> []"
proof (induction rule: path_from.induct)
  case (path_step r s p)
  have "r \<notin> set p"
  proof
    assume "r \<in> set p"
    then obtain p' where "path_from q r p'" "length p' \<le> length p"
      using path_from_member [OF path_step.hyps(2)] by blast
    moreover have "p' = p @ [r]" if "path_from q r p'" for p'
      using path_from_fun [OF that path_from.path_step [OF path_step.hyps]] .
    ultimately show False by fastforce
  qed
  with path_step.IH show ?case by simp
qed simp

text \<open>The code's walk finds that path, and reports a cycle exactly when there is none.\<close>

lemma walk_path:
  "path_from q r p \<Longrightarrow> set p \<inter> set chain = {} \<Longrightarrow> walk q r chain = Ok (p @ chain)"
proof (induction arbitrary: chain rule: path_from.induct)
  case (path_root r)
  then show ?case by (subst walk.simps) simp
next
  case (path_step r s p)
  have "distinct (p @ [r])"
    using path_from_distinct [OF path_from.path_step [OF path_step.hyps]] by simp
  with path_step show ?case by (subst walk.simps) auto
qed

lemma walk_Ok: "walk q r chain = Ok w \<Longrightarrow> \<exists>p. path_from q r p \<and> w = p @ chain"
proof (induction q r chain rule: walk.induct)
  case (1 q r chain)
  show ?case
  proof (cases "delta_src q r")
    case None
    with "1.prems" have "w = [r] @ chain" by (subst (asm) walk.simps) (simp split: if_splits)
    with path_root [OF None] show ?thesis by blast
  next
    case (Some s)
    with "1.prems" have "r \<notin> set chain" "walk q s (r # chain) = Ok w"
      by (auto simp: walk.simps [of q r] split: if_splits)
    with "1.IH" Some obtain p where "path_from q s p" "w = p @ r # chain" by blast
    then show ?thesis using path_step [OF Some] by fastforce
  qed
qed

lemma walk_not_Panic: "\<not> is_panic (walk q r chain)"
  by (induction q r chain rule: walk.induct) (subst walk.simps, simp split: option.split)

lemma walk_cycle: "\<nexists>p. path_from q r p \<Longrightarrow> \<exists>x. walk q r chain = Err (ChainCycle x)"
proof (induction q r chain rule: walk.induct)
  case (1 q r chain)
  show ?case
  proof (cases "r \<in> set chain")
    case True
    then show ?thesis by (subst walk.simps) simp
  next
    case False
    from "1.prems" obtain s where s: "delta_src q r = Some s" "\<nexists>p. path_from q s p"
      by (metis option.exhaust path_root path_step)
    with "1.IH" [OF False s(1)] False show ?thesis by (subst walk.simps) simp
  qed
qed

lemma path_from_append: "path_from q r p \<Longrightarrow> last p = r"
  by (induction rule: path_from.induct) auto

section \<open>Expansion meets the specification\<close>

lemma apply_chain_append:
  "apply_chain inflate b q c (xs @ ys) = bind_ok (apply_chain inflate b q c xs) (\<lambda>c'. apply_chain inflate b q c' ys)"
  by (induction xs arbitrary: c) (simp_all add: bind_ok_assoc)

lemma path_from_expands:
  "path_from q r p \<Longrightarrow>
   expands inflate q r c \<longleftrightarrow>
     (\<exists>root. Load inflate False q (hd p) = Ok root \<and> apply_chain inflate (\<lambda>_. False) q root (tl p) = Ok c)"
proof (induction arbitrary: c rule: path_from.induct)
  case (path_root r)
  then show ?case by (auto intro: expands.intros elim: expands_cases)
next
  case (path_step r s p)
  have ne: "p \<noteq> []" using path_from_distinct [OF path_step.hyps(2)] by simp
  have "expands inflate q r c \<longleftrightarrow>
      (\<exists>c0 d. expands inflate q s c0 \<and> Load inflate False q r = Ok d \<and> Apply c0 d = Ok c)"
    using path_step.hyps(1) by (auto intro: expands_delta elim!: expands_cases [of inflate q r c])
  with path_step.IH ne show ?case
    by (auto simp: apply_chain_append bind_ok_eq_Ok)
qed

lemma expands_path: "expands inflate q r c \<Longrightarrow> \<exists>p. path_from q r p"
  by (induction rule: expands.induct) (auto intro: path_from.intros)

lemma Expand_eq_expands:
  assumes "r > 0"
  shows "Expand inflate (\<lambda>_. False) False q r = Ok c \<longleftrightarrow> expands inflate q r c"
proof (cases "\<exists>p. path_from q r p")
  case True
  then obtain p where p: "path_from q r p" by blast
  with walk_path [OF p, of "[]"] path_from_expands [OF p] assms show ?thesis
    by (simp add: Expand_def walkDeltaChain_def bind_ok_eq_Ok)
next
  case False
  then obtain x where "walk q r [] = Err (ChainCycle x)" using walk_cycle by blast
  with False assms show ?thesis
    by (auto simp: Expand_def walkDeltaChain_def dest: expands_path)
qed

text \<open>
  Claim C12.  \<open>Expand\<close> computes exactly the content a row stands for: the stored bytes of a row
  without delta, and otherwise the row's delta applied to the content of its source.  So the
  chain walk, its reversal and the loop over it agree with the recursive reading of the
  tables, for chains of any length.
\<close>

theorem Expand_correct:
  assumes "r > 0"
  shows "Expand inflate (\<lambda>_. False) False q r = Ok c \<longleftrightarrow> expands inflate q r c"
  using assms by (rule Expand_eq_expands)

text \<open>A repository whose rows hold the given texts under the numbers 1, 2, ...\<close>

definition sample_row :: "nat \<times> bytes \<Rightarrow> blob_row" where
  "sample_row = (\<lambda>(i, s). \<lparr>bl_rid = int i + 1, bl_rcvid = 1, bl_size = int (length s),
     bl_uuid = sample_sha1 s, bl_content = Some (Compress sample_deflate s)\<rparr>)"

definition sample_repo :: "bytes list \<Rightarrow> repo" where
  "sample_repo ss = empty_repo\<lparr>t_blob := map sample_row (enumerate 0 ss)\<rparr>"

lemma Load_sample:
  assumes "blob_by_rid q r = Some (sample_row (i, s))" "r > 0" "length s < 2 ^ 32"
  shows "Load sample_inflate False q r = Ok s"
  by (rule Load_compressed [OF sample_zlib assms(2,1)])
    (use assms(3) in \<open>simp_all add: sample_row_def\<close>)

theorem Expand_correct_witness: "expands sample_inflate (sample_repo [''hello'']) 1 ''hello''"
proof -
  let ?q = "sample_repo [''hello'']"
  have "Load sample_inflate False ?q 1 = Ok ''hello''"
    by (rule Load_sample [of _ _ 0]) (simp_all add: sample_repo_def sample_row_def blob_by_rid_def)
  then have "Expand sample_inflate (\<lambda>_. False) False ?q 1 = Ok ''hello''"
    by (simp add: Expand_def walkDeltaChain_def walk.simps [of _ _ "[]"] sample_repo_def empty_repo_def
        delta_src_def)
  then show ?thesis using Expand_correct [of 1 sample_inflate ?q "''hello''"] by simp
qed



lemma apply_chain_loads:
  "list_all2 (\<lambda>r d. Load inflate False q r = Ok d) rs ds \<Longrightarrow>
   foldl (\<lambda>m d. bind_ok m (\<lambda>c. Apply c d)) (Ok v) ds = Ok w \<Longrightarrow>
   apply_chain inflate (\<lambda>_. False) q v rs = Ok w"
proof (induction rs ds arbitrary: v rule: list_all2_induct)
  case (Cons r rs d ds)
  have fold_err: "foldl (\<lambda>m d. bind_ok m (\<lambda>c. Apply c d)) m ds \<noteq> Ok w" if "\<not> is_ok m" for m
    using that by (induction ds arbitrary: m) (auto simp: bind_ok_def split: outcome.splits)
  show ?case
  proof (cases "Apply v d")
    case (Ok u)
    with Cons show ?thesis by simp
  qed (use Cons.prems fold_err in auto)
qed simp

text \<open>
  A chain of deltas made by \<open>Create\<close> from successive versions expands to the last
  version: the root row holds the first version and each further row the delta from the
  version before it.
\<close>

theorem Expand_delta_chain:
  assumes "r > 0" "path_from q r (r0 # rs)" "Load inflate False q r0 = Ok v"
    and "list_all2 (\<lambda>r d. Load inflate False q r = Ok d) rs ds"
    and "list_all2 (\<lambda>(a, b) d. Create a b = Some d) (zip (v # vs) vs) ds"
    and "list_all (\<lambda>c. length c \<le> max_alloc) (v # vs)"
  shows "Expand inflate (\<lambda>_. False) False q r = Ok (last (v # vs))"
proof -
  have "foldl (\<lambda>m d. bind_ok m (\<lambda>c. Apply c d)) (Ok v) ds = Ok (last (v # vs))"
    using assms(5,6) by (intro fossil_delta.replay_created) simp_all
  with apply_chain_loads [OF assms(4)]
  have "apply_chain inflate (\<lambda>_. False) q v rs = Ok (last (v # vs))" .
  with path_from_expands [OF assms(2)] assms(3) have "expands inflate q r (last (v # vs))" by simp
  with Expand_eq_expands [OF assms(1)] show ?thesis by blast
qed

theorem Expand_delta_chain_witness:
  "\<exists>d. Create ''ab'' ''cd'' = Some d \<and>
       Expand sample_inflate (\<lambda>_. False) False ((sample_repo [''ab'', d])\<lparr>t_delta := [(2, 1)]\<rparr>) 2 = Ok ''cd''"
proof -
  define d where "d = ''2'' @ [NL] @ ''2:cd1ZP000;''"
  have d: "Create ''ab'' ''cd'' = Some d" unfolding d_def by code_simp
  have len: "length d < 2 ^ 32" by (simp add: d_def)
  let ?q = "(sample_repo [''ab'', d])\<lparr>t_delta := [(2, 1)]\<rparr>"
  have rows: "blob_by_rid ?q 1 = Some (sample_row (0, ''ab''))" "blob_by_rid ?q 2 = Some (sample_row (1, d))"
    by (simp_all add: sample_repo_def sample_row_def blob_by_rid_def)
  have loads: "Load sample_inflate False ?q 1 = Ok ''ab''" "Load sample_inflate False ?q 2 = Ok d"
    using Load_sample [OF rows(1)] Load_sample [OF rows(2) _ len] by simp_all
  have "path_from ?q 2 ([1] @ [2])" by (rule path_step [of _ _ 1]) (auto simp: delta_src_def intro: path_root)
  then have "path_from ?q 2 (1 # [2])" by simp
  from Expand_delta_chain [OF _ this loads(1), of "[d]" "[''cd'']"] loads(2) d show ?thesis
    by (simp add: max_alloc_def)
qed

end
