(* ===== verification/Content_Store.thy ===== *)
theory Content_Store
  imports Content
begin

text \<open>
  Storing deltas and expanding them again: what \<open>StoreDelta\<close> (\<open>internal/blob\<close>) and \<open>Expand\<close>
  (\<open>internal/content\<close>) guarantee together, and where the pair fails.
\<close>

section \<open>Rows that stay\<close>

lemma expands_frame:
  assumes "expands inflate q s c" "blob_by_rid q r = None"
    and "\<And>x. x \<noteq> r \<Longrightarrow> blob_by_rid q' x = blob_by_rid q x \<and> delta_src q' x = delta_src q x"
  shows "expands inflate q' s c"
  using assms(1)
proof (induction rule: expands.induct)
  case (expands_root s c)
  then have "s \<noteq> r" using assms(2) by (auto simp: Load_def split: if_splits)
  with assms(3) expands_root show ?case
    by (auto intro!: expands.expands_root simp: Load_cong [of q' s q])
next
  case (expands_delta t s c d c')
  then have "t \<noteq> r" using assms(2) by (auto simp: Load_def split: if_splits)
  with assms(3) expands_delta show ?case
    by (auto intro!: expands.expands_delta [of q' t s] simp: Load_cong [of q' t q])
qed

lemma delta_row_has_blob:
  assumes "wf_repo q" "blob_by_rid q r = None"
  shows "delta_src q r = None"
proof (rule ccontr)
  assume "delta_src q r \<noteq> None"
  then obtain s where "(r, s) \<in> set (t_delta q)" by (auto simp: delta_src_def dest: map_of_SomeD)
  then have "r \<in> bl_rid ` set (t_blob q)" using assms(1) by (auto simp: wf_repo_def list_all_iff)
  with assms(2) show False by (auto simp: blob_by_rid_def find_None_iff)
qed

lemma insert_delta_Ok:
  assumes "wf_repo q" "blob_by_rid q r \<noteq> None" "delta_src q r = None"
  obtains q' where "insert_delta q r s = Ok q'" "wf_repo q'"
    "\<And>x. blob_by_rid q' x = blob_by_rid q x" "\<And>u. blob_by_uuid q' u = blob_by_uuid q u"
    "delta_src q' r = Some s" "\<And>x. x \<noteq> r \<Longrightarrow> delta_src q' x = delta_src q x"
proof
  let ?q = "q\<lparr>t_delta := t_delta q @ [(r, s)]\<rparr>"
  show "insert_delta q r s = Ok ?q" using assms(3) by (simp add: insert_delta_def)
  have "r \<in> bl_rid ` set (t_blob q)" using assms(2) by (auto simp: blob_by_rid_def find_None_iff)
  moreover have "r \<notin> fst ` set (t_delta q)" using assms(3) by (simp add: delta_src_def map_of_eq_None_iff)
  ultimately show "wf_repo ?q" using assms(1) by (auto simp: wf_repo_def list_all_iff)
  show "delta_src ?q r = Some s" using assms(3) by (simp add: delta_src_def map_add_def)
qed (auto simp: blob_by_rid_def blob_by_uuid_def delta_src_def map_add_def split: option.split)

section \<open>StoreDelta\<close>

text \<open>
  The stored form of a delta is read back as the delta unless it is taken for uncompressed
  content, because it happens to be as long as the full content.
\<close>

definition readable_delta :: "(bytes \<Rightarrow> bytes) \<Rightarrow> bytes \<Rightarrow> bytes \<Rightarrow> bool" where
  "readable_delta deflate d content \<longleftrightarrow>
     length (Compress deflate d) \<noteq> length content \<or> length d = length content"

lemma Load_delta_row:
  assumes "zlib_writer deflate inflate" "r > 0" "blob_by_rid q r = Some b"
    and "bl_size b = int n" "bl_content b = Some (Compress deflate d)" "length d < 2 ^ 32"
    and "length (Compress deflate d) \<noteq> n \<or> length d = n"
  shows "Load inflate False q r = Ok d"
proof -
  have "byte_val (Compress deflate d ! 4) = 0x78" "length (Compress deflate d) \<ge> 6"
    using zlib_writer_head [OF assms(1)] assms(1) by (simp_all add: Compress_def nth_append zlib_writer_def)
  moreover have "Uint32 (Compress deflate d) = length d"
    using assms(6) by (simp add: Compress_def Uint32_PutUint32)
  ultimately show ?thesis
    using assms Decompress_Compress [OF assms(1), of d] by (auto simp: Load_def)
qed

lemma StoreDelta_Ok:
  assumes "zlib_writer deflate inflate" "sha1_names sha1" "wf_repo q"
    and "content \<noteq> []" "src > 0" "blob_by_uuid q (sha1 content) = None"
    and "Load inflate False q src = Ok sv" "Create sv content = Some d"
    and "length sv \<le> max_alloc" "length content \<le> max_alloc" "length d < 2 ^ 32"
    and "readable_delta deflate d content"
  obtains q' where
    "StoreDelta sha1 deflate inflate False False q content src = Some (q', Ok (next_rid q, sha1 content))"
    "wf_repo q'" "Load inflate False q' (next_rid q) = Ok d" "delta_src q' (next_rid q) = Some src"
    "\<And>x. x \<noteq> next_rid q \<Longrightarrow> blob_by_rid q' x = blob_by_rid q x \<and> delta_src q' x = delta_src q x"
    "\<And>u. u \<noteq> sha1 content \<Longrightarrow> blob_by_uuid q' u = blob_by_uuid q u"
proof -
  let ?r = "next_rid q"
  obtain q1 where ins: "insert_blob q (sha1 content) (int (length content)) (Some (Compress deflate d)) 1 = Ok (q1, ?r)"
    using insert_blob_fresh [of "sha1 content" q] assms(2,6) by (metis order_refl sha1_names_def)
  note facts = insert_blob_Ok [OF ins]
  have frame: "delta_src q1 x = delta_src q x" for x
    using facts(7) by (metis delta_src_def repo.select_convs(2) repo.surjective repo.update_convs(1))
  have "delta_src q1 ?r = None" using delta_row_has_blob [OF assms(3) blob_by_rid_next] frame by simp
  with insert_delta_Ok [OF insert_blob_wf(1) [OF assms(3) ins], of ?r] facts(2)
  obtain q2 where q2: "insert_delta q1 ?r src = Ok q2" "wf_repo q2" "\<And>x. blob_by_rid q2 x = blob_by_rid q1 x"
    "\<And>u. blob_by_uuid q2 u = blob_by_uuid q1 u" "delta_src q2 ?r = Some src"
    "\<And>x. x \<noteq> ?r \<Longrightarrow> delta_src q2 x = delta_src q1 x"
    by (metis option.distinct(1))
  have row: "blob_by_rid q2 ?r = Some \<lparr>bl_rid = ?r, bl_rcvid = 1, bl_size = int (length content),
      bl_uuid = sha1 content, bl_content = Some (Compress deflate d)\<rparr>"
    using facts(2) q2(3) by simp
  have load: "Load inflate False q2 ?r = Ok d"
    by (rule Load_delta_row [OF assms(1) next_rid_pos row])
      (use assms(11,12) in \<open>simp_all add: readable_delta_def\<close>)
  have "length sv < 2 ^ 64" using assms(9) by (simp add: max_alloc_def)
  then have "Apply sv d = Ok content" using Apply_Create [OF assms(8)] assms(10) by simp
  with load q2(1) ins assms next_rid_pos [of q]
  have "StoreDelta sha1 deflate inflate False False q content src =
      Some (mark_unclustered q2 ?r, Ok (?r, sha1 content))"
    by (simp add: StoreDelta_def Let_def Exists_eq check_rid_pos)
  moreover have "Load inflate False (mark_unclustered q2 ?r) ?r = Ok d"
    using load Load_cong [of "mark_unclustered q2 ?r" ?r q2] by simp
  ultimately show ?thesis using that [of "mark_unclustered q2 ?r"] q2 facts(4,8) frame by simp
qed

text \<open>
  Content stored as a delta against a row that itself holds full content expands to
  exactly that content, and every other row keeps its content, provided the compressed delta
  is not as long as the content while the delta is not.
\<close>

theorem StoreDelta_Expand:
  assumes "zlib_writer deflate inflate" "sha1_names sha1" "wf_repo q"
    and "content \<noteq> []" "src > 0" "blob_by_uuid q (sha1 content) = None"
    and "Load inflate False q src = Ok sv" "delta_src q src = None" "Create sv content = Some d"
    and "length sv \<le> max_alloc" "length content \<le> max_alloc" "length d < 2 ^ 32"
    and "readable_delta deflate d content"
  shows "\<exists>q' r. StoreDelta sha1 deflate inflate False False q content src = Some (q', Ok (r, sha1 content)) \<and>
           wf_repo q' \<and> Expand inflate (\<lambda>_. False) False q' r = Ok content \<and>
           (\<forall>s c. Expand inflate (\<lambda>_. False) False q s = Ok c \<longrightarrow>
                  Expand inflate (\<lambda>_. False) False q' s = Ok c)"
proof -
  let ?r = "next_rid q"
  obtain q' where st: "StoreDelta sha1 deflate inflate False False q content src = Some (q', Ok (?r, sha1 content))"
    and q': "wf_repo q'" "Load inflate False q' ?r = Ok d" "delta_src q' ?r = Some src"
    and frame: "\<And>x. x \<noteq> ?r \<Longrightarrow> blob_by_rid q' x = blob_by_rid q x \<and> delta_src q' x = delta_src q x"
    using StoreDelta_Ok [OF assms(1-7,9-13)] by blast
  have keep: "expands inflate q s c \<Longrightarrow> expands inflate q' s c" for s c
    using expands_frame [OF _ blob_by_rid_next frame] by blast
  have "length sv < 2 ^ 64" using assms(10) by (simp add: max_alloc_def)
  then have "Apply sv d = Ok content" using Apply_Create [OF assms(9)] assms(11) by simp
  moreover have "expands inflate q' src sv" using keep expands_root [OF assms(8,7)] by blast
  ultimately have "expands inflate q' ?r content" using expands_delta q' by blast
  moreover have "s > 0" if "Expand inflate (\<lambda>_. False) False q s = Ok c" for s c
    using that by (auto simp: Expand_def split: if_splits)
  ultimately show ?thesis
    using st q'(1) next_rid_pos [of q] Expand_eq_expands keep by metis
qed

lemma sample_repo_wf: "distinct (map sample_sha1 ss) \<Longrightarrow> wf_repo (sample_repo ss)"
proof -
  have "map bl_rid (map sample_row (enumerate 0 ss)) = map (\<lambda>i. int i + 1) [0..<length ss]"
    by (rule nth_equalityI) (simp_all add: sample_row_def nth_enumerate_eq)
  moreover have "map bl_uuid (map sample_row (enumerate 0 ss)) = map sample_sha1 ss"
    by (rule nth_equalityI) (simp_all add: sample_row_def nth_enumerate_eq)
  moreover have "length (sample_sha1 s) = 40" for s using sample_names by (simp add: sha1_names_def)
  moreover assume "distinct (map sample_sha1 ss)"
  ultimately show ?thesis
    by (auto simp: wf_repo_def sample_repo_def empty_repo_def list_all_iff sample_row_def distinct_map inj_on_def
        simp del: map_map)
qed

theorem StoreDelta_Expand_witness:
  "\<exists>q' r. StoreDelta sample_sha1 sample_deflate sample_inflate False False (sample_repo [''ab'']) ''cd'' 1 =
       Some (q', Ok (r, sample_sha1 ''cd'')) \<and> Expand sample_inflate (\<lambda>_. False) False q' r = Ok ''cd''"
proof -
  let ?q = "sample_repo [''ab'']"
  define d where "d = ''2'' @ [NL] @ ''2:cd1ZP000;''"
  have d: "Create ''ab'' ''cd'' = Some d" unfolding d_def by code_simp
  have row: "blob_by_rid ?q 1 = Some (sample_row (0, ''ab''))"
    by (simp add: sample_repo_def sample_row_def blob_by_rid_def)
  have load: "Load sample_inflate False ?q 1 = Ok ''ab''" using Load_sample [OF row] by simp
  have wf: "wf_repo ?q" by (rule sample_repo_wf) simp
  have fresh: "blob_by_uuid ?q (sample_sha1 ''cd'') = None"
    by (simp add: blob_by_uuid_def sample_repo_def sample_row_def sample_sha1_def)
  have src: "delta_src ?q 1 = None" by (simp add: delta_src_def sample_repo_def empty_repo_def)
  have "readable_delta sample_deflate d ''cd''"
    by (simp add: readable_delta_def Compress_def sample_deflate_def d_def)
  with StoreDelta_Expand [OF sample_zlib sample_names wf _ _ fresh load src d] show ?thesis
    by (auto simp: max_alloc_def d_def)
qed

section \<open>Deltas against deltas\<close>

text \<open>
  The delta from a text of 16 to 31 bytes to its first 16 bytes is a single copy command,
  whatever the hash values: the only block of the source is found in its bucket.
\<close>

lemma matchLen_prefix: "matchLen (a @ b) a = length a"
  by (induction a) (cases b, simp_all)

lemma Create_prefix:
  assumes "16 \<le> length source" "length source < 32"
  shows "Create source (take 16 source) =
    Some (appendInt (emit_copy (appendInt [] 16 @ [NL]) 16 0) (ucast (Checksum (take 16 source))) @ '';'')"
proof -
  let ?t = "take 16 source"
  define N where "N = table_size (length source)"
  define idx where "idx = bucket ?t (N - 1)"
  have N: "N > 0" using clear_low_bits_pos [of 64] assms by (auto simp: N_def table_size_def nHash_def Let_def)
  then have idx: "idx < N" using bucket_le [of ?t "N - 1"] by (simp add: idx_def)
  let ?heads = "(replicate N 0)[idx := 1]" and ?entries = "[\<lparr>he_offset = 0, he_next = -1\<rparr>]"
  have "build_loop source (N - 1) 0 (replicate N 0) [] = (?heads, ?entries)"
    using assms idx
    by (simp add: build_loop.simps [of _ _ 0] build_loop.simps [of _ _ 16] nHash_def subslice_def idx_def Let_def)
  then have table: "buildHashTable source = (?heads, ?entries, N - 1)"
    by (simp add: buildHashTable_def N_def Let_def)
  have ml: "matchLen source ?t = 16"
    using matchLen_prefix [of ?t "drop 16 source"] assms by simp
  have "chain_walk source ?t ?entries 0 1 0 0 = Some (16, 0)"
    using ml assms by (subst chain_walk.simps, subst chain_walk.simps) (simp add: nHash_def Let_def)
  then have "find_best source ?t ?heads ?entries (N - 1) 0 = Some (16, 0)"
    using assms idx by (simp add: find_best_def nHash_def subslice_def idx_def)
  then have "emit_loop source ?t ?heads ?entries (N - 1) 0 [] buf = Some (emit_copy buf 16 0)" for buf
    using assms by (subst emit_loop.simps, subst emit_loop.simps) (simp add: nHash_def flushInsert_def)
  with table assms show ?thesis by (simp add: Create_def emitMatches_def)
qed
definition v1 :: bytes where "v1 = ''root''"
definition v2 :: bytes where "v2 = ''abcdefgh''"
definition d2 :: bytes where "d2 = ''8'' @ [NL] @ ''8:abcdefgh36nCgC;''"
definition v3 :: bytes where "v3 = ''8'' @ [NL] @ ''8:abcdefgh36nC''"
definition d3 :: bytes where "d3 = ''G'' @ [NL] @ ''G@0,n2N59;''"

lemma d2_created: "Create v1 v2 = Some d2"
  unfolding v1_def v2_def d2_def by code_simp

lemma d3_created: "Create d2 v3 = Some d3"
proof -
  have "take 16 d2 = v3" by (simp add: d2_def v3_def)
  moreover have "appendInt (emit_copy (appendInt [] 16 @ [NL]) 16 0) (ucast (Checksum v3)) @ '';'' = d3"
    unfolding v3_def d3_def by code_simp
  ultimately show ?thesis using Create_prefix [of d2] by (simp add: d2_def)
qed

lemma d3_misapplied: "Apply v2 d3 \<noteq> Ok v3"
proof
  assume "Apply v2 d3 = Ok v3"
  from Apply_confined [OF this] show False by (auto simp: v2_def v3_def d3_def)
qed

lemmas sample_texts = v1_def v2_def d2_def v3_def d3_def

text \<open>
  \<open>StoreDelta\<close> against a row that is itself a delta reports success and stores content
  that can no longer be obtained: the delta is made from the stored bytes of the source row
  (its own delta), while \<open>Expand\<close> applies it to the expanded source.  Storing three
  versions, each as a delta of the one before, leaves the third unreadable.
\<close>

theorem StoreDelta_on_delta_unreadable:
  "\<exists>q1 r1 q2 r2 q3 r3.
     Store sample_sha1 sample_deflate sample_inflate False empty_repo v1 = (q1, Ok (r1, sample_sha1 v1)) \<and>
     StoreDelta sample_sha1 sample_deflate sample_inflate False False q1 v2 r1 = Some (q2, Ok (r2, sample_sha1 v2)) \<and>
     StoreDelta sample_sha1 sample_deflate sample_inflate False False q2 v3 r2 = Some (q3, Ok (r3, sample_sha1 v3)) \<and>
     Expand sample_inflate (\<lambda>_. False) False q2 r2 = Ok v2 \<and>
     Expand sample_inflate (\<lambda>_. False) False q3 r3 \<noteq> Ok v3"
proof -
  have small: "length s \<le> max_alloc" "length s < 2 ^ 32" if "length s < 100" for s :: bytes
    using that by (simp_all add: max_alloc_def)
  have wf0: "wf_repo empty_repo" by (simp add: wf_repo_def empty_repo_def)
  have fresh1: "blob_by_uuid empty_repo (sample_sha1 v1) = None" by (simp add: blob_by_uuid_def empty_repo_def)
  obtain q0 where ins: "insert_blob empty_repo (sample_sha1 v1) (int (length v1)) (Some (Compress sample_deflate v1)) 1
      = Ok (q0, next_rid empty_repo)"
    using insert_blob_fresh [OF _ fresh1] sample_names by (metis order_refl sha1_names_def)
  define q1 where "q1 = mark_unclustered q0 (next_rid empty_repo)"
  have st1: "Store sample_sha1 sample_deflate sample_inflate False empty_repo v1 = (q1, Ok (1, sample_sha1 v1))"
    and load1: "Load sample_inflate False q1 1 = Ok v1"
    using Store_fresh [OF sample_zlib sample_names _ _ fresh1 ins] Load_cong [of q1 1 q0]
    by (simp_all add: q1_def v1_def next_rid_def empty_repo_def)
  have other1: "blob_by_uuid q1 u = None" if "u \<noteq> sample_sha1 v1" for u
    using insert_blob_Ok(8) [OF ins that] by (simp add: q1_def blob_by_uuid_def empty_repo_def)
  have wf1: "wf_repo q1" and src1: "delta_src q1 1 = None"
    using insert_blob_wf(1) [OF wf0 ins] insert_blob_Ok(7) [OF ins]
    by (simp_all add: q1_def delta_src_def empty_repo_def) (metis repo.select_convs(2) repo.update_convs(1) map_of.simps(1))
  have sha: "sample_sha1 v2 \<noteq> sample_sha1 v1" "sample_sha1 v3 \<noteq> sample_sha1 v1" "sample_sha1 v3 \<noteq> sample_sha1 v2"
    by (simp_all add: sample_sha1_def sample_texts)
  have lens: "length v1 < 100" "length v2 < 100" "length d2 < 100" "length v3 < 100" "length d3 < 100"
    by (simp_all add: sample_texts)
  have readable: "readable_delta sample_deflate d2 v2" "readable_delta sample_deflate d3 v3"
    by (simp_all add: readable_delta_def Compress_def sample_deflate_def sample_texts)
  have ne: "v2 \<noteq> []" "v3 \<noteq> []" by (simp_all add: sample_texts)
  have "(0::int) < 1" by simp
  from StoreDelta_Ok [OF sample_zlib sample_names wf1 ne(1) this other1 [OF sha(1)] load1 d2_created
      small(1) [OF lens(1)] small(1) [OF lens(2)] small(2) [OF lens(3)] readable(1)]
  obtain q2 where st2: "StoreDelta sample_sha1 sample_deflate sample_inflate False False q1 v2 1 = Some (q2, Ok (next_rid q1, sample_sha1 v2))"
    and wf2: "wf_repo q2" and load2: "Load sample_inflate False q2 (next_rid q1) = Ok d2" "delta_src q2 (next_rid q1) = Some 1"
    and frame2: "\<And>x. x \<noteq> next_rid q1 \<Longrightarrow> blob_by_rid q2 x = blob_by_rid q1 x \<and> delta_src q2 x = delta_src q1 x"
    and other2: "\<And>u. u \<noteq> sample_sha1 v2 \<Longrightarrow> blob_by_uuid q2 u = blob_by_uuid q1 u"
    by metis
  have ex1: "expands sample_inflate q2 1 v1"
    using expands_frame [OF expands_root [OF src1 load1] blob_by_rid_next frame2] .
  have ex2: "expands sample_inflate q2 (next_rid q1) v2"
    using expands_delta [OF load2(2) ex1 load2(1)] Apply_Create [OF d2_created] lens small by (simp add: max_alloc_def)
  have fresh3: "blob_by_uuid q2 (sample_sha1 v3) = None" using other1 other2 sha by simp
  from StoreDelta_Ok [OF sample_zlib sample_names wf2 ne(2) next_rid_pos fresh3 load2(1) d3_created
      small(1) [OF lens(3)] small(1) [OF lens(4)] small(2) [OF lens(5)] readable(2)]
  obtain q3 where st3: "StoreDelta sample_sha1 sample_deflate sample_inflate False False q2 v3 (next_rid q1) = Some (q3, Ok (next_rid q2, sample_sha1 v3))"
    and load3: "Load sample_inflate False q3 (next_rid q2) = Ok d3" "delta_src q3 (next_rid q2) = Some (next_rid q1)"
    and frame3: "\<And>x. x \<noteq> next_rid q2 \<Longrightarrow> blob_by_rid q3 x = blob_by_rid q2 x \<and> delta_src q3 x = delta_src q2 x"
    by metis
  have ex3: "expands sample_inflate q3 (next_rid q1) v2" using expands_frame [OF ex2 blob_by_rid_next frame3] .
  have "\<not> expands sample_inflate q3 (next_rid q2) v3"
  proof
    assume "expands sample_inflate q3 (next_rid q2) v3"
    then show False
      using load3 d3_misapplied by (cases rule: expands.cases) (auto dest: expands_fun [OF ex3])
  qed
  with st1 st2 st3 ex2 Expand_eq_expands [OF next_rid_pos] show ?thesis by blast
qed

end
