(* ===== verification/Content_Cache.thy ===== *)
theory Content_Cache
  imports Content
begin

text \<open>
  The LRU cache of expanded content (\<open>internal/content/cache.go\<close>).  \<open>order\<close> is the list of
  entries, most recently used first; \<open>items\<close> is the set of cached rows, an element pointer
  being the entry of \<open>order\<close> with that row.  \<open>Cache.Expand\<close> releases the lock while it
  expands, so it is modelled by its two critical sections, \<open>cache_lookup\<close> and \<open>cache_add\<close>,
  between which other goroutines may run.  Byte slices are copied on the way in and out, so
  the cached data is not aliased.
\<close>

section \<open>Operations\<close>

record cacheEntry =
  ce_rid :: rid
  ce_data :: bytes

record Cache =
  c_items :: "rid list"
  c_order :: "cacheEntry list"
  c_curSize :: int
  c_maxSize :: int
  c_hits :: int
  c_misses :: int

record CacheStats =
  cs_Hits :: int
  cs_Misses :: int
  cs_Size :: int
  cs_MaxSize :: int
  cs_Entries :: nat

definition NewCache :: "int \<Rightarrow> (unit, Cache) outcome" where
  "NewCache maxBytes =
     (if maxBytes \<le> 0 then Panic ''content.NewCache: maxBytes must be > 0''
      else Ok \<lparr>c_items = [], c_order = [], c_curSize = 0, c_maxSize = maxBytes, c_hits = 0, c_misses = 0\<rparr>)"

definition elem_of :: "Cache \<Rightarrow> rid \<Rightarrow> cacheEntry option" where
  "elem_of c r = (if r \<in> set (c_items c) then find (\<lambda>e. ce_rid e = r) (c_order c) else None)"

definition MoveToFront :: "cacheEntry list \<Rightarrow> cacheEntry \<Rightarrow> cacheEntry list" where
  "MoveToFront es e = e # filter (\<lambda>x. ce_rid x \<noteq> ce_rid e) es"

text \<open>First critical section: the cached data on a hit.\<close>

definition cache_lookup :: "Cache \<Rightarrow> rid \<Rightarrow> Cache \<times> bytes option" where
  "cache_lookup c r =
     (case elem_of c r of
        Some e \<Rightarrow> (c\<lparr>c_order := MoveToFront (c_order c) e, c_hits := c_hits c + 1\<rparr>, Some (ce_data e))
      | None \<Rightarrow> (c\<lparr>c_misses := c_misses c + 1\<rparr>, None))"

definition evictOldest :: "Cache \<Rightarrow> Cache" where
  "evictOldest c =
     (if c_order c = [] then c
      else let e = last (c_order c) in
        c\<lparr>c_order := butlast (c_order c), c_items := filter ((\<noteq>) (ce_rid e)) (c_items c),
          c_curSize := c_curSize c - int (length (ce_data e))\<rparr>)"

function evict_loop :: "Cache \<Rightarrow> Cache" where
  "evict_loop c =
     (if c_curSize c > c_maxSize c \<and> length (c_order c) > 0 then evict_loop (evictOldest c) else c)"
  by pat_completeness auto
termination
  by (relation "measure (\<lambda>c. length (c_order c))") (auto simp: evictOldest_def Let_def)

declare evict_loop.simps [simp del]

text \<open>Second critical section: another goroutine may have cached the row in the meantime.\<close>

definition cache_add :: "Cache \<Rightarrow> rid \<Rightarrow> bytes \<Rightarrow> Cache" where
  "cache_add c r data =
     (case elem_of c r of
        Some e \<Rightarrow> c\<lparr>c_order := MoveToFront (c_order c) e\<rparr>
      | None \<Rightarrow> evict_loop (c\<lparr>c_order := \<lparr>ce_rid = r, ce_data = data\<rparr> # c_order c,
                              c_items := r # c_items c, c_curSize := c_curSize c + int (length data)\<rparr>))"

text \<open>
  \<open>Cache.Expand\<close> without interference, for a nil receiver too; \<open>expand\<close> is the package
  level \<open>Expand\<close> on the repository at hand.
\<close>

definition Cache_Expand ::
  "(rid \<Rightarrow> ('e, bytes) outcome) \<Rightarrow> Cache option \<Rightarrow> rid \<Rightarrow> Cache option \<times> ('e, bytes) outcome" where
  "Cache_Expand expand co r =
     (case co of None \<Rightarrow> (None, expand r)
      | Some c \<Rightarrow>
          (case cache_lookup c r of
             (c', Some data) \<Rightarrow> (Some c', Ok data)
           | (c', None) \<Rightarrow>
               (case expand r of
                  Ok data \<Rightarrow> (Some (cache_add c' r data), Ok data)
                | Err e \<Rightarrow> (Some c', Err e)
                | Panic s \<Rightarrow> (Some c', Panic s))))"

definition Invalidate :: "Cache \<Rightarrow> rid \<Rightarrow> Cache" where
  "Invalidate c r =
     (case elem_of c r of
        None \<Rightarrow> c
      | Some e \<Rightarrow> c\<lparr>c_curSize := c_curSize c - int (length (ce_data e)),
                     c_order := filter (\<lambda>x. ce_rid x \<noteq> r) (c_order c),
                     c_items := filter ((\<noteq>) r) (c_items c)\<rparr>)"

definition Clear :: "Cache \<Rightarrow> Cache" where
  "Clear c = c\<lparr>c_items := [], c_order := [], c_curSize := 0\<rparr>"

definition Stats :: "Cache option \<Rightarrow> CacheStats" where
  "Stats co = (case co of
      None \<Rightarrow> \<lparr>cs_Hits = 0, cs_Misses = 0, cs_Size = 0, cs_MaxSize = 0, cs_Entries = 0\<rparr>
    | Some c \<Rightarrow> \<lparr>cs_Hits = c_hits c, cs_Misses = c_misses c, cs_Size = c_curSize c,
                 cs_MaxSize = c_maxSize c, cs_Entries = length (c_order c)\<rparr>)"

section \<open>The invariant\<close>

definition bytes_of :: "cacheEntry list \<Rightarrow> int" where
  "bytes_of es = sum_list (map (\<lambda>e. int (length (ce_data e))) es)"

text \<open>
  Structure (one entry per cached row), accounting (\<open>curSize\<close> is the number of cached
  bytes), bound, and content (each entry holds what expanding its row gives).
\<close>

definition cache_ok :: "(rid \<Rightarrow> ('e, bytes) outcome) \<Rightarrow> Cache \<Rightarrow> bool" where
  "cache_ok expand c \<longleftrightarrow>
     distinct (map ce_rid (c_order c)) \<and> set (c_items c) = ce_rid ` set (c_order c) \<and>
     c_curSize c = bytes_of (c_order c) \<and> c_curSize c \<le> c_maxSize c \<and>
     (\<forall>e \<in> set (c_order c). expand (ce_rid e) = Ok (ce_data e))"

definition cache_ok_but_size :: "(rid \<Rightarrow> ('e, bytes) outcome) \<Rightarrow> Cache \<Rightarrow> bool" where
  "cache_ok_but_size expand c \<longleftrightarrow>
     distinct (map ce_rid (c_order c)) \<and> set (c_items c) = ce_rid ` set (c_order c) \<and>
     c_curSize c = bytes_of (c_order c) \<and> c_maxSize c \<ge> 0 \<and>
     (\<forall>e \<in> set (c_order c). expand (ce_rid e) = Ok (ce_data e))"

lemma bytes_of_simps [simp]:
  "bytes_of [] = 0" "bytes_of (e # es) = int (length (ce_data e)) + bytes_of es"
  "bytes_of (xs @ ys) = bytes_of xs + bytes_of ys"
  by (simp_all add: bytes_of_def)

lemma bytes_of_nonneg: "bytes_of es \<ge> 0"
  by (induction es) simp_all

lemma cache_ok_weaken: "cache_ok expand c \<Longrightarrow> cache_ok_but_size expand c"
  using bytes_of_nonneg [of "c_order c"] by (simp add: cache_ok_def cache_ok_but_size_def)

lemma elem_of_ok:
  assumes "cache_ok_but_size expand c"
  shows "elem_of c r = None \<longleftrightarrow> r \<notin> ce_rid ` set (c_order c)"
    and "elem_of c r = Some e \<Longrightarrow> e \<in> set (c_order c) \<and> ce_rid e = r"
  using assms by (auto simp: elem_of_def cache_ok_but_size_def find_None_iff find_Some_iff split: if_splits)

lemma filter_rid_size:
  "distinct (map ce_rid es) \<Longrightarrow> e \<in> set es \<Longrightarrow>
   bytes_of (filter (\<lambda>x. ce_rid x \<noteq> ce_rid e) es) = bytes_of es - int (length (ce_data e))"
proof (induction es)
  case (Cons a es)
  show ?case
  proof (cases "a = e")
    case True
    with Cons.prems have "filter (\<lambda>x. ce_rid x \<noteq> ce_rid e) es = es"
      by (simp add: filter_id_conv image_iff) metis
    with True show ?thesis by simp
  next
    case False
    with Cons have "ce_rid a \<noteq> ce_rid e" by auto
    with False Cons show ?thesis by simp
  qed
qed simp

lemma distinct_rid_filter: "distinct (map ce_rid es) \<Longrightarrow> distinct (map ce_rid (filter P es))"
  by (induction es) auto

lemma MoveToFront_ok:
  assumes "cache_ok expand c" "e \<in> set (c_order c)"
  shows "cache_ok expand (c\<lparr>c_order := MoveToFront (c_order c) e\<rparr>)"
  using assms
  by (auto simp: cache_ok_def MoveToFront_def distinct_rid_filter filter_rid_size)

lemma evictOldest_ok:
  assumes "cache_ok_but_size expand c"
  shows "cache_ok_but_size expand (evictOldest c)"
proof (cases "c_order c" rule: rev_cases)
  case Nil
  with assms show ?thesis by (simp add: evictOldest_def)
next
  case (snoc es e)
  then have "ce_rid e \<notin> ce_rid ` set es" using assms by (auto simp: cache_ok_but_size_def)
  with assms snoc show ?thesis by (auto simp: cache_ok_but_size_def evictOldest_def Let_def)
qed

lemma evict_loop_ok: "cache_ok_but_size expand c \<Longrightarrow> cache_ok expand (evict_loop c)"
proof (induction c rule: evict_loop.induct)
  case (1 c)
  show ?case
  proof (cases "c_curSize c > c_maxSize c \<and> length (c_order c) > 0")
    case True
    with 1 evictOldest_ok [OF "1.prems"] show ?thesis by (subst evict_loop.simps) simp
  next
    case False
    with "1.prems" show ?thesis
      by (subst evict_loop.simps) (auto simp: cache_ok_but_size_def cache_ok_def)
  qed
qed

lemma cache_lookup_ok:
  assumes "cache_ok expand c"
  shows "cache_ok expand (fst (cache_lookup c r))"
    and "snd (cache_lookup c r) = Some data \<Longrightarrow> expand r = Ok data"
proof -
  note el = elem_of_ok [OF cache_ok_weaken [OF assms]]
  show "cache_ok expand (fst (cache_lookup c r))"
  proof (cases "elem_of c r")
    case None
    with assms show ?thesis by (simp add: cache_lookup_def cache_ok_def)
  next
    case (Some e)
    with MoveToFront_ok [OF assms, of e] el(2) [OF Some] show ?thesis
      by (simp add: cache_lookup_def cache_ok_def)
  qed
  show "snd (cache_lookup c r) = Some data \<Longrightarrow> expand r = Ok data"
    using assms el(2) by (auto simp: cache_lookup_def cache_ok_def split: option.splits)
qed

lemma cache_add_ok:
  assumes "cache_ok expand c" "expand r = Ok data"
  shows "cache_ok expand (cache_add c r data)"
proof (cases "elem_of c r")
  case None
  note weak = cache_ok_weaken [OF assms(1)]
  from None have "r \<notin> ce_rid ` set (c_order c)" using elem_of_ok(1) [OF weak] by simp
  with weak assms(2)
  have "cache_ok_but_size expand (c\<lparr>c_order := \<lparr>ce_rid = r, ce_data = data\<rparr> # c_order c,
      c_items := r # c_items c, c_curSize := c_curSize c + int (length data)\<rparr>)"
    by (auto simp: cache_ok_but_size_def)
  from evict_loop_ok [OF this] None show ?thesis by (simp add: cache_add_def)
next
  case (Some e)
  with MoveToFront_ok [OF assms(1)] elem_of_ok(2) [OF cache_ok_weaken [OF assms(1)]] show ?thesis
    by (simp add: cache_add_def)
qed

lemma Invalidate_ok:
  assumes "cache_ok expand c"
  shows "cache_ok expand (Invalidate c r)"
proof (cases "elem_of c r")
  case (Some e)
  then have e: "e \<in> set (c_order c)" "ce_rid e = r"
    using elem_of_ok(2) [OF cache_ok_weaken [OF assms]] by auto
  from filter_rid_size [OF _ e(1)] assms e Some show ?thesis
    by (auto simp: Invalidate_def cache_ok_def distinct_rid_filter)
qed (use assms in \<open>simp add: Invalidate_def\<close>)

lemma Clear_ok: "cache_ok expand c \<Longrightarrow> cache_ok expand (Clear c)"
  using bytes_of_nonneg [of "c_order c"] by (auto simp: Clear_def cache_ok_def)

section \<open>Goroutines\<close>

text \<open>
  Any number of goroutines share the cache.  A configuration holds the cache, the rows that
  some goroutine is expanding after a miss, and the results returned so far.
\<close>

record 'e cache_config =
  cc_cache :: Cache
  cc_expanding :: "rid list"
  cc_returned :: "(rid \<times> ('e, bytes) outcome) list"

inductive cache_step :: "(rid \<Rightarrow> ('e, bytes) outcome) \<Rightarrow> 'e cache_config \<Rightarrow> 'e cache_config \<Rightarrow> bool"
  for expand :: "rid \<Rightarrow> ('e, bytes) outcome" where
  step_hit: "cache_lookup (cc_cache s) r = (c', Some data) \<Longrightarrow>
     cache_step expand s (s\<lparr>cc_cache := c', cc_returned := (r, Ok data) # cc_returned s\<rparr>)"
| step_miss: "cache_lookup (cc_cache s) r = (c', None) \<Longrightarrow>
     cache_step expand s (s\<lparr>cc_cache := c', cc_expanding := r # cc_expanding s\<rparr>)"
| step_add: "r \<in> set (cc_expanding s) \<Longrightarrow> expand r = Ok data \<Longrightarrow>
     cache_step expand s (s\<lparr>cc_cache := cache_add (cc_cache s) r data,
       cc_expanding := remove1 r (cc_expanding s), cc_returned := (r, Ok data) # cc_returned s\<rparr>)"
| step_fail: "r \<in> set (cc_expanding s) \<Longrightarrow> \<not> is_ok (expand r) \<Longrightarrow>
     cache_step expand s (s\<lparr>cc_expanding := remove1 r (cc_expanding s),
       cc_returned := (r, expand r) # cc_returned s\<rparr>)"
| step_invalidate: "cache_step expand s (s\<lparr>cc_cache := Invalidate (cc_cache s) r\<rparr>)"
| step_clear: "cache_step expand s (s\<lparr>cc_cache := Clear (cc_cache s)\<rparr>)"

inductive_cases cache_stepE: "cache_step expand s t"

definition config_ok :: "(rid \<Rightarrow> ('e, bytes) outcome) \<Rightarrow> 'e cache_config \<Rightarrow> bool" where
  "config_ok expand s \<longleftrightarrow>
     cache_ok expand (cc_cache s) \<and> (\<forall>(r, res) \<in> set (cc_returned s). res = expand r)"

lemma cache_step_ok:
  assumes "cache_step expand s t" "config_ok expand s"
  shows "config_ok expand t"
  using assms
proof (cases rule: cache_step.cases)
  case (step_hit r c' data)
  with cache_lookup_ok [of expand "cc_cache s" r] assms(2) show ?thesis by (auto simp: config_ok_def)
next
  case (step_miss r c')
  with cache_lookup_ok(1) [of expand "cc_cache s" r] assms(2) show ?thesis by (auto simp: config_ok_def)
next
  case (step_add r data)
  with assms(2) show ?thesis by (auto simp: config_ok_def cache_add_ok)
qed (auto simp: config_ok_def Invalidate_ok Clear_ok)

lemma cache_steps_ok: "(cache_step expand)\<^sup>*\<^sup>* s t \<Longrightarrow> config_ok expand s \<Longrightarrow> config_ok expand t"
  by (induction rule: rtranclp_induct) (auto dest: cache_step_ok)

lemma cache_steps_maxSize: "(cache_step expand)\<^sup>*\<^sup>* s t \<Longrightarrow> c_maxSize (cc_cache t) = c_maxSize (cc_cache s)"
proof (induction rule: rtranclp_induct)
  case (step t u)
  have "c_maxSize (evict_loop c) = c_maxSize c" for c
  proof (induction c rule: evict_loop.induct)
    case (1 c)
    then show ?case by (subst evict_loop.simps) (simp add: evictOldest_def Let_def)
  qed
  then have "c_maxSize (cache_add c r d) = c_maxSize c" "c_maxSize (fst (cache_lookup c r)) = c_maxSize c" for c r d
    by (simp_all add: cache_add_def cache_lookup_def split: option.split)
  with step(2) have "c_maxSize (cc_cache u) = c_maxSize (cc_cache t)"
    by (auto elim!: cache_stepE simp: Invalidate_def Clear_def split: option.splits) (metis fst_conv)+
  with step.IH show ?case by simp
qed simp

text \<open>
  Claim C10.  However goroutines interleave their uses of a fresh cache (lookups, insertions after
  unlocked expansions, invalidations, clearing), every result handed out is exactly what
  expanding the row gives, the cache never holds more than \<open>maxBytes\<close> bytes, and its size
  counter is the number of bytes it holds.
\<close>

theorem cache_transparent:
  assumes "NewCache maxBytes = Ok c0"
    and "(cache_step expand)\<^sup>*\<^sup>* \<lparr>cc_cache = c0, cc_expanding = [], cc_returned = []\<rparr> s"
  shows "(\<forall>(r, res) \<in> set (cc_returned s). res = expand r) \<and>
         c_curSize (cc_cache s) = bytes_of (c_order (cc_cache s)) \<and>
         bytes_of (c_order (cc_cache s)) \<le> maxBytes"
proof -
  have c0: "c_maxSize c0 = maxBytes" "config_ok expand \<lparr>cc_cache = c0, cc_expanding = [], cc_returned = []\<rparr>"
    using assms(1) by (auto simp: NewCache_def config_ok_def cache_ok_def split: if_splits)
  from cache_steps_ok [OF assms(2) c0(2)] cache_steps_maxSize [OF assms(2)] c0(1) show ?thesis
    by (auto simp: config_ok_def cache_ok_def)
qed

theorem cache_transparent_witness:
  "\<exists>c0 s. NewCache 3 = Ok c0 \<and>
     (cache_step (\<lambda>r. if r = 1 then Ok ''abc'' else Err ()))\<^sup>*\<^sup>*
        \<lparr>cc_cache = c0, cc_expanding = [], cc_returned = []\<rparr> s \<and> cc_returned s = [(1, Ok ''abc'')] \<and>
     bytes_of (c_order (cc_cache s)) \<le> 3"
proof -
  let ?ex = "\<lambda>r :: rid. if r = 1 then Ok ''abc'' else Err ()"
  obtain c0 where c0: "NewCache 3 = Ok c0" by (simp add: NewCache_def)
  let ?s0 = "\<lparr>cc_cache = c0, cc_expanding = [], cc_returned = []\<rparr> :: unit cache_config"
  have "c_items c0 = []" using c0 by (auto simp: NewCache_def)
  then obtain c1 where "cache_lookup c0 1 = (c1, None)" by (simp add: cache_lookup_def elem_of_def)
  then have "cache_step ?ex ?s0 (?s0\<lparr>cc_cache := c1, cc_expanding := [1]\<rparr>)"
    using step_miss [of ?s0 1 c1 ?ex] by simp
  moreover have "cache_step ?ex (?s0\<lparr>cc_cache := c1, cc_expanding := [1]\<rparr>)
      (?s0\<lparr>cc_cache := cache_add c1 1 ''abc'', cc_returned := [(1, Ok ''abc'')]\<rparr>)"
    using step_add [of 1 "?s0\<lparr>cc_cache := c1, cc_expanding := [1]\<rparr>" ?ex "''abc''"] by simp
  ultimately have run: "(cache_step ?ex)\<^sup>*\<^sup>* ?s0 (?s0\<lparr>cc_cache := cache_add c1 1 ''abc'', cc_returned := [(1, Ok ''abc'')]\<rparr>)"
    by auto
  from cache_transparent [OF c0 run] c0 run show ?thesis by auto
qed

text \<open>
  Without interference, \<open>Cache.Expand\<close> returns what \<open>Expand\<close> returns, errors included,
  for a cache in a good state or no cache at all, and leaves the cache in a good state.
\<close>

theorem Cache_Expand_correct:
  assumes "case co of None \<Rightarrow> True | Some c \<Rightarrow> cache_ok expand c"
  shows "snd (Cache_Expand expand co r) = expand r \<and>
         (case fst (Cache_Expand expand co r) of None \<Rightarrow> co = None | Some c' \<Rightarrow> cache_ok expand c')"
proof (cases co)
  case None
  then show ?thesis by (simp add: Cache_Expand_def)
next
  case (Some c)
  with assms have ok: "cache_ok expand c" by simp
  obtain c' d where lk: "cache_lookup c r = (c', d)" by (cases "cache_lookup c r")
  then have ok': "cache_ok expand c'" using cache_lookup_ok(1) [OF ok, of r] by simp
  show ?thesis
  proof (cases d)
    case None
    with Some lk ok' show ?thesis by (cases "expand r") (simp_all add: Cache_Expand_def cache_add_ok)
  next
    case (Some data)
    with \<open>co = Some c\<close> lk ok' cache_lookup_ok(2) [OF ok, of r data] show ?thesis
      by (simp add: Cache_Expand_def)
  qed
qed

theorem Cache_Expand_correct_witness:
  "snd (Cache_Expand (Expand sample_inflate (\<lambda>_. False) False empty_repo) None 1) =
     Expand sample_inflate (\<lambda>_. False) False empty_repo 1"
  using Cache_Expand_correct [of "Expand sample_inflate (\<lambda>_. False) False empty_repo" None 1] by simp

end
