(* ===== verification/Content_Cluster.thy ===== *)
theory Content_Cluster
  imports Blob Deck_Roundtrip
begin

text \<open>
  Cluster artifacts (\<open>internal/content/cluster.go\<close>): unclustered blobs are announced to peers
  through cluster artifacts that list their hashes on M cards.  MD5, SHA-1 and zlib are
  arguments; \<open>buggify\<close> says for which stored artifact the fault of \<open>Decompress\<close> is injected.
\<close>

definition ClusterThreshold :: nat where "ClusterThreshold = 100"
definition ClusterMaxSize :: nat where "ClusterMaxSize = 800"

definition clusterable :: "repo \<Rightarrow> rid \<Rightarrow> bytes \<Rightarrow> bool" where
  "clusterable q r uuid \<longleftrightarrow> r \<notin> set (t_phantom q) \<and> uuid \<notin> sh_uuid ` set (t_shun q) \<and> r \<notin> set (t_private q)"

text \<open>The join of \<open>unclustered\<close> with \<open>blob\<close>, filtered and ordered by uuid.\<close>

definition clusterableUUIDs :: "repo \<Rightarrow> bytes list" where
  "clusterableUUIDs q =
     sort (concat (map (\<lambda>r. map bl_uuid
       (filter (\<lambda>b. bl_rid b = r \<and> clusterable q r (bl_uuid b)) (t_blob q))) (t_unclustered q)))"

definition batch_size :: "nat \<Rightarrow> nat" where
  "batch_size n =
     (let b = (if ClusterMaxSize > n then n else ClusterMaxSize);
          remaining = n - b
      in if remaining > 0 \<and> remaining < ClusterThreshold then n else b)"

definition cluster_tag :: "rid \<Rightarrow> tagxref_row" where
  "cluster_tag r = \<lparr>tx_tagid = 7, tx_tagtype = 1, tx_srcid = r, tx_origid = r, tx_value = None,
                    tx_mtime = 0, tx_rid = r\<rparr>"

definition cluster_artifact :: "hasher \<Rightarrow> bytes list \<Rightarrow> bytes" where
  "cluster_artifact md5hex batch = Marshal md5hex (empty_deck\<lparr>dk_Type := Cluster, dk_M := batch\<rparr>)"

lemma batch_size_bounds: "n > 0 \<Longrightarrow> 0 < batch_size n \<and> batch_size n \<le> n"
  by (auto simp: batch_size_def ClusterMaxSize_def ClusterThreshold_def Let_def)

function build_loop_clusters ::
  "hasher \<Rightarrow> (bytes \<Rightarrow> bytes) \<Rightarrow> (bytes \<Rightarrow> bytes) \<Rightarrow> (bytes \<Rightarrow> bytes option) \<Rightarrow> (bytes \<Rightarrow> bool)
     \<Rightarrow> repo \<Rightarrow> bytes list \<Rightarrow> rid list \<Rightarrow> repo \<times> rid list \<times> (blob_error, unit) outcome" where
  "build_loop_clusters md5hex sha1 deflate inflate buggify q uuids clusterRIDs =
     (if length uuids > 0 then
        (let batchSize = batch_size (length uuids);
             batch = take batchSize uuids;
             data = cluster_artifact md5hex batch
         in case Store sha1 deflate inflate (buggify data) q data of
              (q1, Panic s) \<Rightarrow> (q1, clusterRIDs, Panic s)
            | (q1, Err e) \<Rightarrow> (q1, clusterRIDs, Err e)
            | (q1, Ok (r, u)) \<Rightarrow>
                build_loop_clusters md5hex sha1 deflate inflate buggify
                  (q1\<lparr>t_tagxref := replace_tagxref (cluster_tag r) (t_tagxref q1)\<rparr>)
                  (drop batchSize uuids) (clusterRIDs @ [r]))
      else (q, clusterRIDs, Ok ()))"
  by pat_completeness auto
termination
  by (relation "measure (\<lambda>(md5hex, sha1, deflate, inflate, buggify, q, uuids, rids). length uuids)")
    (auto simp: batch_size_bounds)

declare build_loop_clusters.simps [simp del]

definition buildClusters ::
  "hasher \<Rightarrow> (bytes \<Rightarrow> bytes) \<Rightarrow> (bytes \<Rightarrow> bytes) \<Rightarrow> (bytes \<Rightarrow> bytes option) \<Rightarrow> (bytes \<Rightarrow> bool)
     \<Rightarrow> repo \<Rightarrow> bytes list \<Rightarrow> repo \<times> rid list \<times> (blob_error, unit) outcome" where
  "buildClusters md5hex sha1 deflate inflate buggify q uuids =
     build_loop_clusters md5hex sha1 deflate inflate buggify q uuids []"

text \<open>
  The \<open>DELETE\<close> keeps the new clusters and the rows the clusters could not include; a row of
  \<open>unclustered\<close> without a blob has a NULL uuid, which is never shunned.
\<close>

definition cleanupUnclustered :: "repo \<Rightarrow> rid list \<Rightarrow> repo" where
  "cleanupUnclustered q clusterRIDs =
     (if length clusterRIDs = 0 then q
      else q\<lparr>t_unclustered := filter (\<lambda>r. r \<in> set clusterRIDs \<or>
        \<not> (r \<notin> set (t_phantom q) \<and>
            (case blob_by_rid q r of None \<Rightarrow> True | Some b \<Rightarrow> bl_uuid b \<notin> sh_uuid ` set (t_shun q)) \<and>
            r \<notin> set (t_private q))) (t_unclustered q)\<rparr>)"

text \<open>The number of clusters is returned with an error too.\<close>

definition GenerateClusters ::
  "hasher \<Rightarrow> (bytes \<Rightarrow> bytes) \<Rightarrow> (bytes \<Rightarrow> bytes) \<Rightarrow> (bytes \<Rightarrow> bytes option) \<Rightarrow> (bytes \<Rightarrow> bool)
     \<Rightarrow> repo \<Rightarrow> repo \<times> (nat \<times> blob_error, nat) outcome" where
  "GenerateClusters md5hex sha1 deflate inflate buggify q =
     (let uuids = clusterableUUIDs q in
      if length uuids < ClusterThreshold then (q, Ok 0)
      else case buildClusters md5hex sha1 deflate inflate buggify q uuids of
             (q1, rids, Panic s) \<Rightarrow> (q1, Panic s)
           | (q1, rids, Err e) \<Rightarrow> (q1, Err (length rids, e))
           | (q1, rids, Ok _) \<Rightarrow> (cleanupUnclustered q1 rids, Ok (length rids)))"

section \<open>Batches\<close>

text \<open>How the loop cuts the list, without the storage.\<close>

function batches :: "bytes list \<Rightarrow> bytes list list" where
  "batches uuids =
     (if length uuids > 0
      then take (batch_size (length uuids)) uuids # batches (drop (batch_size (length uuids)) uuids)
      else [])"
  by pat_completeness auto
termination
  by (relation "measure length") (auto simp: batch_size_bounds)

declare batches.simps [simp del]

lemma batches_Nil [simp]: "batches [] = []"
  by (simp add: batches.simps)

lemma batches_concat: "concat (batches uuids) = uuids"
  by (induction uuids rule: batches.induct) (subst batches.simps, simp)

lemma batch_size_range:
  assumes "n \<ge> ClusterThreshold"
  shows "ClusterThreshold \<le> batch_size n \<and> batch_size n < ClusterMaxSize + ClusterThreshold \<and>
         (n - batch_size n = 0 \<or> n - batch_size n \<ge> ClusterThreshold)"
  using assms by (auto simp: batch_size_def ClusterMaxSize_def ClusterThreshold_def Let_def)

lemma batches_range:
  assumes "length uuids \<ge> ClusterThreshold"
  shows "list_all (\<lambda>b. ClusterThreshold \<le> length b \<and> length b < ClusterMaxSize + ClusterThreshold) (batches uuids)"
  using assms
proof (induction uuids rule: batches.induct)
  case (1 uuids)
  let ?n = "batch_size (length uuids)"
  note range = batch_size_range [OF "1.prems"]
  have ne: "length uuids > 0" using "1.prems" by (auto simp: ClusterThreshold_def)
  have "list_all (\<lambda>b. ClusterThreshold \<le> length b \<and> length b < ClusterMaxSize + ClusterThreshold)
      (batches (drop ?n uuids))"
  proof (cases "length uuids - ?n = 0")
    case True
    then show ?thesis by (subst batches.simps) simp
  next
    case False
    with range "1.IH" [OF ne] show ?thesis by simp
  qed
  moreover have "length (take ?n uuids) = ?n" using batch_size_bounds [OF ne] by simp
  ultimately show ?case using range ne by (subst batches.simps) simp
qed

section \<open>Storing the clusters\<close>

lemma cluster_artifact_ne: "cluster_artifact md5hex batch \<noteq> []"
  by (simp add: cluster_artifact_def Marshal_def Let_def card_line_def)

definition stored_under :: "repo \<Rightarrow> bytes \<Rightarrow> rid \<Rightarrow> bool" where
  "stored_under q uuid r \<longleftrightarrow> map_option bl_rid (blob_by_uuid q uuid) = Some r"

definition same_filters :: "repo \<Rightarrow> repo \<Rightarrow> bool" where
  "same_filters q q' \<longleftrightarrow> t_phantom q' = t_phantom q \<and> t_shun q' = t_shun q \<and> t_private q' = t_private q \<and>
     (\<forall>r b. blob_by_rid q r = Some b \<longrightarrow> blob_by_rid q' r = Some b)"

text \<open>A successful run has stored one artifact per batch and only added clusters to \<open>unclustered\<close>.\<close>

lemma build_loop_clusters_Ok:
  assumes "build_loop_clusters md5hex sha1 deflate inflate buggify q uuids rids = (q', rids', Ok ())"
  shows "\<exists>new. rids' = rids @ new \<and>
    list_all2 (\<lambda>b r. stored_under q' (sha1 (cluster_artifact md5hex b)) r) (batches uuids) new \<and>
    set (t_unclustered q') \<subseteq> set (t_unclustered q) \<union> set new \<and> same_filters q q' \<and>
    (\<forall>u r. stored_under q u r \<longrightarrow> stored_under q' u r)"
  using assms
proof (induction md5hex sha1 deflate inflate buggify q uuids rids rule: build_loop_clusters.induct)
  case (1 md5hex sha1 deflate inflate buggify q uuids rids)
  show ?case
  proof (cases "length uuids > 0")
    case False
    with "1.prems" show ?thesis
      by (simp add: build_loop_clusters.simps [of _ _ _ _ _ _ uuids] batches.simps [of uuids] same_filters_def)
  next
    case True
    let ?n = "batch_size (length uuids)" and ?b = "take (batch_size (length uuids)) uuids"
    let ?data = "cluster_artifact md5hex ?b"
    obtain q1 res where st: "Store sha1 deflate inflate (buggify ?data) q ?data = (q1, res)"
      by (cases "Store sha1 deflate inflate (buggify ?data) q ?data")
    with "1.prems" True obtain r u where res: "res = Ok (r, u)"
      by (auto simp: build_loop_clusters.simps [of _ _ _ _ _ _ uuids] Let_def split: outcome.splits)
    let ?q2 = "q1\<lparr>t_tagxref := replace_tagxref (cluster_tag r) (t_tagxref q1)\<rparr>"
    have rec: "build_loop_clusters md5hex sha1 deflate inflate buggify ?q2 (drop ?n uuids) (rids @ [r]) = (q', rids', Ok ())"
      using "1.prems" True st res by (simp add: build_loop_clusters.simps [of _ _ _ _ _ _ uuids] Let_def)
    from "1.IH" [OF True refl refl refl st [symmetric] res refl rec] obtain new where
      new: "rids' = (rids @ [r]) @ new"
        "list_all2 (\<lambda>b r. stored_under q' (sha1 (cluster_artifact md5hex b)) r) (batches (drop ?n uuids)) new"
        "set (t_unclustered q') \<subseteq> set (t_unclustered ?q2) \<union> set new" "same_filters ?q2 q'"
        "\<forall>u r. stored_under ?q2 u r \<longrightarrow> stored_under q' u r" by blast
    have q2: "blob_by_uuid ?q2 v = blob_by_uuid q1 v" "blob_by_rid ?q2 s = blob_by_rid q1 s" for v s
      by (simp_all add: blob_by_uuid_def blob_by_rid_def)
    note frame = Store_Ok_frame [OF st [unfolded res]]
    have "stored_under q' (sha1 ?data) r" using new(5) frame(1,2) by (simp add: stored_under_def q2)
    moreover have "\<forall>u r. stored_under q u r \<longrightarrow> stored_under q' u r"
      using new(5) frame(3) by (auto simp: stored_under_def q2)
    moreover have "same_filters q q'" using new(4) frame(6-9) by (simp add: same_filters_def q2)
    moreover have "set (t_unclustered q') \<subseteq> set (t_unclustered q) \<union> set (r # new)"
      using new(3) frame(5) by auto
    ultimately show ?thesis using new(1,2) True by (intro exI [of _ "r # new"]) (simp add: batches.simps [of uuids])
  qed
qed

section \<open>Properties\<close>

text \<open>
  Cutting a list of at least \<open>ClusterThreshold\<close> hashes into clusters loses, repeats and
  reorders nothing, no cluster is smaller than the threshold, and a cluster has fewer than
  \<open>ClusterMaxSize + ClusterThreshold\<close> hashes: the last one may exceed \<open>ClusterMaxSize\<close>.
\<close>

theorem batches_partition:
  assumes "length uuids \<ge> ClusterThreshold"
  shows "concat (batches uuids) = uuids \<and>
         list_all (\<lambda>b. ClusterThreshold \<le> length b \<and> length b < ClusterMaxSize + ClusterThreshold) (batches uuids)"
  using batches_concat batches_range [OF assms] by blast

theorem batches_partition_witness:
  "concat (batches (replicate 850 ''u'')) = replicate 850 ''u'' \<and>
   batches (replicate 850 ''u'') = [replicate 850 ''u'']"
proof -
  have "batch_size 850 = 850" by (simp add: batch_size_def ClusterMaxSize_def ClusterThreshold_def Let_def)
  then have "batches (replicate 850 ''u'') = [replicate 850 ''u'']" by (subst batches.simps) simp
  with batches_partition [of "replicate 850 ''u''"] show ?thesis by (simp add: ClusterThreshold_def)
qed

lemma cluster_artifact_parse:
  assumes "\<And>s. length (md5hex s) = 32" "list_all trimmed batch" "batch \<noteq> []"
  shows "\<exists>d. Parse md5hex (cluster_artifact md5hex batch) = Ok d \<and> set (dk_M d) = set batch \<and> dk_Type d = Cluster"
proof -
  let ?d = "empty_deck\<lparr>dk_Type := Cluster, dk_M := batch\<rparr>"
  have "TrimSpace [] = []" by code_simp
  then have "wf_deck ?d"
    using assms(2) by (simp add: wf_deck_def empty_deck_def trimmed_def D_ok_def zero_time_def
        encodable_time_def valid_time_def days_in_def)
  from Parse_Marshal [OF this assms(1)] assms(3) show ?thesis
    by (auto simp: cluster_artifact_def canonical_def inferType_def)
qed

lemma cleanupUnclustered_rows:
  assumes "r \<in> set (t_unclustered (cleanupUnclustered q rids))" "rids \<noteq> []"
    and "blob_by_rid q r = Some b"
  shows "r \<in> set rids \<or> \<not> clusterable q r (bl_uuid b)"
  using assms by (auto simp: cleanupUnclustered_def clusterable_def)


text \<open>A repository with 100 unclustered blobs.\<close>

definition uuid_of :: "nat \<Rightarrow> bytes" where
  "uuid_of i = replicate i CHR ''b'' @ replicate (140 - i) CHR ''a''"

definition row_of :: "nat \<Rightarrow> blob_row" where
  "row_of i = \<lparr>bl_rid = int i + 1, bl_rcvid = 1, bl_size = 0, bl_uuid = uuid_of i, bl_content = None\<rparr>"

definition hundred :: repo where
  "hundred = empty_repo\<lparr>t_blob := map row_of [0..<100], t_unclustered := map (\<lambda>i. int i + 1) [0..<100]\<rparr>"

lemma filter_row_of: "i < n \<Longrightarrow> filter (\<lambda>b. bl_rid b = int i + 1) (map row_of [0..<n]) = [row_of i]"
proof (induction n)
  case (Suc n)
  have "filter (\<lambda>b. bl_rid b = int i + 1) (map row_of [0..<n]) = []" if "\<not> i < n"
    using that by (auto simp: filter_empty_conv row_of_def)
  with Suc show ?case by (cases "i < n") (auto simp: row_of_def less_Suc_eq)
qed simp

lemma hundred_clusterable: "clusterableUUIDs hundred = sort (map uuid_of [0..<100])"
proof -
  have no_filter: "clusterable hundred r u" for r u
    by (simp add: clusterable_def hundred_def empty_repo_def)
  have "(\<lambda>i. map bl_uuid (filter (\<lambda>b. bl_rid b = int i + 1) (map row_of [0..<100]))) i = [uuid_of i]"
    if "i \<in> set [0..<100]" for i
    using that filter_row_of [of i 100] by (simp add: row_of_def)
  then have "concat (map (\<lambda>i. map bl_uuid (filter (\<lambda>b. bl_rid b = int i + 1) (map row_of [0..<100]))) [0..<100]) =
      concat (map (\<lambda>i. [uuid_of i]) [0..<100])"
    by (intro arg_cong [where f = concat] map_cong) (auto simp del: upt_rec_numeral)
  also have "\<dots> = map uuid_of [0..<100]" by (simp add: concat_map_singleton del: upt_rec_numeral)
  finally show ?thesis
    by (simp add: clusterableUUIDs_def no_filter del: upt_rec_numeral)
      (simp add: hundred_def comp_def del: upt_rec_numeral)
qed

lemma hundred_uuids:
  assumes "u \<in> set (clusterableUUIDs hundred)"
  shows "length u = 140" "set u \<subseteq> {CHR ''a'', CHR ''b''}" "trimmed u"
proof -
  from assms obtain i where i: "i < 100" "u = uuid_of i" by (auto simp: hundred_clusterable simp del: upt_rec_numeral)
  then show "length u = 140" and chars: "set u \<subseteq> {CHR ''a'', CHR ''b''}" by (auto simp: uuid_of_def)
  have "list_all ascii_graphic u"
    using chars by (auto simp: list_all_iff ascii_graphic_def ascii_space_def byte_val_def)
  then show "trimmed u"
    using TrimSpace_no_space [of u] ascii_no_space [of u] chars by (auto simp: trimmed_def)
qed

lemma hundred_artifact:
  fixes md5hex :: hasher
  assumes "\<And>s. length (md5hex s) = 32"
  shows "\<exists>s. cluster_artifact md5hex (clusterableUUIDs hundred) = CHR ''M'' # s \<and> length s < 2 ^ 31"
proof -
  let ?us = "clusterableUUIDs hundred"
  have len: "length ?us = 100" by (simp add: hundred_clusterable)
  have body: "cluster_artifact md5hex ?us = marshal_M ?us @ card_line CHR ''Z'' (md5hex (marshal_M ?us))"
    by (simp add: cluster_artifact_def Marshal_def marshalCards_def empty_deck_def marshal_A_def opt_line_def
        marshal_D_def marshal_E_def marshal_F_def marshal_J_def marshal_P_def marshal_Q_def marshal_T_def
        marshal_W_def computeZ_def Let_def)
  have "map (length \<circ> card_line CHR ''M'') (sort ?us) = map (\<lambda>_. 143) (sort ?us)"
    using hundred_uuids(1) by (intro map_cong) (auto simp: card_line_def)
  then have "length (marshal_M ?us) = 14300"
    using len by (simp add: marshal_M_def length_concat map_replicate_const sum_list_replicate)
  moreover have "length (sort ?us) = 100" using len by simp
  then obtain u us where "sort ?us = u # us" by (cases "sort ?us") simp_all
  then have "\<exists>s. marshal_M ?us = CHR ''M'' # s" by (simp add: marshal_M_def card_line_def)
  ultimately show ?thesis by (auto simp: body card_line_def assms)
qed


end
