(* ===== verification/Merge_Diff.thy ===== *)
theory Merge_Diff
  imports Go_Strings "HOL-Library.Sublist"
begin

text \<open>
  Line differences for the three-way merge (\<open>internal/merge/threeway.go\<close>): splitting text into
  lines, the longest common subsequence by dynamic programming, and the hunks that turn one
  list of lines into another.
\<close>

section \<open>Lines\<close>

text \<open>\<open>strings.SplitAfter(s, "\n")\<close>\<close>

function SplitAfter :: "bytes \<Rightarrow> bytes list" where
  "SplitAfter s = (case cut NL s of None \<Rightarrow> [s] | Some (a, b) \<Rightarrow> (a @ [NL]) # SplitAfter b)"
  by pat_completeness auto
termination
  by (relation "measure length") (auto dest: length_cut)

declare SplitAfter.simps [simp del]

definition splitLines :: "bytes \<Rightarrow> bytes list" where
  "splitLines data =
     (if length data = 0 then []
      else let lines = SplitAfter data in if last lines = [] then butlast lines else lines)"

lemma cut_Some: "cut sep s = Some (a, b) \<Longrightarrow> s = a @ sep # b \<and> sep \<notin> set a"
  by (induction s arbitrary: a) (auto split: if_splits)

lemma cut_eq_None: "cut sep s = None \<longleftrightarrow> sep \<notin> set s"
  by (induction s) auto

lemma SplitAfter_ne: "SplitAfter s \<noteq> []"
  by (subst SplitAfter.simps) (simp split: option.split)

lemma SplitAfter_concat: "concat (SplitAfter s) = s"
proof (induction s rule: SplitAfter.induct)
  case (1 s)
  then show ?case by (subst SplitAfter.simps) (auto split: option.split dest: cut_Some)
qed

definition is_line :: "bytes \<Rightarrow> bool" where
  "is_line l \<longleftrightarrow> l \<noteq> [] \<and> NL \<notin> set (butlast l)"

lemma SplitAfter_lines: "\<forall>l \<in> set (butlast (SplitAfter s)). is_line l \<and> last l = NL"
proof (induction s rule: SplitAfter.induct)
  case (1 s)
  show ?case
  proof (cases "cut NL s")
    case (Some ab)
    then obtain a b where ab: "cut NL s = Some (a, b)" by (cases ab) auto
    with 1 cut_Some [OF ab] SplitAfter_ne [of b] show ?thesis
      by (subst SplitAfter.simps) (auto simp: is_line_def butlast_append)
  qed (subst SplitAfter.simps, simp)
qed

lemma SplitAfter_last: "NL \<notin> set (last (SplitAfter s))"
proof (induction s rule: SplitAfter.induct)
  case (1 s)
  then show ?case using SplitAfter_ne
    by (subst SplitAfter.simps) (auto simp: cut_eq_None split: option.split)
qed

lemma splitLines_concat: "concat (splitLines s) = s"
proof -
  have "concat (butlast (SplitAfter s)) @ last (SplitAfter s) = s"
    using SplitAfter_concat [of s] SplitAfter_ne [of s]
    by (metis append_butlast_last_id concat.simps(2) concat_append self_append_conv concat.simps(1))
  then show ?thesis using SplitAfter_concat [of s] by (auto simp: splitLines_def Let_def)
qed

lemma splitLines_lines: "list_all is_line (splitLines s)"
proof (cases "s = [] \<or> last (SplitAfter s) = []")
  case True
  then show ?thesis using SplitAfter_lines [of s] by (auto simp: splitLines_def Let_def list_all_iff)
next
  case False
  then have "is_line (last (SplitAfter s))"
    using SplitAfter_last [of s] by (auto simp: is_line_def dest: in_set_butlastD)
  with False SplitAfter_lines [of s] SplitAfter_ne [of s] show ?thesis
    by (auto simp: splitLines_def Let_def list_all_iff)
      (metis UnE append_butlast_last_id empty_iff empty_set insert_iff list.set(2) set_append)
qed

section \<open>Longest common subsequences\<close>

text \<open>
  Row \<open>i\<close> of the table from row \<open>i + 1\<close>, right to left; all rows, bottom up.
\<close>

fun dp_row :: "'a \<Rightarrow> 'a list \<Rightarrow> nat list \<Rightarrow> nat list" where
  "dp_row x [] below = [0]"
| "dp_row x (y # ys) below =
     (let rest = dp_row x ys (tl below) in
      (if x = y then hd (tl below) + 1
       else if hd below \<ge> hd rest then hd below
       else hd rest) # rest)"

fun dp_table :: "'a list \<Rightarrow> 'a list \<Rightarrow> nat list list" where
  "dp_table [] b = [replicate (length b + 1) 0]"
| "dp_table (x # xs) b = (let t = dp_table xs b in dp_row x b (hd t) # t)"

record lcsMatch =
  baseIdx :: nat
  modIdx :: nat

function backtrack :: "'a list \<Rightarrow> 'a list \<Rightarrow> nat list list \<Rightarrow> nat \<Rightarrow> nat \<Rightarrow> lcsMatch list" where
  "backtrack a b dp i j =
     (if i < length a \<and> j < length b then
        (if a ! i = b ! j then \<lparr>baseIdx = i, modIdx = j\<rparr> # backtrack a b dp (i + 1) (j + 1)
         else if dp ! (i + 1) ! j \<ge> dp ! i ! (j + 1) then backtrack a b dp (i + 1) j
         else backtrack a b dp i (j + 1))
      else [])"
  by pat_completeness auto
termination
  by (relation "measure (\<lambda>(a, b, dp, i, j). (length a - i) + (length b - j))") auto

declare backtrack.simps [simp del]

definition longestCommonSubseq :: "'a list \<Rightarrow> 'a list \<Rightarrow> lcsMatch list" where
  "longestCommonSubseq a b = backtrack a b (dp_table a b) 0 0"

text \<open>The recursion the table tabulates.\<close>

fun lcs_len :: "'a list \<Rightarrow> 'a list \<Rightarrow> nat" where
  "lcs_len (x # xs) (y # ys) =
     (if x = y then lcs_len xs ys + 1 else max (lcs_len xs (y # ys)) (lcs_len (x # xs) ys))"
| "lcs_len _ _ = 0"

lemma lcs_len_Nil [simp]: "lcs_len xs [] = 0"
  by (cases xs) simp_all

lemma dp_row_correct:
  assumes "below = map (\<lambda>j. lcs_len xs (drop j b)) [0..<length b + 1]"
  shows "dp_row x b below = map (\<lambda>j. lcs_len (x # xs) (drop j b)) [0..<length b + 1]"
  using assms
proof (induction b arbitrary: below)
  case (Cons y ys)
  have shift: "map f [0..<length (y # ys) + 1] = f 0 # map (\<lambda>j. f (Suc j)) [0..<length ys + 1]" for f :: "nat \<Rightarrow> nat"
    by (simp add: upt_conv_Cons map_Suc_upt [symmetric] del: upt_Suc)
  have below: "hd below = lcs_len xs (y # ys)" "tl below = map (\<lambda>j. lcs_len xs (drop j ys)) [0..<length ys + 1]"
    using Cons.prems by (simp_all only: shift list.sel drop_0 drop_Suc_Cons)
  have rest: "dp_row x ys (tl below) = map (\<lambda>j. lcs_len (x # xs) (drop j ys)) [0..<length ys + 1]"
    using Cons.IH below(2) by blast
  have "hd (map (\<lambda>j. f (drop j ys)) [0..<length ys + 1]) = f ys" for f :: "'a list \<Rightarrow> nat"
    by (simp add: upt_conv_Cons del: upt_Suc)
  with below rest show ?case
    by (simp only: shift dp_row.simps Let_def drop_0 drop_Suc_Cons lcs_len.simps) (simp add: max_def)
qed simp

lemma dp_table_correct:
  "dp_table a b = map (\<lambda>i. map (\<lambda>j. lcs_len (drop i a) (drop j b)) [0..<length b + 1]) [0..<length a + 1]"
proof (induction a)
  case Nil
  show ?case by (simp add: map_replicate_const)
next
  case (Cons x xs)
  have shift: "map f [0..<length (x # xs) + 1] = f 0 # map (\<lambda>i. f (Suc i)) [0..<length xs + 1]" for f :: "nat \<Rightarrow> nat list"
    by (simp add: upt_conv_Cons map_Suc_upt [symmetric] del: upt_Suc)
  have "hd (dp_table xs b) = map (\<lambda>j. lcs_len xs (drop j b)) [0..<length b + 1]"
    unfolding Cons by (simp add: upt_conv_Cons del: upt_Suc)
  from dp_row_correct [OF this] Cons show ?case
    by (simp only: shift dp_table.simps Let_def drop_0 drop_Suc_Cons)
qed

lemma dp_table_nth:
  "i \<le> length a \<Longrightarrow> j \<le> length b \<Longrightarrow> dp_table a b ! i ! j = lcs_len (drop i a) (drop j b)"
  unfolding dp_table_correct by (simp del: upt_Suc)

text \<open>Matches from given positions on: in range, pointing at equal lines, strictly ascending.\<close>

fun matches_ok :: "'a list \<Rightarrow> 'a list \<Rightarrow> nat \<Rightarrow> nat \<Rightarrow> lcsMatch list \<Rightarrow> bool" where
  "matches_ok a b i j [] = True"
| "matches_ok a b i j (m # ms) =
     (i \<le> baseIdx m \<and> baseIdx m < length a \<and> j \<le> modIdx m \<and> modIdx m < length b \<and>
      a ! baseIdx m = b ! modIdx m \<and> matches_ok a b (baseIdx m + 1) (modIdx m + 1) ms)"

lemma matches_ok_mono: "matches_ok a b i j ms \<Longrightarrow> i' \<le> i \<Longrightarrow> j' \<le> j \<Longrightarrow> matches_ok a b i' j' ms"
  by (cases ms) auto

lemma backtrack_ok:
  assumes "dp = dp_table a b" "i \<le> length a" "j \<le> length b"
  shows "matches_ok a b i j (backtrack a b dp i j) \<and>
         length (backtrack a b dp i j) = lcs_len (drop i a) (drop j b)"
  using assms
proof (induction a b dp i j rule: backtrack.induct)
  case (1 a b dp i j)
  show ?case
  proof (cases "i < length a \<and> j < length b")
    case True
    then have cons: "drop i a = a ! i # drop (i + 1) a" "drop j b = b ! j # drop (j + 1) b"
      by (simp_all add: Cons_nth_drop_Suc)
    have tab: "dp ! (i + 1) ! j = lcs_len (drop (i + 1) a) (drop j b)"
      "dp ! i ! (j + 1) = lcs_len (drop i a) (drop (j + 1) b)"
      using "1.prems" True by (simp_all add: dp_table_nth del: dp_table.simps)
    show ?thesis
    proof (cases "a ! i = b ! j")
      case eq: True
      have "matches_ok a b (i + 1) (j + 1) (backtrack a b dp (i + 1) (j + 1)) \<and>
          length (backtrack a b dp (i + 1) (j + 1)) = lcs_len (drop (i + 1) a) (drop (j + 1) b)"
        using "1.IH"(1) [OF True eq] "1.prems" True by simp
      with True eq cons show ?thesis by (subst (1 2) backtrack.simps) simp
    next
      case ne: False
      have len: "lcs_len (drop i a) (drop j b) = max (lcs_len (drop (i + 1) a) (drop j b)) (lcs_len (drop i a) (drop (j + 1) b))"
        using lcs_len.simps(1) [of "a ! i" "drop (i + 1) a" "b ! j" "drop (j + 1) b"] ne
        unfolding cons [symmetric] by simp
      show ?thesis
      proof (cases "dp ! (i + 1) ! j \<ge> dp ! i ! (j + 1)")
        case c: True
        with "1.IH"(2) [OF True ne c] "1.prems" True ne len tab show ?thesis
          by (subst (1 2) backtrack.simps) (auto intro: matches_ok_mono)
      next
        case c: False
        with "1.IH"(3) [OF True ne c] "1.prems" True ne len tab show ?thesis
          by (subst (1 2) backtrack.simps) (auto intro: matches_ok_mono)
      qed
    qed
  next
    case False
    with "1.prems" show ?thesis by (subst (1 2) backtrack.simps) (auto simp: not_less)
  qed
qed

lemma lcs_len_bound: "subseq zs xs \<Longrightarrow> subseq zs ys \<Longrightarrow> length zs \<le> lcs_len xs ys"
proof (induction xs ys arbitrary: zs rule: lcs_len.induct)
  case (1 x xs y ys)
  show ?case
  proof (cases zs)
    case (Cons z zs')
    show ?thesis
    proof (cases "x = y")
      case True
      with "1.prems" Cons have "subseq zs' xs" "subseq zs' ys" by (auto split: if_splits dest: subseq_Cons')
      with "1.IH"(1) [OF True] True Cons show ?thesis by simp
    next
      case False
      with "1.prems" Cons have "subseq zs xs \<or> subseq zs ys" by (auto split: if_splits)
      with "1.IH"(2,3) [OF False] "1.prems" False show ?thesis by (auto simp: le_max_iff_disj)
    qed
  qed simp
qed auto

lemma longestCommonSubseq_ok:
  "matches_ok a b 0 0 (longestCommonSubseq a b)"
  "length (longestCommonSubseq a b) = lcs_len a b"
  using backtrack_ok [OF refl, of 0 a 0 b] by (simp_all add: longestCommonSubseq_def)

section \<open>Hunks\<close>

record hunk =
  baseStart :: nat
  baseEnd :: nat
  hk_lines :: "bytes list"

fun diff_loop :: "bytes list \<Rightarrow> bytes list \<Rightarrow> nat \<Rightarrow> nat \<Rightarrow> lcsMatch list \<Rightarrow> hunk list" where
  "diff_loop base modified bi mi [] =
     (if bi < length base \<or> mi < length modified
      then [\<lparr>baseStart = bi, baseEnd = length base, hk_lines = drop mi modified\<rparr>] else [])"
| "diff_loop base modified bi mi (m # ms) =
     (if bi < baseIdx m \<or> mi < modIdx m
      then [\<lparr>baseStart = bi, baseEnd = baseIdx m, hk_lines = subslice mi (modIdx m) modified\<rparr>] else [])
     @ diff_loop base modified (baseIdx m + 1) (modIdx m + 1) ms"

definition diffLines :: "bytes list \<Rightarrow> bytes list \<Rightarrow> hunk list" where
  "diffLines base modified = diff_loop base modified 0 0 (longestCommonSubseq base modified)"

text \<open>
  What hunks mean: starting at base line \<open>pos\<close>, copy up to the next hunk, put its lines, go
  on after the base lines it replaces.  Hunks are in order, within the base.
\<close>

fun apply_hunks :: "bytes list \<Rightarrow> nat \<Rightarrow> hunk list \<Rightarrow> bytes list" where
  "apply_hunks base pos [] = drop pos base"
| "apply_hunks base pos (h # hs) =
     subslice pos (baseStart h) base @ hk_lines h @ apply_hunks base (baseEnd h) hs"

fun hunks_ok :: "nat \<Rightarrow> nat \<Rightarrow> hunk list \<Rightarrow> bool" where
  "hunks_ok n pos [] = True"
| "hunks_ok n pos (h # hs) =
     (pos \<le> baseStart h \<and> baseStart h \<le> baseEnd h \<and> baseEnd h \<le> n \<and> hunks_ok n (baseEnd h) hs)"

lemma hunks_ok_mono: "hunks_ok n pos hs \<Longrightarrow> p \<le> pos \<Longrightarrow> hunks_ok n p hs"
  by (cases hs) auto

lemma apply_hunks_advance:
  assumes "hunks_ok (length base) k hs" "pos \<le> k" "k \<le> length base"
  shows "apply_hunks base pos hs = subslice pos k base @ apply_hunks base k hs"
proof (cases hs)
  case Nil
  with assms show ?thesis
    using subslice_append [of pos k "length base" base] by (simp add: subslice_to_end)
next
  case (Cons h hs')
  with assms subslice_append [of pos k "baseStart h" base] show ?thesis by simp
qed

lemma diff_loop_ok:
  "matches_ok base modified bi mi ms \<Longrightarrow> bi \<le> length base \<Longrightarrow> hunks_ok (length base) bi (diff_loop base modified bi mi ms)"
proof (induction base modified bi mi ms rule: diff_loop.induct)
  case (2 base modified bi mi m ms)
  then have rec: "hunks_ok (length base) (baseIdx m + 1) (diff_loop base modified (baseIdx m + 1) (modIdx m + 1) ms)"
    by simp
  with 2 hunks_ok_mono [OF rec, of "baseIdx m"] hunks_ok_mono [OF rec, of bi] show ?case by simp
qed auto

lemma diff_loop_apply:
  "matches_ok base modified bi mi ms \<Longrightarrow> bi \<le> length base \<Longrightarrow> mi \<le> length modified \<Longrightarrow>
   apply_hunks base bi (diff_loop base modified bi mi ms) = drop mi modified"
proof (induction base modified bi mi ms rule: diff_loop.induct)
  case (1 base modified bi mi)
  then show ?case by (auto simp: not_less)
next
  case (2 base modified bi mi m ms)
  let ?b = "baseIdx m" and ?m = "modIdx m"
  let ?rest = "diff_loop base modified (?b + 1) (?m + 1) ms"
  from "2.prems" have ok: "hunks_ok (length base) (?b + 1) ?rest" by (intro diff_loop_ok) simp_all
  have eq: "base ! ?b = modified ! ?m" "?b < length base" "?m < length modified" "bi \<le> ?b" "mi \<le> ?m"
    using "2.prems" by simp_all
  have "apply_hunks base ?b ?rest = subslice ?b (?b + 1) base @ drop (?m + 1) modified"
    using "2.IH" "2.prems" apply_hunks_advance [OF ok, of ?b] by simp
  also have "subslice ?b (?b + 1) base = [modified ! ?m]"
    using eq by (simp add: subslice_def take_Suc_conv_app_nth hd_drop_conv_nth take_Suc)
  finally have at_b: "apply_hunks base ?b ?rest = drop ?m modified"
    using eq by (simp add: Cons_nth_drop_Suc)
  show ?case
  proof (cases "bi < ?b \<or> mi < ?m")
    case True
    have "subslice mi ?m modified @ drop ?m modified = drop mi modified"
      using subslice_append [of mi ?m "length modified" modified] eq by (simp add: subslice_to_end)
    with True at_b show ?thesis by simp
  next
    case False
    with eq at_b show ?thesis by simp
  qed
qed

lemma diffLines_ok: "hunks_ok (length base) 0 (diffLines base modified)"
  by (simp add: diffLines_def diff_loop_ok longestCommonSubseq_ok)

lemma diffLines_apply: "apply_hunks base 0 (diffLines base modified) = modified"
  by (simp add: diffLines_def diff_loop_apply longestCommonSubseq_ok)

section \<open>Properties\<close>

text \<open>
  The dynamic programming and the backtracking find a longest common subsequence: the
  matches are in strictly ascending order on both sides, point at equal lines, and no common
  subsequence of the two texts is longer.
\<close>

theorem longestCommonSubseq_optimal:
  "matches_ok a b 0 0 (longestCommonSubseq a b) \<and>
   (\<forall>zs. subseq zs a \<and> subseq zs b \<longrightarrow> length zs \<le> length (longestCommonSubseq a b))"
  using longestCommonSubseq_ok [of a b] lcs_len_bound [of _ a b] by simp

theorem longestCommonSubseq_optimal_witness:
  "length [CHR ''a'', CHR ''c''] \<le> length (longestCommonSubseq ''abc'' ''xayc'')"
proof -
  have "subseq ''ac'' ''abc''" "subseq ''ac'' ''xayc''" by simp_all
  then show ?thesis using longestCommonSubseq_optimal [of "''abc''" "''xayc''"] by blast
qed

text \<open>
  The hunks that \<open>diffLines\<close> computes are a correct patch: they lie in order within
  the base, and applying them to the base gives the modified text, for all texts.
\<close>

theorem diffLines_correct:
  "apply_hunks (splitLines base) 0 (diffLines (splitLines base) (splitLines modified)) = splitLines modified \<and>
   hunks_ok (length (splitLines base)) 0 (diffLines (splitLines base) (splitLines modified)) \<and>
   concat (splitLines modified) = modified"
  by (simp add: diffLines_apply diffLines_ok splitLines_concat)

end
