(* ===== verification/Merge.thy ===== *)
theory Merge
  imports Merge_Diff
begin

text \<open>
  Merge strategies (\<open>internal/merge\<close>: \<open>strategy.go\<close>, \<open>threeway.go\<close>, \<open>binary.go\<close>,
  \<open>lastwriter.go\<close>, the strategy of \<open>fork.go\<close>).  The registry that \<open>Register\<close> fills from the
  packages' \<open>init\<close> functions is the list \<open>strategies\<close>.
\<close>

section \<open>Results\<close>

record Conflict =
  cf_StartLine :: nat
  cf_EndLine :: nat
  cf_Local :: bytes
  cf_Remote :: bytes
  cf_Base :: bytes

record Result =
  rs_Content :: bytes
  rs_Conflicts :: "Conflict list"
  rs_Clean :: bool

section \<open>Combining two sets of hunks (threeway.go)\<close>

definition hunksOverlap :: "hunk \<Rightarrow> hunk \<Rightarrow> bool" where
  "hunksOverlap a b \<longleftrightarrow> baseStart a < baseEnd b \<and> baseStart b < baseEnd a"

fun same_lines :: "bytes list \<Rightarrow> bytes list \<Rightarrow> bool" where
  "same_lines (x # xs) (y # ys) = (x = y \<and> same_lines xs ys)"
| "same_lines _ _ = True"

definition sameHunkContent :: "hunk \<Rightarrow> hunk \<Rightarrow> bool" where
  "sameHunkContent a b \<longleftrightarrow>
     length (hk_lines a) = length (hk_lines b) \<and> same_lines (hk_lines a) (hk_lines b)"

definition HasSuffix_NL :: "bytes \<Rightarrow> bool" where
  "HasSuffix_NL l \<longleftrightarrow> l \<noteq> [] \<and> last l = NL"

text \<open>The lines of one side of a conflict, with a final newline added when it is missing.\<close>

definition closed_lines :: "bytes list \<Rightarrow> bytes list" where
  "closed_lines ls = ls @ (if length ls > 0 \<and> \<not> HasSuffix_NL (last ls) then [[NL]] else [])"

definition handleOverlappingHunks ::
  "bytes list \<Rightarrow> hunk \<Rightarrow> hunk \<Rightarrow> nat \<Rightarrow> bytes list \<times> Conflict option" where
  "handleOverlappingHunks base lh rh bi =
     (if sameHunkContent lh rh then (hk_lines lh, None)
      else
        let start = min (baseStart lh) (baseStart rh);
            fin = max (baseEnd lh) (baseEnd rh);
            c = \<lparr>cf_StartLine = bi + 1, cf_EndLine = bi + fin - bi,
                 cf_Local = concat (hk_lines lh), cf_Remote = concat (hk_lines rh),
                 cf_Base = (if start < fin then concat (subslice start fin base) else [])\<rparr>
        in ([''<<<<<<< LOCAL'' @ [NL]] @ closed_lines (hk_lines lh) @ [''======='' @ [NL]] @
            closed_lines (hk_lines rh) @ [''>>>>>>> REMOTE'' @ [NL]], Some c))"

text \<open>
  The loop of \<open>merge3\<close> on the hunks still to be applied, from base line \<open>bi\<close>; \<open>copied\<close> is
  what it appends before the next hunk, and the new position.
\<close>

definition copied :: "bytes list \<Rightarrow> nat \<Rightarrow> nat \<Rightarrow> bytes list \<times> nat" where
  "copied base bi nextStart =
     (if bi < nextStart then (subslice bi nextStart base, nextStart) else ([], bi))"

function merge3_loop ::
  "bytes list \<Rightarrow> nat \<Rightarrow> hunk list \<Rightarrow> hunk list \<Rightarrow> bytes list \<Rightarrow> Conflict list \<Rightarrow> bytes list \<times> Conflict list" where
  "merge3_loop base bi lhs rhs result conflicts =
     (if \<not> bi \<le> length base then (result, conflicts)
      else case (lhs, rhs) of
        ([], []) \<Rightarrow> (result @ (if bi < length base then drop bi base else []), conflicts)
      | (lh # ls, []) \<Rightarrow>
          (let (pre, bi') = copied base bi (min (length base) (baseStart lh))
           in merge3_loop base (baseEnd lh) ls [] (result @ pre @ hk_lines lh) conflicts)
      | ([], rh # rs) \<Rightarrow>
          (let (pre, bi') = copied base bi (min (length base) (baseStart rh))
           in merge3_loop base (baseEnd rh) [] rs (result @ pre @ hk_lines rh) conflicts)
      | (lh # ls, rh # rs) \<Rightarrow>
          (let (pre, bi') = copied base bi (min (length base) (min (baseStart lh) (baseStart rh)))
           in if hunksOverlap lh rh then
                (case handleOverlappingHunks base lh rh bi' of (lines, c) \<Rightarrow>
                   merge3_loop base (max (baseEnd lh) (baseEnd rh)) ls rs (result @ pre @ lines)
                     (conflicts @ (case c of None \<Rightarrow> [] | Some x \<Rightarrow> [x])))
              else if baseStart lh \<le> baseStart rh then
                merge3_loop base (baseEnd lh) ls (rh # rs) (result @ pre @ hk_lines lh) conflicts
              else
                merge3_loop base (baseEnd rh) (lh # ls) rs (result @ pre @ hk_lines rh) conflicts))"
  by pat_completeness auto
termination
  by (relation "measure (\<lambda>(base, bi, lhs, rhs, result, conflicts). length lhs + length rhs)") auto

declare merge3_loop.simps [simp del]

definition merge3 :: "bytes list \<Rightarrow> hunk list \<Rightarrow> hunk list \<Rightarrow> bytes list \<times> Conflict list" where
  "merge3 base localHunks remoteHunks = merge3_loop base 0 localHunks remoteHunks [] []"

definition ThreeWayText_Merge :: "bytes \<Rightarrow> bytes \<Rightarrow> bytes \<Rightarrow> Result" where
  "ThreeWayText_Merge base lcl remote =
     (if lcl = remote then \<lparr>rs_Content = lcl, rs_Conflicts = [], rs_Clean = True\<rparr>
      else if base = lcl then \<lparr>rs_Content = remote, rs_Conflicts = [], rs_Clean = True\<rparr>
      else if base = remote then \<lparr>rs_Content = lcl, rs_Conflicts = [], rs_Clean = True\<rparr>
      else
        let baseLines = splitLines base; localLines = splitLines lcl; remoteLines = splitLines remote;
            localDiff = diffLines baseLines localLines;
            remoteDiff = diffLines baseLines remoteLines;
            (merged, conflicts) = merge3 baseLines localDiff remoteDiff
        in \<lparr>rs_Content = concat merged, rs_Conflicts = conflicts, rs_Clean = (length conflicts = 0)\<rparr>)"

section \<open>The other strategies and the registry\<close>

definition whole_file_conflict :: "bytes \<Rightarrow> bytes \<Rightarrow> bytes \<Rightarrow> Result" where
  "whole_file_conflict base lcl remote =
     \<lparr>rs_Content = lcl,
      rs_Conflicts = [\<lparr>cf_StartLine = 0, cf_EndLine = 0, cf_Local = lcl, cf_Remote = remote, cf_Base = base\<rparr>],
      rs_Clean = False\<rparr>"

definition Binary_Merge :: "bytes \<Rightarrow> bytes \<Rightarrow> bytes \<Rightarrow> Result" where
  "Binary_Merge base lcl remote = whole_file_conflict base lcl remote"

definition ConflictFork_Merge :: "bytes \<Rightarrow> bytes \<Rightarrow> bytes \<Rightarrow> Result" where
  "ConflictFork_Merge base lcl remote = whole_file_conflict base lcl remote"

definition LastWriterWins_Merge :: "bytes \<Rightarrow> bytes \<Rightarrow> bytes \<Rightarrow> Result" where
  "LastWriterWins_Merge base lcl remote = \<lparr>rs_Content = remote, rs_Conflicts = [], rs_Clean = True\<rparr>"

definition strategies :: "(bytes \<times> (bytes \<Rightarrow> bytes \<Rightarrow> bytes \<Rightarrow> Result)) list" where
  "strategies = [(''binary'', Binary_Merge), (''conflict-fork'', ConflictFork_Merge),
                 (''last-writer-wins'', LastWriterWins_Merge), (''three-way'', ThreeWayText_Merge)]"

definition StrategyByName :: "bytes \<Rightarrow> (bytes \<Rightarrow> bytes \<Rightarrow> bytes \<Rightarrow> Result) option" where
  "StrategyByName name = map_of strategies name"

section \<open>The contract of a strategy\<close>

text \<open>
  A result is called clean exactly when it reports no conflict.  A strategy that honours
  one-sided changes also returns the other side when one side left the base alone.
\<close>

locale merge_strategy =
  fixes mrg :: "bytes \<Rightarrow> bytes \<Rightarrow> bytes \<Rightarrow> Result"
  assumes clean_iff: "rs_Clean (mrg b l r) \<longleftrightarrow> rs_Conflicts (mrg b l r) = []"
begin

lemma conflict_listed: "\<not> rs_Clean (mrg b l r) \<Longrightarrow> \<exists>c. c \<in> set (rs_Conflicts (mrg b l r))"
  using clean_iff by (metis list.set_intros(1) neq_Nil_conv)

end

locale one_sided_strategy = merge_strategy +
  assumes take_remote: "mrg b b r = \<lparr>rs_Content = r, rs_Conflicts = [], rs_Clean = True\<rparr>"
    and take_local: "mrg b l b = \<lparr>rs_Content = l, rs_Conflicts = [], rs_Clean = True\<rparr>"
begin

lemma identity: "rs_Content (mrg b b b) = b"
  by (simp add: take_remote)

end

interpretation binary: merge_strategy Binary_Merge
  by unfold_locales (simp add: Binary_Merge_def whole_file_conflict_def)

interpretation conflict_fork: merge_strategy ConflictFork_Merge
  by unfold_locales (simp add: ConflictFork_Merge_def whole_file_conflict_def)

interpretation last_writer: merge_strategy LastWriterWins_Merge
  by unfold_locales (simp add: LastWriterWins_Merge_def)

interpretation three_way: one_sided_strategy ThreeWayText_Merge
  by unfold_locales (simp_all add: ThreeWayText_Merge_def Let_def split: prod.split)

section \<open>Separated hunks\<close>

text \<open>
  The two sides change different places: whichever hunk starts first (the local one on a
  tie) ends before the other starts.  This excludes overlaps, and also a change that starts
  where the other side inserts.
\<close>

definition separated :: "hunk \<Rightarrow> hunk \<Rightarrow> bool" where
  "separated lh rh \<longleftrightarrow>
     (if baseStart lh \<le> baseStart rh then baseEnd lh \<le> baseStart rh else baseEnd rh \<le> baseStart lh)"

fun interleave :: "hunk list \<Rightarrow> hunk list \<Rightarrow> hunk list" where
  "interleave (l # ls) (r # rs) =
     (if baseStart l \<le> baseStart r then l # interleave ls (r # rs) else r # interleave (l # ls) rs)"
| "interleave [] rs = rs"
| "interleave ls [] = ls"

lemma set_interleave: "set (interleave ls rs) = set ls \<union> set rs"
  by (induction ls rs rule: interleave.induct) auto

lemma separated_no_overlap: "separated l r \<Longrightarrow> \<not> hunksOverlap l r"
  by (auto simp: separated_def hunksOverlap_def split: if_splits)

lemma merge3_loop_separated:
  assumes "hunks_ok (length base) bi ls" "hunks_ok (length base) bi rs" "bi \<le> length base"
    and "\<forall>l \<in> set ls. \<forall>r \<in> set rs. separated l r"
  shows "merge3_loop base bi ls rs res cs = (res @ apply_hunks base bi (interleave ls rs), cs) \<and>
         hunks_ok (length base) bi (interleave ls rs)"
  using assms
proof (induction ls rs arbitrary: bi res rule: interleave.induct)
  case (1 l ls r rs)
  then have no: "\<not> hunksOverlap l r" and sep: "separated l r" using separated_no_overlap by simp_all
  have pre: "fst (copied base bi k) = subslice bi k base" if "bi \<le> k" for k
    using that by (cases "bi = k") (simp_all add: copied_def)
  show ?case
  proof (cases "baseStart l \<le> baseStart r")
    case True
    with sep have "baseEnd l \<le> baseStart r" by (simp add: separated_def)
    with 1 True have IH: "merge3_loop base (baseEnd l) ls (r # rs) res cs =
        (res @ apply_hunks base (baseEnd l) (interleave ls (r # rs)), cs) \<and>
        hunks_ok (length base) (baseEnd l) (interleave ls (r # rs))" for res
      by simp
    have "min (length base) (min (baseStart l) (baseStart r)) = baseStart l"
      using True "1.prems" by simp
    with IH no True "1.prems" pre [of "baseStart l"] show ?thesis
      by (subst merge3_loop.simps) (simp add: case_prod_unfold Let_def)
  next
    case False
    with sep have "baseEnd r \<le> baseStart l" by (simp add: separated_def)
    with 1 False have IH: "merge3_loop base (baseEnd r) (l # ls) rs res cs =
        (res @ apply_hunks base (baseEnd r) (interleave (l # ls) rs), cs) \<and>
        hunks_ok (length base) (baseEnd r) (interleave (l # ls) rs)" for res
      by simp
    have "min (length base) (min (baseStart l) (baseStart r)) = baseStart r"
      using False "1.prems" by simp
    with IH no False "1.prems" pre [of "baseStart r"] show ?thesis
      by (subst merge3_loop.simps) (simp add: case_prod_unfold Let_def)
  qed
next
  case (2 rs)
  have "merge3_loop base bi [] rs res cs = (res @ apply_hunks base bi rs, cs)"
    using 2 
  proof (induction rs arbitrary: bi res)
    case Nil
    then show ?case by (subst merge3_loop.simps) simp
  next
    case (Cons r rs)
    then show ?case
      by (subst merge3_loop.simps) (cases "bi = baseStart r"; simp add: copied_def case_prod_unfold Let_def)
  qed
  with 2 show ?case by simp
next
  case (3 v va)
  have "merge3_loop base bi ls [] res cs = (res @ apply_hunks base bi ls, cs)"
    if "hunks_ok (length base) bi ls" "bi \<le> length base" for ls
    using that
  proof (induction ls arbitrary: bi res)
    case Nil
    then show ?case by (subst merge3_loop.simps) simp
  next
    case (Cons l ls)
    then show ?case
      by (subst merge3_loop.simps) (cases "bi = baseStart l"; simp add: copied_def case_prod_unfold Let_def)
  qed
  with 3 show ?case by simp
qed

section \<open>Properties\<close>

text \<open>
  Claim C39.  When the two sides change separate places of the base, the three-way merge is clean
  and is the base with the hunks of both sides applied, each exactly once and in order of
  position.
\<close>

theorem three_way_separated:
  fixes base lcl remote :: bytes
  defines "bs \<equiv> splitLines base"
  defines "ld \<equiv> diffLines bs (splitLines lcl)" and "rd \<equiv> diffLines bs (splitLines remote)"
  assumes "lcl \<noteq> remote" "base \<noteq> lcl" "base \<noteq> remote"
    and "\<forall>l \<in> set ld. \<forall>r \<in> set rd. separated l r"
  shows "ThreeWayText_Merge base lcl remote =
           \<lparr>rs_Content = concat (apply_hunks bs 0 (interleave ld rd)), rs_Conflicts = [], rs_Clean = True\<rparr> \<and>
         hunks_ok (length bs) 0 (interleave ld rd) \<and> set (interleave ld rd) = set ld \<union> set rd"
proof -
  have "hunks_ok (length bs) 0 ld" "hunks_ok (length bs) 0 rd" by (simp_all add: ld_def rd_def diffLines_ok)
  with merge3_loop_separated [of bs 0 ld rd "[]" "[]"] assms(4-7) show ?thesis
    by (simp add: ThreeWayText_Merge_def merge3_def Let_def set_interleave
        bs_def [symmetric] ld_def [symmetric] rd_def [symmetric])
qed

definition line :: "bytes \<Rightarrow> bytes" where
  "line s = s @ [NL]"

theorem three_way_separated_witness:
  "ThreeWayText_Merge (line ''a'' @ line ''b'' @ line ''c'') (line ''A'' @ line ''b'' @ line ''c'')
     (line ''a'' @ line ''b'' @ line ''c'' @ line ''d'') =
   \<lparr>rs_Content = line ''A'' @ line ''b'' @ line ''c'' @ line ''d'', rs_Conflicts = [], rs_Clean = True\<rparr>"
proof -
  let ?b = "line ''a'' @ line ''b'' @ line ''c''" and ?l = "line ''A'' @ line ''b'' @ line ''c''"
    and ?r = "line ''a'' @ line ''b'' @ line ''c'' @ line ''d''"
  have ld: "diffLines (splitLines ?b) (splitLines ?l) = [\<lparr>baseStart = 0, baseEnd = 1, hk_lines = [line ''A'']\<rparr>]"
    and rd: "diffLines (splitLines ?b) (splitLines ?r) = [\<lparr>baseStart = 3, baseEnd = 3, hk_lines = [line ''d'']\<rparr>]"
    and bs: "splitLines ?b = [line ''a'', line ''b'', line ''c'']" by code_simp+
  from three_way_separated [of ?l ?r ?b] show ?thesis
    unfolding ld rd unfolding bs by (simp add: separated_def line_def subslice_def)
qed

text \<open>A side's hunk marker stays in the text once it is there.\<close>

definition marker :: bytes where "marker = ''<<<<<<< LOCAL'' @ [NL]"

lemma merge3_loop_marked:
  "cs = [] \<or> marker \<in> set res \<Longrightarrow> merge3_loop base bi ls rs res cs = (res', cs') \<Longrightarrow> cs' = [] \<or> marker \<in> set res'"
proof (induction base bi ls rs res cs arbitrary: res' cs' rule: merge3_loop.induct)
  case (1 base bi ls rs res cs)
  show ?case
  proof (cases "bi \<le> length base")
    case False
    with "1.prems" show ?thesis by (subst (asm) merge3_loop.simps) simp
  next
    case True
    then have bi: "\<not> \<not> bi \<le> length base" by simp
    show ?thesis
    proof (cases ls; cases rs)
      fix l ls' r rs' assume lr: "ls = l # ls'" "rs = r # rs'"
      let ?c = "copied base bi (min (length base) (min (baseStart l) (baseStart r)))"
      obtain lines c where ho: "handleOverlappingHunks base l r (snd ?c) = (lines, c)" by fastforce
      then have mk: "c = None \<or> marker \<in> set lines"
        by (auto simp: handleOverlappingHunks_def marker_def Let_def split: if_splits)
      note IH = "1.IH"(3-5) [OF bi refl lr refl surjective_pairing [symmetric]]
      note step = "1.prems"(2) [unfolded lr merge3_loop.simps [of base bi "l # ls'" "r # rs'"]]
      show ?thesis
      proof (cases "hunksOverlap l r")
        case True
        with step bi ho have "merge3_loop base (max (baseEnd l) (baseEnd r)) ls' rs' (res @ fst ?c @ lines)
            (cs @ (case c of None \<Rightarrow> [] | Some x \<Rightarrow> [x])) = (res', cs')"
          by (simp add: case_prod_unfold Let_def)
        with IH(1) [OF True ho [symmetric]] mk "1.prems"(1) show ?thesis by auto
      next
        case False
        with step bi IH(2,3) [OF False] "1.prems"(1) show ?thesis
          by (cases "baseStart l \<le> baseStart r") (auto simp: case_prod_unfold Let_def)
      qed
    next
      fix l ls' assume lr: "ls = l # ls'" "rs = []"
      with "1.prems" bi "1.IH"(2) [OF bi refl lr refl surjective_pairing [symmetric]] show ?thesis
        by (auto simp: merge3_loop.simps [of base bi "l # ls'" "[]"] case_prod_unfold Let_def)
    next
      fix r rs' assume lr: "ls = []" "rs = r # rs'"
      with "1.prems" bi "1.IH"(1) [OF bi refl lr refl surjective_pairing [symmetric]] show ?thesis
        by (auto simp: merge3_loop.simps [of base bi "[]" "r # rs'"] case_prod_unfold Let_def)
    next
      assume "ls = []" "rs = []"
      with "1.prems" bi show ?thesis by (subst (asm) merge3_loop.simps) auto
    qed
  qed
qed

text \<open>
  A three-way merge that is not clean says so in the merged text: a conflict marker
  line is in it, so the text of an unresolved merge is never mistaken for a merged file.
\<close>

theorem three_way_conflict_marked:
  assumes "\<not> rs_Clean (ThreeWayText_Merge base lcl remote)"
  shows "\<exists>pre post. rs_Content (ThreeWayText_Merge base lcl remote) = pre @ marker @ post"
proof -
  let ?bs = "splitLines base"
  obtain res cs where m: "merge3 ?bs (diffLines ?bs (splitLines lcl)) (diffLines ?bs (splitLines remote)) = (res, cs)"
    by fastforce
  with assms have c: "rs_Content (ThreeWayText_Merge base lcl remote) = concat res" "cs \<noteq> []"
    by (auto simp: ThreeWayText_Merge_def Let_def split: if_splits)
  with m merge3_loop_marked [of "[]" "[]"] have "marker \<in> set res" by (fastforce simp: merge3_def)
  then obtain ys zs where "res = ys @ marker # zs" by (auto dest: split_list)
  with c(1) have "rs_Content (ThreeWayText_Merge base lcl remote) = concat ys @ marker @ concat zs" by simp
  then show ?thesis by blast
qed

theorem three_way_conflict_marked_witness:
  "\<exists>pre post. rs_Content (ThreeWayText_Merge (line ''a'') (line ''b'') (line ''c'')) = pre @ marker @ post"
proof (rule three_way_conflict_marked)
  show "\<not> rs_Clean (ThreeWayText_Merge (line ''a'') (line ''b'') (line ''c''))" by code_simp
qed

text \<open>
  A change that starts where the other side inserts is undone by a merge reported as
  clean: after the replacement and the insertion \<open>merge3\<close> goes back to the insertion point
  and copies the replaced base lines again.
\<close>

theorem insertion_at_change_restores_base:
  assumes "s < e" "e \<le> length base"
  shows "merge3 base [\<lparr>baseStart = s, baseEnd = e, hk_lines = L\<rparr>] [\<lparr>baseStart = s, baseEnd = s, hk_lines = R\<rparr>] =
           (take s base @ L @ R @ drop s base, [])"
proof -
  have "merge3_loop base e [] [\<lparr>baseStart = s, baseEnd = s, hk_lines = R\<rparr>] res [] = (res @ R @ drop s base, [])" for res
    using assms by (subst merge3_loop.simps, subst merge3_loop.simps) (simp add: copied_def)
  then show ?thesis
    using assms unfolding merge3_def
    by (subst merge3_loop.simps) (cases "s = 0"; simp add: copied_def hunksOverlap_def subslice_def)
qed

theorem insertion_at_change_restores_base_witness:
  "ThreeWayText_Merge (line ''a'' @ line ''b'') (line ''x'' @ line ''b'') (line ''n'' @ line ''a'' @ line ''b'') =
   \<lparr>rs_Content = line ''x'' @ line ''n'' @ line ''a'' @ line ''b'', rs_Conflicts = [], rs_Clean = True\<rparr>"
proof -
  let ?b = "line ''a'' @ line ''b''" and ?l = "line ''x'' @ line ''b''" and ?r = "line ''n'' @ line ''a'' @ line ''b''"
  have "diffLines (splitLines ?b) (splitLines ?l) = [\<lparr>baseStart = 0, baseEnd = 1, hk_lines = [line ''x'']\<rparr>]"
    and "diffLines (splitLines ?b) (splitLines ?r) = [\<lparr>baseStart = 0, baseEnd = 0, hk_lines = [line ''n'']\<rparr>]"
    and "splitLines ?b = [line ''a'', line ''b'']" by code_simp+
  with insertion_at_change_restores_base [of 0 1 "splitLines ?b" "[line ''x'']" "[line ''n'']"] show ?thesis
    by (simp add: ThreeWayText_Merge_def Let_def line_def)
qed

end
