(* ===== verification/Merge_Graph.thy ===== *)
theory Merge_Graph
  imports Repo_Tables
begin

text \<open>
  The version graph side of merging (\<open>internal/merge\<close>: \<open>ancestor.go\<close>, \<open>detect.go\<close>, the
  conflict table of \<open>fork.go\<close>).  Edges are the rows of \<open>plink\<close>; rows come back in table
  order.
\<close>

section \<open>Common ancestors (ancestor.go)\<close>

datatype merge_error = NoCommonAncestor rid rid | NoSuchTable

definition getParents :: "repo \<Rightarrow> rid \<Rightarrow> rid list" where
  "getParents q r = map pl_pid (filter (\<lambda>p. pl_cid p = r) (t_plink q))"

text \<open>
  One side's inner loop over the parents of a check-in: either a parent already visited by
  the other side is found, or the new parents are marked and queued.
\<close>

datatype visit = Found rid | Continue "rid list" "rid list"

fun visit_parents :: "rid list \<Rightarrow> rid list \<Rightarrow> rid list \<Rightarrow> rid list \<Rightarrow> visit" where
  "visit_parents [] visited other queue = Continue visited queue"
| "visit_parents (pid # pids) visited other queue =
     (if pid \<notin> set visited then
        (if pid \<in> set other then Found pid
         else visit_parents pids (pid # visited) other (queue @ [pid]))
      else visit_parents pids visited other queue)"

definition half_step :: "repo \<Rightarrow> rid list \<Rightarrow> rid list \<Rightarrow> rid list \<Rightarrow> visit" where
  "half_step q visited other queue =
     (case queue of
        [] \<Rightarrow> Continue visited []
      | current # rest \<Rightarrow>
          if current \<in> set other then Found current
          else visit_parents (getParents q current) visited other rest)"

abbreviation graph_nodes :: "repo \<Rightarrow> rid set" where
  "graph_nodes q \<equiv> pl_pid ` set (t_plink q)"

definition unvisited :: "repo \<Rightarrow> rid list \<Rightarrow> nat" where
  "unvisited q visited = card (graph_nodes q - set visited)"

lemma visit_parents_measure:
  assumes "visit_parents pids visited other queue = Continue visited' queue'" "set pids \<subseteq> graph_nodes q"
  shows "unvisited q visited' + length queue' \<le> unvisited q visited + length queue"
  using assms
proof (induction pids visited other queue rule: visit_parents.induct)
  case (2 pid pids visited other queue)
  show ?case
  proof (cases "pid \<in> set visited")
    case False
    with "2.prems" have "pid \<in> graph_nodes q - set visited" by simp
    moreover have "graph_nodes q - set (pid # visited) = (graph_nodes q - set visited) - {pid}" by auto
    ultimately have "unvisited q (pid # visited) < unvisited q visited"
      unfolding unvisited_def by (metis card_Diff1_less finite_Diff finite_imageI List.finite_set)
    with 2 False show ?thesis by (fastforce split: if_splits)
  qed (use 2 in auto)
qed simp

lemma half_step_measure:
  assumes "half_step q visited other queue = Continue visited' queue'"
  shows "unvisited q visited' + length queue' \<le> unvisited q visited + length queue \<and>
         (queue \<noteq> [] \<longrightarrow> unvisited q visited' + length queue' < unvisited q visited + length queue)"
proof (cases queue)
  case Nil
  with assms show ?thesis by (simp add: half_step_def)
next
  case (Cons current rest)
  then have "visit_parents (getParents q current) visited other rest = Continue visited' queue'"
    using assms by (simp add: half_step_def split: if_splits)
  moreover have "set (getParents q current) \<subseteq> graph_nodes q" by (auto simp: getParents_def)
  ultimately show ?thesis using visit_parents_measure Cons by fastforce
qed

function bfs :: "repo \<Rightarrow> rid list \<Rightarrow> rid list \<Rightarrow> rid list \<Rightarrow> rid list \<Rightarrow> rid option" where
  "bfs q visitedA visitedB queueA queueB =
     (if queueA = [] \<and> queueB = [] then None
      else case half_step q visitedA visitedB queueA of
             Found x \<Rightarrow> Some x
           | Continue visitedA' queueA' \<Rightarrow>
               (case half_step q visitedB visitedA' queueB of
                  Found x \<Rightarrow> Some x
                | Continue visitedB' queueB' \<Rightarrow> bfs q visitedA' visitedB' queueA' queueB'))"
  by pat_completeness auto
termination
proof (relation "measure (\<lambda>(q, va, vb, qa, qb). unvisited q va + length qa + (unvisited q vb + length qb))", goal_cases)
  case (2 q va vb qa qb va' qa' vb' qb')
  with half_step_measure [OF 2(2)] half_step_measure [OF 2(3)] show ?case by (cases "qa = []") auto
qed simp

declare bfs.simps [simp del]

definition FindCommonAncestor :: "repo \<Rightarrow> rid \<Rightarrow> rid \<Rightarrow> (merge_error, rid) outcome" where
  "FindCommonAncestor q ridA ridB =
     (if ridA \<le> 0 then Panic ''merge.FindCommonAncestor: ridA must be positive''
      else if ridB \<le> 0 then Panic ''merge.FindCommonAncestor: ridB must be positive''
      else if ridA = ridB then Ok ridA
      else case bfs q [ridA] [ridB] [ridA] [ridB] of
             Some x \<Rightarrow> Ok x
           | None \<Rightarrow> Err (NoCommonAncestor ridA ridB))"

section \<open>Forks (detect.go)\<close>

record Fork =
  fk_Ancestor :: rid
  fk_LocalTip :: rid
  fk_RemoteTip :: rid

text \<open>The leaves that are check-ins, newest first.\<close>

definition fork_leaves :: "repo \<Rightarrow> rid list" where
  "fork_leaves q =
     map snd (sort_key (\<lambda>(m, r). - m)
       (concat (map (\<lambda>r. map (\<lambda>e. (ev_mtime e, r))
          (filter (\<lambda>e. ev_objid e = r \<and> ev_type e = ''ci'') (t_event q))) (t_leaf q))))"

fun forks_with :: "repo \<Rightarrow> rid \<Rightarrow> rid list \<Rightarrow> (merge_error, Fork list) outcome" where
  "forks_with q a [] = Ok []"
| "forks_with q a (b # bs) =
     (case FindCommonAncestor q a b of
        Ok x \<Rightarrow> bind_ok (forks_with q a bs)
                  (\<lambda>fs. Ok (\<lparr>fk_Ancestor = x, fk_LocalTip = a, fk_RemoteTip = b\<rparr> # fs))
      | Err _ \<Rightarrow> forks_with q a bs
      | Panic s \<Rightarrow> Panic s)"

fun pair_forks :: "repo \<Rightarrow> rid list \<Rightarrow> (merge_error, Fork list) outcome" where
  "pair_forks q [] = Ok []"
| "pair_forks q (a # rest) =
     bind_ok (forks_with q a rest) (\<lambda>fs. bind_ok (pair_forks q rest) (\<lambda>gs. Ok (fs @ gs)))"

definition DetectForks :: "repo \<Rightarrow> (merge_error, Fork list) outcome" where
  "DetectForks q =
     (let leaves = fork_leaves q in if length leaves \<le> 1 then Ok [] else pair_forks q leaves)"

section \<open>The conflict table (fork.go)\<close>

text \<open>\<open>None\<close> while the table does not exist; rows carry the time they were recorded.\<close>

record conflict_row =
  cr_filename :: bytes
  cr_base :: rid
  cr_local :: rid
  cr_remote :: rid
  cr_mtime :: int

type_synonym conflict_table = "conflict_row list option"

definition EnsureConflictTable :: "conflict_table \<Rightarrow> conflict_table" where
  "EnsureConflictTable t = (case t of None \<Rightarrow> Some [] | Some rows \<Rightarrow> Some rows)"

definition RecordConflictFork ::
  "int \<Rightarrow> conflict_table \<Rightarrow> bytes \<Rightarrow> rid \<Rightarrow> rid \<Rightarrow> rid \<Rightarrow> (merge_error, conflict_table) outcome" where
  "RecordConflictFork now t filename baseRID localRID remoteRID =
     (if filename = [] then Panic ''merge.RecordConflictFork: filename must not be empty''
      else case t of
             None \<Rightarrow> Err NoSuchTable
           | Some rows \<Rightarrow> Ok (Some (rows @ [\<lparr>cr_filename = filename, cr_base = baseRID, cr_local = localRID,
                                              cr_remote = remoteRID, cr_mtime = now\<rparr>])))"

definition ResolveConflictFork :: "conflict_table \<Rightarrow> bytes \<Rightarrow> (merge_error, conflict_table) outcome" where
  "ResolveConflictFork t filename =
     (if filename = [] then Panic ''merge.ResolveConflictFork: filename must not be empty''
      else case t of
             None \<Rightarrow> Err NoSuchTable
           | Some rows \<Rightarrow> Ok (Some (filter (\<lambda>r. cr_filename r \<noteq> filename) rows)))"

definition ListConflictForks :: "conflict_table \<Rightarrow> bytes list" where
  "ListConflictForks t =
     (case t of None \<Rightarrow> [] | Some rows \<Rightarrow> map cr_filename (sort_key (\<lambda>r. - cr_mtime r) rows))"

section \<open>Ancestry\<close>

definition parent_of :: "repo \<Rightarrow> rid \<Rightarrow> rid \<Rightarrow> bool" where
  "parent_of q c p \<longleftrightarrow> (\<exists>x \<in> set (t_plink q). pl_cid x = c \<and> pl_pid x = p)"

abbreviation ancestor :: "repo \<Rightarrow> rid \<Rightarrow> rid \<Rightarrow> bool" where
  "ancestor q \<equiv> (parent_of q)\<^sup>*\<^sup>*"

lemma getParents_iff: "p \<in> set (getParents q c) \<longleftrightarrow> parent_of q c p"
  by (auto simp: getParents_def parent_of_def)

text \<open>
  What is kept about one side: everything visited is an ancestor, what is queued is visited,
  and the parents of visited check-ins that are no longer queued are visited.
\<close>

definition side_ok :: "repo \<Rightarrow> rid \<Rightarrow> rid list \<Rightarrow> rid list \<Rightarrow> bool" where
  "side_ok q a visited queue \<longleftrightarrow>
     a \<in> set visited \<and> (\<forall>x \<in> set visited. ancestor q a x) \<and> set queue \<subseteq> set visited \<and>
     (\<forall>x \<in> set visited. x \<notin> set queue \<longrightarrow> (\<forall>p. parent_of q x p \<longrightarrow> p \<in> set visited))"

lemma visit_parents_Found:
  "visit_parents pids visited other queue = Found x \<Longrightarrow> x \<in> set pids \<and> x \<in> set other"
  by (induction pids visited other queue rule: visit_parents.induct) (auto split: if_splits)

lemma visit_parents_Continue:
  "visit_parents pids visited other queue = Continue visited' queue' \<Longrightarrow> set visited \<inter> set other = {} \<Longrightarrow>
   set visited' = set visited \<union> set pids \<and> set queue \<subseteq> set queue' \<and>
   set queue' \<subseteq> set queue \<union> (set pids - set visited) \<and>
   set visited' - set visited \<subseteq> set queue' \<and> set visited' \<inter> set other = {}"
proof (induction pids visited other queue rule: visit_parents.induct)
  case (2 pid pids visited other queue)
  show ?case
  proof (cases "pid \<in> set visited")
    case True
    with 2 show ?thesis by auto
  next
    case False
    with "2.prems" have "pid \<notin> set other" by (auto split: if_splits)
    note o = this
    have "visit_parents pids (pid # visited) other (queue @ [pid]) = Continue visited' queue'"
      "set (pid # visited) \<inter> set other = {}" using "2.prems" False o by simp_all
    note "2.IH"(1) [OF False o this]
    then show ?thesis using False by auto
  qed
qed simp

lemma half_step_Found:
  assumes "half_step q visited other queue = Found x" "side_ok q a visited queue"
  shows "x \<in> set other \<and> ancestor q a x"
proof -
  obtain current rest where queue: "queue = current # rest"
    using assms(1) by (cases queue) (simp_all add: half_step_def)
  then have "ancestor q a current" using assms(2) by (auto simp: side_ok_def)
  with assms(1) queue show ?thesis
    by (auto simp: half_step_def getParents_iff split: if_splits dest!: visit_parents_Found
        intro: rtranclp.rtrancl_into_rtrancl)
qed

lemma half_step_Continue:
  assumes "half_step q visited other queue = Continue visited' queue'" "side_ok q a visited queue"
    and "set visited \<inter> set other = {}"
  shows "side_ok q a visited' queue' \<and> set visited' \<inter> set other = {}"
proof (cases queue)
  case Nil
  with assms show ?thesis by (simp add: half_step_def)
next
  case (Cons current rest)
  with assms(1) have "visit_parents (getParents q current) visited other rest = Continue visited' queue'"
    by (simp add: half_step_def split: if_splits)
  from visit_parents_Continue [OF this assms(3)] have
    v: "set visited' = set visited \<union> set (getParents q current)" "set rest \<subseteq> set queue'"
      "set queue' \<subseteq> set rest \<union> (set (getParents q current) - set visited)"
      "set visited' - set visited \<subseteq> set queue'" "set visited' \<inter> set other = {}" by blast+
  have "\<forall>x \<in> set visited'. ancestor q a x"
    using assms(2) v(1) Cons by (auto simp: side_ok_def getParents_iff intro: rtranclp.rtrancl_into_rtrancl)
  moreover have "\<forall>p. parent_of q x p \<longrightarrow> p \<in> set visited'" if x: "x \<in> set visited'" "x \<notin> set queue'" for x
  proof (cases "x = current")
    case True
    then show ?thesis using v(1) by (auto simp: getParents_iff)
  next
    case False
    with x v have "x \<in> set visited" "x \<notin> set queue" using Cons by auto
    with assms(2) v(1) show ?thesis by (auto simp: side_ok_def)
  qed
  moreover have "set queue' \<subseteq> set visited'" "a \<in> set visited'"
    using v(1,3) assms(2) Cons by (auto simp: side_ok_def)
  ultimately show ?thesis using v(5) by (simp add: side_ok_def)
qed

lemma side_ok_closed:
  assumes "side_ok q a visited []" "ancestor q a x"
  shows "x \<in> set visited"
  using assms(2) by (induction rule: rtranclp_induct) (use assms(1) in \<open>auto simp: side_ok_def\<close>)

lemma bfs_correct:
  assumes "side_ok q a va qa" "side_ok q b vb qb" "set va \<inter> set vb = {}"
  shows "case bfs q va vb qa qb of Some x \<Rightarrow> ancestor q a x \<and> ancestor q b x
         | None \<Rightarrow> \<nexists>x. ancestor q a x \<and> ancestor q b x"
  using assms
proof (induction q va vb qa qb rule: bfs.induct)
  case (1 q va vb qa qb)
  show ?case
  proof (cases "qa = [] \<and> qb = []")
    case True
    with "1.prems" side_ok_closed [of q a va] side_ok_closed [of q b vb] show ?thesis
      by (subst bfs.simps) auto
  next
    case False
    show ?thesis
    proof (cases "half_step q va vb qa")
      case (Found x)
      with half_step_Found [OF Found "1.prems"(1)] "1.prems"(2) False show ?thesis
        by (subst bfs.simps) (auto simp: side_ok_def)
    next
      case (Continue va' qa')
      note A = half_step_Continue [OF Continue "1.prems"(1,3)]
      then have disj: "set vb \<inter> set va' = {}" by auto
      show ?thesis
      proof (cases "half_step q vb va' qb")
        case (Found x)
        with half_step_Found [OF Found "1.prems"(2)] A Continue False show ?thesis
          by (subst bfs.simps) (auto simp: side_ok_def)
      next
        case cont: (Continue vb' qb')
        from half_step_Continue [OF cont "1.prems"(2) disj] A
          "1.IH" [OF False Continue cont] Continue cont False show ?thesis
          by (subst bfs.simps) (auto simp: inf_commute)
      qed
    qed
  qed
qed

lemma FindCommonAncestor_spec:
  assumes "ridA > 0" "ridB > 0"
  shows "case FindCommonAncestor q ridA ridB of
           Ok x \<Rightarrow> ancestor q ridA x \<and> ancestor q ridB x
         | Err e \<Rightarrow> e = NoCommonAncestor ridA ridB \<and> (\<nexists>x. ancestor q ridA x \<and> ancestor q ridB x)
         | Panic s \<Rightarrow> False"
proof (cases "ridA = ridB")
  case True
  with assms show ?thesis by (simp add: FindCommonAncestor_def)
next
  case False
  have "side_ok q r [r] [r]" for r by (simp add: side_ok_def)
  with bfs_correct [of q ridA "[ridA]" "[ridA]" ridB "[ridB]" "[ridB]"] assms False show ?thesis
    by (simp add: FindCommonAncestor_def split: option.splits)
qed

section \<open>Properties\<close>

text \<open>
  Claim C40.  On every repository \<open>FindCommonAncestor\<close> returns: a check-in that is an ancestor of
  both arguments when there is one, and the error exactly when there is none, also when the
  graph has cycles.
\<close>

theorem FindCommonAncestor_correct:
  assumes "ridA > 0" "ridB > 0"
  shows "case FindCommonAncestor q ridA ridB of
           Ok x \<Rightarrow> ancestor q ridA x \<and> ancestor q ridB x
         | Err e \<Rightarrow> e = NoCommonAncestor ridA ridB \<and> (\<nexists>x. ancestor q ridA x \<and> ancestor q ridB x)
         | Panic s \<Rightarrow> False"
  using assms by (rule FindCommonAncestor_spec)

definition link :: "rid \<Rightarrow> rid \<Rightarrow> plink_row" where
  "link p c = \<lparr>pl_pid = p, pl_cid = c, pl_isprim = True, pl_mtime = 0, pl_baseid = None\<rparr>"

definition graph :: "plink_row list \<Rightarrow> repo" where
  "graph ps = empty_repo\<lparr>t_plink := ps\<rparr>"

theorem FindCommonAncestor_correct_witness:
  "FindCommonAncestor (graph [link 1 2, link 1 3]) 2 3 = Ok 1 \<and>
   ancestor (graph [link 1 2, link 1 3]) 2 1 \<and> ancestor (graph [link 1 2, link 1 3]) 3 1"
proof -
  have "FindCommonAncestor (graph [link 1 2, link 1 3]) 2 3 = Ok 1" by code_simp
  with FindCommonAncestor_correct [of 2 3 "graph [link 1 2, link 1 3]"] show ?thesis by simp
qed

text \<open>
  The ancestor found need not be a most recent one: with a check-in merged from both an
  old and a recent common ancestor, the search can return the old one although the recent
  one is a common ancestor that descends from it.
\<close>

theorem FindCommonAncestor_not_most_recent:
  "\<exists>q a b x y. FindCommonAncestor q a b = Ok x \<and> ancestor q a y \<and> ancestor q b y \<and>
     ancestor q y x \<and> \<not> ancestor q x y"
proof (intro exI conjI)
  let ?q = "graph [link 1 2, link 2 3, link 1 4, link 3 4, link 1 5, link 2 5]"
  show "FindCommonAncestor ?q 4 5 = Ok 1" by code_simp
  have step: "parent_of ?q c p" if "link p c \<in> set (t_plink ?q)" for c p
    using that by (force simp: parent_of_def link_def)
  have "parent_of ?q 4 3" "parent_of ?q 3 2" "parent_of ?q 5 2" "parent_of ?q 2 1"
    by (rule step, simp add: graph_def)+
  then show "ancestor ?q 4 2" "ancestor ?q 5 2" "ancestor ?q 2 1" by auto
  have "\<not> parent_of ?q 1 p" for p by (auto simp: parent_of_def graph_def link_def)
  then show "\<not> ancestor ?q 1 2" by (auto elim: converse_rtranclpE)
qed

lemma forks_with_correct:
  assumes "a > 0" "list_all (\<lambda>r. r > 0) bs"
  shows "\<exists>fs. forks_with q a bs = Ok fs \<and>
    (\<forall>f \<in> set fs. fk_LocalTip f = a \<and> fk_RemoteTip f \<in> set bs \<and>
       ancestor q a (fk_Ancestor f) \<and> ancestor q (fk_RemoteTip f) (fk_Ancestor f)) \<and>
    (\<forall>b \<in> set bs. (\<exists>x. ancestor q a x \<and> ancestor q b x) \<longrightarrow> (\<exists>f \<in> set fs. fk_RemoteTip f = b))"
  using assms(2)
proof (induction bs)
  case (Cons b bs)
  with FindCommonAncestor_spec [of a b q] assms(1) show ?case
    by (cases "FindCommonAncestor q a b") auto
qed simp

lemma pair_forks_correct:
  assumes "list_all (\<lambda>r. r > 0) rs"
  shows "\<exists>fs. pair_forks q rs = Ok fs \<and>
    (\<forall>f \<in> set fs. fk_LocalTip f \<in> set rs \<and> fk_RemoteTip f \<in> set rs \<and>
       ancestor q (fk_LocalTip f) (fk_Ancestor f) \<and> ancestor q (fk_RemoteTip f) (fk_Ancestor f)) \<and>
    (\<forall>i j x. i < j \<and> j < length rs \<and> ancestor q (rs ! i) x \<and> ancestor q (rs ! j) x \<longrightarrow>
       (\<exists>f \<in> set fs. fk_LocalTip f = rs ! i \<and> fk_RemoteTip f = rs ! j))"
  using assms
proof (induction rs)
  case (Cons a rs)
  then obtain fs where fs: "forks_with q a rs = Ok fs"
    "\<forall>f \<in> set fs. fk_LocalTip f = a \<and> fk_RemoteTip f \<in> set rs \<and>
       ancestor q a (fk_Ancestor f) \<and> ancestor q (fk_RemoteTip f) (fk_Ancestor f)"
    "\<forall>b \<in> set rs. (\<exists>x. ancestor q a x \<and> ancestor q b x) \<longrightarrow> (\<exists>f \<in> set fs. fk_RemoteTip f = b)"
    using forks_with_correct [of a rs q] by auto
  from Cons obtain gs where gs: "pair_forks q rs = Ok gs"
    "\<forall>f \<in> set gs. fk_LocalTip f \<in> set rs \<and> fk_RemoteTip f \<in> set rs \<and>
       ancestor q (fk_LocalTip f) (fk_Ancestor f) \<and> ancestor q (fk_RemoteTip f) (fk_Ancestor f)"
    "\<forall>i j x. i < j \<and> j < length rs \<and> ancestor q (rs ! i) x \<and> ancestor q (rs ! j) x \<longrightarrow>
       (\<exists>f \<in> set gs. fk_LocalTip f = rs ! i \<and> fk_RemoteTip f = rs ! j)"
    by auto
  have "\<exists>f \<in> set (fs @ gs). fk_LocalTip f = (a # rs) ! i \<and> fk_RemoteTip f = (a # rs) ! j"
    if "i < j" "j < length (a # rs)" "ancestor q ((a # rs) ! i) x" "ancestor q ((a # rs) ! j) x" for i j x
  proof (cases i)
    case 0
    with that have "rs ! (j - 1) \<in> set rs" "ancestor q a x" "ancestor q (rs ! (j - 1)) x"
      by (auto simp: nth_Cons')
    with fs(3) obtain f where "f \<in> set fs" "fk_RemoteTip f = rs ! (j - 1)" by blast
    with 0 that fs(2) show ?thesis by (auto simp: nth_Cons')
  next
    case (Suc i')
    with that have "i' < j - 1 \<and> j - 1 < length rs \<and> ancestor q (rs ! i') x \<and> ancestor q (rs ! (j - 1)) x"
      by (auto simp: nth_Cons')
    with gs(3) have "\<exists>f \<in> set gs. fk_LocalTip f = rs ! i' \<and> fk_RemoteTip f = rs ! (j - 1)" by blast
    with that Suc show ?thesis by (auto simp: nth_Cons')
  qed
  with fs(1,2) gs(1,2) show ?case by (auto intro!: exI [of _ "fs @ gs"])
qed simp

text \<open>
  \<open>DetectForks\<close> reports every pair of leaf check-ins that have a common ancestor, and
  every fork it reports has two leaf check-ins and one of their common ancestors.
\<close>

theorem DetectForks_correct:
  assumes "list_all (\<lambda>r. r > 0) (fork_leaves q)"
  shows "\<exists>fs. DetectForks q = Ok fs \<and>
    (\<forall>f \<in> set fs. fk_LocalTip f \<in> set (fork_leaves q) \<and> fk_RemoteTip f \<in> set (fork_leaves q) \<and>
       ancestor q (fk_LocalTip f) (fk_Ancestor f) \<and> ancestor q (fk_RemoteTip f) (fk_Ancestor f)) \<and>
    (\<forall>i j x. i < j \<and> j < length (fork_leaves q) \<and> ancestor q (fork_leaves q ! i) x \<and>
       ancestor q (fork_leaves q ! j) x \<longrightarrow>
       (\<exists>f \<in> set fs. fk_LocalTip f = fork_leaves q ! i \<and> fk_RemoteTip f = fork_leaves q ! j))"
proof (cases "length (fork_leaves q) \<le> 1")
  case True
  then show ?thesis by (auto simp: DetectForks_def)
next
  case False
  then show ?thesis using pair_forks_correct [OF assms, of q] by (simp add: DetectForks_def)
qed

definition ci :: "rid \<Rightarrow> event_row" where
  "ci r = \<lparr>ev_type = ''ci'', ev_mtime = r, ev_objid = r, ev_tagid = None, ev_bgcolor = None, ev_euser = None,
     ev_user = None, ev_ecomment = None, ev_comment = None\<rparr>"

theorem DetectForks_correct_witness:
  "\<exists>fs. DetectForks ((graph [link 1 2, link 1 3])\<lparr>t_leaf := [2, 3], t_event := [ci 1, ci 2, ci 3]\<rparr>) = Ok fs"
proof -
  let ?q = "(graph [link 1 2, link 1 3])\<lparr>t_leaf := [2, 3], t_event := [ci 1, ci 2, ci 3]\<rparr>"
  have "list_all (\<lambda>r. r > 0) (fork_leaves ?q)" by code_simp
  from DetectForks_correct [OF this] show ?thesis by blast
qed

text \<open>
  The conflict table: a recorded file is listed until it is resolved, resolving removes
  every entry of that file and no entry of another, and creating the table again keeps what
  it holds.
\<close>

theorem conflict_table_laws:
  assumes "f \<noteq> []" "RecordConflictFork now (EnsureConflictTable t) f b l r = Ok t1"
    and "ResolveConflictFork t1 f = Ok t2"
  shows "f \<in> set (ListConflictForks t1) \<and> set (ListConflictForks t) \<subseteq> set (ListConflictForks t1) \<and>
         set (ListConflictForks t2) = set (ListConflictForks t) - {f} \<and> EnsureConflictTable t1 = t1"
  using assms
  by (auto simp: RecordConflictFork_def ResolveConflictFork_def EnsureConflictTable_def ListConflictForks_def
      split: option.splits if_splits)

theorem conflict_table_laws_witness:
  "\<exists>t1 t2. RecordConflictFork 7 (EnsureConflictTable None) ''a.txt'' 1 2 3 = Ok t1 \<and>
     ResolveConflictFork t1 ''a.txt'' = Ok t2 \<and> ''a.txt'' \<in> set (ListConflictForks t1) \<and> ListConflictForks t2 = []"
proof -
  obtain t1 where t1: "RecordConflictFork 7 (EnsureConflictTable None) ''a.txt'' 1 2 3 = Ok t1"
    by (simp add: RecordConflictFork_def EnsureConflictTable_def)
  then obtain t2 where t2: "ResolveConflictFork t1 ''a.txt'' = Ok t2"
    by (auto simp: RecordConflictFork_def EnsureConflictTable_def ResolveConflictFork_def split: option.splits)
  have "ListConflictForks None = []" by (simp add: ListConflictForks_def)
  with conflict_table_laws [OF _ t1 t2] t1 t2 show ?thesis by auto
qed

end
