(* ===== verification/Uv.thy ===== *)
theory Uv
  imports Repo_Tables Hash Go_Strings Blob
begin

text \<open>
  Unversioned files (\<open>internal/uv\<close>): the table with its tombstones, the cached catalogue hash
  (\<open>uv.go\<close>) and the comparison of a local with a remote entry (\<open>status.go\<close>).  SQLite's
  \<open>datetime(t, 'unixepoch')\<close>, zlib and the digests are arguments; \<open>now\<close> is the time SQLite's
  \<open>strftime\<close> reads.  An empty blob column is read back as an empty, non-nil slice.
\<close>

section \<open>The table (uv.go)\<close>

record Entry =
  en_Name :: bytes
  en_MTime :: int
  en_Hash :: bytes
  en_Size :: int

datatype uv_error = UvSql sql_error | UvZlib | UvHash unit

definition EnsureSchema :: "repo \<Rightarrow> repo" where
  "EnsureSchema q = q\<lparr>t_unversioned := Some (case t_unversioned q of None \<Rightarrow> [] | Some rows \<Rightarrow> rows)\<rparr>"

definition config_value :: "repo \<Rightarrow> bytes \<Rightarrow> bytes option" where
  "config_value q name = map_option cg_value (find (\<lambda>c. cg_name c = name) (t_config q))"

definition replace_config :: "repo \<Rightarrow> config_row \<Rightarrow> repo" where
  "replace_config q c = q\<lparr>t_config := filter (\<lambda>d. cg_name d \<noteq> cg_name c) (t_config q) @ [c]\<rparr>"

definition delete_config :: "repo \<Rightarrow> bytes \<Rightarrow> repo" where
  "delete_config q name = q\<lparr>t_config := filter (\<lambda>d. cg_name d \<noteq> name) (t_config q)\<rparr>"

definition InvalidateHash :: "repo \<Rightarrow> repo" where
  "InvalidateHash q = delete_config q ''uv-hash''"

text \<open>The hash policy of the repository: SHA-3 when the project code is longer than 40 characters.\<close>

definition referenceHash :: "repo \<Rightarrow> bytes" where
  "referenceHash q =
     (let projCode = (case config_value q ''project-code'' of None \<Rightarrow> [] | Some v \<Rightarrow> v)
      in if length projCode > 40 then projCode else replicate 40 CHR ''0'')"

text \<open>What is stored: the compressed bytes when they are at most 80 percent of the content.\<close>

definition stored_form :: "(bytes \<Rightarrow> bytes) \<Rightarrow> bytes \<Rightarrow> int \<times> bytes" where
  "stored_form deflate content =
     (let compressed = deflate content in
      if length compressed \<le> length content * 4 div 5 then (1, compressed) else (0, content))"

text \<open>\<open>REPLACE INTO unversioned\<close>: the name is unique.\<close>

definition replace_uv :: "unversioned_row \<Rightarrow> unversioned_row list \<Rightarrow> unversioned_row list" where
  "replace_uv r rows = filter (\<lambda>s. uv_name s \<noteq> uv_name r) rows @ [r]"

definition Write ::
  "(bytes \<Rightarrow> bytes) \<Rightarrow> (bytes \<Rightarrow> bytes) \<Rightarrow> (bytes \<Rightarrow> bytes) \<Rightarrow> repo \<Rightarrow> bytes \<Rightarrow> bytes \<Rightarrow> int \<Rightarrow> (uv_error, repo) outcome" where
  "Write sha1 sha3 deflate q name content mtime =
     (if name = [] then Panic ''uv.Write: name must not be empty''
      else bind_ok (wrap_err UvHash (ContentHash sha1 sha3 content (referenceHash q))) (\<lambda>contentHash.
               (case t_unversioned q of
                  None \<Rightarrow> Err (UvSql NoTable)
                | Some rows \<Rightarrow>
                    (let (encoding, stored) = stored_form deflate content in
                     Ok (InvalidateHash (q\<lparr>t_unversioned := Some (replace_uv
                           \<lparr>uv_name = name, uv_mtime = mtime, uv_hash = Some contentHash,
                            uv_sz = int (length content), uv_encoding = encoding,
                            uv_content = Some stored\<rparr> rows)\<rparr>))))))"

definition tombstone :: "bytes \<Rightarrow> int \<Rightarrow> unversioned_row" where
  "tombstone name mtime = \<lparr>uv_name = name, uv_mtime = mtime, uv_hash = None, uv_sz = 0,
                           uv_encoding = 0, uv_content = None\<rparr>"

text \<open>Insert a tombstone, or turn the existing row into one.\<close>

definition bury :: "bytes \<Rightarrow> int \<Rightarrow> unversioned_row list \<Rightarrow> unversioned_row list" where
  "bury name mtime rows =
     (if name \<notin> uv_name ` set rows then rows @ [tombstone name mtime]
      else map (\<lambda>r. if uv_name r = name then tombstone name mtime else r) rows)"

definition Delete :: "repo \<Rightarrow> bytes \<Rightarrow> int \<Rightarrow> (uv_error, repo) outcome" where
  "Delete q name mtime =
     (if name = [] then Panic ''uv.Delete: name must not be empty''
      else case t_unversioned q of
             None \<Rightarrow> Err (UvSql NoTable)
           | Some rows \<Rightarrow> Ok (InvalidateHash (q\<lparr>t_unversioned := Some (bury name mtime rows)\<rparr>)))"

text \<open>Content, modification time and hash; no row and a tombstone give no content and an empty hash.\<close>

definition Read :: "(bytes \<Rightarrow> bytes option) \<Rightarrow> repo \<Rightarrow> bytes \<Rightarrow> (uv_error, bytes option \<times> int \<times> bytes) outcome" where
  "Read inflate q name =
     (case t_unversioned q of
        None \<Rightarrow> Err (UvSql NoTable)
      | Some rows \<Rightarrow>
          (case find (\<lambda>r. uv_name r = name) rows of
             None \<Rightarrow> Ok (None, 0, [])
           | Some r \<Rightarrow>
               (case uv_hash r of
                  None \<Rightarrow> Ok (None, uv_mtime r, [])
                | Some h \<Rightarrow>
                    (case uv_content r of
                       None \<Rightarrow> Ok (None, uv_mtime r, h)
                     | Some stored \<Rightarrow>
                         if uv_encoding r = 1
                         then (case inflate stored of
                                 None \<Rightarrow> Err UvZlib
                               | Some data \<Rightarrow> Ok (Some data, uv_mtime r, h))
                         else Ok (Some stored, uv_mtime r, h)))))"

definition List :: "repo \<Rightarrow> (uv_error, Entry list) outcome" where
  "List q =
     (case t_unversioned q of
        None \<Rightarrow> Err (UvSql NoTable)
      | Some rows \<Rightarrow> Ok (map (\<lambda>r. \<lparr>en_Name = uv_name r, en_MTime = uv_mtime r,
                                  en_Hash = (case uv_hash r of None \<Rightarrow> [] | Some h \<Rightarrow> h),
                                  en_Size = uv_sz r\<rparr>) (sort_key uv_name rows)))"

text \<open>The text that the catalogue hash digests: one line per live file, sorted by name.\<close>

definition catalog :: "(int \<Rightarrow> bytes) \<Rightarrow> unversioned_row list \<Rightarrow> bytes" where
  "catalog datetime rows =
     concat (map (\<lambda>r. case uv_hash r of
                        None \<Rightarrow> []
                      | Some h \<Rightarrow> uv_name r @ [SPC] @ datetime (uv_mtime r) @ [SPC] @ h @ [NL])
                 (sort_key uv_name rows))"

definition ContentHash_uv ::
  "(bytes \<Rightarrow> bytes) \<Rightarrow> (int \<Rightarrow> bytes) \<Rightarrow> int \<Rightarrow> repo \<Rightarrow> repo \<times> (uv_error, bytes) outcome" where
  "ContentHash_uv sha1 datetime now q =
     (let cached = (case config_value q ''uv-hash'' of None \<Rightarrow> [] | Some v \<Rightarrow> v)
      in if cached \<noteq> [] then (q, Ok cached)
         else case t_unversioned q of
                None \<Rightarrow> (q, Err (UvSql NoTable))
              | Some rows \<Rightarrow>
                  let result = sha1 (catalog datetime rows) in
                  (replace_config q \<lparr>cg_name = ''uv-hash'', cg_value = result, cg_mtime = Some now\<rparr>, Ok result))"

section \<open>Comparing entries (status.go)\<close>

definition cmpStr :: "bytes \<Rightarrow> bytes \<Rightarrow> int" where
  "cmpStr a b = (if a < b then - 1 else if a > b then 1 else 0)"

definition Status :: "int \<Rightarrow> bytes \<Rightarrow> int \<Rightarrow> bytes \<Rightarrow> int" where
  "Status localMtime localHash remoteMtime remoteHash =
     (if localMtime = 0 then 0
      else
        let mtimeCmp = (if localMtime < remoteMtime then - 1 else if localMtime > remoteMtime then 1 else 0);
            hashCmp = cmpStr localHash remoteHash
        in if hashCmp = 0 then 3 + mtimeCmp
           else if mtimeCmp = 0 \<and> localHash = ''-'' then 5
           else if mtimeCmp = 0 \<and> remoteHash = ''-'' then 1
           else if mtimeCmp < 0 \<or> (mtimeCmp = 0 \<and> hashCmp < 0) then 1
           else 5)"

section \<open>Reading what was written\<close>

definition wf_uv :: "repo \<Rightarrow> bool" where
  "wf_uv q \<longleftrightarrow> (case t_unversioned q of None \<Rightarrow> True | Some rows \<Rightarrow> distinct (map uv_name rows))"

definition content_hash :: "(bytes \<Rightarrow> bytes) \<Rightarrow> (bytes \<Rightarrow> bytes) \<Rightarrow> repo \<Rightarrow> bytes \<Rightarrow> bytes" where
  "content_hash sha1 sha3 q content = (if length (referenceHash q) > 40 then sha3 content else sha1 content)"

lemma ContentHash_policy:
  "ContentHash sha1 sha3 content (referenceHash q) = Ok (content_hash sha1 sha3 q content)"
  by (auto simp: ContentHash_def content_hash_def referenceHash_def Let_def split: option.split)

lemma InvalidateHash_tables [simp]: "t_unversioned (InvalidateHash q) = t_unversioned q"
  by (simp add: InvalidateHash_def delete_config_def)

lemma config_value_delete [simp]:
  "config_value (delete_config q name) n = (if n = name then None else config_value q n)"
  by (simp add: config_value_def delete_config_def find_key_filter)

lemma config_value_replace [simp]:
  "config_value (replace_config q c) n = (if n = cg_name c then Some (cg_value c) else config_value q n)"
  by (simp add: config_value_def replace_config_def find_key_replace)

lemma replace_config_tables [simp]: "t_unversioned (replace_config q c) = t_unversioned q"
  by (simp add: replace_config_def)

lemma config_value_update [simp]:
  "config_value (q\<lparr>t_unversioned := x\<rparr>) n = config_value q n"
  by (simp add: config_value_def)

lemma Write_Ok:
  assumes "Write sha1 sha3 deflate q name content mtime = Ok q'"
  shows "name \<noteq> []" and "\<exists>rows encoding stored. t_unversioned q = Some rows \<and> stored_form deflate content = (encoding, stored) \<and>
     q' = InvalidateHash (q\<lparr>t_unversioned := Some (replace_uv
            \<lparr>uv_name = name, uv_mtime = mtime, uv_hash = Some (content_hash sha1 sha3 q content),
             uv_sz = int (length content), uv_encoding = encoding, uv_content = Some stored\<rparr> rows)\<rparr>)"
  using assms by (auto simp: Write_def ContentHash_policy split: if_splits option.splits prod.splits)

lemma Delete_Ok:
  assumes "Delete q name mtime = Ok q'"
  shows "name \<noteq> []" and "\<exists>rows. t_unversioned q = Some rows \<and>
     q' = InvalidateHash (q\<lparr>t_unversioned := Some (bury name mtime rows)\<rparr>)"
  using assms by (auto simp: Delete_def split: if_splits option.splits)

lemma find_replace_uv:
  "find (\<lambda>r. uv_name r = n) (replace_uv r rows) =
     (if n = uv_name r then Some r else find (\<lambda>r. uv_name r = n) rows)"
  by (simp add: replace_uv_def find_key_replace)

lemma distinct_replace_uv: "distinct (map uv_name rows) \<Longrightarrow> distinct (map uv_name (replace_uv r rows))"
  by (auto simp: replace_uv_def distinct_map_filter)

lemma distinct_bury: "distinct (map uv_name rows) \<Longrightarrow> distinct (map uv_name (bury name mtime rows))"
proof -
  have "map uv_name (map (\<lambda>r. if uv_name r = name then tombstone name mtime else r) rows) = map uv_name rows"
    by (auto simp: tombstone_def)
  then show "distinct (map uv_name rows) \<Longrightarrow> ?thesis"
    by (auto simp: bury_def simp del: map_map) (simp add: tombstone_def)
qed

lemma find_map_tombstone:
  "find (\<lambda>r. uv_name r = n) (map (\<lambda>r. if uv_name r = name then tombstone name mtime else r) rows) =
     (if n = name then (if name \<in> uv_name ` set rows then Some (tombstone name mtime) else None)
      else find (\<lambda>r. uv_name r = n) rows)"
  by (induction rows) (auto simp: tombstone_def)

lemma find_bury:
  "find (\<lambda>r. uv_name r = n) (bury name mtime rows) =
     (if n = name then Some (tombstone name mtime) else find (\<lambda>r. uv_name r = n) rows)"
proof (cases "name \<in> uv_name ` set rows")
  case False
  then have "find (\<lambda>r. uv_name r = name) rows = None" by (auto simp: find_None_iff)
  with False show ?thesis by (auto simp: bury_def find_append tombstone_def split: option.split)
qed (simp add: bury_def find_map_tombstone)

text \<open>
  What is written to the unversioned table is read back: content, time and hash under
  the repository's hash policy.  A deletion leaves a tombstone with its time.  Neither
  changes what is read under another name, and names stay unique.
\<close>

theorem uv_Write_Read:
  assumes "zlib_writer deflate inflate" "t_unversioned q = Some rows" "name \<noteq> []" "wf_uv q"
  shows "(\<exists>q'. Write sha1 sha3 deflate q name content mtime = Ok q' \<and> wf_uv q' \<and>
            Read inflate q' name = Ok (Some content, mtime, content_hash sha1 sha3 q content) \<and>
            (\<forall>n. n \<noteq> name \<longrightarrow> Read inflate q' n = Read inflate q n)) \<and>
         (\<exists>q'. Delete q name mtime = Ok q' \<and> wf_uv q' \<and> Read inflate q' name = Ok (None, mtime, []) \<and>
            (\<forall>n. n \<noteq> name \<longrightarrow> Read inflate q' n = Read inflate q n))"
proof (intro conjI)
  have inv: "inflate (deflate content) = Some content" using assms(1) by (simp add: zlib_writer_def)
  obtain q' where w: "Write sha1 sha3 deflate q name content mtime = Ok q'"
    using assms(2,3) by (cases "stored_form deflate content") (simp add: Write_def ContentHash_policy)
  from Write_Ok(2) [OF w] assms(2,4) inv show "\<exists>q'. Write sha1 sha3 deflate q name content mtime = Ok q' \<and> wf_uv q' \<and>
      Read inflate q' name = Ok (Some content, mtime, content_hash sha1 sha3 q content) \<and>
      (\<forall>n. n \<noteq> name \<longrightarrow> Read inflate q' n = Read inflate q n)"
    by (intro exI [of _ q'])
      (auto simp: w wf_uv_def distinct_replace_uv Read_def find_replace_uv stored_form_def Let_def split: if_splits)
next
  from assms(2,3) have "Delete q name mtime = Ok (InvalidateHash (q\<lparr>t_unversioned := Some (bury name mtime rows)\<rparr>))"
    by (simp add: Delete_def)
  then show "\<exists>q'. Delete q name mtime = Ok q' \<and> wf_uv q' \<and> Read inflate q' name = Ok (None, mtime, []) \<and>
      (\<forall>n. n \<noteq> name \<longrightarrow> Read inflate q' n = Read inflate q n)"
    using assms(2,4) by (auto simp: wf_uv_def distinct_bury Read_def find_bury tombstone_def)
qed

theorem uv_Write_Read_witness:
  "\<exists>q'. Write sample_sha1 sample_sha1 sample_deflate (EnsureSchema empty_repo) ''notes.txt'' ''hello'' 7 = Ok q' \<and>
     Read sample_inflate q' ''notes.txt'' = Ok (Some ''hello'', 7, sample_sha1 ''hello'')"
proof -
  have t: "t_unversioned (EnsureSchema empty_repo) = Some []" and w: "wf_uv (EnsureSchema empty_repo)"
    and h: "content_hash sample_sha1 sample_sha1 q s = sample_sha1 s" for q s
    by (simp_all add: EnsureSchema_def empty_repo_def wf_uv_def content_hash_def)
  from uv_Write_Read [OF sample_zlib t _ w, of "''notes.txt''" sample_sha1 sample_sha1 "''hello''" 7] show ?thesis
    by (auto simp: h)
qed

section \<open>The cached catalogue hash\<close>

text \<open>
  The operations of the package, and the change of a time that the protocol makes directly
  (followed by \<open>InvalidateHash\<close>), in any order.
\<close>

definition set_mtime :: "repo \<Rightarrow> bytes \<Rightarrow> int \<Rightarrow> repo" where
  "set_mtime q name mtime = InvalidateHash (q\<lparr>t_unversioned :=
     map_option (map (\<lambda>r. if uv_name r = name then r\<lparr>uv_mtime := mtime\<rparr> else r)) (t_unversioned q)\<rparr>)"

inductive uv_step :: "(bytes \<Rightarrow> bytes) \<Rightarrow> (bytes \<Rightarrow> bytes) \<Rightarrow> (bytes \<Rightarrow> bytes) \<Rightarrow> (int \<Rightarrow> bytes) \<Rightarrow> repo \<Rightarrow> repo \<Rightarrow> bool"
  for sha1 sha3 deflate datetime where
  step_schema: "uv_step sha1 sha3 deflate datetime q (EnsureSchema q)"
| step_write: "Write sha1 sha3 deflate q name content mtime = Ok q' \<Longrightarrow> uv_step sha1 sha3 deflate datetime q q'"
| step_delete: "Delete q name mtime = Ok q' \<Longrightarrow> uv_step sha1 sha3 deflate datetime q q'"
| step_mtime: "uv_step sha1 sha3 deflate datetime q (set_mtime q name mtime)"
| step_hash: "uv_step sha1 sha3 deflate datetime q (fst (ContentHash_uv sha1 datetime now q))"

text \<open>A cached hash is the hash of the present table.\<close>

definition cache_coherent :: "(bytes \<Rightarrow> bytes) \<Rightarrow> (int \<Rightarrow> bytes) \<Rightarrow> repo \<Rightarrow> bool" where
  "cache_coherent sha1 datetime q \<longleftrightarrow>
     (case config_value q ''uv-hash'' of
        None \<Rightarrow> True
      | Some v \<Rightarrow> v = [] \<or> (\<exists>rows. t_unversioned q = Some rows \<and> v = sha1 (catalog datetime rows)))"

lemma InvalidateHash_coherent [simp]: "cache_coherent sha1 datetime (InvalidateHash q)"
  by (simp add: cache_coherent_def InvalidateHash_def)

lemma ContentHash_uv_coherent:
  assumes "cache_coherent sha1 datetime q" "t_unversioned q = Some rows"
  shows "snd (ContentHash_uv sha1 datetime now q) = Ok (sha1 (catalog datetime rows))"
    and "cache_coherent sha1 datetime (fst (ContentHash_uv sha1 datetime now q))"
    and "t_unversioned (fst (ContentHash_uv sha1 datetime now q)) = t_unversioned q"
  using assms by (auto simp: cache_coherent_def ContentHash_uv_def Let_def split: option.splits)

lemma uv_step_coherent:
  "uv_step sha1 sha3 deflate datetime q q' \<Longrightarrow> cache_coherent sha1 datetime q \<Longrightarrow> cache_coherent sha1 datetime q'"
proof (induction rule: uv_step.induct)
  case (step_schema q)
  then show ?case by (auto simp: cache_coherent_def EnsureSchema_def split: option.splits)
next
  case (step_hash q now)
  then show ?case
    by (cases "t_unversioned q")
      (auto simp: ContentHash_uv_coherent, auto simp: ContentHash_uv_def cache_coherent_def split: option.splits)
qed (auto simp: set_mtime_def dest: Write_Ok(2) Delete_Ok(2))

text \<open>
  The catalogue hash that two repositories compare to see whether they are in sync is
  never stale: after any sequence of operations on the unversioned table \<open>ContentHash\<close>
  returns the digest of the table as it is, whether it is cached or not.
\<close>

theorem uv_ContentHash_fresh:
  assumes "(uv_step sha1 sha3 deflate datetime)\<^sup>*\<^sup>* empty_repo q" "t_unversioned q = Some rows"
  shows "snd (ContentHash_uv sha1 datetime now q) = Ok (sha1 (catalog datetime rows))"
proof -
  have "cache_coherent sha1 datetime q"
    using assms(1) by (induction rule: rtranclp_induct)
      (auto simp: uv_step_coherent, simp add: cache_coherent_def empty_repo_def config_value_def)
  then show ?thesis using assms(2) by (rule ContentHash_uv_coherent(1))
qed

theorem uv_ContentHash_fresh_witness:
  "snd (ContentHash_uv sample_sha1 (\<lambda>_. ''t'') 9 (EnsureSchema empty_repo)) = Ok (sample_sha1 (catalog (\<lambda>_. ''t'') []))"
proof (rule uv_ContentHash_fresh)
  show "(uv_step sample_sha1 sample_sha1 sample_deflate (\<lambda>_. ''t''))\<^sup>*\<^sup>* empty_repo (EnsureSchema empty_repo)"
    by (rule r_into_rtranclp) (rule step_schema)
  show "t_unversioned (EnsureSchema empty_repo) = Some []" by (simp add: EnsureSchema_def empty_repo_def)
qed

section \<open>Replicated entries\<close>

text \<open>
  The contract of a register that several replicas write and exchange: of two different
  entries exactly one replaces the other, consistently.  Then replicas that have seen the
  same entries, in whatever order and however often, hold the same one.
\<close>

locale replicated_register =
  fixes valid :: "'e \<Rightarrow> bool" and newer :: "'e \<Rightarrow> 'e \<Rightarrow> bool"
  assumes newer_total: "valid a \<Longrightarrow> valid b \<Longrightarrow> a \<noteq> b \<Longrightarrow> newer a b \<or> newer b a"
    and newer_asym: "valid a \<Longrightarrow> valid b \<Longrightarrow> newer a b \<Longrightarrow> \<not> newer b a"
    and newer_trans: "valid a \<Longrightarrow> valid b \<Longrightarrow> valid c \<Longrightarrow> newer a b \<Longrightarrow> newer b c \<Longrightarrow> newer a c"
begin

abbreviation receive :: "'e \<Rightarrow> 'e \<Rightarrow> 'e" where
  "receive mine theirs \<equiv> (if newer mine theirs then theirs else mine)"

lemma foldl_receive_latest:
  "list_all valid (e # es) \<Longrightarrow>
   foldl receive e es \<in> set (e # es) \<and> (\<forall>x \<in> set (e # es). x \<noteq> foldl receive e es \<longrightarrow> newer x (foldl receive e es))"
proof (induction es arbitrary: e)
  case (Cons f es)
  let ?g = "receive e f"
  have v: "list_all valid (?g # es)" "valid e" "valid f" "valid ?g" using Cons.prems by auto
  from Cons.IH [OF v(1)] have IH: "foldl receive ?g es \<in> set (?g # es)"
    "\<forall>x \<in> set (?g # es). x \<noteq> foldl receive ?g es \<longrightarrow> newer x (foldl receive ?g es)" by auto
  have valid_m: "valid (foldl receive ?g es)" using IH(1) v(1) by (auto simp: list_all_iff)
  have le: "x = ?g \<or> newer x ?g" if "x \<in> {e, f}" for x
    using that newer_total [OF v(2,3)] newer_asym [OF v(2,3)] by auto
  have "newer x (foldl receive ?g es)" if "x \<in> {e, f}" "x \<noteq> foldl receive ?g es" for x
    using le [OF that(1)] IH(2) that newer_trans [OF _ v(4) valid_m, of x] v(2,3) by auto
  moreover have "foldl receive ?g es \<in> set (e # f # es)" using IH(1) by auto
  ultimately show ?case using IH(2) by auto
qed simp

lemma convergence:
  assumes "list_all valid (e # es)" "set (e # es) = set (f # fs)"
  shows "foldl receive e es = foldl receive f fs"
proof -
  have v: "list_all valid (f # fs)" using assms by (metis list_all_iff)
  note 1 = foldl_receive_latest [OF assms(1)] and 2 = foldl_receive_latest [OF v]
  let ?x = "foldl receive e es" and ?y = "foldl receive f fs"
  have x: "?x \<in> set (f # fs)" and y: "?y \<in> set (e # es)" using 1 2 assms(2) by blast+
  then have vx: "valid ?x" and vy: "valid ?y" using assms(1) v by (auto simp: list_all_iff)
  show ?thesis
  proof (rule ccontr)
    assume ne: "?x \<noteq> ?y"
    from 2 x ne have "newer ?x ?y" by blast
    moreover from 1 y ne have "newer ?y ?x" by (metis (no_types))
    ultimately show False using newer_asym [OF vx vy] by blast
  qed
qed

end

text \<open>
  The entries of one file as they are exchanged: time and hash, \<open>-\<close> for a deletion.  The
  codes 0, 1 and 2 tell the receiver to take over the remote entry.
\<close>

definition uv_newer :: "int \<times> bytes \<Rightarrow> int \<times> bytes \<Rightarrow> bool" where
  "uv_newer mine theirs \<longleftrightarrow> Status (fst mine) (snd mine) (fst theirs) (snd theirs) < 3"

lemma Status_cases:
  "lm \<noteq> 0 \<Longrightarrow> Status lm lh rm rh < 3 \<longleftrightarrow>
     lm < rm \<or> lm = rm \<and> lh \<noteq> rh \<and> lh \<noteq> ''-'' \<and> (rh = ''-'' \<or> lh < rh)"
  by (auto simp: Status_def Let_def cmpStr_def)

interpretation uv_entry: replicated_register "\<lambda>e. fst e \<noteq> (0 :: int)" uv_newer
proof (unfold_locales, goal_cases)
  case (1 a b)
  then show ?case by (cases a; cases b) (auto simp: uv_newer_def Status_cases)
next
  case (2 a b)
  then show ?case by (cases a; cases b) (auto simp: uv_newer_def Status_cases)
next
  case (3 a b c)
  then show ?case by (cases a; cases b; cases c) (auto simp: uv_newer_def Status_cases)
qed



text \<open>
  A local tombstone has an empty hash, not \<open>-\<close>.  At equal times it therefore loses
  against a remote file, and the holder of the file loses against the tombstone: each end
  takes over the other's entry, although the comment promises that a deletion always wins;
  and two equal tombstones are not recognised as identical.
\<close>

theorem uv_tombstone_tie:
  assumes "m \<noteq> 0" "h \<noteq> []" "h \<noteq> ''-''"
  shows "Status m [] m h = 1 \<and> Status m h m ''-'' = 1 \<and> Status m [] m ''-'' = 1"
proof -
  have "[] < h" using assms(2) by (cases h) simp_all
  with assms show ?thesis by (auto simp: Status_def Let_def cmpStr_def)
qed

theorem uv_tombstone_tie_witness:
  "Status 5 [] 5 ''a'' = 1 \<and> Status 5 ''a'' 5 ''-'' = 1 \<and> Status 5 [] 5 ''-'' = 1"
  by (rule uv_tombstone_tie) simp_all

end
