(* ===== verification/Go_Heap.thy ===== *)
theory Go_Heap
  imports Main "HOL-Library.Multiset"
begin

text \<open>
  The package \<open>container/heap\<close> on a slice: \<open>Push\<close> and \<open>Pop\<close> with their sift operations, for
  any \<open>Less\<close>.
\<close>

definition swap_at :: "'a list \<Rightarrow> nat \<Rightarrow> nat \<Rightarrow> 'a list" where
  "swap_at h i j = h[j := h ! i, i := h ! j]"

function heap_up :: "('a \<Rightarrow> 'a \<Rightarrow> bool) \<Rightarrow> 'a list \<Rightarrow> nat \<Rightarrow> 'a list" where
  "heap_up lt h j =
     (let i = (j - 1) div 2 in
      if i = j \<or> \<not> lt (h ! j) (h ! i) then h else heap_up lt (swap_at h i j) i)"
  by pat_completeness auto
termination
  by (relation "measure (\<lambda>(lt, h, j). j)") auto

function heap_down :: "('a \<Rightarrow> 'a \<Rightarrow> bool) \<Rightarrow> 'a list \<Rightarrow> nat \<Rightarrow> nat \<Rightarrow> 'a list" where
  "heap_down lt h i n =
     (let j1 = 2 * i + 1 in
      if n \<le> j1 then h
      else let j = (if j1 + 1 < n \<and> lt (h ! (j1 + 1)) (h ! j1) then j1 + 1 else j1) in
           if \<not> lt (h ! j) (h ! i) then h else heap_down lt (swap_at h i j) j n)"
  by pat_completeness auto
termination
  by (relation "measure (\<lambda>(lt, h, i, n). n - i)") (auto split: if_splits)

declare heap_up.simps [simp del] heap_down.simps [simp del]

definition heap_Push :: "('a \<Rightarrow> 'a \<Rightarrow> bool) \<Rightarrow> 'a list \<Rightarrow> 'a \<Rightarrow> 'a list" where
  "heap_Push lt h x = heap_up lt (h @ [x]) (length h)"

definition heap_Pop :: "('a \<Rightarrow> 'a \<Rightarrow> bool) \<Rightarrow> 'a list \<Rightarrow> 'a \<times> 'a list" where
  "heap_Pop lt h =
     (let n = length h - 1; h' = heap_down lt (swap_at h 0 n) 0 n in (h' ! n, take n h'))"

lemma swap_at [simp]: "i < length h \<Longrightarrow> j < length h \<Longrightarrow> mset (swap_at h i j) = mset h" "length (swap_at h i j) = length h"
  by (simp_all add: swap_at_def mset_swap)

lemma mset_heap_up: "j < length h \<Longrightarrow> mset (heap_up lt h j) = mset h"
proof (induction lt h j rule: heap_up.induct)
  case (1 lt h j)
  then show ?case by (subst heap_up.simps) (auto simp: Let_def)
qed

lemma mset_heap_down: "n \<le> length h \<Longrightarrow> mset (heap_down lt h i n) = mset h \<and> length (heap_down lt h i n) = length h"
proof (induction lt h i n rule: heap_down.induct)
  case (1 lt h i n)
  then show ?case by (subst (1 2) heap_down.simps) (auto simp: Let_def split: if_splits)
qed

lemma mset_heap_Push [simp]: "mset (heap_Push lt h x) = add_mset x (mset h)"
  by (simp add: heap_Push_def mset_heap_up)

lemma set_heap_Push [simp]: "set (heap_Push lt h x) = insert x (set h)"
  by (metis mset_heap_Push set_mset_add_mset_insert set_mset_mset)

lemma length_heap_Push [simp]: "length (heap_Push lt h x) = Suc (length h)"
  by (metis mset_heap_Push size_add_mset size_mset)

lemma mset_heap_Pop:
  assumes "h \<noteq> []" "heap_Pop lt h = (x, h')"
  shows "mset h = add_mset x (mset h')"
proof -
  let ?n = "length h - 1" and ?d = "heap_down lt (swap_at h 0 (length h - 1)) 0 (length h - 1)"
  have d: "mset ?d = mset h" "length ?d = Suc ?n"
    using assms(1) mset_heap_down [of ?n "swap_at h 0 ?n" lt 0] by auto
  have "?d = take ?n ?d @ [?d ! ?n]" using d(2) by (metis lessI take_Suc_conv_app_nth take_all_iff le_refl)
  then have "mset ?d = add_mset (?d ! ?n) (mset (take ?n ?d))" by (metis mset.simps mset_append union_mset_add_mset_right add.right_neutral)
  with assms d(1) show ?thesis by (auto simp: heap_Pop_def Let_def)
qed

lemma set_heap_Pop: "h \<noteq> [] \<Longrightarrow> heap_Pop lt h = (x, h') \<Longrightarrow> set h = insert x (set h')"
  by (metis mset_heap_Pop set_mset_add_mset_insert set_mset_mset)

lemma length_heap_Pop: "h \<noteq> [] \<Longrightarrow> heap_Pop lt h = (x, h') \<Longrightarrow> length h = Suc (length h')"
  by (metis mset_heap_Pop size_add_mset size_mset)

end
