(* ===== verification/Tag.thy ===== *)
theory Tag
  imports Blob Deck Go_Heap
begin

text \<open>
  Tags (\<open>internal/tag\<close>): applying a tag to an artifact, with or without a control artifact
  (\<open>tag.go\<close>), and propagation along primary links (\<open>propagate.go\<close>).
\<close>

section \<open>Propagation (propagate.go)\<close>

datatype tag_error =
    TooManyIterations | TagSql sql_error | ScanNull | InvalidTagType int | StoreControl blob_error

record queueItem =
  qi_rid :: rid
  qi_mtime :: int

definition Less :: "queueItem \<Rightarrow> queueItem \<Rightarrow> bool" where
  "Less a b \<longleftrightarrow> qi_mtime a < qi_mtime b"

definition cancel_type :: int where "cancel_type = 0"
definition singleton_type :: int where "singleton_type = 1"
definition propagating_type :: int where "propagating_type = 2"

definition maxIterations :: nat where "maxIterations = 1000000"

text \<open>The \<open>doit\<close> column: whether the tag goes on to, or is removed from, a child.\<close>

definition doit :: "repo \<Rightarrow> int \<Rightarrow> int \<Rightarrow> int \<Rightarrow> rid \<Rightarrow> bool" where
  "doit q tagid tagType mtime cid =
     (if tagType = propagating_type
      then (case tagxref_of q tagid cid of None \<Rightarrow> True | Some x \<Rightarrow> tx_srcid x = 0 \<and> tx_mtime x < mtime)
      else (case tagxref_of q tagid cid of None \<Rightarrow> False | Some x \<Rightarrow> tx_srcid x = 0))"

definition children :: "repo \<Rightarrow> int \<Rightarrow> int \<Rightarrow> int \<Rightarrow> rid \<Rightarrow> (rid \<times> int \<times> bool) list" where
  "children q tagid tagType mtime currentRid =
     map (\<lambda>p. (pl_cid p, pl_mtime p, doit q tagid tagType mtime (pl_cid p)))
       (filter (\<lambda>p. pl_pid p = currentRid \<and> pl_isprim p) (t_plink q))"

definition set_bgcolor :: "repo \<Rightarrow> bytes option \<Rightarrow> rid \<Rightarrow> repo" where
  "set_bgcolor q v r = q\<lparr>t_event := map (\<lambda>e. if ev_objid e = r then e\<lparr>ev_bgcolor := v\<rparr> else e) (t_event q)\<rparr>"

definition delete_tagxref :: "repo \<Rightarrow> int \<Rightarrow> rid \<Rightarrow> repo" where
  "delete_tagxref q tagid r = q\<lparr>t_tagxref := filter (\<lambda>x. \<not> (tx_rid x = r \<and> tx_tagid x = tagid)) (t_tagxref q)\<rparr>"

definition apply_child :: "int \<Rightarrow> int \<Rightarrow> rid \<Rightarrow> int \<Rightarrow> bytes \<Rightarrow> bytes \<Rightarrow> repo \<Rightarrow> rid \<Rightarrow> repo" where
  "apply_child tagid tagType origID mtime v tagName q cid =
     (if tagType = propagating_type then
        let q1 = q\<lparr>t_tagxref := replace_tagxref \<lparr>tx_tagid = tagid, tx_tagtype = 2, tx_srcid = 0, tx_origid = origID,
                      tx_value = Some v, tx_mtime = mtime, tx_rid = cid\<rparr> (t_tagxref q)\<rparr>
        in if tagName = ''bgcolor'' then set_bgcolor q1 (Some v) cid else q1
      else
        let q1 = delete_tagxref q tagid cid
        in if tagName = ''bgcolor'' then set_bgcolor q1 None cid else q1)"

fun process_children ::
  "int \<Rightarrow> int \<Rightarrow> rid \<Rightarrow> int \<Rightarrow> bytes \<Rightarrow> bytes \<Rightarrow> repo \<Rightarrow> queueItem list \<Rightarrow> (rid \<times> int \<times> bool) list
     \<Rightarrow> repo \<times> queueItem list" where
  "process_children tagid tagType origID mtime v tagName q pq [] = (q, pq)"
| "process_children tagid tagType origID mtime v tagName q pq ((cid, childMtime, do_it) # cs) =
     (if do_it then
        process_children tagid tagType origID mtime v tagName
          (apply_child tagid tagType origID mtime v tagName q cid)
          (heap_Push Less pq \<lparr>qi_rid = cid, qi_mtime = childMtime\<rparr>) cs
      else process_children tagid tagType origID mtime v tagName q pq cs)"

function propagate_loop ::
  "int \<Rightarrow> int \<Rightarrow> rid \<Rightarrow> int \<Rightarrow> bytes \<Rightarrow> bytes \<Rightarrow> repo \<Rightarrow> queueItem list \<Rightarrow> rid list \<Rightarrow> nat
     \<Rightarrow> repo \<times> (tag_error, unit) outcome" where
  "propagate_loop tagid tagType origID mtime v tagName q pq visited iterations =
     (if length pq > 0 then
        (if iterations + 1 > maxIterations then (q, Err TooManyIterations)
         else case heap_Pop Less pq of (item, pq') \<Rightarrow>
           if qi_rid item \<in> set visited
           then propagate_loop tagid tagType origID mtime v tagName q pq' visited (iterations + 1)
           else case process_children tagid tagType origID mtime v tagName q pq'
                       (children q tagid tagType mtime (qi_rid item)) of
                  (q', pq'') \<Rightarrow>
                    propagate_loop tagid tagType origID mtime v tagName q' pq'' (qi_rid item # visited) (iterations + 1))
      else (q, Ok ()))"
  by pat_completeness auto
termination
  by (relation "measure (\<lambda>(tagid, tagType, origID, mtime, v, tagName, q, pq, visited, iterations). maxIterations - iterations)")
    auto

declare propagate_loop.simps [simp del]

definition propagate ::
  "repo \<Rightarrow> int \<Rightarrow> int \<Rightarrow> rid \<Rightarrow> int \<Rightarrow> bytes \<Rightarrow> bytes \<Rightarrow> rid \<Rightarrow> repo \<times> (tag_error, unit) outcome" where
  "propagate q tagid tagType origID mtime v tagName pid =
     propagate_loop tagid tagType origID mtime v tagName q
       (heap_Push Less [] \<lparr>qi_rid = pid, qi_mtime = 0\<rparr>) [] 0"

definition propagate_entry :: "repo \<Rightarrow> rid \<Rightarrow> tagxref_row \<Rightarrow> bytes \<Rightarrow> repo \<times> (tag_error, unit) outcome" where
  "propagate_entry q r x v =
     (case map_of (t_tag q) (tx_tagid x) of
        None \<Rightarrow> (q, Err (TagSql NoRows))
      | Some tagname \<Rightarrow>
          propagate q (tx_tagid x) (if tx_tagtype x = singleton_type then cancel_type else tx_tagtype x)
            (tx_origid x) (tx_mtime x) v tagname r)"

fun propagate_entries :: "repo \<Rightarrow> rid \<Rightarrow> (tagxref_row \<times> bytes) list \<Rightarrow> repo \<times> (tag_error, unit) outcome" where
  "propagate_entries q r [] = (q, Ok ())"
| "propagate_entries q r ((x, v) # xs) =
     (case propagate_entry q r x v of
        (q', Ok _) \<Rightarrow> propagate_entries q' r xs
      | (q', Err e) \<Rightarrow> (q', Err e)
      | (q', Panic s) \<Rightarrow> (q', Panic s))"

text \<open>The entries are read first; a NULL value cannot be read into a Go string.\<close>

fun scan_entries :: "tagxref_row list \<Rightarrow> (tagxref_row \<times> bytes) list option" where
  "scan_entries [] = Some []"
| "scan_entries (x # xs) =
     (case tx_value x of
        None \<Rightarrow> None
      | Some v \<Rightarrow> map_option ((#) (x, v)) (scan_entries xs))"

definition PropagateAll :: "repo \<Rightarrow> rid \<Rightarrow> repo \<times> (tag_error, unit) outcome" where
  "PropagateAll q r =
     (if r \<le> 0 then (q, Ok ())
      else case scan_entries (filter (\<lambda>x. tx_rid x = r) (t_tagxref q)) of
             None \<Rightarrow> (q, Err ScanNull)
           | Some entries \<Rightarrow> propagate_entries q r entries)"

section \<open>Applying tags (tag.go)\<close>

record ApplyOpts =
  ao_TargetRID :: rid
  ao_SrcRID :: rid
  ao_TagName :: bytes
  ao_TagType :: int
  ao_Value :: bytes
  ao_MTime :: int

record TagOpts =
  to_TargetRID :: rid
  to_TagName :: bytes
  to_TagType :: int
  to_Value :: bytes
  to_User :: bytes
  to_Time :: gotime

definition ensureTag :: "repo \<Rightarrow> bytes \<Rightarrow> repo \<times> int" where
  "ensureTag q name =
     (case find (\<lambda>t. snd t = name) (t_tag q) of
        Some t \<Rightarrow> (q, fst t)
      | None \<Rightarrow> let tagid = foldr max (map fst (t_tag q)) 0 + 1 in (q\<lparr>t_tag := t_tag q @ [(tagid, name)]\<rparr>, tagid))"

text \<open>The row of the target itself, and its colour.\<close>

definition set_target :: "repo \<Rightarrow> int \<Rightarrow> ApplyOpts \<Rightarrow> repo" where
  "set_target q tagid opts =
     (let q1 = q\<lparr>t_tagxref := replace_tagxref \<lparr>tx_tagid = tagid, tx_tagtype = ao_TagType opts,
                   tx_srcid = ao_SrcRID opts, tx_origid = ao_TargetRID opts, tx_value = Some (ao_Value opts),
                   tx_mtime = ao_MTime opts, tx_rid = ao_TargetRID opts\<rparr> (t_tagxref q)\<rparr>
      in if ao_TagName opts = ''bgcolor'' \<and> ao_TagType opts = propagating_type
         then set_bgcolor q1 (Some (ao_Value opts)) (ao_TargetRID opts) else q1)"

definition ApplyTagWithTx :: "repo \<Rightarrow> ApplyOpts \<Rightarrow> repo \<times> (tag_error, unit) outcome" where
  "ApplyTagWithTx q opts =
     (if ao_TagName opts = [] then (q, Panic ''tag.ApplyTagWithTx: opts.TagName must not be empty'')
      else if ao_TargetRID opts \<le> 0 then (q, Panic ''tag.ApplyTagWithTx: opts.TargetRID must be positive'')
      else case ensureTag q (ao_TagName opts) of (q1, tagid) \<Rightarrow>
        let q2 = set_target q1 tagid opts
        in if ao_TagType opts = propagating_type \<or> ao_TagType opts = cancel_type
           then propagate q2 tagid (ao_TagType opts) (ao_TargetRID opts) (ao_MTime opts) (ao_Value opts)
                  (ao_TagName opts) (ao_TargetRID opts)
           else (q2, Ok ()))"

text \<open>\<open>ApplyTag\<close> has the same body within a transaction.\<close>

definition ApplyTag :: "repo \<Rightarrow> ApplyOpts \<Rightarrow> repo \<times> (tag_error, unit) outcome" where
  "ApplyTag q opts =
     (if ao_TagName opts = [] then (q, Panic ''tag.ApplyTag: opts.TagName must not be empty'')
      else if ao_TargetRID opts \<le> 0 then (q, Panic ''tag.ApplyTag: opts.TargetRID must be positive'')
      else with_tx q (ApplyTagWithTx q opts))"

definition deck_tag_type :: "int \<Rightarrow> byte option" where
  "deck_tag_type t =
     (if t = cancel_type then Some TagCancel
      else if t = singleton_type then Some TagSingleton
      else if t = propagating_type then Some TagPropagating else None)"

definition control_deck :: "byte \<Rightarrow> TagOpts \<Rightarrow> gotime \<Rightarrow> bytes \<Rightarrow> Deck" where
  "control_deck ty opts t targetUUID =
     empty_deck\<lparr>dk_Type := Control, dk_D := t, dk_U := to_User opts,
       dk_T := [\<lparr>tc_Type = ty, tc_Name = to_TagName opts, tc_UUID = targetUUID, tc_Value = to_Value opts\<rparr>]\<rparr>"

definition AddTag_tx ::
  "hasher \<Rightarrow> (bytes \<Rightarrow> bytes) \<Rightarrow> (bytes \<Rightarrow> bytes) \<Rightarrow> (bytes \<Rightarrow> bytes option) \<Rightarrow> bool \<Rightarrow> repo \<Rightarrow> TagOpts \<Rightarrow> gotime
     \<Rightarrow> repo \<times> (tag_error, rid) outcome" where
  "AddTag_tx md5hex sha1 deflate inflate buggify q opts t =
     (case blob_by_rid q (to_TargetRID opts) of
        None \<Rightarrow> (q, Err (TagSql NoRows))
      | Some b \<Rightarrow>
          (case deck_tag_type (to_TagType opts) of
             None \<Rightarrow> (q, Err (InvalidTagType (to_TagType opts)))
           | Some ty \<Rightarrow>
               (case Store sha1 deflate inflate buggify q (Marshal md5hex (control_deck ty opts t (bl_uuid b))) of
                  (q1, Panic s) \<Rightarrow> (q1, Panic s)
                | (q1, Err e) \<Rightarrow> (q1, Err (StoreControl e))
                | (q1, Ok (controlRid, u)) \<Rightarrow>
                    (case ensureTag q1 (to_TagName opts) of (q2, tagid) \<Rightarrow>
                     let q3 = q2\<lparr>t_tagxref := replace_tagxref \<lparr>tx_tagid = tagid, tx_tagtype = to_TagType opts,
                                   tx_srcid = controlRid, tx_origid = to_TargetRID opts, tx_value = Some (to_Value opts),
                                   tx_mtime = TimeToJulian t, tx_rid = to_TargetRID opts\<rparr> (t_tagxref q2)\<rparr>
                     in case (if to_TagType opts = propagating_type \<or> to_TagType opts = cancel_type
                              then propagate q3 tagid (to_TagType opts) (to_TargetRID opts) (TimeToJulian t)
                                     (to_Value opts) (to_TagName opts) (to_TargetRID opts)
                              else (q3, Ok ())) of
                          (q4, Ok _) \<Rightarrow> (q4\<lparr>t_unsent := insert_key controlRid (t_unsent q4)\<rparr>, Ok controlRid)
                        | (q4, Err e) \<Rightarrow> (q4, Err e)
                        | (q4, Panic s) \<Rightarrow> (q4, Panic s)))))"

definition AddTag ::
  "hasher \<Rightarrow> (bytes \<Rightarrow> bytes) \<Rightarrow> (bytes \<Rightarrow> bytes) \<Rightarrow> (bytes \<Rightarrow> bytes option) \<Rightarrow> bool \<Rightarrow> gotime \<Rightarrow> repo \<Rightarrow> TagOpts
     \<Rightarrow> repo \<times> (tag_error, rid) outcome" where
  "AddTag md5hex sha1 deflate inflate buggify now q opts =
     (if to_TagName opts = [] then (q, Panic ''tag.AddTag: opts.TagName must not be empty'')
      else if to_TargetRID opts \<le> 0 then (q, Panic ''tag.AddTag: opts.TargetRID must be positive'')
      else with_tx q (AddTag_tx md5hex sha1 deflate inflate buggify q opts
                        (if to_Time opts = zero_time then now else to_Time opts)))"

section \<open>What propagation does\<close>

text \<open>The artifacts that a tag set on \<open>pid\<close> reaches: primary descendants, as far as \<open>doit\<close> lets it pass.\<close>

inductive reached :: "repo \<Rightarrow> int \<Rightarrow> int \<Rightarrow> int \<Rightarrow> rid \<Rightarrow> rid \<Rightarrow> bool" for q tagid tagType mtime pid where
  reached_child: "p \<in> set (t_plink q) \<Longrightarrow> pl_isprim p \<Longrightarrow> pl_pid p = pid \<Longrightarrow> doit q tagid tagType mtime (pl_cid p)
    \<Longrightarrow> reached q tagid tagType mtime pid (pl_cid p)"
| reached_next: "reached q tagid tagType mtime pid r \<Longrightarrow> p \<in> set (t_plink q) \<Longrightarrow> pl_isprim p \<Longrightarrow> pl_pid p = r
    \<Longrightarrow> doit q tagid tagType mtime (pl_cid p) \<Longrightarrow> reached q tagid tagType mtime pid (pl_cid p)"

definition row_after :: "int \<Rightarrow> int \<Rightarrow> rid \<Rightarrow> int \<Rightarrow> bytes \<Rightarrow> rid \<Rightarrow> tagxref_row option" where
  "row_after tagid tagType origID mtime v r =
     (if tagType = propagating_type
      then Some \<lparr>tx_tagid = tagid, tx_tagtype = 2, tx_srcid = 0, tx_origid = origID, tx_value = Some v,
                 tx_mtime = mtime, tx_rid = r\<rparr>
      else None)"

definition color_after :: "int \<Rightarrow> bytes \<Rightarrow> bytes \<Rightarrow> rid set \<Rightarrow> event_row list \<Rightarrow> event_row list" where
  "color_after tagType v tagName A es =
     (if tagName = ''bgcolor''
      then map (\<lambda>e. if ev_objid e \<in> A
                   then e\<lparr>ev_bgcolor := (if tagType = propagating_type then Some v else None)\<rparr> else e) es
      else es)"

text \<open>The state after the artifacts in \<open>A\<close> have been updated.\<close>

definition updated ::
  "int \<Rightarrow> int \<Rightarrow> rid \<Rightarrow> int \<Rightarrow> bytes \<Rightarrow> bytes \<Rightarrow> repo \<Rightarrow> rid set \<Rightarrow> repo \<Rightarrow> bool" where
  "updated tagid tagType origID mtime v tagName q0 A q \<longleftrightarrow>
     (\<exists>X. q = q0\<lparr>t_tagxref := X, t_event := color_after tagType v tagName A (t_event q0)\<rparr>) \<and>
     (\<forall>i r. tagxref_of q i r = (if i = tagid \<and> r \<in> A then row_after tagid tagType origID mtime v r
                               else tagxref_of q0 i r))"

lemma updated_empty: "updated tagid tagType origID mtime v tagName q {} q"
  by (auto simp: updated_def color_after_def intro: exI [of _ "t_tagxref q"])

lemma tagxref_of_delete:
  "tagxref_of (delete_tagxref q tagid r) i s = (if i = tagid \<and> s = r then None else tagxref_of q i s)"
  by (auto simp: tagxref_of_def delete_tagxref_def find_pair_filter)

lemma tagxref_of_set_bgcolor [simp]: "tagxref_of (set_bgcolor q w r) i s = tagxref_of q i s"
  by (simp add: tagxref_of_def set_bgcolor_def)

lemma tagxref_of_apply_child:
  "tagxref_of (apply_child tagid tagType origID mtime v tagName q cid) i r =
     (if i = tagid \<and> r = cid then row_after tagid tagType origID mtime v r else tagxref_of q i r)"
  by (auto simp: apply_child_def Let_def row_after_def tagxref_of_delete)
    (auto simp: tagxref_of_def find_replace_tagxref)

lemma updated_apply_child:
  assumes "updated tagid tagType origID mtime v tagName q0 A q"
  shows "updated tagid tagType origID mtime v tagName q0 (insert cid A)
           (apply_child tagid tagType origID mtime v tagName q cid)"
proof -
  from assms obtain X where q: "q = q0\<lparr>t_tagxref := X, t_event := color_after tagType v tagName A (t_event q0)\<rparr>"
    by (auto simp: updated_def)
  have "\<exists>Y. apply_child tagid tagType origID mtime v tagName q cid =
      q\<lparr>t_tagxref := Y, t_event := color_after tagType v tagName {cid} (t_event q)\<rparr>"
    by (auto simp: apply_child_def Let_def set_bgcolor_def delete_tagxref_def color_after_def)
  moreover have "color_after tagType v tagName {cid} (color_after tagType v tagName A es) =
      color_after tagType v tagName (insert cid A) es" for es
    by (auto simp: color_after_def)
  ultimately have "\<exists>Y. apply_child tagid tagType origID mtime v tagName q cid =
      q0\<lparr>t_tagxref := Y, t_event := color_after tagType v tagName (insert cid A) (t_event q0)\<rparr>"
    by (auto simp: q)
  with assms show ?thesis by (simp add: updated_def tagxref_of_apply_child)
qed

abbreviation to_do :: "(rid \<times> int \<times> bool) list \<Rightarrow> rid set" where
  "to_do cs \<equiv> {c. \<exists>m. (c, m, True) \<in> set cs}"

lemma process_children_spec:
  assumes "updated tagid tagType origID mtime v tagName q0 A q" "finite A"
    and "distinct (map fst cs)" "to_do cs \<inter> A = {}"
    and "process_children tagid tagType origID mtime v tagName q pq cs = (q', pq')"
  shows "updated tagid tagType origID mtime v tagName q0 (A \<union> to_do cs) q' \<and>
         qi_rid ` set pq' = qi_rid ` set pq \<union> to_do cs \<and> length pq' + card A = length pq + card (A \<union> to_do cs)"
  using assms
proof (induction cs arbitrary: q pq A)
  case (Cons x cs)
  obtain c m d where x: "x = (c, m, d)" by (cases x)
  show ?case
  proof (cases d)
    case False
    then have "to_do (x # cs) = to_do cs" by (auto simp: x)
    with Cons False show ?thesis by (simp add: x)
  next
    case True
    let ?q = "apply_child tagid tagType origID mtime v tagName q c"
    let ?pq = "heap_Push Less pq \<lparr>qi_rid = c, qi_mtime = m\<rparr>"
    have todo: "to_do (x # cs) = insert c (to_do cs)" using True by (auto simp: x)
    have c: "c \<notin> A" "c \<notin> to_do cs" using Cons.prems(3,4) True by (force simp: x)+
    have "updated tagid tagType origID mtime v tagName q0 (insert c A) ?q"
      by (rule updated_apply_child [OF Cons.prems(1)])
    moreover have "process_children tagid tagType origID mtime v tagName ?q ?pq cs = (q', pq')"
      using Cons.prems(5) True by (simp add: x)
    moreover have "to_do cs \<inter> insert c A = {}" using Cons.prems(4) c todo by auto
    ultimately have "updated tagid tagType origID mtime v tagName q0 (insert c A \<union> to_do cs) q' \<and>
        qi_rid ` set pq' = qi_rid ` set ?pq \<union> to_do cs \<and>
        length pq' + card (insert c A) = length ?pq + card (insert c A \<union> to_do cs)"
      using Cons.IH [of "insert c A" ?q ?pq] Cons.prems(2,3) by (simp add: x)
    with c Cons.prems(2) show ?thesis unfolding todo by auto
  qed
qed simp

definition wf_plink :: "repo \<Rightarrow> bool" where
  "wf_plink q \<longleftrightarrow> distinct (map (\<lambda>p. (pl_pid p, pl_cid p)) (t_plink q))"

definition passes :: "repo \<Rightarrow> int \<Rightarrow> int \<Rightarrow> int \<Rightarrow> rid \<Rightarrow> rid set" where
  "passes q tagid tagType mtime r =
     {pl_cid p | p. p \<in> set (t_plink q) \<and> pl_isprim p \<and> pl_pid p = r \<and> doit q tagid tagType mtime (pl_cid p)}"

lemma doit_updated:
  assumes "updated tagid tagType origID mtime v tagName q0 A q"
  shows "doit q tagid tagType mtime c \<longleftrightarrow> c \<notin> A \<and> doit q0 tagid tagType mtime c"
  using assms by (auto simp: updated_def doit_def row_after_def)

lemma to_do_children:
  assumes "updated tagid tagType origID mtime v tagName q0 A q"
  shows "to_do (children q tagid tagType mtime r) = passes q0 tagid tagType mtime r - A"
proof -
  have "t_plink q = t_plink q0" using assms by (auto simp: updated_def)
  then show ?thesis by (auto simp: children_def passes_def doit_updated [OF assms])
qed

lemma distinct_children:
  assumes "wf_plink q" shows "distinct (map fst (children q tagid tagType mtime r))"
proof -
  have "distinct (map pl_cid (filter (\<lambda>p. pl_pid p = r \<and> pl_isprim p) ps))"
    if "distinct (map (\<lambda>p. (pl_pid p, pl_cid p)) ps)" for ps
    using that by (induction ps) (auto simp: image_iff)
  with assms show ?thesis by (simp add: children_def wf_plink_def o_def)
qed

lemma propagate_loop_spec:
  assumes wf: "wf_plink q0" and len: "length (t_plink q0) < maxIterations"
    and "updated tagid tagType origID mtime v tagName q0 A q" "finite A"
    and "A \<subseteq> Collect (reached q0 tagid tagType mtime pid)" "A \<subseteq> pl_cid ` set (t_plink q0)"
    and "qi_rid ` set pq \<union> set visited = insert pid A"
    and "\<forall>r \<in> set visited. passes q0 tagid tagType mtime r \<subseteq> A"
    and "iterations + length pq \<le> 1 + card A"
  shows "\<exists>q'. propagate_loop tagid tagType origID mtime v tagName q pq visited iterations = (q', Ok ()) \<and>
     updated tagid tagType origID mtime v tagName q0 (Collect (reached q0 tagid tagType mtime pid)) q'"
  using assms(3-)
proof (induction tagid tagType origID mtime v tagName q pq visited iterations arbitrary: A rule: propagate_loop.induct)
  case (1 tagid tagType origID mtime v tagName q pq visited iterations)
  let ?R = "Collect (reached q0 tagid tagType mtime pid)"
  show ?case
  proof (cases "pq = []")
    case True
    have "r \<in> A" if "reached q0 tagid tagType mtime pid r" for r
      using that
    proof induction
      case (reached_child p)
      then have "pl_cid p \<in> passes q0 tagid tagType mtime pid" by (auto simp: passes_def)
      with "1.prems"(5,6) True show ?case by auto
    next
      case (reached_next r p)
      then have "pl_cid p \<in> passes q0 tagid tagType mtime r" "r \<in> set visited"
        using "1.prems"(5) True by (auto simp: passes_def)
      with "1.prems"(6) show ?case by auto
    qed
    with "1.prems"(3) have "A = ?R" by auto
    with "1.prems"(1) True show ?thesis by (subst propagate_loop.simps) auto
  next
    case False
    obtain item pq' where pop: "heap_Pop Less pq = (item, pq')" by fastforce
    let ?r = "qi_rid item"
    have pq: "set pq = insert item (set pq')" "length pq = Suc (length pq')"
      using set_heap_Pop [OF False pop] length_heap_Pop [OF False pop] .
    have "card A \<le> length (t_plink q0)"
      using card_mono [OF _ "1.prems"(4)] card_image_le [of "set (t_plink q0)" pl_cid] card_length [of "t_plink q0"]
      by (meson List.finite_set finite_imageI le_trans)
    then have it: "\<not> iterations + 1 > maxIterations" using "1.prems"(7) pq(2) len by simp
    show ?thesis
    proof (cases "?r \<in> set visited")
      case True
      have "\<exists>q'. propagate_loop tagid tagType origID mtime v tagName q pq' visited (iterations + 1) = (q', Ok ()) \<and>
          updated tagid tagType origID mtime v tagName q0 ?R q'"
        using "1.IH"(1) [OF _ it pop [symmetric] True, of A] False "1.prems" pq True by (auto simp: insert_absorb)
      with False it pop True show ?thesis by (subst propagate_loop.simps) simp
    next
      case new: False
      obtain q1 pq1 where step: "process_children tagid tagType origID mtime v tagName q pq'
          (children q tagid tagType mtime ?r) = (q1, pq1)" by fastforce
      let ?B = "passes q0 tagid tagType mtime ?r"
      have "t_plink q = t_plink q0" using "1.prems"(1) by (auto simp: updated_def)
      then have "wf_plink q" using wf by (simp add: wf_plink_def)
      from process_children_spec [OF "1.prems"(1,2) distinct_children [OF this] _ step]
      have s: "updated tagid tagType origID mtime v tagName q0 (A \<union> ?B) q1"
        "qi_rid ` set pq1 = qi_rid ` set pq' \<union> (?B - A)" "length pq1 + card A = length pq' + card (A \<union> ?B)"
        unfolding to_do_children [OF "1.prems"(1)] by auto
      have r: "?r = pid \<or> reached q0 tagid tagType mtime pid ?r" using "1.prems"(3,5) pq(1) by auto
      have B: "?B \<subseteq> ?R" "?B \<subseteq> pl_cid ` set (t_plink q0)"
        using r by (auto simp: passes_def intro: reached_child reached_next)
      have "\<exists>q'. propagate_loop tagid tagType origID mtime v tagName q1 pq1 (?r # visited) (iterations + 1) = (q', Ok ()) \<and>
          updated tagid tagType origID mtime v tagName q0 ?R q'"
      proof (rule "1.IH"(2) [OF _ it pop [symmetric] new step [symmetric] s(1)])
        show "finite (A \<union> ?B)" using "1.prems"(2) B(2) by (simp add: finite_subset)
        show "qi_rid ` set pq1 \<union> set (?r # visited) = insert pid (A \<union> ?B)" using "1.prems"(5) s(2) pq(1) by auto
      qed (use False "1.prems" B s pq in auto)
      with False it pop new step show ?thesis by (subst propagate_loop.simps) simp
    qed
  qed
qed

lemma propagate_spec:
  assumes "wf_plink q" "length (t_plink q) < maxIterations"
  shows "\<exists>q'. propagate q tagid tagType origID mtime v tagName pid = (q', Ok ()) \<and>
     updated tagid tagType origID mtime v tagName q (Collect (reached q tagid tagType mtime pid)) q'"
  unfolding propagate_def
  by (rule propagate_loop_spec [OF assms updated_empty]) auto

lemma set_target_plink [simp]: "t_plink (set_target q tagid opts) = t_plink q"
  by (simp add: set_target_def Let_def set_bgcolor_def)

lemma ensureTag_plink [simp]: "ensureTag q name = (q1, tagid) \<Longrightarrow> t_plink q1 = t_plink q"
  by (auto simp: ensureTag_def Let_def split: option.splits)

lemma tagxref_of_set_target:
  "tagxref_of (set_target q tagid opts) i r =
     (if i = tagid \<and> r = ao_TargetRID opts
      then Some \<lparr>tx_tagid = tagid, tx_tagtype = ao_TagType opts, tx_srcid = ao_SrcRID opts,
                 tx_origid = ao_TargetRID opts, tx_value = Some (ao_Value opts), tx_mtime = ao_MTime opts,
                 tx_rid = ao_TargetRID opts\<rparr>
      else tagxref_of q i r)"
  by (auto simp: set_target_def Let_def) (auto simp: tagxref_of_def find_replace_tagxref)

text \<open>
  Claim C33.  Applying a propagating or a cancelling tag always succeeds on a repository with fewer than a
  million links, also when the links have cycles.  Besides the row of the target itself it
  changes exactly the rows of this tag on the primary descendants that the tag reaches:
  propagation stops at descendants that have the tag set directly or by a later
  propagation.  A cancelled tag is removed from exactly those that had it by propagation.
  Rows of other tags and all other tables but the colours of events stay as they are.
\<close>

theorem ApplyTag_propagates:
  assumes "wf_plink q" "length (t_plink q) < maxIterations" "ao_TagName opts \<noteq> []" "ao_TargetRID opts > 0"
    and "ao_TagType opts \<in> {propagating_type, cancel_type}" "ensureTag q (ao_TagName opts) = (q1, tagid)"
  shows "\<exists>q'. ApplyTag q opts = (q', Ok ()) \<and>
     updated tagid (ao_TagType opts) (ao_TargetRID opts) (ao_MTime opts) (ao_Value opts) (ao_TagName opts)
       (set_target q1 tagid opts)
       {r. reached (set_target q1 tagid opts) tagid (ao_TagType opts) (ao_MTime opts) (ao_TargetRID opts) r} q'"
proof -
  let ?q2 = "set_target q1 tagid opts"
  have "wf_plink ?q2" "length (t_plink ?q2) < maxIterations"
    using assms(1,2) ensureTag_plink [OF assms(6)] by (simp_all add: wf_plink_def)
  from propagate_spec [OF this] obtain q' where
    q': "propagate ?q2 tagid (ao_TagType opts) (ao_TargetRID opts) (ao_MTime opts) (ao_Value opts) (ao_TagName opts)
           (ao_TargetRID opts) = (q', Ok ())"
      "updated tagid (ao_TagType opts) (ao_TargetRID opts) (ao_MTime opts) (ao_Value opts) (ao_TagName opts) ?q2
         (Collect (reached ?q2 tagid (ao_TagType opts) (ao_MTime opts) (ao_TargetRID opts))) q'" by blast
  then have "ApplyTag q opts = (q', Ok ())"
    using assms(3-6) by (auto simp: ApplyTag_def ApplyTagWithTx_def with_tx_def)
  with q'(2) show ?thesis by auto
qed

definition sample_links :: repo where
  "sample_links = empty_repo\<lparr>t_plink := [\<lparr>pl_pid = 1, pl_cid = 2, pl_isprim = True, pl_mtime = 5, pl_baseid = None\<rparr>,
     \<lparr>pl_pid = 2, pl_cid = 3, pl_isprim = True, pl_mtime = 6, pl_baseid = None\<rparr>], t_tag := [(8, ''branch'')]\<rparr>"

definition sample_tag :: ApplyOpts where
  "sample_tag = \<lparr>ao_TargetRID = 1, ao_SrcRID = 9, ao_TagName = ''branch'', ao_TagType = 2, ao_Value = ''dev'', ao_MTime = 7\<rparr>"

theorem ApplyTag_propagates_witness:
  "\<exists>q'. ApplyTag sample_links sample_tag = (q', Ok ()) \<and>
     map_option tx_value (tagxref_of q' 8 2) = Some (Some ''dev'')"
proof -
  let ?q = "set_target sample_links 8 sample_tag"
  have wf: "wf_plink sample_links" "length (t_plink sample_links) < maxIterations"
    and e: "ensureTag sample_links (ao_TagName sample_tag) = (sample_links, 8)"
    by (simp_all add: wf_plink_def sample_links_def maxIterations_def ensureTag_def sample_tag_def)
  have o: "ao_TagName sample_tag \<noteq> []" "ao_TargetRID sample_tag > 0"
    "ao_TagType sample_tag \<in> {propagating_type, cancel_type}"
    by (simp_all add: sample_tag_def propagating_type_def)
  from ApplyTag_propagates [OF wf o e] obtain q' where
    q': "ApplyTag sample_links sample_tag = (q', Ok ())"
    "updated 8 2 1 7 ''dev'' ''branch'' ?q {r. reached ?q 8 2 7 1 r} q'"
    by (auto simp only: sample_tag_def ApplyOpts.select_convs)
  have "\<lparr>pl_pid = 1, pl_cid = 2, pl_isprim = True, pl_mtime = 5, pl_baseid = None\<rparr> \<in> set (t_plink ?q)"
    by (simp add: sample_links_def)
  from reached_child [OF this, of 1 8 2 7] have "reached ?q 8 2 7 1 2"
    by (simp add: doit_def tagxref_of_set_target sample_tag_def propagating_type_def) (simp add: tagxref_of_def sample_links_def empty_repo_def)
  with q' show ?thesis by (simp add: updated_def row_after_def propagating_type_def)
qed

text \<open>
  A tag row records the time of its artifact, but \<open>ApplyTag\<close> does not compare times: of two
  applications of a singleton tag to the same target the one processed last stays, also when
  the other one is more recent.  Repositories that receive the same control artifacts in
  different orders end up with different values.
\<close>

theorem ApplyTag_last_applied_wins:
  assumes "ao_TagName o1 \<noteq> []" "ao_TargetRID o1 > 0" "ao_TagType o1 = singleton_type"
    and "ao_TagName o2 = ao_TagName o1" "ao_TargetRID o2 = ao_TargetRID o1" "ao_TagType o2 = singleton_type"
  shows "\<exists>q1 q2 tagid. ApplyTag q o1 = (q1, Ok ()) \<and> ApplyTag q1 o2 = (q2, Ok ()) \<and>
     map_option tx_value (tagxref_of q2 tagid (ao_TargetRID o1)) = Some (Some (ao_Value o2)) \<and>
     map_option tx_mtime (tagxref_of q2 tagid (ao_TargetRID o1)) = Some (ao_MTime o2)"
proof -
  obtain q0 tagid where e: "ensureTag q (ao_TagName o1) = (q0, tagid)" by fastforce
  let ?q1 = "set_target q0 tagid o1"
  have tag: "t_tag ?q1 = t_tag q0" by (simp add: set_target_def Let_def set_bgcolor_def)
  have "find (\<lambda>t. snd t = ao_TagName o1) (t_tag q0) \<noteq> None \<and> (\<forall>t. find (\<lambda>t. snd t = ao_TagName o1) (t_tag q0) = Some t \<longrightarrow> fst t = tagid)"
    using e by (auto simp: ensureTag_def Let_def find_append split: option.splits)
  then have e2: "ensureTag ?q1 (ao_TagName o1) = (?q1, tagid)"
    by (auto simp: ensureTag_def tag)
  have ne: "singleton_type \<noteq> propagating_type" "singleton_type \<noteq> cancel_type"
    by (simp_all add: singleton_type_def propagating_type_def cancel_type_def)
  have "ApplyTag q o1 = (?q1, Ok ())" "ApplyTag ?q1 o2 = (set_target ?q1 tagid o2, Ok ())"
    using assms e e2 ne by (simp_all add: ApplyTag_def ApplyTagWithTx_def with_tx_def)
  then show ?thesis using assms(5) by (auto simp: tagxref_of_set_target)
qed

theorem ApplyTag_last_applied_wins_witness:
  "\<exists>q1 q2 tagid. ApplyTag sample_links (sample_tag\<lparr>ao_TagType := 1, ao_MTime := 9\<rparr>) = (q1, Ok ()) \<and>
     ApplyTag q1 (sample_tag\<lparr>ao_TagType := 1, ao_Value := ''old''\<rparr>) = (q2, Ok ()) \<and>
     map_option tx_value (tagxref_of q2 tagid 1) = Some (Some ''old'')"
  using ApplyTag_last_applied_wins [of "sample_tag\<lparr>ao_TagType := 1, ao_MTime := 9\<rparr>"
      "sample_tag\<lparr>ao_TagType := 1, ao_Value := ''old''\<rparr>" sample_links]
  by (fastforce simp: sample_tag_def singleton_type_def)

end
