(* ===== verification/Auth.thy ===== *)
theory Auth
  imports Repo_Tables Go_Time Blob
begin

text \<open>
  Users, capabilities and login (\<open>internal/auth\<close>), with the client's side of the login card
  (\<open>internal/sync/auth.go\<close>).  SHA-1 is an argument; \<open>now\<close> is the wall clock in nanoseconds.
  Invite tokens (base64 and JSON) are not modelled.
\<close>

section \<open>Capabilities (auth.go)\<close>

record User =
  ur_UID :: int
  ur_Login :: bytes
  ur_Cap :: bytes
  ur_CExpire :: "int option"
  ur_Info :: bytes

definition HasCapability :: "bytes \<Rightarrow> byte \<Rightarrow> bool" where
  "HasCapability caps required \<longleftrightarrow> required \<in> set caps"

definition CanPush :: "bytes \<Rightarrow> bool" where "CanPush caps = HasCapability caps CHR ''i''"
definition CanPull :: "bytes \<Rightarrow> bool" where "CanPull caps = HasCapability caps CHR ''o''"
definition CanClone :: "bytes \<Rightarrow> bool" where "CanClone caps = HasCapability caps CHR ''g''"
definition CanPushUV :: "bytes \<Rightarrow> bool" where "CanPushUV caps = HasCapability caps CHR ''y''"
definition CanSyncPrivate :: "bytes \<Rightarrow> bool" where "CanSyncPrivate caps = HasCapability caps CHR ''x''"

section \<open>The user table (user.go)\<close>

datatype auth_error = AuthSql sql_error | UserNotFound bytes | ErrAuthFailed

definition user_row_of :: "repo \<Rightarrow> bytes \<Rightarrow> user_row option" where
  "user_row_of q login = find (\<lambda>u. us_login u = login) (t_user q)"

definition hashPassword :: "(bytes \<Rightarrow> bytes) \<Rightarrow> bytes \<Rightarrow> bytes \<Rightarrow> bytes \<Rightarrow> bytes" where
  "hashPassword sha1 projectCode login password = sha1 (projectCode @ ''/'' @ login @ ''/'' @ password)"

definition CreateUser ::
  "(bytes \<Rightarrow> bytes) \<Rightarrow> repo \<Rightarrow> bytes \<Rightarrow> bytes \<Rightarrow> bytes \<Rightarrow> bytes \<Rightarrow> (auth_error, repo) outcome" where
  "CreateUser sha1 q projectCode login password caps =
     (if projectCode = [] then Panic ''auth.CreateUser: projectCode must not be empty''
      else if login = [] then Panic ''auth.CreateUser: login must not be empty''
      else if user_row_of q login \<noteq> None then Err (AuthSql UniqueFailed)
      else Ok (q\<lparr>t_user := t_user q @ [\<lparr>us_uid = foldr max (map us_uid (t_user q)) 0 + 1, us_login = login,
                 us_pw = Some (hashPassword sha1 projectCode login password), us_cap = caps,
                 us_cexpire = None, us_info = None\<rparr>]\<rparr>))"

definition user_of_row :: "user_row \<Rightarrow> User" where
  "user_of_row u = \<lparr>ur_UID = us_uid u, ur_Login = us_login u, ur_Cap = us_cap u, ur_CExpire = None,
                    ur_Info = (case us_info u of None \<Rightarrow> [] | Some s \<Rightarrow> s)\<rparr>"

definition GetUser :: "repo \<Rightarrow> bytes \<Rightarrow> (auth_error, User) outcome" where
  "GetUser q login =
     (case user_row_of q login of None \<Rightarrow> Err (UserNotFound login) | Some u \<Rightarrow> Ok (user_of_row u))"

definition ListUsers :: "repo \<Rightarrow> User list" where
  "ListUsers q = map user_of_row (sort_key us_login (t_user q))"

definition update_user :: "repo \<Rightarrow> bytes \<Rightarrow> (user_row \<Rightarrow> user_row) \<Rightarrow> (auth_error, repo) outcome" where
  "update_user q login f =
     (if user_row_of q login = None then Err (UserNotFound login)
      else Ok (q\<lparr>t_user := map (\<lambda>u. if us_login u = login then f u else u) (t_user q)\<rparr>))"

definition UpdateCaps :: "repo \<Rightarrow> bytes \<Rightarrow> bytes \<Rightarrow> (auth_error, repo) outcome" where
  "UpdateCaps q login caps =
     (if login = [] then Panic ''auth.UpdateCaps: login must not be empty''
      else update_user q login (\<lambda>u. u\<lparr>us_cap := caps\<rparr>))"

definition SetPassword :: "(bytes \<Rightarrow> bytes) \<Rightarrow> repo \<Rightarrow> bytes \<Rightarrow> bytes \<Rightarrow> bytes \<Rightarrow> (auth_error, repo) outcome" where
  "SetPassword sha1 q projectCode login password =
     (if projectCode = [] then Panic ''auth.SetPassword: projectCode must not be empty''
      else update_user q login (\<lambda>u. u\<lparr>us_pw := Some (hashPassword sha1 projectCode login password)\<rparr>))"

definition DeleteUser :: "repo \<Rightarrow> bytes \<Rightarrow> (auth_error, repo) outcome" where
  "DeleteUser q login =
     (if login = [] then Panic ''auth.DeleteUser: login must not be empty''
      else if user_row_of q login = None then Err (UserNotFound login)
      else Ok (q\<lparr>t_user := filter (\<lambda>u. us_login u \<noteq> login) (t_user q)\<rparr>))"

section \<open>Login (verify.go, sync/auth.go)\<close>

definition parse_cexpire :: "bytes \<Rightarrow> int option" where
  "parse_cexpire s =
     (case time_Parse_instant CHR ''T'' True s of
        Some t \<Rightarrow> Some t
      | None \<Rightarrow> time_Parse_instant SPC False s)"

text \<open>A NULL password cannot be read into a Go string, which fails the login.\<close>

definition VerifyLogin ::
  "(bytes \<Rightarrow> bytes) \<Rightarrow> int \<Rightarrow> repo \<Rightarrow> bytes \<Rightarrow> bytes \<Rightarrow> bytes \<Rightarrow> bytes \<Rightarrow> (auth_error, User) outcome" where
  "VerifyLogin sha1 now q projectCode user nonce signature =
     (if projectCode = [] then Panic ''auth.VerifyLogin: projectCode must not be empty''
      else case user_row_of q user of
             None \<Rightarrow> Err ErrAuthFailed
           | Some u \<Rightarrow>
               (case us_pw u of
                  None \<Rightarrow> Err ErrAuthFailed
                | Some storedPW \<Rightarrow>
                    (let expiry = (case us_cexpire u of
                                     None \<Rightarrow> Ok None
                                   | Some s \<Rightarrow>
                                       (case parse_cexpire s of
                                          None \<Rightarrow> Err ErrAuthFailed
                                        | Some t \<Rightarrow> if now > t then Err ErrAuthFailed else Ok (Some t)))
                     in bind_ok expiry (\<lambda>t.
                          if sha1 (nonce @ storedPW) \<noteq> signature then Err ErrAuthFailed
                          else Ok ((user_of_row u)\<lparr>ur_CExpire := t\<rparr>)))))"

text \<open>The login card of a client: user, nonce and signature.\<close>

definition computeLogin :: "(bytes \<Rightarrow> bytes) \<Rightarrow> bytes \<Rightarrow> bytes \<Rightarrow> bytes \<Rightarrow> bytes \<Rightarrow> (auth_error, bytes \<times> bytes \<times> bytes) outcome" where
  "computeLogin sha1 user password projectCode payload =
     (if user = [] then Panic ''sync.computeLogin: user must not be empty''
      else if projectCode = [] then Panic ''sync.computeLogin: projectCode must not be empty''
      else let nonce = sha1 payload;
               sharedSecret = sha1 (projectCode @ ''/'' @ user @ ''/'' @ password)
           in Ok (user, nonce, sha1 (nonce @ sharedSecret)))"

definition appendRandomComment :: "bytes \<Rightarrow> bytes \<Rightarrow> bytes" where
  "appendRandomComment payload rb = payload @ ''# '' @ concat (map hex_byte rb) @ [NL]"

section \<open>Properties\<close>

lemma user_row_of_append:
  "user_row_of q login = None \<Longrightarrow> us_login u = login \<Longrightarrow> user_row_of (q\<lparr>t_user := t_user q @ [u]\<rparr>) n =
     (if n = login then Some u else user_row_of q n)"
  by (auto simp: user_row_of_def find_append split: option.split)

lemma user_row_of_map:
  assumes "\<And>u. us_login (f u) = us_login u"
  shows "user_row_of (q\<lparr>t_user := map (\<lambda>u. if us_login u = login then f u else u) (t_user q)\<rparr>) n =
     (if n = login then map_option f (user_row_of q n) else user_row_of q n)"
proof -
  have "find (\<lambda>u. us_login u = n) (map (\<lambda>u. if us_login u = login then f u else u) us) =
      (if n = login then map_option f (find (\<lambda>u. us_login u = n) us) else find (\<lambda>u. us_login u = n) us)" for us
    using assms by (induction us) auto
  then show ?thesis by (simp add: user_row_of_def)
qed

lemma VerifyLogin_row:
  assumes "user_row_of q user = Some u" "us_pw u = Some pw" "us_cexpire u = None" "projectCode \<noteq> []"
  shows "VerifyLogin sha1 now q projectCode user nonce s =
     (if sha1 (nonce @ pw) \<noteq> s then Err ErrAuthFailed else Ok (user_of_row u))"
  using assms by (simp add: VerifyLogin_def user_of_row_def)

text \<open>
  Claim C35.  The login protocol end to end: a client that knows the password of a created user is
  accepted with that user's capabilities, whatever payload it signs; a signature that was
  not made from the stored password hash is refused; changed capabilities and a changed
  password take effect, and a deleted user is refused.
\<close>

theorem login_lifecycle:
  assumes "user_row_of q login = None" "login \<noteq> []" "projectCode \<noteq> []"
  shows "\<exists>q1 nonce s. CreateUser sha1 q projectCode login password caps = Ok q1 \<and>
     computeLogin sha1 login password projectCode payload = Ok (login, nonce, s) \<and>
     (\<exists>u. VerifyLogin sha1 now q1 projectCode login nonce s = Ok u \<and> ur_Login u = login \<and> ur_Cap u = caps) \<and>
     (\<forall>n' s'. s' \<noteq> sha1 (n' @ hashPassword sha1 projectCode login password) \<longrightarrow>
        VerifyLogin sha1 now q1 projectCode login n' s' = Err ErrAuthFailed) \<and>
     (\<exists>q2 u. UpdateCaps q1 login caps' = Ok q2 \<and> VerifyLogin sha1 now q2 projectCode login nonce s = Ok u \<and> ur_Cap u = caps') \<and>
     (\<exists>q3 n3 s3 u. SetPassword sha1 q1 projectCode login password' = Ok q3 \<and>
        computeLogin sha1 login password' projectCode payload = Ok (login, n3, s3) \<and>
        VerifyLogin sha1 now q3 projectCode login n3 s3 = Ok u \<and> ur_Cap u = caps) \<and>
     (\<exists>q4. DeleteUser q1 login = Ok q4 \<and> VerifyLogin sha1 now q4 projectCode login nonce s = Err ErrAuthFailed)"
proof -
  define u where "u = \<lparr>us_uid = foldr max (map us_uid (t_user q)) 0 + 1, us_login = login,
     us_pw = Some (hashPassword sha1 projectCode login password), us_cap = caps, us_cexpire = None, us_info = None\<rparr>"
  define q1 where "q1 = q\<lparr>t_user := t_user q @ [u]\<rparr>"
  let ?c = "\<lambda>u. u\<lparr>us_cap := caps'\<rparr>"
  let ?p = "\<lambda>u. u\<lparr>us_pw := Some (hashPassword sha1 projectCode login password')\<rparr>"
  have create: "CreateUser sha1 q projectCode login password caps = Ok q1"
    using assms by (simp add: CreateUser_def u_def q1_def)
  have row: "user_row_of q1 login = Some u"
    unfolding q1_def by (subst user_row_of_append [OF assms(1)]) (simp_all add: u_def)
  have u: "us_pw u = Some (hashPassword sha1 projectCode login password)" "us_cexpire u = None"
    "us_login u = login" "us_cap u = caps" by (simp_all add: u_def)
  have rc: "user_row_of (q1\<lparr>t_user := map (\<lambda>u. if us_login u = login then ?c u else u) (t_user q1)\<rparr>) login = Some (?c u)"
    and rp: "user_row_of (q1\<lparr>t_user := map (\<lambda>u. if us_login u = login then ?p u else u) (t_user q1)\<rparr>) login = Some (?p u)"
    by (subst user_row_of_map; simp add: row)+
  have rd: "user_row_of (q1\<lparr>t_user := filter (\<lambda>u. us_login u \<noteq> login) (t_user q1)\<rparr>) login = None"
    by (auto simp: user_row_of_def find_None_iff)
  note verify = VerifyLogin_row [OF row u(1,2) assms(3)] VerifyLogin_row [OF rc _ _ assms(3)]
    VerifyLogin_row [OF rp _ _ assms(3)]
  show ?thesis
    using assms(2,3) create
    by (auto simp: computeLogin_def Let_def UpdateCaps_def SetPassword_def DeleteUser_def update_user_def row verify u
        user_of_row_def VerifyLogin_def [of _ _ "q1\<lparr>t_user := filter _ _\<rparr>"] rd)
      (simp_all add: hashPassword_def)
qed

theorem login_lifecycle_witness:
  "\<exists>q1 nonce s. CreateUser sample_sha1 empty_repo ''pc'' ''ann'' ''secret'' ''io'' = Ok q1 \<and>
     computeLogin sample_sha1 ''ann'' ''secret'' ''pc'' ''pull'' = Ok (''ann'', nonce, s) \<and>
     (\<exists>u. VerifyLogin sample_sha1 0 q1 ''pc'' ''ann'' nonce s = Ok u \<and> ur_Cap u = ''io'')"
proof -
  have "user_row_of empty_repo ''ann'' = None" by (simp add: user_row_of_def empty_repo_def)
  from login_lifecycle [OF this, of "''pc''" sample_sha1 "''secret''" "''io''" "''pull''" 0] show ?thesis by fastforce
qed

end
