(* ===== verification/Manifest.thy ===== *)
theory Manifest
  imports Tag Content_Store Deck_Roundtrip "HOL-Library.AList"
begin

text \<open>
  Check-in manifests (\<open>internal/manifest\<close>: \<open>manifest.go\<close>, \<open>files.go\<close>): creating a check-in with
  its file blobs, manifest, links, event and tags, delta manifests, and listing the files of
  a check-in.  The library functions are bundled in a record; fault injection is off, as in
  production.
\<close>

section \<open>Libraries\<close>

record libs =
  l_md5 :: hasher
  l_sha1 :: "bytes \<Rightarrow> bytes"
  l_sha3 :: "bytes \<Rightarrow> bytes"
  l_deflate :: "bytes \<Rightarrow> bytes"
  l_inflate :: "bytes \<Rightarrow> bytes option"

abbreviation store :: "libs \<Rightarrow> repo \<Rightarrow> bytes \<Rightarrow> repo \<times> (blob_error, rid \<times> bytes) outcome" where
  "store L \<equiv> Store (l_sha1 L) (l_deflate L) (l_inflate L) False"

abbreviation expand :: "libs \<Rightarrow> repo \<Rightarrow> rid \<Rightarrow> (content_error, bytes) outcome" where
  "expand L \<equiv> Expand (l_inflate L) (\<lambda>_. False) False"

section \<open>Data\<close>

record File =
  fl_Name :: bytes
  fl_Content :: bytes
  fl_Perm :: bytes

record CheckinOpts =
  ck_Files :: "File list"
  ck_Comment :: bytes
  ck_User :: bytes
  ck_Parent :: rid
  ck_MergeParents :: "rid list"
  ck_Delta :: bool
  ck_Time :: gotime
  ck_Tags :: "TagCard list"

record FileEntry =
  fe_Name :: bytes
  fe_UUID :: bytes
  fe_Perm :: bytes

datatype manifest_error =
    MfBlob blob_error | MfContent content_error | MfDeck deck_error | MfSql sql_error | MfTag tag_error
  | BaselineMissing bytes | BlobMissing bytes | PathRequired | InvalidStart rid

section \<open>Building the manifest (manifest.go)\<close>

fun storeFileBlobs :: "libs \<Rightarrow> repo \<Rightarrow> File list \<Rightarrow> repo \<times> (manifest_error, FileCard list \<times> rid list) outcome" where
  "storeFileBlobs L q [] = (q, Ok ([], []))"
| "storeFileBlobs L q (f # fs) =
     (case store L q (fl_Content f) of
        (q1, Ok (r, uuid)) \<Rightarrow>
          (case storeFileBlobs L q1 fs of
             (q2, Ok (cards, rids)) \<Rightarrow>
               (q2, Ok (\<lparr>fc_Name = fl_Name f, fc_UUID = uuid, fc_Perm = fl_Perm f, fc_OldName = []\<rparr> # cards, r # rids))
           | (q2, Err e) \<Rightarrow> (q2, Err e)
           | (q2, Panic s) \<Rightarrow> (q2, Panic s))
      | (q1, Err e) \<Rightarrow> (q1, Err (MfBlob e))
      | (q1, Panic s) \<Rightarrow> (q1, Panic s))"

definition uuid_of :: "repo \<Rightarrow> rid \<Rightarrow> (manifest_error, bytes) outcome" where
  "uuid_of q r = (case blob_by_rid q r of None \<Rightarrow> Err (MfSql NoRows) | Some b \<Rightarrow> Ok (bl_uuid b))"

fun merge_parent_uuids :: "repo \<Rightarrow> rid \<Rightarrow> rid list \<Rightarrow> (manifest_error, bytes list) outcome" where
  "merge_parent_uuids q parent [] = Ok []"
| "merge_parent_uuids q parent (mp # mps) =
     (if mp \<le> 0 \<or> mp = parent then merge_parent_uuids q parent mps
      else bind_ok (uuid_of q mp) (\<lambda>u. bind_ok (merge_parent_uuids q parent mps) (\<lambda>us. Ok (u # us))))"

definition deck_parents :: "repo \<Rightarrow> CheckinOpts \<Rightarrow> (manifest_error, bytes list) outcome" where
  "deck_parents q opts =
     (if ck_Parent opts > 0
      then bind_ok (uuid_of q (ck_Parent opts)) (\<lambda>u.
           bind_ok (merge_parent_uuids q (ck_Parent opts) (ck_MergeParents opts)) (\<lambda>us. Ok (u # us)))
      else Ok [])"

definition trunk_tags :: "TagCard list" where
  "trunk_tags = [\<lparr>tc_Type = TagPropagating, tc_Name = ''branch'', tc_UUID = ''*'', tc_Value = ''trunk''\<rparr>,
                 \<lparr>tc_Type = TagSingleton, tc_Name = ''sym-trunk'', tc_UUID = ''*'', tc_Value = []\<rparr>]"

definition deck_tags :: "CheckinOpts \<Rightarrow> TagCard list" where
  "deck_tags opts =
     (if length (ck_Tags opts) > 0 then ck_Tags opts
      else if ck_Parent opts = 0 then trunk_tags else [])"

text \<open>The hash a baseline gives a file name (the last card of a name counts).\<close>

definition base_uuid :: "FileCard list \<Rightarrow> bytes \<Rightarrow> bytes option" where
  "base_uuid cards name = map_of (rev (map (\<lambda>f. (fc_Name f, fc_UUID f)) cards)) name"

text \<open>
  The cards of a delta manifest: changed and new files, then deleted ones.  Go iterates over
  a map for the deleted ones; \<open>Marshal\<close> sorts all cards by name.
\<close>

definition deltaFCards :: "FileCard list \<Rightarrow> FileCard list \<Rightarrow> FileCard list" where
  "deltaFCards baseF fullFCards =
     filter (\<lambda>f. base_uuid baseF (fc_Name f) \<noteq> Some (fc_UUID f)) fullFCards @
     map (\<lambda>n. \<lparr>fc_Name = n, fc_UUID = [], fc_Perm = [], fc_OldName = []\<rparr>)
       (filter (\<lambda>n. n \<notin> fc_Name ` set fullFCards) (remdups (map fc_Name baseF)))"

definition load_deck :: "libs \<Rightarrow> repo \<Rightarrow> rid \<Rightarrow> (manifest_error, Deck) outcome" where
  "load_deck L q r = bind_ok (wrap_err MfContent (expand L q r)) (\<lambda>data. wrap_err MfDeck (Parse (l_md5 L) data))"

definition applyDelta :: "libs \<Rightarrow> repo \<Rightarrow> Deck \<Rightarrow> FileCard list \<Rightarrow> rid \<Rightarrow> (manifest_error, Deck) outcome" where
  "applyDelta L q d fullFCards parentRid =
     bind_ok (load_deck L q parentRid) (\<lambda>parentDeck.
       let baselineUUID = (if dk_B parentDeck = []
                           then (case blob_by_rid q parentRid of None \<Rightarrow> [] | Some b \<Rightarrow> bl_uuid b)
                           else dk_B parentDeck)
       in bind_ok (wrap_err MfBlob (Exists q baselineUUID)) (\<lambda>base.
            case base of
              None \<Rightarrow> Err (BaselineMissing baselineUUID)
            | Some baseRid \<Rightarrow>
                bind_ok (load_deck L q baseRid) (\<lambda>baseDeck.
                  let cards = deltaFCards (dk_F baseDeck) fullFCards
                  in Ok (if length cards < length fullFCards
                         then d\<lparr>dk_B := baselineUUID, dk_F := cards\<rparr> else d))))"

definition getContent :: "libs \<Rightarrow> repo \<Rightarrow> bytes \<Rightarrow> (manifest_error, bytes) outcome" where
  "getContent L q uuid =
     bind_ok (wrap_err MfBlob (Exists q uuid)) (\<lambda>r.
       case r of None \<Rightarrow> Err (BlobMissing uuid) | Some rd \<Rightarrow> wrap_err MfContent (expand L q rd))"

definition buildCheckinDeck :: "libs \<Rightarrow> repo \<Rightarrow> CheckinOpts \<Rightarrow> FileCard list \<Rightarrow> (manifest_error, Deck) outcome" where
  "buildCheckinDeck L q opts fCards =
     bind_ok (deck_parents q opts) (\<lambda>ps.
       let d = empty_deck\<lparr>dk_Type := ArtifactType.Checkin, dk_C := ck_Comment opts, dk_D := ck_Time opts, dk_F := fCards,
                          dk_U := ck_User opts, dk_P := ps, dk_T := deck_tags opts\<rparr>
       in bind_ok (if ck_Delta opts \<and> ck_Parent opts > 0 then applyDelta L q d fCards (ck_Parent opts) else Ok d) (\<lambda>d.
          bind_ok (ComputeR (l_md5 L) (getContent L q) (empty_deck\<lparr>dk_F := fCards\<rparr>)) (\<lambda>rHash.
            Ok (d\<lparr>dk_R := rHash\<rparr>))))"

definition insertCheckinBlob :: "libs \<Rightarrow> repo \<Rightarrow> Deck \<Rightarrow> repo \<times> (manifest_error, rid \<times> bytes) outcome" where
  "insertCheckinBlob L q d =
     (case store L q (Marshal (l_md5 L) d) of (q1, res) \<Rightarrow> (q1, wrap_err MfBlob res))"

section \<open>Links, event and leaf (manifest.go)\<close>

definition ensureFilename :: "repo \<Rightarrow> bytes \<Rightarrow> repo \<times> (manifest_error, int) outcome" where
  "ensureFilename q name =
     (if name = [] then (q, Panic ''manifest.ensureFilename: name must not be empty'')
      else case find (\<lambda>t. snd t = name) (t_filename q) of
             Some t \<Rightarrow> (q, Ok (fst t))
           | None \<Rightarrow> let fnid = foldr max (map fst (t_filename q)) 0 + 1
                     in (q\<lparr>t_filename := t_filename q @ [(fnid, name)]\<rparr>, Ok fnid))"

text \<open>\<open>SELECT fid FROM mlink WHERE mid=? AND fnid=?\<close>; the variable keeps 0 when there is no row.\<close>

definition mlink_fid :: "repo \<Rightarrow> rid \<Rightarrow> int \<Rightarrow> rid" where
  "mlink_fid q mid fnid =
     (case find (\<lambda>m. ml_mid m = mid \<and> ml_fnid m = fnid) (t_mlink q) of None \<Rightarrow> 0 | Some m \<Rightarrow> ml_fid m)"

fun insertMlinks :: "libs \<Rightarrow> repo \<Rightarrow> rid \<Rightarrow> rid \<Rightarrow> File list \<Rightarrow> repo \<times> (manifest_error, unit) outcome" where
  "insertMlinks L q parent manifestRid [] = (q, Ok ())"
| "insertMlinks L q parent manifestRid (f # fs) =
     (case ensureFilename q (fl_Name f) of
        (q1, Ok fnid) \<Rightarrow>
          (case Exists q1 (l_sha1 L (fl_Content f)) of
             Ok r \<Rightarrow>
               let row = \<lparr>ml_mid = manifestRid, ml_fid = (case r of None \<Rightarrow> 0 | Some x \<Rightarrow> x),
                          ml_pmid = Some (if parent > 0 then parent else 0),
                          ml_pid = Some (if parent > 0 then mlink_fid q1 parent fnid else 0), ml_fnid = fnid\<rparr>
               in insertMlinks L (q1\<lparr>t_mlink := t_mlink q1 @ [row]\<rparr>) parent manifestRid fs
           | Err e \<Rightarrow> (q1, Err (MfBlob e))
           | Panic s \<Rightarrow> (q1, Panic s))
      | (q1, Err e) \<Rightarrow> (q1, Err e)
      | (q1, Panic s) \<Rightarrow> (q1, Panic s))"

fun unseen_parents :: "rid list \<Rightarrow> rid list \<Rightarrow> rid list" where
  "unseen_parents seen [] = []"
| "unseen_parents seen (mp # mps) =
     (if mp \<le> 0 \<or> mp \<in> set seen then unseen_parents seen mps else mp # unseen_parents (mp # seen) mps)"

definition collectParents :: "CheckinOpts \<Rightarrow> rid list" where
  "collectParents opts =
     (if ck_Parent opts \<le> 0 then [] else ck_Parent opts # unseen_parents [ck_Parent opts] (ck_MergeParents opts))"

text \<open>\<open>INSERT INTO plink\<close>: one row per pair of parent and child; the first parent is the primary one.\<close>

definition has_plink :: "repo \<Rightarrow> rid \<Rightarrow> rid \<Rightarrow> bool" where
  "has_plink q pid cid \<longleftrightarrow> (\<exists>p \<in> set (t_plink q). pl_pid p = pid \<and> pl_cid p = cid)"

fun insert_plinks :: "repo \<Rightarrow> rid \<Rightarrow> int \<Rightarrow> bool \<Rightarrow> rid list \<Rightarrow> repo \<times> (manifest_error, unit) outcome" where
  "insert_plinks q cid mtime isPrim [] = (q, Ok ())"
| "insert_plinks q cid mtime isPrim (pid # pids) =
     (if has_plink q pid cid then (q, Err (MfSql UniqueFailed))
      else insert_plinks (q\<lparr>t_plink := t_plink q @ [\<lparr>pl_pid = pid, pl_cid = cid, pl_isprim = isPrim,
                              pl_mtime = mtime, pl_baseid = None\<rparr>]\<rparr>) cid mtime False pids)"

definition checkin_event :: "int \<Rightarrow> rid \<Rightarrow> bytes \<Rightarrow> bytes \<Rightarrow> event_row" where
  "checkin_event mtime r user comment =
     \<lparr>ev_type = ''ci'', ev_mtime = mtime, ev_objid = r, ev_tagid = None, ev_bgcolor = None, ev_euser = None,
      ev_user = Some user, ev_ecomment = None, ev_comment = Some comment\<rparr>"

definition markLeafAndEvent :: "repo \<Rightarrow> CheckinOpts \<Rightarrow> rid \<Rightarrow> repo \<times> (manifest_error, unit) outcome" where
  "markLeafAndEvent q opts manifestRid =
     (let mtime = TimeToJulian (ck_Time opts); allParents = collectParents opts
      in case insert_plinks q manifestRid mtime True allParents of
           (q1, Err e) \<Rightarrow> (q1, Err e)
         | (q1, Panic s) \<Rightarrow> (q1, Panic s)
         | (q1, Ok _) \<Rightarrow>
             if manifestRid \<in> ev_objid ` set (t_event q1) then (q1, Err (MfSql UniqueFailed))
             else (q1\<lparr>t_event := t_event q1 @ [checkin_event mtime manifestRid (ck_User opts) (ck_Comment opts)],
                      t_leaf := filter (\<lambda>r. r \<notin> set allParents) (insert_key manifestRid (t_leaf q1)),
                      t_unsent := insert_key manifestRid (t_unsent q1)\<rparr>, Ok ()))"

section \<open>Check-in (manifest.go)\<close>

definition Checkin_tx :: "libs \<Rightarrow> repo \<Rightarrow> CheckinOpts \<Rightarrow> repo \<times> (manifest_error, rid \<times> bytes \<times> TagCard list) outcome" where
  "Checkin_tx L q opts =
     (case storeFileBlobs L q (ck_Files opts) of
        (q1, Err e) \<Rightarrow> (q1, Err e)
      | (q1, Panic s) \<Rightarrow> (q1, Panic s)
      | (q1, Ok (fCards, fileRids)) \<Rightarrow>
     (case buildCheckinDeck L q1 opts fCards of
        Err e \<Rightarrow> (q1, Err e)
      | Panic s \<Rightarrow> (q1, Panic s)
      | Ok d \<Rightarrow>
     (case insertCheckinBlob L q1 d of
        (q2, Err e) \<Rightarrow> (q2, Err e)
      | (q2, Panic s) \<Rightarrow> (q2, Panic s)
      | (q2, Ok (manifestRid, manifestUUID)) \<Rightarrow>
     (case insertMlinks L q2 (ck_Parent opts) manifestRid (ck_Files opts) of
        (q3, Err e) \<Rightarrow> (q3, Err e)
      | (q3, Panic s) \<Rightarrow> (q3, Panic s)
      | (q3, Ok _) \<Rightarrow>
     (case markLeafAndEvent q3 opts manifestRid of
        (q4, Err e) \<Rightarrow> (q4, Err e)
      | (q4, Panic s) \<Rightarrow> (q4, Panic s)
      | (q4, Ok _) \<Rightarrow>
          (q4\<lparr>t_unsent := fold insert_key fileRids (t_unsent q4)\<rparr>, Ok (manifestRid, manifestUUID, dk_T d)))))))"

definition tag_type_of :: "byte \<Rightarrow> int option" where
  "tag_type_of c =
     (if c = TagPropagating then Some propagating_type
      else if c = TagSingleton then Some singleton_type
      else if c = TagCancel then Some cancel_type else None)"

text \<open>The T cards of a check-in about itself; \<open>applyInlineTags\<close> in \<open>crosslink.go\<close> has the same loop.\<close>

fun inline_tags :: "repo \<Rightarrow> rid \<Rightarrow> int \<Rightarrow> TagCard list \<Rightarrow> repo \<times> (tag_error, unit) outcome" where
  "inline_tags q r mtime [] = (q, Ok ())"
| "inline_tags q r mtime (tc # tcs) =
     (if tc_UUID tc \<noteq> ''*'' then inline_tags q r mtime tcs
      else case tag_type_of (tc_Type tc) of
             None \<Rightarrow> inline_tags q r mtime tcs
           | Some tagType \<Rightarrow>
               (case ApplyTag q \<lparr>ao_TargetRID = r, ao_SrcRID = r, ao_TagName = tc_Name tc, ao_TagType = tagType,
                                 ao_Value = tc_Value tc, ao_MTime = mtime\<rparr> of
                  (q1, Ok _) \<Rightarrow> inline_tags q1 r mtime tcs
                | (q1, Err e) \<Rightarrow> (q1, Err e)
                | (q1, Panic s) \<Rightarrow> (q1, Panic s)))"

definition Checkin :: "libs \<Rightarrow> gotime \<Rightarrow> repo \<Rightarrow> CheckinOpts \<Rightarrow> repo \<times> (manifest_error, rid \<times> bytes) outcome" where
  "Checkin L now q opts0 =
     (if length (ck_Files opts0) = 0 then (q, Panic ''manifest.Checkin: opts.Files must not be empty'')
      else if ck_User opts0 = [] then (q, Panic ''manifest.Checkin: opts.User must not be empty'')
      else let opts = (if ck_Time opts0 = zero_time then opts0\<lparr>ck_Time := now\<rparr> else opts0) in
        case with_tx q (Checkin_tx L q opts) of
          (q1, Err e) \<Rightarrow> (q1, Err e)
        | (q1, Panic s) \<Rightarrow> (q1, Panic s)
        | (q1, Ok (manifestRid, manifestUUID, inlineTCards)) \<Rightarrow>
            (case inline_tags q1 manifestRid (TimeToJulian (ck_Time opts)) inlineTCards of
               (q2, Err e) \<Rightarrow> (q2, Err (MfTag e))
             | (q2, Panic s) \<Rightarrow> (q2, Panic s)
             | (q2, Ok _) \<Rightarrow>
                 (case (if ck_Parent opts > 0 then PropagateAll q2 (ck_Parent opts) else (q2, Ok ())) of
                    (q3, Err e) \<Rightarrow> (q3, Err (MfTag e))
                  | (q3, Panic s) \<Rightarrow> (q3, Panic s)
                  | (q3, Ok _) \<Rightarrow>
                      if manifestRid \<le> 0
                      then (q3, Panic ''manifest.Checkin: manifestRid must be positive on success'')
                      else (q3, Ok (manifestRid, manifestUUID)))))"

section \<open>Reading check-ins (manifest.go, files.go)\<close>

definition GetManifest :: "libs \<Rightarrow> repo \<Rightarrow> rid \<Rightarrow> (manifest_error, Deck) outcome" where
  "GetManifest L q r =
     (if r \<le> 0 then Panic ''manifest.GetManifest: rid must be positive'' else load_deck L q r)"

definition entry_of :: "FileCard \<Rightarrow> FileEntry" where
  "entry_of f = \<lparr>fe_Name = fc_Name f, fe_UUID = fc_UUID f, fe_Perm = fc_Perm f\<rparr>"

definition fCardsToEntries :: "FileCard list \<Rightarrow> FileEntry list" where
  "fCardsToEntries fCards = sort_key fe_Name (map entry_of fCards)"

text \<open>The map from names to entries that \<open>ListFiles\<close> builds for a delta manifest, as an association list.\<close>

definition base_map :: "FileCard list \<Rightarrow> (bytes \<times> FileEntry) list" where
  "base_map cards = fold (\<lambda>f. AList.update (fc_Name f) (entry_of f)) cards []"

definition overlay :: "FileCard list \<Rightarrow> (bytes \<times> FileEntry) list \<Rightarrow> (bytes \<times> FileEntry) list" where
  "overlay cards m =
     fold (\<lambda>f m. if fc_UUID f = [] then AList.delete (fc_Name f) m
                 else AList.update (fc_Name f) (entry_of f) m) cards m"

text \<open>The listing that a delta manifest stands for, given its baseline.\<close>

definition listing :: "FileCard list \<Rightarrow> FileCard list \<Rightarrow> FileEntry list" where
  "listing base cards = sort_key fe_Name (map snd (overlay cards (base_map base)))"

definition deck_files :: "libs \<Rightarrow> repo \<Rightarrow> Deck \<Rightarrow> (manifest_error, FileEntry list) outcome" where
  "deck_files L q d =
     (if dk_B d = [] then Ok (fCardsToEntries (dk_F d))
      else bind_ok (wrap_err MfBlob (Exists q (dk_B d))) (\<lambda>base.
             case base of
               None \<Rightarrow> Err (BaselineMissing (dk_B d))
             | Some baseRid \<Rightarrow>
                 bind_ok (load_deck L q baseRid) (\<lambda>baseDeck.
                   Ok (listing (dk_F baseDeck) (dk_F d)))))"

definition ListFiles :: "libs \<Rightarrow> repo \<Rightarrow> rid \<Rightarrow> (manifest_error, FileEntry list) outcome" where
  "ListFiles L q r = bind_ok (GetManifest L q r) (deck_files L q)"

fun add_parent_files :: "libs \<Rightarrow> repo \<Rightarrow> bytes set \<Rightarrow> FileEntry list \<Rightarrow> (manifest_error, File list) outcome" where
  "add_parent_files L q supplied [] = Ok []"
| "add_parent_files L q supplied (pf # pfs) =
     (if fe_Name pf \<in> supplied then add_parent_files L q supplied pfs
      else bind_ok (getContent L q (fe_UUID pf)) (\<lambda>data.
           bind_ok (add_parent_files L q supplied pfs) (\<lambda>fs.
             Ok (\<lparr>fl_Name = fe_Name pf, fl_Content = data, fl_Perm = fe_Perm pf\<rparr> # fs))))"

definition MergeParentFiles :: "libs \<Rightarrow> repo \<Rightarrow> rid \<Rightarrow> File list \<Rightarrow> (manifest_error, File list) outcome" where
  "MergeParentFiles L q parentRID supplied =
     (if parentRID = 0 then Ok supplied
      else bind_ok (ListFiles L q parentRID) (\<lambda>parentFiles.
           bind_ok (add_parent_files L q (fl_Name ` set supplied) parentFiles) (\<lambda>fs. Ok (supplied @ fs))))"

section \<open>History of files (finfo.go) and log (log.go)\<close>

datatype FileAction = FileAdded | FileModified | FileDeleted | FileRenamed

text \<open>
  \<open>FileAt\<close>: the file blob of a check-in under a name, through the link table.  The column
  \<open>pfnid\<close> of \<open>mlink\<close> is never set by the code, so renames are not recorded in it.
\<close>

definition FileAt :: "repo \<Rightarrow> rid \<Rightarrow> bytes \<Rightarrow> (manifest_error, rid option) outcome" where
  "FileAt q checkinRID path =
     (if checkinRID \<le> 0 then Panic ''manifest.FileAt: checkinRID must be positive''
      else if path = [] then Panic ''manifest.FileAt: path must not be empty''
      else Ok (map_option ml_fid
        (find (\<lambda>m. ml_mid m = checkinRID \<and> (\<exists>f \<in> set (t_filename q). fst f = ml_fnid m \<and> snd f = path) \<and> ml_fid m > 0)
           (t_mlink q))))"

definition classifyAction :: "rid \<Rightarrow> rid \<Rightarrow> int \<Rightarrow> int \<Rightarrow> FileAction \<times> bool" where
  "classifyAction fileRID pid pfnid fnid =
     (if fileRID = 0 then (FileDeleted, True)
      else if pfnid \<noteq> 0 \<and> pfnid \<noteq> fnid then (FileRenamed, True)
      else if pid = 0 then (FileAdded, True)
      else if fileRID = pid then (FileModified, False)
      else (FileModified, True))"

record FileVersion =
  fv_CheckinRID :: rid
  fv_CheckinUUID :: bytes
  fv_FileRID :: rid
  fv_FileUUID :: bytes
  fv_Action :: FileAction
  fv_User :: bytes
  fv_Comment :: bytes
  fv_Date :: int

text \<open>A row of the join of \<open>mlink\<close>, \<open>blob\<close> and \<open>event\<close>; a NULL user or comment cannot be scanned.\<close>

definition version_rows :: "repo \<Rightarrow> int \<Rightarrow> (mlink_row \<times> blob_row \<times> event_row) list" where
  "version_rows q fnid =
     rev (sort_key (\<lambda>(m, b, e). ev_mtime e) (rev
       (concat (map (\<lambda>m. case (blob_by_rid q (ml_mid m), find (\<lambda>e. ev_objid e = ml_mid m) (t_event q)) of
                          (Some b, Some e) \<Rightarrow> [(m, b, e)] | _ \<Rightarrow> [])
         (filter (\<lambda>m. ml_fnid m = fnid) (t_mlink q))))))"

fun scan_versions :: "repo \<Rightarrow> (mlink_row \<times> blob_row \<times> event_row) list \<Rightarrow> (manifest_error, FileVersion list) outcome" where
  "scan_versions q [] = Ok []"
| "scan_versions q ((m, b, e) # rows) =
     (case (ev_user e, ev_comment e) of
        (Some user, Some comment) \<Rightarrow>
          (case classifyAction (ml_fid m) (case ml_pid m of None \<Rightarrow> 0 | Some p \<Rightarrow> p) 0 (ml_fnid m) of
             (action, changed) \<Rightarrow>
               bind_ok (scan_versions q rows) (\<lambda>vs.
                 Ok (if changed
                     then \<lparr>fv_CheckinRID = ml_mid m, fv_CheckinUUID = bl_uuid b, fv_FileRID = ml_fid m,
                           fv_FileUUID = (case blob_by_rid q (ml_fid m) of None \<Rightarrow> [] | Some f \<Rightarrow> bl_uuid f),
                           fv_Action = action, fv_User = user, fv_Comment = comment, fv_Date = ev_mtime e\<rparr> # vs
                     else vs)))
      | _ \<Rightarrow> Err (MfTag ScanNull))"

definition FileHistory :: "repo \<Rightarrow> bytes \<Rightarrow> int \<Rightarrow> (manifest_error, FileVersion list) outcome" where
  "FileHistory q path limit =
     (if path = [] then Err PathRequired
      else case find (\<lambda>t. snd t = path) (t_filename q) of
             None \<Rightarrow> Err (MfSql NoRows)
           | Some t \<Rightarrow>
               scan_versions q (let rows = version_rows q (fst t) in if limit > 0 then take (nat limit) rows else rows))"

record LogEntry =
  le_RID :: rid
  le_UUID :: bytes
  le_Comment :: bytes
  le_User :: bytes
  le_Time :: int
  le_Parents :: "bytes list"

text \<open>One round of the loop of \<open>Log\<close>: the entry of a check-in; times are Julian milliseconds.\<close>

definition log_entry :: "repo \<Rightarrow> rid \<Rightarrow> (manifest_error, LogEntry) outcome" where
  "log_entry q current =
     (case (blob_by_rid q current, find (\<lambda>e. ev_objid e = current) (t_event q)) of
        (Some b, Some e) \<Rightarrow>
          (case (ev_user e, ev_comment e) of
             (Some user, Some comment) \<Rightarrow>
               Ok \<lparr>le_RID = current, le_UUID = bl_uuid b, le_Comment = comment, le_User = user, le_Time = ev_mtime e,
                   le_Parents = List.map_filter (\<lambda>p. map_option bl_uuid (blob_by_rid q (pl_pid p)))
                     (filter pl_isprim (filter (\<lambda>p. pl_cid p = current) (t_plink q)) @
                      filter (\<lambda>p. \<not> pl_isprim p) (filter (\<lambda>p. pl_cid p = current) (t_plink q)))\<rparr>
           | _ \<Rightarrow> Err (MfTag ScanNull))
      | _ \<Rightarrow> Err (MfSql NoRows))"

definition primary_parent :: "repo \<Rightarrow> rid \<Rightarrow> rid option" where
  "primary_parent q current = map_option pl_pid (find (\<lambda>p. pl_cid p = current \<and> pl_isprim p) (t_plink q))"

text \<open>The loop need not end on a cyclic history: no result then.  A limit of 0 means no limit.\<close>

partial_function (option) log_loop ::
  "repo \<Rightarrow> int \<Rightarrow> rid \<Rightarrow> LogEntry list \<Rightarrow> (manifest_error, LogEntry list) outcome option" where
  "log_loop q limit current entries =
     (if limit > 0 \<and> int (length entries) \<ge> limit then Some (Ok entries)
      else case log_entry q current of
             Err e \<Rightarrow> Some (Err e)
           | Panic s \<Rightarrow> Some (Panic s)
           | Ok entry \<Rightarrow>
               (case primary_parent q current of
                  None \<Rightarrow> Some (Ok (entries @ [entry]))
                | Some parent \<Rightarrow> log_loop q limit parent (entries @ [entry])))"

definition Log :: "repo \<Rightarrow> rid \<Rightarrow> int \<Rightarrow> (manifest_error, LogEntry list) outcome option" where
  "Log q start limit =
     (if start \<le> 0 then Some (Err (InvalidStart start)) else log_loop q limit start [])"

end
