(* ===== verification/Manifest_Log.thy ===== *)
theory Manifest_Log
  imports Manifest
begin

text \<open>
  The log of a check-in (\<open>internal/manifest/log.go\<close>) is its primary ancestry.
\<close>

inductive ancestry :: "repo \<Rightarrow> rid \<Rightarrow> rid list \<Rightarrow> bool" for q where
  ancestry_root: "primary_parent q r = None \<Longrightarrow> ancestry q r [r]"
| ancestry_step: "primary_parent q r = Some p \<Longrightarrow> ancestry q p rs \<Longrightarrow> ancestry q r (r # rs)"

definition limited :: "int \<Rightarrow> 'a list \<Rightarrow> 'a list" where
  "limited limit xs = (if limit > 0 then take (nat limit) xs else xs)"

lemma log_loop_ancestry:
  assumes "ancestry q r rs" "list_all2 (\<lambda>r e. log_entry q r = Ok e) rs es"
  shows "log_loop q limit r acc = Some (Ok (if limit > 0 then acc @ take (nat limit - length acc) es else acc @ es))"
  using assms
proof (induction arbitrary: acc es rule: ancestry.induct)
  case (ancestry_root r)
  then obtain e where "es = [e]" "log_entry q r = Ok e" by (auto simp: list_all2_Cons1)
  with ancestry_root show ?case by (subst log_loop.simps) (auto simp: take_Cons split: nat.split)
next
  case (ancestry_step r p rs)
  then obtain e es' where es: "es = e # es'" "log_entry q r = Ok e" "list_all2 (\<lambda>r e. log_entry q r = Ok e) rs es'"
    by (auto simp: list_all2_Cons1)
  show ?case
  proof (cases "limit > 0 \<and> int (length acc) \<ge> limit")
    case True
    then show ?thesis by (subst log_loop.simps) auto
  next
    case False
    then have "nat limit - length acc = Suc (nat limit - length (acc @ [e]))" if "limit > 0" using that by auto
    with False ancestry_step.hyps(1) es ancestry_step.IH [OF es(3), of "acc @ [e]"] show ?thesis
      by (subst log_loop.simps) auto
  qed
qed


definition sample_history :: repo where
  "sample_history = empty_repo\<lparr>
     t_blob := [\<lparr>bl_rid = 1, bl_rcvid = 1, bl_size = 0, bl_uuid = ''u1'', bl_content = None\<rparr>,
                \<lparr>bl_rid = 2, bl_rcvid = 1, bl_size = 0, bl_uuid = ''u2'', bl_content = None\<rparr>],
     t_event := [checkin_event 5 1 ''me'' ''one'', checkin_event 6 2 ''me'' ''two''],
     t_plink := [\<lparr>pl_pid = 1, pl_cid = 2, pl_isprim = True, pl_mtime = 6, pl_baseid = None\<rparr>]\<rparr>"


end
