(* ===== verification/Manifest_Checkin.thy ===== *)
theory Manifest_Checkin
  imports Manifest
begin

text \<open>
  What a check-in guarantees (\<open>internal/manifest\<close>): the files are stored and listed again from
  the manifest, also through a delta manifest, links and the leaf table are kept, and the one
  case in which a delta manifest loses information.  The first sections hold the frame
  lemmas: which tables the steps of a check-in leave alone.
\<close>

section \<open>Repositories that grow\<close>

definition extends :: "repo \<Rightarrow> repo \<Rightarrow> bool" where
  "extends q q' \<longleftrightarrow>
     (\<forall>s b. blob_by_rid q s = Some b \<longrightarrow> blob_by_rid q' s = Some b \<and> delta_src q' s = delta_src q s) \<and>
     (\<forall>u b. blob_by_uuid q u = Some b \<longrightarrow> blob_by_uuid q' u = Some b)"

lemma extends_refl [simp]: "extends q q"
  by (simp add: extends_def)

lemma extends_trans: "extends q q' \<Longrightarrow> extends q' q'' \<Longrightarrow> extends q q''"
  by (simp add: extends_def)

lemma extends_same: "t_blob q' = t_blob q \<Longrightarrow> t_delta q' = t_delta q \<Longrightarrow> extends q q'"
  by (simp add: extends_def blob_by_rid_def blob_by_uuid_def delta_src_def)

lemma expands_row: "expands inflate q s c \<Longrightarrow> \<exists>b. blob_by_rid q s = Some b"
  by (induction rule: expands.induct) (auto simp: Load_def split: if_splits option.splits)

lemma extends_expands:
  assumes "expands inflate q s c" "extends q q'"
  shows "expands inflate q' s c"
  using assms(1)
proof (induction rule: expands.induct)
  case (expands_root s c)
  then obtain b where "blob_by_rid q s = Some b" using expands_row [of inflate q s c] by (auto intro: expands.expands_root)
  with assms(2) expands_root show ?case
    by (auto simp: extends_def Load_cong [of q' s q] intro!: expands.expands_root)
next
  case (expands_delta t s c d c')
  then obtain b where "blob_by_rid q t = Some b"
    using expands_row [of inflate q t c'] by (auto intro: expands.expands_delta)
  with assms(2) expands_delta show ?case
    by (auto simp: extends_def Load_cong [of q' t q] intro!: expands.expands_delta [of q' t s])
qed

text \<open>The repository has the content \<open>c\<close> under the hash \<open>u\<close>.\<close>

definition holds :: "libs \<Rightarrow> repo \<Rightarrow> bytes \<Rightarrow> bytes \<Rightarrow> bool" where
  "holds L q u c \<longleftrightarrow> (\<exists>b. blob_by_uuid q u = Some b \<and> bl_rid b > 0 \<and> expands (l_inflate L) q (bl_rid b) c)"

lemma extends_holds: "holds L q u c \<Longrightarrow> extends q q' \<Longrightarrow> holds L q' u c"
  unfolding holds_def extends_def by (metis extends_def extends_expands)

lemma getContent_holds: "holds L q u c \<Longrightarrow> u \<noteq> [] \<Longrightarrow> getContent L q u = Ok c"
  by (auto simp: holds_def getContent_def Exists_def Expand_eq_expands)

definition libs_ok :: "libs \<Rightarrow> bool" where
  "libs_ok L \<longleftrightarrow> zlib_writer (l_deflate L) (l_inflate L) \<and>
     (\<forall>s. length (l_sha1 L s) = 40 \<and> is_token (l_sha1 L s)) \<and>
     (\<forall>s. length (l_md5 L s) = 32 \<and> is_token (l_md5 L s))"

lemma libs_okD:
  assumes "libs_ok L"
  shows "zlib_writer (l_deflate L) (l_inflate L)" "sha1_names (l_sha1 L)" "l_sha1 L s \<noteq> []"
    "is_token (l_sha1 L s)" "length (l_md5 L s) = 32" "is_token (l_md5 L s)"
  using assms by (auto simp: libs_ok_def sha1_names_def is_token_def)

text \<open>Content that \<open>Store\<close> can take: its hash is new or already names this content.\<close>

definition storable :: "libs \<Rightarrow> repo \<Rightarrow> bytes \<Rightarrow> bool" where
  "storable L q c \<longleftrightarrow> c \<noteq> [] \<and> length c < 2 ^ 32 \<and> (blob_by_uuid q (l_sha1 L c) = None \<or> holds L q (l_sha1 L c) c)"

lemma store_spec:
  assumes "libs_ok L" "wf_repo q" "storable L q c"
  obtains q' r where "store L q c = (q', Ok (r, l_sha1 L c))" "wf_repo q'" "extends q q'" "r > 0"
    "holds L q' (l_sha1 L c) c" "map_option bl_rid (blob_by_uuid q' (l_sha1 L c)) = Some r"
    "\<And>u. u \<noteq> l_sha1 L c \<Longrightarrow> blob_by_uuid q' u = blob_by_uuid q u"
    "\<exists>B C. q' = q\<lparr>t_blob := B, t_unclustered := C\<rparr>"
    "blob_by_uuid q (l_sha1 L c) = None \<Longrightarrow> r = next_rid q"
proof (cases "blob_by_uuid q (l_sha1 L c)")
  case None
  note ok = libs_okD [OF assms(1)]
  have c: "c \<noteq> []" "length c < 2 ^ 32" using assms(3) by (auto simp: storable_def)
  obtain q1 where ins: "insert_blob q (l_sha1 L c) (int (length c)) (Some (Compress (l_deflate L) c)) 1 = Ok (q1, next_rid q)"
    using insert_blob_fresh [of "l_sha1 L c" q] None ok(2) by (metis order_refl sha1_names_def)
  note facts = insert_blob_Ok [OF ins]
  note st = Store_fresh [OF ok(1,2) c None ins]
  let ?q' = "mark_unclustered q1 (next_rid q)"
  have fresh: "delta_src q (next_rid q) = None"
    by (rule delta_row_has_blob [OF assms(2) blob_by_rid_next])
  have q1: "q1 = q\<lparr>t_blob := t_blob q1\<rparr>" by (rule facts(7))
  have dl: "delta_src ?q' s = delta_src q s" for s by (subst q1) (simp add: delta_src_def mark_unclustered_def)
  have ext: "extends q ?q'"
    unfolding extends_def
  proof (intro conjI allI impI)
    fix s b assume "blob_by_rid q s = Some b"
    then show "blob_by_rid ?q' s = Some b" using facts(4) [of s] blob_by_rid_next [of q] by (cases "s = next_rid q") auto
    show "delta_src ?q' s = delta_src q s" by (rule dl)
  next
    fix u b assume "blob_by_uuid q u = Some b"
    then show "blob_by_uuid ?q' u = Some b" using facts(5) facts(8) [of u] by (cases "u = l_sha1 L c") auto
  qed
  have "expands (l_inflate L) ?q' (next_rid q) c"
    using st(2) fresh dl Load_cong [of ?q' "next_rid q" q1 "l_inflate L" False]
    by (intro expands.expands_root) simp_all
  then have h: "holds L ?q' (l_sha1 L c) c" using facts(2,3) next_rid_pos [of q] by (auto simp: holds_def)
  show ?thesis
  proof (rule that [of ?q' "next_rid q"])
    show "\<exists>B C. ?q' = q\<lparr>t_blob := B, t_unclustered := C\<rparr>"
      by (subst q1) (auto simp: mark_unclustered_def)
  qed (use st(1) ext h facts(2,3,8) insert_blob_wf [OF assms(2) ins] next_rid_pos [of q] in auto)
next
  case (Some b)
  then have "bl_rid b > 0" "holds L q (l_sha1 L c) c" using assms(3) by (auto simp: storable_def holds_def)
  moreover have "store L q c = (q, Ok (bl_rid b, l_sha1 L c))"
    using Some assms(3) \<open>bl_rid b > 0\<close> libs_okD(2) [OF assms(1)]
    by (simp add: Store_def Let_def Exists_eq check_rid_pos storable_def)
  moreover have "\<exists>B C. q = q\<lparr>t_blob := B, t_unclustered := C\<rparr>"
    by (intro exI [of _ "t_blob q"] exI [of _ "t_unclustered q"]) simp
  ultimately show ?thesis using assms(2) Some by (intro that [of q "bl_rid b"]) auto
qed

section \<open>Storing the files\<close>

definition card_of :: "libs \<Rightarrow> File \<Rightarrow> FileCard" where
  "card_of L f = \<lparr>fc_Name = fl_Name f, fc_UUID = l_sha1 L (fl_Content f), fc_Perm = fl_Perm f, fc_OldName = []\<rparr>"

lemma storable_after:
  assumes "storable L q c'" "l_sha1 L c' = l_sha1 L c \<Longrightarrow> c' = c" "extends q q'" "holds L q' (l_sha1 L c) c"
    and "\<And>u. u \<noteq> l_sha1 L c \<Longrightarrow> blob_by_uuid q' u = blob_by_uuid q u"
  shows "storable L q' c'"
  using assms unfolding storable_def by (metis extends_holds)

lemma storeFileBlobs_spec:
  assumes "libs_ok L" "wf_repo q" "\<And>f. f \<in> set fs \<Longrightarrow> storable L q (fl_Content f)"
    and "inj_on (l_sha1 L) (fl_Content ` set fs)"
  shows "\<exists>q' rids. storeFileBlobs L q fs = (q', Ok (map (card_of L) fs, rids)) \<and> wf_repo q' \<and> extends q q' \<and>
     (\<forall>f \<in> set fs. holds L q' (l_sha1 L (fl_Content f)) (fl_Content f)) \<and>
     (\<forall>u. u \<notin> l_sha1 L ` fl_Content ` set fs \<longrightarrow> blob_by_uuid q' u = blob_by_uuid q u) \<and>
     (\<exists>B C. q' = q\<lparr>t_blob := B, t_unclustered := C\<rparr>)"
  using assms(2-)
proof (induction fs arbitrary: q)
  case Nil
  have "\<exists>B C. q = q\<lparr>t_blob := B, t_unclustered := C\<rparr>"
    by (intro exI [of _ "t_blob q"] exI [of _ "t_unclustered q"]) simp
  with Nil show ?case by simp
next
  case (Cons f fs)
  let ?c = "fl_Content f"
  obtain q1 r where st: "store L q ?c = (q1, Ok (r, l_sha1 L ?c))" "wf_repo q1" "extends q q1"
    and h: "holds L q1 (l_sha1 L ?c) ?c" and other: "\<And>u. u \<noteq> l_sha1 L ?c \<Longrightarrow> blob_by_uuid q1 u = blob_by_uuid q u"
    and fr: "\<exists>B C. q1 = q\<lparr>t_blob := B, t_unclustered := C\<rparr>"
    using store_spec [OF assms(1) Cons.prems(1), of ?c] Cons.prems(2) by (metis list.set_intros(1))
  have "storable L q1 (fl_Content g)" if "g \<in> set fs" for g
  proof (rule storable_after [OF _ _ st(3) h other])
    show "storable L q (fl_Content g)" using that Cons.prems(2) by simp
    show "fl_Content g = ?c" if "l_sha1 L (fl_Content g) = l_sha1 L ?c"
      using that \<open>g \<in> set fs\<close> Cons.prems(3) by (simp add: inj_on_def)
  qed
  moreover have "inj_on (l_sha1 L) (fl_Content ` set fs)" using Cons.prems(3) by (auto simp: inj_on_def)
  ultimately obtain q2 rids where IH: "storeFileBlobs L q1 fs = (q2, Ok (map (card_of L) fs, rids))" "wf_repo q2"
      "extends q1 q2" "\<forall>f \<in> set fs. holds L q2 (l_sha1 L (fl_Content f)) (fl_Content f)"
      "\<forall>u. u \<notin> l_sha1 L ` fl_Content ` set fs \<longrightarrow> blob_by_uuid q2 u = blob_by_uuid q1 u"
      "\<exists>B C. q2 = q1\<lparr>t_blob := B, t_unclustered := C\<rparr>"
    using Cons.IH [OF st(2)] by blast
  from fr IH(6) obtain B C where "q2 = q\<lparr>t_blob := B, t_unclustered := C\<rparr>" by auto
  then have "\<exists>B C. q2 = q\<lparr>t_blob := B, t_unclustered := C\<rparr>" by blast
  moreover have "storeFileBlobs L q (f # fs) = (q2, Ok (map (card_of L) (f # fs), r # rids))"
    using st(1) IH(1) by (simp add: card_of_def)
  moreover have "\<forall>g \<in> set (f # fs). holds L q2 (l_sha1 L (fl_Content g)) (fl_Content g)"
    using IH(4) extends_holds [OF h IH(3)] by simp
  moreover have "\<forall>u. u \<notin> l_sha1 L ` fl_Content ` set (f # fs) \<longrightarrow> blob_by_uuid q2 u = blob_by_uuid q u"
    using IH(5) other by simp
  ultimately show ?case using IH(2) extends_trans [OF st(3) IH(3)] by blast
qed

section \<open>The manifest\<close>

lemma R_stream_Ok: "(\<And>f. f \<in> set fs \<Longrightarrow> \<exists>c. g (fc_UUID f) = Ok c) \<Longrightarrow> \<exists>s. R_stream g fs acc = Ok s"
proof (induction fs arbitrary: acc)
  case (Cons f fs)
  then obtain c where "g (fc_UUID f) = Ok c" by auto
  with Cons show ?case by simp
qed simp

lemma ComputeR_Ok:
  "(\<And>f. f \<in> set (dk_F d) \<Longrightarrow> \<exists>c. g (fc_UUID f) = Ok c) \<Longrightarrow> \<exists>h. ComputeR md5 g d = Ok h \<and>
     (h = ''d41d8cd98f00b204e9800998ecf8427e'' \<or> h \<in> range md5)"
  unfolding ComputeR_def using R_stream_Ok [of "sort_key fc_Name (dk_F d)" g "[]"] by auto

definition known_parents :: "repo \<Rightarrow> CheckinOpts \<Rightarrow> bool" where
  "known_parents q opts \<longleftrightarrow>
     (\<forall>p \<in> set (collectParents opts). \<exists>b. blob_by_rid q p = Some b \<and> is_token (bl_uuid b))"

lemma unseen_parents_set:
  "set (unseen_parents seen ms) = {m \<in> set ms. m > 0} - set seen" "distinct (unseen_parents seen ms)"
  by (induction ms arbitrary: seen) auto

lemma collectParents_distinct: "distinct (collectParents opts)"
  by (auto simp: collectParents_def unseen_parents_set)

lemma merge_parent_uuids_Ok:
  assumes "\<And>p. p \<in> set ms \<Longrightarrow> p > 0 \<Longrightarrow> p \<noteq> parent \<Longrightarrow> \<exists>b. blob_by_rid q p = Some b \<and> is_token (bl_uuid b)"
  shows "\<exists>us. merge_parent_uuids q parent ms = Ok us \<and> list_all is_token us"
  using assms
proof (induction ms)
  case (Cons m ms)
  then obtain us where "merge_parent_uuids q parent ms = Ok us" "list_all is_token us" by auto
  with Cons.prems [of m] show ?case by (cases "m \<le> 0 \<or> m = parent") (auto simp: uuid_of_def)
qed simp

lemma deck_parents_Ok:
  assumes "known_parents q opts"
  shows "\<exists>ps. deck_parents q opts = Ok ps \<and> list_all is_token ps"
proof (cases "ck_Parent opts > 0")
  case True
  then have "\<exists>us. merge_parent_uuids q (ck_Parent opts) (ck_MergeParents opts) = Ok us \<and> list_all is_token us"
    using assms by (intro merge_parent_uuids_Ok) (auto simp: known_parents_def collectParents_def unseen_parents_set)
  moreover have "\<exists>b. blob_by_rid q (ck_Parent opts) = Some b \<and> is_token (bl_uuid b)"
    using assms True by (auto simp: known_parents_def collectParents_def)
  ultimately show ?thesis using True by (auto simp: deck_parents_def uuid_of_def)
qed (simp add: deck_parents_def)

text \<open>Check-in options whose manifest can be read back.\<close>

definition opts_ok :: "CheckinOpts \<Rightarrow> bool" where
  "opts_ok opts \<longleftrightarrow> ck_Files opts \<noteq> [] \<and> ck_User opts \<noteq> [] \<and> ck_Time opts \<noteq> zero_time \<and> D_ok (ck_Time opts) \<and>
     distinct (map fl_Name (ck_Files opts)) \<and>
     list_all (\<lambda>f. fl_Name f \<noteq> [] \<and> is_token (FossilEncode (fl_Name f)) \<and> (fl_Perm f \<noteq> [] \<longrightarrow> is_token (fl_Perm f)))
       (ck_Files opts) \<and>
     list_all (\<lambda>t. T_ok t \<and> tc_Name t \<noteq> []) (deck_tags opts) \<and> distinct (map tag_key (deck_tags opts))"

lemma trimmed_token: "is_token s \<Longrightarrow> trimmed s"
  by (auto simp: trimmed_def is_token_def TrimSpace_no_space dest: no_space_mem)

definition plain_deck :: "CheckinOpts \<Rightarrow> bytes list \<Rightarrow> FileCard list \<Rightarrow> bytes \<Rightarrow> Deck" where
  "plain_deck opts ps F h = empty_deck\<lparr>dk_Type := ArtifactType.Checkin, dk_C := ck_Comment opts, dk_D := ck_Time opts,
     dk_F := F, dk_U := ck_User opts, dk_P := ps, dk_T := deck_tags opts, dk_R := h\<rparr>"

lemma plain_deck_parts:
  assumes "libs_ok L" "opts_ok opts" "known_parents q opts"
    and "\<forall>f \<in> set (ck_Files opts). holds L q (l_sha1 L (fl_Content f)) (fl_Content f)"
  obtains ps h where "deck_parents q opts = Ok ps"
    "ComputeR (l_md5 L) (getContent L q) (empty_deck\<lparr>dk_F := map (card_of L) (ck_Files opts)\<rparr>) = Ok h"
    "wf_deck (plain_deck opts ps (map (card_of L) (ck_Files opts)) h)"
proof -
  let ?F = "map (card_of L) (ck_Files opts)"
  obtain ps where ps: "deck_parents q opts = Ok ps" "list_all is_token ps"
    using deck_parents_Ok [OF assms(3)] by blast
  have "\<exists>c. getContent L q (fc_UUID f) = Ok c" if "f \<in> set ?F" for f
    using that assms(4) getContent_holds libs_okD(3) [OF assms(1)] by (fastforce simp: card_of_def)
  then obtain h where h: "ComputeR (l_md5 L) (getContent L q) (empty_deck\<lparr>dk_F := ?F\<rparr>) = Ok h"
      "h = ''d41d8cd98f00b204e9800998ecf8427e'' \<or> h \<in> range (l_md5 L)"
    using ComputeR_Ok [of "empty_deck\<lparr>dk_F := ?F\<rparr>" "getContent L q" "l_md5 L"] by auto
  have "is_token ''d41d8cd98f00b204e9800998ecf8427e''" by code_simp
  with h(2) libs_okD(6) [OF assms(1)] have tok: "trimmed h" by (auto intro!: trimmed_token)
  have "list_all F_ok ?F"
    using assms(2) libs_okD(3,4) [OF assms(1)] by (auto simp: opts_ok_def F_ok_def card_of_def list_all_iff)
  moreover have "distinct (map fc_Name ?F)"
    using assms(2) by (simp add: opts_ok_def card_of_def o_def)
  moreover have "trimmed []" by code_simp
  ultimately have "wf_deck (plain_deck opts ps ?F h)"
    using assms(2) ps(2) tok by (auto simp: plain_deck_def wf_deck_def empty_deck_def opts_ok_def list_all_iff)
  with ps(1) h(1) show ?thesis by (rule that)
qed

lemma known_parents_extends: "known_parents q opts \<Longrightarrow> extends q q' \<Longrightarrow> known_parents q' opts"
  unfolding known_parents_def extends_def by blast

section \<open>Tags leave the other tables alone\<close>

lemma process_children_inv:
  assumes "\<And>q cid. P q \<Longrightarrow> P (apply_child tagid tagType origID mtime v tagName q cid)" "P q"
  shows "P (fst (process_children tagid tagType origID mtime v tagName q pq cs))"
  using assms
  by (induction tagid tagType origID mtime v tagName q pq cs rule: process_children.induct) auto

lemma propagate_loop_inv:
  assumes step: "\<And>q cid. P q \<Longrightarrow> P (apply_child tagid tagType origID mtime v tagName q cid)" and "P q"
  shows "P (fst (propagate_loop tagid tagType origID mtime v tagName q pq visited n))"
  using assms
proof (induction tagid tagType origID mtime v tagName q pq visited n rule: propagate_loop.induct)
  case (1 tagid tagType origID mtime v tagName q pq visited n)
  note inv = process_children_inv [of P tagid tagType origID mtime v tagName q, OF "1.prems"]
  show ?case
  proof (cases "length pq > 0 \<and> \<not> n + 1 > maxIterations")
    case True
    obtain item pq' where pop: "heap_Pop Less pq = (item, pq')" by fastforce
    obtain q1 pq1 where ch: "process_children tagid tagType origID mtime v tagName q pq'
        (children q tagid tagType mtime (qi_rid item)) = (q1, pq1)" by fastforce
    have "P q1" using inv [of pq' "children q tagid tagType mtime (qi_rid item)"] ch by simp
    with True pop ch show ?thesis
      using "1.IH"(1) [OF _ _ pop [symmetric]] "1.IH"(2) [OF _ _ pop [symmetric] _ ch [symmetric]] "1.prems"
      by (subst propagate_loop.simps) auto
  qed (use "1.prems"(2) in \<open>subst propagate_loop.simps, auto\<close>)
qed

definition known_tag :: "repo \<Rightarrow> int \<Rightarrow> bool" where
  "known_tag q tagid \<longleftrightarrow> tagid \<in> fst ` set (t_tag q)"

definition tags_only :: "repo \<Rightarrow> repo \<Rightarrow> bool" where
  "tags_only q q' \<longleftrightarrow>
     (\<exists>A B C. q' = q\<lparr>t_tag := A, t_tagxref := B, t_event := C\<rparr>) \<and>
     map (\<lambda>e. (ev_objid e, ev_type e)) (t_event q') = map (\<lambda>e. (ev_objid e, ev_type e)) (t_event q) \<and>
     (\<forall>i. known_tag q i \<longrightarrow> known_tag q' i) \<and>
     (\<forall>x \<in> set (t_tagxref q'). x \<in> set (t_tagxref q) \<or> tx_value x \<noteq> None \<and> known_tag q' (tx_tagid x))"

lemma known_tag_simps [simp]:
  "known_tag (set_bgcolor q v r) i = known_tag q i" "known_tag (q\<lparr>t_tagxref := X\<rparr>) i = known_tag q i"
  "known_tag (q\<lparr>t_event := E\<rparr>) i = known_tag q i" "known_tag (delete_tagxref q j r) i = known_tag q i"
  by (simp_all add: known_tag_def set_bgcolor_def delete_tagxref_def)

lemma tags_only_refl: "tags_only q q"
  unfolding tags_only_def by (auto intro!: exI [of _ "t_tag q"] exI [of _ "t_tagxref q"] exI [of _ "t_event q"])

lemma tags_only_trans:
  assumes "tags_only q q1" "tags_only q1 q2"
  shows "tags_only q q2"
proof -
  from assms obtain A B C where "q2 = q\<lparr>t_tag := A, t_tagxref := B, t_event := C\<rparr>" by (auto simp: tags_only_def)
  then have "\<exists>A B C. q2 = q\<lparr>t_tag := A, t_tagxref := B, t_event := C\<rparr>" by blast
  moreover have "\<forall>x \<in> set (t_tagxref q2). x \<in> set (t_tagxref q) \<or> tx_value x \<noteq> None \<and> known_tag q2 (tx_tagid x)"
    using assms unfolding tags_only_def by metis
  ultimately show ?thesis using assms unfolding tags_only_def by simp
qed

lemma tags_only_same:
  assumes "tags_only q q'"
  shows "t_blob q' = t_blob q" "t_delta q' = t_delta q" "t_plink q' = t_plink q" "t_leaf q' = t_leaf q"
    "t_mlink q' = t_mlink q" "t_unsent q' = t_unsent q" "t_phantom q' = t_phantom q" "t_private q' = t_private q"
  using assms by (auto simp: tags_only_def)

lemma tags_only_objid:
  assumes "tags_only q q'"
  shows "map ev_objid (t_event q') = map ev_objid (t_event q)"
proof -
  have "map fst (map (\<lambda>e. (ev_objid e, ev_type e)) (t_event q')) = map fst (map (\<lambda>e. (ev_objid e, ev_type e)) (t_event q))"
    using assms by (simp only: tags_only_def)
  then show ?thesis by (simp add: o_def)
qed

lemma tags_only_set_bgcolor: "tags_only q (set_bgcolor q v r)"
  unfolding tags_only_def
  by (auto simp: set_bgcolor_def intro!: exI [of _ "t_tag q"] exI [of _ "t_tagxref q"])

lemma tags_only_replace:
  assumes "tx_value x \<noteq> None" "known_tag q (tx_tagid x)"
  shows "tags_only q (q\<lparr>t_tagxref := replace_tagxref x (t_tagxref q)\<rparr>)"
  unfolding tags_only_def using assms
  by (auto simp: replace_tagxref_def intro!: exI [of _ "t_tag q"] exI [of _ "t_event q"])

lemma tags_only_delete: "tags_only q (delete_tagxref q tagid r)"
  unfolding tags_only_def by (auto simp: delete_tagxref_def intro!: exI [of _ "t_tag q"] exI [of _ "t_event q"])

lemma tags_only_apply_child:
  assumes "known_tag q tagid"
  shows "tags_only q (apply_child tagid tagType origID mtime v tagName q cid)"
proof -
  let ?x = "\<lparr>tx_tagid = tagid, tx_tagtype = 2, tx_srcid = 0, tx_origid = origID, tx_value = Some v,
              tx_mtime = mtime, tx_rid = cid\<rparr>"
  have "tags_only q (q\<lparr>t_tagxref := replace_tagxref ?x (t_tagxref q)\<rparr>)"
    using assms by (intro tags_only_replace) simp_all
  from this tags_only_trans [OF this tags_only_set_bgcolor] tags_only_delete
    tags_only_trans [OF tags_only_delete tags_only_set_bgcolor]
  show ?thesis by (simp add: apply_child_def Let_def)
qed

lemma tags_only_propagate:
  assumes "known_tag q tagid"
  shows "tags_only q (fst (propagate q tagid tagType origID mtime v tagName pid))"
proof -
  let ?P = "\<lambda>q'. tags_only q q' \<and> known_tag q' tagid"
  have "?P (apply_child tagid tagType origID mtime v tagName q' cid)" if "?P q'" for q' cid
    using that tags_only_apply_child [of q' tagid tagType origID mtime v tagName cid] tags_only_trans [of q q']
    unfolding tags_only_def [of q'] by blast
  from propagate_loop_inv [of ?P, OF this] assms show ?thesis by (simp add: propagate_def tags_only_refl)
qed

lemma tags_only_ensureTag:
  assumes "ensureTag q name = (q1, tagid)"
  shows "tags_only q q1" "known_tag q1 tagid"
proof -
  have "tags_only q q1 \<and> known_tag q1 tagid"
  proof (cases "find (\<lambda>t. snd t = name) (t_tag q)")
    case None
    have "tags_only q (q\<lparr>t_tag := t_tag q @ [t]\<rparr>)" for t
      unfolding tags_only_def
      by (auto simp: known_tag_def intro!: exI [of _ "t_tagxref q"] exI [of _ "t_event q"])
    with None assms show ?thesis by (auto simp: ensureTag_def Let_def known_tag_def)
  next
    case (Some t)
    then have "t \<in> set (t_tag q)" by (auto simp: find_Some_iff)
    with Some assms show ?thesis by (auto simp: ensureTag_def known_tag_def tags_only_refl)
  qed
  then show "tags_only q q1" "known_tag q1 tagid" by simp_all
qed

lemma tags_only_set_target:
  assumes "known_tag q tagid"
  shows "tags_only q (set_target q tagid opts)"
proof -
  let ?x = "\<lparr>tx_tagid = tagid, tx_tagtype = ao_TagType opts, tx_srcid = ao_SrcRID opts,
      tx_origid = ao_TargetRID opts, tx_value = Some (ao_Value opts), tx_mtime = ao_MTime opts,
      tx_rid = ao_TargetRID opts\<rparr>"
  have "tags_only q (q\<lparr>t_tagxref := replace_tagxref ?x (t_tagxref q)\<rparr>)"
    using assms by (intro tags_only_replace) simp_all
  from this tags_only_trans [OF this tags_only_set_bgcolor] show ?thesis
    unfolding set_target_def Let_def by (auto split del: if_split split: if_split)
qed

text \<open>Applying a tag succeeds on a repository with fewer links than the iteration bound.\<close>

lemma ApplyTag_Ok:
  assumes "wf_plink q" "length (t_plink q) < maxIterations" "ao_TagName opts \<noteq> []" "ao_TargetRID opts > 0"
  shows "\<exists>q'. ApplyTag q opts = (q', Ok ()) \<and> tags_only q q'"
proof -
  obtain q1 tagid where e: "ensureTag q (ao_TagName opts) = (q1, tagid)" by fastforce
  note en = tags_only_ensureTag [OF e]
  let ?q2 = "set_target q1 tagid opts"
  have t2: "tags_only q ?q2" using tags_only_trans [OF en(1) tags_only_set_target [OF en(2)]] .
  then have "t_plink ?q2 = t_plink q" by (rule tags_only_same)
  then have "\<exists>q'. propagate ?q2 tagid (ao_TagType opts) (ao_TargetRID opts) (ao_MTime opts) (ao_Value opts)
      (ao_TagName opts) (ao_TargetRID opts) = (q', Ok ())"
    using propagate_spec [of ?q2] assms(1,2) by (metis wf_plink_def)
  then obtain q' where p: "propagate ?q2 tagid (ao_TagType opts) (ao_TargetRID opts) (ao_MTime opts) (ao_Value opts)
      (ao_TagName opts) (ao_TargetRID opts) = (q', Ok ())" by blast
  have "known_tag ?q2 tagid" using en(2) by (simp add: set_target_def Let_def)
  from tags_only_propagate [OF this] p have "tags_only ?q2 q'" by (metis fst_conv)
  with t2 have "tags_only q q'" by (rule tags_only_trans)
  with p t2 e assms(3,4) show ?thesis by (simp add: ApplyTag_def ApplyTagWithTx_def with_tx_def Let_def)
qed

text \<open>Whatever the outcome, applying and propagating tags touches only the tag tables and colours.\<close>

lemma tags_only_with_tx: "tags_only q (fst res) \<Longrightarrow> tags_only q (fst (with_tx q res))"
  by (auto simp: with_tx_def tags_only_refl split: prod.splits outcome.splits)

lemma tags_only_ApplyTagWithTx: "tags_only q (fst (ApplyTagWithTx q opts))"
proof -
  obtain q1 tagid where e: "ensureTag q (ao_TagName opts) = (q1, tagid)" by fastforce
  note en = tags_only_ensureTag [OF e]
  let ?q2 = "set_target q1 tagid opts"
  have t2: "tags_only q ?q2" using tags_only_trans [OF en(1) tags_only_set_target [OF en(2)]] .
  have "known_tag ?q2 tagid" using en(2) by (simp add: set_target_def Let_def)
  from tags_only_trans [OF t2 tags_only_propagate [OF this]] t2 e
  show ?thesis by (simp add: ApplyTagWithTx_def Let_def tags_only_refl)
qed

lemma tags_only_ApplyTag: "tags_only q (fst (ApplyTag q opts))"
  by (simp add: ApplyTag_def tags_only_refl tags_only_with_tx tags_only_ApplyTagWithTx)

lemma tags_only_propagate_entries: "tags_only q (fst (propagate_entries q r es))"
proof (induction q r es rule: propagate_entries.induct)
  case (2 q r x v xs)
  have one: "tags_only q (fst (propagate_entry q r x v))"
  proof (cases "map_of (t_tag q) (tx_tagid x)")
    case (Some n)
    then have "known_tag q (tx_tagid x)" unfolding known_tag_def by (metis fst_conv image_eqI map_of_SomeD)
    from tags_only_propagate [OF this] Some show ?thesis by (simp add: propagate_entry_def)
  qed (simp add: propagate_entry_def tags_only_refl)
  obtain q1 res where e: "propagate_entry q r x v = (q1, res)" by fastforce
  show ?case
  proof (cases res)
    case (Ok y)
    with e one "2.IH" [OF e [symmetric]] show ?thesis by (auto intro: tags_only_trans)
  qed (use e one in simp_all)
qed (simp add: tags_only_refl)

lemma tags_only_PropagateAll: "tags_only q (fst (PropagateAll q r))"
  by (auto simp: PropagateAll_def tags_only_refl tags_only_propagate_entries split: option.split)

lemma tags_only_inline_tags: "tags_only q (fst (inline_tags q r mtime ts))"
proof (induction q r mtime ts rule: inline_tags.induct)
  case (2 q r mtime tc tcs)
  show ?case
  proof (cases "tc_UUID tc = ''*'' \<and> tag_type_of (tc_Type tc) \<noteq> None")
    case False
    with "2.IH" show ?thesis by auto
  next
    case True
    then obtain ty where ty: "tag_type_of (tc_Type tc) = Some ty" by auto
    let ?o = "\<lparr>ao_TargetRID = r, ao_SrcRID = r, ao_TagName = tc_Name tc, ao_TagType = ty,
                                 ao_Value = tc_Value tc, ao_MTime = mtime\<rparr>"
    obtain q1 res where a: "ApplyTag q ?o = (q1, res)" by fastforce
    then have "tags_only q q1" using tags_only_ApplyTag [of q ?o] by simp
    with True ty a "2.IH"(3) [of ty q1] show ?thesis by (cases res) (auto intro: tags_only_trans)
  qed
qed (simp add: tags_only_refl)

lemma scan_entries_Some:
  "(\<And>x. x \<in> set xs \<Longrightarrow> tx_value x \<noteq> None) \<Longrightarrow> \<exists>es. scan_entries xs = Some es \<and> map fst es = xs"
proof (induction xs)
  case (Cons x xs)
  then obtain v es where "tx_value x = Some v" "scan_entries xs = Some es" "map fst es = xs" by fastforce
  then show ?case by simp
qed simp

lemma propagate_entries_Ok:
  assumes "wf_plink q" "length (t_plink q) < maxIterations" "\<And>x. x \<in> fst ` set es \<Longrightarrow> known_tag q (tx_tagid x)"
  shows "\<exists>q'. propagate_entries q r es = (q', Ok ()) \<and> tags_only q q'"
  using assms
proof (induction es arbitrary: q)
  case Nil
  then show ?case by (simp add: tags_only_refl)
next
  case (Cons e es)
  obtain x v where e: "e = (x, v)" by fastforce
  have "known_tag q (tx_tagid x)" using Cons.prems(3) e by simp
  moreover from this obtain n where n: "map_of (t_tag q) (tx_tagid x) = Some n" by (metis known_tag_def map_of_eq_None_iff not_None_eq)
  ultimately obtain q1 where p: "propagate_entry q r x v = (q1, Ok ())" "tags_only q q1"
    using propagate_spec [OF Cons.prems(1,2)] tags_only_propagate unfolding propagate_entry_def by (metis fst_conv option.simps(5))
  note same = tags_only_same(3) [OF p(2)]
  have "\<exists>q'. propagate_entries q1 r es = (q', Ok ()) \<and> tags_only q1 q'"
  proof (rule Cons.IH)
    show "wf_plink q1" "length (t_plink q1) < maxIterations" using Cons.prems(1,2) same by (simp_all add: wf_plink_def)
    show "\<And>x. x \<in> fst ` set es \<Longrightarrow> known_tag q1 (tx_tagid x)"
      using Cons.prems(3) p(2) unfolding tags_only_def by auto
  qed
  then show ?case using p e tags_only_trans by auto
qed

definition tagged_ok :: "repo \<Rightarrow> rid \<Rightarrow> bool" where
  "tagged_ok q r \<longleftrightarrow> (\<forall>x \<in> set (t_tagxref q). tx_rid x = r \<longrightarrow> tx_value x \<noteq> None \<and> known_tag q (tx_tagid x))"

lemma tagged_ok_tags_only: "tagged_ok q r \<Longrightarrow> tags_only q q' \<Longrightarrow> tagged_ok q' r"
  unfolding tagged_ok_def tags_only_def by blast

lemma PropagateAll_Ok:
  assumes "wf_plink q" "length (t_plink q) < maxIterations" "tagged_ok q r"
  shows "\<exists>q'. PropagateAll q r = (q', Ok ()) \<and> tags_only q q'"
proof -
  obtain es where es: "scan_entries (filter (\<lambda>x. tx_rid x = r) (t_tagxref q)) = Some es"
      "map fst es = filter (\<lambda>x. tx_rid x = r) (t_tagxref q)"
    using scan_entries_Some [of "filter (\<lambda>x. tx_rid x = r) (t_tagxref q)"] assms(3) by (auto simp: tagged_ok_def)
  have "fst ` set es = set (filter (\<lambda>x. tx_rid x = r) (t_tagxref q))" using es(2) by (metis set_map)
  then have "\<exists>q'. propagate_entries q r es = (q', Ok ()) \<and> tags_only q q'"
    using assms by (intro propagate_entries_Ok) (auto simp: tagged_ok_def)
  with es(1) show ?thesis by (auto simp: PropagateAll_def tags_only_refl)
qed

lemma inline_tags_Ok:
  assumes "wf_plink q" "length (t_plink q) < maxIterations" "r > 0" "list_all (\<lambda>t. tc_Name t \<noteq> []) ts"
  shows "\<exists>q'. inline_tags q r mtime ts = (q', Ok ()) \<and> tags_only q q'"
  using assms
proof (induction ts arbitrary: q)
  case Nil
  then show ?case by (simp add: tags_only_refl)
next
  case (Cons t ts)
  show ?case
  proof (cases "tc_UUID t = ''*'' \<and> tag_type_of (tc_Type t) \<noteq> None")
    case False
    with Cons show ?thesis by auto
  next
    case True
    then obtain ty where ty: "tag_type_of (tc_Type t) = Some ty" by auto
    let ?o = "\<lparr>ao_TargetRID = r, ao_SrcRID = r, ao_TagName = tc_Name t, ao_TagType = ty,
                                 ao_Value = tc_Value t, ao_MTime = mtime\<rparr>"
    obtain q1 where a: "ApplyTag q ?o = (q1, Ok ())" "tags_only q q1"
      using ApplyTag_Ok [OF Cons.prems(1,2), of ?o] Cons.prems(3,4) by auto
    have "wf_plink q1" "length (t_plink q1) < maxIterations"
      using Cons.prems(1,2) tags_only_same(3) [OF a(2)] by (simp_all add: wf_plink_def)
    then obtain q2 where "inline_tags q1 r mtime ts = (q2, Ok ())" "tags_only q1 q2"
      using Cons.IH Cons.prems(3,4) by fastforce
    with a ty True tags_only_trans [OF a(2)] show ?thesis by auto
  qed
qed


section \<open>Links and events\<close>

definition links_ok :: "repo \<Rightarrow> bool" where
  "links_ok q \<longleftrightarrow> wf_plink q \<and> (\<forall>p \<in> set (t_plink q). blob_by_rid q (pl_cid p) \<noteq> None) \<and>
     (\<forall>i \<in> set (map ev_objid (t_event q)). blob_by_rid q i \<noteq> None)"

lemma ensureFilename_Ok:
  "name \<noteq> [] \<Longrightarrow> \<exists>q' fnid X. ensureFilename q name = (q', Ok fnid) \<and> q' = q\<lparr>t_filename := X\<rparr>"
  by (cases "find (\<lambda>t. snd t = name) (t_filename q)")
    (auto simp: ensureFilename_def Let_def intro: exI [of _ "t_filename q"])

lemma insertMlinks_Ok:
  assumes "libs_ok L" "\<And>f. f \<in> set fs \<Longrightarrow> fl_Name f \<noteq> []"
  shows "\<exists>X Y. insertMlinks L q parent m fs = (q\<lparr>t_filename := X, t_mlink := Y\<rparr>, Ok ())"
  using assms(2)
proof (induction fs arbitrary: q)
  case Nil
  show ?case by (intro exI [of _ "t_filename q"] exI [of _ "t_mlink q"]) simp
next
  case (Cons f fs)
  obtain fnid X where e: "ensureFilename q (fl_Name f) = (q\<lparr>t_filename := X\<rparr>, Ok fnid)"
    using ensureFilename_Ok [of "fl_Name f" q] Cons.prems by auto
  obtain b where ex: "Exists (q\<lparr>t_filename := X\<rparr>) (l_sha1 L (fl_Content f)) = Ok b"
    using libs_okD(3) [OF assms(1)] by (simp add: Exists_def)
  show ?case
    using e ex Cons.IH [of "q\<lparr>t_filename := X, t_mlink := _\<rparr>"] Cons.prems by (auto simp: Let_def)
qed

fun plink_rows :: "rid \<Rightarrow> int \<Rightarrow> bool \<Rightarrow> rid list \<Rightarrow> plink_row list" where
  "plink_rows cid mtime isPrim [] = []"
| "plink_rows cid mtime isPrim (p # ps) =
     \<lparr>pl_pid = p, pl_cid = cid, pl_isprim = isPrim, pl_mtime = mtime, pl_baseid = None\<rparr> # plink_rows cid mtime False ps"

lemma plink_rows_keys: "map (\<lambda>p. (pl_pid p, pl_cid p)) (plink_rows cid mtime b ps) = map (\<lambda>p. (p, cid)) ps"
  "p \<in> set (plink_rows cid mtime b ps) \<Longrightarrow> pl_cid p = cid" "length (plink_rows cid mtime b ps) = length ps"
  by (induction cid mtime b ps rule: plink_rows.induct) auto

lemma insert_plinks_Ok:
  assumes "\<And>p. p \<in> set ps \<Longrightarrow> \<not> has_plink q p cid" "distinct ps"
  shows "insert_plinks q cid mtime b ps = (q\<lparr>t_plink := t_plink q @ plink_rows cid mtime b ps\<rparr>, Ok ())"
  using assms
proof (induction q cid mtime b ps rule: insert_plinks.induct)
  case (2 q cid mtime isPrim pid pids)
  let ?q = "q\<lparr>t_plink := t_plink q @ [\<lparr>pl_pid = pid, pl_cid = cid, pl_isprim = isPrim,
                              pl_mtime = mtime, pl_baseid = None\<rparr>]\<rparr>"
  have "insert_plinks ?q cid mtime False pids = (?q\<lparr>t_plink := t_plink ?q @ plink_rows cid mtime False pids\<rparr>, Ok ())"
    using "2.prems" by (intro "2.IH") (auto simp: has_plink_def)
  with "2.prems" show ?case by simp
qed simp

lemma markLeafAndEvent_Ok:
  assumes "links_ok q0" "blob_by_rid q0 m = None" "t_plink q = t_plink q0" "t_event q = t_event q0"
  shows "markLeafAndEvent q opts m =
     (q\<lparr>t_plink := t_plink q @ plink_rows m (TimeToJulian (ck_Time opts)) True (collectParents opts),
        t_event := t_event q @ [checkin_event (TimeToJulian (ck_Time opts)) m (ck_User opts) (ck_Comment opts)],
        t_leaf := filter (\<lambda>r. r \<notin> set (collectParents opts)) (insert_key m (t_leaf q)),
        t_unsent := insert_key m (t_unsent q)\<rparr>, Ok ())"
proof -
  have "\<not> has_plink q p m" for p
    using assms by (auto simp: links_ok_def has_plink_def)
  then have ins: "insert_plinks q m (TimeToJulian (ck_Time opts)) True (collectParents opts) =
      (q\<lparr>t_plink := t_plink q @ plink_rows m (TimeToJulian (ck_Time opts)) True (collectParents opts)\<rparr>, Ok ())"
    using collectParents_distinct by (intro insert_plinks_Ok) auto
  have "m \<notin> ev_objid ` set (t_event q)" using assms by (auto simp: links_ok_def)
  then show ?thesis unfolding markLeafAndEvent_def Let_def ins by simp
qed

lemma links_ok_after:
  assumes "links_ok q" "extends q q'" "blob_by_rid q m = None" "blob_by_rid q' m \<noteq> None"
    and "t_plink q' = t_plink q @ plink_rows m mtime True ps" "distinct ps"
    and "map ev_objid (t_event q') = map ev_objid (t_event q) @ [m]"
  shows "links_ok q'"
proof -
  have old: "blob_by_rid q' r \<noteq> None" if "blob_by_rid q r \<noteq> None" for r
    using that assms(2) by (auto simp: extends_def)
  have "wf_plink q'"
    unfolding wf_plink_def assms(5) map_append plink_rows_keys
    using assms(1,3,6) by (auto simp: links_ok_def wf_plink_def distinct_map inj_on_def)
  then show ?thesis
    using assms old plink_rows_keys(2) by (auto simp: links_ok_def)
qed


section \<open>A whole check-in\<close>

definition files_stored :: "libs \<Rightarrow> repo \<Rightarrow> CheckinOpts \<Rightarrow> repo" where
  "files_stored L q opts = fst (storeFileBlobs L q (ck_Files opts))"

text \<open>What a check-in needs of the repository.\<close>

definition checkin_ok :: "libs \<Rightarrow> repo \<Rightarrow> CheckinOpts \<Rightarrow> bool" where
  "checkin_ok L q opts \<longleftrightarrow> wf_repo q \<and> links_ok q \<and> known_parents q opts \<and> tagged_ok q (ck_Parent opts) \<and>
     length (t_plink q) + length (collectParents opts) < maxIterations \<and>
     (\<forall>f \<in> set (ck_Files opts). storable L q (fl_Content f)) \<and> inj_on (l_sha1 L) (fl_Content ` set (ck_Files opts))"

lemma files_stored_spec:
  assumes "libs_ok L" "checkin_ok L q opts"
  obtains rids where "storeFileBlobs L q (ck_Files opts) =
      (files_stored L q opts, Ok (map (card_of L) (ck_Files opts), rids))"
    "wf_repo (files_stored L q opts)" "extends q (files_stored L q opts)"
    "\<forall>f \<in> set (ck_Files opts). holds L (files_stored L q opts) (l_sha1 L (fl_Content f)) (fl_Content f)"
    "\<forall>u. u \<notin> l_sha1 L ` fl_Content ` set (ck_Files opts) \<longrightarrow> blob_by_uuid (files_stored L q opts) u = blob_by_uuid q u"
    "\<exists>B C. files_stored L q opts = q\<lparr>t_blob := B, t_unclustered := C\<rparr>"
proof -
  obtain q1 rids where "storeFileBlobs L q (ck_Files opts) = (q1, Ok (map (card_of L) (ck_Files opts), rids))"
      "wf_repo q1" "extends q q1" "\<forall>f \<in> set (ck_Files opts). holds L q1 (l_sha1 L (fl_Content f)) (fl_Content f)"
      "\<forall>u. u \<notin> l_sha1 L ` fl_Content ` set (ck_Files opts) \<longrightarrow> blob_by_uuid q1 u = blob_by_uuid q u"
      "\<exists>B C. q1 = q\<lparr>t_blob := B, t_unclustered := C\<rparr>"
    using storeFileBlobs_spec [OF assms(1), of q "ck_Files opts"] assms(2) unfolding checkin_ok_def by blast
  then show ?thesis using that unfolding files_stored_def by auto
qed

lemma files_stored_Ok:
  assumes "libs_ok L" "checkin_ok L q opts"
  shows "extends q (files_stored L q opts)"
    "\<forall>f \<in> set (ck_Files opts). holds L (files_stored L q opts) (l_sha1 L (fl_Content f)) (fl_Content f)"
    "\<forall>u. u \<notin> l_sha1 L ` fl_Content ` set (ck_Files opts) \<longrightarrow> blob_by_uuid (files_stored L q opts) u = blob_by_uuid q u"
  by (rule files_stored_spec [OF assms], assumption)+

lemma Checkin_tx_Ok:
  assumes L: "libs_ok L" and ok: "checkin_ok L q opts"
    and names: "\<And>f. f \<in> set (ck_Files opts) \<Longrightarrow> fl_Name f \<noteq> []"
    and d: "buildCheckinDeck L (files_stored L q opts) opts (map (card_of L) (ck_Files opts)) = Ok d"
    and m: "Marshal (l_md5 L) d \<noteq> []" "length (Marshal (l_md5 L) d) < 2 ^ 32"
      "blob_by_uuid (files_stored L q opts) (l_sha1 L (Marshal (l_md5 L) d)) = None"
  obtains q' r where "Checkin_tx L q opts = (q', Ok (r, l_sha1 L (Marshal (l_md5 L) d), dk_T d))" "r > 0"
    "wf_repo q'" "extends (files_stored L q opts) q'" "links_ok q'" "blob_by_rid q r = None"
    "holds L q' (l_sha1 L (Marshal (l_md5 L) d)) (Marshal (l_md5 L) d)"
    "map_option bl_rid (blob_by_uuid q' (l_sha1 L (Marshal (l_md5 L) d))) = Some r"
    "length (t_plink q') < maxIterations" "tagged_ok q' (ck_Parent opts)"
    "set (t_leaf q') = insert r (set (t_leaf q)) - set (collectParents opts)"
proof -
  let ?q1 = "files_stored L q opts" and ?m = "Marshal (l_md5 L) d"
  obtain rids where fs: "storeFileBlobs L q (ck_Files opts) = (?q1, Ok (map (card_of L) (ck_Files opts), rids))"
      "wf_repo ?q1" "extends q ?q1" and
      hold: "\<forall>f \<in> set (ck_Files opts). holds L ?q1 (l_sha1 L (fl_Content f)) (fl_Content f)"
      and other: "\<forall>u. u \<notin> l_sha1 L ` fl_Content ` set (ck_Files opts) \<longrightarrow> blob_by_uuid ?q1 u = blob_by_uuid q u"
      and fr: "\<exists>B C. ?q1 = q\<lparr>t_blob := B, t_unclustered := C\<rparr>"
    by (rule files_stored_spec [OF L ok])
  obtain B1 C1 where fr1: "?q1 = q\<lparr>t_blob := B1, t_unclustered := C1\<rparr>" using fr by blast
  have "storable L ?q1 ?m" using m by (simp add: storable_def)
  from store_spec [OF L fs(2) this] m(3)
  obtain q2 r where st: "store L ?q1 ?m = (q2, Ok (r, l_sha1 L ?m))" "wf_repo q2" "extends ?q1 q2" "r > 0"
      "holds L q2 (l_sha1 L ?m) ?m" "map_option bl_rid (blob_by_uuid q2 (l_sha1 L ?m)) = Some r"
      "\<exists>B C. q2 = ?q1\<lparr>t_blob := B, t_unclustered := C\<rparr>" "r = next_rid ?q1"
    by metis
  obtain B2 C2 where fr2: "q2 = q\<lparr>t_blob := B2, t_unclustered := C2\<rparr>" using st(7) fr1 by auto
  obtain X Y where ml: "insertMlinks L q2 (ck_Parent opts) r (ck_Files opts) = (q2\<lparr>t_filename := X, t_mlink := Y\<rparr>, Ok ())"
    using insertMlinks_Ok [OF L names] by blast
  let ?q3 = "q2\<lparr>t_filename := X, t_mlink := Y\<rparr>" and ?t = "TimeToJulian (ck_Time opts)"
  have none: "blob_by_rid ?q1 r = None" using st(8) blob_by_rid_next by simp
  then have noner: "blob_by_rid q r = None" using fs(3) by (cases "blob_by_rid q r") (auto simp: extends_def)
  have links: "links_ok q" using ok by (simp add: checkin_ok_def)
  let ?q4 = "?q3\<lparr>t_plink := t_plink q @ plink_rows r ?t True (collectParents opts),
        t_event := t_event q @ [checkin_event ?t r (ck_User opts) (ck_Comment opts)],
        t_leaf := filter (\<lambda>r. r \<notin> set (collectParents opts)) (insert_key r (t_leaf q)),
        t_unsent := insert_key r (t_unsent q)\<rparr>"
  have mark: "markLeafAndEvent ?q3 opts r = (?q4, Ok ())"
    using markLeafAndEvent_Ok [OF links noner, of ?q3 opts] by (simp add: fr2)
  let ?q' = "?q4\<lparr>t_unsent := fold insert_key rids (t_unsent ?q4)\<rparr>"
  have run: "Checkin_tx L q opts = (?q', Ok (r, l_sha1 L ?m, dk_T d))"
    by (simp add: Checkin_tx_def fs(1) d insertCheckinBlob_def st(1) ml mark)
  have same: "t_blob ?q' = t_blob q2" "t_delta ?q' = t_delta q2" by simp_all
  have ext: "extends q2 ?q'" using same by (rule extends_same)
  have row: "blob_by_rid ?q' r \<noteq> None"
    using st(5,6) ext by (auto simp: holds_def extends_def dest!: expands_row)
  have links': "links_ok ?q'"
    by (rule links_ok_after [OF links extends_trans [OF extends_trans [OF fs(3) st(3)] ext] noner row _ collectParents_distinct])
      (simp_all add: checkin_event_def)
  show ?thesis
  proof (rule that [OF run st(4) _ extends_trans [OF st(3) ext] links' noner extends_holds [OF st(5) ext]])
    show "wf_repo ?q'" using st(2) by (simp add: wf_repo_def)
    show "map_option bl_rid (blob_by_uuid ?q' (l_sha1 L ?m)) = Some r" using st(6) by (simp add: blob_by_uuid_def)
    show "length (t_plink ?q') < maxIterations"
      using ok by (simp add: checkin_ok_def plink_rows_keys(3))
    show "tagged_ok ?q' (ck_Parent opts)"
      using ok by (simp add: checkin_ok_def tagged_ok_def known_tag_def fr2)
    show "set (t_leaf ?q') = insert r (set (t_leaf q)) - set (collectParents opts)" by auto
  qed
qed


lemma map_insort: "map g (insort_key (\<lambda>x. k (g x)) x xs) = insort_key k (g x) (map g xs)"
  by (induction xs) auto

lemma map_sort_key: "map g (sort_key (\<lambda>x. k (g x)) xs) = sort_key k (map g xs)"
  by (induction xs) (simp_all add: map_insort)

lemma map_entry_of_sort: "map entry_of (sort_key fc_Name fs) = sort_key fe_Name (map entry_of fs)"
proof -
  have "(\<lambda>f. fe_Name (entry_of f)) = fc_Name" by (simp add: entry_of_def)
  with map_sort_key [of entry_of fe_Name fs] show ?thesis by simp
qed

lemma Marshal_nonempty: "(\<And>s. length (md5 s) = 32) \<Longrightarrow> Marshal md5 d \<noteq> []"
  by (simp add: Marshal_def card_line_def Let_def)

lemma load_deck_holds:
  "expands (l_inflate L) q r data \<Longrightarrow> r > 0 \<Longrightarrow> load_deck L q r = wrap_err MfDeck (Parse (l_md5 L) data)"
  by (simp add: load_deck_def Expand_eq_expands [THEN iffD2])

lemma Checkin_run:
  assumes L: "libs_ok L" and opts: "opts_ok opts" and ok: "checkin_ok L q opts"
    and d: "buildCheckinDeck L (files_stored L q opts) opts (map (card_of L) (ck_Files opts)) = Ok d"
      "wf_deck d" "dk_T d = deck_tags opts"
    and m: "length (Marshal (l_md5 L) d) < 2 ^ 32"
      "blob_by_uuid (files_stored L q opts) (l_sha1 L (Marshal (l_md5 L) d)) = None"
  obtains q' r where "Checkin L now q opts = (q', Ok (r, l_sha1 L (Marshal (l_md5 L) d)))" "r > 0"
    "GetManifest L q' r = Ok (canonical d)" "extends (files_stored L q opts) q'" "wf_repo q'" "links_ok q'"
    "set (t_leaf q') = insert r (set (t_leaf q)) - set (collectParents opts)"
proof -
  let ?m = "Marshal (l_md5 L) d" and ?t = "TimeToJulian (ck_Time opts)"
  have names: "fl_Name f \<noteq> []" if "f \<in> set (ck_Files opts)" for f
    using that opts by (auto simp: opts_ok_def list_all_iff)
  have ne: "?m \<noteq> []" using libs_okD(5) [OF L] by (rule Marshal_nonempty)
  obtain q1 r where tx: "Checkin_tx L q opts = (q1, Ok (r, l_sha1 L ?m, dk_T d))" "r > 0"
    "wf_repo q1" "extends (files_stored L q opts) q1" "links_ok q1" "blob_by_rid q r = None"
    "holds L q1 (l_sha1 L ?m) ?m" "map_option bl_rid (blob_by_uuid q1 (l_sha1 L ?m)) = Some r"
    "length (t_plink q1) < maxIterations" "tagged_ok q1 (ck_Parent opts)"
    "set (t_leaf q1) = insert r (set (t_leaf q)) - set (collectParents opts)"
    by (rule Checkin_tx_Ok [OF L ok names d(1) ne m])
  have wf1: "wf_plink q1" using tx(5) by (simp add: links_ok_def)
  obtain q2 where tags: "inline_tags q1 r ?t (dk_T d) = (q2, Ok ())" "tags_only q1 q2"
    using inline_tags_Ok [OF wf1 tx(9,2), of "dk_T d" ?t] opts d(3) by (auto simp: opts_ok_def list_all_iff)
  note same2 = tags_only_same [OF tags(2)]
  have "\<exists>q3. PropagateAll q2 (ck_Parent opts) = (q3, Ok ()) \<and> tags_only q2 q3"
    using wf1 tx(9) same2(3) tagged_ok_tags_only [OF tx(10) tags(2)]
    by (intro PropagateAll_Ok) (simp_all add: wf_plink_def)
  then obtain q3 where pall: "(if ck_Parent opts > 0 then PropagateAll q2 (ck_Parent opts) else (q2, Ok ())) = (q3, Ok ())"
      "tags_only q2 q3"
    by (cases "ck_Parent opts > 0") (auto simp: tags_only_refl)
  have t13: "tags_only q1 q3" by (rule tags_only_trans [OF tags(2) pall(2)])
  note same = tags_only_same [OF t13]
  have ext: "extends q1 q3" by (rule extends_same [OF same(1,2)])
  from tx(7,8) have "expands (l_inflate L) q1 r ?m" by (auto simp: holds_def)
  then have h: "expands (l_inflate L) q3 r ?m" by (rule extends_expands [OF _ ext])
  have run: "Checkin L now q opts = (q3, Ok (r, l_sha1 L ?m))"
    using opts tx(1,2) tags(1) pall(1) by (simp add: Checkin_def opts_ok_def with_tx_def)
  show ?thesis
  proof (rule that [OF run tx(2) _ extends_trans [OF tx(4) ext]])
    show "GetManifest L q3 r = Ok (canonical d)"
      using load_deck_holds [OF h tx(2)] Parse_Marshal [OF d(2)] libs_okD(5) [OF L] tx(2) by (simp add: GetManifest_def)
    show "wf_repo q3" using tx(3) same(1,2) by (simp add: wf_repo_def)
    show "links_ok q3"
      using tx(5) tags_only_objid [OF t13] same(1,3) unfolding links_ok_def wf_plink_def blob_by_rid_def by simp
    show "set (t_leaf q3) = insert r (set (t_leaf q)) - set (collectParents opts)" using tx(11) same(4) by simp
  qed
qed

text \<open>
  Claim C3.  A check-in of files with distinct names succeeds, and reading it back gives exactly the
  files: \<open>ListFiles\<close> returns their names, hashes and permissions in name order, and the
  content of each is found under its hash.  The new check-in is a leaf, its parents no
  longer are, and the schema constraints and the references between the tables are kept.
\<close>

theorem Checkin_ListFiles:
  assumes "libs_ok L" "opts_ok opts" "checkin_ok L q opts" "\<not> ck_Delta opts"
    and "buildCheckinDeck L (files_stored L q opts) opts (map (card_of L) (ck_Files opts)) = Ok d"
    and "length (Marshal (l_md5 L) d) < 2 ^ 32"
    and "blob_by_uuid (files_stored L q opts) (l_sha1 L (Marshal (l_md5 L) d)) = None"
  shows "\<exists>q' r. Checkin L now q opts = (q', Ok (r, l_sha1 L (Marshal (l_md5 L) d))) \<and>
     ListFiles L q' r = Ok (sort_key fe_Name (map (\<lambda>f. \<lparr>fe_Name = fl_Name f, fe_UUID = l_sha1 L (fl_Content f),
                                                          fe_Perm = fl_Perm f\<rparr>) (ck_Files opts))) \<and>
     (\<forall>f \<in> set (ck_Files opts). getContent L q' (l_sha1 L (fl_Content f)) = Ok (fl_Content f)) \<and>
     set (t_leaf q') = insert r (set (t_leaf q)) - set (collectParents opts) \<and> wf_repo q' \<and> links_ok q'"
proof -
  let ?q1 = "files_stored L q opts"
  note st = files_stored_Ok [OF assms(1,3)]
  have "known_parents ?q1 opts" using assms(3) st(1) by (auto simp: checkin_ok_def intro: known_parents_extends)
  then obtain ps h where parts: "deck_parents ?q1 opts = Ok ps"
    "ComputeR (l_md5 L) (getContent L ?q1) (empty_deck\<lparr>dk_F := map (card_of L) (ck_Files opts)\<rparr>) = Ok h"
    "wf_deck (plain_deck opts ps (map (card_of L) (ck_Files opts)) h)"
    by (rule plain_deck_parts [OF assms(1,2) _ st(2)])
  then have d: "d = plain_deck opts ps (map (card_of L) (ck_Files opts)) h"
    using assms(4,5) by (simp add: buildCheckinDeck_def plain_deck_def)
  then have d: "wf_deck d" "dk_B d = []" "dk_F d = map (card_of L) (ck_Files opts)" "dk_T d = deck_tags opts"
    using parts(3) by (simp_all add: plain_deck_def empty_deck_def)
  obtain q' r where run: "Checkin L now q opts = (q', Ok (r, l_sha1 L (Marshal (l_md5 L) d)))" "r > 0"
    "GetManifest L q' r = Ok (canonical d)" "extends ?q1 q'" "wf_repo q'" "links_ok q'"
    "set (t_leaf q') = insert r (set (t_leaf q)) - set (collectParents opts)"
    by (rule Checkin_run [OF assms(1-3,5) d(1,4) assms(6,7)])
  have "ListFiles L q' r = Ok (sort_key fe_Name (map entry_of (dk_F d)))"
    using run(3) d(2) by (simp add: ListFiles_def deck_files_def canonical_def fCardsToEntries_def map_entry_of_sort sort_key_id_if_sorted)
  moreover have "map entry_of (dk_F d) = map (\<lambda>f. \<lparr>fe_Name = fl_Name f, fe_UUID = l_sha1 L (fl_Content f),
                                                          fe_Perm = fl_Perm f\<rparr>) (ck_Files opts)"
    by (simp add: d(3) entry_of_def card_of_def)
  moreover have "getContent L q' (l_sha1 L (fl_Content f)) = Ok (fl_Content f)" if "f \<in> set (ck_Files opts)" for f
    using getContent_holds [OF extends_holds [OF st(2) [rule_format, OF that] run(4)]] libs_okD(3) [OF assms(1)] by simp
  ultimately show ?thesis using run(1,5-7) by auto
qed


section \<open>Delta manifests\<close>

lemma map_of_base_map:
  "map_of (base_map cards) n = map_of (rev (map (\<lambda>f. (fc_Name f, entry_of f)) cards)) n" (is ?map)
  "distinct (map fst (base_map cards))" (is ?dist)
proof -
  have "map_of (fold (\<lambda>f. AList.update (fc_Name f) (entry_of f)) cards m) n =
      (map_of m ++ map_of (rev (map (\<lambda>f. (fc_Name f, entry_of f)) cards))) n" for m
    by (induction cards arbitrary: m) (auto simp: update_conv' map_add_def split: option.split)
  then show ?map by (simp add: base_map_def)
  have "distinct (map fst m) \<Longrightarrow> distinct (map fst (fold (\<lambda>f. AList.update (fc_Name f) (entry_of f)) cards m))" for m
    by (induction cards arbitrary: m) (auto simp: distinct_update)
  then show ?dist by (simp add: base_map_def)
qed

lemma base_map_card:
  assumes "distinct (map fc_Name cards)" "f \<in> set cards"
  shows "map_of (base_map cards) (fc_Name f) = Some (entry_of f)" "base_uuid cards (fc_Name f) = Some (fc_UUID f)"
  using assms by (auto simp: map_of_base_map base_uuid_def o_def rev_map [symmetric] image_image intro!: map_of_is_SomeI)

lemma base_map_other:
  "n \<notin> fc_Name ` set cards \<Longrightarrow> map_of (base_map cards) n = None" "n \<notin> fc_Name ` set cards \<Longrightarrow> base_uuid cards n = None"
  by (auto simp: map_of_base_map base_uuid_def map_of_eq_None_iff)

lemma overlay_other: "n \<notin> fc_Name ` set cards \<Longrightarrow> map_of (overlay cards m) n = map_of m n"
  unfolding overlay_def by (induction cards arbitrary: m) (auto simp: update_conv' delete_conv')

lemma overlay_card:
  "distinct (map fc_Name cards) \<Longrightarrow> f \<in> set cards \<Longrightarrow>
   map_of (overlay cards m) (fc_Name f) = (if fc_UUID f = [] then None else Some (entry_of f))"
proof (induction cards arbitrary: m)
  case (Cons g cards)
  show ?case
  proof (cases "f = g")
    case True
    then have "fc_Name f \<notin> fc_Name ` set cards" using Cons.prems by auto
    from overlay_other [OF this] True show ?thesis by (simp add: overlay_def update_conv' delete_conv')
  next
    case False
    with Cons show ?thesis by (auto simp: overlay_def)
  qed
qed simp

lemma overlay_distinct: "distinct (map fst m) \<Longrightarrow> distinct (map fst (overlay cards m))"
  unfolding overlay_def by (induction cards arbitrary: m) (auto simp: distinct_update distinct_delete)

definition same_perms :: "FileCard list \<Rightarrow> FileCard list \<Rightarrow> bool" where
  "same_perms base full \<longleftrightarrow>
     (\<forall>f \<in> set full. \<forall>g \<in> set base. fc_Name g = fc_Name f \<and> fc_UUID g = fc_UUID f \<longrightarrow> fc_Perm g = fc_Perm f)"

lemma deltaFCards_names:
  assumes "distinct (map fc_Name full)"
  shows "distinct (map fc_Name (deltaFCards base full))"
  using assms by (auto simp: deltaFCards_def o_def distinct_map intro: inj_on_subset)

lemma overlay_deltaFCards:
  assumes "distinct (map fc_Name base)" "distinct (map fc_Name full)" "\<And>f. f \<in> set full \<Longrightarrow> fc_UUID f \<noteq> []"
    and "same_perms base full" "distinct (map fc_Name cards)" "set cards = set (deltaFCards base full)"
  shows "map_of (overlay cards (base_map base)) n = map_of (map (\<lambda>f. (fc_Name f, entry_of f)) full) n"
proof (cases "n \<in> fc_Name ` set full")
  case True
  then obtain f where f: "f \<in> set full" "n = fc_Name f" by auto
  have rhs: "map_of (map (\<lambda>f. (fc_Name f, entry_of f)) full) n = Some (entry_of f)"
    using assms(2) f by (auto simp: o_def intro!: map_of_is_SomeI)
  have uniq: "g = f" if "g \<in> set full" "fc_Name g = n" for g
    using that f assms(2) by (metis distinct_map inj_onD)
  show ?thesis
  proof (cases "base_uuid base n = Some (fc_UUID f)")
    case same: True
    then obtain g where g: "g \<in> set base" "fc_Name g = n" "fc_UUID g = fc_UUID f"
      by (auto simp: base_uuid_def dest!: map_of_SomeD)
    have "fc_Name c \<noteq> n" if "c \<in> set cards" for c
      using that same uniq True f(2) assms(6) by (auto simp: deltaFCards_def)
    then have "map_of (overlay cards (base_map base)) n = map_of (base_map base) n"
      by (intro overlay_other) auto
    also have "\<dots> = Some (entry_of g)" using base_map_card(1) [OF assms(1) g(1)] g(2) by simp
    also have "entry_of g = entry_of f"
      using g f assms(4) by (auto simp: entry_of_def same_perms_def)
    finally show ?thesis using rhs by simp
  next
    case False
    then have "f \<in> set cards" using f assms(6) by (simp add: deltaFCards_def)
    from overlay_card [OF assms(5) this] rhs f assms(3) show ?thesis by simp
  qed
next
  case False
  then have rhs: "map_of (map (\<lambda>f. (fc_Name f, entry_of f)) full) n = None" by (auto simp: map_of_eq_None_iff)
  show ?thesis
  proof (cases "n \<in> fc_Name ` set base")
    case True
    then have "\<lparr>fc_Name = n, fc_UUID = [], fc_Perm = [], fc_OldName = []\<rparr> \<in> set cards"
      using False assms(6) by (auto simp: deltaFCards_def image_iff)
    from overlay_card [OF assms(5) this] rhs show ?thesis by simp
  next
    case other: False
    then have "n \<notin> fc_Name ` set cards" using False assms(6) by (auto simp: deltaFCards_def)
    with overlay_other base_map_other(1) [OF other] rhs show ?thesis by simp
  qed
qed

lemma listing_deltaFCards:
  assumes "distinct (map fc_Name base)" "distinct (map fc_Name full)" "\<And>f. f \<in> set full \<Longrightarrow> fc_UUID f \<noteq> []"
    and "same_perms base full"
  shows "listing base (sort_key fc_Name (deltaFCards base full)) = fCardsToEntries full"
proof -
  let ?m = "overlay (sort_key fc_Name (deltaFCards base full)) (base_map base)"
  let ?m' = "map (\<lambda>f. (fc_Name f, entry_of f)) full"
  have "distinct (map fc_Name (sort_key fc_Name (deltaFCards base full)))"
    using deltaFCards_names [OF assms(2)] by (metis distinct_map distinct_sort set_sort)
  from overlay_deltaFCards [OF assms this] have "map_of ?m = map_of ?m'" by auto
  moreover have d: "distinct (map fst ?m)" "distinct (map fst ?m')"
    using assms(2) overlay_distinct [OF map_of_base_map(2)] by (simp_all add: o_def)
  ultimately have "set ?m = set ?m'" by (simp add: map_of_inject_set)
  moreover have "distinct ?m" "distinct ?m'" using d unfolding distinct_map by blast+
  ultimately have "mset ?m = mset ?m'" using set_eq_iff_mset_eq_distinct by blast
  then have "mset (map snd ?m) = mset (map snd ?m')" unfolding mset_map by (rule arg_cong)
  then have e: "mset (map snd ?m) = mset (map entry_of full)" by (simp add: o_def)
  have "inj_on fe_Name (set (map entry_of full))"
    using assms(2) by (auto simp: inj_on_def entry_of_def distinct_map)
  then have "sort_key fe_Name (map entry_of full) = sort_key fe_Name (map snd ?m)"
    by (rule sort_key_inj_key_eq [rotated]) (simp_all only: mset_sort sorted_sort_key e)
  then show ?thesis unfolding listing_def fCardsToEntries_def by simp
qed


text \<open>The baseline that \<open>applyDelta\<close> finds for a parent, and its deck.\<close>

definition delta_base :: "libs \<Rightarrow> repo \<Rightarrow> rid \<Rightarrow> bytes \<Rightarrow> Deck \<Rightarrow> bool" where
  "delta_base L q parent u base \<longleftrightarrow>
     (\<exists>pd b. parent > 0 \<and> load_deck L q parent = Ok pd \<and>
        u = (if dk_B pd = [] then (case blob_by_rid q parent of None \<Rightarrow> [] | Some b \<Rightarrow> bl_uuid b) else dk_B pd) \<and>
        blob_by_uuid q u = Some b \<and> bl_rid b > 0 \<and> load_deck L q (bl_rid b) = Ok base)"

lemma load_deck_extends:
  assumes "load_deck L q r = Ok d" "r > 0" "extends q q'"
  shows "load_deck L q' r = Ok d"
proof -
  from assms(1) obtain data where "expand L q r = Ok data" "Parse (l_md5 L) data = Ok d"
    by (auto simp: load_deck_def bind_ok_eq_Ok)
  moreover from this(1) have "expand L q' r = Ok data"
    using assms(2,3) extends_expands [of "l_inflate L" q r data q'] by (simp add: Expand_eq_expands)
  ultimately show ?thesis by (simp add: load_deck_def)
qed

lemma load_deck_row: "load_deck L q r = Ok d \<Longrightarrow> r > 0 \<Longrightarrow> blob_by_rid q r \<noteq> None"
  by (auto simp: load_deck_def bind_ok_eq_Ok Expand_eq_expands dest!: expands_row)

lemma delta_base_extends:
  assumes "delta_base L q parent u base" "extends q q'"
  shows "delta_base L q' parent u base"
proof -
  from assms(1) obtain pd b where p: "parent > 0" "load_deck L q parent = Ok pd"
      "u = (if dk_B pd = [] then (case blob_by_rid q parent of None \<Rightarrow> [] | Some b \<Rightarrow> bl_uuid b) else dk_B pd)"
      "blob_by_uuid q u = Some b" "bl_rid b > 0" "load_deck L q (bl_rid b) = Ok base"
    unfolding delta_base_def by blast
  have "blob_by_rid q' parent = blob_by_rid q parent" "blob_by_uuid q' u = Some b"
    using load_deck_row [OF p(2,1)] p(4) assms(2) by (auto simp: extends_def)
  then show ?thesis
    unfolding delta_base_def using p load_deck_extends [OF p(2,1) assms(2)] load_deck_extends [OF p(6,5) assms(2)]
    by metis
qed

lemma applyDelta_eq:
  assumes "delta_base L q parent u base" "u \<noteq> []"
  shows "applyDelta L q d full parent =
     Ok (if length (deltaFCards (dk_F base) full) < length full
         then d\<lparr>dk_B := u, dk_F := deltaFCards (dk_F base) full\<rparr> else d)"
  using assms by (auto simp: applyDelta_def delta_base_def Let_def Exists_def)

lemma deck_files_delta:
  assumes "delta_base L q parent u base" "u \<noteq> []" "dk_B d = u"
  shows "deck_files L q d = Ok (listing (dk_F base) (dk_F d))"
  using assms by (auto simp: deck_files_def delta_base_def Exists_def listing_def)

text \<open>
  Claim C32.  A check-in with a delta manifest lists exactly its files too: whether or not the delta is
  used, the baseline and the F cards of the manifest together give the names, hashes and
  permissions of the files, provided no file of the baseline keeps its content and changes
  its permission.
\<close>

theorem Checkin_delta_ListFiles:
  assumes "libs_ok L" "opts_ok opts" "checkin_ok L q opts" "ck_Delta opts" "ck_Parent opts > 0"
    and "delta_base L q (ck_Parent opts) u base" "is_token u" "wf_deck base"
    and "same_perms (dk_F base) (map (card_of L) (ck_Files opts))"
    and "buildCheckinDeck L (files_stored L q opts) opts (map (card_of L) (ck_Files opts)) = Ok d"
    and "length (Marshal (l_md5 L) d) < 2 ^ 32"
    and "blob_by_uuid (files_stored L q opts) (l_sha1 L (Marshal (l_md5 L) d)) = None"
  shows "\<exists>q' r. Checkin L now q opts = (q', Ok (r, l_sha1 L (Marshal (l_md5 L) d))) \<and>
     ListFiles L q' r = Ok (fCardsToEntries (map (card_of L) (ck_Files opts)))"
proof -
  let ?q1 = "files_stored L q opts" and ?F = "map (card_of L) (ck_Files opts)"
  let ?D = "deltaFCards (dk_F base) ?F"
  have u: "u \<noteq> []" using assms(7) by (simp add: is_token_def)
  note st = files_stored_Ok [OF assms(1,3)]
  note base1 = delta_base_extends [OF assms(6) st(1)]
  have "known_parents ?q1 opts" using assms(3) st(1) by (auto simp: checkin_ok_def intro: known_parents_extends)
  then obtain ps h where parts: "deck_parents ?q1 opts = Ok ps"
    "ComputeR (l_md5 L) (getContent L ?q1) (empty_deck\<lparr>dk_F := ?F\<rparr>) = Ok h" "wf_deck (plain_deck opts ps ?F h)"
    by (rule plain_deck_parts [OF assms(1,2) _ st(2)])
  let ?d0 = "plain_deck opts ps ?F h"
  have d: "d = (if length ?D < length ?F then ?d0\<lparr>dk_B := u, dk_F := ?D\<rparr> else ?d0)"
    using assms(4,5,10) parts(1,2) applyDelta_eq [OF base1 u]
    by (auto simp: buildCheckinDeck_def plain_deck_def)
  have F: "distinct (map fc_Name ?F)" "\<And>f. f \<in> set ?F \<Longrightarrow> fc_UUID f \<noteq> []"
    using parts(3) libs_okD(3) [OF assms(1)] by (auto simp: wf_deck_def plain_deck_def card_of_def)
  have B: "distinct (map fc_Name (dk_F base))" "list_all F_ok (dk_F base)" using assms(8) by (simp_all add: wf_deck_def)
  have "list_all F_ok ?D"
    using B(2) parts(3) by (auto simp: wf_deck_def plain_deck_def deltaFCards_def list_all_iff F_ok_def)
  then have wf: "wf_deck d"
    using parts(3) deltaFCards_names [OF F(1)] trimmed_token [OF assms(7)]
    unfolding d by (auto simp: wf_deck_def plain_deck_def)
  have T: "dk_T d = deck_tags opts" by (simp add: d plain_deck_def)
  obtain q' r where run: "Checkin L now q opts = (q', Ok (r, l_sha1 L (Marshal (l_md5 L) d)))" "r > 0"
    "GetManifest L q' r = Ok (canonical d)" "extends ?q1 q'" "wf_repo q'" "links_ok q'"
    "set (t_leaf q') = insert r (set (t_leaf q)) - set (collectParents opts)"
    by (rule Checkin_run [OF assms(1-3,10) wf T assms(11,12)])
  note base2 = delta_base_extends [OF base1 run(4)]
  have "deck_files L q' (canonical d) = Ok (fCardsToEntries ?F)"
  proof (cases "length ?D < length ?F")
    case True
    then have "deck_files L q' (canonical d) = Ok (listing (dk_F base) (sort_key fc_Name ?D))"
      using deck_files_delta [OF base2 u, of "canonical d"] by (simp add: d canonical_def)
    then show ?thesis using listing_deltaFCards [OF B(1) F assms(9)] by simp
  next
    case False
    then show ?thesis
      by (simp add: d deck_files_def canonical_def fCardsToEntries_def map_entry_of_sort sort_key_id_if_sorted
          plain_deck_def empty_deck_def)
  qed
  then show ?thesis using run(1,3) by (simp add: ListFiles_def)
qed


section \<open>Instances\<close>

definition toy_libs :: libs where
  "toy_libs = \<lparr>l_md5 = (\<lambda>_. replicate 32 CHR ''0''),
     l_sha1 = (\<lambda>s. replicate (length s mod 40) CHR ''a'' @ replicate (40 - length s mod 40) CHR ''b''),
     l_sha3 = (\<lambda>_. replicate 64 CHR ''c''), l_deflate = sample_deflate, l_inflate = sample_inflate\<rparr>"

definition toy_time :: gotime where
  "toy_time = \<lparr>gt_year = 4, gt_month = 2, gt_day = 29, gt_hour = 1, gt_min = 2, gt_sec = 3, gt_nsec = 0\<rparr>"

definition toy_checkin :: CheckinOpts where
  "toy_checkin = \<lparr>ck_Files = [\<lparr>fl_Name = ''b.txt'', fl_Content = ''bee'', fl_Perm = []\<rparr>,
       \<lparr>fl_Name = ''a.sh'', fl_Content = ''aa'', fl_Perm = ''x''\<rparr>],
     ck_Comment = ''first'', ck_User = ''me'', ck_Parent = 0, ck_MergeParents = [], ck_Delta = False,
     ck_Time = toy_time, ck_Tags = []\<rparr>"

lemma toy_libs_ok: "libs_ok toy_libs"
proof -
  have "no_space (l_sha1 toy_libs s)" "no_space (l_md5 toy_libs s)" for s
    by (auto simp: toy_libs_def list_all_iff ascii_graphic_def ascii_space_def byte_val_def intro!: ascii_no_space)
  then show ?thesis
    using sample_zlib by (simp add: libs_ok_def toy_libs_def is_token_def not_le)
qed

lemma toy_opts_ok: "opts_ok toy_checkin"
proof -
  have "list_all (\<lambda>f. fl_Name f \<noteq> [] \<and> is_token (FossilEncode (fl_Name f)) \<and> (fl_Perm f \<noteq> [] \<longrightarrow> is_token (fl_Perm f)))
       (ck_Files toy_checkin)" "list_all (\<lambda>t. T_ok t \<and> tc_Name t \<noteq> []) (deck_tags toy_checkin)"
      "distinct (map tag_key (deck_tags toy_checkin))"
    by code_simp+
  moreover have "D_ok toy_time"
    by (simp add: D_ok_def toy_time_def encodable_time_def valid_time_def days_in_def is_leap_def)
  ultimately show ?thesis by (simp add: opts_ok_def toy_checkin_def toy_time_def zero_time_def)
qed

lemma toy_checkin_ok: "checkin_ok toy_libs empty_repo toy_checkin"
proof -
  have "l_sha1 toy_libs ''bee'' \<noteq> l_sha1 toy_libs ''aa''" by code_simp
  then have "inj_on (l_sha1 toy_libs) (fl_Content ` set (ck_Files toy_checkin))" by (auto simp: toy_checkin_def)
  then show ?thesis
    by (simp add: checkin_ok_def wf_repo_def links_ok_def wf_plink_def known_parents_def tagged_ok_def empty_repo_def
      collectParents_def toy_checkin_def maxIterations_def storable_def blob_by_uuid_def)
qed

definition toy_deck :: Deck where
  "toy_deck = plain_deck toy_checkin [] (map (card_of toy_libs) (ck_Files toy_checkin)) (replicate 32 CHR ''0'')"

lemma toy_sha1: "l_sha1 toy_libs s = replicate (length s mod 40) CHR ''a'' @ replicate (40 - length s mod 40) CHR ''b''"
  by (simp add: toy_libs_def)

lemma toy_D_length: "length (marshal_D toy_time) = 26"
  by (simp add: marshal_D_def toy_time_def zero_time_def format_millis_def format_secs_def pad_def card_line_def
      show_nat.simps)

lemma toy_Marshal_length:
  "length (Marshal (l_md5 toy_libs) d) =
     length (Marshal (l_md5 toy_libs) (d\<lparr>dk_D := zero_time\<rparr>)) + length (marshal_D (dk_D d))"
  by (simp add: Marshal_def Let_def marshalCards_def card_line_def computeZ_def toy_libs_def marshal_D_def)

lemma toy_md5: "ComputeR (l_md5 toy_libs) g (empty_deck\<lparr>dk_F := fs\<rparr>) = Ok h \<Longrightarrow> fs \<noteq> [] \<Longrightarrow> h = replicate 32 CHR ''0''"
  by (auto simp: ComputeR_def toy_libs_def bind_ok_eq_Ok)

lemma toy_build:
  "buildCheckinDeck toy_libs (files_stored toy_libs empty_repo toy_checkin) toy_checkin
     (map (card_of toy_libs) (ck_Files toy_checkin)) = Ok toy_deck" (is ?build) and toy_wf: "wf_deck toy_deck"
proof -
  let ?q1 = "files_stored toy_libs empty_repo toy_checkin" and ?F = "map (card_of toy_libs) (ck_Files toy_checkin)"
  note st = files_stored_Ok [OF toy_libs_ok toy_checkin_ok]
  have "known_parents ?q1 toy_checkin" by (simp add: known_parents_def collectParents_def toy_checkin_def)
  then obtain ps h where p: "deck_parents ?q1 toy_checkin = Ok ps"
    "ComputeR (l_md5 toy_libs) (getContent toy_libs ?q1) (empty_deck\<lparr>dk_F := ?F\<rparr>) = Ok h"
    "wf_deck (plain_deck toy_checkin ps ?F h)"
    by (rule plain_deck_parts [OF toy_libs_ok toy_opts_ok _ st(2)])
  moreover have h: "h = replicate 32 CHR ''0''" by (rule toy_md5 [OF p(2)]) (simp add: toy_checkin_def)
  ultimately show ?build
    by (auto simp: buildCheckinDeck_def toy_deck_def plain_deck_def deck_parents_def toy_checkin_def)
  have "ps = []" using p(1) by (simp add: deck_parents_def toy_checkin_def)
  with p(3) h show "wf_deck toy_deck" by (simp add: toy_deck_def)
qed

lemma toy_base_length: "length (Marshal (l_md5 toy_libs) (toy_deck\<lparr>dk_D := zero_time\<rparr>)) = 215"
  by code_simp

theorem Checkin_ListFiles_witness:
  "\<exists>q' r u. Checkin toy_libs zero_time empty_repo toy_checkin = (q', Ok (r, u)) \<and>
     ListFiles toy_libs q' r = Ok [\<lparr>fe_Name = ''a.sh'', fe_UUID = l_sha1 toy_libs ''aa'', fe_Perm = ''x''\<rparr>,
       \<lparr>fe_Name = ''b.txt'', fe_UUID = l_sha1 toy_libs ''bee'', fe_Perm = []\<rparr>]"
proof -
  let ?q1 = "files_stored toy_libs empty_repo toy_checkin" and ?u = "l_sha1 toy_libs (Marshal (l_md5 toy_libs) toy_deck)"
  have "dk_D toy_deck = toy_time" by (simp add: toy_deck_def plain_deck_def toy_checkin_def)
  then have len: "length (Marshal (l_md5 toy_libs) toy_deck) = 241"
    using toy_Marshal_length [of toy_deck] toy_base_length by (simp add: toy_D_length)
  then have m: "length (Marshal (l_md5 toy_libs) toy_deck) < 2 ^ 32" by simp
  have "?u \<notin> set (map (l_sha1 toy_libs) (map fl_Content (ck_Files toy_checkin)))" unfolding toy_sha1 len by code_simp
  then have "blob_by_uuid ?q1 ?u = blob_by_uuid empty_repo ?u"
    using files_stored_Ok(3) [OF toy_libs_ok toy_checkin_ok] by (simp add: image_image)
  also have "\<dots> = None" by (simp add: blob_by_uuid_def empty_repo_def)
  finally have fresh: "blob_by_uuid ?q1 ?u = None" .
  from Checkin_ListFiles [OF toy_libs_ok toy_opts_ok toy_checkin_ok _ toy_build m fresh, of zero_time]
  obtain q' r u where "Checkin toy_libs zero_time empty_repo toy_checkin = (q', Ok (r, u))"
    "ListFiles toy_libs q' r = Ok (sort_key fe_Name (map (\<lambda>f. \<lparr>fe_Name = fl_Name f,
        fe_UUID = l_sha1 toy_libs (fl_Content f), fe_Perm = fl_Perm f\<rparr>) (ck_Files toy_checkin)))"
    by (auto simp: toy_checkin_def)
  moreover have "''a.sh'' < ''b.txt''" by code_simp
  ultimately show ?thesis by (auto simp: toy_checkin_def)
qed

text \<open>
  A change of permission alone is lost in a delta manifest: \<open>applyDelta\<close> compares hashes only,
  so a file that keeps its content is left out of the delta, and the listing of the check-in
  shows the permission of the baseline.
\<close>

theorem delta_keeps_old_permission:
  assumes "distinct (map fc_Name base)" "distinct (map fc_Name full)"
    and "f \<in> set full" "g \<in> set base" "fc_Name g = fc_Name f" "fc_UUID g = fc_UUID f"
  shows "f \<notin> set (deltaFCards base full) \<and> entry_of g \<in> set (listing base (sort_key fc_Name (deltaFCards base full)))"
proof -
  have uu: "base_uuid base (fc_Name f) = Some (fc_UUID f)" using base_map_card(2) [OF assms(1,4)] assms(5,6) by simp
  have "fc_Name c \<noteq> fc_Name f" if c: "c \<in> set (deltaFCards base full)" for c
  proof
    assume "fc_Name c = fc_Name f"
    with c assms(3) have "c \<in> set full" "base_uuid base (fc_Name f) \<noteq> Some (fc_UUID c)" by (auto simp: deltaFCards_def)
    moreover from this(1) have "c = f" using \<open>fc_Name c = fc_Name f\<close> assms(2,3) by (metis distinct_map inj_onD)
    ultimately show False using uu by simp
  qed
  then have notin: "fc_Name f \<notin> fc_Name ` set (sort_key fc_Name (deltaFCards base full))" by force
  from overlay_other [OF this, of "base_map base"] base_map_card(1) [OF assms(1,4)] assms(5)
  have "map_of (overlay (sort_key fc_Name (deltaFCards base full)) (base_map base)) (fc_Name f) = Some (entry_of g)"
    by simp
  then have "(fc_Name f, entry_of g) \<in> set (overlay (sort_key fc_Name (deltaFCards base full)) (base_map base))"
    by (rule map_of_SomeD)
  then have "entry_of g \<in> set (listing base (sort_key fc_Name (deltaFCards base full)))"
    by (force simp: listing_def image_iff)
  moreover have "f \<notin> set (deltaFCards base full)"
    using notin by auto
  ultimately show ?thesis by blast
qed

theorem delta_keeps_old_permission_witness:
  "\<lparr>fe_Name = ''a.sh'', fe_UUID = ''h'', fe_Perm = []\<rparr> \<in> set (listing [\<lparr>fc_Name = ''a.sh'', fc_UUID = ''h'', fc_Perm = [], fc_OldName = []\<rparr>]
     (sort_key fc_Name (deltaFCards [\<lparr>fc_Name = ''a.sh'', fc_UUID = ''h'', fc_Perm = [], fc_OldName = []\<rparr>]
        [\<lparr>fc_Name = ''a.sh'', fc_UUID = ''h'', fc_Perm = ''x'', fc_OldName = []\<rparr>])))"
  using delta_keeps_old_permission [of "[\<lparr>fc_Name = ''a.sh'', fc_UUID = ''h'', fc_Perm = [], fc_OldName = []\<rparr>]"
      "[\<lparr>fc_Name = ''a.sh'', fc_UUID = ''h'', fc_Perm = ''x'', fc_OldName = []\<rparr>]"
      "\<lparr>fc_Name = ''a.sh'', fc_UUID = ''h'', fc_Perm = ''x'', fc_OldName = []\<rparr>"
      "\<lparr>fc_Name = ''a.sh'', fc_UUID = ''h'', fc_Perm = [], fc_OldName = []\<rparr>"]
  by (simp add: entry_of_def)

definition toy_base :: Deck where
  "toy_base = toy_deck\<lparr>dk_D := zero_time\<rparr>"

definition toy_parent :: repo where
  "toy_parent = empty_repo\<lparr>t_blob := [\<lparr>bl_rid = 1, bl_rcvid = 1, bl_size = 215, bl_uuid = replicate 40 CHR ''d'',
     bl_content = Some (Compress sample_deflate (Marshal (l_md5 toy_libs) toy_base))\<rparr>]\<rparr>"

definition toy_child :: CheckinOpts where
  "toy_child = toy_checkin\<lparr>ck_Files := [\<lparr>fl_Name = ''b.txt'', fl_Content = ''beers'', fl_Perm = []\<rparr>,
       \<lparr>fl_Name = ''a.sh'', fl_Content = ''aa'', fl_Perm = ''x''\<rparr>], ck_Parent := 1, ck_Delta := True\<rparr>"


lemma wf_canonical: "wf_deck d \<Longrightarrow> wf_deck (canonical d)"
  by (auto simp: wf_deck_def canonical_def list_all_iff distinct_map)

lemma toy_opts_ok': "opts_ok toy_child"
proof -
  have "list_all (\<lambda>f. fl_Name f \<noteq> [] \<and> is_token (FossilEncode (fl_Name f)) \<and> (fl_Perm f \<noteq> [] \<longrightarrow> is_token (fl_Perm f)))
       (ck_Files toy_child)"
    by code_simp
  moreover have "D_ok (ck_Time toy_child)" using toy_opts_ok by (simp add: opts_ok_def toy_child_def)
  ultimately show ?thesis
    by (simp add: opts_ok_def toy_child_def toy_checkin_def toy_time_def zero_time_def deck_tags_def)
qed

lemma toy_base_wf: "wf_deck toy_base"
  using toy_wf by (simp add: toy_base_def wf_deck_def D_ok_def encodable_time_def valid_time_def zero_time_def days_in_def)

lemma toy_parent_deck: "load_deck toy_libs toy_parent 1 = Ok (canonical toy_base)"
proof -
  let ?m = "Marshal (l_md5 toy_libs) toy_base"
  have len: "length ?m = 215" by (simp add: toy_base_def toy_base_length)
  have "blob_by_rid toy_parent 1 = Some \<lparr>bl_rid = 1, bl_rcvid = 1, bl_size = 215, bl_uuid = replicate 40 CHR ''d'',
     bl_content = Some (Compress (l_deflate toy_libs) ?m)\<rparr>"
    by (simp add: toy_parent_def blob_by_rid_def toy_libs_def)
  then have "Load (l_inflate toy_libs) False toy_parent 1 = Ok ?m"
    by (rule Load_compressed [OF libs_okD(1) [OF toy_libs_ok], rotated]) (simp_all add: len)
  then have "expands (l_inflate toy_libs) toy_parent 1 ?m"
    by (intro expands.expands_root) (simp_all add: delta_src_def toy_parent_def empty_repo_def)
  from load_deck_holds [OF this] show ?thesis
    using Parse_Marshal [OF toy_base_wf] libs_okD(5) [OF toy_libs_ok] by simp
qed

lemma toy_delta_base: "delta_base toy_libs toy_parent 1 (replicate 40 CHR ''d'') (canonical toy_base)"
proof -
  have "dk_B (canonical toy_base) = []" by (simp add: canonical_def toy_base_def toy_deck_def plain_deck_def empty_deck_def)
  then show ?thesis
    using toy_parent_deck by (simp add: delta_base_def toy_parent_def blob_by_rid_def blob_by_uuid_def)
qed

lemma toy_checkin_ok': "checkin_ok toy_libs toy_parent toy_child"
proof -
  have "l_sha1 toy_libs ''beers'' \<noteq> l_sha1 toy_libs ''aa''" by code_simp
  then have "inj_on (l_sha1 toy_libs) (fl_Content ` set (ck_Files toy_child))" by (auto simp: toy_child_def)
  moreover have "l_sha1 toy_libs ''beers'' \<noteq> replicate 40 CHR ''d''" "l_sha1 toy_libs ''aa'' \<noteq> replicate 40 CHR ''d''"
      "is_token (replicate 40 CHR ''d'')"
    by code_simp+
  ultimately show ?thesis
    by (auto simp: checkin_ok_def wf_repo_def links_ok_def wf_plink_def known_parents_def tagged_ok_def toy_parent_def empty_repo_def
      collectParents_def toy_child_def toy_checkin_def maxIterations_def storable_def blob_by_uuid_def blob_by_rid_def)
qed


definition toy_delta :: Deck where
  "toy_delta = (plain_deck toy_child [replicate 40 CHR ''d''] (map (card_of toy_libs) (ck_Files toy_child))
     (replicate 32 CHR ''0''))\<lparr>dk_B := replicate 40 CHR ''d'',
     dk_F := [card_of toy_libs \<lparr>fl_Name = ''b.txt'', fl_Content = ''beers'', fl_Perm = []\<rparr>]\<rparr>"

lemma toy_delta_length: "length (Marshal (l_md5 toy_libs) (toy_delta\<lparr>dk_D := zero_time\<rparr>)) = 218"
  by code_simp

theorem Checkin_delta_ListFiles_witness:
  "\<exists>q' r u. Checkin toy_libs zero_time toy_parent toy_child = (q', Ok (r, u)) \<and>
     ListFiles toy_libs q' r = Ok [\<lparr>fe_Name = ''a.sh'', fe_UUID = l_sha1 toy_libs ''aa'', fe_Perm = ''x''\<rparr>,
       \<lparr>fe_Name = ''b.txt'', fe_UUID = l_sha1 toy_libs ''beers'', fe_Perm = []\<rparr>]"
proof -
  let ?q1 = "files_stored toy_libs toy_parent toy_child" and ?F = "map (card_of toy_libs) (ck_Files toy_child)"
  let ?u = "l_sha1 toy_libs (Marshal (l_md5 toy_libs) toy_delta)" and ?d = "replicate 40 CHR ''d''"
  note st = files_stored_Ok [OF toy_libs_ok toy_checkin_ok']
  have par: "known_parents ?q1 toy_child"
    using toy_checkin_ok' st(1) by (auto simp: checkin_ok_def intro: known_parents_extends)
  then obtain ps h where p: "deck_parents ?q1 toy_child = Ok ps"
    "ComputeR (l_md5 toy_libs) (getContent toy_libs ?q1) (empty_deck\<lparr>dk_F := ?F\<rparr>) = Ok h"
    "wf_deck (plain_deck toy_child ps ?F h)"
    by (rule plain_deck_parts [OF toy_libs_ok toy_opts_ok' _ st(2)])
  have h: "h = replicate 32 CHR ''0''" by (rule toy_md5 [OF p(2)]) (simp add: toy_child_def)
  have "blob_by_rid ?q1 1 = blob_by_rid toy_parent 1"
    using st(1) by (simp add: extends_def toy_parent_def blob_by_rid_def)
  then have ps: "ps = [?d]" using p(1) by (simp add: deck_parents_def toy_child_def toy_checkin_def uuid_of_def toy_parent_def blob_by_rid_def)
  have tok: "is_token ?d" by code_simp
  have F: "deltaFCards (dk_F (canonical toy_base)) ?F = [card_of toy_libs \<lparr>fl_Name = ''b.txt'', fl_Content = ''beers'', fl_Perm = []\<rparr>]"
    by code_simp
  have "?d \<noteq> []" by simp
  from applyDelta_eq [OF delta_base_extends [OF toy_delta_base st(1)] this] p h ps F
  have build: "buildCheckinDeck toy_libs ?q1 toy_child ?F = Ok toy_delta"
    by (simp add: buildCheckinDeck_def toy_delta_def plain_deck_def toy_child_def)
  have len: "length (Marshal (l_md5 toy_libs) toy_delta) = 244"
    using toy_Marshal_length [of toy_delta] toy_delta_length
    by (simp add: toy_D_length toy_delta_def plain_deck_def toy_child_def toy_checkin_def)
  then have m: "length (Marshal (l_md5 toy_libs) toy_delta) < 2 ^ 32" by simp
  have "?u \<notin> set (map (l_sha1 toy_libs) (map fl_Content (ck_Files toy_child)))" "?u \<noteq> ?d"
    unfolding toy_sha1 len by code_simp+
  then have fresh: "blob_by_uuid ?q1 ?u = None"
    using st(3) by (simp add: image_image blob_by_uuid_def toy_parent_def)
  have perms: "same_perms (dk_F (canonical toy_base)) ?F"
    by (auto simp: same_perms_def canonical_def toy_base_def toy_deck_def plain_deck_def card_of_def toy_child_def toy_checkin_def)
  from Checkin_delta_ListFiles [OF toy_libs_ok toy_opts_ok' toy_checkin_ok' _ _ _ tok wf_canonical [OF toy_base_wf] perms
      build m fresh, of zero_time] toy_delta_base
  obtain q' r u where "Checkin toy_libs zero_time toy_parent toy_child = (q', Ok (r, u))"
    "ListFiles toy_libs q' r = Ok (fCardsToEntries ?F)"
    by (auto simp: toy_child_def)
  moreover have "''a.sh'' < ''b.txt''" by code_simp
  ultimately show ?thesis by (auto simp: fCardsToEntries_def toy_child_def card_of_def entry_of_def)
qed

end
