(* ===== verification/Crosslink.thy ===== *)
theory Crosslink
  imports Manifest
begin

text \<open>
  Crosslinking (\<open>internal/manifest\<close>: \<open>crosslink.go\<close>, \<open>dephantomize.go\<close>): artifacts that arrived by
  sync are parsed and the cross-reference tables (event, plink, leaf, mlink, cherrypick,
  tagxref, attachment, forumpost) are filled from them.  Statements outside a transaction
  keep their effect when a later one fails, so every function returns the state beside its
  outcome.  Log output is not modelled.
\<close>

section \<open>Quoting (strconv.Quote, the verb \<open>%q\<close>)\<close>

text \<open>
  ASCII bytes are quoted as Go does; how a run of other bytes is printed depends on the Unicode
  tables and is an argument.
\<close>

definition hex_char :: "nat \<Rightarrow> byte" where
  "hex_char n = ''0123456789abcdef'' ! n"

definition quote_ascii :: "byte \<Rightarrow> bytes" where
  "quote_ascii c =
     (if c = CHR 0x22 then [CHR 0x5C, CHR 0x22]
      else if c = CHR 0x5C then [CHR 0x5C, CHR 0x5C]
      else if c = CHR 0x07 then [CHR 0x5C, CHR ''a'']
      else if c = CHR 0x08 then [CHR 0x5C, CHR ''b'']
      else if c = CHR 0x0C then [CHR 0x5C, CHR ''f'']
      else if c = NL then [CHR 0x5C, CHR ''n'']
      else if c = CR then [CHR 0x5C, CHR ''r'']
      else if c = TAB then [CHR 0x5C, CHR ''t'']
      else if c = CHR 0x0B then [CHR 0x5C, CHR ''v'']
      else if 0x20 \<le> byte_val c \<and> byte_val c < 0x7F then [c]
      else [CHR 0x5C, CHR ''x'', hex_char (byte_val c div 16), hex_char (byte_val c mod 16)])"

function quote_body :: "(bytes \<Rightarrow> bytes) \<Rightarrow> bytes \<Rightarrow> bytes" where
  "quote_body u [] = []"
| "quote_body u (c # cs) =
     (if byte_val c < 128 then quote_ascii c @ quote_body u cs
      else u (c # takeWhile (\<lambda>b. byte_val b \<ge> 128) cs) @ quote_body u (dropWhile (\<lambda>b. byte_val b \<ge> 128) cs))"
  by pat_completeness auto
termination by (relation "measure (\<lambda>(u, s). length s)") (auto simp: le_imp_less_Suc length_dropWhile_le)

definition Quote :: "(bytes \<Rightarrow> bytes) \<Rightarrow> bytes \<Rightarrow> bytes" where
  "Quote u s = CHR 0x22 # quote_body u s @ [CHR 0x22]"

section \<open>Shared statements\<close>

datatype crosslink_error =
    XTag tag_error | XSql sql_error | XBlob blob_error | XManifest manifest_error
  | MissingTitle | MissingTicketUUID | MissingEventCard | MissingAttachmentCard

text \<open>\<open>SELECT rid FROM blob WHERE uuid=?\<close>\<close>

definition rid_of :: "repo \<Rightarrow> bytes \<Rightarrow> rid option" where
  "rid_of q u = map_option bl_rid (blob_by_uuid q u)"

definition event_of :: "bytes \<Rightarrow> int \<Rightarrow> rid \<Rightarrow> bytes \<Rightarrow> bytes \<Rightarrow> event_row" where
  "event_of ty mtime r user comment =
     \<lparr>ev_type = ty, ev_mtime = mtime, ev_objid = r, ev_tagid = None, ev_bgcolor = None, ev_euser = None,
      ev_user = Some user, ev_ecomment = None, ev_comment = Some comment\<rparr>"

text \<open>\<open>INSERT OR IGNORE\<close> and \<open>REPLACE INTO event\<close>: the key is \<open>objid\<close>.\<close>

definition insert_event :: "repo \<Rightarrow> event_row \<Rightarrow> repo" where
  "insert_event q e = (if ev_objid e \<in> ev_objid ` set (t_event q) then q else q\<lparr>t_event := t_event q @ [e]\<rparr>)"

definition replace_event :: "repo \<Rightarrow> event_row \<Rightarrow> repo" where
  "replace_event q e = q\<lparr>t_event := filter (\<lambda>x. ev_objid x \<noteq> ev_objid e) (t_event q) @ [e]\<rparr>"

text \<open>\<open>INSERT OR IGNORE INTO plink\<close>\<close>

definition insert_plink :: "repo \<Rightarrow> plink_row \<Rightarrow> repo" where
  "insert_plink q p = (if has_plink q (pl_pid p) (pl_cid p) then q else q\<lparr>t_plink := t_plink q @ [p]\<rparr>)"

section \<open>Check-ins\<close>

definition blobPresent :: "repo \<Rightarrow> bytes \<Rightarrow> bool" where
  "blobPresent q u = (case blob_by_uuid q u of None \<Rightarrow> False | Some b \<Rightarrow> bl_size b \<ge> 0)"

text \<open>The references of a check-in, in order and without repetition: its baseline and its files.\<close>

definition checkin_refs :: "Deck \<Rightarrow> bytes list" where
  "checkin_refs d = filter (\<lambda>u. u \<noteq> []) (dk_B d # map fc_UUID (dk_F d))"

fun missing_refs :: "repo \<Rightarrow> bytes list \<Rightarrow> bytes list \<Rightarrow> bytes list" where
  "missing_refs q seen [] = []"
| "missing_refs q seen (u # us) =
     (if u \<in> set seen then missing_refs q seen us
      else if blobPresent q u then missing_refs q (u # seen) us
      else u # missing_refs q (u # seen) us)"

definition missingCheckinRefs :: "repo \<Rightarrow> Deck \<Rightarrow> bytes list" where
  "missingCheckinRefs q d = missing_refs q [] (checkin_refs d)"

fun insertCheckinPlinks :: "repo \<Rightarrow> rid \<Rightarrow> int \<Rightarrow> rid option \<Rightarrow> bool \<Rightarrow> bytes list \<Rightarrow> repo" where
  "insertCheckinPlinks q r mtime baseid isPrim [] = q"
| "insertCheckinPlinks q r mtime baseid isPrim (u # us) =
     insertCheckinPlinks
       (case rid_of q u of
          None \<Rightarrow> q
        | Some p \<Rightarrow> insert_plink q \<lparr>pl_pid = p, pl_cid = r, pl_isprim = isPrim, pl_mtime = mtime, pl_baseid = baseid\<rparr>)
       r mtime baseid False us"

definition updateLeafTable :: "repo \<Rightarrow> rid \<Rightarrow> Deck \<Rightarrow> repo" where
  "updateLeafTable q r d =
     q\<lparr>t_leaf := filter (\<lambda>x. x \<notin> set (List.map_filter (rid_of q) (dk_P d))) (insert_key r (t_leaf q))\<rparr>"

fun insertCheckinMlinks :: "repo \<Rightarrow> rid \<Rightarrow> FileCard list \<Rightarrow> repo \<times> (manifest_error, unit) outcome" where
  "insertCheckinMlinks q r [] = (q, Ok ())"
| "insertCheckinMlinks q r (f # fs) =
     (if fc_UUID f = [] then insertCheckinMlinks q r fs
      else case ensureFilename q (fc_Name f) of
             (q1, Ok fnid) \<Rightarrow>
               (case rid_of q1 (fc_UUID f) of
                  None \<Rightarrow> insertCheckinMlinks q1 r fs
                | Some fileRid \<Rightarrow>
                    insertCheckinMlinks
                      (q1\<lparr>t_mlink := t_mlink q1 @ [\<lparr>ml_mid = r, ml_fid = fileRid, ml_pmid = None, ml_pid = None,
                                                    ml_fnid = fnid\<rparr>]\<rparr>) r fs)
           | (q1, Err e) \<Rightarrow> (q1, Err e)
           | (q1, Panic s) \<Rightarrow> (q1, Panic s))"

fun insertCherrypicks :: "repo \<Rightarrow> rid \<Rightarrow> CherryPick list \<Rightarrow> repo" where
  "insertCherrypicks q r [] = q"
| "insertCherrypicks q r (cp # cps) =
     insertCherrypicks
       (case rid_of q (cp_Target cp) of
          None \<Rightarrow> q
        | Some p \<Rightarrow>
            q\<lparr>t_cherrypick := filter (\<lambda>x. \<not> (cp_parentid x = p \<and> cp_childid x = r)) (t_cherrypick q) @
                [\<lparr>cp_parentid = p, cp_childid = r, cp_isExclude = cp_IsBackout cp\<rparr>]\<rparr>) r cps"

definition crosslinkCheckinTables :: "repo \<Rightarrow> rid \<Rightarrow> Deck \<Rightarrow> repo \<times> (manifest_error, unit) outcome" where
  "crosslinkCheckinTables q r d =
     with_tx q
       (let mtime = TimeToJulian (dk_D d);
            q1 = insert_event q (event_of ''ci'' mtime r (dk_U d) (dk_C d));
            baseid = (if dk_B d \<noteq> [] then rid_of q1 (dk_B d) else None);
            q2 = insertCheckinPlinks q1 r mtime baseid True (dk_P d);
            q3 = updateLeafTable q2 r d
        in case insertCheckinMlinks q3 r (dk_F d) of
             (q4, Ok _) \<Rightarrow> (insertCherrypicks q4 r (dk_Q d), Ok ())
           | (q4, Err e) \<Rightarrow> (q4, Err e)
           | (q4, Panic s) \<Rightarrow> (q4, Panic s))"

text \<open>The loop over the T cards is the one of \<open>Checkin\<close>.\<close>

definition applyInlineTags :: "repo \<Rightarrow> rid \<Rightarrow> Deck \<Rightarrow> repo \<times> (tag_error, unit) outcome" where
  "applyInlineTags q r d =
     (case inline_tags q r (TimeToJulian (dk_D d)) (dk_T d) of
        (q1, Ok _) \<Rightarrow>
          (case dk_P d of
             [] \<Rightarrow> (q1, Ok ())
           | u # us \<Rightarrow> (case rid_of q1 u of None \<Rightarrow> (q1, Ok ()) | Some p \<Rightarrow> PropagateAll q1 p))
      | (q1, Err e) \<Rightarrow> (q1, Err e)
      | (q1, Panic s) \<Rightarrow> (q1, Panic s))"

definition crosslinkCheckin :: "repo \<Rightarrow> rid \<Rightarrow> Deck \<Rightarrow> repo \<times> (crosslink_error, unit) outcome" where
  "crosslinkCheckin q r d =
     (if r \<le> 0 then (q, Panic ''crosslinkCheckin: rid must be positive'')
      else case crosslinkCheckinTables q r d of
             (q1, Ok _) \<Rightarrow> (case applyInlineTags q1 r d of (q2, res) \<Rightarrow> (q2, wrap_err XTag res))
           | (q1, Err e) \<Rightarrow> (q1, Err (XManifest e))
           | (q1, Panic s) \<Rightarrow> (q1, Panic s))"

section \<open>Control artifacts\<close>

fun control_tags :: "repo \<Rightarrow> rid \<Rightarrow> int \<Rightarrow> TagCard list \<Rightarrow> repo \<times> (tag_error, unit) outcome" where
  "control_tags q srcRID mtime [] = (q, Ok ())"
| "control_tags q srcRID mtime (tc # tcs) =
     (if tc_UUID tc = ''*'' then control_tags q srcRID mtime tcs
      else case (rid_of q (tc_UUID tc), tag_type_of (tc_Type tc)) of
             (Some targetRID, Some tagType) \<Rightarrow>
               (case ApplyTag q \<lparr>ao_TargetRID = targetRID, ao_SrcRID = srcRID, ao_TagName = tc_Name tc,
                                 ao_TagType = tagType, ao_Value = tc_Value tc, ao_MTime = mtime\<rparr> of
                  (q1, Ok _) \<Rightarrow> control_tags q1 srcRID mtime tcs
                | (q1, Err e) \<Rightarrow> (q1, Err e)
                | (q1, Panic s) \<Rightarrow> (q1, Panic s))
           | _ \<Rightarrow> control_tags q srcRID mtime tcs)"

definition control_phrase :: "(bytes \<Rightarrow> bytes) \<Rightarrow> TagCard \<Rightarrow> bytes" where
  "control_phrase u tc =
     (let ty = tc_Type tc; name = tc_Name tc; val = tc_Value tc in
      if ty = CHR ''*'' \<and> name = ''branch'' then '' Move to branch '' @ val @ ''.''
      else if ty = CHR ''*'' \<and> name = ''bgcolor'' then '' Change branch background color to '' @ Quote u val @ ''.''
      else if ty = CHR ''+'' \<and> name = ''bgcolor'' then '' Change background color to '' @ Quote u val @ ''.''
      else if ty = CHR ''-'' \<and> name = ''bgcolor'' then '' Cancel background color.''
      else if ty = CHR ''+'' \<and> name = ''comment'' then '' Edit check-in comment.''
      else if ty = CHR ''+'' \<and> name = ''user'' then '' Change user to '' @ Quote u val @ ''.''
      else if ty = CHR ''-'' then '' Cancel '' @ Quote u name @ ''.''
      else if ty = CHR ''+'' then '' Add '' @ Quote u name @ ''.''
      else if ty = CHR ''*'' then '' Add propagating '' @ Quote u name @ ''.''
      else [])"

definition buildControlComment :: "(bytes \<Rightarrow> bytes) \<Rightarrow> Deck \<Rightarrow> bytes" where
  "buildControlComment u d =
     (let comment = concat (map (control_phrase u) (filter (\<lambda>tc. tc_UUID tc \<noteq> ''*'') (dk_T d)))
      in if comment = [] then '' '' else comment)"

definition crosslinkControl :: "(bytes \<Rightarrow> bytes) \<Rightarrow> repo \<Rightarrow> rid \<Rightarrow> Deck \<Rightarrow> repo \<times> (crosslink_error, unit) outcome" where
  "crosslinkControl u q srcRID d =
     (if srcRID \<le> 0 then (q, Panic ''crosslinkControl: rid must be positive'')
      else let mtime = TimeToJulian (dk_D d) in
        case control_tags q srcRID mtime (dk_T d) of
          (q1, Ok _) \<Rightarrow> (replace_event q1 (event_of ''g'' mtime srcRID (dk_U d) (buildControlComment u d)), Ok ())
        | (q1, Err e) \<Rightarrow> (q1, Err (XTag e))
        | (q1, Panic s) \<Rightarrow> (q1, Panic s))"

section \<open>Wiki pages, tickets, technotes\<close>

definition addFWTPlink :: "repo \<Rightarrow> rid \<Rightarrow> Deck \<Rightarrow> repo \<times> (crosslink_error, unit) outcome" where
  "addFWTPlink q r d =
     (if r \<le> 0 then (q, Panic ''manifest.addFWTPlink: rid must be positive'')
      else let q1 = insertCheckinPlinks q r (TimeToJulian (dk_D d)) None True (dk_P d) in
        case (case dk_P d of [] \<Rightarrow> None | u # us \<Rightarrow> rid_of q u) of
          None \<Rightarrow> (q1, Ok ())
        | Some p \<Rightarrow>
            if p > 0 then (case PropagateAll q1 p of (q2, res) \<Rightarrow> (q2, wrap_err XTag res)) else (q1, Ok ()))"

definition apply_self :: "repo \<Rightarrow> rid \<Rightarrow> bytes \<Rightarrow> bytes \<Rightarrow> int \<Rightarrow> repo \<times> (crosslink_error, unit) outcome" where
  "apply_self q r tagName v mtime =
     (case ApplyTag q \<lparr>ao_TargetRID = r, ao_SrcRID = r, ao_TagName = tagName, ao_TagType = singleton_type,
                       ao_Value = v, ao_MTime = mtime\<rparr> of (q1, res) \<Rightarrow> (q1, wrap_err XTag res))"

definition crosslinkWiki :: "repo \<Rightarrow> rid \<Rightarrow> Deck \<Rightarrow> repo \<times> (crosslink_error, unit) outcome" where
  "crosslinkWiki q r d =
     (if r \<le> 0 then (q, Panic ''crosslinkWiki: rid must be positive'')
      else case addFWTPlink q r d of
        (q1, Err e) \<Rightarrow> (q1, Err e)
      | (q1, Panic s) \<Rightarrow> (q1, Panic s)
      | (q1, Ok _) \<Rightarrow>
          if dk_L d = [] then (q1, Err MissingTitle)
          else case apply_self q1 r (''wiki-'' @ dk_L d) (show_int (int (length (dk_W d)))) (TimeToJulian (dk_D d)) of
                 (q2, Err e) \<Rightarrow> (q2, Err e)
               | (q2, Panic s) \<Rightarrow> (q2, Panic s)
               | (q2, Ok _) \<Rightarrow>
                   let prefix = (if length (dk_W d) = 0 then CHR ''-''
                                 else if length (dk_P d) = 0 then CHR ''+'' else CHR '':'')
                   in (replace_event q2 (event_of ''w'' (TimeToJulian (dk_D d)) r (dk_U d) (prefix # dk_L d)), Ok ()))"

definition attachTargetTypeName :: "byte \<Rightarrow> bytes" where
  "attachTargetTypeName c =
     (if c = CHR ''w'' then ''wiki page'' else if c = CHR ''t'' then ''ticket''
      else if c = CHR ''e'' then ''tech note'' else [])"

definition attach_comment :: "(bytes \<Rightarrow> bytes) \<Rightarrow> bytes \<Rightarrow> bytes \<Rightarrow> bytes \<Rightarrow> byte \<Rightarrow> bytes" where
  "attach_comment u src target filename ty =
     (if src \<noteq> [] then ''Add attachment '' @ filename @ '' to '' @ attachTargetTypeName ty @ '' '' @ target
      else ''Delete attachment '' @ Quote u filename @ '' from '' @ attachTargetTypeName ty @ '' '' @ target)"

fun set_attachment_events :: "(bytes \<Rightarrow> bytes) \<Rightarrow> byte \<Rightarrow> attachment_row list \<Rightarrow> event_row list \<Rightarrow> event_row list" where
  "set_attachment_events u ty [] es = es"
| "set_attachment_events u ty (a # as) es =
     set_attachment_events u ty as
       (map (\<lambda>e. if ev_objid e = at_attachid a
                 then e\<lparr>ev_comment := Some (attach_comment u (at_src a) (at_target a) (at_filename a) ty), ev_type := [ty]\<rparr>
                 else e) es)"

definition updateAttachmentComments ::
  "(bytes \<Rightarrow> bytes) \<Rightarrow> repo \<Rightarrow> bytes \<Rightarrow> byte \<Rightarrow> repo \<times> (crosslink_error, unit) outcome" where
  "updateAttachmentComments u q targetID ty =
     (if targetID = [] then (q, Panic ''updateAttachmentComments: targetID must not be empty'')
      else (q\<lparr>t_event := set_attachment_events u ty (filter (\<lambda>a. at_target a = targetID) (t_attachment q)) (t_event q)\<rparr>, Ok ()))"

definition crosslinkTicket :: "(bytes \<Rightarrow> bytes) \<Rightarrow> repo \<Rightarrow> rid \<Rightarrow> Deck \<Rightarrow> repo \<times> (crosslink_error, unit) outcome" where
  "crosslinkTicket u q r d =
     (if r \<le> 0 then (q, Panic ''crosslinkTicket: rid must be positive'')
      else if dk_K d = [] then (q, Err MissingTicketUUID)
      else case apply_self q r (''tkt-'' @ dk_K d) [] (TimeToJulian (dk_D d)) of
             (q1, Ok _) \<Rightarrow> updateAttachmentComments u q1 (dk_K d) CHR ''t''
           | (q1, Err e) \<Rightarrow> (q1, Err e)
           | (q1, Panic s) \<Rightarrow> (q1, Panic s))"

definition subsequent_version :: "repo \<Rightarrow> int \<Rightarrow> int \<Rightarrow> rid \<Rightarrow> rid" where
  "subsequent_version q tagid mtime r =
     (case sort_key tx_mtime (filter (\<lambda>x. tx_tagid x = tagid \<and> tx_mtime x \<ge> mtime \<and> tx_rid x \<noteq> r) (t_tagxref q)) of
        [] \<Rightarrow> 0 | x # xs \<Rightarrow> tx_rid x)"

definition bgcolor_of :: "repo \<Rightarrow> rid \<Rightarrow> bytes option" where
  "bgcolor_of q r =
     (case find (\<lambda>x. tx_rid x = r \<and> map_of (t_tag q) (tx_tagid x) = Some ''bgcolor'') (t_tagxref q) of
        None \<Rightarrow> None | Some x \<Rightarrow> tx_value x)"

definition delete_old_notes :: "repo \<Rightarrow> int \<Rightarrow> repo" where
  "delete_old_notes q tagid =
     q\<lparr>t_event := filter (\<lambda>e. \<not> (ev_type e = ''e'' \<and> ev_tagid e = Some tagid \<and>
                                ev_objid e \<in> tx_rid ` set (filter (\<lambda>x. tx_tagid x = tagid) (t_tagxref q)))) (t_event q)\<rparr>"

definition crosslinkEvent :: "(bytes \<Rightarrow> bytes) \<Rightarrow> repo \<Rightarrow> rid \<Rightarrow> Deck \<Rightarrow> repo \<times> (crosslink_error, unit) outcome" where
  "crosslinkEvent u q r d =
     (if r \<le> 0 then (q, Panic ''crosslinkEvent: rid must be positive'')
      else case dk_E d of
        None \<Rightarrow> (q, Err MissingEventCard)
      | Some ec \<Rightarrow>
     (case addFWTPlink q r d of
        (q1, Err e) \<Rightarrow> (q1, Err e)
      | (q1, Panic s) \<Rightarrow> (q1, Panic s)
      | (q1, Ok _) \<Rightarrow>
     let tagName = ''event-'' @ ec_UUID ec; mtime = TimeToJulian (dk_D d) in
     (case apply_self q1 r tagName (show_int (int (length (dk_W d)))) mtime of
        (q2, Err e) \<Rightarrow> (q2, Err e)
      | (q2, Panic s) \<Rightarrow> (q2, Panic s)
      | (q2, Ok _) \<Rightarrow>
     (case find (\<lambda>t. snd t = tagName) (t_tag q2) of
        None \<Rightarrow> (q2, Err (XSql NoRows))
      | Some (tagid, n) \<Rightarrow>
     let subsequent = subsequent_version q2 tagid mtime r;
         q3 = (if length (dk_P d) > 0 \<and> subsequent = 0 then delete_old_notes q2 tagid else q2);
         q4 = (if subsequent = 0
               then replace_event q3 ((event_of ''e'' (TimeToJulian (ec_Date ec)) r (dk_U d) (dk_C d))
                      \<lparr>ev_tagid := Some tagid, ev_bgcolor := bgcolor_of q3 r\<rparr>)
               else q3)
     in updateAttachmentComments u q4 (ec_UUID ec) CHR ''e''))))"

section \<open>Attachments\<close>

definition isHash :: "bytes \<Rightarrow> bool" where
  "isHash s \<longleftrightarrow> (length s = 40 \<or> length s = 64) \<and> list_all is_hex s"

definition set_latest :: "bytes \<Rightarrow> bytes \<Rightarrow> attachment_row list \<Rightarrow> attachment_row list" where
  "set_latest target filename as =
     (let same = filter (\<lambda>a. at_target a = target \<and> at_filename a = filename) as
      in map (\<lambda>a. if at_target a = target \<and> at_filename a = filename
                  then a\<lparr>at_isLatest := list_all (\<lambda>b. at_mtime b \<le> at_mtime a) same\<rparr> else a) as)"

definition attach_type :: "repo \<Rightarrow> bytes \<Rightarrow> byte" where
  "attach_type q target =
     (if isHash target then
        if ''tkt-'' @ target \<in> snd ` set (t_tag q) then CHR ''t''
        else if ''event-'' @ target \<in> snd ` set (t_tag q) then CHR ''e'' else CHR ''w''
      else CHR ''w'')"

definition crosslinkAttachment :: "(bytes \<Rightarrow> bytes) \<Rightarrow> repo \<Rightarrow> rid \<Rightarrow> Deck \<Rightarrow> repo \<times> (crosslink_error, unit) outcome" where
  "crosslinkAttachment u q r d =
     (if r \<le> 0 then (q, Panic ''crosslinkAttachment: rid must be positive'')
      else case dk_A d of
        None \<Rightarrow> (q, Err MissingAttachmentCard)
      | Some a \<Rightarrow>
          let mtime = TimeToJulian (dk_D d) in
          if r \<in> at_attachid ` set (t_attachment q) then (q, Err (XSql UniqueFailed))
          else let row = \<lparr>at_attachid = r, at_isLatest = False, at_mtime = mtime, at_src = ac_Source a,
                          at_target = ac_Target a, at_filename = ac_Filename a, at_comment = dk_C d, at_user = dk_U d\<rparr>;
                   q1 = q\<lparr>t_attachment := set_latest (ac_Target a) (ac_Filename a) (t_attachment q @ [row])\<rparr>;
                   ty = attach_type q1 (ac_Target a)
               in (replace_event q1 (event_of [ty] mtime r (dk_U d)
                     (attach_comment u (ac_Source a) (ac_Target a) (ac_Filename a) ty)), Ok ()))"

section \<open>Forum posts\<close>

definition resolveForumRefs :: "repo \<Rightarrow> rid \<Rightarrow> Deck \<Rightarrow> rid \<times> rid \<times> rid" where
  "resolveForumRefs q r d =
     (let look = (\<lambda>u. case rid_of q u of None \<Rightarrow> 0 | Some x \<Rightarrow> x);
          g = (if dk_G d \<noteq> [] then look (dk_G d) else 0)
      in (if g = 0 then r else g,
          case dk_P d of [] \<Rightarrow> 0 | p # ps \<Rightarrow> look p,
          if dk_I d \<noteq> [] then look (dk_I d) else 0))"

text \<open>
  \<open>substr(comment, 1, instr(comment, ':'))\<close> and \<open>substr(comment, instr(comment, ':') + 2)\<close>; the
  second skips one character (UTF-8) after the colon, or the first one when there is no colon.
\<close>

definition upto_colon :: "bytes \<Rightarrow> bytes" where
  "upto_colon s = (if CHR '':'' \<in> set s then takeWhile ((\<noteq>) CHR '':'') s @ '':'' else [])"

definition skip_utf8 :: "bytes \<Rightarrow> bytes" where
  "skip_utf8 s = (case s of [] \<Rightarrow> []
     | c # cs \<Rightarrow> if byte_val c \<ge> 0xC0 then dropWhile (\<lambda>b. 0x80 \<le> byte_val b \<and> byte_val b < 0xC0) cs else cs)"

definition after_colon :: "bytes \<Rightarrow> bytes" where
  "after_colon s = skip_utf8 (if CHR '':'' \<in> set s then tl (dropWhile ((\<noteq>) CHR '':'') s) else s)"

definition crosslinkForumStarter :: "repo \<Rightarrow> rid \<Rightarrow> Deck \<Rightarrow> rid \<Rightarrow> rid \<Rightarrow> int \<Rightarrow> repo" where
  "crosslinkForumStarter q r d froot fprev mtime =
     (let title = (if dk_H d = [] then ''(Deleted)'' else dk_H d);
          fType = (if fprev \<noteq> 0 then ''Edit'' else ''Post'');
          q1 = replace_event q (event_of ''f'' mtime r (dk_U d) (fType @ '': '' @ title));
          hasNewer = length (filter (\<lambda>p. fp_froot p = froot \<and> fp_firt p = Some 0 \<and> fp_fpid p \<noteq> r \<and> fp_fmtime p > mtime)
                        (t_forumpost q1))
      in if hasNewer = 0
         then q1\<lparr>t_event := map (\<lambda>e. if ev_objid e \<in> fp_fpid ` set (filter (\<lambda>p. fp_froot p = froot) (t_forumpost q1))
                                     then e\<lparr>ev_comment := map_option (\<lambda>c. upto_colon c @ '' '' @ title) (ev_comment e)\<rparr> else e)
                      (t_event q1)\<rparr>
         else q1)"

definition crosslinkForumReply :: "repo \<Rightarrow> rid \<Rightarrow> Deck \<Rightarrow> rid \<Rightarrow> rid \<Rightarrow> int \<Rightarrow> repo" where
  "crosslinkForumReply q r d froot fprev mtime =
     (let rootTitle = (case find (\<lambda>e. ev_objid e = froot) (t_event q) of
                         None \<Rightarrow> ''Unknown''
                       | Some e \<Rightarrow> (case ev_comment e of None \<Rightarrow> ''Unknown'' | Some c \<Rightarrow> after_colon c));
          fType = (if length (dk_W d) = 0 then ''Delete reply'' else if fprev \<noteq> 0 then ''Edit reply'' else ''Reply'')
      in replace_event q (event_of ''f'' mtime r (dk_U d) (fType @ '': '' @ rootTitle)))"

definition crosslinkForum :: "repo \<Rightarrow> rid \<Rightarrow> Deck \<Rightarrow> repo \<times> (crosslink_error, unit) outcome" where
  "crosslinkForum q r d =
     (if r \<le> 0 then (q, Panic ''crosslinkForum: rid must be positive'')
      else case addFWTPlink q r d of
        (q1, Err e) \<Rightarrow> (q1, Err e)
      | (q1, Panic s) \<Rightarrow> (q1, Panic s)
      | (q1, Ok _) \<Rightarrow>
          (case resolveForumRefs q1 r d of (froot, fprev, firt) \<Rightarrow>
           let mtime = TimeToJulian (dk_D d);
               nullif = (\<lambda>x. if x = 0 then None else Some x);
               row = \<lparr>fp_fpid = r, fp_froot = froot, fp_fprev = nullif fprev, fp_firt = nullif firt, fp_fmtime = mtime\<rparr>;
               q2 = q1\<lparr>t_forumpost := filter (\<lambda>p. fp_fpid p \<noteq> r) (t_forumpost q1) @ [row]\<rparr>
           in (if firt = 0 then crosslinkForumStarter q2 r d froot fprev mtime
               else crosslinkForumReply q2 r d froot fprev mtime, Ok ())))"

section \<open>Clusters\<close>

fun cluster_members :: "repo \<Rightarrow> bytes list \<Rightarrow> repo \<times> (crosslink_error, unit) outcome" where
  "cluster_members q [] = (q, Ok ())"
| "cluster_members q (uuid # us) =
     (case Exists q uuid of
        Panic s \<Rightarrow> (q, Panic s)
      | Err e \<Rightarrow> (q, Err (XBlob e))
      | Ok (Some m) \<Rightarrow> cluster_members (q\<lparr>t_unclustered := filter ((\<noteq>) m) (t_unclustered q)\<rparr>) us
      | Ok None \<Rightarrow>
          (case StorePhantom q uuid of
             (q1, Ok _) \<Rightarrow> cluster_members q1 us
           | (q1, Err e) \<Rightarrow> (q1, Err (XBlob e))
           | (q1, Panic s) \<Rightarrow> (q1, Panic s)))"

definition CrosslinkCluster :: "repo \<Rightarrow> rid \<Rightarrow> Deck \<Rightarrow> repo \<times> (crosslink_error, unit) outcome" where
  "CrosslinkCluster q r d =
     (if r \<le> 0 then (q, Panic ''manifest.CrosslinkCluster: rid must be > 0'')
      else cluster_members
             (q\<lparr>t_tagxref := replace_tagxref \<lparr>tx_tagid = 7, tx_tagtype = 1, tx_srcid = r, tx_origid = r, tx_value = None,
                  tx_mtime = 0, tx_rid = r\<rparr> (t_tagxref q)\<rparr>) (dk_M d))"

section \<open>The sweep\<close>

definition crosslink_deck :: "(bytes \<Rightarrow> bytes) \<Rightarrow> repo \<Rightarrow> rid \<Rightarrow> Deck \<Rightarrow> repo \<times> (crosslink_error, unit) outcome" where
  "crosslink_deck u q r d =
     (case dk_Type d of
        ArtifactType.Checkin \<Rightarrow> crosslinkCheckin q r d
      | Wiki \<Rightarrow> crosslinkWiki q r d
      | Ticket \<Rightarrow> crosslinkTicket u q r d
      | Event \<Rightarrow> crosslinkEvent u q r d
      | Attachment \<Rightarrow> crosslinkAttachment u q r d
      | Cluster \<Rightarrow> CrosslinkCluster q r d
      | ForumPost \<Rightarrow> crosslinkForum q r d
      | Control \<Rightarrow> crosslinkControl u q r d)"

definition candidates :: "repo \<Rightarrow> rid list" where
  "candidates q =
     sort (map bl_rid (filter (\<lambda>b. bl_size b \<ge> 0 \<and> bl_rid b \<notin> ev_objid ` set (t_event q) \<and>
                                  bl_rid b \<notin> tx_srcid ` set (t_tagxref q) \<and> bl_rid b \<notin> fp_fpid ` set (t_forumpost q) \<and>
                                  bl_rid b \<notin> at_attachid ` set (t_attachment q)) (t_blob q)))"

fun sweep :: "libs \<Rightarrow> (bytes \<Rightarrow> bytes) \<Rightarrow> repo \<Rightarrow> rid list \<Rightarrow> nat \<Rightarrow> repo \<times> nat \<times> (crosslink_error, unit) outcome" where
  "sweep L u q [] linked = (q, linked, Ok ())"
| "sweep L u q (r # rs) linked =
     (case load_deck L q r of
        Err e \<Rightarrow> sweep L u q rs linked
      | Panic s \<Rightarrow> (q, linked, Panic s)
      | Ok d \<Rightarrow>
          if dk_Type d = ArtifactType.Checkin \<and> length (missingCheckinRefs q d) > 0 then sweep L u q rs linked
          else case crosslink_deck u q r d of
                 (q1, Ok _) \<Rightarrow> sweep L u q1 rs (linked + 1)
               | (q1, Err e) \<Rightarrow> (q1, linked, Err e)
               | (q1, Panic s) \<Rightarrow> (q1, linked, Panic s))"

definition Crosslink :: "libs \<Rightarrow> (bytes \<Rightarrow> bytes) \<Rightarrow> repo \<Rightarrow> repo \<times> nat \<times> (crosslink_error, unit) outcome" where
  "Crosslink L u q = sweep L u q (candidates q) 0"

section \<open>Phantoms whose content arrived (dephantomize.go)\<close>

definition crosslinkSingle :: "libs \<Rightarrow> (bytes \<Rightarrow> bytes) \<Rightarrow> repo \<Rightarrow> rid \<Rightarrow> repo \<times> (crosslink_error, unit) outcome" where
  "crosslinkSingle L u q r =
     (if r \<le> 0 then (q, Panic ''crosslinkSingle: rid must be positive'')
      else case load_deck L q r of
             Err e \<Rightarrow> (q, Err (XManifest e))
           | Panic s \<Rightarrow> (q, Panic s)
           | Ok d \<Rightarrow> crosslink_deck u q r d)"

text \<open>Errors of the orphans are dropped; a panic is not.\<close>

fun crosslink_orphans :: "libs \<Rightarrow> (bytes \<Rightarrow> bytes) \<Rightarrow> repo \<Rightarrow> rid list \<Rightarrow> repo \<times> (crosslink_error, unit) outcome" where
  "crosslink_orphans L u q [] = (q, Ok ())"
| "crosslink_orphans L u q (r # rs) =
     (case crosslinkSingle L u q r of
        (q1, Panic s) \<Rightarrow> (q1, Panic s)
      | (q1, _) \<Rightarrow> crosslink_orphans L u q1 rs)"

definition delta_children :: "repo \<Rightarrow> rid \<Rightarrow> rid list" where
  "delta_children q r = map fst (filter (\<lambda>(c, s). s = r \<and> c \<notin> ml_mid ` set (t_mlink q)) (t_delta q))"

text \<open>The stack is a list with its top first.\<close>

function dephantomize_loop ::
  "libs \<Rightarrow> (bytes \<Rightarrow> bytes) \<Rightarrow> repo \<Rightarrow> (rid \<times> bool) list \<Rightarrow> nat \<Rightarrow> repo \<times> (crosslink_error, unit) outcome" where
  "dephantomize_loop L u q stack iterations =
     (case stack of
        [] \<Rightarrow> (q, Ok ())
      | (current, linkFlag) # rest \<Rightarrow>
          if iterations + 1 > 1000000 then (q, Ok ())
          else if current \<le> 0 then dephantomize_loop L u q rest (iterations + 1)
          else case (if linkFlag then crosslinkSingle L u q current else (q, Ok ())) of
                 (q1, Panic s) \<Rightarrow> (q1, Panic s)
               | (q1, _) \<Rightarrow>
                   let orphans = map fst (filter (\<lambda>(r, b). b = current) (t_orphan q1)) in
                   (case crosslink_orphans L u q1 orphans of
                      (q2, Panic s) \<Rightarrow> (q2, Panic s)
                    | (q2, _) \<Rightarrow>
                        let q3 = q2\<lparr>t_orphan := filter (\<lambda>(r, b). b \<noteq> current) (t_orphan q2)\<rparr>
                        in dephantomize_loop L u q3 (map (\<lambda>c. (c, True)) (delta_children q3 current) @ rest) (iterations + 1)))"
  by pat_completeness auto
termination
  by (relation "measure (\<lambda>(L, u, q, stack, iterations). 1000000 - iterations)") auto

declare dephantomize_loop.simps [simp del]

definition AfterDephantomize :: "libs \<Rightarrow> (bytes \<Rightarrow> bytes) \<Rightarrow> repo \<Rightarrow> rid \<Rightarrow> repo \<times> (crosslink_error, unit) outcome" where
  "AfterDephantomize L u q r =
     (if r \<le> 0 then (q, Ok ()) else dephantomize_loop L u q [(r, True)] 0)"

end
