(* ===== verification/Crosslink_Props.thy ===== *)
theory Crosslink_Props
  imports Crosslink Manifest_Checkin
begin

text \<open>
  What crosslinking guarantees (\<open>internal/manifest\<close>): the frames of its functions, deferral of
  check-ins whose references are missing, the accounting of clusters, and two places where
  the tables it writes differ from those of a local check-in.
\<close>

section \<open>Frames\<close>

definition ci :: "repo \<Rightarrow> rid set" where
  "ci q = ev_objid ` {e \<in> set (t_event q). ev_type e = ''ci''}"

text \<open>From \<open>q\<close> to \<open>q'\<close> only phantoms are added to the blobs.\<close>

definition grows :: "repo \<Rightarrow> repo \<Rightarrow> bool" where
  "grows q q' \<longleftrightarrow> extends q q' \<and> t_delta q' = t_delta q \<and> (wf_repo q \<longrightarrow> wf_repo q') \<and>
     (\<forall>b \<in> set (t_blob q'). b \<in> set (t_blob q) \<or> bl_size b = - 1)"

lemma grows_refl [simp]: "grows q q"
  by (simp add: grows_def)

lemma grows_trans: "grows q q1 \<Longrightarrow> grows q1 q2 \<Longrightarrow> grows q q2"
  unfolding grows_def by (metis extends_trans)

lemma grows_same: "t_blob q' = t_blob q \<Longrightarrow> t_delta q' = t_delta q \<Longrightarrow> grows q q'"
  by (simp add: grows_def extends_same wf_repo_def)

text \<open>Moreover only the artifacts in \<open>A\<close> become timeline check-ins.\<close>

definition adds :: "rid set \<Rightarrow> repo \<Rightarrow> repo \<Rightarrow> bool" where
  "adds A q q' \<longleftrightarrow> grows q q' \<and> ci q' \<subseteq> ci q \<union> A"

lemma adds_refl: "adds A q q"
  by (simp add: adds_def)

lemma adds_trans [trans]: "adds A q q1 \<Longrightarrow> adds A q1 q2 \<Longrightarrow> adds A q q2"
  unfolding adds_def using grows_trans by blast

lemma adds_mono: "adds {} q q' \<Longrightarrow> adds A q q'"
  by (auto simp: adds_def)

lemma adds_same: "t_blob q' = t_blob q \<Longrightarrow> t_delta q' = t_delta q \<Longrightarrow> ci q' \<subseteq> ci q \<union> A \<Longrightarrow> adds A q q'"
  by (simp add: adds_def grows_same)

lemma adds_tags_only:
  assumes "tags_only q q'"
  shows "adds A q q'"
proof -
  have "set (map (\<lambda>e. (ev_objid e, ev_type e)) (t_event q')) = set (map (\<lambda>e. (ev_objid e, ev_type e)) (t_event q))"
    using assms by (simp only: tags_only_def)
  then have "(\<lambda>e. (ev_objid e, ev_type e)) ` set (t_event q') = (\<lambda>e. (ev_objid e, ev_type e)) ` set (t_event q)"
    by simp
  moreover have "ci r = {i. (i, ''ci'') \<in> (\<lambda>e. (ev_objid e, ev_type e)) ` set (t_event r)}" for r
    by (force simp: ci_def)
  ultimately have "ci q' = ci q" by simp
  then show ?thesis using tags_only_same(1,2) [OF assms] by (intro adds_same) simp_all
qed

lemma ci_other [simp]:
  "ci (q\<lparr>t_plink := P\<rparr>) = ci q" "ci (q\<lparr>t_leaf := X\<rparr>) = ci q" "ci (q\<lparr>t_mlink := M\<rparr>) = ci q"
  "ci (q\<lparr>t_filename := F\<rparr>) = ci q" "ci (q\<lparr>t_cherrypick := C\<rparr>) = ci q" "ci (q\<lparr>t_attachment := A\<rparr>) = ci q"
  "ci (q\<lparr>t_forumpost := FP\<rparr>) = ci q" "ci (q\<lparr>t_unclustered := U\<rparr>) = ci q" "ci (q\<lparr>t_tagxref := T\<rparr>) = ci q"
  "ci (q\<lparr>t_phantom := H\<rparr>) = ci q" "ci (q\<lparr>t_blob := B\<rparr>) = ci q"
  by (simp_all add: ci_def)

lemma adds_replace_event: "ev_type e \<noteq> ''ci'' \<Longrightarrow> adds A q (replace_event q e)"
  by (intro adds_same) (auto simp: replace_event_def ci_def)

lemma adds_insert_event: "ev_objid e \<in> A \<Longrightarrow> adds A q (insert_event q e)"
  by (intro adds_same) (auto simp: insert_event_def ci_def)

lemma adds_insertCheckinPlinks: "adds A q (insertCheckinPlinks q r mtime baseid b us)"
proof (induction q r mtime baseid b us rule: insertCheckinPlinks.induct)
  case (2 q r mtime baseid isPrim u us)
  have step: "adds A q (insert_plink q p)" for p by (intro adds_same) (simp_all add: insert_plink_def)
  from 2 show ?case by (auto intro: adds_trans [OF step] split: option.split)
qed (simp add: adds_refl)

lemma adds_insertCheckinMlinks: "adds A q (fst (insertCheckinMlinks q r fs))"
proof (induction q r fs rule: insertCheckinMlinks.induct)
  case (2 q r f fs)
  obtain q1 res where e: "ensureFilename q (fc_Name f) = (q1, res)" by fastforce
  then have q1: "adds A q q1"
    by (intro adds_same) (auto simp: ensureFilename_def Let_def split: if_splits option.splits)
  have "adds A q1 (q1\<lparr>t_mlink := M\<rparr>)" for M by (intro adds_same) simp_all
  then have step: "adds A q (q1\<lparr>t_mlink := M\<rparr>)" for M using adds_trans [OF q1] by blast
  show ?case
  proof (cases "fc_UUID f = []")
    case True
    with 2 show ?thesis by simp
  next
    case False
    then show ?thesis
      using e q1 "2.IH"(2) [OF False e [symmetric]] "2.IH"(3) [OF False e [symmetric]]
      by (cases res) (auto split: option.split intro: adds_trans [OF q1] adds_trans [OF step])
  qed
qed (simp add: adds_refl)

lemma adds_insertCherrypicks: "adds A q (insertCherrypicks q r cps)"
proof (induction q r cps rule: insertCherrypicks.induct)
  case (2 q r cp cps)
  have step: "adds A q (q\<lparr>t_cherrypick := C\<rparr>)" for C by (intro adds_same) simp_all
  from 2 show ?case by (auto intro: adds_trans [OF step] split: option.split)
qed (simp add: adds_refl)

lemma adds_with_tx: "adds A q (fst res) \<Longrightarrow> adds A q (fst (with_tx q res))"
  by (auto simp: with_tx_def adds_refl split: prod.splits outcome.splits)


lemma adds_updateLeafTable: "adds A q (updateLeafTable q r d)"
  by (intro adds_same) (auto simp: updateLeafTable_def)

lemma adds_crosslinkCheckinTables: "adds {r} q (fst (crosslinkCheckinTables q r d))"
proof -
  let ?e = "event_of ''ci'' (TimeToJulian (dk_D d)) r (dk_U d) (dk_C d)"
  let ?q1 = "insert_event q ?e"
  let ?b = "if dk_B d \<noteq> [] then rid_of ?q1 (dk_B d) else None"
  let ?q2 = "insertCheckinPlinks ?q1 r (TimeToJulian (dk_D d)) ?b True (dk_P d)"
  let ?q3 = "updateLeafTable ?q2 r d"
  obtain q4 res where ml: "insertCheckinMlinks ?q3 r (dk_F d) = (q4, res)" by fastforce
  have "adds {r} q ?q1" by (rule adds_insert_event) (simp add: event_of_def)
  also have "adds {r} ?q1 ?q2" by (rule adds_insertCheckinPlinks)
  also have "adds {r} ?q2 ?q3" by (rule adds_updateLeafTable)
  also have "adds {r} ?q3 q4" using adds_insertCheckinMlinks [of "{r}" ?q3 r "dk_F d"] ml by simp
  finally have q4: "adds {r} q q4" .
  have "adds {r} q (fst (case (q4, res) of (q4, Ok _) \<Rightarrow> (insertCherrypicks q4 r (dk_Q d), Ok ())
      | (q4, Err e) \<Rightarrow> (q4, Err e) | (q4, Panic s) \<Rightarrow> (q4, Panic s)))"
    by (cases res) (auto intro: adds_trans [OF q4] q4 adds_insertCherrypicks)
  then show ?thesis unfolding crosslinkCheckinTables_def Let_def ml by (rule adds_with_tx)
qed

lemma adds_applyInlineTags: "adds A q (fst (applyInlineTags q r d))"
proof -
  obtain q1 res where i: "inline_tags q r (TimeToJulian (dk_D d)) (dk_T d) = (q1, res)" by fastforce
  then have q1: "tags_only q q1" using tags_only_inline_tags [of q r "TimeToJulian (dk_D d)" "dk_T d"] by simp
  have "tags_only q (fst (applyInlineTags q r d))"
    using i q1 tags_only_trans [OF q1 tags_only_PropagateAll]
    by (cases res) (auto simp: applyInlineTags_def split: list.split option.split)
  then show ?thesis by (rule adds_tags_only)
qed

lemma adds_crosslinkCheckin: "adds {r} q (fst (crosslinkCheckin q r d))"
proof -
  obtain q1 res where t: "crosslinkCheckinTables q r d = (q1, res)" by fastforce
  then have q1: "adds {r} q q1" using adds_crosslinkCheckinTables [of r q d] by simp
  obtain q2 res2 where a: "applyInlineTags q1 r d = (q2, res2)" by fastforce
  then have "adds {r} q q2" using adds_trans [OF q1 adds_applyInlineTags [of "{r}" q1 r d]] by simp
  with t a q1 show ?thesis by (cases res) (auto simp: crosslinkCheckin_def adds_refl)
qed

lemma adds_control_tags: "tags_only q (fst (control_tags q r mtime ts))"
proof (induction q r mtime ts rule: control_tags.induct)
  case (2 q srcRID mtime tc tcs)
  show ?case
  proof (cases "tc_UUID tc = ''*'' \<or> rid_of q (tc_UUID tc) = None \<or> tag_type_of (tc_Type tc) = None")
    case True
    with "2.IH" show ?thesis by (auto split: option.split)
  next
    case False
    then obtain t ty where t: "rid_of q (tc_UUID tc) = Some t" "tag_type_of (tc_Type tc) = Some ty" by auto
    let ?o = "\<lparr>ao_TargetRID = t, ao_SrcRID = srcRID, ao_TagName = tc_Name tc, ao_TagType = ty,
                                 ao_Value = tc_Value tc, ao_MTime = mtime\<rparr>"
    obtain q1 res where a: "ApplyTag q ?o = (q1, res)" by fastforce
    then have q1: "tags_only q q1" using tags_only_ApplyTag [of q ?o] by simp
    have "res = Ok x \<Longrightarrow> tags_only q1 (fst (control_tags q1 srcRID mtime tcs))" for x
      using "2.IH" False t a by auto
    with q1 False t a show ?thesis by (cases res) (auto intro: tags_only_trans)
  qed
qed (simp add: tags_only_refl)


lemma adds_addFWTPlink: "adds A q (fst (addFWTPlink q r d))"
proof -
  let ?q1 = "insertCheckinPlinks q r (TimeToJulian (dk_D d)) None True (dk_P d)"
  have q1: "adds A q ?q1" by (rule adds_insertCheckinPlinks)
  have "adds A q (fst (PropagateAll ?q1 p))" for p
    by (rule adds_trans [OF q1 adds_tags_only [OF tags_only_PropagateAll]])
  with q1 show ?thesis
    by (auto simp: addFWTPlink_def Let_def adds_refl split: option.split prod.split) (metis fst_conv)+
qed

lemma adds_apply_self: "adds A q (fst (apply_self q r n v m))"
  using adds_tags_only [OF tags_only_ApplyTag] by (auto simp: apply_self_def split: prod.split) (metis fst_conv)

lemma adds_crosslinkWiki: "adds A q (fst (crosslinkWiki q r d))"
proof -
  obtain q1 res1 where f: "addFWTPlink q r d = (q1, res1)" by fastforce
  then have q1: "adds A q q1" using adds_addFWTPlink [of A q r d] by simp
  obtain q2 res2 where a: "apply_self q1 r (''wiki-'' @ dk_L d) (show_int (int (length (dk_W d)))) (TimeToJulian (dk_D d)) = (q2, res2)"
    by fastforce
  then have q2: "adds A q q2" using adds_trans [OF q1 adds_apply_self] by (metis fst_conv)
  have "adds A q (replace_event q2 (event_of ''w'' m r u c))" for m u c
    by (rule adds_trans [OF q2 adds_replace_event]) (simp add: event_of_def)
  with f a q1 q2 show ?thesis by (cases res1; cases res2) (auto simp: crosslinkWiki_def adds_refl Let_def)
qed

lemma set_attachment_events_ci:
  "e \<in> set (set_attachment_events u ty as es) \<Longrightarrow> ev_type e = ''ci'' \<Longrightarrow> \<exists>e' \<in> set es. ev_objid e' = ev_objid e \<and> ev_type e' = ''ci''"
proof (induction u ty as es rule: set_attachment_events.induct)
  case (2 u ty a as es)
  then show ?case by (fastforce split: if_splits)
qed auto

lemma adds_updateAttachmentComments: "adds A q (fst (updateAttachmentComments u q t ty))"
proof -
  have "adds A q (q\<lparr>t_event := set_attachment_events u ty as (t_event q)\<rparr>)" for as
    by (intro adds_same) (auto simp: ci_def image_iff, metis set_attachment_events_ci)
  then show ?thesis by (simp add: updateAttachmentComments_def adds_refl)
qed

lemma adds_crosslinkTicket: "adds A q (fst (crosslinkTicket u q r d))"
proof -
  obtain q1 res where a: "apply_self q r (''tkt-'' @ dk_K d) [] (TimeToJulian (dk_D d)) = (q1, res)" by fastforce
  then have q1: "adds A q q1" using adds_apply_self by (metis fst_conv)
  show ?thesis
    using a q1 adds_trans [OF q1 adds_updateAttachmentComments]
    by (cases res) (auto simp: crosslinkTicket_def adds_refl)
qed

lemma adds_delete_old_notes: "adds A q (delete_old_notes q tagid)"
  by (intro adds_same) (auto simp: delete_old_notes_def ci_def)

lemma adds_crosslinkEvent: "adds A q (fst (crosslinkEvent u q r d))"
proof (cases "r \<le> 0 \<or> dk_E d = None")
  case True
  then show ?thesis by (auto simp: crosslinkEvent_def adds_refl)
next
  case False
  then obtain ec where ec: "dk_E d = Some ec" "\<not> r \<le> 0" by auto
  obtain q1 res1 where f: "addFWTPlink q r d = (q1, res1)" by fastforce
  then have q1: "adds A q q1" using adds_addFWTPlink [of A q r d] by simp
  obtain q2 res2 where a: "apply_self q1 r (''event-'' @ ec_UUID ec) (show_int (int (length (dk_W d)))) (TimeToJulian (dk_D d)) = (q2, res2)"
    by fastforce
  then have q2: "adds A q q2" using adds_trans [OF q1 adds_apply_self] by (metis fst_conv)
  have rep: "adds A q (replace_event q' ((event_of ''e'' m r us c)\<lparr>ev_tagid := t, ev_bgcolor := b\<rparr>))" if "adds A q q'" for q' m us c t b
    by (rule adds_trans [OF that adds_replace_event]) (simp add: event_of_def)
  have del: "adds A q (delete_old_notes q2 t)" for t by (rule adds_trans [OF q2 adds_delete_old_notes])
  have att: "adds A q (fst (updateAttachmentComments u q' t ty))" if "adds A q q'" for q' t ty
    by (rule adds_trans [OF that adds_updateAttachmentComments])
  show ?thesis
    using ec f a q1 q2
    by (cases res1; cases res2)
      (auto simp: crosslinkEvent_def Let_def q2 intro!: att rep del split: option.split prod.split)
qed

lemma adds_crosslinkAttachment: "adds A q (fst (crosslinkAttachment u q r d))"
proof -
  have att: "adds A q (q\<lparr>t_attachment := X\<rparr>)" for X by (intro adds_same) simp_all
  have "adds A q (replace_event (q\<lparr>t_attachment := X\<rparr>) (event_of [attach_type q' t] m r us c))" for X q' t m us c
    by (rule adds_trans [OF att adds_replace_event]) (simp add: event_of_def)
  then show ?thesis by (auto simp: crosslinkAttachment_def Let_def adds_refl split: option.split)
qed

lemma adds_forum_events:
  "adds A q (crosslinkForumStarter q r d froot fprev m)" "adds A q (crosslinkForumReply q r d froot fprev m)"
proof -
  have rep: "adds A q (replace_event q (event_of ''f'' m r us c))" for us c
    by (rule adds_replace_event) (simp add: event_of_def)
  have upd: "adds A q' (q'\<lparr>t_event := map (\<lambda>e. if P e then e\<lparr>ev_comment := f e\<rparr> else e) (t_event q')\<rparr>)" for q' P f
    by (intro adds_same) (auto simp: ci_def image_iff split: if_splits)
  show "adds A q (crosslinkForumStarter q r d froot fprev m)"
    unfolding crosslinkForumStarter_def Let_def using adds_trans [OF rep upd] rep by auto
  show "adds A q (crosslinkForumReply q r d froot fprev m)"
    unfolding crosslinkForumReply_def Let_def by (rule rep)
qed

lemma adds_crosslinkForum: "adds A q (fst (crosslinkForum q r d))"
proof -
  obtain q1 res1 where f: "addFWTPlink q r d = (q1, res1)" by fastforce
  then have q1: "adds A q q1" using adds_addFWTPlink [of A q r d] by simp
  have "adds A q1 (q1\<lparr>t_forumpost := X\<rparr>)" for X by (intro adds_same) simp_all
  then have q2: "adds A q (q1\<lparr>t_forumpost := X\<rparr>)" for X using adds_trans [OF q1] by blast
  show ?thesis
    using f q1 adds_trans [OF q2 adds_forum_events(1)] adds_trans [OF q2 adds_forum_events(2)]
    by (cases res1) (auto simp: crosslinkForum_def Let_def adds_refl split: prod.split)
qed


lemma extends_StorePhantom: "extends q (fst (StorePhantom q u))"
proof -
  have ins: "extends q q1" if i: "insert_blob q u (- 1) None 0 = Ok (q1, r)" for q1 r
  proof -
    note facts = insert_blob_Ok [OF i]
    have "delta_src q1 s = delta_src q s" for s by (subst facts(7)) (simp add: delta_src_def)
    moreover have "blob_by_rid q s = Some b \<Longrightarrow> blob_by_rid q1 s = Some b" for s b
      using facts(1) facts(4) [of s] blob_by_rid_next [of q] by (cases "s = r") auto
    moreover have "blob_by_uuid q v = Some b \<Longrightarrow> blob_by_uuid q1 v = Some b" for v b
      using facts(5) facts(8) [of v] by (cases "v = u") auto
    ultimately show ?thesis by (simp add: extends_def)
  qed
  have "extends q1 (q1\<lparr>t_phantom := P\<rparr>)" for q1 P by (rule extends_same) simp_all
  with ins show ?thesis
    by (auto simp: StorePhantom_def split: outcome.split option.split prod.split) (metis extends_trans)
qed

lemma grows_StorePhantom: "grows q (fst (StorePhantom q u))"
proof -
  have ins: "t_delta q1 = t_delta q \<and> (wf_repo q \<longrightarrow> wf_repo q1) \<and> (\<forall>b \<in> set (t_blob q1). b \<in> set (t_blob q) \<or> bl_size b = - 1)"
    if i: "insert_blob q u (- 1) None 0 = Ok (q1, r)" for q1 r
    using insert_blob_wf [OF _ i] i by (auto simp: insert_blob_def Let_def split: if_splits)
  have "wf_repo (q1\<lparr>t_phantom := P\<rparr>) = wf_repo q1" for q1 P by (simp add: wf_repo_def)
  with ins have "t_delta q' = t_delta q \<and> (wf_repo q \<longrightarrow> wf_repo q') \<and> (\<forall>b \<in> set (t_blob q'). b \<in> set (t_blob q) \<or> bl_size b = - 1)"
    if "StorePhantom q u = (q', res)" for q' res
    using that by (fastforce simp: StorePhantom_def split: outcome.splits option.split_asm prod.splits if_splits)
  then show ?thesis using extends_StorePhantom [of q u] by (cases "StorePhantom q u") (simp add: grows_def)
qed

lemma event_StorePhantom: "t_event (fst (StorePhantom q u)) = t_event q"
  by (auto simp: StorePhantom_def insert_blob_def Let_def split: outcome.splits option.split prod.splits if_splits)

lemma adds_cluster_members: "adds A q (fst (cluster_members q us))"
proof (induction q us rule: cluster_members.induct)
  case (2 q uuid us)
  have un: "adds A q (q\<lparr>t_unclustered := X\<rparr>)" for X by (intro adds_same) simp_all
  obtain q1 res where p: "StorePhantom q uuid = (q1, res)" by fastforce
  then have q1: "adds A q q1"
    using grows_StorePhantom [of q uuid] event_StorePhantom [of q uuid] by (simp add: adds_def ci_def)
  show ?case
  proof (cases "Exists q uuid")
    case (Ok m)
    show ?thesis
    proof (cases m)
      case (Some x)
      with Ok "2.IH"(2) [OF Ok Some] show ?thesis by (auto intro: adds_trans [OF un])
    next
      case None
      with Ok p q1 "2.IH"(1) [OF Ok None p [symmetric]] show ?thesis by (cases res) (auto intro: adds_trans [OF q1])
    qed
  qed (simp_all add: adds_refl)
qed (simp add: adds_refl)

lemma adds_CrosslinkCluster: "adds A q (fst (CrosslinkCluster q r d))"
proof -
  have "adds A q (q\<lparr>t_tagxref := T\<rparr>)" for T by (intro adds_same) simp_all
  from adds_trans [OF this adds_cluster_members] show ?thesis by (simp add: CrosslinkCluster_def adds_refl)
qed

lemma adds_crosslinkControl: "adds A q (fst (crosslinkControl u q r d))"
proof -
  obtain q1 res where c: "control_tags q r (TimeToJulian (dk_D d)) (dk_T d) = (q1, res)" by fastforce
  then have q1: "adds A q q1" using adds_tags_only [OF adds_control_tags] by (metis fst_conv)
  have "adds A q (replace_event q1 (event_of ''g'' m r us c))" for m us c
    by (rule adds_trans [OF q1 adds_replace_event]) (simp add: event_of_def)
  with c q1 show ?thesis by (cases res) (auto simp: crosslinkControl_def Let_def adds_refl)
qed

lemmas adds_deck = adds_crosslinkWiki adds_crosslinkTicket adds_crosslinkEvent adds_crosslinkAttachment
  adds_CrosslinkCluster adds_crosslinkForum adds_crosslinkControl

lemma adds_crosslink_deck:
  "adds (if dk_Type d = ArtifactType.Checkin then {r} else {}) q (fst (crosslink_deck u q r d))"
  using adds_crosslinkCheckin [of r q d] by (auto simp: crosslink_deck_def adds_deck split: ArtifactType.split)

section \<open>Deferral\<close>

lemma blobPresent_extends: "blobPresent q u \<Longrightarrow> extends q q' \<Longrightarrow> blobPresent q' u"
  unfolding blobPresent_def extends_def by (auto split: option.splits)

lemma missing_refs_empty:
  "missing_refs q seen us = [] \<Longrightarrow> \<forall>s \<in> set seen. blobPresent q s \<Longrightarrow> u \<in> set us \<Longrightarrow> blobPresent q u"
  by (induction q seen us rule: missing_refs.induct) (auto split: if_splits)

text \<open>A timeline check-in whose manifest parses and whose references are all present.\<close>

definition complete_checkin :: "libs \<Rightarrow> repo \<Rightarrow> rid \<Rightarrow> bool" where
  "complete_checkin L q r \<longleftrightarrow>
     (\<exists>d. load_deck L q r = Ok d \<and> dk_Type d = ArtifactType.Checkin \<and> (\<forall>u \<in> set (checkin_refs d). blobPresent q u))"

lemma complete_checkin_extends: "complete_checkin L q r \<Longrightarrow> r > 0 \<Longrightarrow> extends q q' \<Longrightarrow> complete_checkin L q' r"
  unfolding complete_checkin_def by (meson blobPresent_extends load_deck_extends)

lemma sweep_complete:
  assumes "sweep L u q rs n = (q', n', res)" "\<forall>r \<in> set rs. r > 0"
  shows "extends q q' \<and> (\<forall>r \<in> ci q' - ci q. complete_checkin L q' r)"
  using assms
proof (induction L u q rs n rule: sweep.induct)
  case (2 L u q r rs n)
  show ?case
  proof (cases "load_deck L q r")
    case (Ok d)
    show ?thesis
    proof (cases "dk_Type d = ArtifactType.Checkin \<and> length (missingCheckinRefs q d) > 0")
      case True
      with Ok "2.prems" "2.IH"(1) [OF Ok True] show ?thesis by simp
    next
      case go: False
      obtain q1 res1 where c: "crosslink_deck u q r d = (q1, res1)" by fastforce
      have add: "adds (if dk_Type d = ArtifactType.Checkin then {r} else {}) q q1"
        using adds_crosslink_deck [of d r q u] c by simp
      then have ext: "extends q q1" by (simp add: adds_def grows_def)
      have "complete_checkin L q1 x" if "x \<in> ci q1 - ci q" for x
      proof -
        from that add have x: "x = r" "dk_Type d = ArtifactType.Checkin" by (auto simp: adds_def split: if_splits)
        with go have "missing_refs q [] (checkin_refs d) = []" by (simp add: missingCheckinRefs_def)
        then have "complete_checkin L q r" using missing_refs_empty [of q "[]"] Ok x by (auto simp: complete_checkin_def)
        then show ?thesis using complete_checkin_extends "2.prems"(2) ext x(1) by simp
      qed
      note now = this
      show ?thesis
      proof (cases res1)
        case (Ok y)
        have IH: "extends q1 q'" "\<forall>r \<in> ci q' - ci q1. complete_checkin L q' r"
          using "2.IH"(2) [OF \<open>load_deck L q r = _\<close> go c [symmetric] Ok] "2.prems" \<open>load_deck L q r = _\<close> go c Ok by auto
        have "complete_checkin L q' x" if x: "x \<in> ci q' - ci q" for x
        proof (cases "x \<in> ci q1")
          case True
          then have "x = r" using x add by (auto simp: adds_def split: if_splits)
          then show ?thesis using now [of x] True x complete_checkin_extends [OF _ _ IH(1)] "2.prems"(2) by auto
        qed (use IH(2) x in blast)
        then show ?thesis using extends_trans [OF ext IH(1)] by blast
      qed (use "2.prems" \<open>load_deck L q r = _\<close> go c now ext in auto)
    qed
  qed (use "2.prems" "2.IH"(3) in auto)
qed simp

lemma grows_sweep: "grows q (fst (sweep L u q rs n))"
proof (induction L u q rs n rule: sweep.induct)
  case (2 L u q r rs n)
  show ?case
  proof (cases "load_deck L q r")
    case (Ok d)
    show ?thesis
    proof (cases "dk_Type d = ArtifactType.Checkin \<and> length (missingCheckinRefs q d) > 0")
      case True
      with Ok "2.IH"(1) [OF Ok True] show ?thesis by simp
    next
      case go: False
      obtain q1 res1 where c: "crosslink_deck u q r d = (q1, res1)" by fastforce
      have g: "grows q q1" using adds_crosslink_deck [of d r q u] c by (simp add: adds_def)
      show ?thesis
      proof (cases res1)
        case (Ok y)
        from "2.IH"(2) [OF \<open>load_deck L q r = _\<close> go c [symmetric] Ok] \<open>load_deck L q r = _\<close> go c Ok
        show ?thesis by (auto intro: grows_trans [OF g])
      qed (use \<open>load_deck L q r = _\<close> go c g in auto)
    qed
  qed (use "2.IH"(3) in auto)
qed simp

text \<open>
  Claim C11.  Whatever its outcome, a crosslink sweep only adds blobs (phantoms), and every check-in it
  puts on the timeline has a manifest that parses and all its referenced blobs, the delta
  baseline and the content of every file, present with content.  Check-ins with missing
  references are left for a later sweep.
\<close>

theorem Crosslink_defers_incomplete:
  assumes "wf_repo q" "Crosslink L u q = (q', n, res)" "e \<in> set (t_event q')" "ev_type e = ''ci''"
    and "\<And>e'. e' \<in> set (t_event q) \<Longrightarrow> ev_type e' = ''ci'' \<Longrightarrow> ev_objid e' \<noteq> ev_objid e"
  shows "\<exists>d. load_deck L q' (ev_objid e) = Ok d \<and> dk_Type d = ArtifactType.Checkin \<and>
           (\<forall>v. v \<noteq> [] \<and> (v = dk_B d \<or> v \<in> fc_UUID ` set (dk_F d)) \<longrightarrow>
              (\<exists>b. blob_by_uuid q' v = Some b \<and> bl_size b \<ge> 0))"
proof -
  have "\<forall>r \<in> set (candidates q). r > 0"
    using assms(1) by (auto simp: candidates_def wf_repo_def list_all_iff)
  note sweep_complete [OF assms(2) [unfolded Crosslink_def] this]
  moreover have "ev_objid e \<in> ci q' - ci q" using assms(3-5) by (force simp: ci_def)
  ultimately have "complete_checkin L q' (ev_objid e)" by blast
  then obtain d where d: "load_deck L q' (ev_objid e) = Ok d" "dk_Type d = ArtifactType.Checkin"
      "\<And>v. v \<in> set (checkin_refs d) \<Longrightarrow> blobPresent q' v"
    by (auto simp: complete_checkin_def)
  have "\<exists>b. blob_by_uuid q' v = Some b \<and> bl_size b \<ge> 0" if "v \<noteq> []" "v = dk_B d \<or> v \<in> fc_UUID ` set (dk_F d)" for v
  proof -
    have "v \<in> set (checkin_refs d)" using that by (auto simp: checkin_refs_def)
    from d(3) [OF this] show ?thesis by (auto simp: blobPresent_def split: option.splits)
  qed
  with d(1,2) show ?thesis by blast
qed

definition tiny_deck :: Deck where
  "tiny_deck = empty_deck\<lparr>dk_F := [\<lparr>fc_Name = ''a'', fc_UUID = replicate 40 CHR ''f'', fc_Perm = [], fc_OldName = []\<rparr>],
     dk_U := ''me'', dk_R := replicate 32 CHR ''0''\<rparr>"

definition tiny_repo :: repo where
  "tiny_repo = empty_repo\<lparr>t_blob := [\<lparr>bl_rid = 1, bl_rcvid = 1, bl_size = 120, bl_uuid = replicate 40 CHR ''d'',
       bl_content = Some (Compress sample_deflate (Marshal (l_md5 toy_libs) tiny_deck))\<rparr>,
     \<lparr>bl_rid = 2, bl_rcvid = 1, bl_size = 0, bl_uuid = replicate 40 CHR ''f'', bl_content = None\<rparr>]\<rparr>"

lemma tiny_length: "length (Marshal (l_md5 toy_libs) tiny_deck) = 120"
  by code_simp

lemma tiny_wf: "wf_deck tiny_deck"
proof -
  have "list_all F_ok (dk_F tiny_deck)" "list_all trimmed [dk_B tiny_deck, dk_G tiny_deck, dk_I tiny_deck, dk_K tiny_deck, dk_N tiny_deck, dk_R tiny_deck]"
    by code_simp+
  then show ?thesis
    by (simp add: wf_deck_def tiny_deck_def empty_deck_def D_ok_def encodable_time_def valid_time_def zero_time_def days_in_def)
qed

lemma tiny_load: "load_deck toy_libs tiny_repo 1 = Ok (canonical tiny_deck)"
proof -
  let ?m = "Marshal (l_md5 toy_libs) tiny_deck"
  have "blob_by_rid tiny_repo 1 = Some \<lparr>bl_rid = 1, bl_rcvid = 1, bl_size = 120, bl_uuid = replicate 40 CHR ''d'',
     bl_content = Some (Compress (l_deflate toy_libs) ?m)\<rparr>"
    by (simp add: tiny_repo_def blob_by_rid_def toy_libs_def)
  then have "Load (l_inflate toy_libs) False tiny_repo 1 = Ok ?m"
    by (rule Load_compressed [OF libs_okD(1) [OF toy_libs_ok], rotated]) (simp_all add: tiny_length)
  then have "expands (l_inflate toy_libs) tiny_repo 1 ?m"
    by (intro expands.expands_root) (simp_all add: delta_src_def tiny_repo_def empty_repo_def)
  from load_deck_holds [OF this] show ?thesis
    using Parse_Marshal [OF tiny_wf] libs_okD(5) [OF toy_libs_ok] by simp
qed

lemma tiny_load_empty:
  assumes "t_blob q = t_blob tiny_repo" "t_delta q = []"
  shows "\<exists>e. load_deck toy_libs q 2 = Err e"
  using assms by (auto simp: load_deck_def Expand_def walkDeltaChain_def walk.simps [of _ _ "[]"] delta_src_def
      Load_def blob_by_rid_def tiny_repo_def)

theorem Crosslink_defers_incomplete_witness:
  "\<exists>q' n res. Crosslink toy_libs id tiny_repo = (q', n, res) \<and> n = 1 \<and>
     (\<exists>d. load_deck toy_libs q' 1 = Ok d \<and> dk_Type d = ArtifactType.Checkin \<and>
       (\<exists>b. blob_by_uuid q' (replicate 40 CHR ''f'') = Some b \<and> bl_size b \<ge> 0))"
proof -
  let ?d = "canonical tiny_deck"
  have d: "dk_Type ?d = ArtifactType.Checkin" "dk_B ?d = []" "dk_P ?d = []" "dk_T ?d = []" "dk_Q ?d = []"
    "dk_F ?d = [\<lparr>fc_Name = ''a'', fc_UUID = replicate 40 CHR ''f'', fc_Perm = [], fc_OldName = []\<rparr>]"
    by (simp_all add: canonical_def tiny_deck_def empty_deck_def inferType_def)
  have cand: "candidates tiny_repo = [1, 2]" by (simp add: candidates_def tiny_repo_def empty_repo_def)
  have miss: "missingCheckinRefs tiny_repo ?d = []"
    by (simp add: missingCheckinRefs_def checkin_refs_def d blobPresent_def blob_by_uuid_def tiny_repo_def)
  obtain q1 where c: "crosslink_deck id tiny_repo 1 ?d = (q1, Ok ())" and
      q1: "t_blob q1 = t_blob tiny_repo" "t_delta q1 = []"
        "\<exists>e \<in> set (t_event q1). ev_type e = ''ci'' \<and> ev_objid e = 1"
    by (simp add: crosslink_deck_def d crosslinkCheckin_def crosslinkCheckinTables_def applyInlineTags_def Let_def
        insert_event_def event_of_def updateLeafTable_def insert_key_def rid_of_def ensureFilename_def blob_by_uuid_def
        tiny_repo_def empty_repo_def with_tx_def map_filter_simps)
  obtain er where er: "load_deck toy_libs q1 2 = Err er" using tiny_load_empty [OF q1(1,2)] by blast
  have run: "Crosslink toy_libs id tiny_repo = (q1, 1, Ok ())"
    using tiny_load miss c er by (simp add: Crosslink_def cand d)
  obtain e where e: "e \<in> set (t_event q1)" "ev_type e = ''ci''" "ev_objid e = 1" using q1(3) by blast
  have "wf_repo tiny_repo" by (simp add: wf_repo_def tiny_repo_def empty_repo_def)
  from Crosslink_defers_incomplete [OF this run e(1,2)] e(3)
  obtain d' where d': "load_deck toy_libs q1 1 = Ok d'" "dk_Type d' = ArtifactType.Checkin"
      "\<And>v. v \<noteq> [] \<Longrightarrow> v \<in> fc_UUID ` set (dk_F d') \<Longrightarrow> \<exists>b. blob_by_uuid q1 v = Some b \<and> bl_size b \<ge> 0"
    by (auto simp: tiny_repo_def empty_repo_def)
  moreover have "load_deck toy_libs q1 1 = Ok ?d"
    using load_deck_extends [OF tiny_load, of q1] extends_same [of q1 tiny_repo] q1(1,2) by (simp add: tiny_repo_def empty_repo_def)
  ultimately have "\<exists>b. blob_by_uuid q1 (replicate 40 CHR ''f'') = Some b \<and> bl_size b \<ge> 0" by (auto simp: d)
  with run d'(1,2) show ?thesis by blast
qed


section \<open>Leaves\<close>

lemma has_plink_cong: "t_plink q' = t_plink q \<Longrightarrow> has_plink q' = has_plink q"
  by (simp add: has_plink_def fun_eq_iff)

lemma insertCheckinPlinks_frame:
  "\<exists>P. insertCheckinPlinks q r mtime baseid b us = q\<lparr>t_plink := P\<rparr>"
proof (induction q r mtime baseid b us rule: insertCheckinPlinks.induct)
  case (1 q r mtime baseid isPrim)
  show ?case by (rule exI [of _ "t_plink q"]) simp
next
  case (2 q r mtime baseid isPrim u us)
  have "\<exists>P. (case rid_of q u of None \<Rightarrow> q | Some p \<Rightarrow> insert_plink q \<lparr>pl_pid = p, pl_cid = r, pl_isprim = isPrim,
      pl_mtime = mtime, pl_baseid = baseid\<rparr>) = q\<lparr>t_plink := P\<rparr>"
    by (cases "rid_of q u") (auto simp: insert_plink_def intro: exI [of _ "t_plink q"])
  with 2 show ?case by auto
qed

lemma insertCheckinPlinks_mono:
  "has_plink q p c \<Longrightarrow> has_plink (insertCheckinPlinks q r mtime baseid b us) p c"
proof (induction q r mtime baseid b us rule: insertCheckinPlinks.induct)
  case (2 q r mtime baseid isPrim u us)
  have "has_plink (insert_plink q x) p c" for x using "2.prems" by (auto simp: insert_plink_def has_plink_def)
  with 2 show ?case by (auto split: option.split)
qed simp

lemma insertCheckinPlinks_first:
  assumes "rid_of q u = Some p"
  shows "has_plink (insertCheckinPlinks q r mtime baseid b (u # us)) p r"
proof -
  have "has_plink (insert_plink q \<lparr>pl_pid = p, pl_cid = r, pl_isprim = b, pl_mtime = mtime, pl_baseid = baseid\<rparr>) p r"
    by (auto simp: insert_plink_def has_plink_def)
  from insertCheckinPlinks_mono [OF this] assms show ?thesis by simp
qed

lemma ensureFilename_frame: "\<exists>F. fst (ensureFilename q n) = q\<lparr>t_filename := F\<rparr>"
proof -
  have same: "\<exists>F. q = q\<lparr>t_filename := F\<rparr>" by (rule exI [of _ "t_filename q"]) simp
  have new: "\<exists>F. q\<lparr>t_filename := G\<rparr> = q\<lparr>t_filename := F\<rparr>" for G by blast
  from same new show ?thesis by (simp add: ensureFilename_def Let_def split: option.split)
qed

lemma insertCheckinMlinks_frame:
  assumes "insertCheckinMlinks q r fs = (q', res)"
  shows "\<exists>F M. q' = q\<lparr>t_filename := F, t_mlink := t_mlink q @ M\<rparr> \<and> list_all (\<lambda>m. ml_mid m = r \<and> ml_pid m = None) M"
  using assms
proof (induction q r fs rule: insertCheckinMlinks.induct)
  case (1 q r)
  then show ?case by (intro exI [of _ "t_filename q"] exI [of _ "[]"]) simp
next
  case (2 q r f fs)
  have same: "\<exists>F M. q = q\<lparr>t_filename := F, t_mlink := t_mlink q @ M\<rparr> \<and> list_all (\<lambda>m. ml_mid m = r \<and> ml_pid m = None) M" for q
    by (intro exI [of _ "t_filename q"] exI [of _ "[]"]) simp
  show ?case
  proof (cases "fc_UUID f = []")
    case True
    with 2 show ?thesis by simp
  next
    case False
    obtain q1 res1 where e: "ensureFilename q (fc_Name f) = (q1, res1)" by fastforce
    with ensureFilename_frame [of q "fc_Name f"] obtain F where q1: "q1 = q\<lparr>t_filename := F\<rparr>" by auto
    have here: "\<exists>F' M. q\<lparr>t_filename := F\<rparr> = q\<lparr>t_filename := F', t_mlink := t_mlink q @ M\<rparr> \<and>
        list_all (\<lambda>m. ml_mid m = r \<and> ml_pid m = None) M"
      by (rule exI [of _ F], rule exI [of _ "[]"]) simp
    show ?thesis
    proof (cases res1)
      case (Ok fnid)
      show ?thesis
      proof (cases "rid_of q1 (fc_UUID f)")
        case None
        from "2.IH"(2) [OF False e [symmetric] Ok None] "2.prems" False e Ok None q1 show ?thesis by auto
      next
        case (Some x)
        from "2.IH"(3) [OF False e [symmetric] Ok Some] "2.prems" False e Ok Some q1 show ?thesis by fastforce
      qed
    qed (use "2.prems" False e q1 here in simp_all)
  qed
qed

lemma insertCherrypicks_frame: "\<exists>C. insertCherrypicks q r cps = q\<lparr>t_cherrypick := C\<rparr>"
proof (induction q r cps rule: insertCherrypicks.induct)
  case (1 q r)
  show ?case by (rule exI [of _ "t_cherrypick q"]) simp
next
  case (2 q r cp cps)
  then show ?case by (auto split: option.split)
qed

lemma crosslinkCheckinTables_Ok:
  assumes "crosslinkCheckinTables q r d = (q', Ok ())"
  obtains E P F M C where "q' = q\<lparr>t_event := E, t_plink := P, t_leaf := filter (\<lambda>x. x \<notin> set (List.map_filter (rid_of q) (dk_P d)))
      (insert_key r (t_leaf q)), t_filename := F, t_mlink := t_mlink q @ M, t_cherrypick := C\<rparr>"
    "list_all (\<lambda>m. ml_mid m = r \<and> ml_pid m = None) M"
    "\<And>u us p. dk_P d = u # us \<Longrightarrow> rid_of q u = Some p \<Longrightarrow> has_plink q' p r"
    "\<And>p c. has_plink q p c \<Longrightarrow> has_plink q' p c"
proof -
  let ?e = "event_of ''ci'' (TimeToJulian (dk_D d)) r (dk_U d) (dk_C d)"
  let ?q1 = "insert_event q ?e"
  let ?b = "if dk_B d \<noteq> [] then rid_of ?q1 (dk_B d) else None"
  let ?q2 = "insertCheckinPlinks ?q1 r (TimeToJulian (dk_D d)) ?b True (dk_P d)"
  let ?q3 = "updateLeafTable ?q2 r d"
  obtain E where q1: "?q1 = q\<lparr>t_event := E\<rparr>"
  proof (cases "r \<in> ev_objid ` set (t_event q)")
    case True
    then have "?q1 = q\<lparr>t_event := t_event q\<rparr>" by (simp add: insert_event_def event_of_def)
    then show ?thesis by (rule that)
  next
    case False
    then have "?q1 = q\<lparr>t_event := t_event q @ [?e]\<rparr>" by (simp add: insert_event_def event_of_def)
    then show ?thesis by (rule that)
  qed
  obtain P where q2: "?q2 = ?q1\<lparr>t_plink := P\<rparr>" using insertCheckinPlinks_frame by blast
  obtain q4 where ml: "insertCheckinMlinks ?q3 r (dk_F d) = (q4, Ok ())" and q': "q' = insertCherrypicks q4 r (dk_Q d)"
    using assms by (auto simp: crosslinkCheckinTables_def with_tx_def Let_def split: prod.splits outcome.splits)
  obtain F M where q4: "q4 = ?q3\<lparr>t_filename := F, t_mlink := t_mlink ?q3 @ M\<rparr>"
    and M: "list_all (\<lambda>m. ml_mid m = r \<and> ml_pid m = None) M"
    using insertCheckinMlinks_frame [OF ml] by blast
  obtain C where C: "q' = q4\<lparr>t_cherrypick := C\<rparr>" using q' insertCherrypicks_frame by metis
  have rid1: "rid_of ?q1 = rid_of q" by (subst q1) (auto simp: rid_of_def blob_by_uuid_def)
  have "rid_of ?q2 = rid_of ?q1" by (subst q2) (auto simp: rid_of_def blob_by_uuid_def)
  with rid1 have rid: "rid_of ?q2 = rid_of q" by simp
  have "t_plink q' = t_plink ?q2" unfolding C q4 by (simp add: updateLeafTable_def)
  then have pl: "has_plink q' = has_plink ?q2" by (rule has_plink_cong)
  have final: "q' = q\<lparr>t_event := E, t_plink := P, t_leaf := filter (\<lambda>x. x \<notin> set (List.map_filter (rid_of q) (dk_P d)))
      (insert_key r (t_leaf q)), t_filename := F, t_mlink := t_mlink q @ M, t_cherrypick := C\<rparr>"
    unfolding C q4 updateLeafTable_def rid unfolding q2 unfolding q1 by simp
  show ?thesis
  proof (rule that [OF final M])
    show "has_plink q' p r" if "dk_P d = u # us" "rid_of q u = Some p" for u us p
      unfolding pl that(1) using that(2) rid1 by (intro insertCheckinPlinks_first) simp
    show "has_plink q' p c" if "has_plink q p c" for p c
      unfolding pl using that q1 by (intro insertCheckinPlinks_mono) (auto simp: has_plink_def)
  qed
qed


lemma crosslinkCheckinTables_effect:
  assumes "crosslinkCheckinTables q r d = (q', Ok ())"
  shows "t_leaf q' = filter (\<lambda>x. x \<notin> set (List.map_filter (rid_of q) (dk_P d))) (insert_key r (t_leaf q))"
    and "rid_of q' = rid_of q"
    and "dk_P d = u # us \<Longrightarrow> rid_of q u = Some p \<Longrightarrow> has_plink q' p r"
    and "has_plink q p c \<Longrightarrow> has_plink q' p c"
    and "m \<in> set (t_mlink q') - set (t_mlink q) \<Longrightarrow> ml_pid m = None"
proof -
  obtain E P F M C where q': "q' = q\<lparr>t_event := E, t_plink := P, t_leaf := filter (\<lambda>x. x \<notin> set (List.map_filter (rid_of q) (dk_P d)))
      (insert_key r (t_leaf q)), t_filename := F, t_mlink := t_mlink q @ M, t_cherrypick := C\<rparr>"
    and M: "list_all (\<lambda>m. ml_mid m = r \<and> ml_pid m = None) M"
    and "\<And>u us p. dk_P d = u # us \<Longrightarrow> rid_of q u = Some p \<Longrightarrow> has_plink q' p r"
    and "\<And>p c. has_plink q p c \<Longrightarrow> has_plink q' p c"
    by (rule crosslinkCheckinTables_Ok [OF assms]) blast
  then show "dk_P d = u # us \<Longrightarrow> rid_of q u = Some p \<Longrightarrow> has_plink q' p r" "has_plink q p c \<Longrightarrow> has_plink q' p c"
    by blast+
  show "t_leaf q' = filter (\<lambda>x. x \<notin> set (List.map_filter (rid_of q) (dk_P d))) (insert_key r (t_leaf q))"
    unfolding q' by simp
  show "rid_of q' = rid_of q" unfolding q' by (simp add: rid_of_def blob_by_uuid_def fun_eq_iff)
  show "m \<in> set (t_mlink q') - set (t_mlink q) \<Longrightarrow> ml_pid m = None" using M unfolding q' by (auto simp: list_all_iff)
qed

text \<open>
  The leaf table depends on the order in which check-ins are crosslinked: when a child is
  crosslinked before its parent, the parent ends up in the leaf table although the link from
  it to its child is recorded; in the other order it does not.
\<close>

theorem crosslink_leaf_order_dependent:
  assumes "rid_of q up = Some p" "p \<noteq> c" "dk_P dc = [up]" "dk_P dp = []"
    and "crosslinkCheckinTables q c dc = (q1, Ok ())" "crosslinkCheckinTables q1 p dp = (q2, Ok ())"
    and "crosslinkCheckinTables q p dp = (q1', Ok ())" "crosslinkCheckinTables q1' c dc = (q2', Ok ())"
  shows "p \<in> set (t_leaf q2) \<and> has_plink q2 p c \<and> p \<notin> set (t_leaf q2') \<and> has_plink q2' p c"
proof -
  note e1 = crosslinkCheckinTables_effect [OF assms(5)] and e2 = crosslinkCheckinTables_effect [OF assms(6)]
  note e1' = crosslinkCheckinTables_effect [OF assms(7)] and e2' = crosslinkCheckinTables_effect [OF assms(8)]
  have "has_plink q2 p c" by (rule e2(4) [OF e1(3) [OF assms(3,1)]])
  moreover have "p \<in> set (t_leaf q2)" using e2(1) by (simp add: assms(4) map_filter_simps)
  moreover have rid: "rid_of q1' up = Some p" using assms(1) e1'(2) by simp
  moreover have "p \<notin> set (t_leaf q2')" using e2'(1) rid by (simp add: assms(3) map_filter_simps)
  ultimately show ?thesis using e2'(3) [OF assms(3) rid] by simp
qed

text \<open>
  The link table that crosslinking writes does not record the parent's file: in the history of
  a file every check-in that arrived by sync counts as adding it, also when it did not change.
\<close>

theorem crosslinked_files_look_added:
  assumes "crosslinkCheckinTables q r d = (q', Ok ())" "m \<in> set (t_mlink q') - set (t_mlink q)" "ml_fid m \<noteq> 0"
  shows "classifyAction (ml_fid m) (case ml_pid m of None \<Rightarrow> 0 | Some p \<Rightarrow> p) 0 (ml_fnid m) = (FileAdded, True)"
proof -
  have "ml_pid m = None" using assms(2) by (rule crosslinkCheckinTables_effect [OF assms(1)])
  with assms(3) show ?thesis by (simp add: classifyAction_def)
qed

lemma tiny_tables:
  "\<exists>q'. crosslinkCheckinTables tiny_repo 1 (canonical tiny_deck) = (q', Ok ()) \<and>
     t_mlink q' = [\<lparr>ml_mid = 1, ml_fid = 2, ml_pmid = None, ml_pid = None, ml_fnid = 1\<rparr>]"
  by (simp add: crosslinkCheckinTables_def Let_def canonical_def tiny_deck_def empty_deck_def
      insert_event_def event_of_def updateLeafTable_def insert_key_def rid_of_def ensureFilename_def blob_by_uuid_def
      tiny_repo_def empty_repo_def with_tx_def map_filter_simps)

theorem crosslinked_files_look_added_witness:
  "\<exists>q' m. crosslinkCheckinTables tiny_repo 1 (canonical tiny_deck) = (q', Ok ()) \<and> m \<in> set (t_mlink q') \<and>
     classifyAction (ml_fid m) (case ml_pid m of None \<Rightarrow> 0 | Some p \<Rightarrow> p) 0 (ml_fnid m) = (FileAdded, True)"
proof -
  obtain q' where q': "crosslinkCheckinTables tiny_repo 1 (canonical tiny_deck) = (q', Ok ())"
    "t_mlink q' = [\<lparr>ml_mid = 1, ml_fid = 2, ml_pmid = None, ml_pid = None, ml_fnid = 1\<rparr>]"
    using tiny_tables by blast
  let ?m = "\<lparr>ml_mid = 1, ml_fid = 2, ml_pmid = None, ml_pid = None, ml_fnid = 1\<rparr> :: mlink_row"
  have "?m \<in> set (t_mlink q') - set (t_mlink tiny_repo)" using q'(2) by (simp add: tiny_repo_def empty_repo_def)
  from crosslinked_files_look_added [OF q'(1) this] q' show ?thesis by auto
qed

theorem crosslink_leaf_order_dependent_witness:
  "\<exists>q1 q2. crosslinkCheckinTables tiny_repo 2 (empty_deck\<lparr>dk_P := [replicate 40 CHR ''d'']\<rparr>) = (q1, Ok ()) \<and>
     crosslinkCheckinTables q1 1 empty_deck = (q2, Ok ()) \<and> 1 \<in> set (t_leaf q2) \<and> has_plink q2 1 2"
proof -
  let ?dc = "empty_deck\<lparr>dk_P := [replicate 40 CHR ''d'']\<rparr>"
  have run: "\<exists>q'. crosslinkCheckinTables q r d = (q', Ok ())" if "dk_F d = []" for q r d
    using that by (simp add: crosslinkCheckinTables_def Let_def with_tx_def)
  obtain q1 q2 q1' q2' where "crosslinkCheckinTables tiny_repo 2 ?dc = (q1, Ok ())" "crosslinkCheckinTables q1 1 empty_deck = (q2, Ok ())"
    "crosslinkCheckinTables tiny_repo 1 empty_deck = (q1', Ok ())" "crosslinkCheckinTables q1' 2 ?dc = (q2', Ok ())"
    using run [of ?dc] run [of empty_deck] by (fastforce simp: empty_deck_def)
  moreover have "rid_of tiny_repo (replicate 40 CHR ''d'') = Some 1" by (simp add: rid_of_def blob_by_uuid_def tiny_repo_def)
  ultimately show ?thesis
    using crosslink_leaf_order_dependent [of tiny_repo "replicate 40 CHR ''d''" 1 2 ?dc empty_deck q1 q2 q1' q2']
    by (auto simp: empty_deck_def)
qed

section \<open>Clusters\<close>

text \<open>The phantom and unclustered tables name rows of the blob table.\<close>

definition rows_known :: "repo \<Rightarrow> bool" where
  "rows_known q \<longleftrightarrow> (\<forall>x \<in> set (t_phantom q) \<union> set (t_unclustered q). blob_by_rid q x \<noteq> None)"

lemma rows_known_fresh:
  assumes "rows_known q"
  shows "next_rid q \<notin> set (t_phantom q)" "next_rid q \<notin> set (t_unclustered q)"
  using assms blob_by_rid_next [of q] unfolding rows_known_def by blast+

lemma StorePhantom_new:
  assumes "length u \<ge> 40" "blob_by_uuid q u = None" "rows_known q"
  obtains q' where "StorePhantom q u = (q', Ok (next_rid q))" "rows_known q'" "extends q q'"
    "t_unclustered q' = t_unclustered q" "map_option bl_rid (blob_by_uuid q' u) = Some (next_rid q)"
proof -
  obtain q1 where i: "insert_blob q u (- 1) None 0 = Ok (q1, next_rid q)"
    using insert_blob_fresh [OF assms(1,2)] by blast
  note facts = insert_blob_Ok [OF i]
  have same: "t_phantom q1 = t_phantom q" "t_unclustered q1 = t_unclustered q" by (subst facts(7), simp)+
  have "next_rid q \<notin> set (t_phantom q1)" using rows_known_fresh(1) [OF assms(3)] same by simp
  moreover have "u \<noteq> []" using assms(1) by auto
  ultimately have run: "StorePhantom q u = (q1\<lparr>t_phantom := t_phantom q1 @ [next_rid q]\<rparr>, Ok (next_rid q))"
    using i assms(2) next_rid_pos [of q] by (simp add: StorePhantom_def Exists_def check_rid_pos)
  have "blob_by_rid q1 x \<noteq> None" if "blob_by_rid q x \<noteq> None" for x
    using that facts(2) facts(4) [of x] by (cases "x = next_rid q") auto
  then have "rows_known (q1\<lparr>t_phantom := t_phantom q1 @ [next_rid q]\<rparr>)"
    using assms(3) same facts(2) by (auto simp: rows_known_def blob_by_rid_def)
  then show ?thesis
    using run same facts(2,3) extends_StorePhantom [of q u]
    by (intro that [of "q1\<lparr>t_phantom := t_phantom q1 @ [next_rid q]\<rparr>"]) (auto simp: blob_by_uuid_def)
qed

definition accounted :: "repo \<Rightarrow> bytes \<Rightarrow> bool" where
  "accounted q u \<longleftrightarrow> (\<exists>b. blob_by_uuid q u = Some b \<and> bl_rid b \<notin> set (t_unclustered q))"

lemma accounted_extends: "accounted q u \<Longrightarrow> extends q q' \<Longrightarrow> set (t_unclustered q') \<subseteq> set (t_unclustered q) \<Longrightarrow> accounted q' u"
  unfolding accounted_def extends_def by blast

lemma cluster_members_spec:
  assumes "rows_known q" "\<forall>u \<in> set us. length u \<ge> 40"
  shows "\<exists>q'. cluster_members q us = (q', Ok ()) \<and> (\<forall>u \<in> set us. accounted q' u) \<and>
     set (t_unclustered q') \<subseteq> set (t_unclustered q) \<and> extends q q' \<and> rows_known q'"
  using assms
proof (induction us arbitrary: q)
  case (Cons u us)
  have ne: "u \<noteq> []" using Cons.prems(2) by auto
  have "\<exists>q1. cluster_members q (u # us) = cluster_members q1 us \<and> accounted q1 u \<and> extends q q1 \<and> rows_known q1 \<and>
      set (t_unclustered q1) \<subseteq> set (t_unclustered q)"
  proof (cases "blob_by_uuid q u")
    case None
    obtain q1 where q1: "StorePhantom q u = (q1, Ok (next_rid q))" "rows_known q1" "extends q q1"
        "t_unclustered q1 = t_unclustered q" "map_option bl_rid (blob_by_uuid q1 u) = Some (next_rid q)"
      using StorePhantom_new [OF _ None Cons.prems(1)] Cons.prems(2) by auto
    from rows_known_fresh(2) [OF Cons.prems(1)] q1 None ne show ?thesis by (intro exI [of _ q1]) (auto simp: accounted_def Exists_def)
  next
    case (Some b)
    let ?q1 = "q\<lparr>t_unclustered := filter ((\<noteq>) (bl_rid b)) (t_unclustered q)\<rparr>"
    have "extends q ?q1" by (rule extends_same) simp_all
    moreover have "rows_known ?q1" using Cons.prems(1) by (auto simp: rows_known_def blob_by_rid_def)
    ultimately show ?thesis
      using Some ne by (intro exI [of _ ?q1]) (auto simp: accounted_def Exists_def blob_by_uuid_def)
  qed
  then obtain q1 where q1: "cluster_members q (u # us) = cluster_members q1 us" "accounted q1 u" "extends q q1"
      "rows_known q1" "set (t_unclustered q1) \<subseteq> set (t_unclustered q)" by blast
  from Cons.IH [OF q1(4)] Cons.prems(2)
  obtain q2 where q2: "cluster_members q1 us = (q2, Ok ())" "\<forall>u \<in> set us. accounted q2 u"
      "set (t_unclustered q2) \<subseteq> set (t_unclustered q1)" "extends q1 q2" "rows_known q2" by auto
  have "accounted q2 u" using accounted_extends [OF q1(2) q2(4,3)] .
  with q1 q2 extends_trans [OF q1(3) q2(4)] show ?case by auto
qed simp

text \<open>
  Crosslinking a cluster succeeds and accounts for every member: each hash it lists has a row
  afterwards, a phantom where the content has not arrived, and no row of a member is left in
  the unclustered table; nothing is added to that table and no content changes.
\<close>

theorem CrosslinkCluster_accounts_members:
  assumes "r > 0" "rows_known q" "\<forall>u \<in> set (dk_M d). length u \<ge> 40"
  shows "\<exists>q'. CrosslinkCluster q r d = (q', Ok ()) \<and>
     (\<forall>u \<in> set (dk_M d). \<exists>b. blob_by_uuid q' u = Some b \<and> bl_rid b \<notin> set (t_unclustered q')) \<and>
     set (t_unclustered q') \<subseteq> set (t_unclustered q) \<and>
     (\<forall>s c. expands inflate q s c \<longrightarrow> expands inflate q' s c)"
proof -
  let ?q1 = "q\<lparr>t_tagxref := replace_tagxref \<lparr>tx_tagid = 7, tx_tagtype = 1, tx_srcid = r, tx_origid = r, tx_value = None,
                  tx_mtime = 0, tx_rid = r\<rparr> (t_tagxref q)\<rparr>"
  have "rows_known ?q1" using assms(2) by (simp add: rows_known_def blob_by_rid_def)
  from cluster_members_spec [OF this assms(3)]
  obtain q' where q': "cluster_members ?q1 (dk_M d) = (q', Ok ())" "\<forall>u \<in> set (dk_M d). accounted q' u"
      "set (t_unclustered q') \<subseteq> set (t_unclustered q)" "extends ?q1 q'"
    by auto
  have "extends q ?q1" by (rule extends_same) simp_all
  then have "extends q q'" using q'(4) by (rule extends_trans)
  with q' assms(1) show ?thesis
    by (auto simp: CrosslinkCluster_def accounted_def intro: extends_expands)
qed

theorem CrosslinkCluster_accounts_members_witness:
  "\<exists>q' b. CrosslinkCluster (tiny_repo\<lparr>t_unclustered := [1, 2]\<rparr>) 2 (empty_deck\<lparr>dk_M := [replicate 40 CHR ''d'', replicate 40 CHR ''e'']\<rparr>) =
      (q', Ok ()) \<and> blob_by_uuid q' (replicate 40 CHR ''e'') = Some b"
proof -
  have "rows_known (tiny_repo\<lparr>t_unclustered := [1, 2]\<rparr>)"
    by (simp add: rows_known_def tiny_repo_def empty_repo_def blob_by_rid_def)
  from CrosslinkCluster_accounts_members [OF _ this, of 2 "empty_deck\<lparr>dk_M := [replicate 40 CHR ''d'', replicate 40 CHR ''e'']\<rparr>"]
  show ?thesis by (simp add: empty_deck_def) blast
qed

end
