(* ===== verification/Sync_Store.thy ===== *)
theory Sync_Store
  imports Crosslink_Props
begin

text \<open>
  Receiving artifacts (\<open>internal/sync/client.go\<close>: \<open>resolveFileContent\<close>, \<open>storeReceivedFile\<close>),
  the one entry through which the content of a peer reaches the repository, on the client and
  on the server.  The content cache is the nil cache, for which \<open>Cache.Expand\<close> is
  \<open>content.Expand\<close> (the theory on the cache shows that another one returns the same).
\<close>

section \<open>Operations\<close>

datatype sync_error =
    InvalidUUID bytes
  | ErrDeltaSourceMissing bytes
  | SyContent content_error
  | SyDelta delta_error
  | UUIDMismatch bytes bytes
  | SySql sql_error
  | SyBlob blob_error
  | SyCrosslink crosslink_error

definition resolveFileContent :: "libs \<Rightarrow> repo \<Rightarrow> bytes \<Rightarrow> bytes \<Rightarrow> (sync_error, bytes) outcome" where
  "resolveFileContent L q deltaSrc payload =
     (if deltaSrc = [] then Ok payload
      else bind_ok (wrap_err SyBlob (Exists q deltaSrc)) (\<lambda>src.
           case src of
             None \<Rightarrow> Err (ErrDeltaSourceMissing deltaSrc)
           | Some srcRid \<Rightarrow>
               bind_ok (wrap_err SyContent (expand L q srcRid)) (\<lambda>baseContent.
                 wrap_err SyDelta (Apply baseContent payload))))"

text \<open>The hash function that a name of this length stands for.\<close>

definition digest :: "libs \<Rightarrow> bytes \<Rightarrow> bytes \<Rightarrow> bytes" where
  "digest L uuid content = (if length uuid > 40 then l_sha3 L content else l_sha1 L content)"

text \<open>The phantom row becomes a row with content.\<close>

definition fill_phantom :: "libs \<Rightarrow> repo \<Rightarrow> rid \<Rightarrow> bytes \<Rightarrow> repo" where
  "fill_phantom L q r content =
     q\<lparr>t_blob := map (\<lambda>b. if bl_rid b = r then b\<lparr>bl_size := int (length content),
                              bl_content := Some (Compress (l_deflate L) content), bl_rcvid := 1\<rparr> else b) (t_blob q),
       t_phantom := filter ((\<noteq>) r) (t_phantom q),
       t_unclustered := insert_key r (t_unclustered q)\<rparr>"

definition insert_received :: "libs \<Rightarrow> repo \<Rightarrow> bytes \<Rightarrow> bytes \<Rightarrow> repo \<times> (sync_error, unit) outcome" where
  "insert_received L q uuid content =
     (case insert_blob q uuid (int (length content)) (Some (Compress (l_deflate L) content)) 1 of
        Err e \<Rightarrow> (q, Err (SySql e))
      | Panic s \<Rightarrow> (q, Panic s)
      | Ok (q1, r) \<Rightarrow>
          let q2 = mark_unclustered q1 r in
          (case Parse (l_md5 L) content of
             Panic s \<Rightarrow> (q2, Panic s)
           | Err e \<Rightarrow> (q2, Ok ())
           | Ok d \<Rightarrow>
               if dk_Type d = ArtifactType.Cluster
               then (case CrosslinkCluster q2 r d of
                       (q3, Ok _) \<Rightarrow> (q3, Ok ())
                     | (q3, Err e) \<Rightarrow> (q3, Err (SyCrosslink e))
                     | (q3, Panic s) \<Rightarrow> (q3, Panic s))
               else (q2, Ok ())))"

definition storeReceived_tx :: "libs \<Rightarrow> repo \<Rightarrow> bytes \<Rightarrow> bytes \<Rightarrow> repo \<times> (sync_error, unit) outcome" where
  "storeReceived_tx L q uuid content =
     (case blob_by_uuid q uuid of
        Some b \<Rightarrow> if bl_size b \<noteq> - 1 then (q, Ok ()) else (fill_phantom L q (bl_rid b) content, Ok ())
      | None \<Rightarrow> insert_received L q uuid content)"

definition storeReceivedFile :: "libs \<Rightarrow> repo \<Rightarrow> bytes \<Rightarrow> bytes \<Rightarrow> bytes \<Rightarrow> repo \<times> (sync_error, unit) outcome" where
  "storeReceivedFile L q uuid deltaSrc payload =
     (if uuid = [] then (q, Panic ''storeReceivedFile: uuid must not be empty'')
      else if IsValidHash uuid \<noteq> Ok True then (q, Err (InvalidUUID uuid))
      else case resolveFileContent L q deltaSrc payload of
             Err e \<Rightarrow> (q, Err e)
           | Panic s \<Rightarrow> (q, Panic s)
           | Ok fullContent \<Rightarrow>
               if digest L uuid fullContent \<noteq> uuid then (q, Err (UUIDMismatch uuid (digest L uuid fullContent)))
               else with_tx q (storeReceived_tx L q uuid fullContent))"

section \<open>Authentic repositories\<close>

text \<open>
  Every row with content expands to content of its name, and phantoms carry no delta.  The
  second part makes the content stored into a phantom row its expansion.
\<close>

definition authentic :: "libs \<Rightarrow> repo \<Rightarrow> bool" where
  "authentic L q \<longleftrightarrow>
     (\<forall>b \<in> set (t_blob q). bl_size b \<noteq> - 1 \<longrightarrow>
        (\<exists>c. expands (l_inflate L) q (bl_rid b) c \<and> digest L (bl_uuid b) c = bl_uuid b)) \<and>
     (\<forall>b \<in> set (t_blob q). bl_size b = - 1 \<longrightarrow> delta_src q (bl_rid b) = None)"

lemma find_distinct_key: "distinct (map k xs) \<Longrightarrow> x \<in> set xs \<Longrightarrow> find (\<lambda>y. k y = k x) xs = Some x"
  by (induction xs) auto

lemma blob_by_rid_member: "wf_repo q \<Longrightarrow> b \<in> set (t_blob q) \<Longrightarrow> blob_by_rid q (bl_rid b) = Some b"
  by (simp add: wf_repo_def blob_by_rid_def find_distinct_key)

lemma blob_by_uuid_member: "wf_repo q \<Longrightarrow> b \<in> set (t_blob q) \<Longrightarrow> blob_by_uuid q (bl_uuid b) = Some b"
  by (simp add: wf_repo_def blob_by_uuid_def find_distinct_key)

text \<open>Expansion reads rows with content only.\<close>

lemma expands_keep:
  assumes "expands inflate q s c"
    and keep: "\<And>x b. blob_by_rid q x = Some b \<Longrightarrow> bl_size b \<noteq> - 1 \<Longrightarrow> blob_by_rid q' x = Some b \<and> delta_src q' x = delta_src q x"
  shows "expands inflate q' s c"
proof -
  have load: "Load inflate False q' x = Ok v \<and> delta_src q' x = delta_src q x" if ld: "Load inflate False q x = Ok v" for x v
  proof -
    from ld obtain b where b: "blob_by_rid q x = Some b" "bl_size b \<noteq> - 1"
      by (auto simp: Load_def split: if_splits option.splits)
    from keep [OF b] b ld show ?thesis using Load_cong [of q' x q inflate False] by simp
  qed
  from assms(1) show ?thesis
  proof (induction rule: expands.induct)
    case (expands_root s c)
    with load show ?case by (auto intro!: expands.expands_root)
  next
    case (expands_delta t s c d c')
    then show ?case using load by (auto intro!: expands.expands_delta [of q' t s])
  qed
qed

text \<open>What a step may do to the blobs: content that is there stays, names and rows too.\<close>

definition keeps :: "libs \<Rightarrow> repo \<Rightarrow> repo \<Rightarrow> bool" where
  "keeps L q q' \<longleftrightarrow>
     (\<forall>s c. expands (l_inflate L) q s c \<longrightarrow> expands (l_inflate L) q' s c) \<and>
     (\<forall>u. map_option bl_rid (blob_by_uuid q u) \<noteq> None \<longrightarrow> map_option bl_rid (blob_by_uuid q' u) = map_option bl_rid (blob_by_uuid q u)) \<and>
     (wf_repo q \<and> authentic L q \<longrightarrow> wf_repo q' \<and> authentic L q')"

lemma keeps_refl [simp]: "keeps L q q"
  by (simp add: keeps_def)

lemma keeps_trans [trans]: "keeps L q q1 \<Longrightarrow> keeps L q1 q2 \<Longrightarrow> keeps L q q2"
  unfolding keeps_def by metis

lemma keeps_grows:
  assumes "grows q q'"
  shows "keeps L q q'"
proof -
  have ext: "extends q q'" and dl: "t_delta q' = t_delta q" and wf: "wf_repo q \<Longrightarrow> wf_repo q'"
    and new: "\<And>b. b \<in> set (t_blob q') \<Longrightarrow> b \<in> set (t_blob q) \<or> bl_size b = - 1"
    using assms by (auto simp: grows_def)
  note keep = extends_expands [OF _ ext]
  have src: "delta_src q' s = delta_src q s" for s using dl by (simp add: delta_src_def)
  have names: "map_option bl_rid (blob_by_uuid q' u) = map_option bl_rid (blob_by_uuid q u)"
    if "map_option bl_rid (blob_by_uuid q u) \<noteq> None" for u
    using that ext by (auto simp: extends_def)
  have "authentic L q'" if "wf_repo q" "authentic L q"
    unfolding authentic_def
  proof (intro conjI ballI impI)
    fix b assume b: "b \<in> set (t_blob q')" "bl_size b \<noteq> - 1"
    with new that(2) show "\<exists>c. expands (l_inflate L) q' (bl_rid b) c \<and> digest L (bl_uuid b) c = bl_uuid b"
      unfolding authentic_def using keep by blast
  next
    fix b assume b: "b \<in> set (t_blob q')" "bl_size b = - 1"
    show "delta_src q' (bl_rid b) = None"
    proof (cases "b \<in> set (t_blob q)")
      case True
      with b that(2) src show ?thesis by (simp add: authentic_def)
    next
      case False
      have "blob_by_rid q (bl_rid b) = None"
      proof (rule ccontr)
        assume "blob_by_rid q (bl_rid b) \<noteq> None"
        then obtain b' where b': "blob_by_rid q (bl_rid b) = Some b'" by blast
        then have "blob_by_rid q' (bl_rid b) = Some b'" "b' \<in> set (t_blob q)"
          using ext by (auto simp: extends_def blob_by_rid_def find_Some_iff)
        moreover have "blob_by_rid q' (bl_rid b) = Some b"
          using blob_by_rid_member [OF wf [OF that(1)] b(1)] .
        ultimately show False using False by simp
      qed
      from delta_row_has_blob [OF that(1) this] src show ?thesis by simp
    qed
  qed
  with keep names wf show ?thesis unfolding keeps_def by blast
qed

text \<open>The content of a received file fits the 32-bit size field of the compressed form.\<close>

definition small_file :: "bytes \<Rightarrow> bytes \<Rightarrow> bool" where
  "small_file deltaSrc payload \<longleftrightarrow>
     (if deltaSrc = [] then length payload < 2 ^ 32 else \<forall>b c. Apply b payload = Ok c \<longrightarrow> length c < 2 ^ 32)"

lemma resolve_small: "small_file deltaSrc payload \<Longrightarrow> resolveFileContent L q deltaSrc payload = Ok c \<Longrightarrow> length c < 2 ^ 32"
  by (auto simp: resolveFileContent_def small_file_def bind_ok_eq_Ok split: if_splits option.splits)

lemma fill_phantom_row:
  "blob_by_rid (fill_phantom L q r content) s =
     map_option (\<lambda>b. if bl_rid b = r then b\<lparr>bl_size := int (length content),
        bl_content := Some (Compress (l_deflate L) content), bl_rcvid := 1\<rparr> else b) (blob_by_rid q s)"
  unfolding blob_by_rid_def by (simp add: fill_phantom_def) (rule find_map_update, simp)

lemma fill_phantom_uuid:
  "blob_by_uuid (fill_phantom L q r content) u =
     map_option (\<lambda>b. if bl_rid b = r then b\<lparr>bl_size := int (length content),
        bl_content := Some (Compress (l_deflate L) content), bl_rcvid := 1\<rparr> else b) (blob_by_uuid q u)"
  unfolding blob_by_uuid_def by (simp add: fill_phantom_def) (rule find_map_update, simp)

lemma fill_phantom_spec:
  assumes "zlib_writer (l_deflate L) (l_inflate L)" "length content < 2 ^ 32"
    and "wf_repo q" "blob_by_uuid q uuid = Some b" "bl_size b = - 1" "digest L uuid content = uuid"
  shows "keeps L q (fill_phantom L q (bl_rid b) content)"
    and "authentic L q \<Longrightarrow> holds L (fill_phantom L q (bl_rid b) content) uuid content"
proof -
  let ?q' = "fill_phantom L q (bl_rid b) content"
  have b: "b \<in> set (t_blob q)" "bl_uuid b = uuid" using blob_by_uuid_Some [OF assms(4)] by auto
  have row: "blob_by_rid q (bl_rid b) = Some b" using blob_by_rid_member [OF assms(3) b(1)] .
  have pos: "bl_rid b > 0" using assms(3) b(1) by (auto simp: wf_repo_def list_all_iff)
  have src: "delta_src ?q' s = delta_src q s" for s by (simp add: fill_phantom_def delta_src_def)
  have keep: "expands (l_inflate L) ?q' s c" if "expands (l_inflate L) q s c" for s c
  proof (rule expands_keep [OF that])
    fix x b' assume x: "blob_by_rid q x = Some b'" "bl_size b' \<noteq> - 1"
    then have "x \<noteq> bl_rid b" using row assms(5) by auto
    moreover have "bl_rid b' = x" using blob_by_rid_Some [OF x(1)] by simp
    ultimately show "blob_by_rid ?q' x = Some b' \<and> delta_src ?q' x = delta_src q x" using x(1) src by (simp add: fill_phantom_row)
  qed
  have load: "Load (l_inflate L) False ?q' (bl_rid b) = Ok content"
    by (rule Load_compressed [OF assms(1) pos _ _ _ assms(2), of _ "b\<lparr>bl_size := int (length content),
          bl_content := Some (Compress (l_deflate L) content), bl_rcvid := 1\<rparr>"]) (simp_all add: fill_phantom_row row)
  have new: "expands (l_inflate L) ?q' (bl_rid b) content" if "authentic L q"
    using that b(1) assms(5) load src by (intro expands.expands_root) (auto simp: authentic_def)
  have wf: "wf_repo ?q'"
  proof -
    have keys: "map bl_rid (t_blob ?q') = map bl_rid (t_blob q)" "map bl_uuid (t_blob ?q') = map bl_uuid (t_blob q)"
      by (simp_all add: fill_phantom_def)
    then have "bl_rid ` set (t_blob ?q') = bl_rid ` set (t_blob q)" "bl_uuid ` set (t_blob ?q') = bl_uuid ` set (t_blob q)"
      by (metis set_map)+
    moreover have "list_all (\<lambda>b. bl_rid b > 0 \<and> length (bl_uuid b) \<ge> 40) (t_blob ?q')"
      using assms(3) by (auto simp: wf_repo_def list_all_iff fill_phantom_def)
    ultimately show ?thesis using assms(3) keys by (simp add: wf_repo_def) (simp add: fill_phantom_def)
  qed
  have auth: "authentic L ?q'" if a: "authentic L q"
    unfolding authentic_def
  proof (intro conjI ballI impI)
    fix x assume x: "x \<in> set (t_blob ?q')" "bl_size x \<noteq> - 1"
    show "\<exists>c. expands (l_inflate L) ?q' (bl_rid x) c \<and> digest L (bl_uuid x) c = bl_uuid x"
    proof (cases "bl_rid x = bl_rid b")
      case True
      then have "bl_uuid x = uuid" using blob_by_rid_member [OF wf x(1)] row b(2) by (auto simp: fill_phantom_row)
      with new [OF a] True assms(6) show ?thesis by auto
    next
      case False
      with x(1) have "x \<in> set (t_blob q)" by (auto simp: fill_phantom_def split: if_splits)
      with a x(2) keep show ?thesis unfolding authentic_def by blast
    qed
  next
    fix x assume "x \<in> set (t_blob ?q')" "bl_size x = - 1"
    with a src show "delta_src ?q' (bl_rid x) = None" by (auto simp: authentic_def fill_phantom_def split: if_splits)
  qed
  show "keeps L q ?q'"
    unfolding keeps_def using keep wf auth by (auto simp: fill_phantom_uuid)
  show "holds L ?q' uuid content" if "authentic L q"
    using new [OF that] pos assms(4) by (simp add: holds_def fill_phantom_uuid)
qed

lemma keeps_holds: "holds L q u c \<Longrightarrow> keeps L q q' \<Longrightarrow> holds L q' u c"
proof -
  assume h: "holds L q u c" and k: "keeps L q q'"
  then obtain b where b: "blob_by_uuid q u = Some b" "bl_rid b > 0" "expands (l_inflate L) q (bl_rid b) c"
    by (auto simp: holds_def)
  from k b(1) have "map_option bl_rid (blob_by_uuid q' u) = Some (bl_rid b)" by (simp add: keeps_def)
  moreover from k b(3) have "expands (l_inflate L) q' (bl_rid b) c" by (simp add: keeps_def)
  ultimately show ?thesis using b(2) by (auto simp: holds_def)
qed

lemma keeps_same: "t_blob q' = t_blob q \<Longrightarrow> t_delta q' = t_delta q \<Longrightarrow> keeps L q q'"
  by (intro keeps_grows grows_same)

lemma insert_row_spec:
  assumes "zlib_writer (l_deflate L) (l_inflate L)" "length content < 2 ^ 32" "wf_repo q" "digest L uuid content = uuid"
    and ins: "insert_blob q uuid (int (length content)) (Some (Compress (l_deflate L) content)) 1 = Ok (q1, r)"
  shows "keeps L q q1" "holds L q1 uuid content"
proof -
  note facts = insert_blob_Ok [OF ins]
  have wf: "wf_repo q1" and pos: "r > 0" using insert_blob_wf [OF assms(3) ins] by auto
  have src: "delta_src q1 s = delta_src q s" for s by (subst facts(7)) (simp add: delta_src_def)
  have fresh: "delta_src q r = None" unfolding facts(1) by (rule delta_row_has_blob [OF assms(3) blob_by_rid_next])
  have load: "Load (l_inflate L) False q1 r = Ok content"
    by (rule Load_compressed [OF assms(1) pos facts(2) _ _ assms(2)]) simp_all
  then have new: "expands (l_inflate L) q1 r content" using src fresh by (intro expands.expands_root) simp_all
  have keep: "expands (l_inflate L) q1 s c" if "expands (l_inflate L) q s c" for s c
  proof (rule expands_keep [OF that])
    fix x b assume "blob_by_rid q x = Some b"
    then show "blob_by_rid q1 x = Some b \<and> delta_src q1 x = delta_src q x"
      using facts(4) [of x] facts(1) blob_by_rid_next [of q] src by (cases "x = r") auto
  qed
  have rows: "t_blob q1 = t_blob q @ [\<lparr>bl_rid = r, bl_rcvid = 1, bl_size = int (length content), bl_uuid = uuid,
      bl_content = Some (Compress (l_deflate L) content)\<rparr>]"
    using ins by (auto simp: insert_blob_def Let_def split: if_splits)
  have "authentic L q1" if "authentic L q"
    unfolding authentic_def
  proof (intro conjI ballI impI)
    fix b assume "b \<in> set (t_blob q1)" "bl_size b \<noteq> - 1"
    then consider "b \<in> set (t_blob q)" "bl_size b \<noteq> - 1" | "bl_rid b = r" "bl_uuid b = uuid" by (auto simp: rows)
    then show "\<exists>c. expands (l_inflate L) q1 (bl_rid b) c \<and> digest L (bl_uuid b) c = bl_uuid b"
    proof cases
      case 1
      with that keep show ?thesis unfolding authentic_def by blast
    qed (use new assms(4) in auto)
  next
    fix b assume "b \<in> set (t_blob q1)" "bl_size b = - 1"
    with that src show "delta_src q1 (bl_rid b) = None" by (auto simp: rows authentic_def)
  qed
  moreover have "map_option bl_rid (blob_by_uuid q1 u) = map_option bl_rid (blob_by_uuid q u)"
    if "map_option bl_rid (blob_by_uuid q u) \<noteq> None" for u
    using that facts(5) facts(8) [of u] by (cases "u = uuid") auto
  ultimately show "keeps L q q1" using keep wf unfolding keeps_def by blast
  show "holds L q1 uuid content" using facts(2,3) pos new by (simp add: holds_def)
qed

lemma insert_received_spec:
  assumes "zlib_writer (l_deflate L) (l_inflate L)" "length content < 2 ^ 32" "wf_repo q" "digest L uuid content = uuid"
    and run: "insert_received L q uuid content = (q', Ok ())"
  shows "keeps L q q' \<and> holds L q' uuid content"
proof -
  from run obtain q1 r where ins: "insert_blob q uuid (int (length content)) (Some (Compress (l_deflate L) content)) 1 = Ok (q1, r)"
    by (auto simp: insert_received_def split: outcome.splits)
  note row = insert_row_spec [OF assms(1-4) ins]
  let ?q2 = "mark_unclustered q1 r"
  have q2: "keeps L q ?q2" "holds L ?q2 uuid content"
    using keeps_trans [OF row(1) keeps_same [of ?q2]] keeps_holds [OF row(2) keeps_same [of ?q2]]
    by (simp_all add: mark_unclustered_def)
  have "q' = ?q2 \<or> (\<exists>d. q' = fst (CrosslinkCluster ?q2 r d))"
    using run ins by (auto simp: insert_received_def Let_def split: outcome.splits if_splits prod.splits) (metis fst_conv)
  moreover have "keeps L ?q2 (fst (CrosslinkCluster ?q2 r d))" for d
    using adds_CrosslinkCluster [of "{}" ?q2 r d] by (auto simp: adds_def intro: keeps_grows)
  ultimately show ?thesis using q2 keeps_trans keeps_holds by blast
qed

lemma storeReceivedFile_cases:
  assumes "storeReceivedFile L q uuid deltaSrc payload = (q', res)"
  obtains (stored) c where "res = Ok ()" "resolveFileContent L q deltaSrc payload = Ok c" "digest L uuid c = uuid"
      "IsValidHash uuid = Ok True" "storeReceived_tx L q uuid c = (q', Ok ())"
  | (refused) "q' = q" "res \<noteq> Ok ()"
  using assms
  by (auto simp: storeReceivedFile_def with_tx_def split: if_splits outcome.splits prod.splits)

lemma storeReceived_tx_spec:
  assumes "zlib_writer (l_deflate L) (l_inflate L)" "length c < 2 ^ 32" "wf_repo q" "digest L uuid c = uuid"
    and "storeReceived_tx L q uuid c = (q', Ok ())"
  shows "keeps L q q'" "authentic L q \<Longrightarrow> \<exists>v. holds L q' uuid v \<and> digest L uuid v = uuid"
proof -
  show "keeps L q q'"
    using assms insert_received_spec [OF assms(1-4)] fill_phantom_spec(1) [OF assms(1-3) _ _ assms(4)]
    by (auto simp: storeReceived_tx_def split: option.splits if_splits)
  assume a: "authentic L q"
  show "\<exists>v. holds L q' uuid v \<and> digest L uuid v = uuid"
  proof (cases "blob_by_uuid q uuid")
    case None
    with assms insert_received_spec [OF assms(1-4)] show ?thesis by (auto simp: storeReceived_tx_def)
  next
    case (Some b)
    then have b: "b \<in> set (t_blob q)" "bl_uuid b = uuid" by (auto dest: blob_by_uuid_Some)
    show ?thesis
    proof (cases "bl_size b = - 1")
      case True
      with Some assms(5) fill_phantom_spec(2) [OF assms(1-3) Some True assms(4) a] assms(4) show ?thesis
        by (auto simp: storeReceived_tx_def)
    next
      case False
      with a b obtain v where "expands (l_inflate L) q (bl_rid b) v" "digest L uuid v = uuid" by (auto simp: authentic_def)
      moreover have "bl_rid b > 0" using assms(3) b(1) by (auto simp: wf_repo_def list_all_iff)
      ultimately show ?thesis using Some False assms(5) by (auto simp: storeReceived_tx_def holds_def)
    qed
  qed
qed

lemma keeps_storeReceivedFile:
  assumes "zlib_writer (l_deflate L) (l_inflate L)" "small_file deltaSrc payload" "wf_repo q"
  shows "keeps L q (fst (storeReceivedFile L q uuid deltaSrc payload))"
proof (cases "storeReceivedFile L q uuid deltaSrc payload")
  case (Pair q' res)
  then show ?thesis
  proof (cases rule: storeReceivedFile_cases)
    case (stored c)
    with storeReceived_tx_spec(1) [OF assms(1) resolve_small [OF assms(2) stored(2)] assms(3) stored(3,5)] Pair
    show ?thesis by simp
  qed (simp add: Pair)
qed

end
