(* ===== verification/Table_Sync.thy ===== *)
theory Table_Sync
  imports Repo_Tables Go_Strings
begin

text \<open>
  Synced extension tables (\<open>internal/repo/tablesync.go\<close>): registration, rows keyed by the hash
  of their primary key, tombstones and the catalogue hash.  A Go \<open>map[string]any\<close> is an
  association list with distinct keys.  The JSON decoder, the float conversions of \<open>strconv\<close>
  and, of SQLite, the keyword list and the type affinity of columns are arguments.  SQL is
  modelled by its effect; a row key that is not a column name makes the statement fail (the
  code splices keys into the statement text, so keys of another shape than an identifier are
  outside the model).  Case folding is modelled for ASCII.
\<close>

section \<open>Libraries\<close>

type_synonym xmap = "(bytes \<times> xval) list"

record xlib =
  x_sha1 :: "bytes \<Rightarrow> bytes"
  x_float_int :: "64 word \<Rightarrow> int"
  x_int_float :: "int \<Rightarrow> 64 word"
  x_show_float :: "64 word \<Rightarrow> bytes"
  x_parse_float :: "bytes \<Rightarrow> 64 word option"
  x_keyword :: "bytes \<Rightarrow> bool"
  x_affinity :: "bytes \<Rightarrow> xval \<Rightarrow> xval"
  x_def_of_json :: "bytes \<Rightarrow> TableDef option"
  x_json_of_def :: "TableDef \<Rightarrow> bytes"
  x_row_of_json :: "bytes \<Rightarrow> xmap option option"
  x_json_of_row :: "xmap \<Rightarrow> bytes option"

text \<open>
  \<open>x_row_of_json\<close>: \<open>None\<close> is a decoding error, \<open>Some None\<close> the nil map that the text \<open>null\<close> gives.
  A map lookup \<open>row[k]\<close> gives nil for a missing key.
\<close>

definition xget :: "xmap \<Rightarrow> bytes \<Rightarrow> xval" where
  "xget row k = (case map_of row k of None \<Rightarrow> XNull | Some v \<Rightarrow> v)"

datatype table_error =
    EmptyTableName | BadTableName bytes | ReservedTable bytes | ExtensionPrefix bytes
  | EmptyColumnName | BadColumnName bytes | NoColumns bytes | NoPrimaryKey bytes | BadConflict bytes
  | UnsupportedType bytes
  | TableSql sql_error
  | BadJSON | PKDataMismatch bytes

section \<open>Names\<close>

definition lower_char :: "byte \<Rightarrow> byte" where
  "lower_char c = (if 65 \<le> byte_val c \<and> byte_val c \<le> 90 then char_of (byte_val c + 32) else c)"

definition upper_char :: "byte \<Rightarrow> byte" where
  "upper_char c = (if 97 \<le> byte_val c \<and> byte_val c \<le> 122 then char_of (byte_val c - 32) else c)"

definition name_start :: "byte \<Rightarrow> bool" where
  "name_start c \<longleftrightarrow> 97 \<le> byte_val c \<and> byte_val c \<le> 122 \<or> c = CHR ''_''"

definition name_char :: "byte \<Rightarrow> bool" where
  "name_char c \<longleftrightarrow> name_start c \<or> dec_digit c"

fun valid_name :: "bytes \<Rightarrow> bool" where
  "valid_name [] = False"
| "valid_name (c # cs) = (name_start c \<and> list_all name_char cs)"

definition reservedTables :: "bytes list" where
  "reservedTables = [''blob'', ''delta'', ''event'', ''mlink'', ''unversioned'']"

definition ValidateTableName :: "bytes \<Rightarrow> (table_error, unit) outcome" where
  "ValidateTableName name =
     (if name = [] then Err EmptyTableName
      else if \<not> valid_name name then Err (BadTableName name)
      else if name \<in> set reservedTables then Err (ReservedTable name)
      else if HasPrefix name ''x_'' then Err (ExtensionPrefix name)
      else Ok ())"

definition ValidateColumnName :: "bytes \<Rightarrow> (table_error, unit) outcome" where
  "ValidateColumnName name =
     (if name = [] then Err EmptyColumnName else if \<not> valid_name name then Err (BadColumnName name) else Ok ())"

section \<open>Registration\<close>

definition EnsureSyncSchema :: "repo \<Rightarrow> repo" where
  "EnsureSyncSchema q = q\<lparr>t_sync_schema := Some (case t_sync_schema q of None \<Rightarrow> [] | Some rows \<Rightarrow> rows)\<rparr>"

definition owned_conflict :: "bytes \<Rightarrow> bool" where
  "owned_conflict c \<longleftrightarrow> c = ''owner-write'' \<or> c = ''self-write''"

definition find_xtable :: "repo \<Rightarrow> bytes \<Rightarrow> xtable option" where
  "find_xtable q name = find (\<lambda>t. xt_name t = name) (t_xtable q)"

fun column_types :: "ColumnDef list \<Rightarrow> (table_error, ColumnDef list) outcome" where
  "column_types [] = Ok []"
| "column_types (c # cs) =
     (if map lower_char (cd_Type c) \<in> {''text'', ''integer'', ''real'', ''blob''}
      then bind_ok (column_types cs) (\<lambda>ds. Ok (c\<lparr>cd_Type := map upper_char (cd_Type c)\<rparr> # ds))
      else Err (UnsupportedType (cd_Type c)))"

text \<open>\<open>CREATE TABLE IF NOT EXISTS x_<name>(...)\<close>\<close>

definition create_xtable :: "xlib \<Rightarrow> repo \<Rightarrow> bytes \<Rightarrow> ColumnDef list \<Rightarrow> bool \<Rightarrow> (table_error, repo) outcome" where
  "create_xtable X q name cols owned =
     (if list_ex (\<lambda>c. x_keyword X (cd_Name c)) cols then Err (TableSql BadStatement)
      else if find_xtable q name \<noteq> None then Ok q
      else if \<not> distinct (map cd_Name cols @ [''mtime''] @ (if owned then [''_owner''] else [])) then Err (TableSql BadStatement)
      else Ok (q\<lparr>t_xtable := t_xtable q @ [\<lparr>xt_name = name, xt_cols = cols, xt_owned = owned, xt_rows = []\<rparr>]\<rparr>))"

definition createExtensionTable :: "xlib \<Rightarrow> repo \<Rightarrow> bytes \<Rightarrow> TableDef \<Rightarrow> (table_error, repo) outcome" where
  "createExtensionTable X q name def =
     bind_ok (column_types (td_Columns def)) (\<lambda>cols.
       if \<not> list_ex cd_PK (td_Columns def) then Panic ''createExtensionTable: table must have at least one PK column''
       else create_xtable X q name cols (owned_conflict (td_Conflict def)))"

fun check_columns :: "ColumnDef list \<Rightarrow> (table_error, unit) outcome" where
  "check_columns [] = Ok ()"
| "check_columns (c # cs) = bind_ok (ValidateColumnName (cd_Name c)) (\<lambda>_. check_columns cs)"

definition check_def :: "bytes \<Rightarrow> TableDef \<Rightarrow> (table_error, unit) outcome" where
  "check_def name def =
     bind_ok (ValidateTableName name) (\<lambda>_.
     if length (td_Columns def) = 0 then Err (NoColumns name)
     else bind_ok (check_columns (td_Columns def)) (\<lambda>_.
     if \<not> list_ex cd_PK (td_Columns def) then Err (NoPrimaryKey name)
     else if td_Conflict def \<notin> {''mtime-wins'', ''self-write'', ''owner-write''} then Err (BadConflict (td_Conflict def))
     else Ok ()))"

text \<open>The registry row is written before the table is created, and stays when that fails.\<close>

definition RegisterSyncedTable :: "xlib \<Rightarrow> repo \<Rightarrow> bytes \<Rightarrow> TableDef \<Rightarrow> int \<Rightarrow> repo \<times> (table_error, unit) outcome" where
  "RegisterSyncedTable X q name def mtime =
     (case check_def name def of
        Err e \<Rightarrow> (q, Err e)
      | Panic s \<Rightarrow> (q, Panic s)
      | Ok _ \<Rightarrow>
          (case t_sync_schema q of
             None \<Rightarrow> (q, Err (TableSql NoTable))
           | Some rows \<Rightarrow>
               let q1 = q\<lparr>t_sync_schema := Some (filter (\<lambda>s. sy_name s \<noteq> name) rows @
                            [\<lparr>sy_name = name, sy_def = def, sy_mtime = mtime\<rparr>])\<rparr>
               in (case createExtensionTable X q1 name def of
                     Ok q2 \<Rightarrow> (q2, Ok ())
                   | Err e \<Rightarrow> (q1, Err e)
                   | Panic s \<Rightarrow> (q1, Panic s))))"

definition ListSyncedTables :: "repo \<Rightarrow> (table_error, sync_row list) outcome" where
  "ListSyncedTables q =
     (case t_sync_schema q of None \<Rightarrow> Err (TableSql NoTable) | Some rows \<Rightarrow> Ok (sort_key sy_name rows))"

section \<open>Primary keys\<close>

definition normalizeValue :: "xlib \<Rightarrow> bytes \<Rightarrow> xval \<Rightarrow> (table_error, bytes) outcome" where
  "normalizeValue X colType v =
     (if v = XNull then Panic ''repo.normalizeValue: value must not be nil''
      else if colType = ''integer'' then
        (case v of
           XInt n \<Rightarrow> Ok (show_int n)
         | XReal f \<Rightarrow> Ok (show_int (x_float_int X f))
         | XNumber s \<Rightarrow> (case Atoi s of Some i \<Rightarrow> Ok (show_int i)
                                    | None \<Rightarrow> Panic ''repo.normalizeValue: integer column got non-integer json.Number'')
         | _ \<Rightarrow> Panic ''repo.normalizeValue: integer column got unexpected type'')
      else if colType = ''real'' then
        (case v of
           XReal f \<Rightarrow> Ok (x_show_float X f)
         | XInt n \<Rightarrow> Ok (x_show_float X (x_int_float X n))
         | XNumber s \<Rightarrow> (case x_parse_float X s of Some f \<Rightarrow> Ok (x_show_float X f)
                                    | None \<Rightarrow> Panic ''repo.normalizeValue: real column got non-float json.Number'')
         | _ \<Rightarrow> Panic ''repo.normalizeValue: real column got unexpected type'')
      else if colType = ''text'' then
        (case v of XText s \<Rightarrow> Ok s | _ \<Rightarrow> Panic ''repo.normalizeValue: text column got unexpected type'')
      else if colType = ''blob'' then
        (case v of XBlob s \<Rightarrow> Ok (concat (map hex_byte s)) | _ \<Rightarrow> Panic ''repo.normalizeValue: blob column got unexpected type'')
      else Panic ''repo.normalizeValue: unsupported column type'')"

fun pk_parts :: "xlib \<Rightarrow> xmap \<Rightarrow> ColumnDef list \<Rightarrow> (table_error, bytes list) outcome" where
  "pk_parts X vals [] = Ok []"
| "pk_parts X vals (c # cs) =
     bind_ok (normalizeValue X (cd_Type c) (xget vals (cd_Name c))) (\<lambda>v.
     bind_ok (pk_parts X vals cs) (\<lambda>ps. Ok ((cd_Name c @ ''='' @ v) # ps)))"

definition PKHash :: "xlib \<Rightarrow> ColumnDef list \<Rightarrow> xmap \<Rightarrow> (table_error, bytes) outcome" where
  "PKHash X pkCols pkValues =
     (if pkCols = [] then Panic ''repo.PKHash: pkCols must not be nil''
      else bind_ok (pk_parts X pkValues (sort_key cd_Name pkCols)) (\<lambda>parts. Ok (x_sha1 X (Join parts [CHR 0x00]))))"

definition pk_columns :: "TableDef \<Rightarrow> ColumnDef list" where
  "pk_columns def = filter cd_PK (td_Columns def)"

text \<open>The primary key values of a row and their hash.\<close>

definition pk_values :: "TableDef \<Rightarrow> xmap \<Rightarrow> xmap" where
  "pk_values def row = map (\<lambda>c. (cd_Name c, xget row (cd_Name c))) (pk_columns def)"

definition row_hash :: "xlib \<Rightarrow> TableDef \<Rightarrow> xmap \<Rightarrow> (table_error, bytes) outcome" where
  "row_hash X def row = PKHash X (pk_columns def) (pk_values def row)"

section \<open>Rows\<close>

text \<open>The conversion of an argument by \<open>database/sql\<close> and the driver; nested values have none.\<close>

definition bind_value :: "xval \<Rightarrow> xval option" where
  "bind_value v =
     (case v of XBool b \<Rightarrow> Some (XInt (if b then 1 else 0)) | XNumber s \<Rightarrow> Some (XText s) | XNested \<Rightarrow> None | _ \<Rightarrow> Some v)"

text \<open>
  \<open>INSERT OR REPLACE INTO x_<name>(k1, ..., mtime) VALUES(?, ..., ?)\<close>.  Column names are
  compared without case, the first occurrence of a column counts, a missing column gets its
  default.  A single \<open>INTEGER\<close> key column is the row identifier and takes integers only.
\<close>

definition cell :: "xmap \<Rightarrow> bytes \<Rightarrow> xval \<Rightarrow> xval" where
  "cell row k dflt =
     (case find (\<lambda>(key, v). map lower_char key = k) row of None \<Rightarrow> dflt | Some (_, v) \<Rightarrow> the (bind_value v))"

definition xt_key :: "xtable \<Rightarrow> xrow \<Rightarrow> xval list" where
  "xt_key t r = map (\<lambda>c. xget (xr_vals r) (cd_Name c)) (filter cd_PK (xt_cols t))"

definition new_xrow :: "xlib \<Rightarrow> xtable \<Rightarrow> xmap \<Rightarrow> xrow" where
  "new_xrow X t row =
     \<lparr>xr_vals = map (\<lambda>c. (cd_Name c, x_affinity X (cd_Type c) (cell row (cd_Name c) XNull))) (xt_cols t),
      xr_mtime = x_affinity X ''INTEGER'' (cell row ''mtime'' XNull),
      xr_owner = (if \<not> xt_owned t then XNull
                  else let v = x_affinity X ''TEXT'' (cell row ''_owner'' XNull) in if v = XNull then XText [] else v)\<rparr>"

definition table_columns :: "xtable \<Rightarrow> bytes list" where
  "table_columns t = map cd_Name (xt_cols t) @ [''mtime''] @ (if xt_owned t then [''_owner''] else [])"

definition is_int_val :: "xval \<Rightarrow> bool" where
  "is_int_val v = (case v of XInt _ \<Rightarrow> True | _ \<Rightarrow> False)"

definition rowid_alias :: "xtable \<Rightarrow> bool" where
  "rowid_alias t \<longleftrightarrow> map cd_Type (filter cd_PK (xt_cols t)) = [''INTEGER'']"

definition replace_xrow :: "xlib \<Rightarrow> xtable \<Rightarrow> xmap \<Rightarrow> (sql_error, xtable) outcome" where
  "replace_xrow X t row =
     (if \<not> set (map (map lower_char) (map fst row)) \<subseteq> set (table_columns t) then Err NoColumn
      else if list_ex (\<lambda>(k, v). bind_value v = None) row then Err BadValue
      else let r = new_xrow X t row in
        if XNull \<in> set (xt_key t r) \<or> xr_mtime r = XNull then Err NotNullFailed
        else if rowid_alias t \<and> \<not> list_all is_int_val (xt_key t r) then Err BadValue
        else Ok (t\<lparr>xt_rows := filter (\<lambda>s. xt_key t s \<noteq> xt_key t r) (xt_rows t) @ [r]\<rparr>))"

definition set_xtable :: "repo \<Rightarrow> xtable \<Rightarrow> repo" where
  "set_xtable q t = q\<lparr>t_xtable := map (\<lambda>s. if xt_name s = xt_name t then t else s) (t_xtable q)\<rparr>"

definition UpsertXRow :: "xlib \<Rightarrow> repo \<Rightarrow> bytes \<Rightarrow> xmap \<Rightarrow> int \<Rightarrow> (table_error, repo) outcome" where
  "UpsertXRow X q tableName row mtime =
     (if tableName = [] then Panic ''repo.UpsertXRow: tableName must not be empty''
      else case find_xtable q tableName of
             None \<Rightarrow> Err (TableSql NoTable)
           | Some t \<Rightarrow>
               bind_ok (wrap_err TableSql (replace_xrow X t (sort_key fst row @ [(''mtime'', XInt mtime)]))) (\<lambda>t'.
                 Ok (set_xtable q t')))"

definition int_of_val :: "xval \<Rightarrow> int" where
  "int_of_val v = (case v of XInt n \<Rightarrow> n | _ \<Rightarrow> 0)"

text \<open>The order of rows with equal mtime, which SQL leaves open, is that of the table.\<close>

definition ListXRows :: "repo \<Rightarrow> bytes \<Rightarrow> (table_error, (xmap \<times> int) list) outcome" where
  "ListXRows q tableName =
     (if tableName = [] then Panic ''repo.ListXRows: tableName must not be empty''
      else case find_xtable q tableName of
             None \<Rightarrow> Err (TableSql NoTable)
           | Some t \<Rightarrow>
               if \<not> list_all (\<lambda>r. is_int_val (xr_mtime r)) (xt_rows t)
               then Panic ''interface conversion: interface {} is not int64''
               else Ok (map (\<lambda>r. (xr_vals r, int_of_val (xr_mtime r))) (sort_key (\<lambda>r. int_of_val (xr_mtime r)) (xt_rows t))))"

fun find_hash :: "xlib \<Rightarrow> TableDef \<Rightarrow> bytes \<Rightarrow> (xmap \<times> 'a) list \<Rightarrow> (table_error, (xmap \<times> 'a) option) outcome" where
  "find_hash X def pkHash [] = Ok None"
| "find_hash X def pkHash ((row, x) # rows) =
     bind_ok (row_hash X def row) (\<lambda>computed.
       if computed = pkHash then Ok (Some (row, x)) else find_hash X def pkHash rows)"

definition LookupXRow :: "xlib \<Rightarrow> repo \<Rightarrow> bytes \<Rightarrow> TableDef \<Rightarrow> bytes \<Rightarrow> (table_error, (xmap \<times> int) option) outcome" where
  "LookupXRow X q tableName def pkHash =
     (if tableName = [] then Panic ''repo.LookupXRow: tableName must not be empty''
      else if pkHash = [] then Panic ''repo.LookupXRow: pkHash must not be empty''
      else bind_ok (ListXRows q tableName) (find_hash X def pkHash))"

definition LookupXRowOwner :: "xlib \<Rightarrow> repo \<Rightarrow> bytes \<Rightarrow> TableDef \<Rightarrow> bytes \<Rightarrow> (table_error, bytes) outcome" where
  "LookupXRowOwner X q tableName def pkHash =
     (if tableName = [] then Panic ''repo.LookupXRowOwner: tableName must not be empty''
      else if pkHash = [] then Panic ''repo.LookupXRowOwner: pkHash must not be empty''
      else if \<not> owned_conflict (td_Conflict def) then Ok []
      else case find_xtable q tableName of
             None \<Rightarrow> Err (TableSql NoTable)
           | Some t \<Rightarrow>
               bind_ok (find_hash X def pkHash (map (\<lambda>r. (xr_vals r, xr_owner r)) (xt_rows t))) (\<lambda>found.
                 Ok (case found of Some (_, XText owner) \<Rightarrow> owner | _ \<Rightarrow> [])))"

definition IsTombstone :: "TableDef \<Rightarrow> xmap \<Rightarrow> (table_error, bool) outcome" where
  "IsTombstone def row =
     (if length (td_Columns def) = 0 then Panic ''repo.IsTombstone: def.Columns must not be empty''
      else let valueCols = filter (\<lambda>c. \<not> cd_PK c) (td_Columns def)
           in Ok (list_all (\<lambda>c. xget row (cd_Name c) = XNull) valueCols \<and> valueCols \<noteq> []))"

text \<open>
  \<open>UPDATE x_<name> SET c = NULL, ..., mtime = ? WHERE pk = ? AND ...\<close>: the columns are those of the
  definition, which need not be the ones the table was created with.
\<close>

definition bury_match :: "TableDef \<Rightarrow> xmap \<Rightarrow> xrow \<Rightarrow> bool" where
  "bury_match def row r \<longleftrightarrow> list_all (\<lambda>c. xget (xr_vals r) (cd_Name c) = xget row (cd_Name c)) (pk_columns def)"

definition cleared :: "TableDef \<Rightarrow> bytes \<Rightarrow> bool" where
  "cleared def k \<longleftrightarrow> list_ex (\<lambda>c. \<not> cd_PK c \<and> cd_Name c = k) (td_Columns def)"

definition bury_row :: "TableDef \<Rightarrow> int \<Rightarrow> xrow \<Rightarrow> xrow" where
  "bury_row def mtime r =
     r\<lparr>xr_vals := map (\<lambda>(k, v). (k, if cleared def k then XNull else v)) (xr_vals r), xr_mtime := XInt mtime\<rparr>"

definition bury_xrow :: "TableDef \<Rightarrow> xmap \<Rightarrow> int \<Rightarrow> xtable \<Rightarrow> (sql_error, xtable) outcome" where
  "bury_xrow def row mtime t =
     (if \<not> cd_Name ` set (td_Columns def) \<subseteq> set (table_columns t) then Err NoColumn
      else if list_ex (bury_match def row) (xt_rows t) \<and> list_ex (\<lambda>c. cd_PK c \<and> cleared def (cd_Name c)) (xt_cols t)
      then Err NotNullFailed
      else Ok (t\<lparr>xt_rows := map (\<lambda>r. if bury_match def row r then bury_row def mtime r else r) (xt_rows t)\<rparr>))"

definition DeleteXRowByPKHash :: "xlib \<Rightarrow> repo \<Rightarrow> bytes \<Rightarrow> TableDef \<Rightarrow> bytes \<Rightarrow> int \<Rightarrow> (table_error, repo \<times> bool) outcome" where
  "DeleteXRowByPKHash X q tableName def pkHash mtime =
     (if tableName = [] then Panic ''repo.DeleteXRowByPKHash: tableName must not be empty''
      else if pkHash = [] then Panic ''repo.DeleteXRowByPKHash: pkHash must not be empty''
      else if length (td_Columns def) = 0 then Panic ''repo.DeleteXRowByPKHash: def.Columns must not be empty''
      else bind_ok (LookupXRow X q tableName def pkHash) (\<lambda>found.
           case found of
             None \<Rightarrow> Ok (q, False)
           | Some (row, currentMtime) \<Rightarrow>
               if currentMtime > mtime then Ok (q, False)
               else case find_xtable q tableName of
                      None \<Rightarrow> Err (TableSql NoTable)
                    | Some t \<Rightarrow> bind_ok (wrap_err TableSql (bury_xrow def row mtime t)) (\<lambda>t'. Ok (set_xtable q t', True))))"

fun catalog_entries :: "xlib \<Rightarrow> TableDef \<Rightarrow> (xmap \<times> int) list \<Rightarrow> (table_error, (bytes \<times> int) list) outcome" where
  "catalog_entries X def [] = Ok []"
| "catalog_entries X def ((row, mtime) # rows) =
     bind_ok (IsTombstone def row) (\<lambda>dead.
       if dead then catalog_entries X def rows
       else bind_ok (row_hash X def row) (\<lambda>h. bind_ok (catalog_entries X def rows) (\<lambda>es. Ok ((h, mtime) # es))))"

definition CatalogHash :: "xlib \<Rightarrow> repo \<Rightarrow> bytes \<Rightarrow> TableDef \<Rightarrow> (table_error, bytes) outcome" where
  "CatalogHash X q tableName def =
     bind_ok (ListXRows q tableName) (\<lambda>rows.
     bind_ok (catalog_entries X def rows) (\<lambda>es.
       let result = x_sha1 X (concat (map (\<lambda>(h, m). h @ [SPC] @ show_int m @ [NL]) (sort_key fst es)))
       in if length result \<noteq> 40 then Panic ''repo.CatalogHash: expected 40-char SHA1 hex'' else Ok result))"

section \<open>Rows from a peer (shared by client and server)\<close>

text \<open>Numbers of declared columns become values of their type; a nil map panics.\<close>

definition coerce_number :: "xlib \<Rightarrow> bytes \<Rightarrow> bytes \<Rightarrow> xval" where
  "coerce_number X colType s =
     (if colType = ''integer'' then (case Atoi s of Some i \<Rightarrow> XInt i | None \<Rightarrow> XNumber s)
      else if colType = ''real'' then (case x_parse_float X s of Some f \<Rightarrow> XReal f | None \<Rightarrow> XNumber s)
      else XText s)"

definition coerce_column :: "xlib \<Rightarrow> xmap \<Rightarrow> ColumnDef \<Rightarrow> xmap" where
  "coerce_column X row c =
     map (\<lambda>(k, v). (k, if k = cd_Name c then (case v of XNumber s \<Rightarrow> coerce_number X (cd_Type c) s | _ \<Rightarrow> v) else v)) row"

definition coerceJSONNumbers :: "xlib \<Rightarrow> xmap option \<Rightarrow> TableDef \<Rightarrow> (table_error, xmap) outcome" where
  "coerceJSONNumbers X row def =
     (case row of None \<Rightarrow> Panic ''coerceJSONNumbers: row must not be nil''
                | Some r \<Rightarrow> Ok (foldl (coerce_column X) r (td_Columns def)))"

definition extractPKColumnDefs :: "TableDef \<Rightarrow> (table_error, ColumnDef list) outcome" where
  "extractPKColumnDefs def =
     (if length (td_Columns def) = 0 then Panic ''extractPKColumnDefs: def.Columns must not be empty''
      else Ok (filter cd_PK (td_Columns def)))"

definition applyXDeleteLocally ::
  "xlib \<Rightarrow> repo \<Rightarrow> bytes \<Rightarrow> TableDef \<Rightarrow> bytes \<Rightarrow> int \<Rightarrow> bytes \<Rightarrow> (table_error, repo) outcome" where
  "applyXDeleteLocally X q table def pkHash mtime pkData =
     bind_ok (DeleteXRowByPKHash X q table def pkHash mtime) (\<lambda>(q1, deleted).
       if deleted then Ok q1
       else bind_ok (LookupXRow X q1 table def pkHash) (\<lambda>existing.
         if existing \<noteq> None then Ok q1
         else if pkData = [] then Ok q1
         else case x_row_of_json X pkData of
                None \<Rightarrow> Err BadJSON
              | Some decoded \<Rightarrow>
                  bind_ok (coerceJSONNumbers X decoded def) (\<lambda>pkValues.
                  bind_ok (PKHash X (pk_columns def) pkValues) (\<lambda>computed.
                    if computed \<noteq> pkHash then Err (PKDataMismatch computed)
                    else UpsertXRow X q1 table pkValues mtime))))"

end
