(* ===== verification/Handler_State.thy ===== *)
theory Handler_State
  imports Sync_Store Table_Sync Uv Auth Xfer
begin

text \<open>
  The server side of a sync round (\<open>internal/sync\<close>: \<open>handler.go\<close>, \<open>handler_uv.go\<close>,
  \<open>handler_tablesync.go\<close>, \<open>ckin_lock.go\<close>).  A handler is created for each request, so the state of a
  round is the repository and the record below.  Fault injection is off (\<open>buggify\<close> is nil) and
  the content cache is nil, as \<open>HandleSync\<close> passes them.  The clock, the JSON form of a check-in
  lock and the text of error values are fields of the environment.  Maps are association
  lists, iterated in list order where Go leaves the order open.
\<close>

section \<open>Environment and state\<close>

datatype handler_error =
    HSync sync_error | HContent content_error | HUv uv_error | HTable table_error | HCrosslink crosslink_error

record env =
  e_L :: libs
  e_X :: xlib
  e_unicode :: "bytes \<Rightarrow> bytes"
  e_now :: int
  e_datetime :: "int \<Rightarrow> bytes"
  e_text :: "handler_error \<Rightarrow> bytes"
  e_lock_json :: "bytes \<times> bytes \<times> int \<Rightarrow> bytes"
  e_json_lock :: "bytes \<Rightarrow> (bytes \<times> bytes \<times> int) option"

record handler =
  h_repo :: repo
  h_resp :: "Card list"
  h_pushOK :: bool
  h_pullOK :: bool
  h_cloneMode :: bool
  h_cloneSeq :: int
  h_cloneSnapMax :: int
  h_uvCatalogSent :: bool
  h_reqClusters :: bool
  h_filesSent :: int
  h_filesRecvd :: int
  h_syncPrivate :: bool
  h_nextIsPrivate :: bool
  h_syncedTables :: "(bytes \<times> TableDef \<times> int) list"
  h_xrowsSent :: int
  h_xrowsRecvd :: int
  h_remoteHas :: "(bytes \<times> bool) list"
  h_user :: bytes
  h_caps :: bytes
  h_authed :: bool

definition new_handler :: "repo \<Rightarrow> handler" where
  "new_handler q =
     \<lparr>h_repo = q, h_resp = [], h_pushOK = False, h_pullOK = False, h_cloneMode = False, h_cloneSeq = 0,
      h_cloneSnapMax = 0, h_uvCatalogSent = False, h_reqClusters = False, h_filesSent = 0, h_filesRecvd = 0,
      h_syncPrivate = False, h_nextIsPrivate = False, h_syncedTables = [], h_xrowsSent = 0, h_xrowsRecvd = 0,
      h_remoteHas = [], h_user = [], h_caps = [], h_authed = False\<rparr>"

definition respond :: "handler \<Rightarrow> Card list \<Rightarrow> handler" where
  "respond h cs = h\<lparr>h_resp := h_resp h @ cs\<rparr>"

text \<open>A handler step: the new state beside its outcome.\<close>

type_synonym step = "handler \<times> (handler_error, unit) outcome"

definition done_with :: "handler \<Rightarrow> step" where
  "done_with h = (h, Ok ())"

text \<open>Continue with the value of a call that leaves the repository alone, or stop.\<close>

definition attempt :: "handler \<Rightarrow> ('e \<Rightarrow> handler_error) \<Rightarrow> ('e, 'a) outcome \<Rightarrow> ('a \<Rightarrow> step) \<Rightarrow> step" where
  "attempt h w m f = (case m of Ok x \<Rightarrow> f x | Err e \<Rightarrow> (h, Err (w e)) | Panic s \<Rightarrow> (h, Panic s))"

text \<open>The same where the code answers an error with an error card.\<close>

definition attempt_card :: "env \<Rightarrow> handler \<Rightarrow> bytes \<Rightarrow> ('e \<Rightarrow> handler_error) \<Rightarrow> ('e, 'a) outcome \<Rightarrow> ('a \<Rightarrow> step) \<Rightarrow> step" where
  "attempt_card E h prefix w m f =
     (case m of Ok x \<Rightarrow> f x
              | Err e \<Rightarrow> done_with (respond h [ErrorCard (prefix @ e_text E (w e))])
              | Panic s \<Rightarrow> (h, Panic s))"

definition and_then :: "step \<Rightarrow> (handler \<Rightarrow> step) \<Rightarrow> step" where
  "and_then s f = (case s of (h, Ok _) \<Rightarrow> f h | (h, Err e) \<Rightarrow> (h, Err e) | (h, Panic p) \<Rightarrow> (h, Panic p))"

text \<open>An error becomes an error card.\<close>

definition report_error :: "env \<Rightarrow> bytes \<Rightarrow> step \<Rightarrow> step" where
  "report_error E prefix s =
     (case s of (h, Err e) \<Rightarrow> done_with (respond h [ErrorCard (prefix @ e_text E e)]) | _ \<Rightarrow> s)"

fun each :: "('a \<Rightarrow> handler \<Rightarrow> step) \<Rightarrow> 'a list \<Rightarrow> handler \<Rightarrow> step" where
  "each f [] h = done_with h"
| "each f (x # xs) h = and_then (f x h) (each f xs)"

section \<open>Authentication\<close>

definition initAuth :: "handler \<Rightarrow> handler" where
  "initAuth h =
     h\<lparr>h_user := ''nobody'', h_authed := False,
       h_caps := (case user_row_of (h_repo h) ''nobody'' of None \<Rightarrow> [] | Some u \<Rightarrow> us_cap u)\<rparr>"

definition handleLoginCard :: "env \<Rightarrow> bytes \<Rightarrow> bytes \<Rightarrow> bytes \<Rightarrow> handler \<Rightarrow> step" where
  "handleLoginCard E user nonce signature h =
     (case config_value (h_repo h) ''project-code'' of
        None \<Rightarrow> done_with (respond h [ErrorCard ''authentication failed''])
      | Some projectCode \<Rightarrow>
          (case VerifyLogin (l_sha1 (e_L E)) (e_now E) (h_repo h) projectCode user nonce signature of
             Ok u \<Rightarrow> done_with (h\<lparr>h_user := ur_Login u, h_caps := ur_Cap u, h_authed := True\<rparr>)
           | Err e \<Rightarrow> done_with (respond h [ErrorCard ''authentication failed''])
           | Panic s \<Rightarrow> (h, Panic s)))"

section \<open>Check-in locks (ckin_lock.go)\<close>

definition DefaultCkinLockTimeout :: int where
  "DefaultCkinLockTimeout = 60"

definition lock_prefix :: bytes where
  "lock_prefix = ''libfossil-ci-lock-''"

definition configKey :: "bytes \<Rightarrow> bytes" where
  "configKey parentUUID = lock_prefix @ parentUUID"

text \<open>\<open>name LIKE 'libfossil-ci-lock-%'\<close>, which ignores case.\<close>

definition is_lock :: "bytes \<Rightarrow> bool" where
  "is_lock name \<longleftrightarrow> HasPrefix (map lower_char name) lock_prefix"

text \<open>\<open>strings.TrimPrefix\<close>\<close>

definition lock_uuid :: "bytes \<Rightarrow> bytes" where
  "lock_uuid name = (if HasPrefix name lock_prefix then drop (length lock_prefix) name else name)"

definition lock_leaf :: "repo \<Rightarrow> bytes \<Rightarrow> bool" where
  "lock_leaf q name = (case blob_by_uuid q (lock_uuid name) of None \<Rightarrow> False | Some b \<Rightarrow> bl_rid b \<in> set (t_leaf q))"

definition expireStaleLocks :: "int \<Rightarrow> repo \<Rightarrow> int \<Rightarrow> repo" where
  "expireStaleLocks now q timeout =
     q\<lparr>t_config := filter (\<lambda>c. \<not> is_lock (cg_name c) \<or>
          \<not> (case cg_mtime c of None \<Rightarrow> False | Some m \<Rightarrow> m < now - timeout) \<and> lock_leaf q (cg_name c)) (t_config q)\<rparr>"

text \<open>The holder and the time of a lock that another client has.\<close>

definition processCkinLock :: "env \<Rightarrow> repo \<Rightarrow> bytes \<Rightarrow> bytes \<Rightarrow> bytes \<Rightarrow> int \<Rightarrow> repo \<times> (bytes \<times> int) option" where
  "processCkinLock E q parentUUID clientID user timeout =
     (let now = e_now E div 10 ^ 9;
          q1 = expireStaleLocks now q timeout;
          grant = (replace_config q1 \<lparr>cg_name = configKey parentUUID, cg_value = e_lock_json E (clientID, user, now),
                                      cg_mtime = Some now\<rparr>, None)
      in case config_value q1 (configKey parentUUID) of
           None \<Rightarrow> grant
         | Some raw \<Rightarrow>
             (case e_json_lock E raw of
                None \<Rightarrow> grant
              | Some (holder, login, mtime) \<Rightarrow> if holder \<noteq> clientID then (q1, Some (login, mtime)) else grant))"

section \<open>Unversioned files (handler_uv.go)\<close>

definition handlePragmaUVHash :: "env \<Rightarrow> bytes \<Rightarrow> handler \<Rightarrow> step" where
  "handlePragmaUVHash E clientHash h =
     (if h_uvCatalogSent h then done_with h
      else case ContentHash_uv (l_sha1 (e_L E)) (e_datetime E) (e_now E div 10 ^ 9) (EnsureSchema (h_repo h)) of
             (q1, res) \<Rightarrow>
               let h1 = h\<lparr>h_repo := q1\<rparr> in
               attempt h1 HUv res (\<lambda>localHash.
                 if localHash = clientHash then done_with h1
                 else let h2 = respond (h1\<lparr>h_uvCatalogSent := True\<rparr>) [PragmaCard ''uv-push-ok'' []] in
                   attempt h2 HUv (List q1) (\<lambda>entries.
                     done_with (respond h2 (map (\<lambda>e. UVIGotCard (en_Name e) (en_MTime e)
                        (if en_Hash e = [] then ''-'' else en_Hash e) (en_Size e)) entries)))))"

definition sendUVFile :: "env \<Rightarrow> bytes \<Rightarrow> handler \<Rightarrow> step" where
  "sendUVFile E name h =
     (if name = [] then (h, Panic ''handler.sendUVFile: name must not be empty'')
      else attempt h HUv (Read (l_inflate (e_L E)) (h_repo h) name) (\<lambda>(content, mtime, fileHash).
        done_with (respond h
          [if fileHash = [] then UVFileCard name mtime ''-'' 0 UVFlagDeletion []
           else let c = (case content of None \<Rightarrow> [] | Some c \<Rightarrow> c) in UVFileCard name mtime fileHash (int (length c)) 0 c])))"

text \<open>\<open>UPDATE unversioned SET mtime=? WHERE name=?\<close>\<close>

definition touch_uv :: "repo \<Rightarrow> bytes \<Rightarrow> int \<Rightarrow> repo" where
  "touch_uv q name mtime =
     q\<lparr>t_unversioned := map_option (map (\<lambda>r. if uv_name r = name then r\<lparr>uv_mtime := mtime\<rparr> else r)) (t_unversioned q)\<rparr>"

definition handleUVIGot :: "env \<Rightarrow> bytes \<Rightarrow> int \<Rightarrow> bytes \<Rightarrow> handler \<Rightarrow> step" where
  "handleUVIGot E name mtime hash h =
     (let h1 = h\<lparr>h_repo := EnsureSchema (h_repo h)\<rparr> in
      attempt h1 HUv (Read (l_inflate (e_L E)) (h_repo h1) name) (\<lambda>(_, localMtime, localHash).
        let status = Status localMtime localHash mtime hash in
        if status = 0 \<or> status = 1 then done_with (respond h1 [UVGimmeCard name])
        else if status = 2 then done_with (h1\<lparr>h_repo := InvalidateHash (touch_uv (h_repo h1) name mtime)\<rparr>)
        else if status = 4 \<or> status = 5 then sendUVFile E name h1
        else done_with h1))"

definition handleUVGimme :: "env \<Rightarrow> bytes \<Rightarrow> handler \<Rightarrow> step" where
  "handleUVGimme E name h = sendUVFile E name h"

text \<open>A card has content exactly when its flags do not say that it is left out.\<close>

definition apply_uvfile :: "env \<Rightarrow> bytes \<Rightarrow> int \<Rightarrow> bytes \<Rightarrow> int \<Rightarrow> bytes \<Rightarrow> handler \<Rightarrow> step" where
  "apply_uvfile E name mtime hash flags content h =
     attempt h HUv (Read (l_inflate (e_L E)) (h_repo h) name) (\<lambda>(_, localMtime, localHash).
       if Status localMtime localHash mtime hash \<ge> 2 then done_with h
       else if hash = ''-'' then attempt h HUv (Delete (h_repo h) name mtime) (\<lambda>q. done_with (h\<lparr>h_repo := q\<rparr>))
       else if \<not> uvFileOmitsContent flags
       then attempt h HUv (Write (l_sha1 (e_L E)) (l_sha3 (e_L E)) (l_deflate (e_L E)) (h_repo h) name content mtime)
              (\<lambda>q. done_with (h\<lparr>h_repo := q\<rparr>))
       else done_with h)"

definition handleUVFile :: "env \<Rightarrow> bytes \<Rightarrow> int \<Rightarrow> bytes \<Rightarrow> int \<Rightarrow> bytes \<Rightarrow> handler \<Rightarrow> step" where
  "handleUVFile E name mtime hash flags content h =
     (if \<not> CanPushUV (h_caps h) then done_with (respond h [ErrorCard (''uvfile '' @ name @ '' denied: insufficient capabilities'')])
      else if \<not> h_pushOK h then done_with (respond h [ErrorCard (''uvfile '' @ name @ '' rejected: no push card'')])
      else let h1 = h\<lparr>h_repo := EnsureSchema (h_repo h)\<rparr> in
        if flags AND UVFlagNoPayload = 0
        then (case ContentHash (l_sha1 (e_L E)) (l_sha3 (e_L E)) content hash of
                Panic s \<Rightarrow> (h1, Panic s)
              | Err e \<Rightarrow> (h1, Err (HUv (UvHash e)))
              | Ok computed \<Rightarrow>
                  if computed \<noteq> hash then done_with (respond h1 [ErrorCard (''uvfile '' @ name @ '': hash mismatch'')])
                  else apply_uvfile E name mtime hash flags content h1)
        else apply_uvfile E name mtime hash flags content h1)"

end
