(* ===== verification/Handler_Tables.thy ===== *)
theory Handler_Tables
  imports Handler_State
begin

text \<open>
  Synced tables on the server (\<open>internal/sync/handler_tablesync.go\<close>): the table cache of a
  request, schema cards, catalogue hashes, row announcements, requests, rows and deletions.
\<close>

section \<open>The cache of table definitions\<close>

definition synced :: "handler \<Rightarrow> bytes \<Rightarrow> (TableDef \<times> int) option" where
  "synced h table = map_of (h_syncedTables h) table"

definition cache_table :: "bytes \<Rightarrow> TableDef \<Rightarrow> int \<Rightarrow> handler \<Rightarrow> handler" where
  "cache_table table def mtime h =
     h\<lparr>h_syncedTables := filter (\<lambda>(n, _). n \<noteq> table) (h_syncedTables h) @ [(table, def, mtime)]\<rparr>"

definition loadSyncedTables :: "handler \<Rightarrow> step" where
  "loadSyncedTables h =
     (let h1 = h\<lparr>h_repo := EnsureSyncSchema (h_repo h)\<rparr> in
      attempt h1 HTable (ListSyncedTables (h_repo h1)) (\<lambda>tables.
        done_with (h1\<lparr>h_syncedTables := map (\<lambda>s. (sy_name s, sy_def s, sy_mtime s)) tables\<rparr>)))"

definition handleSchemaCard :: "env \<Rightarrow> bytes \<Rightarrow> int \<Rightarrow> bytes \<Rightarrow> handler \<Rightarrow> step" where
  "handleSchemaCard E table mtime content h =
     attempt_card E h (''schema '' @ table @ '': '') HTable (ValidateTableName table) (\<lambda>_.
       case x_def_of_json (e_X E) content of
         None \<Rightarrow> done_with (respond h [ErrorCard (''schema '' @ table @ '': unmarshal: '' @ e_text E (HTable BadJSON))])
       | Some def \<Rightarrow>
           (case RegisterSyncedTable (e_X E) (h_repo h) table def mtime of
              (q1, res) \<Rightarrow>
                let h1 = h\<lparr>h_repo := q1\<rparr> in
                attempt_card E h1 (''schema '' @ table @ '': register: '') HTable res (\<lambda>_. done_with (cache_table table def mtime h1))))"

section \<open>Rows out\<close>

definition extractPKColumns :: "TableDef \<Rightarrow> (table_error, bytes list) outcome" where
  "extractPKColumns def =
     (if length (td_Columns def) = 0 then Panic ''extractPKColumns: def.Columns must not be empty''
      else Ok (map cd_Name (filter cd_PK (td_Columns def))))"

text \<open>The key values of a row and their hash, as every handler computes them.\<close>

definition checked_hash :: "xlib \<Rightarrow> TableDef \<Rightarrow> xmap \<Rightarrow> (table_error, bytes) outcome" where
  "checked_hash X def row =
     bind_ok (extractPKColumns def) (\<lambda>pkCols.
     bind_ok (extractPKColumnDefs def) (\<lambda>pkColDefs. PKHash X pkColDefs (map (\<lambda>c. (c, xget row c)) pkCols)))"

definition emitXIGotsForTable :: "env \<Rightarrow> bytes \<Rightarrow> TableDef \<Rightarrow> handler \<Rightarrow> step" where
  "emitXIGotsForTable E table def h =
     (if table = [] then (h, Panic ''handler.emitXIGotsForTable: table must not be empty'')
      else attempt h HTable (ListXRows (h_repo h) table) (\<lambda>rows.
           attempt h HTable (extractPKColumns def) (\<lambda>_.
             each (\<lambda>(row, mtime) h. attempt h HTable (checked_hash (e_X E) def row) (\<lambda>pkHash.
                     done_with (respond h [XIGotCard table pkHash mtime]))) rows h)))"

definition emitXIGots :: "env \<Rightarrow> handler \<Rightarrow> step" where
  "emitXIGots E h =
     each (\<lambda>(name, def, mtime) h.
       let defJSON = x_json_of_def (e_X E) def in
       emitXIGotsForTable E name def (respond h [SchemaCard name 1 (l_sha1 (e_L E) defJSON) mtime defJSON]))
       (h_syncedTables h) h"

definition handlePragmaXTableHash :: "env \<Rightarrow> bytes \<Rightarrow> bytes \<Rightarrow> handler \<Rightarrow> step" where
  "handlePragmaXTableHash E table clientHash h =
     (case synced h table of
        None \<Rightarrow> done_with h
      | Some (def, _) \<Rightarrow>
          attempt_card E h (''xtable-hash '' @ table @ '': '') HTable (CatalogHash (e_X E) (h_repo h) table def) (\<lambda>localHash.
            if localHash = clientHash then done_with h
            else report_error E (''xtable-hash '' @ table @ '': emit xigots: '') (emitXIGotsForTable E table def h)))"

definition sendXRow :: "env \<Rightarrow> bytes \<Rightarrow> TableDef \<Rightarrow> bytes \<Rightarrow> handler \<Rightarrow> step" where
  "sendXRow E table def pkHash h =
     (if pkHash = [] then (h, Panic ''handler.sendXRow: pkHash must not be empty'')
      else attempt h HTable (LookupXRow (e_X E) (h_repo h) table def pkHash) (\<lambda>found.
        case found of
          None \<Rightarrow> done_with h
        | Some (row, mtime) \<Rightarrow>
            (case x_json_of_row (e_X E) row of
               None \<Rightarrow> (h, Err (HTable BadJSON))
             | Some rowJSON \<Rightarrow>
                 done_with ((respond h [XRowCard table pkHash mtime rowJSON])\<lparr>h_xrowsSent := h_xrowsSent h + 1\<rparr>))))"

definition sendXDelete :: "env \<Rightarrow> bytes \<Rightarrow> TableDef \<Rightarrow> bytes \<Rightarrow> int \<Rightarrow> xmap \<Rightarrow> handler \<Rightarrow> step" where
  "sendXDelete E table def pkHash mtime row h =
     (if pkHash = [] then (h, Panic ''handler.sendXDelete: pkHash must not be empty'')
      else attempt h HTable (extractPKColumns def) (\<lambda>pkCols.
        done_with (respond h
          [case x_json_of_row (e_X E) (map (\<lambda>c. (c, xget row c)) pkCols) of
             None \<Rightarrow> ErrorCard (''xdelete '' @ table @ ''/'' @ pkHash @ '': marshal PKData: '' @ e_text E (HTable BadJSON))
           | Some pkData \<Rightarrow> XDeleteCard table pkHash mtime pkData])))"

section \<open>Announcements and requests\<close>

definition handleXIGot :: "env \<Rightarrow> bytes \<Rightarrow> bytes \<Rightarrow> int \<Rightarrow> handler \<Rightarrow> step" where
  "handleXIGot E table pkHash mtime h =
     (if \<not> h_pullOK h then done_with h
      else case synced h table of
        None \<Rightarrow> done_with h
      | Some (def, _) \<Rightarrow>
          attempt h HTable (LookupXRow (e_X E) (h_repo h) table def pkHash) (\<lambda>found.
            case found of
              None \<Rightarrow> done_with (respond h [XGimmeCard table pkHash])
            | Some (localRow, localMtime) \<Rightarrow>
                if localMtime > mtime
                then attempt h HTable (IsTombstone def localRow) (\<lambda>dead.
                       if dead then sendXDelete E table def pkHash localMtime localRow h
                       else sendXRow E table def pkHash h)
                else done_with h))"

definition handleXGimme :: "env \<Rightarrow> bytes \<Rightarrow> bytes \<Rightarrow> handler \<Rightarrow> step" where
  "handleXGimme E table pkHash h =
     (case synced h table of None \<Rightarrow> done_with h | Some (def, _) \<Rightarrow> sendXRow E table def pkHash h)"

section \<open>Rows in\<close>

text \<open>\<open>Ok None\<close>: an error card has been written.\<close>

definition verifyXRowPKHash ::
  "env \<Rightarrow> bytes \<Rightarrow> bytes \<Rightarrow> bytes \<Rightarrow> TableDef \<Rightarrow> handler \<Rightarrow> handler \<times> (handler_error, xmap option) outcome" where
  "verifyXRowPKHash E table pkHash content def h =
     (case x_row_of_json (e_X E) content of
        None \<Rightarrow> (respond h [ErrorCard (''xrow '' @ table @ ''/'' @ pkHash @ '': unmarshal: '' @ e_text E (HTable BadJSON))], Ok None)
      | Some decoded \<Rightarrow>
          (case bind_ok (coerceJSONNumbers (e_X E) decoded def) (\<lambda>row.
                bind_ok (checked_hash (e_X E) def row) (\<lambda>computed. Ok (row, computed))) of
             Ok (row, computedPK) \<Rightarrow>
               if computedPK \<noteq> pkHash
               then (respond h [ErrorCard (''xrow '' @ table @ ''/'' @ pkHash @ '': pk hash mismatch'')], Ok None)
               else (h, Ok (Some row))
           | Err e \<Rightarrow> (h, Err (HTable e))
           | Panic s \<Rightarrow> (h, Panic s)))"

text \<open>\<open>row["_owner"] = user\<close>; the result of a rejected row is \<open>None\<close>.\<close>

definition set_owner :: "bytes \<Rightarrow> xmap \<Rightarrow> xmap" where
  "set_owner user row = (if user \<noteq> [] then filter (\<lambda>(k, _). k \<noteq> ''_owner'') row @ [(''_owner'', XText user)] else row)"

definition row_owner :: "xmap \<Rightarrow> bytes" where
  "row_owner row = (case xget row ''_owner'' of XText s \<Rightarrow> s | _ \<Rightarrow> [])"

definition resolveXRowConflict ::
  "env \<Rightarrow> repo \<Rightarrow> bytes \<Rightarrow> bytes \<Rightarrow> bytes \<Rightarrow> int \<Rightarrow> TableDef \<Rightarrow> xmap \<Rightarrow> (table_error, xmap option) outcome" where
  "resolveXRowConflict E q user table pkHash mtime def row =
     bind_ok (LookupXRow (e_X E) q table def pkHash) (\<lambda>found.
       Ok (if td_Conflict def = ''mtime-wins'' then
             (case found of Some (_, localMtime) \<Rightarrow> if localMtime > mtime then None else Some row | None \<Rightarrow> Some row)
           else if td_Conflict def = ''self-write'' then
             (case found of
                Some (localRow, _) \<Rightarrow>
                  if row_owner localRow \<noteq> [] \<and> row_owner localRow \<noteq> user then None else Some (set_owner user row)
              | None \<Rightarrow> Some (set_owner user row))
           else if td_Conflict def = ''owner-write'' then
             (case found of
                Some (localRow, _) \<Rightarrow> if row_owner localRow \<noteq> user then None else Some (set_owner user row)
              | None \<Rightarrow> Some (set_owner user row))
           else Some row))"

definition handleXRow :: "env \<Rightarrow> bytes \<Rightarrow> bytes \<Rightarrow> int \<Rightarrow> bytes \<Rightarrow> handler \<Rightarrow> step" where
  "handleXRow E table pkHash mtime content h =
     (if \<not> h_pushOK h
      then done_with (respond h [ErrorCard (''xrow '' @ table @ ''/'' @ pkHash @ '' rejected: no push card'')])
      else case synced h table of
        None \<Rightarrow> done_with h
      | Some (def, _) \<Rightarrow>
          (case verifyXRowPKHash E table pkHash content def h of
             (h1, Err e) \<Rightarrow> (h1, Err e)
           | (h1, Panic s) \<Rightarrow> (h1, Panic s)
           | (h1, Ok None) \<Rightarrow> done_with h1
           | (h1, Ok (Some row)) \<Rightarrow>
               attempt h1 HTable (resolveXRowConflict E (h_repo h1) (h_user h1) table pkHash mtime def row) (\<lambda>accepted.
                 case accepted of
                   None \<Rightarrow> done_with h1
                 | Some row' \<Rightarrow>
                     attempt h1 HTable (UpsertXRow (e_X E) (h_repo h1) table row' mtime) (\<lambda>q.
                       done_with (h1\<lparr>h_repo := q, h_xrowsRecvd := h_xrowsRecvd h1 + 1\<rparr>)))))"

definition handleXDelete :: "env \<Rightarrow> bytes \<Rightarrow> bytes \<Rightarrow> int \<Rightarrow> bytes \<Rightarrow> handler \<Rightarrow> step" where
  "handleXDelete E table pkHash mtime pkData h =
     (if \<not> h_pushOK h
      then done_with (respond h [ErrorCard (''xdelete '' @ table @ ''/'' @ pkHash @ '' rejected: no push card'')])
      else case synced h table of
        None \<Rightarrow> done_with h
      | Some (def, _) \<Rightarrow>
          attempt h HTable
            (if td_Conflict def = ''self-write'' \<or> td_Conflict def = ''owner-write''
             then LookupXRowOwner (e_X E) (h_repo h) table def pkHash else Ok []) (\<lambda>localOwner.
            if localOwner \<noteq> [] \<and> localOwner \<noteq> h_user h then done_with h
            else attempt h HTable (applyXDeleteLocally (e_X E) (h_repo h) table def pkHash mtime pkData) (\<lambda>q.
                   done_with (h\<lparr>h_repo := q\<rparr>))))"

end
