(* ===== verification/Handler.thy ===== *)
theory Handler
  imports Handler_Tables
begin

text \<open>
  The round of the server (\<open>internal/sync/handler.go\<close>): control cards, data cards, announcements,
  clone batches and \<open>HandleSync\<close>.
\<close>

section \<open>Control cards\<close>

definition DefaultCloneBatchSize :: nat where "DefaultCloneBatchSize = 200"

definition cloneCapPrefix :: bytes where "cloneCapPrefix = ''lf-clone-cap:''"

definition parseCloneCap :: "bytes \<Rightarrow> int option" where
  "parseCloneCap v =
     (if \<not> HasPrefix v cloneCapPrefix then None
      else case Atoi (drop (length cloneCapPrefix) v) of
             None \<Rightarrow> None
           | Some r \<Rightarrow> if r < 0 then None else Some r)"

definition handlePragma :: "env \<Rightarrow> bytes \<Rightarrow> bytes list \<Rightarrow> handler \<Rightarrow> step" where
  "handlePragma E name values h =
     (if name = ''uv-hash'' \<and> length values \<ge> 1
      then report_error E ''uv-hash: '' (handlePragmaUVHash E (values ! 0) h)
      else if name = ''xtable-hash'' \<and> length values \<ge> 2 then handlePragmaXTableHash E (values ! 0) (values ! 1) h
      else if name = ''req-clusters'' then done_with (h\<lparr>h_reqClusters := True\<rparr>)
      else if name = ''ci-lock'' \<and> length values \<ge> 2
      then (case processCkinLock E (h_repo h) (values ! 0) (values ! 1) (h_user h) DefaultCkinLockTimeout of
              (q1, fail) \<Rightarrow>
                let h1 = h\<lparr>h_repo := q1\<rparr> in
                done_with (case fail of None \<Rightarrow> h1
                           | Some (heldBy, since) \<Rightarrow> respond h1 [PragmaCard ''ci-lock-fail'' [heldBy, show_int since]]))
      else if name = ''send-private''
      then done_with (if CanSyncPrivate (h_caps h) then h\<lparr>h_syncPrivate := True\<rparr>
                      else respond h [ErrorCard ''not authorized to sync private content''])
      else done_with h)"

definition handleControlCard :: "env \<Rightarrow> Card \<Rightarrow> handler \<Rightarrow> step" where
  "handleControlCard E item h =
     (case item of
        PragmaCard name values \<Rightarrow> handlePragma E name values h
      | PushCard _ _ \<Rightarrow>
          done_with (if CanPush (h_caps h) then h\<lparr>h_pushOK := True\<rparr>
                     else respond h [ErrorCard ''push denied: insufficient capabilities''])
      | PullCard _ _ \<Rightarrow>
          done_with (if CanPull (h_caps h) then h\<lparr>h_pullOK := True\<rparr>
                     else respond h [ErrorCard ''pull denied: insufficient capabilities''])
      | CloneCard _ _ \<Rightarrow>
          done_with (if CanClone (h_caps h) then h\<lparr>h_cloneMode := True\<rparr>
                     else respond h [ErrorCard ''clone denied: insufficient capabilities''])
      | CloneSeqNoCard seqNo \<Rightarrow> done_with (h\<lparr>h_cloneSeq := seqNo\<rparr>)
      | CookieCard v \<Rightarrow> done_with (case parseCloneCap v of None \<Rightarrow> h | Some r \<Rightarrow> h\<lparr>h_cloneSnapMax := r\<rparr>)
      | SchemaCard table _ _ mtime content \<Rightarrow> handleSchemaCard E table mtime content h
      | _ \<Rightarrow> done_with h)"

section \<open>Data cards\<close>

definition handleIGot :: "bytes \<Rightarrow> bool \<Rightarrow> handler \<Rightarrow> step" where
  "handleIGot uuid isPrivate h =
     attempt h (HSync \<circ> SyBlob) (Exists (h_repo h) uuid) (\<lambda>found.
       if found \<noteq> None then done_with (h\<lparr>h_remoteHas := (uuid, isPrivate) # h_remoteHas h\<rparr>)
       else if \<not> h_pushOK h \<and> \<not> h_pullOK h then done_with h
       else if isPrivate \<and> \<not> h_syncPrivate h then done_with h
       else done_with (respond h [GimmeCard uuid]))"

definition handleGimme :: "env \<Rightarrow> bytes \<Rightarrow> handler \<Rightarrow> step" where
  "handleGimme E uuid h =
     attempt h (HSync \<circ> SyBlob) (Exists (h_repo h) uuid) (\<lambda>found.
       case found of
         None \<Rightarrow> done_with h
       | Some r \<Rightarrow>
           attempt h HContent (IsPrivate (h_repo h) r) (\<lambda>isPriv.
             if isPriv \<and> \<not> h_syncPrivate h then done_with h
             else attempt_card E h (''expand '' @ uuid @ '': '') HContent (expand (e_L E) (h_repo h) r) (\<lambda>data.
                    done_with ((respond h ((if isPriv then [PrivateCard] else []) @ [FileCard uuid [] data]))
                                 \<lparr>h_filesSent := h_filesSent h + 1\<rparr>))))"

definition handleFile :: "env \<Rightarrow> bytes \<Rightarrow> bytes \<Rightarrow> bytes \<Rightarrow> handler \<Rightarrow> step" where
  "handleFile E uuid deltaSrc payload h =
     (if uuid = [] then (h, Panic ''handler.handleFile: uuid must not be empty'')
      else if \<not> h_pushOK h then done_with (respond h [ErrorCard (''file '' @ uuid @ '' rejected: no push card'')])
      else case storeReceivedFile (e_L E) (h_repo h) uuid deltaSrc payload of
             (q1, res) \<Rightarrow>
               let h1 = h\<lparr>h_repo := q1\<rparr> in
               attempt_card E h1 (''storing '' @ uuid @ '': '') HSync res (\<lambda>_.
               attempt h1 (HSync \<circ> SyBlob) (Exists q1 uuid) (\<lambda>found.
                 case found of
                   None \<Rightarrow> done_with (respond h1 [ErrorCard (''blob '' @ uuid @ '' missing after store'')])
                 | Some r \<Rightarrow>
                     attempt h1 HContent (if h_nextIsPrivate h1 then MakePrivate q1 r else MakePublic q1 r) (\<lambda>q2.
                       done_with (h1\<lparr>h_repo := q2, h_nextIsPrivate := False, h_filesRecvd := h_filesRecvd h1 + 1\<rparr>)))))"

definition handleReqConfig :: "bytes \<Rightarrow> handler \<Rightarrow> step" where
  "handleReqConfig name h =
     done_with (case config_value (h_repo h) name of None \<Rightarrow> h | Some v \<Rightarrow> respond h [ConfigCard name v])"

definition handleDataCard :: "env \<Rightarrow> Card \<Rightarrow> handler \<Rightarrow> step" where
  "handleDataCard E item h =
     (case item of
        IGotCard uuid isPrivate \<Rightarrow> handleIGot uuid isPrivate h
      | GimmeCard uuid \<Rightarrow> handleGimme E uuid h
      | FileCard uuid deltaSrc content \<Rightarrow> handleFile E uuid deltaSrc content h
      | CFileCard uuid deltaSrc _ content \<Rightarrow> handleFile E uuid deltaSrc content h
      | PrivateCard \<Rightarrow>
          done_with (if \<not> CanSyncPrivate (h_caps h)
                     then (respond h [ErrorCard ''not authorized to sync private content''])\<lparr>h_nextIsPrivate := False\<rparr>
                     else h\<lparr>h_nextIsPrivate := True\<rparr>)
      | ReqConfigCard name \<Rightarrow> handleReqConfig name h
      | UVIGotCard name mtime hash _ \<Rightarrow> handleUVIGot E name mtime hash h
      | UVGimmeCard name \<Rightarrow> handleUVGimme E name h
      | UVFileCard name mtime hash _ flags content \<Rightarrow> handleUVFile E name mtime hash flags content h
      | XIGotCard table pkHash mtime \<Rightarrow> handleXIGot E table pkHash mtime h
      | XGimmeCard table pkHash \<Rightarrow> handleXGimme E table pkHash h
      | XRowCard table pkHash mtime content \<Rightarrow> handleXRow E table pkHash mtime content h
      | XDeleteCard table pkHash mtime pkData \<Rightarrow> handleXDelete E table pkHash mtime pkData h
      | _ \<Rightarrow> done_with h)"

section \<open>Announcements\<close>

definition shunned :: "repo \<Rightarrow> bytes \<Rightarrow> bool" where
  "shunned q u \<longleftrightarrow> u \<in> sh_uuid ` set (t_shun q)"

definition emitPrivateIGots :: "handler \<Rightarrow> handler" where
  "emitPrivateIGots h =
     respond h (map (\<lambda>b. IGotCard (bl_uuid b) True)
       (filter (\<lambda>b. map_of (h_remoteHas h) (bl_uuid b) \<noteq> Some True)
         (concat (map (\<lambda>r. filter (\<lambda>b. bl_rid b = r \<and> bl_size b \<ge> 0) (t_blob (h_repo h))) (t_private (h_repo h))))))"

definition emitIGots :: "handler \<Rightarrow> handler" where
  "emitIGots h =
     (let q = h_repo h;
          rows = filter (\<lambda>b. bl_size b \<ge> 0 \<and> \<not> shunned q (bl_uuid b) \<and> bl_rid b \<notin> set (t_private q)) (t_blob q);
          h1 = respond h (map (\<lambda>b. IGotCard (bl_uuid b) False)
                 (filter (\<lambda>b. map_of (h_remoteHas h) (bl_uuid b) \<noteq> Some False) rows))
      in if h_syncPrivate h then emitPrivateIGots h1 else h1)"

text \<open>Cluster artifacts, tag 7; no caller in the handler.\<close>

definition sendAllClusters :: "handler \<Rightarrow> handler" where
  "sendAllClusters h =
     (let q = h_repo h in
      respond h (map (\<lambda>b. IGotCard (bl_uuid b) False)
        (filter (\<lambda>b. map_of (h_remoteHas h) (bl_uuid b) \<noteq> Some False)
          (concat (map (\<lambda>x. filter (\<lambda>b. bl_rid b = tx_rid x \<and> bl_rid b \<notin> set (t_unclustered q) \<and>
               bl_rid b \<notin> set (t_phantom q) \<and> \<not> shunned q (bl_uuid b) \<and> bl_rid b \<notin> set (t_private q) \<and> bl_size b \<ge> 0)
             (t_blob q)) (filter (\<lambda>x. tx_tagid x = 7) (t_tagxref q)))))))"

section \<open>Clone batches\<close>

definition clone_rows :: "repo \<Rightarrow> int \<Rightarrow> int \<Rightarrow> blob_row list" where
  "clone_rows q seqNo cap = sort_key bl_rid (filter (\<lambda>b. bl_rid b > seqNo \<and> bl_rid b \<le> cap \<and> bl_size b \<ge> 0) (t_blob q))"

text \<open>The rows of a batch: whether more rows are left and the last row sent.\<close>

fun clone_loop :: "env \<Rightarrow> blob_row list \<Rightarrow> nat \<Rightarrow> int \<Rightarrow> handler \<Rightarrow> handler \<times> (handler_error, bool \<times> int) outcome" where
  "clone_loop E [] sent lastSent h = (h, Ok (False, lastSent))"
| "clone_loop E (b # bs) sent lastSent h =
     (case IsPrivate (h_repo h) (bl_rid b) of
        Err e \<Rightarrow> (h, Err (HContent e))
      | Panic s \<Rightarrow> (h, Panic s)
      | Ok isPriv \<Rightarrow>
          if isPriv \<and> \<not> h_syncPrivate h then clone_loop E bs sent lastSent h
          else if sent \<ge> DefaultCloneBatchSize then (h, Ok (True, lastSent))
          else case expand (e_L E) (h_repo h) (bl_rid b) of
                 Err e \<Rightarrow> (h, Err (HContent e))
               | Panic s \<Rightarrow> (h, Panic s)
               | Ok data \<Rightarrow>
                   clone_loop E bs (sent + 1) (bl_rid b)
                     ((respond h ((if isPriv then [PrivateCard] else []) @ [FileCard (bl_uuid b) [] data]))
                        \<lparr>h_filesSent := h_filesSent h + 1\<rparr>))"

definition max_clone_rid :: "repo \<Rightarrow> int" where
  "max_clone_rid q = foldr max (map bl_rid (filter (\<lambda>b. bl_size b \<ge> 0) (t_blob q))) 0"

text \<open>The first round of a session fixes the last row to send and tells the client.\<close>

definition clone_snapshot :: "handler \<Rightarrow> handler" where
  "clone_snapshot h =
     (if h_cloneSnapMax h = 0
      then respond (h\<lparr>h_cloneSnapMax := max_clone_rid (h_repo h)\<rparr>) [CookieCard (cloneCapPrefix @ show_int (max_clone_rid (h_repo h)))]
      else h)"

definition emitCloneBatch :: "env \<Rightarrow> handler \<Rightarrow> step" where
  "emitCloneBatch E h =
     (let h1 = clone_snapshot h in
      case clone_loop E (clone_rows (h_repo h1) (h_cloneSeq h1) (h_cloneSnapMax h1)) 0 0 h1 of
        (h2, Ok (left, lastSent)) \<Rightarrow> done_with (respond h2 [CloneSeqNoCard (if left then lastSent else 0)])
      | (h2, Err e) \<Rightarrow> (h2, Err e)
      | (h2, Panic s) \<Rightarrow> (h2, Panic s))"

section \<open>The round\<close>

definition is_file_card :: "Card \<Rightarrow> bool" where
  "is_file_card item =
     (case item of FileCard _ _ _ \<Rightarrow> True | CFileCard _ _ _ _ \<Rightarrow> True | PrivateCard \<Rightarrow> True | _ \<Rightarrow> False)"

definition processDataCards :: "env \<Rightarrow> Card list \<Rightarrow> handler \<Rightarrow> step" where
  "processDataCards E cards h =
     and_then (each (handleDataCard E) (filter is_file_card cards) h) (\<lambda>h.
     and_then (each (handleDataCard E) (filter (\<lambda>c. \<not> is_file_card c) cards) h) (\<lambda>h.
     and_then (if h_pullOK h then emitXIGots E (emitIGots h) else done_with h) (\<lambda>h.
     if h_cloneMode h then emitCloneBatch E h else done_with h)))"

definition is_login :: "Card \<Rightarrow> bool" where
  "is_login item = (case item of LoginCard _ _ _ \<Rightarrow> True | _ \<Rightarrow> False)"

definition handle_login :: "env \<Rightarrow> Card \<Rightarrow> handler \<Rightarrow> step" where
  "handle_login E item h =
     (case item of LoginCard user nonce signature \<Rightarrow> handleLoginCard E user nonce signature h | _ \<Rightarrow> done_with h)"

definition config_or_empty :: "repo \<Rightarrow> bytes \<Rightarrow> bytes" where
  "config_or_empty q name = (case config_value q name of None \<Rightarrow> [] | Some v \<Rightarrow> v)"

definition identify :: "handler \<Rightarrow> handler" where
  "identify h =
     (let projectCode = config_or_empty (h_repo h) ''project-code''
      in if h_cloneMode h \<and> projectCode \<noteq> []
         then respond h [PushCard (config_or_empty (h_repo h) ''server-code'') projectCode] else h)"

definition crosslink_received :: "env \<Rightarrow> handler \<Rightarrow> step" where
  "crosslink_received E h =
     (if h_filesRecvd h > 0
      then (case Crosslink (e_L E) (e_unicode E) (h_repo h) of
              (q1, _, res) \<Rightarrow> let h1 = h\<lparr>h_repo := q1\<rparr> in attempt h1 HCrosslink res (\<lambda>_. done_with h1))
      else done_with h)"

text \<open>Authentication and control cards, then the data cards.\<close>

definition admit :: "env \<Rightarrow> Card list \<Rightarrow> handler \<Rightarrow> step" where
  "admit E cards h =
     and_then (loadSyncedTables (initAuth h)) (\<lambda>h.
     and_then (each (handle_login E) cards h) (each (handleControlCard E) (filter (\<lambda>c. \<not> is_login c) cards)))"

definition process :: "env \<Rightarrow> Card list \<Rightarrow> handler \<Rightarrow> step" where
  "process E cards h =
     and_then (admit E cards h) (\<lambda>h. and_then (processDataCards E cards (identify h)) (crosslink_received E))"

definition HandleSync :: "env \<Rightarrow> repo \<Rightarrow> Card list \<Rightarrow> repo \<times> (handler_error, Card list) outcome" where
  "HandleSync E q cards =
     (case process E cards (new_handler q) of
        (h, Ok _) \<Rightarrow> (h_repo h, Ok (h_resp h))
      | (h, Err e) \<Rightarrow> (h_repo h, Err e)
      | (h, Panic s) \<Rightarrow> (h_repo h, Panic s))"

end
