(* ===== verification/Handler_Props.thy ===== *)
theory Handler_Props
  imports Handler
begin

text \<open>
  What a request can do to the repository of the server: content stays and stays
  authentic, a request that is not granted push only reads, and private artifacts do not
  leave the server.
\<close>

section \<open>Relations between the states of a round\<close>

text \<open>A reflexive and transitive relation that every step keeps is kept by a round.\<close>

locale step_relation =
  fixes R :: "handler \<Rightarrow> handler \<Rightarrow> bool"
  assumes R_refl: "R h h"
    and R_trans: "R h h1 \<Longrightarrow> R h1 h2 \<Longrightarrow> R h h2"
begin

lemma R_done: "R h h1 \<Longrightarrow> R h (fst (done_with h1))"
  by (simp add: done_with_def)

lemma R_attempt: "R h h1 \<Longrightarrow> (\<And>x. m = Ok x \<Longrightarrow> R h (fst (f x))) \<Longrightarrow> R h (fst (attempt h1 w m f))"
  by (auto simp: attempt_def split: outcome.split)

lemma R_attempt_card:
  "R h h1 \<Longrightarrow> (\<And>e. R h (respond h1 [ErrorCard (p @ e_text E (w e))])) \<Longrightarrow> (\<And>x. m = Ok x \<Longrightarrow> R h (fst (f x))) \<Longrightarrow>
   R h (fst (attempt_card E h1 p w m f))"
  by (auto simp: attempt_card_def done_with_def split: outcome.split)

lemma R_and_then: "R h (fst s) \<Longrightarrow> (\<And>h1. s = (h1, Ok ()) \<Longrightarrow> R h1 (fst (f h1))) \<Longrightarrow> R h (fst (and_then s f))"
  by (cases s; cases "snd s") (auto simp: and_then_def intro: R_trans)

lemma R_each: "(\<And>x h. x \<in> set xs \<Longrightarrow> R h (fst (f x h))) \<Longrightarrow> R h (fst (each f xs h))"
proof (induction xs arbitrary: h)
  case Nil
  then show ?case by (simp add: done_with_def R_refl)
next
  case (Cons x xs)
  then show ?case by (auto intro!: R_and_then)
qed

end

text \<open>A relation that does not look at the response.\<close>

locale quiet_relation = step_relation +
  assumes R_respond: "R h h1 \<Longrightarrow> R h (respond h1 cs)"
begin

lemma R_error: "R h h1 \<Longrightarrow> (\<And>x. m = Ok x \<Longrightarrow> R h (fst (f x))) \<Longrightarrow> R h (fst (attempt_card E h1 p w m f))"
  by (intro R_attempt_card R_respond)

lemma R_report: "R h (fst s) \<Longrightarrow> R h (fst (report_error E p s))"
  by (cases s; cases "snd s") (auto simp: report_error_def done_with_def intro: R_respond)

lemmas R_rules = R_refl R_done R_attempt R_error R_report R_respond R_and_then

end

lemma respond_simps [simp]:
  "h_repo (respond h cs) = h_repo h" "h_pushOK (respond h cs) = h_pushOK h" "h_caps (respond h cs) = h_caps h"
  "h_syncPrivate (respond h cs) = h_syncPrivate h" "h_filesRecvd (respond h cs) = h_filesRecvd h"
  "h_pullOK (respond h cs) = h_pullOK h" "h_cloneMode (respond h cs) = h_cloneMode h"
  "h_resp (respond h cs) = h_resp h @ cs" "h_remoteHas (respond h cs) = h_remoteHas h"
  "h_nextIsPrivate (respond h cs) = h_nextIsPrivate h"
  "h_cloneSeq (respond h cs) = h_cloneSeq h" "h_cloneSnapMax (respond h cs) = h_cloneSnapMax h"
  by (simp_all add: respond_def)

lemma fst_done [simp]: "fst (done_with h) = h"
  by (simp add: done_with_def)

section \<open>Requests that only read\<close>

text \<open>The tables other than those for configuration, unversioned files and extension tables.\<close>

definition core :: "repo \<Rightarrow> repo" where
  "core q = q\<lparr>t_config := [], t_unversioned := None, t_sync_schema := None, t_xtable := []\<rparr>"

lemma core_simps [simp]:
  "core (q\<lparr>t_config := c\<rparr>) = core q" "core (q\<lparr>t_unversioned := u\<rparr>) = core q"
  "core (q\<lparr>t_sync_schema := s\<rparr>) = core q" "core (q\<lparr>t_xtable := x\<rparr>) = core q"
  by (simp_all add: core_def)

text \<open>Times of unversioned files aside, files and rows that are there stay as they are.\<close>

definition readonly :: "repo \<Rightarrow> repo \<Rightarrow> bool" where
  "readonly q q' \<longleftrightarrow> core q' = core q \<and>
     (\<forall>rows. t_unversioned q = Some rows \<longrightarrow>
        map_option (map (\<lambda>r. r\<lparr>uv_mtime := 0\<rparr>)) (t_unversioned q') = Some (map (\<lambda>r. r\<lparr>uv_mtime := 0\<rparr>) rows)) \<and>
     (\<forall>n t. find_xtable q n = Some t \<longrightarrow> find_xtable q' n = Some t)"

lemma readonly_refl [simp]: "readonly q q"
  by (simp add: readonly_def)

lemma readonly_trans [trans]: "readonly q q1 \<Longrightarrow> readonly q1 q2 \<Longrightarrow> readonly q q2"
  by (auto simp: readonly_def)

lemma readonly_same: "core q' = core q \<Longrightarrow> t_unversioned q' = t_unversioned q \<Longrightarrow> t_xtable q' = t_xtable q \<Longrightarrow> readonly q q'"
  by (simp add: readonly_def find_xtable_def)

lemma core_replace_config [simp]: "core (replace_config q c) = core q"
  by (simp add: replace_config_def)

lemma core_InvalidateHash [simp]: "core (InvalidateHash q) = core q"
  by (simp add: InvalidateHash_def delete_config_def)

lemma core_EnsureSchema [simp]: "core (EnsureSchema q) = core q"
  by (simp add: EnsureSchema_def)

lemma core_Write: "Write sha1 sha3 deflate q name c m = Ok q' \<Longrightarrow> core q' = core q"
  by (auto simp: Write_def bind_ok_eq_Ok stored_form_def Let_def split: if_splits option.splits)

lemma core_Delete: "Delete q name m = Ok q' \<Longrightarrow> core q' = core q"
  by (auto simp: Delete_def split: if_splits option.splits)

lemma core_set_xtable [simp]: "core (set_xtable q t) = core q"
  by (simp add: set_xtable_def)

lemma core_UpsertXRow: "UpsertXRow X q table row m = Ok q' \<Longrightarrow> core q' = core q"
  by (auto simp: UpsertXRow_def bind_ok_eq_Ok split: if_splits option.splits)

lemma core_DeleteXRow: "DeleteXRowByPKHash X q table def h m = Ok (q', b) \<Longrightarrow> core q' = core q"
proof -
  assume run: "DeleteXRowByPKHash X q table def h m = Ok (q', b)"
  then obtain found where "LookupXRow X q table def h = Ok found"
    by (auto simp: DeleteXRowByPKHash_def bind_ok_eq_Ok split: if_splits)
  with run show ?thesis
    by (auto simp: DeleteXRowByPKHash_def bind_ok_eq_Ok split: if_splits option.splits)
qed

lemma core_applyXDelete: "applyXDeleteLocally X q table def h m d = Ok q' \<Longrightarrow> core q' = core q"
  by (auto simp: applyXDeleteLocally_def bind_ok_eq_Ok split: if_splits option.splits dest!: core_DeleteXRow core_UpsertXRow)

lemma readonly_EnsureSchema [simp]: "readonly q (EnsureSchema q)"
  by (auto simp: readonly_def EnsureSchema_def find_xtable_def)

lemma readonly_EnsureSyncSchema [simp]: "readonly q (EnsureSyncSchema q)"
  by (intro readonly_same) (simp_all add: EnsureSyncSchema_def)

lemma readonly_ContentHash_uv: "readonly q (fst (ContentHash_uv sha1 dt now q))"
  by (intro readonly_same) (auto simp: ContentHash_uv_def Let_def replace_config_def split: option.split)

lemma readonly_touch_uv: "readonly q (InvalidateHash (touch_uv q name m))"
  by (auto simp: readonly_def touch_uv_def InvalidateHash_def delete_config_def find_xtable_def)

lemma readonly_ckin_lock: "readonly q (fst (processCkinLock E q p c u t))"
proof -
  have "readonly q (expireStaleLocks n q t)" for n by (intro readonly_same) (simp_all add: expireStaleLocks_def)
  moreover have "readonly q1 (replace_config q1 c)" for q1 c by (intro readonly_same) (simp_all add: replace_config_def)
  ultimately show ?thesis
    by (auto simp: processCkinLock_def Let_def split: option.split intro: readonly_trans)
qed

lemma find_xtable_append: "find_xtable q n = Some t \<Longrightarrow> find_xtable (q\<lparr>t_xtable := t_xtable q @ ts\<rparr>) n = Some t"
  by (simp add: find_xtable_def find_append)

lemma readonly_Register: "readonly q (fst (RegisterSyncedTable X q name def m))"
proof -
  let ?q1 = "\<lambda>s. q\<lparr>t_sync_schema := s\<rparr>"
  have "readonly q q2" if "createExtensionTable X (?q1 s) name def = Ok q2" for s q2
    using that by (auto simp: createExtensionTable_def create_xtable_def bind_ok_eq_Ok readonly_def find_xtable_def
        find_append split: if_splits)
  moreover have "readonly q (?q1 s)" for s by (intro readonly_same) simp_all
  ultimately show ?thesis
    by (auto simp: RegisterSyncedTable_def Let_def split: outcome.split option.split)
qed

section \<open>Control cards\<close>

text \<open>
  The control phase reads, keeps the capabilities, and grants what they allow; \<open>p\<close> and \<open>s\<close> say
  whether push and private content have been asked for.
\<close>

definition control :: "bool \<Rightarrow> bool \<Rightarrow> handler \<Rightarrow> handler \<Rightarrow> bool" where
  "control p s h h' \<longleftrightarrow> readonly (h_repo h) (h_repo h') \<and> h_filesRecvd h' = h_filesRecvd h \<and>
     h_caps h' = h_caps h \<and> h_nextIsPrivate h' = h_nextIsPrivate h \<and>
     (h_pushOK h' \<longrightarrow> h_pushOK h \<or> p \<and> CanPush (h_caps h)) \<and> (h_syncPrivate h' \<longrightarrow> h_syncPrivate h \<or> s \<and> CanSyncPrivate (h_caps h))"

lemma control_same [simp]: "control p s h (respond h1 cs) = control p s h h1"
  by (simp add: control_def respond_def)

interpretation ctl: quiet_relation "control p s" for p s
  by unfold_locales (auto simp: control_def respond_def intro: readonly_trans)

lemma control_repo: "control p s h h1 \<Longrightarrow> readonly (h_repo h1) q \<Longrightarrow> control p s h (h1\<lparr>h_repo := q\<rparr>)"
  by (auto simp: control_def intro: readonly_trans)

lemma control_other [simp]:
  "control p s h (h1\<lparr>h_syncedTables := t\<rparr>) = control p s h h1" "control p s h (h1\<lparr>h_uvCatalogSent := b\<rparr>) = control p s h h1"
  "control p s h (h1\<lparr>h_reqClusters := b\<rparr>) = control p s h h1" "control p s h (h1\<lparr>h_cloneMode := b\<rparr>) = control p s h h1"
  "control p s h (h1\<lparr>h_cloneSeq := n\<rparr>) = control p s h h1" "control p s h (h1\<lparr>h_cloneSnapMax := n\<rparr>) = control p s h h1"
  "control p s h (h1\<lparr>h_pullOK := b\<rparr>) = control p s h h1" "control p s h (h1\<lparr>h_filesSent := n\<rparr>) = control p s h h1"
  "control p s h (h1\<lparr>h_xrowsSent := n\<rparr>) = control p s h h1" "control p s h (h1\<lparr>h_remoteHas := r\<rparr>) = control p s h h1"
  by (simp_all add: control_def)

lemmas control_rules = ctl.R_rules control_repo

lemma control_emitXIGotsForTable: "control p s h h1 \<Longrightarrow> control p s h (fst (emitXIGotsForTable E table def h1))"
  by (rule ctl.R_trans, assumption)
     (auto simp: emitXIGotsForTable_def intro!: control_rules ctl.R_each split: prod.split)

lemma control_pragma_uv: "control p s h (fst (handlePragmaUVHash E c h))"
proof -
  have "readonly (h_repo h) q1" if "ContentHash_uv s d n (EnsureSchema (h_repo h)) = (q1, res)" for s d n q1 res
    using readonly_trans [OF readonly_EnsureSchema readonly_ContentHash_uv] that by (metis fst_conv)
  then show ?thesis
    by (auto simp: handlePragmaUVHash_def Let_def intro!: control_rules split: prod.split)
qed

lemma control_pragma_xtable: "control p s h (fst (handlePragmaXTableHash E table c h))"
  by (auto simp: handlePragmaXTableHash_def intro!: control_rules control_emitXIGotsForTable split: option.split)

lemma control_pragma: "name = ''send-private'' \<longrightarrow> s \<Longrightarrow> control p s h (fst (handlePragma E name values h))"
proof -
  assume s: "name = ''send-private'' \<longrightarrow> s"
  have lock: "control p s h (h\<lparr>h_repo := fst (processCkinLock E (h_repo h) a b c d)\<rparr>)" for a b c d
    by (intro control_repo ctl.R_refl readonly_ckin_lock)
  have priv: "control p s h (h\<lparr>h_syncPrivate := True\<rparr>)" if "CanSyncPrivate (h_caps h)" "name = ''send-private''"
    using that s by (simp add: control_def)
  show ?thesis
    unfolding handlePragma_def
    by (simp add: ctl.R_report control_pragma_uv control_pragma_xtable priv lock split_beta Let_def ctl.R_refl ctl.R_done split: option.split)
qed

lemma control_schema: "control p s h (fst (handleSchemaCard E table m c h))"
proof -
  have "readonly (h_repo h) q1" if "RegisterSyncedTable X (h_repo h) table def m = (q1, res)" for X def q1 res
    using readonly_Register [of "h_repo h" X table def m] that by simp
  then show ?thesis
    by (auto simp: handleSchemaCard_def cache_table_def Let_def intro!: control_rules split: prod.split option.split)
qed

definition asks_push :: "Card \<Rightarrow> bool" where
  "asks_push c = (case c of PushCard _ _ \<Rightarrow> True | _ \<Rightarrow> False)"

definition asks_private :: "Card \<Rightarrow> bool" where
  "asks_private c = (case c of PragmaCard name _ \<Rightarrow> name = ''send-private'' | _ \<Rightarrow> False)"

lemma control_handleControlCard:
  "(asks_push c \<longrightarrow> p) \<Longrightarrow> (asks_private c \<longrightarrow> s) \<Longrightarrow> control p s h (fst (handleControlCard E c h))"
  by (cases c) (auto simp: handleControlCard_def asks_push_def asks_private_def ctl.R_refl control_pragma control_schema
      split: option.split, auto simp: control_def)

section \<open>Data cards\<close>

definition same_grants :: "handler \<Rightarrow> handler \<Rightarrow> bool" where
  "same_grants h h' \<longleftrightarrow> h_pushOK h' = h_pushOK h \<and> h_pullOK h' = h_pullOK h \<and> h_caps h' = h_caps h \<and>
     h_syncPrivate h' = h_syncPrivate h \<and> h_cloneMode h' = h_cloneMode h"

lemma same_grants_refl [simp]: "same_grants h h"
  by (simp add: same_grants_def)

lemma same_grants_trans: "same_grants h h1 \<Longrightarrow> same_grants h1 h2 \<Longrightarrow> same_grants h h2"
  by (simp add: same_grants_def)

lemma same_grants_other [simp]:
  "same_grants h (respond h1 cs) = same_grants h h1" "same_grants h (h1\<lparr>h_repo := q\<rparr>) = same_grants h h1"
  "same_grants h (h1\<lparr>h_remoteHas := r\<rparr>) = same_grants h h1" "same_grants h (h1\<lparr>h_filesSent := n\<rparr>) = same_grants h h1"
  "same_grants h (h1\<lparr>h_filesRecvd := n\<rparr>) = same_grants h h1" "same_grants h (h1\<lparr>h_xrowsRecvd := n\<rparr>) = same_grants h h1"
  "same_grants h (h1\<lparr>h_xrowsSent := n\<rparr>) = same_grants h h1" "same_grants h (h1\<lparr>h_nextIsPrivate := b\<rparr>) = same_grants h h1"
  "same_grants h (h1\<lparr>h_cloneSnapMax := n\<rparr>) = same_grants h h1"
  by (simp_all add: same_grants_def respond_def)

text \<open>Cards other than file cards leave the core tables alone, and only read without push.\<close>

definition tame :: "handler \<Rightarrow> handler \<Rightarrow> bool" where
  "tame h h' \<longleftrightarrow> same_grants h h' \<and> core (h_repo h') = core (h_repo h) \<and> h_filesRecvd h' = h_filesRecvd h \<and>
     (h_pushOK h \<or> readonly (h_repo h) (h_repo h'))"

lemma tame_same [simp]: "tame h (respond h1 cs) = tame h h1"
  unfolding tame_def by simp

lemma tame_trans: "tame h h1 \<Longrightarrow> tame h1 h2 \<Longrightarrow> tame h h2"
  unfolding tame_def using same_grants_trans readonly_trans by (metis same_grants_def)

interpretation tm: quiet_relation tame
proof unfold_locales
  show "tame h h" for h by (simp add: tame_def)
  show "tame h h1 \<Longrightarrow> tame h1 h2 \<Longrightarrow> tame h h2" for h h1 h2 by (rule tame_trans)
  show "tame h h1 \<Longrightarrow> tame h (respond h1 cs)" for h h1 cs by simp
qed

lemma tame_other [simp]:
  "tame h (h1\<lparr>h_remoteHas := r\<rparr>) = tame h h1" "tame h (h1\<lparr>h_filesSent := n\<rparr>) = tame h h1"
  "tame h (h1\<lparr>h_xrowsSent := n\<rparr>) = tame h h1" "tame h (h1\<lparr>h_xrowsRecvd := n\<rparr>) = tame h h1"
  "tame h (h1\<lparr>h_nextIsPrivate := b\<rparr>) = tame h h1" "tame h (h1\<lparr>h_cloneSnapMax := n\<rparr>) = tame h h1"
  by (simp_all add: tame_def)

lemma readonly_core: "readonly q q' \<Longrightarrow> core q' = core q"
  by (simp add: readonly_def)

lemma tame_read: "tame h h1 \<Longrightarrow> readonly (h_repo h1) q \<Longrightarrow> tame h (h1\<lparr>h_repo := q\<rparr>)"
  unfolding tame_def using readonly_core readonly_trans by simp metis

lemma tame_write: "tame h h1 \<Longrightarrow> h_pushOK h \<Longrightarrow> core q = core (h_repo h1) \<Longrightarrow> tame h (h1\<lparr>h_repo := q\<rparr>)"
  by (simp add: tame_def)

lemma tame_emitXIGotsForTable: "tame h h1 \<Longrightarrow> tame h (fst (emitXIGotsForTable E table def h1))"
  by (rule tm.R_trans, assumption)
     (auto simp: emitXIGotsForTable_def intro!: tm.R_rules tm.R_each split: prod.split)

lemma tame_emitXIGots: "tame h (fst (emitXIGots E h))"
  by (auto simp: emitXIGots_def Let_def intro!: tm.R_each tame_emitXIGotsForTable tm.R_refl split: prod.split)

lemma tame_sendUVFile: "tame h h1 \<Longrightarrow> tame h (fst (sendUVFile E name h1))"
  by (auto simp: sendUVFile_def intro!: tm.R_rules split: prod.split)

lemma tame_uvigot: "tame h (fst (handleUVIGot E name m c h))"
proof -
  have "readonly q (InvalidateHash (touch_uv (EnsureSchema q) name m))" for q
    using readonly_trans [OF readonly_EnsureSchema readonly_touch_uv] .
  then show ?thesis
    by (auto simp: handleUVIGot_def Let_def intro!: tm.R_rules tame_read tame_sendUVFile split: prod.split)
qed

lemma tame_uvfile: "tame h (fst (handleUVFile E name m c f d h))"
proof -
  have step: "tame h (fst (apply_uvfile E name m c f d h1))" if "tame h h1" "h_pushOK h" for h1
    using that
    by (auto simp: apply_uvfile_def intro!: tm.R_rules tame_write split: prod.split dest!: core_Write core_Delete)
  have "tame h (h\<lparr>h_repo := EnsureSchema (h_repo h)\<rparr>)" by (intro tame_read tm.R_refl readonly_EnsureSchema)
  with step show ?thesis
    by (auto simp: handleUVFile_def Let_def intro!: tm.R_rules split: outcome.split)
qed

lemma tame_sendXRow: "tame h (fst (sendXRow E table def k h))"
  by (auto simp: sendXRow_def intro!: tm.R_rules split: option.split prod.split)

lemma tame_xigot: "tame h (fst (handleXIGot E table k m h))"
  by (auto simp: handleXIGot_def sendXDelete_def tame_sendXRow intro!: tm.R_rules split: option.split prod.split)

lemma tame_xrow: "tame h (fst (handleXRow E table k m c h))"
proof (cases "h_pushOK h")
  case True
  have verify: "tame h h1" if "verifyXRowPKHash E table k c def h = (h1, res)" for def h1 res
    using that by (auto simp: verifyXRowPKHash_def tm.R_refl split: option.splits outcome.splits if_splits)
  with True show ?thesis
    by (auto simp: handleXRow_def intro!: tm.R_rules tame_write dest!: core_UpsertXRow
        split: option.split prod.split outcome.split)
next
  case False
  then show ?thesis by (auto simp: handleXRow_def intro!: tm.R_rules)
qed

lemma tame_xdelete: "tame h (fst (handleXDelete E table k m d h))"
  by (auto simp: handleXDelete_def intro!: tm.R_rules tame_write dest!: core_applyXDelete split: option.split prod.split)

lemma tame_handleDataCard: "\<not> is_file_card c \<Longrightarrow> tame h (fst (handleDataCard E c h))"
  by (cases c)
     (auto simp: handleDataCard_def is_file_card_def handleUVGimme_def handleXGimme_def handleReqConfig_def handleIGot_def
        handleGimme_def tame_uvigot tame_uvfile tame_sendUVFile [OF tm.R_refl] tame_xigot tame_xrow tame_xdelete tame_sendXRow
        intro!: tm.R_rules split: option.split prod.split)

lemma tame_clone_loop: "tame h (fst (clone_loop E bs n l h))"
proof (induction E bs n l h rule: clone_loop.induct)
  case (2 E b bs sent l h)
  show ?case
  proof (cases "IsPrivate (h_repo h) (bl_rid b)")
    case (Ok priv)
    show ?thesis
    proof (cases "priv \<and> \<not> h_syncPrivate h \<or> sent \<ge> DefaultCloneBatchSize")
      case True
      with 2(1) [OF Ok] Ok show ?thesis by (auto simp: tm.R_refl)
    next
      case False
      show ?thesis
      proof (cases "expand (e_L E) (h_repo h) (bl_rid b)")
        case data: (Ok data)
        let ?h = "(respond h ((if priv then [PrivateCard] else []) @ [FileCard (bl_uuid b) [] data]))\<lparr>h_filesSent := h_filesSent h + 1\<rparr>"
        have "tame h ?h" by (simp add: tm.R_refl)
        moreover have "tame ?h (fst (clone_loop E bs (sent + 1) (bl_rid b) ?h))"
          using 2(2) [OF Ok _ _ data] False by simp
        ultimately have "tame h (fst (clone_loop E bs (sent + 1) (bl_rid b) ?h))" by (rule tame_trans)
        with Ok False data show ?thesis by auto
      qed (use Ok False in \<open>auto simp add: tm.R_refl\<close>)
    qed
  qed (simp_all add: tm.R_refl)
qed (simp add: tm.R_refl)

lemma tame_emitCloneBatch: "tame h (fst (emitCloneBatch E h))"
proof -
  have "tame h (clone_snapshot h)" by (simp add: clone_snapshot_def tm.R_refl)
  then have loop: "tame h (fst (clone_loop E bs n l (clone_snapshot h)))" for bs n l
    by (rule tame_trans [OF _ tame_clone_loop])
  obtain h2 res where run: "clone_loop E (clone_rows (h_repo (clone_snapshot h)) (h_cloneSeq (clone_snapshot h))
      (h_cloneSnapMax (clone_snapshot h))) 0 0 (clone_snapshot h) = (h2, res)"
    by fastforce
  with loop have "tame h h2" by (metis fst_conv)
  with run show ?thesis
    by (auto simp: emitCloneBatch_def done_with_def split: outcome.split)
qed

lemma tame_announce: "tame h (emitIGots h)"
  by (simp add: emitIGots_def emitPrivateIGots_def Let_def tm.R_refl)

section \<open>The round\<close>

text \<open>The data phase: grants stay, and without push it only reads.\<close>

definition data_phase :: "handler \<Rightarrow> handler \<Rightarrow> bool" where
  "data_phase h h' \<longleftrightarrow> same_grants h h' \<and>
     (h_pushOK h \<or> readonly (h_repo h) (h_repo h') \<and> h_filesRecvd h' = h_filesRecvd h)"

lemma tame_data_phase: "tame h h' \<Longrightarrow> data_phase h h'"
  by (auto simp: tame_def data_phase_def)

interpretation dat: step_relation data_phase
proof unfold_locales
  show "data_phase h h2" if "data_phase h h1" "data_phase h1 h2" for h h1 h2
    using that same_grants_trans [of h h1 h2] readonly_trans [of "h_repo h" "h_repo h1" "h_repo h2"]
    unfolding data_phase_def by (metis same_grants_def)
qed (simp add: data_phase_def)

lemma handleFile_no_push: "\<not> h_pushOK h \<Longrightarrow> h_repo (fst (handleFile E u d c h)) = h_repo h"
  by (simp add: handleFile_def done_with_def respond_def)

lemma handleFile_grants: "same_grants h (fst (handleFile E u d c h))"
  by (auto simp: handleFile_def done_with_def attempt_def attempt_card_def Let_def split: prod.split outcome.split option.split)

lemma data_phase_handleDataCard: "data_phase h (fst (handleDataCard E c h))"
proof (cases "is_file_card c")
  case True
  have "data_phase h (fst (handleFile E u d x h))" for u d x
    using handleFile_no_push [of h E u d x] handleFile_grants [of h E u d x]
    by (auto simp: data_phase_def) (auto simp: handleFile_def done_with_def respond_def)
  with True show ?thesis
    by (cases c) (auto simp: is_file_card_def handleDataCard_def done_with_def data_phase_def)
next
  case False
  then show ?thesis by (intro tame_data_phase tame_handleDataCard)
qed

lemma data_phase_processDataCards: "data_phase h (fst (processDataCards E cards h))"
  unfolding processDataCards_def
  by (intro dat.R_and_then dat.R_each data_phase_handleDataCard)
     (auto intro!: dat.R_refl tame_data_phase tame_trans [OF tame_announce tame_emitXIGots] tame_emitCloneBatch dat.R_done)

text \<open>The login cards: the capabilities are those of a user of the repository.\<close>

definition user_caps :: "repo \<Rightarrow> bytes \<Rightarrow> bool" where
  "user_caps q caps \<longleftrightarrow> caps = [] \<or> caps \<in> us_cap ` set (t_user q)"

definition logged :: "handler \<Rightarrow> handler \<Rightarrow> bool" where
  "logged h h' \<longleftrightarrow> h_repo h' = h_repo h \<and> h_pushOK h' = h_pushOK h \<and> h_filesRecvd h' = h_filesRecvd h \<and>
     h_syncPrivate h' = h_syncPrivate h \<and> (user_caps (h_repo h) (h_caps h) \<longrightarrow> user_caps (h_repo h) (h_caps h'))"

interpretation lg: quiet_relation logged
  by unfold_locales (auto simp: logged_def respond_def)

lemma user_row_of_member: "user_row_of q u = Some r \<Longrightarrow> r \<in> set (t_user q)"
  by (auto simp: user_row_of_def find_Some_iff)

lemma logged_handle_login: "logged h (fst (handle_login E c h))"
proof -
  have "logged h (fst (handleLoginCard E u n s h))" for u n s
  proof (cases "config_value (h_repo h) ''project-code''")
    case None
    then show ?thesis by (simp add: handleLoginCard_def lg.R_rules)
  next
    case (Some pc)
    have "us_cap r \<in> us_cap ` set (t_user (h_repo h))" if "user_row_of (h_repo h) u = Some r" for r
      using user_row_of_member [OF that] by simp
    then have "user_caps (h_repo h) (ur_Cap w)" if "VerifyLogin (l_sha1 (e_L E)) (e_now E) (h_repo h) pc u n s = Ok w" for w
      using that by (auto simp: VerifyLogin_def user_caps_def user_of_row_def bind_ok_eq_Ok Let_def split: if_splits option.splits)
    with Some show ?thesis
      by (auto simp: handleLoginCard_def done_with_def logged_def respond_def split: outcome.split)
  qed
  then show ?thesis by (auto simp: handle_login_def lg.R_refl lg.R_done split: Card.split)
qed

text \<open>The state in which the data phase begins.\<close>

lemma loadSyncedTables_Ok: "loadSyncedTables h = (h', res) \<Longrightarrow>
   res = Ok () \<and> (\<exists>ts. h' = h\<lparr>h_repo := EnsureSyncSchema (h_repo h), h_syncedTables := ts\<rparr>)"
  by (auto simp: loadSyncedTables_def Let_def attempt_def done_with_def ListSyncedTables_def EnsureSyncSchema_def split: option.splits)

lemma admit_spec:
  fixes q :: repo and cards :: "Card list" and E :: env
  defines "h \<equiv> fst (admit E cards (new_handler q))"
  shows "readonly q (h_repo h)" "h_filesRecvd h = 0" "user_caps q (h_caps h)"
    "h_pushOK h \<Longrightarrow> list_ex asks_push cards \<and> CanPush (h_caps h)"
    "h_syncPrivate h \<Longrightarrow> list_ex asks_private cards \<and> CanSyncPrivate (h_caps h)"
proof -
  let ?h0 = "initAuth (new_handler q)"
  obtain h1 res where load: "loadSyncedTables ?h0 = (h1, res)" by fastforce
  from loadSyncedTables_Ok [OF this] obtain ts where h1: "res = Ok ()"
      "h1 = ?h0\<lparr>h_repo := EnsureSyncSchema q, h_syncedTables := ts\<rparr>"
    by (auto simp: initAuth_def new_handler_def)
  then have init: "h_repo h1 = EnsureSyncSchema q" "\<not> h_pushOK h1" "\<not> h_syncPrivate h1" "h_filesRecvd h1 = 0" "user_caps q (h_caps h1)"
    by (auto simp: initAuth_def new_handler_def user_caps_def split: option.splits dest: user_row_of_member)
  obtain h2 res2 where login: "each (handle_login E) cards h1 = (h2, res2)" by fastforce
  have "logged h1 h2"
    using lg.R_each [of cards "handle_login E" h1] logged_handle_login login by (metis fst_conv)
  with init have h2: "h_repo h2 = EnsureSyncSchema q" "\<not> h_pushOK h2" "\<not> h_syncPrivate h2" "h_filesRecvd h2 = 0" "user_caps q (h_caps h2)"
    by (auto simp: logged_def user_caps_def EnsureSyncSchema_def)
  have ctl: "control (list_ex asks_push cards) (list_ex asks_private cards) h2
      (fst (each (handleControlCard E) (filter (\<lambda>c. \<not> is_login c) cards) h2))"
    by (intro ctl.R_each control_handleControlCard) (auto simp: list_ex_iff)
  have "h = h2 \<or> h = fst (each (handleControlCard E) (filter (\<lambda>c. \<not> is_login c) cards) h2)"
    using load h1(1) login by (cases res2) (auto simp: h_def admit_def and_then_def)
  with ctl have c: "control (list_ex asks_push cards) (list_ex asks_private cards) h2 h" using ctl.R_refl by auto
  from readonly_trans [OF readonly_EnsureSyncSchema, of q "h_repo h"] c h2 show "readonly q (h_repo h)" by (simp add: control_def)
  from c h2 show "h_filesRecvd h = 0" "user_caps q (h_caps h)"
    "h_pushOK h \<Longrightarrow> list_ex asks_push cards \<and> CanPush (h_caps h)"
    "h_syncPrivate h \<Longrightarrow> list_ex asks_private cards \<and> CanSyncPrivate (h_caps h)"
    by (auto simp: control_def)
qed

lemma identify_simps [simp]:
  "h_repo (identify h) = h_repo h" "h_filesRecvd (identify h) = h_filesRecvd h" "h_pushOK (identify h) = h_pushOK h"
  "h_syncPrivate (identify h) = h_syncPrivate h" "h_caps (identify h) = h_caps h"
  by (simp_all add: identify_def Let_def)

lemma fst_HandleSync: "fst (HandleSync E q cards) = h_repo (fst (process E cards (new_handler q)))"
  by (auto simp: HandleSync_def split: prod.split outcome.split)


section \<open>Content is safe from requests\<close>

definition small_card :: "Card \<Rightarrow> bool" where
  "small_card c = (case c of FileCard _ d p \<Rightarrow> small_file d p | CFileCard _ d _ p \<Rightarrow> small_file d p | _ \<Rightarrow> True)"

definition safe :: "libs \<Rightarrow> repo \<Rightarrow> repo \<Rightarrow> bool" where
  "safe L q q' \<longleftrightarrow> (wf_repo q \<and> authentic L q \<longrightarrow> keeps L q q')"

lemma safe_refl [simp]: "safe L q q"
  by (simp add: safe_def)

lemma safe_trans: "safe L q q1 \<Longrightarrow> safe L q1 q2 \<Longrightarrow> safe L q q2"
  unfolding safe_def by (meson keeps_def keeps_trans)

interpretation sf: quiet_relation "\<lambda>h h'. safe L (h_repo h) (h_repo h')" for L
  by unfold_locales (auto intro: safe_trans)

lemma core_eq:
  assumes "core q = core q'"
  shows "t_blob q = t_blob q'" "t_delta q = t_delta q'" "t_private q = t_private q'" "t_user q = t_user q'" "t_shun q = t_shun q'"
  using arg_cong [OF assms, of t_blob] arg_cong [OF assms, of t_delta] arg_cong [OF assms, of t_private]
    arg_cong [OF assms, of t_user] arg_cong [OF assms, of t_shun]
  by (simp_all add: core_def)

lemma safe_core: "core q' = core q \<Longrightarrow> safe L q q'"
  using core_eq [of q' q] by (simp add: safe_def keeps_same)

lemma wf_repo_core: "core q' = core q \<Longrightarrow> wf_repo q \<Longrightarrow> wf_repo q'"
  using core_eq [of q' q] by (simp add: wf_repo_def)

text \<open>What storing a file leaves: the private marks change for that file only.\<close>

lemma StorePhantom_private: "t_private (fst (StorePhantom q u)) = t_private q"
  by (auto simp: StorePhantom_def with_tx_def insert_blob_def Let_def split: outcome.splits option.splits prod.splits if_splits)

lemma cluster_members_private: "t_private (fst (cluster_members q us)) = t_private q"
proof (induction q us rule: cluster_members.induct)
  case (2 q u us)
  show ?case
  proof (cases "Exists q u")
    case (Ok m)
    obtain q1 res where p: "StorePhantom q u = (q1, res)" by fastforce
    with StorePhantom_private [of q u] have "t_private q1 = t_private q" by simp
    with 2 Ok p show ?thesis by (cases m; cases res) auto
  qed simp_all
qed simp

lemma CrosslinkCluster_private: "t_private (fst (CrosslinkCluster q r d)) = t_private q"
  by (simp add: CrosslinkCluster_def cluster_members_private)

lemma insert_received_private: "t_private (fst (insert_received L q u c)) = t_private q"
proof (cases "insert_blob q u (int (length c)) (Some (Compress (l_deflate L) c)) 1")
  case (Ok x)
  obtain q1 r where x: "x = (q1, r)" by fastforce
  with Ok have "t_private q1 = t_private q" by (auto simp: insert_blob_def Let_def split: if_splits)
  then have "t_private (mark_unclustered q1 r) = t_private q" by (simp add: mark_unclustered_def)
  with Ok x CrosslinkCluster_private [of "mark_unclustered q1 r" r] show ?thesis
    by (auto simp: insert_received_def Let_def split: outcome.split prod.split) (metis fst_conv)+
qed (simp_all add: insert_received_def)

lemma storeReceivedFile_private: "t_private (fst (storeReceivedFile L q u d p)) = t_private q"
proof -
  have "t_private (fst (storeReceived_tx L q u c)) = t_private q" for c
    by (auto simp: storeReceived_tx_def insert_received_private fill_phantom_def split: option.split)
  then have "t_private (fst (with_tx q (storeReceived_tx L q u c))) = t_private q" for c
    by (auto simp: with_tx_def split: prod.split outcome.split) (metis fst_conv)
  then show ?thesis by (auto simp: storeReceivedFile_def split: outcome.split)
qed

text \<open>The repository after a file card.\<close>

lemma handleFile_repo:
  fixes E u d p h
  defines "q1 \<equiv> fst (storeReceivedFile (e_L E) (h_repo h) u d p)" and "q' \<equiv> h_repo (fst (handleFile E u d p h))"
  obtains (same) "q' = h_repo h" | (stored) "q' = q1"
  | (marked) r m where "q' = q1\<lparr>t_private := m\<rparr>" "map_option bl_rid (blob_by_uuid q1 u) = Some r"
      "\<And>x. x \<noteq> r \<Longrightarrow> x \<in> set (t_private (h_repo h)) \<Longrightarrow> x \<in> set m"
proof (cases "u = [] \<or> \<not> h_pushOK h")
  case True
  then show thesis using same by (auto simp: q'_def handleFile_def)
next
  case False
  obtain q2 res where store: "storeReceivedFile (e_L E) (h_repo h) u d p = (q2, res)" by fastforce
  then have q1: "q1 = q2" "t_private q2 = t_private (h_repo h)"
    using storeReceivedFile_private [of "e_L E" "h_repo h" u d p] by (simp_all add: q1_def)
  show thesis
  proof (cases res)
    case (Ok x)
    show thesis
    proof (cases "blob_by_uuid q2 u")
      case None
      with False store Ok q1 show thesis
        by (intro stored) (simp add: q'_def handleFile_def attempt_card_def attempt_def Exists_def)
    next
      case (Some b)
      let ?mk = "if h_nextIsPrivate h then MakePrivate q2 (bl_rid b) else MakePublic q2 (bl_rid b)"
      have q': "q' = (case ?mk of Ok q3 \<Rightarrow> q3 | _ \<Rightarrow> q2)"
        using False store Ok Some
        by (simp add: q'_def handleFile_def attempt_card_def attempt_def Exists_def split: outcome.split)
      show thesis
      proof (cases "bl_rid b \<le> 0")
        case True
        with q' q1 show thesis by (intro stored) (auto simp: MakePrivate_def MakePublic_def)
      next
        case pos: False
        with q' q1 Some show thesis
          by (cases "h_nextIsPrivate h") (auto simp: MakePrivate_def MakePublic_def intro!: marked)
      qed
    qed
  next
    case (Err e)
    with False store q1 show thesis by (intro stored) (simp add: q'_def handleFile_def attempt_card_def)
  next
    case (Panic s)
    with False store q1 show thesis by (intro stored) (simp add: q'_def handleFile_def attempt_card_def)
  qed
qed

lemma safe_handleFile:
  assumes "zlib_writer (l_deflate (e_L E)) (l_inflate (e_L E))" "small_file d p"
  shows "safe (e_L E) (h_repo h) (h_repo (fst (handleFile E u d p h)))"
proof -
  let ?q1 = "fst (storeReceivedFile (e_L E) (h_repo h) u d p)"
  have 1: "safe (e_L E) (h_repo h) ?q1"
    using keeps_storeReceivedFile [OF assms] by (simp add: safe_def)
  have "safe (e_L E) ?q1 (?q1\<lparr>t_private := m\<rparr>)" for m by (simp add: safe_def keeps_same)
  with 1 have 2: "safe (e_L E) (h_repo h) (?q1\<lparr>t_private := m\<rparr>)" for m by (rule safe_trans)
  show ?thesis by (rule handleFile_repo [of E u d p h]) (use 1 2 in simp_all)
qed

lemma safe_handleDataCard:
  assumes "zlib_writer (l_deflate (e_L E)) (l_inflate (e_L E))" "small_card c"
  shows "safe (e_L E) (h_repo h) (h_repo (fst (handleDataCard E c h)))"
proof (cases "is_file_card c")
  case True
  with assms safe_handleFile [OF assms(1)] show ?thesis
    by (cases c) (auto simp: is_file_card_def handleDataCard_def small_card_def)
next
  case False
  then show ?thesis using tame_handleDataCard [of c h E] by (auto simp: tame_def intro: safe_core)
qed

lemma safe_tame: "tame h h' \<Longrightarrow> safe L (h_repo h) (h_repo h')"
  by (simp add: tame_def safe_core)

lemma safe_processDataCards:
  assumes "zlib_writer (l_deflate (e_L E)) (l_inflate (e_L E))" "list_all small_card cards"
  shows "safe (e_L E) (h_repo h) (h_repo (fst (processDataCards E cards h)))"
  unfolding processDataCards_def using assms
  by (intro sf.R_and_then sf.R_each safe_handleDataCard)
     (auto simp: list_all_iff intro!: safe_tame tame_trans [OF tame_announce tame_emitXIGots] tame_emitCloneBatch)

lemma safe_crosslink: "safe L (h_repo h) (h_repo (fst (crosslink_received E h)))"
proof -
  obtain q1 n res where run: "Crosslink (e_L E) (e_unicode E) (h_repo h) = (q1, n, res)" by (metis prod_cases3)
  then have "safe L (h_repo h) q1"
    using grows_sweep [of "h_repo h" "e_L E" "e_unicode E" "candidates (h_repo h)" 0]
    by (simp add: Crosslink_def keeps_grows safe_def)
  with run show ?thesis by (cases res) (simp_all add: crosslink_received_def attempt_def Let_def)
qed

lemma process_resp: "fst (process E cards h) = fst (admit E cards h) \<or>
    fst (process E cards h) = fst (processDataCards E cards (identify (fst (admit E cards h)))) \<or>
    fst (process E cards h) = fst (crosslink_received E (fst (processDataCards E cards (identify (fst (admit E cards h))))))"
proof (cases "admit E cards h")
  case (Pair h1 res)
  then show ?thesis
    by (cases "processDataCards E cards (identify h1)"; cases res; cases "snd (processDataCards E cards (identify h1))")
      (auto simp: process_def and_then_def)
qed

text \<open>
  Claim C5.  Whatever a client sends, and whether the round succeeds, fails or panics, the repository
  of the server stays well-formed, every artifact it holds keeps its row and its content,
  and every row with content still expands to content of its name.
\<close>

theorem HandleSync_content_safe:
  assumes "zlib_writer (l_deflate (e_L E)) (l_inflate (e_L E))" "list_all small_card cards"
    and "wf_repo q" "authentic (e_L E) q"
  shows "wf_repo (fst (HandleSync E q cards)) \<and> authentic (e_L E) (fst (HandleSync E q cards)) \<and>
    (\<forall>u c. holds (e_L E) q u c \<longrightarrow> holds (e_L E) (fst (HandleSync E q cards)) u c)"
proof -
  let ?h = "fst (admit E cards (new_handler q))"
  have adm: "safe (e_L E) q (h_repo ?h)" using admit_spec(1) readonly_core safe_core by blast
  have dat: "safe (e_L E) q (h_repo (fst (processDataCards E cards (identify ?h))))"
    using safe_trans [OF adm] safe_processDataCards [OF assms(1,2), of "identify ?h"] by simp
  have "safe (e_L E) q (fst (HandleSync E q cards))"
    unfolding fst_HandleSync
    using process_resp [of E cards "new_handler q"] adm dat safe_trans [OF dat safe_crosslink] by metis
  with assms(3,4) have "keeps (e_L E) q (fst (HandleSync E q cards))" by (simp add: safe_def)
  with assms(3,4) keeps_holds show ?thesis unfolding keeps_def by blast
qed

section \<open>Instances\<close>

definition toy_xlib :: xlib where
  "toy_xlib = \<lparr>x_sha1 = l_sha1 toy_libs, x_float_int = sint, x_int_float = word_of_int, x_show_float = (\<lambda>w. show_int (sint w)),
     x_parse_float = (\<lambda>s. map_option word_of_int (Atoi s)), x_keyword = (\<lambda>_. False), x_affinity = (\<lambda>_ v. v),
     x_def_of_json = (\<lambda>_. None), x_json_of_def = (\<lambda>_. ''{}''), x_row_of_json = (\<lambda>_. None), x_json_of_row = (\<lambda>_. Some ''{}'')\<rparr>"

definition toy_env :: env where
  "toy_env = \<lparr>e_L = toy_libs, e_X = toy_xlib, e_unicode = id, e_now = 10 ^ 9, e_datetime = show_int, e_text = (\<lambda>_. ''error''),
     e_lock_json = (\<lambda>(c, u, t). c @ [SPC] @ u), e_json_lock = (\<lambda>_. None)\<rparr>"

definition toy_row :: "rid \<Rightarrow> bytes \<Rightarrow> blob_row" where
  "toy_row r s = \<lparr>bl_rid = r, bl_rcvid = 1, bl_size = int (length s), bl_uuid = l_sha1 toy_libs s,
     bl_content = Some (Compress sample_deflate s)\<rparr>"

text \<open>A server with a public and a private artifact; anyone may clone, push and pull.\<close>

definition toy_server :: repo where
  "toy_server = empty_repo\<lparr>t_blob := [toy_row 1 ''hello'', toy_row 2 ''secret''], t_private := [2],
     t_user := [\<lparr>us_uid = 1, us_login = ''nobody'', us_pw = None, us_cap = ''gio'', us_cexpire = None, us_info = None\<rparr>]\<rparr>"

lemma toy_server_wf: "wf_repo toy_server"
proof -
  have "l_sha1 toy_libs ''hello'' \<noteq> l_sha1 toy_libs ''secret''" by code_simp
  then show ?thesis by (simp add: wf_repo_def toy_server_def toy_row_def empty_repo_def) (simp add: toy_libs_def)
qed

lemma toy_server_expands:
  "expands (l_inflate toy_libs) toy_server 1 ''hello''" "expands (l_inflate toy_libs) toy_server 2 ''secret''"
proof -
  have "Load (l_inflate toy_libs) False toy_server 1 = Ok ''hello''" "Load (l_inflate toy_libs) False toy_server 2 = Ok ''secret''"
    using Load_compressed [OF sample_zlib, of 1 toy_server "toy_row 1 ''hello''" "''hello''"]
      Load_compressed [OF sample_zlib, of 2 toy_server "toy_row 2 ''secret''" "''secret''"]
    by (simp_all add: toy_server_def toy_row_def blob_by_rid_def toy_libs_def)
  then show "expands (l_inflate toy_libs) toy_server 1 ''hello''" "expands (l_inflate toy_libs) toy_server 2 ''secret''"
    by (auto intro!: expands.expands_root simp: toy_server_def delta_src_def empty_repo_def)
qed

lemma toy_server_authentic: "authentic toy_libs toy_server"
  using toy_server_expands
  by (auto simp: authentic_def toy_server_def toy_row_def digest_def toy_libs_def)

lemma toy_zlib: "zlib_writer (l_deflate (e_L toy_env)) (l_inflate (e_L toy_env))"
  using sample_zlib by (simp add: toy_env_def toy_libs_def)


theorem HandleSync_content_safe_witness:
  "let q = fst (HandleSync toy_env toy_server [PushCard [] [], FileCard (l_sha1 toy_libs ''new'') [] ''new''])
   in wf_repo q \<and> authentic toy_libs q \<and> holds toy_libs q (l_sha1 toy_libs ''hello'') ''hello''"
proof -
  have "holds toy_libs toy_server (l_sha1 toy_libs ''hello'') ''hello''"
    using toy_server_expands(1) by (simp add: holds_def toy_server_def blob_by_uuid_def toy_row_def)
  with HandleSync_content_safe [OF toy_zlib _ toy_server_wf, of "[PushCard [] [], FileCard (l_sha1 toy_libs ''new'') [] ''new'']"]
    toy_server_authentic
  show ?thesis by (simp add: small_card_def small_file_def toy_env_def Let_def)
qed

end
