(* ===== verification/Handler_Private.thy ===== *)
theory Handler_Private
  imports Handler_Props
begin

text \<open>
  Private artifacts on the server: which cards of a response can carry or name an artifact,
  and that private ones are left out.
\<close>

section \<open>Cards that carry or name an artifact\<close>

definition reveals :: "bytes \<Rightarrow> Card \<Rightarrow> bool" where
  "reveals u c = (case c of FileCard v _ _ \<Rightarrow> v = u | CFileCard v _ _ _ \<Rightarrow> v = u | IGotCard v _ \<Rightarrow> v = u | _ \<Rightarrow> False)"

lemma reveals_simps [simp]:
  "reveals u (FileCard v d c) \<longleftrightarrow> v = u" "reveals u (IGotCard v p) \<longleftrightarrow> v = u" "\<not> reveals u (ErrorCard t)"
  "\<not> reveals u (GimmeCard v)" "\<not> reveals u PrivateCard" "\<not> reveals u (UVFileCard n m hh z f c)" "\<not> reveals u (UVGimmeCard n)"
  "\<not> reveals u (UVIGotCard n m hh z)" "\<not> reveals u (PragmaCard n vs)" "\<not> reveals u (SchemaCard t i hh m c)"
  "\<not> reveals u (XIGotCard t k m)" "\<not> reveals u (XGimmeCard t k)" "\<not> reveals u (XRowCard t k m c)"
  "\<not> reveals u (XDeleteCard t k m d)" "\<not> reveals u (ConfigCard n c)" "\<not> reveals u (PushCard a b)"
  "\<not> reveals u (CookieCard n)" "\<not> reveals u (CloneSeqNoCard i)"
  by (simp_all add: reveals_def)

text \<open>Steps whose answers carry none; \<open>u\<close> is any name.\<close>

definition mute :: "handler \<Rightarrow> handler \<Rightarrow> bool" where
  "mute h h' \<longleftrightarrow> (\<forall>u. list_ex (reveals u) (h_resp h') \<longrightarrow> list_ex (reveals u) (h_resp h))"

interpretation mt: step_relation mute
  by unfold_locales (auto simp: mute_def)

lemma mute_respond: "mute h h1 \<Longrightarrow> (\<And>u. \<not> list_ex (reveals u) cs) \<Longrightarrow> mute h (respond h1 cs)"
  by (auto simp: mute_def)

lemma mute_error: "mute h h1 \<Longrightarrow> (\<And>x. m = Ok x \<Longrightarrow> mute h (fst (f x))) \<Longrightarrow> mute h (fst (attempt_card E h1 p w m f))"
  by (intro mt.R_attempt_card mute_respond) simp_all

lemma mute_report: "mute h (fst s) \<Longrightarrow> mute h (fst (report_error E p s))"
  by (cases s; cases "snd s") (auto simp: report_error_def intro: mute_respond)

lemma mute_other [simp]:
  "mute h (h1\<lparr>h_repo := q\<rparr>) = mute h h1" "mute h (h1\<lparr>h_remoteHas := r\<rparr>) = mute h h1"
  "mute h (h1\<lparr>h_syncedTables := t\<rparr>) = mute h h1" "mute h (h1\<lparr>h_uvCatalogSent := b\<rparr>) = mute h h1"
  "mute h (h1\<lparr>h_reqClusters := b\<rparr>) = mute h h1" "mute h (h1\<lparr>h_cloneMode := b\<rparr>) = mute h h1"
  "mute h (h1\<lparr>h_cloneSeq := n\<rparr>) = mute h h1" "mute h (h1\<lparr>h_cloneSnapMax := n\<rparr>) = mute h h1"
  "mute h (h1\<lparr>h_pullOK := b\<rparr>) = mute h h1" "mute h (h1\<lparr>h_pushOK := b\<rparr>) = mute h h1"
  "mute h (h1\<lparr>h_syncPrivate := b\<rparr>) = mute h h1" "mute h (h1\<lparr>h_nextIsPrivate := b\<rparr>) = mute h h1"
  "mute h (h1\<lparr>h_xrowsSent := n\<rparr>) = mute h h1" "mute h (h1\<lparr>h_xrowsRecvd := n\<rparr>) = mute h h1"
  "mute h (h1\<lparr>h_filesRecvd := n\<rparr>) = mute h h1" "mute h (h1\<lparr>h_filesSent := n\<rparr>) = mute h h1"
  "mute h (h1\<lparr>h_user := u, h_caps := c, h_authed := b\<rparr>) = mute h h1"
  by (simp_all add: mute_def)

lemmas mute_rules = mt.R_refl mt.R_done mt.R_attempt mt.R_and_then mute_error mute_report mute_respond

lemma mute_login: "mute h (fst (handle_login E c h))"
  by (cases c) (auto simp: handle_login_def handleLoginCard_def intro!: mute_rules split: option.split outcome.split)

lemma mute_emitXIGotsForTable: "mute h h1 \<Longrightarrow> mute h (fst (emitXIGotsForTable E table def h1))"
  by (rule mt.R_trans, assumption)
     (auto simp: emitXIGotsForTable_def intro!: mute_rules mt.R_each split: prod.split)

lemma mute_emitXIGots: "mute h (fst (emitXIGots E h))"
  by (auto simp: emitXIGots_def Let_def intro!: mt.R_each mute_emitXIGotsForTable mute_rules split: prod.split)

lemma mute_pragma: "mute h (fst (handlePragma E name values h))"
proof -
  have uv: "mute h (fst (handlePragmaUVHash E c h))" for c
    by (auto simp: handlePragmaUVHash_def list_ex_iff Let_def intro!: mute_rules split: prod.split)
  have xt: "mute h (fst (handlePragmaXTableHash E t c h))" for t c
    by (auto simp: handlePragmaXTableHash_def intro!: mute_rules mute_emitXIGotsForTable split: option.split)
  show ?thesis
    unfolding handlePragma_def
    by (simp add: mute_report uv xt split_beta Let_def mt.R_refl mute_respond split: option.split)
qed

lemma mute_schema: "mute h (fst (handleSchemaCard E table m c h))"
  by (auto simp: handleSchemaCard_def cache_table_def Let_def intro!: mute_rules split: prod.split option.split)

lemma mute_handleControlCard: "mute h (fst (handleControlCard E c h))"
  by (cases c) (auto simp: handleControlCard_def mute_pragma mute_schema intro!: mute_rules split: option.split)

lemma mute_sendUVFile: "mute h h1 \<Longrightarrow> mute h (fst (sendUVFile E name h1))"
  by (auto simp: sendUVFile_def Let_def intro!: mute_rules split: prod.split if_splits)

lemma mute_uvigot: "mute h (fst (handleUVIGot E name m c h))"
  by (auto simp: handleUVIGot_def Let_def intro!: mute_rules mute_sendUVFile split: prod.split)

lemma mute_apply_uvfile: "mute h h1 \<Longrightarrow> mute h (fst (apply_uvfile E name m c f d h1))"
  by (auto simp: apply_uvfile_def intro!: mute_rules split: prod.split)

lemma mute_uvfile: "mute h (fst (handleUVFile E name m c f d h))"
proof -
  have "mute h (respond h1 [ErrorCard t])" if "mute h h1" for h1 t by (intro mute_respond that) simp
  then show ?thesis
    by (cases "ContentHash (l_sha1 (e_L E)) (l_sha3 (e_L E)) d c")
      (simp_all add: handleUVFile_def Let_def mute_apply_uvfile mt.R_refl)
qed

lemma mute_sendXRow: "mute h (fst (sendXRow E table def k h))"
  by (auto simp: sendXRow_def intro!: mute_rules split: option.split prod.split)

lemma mute_xigot: "mute h (fst (handleXIGot E table k m h))"
  by (auto simp: handleXIGot_def sendXDelete_def mute_sendXRow intro!: mute_rules split: option.splits prod.split)

lemma mute_xrow: "mute h (fst (handleXRow E table k m c h))"
proof -
  have "mute h h1" if "verifyXRowPKHash E table k c def h = (h1, res)" for def h1 res
    using that by (auto simp: verifyXRowPKHash_def mt.R_refl intro!: mute_respond
        split: option.splits outcome.splits if_splits)
  then show ?thesis
    by (auto simp: handleXRow_def intro!: mute_rules split: option.split prod.split outcome.split)
qed

lemma mute_xdelete: "mute h (fst (handleXDelete E table k m d h))"
  by (auto simp: handleXDelete_def intro!: mute_rules split: option.split prod.split)

lemma mute_handleFile: "mute h (fst (handleFile E u d p h))"
  by (auto simp: handleFile_def Let_def intro!: mute_rules split: option.split prod.split)

lemma mute_handleDataCard: "(\<And>u. c \<noteq> GimmeCard u) \<Longrightarrow> mute h (fst (handleDataCard E c h))"
  by (cases c)
     (auto simp: handleDataCard_def handleUVGimme_def handleXGimme_def handleReqConfig_def handleIGot_def
        mute_handleFile mute_uvigot mute_uvfile mute_sendUVFile [OF mt.R_refl] mute_xigot mute_xrow mute_xdelete mute_sendXRow
        intro!: mute_rules split: option.split prod.split)

lemma mute_identify: "mute h (identify h)"
  by (auto simp: identify_def Let_def intro!: mute_rules)

section \<open>Private artifacts stay private\<close>

definition private_uuids :: "repo \<Rightarrow> bytes list" where
  "private_uuids q = map bl_uuid (filter (\<lambda>b. bl_rid b \<in> set (t_private q)) (t_blob q))"

definition file_uuids :: "Card list \<Rightarrow> bytes list" where
  "file_uuids cards = concat (map (\<lambda>c. case c of FileCard u _ _ \<Rightarrow> [u] | CFileCard u _ _ _ \<Rightarrow> [u] | _ \<Rightarrow> []) cards)"

definition marked_private :: "repo \<Rightarrow> bytes \<Rightarrow> bool" where
  "marked_private q u \<longleftrightarrow> (case blob_by_uuid q u of None \<Rightarrow> False | Some b \<Rightarrow> bl_rid b \<in> set (t_private q))"

text \<open>The secret \<open>u\<close> is marked and has not left the server.\<close>

definition guarded :: "libs \<Rightarrow> bytes \<Rightarrow> handler \<Rightarrow> bool" where
  "guarded L u h \<longleftrightarrow> \<not> h_syncPrivate h \<and> wf_repo (h_repo h) \<and> authentic L (h_repo h) \<and> marked_private (h_repo h) u \<and>
     \<not> list_ex (reveals u) (h_resp h)"

definition guards :: "libs \<Rightarrow> bytes \<Rightarrow> handler \<Rightarrow> handler \<Rightarrow> bool" where
  "guards L u h h' \<longleftrightarrow> (guarded L u h \<longrightarrow> guarded L u h')"

interpretation gd: step_relation "guards L u" for L u
  by unfold_locales (auto simp: guards_def)

lemma marked_core: "core q' = core q \<Longrightarrow> marked_private q' u = marked_private q u"
  using core_eq [of q' q] by (simp add: marked_private_def blob_by_uuid_def split: option.split)

lemma marked_row: "wf_repo q \<Longrightarrow> marked_private q (bl_uuid b) \<Longrightarrow> b \<in> set (t_blob q) \<Longrightarrow> bl_rid b \<in> set (t_private q)"
  using blob_by_uuid_member [of q b] by (simp add: marked_private_def)

text \<open>A step that leaves the core tables, the grants and the revealing cards alone.\<close>

lemma guarded_tame: "tame h h' \<Longrightarrow> (guarded L u h \<Longrightarrow> list_ex (reveals u) (h_resp h') \<Longrightarrow> list_ex (reveals u) (h_resp h)) \<Longrightarrow> guards L u h h'"
proof -
  assume t: "tame h h'" and r: "guarded L u h \<Longrightarrow> list_ex (reveals u) (h_resp h') \<Longrightarrow> list_ex (reveals u) (h_resp h)"
  from t have core: "core (h_repo h') = core (h_repo h)" and g: "same_grants h h'" by (simp_all add: tame_def)
  from core have "keeps L (h_repo h) (h_repo h')" using core_eq [OF core] by (intro keeps_same) simp_all
  with g r marked_core [OF core] show ?thesis by (auto simp: guards_def guarded_def same_grants_def keeps_def)
qed

lemma guards_mute: "tame h h' \<Longrightarrow> mute h h' \<Longrightarrow> guards L u h h'"
  by (rule guarded_tame) (auto simp: mute_def)

lemma guards_gimme: "guards L u h (fst (handleGimme E v h))"
proof (rule guarded_tame)
  show "tame h (fst (handleGimme E v h))" using tame_handleDataCard [of "GimmeCard v" h E] by (simp add: is_file_card_def handleDataCard_def)
  assume "guarded L u h" and new: "list_ex (reveals u) (h_resp (fst (handleGimme E v h)))"
  then have "\<not> h_syncPrivate h" "marked_private (h_repo h) u" by (simp_all add: guarded_def)
  with new show "list_ex (reveals u) (h_resp h)"
    by (auto simp: handleGimme_def attempt_def attempt_card_def Exists_def IsPrivate_def marked_private_def
        split: outcome.splits option.splits if_splits)
qed

lemma guards_file:
  assumes "zlib_writer (l_deflate (e_L E)) (l_inflate (e_L E))" "small_file d p" "v \<noteq> u"
  shows "guards (e_L E) u h (fst (handleFile E v d p h))"
proof -
  let ?q = "h_repo h" and ?q1 = "fst (storeReceivedFile (e_L E) (h_repo h) v d p)" and ?h' = "fst (handleFile E v d p h)"
  have "marked_private (h_repo ?h') u"
    if wf: "wf_repo ?q" and auth: "authentic (e_L E) ?q" and m: "marked_private ?q u"
  proof -
    have k: "keeps (e_L E) ?q ?q1" by (rule keeps_storeReceivedFile [OF assms(1,2) wf])
    with wf auth have wf1: "wf_repo ?q1" by (simp add: keeps_def)
    from m obtain b where b: "blob_by_uuid ?q u = Some b" "bl_rid b \<in> set (t_private ?q)"
      by (auto simp: marked_private_def split: option.splits)
    with k have "map_option bl_rid (blob_by_uuid ?q1 u) = Some (bl_rid b)" by (simp add: keeps_def)
    then obtain b1 where b1: "blob_by_uuid ?q1 u = Some b1" "bl_rid b1 = bl_rid b" by auto
    have "blob_by_uuid (x\<lparr>t_private := y\<rparr>) z = blob_by_uuid x z" for x y z by (simp add: blob_by_uuid_def)
    note upd = this
    show ?thesis
    proof (rule handleFile_repo [of E v d p h])
      assume "h_repo ?h' = ?q"
      with m show ?thesis by simp
    next
      assume "h_repo ?h' = ?q1"
      with b b1 storeReceivedFile_private [of "e_L E" ?q v d p] show ?thesis by (simp add: marked_private_def)
    next
      fix r marks assume q': "h_repo ?h' = ?q1\<lparr>t_private := marks\<rparr>" and r: "map_option bl_rid (blob_by_uuid ?q1 v) = Some r"
        and stay: "\<And>x. x \<noteq> r \<Longrightarrow> x \<in> set (t_private ?q) \<Longrightarrow> x \<in> set marks"
      from r obtain c where c: "blob_by_uuid ?q1 v = Some c" "bl_rid c = r" by auto
      have "bl_rid b1 \<noteq> r"
      proof
        assume "bl_rid b1 = r"
        moreover from b1 c have "b1 \<in> set (t_blob ?q1)" "c \<in> set (t_blob ?q1)" "bl_uuid b1 = u" "bl_uuid c = v"
          by (auto dest: blob_by_uuid_Some)
        ultimately have "b1 = c" using blob_by_rid_member [OF wf1] c(2) by (metis option.inject)
        with assms(3) \<open>bl_uuid b1 = u\<close> \<open>bl_uuid c = v\<close> show False by simp
      qed
      with stay b b1 have "bl_rid b1 \<in> set marks" by simp
      with q' b1 upd show ?thesis by (simp add: marked_private_def)
    qed
  qed
  moreover have "safe (e_L E) ?q (h_repo ?h')" by (rule safe_handleFile [OF assms(1,2)])
  moreover have "mute h ?h'" by (rule mute_handleFile)
  moreover have "same_grants h ?h'" by (rule handleFile_grants)
  ultimately show ?thesis
    by (auto simp: guards_def guarded_def safe_def keeps_def mute_def same_grants_def)
qed

lemma guards_handleDataCard:
  assumes "zlib_writer (l_deflate (e_L E)) (l_inflate (e_L E))" "small_card c" "u \<notin> set (file_uuids [c])"
  shows "guards (e_L E) u h (fst (handleDataCard E c h))"
proof (cases "is_file_card c")
  case True
  then show ?thesis
  proof (cases c)
    case PrivateCard
    have "tame h (fst (handleDataCard E c h))" using PrivateCard by (simp add: handleDataCard_def tm.R_refl)
    moreover have "mute h (fst (handleDataCard E c h))" using PrivateCard by (intro mute_handleDataCard) simp
    ultimately show ?thesis by (rule guards_mute)
  qed (use assms guards_file [OF assms(1)] in \<open>simp_all add: is_file_card_def handleDataCard_def small_card_def file_uuids_def\<close>)
next
  case False
  then have t: "tame h (fst (handleDataCard E c h))" by (rule tame_handleDataCard)
  show ?thesis
  proof (cases "\<exists>v. c = GimmeCard v")
    case True
    then show ?thesis using guards_gimme by (auto simp: handleDataCard_def)
  next
    case False
    then have "mute h (fst (handleDataCard E c h))" by (intro mute_handleDataCard) blast
    with t show ?thesis by (rule guards_mute)
  qed
qed

lemma guards_announce: "guards L u h (emitIGots h)"
proof (rule guarded_tame [OF tame_announce])
  assume g: "guarded L u h" and new: "list_ex (reveals u) (h_resp (emitIGots h))"
  then have "\<not> h_syncPrivate h" "wf_repo (h_repo h)" "marked_private (h_repo h) u" by (simp_all add: guarded_def)
  with new marked_row [of "h_repo h"] show "list_ex (reveals u) (h_resp h)"
    by (auto simp: emitIGots_def Let_def list_ex_iff)
qed

lemma clone_loop_hides:
  assumes "guarded L u h" "set bs \<subseteq> set (t_blob (h_repo h))"
  shows "guarded L u (fst (clone_loop E bs n l h))"
  using assms
proof (induction E bs n l h rule: clone_loop.induct)
  case (2 E b bs sent l h)
  show ?case
  proof (cases "IsPrivate (h_repo h) (bl_rid b)")
    case (Ok priv)
    then have priv: "priv \<longleftrightarrow> bl_rid b \<in> set (t_private (h_repo h))" by (auto simp: IsPrivate_def split: if_splits)
    show ?thesis
    proof (cases "priv \<or> sent \<ge> DefaultCloneBatchSize")
      case True
      with 2 Ok show ?thesis by (auto simp: guarded_def)
    next
      case False
      show ?thesis
      proof (cases "expand (e_L E) (h_repo h) (bl_rid b)")
        case data: (Ok data)
        let ?h = "(respond h ((if priv then [PrivateCard] else []) @ [FileCard (bl_uuid b) [] data]))\<lparr>h_filesSent := h_filesSent h + 1\<rparr>"
        have "bl_uuid b \<noteq> u" using False priv 2(3,4) marked_row [of "h_repo h" b] by (auto simp: guarded_def)
        with 2(3) False have "guarded L u ?h" by (simp add: guarded_def)
        with 2(2) [OF Ok _ _ data] 2(4) False have "guarded L u (fst (clone_loop E bs (sent + 1) (bl_rid b) ?h))" by simp
        with Ok False data show ?thesis by simp
      qed (use Ok False 2 in auto)
    qed
  qed (use 2 in simp_all)
qed simp

lemma guards_clone: "guards L u h (fst (emitCloneBatch E h))"
  unfolding guards_def
proof
  assume g: "guarded L u h"
  let ?h1 = "clone_snapshot h" and ?rows = "clone_rows (h_repo (clone_snapshot h)) (h_cloneSeq (clone_snapshot h)) (h_cloneSnapMax (clone_snapshot h))"
  from g have "guarded L u ?h1" by (simp add: guarded_def clone_snapshot_def)
  moreover have "set ?rows \<subseteq> set (t_blob (h_repo ?h1))" by (auto simp: clone_rows_def)
  ultimately have "guarded L u (fst (clone_loop E ?rows 0 0 ?h1))" by (rule clone_loop_hides)
  then show "guarded L u (fst (emitCloneBatch E h))"
    by (cases "clone_loop E ?rows 0 0 ?h1"; cases "snd (clone_loop E ?rows 0 0 ?h1)")
      (auto simp: emitCloneBatch_def guarded_def)
qed

lemma guards_processDataCards:
  assumes "zlib_writer (l_deflate (e_L E)) (l_inflate (e_L E))" "list_all small_card cards" "u \<notin> set (file_uuids cards)"
  shows "guards (e_L E) u h (fst (processDataCards E cards h))"
proof -
  have card: "small_card c \<and> u \<notin> set (file_uuids [c])" if "c \<in> set cards" for c
    using that assms(2,3) by (auto simp: list_all_iff file_uuids_def)
  show ?thesis
    unfolding processDataCards_def
    using card guards_mute [OF tame_emitXIGots mute_emitXIGots] gd.R_trans [OF guards_announce]
    by (intro gd.R_and_then gd.R_each guards_handleDataCard [OF assms(1)])
       (auto simp: guards_clone gd.R_refl)
qed


text \<open>A pull request for both artifacts of the sample server.\<close>

definition toy_pull :: "Card list" where
  "toy_pull = [PullCard [] [], GimmeCard (l_sha1 toy_libs ''secret''), GimmeCard (l_sha1 toy_libs ''hello'')]"

lemma toy_pull_response:
  "HandleSync toy_env toy_server toy_pull =
     (EnsureSyncSchema toy_server, Ok [FileCard (l_sha1 toy_libs ''hello'') [] ''hello'', IGotCard (l_sha1 toy_libs ''hello'') False])"
proof -
  let ?q = "EnsureSyncSchema toy_server"
  have ne: "l_sha1 toy_libs ''hello'' \<noteq> l_sha1 toy_libs ''secret''" by code_simp
  have same: "core ?q = core toy_server" by (simp add: EnsureSyncSchema_def)
  have "keeps toy_libs toy_server ?q" using core_eq [OF same] by (intro keeps_same) simp_all
  then have "expands (l_inflate toy_libs) ?q 1 ''hello''" using toy_server_expands by (simp add: keeps_def)
  then have ex: "expand toy_libs ?q 1 = Ok ''hello''" by (simp add: Expand_eq_expands)
  have rows: "blob_by_uuid ?q (l_sha1 toy_libs ''hello'') = Some (toy_row 1 ''hello'')"
      "blob_by_uuid ?q (l_sha1 toy_libs ''secret'') = Some (toy_row 2 ''secret'')" "t_private ?q = [2]" "t_shun ?q = []"
      "t_blob ?q = [toy_row 1 ''hello'', toy_row 2 ''secret'']"
    using ne by (simp_all add: EnsureSyncSchema_def toy_server_def blob_by_uuid_def toy_row_def empty_repo_def)
  have ids: "bl_rid (toy_row r s) = r" "bl_uuid (toy_row r s) = l_sha1 toy_libs s" "bl_size (toy_row r s) = int (length s)" for r s
    by (simp_all add: toy_row_def)
  have nonempty: "l_sha1 toy_libs s \<noteq> []" for s by (simp add: toy_libs_def not_le)
  define h where "h = (initAuth (new_handler toy_server))\<lparr>h_repo := ?q, h_syncedTables := []\<rparr>"
  have load: "loadSyncedTables (initAuth (new_handler toy_server)) = (h, Ok ())"
    by (simp add: loadSyncedTables_def attempt_def done_with_def ListSyncedTables_def EnsureSyncSchema_def toy_server_def empty_repo_def
        initAuth_def new_handler_def Let_def h_def)
  have adm: "admit toy_env toy_pull (new_handler toy_server) = (h\<lparr>h_pullOK := True\<rparr>, Ok ())"
    using load by (simp add: admit_def toy_pull_def and_then_def done_with_def handle_login_def is_login_def handleControlCard_def)
      (simp add: h_def initAuth_def new_handler_def toy_server_def user_row_of_def CanPull_def HasCapability_def)
  define h1 where "h1 = h\<lparr>h_pullOK := True\<rparr>"
  have h1: "h_repo h1 = ?q" "h_pullOK h1" "\<not> h_syncPrivate h1" "\<not> h_cloneMode h1" "h_filesRecvd h1 = 0" "h_remoteHas h1 = []"
      "h_syncedTables h1 = []" "h_resp h1 = []"
    by (simp_all add: h1_def h_def initAuth_def new_handler_def)
  have secret: "handleGimme toy_env (l_sha1 toy_libs ''secret'') h1 = (h1, Ok ())"
    using h1 rows nonempty by (simp add: handleGimme_def attempt_def Exists_def IsPrivate_def done_with_def ids)
  define h2 where "h2 = (respond h1 [FileCard (l_sha1 toy_libs ''hello'') [] ''hello''])\<lparr>h_filesSent := h_filesSent h1 + 1\<rparr>"
  have public: "handleGimme toy_env (l_sha1 toy_libs ''hello'') h1 = (h2, Ok ())"
    using h1 rows nonempty ex
    by (simp add: handleGimme_def attempt_def attempt_card_def Exists_def IsPrivate_def done_with_def ids h2_def toy_env_def)
  have h2: "h_repo h2 = ?q" "h_pullOK h2" "\<not> h_syncPrivate h2" "\<not> h_cloneMode h2" "h_filesRecvd h2 = 0" "h_remoteHas h2 = []"
      "h_syncedTables h2 = []" "h_resp h2 = [FileCard (l_sha1 toy_libs ''hello'') [] ''hello'']"
    using h1 by (simp_all add: h2_def) (simp_all add: respond_def)
  have id: "identify h1 = h1" using h1 by (simp add: identify_def Let_def)
  have announce: "emitIGots h2 = respond h2 [IGotCard (l_sha1 toy_libs ''hello'') False]"
    using h2 rows by (simp add: emitIGots_def Let_def ids shunned_def)
  have "processDataCards toy_env toy_pull h1 = (respond h2 [IGotCard (l_sha1 toy_libs ''hello'') False], Ok ())"
    using secret public h1 h2
    by (simp add: processDataCards_def toy_pull_def is_file_card_def and_then_def done_with_def handleDataCard_def announce
        emitXIGots_def respond_def)
  with adm id h2 show ?thesis
    by (simp add: HandleSync_def process_def and_then_def h1_def [symmetric] crosslink_received_def done_with_def respond_def)
qed


end
