(* ===== verification/Repo_Handle.thy ===== *)
theory Repo_Handle
  imports Handler_Props
begin

text \<open>
  The repository handle (\<open>internal/repo/repo.go\<close>) and the rows of a new repository
  (\<open>db/schema.go\<close>).  Whether the file exists is an argument; the random source is a function from the
  number of the read to the bytes it delivers, \<open>None\<close> where it fails.  A creation that
  fails removes the file, so only a finished repository is a result.
\<close>

datatype repo_error =
    RepoFileExists | RepoProjectCode bytes | RepoRandom bytes | RepoNoConfig bytes | RepoNoUUID rid | RepoVerify content_error

section \<open>A new repository\<close>

definition SeedUser :: "repo \<Rightarrow> bytes \<Rightarrow> (repo_error, repo) outcome" where
  "SeedUser q login =
     (if login = [] then Panic ''db.SeedUser: login must not be empty''
      else if \<exists>u \<in> set (t_user q). us_uid u = 1 \<or> us_login u = login then Ok q
      else Ok (q\<lparr>t_user := t_user q @ [\<lparr>us_uid = 1, us_login = login, us_pw = Some [], us_cap = ''s'',
                                     us_cexpire = None, us_info = Some []\<rparr>]\<rparr>))"

definition SeedNobody :: "repo \<Rightarrow> bytes \<Rightarrow> repo" where
  "SeedNobody q caps =
     (if user_row_of q ''nobody'' \<noteq> None then q
      else q\<lparr>t_user := t_user q @ [\<lparr>us_uid = foldr max (map us_uid (t_user q)) 0 + 1, us_login = ''nobody'', us_pw = Some [],
                                 us_cap = caps, us_cexpire = None, us_info = Some []\<rparr>]\<rparr>)"

definition isProjectCodeHex :: "bytes \<Rightarrow> bool" where
  "isProjectCodeHex s =
     (length s = 40 \<and> list_all (\<lambda>c. byte_val c \<in> {48..57} \<or> byte_val c \<in> {97..102}) s)"

definition randomHex :: "bytes \<Rightarrow> bytes option \<Rightarrow> (repo_error, bytes) outcome" where
  "randomHex what draw = (case draw of None \<Rightarrow> Err (RepoRandom what) | Some b \<Rightarrow> Ok (concat (map hex_byte b)))"

text \<open>The names of the four rows are unique in a new table.\<close>

definition SeedConfig :: "repo \<Rightarrow> int \<Rightarrow> (nat \<Rightarrow> bytes option) \<Rightarrow> bytes \<Rightarrow> (repo_error, repo) outcome" where
  "SeedConfig q now rng projectCode =
     bind_ok (if projectCode \<noteq> []
              then if isProjectCodeHex projectCode then Ok (projectCode, 0) else Err (RepoProjectCode projectCode)
              else bind_ok (randomHex ''project-code'' (rng 0)) (\<lambda>p. Ok (p, 1)))
       (\<lambda>(projCode, used). bind_ok (randomHex ''server-code'' (rng used)) (\<lambda>serverCode.
     Ok (q\<lparr>t_config := t_config q @
        map (\<lambda>(n, v). \<lparr>cg_name = n, cg_value = v, cg_mtime = Some now\<rparr>)
          [(''project-code'', projCode), (''server-code'', serverCode), (''aux-schema'', ''2015-01-24''), (''content-schema'', ''2'')]\<rparr>)))"

definition CreateWithEnv :: "bool \<Rightarrow> bytes \<Rightarrow> int \<Rightarrow> (nat \<Rightarrow> bytes option) \<Rightarrow> bytes \<Rightarrow> (repo_error, repo) outcome" where
  "CreateWithEnv present user now rng projectCode =
     (if present then Err RepoFileExists
      else bind_ok (SeedUser empty_repo user) (\<lambda>q. SeedConfig (SeedNobody q ''cghijknorswy'') now rng projectCode))"

section \<open>Reading through the handle\<close>

definition Config :: "repo \<Rightarrow> bytes \<Rightarrow> (repo_error, bytes) outcome" where
  "Config q key = (case find (\<lambda>c. cg_name c = key) (t_config q) of None \<Rightarrow> Err (RepoNoConfig key) | Some c \<Rightarrow> Ok (cg_value c))"

definition UUIDByRID :: "repo \<Rightarrow> rid \<Rightarrow> (repo_error, bytes) outcome" where
  "UUIDByRID q r = (case blob_by_rid q r of None \<Rightarrow> Err (RepoNoUUID r) | Some b \<Rightarrow> Ok (bl_uuid b))"

text \<open>Every row that is not a phantom is verified, in the order of the table; the first failure is the result.\<close>

fun verify_rows :: "libs \<Rightarrow> repo \<Rightarrow> rid list \<Rightarrow> (repo_error, unit) outcome" where
  "verify_rows L q [] = Ok ()"
| "verify_rows L q (r # rs) =
     bind_ok (wrap_err RepoVerify (Verify (l_sha1 L) (l_sha3 L) (l_inflate L) (\<lambda>_. False) False q r)) (\<lambda>_. verify_rows L q rs)"

definition Verify_repo :: "libs \<Rightarrow> repo \<Rightarrow> (repo_error, unit) outcome" where
  "Verify_repo L q = verify_rows L q (map bl_rid (filter (\<lambda>b. bl_size b \<ge> 0) (t_blob q)))"

lemma verify_rows_Ok:
  "verify_rows L q rs = Ok () \<longleftrightarrow>
     (\<forall>r \<in> set rs. Verify (l_sha1 L) (l_sha3 L) (l_inflate L) (\<lambda>_. False) False q r = Ok ())"
  by (induction rs) (auto simp: bind_ok_def wrap_err_def split: outcome.splits)

lemma Verify_Ok_iff:
  assumes "wf_repo q" "b \<in> set (t_blob q)" "length (bl_uuid b) \<in> {40, 64}"
  shows "Verify (l_sha1 L) (l_sha3 L) (l_inflate L) (\<lambda>_. False) False q (bl_rid b) = Ok () \<longleftrightarrow>
    (\<exists>c. expands (l_inflate L) q (bl_rid b) c \<and> digest L (bl_uuid b) c = bl_uuid b)"
proof -
  have "blob_by_rid q (bl_rid b) = Some b" by (rule blob_by_rid_member [OF assms(1,2)])
  moreover have pos: "bl_rid b > 0" using assms(1,2) by (auto simp: wf_repo_def list_all_iff)
  ultimately have "Verify (l_sha1 L) (l_sha3 L) (l_inflate L) (\<lambda>_. False) False q (bl_rid b) = Ok () \<longleftrightarrow>
      (\<exists>c. Expand (l_inflate L) (\<lambda>_. False) False q (bl_rid b) = Ok c \<and> digest L (bl_uuid b) c = bl_uuid b)"
    using assms(3) by (auto simp: Verify_def digest_def Let_def bind_ok_def split: outcome.splits if_splits)
  then show ?thesis by (simp add: Expand_eq_expands [OF pos])
qed

text \<open>
  \<open>Repo.Verify\<close> accepts a repository exactly when every artifact that it has expands to content
  of its name.
\<close>

theorem Verify_repo_authentic:
  assumes "wf_repo q" "\<And>b. b \<in> set (t_blob q) \<Longrightarrow> length (bl_uuid b) \<in> {40, 64} \<and> bl_size b \<ge> - 1"
    and "\<And>b. b \<in> set (t_blob q) \<Longrightarrow> bl_size b = - 1 \<Longrightarrow> delta_src q (bl_rid b) = None"
  shows "Verify_repo L q = Ok () \<longleftrightarrow> authentic L q"
proof -
  have "bl_size b \<ge> 0 \<longleftrightarrow> bl_size b \<noteq> - 1" if "b \<in> set (t_blob q)" for b
    using assms(2) [OF that] by linarith
  then show ?thesis
    using assms(2,3) by (auto simp: Verify_repo_def verify_rows_Ok authentic_def Verify_Ok_iff [OF assms(1)])
qed

text \<open>The server of the other theories, with a public and a private artifact.\<close>

theorem Verify_repo_authentic_witness: "Verify_repo toy_libs toy_server = Ok ()"
proof -
  have "length (bl_uuid b) \<in> {40, 64} \<and> bl_size b \<ge> - 1" if "b \<in> set (t_blob toy_server)" for b
    using that by (auto simp: toy_server_def toy_row_def toy_libs_def sample_sha1_def)
  moreover have "delta_src toy_server (bl_rid b) = None" for b
    by (simp add: delta_src_def toy_server_def empty_repo_def)
  ultimately show ?thesis
    by (intro Verify_repo_authentic [THEN iffD2, OF toy_server_wf _ _ toy_server_authentic]) auto
qed

end
