(* ===== verification/Clone.thy ===== *)
theory Clone
  imports Repo_Handle
begin

text \<open>
  Cloning (\<open>internal/sync/clone.go\<close>).  The transport is a function on a state of its own, so that it may be the server of
  the other theories.  Random bytes are arguments, as is whether the file of the new
  repository is there already; cancellation of the context, the observer and fault injection
  are left out.
\<close>

section \<open>The session\<close>

definition MaxRounds :: nat where "MaxRounds = 100"

record CloneOpts =
  co_User :: bytes
  co_Password :: bytes
  co_Version :: int

record clone_session =
  cs_repo :: repo
  cs_phantoms :: "bytes list"
  cs_seqno :: int
  cs_projectCode :: bytes
  cs_serverCode :: bytes
  cs_cookie :: bytes
  cs_rounds :: nat
  cs_recvd :: int
  cs_messages :: "bytes list"

datatype clone_error =
    CloneExchange bytes | CloneServer bytes | CloneSync sync_error | CloneBlob blob_error | CloneEncode xfer_error
  | CloneLogin auth_error | CloneRounds nat | CloneCrosslink crosslink_error | CloneCreate repo_error | CloneFileExists

definition client_version :: Card where
  "client_version = PragmaCard ''client-version'' [''22800'', ''20260315'', ''120000'']"

fun encode_cards :: "(bytes \<Rightarrow> bytes) \<Rightarrow> Card list \<Rightarrow> (xfer_error, bytes) outcome" where
  "encode_cards deflate [] = Ok []"
| "encode_cards deflate (c # cs) =
     bind_ok (EncodeCard deflate c) (\<lambda>b. bind_ok (encode_cards deflate cs) (\<lambda>bs. Ok (b @ bs)))"

definition buildLoginCard :: "env \<Rightarrow> bytes \<Rightarrow> bytes \<Rightarrow> bytes \<Rightarrow> bytes \<Rightarrow> Card list \<Rightarrow> (clone_error, Card) outcome" where
  "buildLoginCard E user password projectCode rb cards =
     bind_ok (wrap_err CloneEncode (encode_cards (l_deflate (e_L E)) cards)) (\<lambda>enc.
     bind_ok (wrap_err CloneLogin (computeLogin (l_sha1 (e_L E)) user password projectCode (appendRandomComment enc rb)))
       (\<lambda>(u, nonce, s). Ok (LoginCard u nonce s)))"

definition clone_cards :: "CloneOpts \<Rightarrow> nat \<Rightarrow> clone_session \<Rightarrow> Card list" where
  "clone_cards opts cycle cs =
     [client_version] @
     (if cs_cookie cs \<noteq> [] then [CookieCard (cs_cookie cs)] else []) @
     (if cs_seqno cs > 0
      then [CloneCard (if co_Version opts \<le> 0 then 3 else co_Version opts) (cs_seqno cs)] @
           (if cycle > 0 then [CloneSeqNoCard (cs_seqno cs)] else [])
      else if cs_projectCode cs \<noteq> [] \<and> cs_serverCode cs \<noteq> [] then [PullCard (cs_serverCode cs) (cs_projectCode cs)]
      else []) @
     (if cs_seqno cs \<le> 1 then map GimmeCard (cs_phantoms cs) else [])"

definition buildRequest :: "env \<Rightarrow> CloneOpts \<Rightarrow> bytes \<Rightarrow> nat \<Rightarrow> clone_session \<Rightarrow> (clone_error, Card list) outcome" where
  "buildRequest E opts rb cycle cs =
     (let cards = clone_cards opts cycle cs in
      if cycle > 0 \<and> co_User opts \<noteq> [] \<and> cs_projectCode cs \<noteq> []
      then bind_ok (buildLoginCard E (co_User opts) (co_Password opts) (cs_projectCode cs) rb cards) (\<lambda>login. Ok (login # cards))
      else Ok cards)"

definition add_phantom :: "bytes \<Rightarrow> bytes list \<Rightarrow> bytes list" where
  "add_phantom u us = (if u \<in> set us then us else us @ [u])"

definition clone_handleFile ::
  "env \<Rightarrow> bytes \<Rightarrow> bytes \<Rightarrow> bytes \<Rightarrow> clone_session \<Rightarrow> clone_session \<times> (clone_error, unit) outcome" where
  "clone_handleFile E uuid deltaSrc payload cs =
     (case storeReceivedFile (e_L E) (cs_repo cs) uuid deltaSrc payload of
        (q, Ok _) \<Rightarrow> (cs\<lparr>cs_repo := q, cs_phantoms := filter ((\<noteq>) uuid) (cs_phantoms cs)\<rparr>, Ok ())
      | (q, Panic s) \<Rightarrow> (cs\<lparr>cs_repo := q\<rparr>, Panic s)
      | (q, Err (ErrDeltaSourceMissing _)) \<Rightarrow>
          (case StorePhantom q uuid of
             (q1, Err e) \<Rightarrow> (cs\<lparr>cs_repo := q1\<rparr>, Err (CloneBlob e))
           | (q1, Panic s) \<Rightarrow> (cs\<lparr>cs_repo := q1\<rparr>, Panic s)
           | (q1, Ok _) \<Rightarrow>
               let ps = add_phantom uuid (cs_phantoms cs) in
               (case (if deltaSrc = [] then Ok None else Exists q1 deltaSrc) of
                  Ok found \<Rightarrow>
                    (cs\<lparr>cs_repo := q1, cs_phantoms := (if deltaSrc \<noteq> [] \<and> found = None then add_phantom deltaSrc ps else ps)\<rparr>, Ok ())
                | Err e \<Rightarrow> (cs\<lparr>cs_repo := q1\<rparr>, Err (CloneBlob e))
                | Panic s \<Rightarrow> (cs\<lparr>cs_repo := q1\<rparr>, Panic s)))
      | (q, Err e) \<Rightarrow> (cs\<lparr>cs_repo := q\<rparr>, Err (CloneSync e)))"

definition adopt_codes :: "bytes \<Rightarrow> bytes \<Rightarrow> clone_session \<Rightarrow> clone_session" where
  "adopt_codes projectCode serverCode cs =
     (let store = (\<lambda>name v q. replace_config q \<lparr>cg_name = name, cg_value = v, cg_mtime = None\<rparr>);
          cs1 = (if projectCode \<noteq> [] \<and> cs_projectCode cs = []
                 then cs\<lparr>cs_projectCode := projectCode, cs_repo := store ''project-code'' projectCode (cs_repo cs)\<rparr> else cs)
      in if serverCode \<noteq> [] \<and> cs_serverCode cs1 = []
         then cs1\<lparr>cs_serverCode := serverCode, cs_repo := store ''server-code'' serverCode (cs_repo cs1)\<rparr> else cs1)"

text \<open>One card of a response; \<open>n\<close> counts the files of the round.\<close>

definition clone_card :: "env \<Rightarrow> Card \<Rightarrow> clone_session \<times> int \<Rightarrow> (clone_session \<times> int) \<times> (clone_error, unit) outcome" where
  "clone_card E c = (\<lambda>(cs, n).
     case c of
       PushCard serverCode projectCode \<Rightarrow> ((adopt_codes projectCode serverCode cs, n), Ok ())
     | FileCard uuid deltaSrc content \<Rightarrow>
         (case clone_handleFile E uuid deltaSrc content cs of (cs1, Ok _) \<Rightarrow> ((cs1, n + 1), Ok ()) | (cs1, r) \<Rightarrow> ((cs1, n), r))
     | CFileCard uuid deltaSrc _ content \<Rightarrow>
         (case clone_handleFile E uuid deltaSrc content cs of (cs1, Ok _) \<Rightarrow> ((cs1, n + 1), Ok ()) | (cs1, r) \<Rightarrow> ((cs1, n), r))
     | CloneSeqNoCard seqNo \<Rightarrow> ((cs\<lparr>cs_seqno := seqNo\<rparr>, n), Ok ())
     | ErrorCard message \<Rightarrow> ((cs, n), Err (CloneServer message))
     | CookieCard v \<Rightarrow> ((cs\<lparr>cs_cookie := v\<rparr>, n), Ok ())
     | MessageCard message \<Rightarrow> ((cs\<lparr>cs_messages := cs_messages cs @ [message]\<rparr>, n), Ok ())
     | _ \<Rightarrow> ((cs, n), Ok ()))"

fun clone_response :: "env \<Rightarrow> Card list \<Rightarrow> clone_session \<times> int \<Rightarrow> (clone_session \<times> int) \<times> (clone_error, unit) outcome" where
  "clone_response E [] s = (s, Ok ())"
| "clone_response E (c # cards) s = (case clone_card E c s of (s1, Ok _) \<Rightarrow> clone_response E cards s1 | (s1, r) \<Rightarrow> (s1, r))"

text \<open>Whether the round brought no file.\<close>

definition processResponse :: "env \<Rightarrow> Card list \<Rightarrow> clone_session \<Rightarrow> clone_session \<times> (clone_error, bool) outcome" where
  "processResponse E cards cs =
     (case clone_response E cards (cs, 0) of
        ((cs1, n), Ok _) \<Rightarrow> (cs1\<lparr>cs_recvd := cs_recvd cs1 + n\<rparr>, Ok (n = 0))
      | ((cs1, n), Err e) \<Rightarrow> (cs1, Err e)
      | ((cs1, n), Panic s) \<Rightarrow> (cs1, Panic s))"

section \<open>The loop\<close>

type_synonym 's transport = "'s \<Rightarrow> Card list \<Rightarrow> 's \<times> (bytes, Card list) outcome"

text \<open>
  One turn of the loop: the state of the transport, of the session and, unless the loop ends
  here, the number of phantoms to compare with in the next turn.
\<close>

definition clone_round ::
  "env \<Rightarrow> 's transport \<Rightarrow> CloneOpts \<Rightarrow> (nat \<Rightarrow> bytes) \<Rightarrow> nat \<Rightarrow> int \<Rightarrow> 's \<times> clone_session \<Rightarrow>
   ('s \<times> clone_session) \<times> (clone_error, int option) outcome" where
  "clone_round E exchange opts rb cycle prevPhantomCount = (\<lambda>(t, cs).
     case buildRequest E opts (rb cycle) cycle cs of
       Err e \<Rightarrow> ((t, cs), Err e)
     | Panic s \<Rightarrow> ((t, cs), Panic s)
     | Ok req \<Rightarrow>
         (case exchange t req of
            (t1, Err e) \<Rightarrow> ((t1, cs), Err (CloneExchange e))
          | (t1, Panic s) \<Rightarrow> ((t1, cs), Panic s)
          | (t1, Ok resp) \<Rightarrow>
              (case processResponse E resp cs of
                 (cs1, Err e) \<Rightarrow> ((t1, cs1), Err e)
               | (cs1, Panic s) \<Rightarrow> ((t1, cs1), Panic s)
               | (cs1, Ok quiet) \<Rightarrow>
                   let cs2 = cs1\<lparr>cs_rounds := cycle + 1\<rparr>; phantomCount = int (length (cs_phantoms cs2)) in
                   ((t1, cs2), Ok
                     (if cycle \<ge> 1 \<and> quiet \<and> cs_seqno cs2 \<le> 0 \<and> (phantomCount = 0 \<or> phantomCount \<ge> prevPhantomCount)
                      then None
                      else Some (if cycle \<ge> 1 then phantomCount else prevPhantomCount))))))"

function clone_rounds ::
  "env \<Rightarrow> 's transport \<Rightarrow> CloneOpts \<Rightarrow> (nat \<Rightarrow> bytes) \<Rightarrow> nat \<Rightarrow> int \<Rightarrow> 's \<times> clone_session \<Rightarrow>
   ('s \<times> clone_session) \<times> (clone_error, unit) outcome" where
  "clone_rounds E exchange opts rb cycle prevPhantomCount st =
     (if cycle \<ge> MaxRounds then (st, Err (CloneRounds MaxRounds))
      else case clone_round E exchange opts rb cycle prevPhantomCount st of
             (st1, Ok None) \<Rightarrow> (st1, Ok ())
           | (st1, Ok (Some n)) \<Rightarrow> clone_rounds E exchange opts rb (cycle + 1) n st1
           | (st1, Err e) \<Rightarrow> (st1, Err e)
           | (st1, Panic s) \<Rightarrow> (st1, Panic s))"
  by pat_completeness auto
termination by (relation "measure (\<lambda>(E, ex, opts, rb, cycle, n, st). MaxRounds - cycle)") auto

declare clone_rounds.simps [simp del]

definition clone_start :: "repo \<Rightarrow> clone_session" where
  "clone_start q =
     \<lparr>cs_repo = delete_config q ''project-code'', cs_phantoms = [], cs_seqno = 1, cs_projectCode = [], cs_serverCode = [],
      cs_cookie = [], cs_rounds = 0, cs_recvd = 0, cs_messages = []\<rparr>"

text \<open>
  The session with the new repository and the number of linked artifacts.  The repository of a
  clone that fails is removed.
\<close>

definition Clone ::
  "env \<Rightarrow> 's transport \<Rightarrow> CloneOpts \<Rightarrow> (nat \<Rightarrow> bytes) \<Rightarrow> (nat \<Rightarrow> bytes option) \<Rightarrow> bool \<Rightarrow> 's \<Rightarrow>
     's \<times> (clone_error, clone_session \<times> nat) outcome" where
  "Clone E exchange opts rb rng present t =
     (if present then (t, Err CloneFileExists)
      else case CreateWithEnv False (if co_User opts = [] then ''setup'' else co_User opts) (e_now E div 10 ^ 9) rng [] of
        Err e \<Rightarrow> (t, Err (CloneCreate e))
      | Panic s \<Rightarrow> (t, Panic s)
      | Ok q \<Rightarrow>
          (case clone_rounds E exchange opts rb 0 (- 1) (t, clone_start q) of
             ((t1, cs), Err e) \<Rightarrow> (t1, Err e)
           | ((t1, cs), Panic s) \<Rightarrow> (t1, Panic s)
           | ((t1, cs), Ok _) \<Rightarrow>
               (case Crosslink (e_L E) (e_unicode E) (cs_repo cs) of
                  (q1, linked, Ok _) \<Rightarrow> (t1, Ok (cs\<lparr>cs_repo := q1\<rparr>, linked))
                | (q1, linked, Err e) \<Rightarrow> (t1, Err (CloneCrosslink e))
                | (q1, linked, Panic s) \<Rightarrow> (t1, Panic s))))"

text \<open>The server of the other theories as a transport.\<close>

definition serve :: "env \<Rightarrow> repo transport" where
  "serve E q cards =
     (case HandleSync E q cards of (q1, Ok resp) \<Rightarrow> (q1, Ok resp) | (q1, Err e) \<Rightarrow> (q1, Err (e_text E e)) | (q1, Panic s) \<Rightarrow> (q1, Panic s))"

end
