(* ===== verification/Sync_Deliver.thy ===== *)
theory Sync_Deliver
  imports Handler_Props
begin

text \<open>
  When storing a received artifact succeeds: sound whatever a peer sends, and complete for
  the artifacts that a well-behaved peer sends.
\<close>

section \<open>Whatever arrives\<close>

text \<open>
  Claim C29.  Storing a received file is atomic and never admits content under a wrong name: the
  repository stays well-formed and authentic and loses nothing; on success the name holds
  content that hashes to it, and otherwise the repository is unchanged.
\<close>

theorem storeReceivedFile_sound:
  assumes "zlib_writer (l_deflate L) (l_inflate L)" "small_file deltaSrc payload" "wf_repo q" "authentic L q"
    and "storeReceivedFile L q uuid deltaSrc payload = (q', res)"
  shows "wf_repo q' \<and> authentic L q' \<and> (\<forall>u c. holds L q u c \<longrightarrow> holds L q' u c) \<and>
     (if res = Ok () then \<exists>v. holds L q' uuid v \<and> digest L uuid v = uuid else q' = q)"
proof -
  have "keeps L q q'" using keeps_storeReceivedFile [OF assms(1-3), of uuid] assms(5) by simp
  moreover have "if res = Ok () then \<exists>v. holds L q' uuid v \<and> digest L uuid v = uuid else q' = q"
    using assms(5)
  proof (cases rule: storeReceivedFile_cases)
    case (stored c)
    from storeReceived_tx_spec(2) [OF assms(1) resolve_small [OF assms(2) stored(2)] assms(3) stored(3,5) assms(4)] stored(1)
    show ?thesis by simp
  qed simp
  ultimately show ?thesis using assms(3,4) keeps_holds unfolding keeps_def by blast
qed

section \<open>What a well-behaved peer sends\<close>

text \<open>The content parses or is refused without a panic, and a cluster lists hashes.\<close>

definition receivable :: "libs \<Rightarrow> bytes \<Rightarrow> bool" where
  "receivable L c \<longleftrightarrow> length c < 2 ^ 32 \<and>
     (case Parse (l_md5 L) c of
        Panic s \<Rightarrow> False
      | Err e \<Rightarrow> True
      | Ok d \<Rightarrow> dk_Type d = ArtifactType.Cluster \<longrightarrow> list_all (\<lambda>u. length u \<ge> 40) (dk_M d))"

definition full_uuids :: "repo \<Rightarrow> bytes set" where
  "full_uuids q = bl_uuid ` {b \<in> set (t_blob q). bl_size b \<noteq> - 1}"

lemma full_uuids_grows: "grows q q' \<Longrightarrow> full_uuids q' \<subseteq> full_uuids q"
  by (auto simp: full_uuids_def grows_def)

lemma full_uuids_same: "t_blob q' = t_blob q \<Longrightarrow> full_uuids q' = full_uuids q"
  by (simp add: full_uuids_def)

lemma rows_known_same:
  "t_blob q' = t_blob q \<Longrightarrow> t_phantom q' = t_phantom q \<Longrightarrow> t_unclustered q' = t_unclustered q \<Longrightarrow> rows_known q' = rows_known q"
  by (simp add: rows_known_def blob_by_rid_def)

lemma CrosslinkCluster_Ok:
  assumes "r > 0" "rows_known q" "list_all (\<lambda>u. length u \<ge> 40) (dk_M d)"
  obtains q' where "CrosslinkCluster q r d = (q', Ok ())" "rows_known q'"
proof -
  let ?q1 = "q\<lparr>t_tagxref := replace_tagxref \<lparr>tx_tagid = 7, tx_tagtype = 1, tx_srcid = r, tx_origid = r, tx_value = None,
                  tx_mtime = 0, tx_rid = r\<rparr> (t_tagxref q)\<rparr>"
  have "rows_known ?q1" using assms(2) by (simp add: rows_known_def blob_by_rid_def)
  from cluster_members_spec [OF this, of "dk_M d"] assms(3)
  obtain q' where "cluster_members ?q1 (dk_M d) = (q', Ok ())" "rows_known q'" by (auto simp: list_all_iff)
  with assms(1) show thesis by (intro that) (simp_all add: CrosslinkCluster_def)
qed

lemma insert_received_delivers:
  assumes "zlib_writer (l_deflate L) (l_inflate L)" "receivable L c" "wf_repo q" "rows_known q" "digest L uuid c = uuid"
    and "blob_by_uuid q uuid = None" "length uuid \<ge> 40"
  obtains q' where "insert_received L q uuid c = (q', Ok ())" "rows_known q'" "full_uuids q' \<subseteq> insert uuid (full_uuids q)"
proof -
  obtain q1 where ins: "insert_blob q uuid (int (length c)) (Some (Compress (l_deflate L) c)) 1 = Ok (q1, next_rid q)"
    using insert_blob_fresh [OF assms(7,6)] by blast
  note facts = insert_blob_Ok [OF ins]
  let ?q2 = "mark_unclustered q1 (next_rid q)"
  have same: "t_phantom q1 = t_phantom q" "t_unclustered q1 = t_unclustered q" by (subst facts(7), simp)+
  have old: "blob_by_rid q1 x \<noteq> None" if "blob_by_rid q x \<noteq> None" for x
    using that facts(2) facts(4) [of x] by (cases "x = next_rid q") auto
  have known: "rows_known ?q2"
    using assms(4) same old facts(2) by (auto simp: rows_known_def mark_unclustered_def blob_by_rid_def)
  have full: "full_uuids ?q2 \<subseteq> insert uuid (full_uuids q)"
    using ins by (auto simp: full_uuids_def mark_unclustered_def insert_blob_def Let_def split: if_splits)
  show thesis
  proof (cases "Parse (l_md5 L) c")
    case (Ok d)
    show thesis
    proof (cases "dk_Type d = ArtifactType.Cluster")
      case True
      with Ok assms(2) have "list_all (\<lambda>u. length u \<ge> 40) (dk_M d)" by (simp add: receivable_def)
      then obtain q' where q': "CrosslinkCluster ?q2 (next_rid q) d = (q', Ok ())" "rows_known q'"
        using CrosslinkCluster_Ok [OF next_rid_pos known] by blast
      have "grows ?q2 q'"
        using adds_CrosslinkCluster [of "{}" ?q2 "next_rid q" d] q'(1) by (simp add: adds_def)
      with full full_uuids_grows have "full_uuids q' \<subseteq> insert uuid (full_uuids q)" by blast
      with q' Ok True ins show thesis by (intro that) (simp_all add: insert_received_def)
    next
      case False
      with Ok ins known full show thesis by (intro that [of ?q2]) (simp_all add: insert_received_def)
    qed
  next
    case (Err e)
    with ins known full show thesis by (intro that [of ?q2]) (simp_all add: insert_received_def)
  next
    case (Panic s)
    with assms(2) show thesis by (simp add: receivable_def)
  qed
qed

lemma fill_phantom_delivers:
  assumes "rows_known q" "blob_by_uuid q uuid = Some b" "wf_repo q"
  shows "rows_known (fill_phantom L q (bl_rid b) c)" "full_uuids (fill_phantom L q (bl_rid b) c) \<subseteq> insert uuid (full_uuids q)"
proof -
  have b: "b \<in> set (t_blob q)" "bl_uuid b = uuid" using blob_by_uuid_Some [OF assms(2)] by auto
  have row: "blob_by_rid q (bl_rid b) = Some b" using blob_by_rid_member [OF assms(3) b(1)] .
  let ?q' = "fill_phantom L q (bl_rid b) c"
  have rid: "blob_by_rid ?q' x \<noteq> None \<longleftrightarrow> blob_by_rid q x \<noteq> None" for x by (simp add: fill_phantom_row)
  show "rows_known ?q'"
    unfolding rows_known_def rid
  proof
    fix x assume "x \<in> set (t_phantom ?q') \<union> set (t_unclustered ?q')"
    then have "x = bl_rid b \<or> x \<in> set (t_phantom q) \<union> set (t_unclustered q)" by (auto simp: fill_phantom_def)
    with assms(1) row show "blob_by_rid q x \<noteq> None" unfolding rows_known_def by fastforce
  qed
  have "bl_uuid x = uuid" if "x \<in> set (t_blob q)" "bl_rid x = bl_rid b" for x
    using blob_by_rid_member [OF assms(3) that(1)] row that(2) b(2) by (metis option.inject)
  then show "full_uuids (fill_phantom L q (bl_rid b) c) \<subseteq> insert uuid (full_uuids q)"
    by (auto simp: full_uuids_def fill_phantom_def)
qed

lemma IsValidHash_length: "IsValidHash u = Ok True \<Longrightarrow> u \<noteq> [] \<and> length u \<ge> 40"
  by (auto simp: IsValidHash_def split: if_splits)

lemma storeReceivedFile_delivers_full:
  assumes "zlib_writer (l_deflate L) (l_inflate L)" "receivable L c" "wf_repo q" "authentic L q" "rows_known q"
    and "IsValidHash uuid = Ok True" "digest L uuid c = uuid" "uuid \<notin> full_uuids q"
    and "resolveFileContent L q deltaSrc payload = Ok c"
  obtains q' where "storeReceivedFile L q uuid deltaSrc payload = (q', Ok ())" "keeps L q q'" "holds L q' uuid c" "rows_known q'"
    "full_uuids q' \<subseteq> insert uuid (full_uuids q)"
proof -
  note valid = IsValidHash_length [OF assms(6)]
  have small: "length c < 2 ^ 32" using assms(2) by (simp add: receivable_def)
  obtain q' where tx: "storeReceived_tx L q uuid c = (q', Ok ())" "rows_known q'" "full_uuids q' \<subseteq> insert uuid (full_uuids q)"
      "holds L q' uuid c"
  proof (cases "blob_by_uuid q uuid")
    case None
    obtain q' where q': "insert_received L q uuid c = (q', Ok ())" "rows_known q'" "full_uuids q' \<subseteq> insert uuid (full_uuids q)"
      using insert_received_delivers [OF assms(1-3,5,7) None] valid by blast
    with insert_received_spec [OF assms(1) small assms(3,7) q'(1)] None that show thesis
      by (simp add: storeReceived_tx_def)
  next
    case (Some b)
    with assms(8) have "bl_size b = - 1" by (auto simp: full_uuids_def dest: blob_by_uuid_Some)
    with fill_phantom_spec(2) [OF assms(1) small assms(3) Some _ assms(7,4)] fill_phantom_delivers [OF assms(5) Some assms(3)] Some that
    show thesis by (simp add: storeReceived_tx_def)
  qed
  have "storeReceivedFile L q uuid deltaSrc payload = (q', Ok ())"
    using assms(6,7,9) tx(1) valid by (simp add: storeReceivedFile_def with_tx_def)
  with storeReceived_tx_spec(1) [OF assms(1) small assms(3,7) tx(1)] tx that show thesis by blast
qed

theorem storeReceivedFile_sound_witness:
  "let (q', res) = storeReceivedFile toy_libs toy_server (l_sha1 toy_libs ''hello'') [] ''hello''
   in wf_repo q' \<and> authentic toy_libs q' \<and> holds toy_libs q' (l_sha1 toy_libs ''hello'') ''hello''"
proof -
  have "holds toy_libs toy_server (l_sha1 toy_libs ''hello'') ''hello''"
    using toy_server_expands(1) by (simp add: holds_def toy_server_def blob_by_uuid_def toy_row_def)
  then show ?thesis
    using storeReceivedFile_sound [OF toy_zlib _ toy_server_wf, of "[]" "''hello''" "l_sha1 toy_libs ''hello''"] toy_server_authentic
    by (auto simp: toy_env_def small_file_def split: prod.split)
qed

end
