(* ===== verification/Clone_Server.thy ===== *)
theory Clone_Server
  imports Clone Sync_Deliver
begin

text \<open>
  The responses of the server to the requests of an anonymous clone: the batches are
  consecutive pieces of the list of public artifacts.
\<close>

section \<open>Public artifacts\<close>

definition public :: "repo \<Rightarrow> blob_row list \<Rightarrow> blob_row list" where
  "public q bs = filter (\<lambda>b. bl_rid b \<notin> set (t_private q)) bs"

text \<open>The public artifacts of a repository in the order of their rows.\<close>

definition offered :: "repo \<Rightarrow> blob_row list" where
  "offered q = public q (clone_rows q 0 (max_clone_rid q))"

definition blob_data :: "libs \<Rightarrow> repo \<Rightarrow> blob_row \<Rightarrow> bytes" where
  "blob_data L q b = (case expand L q (bl_rid b) of Ok v \<Rightarrow> v | _ \<Rightarrow> [])"

definition file_of :: "libs \<Rightarrow> repo \<Rightarrow> blob_row \<Rightarrow> Card" where
  "file_of L q b = FileCard (bl_uuid b) [] (blob_data L q b)"

lemma blob_data_authentic:
  assumes "wf_repo q" "authentic L q" "b \<in> set (t_blob q)" "bl_size b \<ge> 0"
  shows "expand L q (bl_rid b) = Ok (blob_data L q b)" "digest L (bl_uuid b) (blob_data L q b) = bl_uuid b"
proof -
  have pos: "bl_rid b > 0" using assms(1,3) by (auto simp: wf_repo_def list_all_iff)
  from assms(2-4) obtain c where c: "expands (l_inflate L) q (bl_rid b) c" "digest L (bl_uuid b) c = bl_uuid b"
    unfolding authentic_def by fastforce
  then have "expand L q (bl_rid b) = Ok c" using Expand_eq_expands [OF pos] by blast
  with c(2) show "expand L q (bl_rid b) = Ok (blob_data L q b)" "digest L (bl_uuid b) (blob_data L q b) = bl_uuid b"
    by (simp_all add: blob_data_def)
qed

section \<open>One batch\<close>

definition last_rid :: "rid \<Rightarrow> blob_row list \<Rightarrow> rid" where
  "last_rid r bs = (if bs = [] then r else bl_rid (last bs))"

lemma clone_loop_batch:
  assumes "\<And>b. b \<in> set bs \<Longrightarrow> bl_rid b > 0 \<and> expand (e_L E) (h_repo h) (bl_rid b) = Ok (blob_data (e_L E) (h_repo h) b)"
    and "\<not> h_syncPrivate h" "sent \<le> DefaultCloneBatchSize"
  shows "\<exists>n. clone_loop E bs sent r h =
     (let new = take (DefaultCloneBatchSize - sent) (public (h_repo h) bs) in
      ((respond h (map (file_of (e_L E) (h_repo h)) new))\<lparr>h_filesSent := n\<rparr>,
       Ok (length (public (h_repo h) bs) > DefaultCloneBatchSize - sent, last_rid r new)))"
  using assms
proof (induction bs arbitrary: sent r h)
  case Nil
  have "(respond h [])\<lparr>h_filesSent := h_filesSent h\<rparr> = h" by (simp add: respond_def)
  then show ?case by (intro exI [of _ "h_filesSent h"]) (simp add: public_def last_rid_def)
next
  case (Cons b bs)
  let ?q = "h_repo h"
  have b: "bl_rid b > 0" "expand (e_L E) ?q (bl_rid b) = Ok (blob_data (e_L E) ?q b)" using Cons.prems(1) by simp_all
  have priv: "IsPrivate ?q (bl_rid b) = Ok (bl_rid b \<in> set (t_private ?q))" using b(1) by (simp add: IsPrivate_def)
  show ?case
  proof (cases "bl_rid b \<in> set (t_private ?q)")
    case True
    with priv Cons.prems Cons.IH [of h sent r] show ?thesis by (simp add: public_def)
  next
    case pub: False
    show ?thesis
    proof (cases "sent = DefaultCloneBatchSize")
      case True
      have "(respond h [])\<lparr>h_filesSent := h_filesSent h\<rparr> = h" by (simp add: respond_def)
      with True pub priv show ?thesis
        by (intro exI [of _ "h_filesSent h"]) (simp add: public_def last_rid_def)
    next
      case False
      let ?h = "(respond h [file_of (e_L E) ?q b])\<lparr>h_filesSent := h_filesSent h + 1\<rparr>"
      have "h_repo ?h = ?q" "\<not> h_syncPrivate ?h" using Cons.prems(2) by simp_all
      with Cons.IH [of ?h "sent + 1" "bl_rid b"] Cons.prems False
      obtain n where n: "clone_loop E bs (sent + 1) (bl_rid b) ?h =
         (let new = take (DefaultCloneBatchSize - (sent + 1)) (public ?q bs) in
          ((respond ?h (map (file_of (e_L E) ?q) new))\<lparr>h_filesSent := n\<rparr>,
           Ok (length (public ?q bs) > DefaultCloneBatchSize - (sent + 1), last_rid (bl_rid b) new)))"
        by auto
      have step: "clone_loop E (b # bs) sent r h = clone_loop E bs (sent + 1) (bl_rid b) ?h"
        using pub b priv False Cons.prems(3) by (simp add: file_of_def)
      have cons: "public ?q (b # bs) = b # public ?q bs" using pub by (simp add: public_def)
      have size: "DefaultCloneBatchSize - sent = Suc (DefaultCloneBatchSize - (sent + 1))" using False Cons.prems(3) by simp
      show ?thesis
        unfolding step n cons size
        by (intro exI [of _ n]) (auto simp: respond_def Let_def last_rid_def)
    qed
  qed
qed

section \<open>The two requests\<close>

text \<open>What a server must have for an anonymous clone.\<close>

definition open_server :: "env \<Rightarrow> repo \<Rightarrow> bool" where
  "open_server E q \<longleftrightarrow> wf_repo q \<and>
     (case user_row_of q ''nobody'' of None \<Rightarrow> False | Some u \<Rightarrow> CanClone (us_cap u) \<and> CanPull (us_cap u)) \<and>
     (t_sync_schema q = None \<or> t_sync_schema q = Some []) \<and>
     list_all (\<lambda>b. bl_rid b < 2 ^ 63) (t_blob q)"

definition cap_cookie :: "rid \<Rightarrow> bytes" where
  "cap_cookie m = cloneCapPrefix @ show_int m"

lemma parse_cap_cookie: "0 \<le> m \<Longrightarrow> m < 2 ^ 63 \<Longrightarrow> parseCloneCap (cap_cookie m) = Some m"
  by (simp add: parseCloneCap_def cap_cookie_def HasPrefix_def Atoi_show_int is_int64_def int64_min_def int64_max_def)

lemma cap_cookie_ne [simp]: "cap_cookie m \<noteq> []"
  by (simp add: cap_cookie_def cloneCapPrefix_def)

text \<open>The state in which an anonymous request is answered.\<close>

definition guest :: "repo \<Rightarrow> handler" where
  "guest q = (initAuth (new_handler q))\<lparr>h_repo := EnsureSyncSchema q, h_syncedTables := []\<rparr>"

lemma guest_fields [simp]:
  "h_repo (guest q) = EnsureSyncSchema q" "h_resp (guest q) = []" "\<not> h_syncPrivate (guest q)" "h_filesRecvd (guest q) = 0"
  "\<not> h_pullOK (guest q)" "\<not> h_cloneMode (guest q)" "h_cloneSeq (guest q) = 0" "h_cloneSnapMax (guest q) = 0"
  "h_remoteHas (guest q) = []" "h_syncedTables (guest q) = []"
  by (simp_all add: guest_def initAuth_def new_handler_def)

lemma guest_caps: "open_server E q \<Longrightarrow> CanClone (h_caps (guest q)) \<and> CanPull (h_caps (guest q))"
  by (auto simp: open_server_def guest_def initAuth_def new_handler_def split: option.splits)

lemma admit_guest:
  assumes "open_server E q" "list_all (\<lambda>c. \<not> is_login c) cards"
  shows "admit E cards (new_handler q) = each (handleControlCard E) cards (guest q)"
proof -
  have load: "loadSyncedTables (initAuth (new_handler q)) = (guest q, Ok ())"
    using assms(1)
    by (auto simp: loadSyncedTables_def attempt_def done_with_def ListSyncedTables_def EnsureSyncSchema_def open_server_def
        initAuth_def new_handler_def Let_def guest_def)
  have "each (handle_login E) cs h = done_with h" if "list_all (\<lambda>c. \<not> is_login c) cs" for cs h
    using that
    by (induction cs) (auto simp: and_then_def done_with_def handle_login_def is_login_def split: Card.splits)
  moreover have "filter (\<lambda>c. \<not> is_login c) cards = cards" using assms(2) by (induction cards) auto
  ultimately show ?thesis using load assms(2) by (simp add: admit_def and_then_def done_with_def)
qed

text \<open>The cards of a clone request and of the final pull request.\<close>

definition clone_request :: "rid option \<Rightarrow> int \<Rightarrow> int \<Rightarrow> Card list" where
  "clone_request m v s =
     client_version # (case m of None \<Rightarrow> [CloneCard v s] | Some m \<Rightarrow> [CookieCard (cap_cookie m), CloneCard v s, CloneSeqNoCard s])"

definition control_only :: "Card \<Rightarrow> bool" where
  "control_only c = (case c of PragmaCard _ _ \<Rightarrow> True | CookieCard _ \<Rightarrow> True | CloneCard _ _ \<Rightarrow> True | CloneSeqNoCard _ \<Rightarrow> True
     | PullCard _ _ \<Rightarrow> True | _ \<Rightarrow> False)"

lemma processDataCards_control:
  assumes "list_all control_only cards"
  shows "processDataCards E cards h =
     and_then (if h_pullOK h then emitXIGots E (emitIGots h) else done_with h) (\<lambda>h.
     if h_cloneMode h then emitCloneBatch E h else done_with h)"
proof -
  have "control_only c \<Longrightarrow> \<not> is_file_card c" "control_only c \<Longrightarrow> handleDataCard E c h = done_with h" for c h
    by (cases c; simp add: control_only_def is_file_card_def handleDataCard_def)+
  then have "filter is_file_card cards = []" "each (handleDataCard E) (filter (\<lambda>c. \<not> is_file_card c) cards) h = done_with h" for h
    using assms by (induction cards) (auto simp: and_then_def done_with_def)
  then show ?thesis by (simp add: processDataCards_def and_then_def done_with_def)
qed

definition project_card :: "repo \<Rightarrow> Card list" where
  "project_card q =
     (let projectCode = config_or_empty q ''project-code''
      in if projectCode \<noteq> [] then [PushCard (config_or_empty q ''server-code'') projectCode] else [])"

text \<open>The cards of a batch that starts after row \<open>s\<close>, in a session for the rows up to \<open>m\<close>.\<close>

definition batch_cards :: "libs \<Rightarrow> repo \<Rightarrow> rid \<Rightarrow> rid \<Rightarrow> Card list" where
  "batch_cards L q s m =
     (let rows = public q (clone_rows q s m); new = take DefaultCloneBatchSize rows
      in map (file_of L q) new @ [CloneSeqNoCard (if length rows > DefaultCloneBatchSize then last_rid 0 new else 0)])"

lemma EnsureSyncSchema_fields [simp]:
  "t_blob (EnsureSyncSchema q) = t_blob q" "t_delta (EnsureSyncSchema q) = t_delta q" "t_private (EnsureSyncSchema q) = t_private q"
  "t_config (EnsureSyncSchema q) = t_config q" "t_shun (EnsureSyncSchema q) = t_shun q"
  by (simp_all add: EnsureSyncSchema_def)

lemma EnsureSyncSchema_idem: "EnsureSyncSchema (EnsureSyncSchema q) = EnsureSyncSchema q"
  by (simp add: EnsureSyncSchema_def)

text \<open>A clone round in the state \<open>q\<close> of the server.\<close>

lemma serve_clone:
  fixes q :: repo
  defines "q1 \<equiv> EnsureSyncSchema q"
  assumes srv: "open_server E q" "authentic (e_L E) q1"
    and m: "(case mo of None \<Rightarrow> s = 0 \<and> m = max_clone_rid q1 | Some m' \<Rightarrow> m' = m \<and> 0 < m \<and> m < 2 ^ 63)"
  shows "serve E q (clone_request mo v (if mo = None then 1 else s)) =
     (q1, Ok (project_card q1 @ (if mo = None then [CookieCard (cap_cookie m)] else []) @ batch_cards (e_L E) q1 s m))"
proof -
  let ?cards = "clone_request mo v (if mo = None then 1 else s)"
  let ?h = "(guest q)\<lparr>h_cloneMode := True, h_cloneSeq := s, h_cloneSnapMax := (if mo = None then 0 else m)\<rparr>"
  have ctl: "each (handleControlCard E) ?cards (guest q) = (?h, Ok ())"
    using guest_caps [OF srv(1)] m parse_cap_cookie [of m]
    by (auto simp: clone_request_def handleControlCard_def handlePragma_def client_version_def and_then_def done_with_def guest_def
        initAuth_def new_handler_def split: option.splits)
  have adm: "admit E ?cards (new_handler q) = (?h, Ok ())"
    using admit_guest [OF srv(1), of ?cards] ctl
    by (simp add: clone_request_def client_version_def is_login_def split: option.split)
  have wf1: "wf_repo q1" using srv(1) wf_repo_core [of q1 q] by (simp add: open_server_def q1_def EnsureSyncSchema_def)
  let ?h1 = "identify ?h" and ?h2 = "clone_snapshot (identify ?h)"
  have h1: "h_resp ?h1 = project_card q1" "h_cloneMode ?h1" "\<not> h_pullOK ?h1" "h_filesRecvd ?h1 = 0"
    by (auto simp: identify_def project_card_def q1_def Let_def)
  have h2: "h_repo ?h2 = q1" "\<not> h_syncPrivate ?h2" "h_cloneSeq ?h2 = s" "h_cloneSnapMax ?h2 = m" "h_filesRecvd ?h2 = 0"
      "h_resp ?h2 = project_card q1 @ (if mo = None then [CookieCard (cap_cookie m)] else [])"
    using m by (auto simp: clone_snapshot_def identify_def project_card_def q1_def Let_def cap_cookie_def split: option.splits)
  let ?rows = "clone_rows q1 s m"
  have "b \<in> set (t_blob q1) \<and> bl_size b \<ge> 0" if "b \<in> set ?rows" for b using that by (auto simp: clone_rows_def)
  then have "bl_rid b > 0 \<and> expand (e_L E) q1 (bl_rid b) = Ok (blob_data (e_L E) q1 b)" if "b \<in> set ?rows" for b
    using that blob_data_authentic(1) [OF wf1 srv(2)] wf1 by (auto simp: wf_repo_def list_all_iff)
  with clone_loop_batch [of ?rows E ?h2 0 0] h2 obtain n where
    "clone_loop E ?rows 0 0 ?h2 = (let new = take DefaultCloneBatchSize (public q1 ?rows) in
       ((respond ?h2 (map (file_of (e_L E) q1) new))\<lparr>h_filesSent := n\<rparr>,
        Ok (length (public q1 ?rows) > DefaultCloneBatchSize, last_rid 0 new)))"
    by auto
  then have "\<exists>h3. emitCloneBatch E ?h1 = (h3, Ok ()) \<and> h_repo h3 = q1 \<and> h_filesRecvd h3 = 0 \<and>
      h_resp h3 = h_resp ?h2 @ batch_cards (e_L E) q1 s m"
    using h2 by (auto simp: emitCloneBatch_def batch_cards_def done_with_def Let_def)
  then obtain h3 where h3: "emitCloneBatch E ?h1 = (h3, Ok ())" "h_repo h3 = q1" "h_filesRecvd h3 = 0"
      "h_resp h3 = h_resp ?h2 @ batch_cards (e_L E) q1 s m" by blast
  have "list_all control_only ?cards" by (simp add: clone_request_def client_version_def control_only_def split: option.split)
  then have "processDataCards E ?cards ?h1 = (h3, Ok ())"
    using h1 h3 by (simp add: processDataCards_control and_then_def done_with_def)
  with adm h3 h2 show ?thesis
    by (simp add: serve_def HandleSync_def process_def and_then_def crosslink_received_def done_with_def)
qed

text \<open>The request after the last batch: nothing, or a pull, which is answered with announcements.\<close>

lemma serve_final:
  assumes srv: "open_server E q" and cards: "cards = [] \<or> (\<exists>sc pc. cards = [PullCard sc pc])" and m: "0 \<le> m" "m < 2 ^ 63"
  shows "\<exists>us. serve E q (client_version # CookieCard (cap_cookie m) # cards) = (EnsureSyncSchema q, Ok (map (\<lambda>u. IGotCard u False) us))"
proof -
  let ?cards = "client_version # CookieCard (cap_cookie m) # cards"
  let ?h = "(guest q)\<lparr>h_cloneSnapMax := m, h_pullOK := (cards \<noteq> [])\<rparr>"
  have ctl: "each (handleControlCard E) ?cards (guest q) = (?h, Ok ())"
    using guest_caps [OF srv] cards parse_cap_cookie [OF m]
    by (auto simp: handleControlCard_def handlePragma_def client_version_def and_then_def done_with_def guest_def initAuth_def new_handler_def)
  have adm: "admit E ?cards (new_handler q) = (?h, Ok ())"
    using admit_guest [OF srv, of ?cards] ctl cards by (auto simp: client_version_def is_login_def)
  have id: "identify ?h = ?h" by (simp add: identify_def Let_def)
  have ctrl: "list_all control_only ?cards" using cards by (auto simp: client_version_def control_only_def)
  define us where "us = (if cards = [] then [] else
      map bl_uuid (filter (\<lambda>b. map_of [] (bl_uuid b) \<noteq> Some False)
        (filter (\<lambda>b. bl_size b \<ge> 0 \<and> \<not> shunned (EnsureSyncSchema q) (bl_uuid b) \<and> bl_rid b \<notin> set (t_private q)) (t_blob q))))"
  have "\<exists>h3. processDataCards E ?cards ?h = (h3, Ok ()) \<and> h_repo h3 = EnsureSyncSchema q \<and> h_filesRecvd h3 = 0 \<and>
      h_resp h3 = map (\<lambda>u. IGotCard u False) us"
    using processDataCards_control [OF ctrl]
    by (cases "cards = []") (simp_all add: and_then_def done_with_def emitIGots_def emitXIGots_def Let_def us_def respond_def comp_def)
  with adm id show ?thesis
    by (auto simp: serve_def HandleSync_def process_def and_then_def crosslink_received_def done_with_def)
qed

end
