(* ===== verification/Clone_Props.thy ===== *)
theory Clone_Props
  imports Clone_Server
begin

text \<open>
  An anonymous clone of a well-behaved server delivers every public artifact, and nothing
  else, in as many rounds as there are batches and one.
\<close>

section \<open>Batches are pieces of one list\<close>

lemma sorted_filter_append:
  assumes "sorted_wrt (\<lambda>a b. bl_rid a < bl_rid b) (ys @ zs)" "\<forall>b \<in> set zs. bl_rid b > 0"
  shows "filter (\<lambda>b. bl_rid b > last_rid 0 ys) (ys @ zs) = zs"
proof (cases ys rule: rev_cases)
  case Nil
  with assms(2) show ?thesis by (simp add: last_rid_def)
next
  case (snoc ws z)
  with assms(1) have "\<forall>a \<in> set ws. \<not> bl_rid z < bl_rid a" "\<forall>b \<in> set zs. bl_rid z < bl_rid b"
    by (fastforce simp: sorted_wrt_append)+
  with snoc show ?thesis by (simp add: last_rid_def filter_empty_conv)
qed

lemma sorted_filter_gt:
  assumes "sorted_wrt (\<lambda>a b. bl_rid a < bl_rid b) xs" "\<forall>b \<in> set xs. bl_rid b > 0"
  shows "filter (\<lambda>b. bl_rid b > last_rid 0 (take j xs)) xs = drop j xs"
  using sorted_filter_append [of "take j xs" "drop j xs"] assms by (auto dest: in_set_dropD)

lemma public_after:
  assumes "wf_repo q" "s = last_rid 0 (take j (public q (clone_rows q 0 m)))"
  shows "public q (clone_rows q s m) = drop j (public q (clone_rows q 0 m))"
proof -
  let ?P = "public q (clone_rows q 0 m)"
  let ?rows = "clone_rows q 0 m"
  have "sorted (map bl_rid ?rows)" by (simp add: clone_rows_def)
  moreover have "distinct (map bl_rid ?rows)"
    using assms(1) by (simp add: clone_rows_def wf_repo_def distinct_map inj_on_def)
  ultimately have "sorted_wrt (<) (map bl_rid ?rows)" by (simp add: strict_sorted_iff)
  then have sorted: "sorted_wrt (\<lambda>a b. bl_rid a < bl_rid b) ?P"
    by (simp add: sorted_wrt_map public_def sorted_wrt_filter)
  have pos: "\<forall>b \<in> set ?P. bl_rid b > 0" by (auto simp: public_def clone_rows_def)
  have s0: "s \<ge> 0"
  proof (cases "take j ?P = []")
    case True
    with assms(2) show ?thesis by (simp add: last_rid_def)
  next
    case False
    then have "last (take j ?P) \<in> set ?P" by (metis in_set_takeD last_in_set)
    with pos False assms(2) show ?thesis by (simp add: last_rid_def less_imp_le)
  qed
  have "clone_rows q s m = filter (\<lambda>b. bl_rid b > s) ?rows"
    unfolding clone_rows_def filter_sort filter_filter using s0 by (intro arg_cong [of _ _ "sort_key bl_rid"] filter_cong) auto
  then have "public q (clone_rows q s m) = filter (\<lambda>b. bl_rid b > s) ?P" by (simp add: public_def conj_commute)
  with sorted_filter_gt [OF sorted pos] assms(2) show ?thesis by simp
qed

section \<open>The client\<close>

text \<open>The client holds the artifacts in \<open>bs\<close> and no others.\<close>

definition client_ok :: "libs \<Rightarrow> repo \<Rightarrow> blob_row list \<Rightarrow> clone_session \<Rightarrow> bool" where
  "client_ok L q bs cs \<longleftrightarrow> wf_repo (cs_repo cs) \<and> authentic L (cs_repo cs) \<and> rows_known (cs_repo cs) \<and>
     full_uuids (cs_repo cs) \<subseteq> bl_uuid ` set bs \<and> (\<forall>b \<in> set bs. holds L (cs_repo cs) (bl_uuid b) (blob_data L q b)) \<and>
     cs_phantoms cs = []"

definition sendable :: "libs \<Rightarrow> repo \<Rightarrow> blob_row \<Rightarrow> bool" where
  "sendable L q b \<longleftrightarrow> IsValidHash (bl_uuid b) = Ok True \<and> receivable L (blob_data L q b) \<and>
     digest L (bl_uuid b) (blob_data L q b) = bl_uuid b"

lemma client_files:
  assumes "zlib_writer (l_deflate (e_L E)) (l_inflate (e_L E))" "client_ok (e_L E) q bs cs"
    and "list_all (sendable (e_L E) q) new" "distinct (map bl_uuid (bs @ new))"
  shows "\<exists>q'. clone_response E (map (file_of (e_L E) q) new @ rest) (cs, n) =
      clone_response E rest (cs\<lparr>cs_repo := q'\<rparr>, n + int (length new)) \<and> client_ok (e_L E) q (bs @ new) (cs\<lparr>cs_repo := q'\<rparr>)"
  using assms(2-)
proof (induction new arbitrary: bs cs n)
  case Nil
  then show ?case by (intro exI [of _ "cs_repo cs"]) simp
next
  case (Cons b new)
  let ?L = "e_L E"
  note ok = Cons.prems(1)[unfolded client_ok_def]
  from Cons.prems(2) have b: "IsValidHash (bl_uuid b) = Ok True" "receivable ?L (blob_data ?L q b)" "digest ?L (bl_uuid b) (blob_data ?L q b) = bl_uuid b"
    by (simp_all add: sendable_def)
  have fresh: "bl_uuid b \<notin> full_uuids (cs_repo cs)" using ok Cons.prems(3) by auto
  obtain q' where q': "storeReceivedFile ?L (cs_repo cs) (bl_uuid b) [] (blob_data ?L q b) = (q', Ok ())" "keeps ?L (cs_repo cs) q'"
      "holds ?L q' (bl_uuid b) (blob_data ?L q b)" "rows_known q'" "full_uuids q' \<subseteq> insert (bl_uuid b) (full_uuids (cs_repo cs))"
    using storeReceivedFile_delivers_full [OF assms(1) b(2) _ _ _ b(1,3) fresh, of "[]" "blob_data ?L q b"] ok
    by (auto simp: resolveFileContent_def)
  let ?cs = "cs\<lparr>cs_repo := q'\<rparr>"
  have upd: "cs\<lparr>cs_repo := q', cs_phantoms := []\<rparr> = ?cs" using ok by (cases cs) simp
  have step: "clone_card E (file_of ?L q b) (cs, n) = ((?cs, n + 1), Ok ())"
    using q'(1) ok upd by (simp add: clone_card_def file_of_def clone_handleFile_def)
  have "client_ok ?L q (bs @ [b]) ?cs"
    using ok q' keeps_holds unfolding client_ok_def by (auto simp: keeps_def)
  with Cons.IH [of "bs @ [b]" ?cs "n + 1"] Cons.prems(2,3)
  obtain q'' where "clone_response E (map (file_of ?L q) new @ rest) (?cs, n + 1) = clone_response E rest (?cs\<lparr>cs_repo := q''\<rparr>, n + 1 + int (length new))"
      "client_ok ?L q (bs @ b # new) (?cs\<lparr>cs_repo := q''\<rparr>)"
    by auto
  with step show ?case by (intro exI [of _ q'']) (simp add: ac_simps)
qed

lemma client_ok_config:
  assumes "client_ok L q bs cs" "t_blob (cs_repo cs') = t_blob (cs_repo cs)" "t_delta (cs_repo cs') = t_delta (cs_repo cs)"
    "t_phantom (cs_repo cs') = t_phantom (cs_repo cs)" "t_unclustered (cs_repo cs') = t_unclustered (cs_repo cs)"
    "cs_phantoms cs' = cs_phantoms cs"
  shows "client_ok L q bs cs'"
  using assms keeps_same [OF assms(2,3), of L] keeps_holds [OF _ keeps_same [OF assms(2,3), of L]]
    full_uuids_same [OF assms(2)] rows_known_same [OF assms(2,4,5)]
  by (auto simp: client_ok_def keeps_def)

lemma adopt_codes_client:
  "client_ok L q bs cs \<Longrightarrow> client_ok L q bs (adopt_codes p s cs)"
  "cs_seqno (adopt_codes p s cs) = cs_seqno cs" "cs_cookie (adopt_codes p s cs) = cs_cookie cs"
  by (rule client_ok_config [of L q bs cs]) (simp_all add: adopt_codes_def Let_def replace_config_def)

lemma client_project:
  assumes "client_ok L q bs cs"
  shows "\<exists>cs1. clone_response E (project_card q1 @ rest) (cs, n) = clone_response E rest (cs1, n) \<and> client_ok L q bs cs1 \<and>
    cs_seqno cs1 = cs_seqno cs \<and> cs_cookie cs1 = cs_cookie cs"
  using assms adopt_codes_client
  by (cases "project_card q1 = []") (auto simp: project_card_def Let_def clone_card_def split: if_splits)

lemma clone_response_igots: "clone_response E (map (\<lambda>u. IGotCard u False) us) s = (s, Ok ())"
  by (induction us arbitrary: s) (auto simp: clone_card_def)

section \<open>Rounds\<close>

text \<open>The state of the session before round \<open>k\<close>, in which batch \<open>k\<close> is due.\<close>

definition before_batch :: "env \<Rightarrow> repo \<Rightarrow> nat \<Rightarrow> clone_session \<Rightarrow> bool" where
  "before_batch E q1 k cs \<longleftrightarrow> (let P = offered q1; sent = take (200 * k) P in
     client_ok (e_L E) q1 sent cs \<and>
     (if k = 0 then cs_cookie cs = [] \<and> cs_seqno cs = 1
      else 200 * k < length P \<and> cs_cookie cs = cap_cookie (max_clone_rid q1) \<and> cs_seqno cs = last_rid 0 sent))"

definition after_batches :: "env \<Rightarrow> repo \<Rightarrow> clone_session \<Rightarrow> bool" where
  "after_batches E q1 cs \<longleftrightarrow> client_ok (e_L E) q1 (offered q1) cs \<and> cs_cookie cs = cap_cookie (max_clone_rid q1) \<and> cs_seqno cs = 0"

definition good_server :: "env \<Rightarrow> repo \<Rightarrow> bool" where
  "good_server E q \<longleftrightarrow> open_server E q \<and> authentic (e_L E) q \<and> list_all (sendable (e_L E) q) (offered q)"

lemma max_clone_rid_bounds:
  assumes "list_all (\<lambda>b. bl_rid b < 2 ^ 63) (t_blob q)"
  shows "0 \<le> max_clone_rid q" "max_clone_rid q < 2 ^ 63" "b \<in> set (t_blob q) \<Longrightarrow> bl_size b \<ge> 0 \<Longrightarrow> bl_rid b \<le> max_clone_rid q"
proof -
  let ?xs = "map bl_rid (filter (\<lambda>b. bl_size b \<ge> 0) (t_blob q))"
  show "0 \<le> max_clone_rid q" unfolding max_clone_rid_def by (rule foldr_max_ge0)
  show "b \<in> set (t_blob q) \<Longrightarrow> bl_size b \<ge> 0 \<Longrightarrow> bl_rid b \<le> max_clone_rid q"
    unfolding max_clone_rid_def by (rule foldr_max_ge) auto
  have "\<forall>x \<in> set xs. x < 2 ^ 63 \<Longrightarrow> foldr max xs (0 :: int) < 2 ^ 63" for xs by (induction xs) auto
  then show "max_clone_rid q < 2 ^ 63" unfolding max_clone_rid_def using assms by (auto simp: list_all_iff)
qed

lemma offered_distinct: "wf_repo q \<Longrightarrow> distinct (map bl_uuid (offered q))"
  by (auto simp: offered_def public_def clone_rows_def wf_repo_def distinct_map inj_on_def)

lemma response_batch:
  assumes "zlib_writer (l_deflate (e_L E)) (l_inflate (e_L E))" "wf_repo q1" "list_all (sendable (e_L E) q1) (offered q1)"
    and "client_ok (e_L E) q1 (take j (offered q1)) cs" "s = last_rid 0 (take j (offered q1))"
    and "ck = [] \<and> cs_cookie cs = cap_cookie (max_clone_rid q1) \<or> ck = [CookieCard (cap_cookie (max_clone_rid q1))]"
  shows "\<exists>cs'. processResponse E (project_card q1 @ ck @ batch_cards (e_L E) q1 s (max_clone_rid q1)) cs =
       (cs', Ok (drop j (offered q1) = [])) \<and> client_ok (e_L E) q1 (take (j + 200) (offered q1)) cs' \<and>
       cs_cookie cs' = cap_cookie (max_clone_rid q1) \<and>
       cs_seqno cs' = (if length (offered q1) > j + 200 then last_rid 0 (take (j + 200) (offered q1)) else 0)"
proof -
  let ?P = "offered q1" and ?L = "e_L E" and ?c = "cap_cookie (max_clone_rid q1)"
  let ?new = "take 200 (drop j ?P)"
  have rows: "public q1 (clone_rows q1 s (max_clone_rid q1)) = drop j ?P"
    using public_after [OF assms(2), of s j "max_clone_rid q1"] assms(5) by (simp add: offered_def)
  have batch: "batch_cards ?L q1 s (max_clone_rid q1) =
      map (file_of ?L q1) ?new @ [CloneSeqNoCard (if length (drop j ?P) > 200 then last_rid 0 ?new else 0)]"
    unfolding batch_cards_def rows by (simp add: DefaultCloneBatchSize_def Let_def)
  obtain cs1 where cs1: "clone_response E (project_card q1 @ ck @ batch_cards ?L q1 s (max_clone_rid q1)) (cs, 0) =
        clone_response E (ck @ batch_cards ?L q1 s (max_clone_rid q1)) (cs1, 0)"
      "client_ok ?L q1 (take j ?P) cs1" "cs_cookie cs1 = cs_cookie cs"
    using client_project [OF assms(4)] by metis
  let ?cs2 = "if ck = [] then cs1 else cs1\<lparr>cs_cookie := ?c\<rparr>"
  have cs2: "clone_response E (ck @ batch_cards ?L q1 s (max_clone_rid q1)) (cs1, 0) = clone_response E (batch_cards ?L q1 s (max_clone_rid q1)) (?cs2, 0)"
      "client_ok ?L q1 (take j ?P) ?cs2" "cs_cookie ?cs2 = ?c"
    using assms(6) cs1 by (auto simp: clone_card_def client_ok_def)
  have join: "take j ?P @ ?new = take (j + 200) ?P" by (simp add: take_add)
  have good: "list_all (sendable ?L q1) ?new" using assms(3) by (auto simp: list_all_iff dest!: in_set_takeD in_set_dropD)
  have dist: "distinct (map bl_uuid (take j ?P @ ?new))"
    unfolding join using offered_distinct [OF assms(2)] by (simp flip: take_map)
  from client_files [OF assms(1) cs2(2) good dist, of "[CloneSeqNoCard (if length (drop j ?P) > 200 then last_rid 0 ?new else 0)]" 0]
  obtain q' where q': "clone_response E (batch_cards ?L q1 s (max_clone_rid q1)) (?cs2, 0) =
        clone_response E [CloneSeqNoCard (if length (drop j ?P) > 200 then last_rid 0 ?new else 0)] (?cs2\<lparr>cs_repo := q'\<rparr>, int (length ?new))"
      "client_ok ?L q1 (take (j + 200) ?P) (?cs2\<lparr>cs_repo := q'\<rparr>)"
    unfolding batch join by auto
  let ?sq = "if length (drop j ?P) > 200 then last_rid 0 ?new else 0"
  let ?cs3 = "?cs2\<lparr>cs_repo := q', cs_seqno := ?sq\<rparr>"
  have resp: "clone_response E (project_card q1 @ ck @ batch_cards ?L q1 s (max_clone_rid q1)) (cs, 0) = ((?cs3, int (length ?new)), Ok ())"
    using cs1(1) cs2(1) q'(1) by (simp add: clone_card_def)
  have sq: "?sq = (if length ?P > j + 200 then last_rid 0 (take (j + 200) ?P) else 0)"
  proof (cases "length ?P > j + 200")
    case True
    then have "?new \<noteq> []" by simp
    then have "last_rid 0 ?new = last_rid 0 (take (j + 200) ?P)" unfolding join [symmetric] last_rid_def by simp
    moreover have "length (drop j ?P) > 200" using True by simp
    ultimately show ?thesis using True by simp
  qed auto
  let ?cs4 = "?cs3\<lparr>cs_recvd := cs_recvd ?cs3 + int (length ?new)\<rparr>"
  have "processResponse E (project_card q1 @ ck @ batch_cards ?L q1 s (max_clone_rid q1)) cs = (?cs4, Ok (drop j ?P = []))"
    using resp by (auto simp: processResponse_def min_def)
  moreover have "client_ok ?L q1 (take (j + 200) ?P) ?cs4" using q'(2) by (simp add: client_ok_def)
  moreover have "cs_cookie ?cs4 = ?c" using cs2(3) by simp
  ultimately show ?thesis using sq by (intro exI [of _ ?cs4]) simp
qed

lemma keeps_ensure: "keeps L q (EnsureSyncSchema q)" "keeps L (EnsureSyncSchema q) q"
  by (intro keeps_same; simp)+

lemma offered_ensure [simp]: "offered (EnsureSyncSchema q) = offered q"
  by (simp add: offered_def public_def clone_rows_def max_clone_rid_def)

lemma blob_data_expands:
  assumes "wf_repo q" "authentic L q" "b \<in> set (offered q)"
  shows "expands (l_inflate L) q (bl_rid b) (blob_data L q b)"
proof -
  have b: "b \<in> set (t_blob q)" "bl_size b \<ge> 0" using assms(3) by (auto simp: offered_def public_def clone_rows_def)
  then have "bl_rid b > 0" using assms(1) by (auto simp: wf_repo_def list_all_iff)
  with blob_data_authentic(1) [OF assms(1,2) b] Expand_eq_expands show ?thesis by blast
qed

lemma blob_data_ensure:
  assumes "wf_repo q" "authentic L q" "b \<in> set (offered q)"
  shows "blob_data L (EnsureSyncSchema q) b = blob_data L q b"
proof -
  have "wf_repo (EnsureSyncSchema q)" "authentic L (EnsureSyncSchema q)"
    using keeps_ensure(1) [of L q] assms(1,2) by (simp_all add: keeps_def)
  from blob_data_expands [OF this, of b] assms(3)
  have "expands (l_inflate L) q (bl_rid b) (blob_data L (EnsureSyncSchema q) b)"
    using keeps_ensure(2) [of L q] by (simp add: keeps_def)
  with blob_data_expands [OF assms] show ?thesis by (rule expands_fun [rotated])
qed

lemma good_server_ensure:
  assumes "good_server E q"
  shows "good_server E (EnsureSyncSchema q)"
proof -
  have q: "wf_repo q" "authentic (e_L E) q" "open_server E q" "list_all (sendable (e_L E) q) (offered q)"
    using assms by (auto simp: good_server_def open_server_def)
  have "open_server E (EnsureSyncSchema q)"
    using q(3) keeps_ensure(1) [of "e_L E" q] q(1,2)
    by (auto simp: open_server_def EnsureSyncSchema_def user_row_of_def keeps_def)
  moreover have "authentic (e_L E) (EnsureSyncSchema q)" using keeps_ensure(1) [of "e_L E" q] q(1,2) by (simp add: keeps_def)
  ultimately show ?thesis using q(4) blob_data_ensure [OF q(1,2)] by (auto simp: good_server_def list_all_iff sendable_def)
qed

lemma round_batch:
  assumes zlib: "zlib_writer (l_deflate (e_L E)) (l_inflate (e_L E))" and anon: "co_User opts = []"
    and srv: "good_server E t" "EnsureSyncSchema t = q1" and inv: "before_batch E q1 k cs"
  shows "\<exists>cs' n. clone_round E (serve E) opts rb k p (t, cs) = ((q1, cs'), Ok (Some n)) \<and>
     (if 200 * (k + 1) < length (offered q1) then before_batch E q1 (k + 1) cs' else after_batches E q1 cs')"
proof -
  let ?P = "offered q1" and ?L = "e_L E" and ?m = "max_clone_rid q1" and ?j = "200 * k"
  let ?mo = "if k = 0 then None else Some ?m" and ?s = "last_rid 0 (take ?j ?P)"
  let ?v = "if co_Version opts \<le> 0 then 3 else co_Version opts"
  have q1: "good_server E q1" using good_server_ensure [OF srv(1)] srv(2) by simp
  then have wf: "wf_repo q1" and auth: "authentic ?L q1" and small: "list_all (\<lambda>b. bl_rid b < 2 ^ 63) (t_blob q1)"
    and good: "list_all (sendable ?L q1) ?P"
    by (simp_all add: good_server_def open_server_def)
  have inv': "client_ok ?L q1 (take ?j ?P) cs" "k = 0 \<Longrightarrow> cs_cookie cs = [] \<and> cs_seqno cs = 1"
      "k > 0 \<Longrightarrow> ?j < length ?P \<and> cs_cookie cs = cap_cookie ?m \<and> cs_seqno cs = ?s"
    using inv by (auto simp: before_batch_def Let_def)
  have s: "k = 0 \<Longrightarrow> ?s = 0" "k > 0 \<Longrightarrow> ?s > 0 \<and> ?m > 0"
  proof -
    show "k = 0 \<Longrightarrow> ?s = 0" by (simp add: last_rid_def)
    assume k: "k > 0"
    with inv'(3) have ne: "take ?j ?P \<noteq> []" by auto
    then have "last (take ?j ?P) \<in> set ?P" by (metis in_set_takeD last_in_set)
    then have "bl_rid (last (take ?j ?P)) > 0 \<and> bl_rid (last (take ?j ?P)) \<le> ?m"
      by (auto simp: offered_def public_def clone_rows_def)
    with ne show "?s > 0 \<and> ?m > 0" by (auto simp: last_rid_def)
  qed
  have ph: "cs_phantoms cs = []" using inv'(1) by (simp add: client_ok_def)
  have req: "buildRequest E opts (rb k) k cs = Ok (clone_request ?mo ?v (if ?mo = None then 1 else ?s))"
    using anon inv'(2,3) s ph by (cases "k = 0") (simp_all add: buildRequest_def clone_cards_def clone_request_def)
  have resp: "serve E t (clone_request ?mo ?v (if ?mo = None then 1 else ?s)) =
      (q1, Ok (project_card q1 @ (if ?mo = None then [CookieCard (cap_cookie ?m)] else []) @ batch_cards ?L q1 ?s ?m))"
    using serve_clone [of E t, where mo = ?mo and s = ?s and m = ?m and v = ?v] srv auth s max_clone_rid_bounds(2) [OF small]
    by (auto simp: good_server_def)
  obtain cs' where cs': "processResponse E (project_card q1 @ (if ?mo = None then [CookieCard (cap_cookie ?m)] else []) @ batch_cards ?L q1 ?s ?m) cs =
       (cs', Ok (drop ?j ?P = []))" "client_ok ?L q1 (take (?j + 200) ?P) cs'" "cs_cookie cs' = cap_cookie ?m"
       "cs_seqno cs' = (if length ?P > ?j + 200 then last_rid 0 (take (?j + 200) ?P) else 0)"
    using response_batch [OF zlib wf good inv'(1) refl, of "if ?mo = None then [CookieCard (cap_cookie ?m)] else []"] inv'(3)
    by (cases "k = 0") auto
  have more: "k \<ge> 1 \<Longrightarrow> drop ?j ?P \<noteq> []" using inv'(3) by auto
  let ?cs = "cs'\<lparr>cs_rounds := k + 1\<rparr>"
  have "\<exists>n. clone_round E (serve E) opts rb k p (t, cs) = ((q1, ?cs), Ok (Some n))"
    unfolding clone_round_def prod.case req outcome.case resp cs'(1) using more by (auto simp: Let_def)
  moreover have "if 200 * (k + 1) < length ?P then before_batch E q1 (k + 1) ?cs else after_batches E q1 ?cs"
    using cs'(2-4) by (auto simp: before_batch_def after_batches_def client_ok_def algebra_simps)
  ultimately show ?thesis by blast
qed

lemma round_final:
  assumes "co_User opts = []" "good_server E t" "EnsureSyncSchema t = q1" "after_batches E q1 cs" "k \<ge> 1"
  shows "\<exists>cs'. clone_round E (serve E) opts rb k p (t, cs) = ((q1, cs'), Ok None) \<and> client_ok (e_L E) q1 (offered q1) cs'"
proof -
  let ?m = "max_clone_rid q1"
  let ?pull = "if cs_projectCode cs \<noteq> [] \<and> cs_serverCode cs \<noteq> [] then [PullCard (cs_serverCode cs) (cs_projectCode cs)] else []"
  have inv: "client_ok (e_L E) q1 (offered q1) cs" "cs_cookie cs = cap_cookie ?m" "cs_seqno cs = 0" "cs_phantoms cs = []"
    using assms(4) by (simp_all add: after_batches_def client_ok_def)
  have req: "buildRequest E opts (rb k) k cs = Ok (client_version # CookieCard (cap_cookie ?m) # ?pull)"
    using assms(1) inv by (simp add: buildRequest_def clone_cards_def)
  have small: "list_all (\<lambda>b. bl_rid b < 2 ^ 63) (t_blob q1)"
    using assms(2,3) by (auto simp: good_server_def open_server_def)
  have pull: "?pull = [] \<or> (\<exists>sc pc. ?pull = [PullCard sc pc])" by simp
  obtain us where "serve E t (client_version # CookieCard (cap_cookie ?m) # ?pull) = (q1, Ok (map (\<lambda>u. IGotCard u False) us))"
    using serve_final [OF _ pull max_clone_rid_bounds(1,2) [OF small], of E t] assms(2,3) unfolding good_server_def by blast
  moreover have "processResponse E (map (\<lambda>u. IGotCard u False) us) cs = (cs\<lparr>cs_recvd := cs_recvd cs + 0\<rparr>, Ok True)"
    by (simp add: processResponse_def clone_response_igots)
  ultimately show ?thesis
    using inv assms(5) unfolding clone_round_def prod.case req outcome.case by (simp add: Let_def client_ok_def)
qed

lemma clone_rounds_deliver:
  assumes "zlib_writer (l_deflate (e_L E)) (l_inflate (e_L E))" "co_User opts = []" "good_server E t" "EnsureSyncSchema t = q1"
    and "before_batch E q1 k cs" "length (offered q1) \<le> 19800" "200 * k < length (offered q1) \<or> k = 0"
  shows "\<exists>cs'. clone_rounds E (serve E) opts rb k p (t, cs) = ((q1, cs'), Ok ()) \<and> client_ok (e_L E) q1 (offered q1) cs'"
  using assms(3-)
proof (induction "length (offered q1) - 200 * k" arbitrary: k cs t p rule: less_induct)
  case less
  have bound: "k < MaxRounds" "k + 1 < MaxRounds" using less.prems(4,5) by (auto simp: MaxRounds_def)
  from round_batch [OF assms(1,2) less.prems(1-3), of rb p]
  obtain cs' n where r: "clone_round E (serve E) opts rb k p (t, cs) = ((q1, cs'), Ok (Some n))"
     "if 200 * (k + 1) < length (offered q1) then before_batch E q1 (k + 1) cs' else after_batches E q1 cs'" by blast
  have q1: "good_server E q1" "EnsureSyncSchema q1 = q1"
    using good_server_ensure [OF less.prems(1)] less.prems(2) EnsureSyncSchema_idem [of t] by simp_all
  have step: "clone_rounds E (serve E) opts rb k p (t, cs) = clone_rounds E (serve E) opts rb (k + 1) n (q1, cs')"
    using bound(1) r(1) by (subst clone_rounds.simps) simp
  show ?case
  proof (cases "200 * (k + 1) < length (offered q1)")
    case True
    with r(2) have "before_batch E q1 (k + 1) cs'" by simp
    with less.hyps [of "k + 1" q1 cs' n] True less.prems(4) q1 step show ?thesis by simp
  next
    case False
    with r(2) have "after_batches E q1 cs'" by simp
    from round_final [OF assms(2) q1 this, of "k + 1" rb n]
    obtain cs'' where f: "clone_round E (serve E) opts rb (k + 1) n (q1, cs') = ((q1, cs''), Ok None)" "client_ok (e_L E) q1 (offered q1) cs''"
      by auto
    have "clone_rounds E (serve E) opts rb (k + 1) n (q1, cs') = ((q1, cs''), Ok ())"
      using bound(2) f(1) by (subst clone_rounds.simps) simp
    with step f(2) show ?thesis by auto
  qed
qed

section \<open>The clone\<close>

lemma holds_full: "holds L q u c \<Longrightarrow> wf_repo q \<Longrightarrow> u \<in> full_uuids q"
proof -
  assume "holds L q u c" and wf: "wf_repo q"
  then obtain b where b: "blob_by_uuid q u = Some b" "bl_rid b > 0" "expands (l_inflate L) q (bl_rid b) c" by (auto simp: holds_def)
  then have mem: "b \<in> set (t_blob q)" "bl_uuid b = u" by (auto dest: blob_by_uuid_Some)
  from b(3) obtain v where "Load (l_inflate L) False q (bl_rid b) = Ok v" by cases auto
  then have "bl_size b \<noteq> - 1" using blob_by_rid_member [OF wf mem(1)] by (auto simp: Load_def split: if_splits)
  with mem show ?thesis by (auto simp: full_uuids_def)
qed

lemma new_repo_setup:
  assumes "rng 0 = Some p" "rng 1 = Some s"
  obtains r where "CreateWithEnv False ''setup'' now rng [] = Ok r" "t_blob r = []" "t_delta r = []" "t_phantom r = []" "t_unclustered r = []"
  using assms by (simp add: CreateWithEnv_def SeedUser_def SeedNobody_def SeedConfig_def randomHex_def empty_repo_def user_row_of_def)

text \<open>
  Claim C4.  An anonymous clone of a server that lets anyone clone and pull, whose public artifacts are
  at most 19800 and well-behaved, ends within the round limit; the new repository is
  well-formed and authentic, holds every public artifact of the server with its content and
  no other content, and keeps it when the received manifests are crosslinked.
\<close>

theorem Clone_delivers:
  assumes "zlib_writer (l_deflate (e_L E)) (l_inflate (e_L E))" "good_server E q" "length (offered q) \<le> 19800" "co_User opts = []"
    and "rng 0 = Some p" "rng 1 = Some s"
  shows "\<exists>r cs. CreateWithEnv False ''setup'' (e_now E div 10 ^ 9) rng [] = Ok r \<and>
    clone_rounds E (serve E) opts rb 0 (- 1) (q, clone_start r) = ((EnsureSyncSchema q, cs), Ok ()) \<and>
    wf_repo (cs_repo cs) \<and> authentic (e_L E) (cs_repo cs) \<and> full_uuids (cs_repo cs) = bl_uuid ` set (offered q) \<and>
    (\<forall>b c. b \<in> set (offered q) \<and> expands (l_inflate (e_L E)) q (bl_rid b) c \<longrightarrow> holds (e_L E) (cs_repo cs) (bl_uuid b) c) \<and>
    (\<forall>q2 n. Crosslink (e_L E) (e_unicode E) (cs_repo cs) = (q2, n, Ok ()) \<longrightarrow>
       Clone E (serve E) opts rb rng False q = (EnsureSyncSchema q, Ok (cs\<lparr>cs_repo := q2\<rparr>, n)) \<and>
       (\<forall>u c. holds (e_L E) (cs_repo cs) u c \<longrightarrow> holds (e_L E) q2 u c))"
proof -
  let ?L = "e_L E" and ?q1 = "EnsureSyncSchema q"
  have q: "wf_repo q" "authentic ?L q" using assms(2) by (auto simp: good_server_def open_server_def)
  obtain r where r: "CreateWithEnv False ''setup'' (e_now E div 10 ^ 9) rng [] = Ok r" "t_blob r = []" "t_delta r = []"
      "t_phantom r = []" "t_unclustered r = []"
    by (rule new_repo_setup [OF assms(5,6)])
  have "before_batch E ?q1 0 (clone_start r)"
    using r by (simp add: before_batch_def client_ok_def clone_start_def delete_config_def wf_repo_def authentic_def rows_known_def full_uuids_def)
  from clone_rounds_deliver [OF assms(1,4,2) refl this, of rb "- 1"] assms(3)
  obtain cs where cs: "clone_rounds E (serve E) opts rb 0 (- 1) (q, clone_start r) = ((?q1, cs), Ok ())"
      "client_ok ?L ?q1 (offered q) cs"
    by auto
  from cs(2) have ok: "wf_repo (cs_repo cs)" "authentic ?L (cs_repo cs)" "full_uuids (cs_repo cs) \<subseteq> bl_uuid ` set (offered q)"
      "\<And>b. b \<in> set (offered q) \<Longrightarrow> holds ?L (cs_repo cs) (bl_uuid b) (blob_data ?L q b)"
    using blob_data_ensure [OF q] by (auto simp: client_ok_def)
  then have full: "full_uuids (cs_repo cs) = bl_uuid ` set (offered q)" using holds_full by blast
  have data: "c = blob_data ?L q b" if "b \<in> set (offered q)" "expands (l_inflate ?L) q (bl_rid b) c" for b c
    using expands_fun [OF that(2) blob_data_expands [OF q that(1)]] .
  have link: "Clone E (serve E) opts rb rng False q = (?q1, Ok (cs\<lparr>cs_repo := q2\<rparr>, n)) \<and>
       (\<forall>u c. holds ?L (cs_repo cs) u c \<longrightarrow> holds ?L q2 u c)"
    if x: "Crosslink ?L (e_unicode E) (cs_repo cs) = (q2, n, Ok ())" for q2 n
  proof -
    have "grows (cs_repo cs) q2"
      using grows_sweep [of "cs_repo cs" ?L "e_unicode E" "candidates (cs_repo cs)" 0] x by (simp add: Crosslink_def)
    then have "keeps ?L (cs_repo cs) q2" by (rule keeps_grows)
    with r(1) cs(1) x assms(4) keeps_holds show ?thesis by (auto simp: Clone_def)
  qed
  from r(1) cs(1) ok full data link show ?thesis by blast
qed

lemma toy_offered: "offered toy_server = [toy_row 1 ''hello'']"
  by (simp add: offered_def public_def clone_rows_def max_clone_rid_def toy_server_def toy_row_def empty_repo_def)

lemma toy_good: "good_server toy_env toy_server"
proof -
  have "expand toy_libs toy_server 1 = Ok ''hello''" using toy_server_expands(1) by (simp add: Expand_eq_expands)
  then have data: "blob_data toy_libs toy_server (toy_row 1 ''hello'') = ''hello''" by (simp add: blob_data_def toy_row_def)
  have "IsValidHash (l_sha1 toy_libs ''hello'') = Ok True" by code_simp
  moreover have "receivable toy_libs ''hello''" by (simp add: receivable_def Parse_def VerifyZ_def)
  ultimately have "sendable toy_libs toy_server (toy_row 1 ''hello'')"
    using data by (simp add: sendable_def toy_row_def digest_def toy_libs_def)
  moreover have "open_server toy_env toy_server"
    using toy_server_wf by (simp add: open_server_def toy_server_def user_row_of_def CanClone_def CanPull_def HasCapability_def empty_repo_def toy_row_def)
  ultimately show ?thesis using toy_server_authentic by (simp add: good_server_def toy_env_def toy_offered)
qed

theorem Clone_delivers_witness:
  "\<exists>r cs. CreateWithEnv False ''setup'' 1 (\<lambda>_. Some ''p'') [] = Ok r \<and>
     clone_rounds toy_env (serve toy_env) \<lparr>co_User = [], co_Password = [], co_Version = 0\<rparr> (\<lambda>_. []) 0 (- 1) (toy_server, clone_start r) =
       ((EnsureSyncSchema toy_server, cs), Ok ()) \<and> holds toy_libs (cs_repo cs) (l_sha1 toy_libs ''hello'') ''hello'' \<and>
     l_sha1 toy_libs ''secret'' \<notin> full_uuids (cs_repo cs)"
proof -
  let ?opts = "\<lparr>co_User = [], co_Password = [], co_Version = 0\<rparr>"
  have ne: "l_sha1 toy_libs ''hello'' \<noteq> l_sha1 toy_libs ''secret''" by code_simp
  from Clone_delivers [OF toy_zlib toy_good, of ?opts "\<lambda>_. Some ''p''" "''p''" "''p''" "\<lambda>_. []"]
  obtain r cs where r: "CreateWithEnv False ''setup'' 1 (\<lambda>_. Some ''p'') [] = Ok r"
      "clone_rounds toy_env (serve toy_env) ?opts (\<lambda>_. []) 0 (- 1) (toy_server, clone_start r) = ((EnsureSyncSchema toy_server, cs), Ok ())"
      "full_uuids (cs_repo cs) = bl_uuid ` set (offered toy_server)"
      "\<And>b c. b \<in> set (offered toy_server) \<Longrightarrow> expands (l_inflate toy_libs) toy_server (bl_rid b) c \<Longrightarrow> holds toy_libs (cs_repo cs) (bl_uuid b) c"
    by (auto simp: toy_offered toy_env_def)
  have "holds toy_libs (cs_repo cs) (l_sha1 toy_libs ''hello'') ''hello''"
    using r(4) [of "toy_row 1 ''hello''" "''hello''"] toy_server_expands(1) by (simp add: toy_offered toy_row_def)
  moreover have "l_sha1 toy_libs ''secret'' \<notin> full_uuids (cs_repo cs)" using r(3) ne by (simp add: toy_offered toy_row_def)
  ultimately show ?thesis using r(1,2) by blast
qed

end
