(* ===== verification/Go_Step.thy ===== *)
theory Go_Step
  imports Prelude
begin

text \<open>
  Functions that work on a state and may fail: the new state beside the outcome, also when the
  outcome is an error, since Go's state stays changed.
\<close>

definition ret :: "'a \<Rightarrow> 's \<Rightarrow> 's \<times> ('e, 'a) outcome" where
  "ret x s = (s, Ok x)"

definition chain :: "('s \<Rightarrow> 's \<times> ('e, 'a) outcome) \<Rightarrow> ('a \<Rightarrow> 's \<Rightarrow> 's \<times> ('e, 'b) outcome) \<Rightarrow> 's \<Rightarrow> 's \<times> ('e, 'b) outcome" where
  "chain m f s = (case m s of (s1, Ok x) \<Rightarrow> f x s1 | (s1, Err e) \<Rightarrow> (s1, Err e) | (s1, Panic p) \<Rightarrow> (s1, Panic p))"

text \<open>A call that leaves the state alone.\<close>

definition call :: "('e \<Rightarrow> 'f) \<Rightarrow> ('e, 'a) outcome \<Rightarrow> 's \<Rightarrow> 's \<times> ('f, 'a) outcome" where
  "call w m s = (s, wrap_err w m)"

definition change :: "('s \<Rightarrow> 's) \<Rightarrow> 's \<Rightarrow> 's \<times> ('e, unit) outcome" where
  "change f s = (f s, Ok ())"

fun for_each :: "('x \<Rightarrow> 's \<Rightarrow> 's \<times> ('e, unit) outcome) \<Rightarrow> 'x list \<Rightarrow> 's \<Rightarrow> 's \<times> ('e, unit) outcome" where
  "for_each f [] = ret ()"
| "for_each f (x # xs) = chain (f x) (\<lambda>_. for_each f xs)"

text \<open>The lists that the rounds of a loop give, joined.\<close>

fun gather :: "('x \<Rightarrow> 's \<Rightarrow> 's \<times> ('e, 'a list) outcome) \<Rightarrow> 'x list \<Rightarrow> 's \<Rightarrow> 's \<times> ('e, 'a list) outcome" where
  "gather f [] = ret []"
| "gather f (x # xs) = chain (f x) (\<lambda>ys. chain (gather f xs) (\<lambda>zs. ret (ys @ zs)))"

section \<open>Relations that steps keep\<close>

locale kept_relation =
  fixes R :: "'s \<Rightarrow> 's \<Rightarrow> bool"
  assumes refl: "R s s" and trans: "R s s1 \<Longrightarrow> R s1 s2 \<Longrightarrow> R s s2"
begin

lemma ret: "R s (fst (ret x s))"
  by (simp add: ret_def refl)

lemma call: "R s (fst (call w m s))"
  by (simp add: call_def refl)

lemma change: "R s (f s) \<Longrightarrow> R s (fst (change f s))"
  by (simp add: change_def)

lemma chain: "R s (fst (m s)) \<Longrightarrow> (\<And>x s1. m s = (s1, Ok x) \<Longrightarrow> R s1 (fst (f x s1))) \<Longrightarrow> R s (fst (chain m f s))"
  by (cases "m s"; cases "snd (m s)") (auto simp: chain_def intro: trans)

lemma for_each: "(\<And>x s. x \<in> set xs \<Longrightarrow> R s (fst (f x s))) \<Longrightarrow> R s (fst (for_each f xs s))"
  by (induction xs arbitrary: s) (simp_all add: ret chain)

lemma gather: "(\<And>x s. x \<in> set xs \<Longrightarrow> R s (fst (f x s))) \<Longrightarrow> R s (fst (gather f xs s))"
  by (induction xs arbitrary: s) (auto intro!: ret chain)

lemmas rules = ret call chain for_each gather

end

text \<open>What every list that a loop joins has, the joined list has.\<close>

lemma chain_Ok: "chain m f s = (s2, Ok y) \<longleftrightarrow> (\<exists>s1 x. m s = (s1, Ok x) \<and> f x s1 = (s2, Ok y))"
  by (cases "m s"; cases "snd (m s)") (auto simp: chain_def)

lemma gather_all:
  assumes "gather f xs s = (s1, Ok ys)" "\<And>x s s1 ys. x \<in> set xs \<Longrightarrow> f x s = (s1, Ok ys) \<Longrightarrow> list_all P ys"
  shows "list_all P ys"
  using assms
proof (induction xs arbitrary: s s1 ys)
  case Nil
  then show ?case by (simp add: ret_def)
next
  case (Cons x xs)
  then obtain s2 ys1 s3 ys2 where 1: "f x s = (s2, Ok ys1)" "gather f xs s2 = (s3, Ok ys2)" "ys = ys1 @ ys2"
    by (auto simp: chain_Ok ret_def)
  from Cons.IH [OF 1(2)] Cons.prems(2) have "list_all P ys2" by (meson list.set_intros(2))
  with 1 Cons.prems(2) [of x s s2 ys1] show ?case by simp
qed

text \<open>The round of a loop that deals with an element.\<close>

context kept_relation
begin

lemma for_each_step:
  assumes "for_each f xs s = (s', Ok ())" "\<And>x s. x \<in> set xs \<Longrightarrow> R s (fst (f x s))" "y \<in> set xs"
  shows "\<exists>s1 s2. R s s1 \<and> f y s1 = (s2, Ok ()) \<and> R s2 s'"
  using assms
proof (induction xs arbitrary: s)
  case (Cons x xs)
  then obtain s1 where s1: "f x s = (s1, Ok ())" "for_each f xs s1 = (s', Ok ())" by (auto simp: chain_Ok)
  have rest: "R s1 s'" using for_each [of xs f s1] Cons.prems(2) s1(2) by (metis fst_conv list.set_intros(2))
  show ?case
  proof (cases "y = x")
    case True
    with s1(1) rest refl show ?thesis by blast
  next
    case False
    with Cons.IH [OF s1(2)] Cons.prems(2,3) obtain t1 t2 where "R s1 t1" "f y t1 = (t2, Ok ())" "R t2 s'" by auto
    moreover have "R s s1" using Cons.prems(2) [of x s] s1(1) by simp
    ultimately show ?thesis using trans by blast
  qed
qed simp

end

end
