(* ===== verification/Session.thy ===== *)
theory Session
  imports Go_Step Clone
begin

text \<open>
  The client side of a sync (\<open>internal/sync\<close>: \<open>session.go\<close>, \<open>client.go\<close>): the session and what its
  operations share.  As on the server, fault injection is off and there is no content cache;
  the observer, the statistics only it sees and the cancellation of the context are left out.
  The sets of the session are lists, iterated in list order where Go leaves the order open.
  The map of unversioned files to send may be nil, which a write to it turns into a panic.
\<close>

section \<open>State\<close>

definition DefaultMaxSend :: int where "DefaultMaxSend = 250000"

definition MaxGimmeBase :: int where "MaxGimmeBase = 200"

record SyncOpts =
  so_Push :: bool
  so_Pull :: bool
  so_ProjectCode :: bytes
  so_ServerCode :: bytes
  so_User :: bytes
  so_Password :: bytes
  so_MaxSend :: int
  so_UV :: bool
  so_XTableSync :: bool
  so_Private :: bool
  so_CkinLock :: "(bytes \<times> bytes) option"

record SyncResult =
  re_Rounds :: int
  re_FilesSent :: int
  re_FilesRecvd :: int
  re_UVFilesSent :: int
  re_UVFilesRecvd :: int
  re_UVGimmesSent :: int
  re_BytesSent :: int
  re_BytesRecvd :: int
  re_ArtifactsLinked :: nat
  re_Errors :: "bytes list"
  re_CkinLockFail :: "(bytes \<times> int) option"

record session =
  s_repo :: repo
  s_opts :: SyncOpts
  s_result :: SyncResult
  s_cookie :: bytes
  s_remoteHas :: "bytes list"
  s_phantoms :: "bytes list"
  s_pendingSend :: "bytes list"
  s_filesRecvdLastRound :: int
  s_igotSentThisRound :: int
  s_maxSend :: int
  s_phantomAge :: "(bytes \<times> int) list"
  s_uvHashSent :: bool
  s_uvPushOK :: bool
  s_uvPullOnly :: bool
  s_uvToSend :: "(bytes \<times> bool) list option"
  s_uvGimmes :: "bytes list"
  s_nUvGimmeSent :: int
  s_nUvFileRcvd :: int
  s_nGimmeRcvd :: int
  s_nextIsPrivate :: bool
  s_roundSent :: int
  s_roundRecvd :: int
  s_xTableGimmes :: "(bytes \<times> bytes) list"
  s_xTableToSend :: "(bytes \<times> bytes) list"
  s_xTableCache :: "(bytes \<times> TableDef) list option"

datatype client_error =
    SSync sync_error | SBlob blob_error | SContent content_error | SUv uv_error | STable table_error
  | SEncode xfer_error | SLogin auth_error | SCrosslink crosslink_error
  | BlobNotFound bytes | UVHashMismatch bytes | SExchange bytes | SRounds nat

type_synonym 'a act = "session \<Rightarrow> session \<times> (client_error, 'a) outcome"

definition no_result :: SyncResult where
  "no_result = \<lparr>re_Rounds = 0, re_FilesSent = 0, re_FilesRecvd = 0, re_UVFilesSent = 0, re_UVFilesRecvd = 0,
     re_UVGimmesSent = 0, re_BytesSent = 0, re_BytesRecvd = 0, re_ArtifactsLinked = 0, re_Errors = [], re_CkinLockFail = None\<rparr>"

text \<open>All local unversioned files are to be sent, tombstones too.\<close>

definition newSession :: "repo \<Rightarrow> SyncOpts \<Rightarrow> (client_error, session) outcome" where
  "newSession q opts =
     (let s = \<lparr>s_repo = q, s_opts = opts, s_result = no_result, s_cookie = [], s_remoteHas = [], s_phantoms = [], s_pendingSend = [],
               s_filesRecvdLastRound = 0, s_igotSentThisRound = 0,
               s_maxSend = (if so_MaxSend opts \<le> 0 then DefaultMaxSend else so_MaxSend opts),
               s_phantomAge = [], s_uvHashSent = False, s_uvPushOK = False, s_uvPullOnly = False, s_uvToSend = None, s_uvGimmes = [],
               s_nUvGimmeSent = 0, s_nUvFileRcvd = 0, s_nGimmeRcvd = 0, s_nextIsPrivate = False, s_roundSent = 0, s_roundRecvd = 0,
               s_xTableGimmes = [], s_xTableToSend = [], s_xTableCache = None\<rparr>
      in if so_UV opts
         then (case List (EnsureSchema q) of
                 Ok entries \<Rightarrow> Ok (s\<lparr>s_repo := EnsureSchema q, s_uvToSend := Some (map (\<lambda>e. (en_Name e, True)) entries)\<rparr>)
               | _ \<Rightarrow> Panic ''sync.newSession: uv.List'')
         else Ok s)"

text \<open>\<open>uvToSend[name] = full\<close> and \<open>delete(uvToSend, name)\<close>\<close>

definition uv_queue :: "bytes \<Rightarrow> bool \<Rightarrow> unit act" where
  "uv_queue name full s =
     (case s_uvToSend s of
        None \<Rightarrow> (s, Panic ''assignment to entry in nil map'')
      | Some m \<Rightarrow> (s\<lparr>s_uvToSend := Some (AList.update name full m)\<rparr>, Ok ()))"

definition uv_unqueue :: "bytes \<Rightarrow> session \<Rightarrow> session" where
  "uv_unqueue name s = s\<lparr>s_uvToSend := map_option (AList.delete name) (s_uvToSend s)\<rparr>"

definition queue_phantom :: "bytes \<Rightarrow> session \<Rightarrow> session" where
  "queue_phantom uuid s = s\<lparr>s_phantoms := List.insert uuid (s_phantoms s)\<rparr>"

definition unqueue_send :: "bytes \<Rightarrow> session \<Rightarrow> session" where
  "unqueue_send uuid s = s\<lparr>s_pendingSend := removeAll uuid (s_pendingSend s)\<rparr>"

section \<open>Announcements\<close>

text \<open>The artifacts of the given rows that may be announced to a peer that does not have them.\<close>

definition announceable :: "session \<Rightarrow> rid \<Rightarrow> blob_row list" where
  "announceable s r =
     (let q = s_repo s in
      filter (\<lambda>b. bl_rid b = r \<and> bl_size b \<ge> 0 \<and> r \<notin> set (t_phantom q) \<and> \<not> shunned q (bl_uuid b) \<and> r \<notin> set (t_private q))
        (t_blob q))"

definition igots :: "session \<Rightarrow> bool \<Rightarrow> blob_row list \<Rightarrow> Card list" where
  "igots s priv bs = map (\<lambda>b. IGotCard (bl_uuid b) priv) (filter (\<lambda>b. bl_uuid b \<notin> set (s_remoteHas s)) bs)"

definition sendUnclustered :: "session \<Rightarrow> Card list" where
  "sendUnclustered s = igots s False (concat (map (announceable s) (t_unclustered (s_repo s))))"

definition sendAllClusters :: "session \<Rightarrow> Card list" where
  "sendAllClusters s =
     igots s False (filter (\<lambda>b. bl_rid b \<notin> set (t_unclustered (s_repo s)))
       (concat (map (announceable s \<circ> tx_rid) (filter (\<lambda>x. tx_tagid x = 7) (t_tagxref (s_repo s))))))"

definition sendPrivate :: "session \<Rightarrow> Card list" where
  "sendPrivate s =
     (let q = s_repo s in
      igots s True (concat (map (\<lambda>r. filter (\<lambda>b. bl_rid b = r \<and> bl_size b \<ge> 0) (t_blob q)) (t_private q))))"

section \<open>Files and requests\<close>

definition loadFileCard :: "env \<Rightarrow> repo \<Rightarrow> bytes \<Rightarrow> (client_error, bytes) outcome" where
  "loadFileCard E q uuid =
     bind_ok (wrap_err SBlob (Exists q uuid)) (\<lambda>found.
       case found of
         None \<Rightarrow> Err (BlobNotFound uuid)
       | Some r \<Rightarrow> wrap_err SContent (expand (e_L E) q r))"

definition private_status :: "repo \<Rightarrow> bytes \<Rightarrow> (client_error, bool) outcome" where
  "private_status q uuid =
     bind_ok (wrap_err SBlob (Exists q uuid)) (\<lambda>found.
       case found of None \<Rightarrow> Ok False | Some r \<Rightarrow> wrap_err SContent (IsPrivate q r))"

text \<open>
  The loop over the queue of artifacts to send.  The private card comes before the artifact
  is loaded; one that cannot be loaded stays in the queue.
\<close>

fun file_loop :: "env \<Rightarrow> bytes list \<Rightarrow> int \<Rightarrow> Card list \<Rightarrow> Card list act" where
  "file_loop E [] budget cards s = (s, Ok cards)"
| "file_loop E (u # us) budget cards s =
     (if budget \<le> 0 then (s, Ok cards)
      else case private_status (s_repo s) u of
        Err e \<Rightarrow> (s, Err e)
      | Panic p \<Rightarrow> (s, Panic p)
      | Ok isPriv \<Rightarrow>
          if isPriv \<and> \<not> so_Private (s_opts s) then file_loop E us budget cards (unqueue_send u s)
          else let cards1 = cards @ (if isPriv then [PrivateCard] else []) in
            (case loadFileCard E (s_repo s) u of
               Err e \<Rightarrow> file_loop E us budget cards1 s
             | Panic p \<Rightarrow> (s, Panic p)
             | Ok data \<Rightarrow>
                 file_loop E us (budget - int (length data)) (cards1 @ [FileCard u [] data])
                   ((unqueue_send u s)\<lparr>s_result := (s_result s)\<lparr>re_FilesSent := re_FilesSent (s_result s) + 1\<rparr>,
                                        s_roundSent := s_roundSent s + int (length data)\<rparr>)))"

definition buildFileCards :: "env \<Rightarrow> Card list act" where
  "buildFileCards E s = (if \<not> so_Push (s_opts s) then (s, Ok []) else file_loop E (s_pendingSend s) (s_maxSend s) [] s)"

fun gimme_loop :: "repo \<Rightarrow> bool \<Rightarrow> int \<Rightarrow> bytes list \<Rightarrow> int \<Rightarrow> (client_error, Card list) outcome" where
  "gimme_loop q priv maxGimme [] sent = Ok []"
| "gimme_loop q priv maxGimme (u # us) sent =
     (if sent \<ge> maxGimme then Ok []
      else bind_ok (if priv then Ok False else private_status q u) (\<lambda>skip.
             if skip then gimme_loop q priv maxGimme us sent
             else bind_ok (gimme_loop q priv maxGimme us (sent + 1)) (\<lambda>cs. Ok (GimmeCard u # cs))))"

definition buildGimmeCards :: "session \<Rightarrow> (client_error, Card list) outcome" where
  "buildGimmeCards s =
     (if \<not> so_Pull (s_opts s) then Ok []
      else gimme_loop (s_repo s) (so_Private (s_opts s)) (max MaxGimmeBase (s_filesRecvdLastRound s * 2)) (s_phantoms s) 0)"

text \<open>The card of an unversioned file and the bytes it takes from the budget.\<close>

definition uv_card :: "bytes \<Rightarrow> bool \<Rightarrow> bytes option \<times> int \<times> bytes \<Rightarrow> Card \<times> int" where
  "uv_card name full = (\<lambda>(content, mtime, fileHash).
     let data = (case content of None \<Rightarrow> [] | Some c \<Rightarrow> c) in
     if fileHash = [] then (UVFileCard name mtime ''-'' 0 UVFlagDeletion [], 0)
     else if full \<and> content \<noteq> None then (UVFileCard name mtime fileHash (int (length data)) 0 data, int (length data))
     else (UVFileCard name mtime fileHash (int (length data)) UVFlagContentOmitted [], 0))"

fun uvfile_loop :: "env \<Rightarrow> (bytes \<times> bool) list \<Rightarrow> int \<Rightarrow> Card list act" where
  "uvfile_loop E [] budget s = (s, Ok [])"
| "uvfile_loop E ((name, full) # m) budget s =
     (if budget \<le> 0 then (s, Ok [])
      else chain (call SUv (Read (l_inflate (e_L E)) (s_repo s) name)) (\<lambda>stored.
           chain (change (uv_unqueue name)) (\<lambda>_.
           chain (uvfile_loop E m (budget - snd (uv_card name full stored))) (\<lambda>cs.
           ret (fst (uv_card name full stored) # cs)))) s)"

definition buildUVFileCards :: "env \<Rightarrow> Card list act" where
  "buildUVFileCards E s = uvfile_loop E (case s_uvToSend s of None \<Rightarrow> [] | Some m \<Rightarrow> m) (s_maxSend s) s"

definition buildLoginCard :: "env \<Rightarrow> bytes \<Rightarrow> Card list \<Rightarrow> session \<Rightarrow> (client_error, Card) outcome" where
  "buildLoginCard E rb cards s =
     bind_ok (wrap_err SEncode (encode_cards (l_deflate (e_L E)) cards)) (\<lambda>enc.
     bind_ok (wrap_err SLogin (computeLogin (l_sha1 (e_L E)) (so_User (s_opts s)) (so_Password (s_opts s)) (so_ProjectCode (s_opts s))
                                 (appendRandomComment enc rb)))
       (\<lambda>(u, nonce, sig). Ok (LoginCard u nonce sig)))"

end
