(* ===== verification/Session_Tables.thy ===== *)
theory Session_Tables
  imports Session
begin

text \<open>
  Synced tables on the client (\<open>internal/sync/client_tablesync.go\<close>).  The two maps from table to
  key hashes are lists of pairs.
\<close>

section \<open>Cards out\<close>

definition buildTableSchemaCard :: "env \<Rightarrow> sync_row \<Rightarrow> Card list act" where
  "buildTableSchemaCard E info s =
     chain (call STable (CatalogHash (e_X E) (s_repo s) (sy_name info) (sy_def info))) (\<lambda>catHash.
       let defJSON = x_json_of_def (e_X E) (sy_def info) in
       ret [SchemaCard (sy_name info) 1 (l_sha1 (e_L E) defJSON) (sy_mtime info) defJSON,
            PragmaCard ''xtable-hash'' [sy_name info, catHash]]) s"

definition buildTableXIGotCards :: "env \<Rightarrow> sync_row \<Rightarrow> Card list act" where
  "buildTableXIGotCards E info s =
     chain (call STable (ListXRows (s_repo s) (sy_name info))) (\<lambda>rows.
     chain (call STable (extractPKColumns (sy_def info))) (\<lambda>_.
       gather (\<lambda>(row, mtime). chain (call STable (checked_hash (e_X E) (sy_def info) row)) (\<lambda>pkHash.
                 ret [XIGotCard (sy_name info) pkHash mtime])) rows)) s"

definition unqueue_row :: "bytes \<Rightarrow> bytes \<Rightarrow> session \<Rightarrow> session" where
  "unqueue_row table pkHash s = s\<lparr>s_xTableToSend := removeAll (table, pkHash) (s_xTableToSend s)\<rparr>"

definition row_card :: "env \<Rightarrow> sync_row \<Rightarrow> bytes \<Rightarrow> xmap \<Rightarrow> int \<Rightarrow> (table_error, Card) outcome" where
  "row_card E info pkHash row mtime =
     bind_ok (IsTombstone (sy_def info) row) (\<lambda>dead.
       if dead
       then bind_ok (extractPKColumns (sy_def info)) (\<lambda>pkCols.
              case x_json_of_row (e_X E) (map (\<lambda>c. (c, xget row c)) pkCols) of
                None \<Rightarrow> Err BadJSON
              | Some pkData \<Rightarrow> Ok (XDeleteCard (sy_name info) pkHash mtime pkData))
       else case x_json_of_row (e_X E) row of
              None \<Rightarrow> Err BadJSON
            | Some rowJSON \<Rightarrow> Ok (XRowCard (sy_name info) pkHash mtime rowJSON))"

definition send_row :: "env \<Rightarrow> sync_row \<Rightarrow> bytes \<Rightarrow> Card list act" where
  "send_row E info pkHash s =
     chain (call STable (LookupXRow (e_X E) (s_repo s) (sy_name info) (sy_def info) pkHash)) (\<lambda>found.
       case found of
         None \<Rightarrow> chain (change (unqueue_row (sy_name info) pkHash)) (\<lambda>_. ret [])
       | Some (row, mtime) \<Rightarrow>
           chain (call STable (row_card E info pkHash row mtime)) (\<lambda>item.
           chain (change (unqueue_row (sy_name info) pkHash)) (\<lambda>_. ret [item]))) s"

definition buildTableSendCards :: "env \<Rightarrow> sync_row \<Rightarrow> Card list act" where
  "buildTableSendCards E info s =
     chain (gather (send_row E info) (map snd (filter (\<lambda>(t, _). t = sy_name info) (s_xTableToSend s)))) (\<lambda>sends.
       ret (map (\<lambda>(t, k). XGimmeCard t k) (filter (\<lambda>(t, _). t = sy_name info) (s_xTableGimmes s)) @ sends)) s"

definition buildXTableCards :: "env \<Rightarrow> Card list act" where
  "buildXTableCards E s =
     (let s1 = s\<lparr>s_repo := EnsureSyncSchema (s_repo s)\<rparr> in
      chain (call STable (ListSyncedTables (s_repo s1)))
        (gather (\<lambda>info. chain (buildTableSchemaCard E info) (\<lambda>schema.
                        chain (buildTableXIGotCards E info) (\<lambda>announced.
                        chain (buildTableSendCards E info) (\<lambda>sends. ret (schema @ announced @ sends)))))) s1)"

section \<open>Cards in\<close>

text \<open>The definition of a table, from the cache or else from the repository, which fills the cache.\<close>

definition getXTableDef :: "bytes \<Rightarrow> TableDef option act" where
  "getXTableDef table s =
     (case (case s_xTableCache s of None \<Rightarrow> None | Some c \<Rightarrow> map_of c table) of
        Some def \<Rightarrow> (s, Ok (Some def))
      | None \<Rightarrow>
          chain (call STable (ListSyncedTables (s_repo s))) (\<lambda>tables.
            let c = map (\<lambda>i. (sy_name i, sy_def i)) tables in
            chain (change (\<lambda>s. s\<lparr>s_xTableCache := Some c\<rparr>)) (\<lambda>_. ret (map_of c table))) s)"

definition with_schema :: "session \<Rightarrow> session" where
  "with_schema s = s\<lparr>s_repo := EnsureSyncSchema (s_repo s)\<rparr>"

definition set_repo :: "repo \<Rightarrow> session \<Rightarrow> session" where
  "set_repo q s = s\<lparr>s_repo := q\<rparr>"

definition handleXSchemaCard :: "env \<Rightarrow> bytes \<Rightarrow> int \<Rightarrow> bytes \<Rightarrow> unit act" where
  "handleXSchemaCard E table mtime content s =
     (case x_def_of_json (e_X E) content of
        None \<Rightarrow> (s, Err (STable BadJSON))
      | Some def \<Rightarrow>
          (case RegisterSyncedTable (e_X E) (EnsureSyncSchema (s_repo s)) table def mtime of
             (q1, res) \<Rightarrow> call STable res (set_repo q1 s)))"

definition handleXIGotResponse :: "env \<Rightarrow> bytes \<Rightarrow> bytes \<Rightarrow> int \<Rightarrow> unit act" where
  "handleXIGotResponse E table pkHash mtime s =
     chain (getXTableDef table) (\<lambda>found s.
       case found of
         None \<Rightarrow> (s, Ok ())
       | Some def \<Rightarrow>
           chain (call STable (LookupXRow (e_X E) (s_repo s) table def pkHash)) (\<lambda>row.
             change (\<lambda>s. case row of
               None \<Rightarrow> s\<lparr>s_xTableGimmes := List.insert (table, pkHash) (s_xTableGimmes s)\<rparr>
             | Some (_, localMtime) \<Rightarrow>
                 if localMtime > mtime then s\<lparr>s_xTableToSend := List.insert (table, pkHash) (s_xTableToSend s)\<rparr> else s)) s)
       (with_schema s)"

definition handleXGimmeResponse :: "bytes \<Rightarrow> bytes \<Rightarrow> session \<Rightarrow> session" where
  "handleXGimmeResponse table pkHash s = s\<lparr>s_xTableToSend := List.insert (table, pkHash) (s_xTableToSend s)\<rparr>"

definition drop_gimme :: "bytes \<Rightarrow> bytes \<Rightarrow> session \<Rightarrow> session" where
  "drop_gimme table pkHash s = s\<lparr>s_xTableGimmes := removeAll (table, pkHash) (s_xTableGimmes s)\<rparr>"

text \<open>Without a definition of the table the numbers keep their JSON form.\<close>

definition handleXRowResponse :: "env \<Rightarrow> bytes \<Rightarrow> bytes \<Rightarrow> int \<Rightarrow> bytes \<Rightarrow> unit act" where
  "handleXRowResponse E table pkHash mtime content s =
     chain (getXTableDef table) (\<lambda>found s.
       case x_row_of_json (e_X E) content of
         None \<Rightarrow> (s, Err (STable BadJSON))
       | Some decoded \<Rightarrow>
           chain (call STable (case found of
                                 Some def \<Rightarrow> coerceJSONNumbers (e_X E) decoded def
                               | None \<Rightarrow> (case decoded of None \<Rightarrow> Panic ''repo.UpsertXRow: row must not be nil'' | Some r \<Rightarrow> Ok r)))
             (\<lambda>row. chain (call STable (UpsertXRow (e_X E) (s_repo s) table row mtime))
             (\<lambda>q. change (drop_gimme table pkHash \<circ> set_repo q))) s)
       (with_schema s)"

definition handleXDeleteResponse :: "env \<Rightarrow> bytes \<Rightarrow> bytes \<Rightarrow> int \<Rightarrow> bytes \<Rightarrow> unit act" where
  "handleXDeleteResponse E table pkHash mtime pkData s =
     chain (getXTableDef table) (\<lambda>found s.
       case found of
         None \<Rightarrow> (s, Ok ())
       | Some def \<Rightarrow>
           chain (call STable (applyXDeleteLocally (e_X E) (s_repo s) table def pkHash mtime pkData))
             (\<lambda>q. change (drop_gimme table pkHash \<circ> set_repo q)) s)
       (with_schema s)"

definition processXTableCard :: "env \<Rightarrow> Card \<Rightarrow> unit act" where
  "processXTableCard E item =
     (case item of
        SchemaCard table _ _ mtime content \<Rightarrow> handleXSchemaCard E table mtime content
      | XIGotCard table pkHash mtime \<Rightarrow> handleXIGotResponse E table pkHash mtime
      | XGimmeCard table pkHash \<Rightarrow> change (handleXGimmeResponse table pkHash)
      | XRowCard table pkHash mtime content \<Rightarrow> handleXRowResponse E table pkHash mtime content
      | XDeleteCard table pkHash mtime pkData \<Rightarrow> handleXDeleteResponse E table pkHash mtime pkData
      | _ \<Rightarrow> ret ())"

end
