(* ===== verification/Session_Round.thy ===== *)
theory Session_Round
  imports Session_Tables
begin

text \<open>
  The rounds of a sync (\<open>internal/sync\<close>: \<open>client.go\<close>, \<open>session.go\<close>): the request, what a response does to
  the session, convergence and \<open>Sync\<close>.
\<close>

section \<open>Requests\<close>

definition project_code :: "session \<Rightarrow> bytes" where
  "project_code s =
     (if so_ProjectCode (s_opts s) = [] then config_or_empty (s_repo s) ''project-code'' else so_ProjectCode (s_opts s))"

definition server_code :: "session \<Rightarrow> bytes" where
  "server_code s =
     (if so_ServerCode (s_opts s) = [] then config_or_empty (s_repo s) ''server-code'' else so_ServerCode (s_opts s))"

definition direction_cards :: "session \<Rightarrow> (client_error, Card list) outcome" where
  "direction_cards s =
     (if so_Push (s_opts s) \<and> project_code s = []
      then Panic ''sync.buildRequest: ProjectCode is required for push but not found in SyncOpts or repo config''
      else if so_Pull (s_opts s) \<and> project_code s = []
      then Panic ''sync.buildRequest: ProjectCode is required for pull but not found in SyncOpts or repo config''
      else Ok ((if so_Push (s_opts s) then [PushCard (server_code s) (project_code s)] else []) @
               (if so_Pull (s_opts s) then [PullCard (if server_code s = [] then ''0'' else server_code s) (project_code s)] else []) @
               (if s_cookie s \<noteq> [] then [CookieCard (s_cookie s)] else [])))"

definition announce :: "nat \<Rightarrow> session \<Rightarrow> Card list" where
  "announce cycle s =
     sendUnclustered s @ (if cycle \<ge> 1 \<and> so_Push (s_opts s) \<and> s_nGimmeRcvd s > 0 then sendAllClusters s else [])"

definition private_cards :: "session \<Rightarrow> Card list" where
  "private_cards s = (if so_Private (s_opts s) then sendPrivate s else [])"

definition uv_hash_cards :: "env \<Rightarrow> Card list act" where
  "uv_hash_cards E s =
     (if so_UV (s_opts s) \<and> \<not> s_uvHashSent s
      then (case ContentHash_uv (l_sha1 (e_L E)) (e_datetime E) (e_now E div 10 ^ 9) (EnsureSchema (s_repo s)) of
              (q1, res) \<Rightarrow>
                chain (call SUv res) (\<lambda>h. chain (change (\<lambda>s. s\<lparr>s_uvHashSent := True\<rparr>)) (\<lambda>_. ret [PragmaCard ''uv-hash'' [h]]))
                  (s\<lparr>s_repo := q1\<rparr>))
      else (s, Ok []))"

definition uv_gimme_cards :: "Card list act" where
  "uv_gimme_cards s =
     (if so_UV (s_opts s)
      then let n = int (length (s_uvGimmes s)) in
        (s\<lparr>s_uvGimmes := [], s_nUvGimmeSent := s_nUvGimmeSent s + n,
           s_result := (s_result s)\<lparr>re_UVGimmesSent := re_UVGimmesSent (s_result s) + n\<rparr>\<rparr>, Ok (map UVGimmeCard (s_uvGimmes s)))
      else (s, Ok []))"

definition uv_file_cards :: "env \<Rightarrow> Card list act" where
  "uv_file_cards E s =
     (if so_UV (s_opts s) \<and> s_uvPushOK s
      then chain (buildUVFileCards E) (\<lambda>cs.
             chain (change (\<lambda>s. s\<lparr>s_result := (s_result s)\<lparr>re_UVFilesSent := re_UVFilesSent (s_result s) + int (length cs)\<rparr>\<rparr>))
               (\<lambda>_. ret cs)) s
      else (s, Ok []))"

text \<open>The cards that go before the file cards, with the count of announcements for this round.\<close>

definition opening_cards :: "nat \<Rightarrow> Card list act" where
  "opening_cards cycle s =
     chain (change (\<lambda>s. s\<lparr>s_opts := (s_opts s)\<lparr>so_ProjectCode := project_code s\<rparr>\<rparr>)) (\<lambda>_ s.
     chain (call id (direction_cards s)) (\<lambda>direction.
       let announced = announce cycle s in
       chain (change (\<lambda>s. s\<lparr>s_igotSentThisRound := int (length announced)\<rparr>)) (\<lambda>_.
         ret ([client_version] @ direction @ announced @
              (if cycle = 1 \<and> so_Pull (s_opts s) then [PragmaCard ''req-clusters'' []] else [])))) s) s"

definition private_part :: "nat \<Rightarrow> Card list act" where
  "private_part cycle s =
     (let priv = private_cards s in
      (s\<lparr>s_igotSentThisRound := s_igotSentThisRound s + int (length priv)\<rparr>,
       Ok ((if so_Private (s_opts s) then [PragmaCard ''send-private'' []] else []) @ priv @
           (case so_CkinLock (s_opts s) of
              Some (parentUUID, clientID) \<Rightarrow> if cycle = 0 then [PragmaCard ''ci-lock'' [parentUUID, clientID]] else []
            | None \<Rightarrow> []))))"

definition request_cards :: "env \<Rightarrow> nat \<Rightarrow> Card list act" where
  "request_cards E cycle =
     chain (opening_cards cycle) (\<lambda>opening.
     chain (buildFileCards E) (\<lambda>files.
     chain (\<lambda>s. call id (buildGimmeCards s) s) (\<lambda>gimmes.
     chain (private_part cycle) (\<lambda>priv.
     chain (uv_hash_cards E) (\<lambda>uvHash.
     chain uv_gimme_cards (\<lambda>uvGimmes.
     chain (uv_file_cards E) (\<lambda>uvFiles.
     chain (\<lambda>s. if so_XTableSync (s_opts s) then buildXTableCards E s else (s, Ok [])) (\<lambda>tables.
     ret (opening @ files @ gimmes @ priv @ uvHash @ uvGimmes @ uvFiles @ tables)))))))))"

definition buildRequest :: "env \<Rightarrow> bytes \<Rightarrow> nat \<Rightarrow> Card list act" where
  "buildRequest E rb cycle =
     chain (request_cards E cycle) (\<lambda>cards s.
       if so_User (s_opts s) \<noteq> []
       then chain (call id (buildLoginCard E rb cards s)) (\<lambda>login. ret (login # cards)) s
       else (s, Ok cards))"

section \<open>Responses: files\<close>

definition loadDBPhantoms :: "session \<Rightarrow> session" where
  "loadDBPhantoms s =
     (if \<not> so_Pull (s_opts s) then s
      else let q = s_repo s in
        foldl (\<lambda>s b. if bl_uuid b \<in> set (s_remoteHas s) then s else queue_phantom (bl_uuid b) s) s
          (concat (map (\<lambda>r. filter (\<lambda>b. bl_rid b = r \<and> bl_size b < 0) (t_blob q)) (t_phantom q))))"

definition handleFileCard :: "env \<Rightarrow> bytes \<Rightarrow> bytes \<Rightarrow> bytes \<Rightarrow> unit act" where
  "handleFileCard E uuid deltaSrc payload s =
     (case storeReceivedFile (e_L E) (s_repo s) uuid deltaSrc payload of
        (q1, res) \<Rightarrow> chain (call SSync res) (\<lambda>_. change loadDBPhantoms) (set_repo q1 s))"

text \<open>A missing row has the number 0, which \<open>MakePrivate\<close> does not take.\<close>

definition applyPrivateStatus :: "bytes \<Rightarrow> unit act" where
  "applyPrivateStatus uuid s =
     chain (call SBlob (Exists (s_repo s) uuid)) (\<lambda>found.
       if s_nextIsPrivate s
       then chain (call SContent (MakePrivate (s_repo s) (case found of None \<Rightarrow> 0 | Some r \<Rightarrow> r)))
              (\<lambda>q. change (\<lambda>s. s\<lparr>s_repo := q, s_nextIsPrivate := False\<rparr>))
       else case found of
              None \<Rightarrow> ret ()
            | Some r \<Rightarrow> chain (call SContent (MakePublic (s_repo s) r)) (\<lambda>q. change (set_repo q))) s"

definition file_card :: "env \<Rightarrow> bytes \<Rightarrow> bytes \<Rightarrow> bytes \<Rightarrow> unit act" where
  "file_card E uuid deltaSrc payload =
     chain (handleFileCard E uuid deltaSrc payload) (\<lambda>_.
     chain (applyPrivateStatus uuid) (\<lambda>_.
     change (\<lambda>s. s\<lparr>s_phantoms := removeAll uuid (s_phantoms s), s_roundRecvd := s_roundRecvd s + int (length payload)\<rparr>)))"

definition igot_card :: "bytes \<Rightarrow> bool \<Rightarrow> unit act" where
  "igot_card uuid isPrivate s0 =
     (let s = s0\<lparr>s_remoteHas := List.insert uuid (s_remoteHas s0)\<rparr> in
      chain (call SBlob (Exists (s_repo s) uuid)) (\<lambda>found.
        case found of
          Some r \<Rightarrow> chain (call SContent (if isPrivate then MakePrivate (s_repo s) r else MakePublic (s_repo s) r))
                      (\<lambda>q. change (set_repo q))
        | None \<Rightarrow> change (\<lambda>s. if so_Pull (s_opts s) \<and> (\<not> isPrivate \<or> so_Private (s_opts s)) then queue_phantom uuid s else s)) s)"

section \<open>Responses: unversioned files\<close>

definition handleUVIGotCard :: "env \<Rightarrow> bytes \<Rightarrow> int \<Rightarrow> bytes \<Rightarrow> unit act" where
  "handleUVIGotCard E name mtime hash s0 =
     (let s = s0\<lparr>s_repo := EnsureSchema (s_repo s0)\<rparr> in
      chain (call SUv (Read (l_inflate (e_L E)) (s_repo s) name)) (\<lambda>(_, localMtime, localHash).
        let status = Status localMtime localHash mtime hash in
        if status = 0 \<or> status = 1 then
          chain (change (uv_unqueue name)) (\<lambda>_.
            if hash \<noteq> ''-''
            then change (\<lambda>s. s\<lparr>s_uvGimmes := List.insert name (s_uvGimmes s),
                               s_repo := InvalidateHash ((s_repo s)\<lparr>t_unversioned :=
                                 map_option (filter (\<lambda>r. uv_name r \<noteq> name)) (t_unversioned (s_repo s))\<rparr>)\<rparr>)
            else if status = 1 then chain (call SUv (Delete (s_repo s) name mtime)) (\<lambda>q. change (set_repo q))
            else ret ())
        else if status = 2 then change (\<lambda>s. s\<lparr>s_repo := InvalidateHash (touch_uv (s_repo s) name mtime)\<rparr>)
        else if status = 3 then change (uv_unqueue name)
        else if status = 4 \<or> status = 5 then (\<lambda>s. if s_uvPullOnly s then change (uv_unqueue name) s else uv_queue name (status = 5) s)
        else ret ()) s)"

definition handleUVFileCard :: "env \<Rightarrow> bytes \<Rightarrow> int \<Rightarrow> bytes \<Rightarrow> int \<Rightarrow> bytes \<Rightarrow> unit act" where
  "handleUVFileCard E name mtime hash flags content s0 =
     (let s = s0\<lparr>s_repo := EnsureSchema (s_repo s0)\<rparr> in
      chain (if flags AND UVFlagNoPayload = 0
             then chain (call (SUv \<circ> UvHash) (ContentHash (l_sha1 (e_L E)) (l_sha3 (e_L E)) content hash))
                    (\<lambda>computed s. if computed \<noteq> hash then (s, Err (UVHashMismatch name)) else (s, Ok ()))
             else ret ()) (\<lambda>_.
      chain (call SUv (Read (l_inflate (e_L E)) (s_repo s) name)) (\<lambda>(_, localMtime, localHash).
        if Status localMtime localHash mtime hash \<ge> 2 then ret ()
        else if hash = ''-'' then chain (call SUv (Delete (s_repo s) name mtime)) (\<lambda>q. change (set_repo q))
        else if \<not> uvFileOmitsContent flags
        then chain (call SUv (Write (l_sha1 (e_L E)) (l_sha3 (e_L E)) (l_deflate (e_L E)) (s_repo s) name content mtime))
               (\<lambda>q. change (set_repo q))
        else ret ())) s)"

section \<open>Responses: every card\<close>

definition note_error :: "bytes \<Rightarrow> session \<Rightarrow> session" where
  "note_error text s = s\<lparr>s_result := (s_result s)\<lparr>re_Errors := re_Errors (s_result s) @ [text]\<rparr>\<rparr>"

text \<open>\<open>mtime, _ := strconv.ParseInt(v, 10, 64)\<close>: 0 for other text than a number, and the nearest bound for a number out of range.\<close>

definition ParseInt_value :: "bytes \<Rightarrow> int" where
  "ParseInt_value v =
     (let neg = HasPrefix v ''-''; ds = (if HasPrefix v ''-'' \<or> HasPrefix v ''+'' then drop 1 v else v)
      in case parse_nat ds of
           None \<Rightarrow> 0
         | Some n \<Rightarrow> if neg then max int64_min (- int n) else min int64_max (int n))"

definition pragma_card :: "bytes \<Rightarrow> bytes list \<Rightarrow> session \<Rightarrow> session" where
  "pragma_card name values s =
     (if name = ''uv-push-ok'' then s\<lparr>s_uvPushOK := True\<rparr>
      else if name = ''uv-pull-only'' then s\<lparr>s_uvPullOnly := True\<rparr>
      else if name = ''ci-lock-fail'' \<and> length values \<ge> 2
      then s\<lparr>s_result := (s_result s)\<lparr>re_CkinLockFail := Some (values ! 0, ParseInt_value (values ! 1))\<rparr>\<rparr>
      else s)"

text \<open>The files received and the artifacts asked for by one card.\<close>

definition response_card :: "env \<Rightarrow> Card \<Rightarrow> (int \<times> int) act" where
  "response_card E item s =
     (let quiet = (\<lambda>m. chain m (\<lambda>_. ret (0, 0)) s) in
      case item of
        PrivateCard \<Rightarrow> quiet (change (\<lambda>s. s\<lparr>s_nextIsPrivate := True\<rparr>))
      | FileCard uuid deltaSrc content \<Rightarrow> chain (file_card E uuid deltaSrc content) (\<lambda>_. ret (1, 0)) s
      | CFileCard uuid deltaSrc _ content \<Rightarrow> chain (file_card E uuid deltaSrc content) (\<lambda>_. ret (1, 0)) s
      | IGotCard uuid isPrivate \<Rightarrow> quiet (igot_card uuid isPrivate)
      | GimmeCard uuid \<Rightarrow>
          chain (change (\<lambda>s. s\<lparr>s_pendingSend := List.insert uuid (s_pendingSend s), s_nGimmeRcvd := s_nGimmeRcvd s + 1\<rparr>))
            (\<lambda>_. ret (0, 1)) s
      | CookieCard v \<Rightarrow> quiet (change (\<lambda>s. s\<lparr>s_cookie := v\<rparr>))
      | ErrorCard m \<Rightarrow> quiet (change (note_error (''error: '' @ m)))
      | MessageCard m \<Rightarrow> quiet (change (note_error (''message: '' @ m)))
      | PragmaCard name values \<Rightarrow> quiet (change (pragma_card name values))
      | UVIGotCard name mtime hash _ \<Rightarrow> quiet (if so_UV (s_opts s) then handleUVIGotCard E name mtime hash else ret ())
      | UVFileCard name mtime hash _ flags content \<Rightarrow>
          quiet (if so_UV (s_opts s)
                 then chain (handleUVFileCard E name mtime hash flags content) (\<lambda>_.
                        change (\<lambda>s. s\<lparr>s_nUvFileRcvd := s_nUvFileRcvd s + 1,
                                       s_result := (s_result s)\<lparr>re_UVFilesRecvd := re_UVFilesRecvd (s_result s) + 1\<rparr>\<rparr>))
                 else ret ())
      | UVGimmeCard name \<Rightarrow>
          quiet (if so_UV (s_opts s)
                 then change (\<lambda>s. s\<lparr>s_uvToSend := Some (AList.update name True (case s_uvToSend s of None \<Rightarrow> [] | Some m \<Rightarrow> m))\<rparr>)
                 else ret ())
      | _ \<Rightarrow> quiet (processXTableCard E item))"

fun response_cards :: "env \<Rightarrow> Card list \<Rightarrow> (int \<times> int) act" where
  "response_cards E [] = ret (0, 0)"
| "response_cards E (c # cards) =
     chain (response_card E c) (\<lambda>(recvd, asked). chain (response_cards E cards) (\<lambda>(r, a). ret (recvd + r, asked + a)))"

section \<open>Convergence\<close>

text \<open>A phantom that was not delivered ages; after three rounds it is given up.\<close>

definition age_phantoms :: "session \<Rightarrow> session" where
  "age_phantoms s =
     (let age = (\<lambda>u. case map_of (s_phantomAge s) u of None \<Rightarrow> 0 | Some n \<Rightarrow> n);
          aged = filter (\<lambda>(u, n). n < 3) (map (\<lambda>u. (u, age u + 1)) (s_phantoms s))
      in s\<lparr>s_phantoms := map fst aged, s_phantomAge := aged\<rparr>)"

definition clear_unsent :: "session \<Rightarrow> session" where
  "clear_unsent s = (if s_igotSentThisRound s > 0 then s\<lparr>s_repo := (s_repo s)\<lparr>t_unsent := []\<rparr>\<rparr> else s)"

definition uv_settled :: "session \<Rightarrow> session \<times> bool" where
  "uv_settled s =
     (if so_UV (s_opts s) \<and> s_nUvGimmeSent s > 0 \<and> (s_nUvFileRcvd s > 0 \<or> re_Rounds (s_result s) < 3)
      then (s\<lparr>s_nUvGimmeSent := 0, s_nUvFileRcvd := 0\<rparr>, False)
      else let waiting = so_UV (s_opts s) \<and> s_uvToSend s \<notin> {None, Some []} in
        if waiting \<and> s_uvPushOK s then (s, False)
        else let s1 = (if waiting then s\<lparr>s_uvToSend := None\<rparr> else s) in
          if so_UV (s_opts s1) \<and> s_uvGimmes s1 \<noteq> [] then (s1, False)
          else (s1\<lparr>s_nUvGimmeSent := 0, s_nUvFileRcvd := 0\<rparr>, True))"

definition tables_settled :: "session \<Rightarrow> bool" where
  "tables_settled s \<longleftrightarrow> \<not> so_XTableSync (s_opts s) \<or> s_xTableGimmes s = [] \<and> s_xTableToSend s = []"

definition converged :: "int \<Rightarrow> int \<Rightarrow> session \<Rightarrow> session \<times> bool" where
  "converged recvd asked s =
     (if recvd > 0 \<or> asked > 0 then (s, False)
      else if s_phantoms s \<noteq> [] \<or> s_pendingSend s \<noteq> [] then (s, False)
      else let s1 = clear_unsent s in
        if t_unsent (s_repo s1) \<noteq> [] then (s1, False)
        else (case uv_settled s1 of (s2, quiet) \<Rightarrow> (s2, quiet \<and> tables_settled s2)))"

definition processResponse :: "env \<Rightarrow> Card list \<Rightarrow> bool act" where
  "processResponse E cards =
     chain (response_cards E cards) (\<lambda>(recvd, asked) s.
       case converged recvd asked (age_phantoms
              (s\<lparr>s_result := (s_result s)\<lparr>re_FilesRecvd := re_FilesRecvd (s_result s) + recvd\<rparr>, s_filesRecvdLastRound := recvd\<rparr>)) of
         (s1, quiet) \<Rightarrow> (s1, Ok quiet))"

section \<open>The loop\<close>

definition add_round :: "session \<Rightarrow> session" where
  "add_round s = s\<lparr>s_result := (s_result s)\<lparr>re_BytesSent := re_BytesSent (s_result s) + s_roundSent s,
                                        re_BytesRecvd := re_BytesRecvd (s_result s) + s_roundRecvd s\<rparr>\<rparr>"

definition sync_round :: "env \<Rightarrow> 's transport \<Rightarrow> bytes \<Rightarrow> nat \<Rightarrow> 's \<times> session \<Rightarrow> ('s \<times> session) \<times> (client_error, bool) outcome" where
  "sync_round E exchange rb cycle = (\<lambda>(t, s).
     case buildRequest E rb cycle (s\<lparr>s_roundSent := 0, s_roundRecvd := 0\<rparr>) of
       (s1, Err e) \<Rightarrow> ((t, s1), Err e)
     | (s1, Panic p) \<Rightarrow> ((t, s1), Panic p)
     | (s1, Ok req) \<Rightarrow>
         (case exchange t req of
            (t1, Err e) \<Rightarrow> ((t1, s1), Err (SExchange e))
          | (t1, Panic p) \<Rightarrow> ((t1, s1), Panic p)
          | (t1, Ok resp) \<Rightarrow>
              (case processResponse E resp s1 of
                 (s2, Err e) \<Rightarrow> ((t1, add_round s2), Err e)
               | (s2, Panic p) \<Rightarrow> ((t1, s2), Panic p)
               | (s2, Ok quiet) \<Rightarrow>
                   let s3 = add_round s2 in
                   ((t1, s3\<lparr>s_result := (s_result s3)\<lparr>re_Rounds := int cycle + 1\<rparr>\<rparr>), Ok quiet))))"

function sync_rounds :: "env \<Rightarrow> 's transport \<Rightarrow> (nat \<Rightarrow> bytes) \<Rightarrow> nat \<Rightarrow> 's \<times> session \<Rightarrow> ('s \<times> session) \<times> (client_error, unit) outcome" where
  "sync_rounds E exchange rb cycle st =
     (if cycle \<ge> MaxRounds then (st, Err (SRounds MaxRounds))
      else case sync_round E exchange (rb cycle) cycle st of
             (st1, Ok True) \<Rightarrow> (st1, Ok ())
           | (st1, Ok False) \<Rightarrow> sync_rounds E exchange rb (cycle + 1) st1
           | (st1, Err e) \<Rightarrow> (st1, Err e)
           | (st1, Panic p) \<Rightarrow> (st1, Panic p))"
  by pat_completeness auto
termination by (relation "measure (\<lambda>(E, ex, rb, cycle, st). MaxRounds - cycle)") auto

declare sync_rounds.simps [simp del]

text \<open>The state of the transport and the repository, which stays changed when the sync fails.\<close>

definition Sync :: "env \<Rightarrow> 's transport \<Rightarrow> SyncOpts \<Rightarrow> (nat \<Rightarrow> bytes) \<Rightarrow> repo \<Rightarrow> 's \<Rightarrow> ('s \<times> repo) \<times> (client_error, SyncResult) outcome" where
  "Sync E exchange opts rb q t =
     (case newSession q opts of
        Err e \<Rightarrow> ((t, q), Err e)
      | Panic p \<Rightarrow> ((t, q), Panic p)
      | Ok s \<Rightarrow>
          (case sync_rounds E exchange rb 0 (t, s) of
             ((t1, s1), Err e) \<Rightarrow> ((t1, s_repo s1), Err e)
           | ((t1, s1), Panic p) \<Rightarrow> ((t1, s_repo s1), Panic p)
           | ((t1, s1), Ok _) \<Rightarrow>
               (case Crosslink (e_L E) (e_unicode E) (s_repo s1) of
                  (q1, linked, Ok _) \<Rightarrow> ((t1, q1), Ok ((s_result s1)\<lparr>re_ArtifactsLinked := linked\<rparr>))
                | (q1, linked, Err e) \<Rightarrow> ((t1, q1), Err (SCrosslink e))
                | (q1, linked, Panic p) \<Rightarrow> ((t1, q1), Panic p))))"

end
