(* ===== verification/Session_Props.thy ===== *)
theory Session_Props
  imports Session_Round Handler_Private
begin

text \<open>
  What a sync does to the repository of the client, whatever the server answers, and what a
  request tells the server.
\<close>

section \<open>Content is safe from responses\<close>

text \<open>The relation of the repositories before and after a step.\<close>

definition client_safe :: "libs \<Rightarrow> session \<Rightarrow> session \<Rightarrow> bool" where
  "client_safe L s s' \<longleftrightarrow> safe L (s_repo s) (s_repo s')"

lemma client_safe_refl [simp]: "client_safe L s s"
  by (simp add: client_safe_def)

lemma client_safe_trans: "client_safe L s s1 \<Longrightarrow> client_safe L s1 s2 \<Longrightarrow> client_safe L s s2"
  unfolding client_safe_def by (rule safe_trans)

interpretation cl: kept_relation "client_safe L" for L
  by unfold_locales (auto intro: client_safe_trans)

lemma client_safe_core: "core (s_repo s') = core (s_repo s) \<Longrightarrow> client_safe L s s'"
  by (simp add: client_safe_def safe_core)

lemma core_unversioned [simp]: "core (q\<lparr>t_unversioned := x\<rparr>) = core q"
  by (simp add: core_def)

lemma core_touch [simp]: "core (touch_uv q name m) = core q"
  by (simp add: touch_uv_def)

lemma core_ensure_sync [simp]: "core (EnsureSyncSchema q) = core q"
  by (rule readonly_core) simp

lemma session_other [simp]:
  "s_repo (uv_unqueue name s) = s_repo s" "s_repo (queue_phantom u s) = s_repo s" "s_repo (unqueue_send u s) = s_repo s"
  "s_repo (unqueue_row table k s) = s_repo s" "s_repo (drop_gimme table k s) = s_repo s" "s_repo (set_repo q s) = q"
  "s_repo (note_error text s) = s_repo s" "s_repo (handleXGimmeResponse table k s) = s_repo s"
  "s_repo (with_schema s) = EnsureSyncSchema (s_repo s)" "s_repo (age_phantoms s) = s_repo s"
  by (simp_all add: uv_unqueue_def queue_phantom_def unqueue_send_def unqueue_row_def drop_gimme_def set_repo_def note_error_def
      handleXGimmeResponse_def with_schema_def age_phantoms_def Let_def)

lemma pragma_card_repo [simp]: "s_repo (pragma_card name values s) = s_repo s"
  by (simp add: pragma_card_def)

lemma loadDBPhantoms_repo [simp]: "s_repo (loadDBPhantoms s) = s_repo s"
proof -
  have "s_repo (foldl (\<lambda>s b. if bl_uuid b \<in> set (s_remoteHas s) then s else queue_phantom (bl_uuid b) s) s bs) = s_repo s" for bs :: "blob_row list"
    by (induction bs arbitrary: s) auto
  then show ?thesis by (simp add: loadDBPhantoms_def Let_def)
qed

lemma safe_change: "core (s_repo (f s)) = core (s_repo s) \<Longrightarrow> client_safe L s (fst (change f s))"
  by (rule cl.change, rule client_safe_core)

lemma fst_call [simp]: "fst (call w m s) = s"
  by (simp add: call_def)

lemma call_Ok: "call w m s = (s1, Ok x) \<longleftrightarrow> s1 = s \<and> m = Ok x"
  by (auto simp: call_def)

lemma change_Ok: "change f s = (s1, Ok x) \<longleftrightarrow> s1 = f s"
  by (auto simp: change_def)

text \<open>The repository that a call gives becomes that of the session.\<close>

lemma safe_store:
  assumes "\<And>q. m = Ok q \<Longrightarrow> safe L (s_repo s) q" "\<And>q s. s_repo (f q s) = q"
  shows "client_safe L s (fst (chain (call w m) (\<lambda>q. change (f q)) s))"
proof (cases m)
  case (Ok q)
  with assms show ?thesis by (simp add: client_safe_def chain_def call_def change_def)
qed (simp_all add: chain_def call_def)

lemmas safe_steps = cl.ret cl.chain cl.for_each cl.gather safe_change

subsection \<open>Table cards\<close>

lemma safe_getXTableDef: "client_safe L s (fst (getXTableDef table s))"
  by (auto simp: getXTableDef_def Let_def split: option.split intro!: safe_steps)

lemma safe_Register: "safe L q (fst (RegisterSyncedTable X (EnsureSyncSchema q) name def m))"
proof -
  have "core (fst (RegisterSyncedTable X (EnsureSyncSchema q) name def m)) = core q"
    using readonly_core [OF readonly_Register [where q = "EnsureSyncSchema q"]] by simp
  then show ?thesis by (rule safe_core)
qed

lemma safe_tables_in:
  "client_safe L s (fst (handleXSchemaCard E table m c s))"
  "client_safe L s (fst (handleXIGotResponse E table k m s))"
  "client_safe L s (fst (handleXRowResponse E table k m c s))"
  "client_safe L s (fst (handleXDeleteResponse E table k m c s))"
proof -
  show "client_safe L s (fst (handleXSchemaCard E table m c s))"
  proof (cases "x_def_of_json (e_X E) c")
    case (Some def)
    obtain q1 res where p: "RegisterSyncedTable (e_X E) (EnsureSyncSchema (s_repo s)) table def m = (q1, res)" by fastforce
    with safe_Register [of L "s_repo s" "e_X E" table def m] Some show ?thesis
      by (simp add: handleXSchemaCard_def client_safe_def)
  qed (simp add: handleXSchemaCard_def)
  have w: "client_safe L s (with_schema s)" by (rule client_safe_core) simp
  note step = client_safe_trans [OF w] cl.chain safe_getXTableDef
  show "client_safe L s (fst (handleXIGotResponse E table k m s))"
    unfolding handleXIGotResponse_def
    by (intro step) (auto split: option.split intro!: safe_steps)
  show "client_safe L s (fst (handleXRowResponse E table k m c s))"
    unfolding handleXRowResponse_def
    by (intro step) (auto split: option.split intro!: safe_steps simp: call_Ok dest: core_UpsertXRow)
  show "client_safe L s (fst (handleXDeleteResponse E table k m c s))"
    unfolding handleXDeleteResponse_def
    by (intro step) (auto split: option.split intro!: safe_steps simp: call_Ok dest: core_applyXDelete)
qed

lemma safe_processXTableCard: "client_safe L s (fst (processXTableCard E c s))"
  by (cases c) (auto simp: processXTableCard_def intro!: safe_tables_in safe_steps)

subsection \<open>Requests\<close>

text \<open>A request leaves the core tables and the directions of the session alone.\<close>

definition same_side :: "session \<Rightarrow> session \<Rightarrow> bool" where
  "same_side s s' \<longleftrightarrow> core (s_repo s') = core (s_repo s) \<and> so_Push (s_opts s') = so_Push (s_opts s) \<and>
     so_Pull (s_opts s') = so_Pull (s_opts s) \<and> so_Private (s_opts s') = so_Private (s_opts s)"

interpretation sd: kept_relation same_side
  by unfold_locales (auto simp: same_side_def)

lemma same_side_refl [simp]: "same_side s s"
  by (rule sd.refl)

lemma session_opts [simp]:
  "s_opts (uv_unqueue name s) = s_opts s" "s_opts (unqueue_send u s) = s_opts s" "s_opts (unqueue_row table k s) = s_opts s"
  by (simp_all add: uv_unqueue_def unqueue_send_def unqueue_row_def)

lemma same_change:
  assumes "core (s_repo (f s)) = core (s_repo s)" "s_opts (f s) = s_opts s"
  shows "same_side s (fst (change f s))"
  using assms by (intro sd.change) (simp add: same_side_def)

lemmas same_steps = sd.ret sd.chain sd.gather same_change

lemma same_file_loop: "same_side s (fst (file_loop E us budget cards s))"
proof -
  have "s_repo (fst (file_loop E us budget cards s)) = s_repo s \<and> s_opts (fst (file_loop E us budget cards s)) = s_opts s"
    by (induction E us budget cards s rule: file_loop.induct) (auto simp: Let_def split: outcome.split)
  then show ?thesis by (simp add: same_side_def)
qed

lemma same_uvfile_loop: "same_side s (fst (uvfile_loop E m budget s))"
proof (induction m arbitrary: budget s)
  case (Cons x m)
  obtain name full where x: "x = (name, full)" by fastforce
  show ?case
  proof (cases "budget \<le> 0")
    case False
    then show ?thesis
      by (auto simp: x intro!: same_steps Cons.IH)
  qed (simp add: x)
qed simp

lemma same_uv_hash: "same_side s (fst (uv_hash_cards E s))"
proof -
  obtain q1 res where p: "ContentHash_uv (l_sha1 (e_L E)) (e_datetime E) (e_now E div 10 ^ 9) (EnsureSchema (s_repo s)) = (q1, res)"
    by fastforce
  have "core q1 = core (s_repo s)"
    using readonly_core [OF readonly_ContentHash_uv [where q = "EnsureSchema (s_repo s)"]] p by (metis core_EnsureSchema fst_conv)
  then have "same_side s (s\<lparr>s_repo := q1\<rparr>)" by (simp add: same_side_def)
  then show ?thesis
    unfolding uv_hash_cards_def p
    by (auto intro!: sd.trans [of s "s\<lparr>s_repo := q1\<rparr>"] same_steps)
qed

lemma same_tables_out: "same_side s (fst (buildXTableCards E s))"
proof -
  have out: "same_side s (fst (send_row E info k s))" "same_side s (fst (buildTableSchemaCard E info s))"
    "same_side s (fst (buildTableXIGotCards E info s))" for s info k
    by (auto simp: send_row_def buildTableSchemaCard_def buildTableXIGotCards_def Let_def split: option.split intro!: same_steps)
  then have "same_side s (fst (buildTableSendCards E info s))" for s info
    by (auto simp: buildTableSendCards_def intro!: same_steps)
  moreover have "same_side s (s\<lparr>s_repo := EnsureSyncSchema (s_repo s)\<rparr>)" by (simp add: same_side_def)
  ultimately show ?thesis
    unfolding buildXTableCards_def Let_def using out
    by (auto intro!: sd.trans [of s "s\<lparr>s_repo := EnsureSyncSchema (s_repo s)\<rparr>"] same_steps)
qed

lemma same_opening: "same_side s (fst (opening_cards cycle s))"
proof -
  have "same_side s (s\<lparr>s_opts := (s_opts s)\<lparr>so_ProjectCode := c\<rparr>\<rparr>)" "same_side s (s\<lparr>s_igotSentThisRound := n\<rparr>)" for c n s
    by (simp_all add: same_side_def)
  then show ?thesis by (auto simp: opening_cards_def Let_def intro!: sd.chain sd.change sd.ret same_change)
qed

lemma same_parts:
  "same_side s (fst (buildFileCards E s))" "same_side s (fst (uv_gimme_cards s))" "same_side s (fst (private_part cycle s))"
  "same_side s (fst (uv_file_cards E s))" "same_side s (fst (if so_XTableSync (s_opts s) then buildXTableCards E s else (s, Ok [])))"
  by (auto simp: buildFileCards_def same_file_loop same_tables_out uv_file_cards_def buildUVFileCards_def same_uvfile_loop intro!: same_steps)
    (auto simp: uv_gimme_cards_def private_part_def Let_def same_side_def)

lemmas same_request_parts = same_opening same_parts same_uv_hash

lemma same_buildRequest: "same_side s (fst (buildRequest E rb cycle s))"
proof -
  have "same_side s (fst (request_cards E cycle s))" for s
    unfolding request_cards_def by (intro sd.chain sd.ret same_request_parts) simp
  then show ?thesis unfolding buildRequest_def by (auto intro!: same_steps)
qed

lemma safe_buildRequest: "client_safe L s (fst (buildRequest E rb cycle s))"
  using same_buildRequest [of s E rb cycle] by (simp add: same_side_def client_safe_core)

subsection \<open>Responses\<close>

lemma safe_private_marks:
  "MakePrivate q r = Ok q' \<Longrightarrow> safe L q q'" "MakePublic q r = Ok q' \<Longrightarrow> safe L q q'"
  by (auto simp: MakePrivate_def MakePublic_def safe_def keeps_same split: if_splits)

lemma safe_set_repo: "safe L (s_repo s) q \<Longrightarrow> client_safe L s (fst (change (set_repo q) s))"
  by (rule cl.change) (simp add: client_safe_def)

lemma safe_file_card:
  assumes "zlib_writer (l_deflate (e_L E)) (l_inflate (e_L E))" "small_file d p"
  shows "client_safe (e_L E) s (fst (file_card E u d p s))"
proof -
  have "client_safe (e_L E) s (fst (handleFileCard E u d p s))" for s
  proof -
    obtain q1 res where p: "storeReceivedFile (e_L E) (s_repo s) u d p = (q1, res)" by fastforce
    with keeps_storeReceivedFile [OF assms, of "s_repo s" u] have "client_safe (e_L E) s (set_repo q1 s)"
      by (simp add: client_safe_def safe_def)
    then show ?thesis unfolding handleFileCard_def p by (auto intro!: client_safe_trans [of _ s "set_repo q1 s"] safe_steps)
  qed
  moreover have "client_safe L s (fst (applyPrivateStatus u s))" for L s
    unfolding applyPrivateStatus_def
    by (auto intro!: cl.chain cl.ret safe_store split: option.split dest: safe_private_marks simp: call_Ok)
  ultimately show ?thesis unfolding file_card_def by (auto intro!: cl.chain safe_change)
qed

lemma safe_igot_card: "client_safe L s (fst (igot_card u priv s))"
proof -
  let ?s = "s\<lparr>s_remoteHas := List.insert u (s_remoteHas s)\<rparr>"
  have "client_safe L s ?s" by (simp add: client_safe_core)
  then show ?thesis
    unfolding igot_card_def Let_def
    by (auto intro!: client_safe_trans [of _ s ?s] cl.chain safe_store safe_change simp: call_Ok split: option.split
        dest!: safe_private_marks [of _ _ _ L])
qed

lemma safe_uv_cards:
  "client_safe L s (fst (handleUVIGotCard E name m h s))" "client_safe L s (fst (handleUVFileCard E name m h f c s))"
proof -
  let ?s = "s\<lparr>s_repo := EnsureSchema (s_repo s)\<rparr>"
  have s: "client_safe L s ?s" by (simp add: client_safe_core)
  have "client_safe L s (fst (uv_queue name b s))" for s b
    by (auto simp: uv_queue_def split: option.split intro: client_safe_core)
  then show "client_safe L s (fst (handleUVIGotCard E name m h s))"
    unfolding handleUVIGotCard_def Let_def
    by (auto intro!: client_safe_trans [OF s] safe_steps simp: call_Ok change_Ok dest!: core_Delete)
  show "client_safe L s (fst (handleUVFileCard E name m h f c s))"
    unfolding handleUVFileCard_def Let_def
    by (auto intro!: client_safe_trans [OF s] safe_steps simp: call_Ok chain_Ok ret_def dest!: core_Delete core_Write split: if_splits)
qed

lemma safe_response_card:
  assumes "zlib_writer (l_deflate (e_L E)) (l_inflate (e_L E))" "small_card c"
  shows "client_safe (e_L E) s (fst (response_card E c s))"
  using assms(2)
  by (cases c) (auto simp: response_card_def Let_def small_card_def
    intro!: safe_steps safe_file_card [OF assms(1)] safe_igot_card safe_uv_cards safe_processXTableCard)

lemma converged_repo:
  "s_repo (fst (converged r a s)) = s_repo s \<or> s_repo (fst (converged r a s)) = (s_repo s)\<lparr>t_unsent := []\<rparr>"
proof -
  have "s_repo (fst (uv_settled s)) = s_repo s" for s
    by (simp add: uv_settled_def Let_def)
  then show ?thesis
    by (simp add: converged_def clear_unsent_def Let_def split_beta)
qed

lemma safe_converged: "client_safe L s (fst (converged r a s))"
  using converged_repo [of r a s] by (auto simp: client_safe_def safe_def keeps_same)

lemma safe_processResponse:
  assumes "zlib_writer (l_deflate (e_L E)) (l_inflate (e_L E))" "list_all small_card cards"
  shows "client_safe (e_L E) s (fst (processResponse E cards s))"
proof -
  have cards: "client_safe (e_L E) s (fst (response_cards E cards s))" for s
    using assms(2) by (induction cards arbitrary: s) (auto intro!: safe_steps safe_response_card [OF assms(1)])
  have aged: "client_safe L s (fst (converged r a (age_phantoms (s\<lparr>s_result := x, s_filesRecvdLastRound := y\<rparr>))))" for L r a x s and y :: int
    by (rule client_safe_trans [OF client_safe_core safe_converged]) simp
  have "client_safe L s (fst (case converged r a (age_phantoms (s\<lparr>s_result := x, s_filesRecvdLastRound := y\<rparr>)) of
      (s1, quiet) \<Rightarrow> (s1, Ok quiet)))" for L r a x s and y :: int
    using aged [where L = L and s = s and r = r and a = a and x = x and y = y] by (simp add: split_beta)
  then show ?thesis
    unfolding processResponse_def
    by (auto intro!: cl.chain cards)
qed

section \<open>The sync\<close>

lemma safe_sync_round:
  assumes "zlib_writer (l_deflate (e_L E)) (l_inflate (e_L E))" "\<And>t req t1 resp. exchange t req = (t1, Ok resp) \<Longrightarrow> list_all small_card resp"
  shows "client_safe (e_L E) s (snd (fst (sync_round E exchange rb cycle (t, s))))"
proof -
  let ?s0 = "s\<lparr>s_roundSent := 0, s_roundRecvd := 0\<rparr>"
  obtain s1 res where req: "buildRequest E rb cycle ?s0 = (s1, res)" by fastforce
  have s1: "client_safe (e_L E) s s1"
    using client_safe_trans [OF _ safe_buildRequest, of "e_L E" s ?s0 E rb cycle] req by (simp add: client_safe_core)
  show ?thesis
  proof (cases res)
    case (Ok cards)
    obtain t1 res1 where ex: "exchange t cards = (t1, res1)" by fastforce
    show ?thesis
    proof (cases res1)
      case resp: (Ok resp)
      obtain s2 res2 where pr: "processResponse E resp s1 = (s2, res2)" by fastforce
      have "client_safe (e_L E) s s2"
        using client_safe_trans [OF s1 safe_processResponse [OF assms(1), of resp s1]] assms(2) [of t cards t1 resp] ex resp pr by simp
      then show ?thesis using req Ok ex resp pr by (cases res2) (simp_all add: sync_round_def add_round_def client_safe_def Let_def)
    qed (use s1 req Ok ex in \<open>simp_all add: sync_round_def\<close>)
  qed (use s1 req in \<open>simp_all add: sync_round_def\<close>)
qed

lemma safe_sync_rounds:
  assumes "zlib_writer (l_deflate (e_L E)) (l_inflate (e_L E))" "\<And>t req t1 resp. exchange t req = (t1, Ok resp) \<Longrightarrow> list_all small_card resp"
  shows "client_safe (e_L E) s (snd (fst (sync_rounds E exchange rb cycle (t, s))))"
proof (induction "MaxRounds - cycle" arbitrary: cycle t s)
  case 0
  then show ?case by (simp add: sync_rounds.simps)
next
  case (Suc n)
  obtain t1 s1 res where r: "sync_round E exchange (rb cycle) cycle (t, s) = ((t1, s1), res)" by (metis surj_pair)
  with safe_sync_round [OF assms(1), where exchange = exchange and s = s and rb = "rb cycle" and cycle = cycle and t = t] assms(2) have s1: "client_safe (e_L E) s s1" by simp
  from Suc(1) [of "cycle + 1" s1 t1] Suc(2) have "client_safe (e_L E) s1 (snd (fst (sync_rounds E exchange rb (cycle + 1) (t1, s1))))" by simp
  with s1 r Suc(2) show ?case
    by (subst sync_rounds.simps) (auto split: outcome.split bool.split intro: client_safe_trans)
qed

text \<open>
  Claim C6.  Whatever the server answers, and whether the sync succeeds, fails or panics, the repository
  of the client stays well-formed, every artifact it holds keeps its row and its content, and
  every row with content still expands to content of its name.
\<close>

theorem Sync_content_safe:
  assumes "zlib_writer (l_deflate (e_L E)) (l_inflate (e_L E))"
    and "\<And>t req t1 resp. exchange t req = (t1, Ok resp) \<Longrightarrow> list_all small_card resp"
    and "wf_repo q" "authentic (e_L E) q"
  shows "let q' = snd (fst (Sync E exchange opts rb q t)) in
    wf_repo q' \<and> authentic (e_L E) q' \<and> (\<forall>u c. holds (e_L E) q u c \<longrightarrow> holds (e_L E) q' u c)"
proof -
  have "safe (e_L E) q (snd (fst (Sync E exchange opts rb q t)))"
  proof (cases "newSession q opts")
    case (Ok s)
    then have "core (s_repo s) = core q" by (auto simp: newSession_def Let_def split: if_splits outcome.splits)
    then have s: "safe (e_L E) q (s_repo s)" by (rule safe_core)
    obtain t1 s1 res where r: "sync_rounds E exchange rb 0 (t, s) = ((t1, s1), res)" by (metis surj_pair)
    with safe_trans [OF s] safe_sync_rounds [OF assms(1), where exchange = exchange and s = s and rb = rb and cycle = 0 and t = t] assms(2) have s1: "safe (e_L E) q (s_repo s1)"
      by (simp add: client_safe_def)
    show ?thesis
    proof (cases res)
      case res: (Ok x)
      obtain q1 n res1 where x: "Crosslink (e_L E) (e_unicode E) (s_repo s1) = (q1, n, res1)" by (metis prod_cases3)
      then have "safe (e_L E) (s_repo s1) q1"
        using grows_sweep [of "s_repo s1" "e_L E" "e_unicode E" "candidates (s_repo s1)" 0]
        by (simp add: Crosslink_def keeps_grows safe_def)
      with safe_trans [OF s1] Ok r res x show ?thesis by (cases res1) (simp_all add: Sync_def)
    qed (use s1 Ok r in \<open>simp_all add: Sync_def\<close>)
  qed (simp_all add: Sync_def)
  with assms(3,4) have "keeps (e_L E) q (snd (fst (Sync E exchange opts rb q t)))" by (simp add: safe_def)
  with assms(3,4) keeps_holds show ?thesis unfolding keeps_def Let_def by blast
qed

section \<open>What a request tells the server\<close>

text \<open>
  A card that a client without the private option may send: it does not carry or announce a
  private artifact, files go out only in a push and requests only in a pull.
\<close>

definition discreet :: "repo \<Rightarrow> SyncOpts \<Rightarrow> Card \<Rightarrow> bool" where
  "discreet q opts c \<longleftrightarrow>
     (\<forall>u. reveals u c \<longrightarrow> \<not> marked_private q u) \<and> (case c of FileCard _ _ _ \<Rightarrow> so_Push opts | GimmeCard _ \<Rightarrow> so_Pull opts | PrivateCard \<Rightarrow> False | _ \<Rightarrow> True)"

lemma discreet_silent [simp]:
  "discreet q opts (UVFileCard n m hh z f c)" "discreet q opts (UVGimmeCard n)" "discreet q opts (PragmaCard n vs)"
  "discreet q opts (SchemaCard t i hh m c)" "discreet q opts (XIGotCard t k m)" "discreet q opts (XGimmeCard t k)"
  "discreet q opts (XRowCard t k m c)" "discreet q opts (XDeleteCard t k m d)" "discreet q opts (PushCard a b)"
  "discreet q opts (CookieCard n)" "discreet q opts (PullCard a b)" "discreet q opts (LoginCard a b c)"
  by (simp_all add: discreet_def reveals_def)

lemma discreet_client_version [simp]: "discreet q opts client_version"
  by (simp add: client_version_def)

lemma discreet_core: "core q' = core q \<Longrightarrow> discreet q' opts c = discreet q opts c"
  by (simp add: discreet_def marked_core [of q' q])

lemma private_status_marked:
  assumes "private_status q u = Ok False"
  shows "\<not> marked_private q u"
proof (cases "u = [] \<or> blob_by_uuid q u = None")
  case True
  with assms show ?thesis by (auto simp: private_status_def Exists_def marked_private_def)
next
  case False
  then obtain b where "blob_by_uuid q u = Some b" by blast
  with False assms show ?thesis
    by (cases "bl_rid b \<le> 0") (simp_all add: private_status_def Exists_def marked_private_def IsPrivate_def)
qed

text \<open>Announcements of rows are announcements of names, since names are unique.\<close>

lemma announceable_public: "wf_repo (s_repo s) \<Longrightarrow> b \<in> set (announceable s r) \<Longrightarrow> \<not> marked_private (s_repo s) (bl_uuid b)"
  using marked_row by (auto simp: announceable_def Let_def)

lemma announce_discreet:
  assumes "wf_repo (s_repo s)" "c \<in> set (announce cycle s)"
  shows "discreet (s_repo s) opts c"
  using assms announceable_public
  by (auto simp: announce_def sendUnclustered_def sendAllClusters_def igots_def discreet_def split: if_splits)

lemma file_loop_discreet:
  assumes "file_loop E us budget cards s = (s1, Ok cs)" "\<not> so_Private (s_opts s)" "so_Push (s_opts s)"
    and "list_all (discreet (s_repo s) (s_opts s)) cards"
  shows "list_all (discreet (s_repo s) (s_opts s)) cs"
  using assms
proof (induction E us budget cards s rule: file_loop.induct)
  case (2 E u us budget cards s)
  show ?case
  proof (cases "budget \<le> 0")
    case False
    obtain b where b: "private_status (s_repo s) u = Ok b"
      using "2.prems"(1) False by (cases "private_status (s_repo s) u") simp_all
    show ?thesis
    proof (cases b)
      case True
      with 2 b False show ?thesis by (simp add: unqueue_send_def)
    next
      case pub: False
      with b private_status_marked [of "s_repo s" u] have "\<not> marked_private (s_repo s) u" by simp
      then have "discreet (s_repo s) (s_opts s) (FileCard u [] d)" for d using "2.prems"(3) by (simp add: discreet_def reveals_def)
      with 2 b False pub show ?thesis
        by (cases "loadFileCard E (s_repo s) u") (simp_all add: unqueue_send_def)
    qed
  qed (use 2 in simp)
qed simp

lemma gimme_loop_cards: "gimme_loop q p m us n = Ok cs \<Longrightarrow> \<forall>c \<in> set cs. \<exists>u. c = GimmeCard u"
proof (induction us arbitrary: n cs)
  case (Cons u us)
  show ?case
  proof (cases "n \<ge> m")
    case False
    with Cons.prems obtain skip where skip: "(if p then Ok False else private_status q u) = Ok skip" by (auto simp: bind_ok_def split: outcome.splits)
    show ?thesis
    proof (cases skip)
      case True
      with Cons.prems Cons.IH [of n cs] False skip show ?thesis by simp
    next
      case keep: False
      with Cons.prems False skip obtain cs1 where "gimme_loop q p m us (n + 1) = Ok cs1" "cs = GimmeCard u # cs1"
        by (auto simp: bind_ok_def split: outcome.splits)
      with Cons.IH [of "n + 1" cs1] show ?thesis by simp
    qed
  qed (use Cons.prems in simp)
qed simp

text \<open>The parts of a request, in a session that is on the side of \<open>s\<close>.\<close>

lemma discreet_same:
  assumes "same_side s s'"
  shows "discreet (s_repo s') (s_opts s') = discreet (s_repo s) (s_opts s)"
proof (rule ext)
  fix c
  have "core (s_repo s') = core (s_repo s)" "so_Push (s_opts s') = so_Push (s_opts s)" "so_Pull (s_opts s') = so_Pull (s_opts s)"
    using assms by (simp_all add: same_side_def)
  then show "discreet (s_repo s') (s_opts s') c = discreet (s_repo s) (s_opts s) c"
    by (cases c) (simp_all add: discreet_def marked_core [of "s_repo s'" "s_repo s"])
qed

lemma uv_card_discreet: "discreet q opts (fst (uv_card name full stored))"
  by (cases stored) (simp add: uv_card_def Let_def)

lemma uvfile_loop_cards: "uvfile_loop E m budget s = (s1, Ok cs) \<Longrightarrow> list_all (discreet q opts) cs"
proof (induction m arbitrary: budget s cs)
  case (Cons x m)
  obtain name full where x: "x = (name, full)" by fastforce
  show ?case
  proof (cases "budget \<le> 0")
    case False
    with Cons.prems x obtain b s2 stored cs1 where "uvfile_loop E m b s2 = (s1, Ok cs1)" "cs = fst (uv_card name full stored) # cs1"
      by (auto simp: chain_Ok call_Ok change_Ok ret_def)
    with Cons.IH [of b s2 cs1] show ?thesis by (simp add: uv_card_discreet)
  qed (use Cons.prems x in simp)
qed simp

lemma row_card_discreet: "row_card E info k row m = Ok c \<Longrightarrow> discreet q opts c"
  by (auto simp: row_card_def bind_ok_def split: option.splits outcome.splits if_splits)

lemma tables_out_discreet: "buildXTableCards E s = (s1, Ok cs) \<Longrightarrow> list_all (discreet q opts) cs"
proof -
  have send: "list_all (discreet q opts) cs" if "send_row E info k s = (s1, Ok cs)" for info k s s1 cs
  proof -
    from that obtain found where f: "(case found of None \<Rightarrow> chain (change (unqueue_row (sy_name info) k)) (\<lambda>_. ret [])
        | Some (row, mtime) \<Rightarrow> chain (call STable (row_card E info k row mtime)) (\<lambda>item.
            chain (change (unqueue_row (sy_name info) k)) (\<lambda>_. ret [item]))) s = (s1, Ok cs)"
      by (auto simp: send_row_def chain_Ok call_Ok)
    show ?thesis
    proof (cases found)
      case None
      with f show ?thesis by (simp add: chain_Ok ret_def)
    next
      case (Some p)
      obtain row mtime where "p = (row, mtime)" by fastforce
      with f Some show ?thesis by (auto simp: chain_Ok ret_def call_Ok dest: row_card_discreet)
    qed
  qed
  have sends: "list_all (discreet q opts) cs" if cs: "buildTableSendCards E info s = (s1, Ok cs)" for info s s1 cs
  proof -
    from cs obtain s2 ys where g: "gather (send_row E info) (map snd (filter (\<lambda>(t, _). t = sy_name info) (s_xTableToSend s))) s = (s2, Ok ys)"
      "cs = map (\<lambda>(t, k). XGimmeCard t k) (filter (\<lambda>(t, _). t = sy_name info) (s_xTableGimmes s)) @ ys"
      by (auto simp: buildTableSendCards_def chain_Ok ret_def)
    from gather_all [OF g(1)] send have "list_all (discreet q opts) ys" by blast
    with g(2) show ?thesis by (auto simp: list_all_iff)
  qed
  have announced: "list_all (discreet q opts) cs" if cs: "buildTableXIGotCards E info s = (s1, Ok cs)" for info s s1 cs
  proof -
    from cs obtain s2 rows where "gather (\<lambda>(row, mtime). chain (call STable (checked_hash (e_X E) (sy_def info) row)) (\<lambda>pkHash.
        ret [XIGotCard (sy_name info) pkHash mtime])) rows s2 = (s1, Ok cs)"
      by (auto simp: buildTableXIGotCards_def chain_Ok call_Ok)
    then show ?thesis by (rule gather_all) (auto simp: chain_Ok ret_def)
  qed
  assume "buildXTableCards E s = (s1, Ok cs)"
  then obtain s2 infos where "gather (\<lambda>info. chain (buildTableSchemaCard E info) (\<lambda>schema.
      chain (buildTableXIGotCards E info) (\<lambda>announced. chain (buildTableSendCards E info) (\<lambda>sends. ret (schema @ announced @ sends)))))
      infos s2 = (s1, Ok cs)"
    by (auto simp: buildXTableCards_def Let_def chain_Ok call_Ok)
  then show ?thesis
    by (rule gather_all) (auto simp: chain_Ok ret_def buildTableSchemaCard_def call_Ok Let_def dest!: sends announced)
qed

text \<open>A session whose requests have to be discreet.\<close>

definition bound :: "session \<Rightarrow> bool" where
  "bound s \<longleftrightarrow> wf_repo (s_repo s) \<and> \<not> so_Private (s_opts s)"

lemma bound_same: "same_side s s' \<Longrightarrow> bound s \<Longrightarrow> bound s'"
  using wf_repo_core by (auto simp: same_side_def bound_def)

lemma direction_cards_discreet: "direction_cards s = Ok cs \<Longrightarrow> list_all (discreet q opts) cs"
  by (auto simp: direction_cards_def split: if_splits)

lemma opening_discreet:
  assumes "opening_cards cycle s = (s1, Ok cs)" "bound s"
  shows "list_all (discreet (s_repo s) (s_opts s)) cs"
proof -
  let ?s = "s\<lparr>s_opts := (s_opts s)\<lparr>so_ProjectCode := project_code s\<rparr>\<rparr>"
  have same: "same_side s ?s" by (simp add: same_side_def)
  from assms(1) obtain d where d: "direction_cards ?s = Ok d" "cs = [client_version] @ d @ announce cycle ?s @
      (if cycle = 1 \<and> so_Pull (s_opts ?s) then [PragmaCard ''req-clusters'' []] else [])"
    by (auto simp: opening_cards_def Let_def chain_Ok change_Ok call_Ok ret_def)
  have "list_all (discreet (s_repo s) (s_opts s)) (announce cycle ?s)"
    using announce_discreet [of ?s] assms(2) by (simp add: list_all_iff bound_def)
  with d direction_cards_discreet [OF d(1)] show ?thesis by simp
qed

lemma parts_discreet:
  assumes "bound s"
  shows "buildFileCards E s = (s1, Ok cs) \<Longrightarrow> list_all (discreet (s_repo s) (s_opts s)) cs"
    and "buildGimmeCards s = Ok cs \<Longrightarrow> list_all (discreet (s_repo s) (s_opts s)) cs"
    and "private_part cycle s = (s1, Ok cs) \<Longrightarrow> list_all (discreet (s_repo s) (s_opts s)) cs"
    and "uv_hash_cards E s = (s1, Ok cs) \<Longrightarrow> list_all (discreet (s_repo s) (s_opts s)) cs"
    and "uv_gimme_cards s = (s1, Ok cs) \<Longrightarrow> list_all (discreet (s_repo s) (s_opts s)) cs"
    and "uv_file_cards E s = (s1, Ok cs) \<Longrightarrow> list_all (discreet (s_repo s) (s_opts s)) cs"
    and "(if so_XTableSync (s_opts s) then buildXTableCards E s else (s, Ok [])) = (s1, Ok cs) \<Longrightarrow> list_all (discreet (s_repo s) (s_opts s)) cs"
proof -
  show "buildFileCards E s = (s1, Ok cs) \<Longrightarrow> list_all (discreet (s_repo s) (s_opts s)) cs"
    using file_loop_discreet [of E "s_pendingSend s" "s_maxSend s" "[]" s s1 cs] assms
    by (simp add: buildFileCards_def bound_def split: if_splits)
  show "buildGimmeCards s = Ok cs \<Longrightarrow> list_all (discreet (s_repo s) (s_opts s)) cs"
    using gimme_loop_cards by (fastforce simp: buildGimmeCards_def list_all_iff discreet_def reveals_def split: if_splits)
  show "private_part cycle s = (s1, Ok cs) \<Longrightarrow> list_all (discreet (s_repo s) (s_opts s)) cs"
    using assms by (auto simp: private_part_def private_cards_def bound_def split: option.splits if_splits)
  show "uv_hash_cards E s = (s1, Ok cs) \<Longrightarrow> list_all (discreet (s_repo s) (s_opts s)) cs"
    by (auto simp: uv_hash_cards_def chain_Ok change_Ok call_Ok ret_def split: if_splits prod.splits)
  show "uv_gimme_cards s = (s1, Ok cs) \<Longrightarrow> list_all (discreet (s_repo s) (s_opts s)) cs"
    by (auto simp: uv_gimme_cards_def Let_def list_all_iff split: if_splits)
  show "uv_file_cards E s = (s1, Ok cs) \<Longrightarrow> list_all (discreet (s_repo s) (s_opts s)) cs"
    by (auto simp: uv_file_cards_def buildUVFileCards_def chain_Ok change_Ok ret_def split: if_splits dest: uvfile_loop_cards)
  show "(if so_XTableSync (s_opts s) then buildXTableCards E s else (s, Ok [])) = (s1, Ok cs) \<Longrightarrow> list_all (discreet (s_repo s) (s_opts s)) cs"
    by (auto split: if_splits dest: tables_out_discreet)
qed

text \<open>
  Claim C28.  The request of a client that did not turn on private sync carries and announces no private
  artifact of its repository and no mark for one, file cards only when it pushes and
  requests for artifacts only when it pulls.
\<close>

theorem buildRequest_discreet:
  assumes "buildRequest E rb cycle s = (s', Ok cards)" "wf_repo (s_repo s)" "\<not> so_Private (s_opts s)"
  shows "list_all (discreet (s_repo s) (s_opts s)) cards"
proof -
  note oks = chain_Ok call_Ok ret_def
  from assms(1) obtain sr cs where r: "request_cards E cycle s = (sr, Ok cs)" "list_all (discreet (s_repo s) (s_opts s)) cs \<longrightarrow> list_all (discreet (s_repo s) (s_opts s)) cards"
    by (auto simp: buildRequest_def oks split: if_splits)
      (auto simp: buildLoginCard_def bind_ok_def split: outcome.splits)
  from r(1) obtain s1 c1 s2 c2 c3 s4 c4 s5 c5 s6 c6 s7 c7 s8 c8 where
    p: "opening_cards cycle s = (s1, Ok c1)" "buildFileCards E s1 = (s2, Ok c2)" "buildGimmeCards s2 = Ok c3"
       "private_part cycle s2 = (s4, Ok c4)" "uv_hash_cards E s4 = (s5, Ok c5)" "uv_gimme_cards s5 = (s6, Ok c6)"
       "uv_file_cards E s6 = (s7, Ok c7)" "(if so_XTableSync (s_opts s7) then buildXTableCards E s7 else (s7, Ok [])) = (s8, Ok c8)"
    and cs: "cs = c1 @ c2 @ c3 @ c4 @ c5 @ c6 @ c7 @ c8"
    by (auto simp: request_cards_def oks)
  have same1: "same_side s s1" using same_opening [where s = s and cycle = cycle] p(1) by simp
  have same2: "same_side s s2" using sd.trans [OF same1 same_parts(1) [where E = E]] p(2) by simp
  have same4: "same_side s s4" using sd.trans [OF same2 same_parts(3) [where cycle = cycle]] p(4) by simp
  have same5: "same_side s s5" using sd.trans [OF same4 same_uv_hash [where E = E]] p(5) by simp
  have same6: "same_side s s6" using sd.trans [OF same5 same_parts(2)] p(6) by simp
  have same7: "same_side s s7" using sd.trans [OF same6 same_parts(4) [where E = E]] p(7) by simp
  note same = same1 same2 same4 same5 same6 same7
  have b: "bound s" using assms(2,3) by (simp add: bound_def)
  note bs = bound_same [OF same(1) b] bound_same [OF same(2) b] bound_same [OF same(3) b] bound_same [OF same(4) b]
    bound_same [OF same(5) b] bound_same [OF same(6) b]
  have "list_all (discreet (s_repo s) (s_opts s)) cs"
    using opening_discreet [OF p(1) b] parts_discreet(1) [OF bs(1) p(2)] parts_discreet(2) [OF bs(2) p(3)]
      parts_discreet(3) [OF bs(2) p(4)] parts_discreet(4) [OF bs(3) p(5)] parts_discreet(5) [OF bs(4) p(6)]
      parts_discreet(6) [OF bs(5) p(7)] parts_discreet(7) [OF bs(6) p(8)]
    by (simp add: cs discreet_same [OF same(1)] discreet_same [OF same(2)] discreet_same [OF same(3)] discreet_same [OF same(4)]
        discreet_same [OF same(5)] discreet_same [OF same(6)])
  with r(2) show ?thesis by blast
qed

section \<open>Instances\<close>

definition toy_opts :: SyncOpts where
  "toy_opts = \<lparr>so_Push = True, so_Pull = True, so_ProjectCode = ''p'', so_ServerCode = [], so_User = [], so_Password = [], so_MaxSend = 0,
     so_UV = False, so_XTableSync = False, so_Private = False, so_CkinLock = None\<rparr>"

text \<open>A client with the artifacts of the sample server, asked for both of them.\<close>

definition toy_session :: session where
  "toy_session = (case newSession toy_server toy_opts of
     Ok s \<Rightarrow> s\<lparr>s_pendingSend := [l_sha1 toy_libs ''secret'', l_sha1 toy_libs ''hello'']\<rparr>)"

theorem Sync_content_safe_witness:
  "let q' = snd (fst (Sync toy_env (\<lambda>t req. (t, Ok [FileCard (l_sha1 toy_libs ''new'') [] ''new''])) toy_opts (\<lambda>_. []) toy_server ()))
   in wf_repo q' \<and> authentic toy_libs q' \<and> holds toy_libs q' (l_sha1 toy_libs ''hello'') ''hello''"
proof -
  have "holds toy_libs toy_server (l_sha1 toy_libs ''hello'') ''hello''"
    using toy_server_expands(1) by (simp add: holds_def toy_server_def blob_by_uuid_def toy_row_def)
  moreover have "e_L toy_env = toy_libs" by (simp add: toy_env_def)
  ultimately show ?thesis
    using Sync_content_safe [OF toy_zlib _ toy_server_wf, of "\<lambda>t req. (t, Ok [FileCard (l_sha1 toy_libs ''new'') [] ''new''])" toy_opts "\<lambda>_. []" "()"]
      toy_server_authentic
    by (auto simp: Let_def small_card_def small_file_def)
qed

lemma toy_session_fields:
  "s_repo toy_session = toy_server" "s_opts toy_session = toy_opts" "s_cookie toy_session = []" "s_phantoms toy_session = []"
  "s_pendingSend toy_session = [l_sha1 toy_libs ''secret'', l_sha1 toy_libs ''hello'']" "s_maxSend toy_session = 250000"
  by (simp_all add: toy_session_def newSession_def toy_opts_def DefaultMaxSend_def)

theorem buildRequest_discreet_witness:
  "\<exists>s' cards. buildRequest toy_env [] 0 toy_session = (s', Ok cards) \<and> list_all (discreet toy_server toy_opts) cards \<and>
     FileCard (l_sha1 toy_libs ''hello'') [] ''hello'' \<in> set cards"
proof -
  let ?hello = "l_sha1 toy_libs ''hello''" and ?secret = "l_sha1 toy_libs ''secret''"
  have ne: "?hello \<noteq> ?secret" "?hello \<noteq> []" "?secret \<noteq> []" by code_simp+
  have rows: "blob_by_uuid toy_server ?hello = Some (toy_row 1 ''hello'')" "blob_by_uuid toy_server ?secret = Some (toy_row 2 ''secret'')"
      "t_private toy_server = [2]" "t_unclustered toy_server = []" "t_config toy_server = []"
    using ne by (simp_all add: toy_server_def blob_by_uuid_def toy_row_def empty_repo_def)
  have "expand toy_libs toy_server 1 = Ok ''hello''" using toy_server_expands(1) by (simp add: Expand_eq_expands)
  then have load: "loadFileCard toy_env toy_server ?hello = Ok ''hello''"
    using rows(1) ne by (simp add: loadFileCard_def Exists_def toy_env_def toy_row_def)
  have status: "private_status toy_server ?secret = Ok True" "private_status toy_server ?hello = Ok False"
    using rows ne by (simp_all add: private_status_def Exists_def IsPrivate_def toy_row_def)
  let ?s1 = "toy_session\<lparr>s_opts := toy_opts, s_igotSentThisRound := 0\<rparr>"
  have code: "project_code toy_session = ''p''" by (simp add: project_code_def toy_session_fields toy_opts_def)
  have opts: "toy_opts\<lparr>so_ProjectCode := ''p''\<rparr> = toy_opts" by (simp add: toy_opts_def)
  obtain d where dir: "direction_cards (toy_session\<lparr>s_opts := toy_opts\<rparr>) = Ok d"
    by (simp add: direction_cards_def project_code_def toy_opts_def)
  have ann: "announce 0 (toy_session\<lparr>s_opts := toy_opts\<rparr>) = []"
    by (simp add: announce_def sendUnclustered_def igots_def toy_session_fields rows)
  obtain c1 where first: "opening_cards 0 toy_session = (?s1, Ok c1)"
    unfolding opening_cards_def chain_def change_def code toy_session_fields(2) opts prod.case outcome.case
    by (simp add: dir ann call_def ret_def)
  have flags: "so_Push toy_opts" "so_Pull toy_opts" "\<not> so_Private toy_opts" "\<not> so_UV toy_opts" "\<not> so_XTableSync toy_opts"
      "so_User toy_opts = []" "so_CkinLock toy_opts = None"
    by (simp_all add: toy_opts_def)
  obtain s2 where files: "buildFileCards toy_env ?s1 = (s2, Ok [FileCard ?hello [] ''hello''])" "s_opts s2 = toy_opts" "s_phantoms s2 = []"
    by (simp add: buildFileCards_def toy_session_fields flags status load unqueue_send_def)
  have "buildGimmeCards s2 = Ok []" using files by (simp add: buildGimmeCards_def flags)
  with first files obtain s' cards where r: "buildRequest toy_env [] 0 toy_session = (s', Ok cards)" "FileCard ?hello [] ''hello'' \<in> set cards"
    by (simp add: buildRequest_def request_cards_def chain_def ret_def call_def flags private_part_def private_cards_def
        uv_hash_cards_def uv_gimme_cards_def uv_file_cards_def)
  from buildRequest_discreet [OF r(1)] have "list_all (discreet toy_server toy_opts) cards"
    using toy_server_wf by (simp add: toy_session_fields toy_opts_def)
  with r show ?thesis by blast
qed

end
