(* ===== verification/Ckin_Lock.thy ===== *)
theory Ckin_Lock
  imports Handler_Props
begin

text \<open>
  Check-in locks as leases (\<open>internal/sync/ckin_lock.go\<close>): what a granted lock means for the
  requests that follow.
\<close>

record lock_request =
  lr_now :: int
  lr_parent :: bytes
  lr_client :: bytes
  lr_user :: bytes

definition lock_step :: "env \<Rightarrow> int \<Rightarrow> lock_request \<Rightarrow> repo \<Rightarrow> repo \<times> (bytes \<times> int) option" where
  "lock_step E timeout r q = processCkinLock (E\<lparr>e_now := lr_now r\<rparr>) q (lr_parent r) (lr_client r) (lr_user r) timeout"

definition lock_run :: "env \<Rightarrow> int \<Rightarrow> lock_request list \<Rightarrow> repo \<Rightarrow> repo" where
  "lock_run E timeout rs q = foldl (\<lambda>q r. fst (lock_step E timeout r q)) q rs"

definition is_leaf_uuid :: "repo \<Rightarrow> bytes \<Rightarrow> bool" where
  "is_leaf_uuid q u \<longleftrightarrow> (case blob_by_uuid q u of None \<Rightarrow> False | Some b \<Rightarrow> bl_rid b \<in> set (t_leaf q))"

text \<open>The lock row of a client, written at second \<open>t\<close>.\<close>

definition lock_row :: "env \<Rightarrow> bytes \<Rightarrow> bytes \<Rightarrow> bytes \<Rightarrow> int \<Rightarrow> config_row" where
  "lock_row E p c u t = \<lparr>cg_name = configKey p, cg_value = e_lock_json E (c, u, t), cg_mtime = Some t\<rparr>"

definition lock_held :: "env \<Rightarrow> repo \<Rightarrow> bytes \<Rightarrow> bytes \<Rightarrow> bytes \<Rightarrow> int \<Rightarrow> bool" where
  "lock_held E q p c u t \<longleftrightarrow> distinct (map cg_name (t_config q)) \<and> lock_row E p c u t \<in> set (t_config q) \<and> is_leaf_uuid q p"

lemma key_is_lock: "is_lock (configKey p)" "lock_uuid (configKey p) = p"
  by (simp_all add: is_lock_def configKey_def lock_uuid_def HasPrefix_def lock_prefix_def lower_char_def byte_val_def)

lemma configKey_eq: "configKey p = configKey p' \<longleftrightarrow> p = p'"
  by (simp add: configKey_def)

lemma find_config: "distinct (map cg_name cs) \<Longrightarrow> c \<in> set cs \<Longrightarrow> find (\<lambda>d. cg_name d = cg_name c) cs = Some c"
  by (rule find_distinct_key)

lemma leaf_same: "t_blob q' = t_blob q \<Longrightarrow> t_leaf q' = t_leaf q \<Longrightarrow> is_leaf_uuid q' u = is_leaf_uuid q u"
  by (simp add: is_leaf_uuid_def blob_by_uuid_def split: option.split)

lemma expire_keeps:
  assumes "lock_held E q p c u t" "now \<le> t + timeout"
  shows "lock_held E (expireStaleLocks now q timeout) p c u t"
  using assms key_is_lock [of p]
  by (auto simp: lock_held_def expireStaleLocks_def lock_row_def lock_leaf_def is_leaf_uuid_def distinct_map blob_by_uuid_def
      split: option.splits intro: inj_on_subset)

lemma distinct_replace_config: "distinct (map cg_name (t_config q)) \<Longrightarrow> distinct (map cg_name (t_config (replace_config q r)))"
  by (auto simp: replace_config_def distinct_map inj_on_def)

lemma lock_step_result:
  fixes r :: lock_request
  defines "now \<equiv> lr_now r div 10 ^ 9"
  assumes held: "lock_held E q p c u t" and fresh: "now \<le> t + timeout" and json: "\<And>x. e_json_lock E (e_lock_json E x) = Some x"
  shows "lr_parent r = p \<Longrightarrow> lr_client r \<noteq> c \<Longrightarrow> snd (lock_step E timeout r q) = Some (u, t) \<and> lock_held E (fst (lock_step E timeout r q)) p c u t"
    and "lr_parent r \<noteq> p \<Longrightarrow> lock_held E (fst (lock_step E timeout r q)) p c u t"
proof -
  let ?q1 = "expireStaleLocks now q timeout"
  have held1: "lock_held E ?q1 p c u t" by (rule expire_keeps [OF held fresh])
  then have val: "config_value ?q1 (configKey p) = Some (e_lock_json E (c, u, t))"
    using find_config [of "t_config ?q1" "lock_row E p c u t"] by (simp add: lock_held_def config_value_def lock_row_def)
  show "snd (lock_step E timeout r q) = Some (u, t) \<and> lock_held E (fst (lock_step E timeout r q)) p c u t"
    if "lr_parent r = p" "lr_client r \<noteq> c"
    using that val held1 json by (simp add: lock_step_def processCkinLock_def Let_def now_def)
  have other: "lock_held E (replace_config ?q1 x) p c u t" if "cg_name x \<noteq> configKey p" for x
    using held1 that distinct_replace_config [of ?q1 x] leaf_same [of "replace_config ?q1 x" ?q1 p]
    by (auto simp: lock_held_def lock_row_def replace_config_def)
  show "lock_held E (fst (lock_step E timeout r q)) p c u t" if "lr_parent r \<noteq> p"
    using that held1 other by (auto simp: lock_step_def processCkinLock_def Let_def now_def configKey_eq split: option.split)
qed

lemma lock_run_held:
  assumes "lock_held E q p c u t" and json: "\<And>x. e_json_lock E (e_lock_json E x) = Some x"
    and "list_all (\<lambda>r. lr_now r div 10 ^ 9 \<le> t + timeout \<and> (lr_parent r = p \<longrightarrow> lr_client r \<noteq> c)) rs"
  shows "lock_held E (lock_run E timeout rs q) p c u t"
  using assms(1,3)
proof (induction rs arbitrary: q)
  case (Cons r rs)
  have "lock_held E (fst (lock_step E timeout r q)) p c u t"
    using lock_step_result [OF Cons.prems(1) _ json] Cons.prems(2) by (cases "lr_parent r = p") auto
  with Cons show ?case by (simp add: lock_run_def)
qed (simp add: lock_run_def)


text \<open>An encoding with an inverse, in the place of JSON.\<close>

fun take_tagged :: "bytes \<Rightarrow> bytes \<times> bytes" where
  "take_tagged (x # b # s) = (if x = CHR ''1'' then (case take_tagged s of (c, rest) \<Rightarrow> (b # c, rest)) else ([], b # s))"
| "take_tagged s = ([], [])"

definition tagged :: "bytes \<Rightarrow> bytes" where
  "tagged s = concat (map (\<lambda>b. [CHR ''1'', b]) s) @ ''0''"

lemma take_tagged: "rest \<noteq> [] \<Longrightarrow> take_tagged (tagged s @ rest) = (s, rest)"
  by (induction s) (auto simp: tagged_def neq_Nil_conv)

definition toy_lock_env :: env where
  "toy_lock_env = toy_env\<lparr>
     e_lock_json := (\<lambda>(c, u, t). tagged c @ tagged u @ (if t < 0 then CHR ''-'' else CHR ''+'') # show_nat (nat \<bar>t\<bar>)),
     e_json_lock := (\<lambda>s. case take_tagged s of (c, s1) \<Rightarrow> case take_tagged s1 of (u, s2) \<Rightarrow>
        (case s2 of [] \<Rightarrow> None | x # ds \<Rightarrow> map_option (\<lambda>n. (c, u, if x = CHR ''-'' then - int n else int n)) (parse_nat ds)))\<rparr>"

lemma toy_lock_json: "e_json_lock toy_lock_env (e_lock_json toy_lock_env x) = Some x"
proof (cases x)
  case (fields c u t)
  have "tagged u @ s \<noteq> []" for s by (simp add: tagged_def)
  with fields take_tagged show ?thesis by (simp add: toy_lock_env_def)
qed

definition toy_leaf_server :: repo where
  "toy_leaf_server = toy_server\<lparr>t_leaf := [1]\<rparr>"

definition toy_lock :: "int \<Rightarrow> bytes \<Rightarrow> lock_request" where
  "toy_lock secs client = \<lparr>lr_now = secs * 10 ^ 9, lr_parent = l_sha1 toy_libs ''hello'', lr_client = client, lr_user = client @ ''-user''\<rparr>"

lemma toy_lock_fields [simp]:
  "lr_now (toy_lock t c) div 1000000000 = t" "lr_now (toy_lock t c) div 10 ^ 9 = t" "lr_parent (toy_lock t c) = l_sha1 toy_libs ''hello''" "lr_client (toy_lock t c) = c"
  "lr_user (toy_lock t c) = c @ ''-user''"
  by (simp_all add: toy_lock_def)


end
