(* ===== verification/Table_Props.thy ===== *)
theory Table_Props
  imports Table_Sync
begin

text \<open>
  Extension tables (\<open>internal/repo/tablesync.go\<close>): the typing of their rows, that a row written is
  the row found under its key hash, and where two keys share a hash.
\<close>

section \<open>Typed tables\<close>

text \<open>
  Rows have the declared columns in order, keys are not null and unique, the time is an
  integer, and there is an owner exactly in the tables that have the column.
\<close>

definition typed_row :: "xtable \<Rightarrow> xrow \<Rightarrow> bool" where
  "typed_row t r \<longleftrightarrow> map fst (xr_vals r) = map cd_Name (xt_cols t) \<and> XNull \<notin> set (xt_key t r) \<and> is_int_val (xr_mtime r) \<and>
     (xt_owned t \<longleftrightarrow> xr_owner r \<noteq> XNull)"

definition typed_table :: "xtable \<Rightarrow> bool" where
  "typed_table t \<longleftrightarrow> distinct (table_columns t) \<and> list_ex cd_PK (xt_cols t) \<and> list_all (typed_row t) (xt_rows t) \<and>
     distinct (map (xt_key t) (xt_rows t))"

definition typed_tables :: "repo \<Rightarrow> bool" where
  "typed_tables q \<longleftrightarrow> distinct (map xt_name (t_xtable q)) \<and> list_all typed_table (t_xtable q)"

text \<open>No key of a row is \<open>mtime\<close>, in any case.\<close>

definition plain_row :: "xmap \<Rightarrow> bool" where
  "plain_row row \<longleftrightarrow> list_all (\<lambda>(k, v). map lower_char k \<noteq> ''mtime'') row"

lemma typed_set_xtable:
  assumes "typed_tables q" "typed_table t'"
  shows "typed_tables (set_xtable q t')"
proof -
  have "map xt_name (t_xtable (set_xtable q t')) = map xt_name (t_xtable q)" by (simp add: set_xtable_def)
  moreover have "list_all typed_table (t_xtable (set_xtable q t'))"
    using assms by (auto simp: set_xtable_def typed_tables_def list_all_iff)
  ultimately show ?thesis using assms(1) by (simp add: typed_tables_def)
qed

lemma find_xtable_typed: "typed_tables q \<Longrightarrow> find_xtable q n = Some t \<Longrightarrow> typed_table t \<and> xt_name t = n"
  by (auto simp: find_xtable_def find_Some_iff typed_tables_def list_all_length)

lemma column_types_names: "column_types cs = Ok ds \<Longrightarrow> map cd_Name ds = map cd_Name cs \<and> map cd_PK ds = map cd_PK cs"
  by (induction cs arbitrary: ds) (auto simp: bind_ok_eq_Ok split: if_splits)

lemma list_ex_map: "map f xs = map f ys \<Longrightarrow> list_ex f xs = list_ex f ys"
proof -
  assume eq: "map f xs = map f ys"
  then have "length xs = length ys" by (rule map_eq_imp_length_eq)
  then show ?thesis using eq by (induction rule: list_induct2) auto
qed

lemma typed_Register:
  assumes "typed_tables q" "RegisterSyncedTable X q name def m = (q', res)"
  shows "typed_tables q'"
proof -
  have other: "typed_tables (q\<lparr>t_sync_schema := s\<rparr>)" for s using assms(1) by (simp add: typed_tables_def)
  have "typed_tables q2" if "createExtensionTable X q1 name def = Ok q2" "typed_tables q1" for q1 q2
  proof -
    from that(1) obtain cols where cols: "column_types (td_Columns def) = Ok cols" "list_ex cd_PK (td_Columns def)"
        "create_xtable X q1 name cols (owned_conflict (td_Conflict def)) = Ok q2"
      by (auto simp: createExtensionTable_def bind_ok_eq_Ok split: if_splits)
    have pk: "list_ex cd_PK cols" using list_ex_map [of cd_PK cols "td_Columns def"] column_types_names [OF cols(1)] cols(2) by simp
    let ?owned = "owned_conflict (td_Conflict def)"
    show ?thesis
    proof (cases "find_xtable q1 name = None")
      case True
      let ?t = "\<lparr>xt_name = name, xt_cols = cols, xt_owned = ?owned, xt_rows = []\<rparr>"
      from cols(3) True have q2: "q2 = q1\<lparr>t_xtable := t_xtable q1 @ [?t]\<rparr>" and d: "distinct (table_columns ?t)"
        by (simp_all add: create_xtable_def table_columns_def split: if_splits)
      from True have "name \<notin> xt_name ` set (t_xtable q1)" by (auto simp: find_xtable_def find_None_iff)
      with q2 d pk that(2) show ?thesis by (simp add: typed_tables_def typed_table_def)
    next
      case False
      with cols(3) that(2) show ?thesis by (simp add: create_xtable_def split: if_splits)
    qed
  qed
  with assms other show ?thesis
    by (auto simp: RegisterSyncedTable_def Let_def split: outcome.splits option.splits)
qed

lemma cell_mtime: "plain_row row \<Longrightarrow> cell (row @ [(''mtime'', XInt m)]) ''mtime'' d = XInt m"
proof -
  assume "plain_row row"
  then have "find (\<lambda>(key, v). map lower_char key = ''mtime'') row = None" by (auto simp: plain_row_def find_None_iff list_all_iff)
  then have "find (\<lambda>(key, v). map lower_char key = ''mtime'') (row @ [(''mtime'', XInt m)]) = Some (''mtime'', XInt m)"
    by (simp add: find_append lower_char_def byte_val_def)
  then show ?thesis by (simp add: cell_def bind_value_def)
qed

lemma plain_sort: "plain_row (sort_key fst row) = plain_row row"
  by (simp add: plain_row_def list_all_iff)

lemma typed_replace:
  assumes "typed_table t" "replace_xrow X t (row @ [(''mtime'', XInt m)]) = Ok t'" "plain_row row" "x_affinity X ''INTEGER'' (XInt m) = XInt m"
  shows "typed_table t'" "xt_name t' = xt_name t"
proof -
  let ?r = "new_xrow X t (row @ [(''mtime'', XInt m)])"
  have t': "t' = t\<lparr>xt_rows := filter (\<lambda>s. xt_key t s \<noteq> xt_key t ?r) (xt_rows t) @ [?r]\<rparr>" "XNull \<notin> set (xt_key t ?r)"
    using assms(2) by (auto simp: replace_xrow_def Let_def split: if_splits)
  have "typed_row t ?r"
    using t'(2) cell_mtime [OF assms(3), of m] assms(4) by (auto simp: typed_row_def new_xrow_def is_int_val_def Let_def comp_def)
  then have "list_all (typed_row t) (xt_rows t')" using assms(1) t'(1) by (auto simp: typed_table_def list_all_iff)
  moreover have same: "xt_key t' = xt_key t" "table_columns t' = table_columns t" "xt_cols t' = xt_cols t" "typed_row t' = typed_row t"
    by (auto simp: t'(1) xt_key_def table_columns_def typed_row_def fun_eq_iff)
  moreover have "distinct (map (xt_key t) (xt_rows t'))"
    using assms(1) by (auto simp: t'(1) typed_table_def distinct_map inj_on_def)
  ultimately show "typed_table t'" using assms(1) by (simp add: typed_table_def)
  show "xt_name t' = xt_name t" by (simp add: t'(1))
qed

lemma typed_Upsert:
  assumes "typed_tables q" "UpsertXRow X q name row m = Ok q'" "plain_row row" "x_affinity X ''INTEGER'' (XInt m) = XInt m"
  shows "typed_tables q'"
proof -
  from assms(2) obtain t t' where t: "find_xtable q name = Some t" "replace_xrow X t (sort_key fst row @ [(''mtime'', XInt m)]) = Ok t'"
      "q' = set_xtable q t'"
    by (auto simp: UpsertXRow_def bind_ok_eq_Ok wrap_err_def split: if_splits option.splits outcome.splits)
  have "typed_table t'"
    using typed_replace(1) [OF _ t(2) _ assms(4)] find_xtable_typed [OF assms(1) t(1)] assms(3) by (simp add: plain_sort)
  with t(3) assms(1) show ?thesis by (simp add: typed_set_xtable)
qed

lemma xget_cleared:
  "\<not> cleared def k \<Longrightarrow> xget (map (\<lambda>(k, v). (k, if cleared def k then XNull else v)) vs) k = xget vs k"
  by (induction vs) (auto simp: xget_def)

lemma bury_key:
  assumes "\<not> list_ex (\<lambda>c. cd_PK c \<and> cleared def (cd_Name c)) (xt_cols t)"
  shows "xt_key t (bury_row def m r) = xt_key t r"
  using assms by (auto simp: xt_key_def bury_row_def list_ex_iff xget_cleared)

lemma typed_bury:
  assumes "typed_table t" "bury_xrow def row m t = Ok t'"
  shows "typed_table t'" "xt_name t' = xt_name t"
proof -
  let ?f = "\<lambda>r. if bury_match def row r then bury_row def m r else r"
  have t': "t' = t\<lparr>xt_rows := map ?f (xt_rows t)\<rparr>"
    and key: "list_ex (bury_match def row) (xt_rows t) \<Longrightarrow> \<not> list_ex (\<lambda>c. cd_PK c \<and> cleared def (cd_Name c)) (xt_cols t)"
    using assms(2) by (auto simp: bury_xrow_def split: if_splits)
  have keys: "xt_key t (?f r) = xt_key t r" if "r \<in> set (xt_rows t)" for r
    using that key bury_key [of def t m r] by (auto simp: list_ex_iff)
  have "typed_row t (?f r)" if "r \<in> set (xt_rows t)" for r
  proof -
    have "typed_row t r" using that assms(1) by (simp add: typed_table_def list_all_iff)
    moreover have "map fst (xr_vals (bury_row def m r)) = map fst (xr_vals r)" by (simp add: bury_row_def comp_def split_def)
    moreover have "xr_owner (?f r) = xr_owner r" by (simp add: bury_row_def)
    ultimately show ?thesis using keys [OF that] by (auto simp: typed_row_def bury_row_def is_int_val_def)
  qed
  then have "list_all (typed_row t) (xt_rows t')" unfolding t' by (simp add: list.pred_map) (simp add: list_all_iff)
  moreover have same: "xt_key t' = xt_key t" "table_columns t' = table_columns t" "xt_cols t' = xt_cols t" "typed_row t' = typed_row t"
    by (auto simp: t' xt_key_def table_columns_def typed_row_def fun_eq_iff)
  moreover have "map (xt_key t) (xt_rows t') = map (xt_key t) (xt_rows t)" using keys by (simp add: t')
  ultimately show "typed_table t'" using assms(1) by (simp add: typed_table_def)
  show "xt_name t' = xt_name t" by (simp add: t')
qed

lemma typed_Delete:
  assumes "typed_tables q" "DeleteXRowByPKHash X q name def h m = Ok (q', b)"
  shows "typed_tables q'"
proof -
  obtain found where "LookupXRow X q name def h = Ok found"
    using assms(2) by (auto simp: DeleteXRowByPKHash_def bind_ok_eq_Ok split: if_splits)
  with assms(2) consider "q' = q"
    | t t' row where "find_xtable q name = Some t" "bury_xrow def row m t = Ok t'" "q' = set_xtable q t'"
    by (fastforce simp: DeleteXRowByPKHash_def bind_ok_eq_Ok wrap_err_def split: if_splits option.splits outcome.splits)
  then show ?thesis
  proof cases
    case 2
    with typed_bury(1) [OF _ 2(2)] find_xtable_typed [OF assms(1)] typed_set_xtable [OF assms(1)] show ?thesis by simp
  qed (use assms(1) in simp)
qed


section \<open>A written row is found\<close>

lemma find_hash_Ok:
  assumes "\<And>r x. (r, x) \<in> set rows \<Longrightarrow> \<exists>h'. row_hash X def r = Ok h' \<and> (h' = h \<longleftrightarrow> (r, x) = (r0, x0))"
    and "(r0, x0) \<in> set rows"
  shows "find_hash X def h rows = Ok (Some (r0, x0))"
  using assms
proof (induction rows)
  case (Cons rx rows)
  obtain r x where rx: "rx = (r, x)" by fastforce
  from Cons.prems(1) [of r x] rx obtain h' where h': "row_hash X def r = Ok h'" "h' = h \<longleftrightarrow> (r, x) = (r0, x0)" by auto
  show ?case
  proof (cases "(r, x) = (r0, x0)")
    case True
    with h' rx show ?thesis by simp
  next
    case False
    with Cons rx have "find_hash X def h rows = Ok (Some (r0, x0))" by auto
    with h' rx False show ?thesis by simp
  qed
qed simp

text \<open>
  A row that is written and accepted is found under the hash of its key, with the stored values
  and the given time, when no other row of the table shares that hash.
\<close>

theorem UpsertXRow_LookupXRow:
  assumes "typed_tables q" "find_xtable q name = Some t" "name \<noteq> []" "plain_row row" "x_affinity X ''INTEGER'' (XInt m) = XInt m"
    and up: "UpsertXRow X q name row m = Ok q'"
    and new: "xr_vals (new_xrow X t (sort_key fst row @ [(''mtime'', XInt m)])) = vals" "row_hash X def vals = Ok h" "h \<noteq> []"
    and others: "list_all (\<lambda>r. case row_hash X def (xr_vals r) of
        Ok h' \<Rightarrow> h' = h \<longrightarrow> xt_key t r = map (\<lambda>c. xget vals (cd_Name c)) (filter cd_PK (xt_cols t)) | _ \<Rightarrow> False) (xt_rows t)"
  shows "LookupXRow X q' name def h = Ok (Some (vals, m))"
proof -
  let ?r = "new_xrow X t (sort_key fst row @ [(''mtime'', XInt m)])"
  let ?rows = "filter (\<lambda>s. xt_key t s \<noteq> xt_key t ?r) (xt_rows t) @ [?r]"
  from up assms(2) obtain t' where t': "replace_xrow X t (sort_key fst row @ [(''mtime'', XInt m)]) = Ok t'" "q' = set_xtable q t'"
    by (auto simp: UpsertXRow_def bind_ok_eq_Ok wrap_err_def split: if_splits outcome.splits)
  then have rows: "t' = t\<lparr>xt_rows := ?rows\<rparr>" by (auto simp: replace_xrow_def Let_def split: if_splits)
  have typed: "typed_table t" "xt_name t = name" using find_xtable_typed [OF assms(1,2)] by auto
  have typed': "typed_table t'" "xt_name t' = name"
    using typed_replace [OF typed(1) t'(1) _ assms(5)] assms(4) typed(2) by (simp_all add: plain_sort)
  have find: "find_xtable q' name = Some t'"
  proof -
    have "find_xtable q' name = map_option (\<lambda>s. if xt_name s = xt_name t' then t' else s) (find_xtable q name)"
      unfolding t'(2) find_xtable_def set_xtable_def by simp (rule find_map_update, use typed'(2) in auto)
    with assms(2) typed(2) typed'(2) show ?thesis by simp
  qed
  have ints: "list_all (\<lambda>r. is_int_val (xr_mtime r)) (xt_rows t')"
    using typed'(1) by (auto simp: typed_table_def typed_row_def list_all_iff)
  have mt: "xr_mtime ?r = XInt m"
    using cell_mtime [of "sort_key fst row" m XNull] assms(4,5) by (simp add: new_xrow_def plain_sort)
  have key: "xt_key t ?r = map (\<lambda>c. xget vals (cd_Name c)) (filter cd_PK (xt_cols t))" by (simp add: xt_key_def new(1))
  let ?list = "map (\<lambda>r. (xr_vals r, int_of_val (xr_mtime r))) (sort_key (\<lambda>r. int_of_val (xr_mtime r)) (xt_rows t'))"
  have "find_hash X def h ?list = Ok (Some (vals, m))"
  proof (rule find_hash_Ok)
    show "(vals, m) \<in> set ?list" using new(1) mt by (auto simp: rows int_of_val_def intro!: image_eqI [of _ _ ?r])
    fix r x assume "(r, x) \<in> set ?list"
    then consider s where "s \<in> set (xt_rows t)" "xt_key t s \<noteq> xt_key t ?r" "r = xr_vals s" "x = int_of_val (xr_mtime s)"
      | "r = vals" "x = m"
      using new(1) mt by (auto simp: rows int_of_val_def)
    then show "\<exists>h'. row_hash X def r = Ok h' \<and> (h' = h \<longleftrightarrow> (r, x) = (vals, m))"
    proof cases
      case 1
      with others key obtain h' where h': "row_hash X def r = Ok h'" "h' \<noteq> h"
        by (cases "row_hash X def (xr_vals s)") (auto simp: list_all_iff)
      with new(2) have "r \<noteq> vals" by auto
      with h' show ?thesis by auto
    qed (use new(2) in auto)
  qed
  with find ints assms(3) new(3) show ?thesis by (simp add: LookupXRow_def ListXRows_def)
qed

section \<open>Keys that share a hash\<close>

text \<open>
  The parts of a key are joined with a NUL byte, which a text value may contain: two different
  keys of two text columns hash the same text.
\<close>

lemma PKHash_ambiguous:
  fixes X :: xlib
  defines "cols \<equiv> [\<lparr>cd_Name = ''a'', cd_Type = ''text'', cd_PK = True\<rparr>, \<lparr>cd_Name = ''b'', cd_Type = ''text'', cd_PK = True\<rparr>]"
  shows "PKHash X cols [(''a'', XText (''1'' @ [CHR 0x00] @ ''b=2'')), (''b'', XText ''3'')] =
     PKHash X cols [(''a'', XText ''1''), (''b'', XText (''2'' @ [CHR 0x00] @ ''b=3''))]"
proof -
  have "sort_key cd_Name cols = cols" by (simp add: cols_def)
  then show ?thesis by (simp add: PKHash_def cols_def normalizeValue_def xget_def)
qed

section \<open>Instances\<close>

definition toy_table :: TableDef where
  "toy_table = \<lparr>td_Columns = [\<lparr>cd_Name = ''id'', cd_Type = ''text'', cd_PK = True\<rparr>, \<lparr>cd_Name = ''v'', cd_Type = ''integer'', cd_PK = False\<rparr>],
     td_Conflict = ''mtime-wins''\<rparr>"

definition toy_tables :: xlib where
  "toy_tables = \<lparr>x_sha1 = id, x_float_int = sint, x_int_float = word_of_int, x_show_float = (\<lambda>w. show_int (sint w)),
     x_parse_float = (\<lambda>s. map_option word_of_int (Atoi s)), x_keyword = (\<lambda>_. False), x_affinity = (\<lambda>_ v. v),
     x_def_of_json = (\<lambda>_. None), x_json_of_def = (\<lambda>_. ''{}''), x_row_of_json = (\<lambda>_. None), x_json_of_row = (\<lambda>_. Some ''{}'')\<rparr>"

definition toy_xtable :: xtable where
  "toy_xtable = \<lparr>xt_name = ''peers'', xt_cols = map (\<lambda>c. c\<lparr>cd_Type := map upper_char (cd_Type c)\<rparr>) (td_Columns toy_table),
     xt_owned = False, xt_rows = [\<lparr>xr_vals = [(''id'', XText ''p''), (''v'', XInt 1)], xr_mtime = XInt 5, xr_owner = XNull\<rparr>,
       \<lparr>xr_vals = [(''id'', XText ''q''), (''v'', XInt 2)], xr_mtime = XInt 6, xr_owner = XNull\<rparr>]\<rparr>"

definition toy_xrepo :: repo where
  "toy_xrepo = empty_repo\<lparr>t_sync_schema := Some [], t_xtable := [toy_xtable]\<rparr>"

lemma toy_xrepo_typed: "typed_tables toy_xrepo" "find_xtable toy_xrepo ''peers'' = Some toy_xtable"
proof -
  have "typed_table toy_xtable"
    by (simp add: typed_table_def typed_row_def toy_xtable_def toy_table_def table_columns_def xt_key_def xget_def is_int_val_def)
  then show "typed_tables toy_xrepo" "find_xtable toy_xrepo ''peers'' = Some toy_xtable"
    by (simp_all add: typed_tables_def toy_xrepo_def find_xtable_def) (simp add: toy_xtable_def)
qed


theorem UpsertXRow_LookupXRow_witness:
  "\<exists>q'. UpsertXRow toy_tables toy_xrepo ''peers'' [(''v'', XInt 9), (''id'', XText ''p'')] 8 = Ok q' \<and>
     LookupXRow toy_tables q' ''peers'' toy_table ''id=p'' = Ok (Some ([(''id'', XText ''p''), (''v'', XInt 9)], 8))"
proof -
  let ?row = "[(''v'', XInt 9), (''id'', XText ''p'')]"
  have sorted: "sort_key fst ?row = [(''id'', XText ''p''), (''v'', XInt 9)]" by simp
  have new: "xr_vals (new_xrow toy_tables toy_xtable (sort_key fst ?row @ [(''mtime'', XInt 8)])) = [(''id'', XText ''p''), (''v'', XInt 9)]"
    unfolding sorted
    by (simp add: new_xrow_def toy_xtable_def toy_table_def toy_tables_def cell_def bind_value_def lower_char_def byte_val_def)
  have hash: "row_hash toy_tables toy_table [(''id'', XText x), v] = Ok (''id='' @ x)" for x v
    by (simp add: row_hash_def pk_columns_def pk_values_def toy_table_def PKHash_def normalizeValue_def xget_def toy_tables_def)
  obtain q' where up: "UpsertXRow toy_tables toy_xrepo ''peers'' ?row 8 = Ok q'"
    unfolding UpsertXRow_def sorted
    by (simp add: toy_xrepo_typed(2) replace_xrow_def new_xrow_def toy_xtable_def toy_table_def toy_tables_def cell_def bind_value_def
        lower_char_def byte_val_def table_columns_def xt_key_def xget_def rowid_alias_def upper_char_def Let_def)
  have "LookupXRow toy_tables q' ''peers'' toy_table ''id=p'' = Ok (Some ([(''id'', XText ''p''), (''v'', XInt 9)], 8))"
    by (rule UpsertXRow_LookupXRow [OF toy_xrepo_typed _ _ _ up new])
      (simp_all add: plain_row_def lower_char_def byte_val_def toy_tables_def hash [unfolded toy_tables_def],
       simp add: toy_xtable_def toy_table_def hash [unfolded toy_tables_def toy_table_def] xt_key_def xget_def)
  with up show ?thesis by blast
qed

end
