(* ===== verification/Path.thy ===== *)
theory Path
  imports Repo_Tables
begin

text \<open>
  Shortest paths in the version graph (\<open>internal/path/path.go\<close>): a breadth-first search over the
  links between check-ins, in both directions.  The visited set is a list of rows; a failing
  query is not modelled.
\<close>

section \<open>The search\<close>

datatype PathNode = PathNode (pn_RID: rid) (pn_From: "PathNode option") (pn_Depth: nat)

datatype path_error = ErrNoPath

text \<open>\<open>SELECT cid FROM plink WHERE pid=?\<close>, then \<open>SELECT pid FROM plink WHERE cid=?\<close>, with \<open>AND isprim=1\<close> for primary links.\<close>

definition neighbors :: "repo \<Rightarrow> bool \<Rightarrow> rid \<Rightarrow> rid list" where
  "neighbors q directOnly r =
     (let links = filter (\<lambda>l. directOnly \<longrightarrow> pl_isprim l) (t_plink q) in
      map pl_cid (filter (\<lambda>l. pl_pid l = r) links) @ map pl_pid (filter (\<lambda>l. pl_cid l = r) links))"

fun from_chain :: "PathNode \<Rightarrow> rid list" where
  "from_chain (PathNode r None d) = [r]"
| "from_chain (PathNode r (Some n) d) = r # from_chain n"

text \<open>The rows of a path with their depths.\<close>

definition reconstruct :: "PathNode \<Rightarrow> (rid \<times> nat) list" where
  "reconstruct end_node = (let out = rev (from_chain end_node) in zip out [0..<length out])"

text \<open>
  The loop over the neighbours of a node: the node of the target when it is met, or the
  visited rows and the queue.
\<close>

fun expand_node :: "rid \<Rightarrow> PathNode \<Rightarrow> rid list \<Rightarrow> rid list \<Rightarrow> PathNode list \<Rightarrow> PathNode + rid list \<times> PathNode list" where
  "expand_node to cur [] visited queue = Inr (visited, queue)"
| "expand_node to cur (n # ns) visited queue =
     (if n \<in> set visited then expand_node to cur ns visited queue
      else let node = PathNode n (Some cur) (pn_Depth cur + 1) in
        if n = to then Inl node
        else expand_node to cur ns (n # visited) (queue @ [node]))"

text \<open>The rows that the search has not met.\<close>

definition unmet :: "repo \<Rightarrow> rid list \<Rightarrow> nat" where
  "unmet q visited = card ((pl_pid ` set (t_plink q) \<union> pl_cid ` set (t_plink q)) - set visited)"

lemma neighbors_rows: "set (neighbors q d r) \<subseteq> pl_pid ` set (t_plink q) \<union> pl_cid ` set (t_plink q)"
  by (auto simp: neighbors_def)

lemma expand_node_queue:
  assumes "expand_node to cur ns visited queue = Inr (visited', queue')"
  shows "\<exists>ms. distinct ms \<and> set ms = set ns - set visited \<and> set visited' = set ns \<union> set visited \<and>
    queue' = queue @ map (\<lambda>n. PathNode n (Some cur) (pn_Depth cur + 1)) ms \<and> to \<notin> set ms"
  using assms
proof (induction ns arbitrary: visited queue)
  case (Cons n ns)
  show ?case
  proof (cases "n \<in> set visited")
    case True
    with Cons.prems Cons.IH [of visited queue] show ?thesis by (auto simp: insert_Diff_if insert_absorb)
  next
    case False
    with Cons.prems have "n \<noteq> to" by (auto simp: Let_def)
    with False Cons.prems Cons.IH [of "n # visited" "queue @ [PathNode n (Some cur) (pn_Depth cur + 1)]"]
    obtain ms where "distinct ms" "set ms = set ns - set (n # visited)" "set visited' = set ns \<union> set (n # visited)"
        "queue' = (queue @ [PathNode n (Some cur) (pn_Depth cur + 1)]) @ map (\<lambda>n. PathNode n (Some cur) (pn_Depth cur + 1)) ms" "to \<notin> set ms"
      by (auto simp: Let_def)
    with False \<open>n \<noteq> to\<close> show ?thesis by (intro exI [of _ "n # ms"]) auto
  qed
qed simp

lemma expand_node_found:
  "expand_node to cur ns visited queue = Inl node \<Longrightarrow> node = PathNode to (Some cur) (pn_Depth cur + 1) \<and> to \<in> set ns \<and> to \<notin> set visited"
  by (induction ns arbitrary: visited queue) (fastforce simp: Let_def split: if_splits)+

lemma expand_node_unmet:
  assumes "expand_node to cur (neighbors q d r) visited queue = Inr (visited', queue')"
  shows "unmet q visited' + length queue' = unmet q visited + length queue"
proof -
  let ?V = "pl_pid ` set (t_plink q) \<union> pl_cid ` set (t_plink q)"
  obtain ms where ms: "distinct ms" "set ms = set (neighbors q d r) - set visited" "set visited' = set (neighbors q d r) \<union> set visited"
      "length queue' = length queue + length ms"
    using expand_node_queue [OF assms] by auto
  have "set ms \<subseteq> ?V" using ms(2) neighbors_rows by fastforce
  have "?V - set visited = (?V - set visited') \<union> set ms" "(?V - set visited') \<inter> set ms = {}"
    using ms(2,3) \<open>set ms \<subseteq> ?V\<close> by auto
  then have "unmet q visited = unmet q visited' + card (set ms)"
    unfolding unmet_def by (simp add: card_Un_disjoint)
  with ms(1,4) show ?thesis by (simp add: distinct_card)
qed

function search :: "repo \<Rightarrow> bool \<Rightarrow> rid \<Rightarrow> rid list \<Rightarrow> PathNode list \<Rightarrow> PathNode option" where
  "search q directOnly to visited [] = None"
| "search q directOnly to visited (cur # queue) =
     (case expand_node to cur (neighbors q directOnly (pn_RID cur)) visited queue of
        Inl node \<Rightarrow> Some node
      | Inr (visited', queue') \<Rightarrow> search q directOnly to visited' queue')"
  by pat_completeness auto
termination
  by (relation "measure (\<lambda>(q, d, to, visited, queue). unmet q visited + length queue)") (auto dest: expand_node_unmet)

declare search.simps(2) [simp del]

definition Shortest :: "repo \<Rightarrow> rid \<Rightarrow> rid \<Rightarrow> bool \<Rightarrow> rid list \<Rightarrow> (path_error, (rid \<times> nat) list) outcome" where
  "Shortest q from_rid to directOnly skip =
     (if from_rid \<le> 0 then Panic ''path.Shortest: from must be positive''
      else if to \<le> 0 then Panic ''path.Shortest: to must be positive''
      else if from_rid = to then Ok [(from_rid, 0)]
      else case search q directOnly to (from_rid # skip) [PathNode from_rid None 0] of
             Some node \<Rightarrow> Ok (reconstruct node)
           | None \<Rightarrow> Err ErrNoPath)"

section \<open>Paths\<close>

text \<open>A path follows links and does not step on a skipped row; its first row is not looked at.\<close>

fun link_path :: "repo \<Rightarrow> bool \<Rightarrow> rid list \<Rightarrow> rid list \<Rightarrow> bool" where
  "link_path q d skip [] = False"
| "link_path q d skip [u] = True"
| "link_path q d skip (u # v # p) = (v \<in> set (neighbors q d u) \<and> v \<notin> set skip \<and> link_path q d skip (v # p))"

definition path_between :: "repo \<Rightarrow> bool \<Rightarrow> rid list \<Rightarrow> rid \<Rightarrow> rid \<Rightarrow> rid list \<Rightarrow> bool" where
  "path_between q d skip u v p \<longleftrightarrow> link_path q d skip p \<and> hd p = u \<and> last p = v"

lemma link_path_append:
  "link_path q d skip (p @ [u]) \<Longrightarrow> link_path q d skip (u # r) \<Longrightarrow> link_path q d skip (p @ u # r)"
proof (induction p)
  case (Cons x p)
  then show ?case by (cases p) auto
qed simp

lemma link_path_split: "link_path q d skip (p @ u # r) \<Longrightarrow> link_path q d skip (p @ [u]) \<and> link_path q d skip (u # r)"
proof (induction p)
  case (Cons x p)
  then show ?case by (cases p) auto
qed simp

lemma path_snoc:
  "path_between q d skip u v p \<Longrightarrow> w \<in> set (neighbors q d v) \<Longrightarrow> w \<notin> set skip \<Longrightarrow> path_between q d skip u w (p @ [w])"
  using link_path_append [of q d skip "butlast p" v "[w]"]
  by (cases p rule: rev_cases) (auto simp: path_between_def hd_append)

lemma path_unsnoc:
  assumes "path_between q d skip u w p" "length p > 1"
  obtains v p' where "p = p' @ [w]" "path_between q d skip u v p'" "w \<in> set (neighbors q d v)" "w \<notin> set skip"
proof -
  from assms obtain p0 v where p: "p = p0 @ [v, w]"
    by (cases p rule: rev_cases; cases "butlast p" rule: rev_cases) (auto simp: path_between_def)
  have "link_path q d skip (p0 @ v # [w])" using assms(1) p by (simp add: path_between_def)
  with link_path_split [of q d skip p0 v "[w]"] assms(1) p show thesis
    by (intro that [of "p0 @ [v]" v]) (auto simp: path_between_def hd_append)
qed

section \<open>The search finds a shortest path\<close>

text \<open>A node in the queue: its chain is a path, and no path to its row is shorter.\<close>

definition node_ok :: "repo \<Rightarrow> bool \<Rightarrow> rid list \<Rightarrow> rid \<Rightarrow> PathNode \<Rightarrow> bool" where
  "node_ok q d skip s x \<longleftrightarrow>
     path_between q d skip s (pn_RID x) (rev (from_chain x)) \<and> length (from_chain x) = Suc (pn_Depth x) \<and>
     (\<forall>p. path_between q d skip s (pn_RID x) p \<longrightarrow> length p \<ge> Suc (pn_Depth x))"

text \<open>The state of the search at depth \<open>k\<close>.\<close>

definition level :: "repo \<Rightarrow> bool \<Rightarrow> rid list \<Rightarrow> rid \<Rightarrow> rid \<Rightarrow> rid list \<Rightarrow> PathNode list \<Rightarrow> nat \<Rightarrow> bool" where
  "level q d skip s to V Q k \<longleftrightarrow>
     set skip \<subseteq> set V \<and> s \<in> set V \<and> to \<notin> set V \<and>
     (\<forall>x \<in> set Q. node_ok q d skip s x \<and> k \<le> pn_Depth x \<and> pn_Depth x \<le> Suc k) \<and> sorted (map pn_Depth Q) \<and>
     (\<forall>v p. path_between q d skip s v p \<and> length p \<le> Suc k \<longrightarrow> v \<in> set V) \<and>
     (\<forall>u p. path_between q d skip s u p \<and> u \<in> set V \<and> u \<notin> pn_RID ` set Q \<longrightarrow> set (neighbors q d u) \<subseteq> set V)"

lemma level_head:
  assumes "level q d skip s to V (cur # Q) k"
  shows "level q d skip s to V (cur # Q) (pn_Depth cur)"
proof (cases "pn_Depth cur = k")
  case False
  with assms have k: "pn_Depth cur = Suc k" by (auto simp: level_def)
  have ge: "Suc k \<le> pn_Depth x" if "x \<in> set (cur # Q)" for x
    using assms that k by (auto simp: level_def)
  have "v \<in> set V" if p: "path_between q d skip s v p" "length p \<le> Suc (Suc k)" for v p
  proof (cases "length p \<le> Suc k")
    case True
    with assms p(1) show ?thesis by (auto simp: level_def)
  next
    case False
    then have "length p > 1" by simp
    from path_unsnoc [OF p(1) this] obtain u p' where u: "p = p' @ [v]" "path_between q d skip s u p'" "v \<in> set (neighbors q d u)" by metis
    with p(2) have len: "length p' \<le> Suc k" by simp
    with assms u(2) have "u \<in> set V" by (auto simp: level_def)
    moreover have "u \<notin> pn_RID ` set (cur # Q)"
    proof
      assume "u \<in> pn_RID ` set (cur # Q)"
      then obtain x where x: "x \<in> set (cur # Q)" "u = pn_RID x" by auto
      with assms u(2) have "Suc (pn_Depth x) \<le> length p'" by (auto simp: level_def node_ok_def)
      with ge [OF x(1)] len show False by simp
    qed
    ultimately show ?thesis using assms u(2,3) unfolding level_def by blast
  qed
  with assms k ge show ?thesis by (auto simp: level_def)
qed (use assms in simp)

lemma level_new_node:
  assumes "level q d skip s to V (cur # Q) (pn_Depth cur)" "n \<in> set (neighbors q d (pn_RID cur))" "n \<notin> set V"
  shows "node_ok q d skip s (PathNode n (Some cur) (Suc (pn_Depth cur)))"
proof -
  have cur: "path_between q d skip s (pn_RID cur) (rev (from_chain cur))" "length (from_chain cur) = Suc (pn_Depth cur)"
    using assms(1) by (auto simp: level_def node_ok_def)
  have "n \<notin> set skip" using assms(1,3) by (auto simp: level_def)
  with path_snoc [OF cur(1) assms(2)] cur(2) show ?thesis
    using assms(1,3) unfolding node_ok_def level_def by (auto simp: not_less_eq_eq [symmetric])
qed

lemma level_closed:
  assumes "level q d skip s to V [] k" "path_between q d skip s v p"
  shows "v \<in> set V"
  using assms(2)
proof (induction "length p" arbitrary: v p)
  case 0
  then show ?case by (simp add: path_between_def)
next
  case (Suc n)
  show ?case
  proof (cases "length p > 1")
    case True
    from path_unsnoc [OF Suc.prems this] obtain u p' where u: "p = p' @ [v]" "path_between q d skip s u p'" "v \<in> set (neighbors q d u)" by metis
    with Suc have "u \<in> set V" by simp
    with assms(1) u(2,3) show ?thesis unfolding level_def by auto
  next
    case False
    with Suc have "p = [v]" "v = s" by (cases p; auto simp: path_between_def)+
    with assms(1) show ?thesis by (simp add: level_def)
  qed
qed

lemma search_correct:
  assumes "level q d skip s to V Q k"
  shows "case search q d to V Q of
      None \<Rightarrow> \<not> (\<exists>p. path_between q d skip s to p)
    | Some x \<Rightarrow> node_ok q d skip s x \<and> pn_RID x = to"
  using assms
proof (induction q d to V Q arbitrary: k rule: search.induct)
  case (1 q d to V)
  then show ?case using level_closed [OF 1] by (auto simp: level_def)
next
  case (2 q d to V cur Q)
  note lv = level_head [OF 2(2)]
  let ?k = "pn_Depth cur"
  show ?case
  proof (cases "expand_node to cur (neighbors q d (pn_RID cur)) V Q")
    case (Inl x)
    from expand_node_found [OF Inl] level_new_node [OF lv] show ?thesis by (simp add: Inl search.simps(2))
  next
    case (Inr VQ)
    obtain V' Q' where VQ: "VQ = (V', Q')" by fastforce
    with expand_node_queue [of to cur "neighbors q d (pn_RID cur)" V Q V' Q'] Inr obtain ms where
      ms: "set ms = set (neighbors q d (pn_RID cur)) - set V" "set V' = set (neighbors q d (pn_RID cur)) \<union> set V"
        "Q' = Q @ map (\<lambda>n. PathNode n (Some cur) (Suc ?k)) ms" "to \<notin> set ms" by auto
    have new: "node_ok q d skip s (PathNode n (Some cur) (Suc ?k))" if "n \<in> set ms" for n
      using level_new_node [OF lv] that ms(1) by blast
    have "set (neighbors q d u) \<subseteq> set V'" if u: "path_between q d skip s u p" "u \<in> set V'" "u \<notin> pn_RID ` set Q'" for u p
    proof (cases "u = pn_RID cur")
      case False
      from u(3) ms(3) have "u \<notin> set ms" "u \<notin> pn_RID ` set Q" by force+
      with False u(2) ms(1,2) have "u \<in> set V" "u \<notin> pn_RID ` set (cur # Q)" by auto
      with lv u(1) have "set (neighbors q d u) \<subseteq> set V" unfolding level_def by blast
      with ms(2) show ?thesis by blast
    qed (use ms(2) in auto)
    moreover have "sorted (map pn_Depth Q')"
      using lv ms(3) by (auto simp: level_def sorted_append comp_def map_replicate_const)
    ultimately have "level q d skip s to V' Q' ?k"
      using lv ms new unfolding level_def by (auto simp: image_Un)
    from 2(1) [OF Inr VQ [symmetric] this] show ?thesis by (simp add: Inr VQ search.simps(2))
  qed
qed

lemma search_skipped: "to \<in> set V \<Longrightarrow> search q d to V Q = None"
proof (induction q d to V Q rule: search.induct)
  case (2 q d to V cur Q)
  show ?case
  proof (cases "expand_node to cur (neighbors q d (pn_RID cur)) V Q")
    case (Inl x)
    from expand_node_found [OF Inl] 2(2) show ?thesis by (simp add: search.simps(2))
  next
    case (Inr VQ)
    obtain V' Q' where VQ: "VQ = (V', Q')" by fastforce
    with expand_node_queue [of to cur "neighbors q d (pn_RID cur)" V Q V' Q'] Inr 2(2) have "to \<in> set V'" by auto
    from 2(1) [OF Inr VQ [symmetric] this] show ?thesis by (simp add: Inr VQ search.simps(2))
  qed
qed simp

lemma path_not_skipped: "path_between q d skip u v p \<Longrightarrow> v \<in> set skip \<Longrightarrow> v = u"
proof (rule ccontr)
  assume p: "path_between q d skip u v p" "v \<in> set skip" "v \<noteq> u"
  then have "length p > 1" by (cases p; cases "tl p") (auto simp: path_between_def)
  from path_unsnoc [OF p(1) this] p(2) show False by metis
qed

lemma level_start:
  assumes "to \<noteq> s" "to \<notin> set skip"
  shows "level q d skip s to (s # skip) [PathNode s None 0] 0"
proof -
  have single: "path_between q d skip s v p \<Longrightarrow> p \<noteq> []" for v p by (auto simp: path_between_def)
  then have "node_ok q d skip s (PathNode s None 0)"
    by (auto simp: node_ok_def path_between_def Suc_le_eq)
  moreover have "v = s" if "path_between q d skip s v p" "length p \<le> 1" for v p
    using that by (cases p) (auto simp: path_between_def)
  ultimately show ?thesis
    using assms path_not_skipped unfolding level_def by (auto simp del: One_nat_def)
qed

lemma Shortest_path:
  assumes "u > 0" "v > 0"
  shows "case Shortest q u v directOnly skip of
      Ok p \<Rightarrow> path_between q directOnly skip u v (map fst p) \<and> map snd p = [0..<length p] \<and>
              (\<forall>p'. path_between q directOnly skip u v p' \<longrightarrow> length p \<le> length p')
    | Err _ \<Rightarrow> \<not> (\<exists>p. path_between q directOnly skip u v p)
    | Panic _ \<Rightarrow> False"
proof (cases "u = v")
  case True
  have "p \<noteq> []" if "path_between q directOnly skip u v p" for p using that by (auto simp: path_between_def)
  with True assms show ?thesis by (auto simp: Shortest_def path_between_def Suc_le_eq)
next
  case False
  show ?thesis
  proof (cases "v \<in> set skip")
    case True
    with False search_skipped [of v "u # skip"] assms show ?thesis
      by (auto simp: Shortest_def dest: path_not_skipped)
  next
    case ok: False
    with False have "level q directOnly skip u v (u # skip) [PathNode u None 0] 0" by (intro level_start) auto
    from search_correct [OF this] False assms show ?thesis
      by (cases "search q directOnly v (u # skip) [PathNode u None 0]")
        (auto simp: Shortest_def reconstruct_def Let_def node_ok_def)
  qed
qed

text \<open>
  Claim C21.  The path search returns a path between the two rows that avoids the skipped rows, numbered from 0, and no
  such path is shorter; the error means that there is none.
\<close>

theorem Shortest_correct:
  assumes "u > 0" "v > 0"
  shows "case Shortest q u v directOnly skip of
      Ok p \<Rightarrow> path_between q directOnly skip u v (map fst p) \<and> map snd p = [0..<length p] \<and>
              (\<forall>p'. path_between q directOnly skip u v p' \<longrightarrow> length p \<le> length p')
    | Err _ \<Rightarrow> \<not> (\<exists>p. path_between q directOnly skip u v p)
    | Panic _ \<Rightarrow> False"
  using Shortest_path [OF assms] .

text \<open>Two lines of development from 1 to 4, one of them longer.\<close>

definition sample_plinks :: repo where
  "sample_plinks = empty_repo\<lparr>t_plink := map (\<lambda>(p, c). \<lparr>pl_pid = p, pl_cid = c, pl_isprim = True, pl_mtime = 0, pl_baseid = None\<rparr>)
     [(1, 2), (2, 3), (3, 4), (1, 5), (5, 4)]\<rparr>"

lemma sample_shortest:
  "Shortest sample_plinks 1 4 True [] = Ok [(1, 0), (5, 1), (4, 2)]"
  "Shortest sample_plinks 1 4 True [5] = Ok [(1, 0), (2, 1), (3, 2), (4, 3)]"
  by code_simp+

theorem Shortest_correct_witness:
  "path_between sample_plinks True [5] 1 4 [1, 2, 3, 4] \<and>
   \<not> (\<exists>p. path_between sample_plinks True [5] 1 4 p \<and> length p < 4)"
  using Shortest_correct [of 1 4 sample_plinks True "[5]"] by (auto simp: sample_shortest eval_nat_numeral)

end
