(* ===== verification/Bisect.thy ===== *)
theory Bisect
  imports Path Go_Strings
begin

text \<open>
  Binary search through the history of check-ins (\<open>internal/bisect/bisect.go\<close>).  The session lives
  in the \<open>vvar\<close> table of the checkout, a map from names to texts, here an association list; links,
  blobs and events are those of the repository.  The format of a date is an argument, and the
  binary logarithm of a path length is the integer one, to which Go's rounds for all lengths
  below \<open>2\<^sup>4\<^sup>8\<close>.
\<close>

section \<open>The session\<close>

type_synonym vvar = "(bytes \<times> bytes) list"

datatype bisect_error = NoEndpoints | BadGood | BadBad | BisectPath path_error | ErrBisectComplete rid

record StatusInfo =
  si_Good :: rid
  si_Bad :: rid
  si_Log :: bytes
  si_Steps :: nat

record ListEntry =
  le_RID :: rid
  le_UUID :: bytes
  le_Date :: bytes
  le_Label :: bytes

definition loadVvar :: "vvar \<Rightarrow> bytes \<Rightarrow> bytes" where
  "loadVvar vv name = (case map_of vv name of None \<Rightarrow> [] | Some v \<Rightarrow> v)"

text \<open>\<open>REPLACE INTO vvar\<close>\<close>

definition replace_vvar :: "bytes \<Rightarrow> bytes \<Rightarrow> vvar \<Rightarrow> vvar" where
  "replace_vvar name v vv = (name, v) # filter (\<lambda>(n, _). n \<noteq> name) vv"

definition appendLogEntry :: "vvar \<Rightarrow> bytes \<Rightarrow> vvar" where
  "appendLogEntry vv entry =
     (let cur = loadVvar vv ''bisect-log'' in
      replace_vvar ''bisect-log'' ((if cur \<noteq> [] then cur @ [SPC] else cur) @ entry) vv)"

definition appendLog :: "vvar \<Rightarrow> rid \<Rightarrow> vvar" where
  "appendLog vv r = appendLogEntry vv (show_int r)"

definition MarkGood :: "vvar \<Rightarrow> rid \<Rightarrow> (bisect_error, vvar) outcome" where
  "MarkGood vv r =
     (if r \<le> 0 then Panic ''bisect.MarkGood: rid must be positive''
      else Ok (appendLog (replace_vvar ''bisect-good'' (show_int r) vv) r))"

definition MarkBad :: "vvar \<Rightarrow> rid \<Rightarrow> (bisect_error, vvar) outcome" where
  "MarkBad vv r =
     (if r \<le> 0 then Panic ''bisect.MarkBad: rid must be positive''
      else Ok (appendLog (replace_vvar ''bisect-bad'' (show_int r) vv) (- r)))"

definition Skip :: "vvar \<Rightarrow> rid \<Rightarrow> (bisect_error, vvar) outcome" where
  "Skip vv r =
     (if r \<le> 0 then Panic ''bisect.Skip: rid must be positive'' else Ok (appendLogEntry vv (''s'' @ show_int r)))"

definition Reset :: "vvar \<Rightarrow> vvar" where
  "Reset vv = filter (\<lambda>(n, _). n \<notin> {''bisect-good'', ''bisect-bad'', ''bisect-log''}) vv"

section \<open>The search\<close>

definition loadEndpoints :: "vvar \<Rightarrow> (bisect_error, rid \<times> rid) outcome" where
  "loadEndpoints vv =
     (let g = loadVvar vv ''bisect-good''; b = loadVvar vv ''bisect-bad'' in
      if g = [] \<or> b = [] then Err NoEndpoints
      else case Atoi g of
             None \<Rightarrow> Err BadGood
           | Some good \<Rightarrow> (case Atoi b of None \<Rightarrow> Err BadBad | Some bad \<Rightarrow> Ok (good, bad)))"

text \<open>The tokens of the log that are an \<open>s\<close> followed by a number; the empty set is Go's nil map.\<close>

definition parseSkipSet :: "vvar \<Rightarrow> rid list" where
  "parseSkipSet vv =
     List.map_filter (\<lambda>tok. if HasPrefix tok ''s'' then Atoi (drop 1 tok) else None) (Fields (loadVvar vv ''bisect-log''))"

text \<open>
  The search outward from the middle: at distance \<open>d\<close> the index after the middle first, then the one
  before, for the distances below the length.
\<close>

definition open_index :: "rid list \<Rightarrow> rid list \<Rightarrow> int \<Rightarrow> bool" where
  "open_index p skip i \<longleftrightarrow> 0 < i \<and> i < int (length p) - 1 \<and> p ! nat i \<notin> set skip"

definition nearest_open :: "rid list \<Rightarrow> rid list \<Rightarrow> nat option" where
  "nearest_open p skip =
     map_option nat (find (open_index p skip)
       (concat (map (\<lambda>d. [int (length p div 2) + int d, int (length p div 2) - int d]) [0..<length p])))"

definition Next :: "repo \<Rightarrow> vvar \<Rightarrow> (bisect_error, rid) outcome" where
  "Next q vv =
     bind_ok (loadEndpoints vv) (\<lambda>(good, bad).
       let skip = parseSkipSet vv in
       bind_ok (wrap_err BisectPath (Shortest q good bad True [])) (\<lambda>path.
         let p = map fst path in
         if length p \<le> 2 then Err (ErrBisectComplete bad)
         else if skip = [] then Ok (p ! (length p div 2))
         else case nearest_open p skip of
                None \<Rightarrow> Err (ErrBisectComplete bad)
              | Some i \<Rightarrow> Ok (p ! i)))"

fun floor_log2 :: "nat \<Rightarrow> nat" where
  "floor_log2 n = (if n < 2 then 0 else 1 + floor_log2 (n div 2))"

definition Status_bisect :: "repo \<Rightarrow> vvar \<Rightarrow> (bisect_error, StatusInfo) outcome" where
  "Status_bisect q vv =
     (let (good, bad) = (case loadEndpoints vv of Ok e \<Rightarrow> e | _ \<Rightarrow> (0, 0));
          info = (\<lambda>n. \<lparr>si_Good = good, si_Bad = bad, si_Log = loadVvar vv ''bisect-log'', si_Steps = n\<rparr>)
      in if good \<noteq> 0 \<and> bad \<noteq> 0
         then (case Shortest q good bad True (parseSkipSet vv) of
                 Ok p \<Rightarrow> Ok (info (if length p > 2 then floor_log2 (length p) else 0))
               | Err e \<Rightarrow> Ok (info 0)
               | Panic s \<Rightarrow> Panic s)
         else Ok (info 0))"

text \<open>The name and the date of a row; a date of 0 is none.\<close>

definition row_info :: "(int \<Rightarrow> bytes) \<Rightarrow> repo \<Rightarrow> rid \<Rightarrow> bytes \<times> bytes" where
  "row_info show_date q r =
     (case blob_by_rid q r of
        None \<Rightarrow> (''?'', [])
      | Some b \<Rightarrow>
          (bl_uuid b, case find (\<lambda>e. ev_objid e = r) (t_event q) of
                        None \<Rightarrow> [] | Some e \<Rightarrow> if ev_mtime e = 0 then [] else show_date (ev_mtime e)))"

definition label_of :: "rid \<Rightarrow> rid \<Rightarrow> rid \<Rightarrow> rid \<Rightarrow> rid list \<Rightarrow> rid \<Rightarrow> bytes" where
  "label_of good bad current nextRID skip r =
     (if r = good then ''GOOD'' else if r = bad then ''BAD'' else if r = current then ''CURRENT''
      else if r = nextRID then ''NEXT'' else if r \<in> set skip then ''SKIP'' else [])"

definition List_bisect :: "(int \<Rightarrow> bytes) \<Rightarrow> repo \<Rightarrow> vvar \<Rightarrow> rid \<Rightarrow> (bisect_error, ListEntry list) outcome" where
  "List_bisect show_date q vv current =
     bind_ok (loadEndpoints vv) (\<lambda>(good, bad).
       let skip = parseSkipSet vv in
       bind_ok (wrap_err BisectPath (Shortest q good bad True [])) (\<lambda>path.
         let nextRID = (case Shortest q good bad True skip of
                           Ok p \<Rightarrow> if length p > 2 then fst (p ! (length p div 2)) else 0
                         | _ \<Rightarrow> 0)
         in Ok (map (\<lambda>(r, _). \<lparr>le_RID = r, le_UUID = fst (row_info show_date q r), le_Date = snd (row_info show_date q r),
                              le_Label = label_of good bad current nextRID skip r\<rparr>) path)))"

section \<open>The session log\<close>

text \<open>A log made of the given tokens.\<close>

definition log_of :: "vvar \<Rightarrow> bytes list \<Rightarrow> bool" where
  "log_of vv ts \<longleftrightarrow> loadVvar vv ''bisect-log'' = Join ts [SPC] \<and> list_all is_token ts"

lemma loadVvar_replace: "loadVvar (replace_vvar n v vv) m = (if m = n then v else loadVvar vv m)"
proof -
  have "map_of (filter (\<lambda>(a, _). a \<noteq> n) vv) m = map_of vv m" if "m \<noteq> n"
    using that by (induction vv) auto
  then show ?thesis by (simp add: replace_vvar_def loadVvar_def)
qed

lemma Join_snoc: "list_all is_token ts \<Longrightarrow> Join (ts @ [t]) [SPC] = (if ts = [] then t else Join ts [SPC] @ [SPC] @ t)"
proof (induction ts)
  case (Cons u us)
  then show ?case by (cases us) auto
qed simp

lemma Join_token_Nil: "list_all is_token ts \<Longrightarrow> Join ts [SPC] = [] \<longleftrightarrow> ts = []"
  by (cases ts rule: list.exhaust; cases "tl ts") (auto simp: is_token_def)

lemma loadVvar_appendLogEntry: "m \<noteq> ''bisect-log'' \<Longrightarrow> loadVvar (appendLogEntry vv e) m = loadVvar vv m"
  by (simp add: appendLogEntry_def Let_def loadVvar_replace)

lemma log_of_append: "log_of vv ts \<Longrightarrow> is_token e \<Longrightarrow> log_of (appendLogEntry vv e) (ts @ [e])"
  by (auto simp: log_of_def appendLogEntry_def Let_def loadVvar_replace Join_snoc Join_token_Nil)

lemma log_of_replace: "log_of vv ts \<Longrightarrow> n \<noteq> ''bisect-log'' \<Longrightarrow> log_of (replace_vvar n v vv) ts"
  by (simp add: log_of_def loadVvar_replace)

lemma parseSkipSet_log:
  "log_of vv ts \<Longrightarrow> parseSkipSet vv = List.map_filter (\<lambda>tok. if HasPrefix tok ''s'' then Atoi (drop 1 tok) else None) ts"
  by (simp add: log_of_def parseSkipSet_def Fields_Join)

text \<open>A session between two marked rows in which nothing is skipped.\<close>

definition marked :: "vvar \<Rightarrow> rid \<Rightarrow> rid \<Rightarrow> bool" where
  "marked vv g b \<longleftrightarrow> loadVvar vv ''bisect-good'' = show_int g \<and> loadVvar vv ''bisect-bad'' = show_int b \<and>
     (\<exists>ts. log_of vv ts \<and> (\<forall>t \<in> set ts. \<not> HasPrefix t ''s''))"

lemma show_int_not_skip: "\<not> HasPrefix (show_int i) ''s''"
proof
  assume "HasPrefix (show_int i) ''s''"
  then obtain r where s: "show_int i = CHR ''s'' # r" by (cases "show_int i") (auto simp: HasPrefix_def)
  then have "i \<ge> 0" by (auto simp: show_int_def split: if_splits)
  then have "show_nat (nat i) = CHR ''s'' # r" using s by (simp add: show_int_def)
  then show False using parse_show_fold [of "nat i"] by (simp add: dec_digit_def byte_val_def)
qed

text \<open>A row number of the database.\<close>

definition row_number :: "rid \<Rightarrow> bool" where
  "row_number r \<longleftrightarrow> 0 < r \<and> is_int64 r"

lemma marked_start:
  assumes "MarkGood (Reset vv) g = Ok vv1" "MarkBad vv1 b = Ok vv2"
  shows "marked vv2 g b"
proof -
  let ?v1 = "appendLog (replace_vvar ''bisect-good'' (show_int g) (Reset vv)) g"
  have "loadVvar (Reset vv) ''bisect-log'' = []"
    by (auto simp: loadVvar_def Reset_def map_of_eq_None_iff split: option.splits dest: map_of_SomeD)
  then have "log_of (Reset vv) []" by (simp add: log_of_def)
  then have l1: "log_of ?v1 [show_int g]"
    using log_of_append [OF log_of_replace [of _ "[]"] show_int_token] by (simp add: appendLog_def)
  have v: "vv1 = ?v1" "vv2 = appendLog (replace_vvar ''bisect-bad'' (show_int b) vv1) (- b)"
    using assms by (auto simp: MarkGood_def MarkBad_def split: if_splits)
  then have "log_of vv2 [show_int g, show_int (- b)]"
    using log_of_append [OF log_of_replace [OF l1] show_int_token] by (simp add: appendLog_def)
  then show ?thesis
    using v show_int_not_skip
    by (fastforce simp: marked_def appendLog_def loadVvar_appendLogEntry loadVvar_replace)
qed

lemma marked_append:
  assumes "marked vv g b" "n \<noteq> ''bisect-log''"
  shows "\<exists>ts. log_of (appendLog (replace_vvar n v vv) i) ts \<and> (\<forall>t \<in> set ts. \<not> HasPrefix t ''s'')"
proof -
  from assms(1) obtain ts where ts: "log_of vv ts" "\<forall>t \<in> set ts. \<not> HasPrefix t ''s''" by (auto simp: marked_def)
  from log_of_append [OF log_of_replace [OF ts(1) assms(2)] show_int_token] ts(2) show_int_not_skip show ?thesis
    by (intro exI [of _ "ts @ [show_int i]"]) (auto simp: appendLog_def)
qed

lemma marked_MarkGood:
  assumes "marked vv g b" "0 < r"
  obtains vv' where "MarkGood vv r = Ok vv'" "marked vv' r b"
  using assms marked_append [OF assms(1), of "''bisect-good''" "show_int r" r]
  by (simp add: MarkGood_def marked_def appendLog_def loadVvar_appendLogEntry loadVvar_replace)

lemma marked_MarkBad:
  assumes "marked vv g b" "0 < r"
  obtains vv' where "MarkBad vv r = Ok vv'" "marked vv' g r"
  using assms marked_append [OF assms(1), of "''bisect-bad''" "show_int r" "- r"]
  by (simp add: MarkBad_def marked_def appendLog_def loadVvar_appendLogEntry loadVvar_replace)

lemma Next_marked:
  assumes "marked vv g b" "row_number g" "row_number b" "path_between q True [] g b p0"
  obtains p where "path_between q True [] g b p" "length p \<le> length p0"
    "Next q vv = (if length p \<le> 2 then Err (ErrBisectComplete b) else Ok (p ! (length p div 2)))"
proof -
  have ends: "loadEndpoints vv = Ok (g, b)"
    using assms(1-3) show_int_token by (auto simp: loadEndpoints_def marked_def is_token_def Atoi_show_int row_number_def)
  from assms(1) obtain ts where "log_of vv ts" "\<forall>t \<in> set ts. \<not> HasPrefix t ''s''" by (auto simp: marked_def)
  then have skip: "parseSkipSet vv = []" by (auto simp: parseSkipSet_log map_filter_def filter_empty_conv)
  have "g > 0" "b > 0" using assms(2,3) by (auto simp: row_number_def)
  with Shortest_path [of g b q True "[]"] assms(4) obtain path where
    path: "Shortest q g b True [] = Ok path" "path_between q True [] g b (map fst path)"
      "\<forall>p'. path_between q True [] g b p' \<longrightarrow> length path \<le> length p'"
    by (auto split: outcome.splits)
  show thesis
    by (rule that [of "map fst path"]) (use path assms(4) in \<open>auto simp: Next_def ends skip Let_def\<close>)
qed

section \<open>A bisection converges\<close>

text \<open>The user's part: test the row that \<open>Next\<close> names and mark it, at most \<open>n\<close> times.\<close>

fun bisect_run :: "nat \<Rightarrow> (rid \<Rightarrow> bool) \<Rightarrow> repo \<Rightarrow> vvar \<Rightarrow> (bisect_error, rid) outcome" where
  "bisect_run 0 test q vv = Next q vv"
| "bisect_run (Suc n) test q vv =
     bind_ok (Next q vv) (\<lambda>r. bind_ok (if test r then MarkGood vv r else MarkBad vv r) (bisect_run n test q))"

lemma path_halves:
  assumes "path_between q d skip u v p" "i < length p"
  shows "path_between q d skip u (p ! i) (take (Suc i) p)" "path_between q d skip (p ! i) v (drop i p)"
proof -
  have p: "p = take i p @ p ! i # drop (Suc i) p" using assms(2) by (rule id_take_nth_drop)
  have "link_path q d skip (take i p @ [p ! i]) \<and> link_path q d skip (p ! i # drop (Suc i) p)"
    using assms(1) p link_path_split [of q d skip "take i p" "p ! i" "drop (Suc i) p"] by (simp add: path_between_def)
  then have "link_path q d skip (take (Suc i) p)" "link_path q d skip (drop i p)"
    using assms(2) by (simp_all add: take_Suc_conv_app_nth Cons_nth_drop_Suc)
  with assms show "path_between q d skip u (p ! i) (take (Suc i) p)" "path_between q d skip (p ! i) v (drop i p)"
    by (auto simp: path_between_def hd_drop_conv_nth take_Suc_conv_app_nth hd_append hd_take hd_conv_nth split: if_splits)
qed

lemma path_rows:
  assumes "link_path q d skip p" "i < length p"
  shows "i = 0 \<or> p ! i \<in> pl_pid ` set (t_plink q) \<union> pl_cid ` set (t_plink q)"
  using assms
proof (induction q d skip p arbitrary: i rule: link_path.induct)
  case (3 q d skip u v p)
  show ?case
  proof (cases i)
    case (Suc j)
    with 3(2,3) 3(1) [of j] neighbors_rows [of q d u] show ?thesis by (cases j) auto
  qed simp
qed auto

lemma bisect_run_finds:
  assumes "\<forall>l \<in> set (t_plink q). row_number (pl_pid l) \<and> row_number (pl_cid l)"
    and "marked vv g b" "row_number g" "row_number b" "test g" "\<not> test b"
    and "path_between q True [] g b p" "length p \<le> 2 ^ n + 1"
  shows "\<exists>c h. bisect_run n test q vv = Err (ErrBisectComplete c) \<and> \<not> test c \<and> test h \<and> c \<in> set (neighbors q True h)"
  using assms(2-)
proof (induction n arbitrary: vv g b p)
  have adjacent: "b \<in> set (neighbors q True g)" if "path_between q True [] g b p" "length p \<le> 2" "test g" "\<not> test b" for g b p
    using that by (cases p; cases "tl p"; cases "tl (tl p)") (auto simp: path_between_def)
  {
    case 0
    obtain p1 where "path_between q True [] g b p1" "length p1 \<le> length p"
      "Next q vv = (if length p1 \<le> 2 then Err (ErrBisectComplete b) else Ok (p1 ! (length p1 div 2)))"
      using Next_marked [OF 0(1-3,6)] by metis
    with 0 adjacent show ?case by auto
  next
    case (Suc n)
    obtain p1 where p1: "path_between q True [] g b p1" "length p1 \<le> length p"
      "Next q vv = (if length p1 \<le> 2 then Err (ErrBisectComplete b) else Ok (p1 ! (length p1 div 2)))"
      using Next_marked [OF Suc.prems(1-3,6)] by metis
    show ?case
    proof (cases "length p1 \<le> 2")
      case True
      with p1 Suc.prems adjacent show ?thesis by auto
    next
      case False
      let ?i = "length p1 div 2" and ?r = "p1 ! (length p1 div 2)"
      have i: "?i < length p1" "0 < ?i" using False by auto
      have r: "row_number ?r"
        using path_rows [of q True "[]" p1 ?i] p1(1) i assms(1) by (auto simp: path_between_def)
      then have pos: "0 < ?r" by (simp add: row_number_def)
      note halves = path_halves [OF p1(1) i(1)]
      have short: "length (take (Suc ?i) p1) \<le> 2 ^ n + 1" "length (drop ?i p1) \<le> 2 ^ n + 1"
        using p1(2) Suc.prems(7) by auto
      show ?thesis
      proof (cases "test ?r")
        case True
        obtain vv' where "MarkGood vv ?r = Ok vv'" "marked vv' ?r b" by (rule marked_MarkGood [OF Suc.prems(1) pos])
        with Suc.IH [OF _ r Suc.prems(3) True Suc.prems(5) halves(2) short(2)] False p1(3) True show ?thesis by simp
      next
        case bad: False
        obtain vv' where "MarkBad vv ?r = Ok vv'" "marked vv' g ?r" by (rule marked_MarkBad [OF Suc.prems(1) pos])
        with Suc.IH [OF _ Suc.prems(2) r Suc.prems(4) bad halves(1) short(1)] False p1(3) bad show ?thesis by simp
      qed
    qed
  }
qed

text \<open>
  Claim C20.  A bisection between a good and a bad row that are linked by a path of at most \<open>2\<^sup>n\<close> links ends after at
  most \<open>n\<close> tests, and the row it reports is bad and linked to a good one.
\<close>

theorem bisection_converges:
  assumes "MarkGood (Reset vv) good = Ok vv1" "MarkBad vv1 bad = Ok vv2" "test good" "\<not> test bad"
    and "is_int64 good" "is_int64 bad" "\<forall>l \<in> set (t_plink q). row_number (pl_pid l) \<and> row_number (pl_cid l)"
    and "path_between q True [] good bad p" "length p \<le> 2 ^ n + 1"
  shows "\<exists>c h. bisect_run n test q vv2 = Err (ErrBisectComplete c) \<and> \<not> test c \<and> test h \<and> c \<in> set (neighbors q True h)"
proof (rule bisect_run_finds [OF assms(7) _ _ _ assms(3,4,8,9)])
  show "marked vv2 good bad" by (rule marked_start [OF assms(1,2)])
  show "row_number good" "row_number bad"
    using assms(1,2,5,6) by (auto simp: row_number_def MarkGood_def MarkBad_def split: if_splits)
qed

text \<open>Four rows in a line, the third broke it; two tests are enough.\<close>

theorem bisection_converges_witness:
  "let q = sample_plinks\<lparr>t_plink := take 3 (t_plink sample_plinks)\<rparr>;
       vv = (case MarkGood (Reset [(''bisect-bad'', ''1'')]) 1 of Ok v1 \<Rightarrow> (case MarkBad v1 4 of Ok v2 \<Rightarrow> v2 | _ \<Rightarrow> []) | _ \<Rightarrow> []) in
   bisect_run 2 (\<lambda>r. r < 3) q vv = Err (ErrBisectComplete 3)"
proof -
  let ?q = "sample_plinks\<lparr>t_plink := take 3 (t_plink sample_plinks)\<rparr>"
  obtain vv1 where vv1: "MarkGood (Reset [(''bisect-bad'', ''1'')]) 1 = Ok vv1" by (simp add: MarkGood_def)
  obtain vv2 where vv2: "MarkBad vv1 4 = Ok vv2" by (simp add: MarkBad_def)
  have p: "path_between ?q True [] 1 4 [1, 2, 3, 4]" by code_simp
  obtain c h where c: "bisect_run 2 (\<lambda>r. r < 3) ?q vv2 = Err (ErrBisectComplete c)" "\<not> c < 3" "h < 3" "c \<in> set (neighbors ?q True h)"
    using bisection_converges [OF vv1 vv2, where test = "\<lambda>r. r < 3" and q = ?q, OF _ _ _ _ _ p, of 2]
    by (auto simp: sample_plinks_def row_number_def is_int64_def int64_min_def int64_max_def)
  then have "c = 3" by (auto simp: neighbors_def sample_plinks_def split: if_splits)
  with c(1) vv1 vv2 show ?thesis by simp
qed

end
