(* ===== verification/Shun.thy ===== *)
theory Shun
  imports Content_Store
begin

text \<open>
  Shunned artifacts (\<open>internal/shun\<close>): the list of banned hashes (\<open>shun.go\<close>) and the purge of
  their rows (\<open>purge.go\<close>).  The clock of \<open>strftime\<close> is an argument; rows with the same time are
  listed in the order of the table.  A purge that fails is rolled back; the counters that Go
  returns beside its error are left out.
\<close>

section \<open>The list\<close>

datatype shun_error = ShunInvalid bytes | ShunExpand rid content_error

definition Add :: "repo \<Rightarrow> int \<Rightarrow> bytes \<Rightarrow> bytes \<Rightarrow> (shun_error, repo) outcome" where
  "Add q now uuid comment =
     (if uuid = [] \<or> IsValidHash uuid \<noteq> Ok True then Err (ShunInvalid uuid)
      else Ok (q\<lparr>t_shun := filter (\<lambda>e. sh_uuid e \<noteq> uuid) (t_shun q) @ [\<lparr>sh_uuid = uuid, sh_mtime = now, sh_scom = comment\<rparr>]\<rparr>))"

definition Remove :: "repo \<Rightarrow> bytes \<Rightarrow> repo" where
  "Remove q uuid = q\<lparr>t_shun := filter (\<lambda>e. sh_uuid e \<noteq> uuid) (t_shun q)\<rparr>"

definition IsShunned :: "repo \<Rightarrow> bytes \<Rightarrow> bool" where
  "IsShunned q uuid \<longleftrightarrow> uuid \<in> sh_uuid ` set (t_shun q)"

definition List_shun :: "repo \<Rightarrow> shun_row list" where
  "List_shun q = sort_key (\<lambda>e. - sh_mtime e) (t_shun q)"

section \<open>The purge\<close>

record PurgeResult =
  pr_BlobsDeleted :: nat
  pr_DeltasExpanded :: nat
  pr_PrivateCleaned :: nat

text \<open>The rows to delete, and those stored as a delta against one of them.\<close>

definition toshun :: "repo \<Rightarrow> rid list" where
  "toshun q = map bl_rid (filter (\<lambda>b. bl_uuid b \<in> sh_uuid ` set (t_shun q)) (t_blob q))"

definition dependents :: "repo \<Rightarrow> rid list" where
  "dependents q = map fst (filter (\<lambda>(_, s). s \<in> set (toshun q)) (t_delta q))"

text \<open>\<open>UPDATE blob SET content=?, size=? WHERE rid=?\<close> and \<open>DELETE FROM delta WHERE rid=?\<close>\<close>

definition full_row :: "(bytes \<Rightarrow> bytes) \<Rightarrow> bytes \<Rightarrow> blob_row \<Rightarrow> blob_row" where
  "full_row deflate c b = b\<lparr>bl_content := Some (Compress deflate c), bl_size := int (length c)\<rparr>"

definition store_full :: "(bytes \<Rightarrow> bytes) \<Rightarrow> repo \<Rightarrow> rid \<Rightarrow> bytes \<Rightarrow> repo" where
  "store_full deflate q r c =
     q\<lparr>t_blob := map (\<lambda>b. if bl_rid b = r then full_row deflate c b else b) (t_blob q),
       t_delta := filter (\<lambda>(x, _). x \<noteq> r) (t_delta q)\<rparr>"

fun undelta :: "(bytes \<Rightarrow> bytes) \<Rightarrow> (bytes \<Rightarrow> bytes option) \<Rightarrow> repo \<Rightarrow> rid list \<Rightarrow> (shun_error, repo) outcome" where
  "undelta deflate inflate q [] = Ok q"
| "undelta deflate inflate q (r # rs) =
     bind_ok (wrap_err (ShunExpand r) (Expand inflate (\<lambda>_. False) False q r)) (\<lambda>c.
       undelta deflate inflate (store_full deflate q r c) rs)"

definition delete_rows :: "repo \<Rightarrow> rid list \<Rightarrow> repo" where
  "delete_rows q rs = q\<lparr>t_delta := filter (\<lambda>(r, _). r \<notin> set rs) (t_delta q), t_blob := filter (\<lambda>b. bl_rid b \<notin> set rs) (t_blob q)\<rparr>"

definition orphan_private :: "repo \<Rightarrow> rid list" where
  "orphan_private q = filter (\<lambda>r. r \<notin> bl_rid ` set (t_blob q)) (t_private q)"

definition Purge :: "(bytes \<Rightarrow> bytes) \<Rightarrow> (bytes \<Rightarrow> bytes option) \<Rightarrow> repo \<Rightarrow> repo \<times> (shun_error, PurgeResult) outcome" where
  "Purge deflate inflate q =
     with_tx q (case undelta deflate inflate q (dependents q) of
         Err e \<Rightarrow> (q, Err e)
       | Panic s \<Rightarrow> (q, Panic s)
       | Ok q1 \<Rightarrow>
           let q2 = delete_rows q1 (toshun q);
               gone = orphan_private q2
           in (q2\<lparr>t_private := filter (\<lambda>r. r \<notin> set gone) (t_private q2)\<rparr>,
               Ok \<lparr>pr_BlobsDeleted = length (filter (\<lambda>b. bl_rid b \<in> set (toshun q)) (t_blob q1)),
                   pr_DeltasExpanded = length (dependents q), pr_PrivateCleaned = length gone\<rparr>))"

section \<open>What the purge keeps\<close>

lemma full_row_simps [simp]: "bl_rid (full_row deflate c b) = bl_rid b" "bl_uuid (full_row deflate c b) = bl_uuid b"
  "bl_content (full_row deflate c b) = Some (Compress deflate c)" "bl_size (full_row deflate c b) = int (length c)"
  by (simp_all add: full_row_def)

lemma store_full_simps [simp]:
  "map bl_rid (t_blob (store_full deflate q r c)) = map bl_rid (t_blob q)"
  "map bl_uuid (t_blob (store_full deflate q r c)) = map bl_uuid (t_blob q)"
  "t_shun (store_full deflate q r c) = t_shun q" "t_private (store_full deflate q r c) = t_private q"
  by (auto simp: store_full_def)

lemma map_of_without: "map_of (filter (\<lambda>(y, _). y \<noteq> r) d) x = (if x = r then None else map_of d x)"
  by (induction d) auto

lemma store_full_src [simp]: "delta_src (store_full deflate q r c) x = (if x = r then None else delta_src q x)"
  by (simp add: delta_src_def store_full_def map_of_without)

lemma find_full_row:
  "find (\<lambda>b. bl_rid b = x) (map (\<lambda>b. if bl_rid b = r then full_row deflate c b else b) bs) =
     (if x = r then map_option (full_row deflate c) (find (\<lambda>b. bl_rid b = x) bs) else find (\<lambda>b. bl_rid b = x) bs)"
  by (induction bs) auto

lemma store_full_blob:
  "blob_by_rid (store_full deflate q r c) x =
     (if x = r then map_option (full_row deflate c) (blob_by_rid q x) else blob_by_rid q x)"
  by (simp add: blob_by_rid_def store_full_def find_full_row)

text \<open>Well-formedness in terms of the two key columns.\<close>

lemma wf_repo_columns:
  "wf_repo q \<longleftrightarrow> distinct (map bl_rid (t_blob q)) \<and> distinct (map bl_uuid (t_blob q)) \<and>
     (\<forall>r \<in> set (map bl_rid (t_blob q)). r > 0) \<and> (\<forall>u \<in> set (map bl_uuid (t_blob q)). length u \<ge> 40) \<and>
     distinct (map fst (t_delta q)) \<and> fst ` set (t_delta q) \<subseteq> set (map bl_rid (t_blob q))"
  by (auto simp: wf_repo_def list_all_iff)

lemma store_full_wf: "wf_repo q \<Longrightarrow> wf_repo (store_full deflate q r c)"
  unfolding wf_repo_columns store_full_simps by (auto simp: store_full_def distinct_map_filter)

lemma expands_positive: "expands inflate q r c \<Longrightarrow> r > 0"
  by (induction rule: expands.induct) (auto simp: Load_def split: if_splits)

lemma expands_stored: "expands inflate q r c \<Longrightarrow> blob_by_rid q r \<noteq> None"
  by (induction rule: expands.induct) (auto simp: Load_def split: option.splits if_splits)

text \<open>Storing the content of a row in full changes the content of no row.\<close>

lemma store_full_expands:
  assumes "zlib_writer deflate inflate" "expands inflate q r c" "length c < 2 ^ 32"
  shows "expands inflate (store_full deflate q r c) x d \<longleftrightarrow> expands inflate q x d"
proof -
  let ?q = "store_full deflate q r c"
  obtain b where "blob_by_rid q r = Some b" using expands_stored [OF assms(2)] by blast
  then have load: "Load inflate False ?q r = Ok c"
    using assms(3) expands_positive [OF assms(2)]
    by (intro Load_compressed [OF assms(1)]) (auto simp: store_full_blob)
  then have new: "expands inflate ?q r c" by (intro expands_root) simp_all
  have same: "Load inflate False ?q y = Load inflate False q y" if "y \<noteq> r" for y
    using that by (intro Load_cong) (simp add: store_full_blob)
  have old: "expands inflate q x d \<Longrightarrow> expands inflate ?q x d"
  proof (induction rule: expands.induct)
    case (expands_root x d)
    then show ?case
      using new same expands_fun [OF expands.expands_root assms(2)] by (cases "x = r") (auto intro: expands.expands_root)
  next
    case (expands_delta x s c0 dl d)
    then show ?case
      using new same expands_fun [OF expands.expands_delta assms(2)] by (cases "x = r") (auto intro: expands.expands_delta)
  qed
  have "expands inflate ?q x d \<Longrightarrow> expands inflate q x d"
  proof (induction rule: expands.induct)
    case (expands_root x d)
    then show ?case using load same assms(2) by (cases "x = r") (auto intro: expands.expands_root)
  next
    case (expands_delta x s c0 dl d)
    then show ?case using same by (cases "x = r") (auto intro: expands.expands_delta)
  qed
  with old show ?thesis by blast
qed

lemma undelta_Ok:
  assumes "zlib_writer deflate inflate" "\<forall>r c. expands inflate q r c \<longrightarrow> length c < 2 ^ 32" "wf_repo q"
    and "undelta deflate inflate q rs = Ok q1" "\<forall>r \<in> set rs. r > 0"
  shows "wf_repo q1 \<and> map bl_rid (t_blob q1) = map bl_rid (t_blob q) \<and> map bl_uuid (t_blob q1) = map bl_uuid (t_blob q) \<and>
    (\<forall>x. delta_src q1 x = (if x \<in> set rs then None else delta_src q x)) \<and>
    (\<forall>x c. expands inflate q1 x c \<longleftrightarrow> expands inflate q x c) \<and> t_private q1 = t_private q \<and> t_shun q1 = t_shun q"
  using assms(2-)
proof (induction rs arbitrary: q)
  case (Cons r rs)
  obtain c where c: "expands inflate q r c" "undelta deflate inflate (store_full deflate q r c) rs = Ok q1"
    using Cons.prems(3,4) by (auto simp: bind_ok_eq_Ok wrap_err_def Expand_eq_expands split: outcome.splits)
  note ex = store_full_expands [OF assms(1) c(1) Cons.prems(1) [rule_format, OF c(1)]]
  show ?case
    using Cons.IH [OF _ store_full_wf [OF Cons.prems(2)] c(2)] Cons.prems(1,4) by (simp add: ex)
qed simp

section \<open>A purge\<close>

lemma delete_src: "y \<notin> set rs \<Longrightarrow> delta_src (delete_rows q rs) y = delta_src q y"
proof -
  assume "y \<notin> set rs"
  then have "map_of (filter (\<lambda>(r, _). r \<notin> set rs) d) y = map_of d y" for d :: "(rid \<times> rid) list"
    by (induction d) auto
  then show ?thesis by (simp add: delta_src_def delete_rows_def)
qed

lemma delete_load: "y \<notin> set rs \<Longrightarrow> Load inflate False (delete_rows q rs) y = Load inflate False q y"
  by (intro Load_cong) (simp add: blob_by_rid_def delete_rows_def, rule find_filter_other, simp)

lemma delete_expands:
  assumes "\<And>x s. delta_src q x = Some s \<Longrightarrow> s \<notin> set rs" "expands inflate q x c" "x \<notin> set rs"
  shows "expands inflate (delete_rows q rs) x c"
  using assms(2,3)
proof (induction rule: expands.induct)
  case (expands_root x c)
  then show ?case by (intro expands.expands_root) (simp_all add: delete_src delete_load)
next
  case (expands_delta x s c d c')
  show ?case
  proof (rule expands.expands_delta)
    show "delta_src (delete_rows q rs) x = Some s" using expands_delta by (simp add: delete_src)
    show "expands inflate (delete_rows q rs) s c" using expands_delta assms(1) by blast
    show "Load inflate False (delete_rows q rs) x = Ok d" using expands_delta by (simp add: delete_load)
  qed (rule expands_delta.hyps)
qed

lemma delete_wf: "wf_repo q \<Longrightarrow> wf_repo (delete_rows q rs)"
  unfolding wf_repo_columns by (auto simp: delete_rows_def distinct_map_filter)

lemma expands_same_tables:
  assumes "t_blob q' = t_blob q" "t_delta q' = t_delta q"
  shows "expands inflate q' = expands inflate q"
proof -
  have "blob_by_rid q' = blob_by_rid q" "delta_src q' = delta_src q"
    using assms by (auto simp: delta_src_def blob_by_rid_def)
  then have same: "Load inflate False q' = Load inflate False q" "delta_src q' = delta_src q" by (auto simp: Load_def)
  have "expands inflate q' r c \<Longrightarrow> expands inflate q r c" for r c
    by (induction rule: expands.induct) (auto simp: same intro: expands.intros)
  moreover have "expands inflate q r c \<Longrightarrow> expands inflate q' r c" for r c
    by (induction rule: expands.induct) (auto simp: same intro: expands.intros)
  ultimately show ?thesis by blast
qed

lemma expands_private: "expands inflate (q\<lparr>t_private := z\<rparr>) r c \<longleftrightarrow> expands inflate q r c"
  using expands_same_tables [of "q\<lparr>t_private := z\<rparr>" q] by simp

text \<open>The rows to delete are determined by the columns that the undelta step keeps.\<close>

lemma shunned_zip:
  "map bl_rid (filter (\<lambda>b. bl_uuid b \<in> U) bs) = map fst (filter (\<lambda>(_, u). u \<in> U) (zip (map bl_rid bs) (map bl_uuid bs)))"
  by (induction bs) auto

lemma toshun_columns:
  assumes "map bl_rid (t_blob q1) = map bl_rid (t_blob q)" "map bl_uuid (t_blob q1) = map bl_uuid (t_blob q)"
  shows "toshun q = map bl_rid (filter (\<lambda>b. bl_uuid b \<in> sh_uuid ` set (t_shun q)) (t_blob q1))"
  unfolding toshun_def shunned_zip assms ..

text \<open>
  Claim C17.  A purge removes every row of a shunned hash and every delta against such a row, and each of the other rows
  keeps the content it had; one that fails changes nothing.
\<close>

theorem Purge_correct:
  assumes "zlib_writer deflate inflate" "wf_repo q" "\<And>r c. expands inflate q r c \<Longrightarrow> length c < 2 ^ 32"
  shows "case Purge deflate inflate q of
      (q', Ok res) \<Rightarrow> wf_repo q' \<and>
        bl_uuid ` set (t_blob q') = bl_uuid ` set (t_blob q) - sh_uuid ` set (t_shun q) \<and>
        (\<forall>(r, s) \<in> set (t_delta q'). s \<notin> set (toshun q)) \<and>
        (\<forall>r \<in> bl_rid ` set (t_blob q'). \<forall>c. expands inflate q r c \<longrightarrow> expands inflate q' r c) \<and>
        set (t_private q') \<subseteq> bl_rid ` set (t_blob q')
    | (q', _) \<Rightarrow> q' = q"
proof (cases "undelta deflate inflate q (dependents q)")
  case (Ok q1)
  have pos: "\<forall>r \<in> set (dependents q). r > 0"
    using assms(2) by (fastforce simp: dependents_def wf_repo_columns)
  have "\<forall>r c. expands inflate q r c \<longrightarrow> length c < 2 ^ 32" using assms(3) by blast
  note q1 = undelta_Ok [OF assms(1) this assms(2) Ok pos]
  let ?q2 = "delete_rows q1 (toshun q)"
  have rows: "x \<in> set (toshun q) \<longleftrightarrow> (\<exists>b \<in> set (t_blob q1). bl_rid b = x \<and> bl_uuid b \<in> sh_uuid ` set (t_shun q))" for x
  proof -
    have "toshun q = map bl_rid (filter (\<lambda>b. bl_uuid b \<in> sh_uuid ` set (t_shun q)) (t_blob q1))"
      by (rule toshun_columns) (use q1 in simp_all)
    then show ?thesis by force
  qed
  have "map bl_uuid (t_blob q1) = map bl_uuid (t_blob q)" using q1 by blast
  then have uuids: "bl_uuid ` set (t_blob q1) = bl_uuid ` set (t_blob q)" by (metis list.set_map)
  have wf1: "wf_repo q1" using q1 by blast
  then have inj: "b = b'" if "b \<in> set (t_blob q1)" "b' \<in> set (t_blob q1)" "bl_rid b = bl_rid b'" for b b'
    using that by (auto simp: wf_repo_columns distinct_map inj_on_def)
  have src: "s \<notin> set (toshun q)" if "(x, s) \<in> set (t_delta q1)" for x s
  proof -
    have "delta_src q1 x = Some s" using that wf1 by (simp add: delta_src_def wf_repo_columns)
    with q1 have "x \<notin> set (dependents q)" "delta_src q x = Some s" by (auto split: if_splits)
    then show ?thesis by (force simp: dependents_def delta_src_def dest: map_of_SomeD)
  qed
  then have src': "delta_src q1 x = Some s \<Longrightarrow> s \<notin> set (toshun q)" for x s
    by (auto simp: delta_src_def dest: map_of_SomeD)
  have row: "bl_rid b \<in> set (toshun q) \<longleftrightarrow> bl_uuid b \<in> sh_uuid ` set (t_shun q)" if "b \<in> set (t_blob q1)" for b
    using that inj rows by metis
  have kept: "bl_uuid ` set (t_blob ?q2) = bl_uuid ` set (t_blob q1) - sh_uuid ` set (t_shun q)"
    by (auto simp: delete_rows_def row)
  have exp: "expands inflate ?q2 r c" if "r \<in> bl_rid ` set (t_blob ?q2)" "expands inflate q r c" for r c
  proof (rule delete_expands [OF src'])
    show "expands inflate q1 r c" using that(2) q1 by blast
    show "r \<notin> set (toshun q)" using that(1) by (auto simp: delete_rows_def)
  qed
  have priv: "expands inflate (p\<lparr>t_private := z\<rparr>) r c \<longleftrightarrow> expands inflate p r c" "wf_repo (p\<lparr>t_private := z\<rparr>) = wf_repo p" for p z r c
    by (simp_all add: wf_repo_def expands_private)
  show ?thesis
    using delete_wf [OF wf1, of "toshun q"] src exp uuids kept
    by (auto simp: Purge_def Ok with_tx_def Let_def priv orphan_private_def) (auto simp: delete_rows_def)
qed (simp_all add: Purge_def with_tx_def)

text \<open>A text and a delta against it; the text is shunned.\<close>

definition sample_shunned :: repo where
  "sample_shunned = empty_repo\<lparr>
     t_blob := [sample_row (0, v1), (sample_row (1, v2))\<lparr>bl_content := Some (Compress sample_deflate d2)\<rparr>],
     t_delta := [(2, 1)], t_private := [1],
     t_shun := [\<lparr>sh_uuid = sample_sha1 v1, sh_mtime = 0, sh_scom = []\<rparr>]\<rparr>"

lemma sample_shunned_expands: "expands sample_inflate sample_shunned 1 v1" "expands sample_inflate sample_shunned 2 v2"
proof -
  have len: "length v1 < 2 ^ 32" "length v2 < 2 ^ 32" "length d2 < 2 ^ 32" by (simp_all add: sample_texts)
  have rows: "blob_by_rid sample_shunned 1 = Some (sample_row (0, v1))"
    "blob_by_rid sample_shunned 2 = Some ((sample_row (1, v2))\<lparr>bl_content := Some (Compress sample_deflate d2)\<rparr>)"
    by (simp_all add: sample_shunned_def blob_by_rid_def sample_row_def)
  have "Load sample_inflate False sample_shunned 1 = Ok v1"
    by (rule Load_sample [OF rows(1)]) (use len in simp_all)
  then show e1: "expands sample_inflate sample_shunned 1 v1"
    by (intro expands_root) (simp_all add: sample_shunned_def delta_src_def)
  have "Load sample_inflate False sample_shunned 2 = Ok d2"
    using rows(2) by (simp add: Load_def sample_row_def Compress_def sample_deflate_def Decompress_def sample_inflate_def sample_texts)
  moreover have "Apply v1 d2 = Ok v2"
    using Apply_Create [OF d2_created] by (simp add: sample_texts max_alloc_def)
  ultimately show "expands sample_inflate sample_shunned 2 v2"
    by (intro expands_delta [OF _ e1]) (simp_all add: sample_shunned_def delta_src_def)
qed

theorem Purge_correct_witness:
  "case Purge sample_deflate sample_inflate sample_shunned of
     (q', Ok res) \<Rightarrow> bl_uuid ` set (t_blob q') = {sample_sha1 v2} \<and> set (t_private q') \<subseteq> bl_rid ` set (t_blob q')
   | _ \<Rightarrow> False"
proof -
  let ?q = sample_shunned
  have sha: "sample_sha1 v1 \<noteq> sample_sha1 v2" by (simp add: sample_sha1_def sample_texts)
  have "wf_repo ?q"
    using sha by (simp add: wf_repo_def sample_shunned_def sample_row_def sample_sha1_def empty_repo_def) (simp add: min_def)
  moreover have "length c < 2 ^ 32" if "expands sample_inflate ?q r c" for r c
  proof -
    from expands_stored [OF that] have "r = 1 \<or> r = 2"
      by (auto simp: sample_shunned_def blob_by_rid_def sample_row_def split: if_splits)
    with that expands_fun [OF that] sample_shunned_expands have "c = v1 \<or> c = v2" by metis
    then show ?thesis by (auto simp: sample_texts)
  qed
  ultimately have p: "case Purge sample_deflate sample_inflate ?q of
      (q', Ok res) \<Rightarrow> wf_repo q' \<and> bl_uuid ` set (t_blob q') = bl_uuid ` set (t_blob ?q) - sh_uuid ` set (t_shun ?q) \<and>
        (\<forall>(r, s) \<in> set (t_delta q'). s \<notin> set (toshun ?q)) \<and>
        (\<forall>r \<in> bl_rid ` set (t_blob q'). \<forall>c. expands sample_inflate ?q r c \<longrightarrow> expands sample_inflate q' r c) \<and>
        set (t_private q') \<subseteq> bl_rid ` set (t_blob q')
    | (q', _) \<Rightarrow> q' = ?q"
    by (intro Purge_correct [OF sample_zlib])
  have "dependents ?q = [2]" by (simp add: dependents_def toshun_def sample_shunned_def sample_row_def)
  moreover have "Expand sample_inflate (\<lambda>_. False) False ?q 2 = Ok v2"
    using sample_shunned_expands(2) by (simp add: Expand_eq_expands)
  ultimately have "\<exists>q1. undelta sample_deflate sample_inflate ?q (dependents ?q) = Ok q1" by (simp add: wrap_err_def)
  then obtain q' res where "Purge sample_deflate sample_inflate ?q = (q', Ok res)"
    by (auto simp: Purge_def with_tx_def Let_def)
  moreover have "bl_uuid ` set (t_blob ?q) - sh_uuid ` set (t_shun ?q) = {sample_sha1 v2}"
    using sha by (auto simp: sample_shunned_def sample_row_def)
  ultimately show ?thesis using p by simp
qed

end
