(* ===== verification/Rebuild.thy ===== *)
theory Rebuild
  imports Crosslink_Props Go_Step
begin

text \<open>
  Verification of a whole repository and the reconstruction of its derived tables
  (\<open>internal/verify\<close>).  The reports carry no message texts and no duration.  A rebuild runs in
  one transaction, so its steps work on the pair of the repository and the report.
\<close>

section \<open>Reports (verify.go)\<close>

datatype IssueKind =
    IssueHashMismatch | IssueBlobCorrupt | IssueDeltaDangling | IssuePhantomOrphan | IssueEventMissing | IssueEventMismatch
  | IssueMlinkMissing | IssuePlinkMissing | IssueTagxrefMissing | IssueFilenameMissing | IssueLeafIncorrect | IssueMissingReference

record Issue =
  is_Kind :: IssueKind
  is_RID :: rid
  is_UUID :: bytes
  is_Table :: bytes

record Report =
  rp_Issues :: "Issue list"
  rp_BlobsChecked :: nat
  rp_BlobsOK :: nat
  rp_BlobsFailed :: nat
  rp_BlobsSkipped :: nat
  rp_MissingRefs :: nat
  rp_TablesRebuilt :: "bytes list"

definition empty_report :: Report where
  "empty_report = \<lparr>rp_Issues = [], rp_BlobsChecked = 0, rp_BlobsOK = 0, rp_BlobsFailed = 0, rp_BlobsSkipped = 0,
     rp_MissingRefs = 0, rp_TablesRebuilt = []\<rparr>"

definition OK_report :: "Report \<Rightarrow> bool" where
  "OK_report rep \<longleftrightarrow> length (rp_Issues rep) = 0"

definition addIssue :: "IssueKind \<Rightarrow> rid \<Rightarrow> bytes \<Rightarrow> bytes \<Rightarrow> Report \<Rightarrow> Report" where
  "addIssue k r uuid table rep = rep\<lparr>rp_Issues := rp_Issues rep @ [\<lparr>is_Kind = k, is_RID = r, is_UUID = uuid, is_Table = table\<rparr>]\<rparr>"

text \<open>\<open>SELECT rid, uuid FROM blob WHERE size >= 0\<close>\<close>

definition collectBlobEntries :: "repo \<Rightarrow> (rid \<times> bytes) list" where
  "collectBlobEntries q = map (\<lambda>b. (bl_rid b, bl_uuid b)) (filter (\<lambda>b. bl_size b \<ge> 0) (t_blob q))"

section \<open>Blobs and structure (check_blobs.go, check_structure.go)\<close>

definition check_blob :: "libs \<Rightarrow> repo \<Rightarrow> rid \<times> bytes \<Rightarrow> Report \<Rightarrow> Report \<times> (tag_error, unit) outcome" where
  "check_blob L q = (\<lambda>(r, uuid) rep.
     let rep1 = rep\<lparr>rp_BlobsChecked := rp_BlobsChecked rep + 1\<rparr>;
         failed = rep1\<lparr>rp_BlobsFailed := rp_BlobsFailed rep1 + 1\<rparr>
     in case expand L q r of
          Panic s \<Rightarrow> (rep1, Panic s)
        | Err e \<Rightarrow> (addIssue IssueBlobCorrupt r uuid ''blob'' failed, Ok ())
        | Ok data \<Rightarrow>
            if (if length uuid = 64 then l_sha3 L data else l_sha1 L data) \<noteq> uuid
            then (addIssue IssueHashMismatch r uuid ''blob'' failed, Ok ())
            else (rep1\<lparr>rp_BlobsOK := rp_BlobsOK rep1 + 1\<rparr>, Ok ()))"

definition checkBlobs :: "libs \<Rightarrow> repo \<Rightarrow> Report \<Rightarrow> Report \<times> (tag_error, unit) outcome" where
  "checkBlobs L q =
     chain (for_each (check_blob L q) (collectBlobEntries q)) (\<lambda>_ rep.
       if rp_BlobsChecked rep \<noteq> rp_BlobsOK rep + rp_BlobsFailed rep
       then (rep, Panic ''checkBlobs: postcondition: BlobsChecked != BlobsOK + BlobsFailed'') else (rep, Ok ()))"

definition checkDeltaChains :: "repo \<Rightarrow> Report \<Rightarrow> Report" where
  "checkDeltaChains q =
     fold (\<lambda>(r, s). addIssue IssueDeltaDangling r [] ''delta'')
       (filter (\<lambda>(r, s). r \<notin> bl_rid ` set (t_blob q) \<or> s \<notin> bl_rid ` set (t_blob q)) (t_delta q))"

definition checkPhantoms :: "repo \<Rightarrow> Report \<Rightarrow> Report" where
  "checkPhantoms q =
     fold (\<lambda>r. addIssue IssuePhantomOrphan r [] ''phantom'') (filter (\<lambda>r. r \<notin> bl_rid ` set (t_blob q)) (t_phantom q))"

section \<open>Derived tables (check_derived.go)\<close>

text \<open>The deck of a row that expands and parses; other rows are skipped.\<close>

definition deck_at :: "libs \<Rightarrow> repo \<Rightarrow> rid \<Rightarrow> (tag_error, Deck option) outcome" where
  "deck_at L q r =
     (case expand L q r of
        Panic s \<Rightarrow> Panic s
      | Err e \<Rightarrow> Ok None
      | Ok data \<Rightarrow> (case Parse (l_md5 L) data of Panic s \<Rightarrow> Panic s | Err e \<Rightarrow> Ok None | Ok d \<Rightarrow> Ok (Some d)))"

definition checkEvent :: "repo \<Rightarrow> rid \<Rightarrow> bytes \<Rightarrow> Report \<Rightarrow> Report" where
  "checkEvent q r uuid rep =
     (if length (filter (\<lambda>e. ev_objid e = r) (t_event q)) = 0 then addIssue IssueEventMissing r uuid ''event'' rep else rep)"

definition checkPlink :: "repo \<Rightarrow> rid \<Rightarrow> bytes \<Rightarrow> bytes \<Rightarrow> Report \<Rightarrow> Report" where
  "checkPlink q cid childUUID parentUUID rep =
     (case rid_of q parentUUID of
        None \<Rightarrow> rep
      | Some pid \<Rightarrow>
          if length (filter (\<lambda>p. pl_pid p = pid \<and> pl_cid p = cid) (t_plink q)) = 0
          then addIssue IssuePlinkMissing cid childUUID ''plink'' rep else rep)"

definition checkOneCheckin :: "libs \<Rightarrow> repo \<Rightarrow> rid \<times> bytes \<Rightarrow> Report \<Rightarrow> Report \<times> (tag_error, unit) outcome" where
  "checkOneCheckin L q = (\<lambda>(r, uuid).
     chain (call id (deck_at L q r)) (\<lambda>d.
       case d of
         Some d \<Rightarrow> if dk_Type d = ArtifactType.Checkin
                   then change (\<lambda>rep. fold (checkPlink q r uuid) (dk_P d) (checkEvent q r uuid rep)) else ret ()
       | None \<Rightarrow> ret ()))"

definition checkCheckins :: "libs \<Rightarrow> repo \<Rightarrow> Report \<Rightarrow> Report \<times> (tag_error, unit) outcome" where
  "checkCheckins L q = for_each (checkOneCheckin L q) (collectBlobEntries q)"

definition computeExpectedLeaves :: "repo \<Rightarrow> rid list" where
  "computeExpectedLeaves q =
     map ev_objid (filter (\<lambda>e. ev_type e = ''ci'' \<and> \<not> (\<exists>p \<in> set (t_plink q). pl_pid p = ev_objid e)) (t_event q))"

definition leafSetsEqual :: "rid list \<Rightarrow> rid list \<Rightarrow> bool" where
  "leafSetsEqual a b \<longleftrightarrow> card (set a) = card (set b) \<and> list_all (\<lambda>r. r \<in> set b) a"

definition checkLeaves :: "repo \<Rightarrow> Report \<Rightarrow> Report" where
  "checkLeaves q rep =
     (if \<not> leafSetsEqual (computeExpectedLeaves q) (t_leaf q) then addIssue IssueLeafIncorrect 0 [] ''leaf'' rep else rep)"

definition checkDerived :: "libs \<Rightarrow> repo \<Rightarrow> Report \<Rightarrow> Report \<times> (tag_error, unit) outcome" where
  "checkDerived L q = chain (checkCheckins L q) (\<lambda>_. change (checkLeaves q))"

definition Verify_all :: "libs \<Rightarrow> repo \<Rightarrow> (tag_error, Report) outcome" where
  "Verify_all L q =
     (case chain (checkBlobs L q) (\<lambda>_. chain (change (checkDeltaChains q)) (\<lambda>_. chain (change (checkPhantoms q)) (\<lambda>_.
             checkDerived L q))) empty_report of
        (rep, Ok _) \<Rightarrow> Ok rep | (_, Err e) \<Rightarrow> Err e | (_, Panic s) \<Rightarrow> Panic s)"

section \<open>Rebuilding manifests (rebuild_manifest.go)\<close>

type_synonym rebuild_state = "repo \<times> Report"

definition on_repo :: "(repo \<Rightarrow> repo) \<Rightarrow> rebuild_state \<Rightarrow> rebuild_state" where
  "on_repo f = (\<lambda>(q, rep). (f q, rep))"

definition on_report :: "(Report \<Rightarrow> Report) \<Rightarrow> rebuild_state \<Rightarrow> rebuild_state" where
  "on_report f = (\<lambda>(q, rep). (q, f rep))"

definition rebuild_parent :: "rid \<Rightarrow> int \<Rightarrow> nat \<times> bytes \<Rightarrow> rebuild_state \<Rightarrow> rebuild_state" where
  "rebuild_parent r mtime = (\<lambda>(i, parentUUID) (q, rep).
     case rid_of q parentUUID of
       None \<Rightarrow> (q, addIssue IssueMissingReference r parentUUID ''plink'' (rep\<lparr>rp_MissingRefs := rp_MissingRefs rep + 1\<rparr>))
     | Some parentRID \<Rightarrow>
         (insert_plink q \<lparr>pl_pid = parentRID, pl_cid = r, pl_isprim = (i = 0), pl_mtime = mtime, pl_baseid = None\<rparr>, rep))"

definition rebuildPlinks :: "rid \<Rightarrow> Deck \<Rightarrow> int \<Rightarrow> rebuild_state \<Rightarrow> rebuild_state" where
  "rebuildPlinks r d mtime = fold (rebuild_parent r mtime) (enumerate 0 (dk_P d))"

definition buildParentFileMap :: "libs \<Rightarrow> repo \<Rightarrow> Deck \<Rightarrow> (tag_error, FileCard list) outcome" where
  "buildParentFileMap L q d =
     (case dk_P d of
        [] \<Rightarrow> Ok []
      | u # us \<Rightarrow>
          (case rid_of q u of
             None \<Rightarrow> Ok []
           | Some p \<Rightarrow> bind_ok (deck_at L q p) (\<lambda>pd. Ok (case pd of None \<Rightarrow> [] | Some pd \<Rightarrow> dk_F pd))))"

definition rebuildEnsureFilename :: "bytes \<Rightarrow> rebuild_state \<Rightarrow> rebuild_state \<times> (tag_error, int) outcome" where
  "rebuildEnsureFilename name = (\<lambda>(q, rep).
     if name = [] then ((q, rep), Panic ''rebuildEnsureFilename: empty name'')
     else case find (\<lambda>t. snd t = name) (t_filename q) of
            Some t \<Rightarrow> ((q, rep), Ok (fst t))
          | None \<Rightarrow> let fnid = foldr max (map fst (t_filename q)) 0 + 1
                    in ((q\<lparr>t_filename := t_filename q @ [(fnid, name)]\<rparr>, rep), Ok fnid))"

definition rebuild_file :: "rid \<Rightarrow> FileCard list \<Rightarrow> FileCard \<Rightarrow> rebuild_state \<Rightarrow> rebuild_state \<times> (tag_error, unit) outcome" where
  "rebuild_file r parentFiles f =
     (if fc_UUID f = [] \<or> base_uuid parentFiles (fc_Name f) = Some (fc_UUID f) then ret ()
      else chain (rebuildEnsureFilename (fc_Name f)) (\<lambda>fnid. change (on_repo (\<lambda>q.
        case rid_of q (fc_UUID f) of
          None \<Rightarrow> q
        | Some fileRID \<Rightarrow> q\<lparr>t_mlink := t_mlink q @ [\<lparr>ml_mid = r, ml_fid = fileRID, ml_pmid = None, ml_pid = None, ml_fnid = fnid\<rparr>]\<rparr>))))"

definition rebuildMlinks :: "libs \<Rightarrow> rid \<Rightarrow> Deck \<Rightarrow> rebuild_state \<Rightarrow> rebuild_state \<times> (tag_error, unit) outcome" where
  "rebuildMlinks L r d s =
     chain (call id (buildParentFileMap L (fst s) d)) (\<lambda>parentFiles. for_each (rebuild_file r parentFiles) (dk_F d)) s"

definition rebuildCheckin :: "libs \<Rightarrow> rid \<Rightarrow> Deck \<Rightarrow> rebuild_state \<Rightarrow> rebuild_state \<times> (tag_error, unit) outcome" where
  "rebuildCheckin L r d =
     (let mtime = TimeToJulian (dk_D d) in
      chain (change (on_repo (\<lambda>q. insert_event q (event_of ''ci'' mtime r (dk_U d) (dk_C d))))) (\<lambda>_.
      chain (change (rebuildPlinks r d mtime)) (\<lambda>_. rebuildMlinks L r d)))"

definition rebuild_manifest :: "libs \<Rightarrow> rid \<times> bytes \<Rightarrow> rebuild_state \<Rightarrow> rebuild_state \<times> (tag_error, unit) outcome" where
  "rebuild_manifest L = (\<lambda>(r, uuid) s.
     (case expand L (fst s) r of
        Err e \<Rightarrow> change (on_report (\<lambda>rep. rep\<lparr>rp_BlobsSkipped := rp_BlobsSkipped rep + 1\<rparr>))
      | _ \<Rightarrow> chain (call id (deck_at L (fst s) r)) (\<lambda>d.
               case d of
                 Some d \<Rightarrow> if dk_Type d = ArtifactType.Checkin then rebuildCheckin L r d else ret ()
               | None \<Rightarrow> ret ())) s)"

definition rebuildManifests :: "libs \<Rightarrow> rebuild_state \<Rightarrow> rebuild_state \<times> (tag_error, unit) outcome" where
  "rebuildManifests L s = for_each (rebuild_manifest L) (collectBlobEntries (fst s)) s"

section \<open>Rebuilding tags and leaves (rebuild_tags.go, rebuild_leaves.go)\<close>

definition apply_tag_step :: "ApplyOpts \<Rightarrow> rebuild_state \<Rightarrow> rebuild_state \<times> (tag_error, unit) outcome" where
  "apply_tag_step opts = (\<lambda>(q, rep). case ApplyTagWithTx q opts of (q1, res) \<Rightarrow> ((q1, rep), res))"

definition rebuild_inline_tag :: "rid \<Rightarrow> int \<Rightarrow> TagCard \<Rightarrow> rebuild_state \<Rightarrow> rebuild_state \<times> (tag_error, unit) outcome" where
  "rebuild_inline_tag r mtime tc =
     (if tc_UUID tc \<noteq> ''*'' then ret ()
      else case tag_type_of (tc_Type tc) of
             None \<Rightarrow> ret ()
           | Some tagType \<Rightarrow> apply_tag_step \<lparr>ao_TargetRID = r, ao_SrcRID = r, ao_TagName = tc_Name tc, ao_TagType = tagType,
                                             ao_Value = tc_Value tc, ao_MTime = mtime\<rparr>)"

definition rebuildInlineTags :: "rid \<Rightarrow> Deck \<Rightarrow> rebuild_state \<Rightarrow> rebuild_state \<times> (tag_error, unit) outcome" where
  "rebuildInlineTags r d = for_each (rebuild_inline_tag r (TimeToJulian (dk_D d))) (dk_T d)"

definition rebuild_control_tag :: "rid \<Rightarrow> int \<Rightarrow> TagCard \<Rightarrow> rebuild_state \<Rightarrow> rebuild_state \<times> (tag_error, unit) outcome" where
  "rebuild_control_tag srcRID mtime tc s =
     (if tc_UUID tc = ''*'' then ret ()
      else case rid_of (fst s) (tc_UUID tc) of
             None \<Rightarrow> ret ()
           | Some targetRID \<Rightarrow>
               (case tag_type_of (tc_Type tc) of
                  None \<Rightarrow> ret ()
                | Some tagType \<Rightarrow> apply_tag_step \<lparr>ao_TargetRID = targetRID, ao_SrcRID = srcRID, ao_TagName = tc_Name tc,
                                    ao_TagType = tagType, ao_Value = tc_Value tc, ao_MTime = mtime\<rparr>)) s"

definition rebuildControlTags :: "rid \<Rightarrow> Deck \<Rightarrow> rebuild_state \<Rightarrow> rebuild_state \<times> (tag_error, unit) outcome" where
  "rebuildControlTags srcRID d = for_each (rebuild_control_tag srcRID (TimeToJulian (dk_D d))) (dk_T d)"

definition rebuild_tags_of ::
  "libs \<Rightarrow> ArtifactType \<Rightarrow> (rid \<Rightarrow> Deck \<Rightarrow> rebuild_state \<Rightarrow> rebuild_state \<times> (tag_error, unit) outcome)
     \<Rightarrow> rid \<times> bytes \<Rightarrow> rebuild_state \<Rightarrow> rebuild_state \<times> (tag_error, unit) outcome" where
  "rebuild_tags_of L ty f = (\<lambda>(r, uuid) s.
     chain (call id (deck_at L (fst s) r)) (\<lambda>d.
       case d of Some d \<Rightarrow> if dk_Type d = ty then f r d else ret () | None \<Rightarrow> ret ()) s)"

definition rebuildTags :: "libs \<Rightarrow> rebuild_state \<Rightarrow> rebuild_state \<times> (tag_error, unit) outcome" where
  "rebuildTags L s =
     (let entries = collectBlobEntries (fst s) in
      chain (for_each (rebuild_tags_of L ArtifactType.Checkin rebuildInlineTags) entries) (\<lambda>_.
        for_each (rebuild_tags_of L Control rebuildControlTags) entries) s)"

definition rebuildLeaves :: "repo \<Rightarrow> repo" where
  "rebuildLeaves q = q\<lparr>t_leaf := t_leaf q @ computeExpectedLeaves q\<rparr>"

definition rebuildBookkeeping :: "repo \<Rightarrow> repo" where
  "rebuildBookkeeping q =
     q\<lparr>t_unclustered := t_unclustered q @ map fst (collectBlobEntries q), t_unsent := t_unsent q @ map fst (collectBlobEntries q)\<rparr>"

section \<open>The rebuild (rebuild.go)\<close>

definition rebuildTableList :: "bytes list" where
  "rebuildTableList = [''event'', ''mlink'', ''plink'', ''tagxref'', ''filename'', ''leaf'', ''unclustered'', ''unsent'']"

definition dropDerivedTables :: "repo \<Rightarrow> repo" where
  "dropDerivedTables q =
     q\<lparr>t_event := [], t_mlink := [], t_plink := [], t_tagxref := [], t_filename := [], t_leaf := [], t_unclustered := [], t_unsent := []\<rparr>"

definition rebuild_tx :: "libs \<Rightarrow> rebuild_state \<Rightarrow> rebuild_state \<times> (tag_error, unit) outcome" where
  "rebuild_tx L =
     chain (change (on_repo dropDerivedTables)) (\<lambda>_. chain (rebuildManifests L) (\<lambda>_. chain (rebuildTags L) (\<lambda>_.
       change (on_repo (\<lambda>q. rebuildBookkeeping (rebuildLeaves q))))))"

definition Rebuild :: "libs \<Rightarrow> repo \<Rightarrow> repo \<times> (tag_error, Report) outcome" where
  "Rebuild L q =
     (case checkBlobs L q empty_report of
        (_, Err e) \<Rightarrow> (q, Err e)
      | (_, Panic s) \<Rightarrow> (q, Panic s)
      | (rep, Ok _) \<Rightarrow>
          (case rebuild_tx L (q, rep) of
             ((q1, rep1), Ok _) \<Rightarrow> (q1, Ok (rep1\<lparr>rp_TablesRebuilt := rebuildTableList\<rparr>))
           | (_, Err e) \<Rightarrow> (q, Err e)
           | (_, Panic s) \<Rightarrow> (q, Panic s)))"

section \<open>What the steps keep\<close>

definition has_event :: "repo \<Rightarrow> rid \<Rightarrow> bool" where
  "has_event q r \<longleftrightarrow> r \<in> ev_objid ` set (t_event q)"

definition only_checkins :: "repo \<Rightarrow> bool" where
  "only_checkins q \<longleftrightarrow> ev_type ` set (t_event q) \<subseteq> {''ci''}"

text \<open>The stored artifacts and the leaves stay, events and links are only added.\<close>

definition grown :: "rebuild_state \<Rightarrow> rebuild_state \<Rightarrow> bool" where
  "grown s s' \<longleftrightarrow> t_blob (fst s') = t_blob (fst s) \<and> t_delta (fst s') = t_delta (fst s) \<and> t_leaf (fst s') = t_leaf (fst s) \<and>
     (\<forall>r. has_event (fst s) r \<longrightarrow> has_event (fst s') r) \<and>
     (\<forall>p c. has_plink (fst s) p c \<longrightarrow> has_plink (fst s') p c) \<and>
     (only_checkins (fst s) \<longrightarrow> only_checkins (fst s'))"

lemma grown_trans: "grown s s1 \<Longrightarrow> grown s1 s2 \<Longrightarrow> grown s s2"
  unfolding grown_def by (elim conjE, intro conjI) (simp, simp, simp, blast, blast, simp)

interpretation gr: kept_relation grown
  by unfold_locales (simp add: grown_def, rule grown_trans)

lemma grown_on_report [simp]: "grown s (on_report f s)"
  by (cases s) (simp add: grown_def on_report_def)

lemma grown_event: "grown s (on_repo (\<lambda>q. insert_event q (event_of ''ci'' mtime r user comment)) s)"
  by (cases s) (auto simp: grown_def on_repo_def insert_event_def event_of_def has_plink_def has_event_def only_checkins_def)

lemma grown_parent: "grown s (rebuild_parent r mtime x s)"
  by (cases s) (auto simp: grown_def rebuild_parent_def insert_plink_def has_plink_def has_event_def only_checkins_def split: prod.split option.split)

lemma grown_fold: "(\<And>x s. grown s (f x s)) \<Longrightarrow> grown s (fold f xs s)"
proof (induction xs arbitrary: s)
  case (Cons x xs)
  show ?case using gr.trans [OF Cons.prems Cons.IH [OF Cons.prems]] by simp
qed (simp add: gr.refl)

lemma grown_plinks: "grown s (rebuildPlinks r d mtime s)"
  by (simp add: rebuildPlinks_def grown_fold grown_parent)

lemma grown_filename: "grown s (fst (rebuildEnsureFilename name s))"
  by (cases s) (auto simp: rebuildEnsureFilename_def grown_def has_plink_def has_event_def only_checkins_def Let_def split: option.split)

lemma grown_file: "grown s (fst (rebuild_file r pf f s))"
  unfolding rebuild_file_def
  by (auto intro!: gr.rules gr.change grown_filename split: if_splits option.split)
    (auto simp: grown_def on_repo_def has_plink_def has_event_def only_checkins_def split: prod.split option.split)

lemma grown_mlinks: "grown s (fst (rebuildMlinks L r d s))"
  unfolding rebuildMlinks_def by (intro gr.rules grown_file)

lemma grown_checkin: "grown s (fst (rebuildCheckin L r d s))"
  unfolding rebuildCheckin_def Let_def by (intro gr.rules gr.change grown_event grown_plinks grown_mlinks)

lemma grown_manifest: "grown s (fst (rebuild_manifest L x s))"
  by (auto simp: rebuild_manifest_def split: prod.split outcome.split option.split
      intro!: gr.rules gr.change grown_checkin)

lemma grown_manifests: "grown s (fst (rebuildManifests L s))"
  unfolding rebuildManifests_def by (intro gr.rules grown_manifest)

text \<open>The tags leave everything else that the checks read.\<close>

definition tagged :: "rebuild_state \<Rightarrow> rebuild_state \<Rightarrow> bool" where
  "tagged s s' \<longleftrightarrow> tags_only (fst s) (fst s')"

interpretation tg: kept_relation tagged
  by unfold_locales (auto simp: tagged_def tags_only_refl intro: tags_only_trans)

lemma tagged_apply: "tagged s (fst (apply_tag_step opts s))"
  using tags_only_ApplyTagWithTx [of "fst s" opts]
  by (auto simp: tagged_def apply_tag_step_def split: prod.splits)

lemma tagged_inline: "tagged s (fst (rebuildInlineTags r d s))"
  unfolding rebuildInlineTags_def
  by (intro tg.rules) (auto simp: rebuild_inline_tag_def intro!: tg.rules tagged_apply split: option.split)

lemma tagged_control: "tagged s (fst (rebuildControlTags r d s))"
  unfolding rebuildControlTags_def
  by (intro tg.rules) (auto simp: rebuild_control_tag_def intro!: tg.rules tagged_apply split: option.split)

lemma tagged_of: "(\<And>r d s. tagged s (fst (f r d s))) \<Longrightarrow> tagged s (fst (rebuild_tags_of L ty f x s))"
  by (auto simp: rebuild_tags_of_def intro!: tg.rules split: prod.split option.split)

lemma tagged_tags: "tagged s (fst (rebuildTags L s))"
  unfolding rebuildTags_def Let_def by (intro tg.rules tagged_of tagged_inline tagged_control)

lemma tagged_grown:
  assumes "tagged s s'"
  shows "grown s s'"
proof -
  have t: "tags_only (fst s) (fst s')" using assms by (simp add: tagged_def)
  then have "ev_objid ` set (t_event (fst s')) = ev_objid ` set (t_event (fst s))"
    using tags_only_objid [OF t] by (metis list.set_map)
  moreover have "ev_type ` set (t_event (fst s')) = ev_type ` set (t_event (fst s))"
  proof -
    have "map (\<lambda>e. (ev_objid e, ev_type e)) (t_event (fst s')) = map (\<lambda>e. (ev_objid e, ev_type e)) (t_event (fst s))"
      using t by (simp only: tags_only_def)
    then have "snd ` set (map (\<lambda>e. (ev_objid e, ev_type e)) (t_event (fst s'))) = snd ` set (map (\<lambda>e. (ev_objid e, ev_type e)) (t_event (fst s)))"
      by simp
    then show ?thesis by (simp add: image_image)
  qed
  ultimately show ?thesis using tags_only_same [OF t] by (simp add: grown_def has_plink_def has_event_def only_checkins_def)
qed

lemma walk_src: "delta_src q' = delta_src q \<Longrightarrow> walk q' r ch = walk q r ch"
  by (induction q r ch rule: walk.induct) (subst (1 2) walk.simps, simp split: option.split)

lemma Expand_tables:
  assumes "t_blob q' = t_blob q" "t_delta q' = t_delta q"
  shows "Expand inflate b fl q' r = Expand inflate b fl q r"
proof -
  have eq: "delta_src q' = delta_src q" "Load inflate x q' = Load inflate x q" for x
    using assms by (auto simp: delta_src_def blob_by_rid_def Load_def)
  have w: "walk q' r ch = walk q r ch" for r ch
    by (rule walk_src [OF eq(1)])
  have "apply_chain inflate b q' c rs = apply_chain inflate b q c rs" for c rs
    by (induction rs arbitrary: c) (simp_all add: eq)
  then show ?thesis by (simp add: Expand_def walkDeltaChain_def w eq)
qed

lemma grown_reads:
  assumes "grown s s'"
  shows "rid_of (fst s') = rid_of (fst s)" "deck_at L (fst s') = deck_at L (fst s)"
    "collectBlobEntries (fst s') = collectBlobEntries (fst s)"
  using assms Expand_tables [of "fst s'" "fst s"]
  by (auto simp: grown_def rid_of_def blob_by_uuid_def deck_at_def collectBlobEntries_def)

section \<open>A rebuilt repository passes its checks\<close>

lemma rebuild_plinks_done:
  "u \<in> set ps \<Longrightarrow> rid_of (fst s) u = Some p \<Longrightarrow> has_plink (fst (fold (rebuild_parent r m) (enumerate n ps) s)) p r"
proof (induction ps arbitrary: n s)
  case (Cons v ps)
  let ?s1 = "rebuild_parent r m (n, v) s"
  have g: "grown s ?s1" "grown ?s1 (fold (rebuild_parent r m) (enumerate (Suc n) ps) ?s1)"
    by (simp_all add: grown_parent grown_fold)
  show ?case
  proof (cases "u = v")
    case True
    with Cons.prems(2) have "has_plink (fst ?s1) p r"
      by (cases s) (auto simp: rebuild_parent_def insert_plink_def has_plink_def)
    with g(2) show ?thesis by (simp add: grown_def)
  next
    case False
    with Cons grown_reads(1) [OF g(1)] show ?thesis by simp
  qed
qed simp

text \<open>What the check of a row asks for.\<close>

definition row_rebuilt :: "libs \<Rightarrow> repo \<Rightarrow> rid \<Rightarrow> bool" where
  "row_rebuilt L q r \<longleftrightarrow> (\<exists>d. deck_at L q r = Ok d \<and>
     (\<forall>dk. d = Some dk \<and> dk_Type dk = ArtifactType.Checkin \<longrightarrow> has_event q r \<and>
        (\<forall>u \<in> set (dk_P dk). \<forall>p. rid_of q u = Some p \<longrightarrow> has_plink q p r)))"

lemma row_rebuilt_grown: "row_rebuilt L (fst s) r \<Longrightarrow> grown s s' \<Longrightarrow> row_rebuilt L (fst s') r"
  using grown_reads [of s s'] unfolding row_rebuilt_def by (auto simp: grown_def)

lemma rebuild_manifest_done:
  assumes "rebuild_manifest L (r, uuid) s = (s', Ok ())"
  shows "row_rebuilt L (fst s') r"
proof -
  have g: "grown s s'" using grown_manifest [of s L "(r, uuid)"] assms by simp
  consider e where "expand L (fst s) r = Err e" | "\<forall>e. expand L (fst s) r \<noteq> Err e" by blast
  then show ?thesis
  proof cases
    case 1
    then have "deck_at L (fst s) r = Ok None" by (simp add: deck_at_def)
    then show ?thesis using grown_reads(2) [OF g] by (simp add: row_rebuilt_def)
  next
    case 2
    with assms obtain d where d: "deck_at L (fst s) r = Ok d"
      "(case d of Some d \<Rightarrow> if dk_Type d = ArtifactType.Checkin then rebuildCheckin L r d else ret () | None \<Rightarrow> ret ()) s = (s', Ok ())"
      by (auto simp: rebuild_manifest_def chain_Ok call_def split: outcome.splits)
    show ?thesis
      unfolding row_rebuilt_def
    proof (rule exI [of _ d], intro conjI allI impI ballI, goal_cases)
      case 1
      show ?case using d(1) grown_reads(2) [OF g, of L] by simp
    next
      case (2 dk)
      define s1 where "s1 = on_repo (\<lambda>q. insert_event q (event_of ''ci'' (TimeToJulian (dk_D dk)) r (dk_U dk) (dk_C dk))) s"
      have s1: "grown (rebuildPlinks r dk (TimeToJulian (dk_D dk)) s1) s'"
        using grown_mlinks [of "rebuildPlinks r dk (TimeToJulian (dk_D dk)) s1" L r dk] d(2) 2
        by (auto simp: rebuildCheckin_def Let_def chain_Ok change_def s1_def)
      then have "grown s1 s'" using gr.trans [OF grown_plinks] by blast
      moreover have "has_event (fst s1) r"
        by (cases s) (auto simp: s1_def on_repo_def insert_event_def event_of_def has_event_def)
      ultimately show ?case by (simp add: grown_def)
    next
      case (3 dk u p)
      define s1 where "s1 = on_repo (\<lambda>q. insert_event q (event_of ''ci'' (TimeToJulian (dk_D dk)) r (dk_U dk) (dk_C dk))) s"
      have s1: "grown (rebuildPlinks r dk (TimeToJulian (dk_D dk)) s1) s'"
        using grown_mlinks [of "rebuildPlinks r dk (TimeToJulian (dk_D dk)) s1" L r dk] d(2) 3
        by (auto simp: rebuildCheckin_def Let_def chain_Ok change_def s1_def)
      have "rid_of (fst s1) u = Some p"
        using 3 grown_reads(1) [OF g] grown_reads(1) [OF grown_event, where s = s] by (simp add: s1_def)
      with rebuild_plinks_done [of u "dk_P dk" s1 p r "TimeToJulian (dk_D dk)" 0] 3 s1 show ?case
        by (simp add: grown_def rebuildPlinks_def)
    qed
  qed
qed

lemma fold_same: "(\<And>x. x \<in> set xs \<Longrightarrow> f x s = s) \<Longrightarrow> fold f xs s = s"
  by (induction xs) auto

lemma checkPlink_silent: "(\<And>p. rid_of q u = Some p \<Longrightarrow> has_plink q p c) \<Longrightarrow> checkPlink q c uuid u rep = rep"
  by (auto simp: checkPlink_def has_plink_def filter_empty_conv split: option.split)

lemma checkEvent_silent: "has_event q r \<Longrightarrow> checkEvent q r uuid rep = rep"
  by (auto simp: checkEvent_def has_event_def filter_empty_conv)

lemma checkCheckins_silent:
  assumes "\<And>r uuid. (r, uuid) \<in> set es \<Longrightarrow> row_rebuilt L q r"
  shows "for_each (checkOneCheckin L q) es rep = (rep, Ok ())"
  using assms
proof (induction es)
  case (Cons e es)
  obtain r uuid where e: "e = (r, uuid)" by fastforce
  with Cons.prems [of r uuid] obtain d where d: "deck_at L q r = Ok d"
    "\<forall>dk. d = Some dk \<and> dk_Type dk = ArtifactType.Checkin \<longrightarrow> has_event q r \<and>
        (\<forall>u \<in> set (dk_P dk). \<forall>p. rid_of q u = Some p \<longrightarrow> has_plink q p r)"
    by (auto simp: row_rebuilt_def)
  have "fold (checkPlink q r uuid) (dk_P dk) rep = rep" "checkEvent q r uuid rep = rep"
    if "d = Some dk" "dk_Type dk = ArtifactType.Checkin" for dk
    using d(2) that by (auto intro!: fold_same checkPlink_silent checkEvent_silent)
  then have "checkOneCheckin L q e rep = (rep, Ok ())"
    using d(1) by (auto simp: checkOneCheckin_def e chain_def call_def ret_def change_def split: option.split)
  moreover have "for_each (checkOneCheckin L q) es rep = (rep, Ok ())"
    by (rule Cons.IH) (use Cons.prems in auto)
  ultimately show ?case by (simp add: chain_def)
qed (simp add: ret_def)

lemma Rebuild_repairs_aux:
  assumes "rebuild_tx L (q, rep) = (s', Ok ())"
  shows "t_blob (fst s') = t_blob q \<and> t_delta (fst s') = t_delta q \<and> checkDerived L (fst s') rep' = (rep', Ok ()) \<and>
    only_checkins (fst s')"
proof -
  let ?s0 = "on_repo dropDerivedTables (q, rep)"
  obtain s1 s2 where s: "rebuildManifests L ?s0 = (s1, Ok ())" "rebuildTags L s1 = (s2, Ok ())"
    "s' = on_repo (\<lambda>q. rebuildBookkeeping (rebuildLeaves q)) s2"
    using assms by (auto simp: rebuild_tx_def chain_Ok change_def)
  have g1: "grown ?s0 s1" and g2: "grown s1 s2"
    using grown_manifests [of ?s0 L] s(1) tagged_tags [of s1 L] s(2) by (auto intro: tagged_grown)
  then have g: "grown ?s0 s2" by (rule gr.trans)
  have tables: "t_blob (fst s') = t_blob q" "t_delta (fst s') = t_delta q" "t_leaf (fst s2) = []"
    "t_event (fst s') = t_event (fst s2)" "t_plink (fst s') = t_plink (fst s2)"
    "t_leaf (fst s') = t_leaf (fst s2) @ computeExpectedLeaves (fst s2)" "t_blob (fst s2) = t_blob q" "t_delta (fst s2) = t_delta q"
    "only_checkins (fst s2)"
    using g s(3) by (cases s2; auto simp: grown_def on_repo_def dropDerivedTables_def rebuildBookkeeping_def rebuildLeaves_def only_checkins_def)+
  have rows: "row_rebuilt L (fst s2) r" if "(r, uuid) \<in> set (collectBlobEntries q)" for r uuid
  proof -
    have "collectBlobEntries (fst ?s0) = collectBlobEntries q"
      by (simp add: collectBlobEntries_def on_repo_def dropDerivedTables_def)
    with that gr.for_each_step [OF s(1) [unfolded rebuildManifests_def], of "(r, uuid)"] grown_manifest
    obtain t1 t2 where "rebuild_manifest L (r, uuid) t1 = (t2, Ok ())" "grown t2 s1" by metis
    from row_rebuilt_grown [OF rebuild_manifest_done [OF this(1)]] this(2) g2 show ?thesis by (blast intro: gr.trans)
  qed
  have "row_rebuilt L (fst s') r" if "(r, uuid) \<in> set (collectBlobEntries (fst s'))" for r uuid
  proof -
    have "Expand (l_inflate L) b f (fst s') x = Expand (l_inflate L) b f (fst s2) x" for b f x
      using tables by (intro Expand_tables) simp_all
    then have "deck_at L (fst s') = deck_at L (fst s2)" "rid_of (fst s') = rid_of (fst s2)" "has_plink (fst s') = has_plink (fst s2)"
      using tables by (auto simp: deck_at_def rid_of_def blob_by_uuid_def has_plink_def fun_eq_iff)
    moreover have "collectBlobEntries (fst s') = collectBlobEntries q" using tables by (simp add: collectBlobEntries_def)
    ultimately show ?thesis using rows that tables by (simp add: row_rebuilt_def has_event_def)
  qed
  moreover have "checkLeaves (fst s') rep' = rep'"
    using tables by (auto simp: checkLeaves_def leafSetsEqual_def computeExpectedLeaves_def list_all_iff)
  ultimately show ?thesis
    using tables checkCheckins_silent [of "collectBlobEntries (fst s')" L "fst s'" rep']
    by (simp add: checkDerived_def checkCheckins_def chain_def change_def only_checkins_def)
qed

text \<open>
  Claim C16.  A successful rebuild keeps every stored artifact, and afterwards the checks of the derived tables find no issue;
  only check-ins are on the timeline then, the events of other artifacts are lost.  A rebuild that fails changes
  nothing.
\<close>

theorem Rebuild_repairs:
  "case Rebuild L q of
     (q', Ok rep) \<Rightarrow> t_blob q' = t_blob q \<and> t_delta q' = t_delta q \<and> (\<forall>rep'. checkDerived L q' rep' = (rep', Ok ())) \<and>
                   only_checkins q'
   | (q', _) \<Rightarrow> q' = q"
  using Rebuild_repairs_aux [of L q]
  by (auto simp: Rebuild_def split: prod.splits outcome.splits)

text \<open>A repository with one check-in that has lost its derived tables, and with a file row that has no content.\<close>

lemma tiny_deck_at: "deck_at toy_libs tiny_repo 1 = Ok (Some (canonical tiny_deck))" "deck_at toy_libs tiny_repo 2 = Ok None"
  "\<exists>c. expand toy_libs tiny_repo 1 = Ok c" "\<exists>e. expand toy_libs tiny_repo 2 = Err e"
proof -
  from tiny_load obtain c where c: "expand toy_libs tiny_repo 1 = Ok c" "Parse (l_md5 toy_libs) c = Ok (canonical tiny_deck)"
    by (auto simp: load_deck_def bind_ok_eq_Ok)
  then show "deck_at toy_libs tiny_repo 1 = Ok (Some (canonical tiny_deck))" "\<exists>c. expand toy_libs tiny_repo 1 = Ok c"
    by (simp_all add: deck_at_def)
  show e: "\<exists>e. expand toy_libs tiny_repo 2 = Err e"
    by (simp add: Expand_def walkDeltaChain_def walk.simps [of _ _ "[]"] delta_src_def Load_def blob_by_rid_def tiny_repo_def empty_repo_def)
  then show "deck_at toy_libs tiny_repo 2 = Ok None" by (auto simp: deck_at_def)
qed

lemma tiny_Rebuild:
  "\<exists>q' rep. Rebuild toy_libs tiny_repo = (q', Ok rep) \<and> map ev_objid (t_event q') = [1] \<and> t_leaf q' = [1] \<and> rp_BlobsSkipped rep = 1"
proof -
  let ?d = "canonical tiny_deck"
  have d: "dk_Type ?d = ArtifactType.Checkin" "dk_P ?d = []" "dk_T ?d = []"
    "dk_F ?d = [\<lparr>fc_Name = ''a'', fc_UUID = replicate 40 CHR ''f'', fc_Perm = [], fc_OldName = []\<rparr>]"
    by (simp_all add: canonical_def tiny_deck_def empty_deck_def inferType_def)
  obtain c e where x: "expand toy_libs tiny_repo 1 = Ok c" "expand toy_libs tiny_repo 2 = Err e" using tiny_deck_at(3,4) by blast
  have same: "expand toy_libs q r = expand toy_libs tiny_repo r" "deck_at toy_libs q r = deck_at toy_libs tiny_repo r"
    if "t_blob q = t_blob tiny_repo" "t_delta q = []" for q r
    using that Expand_tables [of q tiny_repo] by (simp_all add: deck_at_def tiny_repo_def empty_repo_def)
  have es: "collectBlobEntries q = [(1, replicate 40 CHR ''d''), (2, replicate 40 CHR ''f'')]" if "t_blob q = t_blob tiny_repo" for q
    using that by (simp add: collectBlobEntries_def tiny_repo_def)
  have "\<exists>rep. checkBlobs toy_libs tiny_repo empty_report = (rep, Ok ()) \<and> rp_BlobsSkipped rep = 0"
    by (cases "l_sha1 toy_libs c = replicate 40 CHR ''d''")
      (simp_all add: checkBlobs_def es chain_def check_blob_def Let_def x ret_def addIssue_def empty_report_def)
  then obtain rep where rep: "checkBlobs toy_libs tiny_repo empty_report = (rep, Ok ())" "rp_BlobsSkipped rep = 0" by blast
  let ?q0 = "dropDerivedTables tiny_repo"
  have q0: "t_blob ?q0 = t_blob tiny_repo" "t_delta ?q0 = []" by (simp_all add: dropDerivedTables_def tiny_repo_def empty_repo_def)
  obtain q1 where c1: "rebuildCheckin toy_libs 1 ?d (?q0, rep) = ((q1, rep), Ok ())"
    and q1: "t_blob q1 = t_blob tiny_repo" "t_delta q1 = []" "map ev_objid (t_event q1) = [1]" "map ev_type (t_event q1) = [''ci'']"
      "t_plink q1 = []" "t_leaf q1 = []"
    by (simp add: rebuildCheckin_def Let_def chain_def change_def on_repo_def insert_event_def event_of_def rebuildPlinks_def d
        rebuildMlinks_def buildParentFileMap_def call_def rebuild_file_def base_uuid_def rebuildEnsureFilename_def rid_of_def
        blob_by_uuid_def ret_def dropDerivedTables_def tiny_repo_def empty_repo_def)
  let ?rep = "rep\<lparr>rp_BlobsSkipped := 1\<rparr>"
  have "rebuildManifests toy_libs (?q0, rep) = ((q1, ?rep), Ok ())"
    using c1 rep(2)
    by (simp add: rebuildManifests_def es q0 chain_def rebuild_manifest_def same q1 x tiny_deck_at call_def d change_def
        on_report_def ret_def)
  moreover have "rebuildTags toy_libs (q1, ?rep) = ((q1, ?rep), Ok ())"
    by (simp add: rebuildTags_def es q1 Let_def chain_def rebuild_tags_of_def same tiny_deck_at call_def d rebuildInlineTags_def ret_def)
  ultimately have "rebuild_tx toy_libs (tiny_repo, rep) = (on_repo (\<lambda>q. rebuildBookkeeping (rebuildLeaves q)) (q1, ?rep), Ok ())"
    by (simp add: rebuild_tx_def chain_def change_def on_repo_def)
  moreover have "computeExpectedLeaves q1 = [1]"
    using q1(3-5) by (auto simp: computeExpectedLeaves_def Cons_eq_map_conv map_eq_Cons_conv)
  ultimately show ?thesis
    using rep q1 by (simp add: Rebuild_def on_repo_def rebuildBookkeeping_def rebuildLeaves_def)
qed

theorem Rebuild_repairs_witness:
  "\<exists>q' rep. Rebuild toy_libs tiny_repo = (q', Ok rep) \<and> t_leaf q' = [1] \<and> checkDerived toy_libs q' empty_report = (empty_report, Ok ())"
  using Rebuild_repairs [where L = toy_libs and q = tiny_repo] tiny_Rebuild by auto

end
