(* ===== verification/Diff.thy ===== *)
theory Diff
  imports Merge_Diff
begin

text \<open>
  Line differences by Myers' algorithm (\<open>internal/diff/diff.go\<close>): the forward search over the furthest
  points of each diagonal and the reconstruction of the edit script from the saved arrays.
\<close>

section \<open>Lines\<close>

text \<open>\<open>strings.ReplaceAll(s, "\r\n", "\n")\<close>, and \<open>strings.Split(s, "\n")\<close>\<close>

fun replace_crlf :: "bytes \<Rightarrow> bytes" where
  "replace_crlf [] = []"
| "replace_crlf [c] = [c]"
| "replace_crlf (c # d # s) = (if c = CR \<and> d = NL then NL # replace_crlf s else c # replace_crlf (d # s))"

function Split :: "byte \<Rightarrow> bytes \<Rightarrow> bytes list" where
  "Split sep s = (case cut sep s of None \<Rightarrow> [s] | Some (a, b) \<Rightarrow> a # Split sep b)"
  by pat_completeness auto
termination
  by (relation "measure (length \<circ> snd)") (auto dest: length_cut)

declare Split.simps [simp del]

definition splitLines_diff :: "bytes \<Rightarrow> bytes list \<times> bool" where
  "splitLines_diff data =
     (if length data = 0 then ([], True)
      else let s = map (\<lambda>c. if c = CR then NL else c) (replace_crlf data);
               lines = (let ls = Split NL s in if last ls = [] then butlast ls else ls)
           in if length lines = 0 then ([], True) else (lines, s \<noteq> [] \<and> last s = NL))"

definition isBinary :: "bytes \<Rightarrow> bool" where
  "isBinary data \<longleftrightarrow> CHR 0x00 \<in> set data"

section \<open>Myers' algorithm\<close>

datatype opKind = opEqual | opInsert | opDelete

record editOp =
  eo_kind :: opKind
  eo_text :: bytes

abbreviation edit :: "opKind \<Rightarrow> bytes \<Rightarrow> editOp" where
  "edit k t \<equiv> \<lparr>eo_kind = k, eo_text = t\<rparr>"

text \<open>Following a diagonal; \<open>y\<close> is never negative where it is called (\<open>furthest_ge\<close>).\<close>

function snake :: "bytes list \<Rightarrow> bytes list \<Rightarrow> int \<Rightarrow> int \<Rightarrow> int" where
  "snake src dst x y =
     (if x < int (length src) \<and> y < int (length dst) \<and> src ! nat x = dst ! nat y then snake src dst (x + 1) (y + 1) else x)"
  by pat_completeness auto
termination
  by (relation "measure (\<lambda>(src, dst, x, y). nat (int (length src) - x))") auto

declare snake.simps [simp del]

text \<open>The array is indexed by a diagonal plus \<open>max\<close>, the sum of the lengths.\<close>

definition vmax :: "bytes list \<Rightarrow> bytes list \<Rightarrow> int" where
  "vmax src dst = int (length src) + int (length dst)"

definition at_diag :: "int \<Rightarrow> int list \<Rightarrow> int \<Rightarrow> int" where
  "at_diag mx v k = v ! nat (k + mx)"

definition goes_down :: "int \<Rightarrow> int list \<Rightarrow> nat \<Rightarrow> int \<Rightarrow> bool" where
  "goes_down mx v d k \<longleftrightarrow> k = - int d \<or> k \<noteq> int d \<and> at_diag mx v (k - 1) < at_diag mx v (k + 1)"

definition first_x :: "int \<Rightarrow> int list \<Rightarrow> nat \<Rightarrow> int \<Rightarrow> int" where
  "first_x mx v d k = (if goes_down mx v d k then at_diag mx v (k + 1) else at_diag mx v (k - 1) + 1)"

text \<open>One round over the diagonals \<open>-d, -d + 2, \<dots>, d\<close>; \<open>None\<close> when the end is reached.\<close>

definition diagonals :: "nat \<Rightarrow> int list" where
  "diagonals d = map (\<lambda>i. 2 * int i - int d) [0..<d + 1]"

fun myers_round :: "bytes list \<Rightarrow> bytes list \<Rightarrow> nat \<Rightarrow> int list \<Rightarrow> int list \<Rightarrow> int list option" where
  "myers_round src dst d [] v = Some v"
| "myers_round src dst d (k # ks) v =
     (let x0 = first_x (vmax src dst) v d k;
          x = snake src dst x0 (x0 - k)
      in if x \<ge> int (length src) \<and> x - k \<ge> int (length dst) then None
         else myers_round src dst d ks (v[nat (k + vmax src dst) := x]))"

text \<open>Walking a diagonal back; the script is built from its end.\<close>

function walk_back :: "bytes list \<Rightarrow> int \<Rightarrow> int \<Rightarrow> int \<Rightarrow> int \<Rightarrow> editOp list \<Rightarrow> int \<times> int \<times> editOp list" where
  "walk_back src prevX prevY x y ops =
     (if x > prevX \<and> y > prevY then walk_back src prevX prevY (x - 1) (y - 1) (edit opEqual (src ! nat (x - 1)) # ops)
      else (x, y, ops))"
  by pat_completeness auto
termination
  by (relation "measure (\<lambda>(src, prevX, prevY, x, y, ops). nat (x - prevX))") auto

declare walk_back.simps [simp del]

fun backtrack_loop :: "bytes list \<Rightarrow> bytes list \<Rightarrow> (nat \<times> int list) list \<Rightarrow> int \<Rightarrow> int \<Rightarrow> editOp list \<Rightarrow> editOp list" where
  "backtrack_loop src dst [] x y ops = ops"
| "backtrack_loop src dst ((d, v) # ts) x y ops =
     (let k = x - y;
          prevK = (if goes_down (vmax src dst) v d k then k + 1 else k - 1);
          prevX = at_diag (vmax src dst) v prevK;
          prevY = prevX - prevK
      in case walk_back src prevX prevY x y ops of
           (x1, y1, ops1) \<Rightarrow>
             if d > 0 then
               (if x1 = prevX then backtrack_loop src dst ts x1 (y1 - 1) (edit opInsert (dst ! nat (y1 - 1)) # ops1)
                else backtrack_loop src dst ts (x1 - 1) y1 (edit opDelete (src ! nat (x1 - 1)) # ops1))
             else backtrack_loop src dst ts x1 y1 ops1)"

text \<open>The lines of the two sides of a script.\<close>

definition src_side :: "editOp list \<Rightarrow> bytes list" where
  "src_side ops = map eo_text (filter (\<lambda>op. eo_kind op \<noteq> opInsert) ops)"

definition dst_side :: "editOp list \<Rightarrow> bytes list" where
  "dst_side ops = map eo_text (filter (\<lambda>op. eo_kind op \<noteq> opDelete) ops)"

definition backtrack :: "int list list \<Rightarrow> bytes list \<Rightarrow> bytes list \<Rightarrow> (unit, editOp list) outcome" where
  "backtrack trace src dst =
     (let ops = backtrack_loop src dst (rev (enumerate 0 trace)) (int (length src)) (int (length dst)) [];
          out = dst_side ops
      in if take (length out) dst \<noteq> out
         then Panic ''diff.backtrack: postcondition violated: edit script does not reconstruct dst''
         else if length out \<noteq> length dst then Panic ''diff.backtrack: postcondition violated: edit script length mismatch''
         else Ok ops)"

function myers_loop :: "bytes list \<Rightarrow> bytes list \<Rightarrow> nat \<Rightarrow> int list \<Rightarrow> int list list \<Rightarrow> (unit, editOp list) outcome" where
  "myers_loop src dst d v trace =
     (if d \<le> length src + length dst then
        (case myers_round src dst d (diagonals d) v of
           None \<Rightarrow> backtrack (trace @ [v]) src dst
         | Some v' \<Rightarrow> myers_loop src dst (d + 1) v' (trace @ [v]))
      else Panic ''diff.myers: failed to find edit path'')"
  by pat_completeness auto
termination
  by (relation "measure (\<lambda>(src, dst, d, v, trace). length src + length dst + 1 - d)") auto

declare myers_loop.simps [simp del]

definition myers :: "bytes list \<Rightarrow> bytes list \<Rightarrow> (unit, editOp list) outcome" where
  "myers src dst =
     (if length src = 0 \<and> length dst = 0 then Ok []
      else if length src = 0 then Ok (map (edit opInsert) dst)
      else if length dst = 0 then Ok (map (edit opDelete) src)
      else myers_loop src dst 0 (replicate (2 * (length src + length dst) + 1) 0) [])"

section \<open>Reachable points\<close>

text \<open>A point is reached with \<open>d\<close> insertions and deletions; outside of the two texts there are no diagonals.\<close>

definition matching :: "bytes list \<Rightarrow> bytes list \<Rightarrow> int \<Rightarrow> int \<Rightarrow> bool" where
  "matching src dst x y \<longleftrightarrow> x < int (length src) \<and> y < int (length dst) \<and> src ! nat x = dst ! nat y"

inductive reach :: "bytes list \<Rightarrow> bytes list \<Rightarrow> nat \<Rightarrow> int \<Rightarrow> int \<Rightarrow> bool" for src dst where
  reach_start: "reach src dst 0 0 0"
| reach_diag: "reach src dst d x y \<Longrightarrow> matching src dst x y \<Longrightarrow> reach src dst d (x + 1) (y + 1)"
| reach_right: "reach src dst d x y \<Longrightarrow> reach src dst (Suc d) (x + 1) y"
| reach_down: "reach src dst d x y \<Longrightarrow> reach src dst (Suc d) x (y + 1)"

lemma reach_range: "reach src dst d x y \<Longrightarrow> 0 \<le> x \<and> 0 \<le> y \<and> \<bar>x - y\<bar> \<le> int d \<and> even (x - y + int d)"
  by (induction rule: reach.induct) auto

text \<open>The start of the last diagonal run of a path.\<close>

definition run :: "bytes list \<Rightarrow> bytes list \<Rightarrow> int \<Rightarrow> int \<Rightarrow> int \<Rightarrow> bool" where
  "run src dst k x1 x \<longleftrightarrow> x1 \<le> x \<and> (\<forall>z. x1 \<le> z \<and> z < x \<longrightarrow> matching src dst z (z - k))"

lemma reach_last_run:
  "reach src dst d x y \<Longrightarrow>
   \<exists>x1. run src dst (x - y) x1 x \<and>
     (d = 0 \<and> x1 = 0 \<and> x = y \<or>
      (\<exists>d'. d = Suc d' \<and> (reach src dst d' (x1 - 1) (x1 - (x - y)) \<or> reach src dst d' x1 (x1 - (x - y) - 1))))"
proof (induction rule: reach.induct)
  case reach_start
  show ?case by (intro exI [of _ 0]) (auto simp: run_def)
next
  case (reach_diag d x y)
  then obtain x1 where x1: "run src dst (x - y) x1 x"
    "d = 0 \<and> x1 = 0 \<and> x = y \<or>
      (\<exists>d'. d = Suc d' \<and> (reach src dst d' (x1 - 1) (x1 - (x - y)) \<or> reach src dst d' x1 (x1 - (x - y) - 1)))" by blast
  have "matching src dst z (z - (x - y))" if "x1 \<le> z" "z < x + 1" for z
    using x1(1) reach_diag.hyps(2) that by (cases "z = x") (auto simp: run_def)
  then have "run src dst (x + 1 - (y + 1)) x1 (x + 1)" using x1(1) by (auto simp: run_def)
  with x1(2) show ?case by (intro exI [of _ x1]) auto
next
  case (reach_right d x y)
  then show ?case by (intro exI [of _ "x + 1"]) (auto simp: run_def)
next
  case (reach_down d x y)
  then show ?case by (intro exI [of _ x]) (auto simp: run_def)
qed

lemma reach_run: "run src dst k x1 x \<Longrightarrow> reach src dst d x1 (x1 - k) \<Longrightarrow> reach src dst d x (x - k)"
proof (induction "nat (x - x1)" arbitrary: x)
  case 0
  then show ?case by (simp add: run_def)
next
  case (Suc n)
  then have "run src dst k x1 (x - 1)" "matching src dst (x - 1) (x - 1 - k)" by (auto simp: run_def)
  with Suc.hyps(1) [of "x - 1"] Suc.hyps(2) Suc.prems(2) have "reach src dst d (x - 1) (x - 1 - k)" by simp
  from reach_diag [OF this \<open>matching src dst (x - 1) (x - 1 - k)\<close>] show ?case by (simp add: algebra_simps)
qed

lemma snake_runs:
  "run src dst (x - y) x (snake src dst x y) \<and> \<not> matching src dst (snake src dst x y) (snake src dst x y - (x - y))"
proof (induction src dst x y rule: snake.induct)
  case (1 src dst x y)
  show ?case
  proof (cases "matching src dst x y")
    case True
    then have s: "snake src dst x y = snake src dst (x + 1) (y + 1)"
      by (subst snake.simps) (simp add: matching_def)
    from "1" True have ih: "run src dst (x - y) (x + 1) (snake src dst (x + 1) (y + 1))"
        "\<not> matching src dst (snake src dst (x + 1) (y + 1)) (snake src dst (x + 1) (y + 1) - (x - y))"
      by (auto simp: matching_def)
    have "matching src dst z (z - (x - y))" if "x \<le> z" "z < snake src dst (x + 1) (y + 1)" for z
      using ih(1) True that by (cases "z = x") (auto simp: run_def)
    with ih show ?thesis by (auto simp: s run_def)
  next
    case False
    then have "snake src dst x y = x" by (subst snake.simps) (auto simp: matching_def)
    with False show ?thesis by (auto simp: run_def)
  qed
qed

lemma snake_run:
  "run src dst k x (snake src dst x (x - k))" "\<not> matching src dst (snake src dst x (x - k)) (snake src dst x (x - k) - k)"
  using snake_runs [of src dst x "x - k"] by simp_all

lemma run_snake_le:
  assumes "run src dst k x1 x" "x1 \<le> x0"
  shows "x \<le> snake src dst x0 (x0 - k)"
proof (rule ccontr)
  let ?s = "snake src dst x0 (x0 - k)"
  assume "\<not> x \<le> ?s"
  moreover have "x0 \<le> ?s" using snake_run(1) [of src dst k x0] by (simp add: run_def)
  ultimately have "matching src dst ?s (?s - k)" using assms by (simp add: run_def)
  with snake_run(2) show False by blast
qed

section \<open>The furthest points\<close>

definition furthest :: "bytes list \<Rightarrow> bytes list \<Rightarrow> nat \<Rightarrow> int \<Rightarrow> int \<Rightarrow> bool" where
  "furthest src dst d k x \<longleftrightarrow> reach src dst d x (x - k) \<and> (\<forall>z. reach src dst d z (z - k) \<longrightarrow> z \<le> x)"

definition on_front :: "nat \<Rightarrow> int \<Rightarrow> bool" where
  "on_front d k \<longleftrightarrow> \<bar>k\<bar> \<le> int d \<and> even (k + int d)"

lemma on_front_step:
  "on_front (Suc d) k \<Longrightarrow> k \<noteq> int (Suc d) \<Longrightarrow> on_front d (k + 1)" "on_front (Suc d) k \<Longrightarrow> k \<noteq> - int (Suc d) \<Longrightarrow> on_front d (k - 1)"
  unfolding on_front_def by presburger+

lemma reach_on_front: "reach src dst d x (x - k) \<Longrightarrow> on_front d k"
  using reach_range [of src dst d x "x - k"] by (simp add: on_front_def)

lemma furthest_unique: "furthest src dst d k x \<Longrightarrow> furthest src dst d k x' \<Longrightarrow> x = x'"
  by (meson furthest_def order_antisym)

lemma furthest_range: "furthest src dst d k x \<Longrightarrow> 0 \<le> x \<and> 0 \<le> x - k"
  using reach_range [of src dst d x "x - k"] by (simp add: furthest_def)

text \<open>The array before round \<open>d\<close> holds the furthest points of the round before.\<close>

definition before_round :: "bytes list \<Rightarrow> bytes list \<Rightarrow> nat \<Rightarrow> int list \<Rightarrow> bool" where
  "before_round src dst d v \<longleftrightarrow>
     (case d of 0 \<Rightarrow> at_diag (vmax src dst) v 1 = 0
      | Suc e \<Rightarrow> (\<forall>k. on_front e k \<longrightarrow> furthest src dst e k (at_diag (vmax src dst) v k)))"

lemma furthest_step:
  assumes "before_round src dst d v" "on_front d k"
  shows "furthest src dst d k (snake src dst (first_x (vmax src dst) v d k) (first_x (vmax src dst) v d k - k))"
proof (cases d)
  case 0
  with assms have k: "k = 0" "first_x (vmax src dst) v d k = 0"
    by (auto simp: on_front_def before_round_def first_x_def goes_down_def)
  have "reach src dst 0 (snake src dst 0 0) (snake src dst 0 0)"
    using reach_run [OF snake_run(1) [of src dst 0 0]] reach_start by simp
  moreover have "z \<le> snake src dst 0 0" if "reach src dst 0 z z" for z
    using reach_last_run [OF that] run_snake_le [of src dst 0 0 z 0] by auto
  ultimately show ?thesis using 0 k by (simp add: furthest_def)
next
  case (Suc e)
  let ?V = "at_diag (vmax src dst) v" and ?x0 = "first_x (vmax src dst) v d k"
  have V: "furthest src dst e j (?V j)" if "on_front e j" for j
    using assms(1) Suc that by (simp add: before_round_def)
  have up: "on_front e (k + 1)" if "k \<noteq> int d" using that assms(2) on_front_step Suc by blast
  have lo: "on_front e (k - 1)" if "k \<noteq> - int d" using that assms(2) on_front_step Suc by blast
  have d0: "k = - int d \<Longrightarrow> k \<noteq> int d" using Suc by simp
  have reach0: "reach src dst d ?x0 (?x0 - k)"
  proof (cases "goes_down (vmax src dst) v d k")
    case True
    then have "k \<noteq> int d" using d0 by (auto simp: goes_down_def)
    from V [OF up [OF this]] have "reach src dst e (?V (k + 1)) (?V (k + 1) - (k + 1))" by (simp add: furthest_def)
    from reach_down [OF this] True Suc show ?thesis by (simp add: first_x_def)
  next
    case False
    then have "k \<noteq> - int d" by (auto simp: goes_down_def)
    from V [OF lo [OF this]] have "reach src dst e (?V (k - 1)) (?V (k - 1) - (k - 1))" by (simp add: furthest_def)
    from reach_right [OF this] False Suc show ?thesis by (simp add: first_x_def algebra_simps)
  qed
  have "z \<le> snake src dst ?x0 (?x0 - k)" if z: "reach src dst d z (z - k)" for z
  proof -
    from reach_last_run [OF z] Suc obtain x1 where x1: "run src dst k x1 z"
      "reach src dst e (x1 - 1) (x1 - k) \<or> reach src dst e x1 (x1 - k - 1)" by auto
    have "x1 \<le> ?x0"
      using x1(2)
    proof
      assume r: "reach src dst e (x1 - 1) (x1 - k)"
      then have r': "reach src dst e (x1 - 1) (x1 - 1 - (k - 1))" by simp
      then have f: "on_front e (k - 1)" by (rule reach_on_front)
      then have "k \<noteq> - int d" using Suc by (auto simp: on_front_def)
      moreover have "x1 - 1 \<le> ?V (k - 1)" using V [OF f] r' by (auto simp: furthest_def)
      ultimately show ?thesis by (auto simp: first_x_def goes_down_def)
    next
      assume r: "reach src dst e x1 (x1 - k - 1)"
      then have r': "reach src dst e x1 (x1 - (k + 1))" by (simp add: algebra_simps)
      then have f: "on_front e (k + 1)" by (rule reach_on_front)
      then have "k \<noteq> int d" using Suc by (auto simp: on_front_def)
      moreover have "x1 \<le> ?V (k + 1)" using V [OF f] r' by (auto simp: furthest_def)
      ultimately show ?thesis by (auto simp: first_x_def goes_down_def)
    qed
    with x1(1) show ?thesis by (rule run_snake_le)
  qed
  with reach_run [OF snake_run(1) reach0] show ?thesis by (simp add: furthest_def)
qed

section \<open>The rounds\<close>

lemma at_diag_update:
  assumes "\<bar>k\<bar> \<le> mx" "\<bar>j\<bar> \<le> mx" "int (length v) = 2 * mx + 1"
  shows "at_diag mx (v[nat (k + mx) := x]) j = (if j = k then x else at_diag mx v j)"
proof -
  have "nat (k + mx) < length v" "nat (j + mx) = nat (k + mx) \<longleftrightarrow> j = k" using assms by auto
  then show ?thesis by (auto simp: at_diag_def nth_list_update)
qed

lemma set_diagonals: "set (diagonals d) = {k. on_front d k}"
proof (intro equalityI subsetI)
  fix k assume "k \<in> {k. on_front d k}"
  then have "k = 2 * int (nat ((k + int d) div 2)) - int d" "nat ((k + int d) div 2) \<in> {0..<d + 1}" by (auto simp: on_front_def)
  then show "k \<in> set (diagonals d)" unfolding diagonals_def set_map set_upt by (rule image_eqI)
qed (auto simp: diagonals_def on_front_def)

text \<open>The end has been reached on a diagonal.\<close>

definition at_end :: "bytes list \<Rightarrow> bytes list \<Rightarrow> nat \<Rightarrow> int \<Rightarrow> bool" where
  "at_end src dst d k \<longleftrightarrow> (\<exists>x. furthest src dst d k x \<and> x \<ge> int (length src) \<and> x - k \<ge> int (length dst))"

lemma before_round_update:
  assumes "before_round src dst d v" "on_front d k" "int (length v) = 2 * vmax src dst + 1" "int d \<le> vmax src dst" "1 \<le> vmax src dst"
  shows "before_round src dst d (v[nat (k + vmax src dst) := x])"
proof (cases d)
  case 0
  with assms have "k = 0" by (simp add: on_front_def)
  with assms 0 at_diag_update [of k "vmax src dst" 1 v x] show ?thesis by (simp add: before_round_def)
next
  case (Suc e)
  have "at_diag (vmax src dst) (v[nat (k + vmax src dst) := x]) j = at_diag (vmax src dst) v j" if "on_front e j" for j
  proof -
    have "j \<noteq> k" using that assms(2) Suc by (auto simp: on_front_def)
    with that assms Suc show ?thesis by (simp add: at_diag_update on_front_def)
  qed
  with assms(1) Suc show ?thesis by (simp add: before_round_def)
qed

lemma myers_round_spec:
  assumes "before_round src dst d v" "int (length v) = 2 * vmax src dst + 1" "int d \<le> vmax src dst" "1 \<le> vmax src dst"
    and "\<forall>k \<in> set ks. on_front d k"
    and "\<forall>k. on_front d k \<and> k \<notin> set ks \<longrightarrow> furthest src dst d k (at_diag (vmax src dst) v k)"
  shows "case myers_round src dst d ks v of
      None \<Rightarrow> \<exists>k \<in> set ks. at_end src dst d k
    | Some v' \<Rightarrow> (\<forall>k. on_front d k \<longrightarrow> furthest src dst d k (at_diag (vmax src dst) v' k)) \<and> length v' = length v \<and>
        (\<forall>k \<in> set ks. \<not> at_end src dst d k)"
  using assms
proof (induction ks arbitrary: v)
  case (Cons k ks)
  let ?x0 = "first_x (vmax src dst) v d k"
  let ?x = "snake src dst ?x0 (?x0 - k)"
  let ?v = "v[nat (k + vmax src dst) := ?x]"
  have k: "on_front d k" using Cons.prems(5) by simp
  then have f: "furthest src dst d k ?x" using Cons.prems(1) by (rule furthest_step [rotated])
  have fu: "furthest src dst d j (at_diag (vmax src dst) ?v j)" if "on_front d j" "j \<notin> set ks" for j
    using that f k Cons.prems(2,3,6) by (auto simp: at_diag_update on_front_def)
  show ?case
  proof (cases "?x \<ge> int (length src) \<and> ?x - k \<ge> int (length dst)")
    case True
    with f show ?thesis by (auto simp: Let_def at_end_def)
  next
    case False
    then have "\<not> at_end src dst d k" using furthest_unique [OF f] by (auto simp: at_end_def)
    moreover have "before_round src dst d ?v" by (rule before_round_update [OF Cons.prems(1) k Cons.prems(2-4)])
    ultimately show ?thesis
      using Cons.IH [of ?v] Cons.prems fu False by (auto simp: Let_def split: option.split)
  qed
qed simp

section \<open>The first round that reaches the end\<close>

text \<open>A path that leaves the texts costs what it takes to leave them.\<close>

lemma reach_clipped:
  "reach src dst d x y \<Longrightarrow>
   \<exists>e. reach src dst e (min x (int (length src))) (min y (int (length dst))) \<and>
     int e + (x - min x (int (length src))) + (y - min y (int (length dst))) \<le> int d"
proof (induction rule: reach.induct)
  case reach_start
  show ?case by (intro exI [of _ 0]) (auto intro: reach.reach_start)
next
  case (reach_diag d x y)
  then obtain e where "reach src dst e x y" "e \<le> d" by (auto simp: matching_def)
  with reach.reach_diag [OF this(1) reach_diag.hyps(2)] reach_diag.hyps(2) show ?case
    by (intro exI [of _ e]) (auto simp: matching_def)
next
  case (reach_right d x y)
  then obtain e where e: "reach src dst e (min x (int (length src))) (min y (int (length dst)))"
    "int e + (x - min x (int (length src))) + (y - min y (int (length dst))) \<le> int d" by blast
  show ?case
  proof (cases "x < int (length src)")
    case True
    with reach.reach_right [OF e(1)] e(2) show ?thesis by (intro exI [of _ "Suc e"]) auto
  qed (use e in \<open>auto intro!: exI [of _ e]\<close>)
next
  case (reach_down d x y)
  then obtain e where e: "reach src dst e (min x (int (length src))) (min y (int (length dst)))"
    "int e + (x - min x (int (length src))) + (y - min y (int (length dst))) \<le> int d" by blast
  show ?case
  proof (cases "y < int (length dst)")
    case True
    with reach.reach_down [OF e(1)] e(2) show ?thesis by (intro exI [of _ "Suc e"]) auto
  qed (use e in \<open>auto intro!: exI [of _ e]\<close>)
qed

lemma reach_all: "reach src dst (i + j) (int i) (int j)"
proof (induction i)
  case 0
  show ?case
  proof (induction j)
    case (Suc j)
    from reach_down [OF this] show ?case by (simp add: algebra_simps)
  qed (simp add: reach_start)
next
  case (Suc i)
  from reach_right [OF this] show ?case by (simp add: algebra_simps)
qed

abbreviation reach_end :: "bytes list \<Rightarrow> bytes list \<Rightarrow> nat \<Rightarrow> bool" where
  "reach_end src dst d \<equiv> reach src dst d (int (length src)) (int (length dst))"

lemma furthest_end:
  assumes "reach_end src dst e" "\<And>k. on_front e k \<Longrightarrow> \<exists>x. furthest src dst e k x"
  shows "\<exists>k. on_front e k \<and> at_end src dst e k"
proof -
  let ?k = "int (length src) - int (length dst)"
  have k: "on_front e ?k" using assms(1) by (intro reach_on_front [of src dst e "int (length src)"]) simp
  then obtain x where x: "furthest src dst e ?k x" using assms(2) by blast
  with assms(1) have "int (length src) \<le> x" by (auto simp: furthest_def)
  with x have "at_end src dst e ?k" unfolding at_end_def by (intro exI [of _ x]) simp
  with k show ?thesis by blast
qed

text \<open>The first round that reaches an end reaches the corner, and no shorter path does.\<close>

lemma first_end:
  assumes "at_end src dst d k"
    and "\<And>e. e < d \<Longrightarrow> (\<forall>k. on_front e k \<longrightarrow> (\<exists>x. furthest src dst e k x)) \<and> (\<forall>k. on_front e k \<longrightarrow> \<not> at_end src dst e k)"
  shows "furthest src dst d (int (length src) - int (length dst)) (int (length src))" "reach_end src dst e \<Longrightarrow> d \<le> e"
proof -
  show min: "d \<le> e" if "reach_end src dst e" for e
    using furthest_end [OF that] assms(2) [of e] by (meson linorder_not_less)
  from assms(1) obtain x where x: "furthest src dst d k x" "x \<ge> int (length src)" "x - k \<ge> int (length dst)"
    by (auto simp: at_end_def)
  then have "reach src dst d x (x - k)" by (simp add: furthest_def)
  from reach_clipped [OF this] x obtain e where e: "reach_end src dst e"
    "int e + (x - int (length src)) + (x - k - int (length dst)) \<le> int d" by auto
  with min [OF e(1)] x have "x = int (length src)" "k = int (length src) - int (length dst)" by auto
  with x(1) show "furthest src dst d (int (length src) - int (length dst)) (int (length src))" by simp
qed

section \<open>The edit script\<close>

definition edits :: "editOp list \<Rightarrow> nat" where
  "edits ops = length (filter (\<lambda>op. eo_kind op \<noteq> opEqual) ops)"

lemma sides_append [simp]:
  "src_side (xs @ ys) = src_side xs @ src_side ys" "dst_side (xs @ ys) = dst_side xs @ dst_side ys" "edits (xs @ ys) = edits xs + edits ys"
  by (simp_all add: src_side_def dst_side_def edits_def)

lemma sides_simps [simp]:
  "src_side [] = []" "dst_side [] = []" "edits [] = 0"
  "src_side (op # ops) = (if eo_kind op = opInsert then [] else [eo_text op]) @ src_side ops"
  "dst_side (op # ops) = (if eo_kind op = opDelete then [] else [eo_text op]) @ dst_side ops"
  "edits (op # ops) = (if eo_kind op = opEqual then 0 else 1) + edits ops"
  by (simp_all add: src_side_def dst_side_def edits_def)

lemma sides_map [simp]:
  "src_side (map (edit opEqual) ls) = ls" "dst_side (map (edit opEqual) ls) = ls" "edits (map (edit opEqual) ls) = 0"
  "src_side (map (edit opInsert) ls) = []" "dst_side (map (edit opInsert) ls) = ls" "edits (map (edit opInsert) ls) = length ls"
  "src_side (map (edit opDelete) ls) = ls" "dst_side (map (edit opDelete) ls) = []" "edits (map (edit opDelete) ls) = length ls"
  by (induction ls) auto

definition between :: "int \<Rightarrow> int \<Rightarrow> bytes list \<Rightarrow> bytes list" where
  "between x0 x ls = drop (nat x0) (take (nat x) ls)"

lemma between_same [simp]: "between x x ls = []"
  by (simp add: between_def)

lemma between_snoc: "0 \<le> x0 \<Longrightarrow> x0 < x \<Longrightarrow> x \<le> int (length ls) \<Longrightarrow> between x0 x ls = between x0 (x - 1) ls @ [ls ! nat (x - 1)]"
proof -
  assume a: "0 \<le> x0" "x0 < x" "x \<le> int (length ls)"
  then have "take (nat x) ls = take (nat (x - 1)) ls @ [ls ! nat (x - 1)]"
    using take_Suc_conv_app_nth [of "nat (x - 1)" ls] by (simp add: nat_diff_distrib' Suc_diff_1)
  moreover have "nat x0 \<le> length (take (nat (x - 1)) ls)" using a by simp
  ultimately show ?thesis by (simp add: between_def)
qed

lemma take_between: "0 \<le> x0 \<Longrightarrow> x0 \<le> x \<Longrightarrow> take (nat x0) ls @ between x0 x ls = take (nat x) ls"
proof -
  assume "0 \<le> x0" "x0 \<le> x"
  then have "take (nat x0) (take (nat x) ls) = take (nat x0) ls" by (simp add: min_def)
  then show ?thesis using append_take_drop_id [of "nat x0" "take (nat x) ls"] by (simp add: between_def)
qed

lemma walk_back_run:
  assumes "0 \<le> x0" "x0 \<le> x" "x \<le> int (length src)" "prevX \<le> x0" "prevY \<le> x0 - k" "prevX = x0 \<or> prevY = x0 - k"
  shows "walk_back src prevX prevY x (x - k) ops = (x0, x0 - k, map (edit opEqual) (between x0 x src) @ ops)"
  using assms
proof (induction "nat (x - x0)" arbitrary: x ops)
  case 0
  then show ?case by (subst walk_back.simps) auto
next
  case (Suc n)
  then have "x0 < x" by simp
  with Suc.prems have "walk_back src prevX prevY x (x - k) ops =
      walk_back src prevX prevY (x - 1) (x - 1 - k) (edit opEqual (src ! nat (x - 1)) # ops)"
    by (subst walk_back.simps) (simp add: algebra_simps)
  with Suc.hyps(1) [of "x - 1"] Suc.hyps(2) Suc.prems \<open>x0 < x\<close> between_snoc [of x0 x src] show ?case by simp
qed

lemma run_between:
  assumes "run src dst k x0 x" "0 \<le> x0" "0 \<le> x0 - k" "x \<le> int (length src)" "x - k \<le> int (length dst)"
  shows "between x0 x src = between (x0 - k) (x - k) dst"
  using assms
proof (induction "nat (x - x0)" arbitrary: x)
  case 0
  then show ?case by (simp add: run_def)
next
  case (Suc n)
  then have x: "x0 < x" by simp
  with Suc.prems have "run src dst k x0 (x - 1)" "matching src dst (x - 1) (x - 1 - k)" by (auto simp: run_def)
  with Suc.hyps(1) [of "x - 1"] Suc.hyps(2) Suc.prems x between_snoc [of x0 x src] between_snoc [of "x0 - k" "x - k" dst]
  show ?case by (simp add: matching_def algebra_simps)
qed

lemma backtrack_loop_script:
  assumes "\<forall>i < length tr. before_round src dst i (tr ! i)" "length tr = Suc d" "furthest src dst d (x - y) x"
    and "x \<le> int (length src)" "y \<le> int (length dst)"
  shows "\<exists>pre. backtrack_loop src dst (rev (enumerate 0 tr)) x y ops = pre @ ops \<and>
    src_side pre = take (nat x) src \<and> dst_side pre = take (nat y) dst \<and> edits pre = d"
  using assms
proof (induction d arbitrary: tr x y ops)
  case (0 tr x y ops)
  from 0(2) obtain v where tr: "tr = [v]" by (cases tr) auto
  with 0(1) have v: "at_diag (vmax src dst) v 1 = 0" "before_round src dst 0 v" by (auto simp: before_round_def)
  from 0(3) have r: "reach src dst 0 x y" by (simp add: furthest_def)
  with reach_range [OF r] have xy: "y = x" "0 \<le> x" by auto
  have f: "first_x (vmax src dst) v 0 0 = 0" using v(1) by (simp add: first_x_def goes_down_def)
  have "x = snake src dst 0 0"
    using furthest_unique [OF 0(3)] furthest_step [OF v(2), of 0] xy by (simp add: f on_front_def)
  then have run: "run src dst 0 0 x" using snake_run(1) [of src dst 0 0] by simp
  have "walk_back src 0 (- 1) x (x - 0) ops = (0, 0 - 0, map (edit opEqual) (between 0 x src) @ ops)"
    using xy 0(4) by (intro walk_back_run) auto
  then have "backtrack_loop src dst (rev (enumerate 0 tr)) x y ops = map (edit opEqual) (between 0 x src) @ ops"
    using xy v(1) by (simp add: tr goes_down_def Let_def)
  moreover have "between 0 x src = take (nat x) src" "between 0 x src = take (nat y) dst"
    using run_between [OF run] 0(4,5) xy by (simp_all add: between_def)
  ultimately show ?case by (intro exI [of _ "map (edit opEqual) (between 0 x src)"]) simp
next
  case (Suc d tr x y ops)
  let ?k = "x - y"
  from Suc.prems(2) obtain tr' v where tr: "tr = tr' @ [v]" "length tr' = Suc d" by (cases tr rule: rev_cases) auto
  have bef: "\<forall>i < length tr'. before_round src dst i (tr' ! i)" and v: "before_round src dst (Suc d) v"
    using Suc.prems(1) tr by (auto simp: nth_append split: if_splits)
  let ?V = "at_diag (vmax src dst) v" and ?x0 = "first_x (vmax src dst) v (Suc d) ?k"
  have V: "furthest src dst d j (?V j)" if "on_front d j" for j using v that by (simp add: before_round_def)
  from Suc.prems(3) have r: "reach src dst (Suc d) x (x - ?k)" by (simp add: furthest_def)
  note front = reach_on_front [OF r]
  have xs: "x = snake src dst ?x0 (?x0 - ?k)" using furthest_unique [OF Suc.prems(3) furthest_step [OF v front]] .
  then have run: "run src dst ?k ?x0 x" using snake_run(1) by metis
  then have le: "?x0 \<le> x" by (simp add: run_def)
  have eo: "rev (enumerate 0 tr) = (Suc d, v) # rev (enumerate 0 tr')" using tr by (simp add: enumerate_append_eq)
  show ?case
  proof (cases "goes_down (vmax src dst) v (Suc d) ?k")
    case True
    then have x0: "?x0 = ?V (?k + 1)" by (simp add: first_x_def)
    have "?k \<noteq> int (Suc d)" using True by (auto simp: goes_down_def)
    with front have "on_front d (?k + 1)" by (rule on_front_step)
    from V [OF this] x0 have f0: "furthest src dst d (?k + 1) ?x0" by simp
    then have pos: "0 \<le> ?x0" "0 \<le> ?x0 - ?k - 1" using furthest_range by fastforce+
    have "?x0 - (?x0 - ?k - 1) = ?k + 1" by simp
    with f0 have f: "furthest src dst d (?x0 - (?x0 - ?k - 1)) ?x0" by (simp only:)
    have "walk_back src ?x0 (?x0 - (?k + 1)) x (x - ?k) ops = (?x0, ?x0 - ?k, map (edit opEqual) (between ?x0 x src) @ ops)"
      using pos le Suc.prems(4) by (intro walk_back_run) auto
    then have step: "backtrack_loop src dst (rev (enumerate 0 tr)) x y ops =
        backtrack_loop src dst (rev (enumerate 0 tr')) ?x0 (?x0 - ?k - 1)
          (edit opInsert (dst ! nat (?x0 - ?k - 1)) # map (edit opEqual) (between ?x0 x src) @ ops)"
      using True x0 by (simp add: eo Let_def)
    have in_dst: "?x0 - ?k \<le> int (length dst)" using le Suc.prems(5) by simp
    then have bound: "?x0 \<le> int (length src)" "?x0 - ?k - 1 \<le> int (length dst)" using le Suc.prems(4) by simp_all
    obtain pre where pre: "backtrack_loop src dst (rev (enumerate 0 tr')) ?x0 (?x0 - ?k - 1)
          (edit opInsert (dst ! nat (?x0 - ?k - 1)) # map (edit opEqual) (between ?x0 x src) @ ops) =
          pre @ edit opInsert (dst ! nat (?x0 - ?k - 1)) # map (edit opEqual) (between ?x0 x src) @ ops"
        "src_side pre = take (nat ?x0) src" "dst_side pre = take (nat (?x0 - ?k - 1)) dst" "edits pre = d"
      using Suc.IH [OF bef tr(2) f bound] by metis
    have "take (nat (?x0 - ?k - 1)) dst @ [dst ! nat (?x0 - ?k - 1)] = take (nat (?x0 - ?k)) dst"
      using between_snoc [of "?x0 - ?k - 1" "?x0 - ?k" dst] take_between [of "?x0 - ?k - 1" "?x0 - ?k" dst] pos in_dst by simp
    moreover have "take (nat (?x0 - ?k)) dst @ between ?x0 x src = take (nat y) dst"
      using run_between [OF run] take_between [of "?x0 - ?k" y dst] pos le Suc.prems(4,5) by simp
    moreover have "take (nat ?x0) src @ between ?x0 x src = take (nat x) src" using take_between pos le by simp
    ultimately show ?thesis
      using step pre
      by (intro exI [of _ "pre @ edit opInsert (dst ! nat (?x0 - ?k - 1)) # map (edit opEqual) (between ?x0 x src)"])
        (simp, metis append.assoc append_Cons append_Nil)
  next
    case False
    then have x0: "?x0 = ?V (?k - 1) + 1" by (simp add: first_x_def)
    have "?k \<noteq> - int (Suc d)" using False by (auto simp: goes_down_def)
    with front have "on_front d (?k - 1)" by (rule on_front_step)
    from V [OF this] x0 have f0: "furthest src dst d (?k - 1) (?x0 - 1)" by simp
    then have pos: "0 \<le> ?x0 - 1" "0 \<le> ?x0 - ?k" using furthest_range by fastforce+
    have "?x0 - 1 - (?x0 - ?k) = ?k - 1" by simp
    with f0 have f: "furthest src dst d (?x0 - 1 - (?x0 - ?k)) (?x0 - 1)" by (simp only:)
    have "walk_back src (?x0 - 1) (?x0 - 1 - (?k - 1)) x (x - ?k) ops = (?x0, ?x0 - ?k, map (edit opEqual) (between ?x0 x src) @ ops)"
      using pos le Suc.prems(4) by (intro walk_back_run) auto
    then have step: "backtrack_loop src dst (rev (enumerate 0 tr)) x y ops =
        backtrack_loop src dst (rev (enumerate 0 tr')) (?x0 - 1) (?x0 - ?k)
          (edit opDelete (src ! nat (?x0 - 1)) # map (edit opEqual) (between ?x0 x src) @ ops)"
      using False x0 by (simp add: eo Let_def algebra_simps)
    have in_dst: "?x0 - ?k \<le> int (length dst)" using le Suc.prems(5) by simp
    have bound: "?x0 - 1 \<le> int (length src)" "?x0 - ?k \<le> int (length dst)" using le in_dst Suc.prems(4) by simp_all
    obtain pre where pre: "backtrack_loop src dst (rev (enumerate 0 tr')) (?x0 - 1) (?x0 - ?k)
          (edit opDelete (src ! nat (?x0 - 1)) # map (edit opEqual) (between ?x0 x src) @ ops) =
          pre @ edit opDelete (src ! nat (?x0 - 1)) # map (edit opEqual) (between ?x0 x src) @ ops"
        "src_side pre = take (nat (?x0 - 1)) src" "dst_side pre = take (nat (?x0 - ?k)) dst" "edits pre = d"
      using Suc.IH [OF bef tr(2) f bound] by metis
    have "take (nat (?x0 - 1)) src @ [src ! nat (?x0 - 1)] = take (nat ?x0) src"
      using between_snoc [of "?x0 - 1" ?x0 src] take_between [of "?x0 - 1" ?x0 src] pos le Suc.prems(4) by simp
    moreover have "take (nat (?x0 - ?k)) dst @ between ?x0 x src = take (nat y) dst"
      using run_between [OF run] take_between [of "?x0 - ?k" y dst] pos le Suc.prems(4,5) by simp
    moreover have "take (nat ?x0) src @ between ?x0 x src = take (nat x) src" using take_between pos le by simp
    ultimately show ?thesis
      using step pre
      by (intro exI [of _ "pre @ edit opDelete (src ! nat (?x0 - 1)) # map (edit opEqual) (between ?x0 x src)"])
        (simp, metis append.assoc append_Cons append_Nil)
  qed
qed

section \<open>The script is shortest\<close>

lemma script_reach:
  assumes "src_side ops = take i src" "dst_side ops = take j dst" "i \<le> length src" "j \<le> length dst"
  shows "reach src dst (edits ops) (int i) (int j)"
  using assms
proof (induction ops arbitrary: i j rule: rev_induct)
  case Nil
  then have "i = 0" "j = 0" by (cases src; cases dst; auto)+
  then show ?case by (simp add: reach_start)
next
  case (snoc op ops)
  have last: "\<exists>i'. i = Suc i' \<and> xs = take i' ls \<and> t = ls ! i'" if "xs @ [t] = take i ls" "i \<le> length ls" for xs t i and ls :: "bytes list"
  proof -
    have "length (xs @ [t]) = i" using that by (metis length_take min_absorb2)
    then obtain i' where i': "i = Suc i'" "length xs = i'" by auto
    with that take_Suc_conv_app_nth [of i' ls] show ?thesis by auto
  qed
  show ?case
  proof (cases "eo_kind op")
    case opEqual
    with snoc.prems obtain i' j' where "i = Suc i'" "src_side ops = take i' src" "eo_text op = src ! i'"
      "j = Suc j'" "dst_side ops = take j' dst" "eo_text op = dst ! j'"
      using last [of "src_side ops" "eo_text op" i src] last [of "dst_side ops" "eo_text op" j dst] by auto
    with snoc.IH [of i' j'] reach_diag [of src dst "edits ops" "int i'" "int j'"] snoc.prems(3,4) opEqual show ?thesis
      by (simp add: matching_def algebra_simps)
  next
    case opInsert
    with snoc.prems obtain j' where "src_side ops = take i src" "j = Suc j'" "dst_side ops = take j' dst"
      using last [of "dst_side ops" "eo_text op" j dst] by auto
    with snoc.IH [of i j'] reach_down [of src dst "edits ops" "int i" "int j'"] snoc.prems(3,4) opInsert show ?thesis
      by (simp add: algebra_simps)
  next
    case opDelete
    with snoc.prems obtain i' where "dst_side ops = take j dst" "i = Suc i'" "src_side ops = take i' src"
      using last [of "src_side ops" "eo_text op" i src] by auto
    with snoc.IH [of i' j] reach_right [of src dst "edits ops" "int i'" "int j"] snoc.prems(3,4) opDelete show ?thesis
      by (simp add: algebra_simps)
  qed
qed

text \<open>A script between two texts.\<close>

definition script :: "bytes list \<Rightarrow> bytes list \<Rightarrow> editOp list \<Rightarrow> bool" where
  "script src dst ops \<longleftrightarrow> src_side ops = src \<and> dst_side ops = dst"

lemma script_lower: "script src dst ops \<Longrightarrow> reach_end src dst (edits ops)"
  using script_reach [of ops "length src" src "length dst" dst] by (simp add: script_def)

definition round_failed :: "bytes list \<Rightarrow> bytes list \<Rightarrow> nat \<Rightarrow> bool" where
  "round_failed src dst e \<longleftrightarrow> (\<forall>k. on_front e k \<longrightarrow> (\<exists>x. furthest src dst e k x)) \<and> (\<forall>k. on_front e k \<longrightarrow> \<not> at_end src dst e k)"

lemma myers_loop_script:
  assumes "before_round src dst d v" "int (length v) = 2 * vmax src dst + 1" "1 \<le> vmax src dst" "length trace = d"
    and "\<forall>i < d. before_round src dst i (trace ! i)" "\<forall>e < d. round_failed src dst e"
  shows "\<exists>ops. myers_loop src dst d v trace = Ok ops \<and> script src dst ops \<and> (\<forall>e. reach_end src dst e \<longrightarrow> edits ops \<le> e)"
  using assms
proof (induction src dst d v trace rule: myers_loop.induct)
  case (1 src dst d v trace)
  have all: "reach_end src dst (length src + length dst)" by (rule reach_all)
  have d: "d \<le> length src + length dst"
  proof (rule ccontr)
    assume "\<not> d \<le> length src + length dst"
    with "1.prems"(6) have "round_failed src dst (length src + length dst)" by simp
    with furthest_end [OF all] show False by (auto simp: round_failed_def)
  qed
  then have d': "int d \<le> vmax src dst" by (simp add: vmax_def)
  note spec = myers_round_spec [OF "1.prems"(1,2) d' "1.prems"(3), of "diagonals d"]
  show ?case
  proof (cases "myers_round src dst d (diagonals d) v")
    case None
    with spec obtain k where "at_end src dst d k" by (auto simp: set_diagonals)
    note fe = first_end [OF this "1.prems"(6) [unfolded round_failed_def, rule_format]]
    have "\<forall>i < length (trace @ [v]). before_round src dst i ((trace @ [v]) ! i)"
      using "1.prems"(1,4,5) by (auto simp: nth_append less_Suc_eq)
    from backtrack_loop_script [OF this _ fe(1), of "[]"] "1.prems"(4) obtain ops where
      ops: "backtrack_loop src dst (rev (enumerate 0 (trace @ [v]))) (int (length src)) (int (length dst)) [] = ops"
        "src_side ops = src" "dst_side ops = dst" "edits ops = d" by auto
    then have "myers_loop src dst d v trace = Ok ops"
      using d None by (subst myers_loop.simps) (simp add: backtrack_def Let_def)
    with ops(2-4) fe(2) show ?thesis by (auto simp: script_def)
  next
    case (Some v')
    with spec have s: "\<forall>k. on_front d k \<longrightarrow> furthest src dst d k (at_diag (vmax src dst) v' k)" "length v' = length v"
      "\<forall>k. on_front d k \<longrightarrow> \<not> at_end src dst d k" by (auto simp: set_diagonals)
    have "\<exists>ops. myers_loop src dst (d + 1) v' (trace @ [v]) = Ok ops \<and> script src dst ops \<and>
        (\<forall>e. reach_end src dst e \<longrightarrow> edits ops \<le> e)"
    proof (rule "1.IH" [OF d Some])
      show "before_round src dst (d + 1) v'" using s(1) by (simp add: before_round_def)
      show "\<forall>i < d + 1. before_round src dst i ((trace @ [v]) ! i)"
        using "1.prems"(1,4,5) by (auto simp: nth_append less_Suc_eq)
      show "\<forall>e < d + 1. round_failed src dst e"
        using "1.prems"(6) s(1,3) by (auto simp: less_Suc_eq round_failed_def)
    qed (use "1.prems" s(2) in simp_all)
    with d Some show ?thesis by (subst myers_loop.simps) simp
  qed
qed

lemma myers_script:
  "\<exists>ops. myers src dst = Ok ops \<and> script src dst ops \<and> (\<forall>e. reach_end src dst e \<longrightarrow> edits ops \<le> e)"
proof -
  have range: "int (length src) - int (length dst) \<le> int e \<and> int (length dst) - int (length src) \<le> int e" if "reach_end src dst e" for e
    using reach_range [OF that] by auto
  consider "src = []" | "dst = []" | "src \<noteq> []" "dst \<noteq> []" by blast
  then show ?thesis
  proof cases
    case 1
    with range show ?thesis by (cases dst) (auto simp: myers_def script_def, force+)
  next
    case 2
    with range show ?thesis by (cases src) (auto simp: myers_def script_def, force+)
  next
    case 3
    then have mx: "1 \<le> vmax src dst" by (cases src) (auto simp: vmax_def)
    let ?v = "replicate (2 * (length src + length dst) + 1) 0 :: int list"
    have "nat (1 + vmax src dst) < length ?v" using mx by (simp add: vmax_def)
    then have "before_round src dst 0 ?v" by (simp add: before_round_def at_diag_def del: replicate.simps)
    from myers_loop_script [OF this _ mx, of "[]"] 3 show ?thesis by (simp add: myers_def vmax_def)
  qed
qed

text \<open>
  Claim C19.  \<open>myers\<close> never panics: it returns a script that turns the first text into the second, and no script between
  the two has fewer insertions and deletions.
\<close>

theorem myers_shortest:
  "\<exists>ops. myers src dst = Ok ops \<and> script src dst ops \<and> (\<forall>ops'. script src dst ops' \<longrightarrow> edits ops \<le> edits ops')"
  using myers_script [of src dst] script_lower by blast

theorem myers_shortest_witness:
  "\<exists>ops. myers [''a'', ''b'', ''c''] [''b'', ''c'', ''d''] = Ok ops \<and> edits ops \<le> 2"
proof -
  have "script [''a'', ''b'', ''c''] [''b'', ''c'', ''d''] [edit opDelete ''a'', edit opEqual ''b'', edit opEqual ''c'', edit opInsert ''d'']"
    by (simp add: script_def)
  with myers_shortest [of "[''a'', ''b'', ''c'']" "[''b'', ''c'', ''d'']"] show ?thesis by fastforce
qed

end
