(* ===== verification/Diff_Unified.thy ===== *)
theory Diff_Unified
  imports Diff
begin

text \<open>
  Hunks with context, the unified format and the statistics of a difference (\<open>internal/diff/diff.go\<close>).
  A number of context lines is far below \<open>2\<^sup>6\<^sup>2\<close>, so its sums do not wrap.
\<close>

section \<open>Hunks\<close>

record unified_hunk =
  hk_srcStart :: nat
  hk_srcCount :: nat
  hk_dstStart :: nat
  hk_dstCount :: nat
  hk_ops :: "editOp list"

text \<open>The ranges of changed operations, from the first to behind the last.\<close>

fun find_changes :: "nat \<Rightarrow> editOp list \<Rightarrow> (nat \<times> nat) list \<Rightarrow> (nat \<times> nat) list" where
  "find_changes i [] changes = changes"
| "find_changes i (op # ops) changes =
     find_changes (i + 1) ops
       (if eo_kind op \<noteq> opEqual then
          (if length changes = 0 \<or> i > snd (last changes) then changes @ [(i, i + 1)]
           else butlast changes @ [(fst (last changes), i + 1)])
        else changes)"

definition findChanges :: "editOp list \<Rightarrow> (nat \<times> nat) list" where
  "findChanges ops = find_changes 0 ops []"

fun merge_changes :: "nat \<Rightarrow> (nat \<times> nat) list \<Rightarrow> (nat \<times> nat) list \<Rightarrow> (nat \<times> nat) list" where
  "merge_changes c [] merged = merged"
| "merge_changes c (r # rs) merged =
     merge_changes c rs
       (if int (fst r) - int (snd (last merged)) \<le> 2 * int c then butlast merged @ [(fst (last merged), snd r)] else merged @ [r])"

definition mergeAdjacentChanges :: "(nat \<times> nat) list \<Rightarrow> nat \<Rightarrow> (nat \<times> nat) list" where
  "mergeAdjacentChanges changes c = (case changes of [] \<Rightarrow> [] | r # rs \<Rightarrow> merge_changes c rs [r])"

text \<open>The line positions before each operation.\<close>

fun positions :: "nat \<Rightarrow> nat \<Rightarrow> editOp list \<Rightarrow> (nat \<times> nat) list" where
  "positions si di [] = []"
| "positions si di (op # ops) =
     (si, di) # (case eo_kind op of
        opEqual \<Rightarrow> positions (si + 1) (di + 1) ops
      | opDelete \<Rightarrow> positions (si + 1) di ops
      | opInsert \<Rightarrow> positions si (di + 1) ops)"

definition hunk_of :: "editOp list \<Rightarrow> nat \<Rightarrow> nat \<times> nat \<Rightarrow> unified_hunk" where
  "hunk_of ops c = (\<lambda>(first, last).
     let start = first - c;
         end_op = min (last + c) (length ops);
         part = subslice start end_op ops
     in \<lparr>hk_srcStart = fst (positions 0 0 ops ! start) + 1,
         hk_srcCount = length (filter (\<lambda>op. eo_kind op \<noteq> opInsert) part),
         hk_dstStart = snd (positions 0 0 ops ! start) + 1,
         hk_dstCount = length (filter (\<lambda>op. eo_kind op \<noteq> opDelete) part),
         hk_ops = part\<rparr>)"

definition buildHunks :: "editOp list \<Rightarrow> nat \<Rightarrow> unified_hunk list" where
  "buildHunks ops c = map (hunk_of ops c) (mergeAdjacentChanges (findChanges ops) c)"

section \<open>The unified format\<close>

record DiffOptions =
  do_ContextLines :: int
  do_SrcName :: bytes
  do_DstName :: bytes

record DiffStat =
  ds_Insertions :: nat
  ds_Deletions :: nat
  ds_Binary :: bool

definition noNewlineMarker :: bytes where
  "noNewlineMarker = CHR 0x5C # '' No newline at end of file'' @ [NL]"

text \<open>The last operation of a hunk that satisfies a condition, \<open>None\<close> where Go has -1.\<close>

definition last_op :: "(opKind \<Rightarrow> bool) \<Rightarrow> editOp list \<Rightarrow> nat option" where
  "last_op P ops = find (\<lambda>k. P (eo_kind (ops ! k))) (rev [0..<length ops])"

definition format_op :: "nat option \<Rightarrow> nat option \<Rightarrow> nat \<times> editOp \<Rightarrow> bytes" where
  "format_op lastSrc lastDst = (\<lambda>(j, op).
     case eo_kind op of
       opEqual \<Rightarrow> [SPC] @ eo_text op @ [NL] @ (if lastSrc = Some j then noNewlineMarker else []) @
                  (if lastDst = Some j then noNewlineMarker else [])
     | opDelete \<Rightarrow> [CHR ''-''] @ eo_text op @ [NL] @ (if lastSrc = Some j then noNewlineMarker else [])
     | opInsert \<Rightarrow> [CHR ''+''] @ eo_text op @ [NL] @ (if lastDst = Some j then noNewlineMarker else []))"

definition format_hunk :: "bool \<Rightarrow> bool \<Rightarrow> nat \<Rightarrow> nat \<Rightarrow> bool \<Rightarrow> unified_hunk \<Rightarrow> bytes" where
  "format_hunk srcNoNL dstNoNL srcTotal dstTotal isLast h =
     (let lastSrc = (if isLast \<and> srcNoNL \<and> hk_srcStart h + hk_srcCount h = srcTotal + 1
                     then last_op (\<lambda>k. k = opDelete \<or> k = opEqual) (hk_ops h) else None);
          lastDst = (if isLast \<and> dstNoNL \<and> hk_dstStart h + hk_dstCount h = dstTotal + 1
                     then last_op (\<lambda>k. k = opInsert \<or> k = opEqual) (hk_ops h) else None)
      in ''@@ -'' @ show_nat (hk_srcStart h) @ '','' @ show_nat (hk_srcCount h) @ '' +'' @ show_nat (hk_dstStart h) @ '','' @
         show_nat (hk_dstCount h) @ '' @@'' @ [NL] @ concat (map (format_op lastSrc lastDst) (enumerate 0 (hk_ops h))))"

definition diff_header :: "bytes \<Rightarrow> bytes \<Rightarrow> bytes" where
  "diff_header srcName dstName =
     ''--- '' @ (if srcName = [] then ''a'' else srcName) @ [NL] @ ''+++ '' @ (if dstName = [] then ''b'' else dstName) @ [NL]"

definition formatUnified :: "unified_hunk list \<Rightarrow> bytes \<Rightarrow> bytes \<Rightarrow> bool \<Rightarrow> bool \<Rightarrow> nat \<Rightarrow> nat \<Rightarrow> bytes" where
  "formatUnified hunks srcName dstName srcNoNL dstNoNL srcTotal dstTotal =
     (if length hunks = 0 then []
      else diff_header srcName dstName @
        concat (map (\<lambda>(i, h). format_hunk srcNoNL dstNoNL srcTotal dstTotal (i = length hunks - 1) h) (enumerate 0 hunks)))"

definition Unified :: "bytes \<Rightarrow> bytes \<Rightarrow> DiffOptions \<Rightarrow> (unit, bytes) outcome" where
  "Unified a b opts =
     (if do_ContextLines opts < 0 then Panic ''diff.Unified: ContextLines must not be negative''
      else if isBinary a \<or> isBinary b
      then Ok (diff_header (do_SrcName opts) (do_DstName opts) @ ''cannot compute difference between binary files'' @ [NL])
      else case (splitLines_diff a, splitLines_diff b) of
             ((srcLines, srcHasNL), (dstLines, dstHasNL)) \<Rightarrow>
               bind_ok (myers srcLines dstLines) (\<lambda>ops.
                 if list_all (\<lambda>op. eo_kind op = opEqual) ops then Ok []
                 else Ok (formatUnified (buildHunks ops (nat (do_ContextLines opts))) (do_SrcName opts) (do_DstName opts)
                            (\<not> srcHasNL) (\<not> dstHasNL) (length srcLines) (length dstLines))))"

definition Stat :: "bytes \<Rightarrow> bytes \<Rightarrow> (unit, DiffStat) outcome" where
  "Stat a b =
     (if isBinary a \<or> isBinary b then Ok \<lparr>ds_Insertions = 0, ds_Deletions = 0, ds_Binary = True\<rparr>
      else bind_ok (myers (fst (splitLines_diff a)) (fst (splitLines_diff b))) (\<lambda>ops.
             Ok \<lparr>ds_Insertions = length (filter (\<lambda>op. eo_kind op = opInsert) ops),
                 ds_Deletions = length (filter (\<lambda>op. eo_kind op = opDelete) ops), ds_Binary = False\<rparr>))"

section \<open>Hunks patch the text\<close>

lemma positions_nth: "i < length ops \<Longrightarrow>
    positions si di ops ! i = (si + length (src_side (take i ops)), di + length (dst_side (take i ops)))"
proof (induction ops arbitrary: si di i)
  case (Cons op ops)
  then show ?case by (cases i; cases "eo_kind op") simp_all
qed simp

text \<open>Applying hunks to lines, as a patch tool does: the context and the deleted lines must be there.\<close>

fun patch_hunks :: "nat \<Rightarrow> bytes list \<Rightarrow> unified_hunk list \<Rightarrow> bytes list option" where
  "patch_hunks pos src [] = Some (drop pos src)"
| "patch_hunks pos src (h # hs) =
     (let start = hk_srcStart h - 1 in
      if pos \<le> start \<and> take (hk_srcCount h) (drop start src) = src_side (hk_ops h)
      then map_option (\<lambda>rest. subslice pos start src @ dst_side (hk_ops h) @ rest)
             (patch_hunks (start + hk_srcCount h) src hs)
      else None)"

definition range_hunk :: "editOp list \<Rightarrow> nat \<times> nat \<Rightarrow> unified_hunk" where
  "range_hunk ops = (\<lambda>(a, b).
     \<lparr>hk_srcStart = length (src_side (take a ops)) + 1, hk_srcCount = length (src_side (subslice a b ops)),
      hk_dstStart = length (dst_side (take a ops)) + 1, hk_dstCount = length (dst_side (subslice a b ops)), hk_ops = subslice a b ops\<rparr>)"

lemma hunk_of_range: "fst r < length ops \<Longrightarrow> hunk_of ops c r = range_hunk ops (fst r - c, min (snd r + c) (length ops))"
  by (cases r) (simp add: hunk_of_def range_hunk_def positions_nth Let_def src_side_def dst_side_def)

lemma equal_sides: "list_all (\<lambda>op. eo_kind op = opEqual) ops \<Longrightarrow> src_side ops = dst_side ops"
  by (induction ops) auto

fun disjoint_ranges :: "nat \<Rightarrow> nat \<Rightarrow> (nat \<times> nat) list \<Rightarrow> bool" where
  "disjoint_ranges p n [] = (p \<le> n)"
| "disjoint_ranges p n ((a, b) # rs) = (p \<le> a \<and> a < b \<and> disjoint_ranges b n rs)"

lemma disjoint_ranges_le: "disjoint_ranges p n rs \<Longrightarrow> p \<le> n"
  by (induction p n rs rule: disjoint_ranges.induct) auto

definition covers :: "(nat \<times> nat) list \<Rightarrow> nat \<Rightarrow> bool" where
  "covers rs i \<longleftrightarrow> (\<exists>r \<in> set rs. fst r \<le> i \<and> i < snd r)"

lemma disjoint_ranges_lower: "disjoint_ranges p n rs \<Longrightarrow> covers rs i \<Longrightarrow> p \<le> i"
proof (induction p n rs rule: disjoint_ranges.induct)
  case (2 p n a b rs)
  then show ?case by (cases "covers rs i") (auto simp: covers_def)
qed (simp add: covers_def)

lemma patch_hunks_ranges:
  assumes "disjoint_ranges p (length ops) rs" "\<And>i. p \<le> i \<Longrightarrow> i < length ops \<Longrightarrow> \<not> covers rs i \<Longrightarrow> eo_kind (ops ! i) = opEqual"
  shows "patch_hunks (length (src_side (take p ops))) (src_side ops) (map (range_hunk ops) rs) = Some (dst_side (drop p ops))"
  using assms
proof (induction rs arbitrary: p)
  case Nil
  then have "list_all (\<lambda>op. eo_kind op = opEqual) (drop p ops)"
    by (auto simp: list_all_length covers_def)
  then have "src_side (drop p ops) = dst_side (drop p ops)" by (rule equal_sides)
  moreover have "src_side ops = src_side (take p ops) @ src_side (drop p ops)" by (metis append_take_drop_id sides_append(1))
  ultimately show ?case by simp
next
  case (Cons r rs)
  obtain a b where r: "r = (a, b)" by fastforce
  with Cons.prems(1) have ab: "p \<le> a" "a < b" "disjoint_ranges b (length ops) rs" "b \<le> length ops"
    by (auto dest: disjoint_ranges_le)
  have lower: "covers rs i \<Longrightarrow> b \<le> i" for i by (rule disjoint_ranges_lower [OF ab(3)])
  have t: "take a ops = take p ops @ subslice p a ops" "take b ops = take a ops @ subslice a b ops"
    using ab by (simp_all add: take_append_subslice)
  have ops: "ops = take a ops @ subslice a b ops @ drop b ops" using t(2) append_take_drop_id [of b ops] by simp
  have "subslice p b ops @ subslice b (length ops) ops = subslice p (length ops) ops"
    "subslice p a ops @ subslice a b ops = subslice p b ops" using ab by (simp_all add: subslice_append)
  then have dropped: "drop p ops = subslice p a ops @ subslice a b ops @ drop b ops"
    by (metis append.assoc subslice_to_end)
  note parts = t ops dropped
  have "eo_kind (subslice p a ops ! i) = opEqual" if "i < length (subslice p a ops)" for i
  proof -
    have i: "p + i < a" "subslice p a ops ! i = ops ! (p + i)" using that ab by (auto simp: subslice_def)
    then have "\<not> covers (r # rs) (p + i)" using lower [of "p + i"] ab(2) r by (auto simp: covers_def)
    then show ?thesis using Cons.prems(2) [of "p + i"] i ab by simp
  qed
  then have eq: "src_side (subslice p a ops) = dst_side (subslice p a ops)"
    by (intro equal_sides) (simp add: list_all_length)
  let ?A = "src_side (take p ops)" and ?B = "src_side (subslice p a ops)" and ?C = "src_side (subslice a b ops)"
  have "src_side (take a ops) = ?A @ ?B" "src_side (take b ops) = src_side (take a ops) @ ?C"
    using arg_cong [OF parts(1), of src_side] arg_cong [OF parts(2), of src_side] by simp_all
  then have len: "length (src_side (take a ops)) = length ?A + length ?B" "length (src_side (take b ops)) = length ?A + length ?B + length ?C"
    and src: "src_side ops = ?A @ ?B @ ?C @ src_side (drop b ops)"
    using arg_cong [OF parts(3), of src_side] by simp_all
  have ih: "patch_hunks (length (src_side (take b ops))) (src_side ops) (map (range_hunk ops) rs) = Some (dst_side (drop b ops))"
  proof (rule Cons.IH [OF ab(3)])
    fix i assume i: "b \<le> i" "i < length ops" "\<not> covers rs i"
    then have "\<not> covers (r # rs) i" using r by (auto simp: covers_def)
    with i ab Cons.prems(2) [of i] show "eo_kind (ops ! i) = opEqual" by simp
  qed
  have seg: "take (length ?C) (drop (length ?A + length ?B) (src_side ops)) = ?C"
    "subslice (length ?A) (length ?A + length ?B) (src_side ops) = ?B"
    by (subst src, simp add: subslice_def)+
  have out: "dst_side (drop p ops) = ?B @ dst_side (subslice a b ops) @ dst_side (drop b ops)"
    using arg_cong [OF parts(4), of dst_side] eq by simp
  show ?case
    using ih [unfolded len] unfolding r list.map patch_hunks.simps Let_def range_hunk_def
    by (simp only: unified_hunk.simps prod.case len add_diff_cancel_right' seg out) simp
qed

section \<open>The ranges of the hunks\<close>

abbreviation gap :: "nat \<Rightarrow> nat \<times> nat \<Rightarrow> nat \<times> nat \<Rightarrow> bool" where
  "gap g r s \<equiv> snd r + g < fst s"

definition proper :: "nat \<Rightarrow> (nat \<times> nat) list \<Rightarrow> bool" where
  "proper n rs \<longleftrightarrow> (\<forall>r \<in> set rs. fst r < snd r \<and> snd r \<le> n)"

lemma covers_append [simp]: "covers (rs @ ss) i \<longleftrightarrow> covers rs i \<or> covers ss i" "covers ((a, b) # rs) i \<longleftrightarrow> a \<le> i \<and> i < b \<or> covers rs i"
  "\<not> covers [] i"
  by (auto simp: covers_def)

lemma find_changes_spec:
  assumes "sorted_wrt (gap 0) cs" "proper (length pre) cs"
    and "\<And>i. i < length pre \<Longrightarrow> eo_kind (pre ! i) \<noteq> opEqual \<Longrightarrow> covers cs i"
  shows "let out = find_changes (length pre) ops cs in
    sorted_wrt (gap 0) out \<and> proper (length (pre @ ops)) out \<and>
    (\<forall>i < length (pre @ ops). eo_kind ((pre @ ops) ! i) \<noteq> opEqual \<longrightarrow> covers out i)"
  using assms
proof (induction ops arbitrary: pre cs)
  case (Cons op ops)
  let ?n = "length pre"
  define cs' where "cs' = (if eo_kind op \<noteq> opEqual then
          (if length cs = 0 \<or> ?n > snd (last cs) then cs @ [(?n, ?n + 1)] else butlast cs @ [(fst (last cs), ?n + 1)]) else cs)"
  have "sorted_wrt (gap 0) cs' \<and> proper (?n + 1) cs' \<and> (\<forall>i. covers cs i \<longrightarrow> covers cs' i) \<and> (eo_kind op \<noteq> opEqual \<longrightarrow> covers cs' ?n)"
  proof (cases "eo_kind op \<noteq> opEqual")
    case True
    show ?thesis
    proof (cases cs rule: rev_cases)
      case Nil
      with True show ?thesis by (simp add: cs'_def proper_def)
    next
      case (snoc init r)
      obtain a b where r: "r = (a, b)" by fastforce
      with snoc Cons.prems(1,2) have init: "sorted_wrt (gap 0) init" "\<forall>x \<in> set init. snd x < a" "proper ?n init" "a < b" "b \<le> ?n"
        by (auto simp: sorted_wrt_append proper_def)
      show ?thesis
      proof (cases "?n > b")
        case n: True
        then have "cs' = init @ [(a, b), (?n, ?n + 1)]" using True snoc r by (simp add: cs'_def)
        moreover have "snd x < ?n" if "x \<in> set init" for x using init(2,4,5) that by fastforce
        ultimately show ?thesis using init n snoc r by (auto simp: sorted_wrt_append proper_def)
      next
        case False
        then have "cs' = init @ [(a, ?n + 1)]" using True snoc r init(5) by (simp add: cs'_def)
        then show ?thesis using init False snoc r by (auto simp: sorted_wrt_append proper_def)
      qed
    qed
  next
    case False
    with Cons.prems(1,2) show ?thesis by (auto simp: cs'_def proper_def)
  qed
  then have cs': "sorted_wrt (gap 0) cs'" "proper (length (pre @ [op])) cs'" "\<And>i. covers cs i \<Longrightarrow> covers cs' i"
    "eo_kind op \<noteq> opEqual \<Longrightarrow> covers cs' ?n" by simp_all
  have "covers cs' i" if "i < length (pre @ [op])" "eo_kind ((pre @ [op]) ! i) \<noteq> opEqual" for i
    using that cs'(3,4) Cons.prems(3) [of i] by (cases "i = ?n") (auto simp: nth_append)
  from Cons.IH [OF cs'(1,2) this] show ?case by (simp add: cs'_def [symmetric])
qed simp

lemma merge_changes_spec:
  assumes "ms \<noteq> []" "sorted_wrt (gap (2 * c)) ms" "proper n (ms @ rs)" "sorted_wrt (gap 0) (last ms # rs)"
  shows "let out = merge_changes c rs ms in
    sorted_wrt (gap (2 * c)) out \<and> proper n out \<and> (\<forall>i. covers (ms @ rs) i \<longrightarrow> covers out i)"
  using assms
proof (induction rs arbitrary: ms)
  case (Cons r rs)
  from Cons.prems(1) obtain init s e where ms: "ms = init @ [(s, e)]" by (metis append_butlast_last_id surj_pair)
  have init: "sorted_wrt (gap (2 * c)) init" "\<forall>x \<in> set init. snd x + 2 * c < s" "proper n init" "s < e" "e < fst r" "fst r < snd r"
      "snd r \<le> n" "proper n rs" "sorted_wrt (gap 0) (r # rs)"
    using Cons.prems ms by (auto simp: sorted_wrt_append proper_def)
  define ms' where "ms' = (if int (fst r) - int (snd (last ms)) \<le> 2 * int c then butlast ms @ [(fst (last ms), snd r)] else ms @ [r])"
  have "ms' \<noteq> [] \<and> sorted_wrt (gap (2 * c)) ms' \<and> proper n (ms' @ rs) \<and> sorted_wrt (gap 0) (last ms' # rs) \<and>
      (\<forall>i. covers (ms @ r # rs) i \<longrightarrow> covers (ms' @ rs) i)"
  proof (cases "int (fst r) - int e \<le> 2 * int c")
    case True
    then have m: "ms' = init @ [(s, snd r)]" by (simp add: ms'_def ms)
    have "sorted_wrt (gap 0) (last ms' # rs)" using init(9) m by auto
    moreover have "covers (ms' @ rs) i" if "covers (ms @ r # rs) i" for i
      using that init(4-6) unfolding m ms covers_def by auto
    ultimately show ?thesis using init m by (auto simp: sorted_wrt_append proper_def)
  next
    case False
    then have m: "ms' = init @ [(s, e), r]" by (simp add: ms'_def ms)
    have "snd x + 2 * c < fst r" if "x \<in> set init" for x using init(2,4,5) that by fastforce
    with False init m show ?thesis by (auto simp: sorted_wrt_append proper_def covers_def ms)
  qed
  with Cons.IH [of ms'] show ?case by (simp add: ms'_def [symmetric] Let_def) blast
qed (simp add: Let_def)

lemma hunk_ranges_disjoint:
  "sorted_wrt (gap (2 * c)) rs \<Longrightarrow> proper n rs \<Longrightarrow> \<forall>r \<in> set rs. p \<le> fst r - c \<Longrightarrow> p \<le> n \<Longrightarrow>
   disjoint_ranges p n (map (\<lambda>r. (fst r - c, min (snd r + c) n)) rs)"
proof (induction rs arbitrary: p)
  case (Cons r rs)
  have "min (snd r + c) n \<le> fst s - c" if "s \<in> set rs" for s using Cons.prems(1) that by fastforce
  with Cons.IH [of "min (snd r + c) n"] Cons.prems show ?case by (auto simp: proper_def)
qed simp

lemma buildHunks_patch: "patch_hunks 0 (src_side ops) (buildHunks ops c) = Some (dst_side ops)"
proof -
  let ?ch = "findChanges ops" and ?n = "length ops"
  have ch: "sorted_wrt (gap 0) ?ch" "proper ?n ?ch" "\<And>i. i < ?n \<Longrightarrow> eo_kind (ops ! i) \<noteq> opEqual \<Longrightarrow> covers ?ch i"
    using find_changes_spec [of "[]" "[]" ops] by (simp_all add: findChanges_def Let_def proper_def)
  let ?rs = "mergeAdjacentChanges ?ch c"
  have rs: "sorted_wrt (gap (2 * c)) ?rs \<and> proper ?n ?rs \<and> (\<forall>i. covers ?ch i \<longrightarrow> covers ?rs i)"
  proof (cases ?ch)
    case (Cons r cs)
    with merge_changes_spec [of "[r]" c ?n cs] ch(1,2) show ?thesis by (simp add: mergeAdjacentChanges_def Let_def)
  qed (simp add: mergeAdjacentChanges_def proper_def)
  let ?hr = "map (\<lambda>r. (fst r - c, min (snd r + c) ?n)) ?rs"
  have "fst r < ?n" if "r \<in> set ?rs" for r using rs that by (auto simp: proper_def)
  then have "buildHunks ops c = map (range_hunk ops) ?hr" by (auto simp: buildHunks_def hunk_of_range)
  moreover have "disjoint_ranges 0 ?n ?hr" using rs by (intro hunk_ranges_disjoint) auto
  moreover have "eo_kind (ops ! i) = opEqual" if "i < ?n" "\<not> covers ?hr i" for i
  proof (rule ccontr)
    assume "eo_kind (ops ! i) \<noteq> opEqual"
    with ch(3) [OF that(1)] rs obtain r where "r \<in> set ?rs" "fst r \<le> i" "i < snd r" by (auto simp: covers_def)
    with that show False by (force simp: covers_def)
  qed
  ultimately show ?thesis using patch_hunks_ranges [of 0 ops ?hr] by simp
qed

section \<open>The unified difference\<close>

lemma no_edits: "edits ops = 0 \<longleftrightarrow> list_all (\<lambda>op. eo_kind op = opEqual) ops"
  by (induction ops) auto

text \<open>
  Claim C18.  For two texts, \<open>Unified\<close> prints hunks that patch the lines of the first into those of the second, and prints
  nothing exactly when the lines agree (so also when the texts differ in line endings only).
\<close>

theorem Unified_patches:
  assumes "do_ContextLines opts \<ge> 0" "\<not> isBinary a" "\<not> isBinary b"
  shows "\<exists>hs. Unified a b opts = Ok (formatUnified hs (do_SrcName opts) (do_DstName opts)
      (\<not> snd (splitLines_diff a)) (\<not> snd (splitLines_diff b)) (length (fst (splitLines_diff a))) (length (fst (splitLines_diff b)))) \<and>
    patch_hunks 0 (fst (splitLines_diff a)) hs = Some (fst (splitLines_diff b)) \<and>
    (hs = [] \<longleftrightarrow> fst (splitLines_diff a) = fst (splitLines_diff b))"
proof -
  obtain src nl dst nl' where lines: "splitLines_diff a = (src, nl)" "splitLines_diff b = (dst, nl')" by fastforce
  obtain ops where ops: "myers src dst = Ok ops" "src_side ops = src" "dst_side ops = dst"
    using myers_script [of src dst] by (auto simp: script_def)
  show ?thesis
  proof (cases "list_all (\<lambda>op. eo_kind op = opEqual) ops")
    case True
    with equal_sides [OF this] ops assms show ?thesis
      by (intro exI [of _ "[]"]) (simp add: lines Unified_def formatUnified_def)
  next
    case False
    let ?hs = "buildHunks ops (nat (do_ContextLines opts))"
    have patch: "patch_hunks 0 src ?hs = Some dst" using buildHunks_patch [of ops] ops(2,3) by simp
    have "src \<noteq> dst"
    proof
      assume "src = dst"
      then have "script src dst (map (edit opEqual) src)" by (simp add: script_def)
      with myers_script [of src dst] script_lower ops(1) have "edits ops \<le> edits (map (edit opEqual) src)" by fastforce
      with False show False by (simp add: no_edits)
    qed
    moreover from this patch have "?hs \<noteq> []" by auto
    ultimately show ?thesis
      using patch False ops(1) assms by (intro exI [of _ ?hs]) (simp add: lines Unified_def)
  qed
qed

lemma sample_lines: "splitLines_diff (''a'' @ [NL] @ ''b'') = ([''a'', ''b''], False)"
    "splitLines_diff (''a'' @ [CR, NL] @ ''c'' @ [NL]) = ([''a'', ''c''], True)"
  by code_simp+

theorem Unified_patches_witness:
  "\<exists>hs s. Unified (''a'' @ [NL] @ ''b'') (''a'' @ [CR, NL] @ ''c'' @ [NL]) \<lparr>do_ContextLines = 3, do_SrcName = [], do_DstName = []\<rparr> = Ok s \<and>
     hs \<noteq> [] \<and> patch_hunks 0 [''a'', ''b''] hs = Some [''a'', ''c'']"
proof -
  have "\<not> isBinary (''a'' @ [NL] @ ''b'')" "\<not> isBinary (''a'' @ [CR, NL] @ ''c'' @ [NL])" by (simp_all add: isBinary_def)
  from Unified_patches [OF _ this, of "\<lparr>do_ContextLines = 3, do_SrcName = [], do_DstName = []\<rparr>"] show ?thesis
    by (simp only: sample_lines fst_conv snd_conv DiffOptions.simps) auto
qed

text \<open>Two texts that differ in the last newline only have no difference.\<close>

lemma last_newline_ignored:
  "Unified ''a'' (''a'' @ [NL]) \<lparr>do_ContextLines = 3, do_SrcName = [], do_DstName = []\<rparr> = Ok []"
  by code_simp

end
