(* ===== verification/Annotate.thy ===== *)
theory Annotate
  imports Manifest Diff
begin

text \<open>
  Line annotation (\<open>internal/annotate/annotate.go\<close>): the lines of a file with the check-ins that last
  changed them, found by walking the primary parents.  A date is the Julian time of the event in
  milliseconds, as in the tables.  The walk need not end on a cyclic history; it has no result then.
\<close>

datatype annotate_error = AnnStart rid | AnnPath | AnnManifest manifest_error | AnnBlob bytes | AnnNoFile bytes rid | AnnInfo rid

record VersionInfo =
  vi_UUID :: bytes
  vi_User :: bytes
  vi_Date :: int

record AnnLine =
  an_Text :: bytes
  an_Version :: VersionInfo

record AnnOptions =
  ann_FilePath :: bytes
  ann_StartRID :: rid
  ann_Limit :: int
  ann_OriginRID :: rid

definition loadFileAt :: "libs \<Rightarrow> repo \<Rightarrow> rid \<Rightarrow> bytes \<Rightarrow> (annotate_error, bytes) outcome" where
  "loadFileAt L q r filePath =
     (if r \<le> 0 then Panic ''annotate.loadFileAt: rid must be positive''
      else if filePath = [] then Panic ''annotate.loadFileAt: filePath must not be empty''
      else bind_ok (wrap_err AnnManifest (ListFiles L q r)) (\<lambda>files.
        case find (\<lambda>f. fe_Name f = filePath) files of
          None \<Rightarrow> Err (AnnNoFile filePath r)
        | Some f \<Rightarrow>
            bind_ok (wrap_err (\<lambda>e. AnnManifest (MfBlob e)) (Exists q (fe_UUID f))) (\<lambda>fileRID.
              case fileRID of
                None \<Rightarrow> Err (AnnBlob (fe_UUID f))
              | Some fr \<Rightarrow> wrap_err (\<lambda>e. AnnManifest (MfContent e)) (expand L q fr))))"

definition versionInfoFor :: "repo \<Rightarrow> rid \<Rightarrow> (annotate_error, VersionInfo) outcome" where
  "versionInfoFor q r =
     (if r \<le> 0 then Panic ''annotate.versionInfoFor: rid must be positive''
      else case (blob_by_rid q r, find (\<lambda>e. ev_objid e = r) (t_event q)) of
             (Some b, Some e) \<Rightarrow>
               (case ev_user e of
                  None \<Rightarrow> Err (AnnInfo r)
                | Some user \<Rightarrow> Ok \<lparr>vi_UUID = bl_uuid b, vi_User = user, vi_Date = ev_mtime e\<rparr>)
           | _ \<Rightarrow> Err (AnnInfo r))"

definition primaryParent :: "repo \<Rightarrow> rid \<Rightarrow> (annotate_error, rid option) outcome" where
  "primaryParent q r =
     (if r \<le> 0 then Panic ''annotate.primaryParent: rid must be positive''
      else Ok (map_option pl_pid (find (\<lambda>p. pl_cid p = r \<and> pl_isprim p) (t_plink q))))"

text \<open>All trailing newlines are cut before the text is split.\<close>

definition splitLines_annotate :: "bytes \<Rightarrow> bytes list" where
  "splitLines_annotate s =
     (if s = [] then []
      else let s = rev (dropWhile (\<lambda>c. c = NL) (rev s)) in if s = [] then [] else Split NL s)"

section \<open>Matching lines\<close>

text \<open>A row of the table of the longest common subsequence, from the row above and the value to the left.\<close>

fun lcs_row :: "bytes \<Rightarrow> bytes list \<Rightarrow> nat list \<Rightarrow> nat \<Rightarrow> nat list" where
  "lcs_row x (y # ys) (diag # up # prev_row) left =
     (let v = (if x = y then diag + 1 else if up \<ge> left then up else left) in v # lcs_row x ys (up # prev_row) v)"
| "lcs_row x _ _ left = []"

fun lcs_rows :: "nat list \<Rightarrow> bytes list \<Rightarrow> bytes list \<Rightarrow> nat list list" where
  "lcs_rows prev_row [] cur = []"
| "lcs_rows prev_row (x # xs) cur = (let row = 0 # lcs_row x cur prev_row 0 in row # lcs_rows row xs cur)"

function lcs_backtrack :: "bytes list \<Rightarrow> bytes list \<Rightarrow> nat list list \<Rightarrow> nat \<Rightarrow> nat \<Rightarrow> int list \<Rightarrow> int list" where
  "lcs_backtrack par cur dp i j result =
     (if i > 0 \<and> j > 0 then
        (if par ! (i - 1) = cur ! (j - 1) then lcs_backtrack par cur dp (i - 1) (j - 1) (result[j - 1 := int i - 1])
         else if dp ! (i - 1) ! j \<ge> dp ! i ! (j - 1) then lcs_backtrack par cur dp (i - 1) j result
         else lcs_backtrack par cur dp i (j - 1) result)
      else result)"
  by pat_completeness auto
termination
  by (relation "measure (\<lambda>(par, cur, dp, i, j, result). i + j)") auto

declare lcs_backtrack.simps [simp del]

definition lcsMatch_annotate :: "bytes list \<Rightarrow> bytes list \<Rightarrow> int list" where
  "lcsMatch_annotate par cur =
     (let result = replicate (length cur) (- 1) in
      if length par = 0 \<or> length cur = 0 then result
      else let zero = replicate (length cur + 1) 0 in
        lcs_backtrack par cur (zero # lcs_rows zero par cur) (length par) (length cur) result)"

section \<open>The walk\<close>

text \<open>The matched lines get the parent's version; an index beyond the result is a run-time panic.\<close>

fun push_back :: "VersionInfo \<Rightarrow> (nat \<times> int) list \<Rightarrow> AnnLine list \<Rightarrow> (annotate_error, AnnLine list) outcome" where
  "push_back info [] result = Ok result"
| "push_back info ((curIdx, parIdx) # ms) result =
     (if parIdx \<ge> 0 then
        (if curIdx < length result
         then push_back info ms (result[curIdx := (result ! curIdx)\<lparr>an_Version := info\<rparr>])
         else Panic ''index out of range'')
      else push_back info ms result)"

partial_function (option) walkParentChain ::
  "libs \<Rightarrow> repo \<Rightarrow> AnnOptions \<Rightarrow> rid \<Rightarrow> int \<Rightarrow> bytes list \<Rightarrow> AnnLine list \<Rightarrow> (annotate_error, AnnLine list) outcome option" where
  "walkParentChain L q opts currentRID steps currentLines result =
     (if ann_Limit opts > 0 \<and> steps \<ge> ann_Limit opts then Some (Ok result)
      else case primaryParent q currentRID of
        Panic s \<Rightarrow> Some (Panic s)
      | Err e \<Rightarrow> Some (Ok result)
      | Ok None \<Rightarrow> Some (Ok result)
      | Ok (Some parentRID) \<Rightarrow>
          if parentRID \<le> 0 then Some (Ok result)
          else if ann_OriginRID opts > 0 \<and> currentRID = ann_OriginRID opts then Some (Ok result)
          else case loadFileAt L q parentRID (ann_FilePath opts) of
            Panic s \<Rightarrow> Some (Panic s)
          | Err e \<Rightarrow> Some (Ok result)
          | Ok parentContent \<Rightarrow>
              (case versionInfoFor q parentRID of
                 Panic s \<Rightarrow> Some (Panic s)
               | Err e \<Rightarrow> Some (Ok result)
               | Ok parentInfo \<Rightarrow>
                   let parentLines = splitLines_annotate parentContent in
                   case push_back parentInfo (enumerate 0 (lcsMatch_annotate parentLines currentLines)) result of
                     Panic s \<Rightarrow> Some (Panic s)
                   | Err e \<Rightarrow> Some (Err e)
                   | Ok result' \<Rightarrow> walkParentChain L q opts parentRID (steps + 1) parentLines result'))"

definition Annotate :: "libs \<Rightarrow> repo \<Rightarrow> AnnOptions \<Rightarrow> (annotate_error, AnnLine list) outcome option" where
  "Annotate L q opts =
     (if ann_StartRID opts \<le> 0 then Some (Err (AnnStart (ann_StartRID opts)))
      else if ann_FilePath opts = [] then Some (Err AnnPath)
      else case loadFileAt L q (ann_StartRID opts) (ann_FilePath opts) of
        Err e \<Rightarrow> Some (Err e)
      | Panic s \<Rightarrow> Some (Panic s)
      | Ok fileContent \<Rightarrow>
          (case versionInfoFor q (ann_StartRID opts) of
             Err e \<Rightarrow> Some (Err e)
           | Panic s \<Rightarrow> Some (Panic s)
           | Ok startInfo \<Rightarrow>
               let lines = splitLines_annotate fileContent;
                   result = map (\<lambda>l. \<lparr>an_Text = l, an_Version = startInfo\<rparr>) lines
               in if length result = 0 then Some (Ok result)
                  else walkParentChain L q opts (ann_StartRID opts) 0 lines result))"

section \<open>Attribution goes wrong after the first step\<close>

text \<open>
  From the second parent on, the matches are between two older versions of the file, but their line
  numbers are used for the lines of the newest one.  A file that has become shorter makes the walk
  panic: the newest version has the line \<open>b\<close>, its two ancestors \<open>a\<close> and \<open>b\<close>.
\<close>

lemma shrunk_lines: "splitLines_annotate ''b'' = [''b'']" "splitLines_annotate [CHR ''a'', NL, CHR ''b'', NL] = [''a'', ''b'']"
    "lcsMatch_annotate [''a'', ''b''] [''b''] = [1]" "lcsMatch_annotate [''a'', ''b''] [''a'', ''b''] = [0, 1]"
  by code_simp+

lemma Annotate_shrunk_file_panics:
  assumes "r > 0" "p > 0" "g > 0" "path \<noteq> []"
    and "primaryParent q r = Ok (Some p)" "primaryParent q p = Ok (Some g)"
    and "loadFileAt L q r path = Ok ''b''" "loadFileAt L q p path = Ok [CHR ''a'', NL, CHR ''b'', NL]"
      "loadFileAt L q g path = Ok [CHR ''a'', NL, CHR ''b'', NL]"
    and "versionInfoFor q r = Ok i1" "versionInfoFor q p = Ok i2" "versionInfoFor q g = Ok i3"
  shows "Annotate L q \<lparr>ann_FilePath = path, ann_StartRID = r, ann_Limit = 0, ann_OriginRID = 0\<rparr> = Some (Panic ''index out of range'')"
  using assms
  by (simp add: Annotate_def shrunk_lines walkParentChain.simps [of _ _ _ r] walkParentChain.simps [of _ _ _ p] Let_def)

end
