(* ===== verification/Go_Path.thy ===== *)
theory Go_Path
  imports Go_Strings
begin

text \<open>
  Slash-separated file paths as in Go's \<open>path/filepath\<close> on Unix: \<open>Clean\<close>, \<open>Join\<close>, \<open>Dir\<close>,
  \<open>Base\<close>, \<open>IsAbs\<close> and \<open>Rel\<close>, by the components of a path.
\<close>

section \<open>The functions\<close>

abbreviation SLASH :: byte where "SLASH \<equiv> CHR 0x2F"

fun split_slash :: "bytes \<Rightarrow> bytes list" where
  "split_slash [] = [[]]"
| "split_slash (c # s) =
     (if c = SLASH then [] # split_slash s
      else (case split_slash s of [] \<Rightarrow> [[c]] | x # xs \<Rightarrow> (c # x) # xs))"

definition IsAbs :: "bytes \<Rightarrow> bool" where
  "IsAbs s = HasPrefix s [SLASH]"

text \<open>The components of a path after one more: \<open>..\<close> takes back an ordinary component and stops at the root.\<close>

definition clean_step :: "bool \<Rightarrow> bytes list \<Rightarrow> bytes \<Rightarrow> bytes list" where
  "clean_step rooted out c =
     (if c = [] \<or> c = ''.'' then out
      else if c = ''..''
           then (if out \<noteq> [] \<and> last out \<noteq> ''..'' then butlast out else if rooted then out else out @ [c])
      else out @ [c])"

definition path_comps :: "bytes \<Rightarrow> bytes list" where
  "path_comps s = foldl (clean_step (IsAbs s)) [] (split_slash s)"

definition show_comps :: "bool \<Rightarrow> bytes list \<Rightarrow> bytes" where
  "show_comps rooted cs =
     (if rooted then SLASH # Join cs [SLASH] else if cs = [] then ''.'' else Join cs [SLASH])"

definition Clean :: "bytes \<Rightarrow> bytes" where
  "Clean s = show_comps (IsAbs s) (path_comps s)"

definition path_Join :: "bytes \<Rightarrow> bytes \<Rightarrow> bytes" where
  "path_Join a b =
     (if a = [] \<and> b = [] then [] else if a = [] then Clean b else if b = [] then Clean a else Clean (a @ SLASH # b))"

text \<open>The part of a path up to its last slash.\<close>

fun upto_slash :: "bytes \<Rightarrow> bytes" where
  "upto_slash [] = []"
| "upto_slash (c # s) = (if SLASH \<in> set (c # s) then c # upto_slash s else [])"

definition Dir :: "bytes \<Rightarrow> bytes" where
  "Dir s = Clean (upto_slash s)"

definition Base :: "bytes \<Rightarrow> bytes" where
  "Base s =
     (if s = [] then ''.''
      else let t = rev (dropWhile (\<lambda>c. c = SLASH) (rev s)) in
        if t = [] then [SLASH] else rev (takeWhile (\<lambda>c. c \<noteq> SLASH) (rev t)))"

text \<open>The path of the second from the first; no result when only one of them is absolute or the first goes up.\<close>

fun rel_comps :: "bytes list \<Rightarrow> bytes list \<Rightarrow> bytes list option" where
  "rel_comps (b # bs) (t # ts) =
     (if b = t then rel_comps bs ts else if b = ''..'' then None else Some (map (\<lambda>_. ''..'') (b # bs) @ t # ts))"
| "rel_comps [] ts = Some ts"
| "rel_comps (b # bs) [] = (if b = ''..'' then None else Some (map (\<lambda>_. ''..'') (b # bs)))"

definition Rel :: "bytes \<Rightarrow> bytes \<Rightarrow> bytes option" where
  "Rel base targ =
     (if IsAbs base \<noteq> IsAbs targ then None
      else map_option (show_comps False) (rel_comps (path_comps base) (path_comps targ)))"

section \<open>Components\<close>

definition plain_comp :: "bytes \<Rightarrow> bool" where
  "plain_comp c \<longleftrightarrow> c \<noteq> [] \<and> c \<noteq> ''.'' \<and> c \<noteq> ''..'' \<and> SLASH \<notin> set c"

text \<open>The components of a clean path: some \<open>..\<close>, unless it is absolute, then ordinary ones.\<close>

definition clean_comps :: "bool \<Rightarrow> bytes list \<Rightarrow> bool" where
  "clean_comps rooted cs \<longleftrightarrow> (\<exists>n ps. cs = replicate n ''..'' @ ps \<and> (rooted \<longrightarrow> n = 0) \<and> list_all plain_comp ps)"

lemma split_slash_nonempty [simp]: "split_slash s \<noteq> []"
  by (cases s) (auto split: list.splits)

lemma split_slash_append: "split_slash (a @ SLASH # b) = split_slash a @ split_slash b"
  by (induction a) (auto split: list.splits)

lemma split_slash_single: "SLASH \<notin> set c \<Longrightarrow> split_slash c = [c]"
  by (induction c) auto

lemma split_slash_no_slash: "c \<in> set (split_slash s) \<Longrightarrow> SLASH \<notin> set c"
  by (induction s arbitrary: c) (auto split: list.splits if_splits)

lemma split_slash_Join: "cs \<noteq> [] \<Longrightarrow> \<forall>c \<in> set cs. SLASH \<notin> set c \<Longrightarrow> split_slash (Join cs [SLASH]) = cs"
  by (induction cs "[SLASH]" rule: Join.induct) (auto simp: split_slash_single split_slash_append)

lemma foldl_plain: "list_all plain_comp ps \<Longrightarrow> foldl (clean_step r) out ps = out @ ps"
  by (induction ps arbitrary: out) (auto simp: clean_step_def plain_comp_def)

lemma foldl_dotdot: "list_all (\<lambda>c. c = ''..'') out \<Longrightarrow> foldl (clean_step False) out (replicate n ''..'') = out @ replicate n ''..''"
proof (induction n arbitrary: out)
  case (Suc n)
  then have "clean_step False out ''..'' = out @ [''..'']" by (auto simp: clean_step_def list_all_iff)
  with Suc show ?case by simp
qed simp

lemma clean_step_clean:
  assumes "clean_comps r out" "SLASH \<notin> set c"
  shows "clean_comps r (clean_step r out c)"
proof -
  obtain n ps where out: "out = replicate n ''..'' @ ps" "r \<longrightarrow> n = 0" "list_all plain_comp ps"
    using assms(1) by (auto simp: clean_comps_def)
  consider "c = [] \<or> c = ''.''" | "c = ''..''" | "plain_comp c" using assms(2) by (auto simp: plain_comp_def)
  then show ?thesis
  proof cases
    case 1
    with assms show ?thesis by (simp add: clean_step_def)
  next
    case 2
    show ?thesis
    proof (cases ps rule: rev_cases)
      case Nil
      show ?thesis
      proof (cases "r \<or> n = 0")
        case True
        with 2 out Nil show ?thesis
          by (auto simp: clean_step_def clean_comps_def intro: exI [of _ "Suc 0"])
      next
        case False
        then have "last out = ''..''" using out Nil by (cases n) auto
        with 2 out Nil False have "clean_step r out c = replicate (Suc n) ''..''"
          by (simp add: clean_step_def replicate_append_same)
        with False show ?thesis by (auto simp: clean_comps_def intro!: exI [of _ "Suc n"])
      qed
    next
      case (snoc qs p)
      with out have "clean_step r out c = replicate n ''..'' @ qs"
        using 2 by (simp add: clean_step_def plain_comp_def butlast_append)
      with out snoc show ?thesis by (auto simp: clean_comps_def)
    qed
  next
    case 3
    then have "clean_step r out c = replicate n ''..'' @ ps @ [c]" by (simp add: clean_step_def plain_comp_def out(1))
    with out 3 show ?thesis by (auto simp: clean_comps_def intro!: exI [of _ n])
  qed
qed

lemma clean_foldl: "clean_comps r out \<Longrightarrow> \<forall>c \<in> set cs. SLASH \<notin> set c \<Longrightarrow> clean_comps r (foldl (clean_step r) out cs)"
  by (induction cs arbitrary: out) (auto intro: clean_step_clean)

lemma path_comps_clean: "clean_comps (IsAbs s) (path_comps s)"
  unfolding path_comps_def by (rule clean_foldl) (auto simp: clean_comps_def dest: split_slash_no_slash)

text \<open>A shown path has the components it was made of.\<close>

lemma clean_no_slash:
  assumes "clean_comps r cs" "c \<in> set cs"
  shows "SLASH \<notin> set c \<and> c \<noteq> []"
proof -
  obtain n ps where "cs = replicate n ''..'' @ ps" "list_all plain_comp ps" using assms(1) by (auto simp: clean_comps_def)
  with assms(2) have "c = ''..'' \<or> plain_comp c" by (auto simp: list_all_iff)
  then show ?thesis by (auto simp: plain_comp_def)
qed

lemma foldl_clean: "clean_comps r cs \<Longrightarrow> foldl (clean_step r) [] cs = cs"
proof -
  assume "clean_comps r cs"
  then obtain n ps where cs: "cs = replicate n ''..'' @ ps" "r \<longrightarrow> n = 0" "list_all plain_comp ps"
    by (auto simp: clean_comps_def)
  show ?thesis
  proof (cases r)
    case True
    with cs foldl_plain [of ps r "[]"] show ?thesis by simp
  next
    case False
    moreover have "foldl (clean_step False) [] (replicate n ''..'') = replicate n ''..''" using foldl_dotdot [of "[]" n] by simp
    ultimately show ?thesis using foldl_plain [OF cs(3), of False "replicate n ''..''"] by (simp add: cs(1))
  qed
qed

lemma show_comps_parts:
  assumes "clean_comps r cs"
  shows "IsAbs (show_comps r cs) = r" "path_comps (show_comps r cs) = cs"
proof -
  have ns: "\<forall>c \<in> set cs. SLASH \<notin> set c" using clean_no_slash [OF assms] by blast
  have abs: "IsAbs (show_comps r cs) = r"
  proof (cases r)
    case False
    have "\<not> HasPrefix (Join cs [SLASH]) [SLASH]" if ne: "cs \<noteq> []"
    proof -
      obtain c ds where cs: "cs = c # ds" using ne by (cases cs) auto
      then obtain x xs where c: "c = x # xs" "x \<noteq> SLASH" using clean_no_slash [OF assms, of c] by (cases c) auto
      then show ?thesis using cs by (cases ds) (auto simp: HasPrefix_def)
    qed
    with False show ?thesis by (auto simp: show_comps_def IsAbs_def HasPrefix_def)
  qed (simp add: show_comps_def IsAbs_def HasPrefix_def)
  then show "IsAbs (show_comps r cs) = r" .
  have "foldl (clean_step r) [] (split_slash (show_comps r cs)) = foldl (clean_step r) [] cs"
  proof (cases r)
    case True
    then have "split_slash (show_comps r cs) = [] # (if cs = [] then [[]] else cs)"
      using split_slash_append [of "[]"] split_slash_Join [OF _ ns] by (simp add: show_comps_def)
    then show ?thesis by (simp add: clean_step_def)
  next
    case False
    then have "split_slash (show_comps r cs) = (if cs = [] then [''.''] else cs)"
      using split_slash_Join [OF _ ns] by (simp add: show_comps_def)
    then show ?thesis by (simp add: clean_step_def)
  qed
  with foldl_clean [OF assms] abs show "path_comps (show_comps r cs) = cs" by (simp add: path_comps_def)
qed

lemma Clean_parts [simp]: "IsAbs (Clean s) = IsAbs s" "path_comps (Clean s) = path_comps s"
  unfolding Clean_def using show_comps_parts [OF path_comps_clean [of s]] by auto

lemma Clean_Clean [simp]: "Clean (Clean s) = Clean s"
  by (simp add: Clean_def [of "Clean s"]) (simp add: Clean_def)

section \<open>Paths below a directory\<close>

text \<open>A path goes on from the components of a directory with ordinary components.\<close>

definition within :: "bytes \<Rightarrow> bytes \<Rightarrow> bool" where
  "within dir p \<longleftrightarrow> IsAbs p = IsAbs dir \<and> (\<exists>ps. path_comps p = path_comps dir @ ps \<and> list_all plain_comp ps)"

lemma path_Join_within:
  assumes "path_comps b = ps" "list_all plain_comp ps" "\<not> IsAbs b" "b \<noteq> []" "dir \<noteq> []"
    and b: "split_slash b = ps \<or> split_slash b = [''.'']"
  shows "within dir (path_Join dir b)" "path_comps (path_Join dir b) = path_comps dir @ ps"
proof -
  have abs: "IsAbs (dir @ SLASH # b) = IsAbs dir" using assms(5) by (cases dir) (auto simp: IsAbs_def HasPrefix_def)
  have "ps = [] \<longrightarrow> split_slash b = [''.'']" using b by (metis split_slash_nonempty)
  then have "foldl (clean_step r) out (split_slash b) = out @ ps" for r out
    using b foldl_plain [OF assms(2), of r out] assms(1) by (auto simp: path_comps_def clean_step_def split: if_splits)
  then have "path_comps (dir @ SLASH # b) = path_comps dir @ ps"
    by (simp add: path_comps_def abs split_slash_append)
  with assms(2,4,5) abs show "path_comps (path_Join dir b) = path_comps dir @ ps" "within dir (path_Join dir b)"
    by (simp_all add: path_Join_def within_def)
qed

end
