(* ===== verification/Storage.thy ===== *)
theory Storage
  imports Go_Path Go_Time "HOL-Library.AList" "HOL-Library.Multiset"
begin

text \<open>
  The file storage behind \<open>simio.Storage\<close>: \<open>MemStorage\<close> of \<open>simio/storage_mem.go\<close>, the
  in-memory implementation with its maps of files, directories and times, and the virtual clock
  of \<open>simio/simclock.go\<close>.  Go's maps are association lists without repeated keys.
\<close>

section \<open>In-memory storage (storage_mem.go)\<close>

record MemStorage =
  ms_files :: "(bytes \<times> bytes) list"
  ms_dirs :: "bytes list"
  ms_mtimes :: "(bytes \<times> int) list"

datatype storage_error = ErrNotExist

record memFileInfo =
  fi_name :: bytes
  fi_size :: int
  fi_isDir :: bool
  fi_mtime :: "int option"

record memDirEntry =
  de_name :: bytes
  de_isDir :: bool

definition NewMemStorage :: MemStorage where
  "NewMemStorage = \<lparr>ms_files = [], ms_dirs = [], ms_mtimes = []\<rparr>"

definition Stat_mem :: "MemStorage \<Rightarrow> bytes \<Rightarrow> (storage_error, memFileInfo) outcome" where
  "Stat_mem m path =
     (if path = [] then Panic ''MemStorage.Stat: path must not be empty''
      else case map_of (ms_files m) path of
             Some data \<Rightarrow> Ok \<lparr>fi_name = Base path, fi_size = int (length data), fi_isDir = False, fi_mtime = map_of (ms_mtimes m) path\<rparr>
           | None \<Rightarrow>
               if path \<in> set (ms_dirs m)
               then Ok \<lparr>fi_name = Base path, fi_size = 0, fi_isDir = True, fi_mtime = None\<rparr>
               else Err ErrNotExist)"

definition Remove_mem :: "bytes \<Rightarrow> MemStorage \<Rightarrow> MemStorage \<times> (storage_error, unit) outcome" where
  "Remove_mem path m =
     (if path = [] then (m, Panic ''MemStorage.Remove: path must not be empty'')
      else if map_of (ms_files m) path \<noteq> None then (m\<lparr>ms_files := AList.delete path (ms_files m)\<rparr>, Ok ())
      else if path \<in> set (ms_dirs m) then (m\<lparr>ms_dirs := filter (\<lambda>d. d \<noteq> path) (ms_dirs m)\<rparr>, Ok ())
      else (m, Err ErrNotExist))"

text \<open>The directories that \<open>MkdirAll\<close> marks: the prefixes of the path, made absolute.\<close>

fun parent_dirs :: "bytes \<Rightarrow> bytes list \<Rightarrow> bytes list" where
  "parent_dirs current [] = []"
| "parent_dirs current (part # parts) =
     (if part = [] then parent_dirs current parts
      else let d = (if current = [] then SLASH # part else path_Join current part) in d # parent_dirs d parts)"

definition MkdirAll :: "bytes \<Rightarrow> nat \<Rightarrow> MemStorage \<Rightarrow> MemStorage \<times> (storage_error, unit) outcome" where
  "MkdirAll path perm m = (m\<lparr>ms_dirs := fold List.insert (parent_dirs [] (split_slash path)) (ms_dirs m)\<rparr>, Ok ())"

definition ReadFile :: "MemStorage \<Rightarrow> bytes \<Rightarrow> (storage_error, bytes) outcome" where
  "ReadFile m path =
     (if path = [] then Panic ''MemStorage.ReadFile: path must not be empty''
      else case map_of (ms_files m) path of None \<Rightarrow> Err ErrNotExist | Some data \<Rightarrow> Ok data)"

definition WriteFile :: "bytes \<Rightarrow> bytes \<Rightarrow> nat \<Rightarrow> MemStorage \<Rightarrow> MemStorage \<times> (storage_error, unit) outcome" where
  "WriteFile path data perm m =
     (if path = [] then (m, Panic ''MemStorage.WriteFile: path must not be empty'')
      else (m\<lparr>ms_files := AList.update path data (ms_files m)\<rparr>, Ok ()))"

definition Chtimes :: "bytes \<Rightarrow> int \<Rightarrow> MemStorage \<Rightarrow> MemStorage \<times> (storage_error, unit) outcome" where
  "Chtimes path mtime m =
     (if path = [] then (m, Panic ''MemStorage.Chtimes: path must not be empty'')
      else if map_of (ms_files m) path = None then (m, Err ErrNotExist)
      else (m\<lparr>ms_mtimes := AList.update path mtime (ms_mtimes m)\<rparr>, Ok ()))"

text \<open>
  The direct children of a directory: the first component below the prefix and whether it is a
  directory.  For a name that files give in both forms the map of Go keeps the last one it met.
\<close>

definition child_of :: "bytes \<Rightarrow> bytes \<Rightarrow> (bytes \<times> bool) option" where
  "child_of prefix path =
     (if HasPrefix path prefix \<and> drop (length prefix) path \<noteq> []
      then let rest = drop (length prefix) path in
        Some (takeWhile (\<lambda>c. c \<noteq> SLASH) rest, SLASH \<in> set rest)
      else None)"

definition ReadDir :: "MemStorage \<Rightarrow> bytes \<Rightarrow> (storage_error, memDirEntry list) outcome" where
  "ReadDir m path =
     (if path = [] then Panic ''MemStorage.ReadDir: path must not be empty''
      else
        let prefix = (if last path = SLASH then path else path @ [SLASH]);
            file_children = List.map_filter (child_of prefix) (map fst (ms_files m));
            dir_children = map (\<lambda>(n, _). (n, True)) (List.map_filter (child_of prefix) (filter (\<lambda>d. d \<noteq> path) (ms_dirs m)));
            children = fold (\<lambda>(n, b). AList.update n b) (file_children @ dir_children) []
        in if children = [] \<and> path \<notin> set (ms_dirs m) then Err ErrNotExist
           else Ok (sort_key de_name (map (\<lambda>(n, b). \<lparr>de_name = n, de_isDir = b\<rparr>) children)))"

section \<open>The laws of a store\<close>

text \<open>What the client of a storage relies on: a file reads as it was written last.\<close>

locale file_store =
  fixes rd :: "'s \<Rightarrow> bytes \<Rightarrow> bytes option"
    and wr :: "bytes \<Rightarrow> bytes \<Rightarrow> 's \<Rightarrow> 's"
    and rm :: "bytes \<Rightarrow> 's \<Rightarrow> 's"
  assumes rd_wr: "p \<noteq> [] \<Longrightarrow> rd (wr p d s) q = (if q = p then Some d else rd s q)"
    and rd_rm: "p \<noteq> [] \<Longrightarrow> rd (rm p s) q = (if q = p then None else rd s q)"
begin

text \<open>A list of writes to different paths gives each path its content.\<close>

lemma rd_writes:
  "distinct (map fst ws) \<Longrightarrow> [] \<notin> fst ` set ws \<Longrightarrow>
   rd (fold (\<lambda>(p, d). wr p d) ws s) q = (case map_of ws q of Some d \<Rightarrow> Some d | None \<Rightarrow> rd s q)"
proof (induction ws arbitrary: s)
  case (Cons w ws)
  obtain p d where w: "w = (p, d)" by fastforce
  have "map_of ws p = None" using Cons.prems(1) w by (simp add: map_of_eq_None_iff)
  with Cons w show ?case by (auto simp: rd_wr split: option.split)
qed simp

end

definition file_at :: "MemStorage \<Rightarrow> bytes \<Rightarrow> bytes option" where
  "file_at m p = map_of (ms_files m) p"

lemma file_at_WriteFile: "p \<noteq> [] \<Longrightarrow> file_at (fst (WriteFile p d perm m)) q = (if q = p then Some d else file_at m q)"
  by (simp add: file_at_def WriteFile_def update_conv')

lemma file_at_Remove_mem: "file_at (fst (Remove_mem p m)) q = (if q = p then None else file_at m q) \<or> p = [] \<and> fst (Remove_mem p m) = m"
  by (auto simp: file_at_def Remove_mem_def delete_conv' restrict_map_def)

interpretation mem: file_store file_at "\<lambda>p d m. fst (WriteFile p d perm m)" "\<lambda>p m. fst (Remove_mem p m)"
proof unfold_locales
  show "p \<noteq> [] \<Longrightarrow> file_at (fst (WriteFile p d perm m)) q = (if q = p then Some d else file_at m q)" for p d m q
    by (rule file_at_WriteFile)
  show "p \<noteq> [] \<Longrightarrow> file_at (fst (Remove_mem p m)) q = (if q = p then None else file_at m q)" for p m q
    using file_at_Remove_mem [of p m q] by simp
qed

lemma ReadFile_eq: "p \<noteq> [] \<Longrightarrow> ReadFile m p = (case file_at m p of None \<Rightarrow> Err ErrNotExist | Some d \<Rightarrow> Ok d)"
  by (simp add: ReadFile_def file_at_def)

lemma MkdirAll_simps [simp]: "snd (MkdirAll p perm m) = Ok ()" "file_at (fst (MkdirAll p perm m)) = file_at m"
  by (simp_all add: MkdirAll_def file_at_def fun_eq_iff)

lemma Chtimes_file [simp]: "file_at (fst (Chtimes p t m)) = file_at m"
  by (simp add: Chtimes_def file_at_def fun_eq_iff)

section \<open>The virtual clock (simclock.go)\<close>

text \<open>
  A waiter is its deadline and a number for its channel; the channels that have received the time
  are listed with what they received.  Times are counted in nanoseconds.
\<close>

record SimClock =
  cl_now :: int
  cl_waiters :: "(int \<times> nat) list"
  cl_fired :: "(nat \<times> int) list"
  cl_chans :: nat

definition NewSimClockAt :: "int \<Rightarrow> SimClock" where
  "NewSimClockAt t = \<lparr>cl_now = t, cl_waiters = [], cl_fired = [], cl_chans = 0\<rparr>"

definition NewSimClock :: SimClock where
  "NewSimClock = NewSimClockAt 0"

definition After :: "int \<Rightarrow> SimClock \<Rightarrow> SimClock \<times> (unit, nat) outcome" where
  "After d c =
     (if d < 0 then (c, Panic ''simclock.After: duration must not be negative'')
      else let ch = cl_chans c; deadline = cl_now c + d; c1 = c\<lparr>cl_chans := ch + 1\<rparr> in
        if \<not> cl_now c < deadline then (c1\<lparr>cl_fired := cl_fired c @ [(ch, cl_now c)]\<rparr>, Ok ch)
        else (c1\<lparr>cl_waiters := cl_waiters c @ [(deadline, ch)]\<rparr>, Ok ch))"

definition AdvanceTo :: "int \<Rightarrow> SimClock \<Rightarrow> SimClock \<times> (unit, unit) outcome" where
  "AdvanceTo t c =
     (if t < cl_now c then (c, Panic ''simclock.AdvanceTo: cannot move time backwards'')
      else (c\<lparr>cl_now := t, cl_fired := cl_fired c @ map (\<lambda>(_, ch). (ch, t)) (filter (\<lambda>(dl, _). \<not> t < dl) (cl_waiters c)),
              cl_waiters := filter (\<lambda>(dl, _). t < dl) (cl_waiters c)\<rparr>, Ok ()))"

definition Advance :: "int \<Rightarrow> SimClock \<Rightarrow> SimClock \<times> (unit, unit) outcome" where
  "Advance d c = AdvanceTo (cl_now c + d) c"

definition PendingCount :: "SimClock \<Rightarrow> nat" where
  "PendingCount c = length (cl_waiters c)"

text \<open>Every waiter waits for a later time, and every channel made so far waits or has fired, once.\<close>

definition clock_ok :: "SimClock \<Rightarrow> bool" where
  "clock_ok c \<longleftrightarrow> (\<forall>(dl, _) \<in> set (cl_waiters c). cl_now c < dl) \<and>
     mset (map snd (cl_waiters c)) + mset (map fst (cl_fired c)) = mset [0..<cl_chans c]"

lemma clock_ok_New: "clock_ok (NewSimClockAt t)"
  by (simp add: clock_ok_def NewSimClockAt_def)

lemma clock_ok_After: "clock_ok c \<Longrightarrow> clock_ok (fst (After d c))"
proof -
  have "mset [0..<Suc n] = add_mset n (mset [0..<n])" for n by simp
  then show "clock_ok c \<Longrightarrow> clock_ok (fst (After d c))"
    by (auto simp: clock_ok_def After_def Let_def simp del: mset_upt upt_Suc)
qed

lemma mset_split_filter: "mset (map f (filter (\<lambda>x. \<not> P x) xs)) + mset (map f (filter P xs)) = mset (map f xs)"
  by (induction xs) auto

lemma clock_ok_AdvanceTo: "clock_ok c \<Longrightarrow> clock_ok (fst (AdvanceTo t c))"
  using mset_split_filter [of snd "\<lambda>w. t < fst w" "cl_waiters c"]
  unfolding clock_ok_def AdvanceTo_def split_def
  by (auto simp: comp_def ac_simps simp del: mset_upt mset_map mset_filter)

end
