(* ===== verification/Checkout.thy ===== *)
theory Checkout
  imports Storage Go_Step Bisect Manifest_Checkin Merge_Graph Merge
begin

text \<open>
  The working directory of a check-in (\<open>internal/checkout\<close>): the tables \<open>vvar\<close> and \<open>vfile\<close> of
  the checkout database, the staging queue, the files behind \<open>simio.Storage\<close> (here \<open>MemStorage\<close>),
  and the operations on them.  Callbacks and observers are nil; the database's own failures are
  not modelled.
\<close>

section \<open>State (schema.go, checkout.go)\<close>

record vfile_row =
  vf_id :: int
  vf_vid :: rid
  vf_chnged :: int
  vf_deleted :: int
  vf_isexe :: int
  vf_islink :: int
  vf_rid :: rid
  vf_mrid :: rid
  vf_mtime :: int
  vf_pathname :: bytes
  vf_origname :: "bytes option"
  vf_mhash :: bytes

record vmerge_row =
  vm_id :: int
  vm_merge :: int
  vm_mhash :: bytes

record checkout =
  co_repo :: repo
  co_vvar :: vvar
  co_vfile :: "vfile_row list"
  co_vmerge :: "vmerge_row list"
  co_dir :: bytes
  co_queue :: "bytes list option"
  co_disk :: MemStorage

datatype checkout_error =
    CoManifest manifest_error | CoContent content_error | CoBlob blob_error | CoStorage storage_error | CoSql sql_error
  | CoHash | CoMerge merge_error
  | OutsideCheckout bytes | EscapesCheckout bytes
  | VersionNotSet | BadVersion bytes | NegativeVersion int | HashNotSet | UnbornHash bytes | FingerprintMismatch bytes bytes
  | LocalChanges bytes | VFileMissing bytes | VFileExists bytes | NoRid bytes | UuidMissing bytes | NoStrategy bytes | NoCheckoutDB bytes

type_synonym 'a checkout_act = "checkout \<Rightarrow> checkout \<times> (checkout_error, 'a) outcome"

definition on_disk :: "(MemStorage \<Rightarrow> MemStorage \<times> (storage_error, 'a) outcome) \<Rightarrow> 'a checkout_act" where
  "on_disk f c = (case f (co_disk c) of (m, res) \<Rightarrow> (c\<lparr>co_disk := m\<rparr>, wrap_err CoStorage res))"

text \<open>An error of the storage that the caller ignores; a panic goes on.\<close>

definition ignore_err :: "'a checkout_act \<Rightarrow> unit checkout_act" where
  "ignore_err f c = (case f c of (c1, Panic s) \<Rightarrow> (c1, Panic s) | (c1, _) \<Rightarrow> (c1, Ok ()))"

definition getVVar :: "vvar \<Rightarrow> bytes \<Rightarrow> bytes" where
  "getVVar vv name = (case map_of vv name of None \<Rightarrow> [] | Some v \<Rightarrow> v)"

definition setVVar :: "bytes \<Rightarrow> bytes \<Rightarrow> checkout \<Rightarrow> checkout" where
  "setVVar name v c = c\<lparr>co_vvar := replace_vvar name v (co_vvar c)\<rparr>"

definition Version :: "checkout \<Rightarrow> (checkout_error, rid \<times> bytes) outcome" where
  "Version c =
     (let ridStr = getVVar (co_vvar c) ''checkout'' in
      if ridStr = [] then Err VersionNotSet
      else case Atoi ridStr of
        None \<Rightarrow> Err (BadVersion ridStr)
      | Some r \<Rightarrow>
          if r < 0 then Err (NegativeVersion r)
          else let uuid = getVVar (co_vvar c) ''checkout-hash'' in
            if r \<noteq> 0 \<and> uuid = [] then Err HashNotSet
            else if r = 0 \<and> uuid \<noteq> [] then Err (UnbornHash uuid)
            else Ok (r, uuid))"

definition ValidateFingerprint :: "checkout \<Rightarrow> (checkout_error, unit) outcome" where
  "ValidateFingerprint c =
     bind_ok (Version c) (\<lambda>(r, uuid).
       if r = 0 then (if uuid \<noteq> [] then Err (UnbornHash uuid) else Ok ())
       else case blob_by_rid (co_repo c) r of
              None \<Rightarrow> Err (CoSql NoRows)
            | Some b \<Rightarrow> if bl_uuid b \<noteq> uuid then Err (FingerprintMismatch uuid (bl_uuid b)) else Ok ())"

definition version_act :: "(rid \<times> bytes) checkout_act" where
  "version_act c = (c, Version c)"

section \<open>Paths (util.go)\<close>

definition CheckFilename :: "bytes \<Rightarrow> bytes \<Rightarrow> (checkout_error, bytes) outcome" where
  "CheckFilename dir name =
     (if name = [] then Panic ''checkout.CheckFilename: empty name''
      else let cleaned = Clean name in
        bind_ok (if IsAbs cleaned
                 then (case Rel dir cleaned of None \<Rightarrow> Err (OutsideCheckout name) | Some r \<Rightarrow> Ok r) else Ok cleaned)
          (\<lambda>cleaned. if cleaned = ''..'' \<or> HasPrefix cleaned ''../'' then Err (EscapesCheckout name) else Ok cleaned))"

definition safePath :: "bytes \<Rightarrow> bytes \<Rightarrow> (checkout_error, bytes) outcome" where
  "safePath dir name = bind_ok (CheckFilename dir name) (\<lambda>cl. Ok (path_Join dir cl))"

definition safe_path :: "bytes \<Rightarrow> bytes checkout_act" where
  "safe_path name c = (c, safePath (co_dir c) name)"

definition IsRootedIn :: "bytes \<Rightarrow> bytes \<Rightarrow> bool" where
  "IsRootedIn dir absPath \<longleftrightarrow> Clean absPath = Clean dir \<or> HasPrefix (Clean absPath) (Clean dir @ [SLASH])"

definition FileContent :: "checkout \<Rightarrow> bytes \<Rightarrow> (checkout_error, bytes) outcome" where
  "FileContent c name =
     (if name = [] then Panic ''checkout.FileContent: empty name''
      else bind_ok (safePath (co_dir c) name) (\<lambda>p. wrap_err CoStorage (ReadFile (co_disk c) p)))"

text \<open>The permissions 0o644 and 0o755.\<close>

definition plain_perm :: nat where "plain_perm = 420"
definition exec_perm :: nat where "exec_perm = 493"

definition write_at :: "bytes \<Rightarrow> bytes \<Rightarrow> nat \<Rightarrow> unit checkout_act" where
  "write_at path data perm = on_disk (WriteFile path data perm)"

definition make_parent :: "bytes \<Rightarrow> unit checkout_act" where
  "make_parent path = on_disk (MkdirAll (Dir path) exec_perm)"

definition WriteManifest :: "libs \<Rightarrow> bool \<Rightarrow> bool \<Rightarrow> unit checkout_act" where
  "WriteManifest L main uuid_file =
     chain version_act (\<lambda>(r, uuid).
     chain (if main
            then (\<lambda>c. chain (call CoContent (expand L (co_repo c) r)) (\<lambda>data.
                  chain (safe_path ''manifest'') (\<lambda>p. write_at p data plain_perm)) c)
            else ret ()) (\<lambda>_.
     if uuid_file then chain (safe_path ''manifest.uuid'') (\<lambda>p. write_at p (uuid @ [NL]) plain_perm) else ret ()))"

section \<open>The file table (vfile.go)\<close>

text \<open>\<open>INSERT OR IGNORE INTO vfile\<close>: the path is unique within a version, the id is new.\<close>

definition new_vfile_id :: "vfile_row list \<Rightarrow> int" where
  "new_vfile_id vs = foldr max (map vf_id vs) 0 + 1"

definition has_path :: "vfile_row list \<Rightarrow> rid \<Rightarrow> bytes \<Rightarrow> bool" where
  "has_path vs vid name \<longleftrightarrow> (\<exists>v \<in> set vs. vf_vid v = vid \<and> vf_pathname v = name)"

definition insert_vfile :: "vfile_row \<Rightarrow> vfile_row list \<Rightarrow> vfile_row list" where
  "insert_vfile v vs = (if has_path vs (vf_vid v) (vf_pathname v) then vs else vs @ [v\<lparr>vf_id := new_vfile_id vs\<rparr>])"

definition update_vfile :: "int \<Rightarrow> (vfile_row \<Rightarrow> vfile_row) \<Rightarrow> checkout \<Rightarrow> checkout" where
  "update_vfile i f c = c\<lparr>co_vfile := map (\<lambda>v. if vf_id v = i then f v else v) (co_vfile c)\<rparr>"

definition rows_of :: "checkout \<Rightarrow> rid \<Rightarrow> vfile_row list" where
  "rows_of c vid = filter (\<lambda>v. vf_vid v = vid) (co_vfile c)"

definition find_path :: "checkout \<Rightarrow> rid \<Rightarrow> bytes \<Rightarrow> vfile_row option" where
  "find_path c vid name = find (\<lambda>v. vf_vid v = vid \<and> vf_pathname v = name) (co_vfile c)"

definition tracked_row :: "rid \<Rightarrow> FileEntry \<Rightarrow> rid \<Rightarrow> vfile_row" where
  "tracked_row vid f blobRID =
     \<lparr>vf_id = 0, vf_vid = vid, vf_chnged = 0, vf_deleted = 0, vf_isexe = (if CHR ''x'' \<in> set (fe_Perm f) then 1 else 0),
      vf_islink = 0, vf_rid = blobRID, vf_mrid = blobRID, vf_mtime = 0, vf_pathname = fe_Name f, vf_origname = None,
      vf_mhash = fe_UUID f\<rparr>"

definition load_entry :: "rid \<Rightarrow> FileEntry \<Rightarrow> bytes list checkout_act" where
  "load_entry vid f c =
     chain (call CoBlob (Exists (co_repo c) (fe_UUID f))) (\<lambda>found.
     chain (change (\<lambda>c. c\<lparr>co_vfile := insert_vfile (tracked_row vid f (case found of None \<Rightarrow> 0 | Some r \<Rightarrow> r)) (co_vfile c)\<rparr>)) (\<lambda>_.
     ret (if found = None then [fe_Name f] else []))) c"

text \<open>The names without content; the code returns their number.\<close>

definition LoadVFile :: "libs \<Rightarrow> rid \<Rightarrow> bool \<Rightarrow> bytes list checkout_act" where
  "LoadVFile L r clear =
     chain (change (\<lambda>c. if clear then c\<lparr>co_vfile := filter (\<lambda>v. vf_vid v = r) (co_vfile c)\<rparr> else c)) (\<lambda>_ c.
     chain (call CoManifest (ListFiles L (co_repo c) r)) (\<lambda>files. gather (load_entry r) files) c)"

definition UnloadVFile :: "rid \<Rightarrow> checkout \<Rightarrow> checkout" where
  "UnloadVFile r c = c\<lparr>co_vfile := filter (\<lambda>v. vf_vid v \<noteq> r) (co_vfile c)\<rparr>"

definition disk_hash_of :: "libs \<Rightarrow> bytes \<Rightarrow> bytes \<Rightarrow> (checkout_error, bytes) outcome" where
  "disk_hash_of L data ref = wrap_err (\<lambda>_. CoHash) (ContentHash (l_sha1 L) (l_sha3 L) data ref)"

definition scanSingleEntry :: "libs \<Rightarrow> bool \<Rightarrow> vfile_row \<Rightarrow> unit checkout_act" where
  "scanSingleEntry L scanHash e =
     (if vf_deleted e \<noteq> 0 then ret ()
      else chain (safe_path (vf_pathname e)) (\<lambda>p c.
        case ReadFile (co_disk c) p of
          Panic s \<Rightarrow> (c, Panic s)
        | Err ErrNotExist \<Rightarrow> (c, Ok ())
        | Ok data \<Rightarrow>
            if \<not> scanHash then (c, Ok ())
            else chain (call id (disk_hash_of L data (vf_mhash e))) (\<lambda>diskHash.
              change (if diskHash \<noteq> vf_mhash e
                      then (if vf_chnged e = 0 then update_vfile (vf_id e) (\<lambda>v. v\<lparr>vf_chnged := 1\<rparr>) else id)
                      else (if vf_chnged e \<noteq> 0 then update_vfile (vf_id e) (\<lambda>v. v\<lparr>vf_chnged := 0\<rparr>) else id))) c))"

text \<open>The directory walk only counts extra files for the observer.\<close>

definition ScanChanges :: "libs \<Rightarrow> bool \<Rightarrow> unit checkout_act" where
  "ScanChanges L scanHash =
     chain version_act (\<lambda>(r, _) c. for_each (scanSingleEntry L scanHash) (rows_of c r) c)"

end
