(* ===== verification/Checkout_Ops.thy ===== *)
theory Checkout_Ops
  imports Checkout
begin

text \<open>
  The operations of a checkout: extracting a check-in (\<open>extract.go\<close>), managing files
  (\<open>manage.go\<close>), staging and committing (\<open>checkin.go\<close>), reverting (\<open>revert.go\<close>), renaming
  (\<open>rename.go\<close>) and the status (\<open>status.go\<close>).
\<close>

section \<open>Extract (extract.go)\<close>

record ExtractOpts =
  ex_SetMTime :: bool
  ex_DryRun :: bool
  ex_Force :: bool

definition extractSingleFile :: "libs \<Rightarrow> bytes \<Rightarrow> rid \<Rightarrow> int \<Rightarrow> bool \<Rightarrow> unit checkout_act" where
  "extractSingleFile L pathname blobRid isexe dryRun =
     (if dryRun then ret ()
      else (\<lambda>c. chain (call CoContent (expand L (co_repo c) blobRid)) (\<lambda>data.
           chain (safe_path pathname) (\<lambda>p.
           chain (make_parent p) (\<lambda>_. write_at p data (if isexe \<noteq> 0 then exec_perm else plain_perm)))) c))"

text \<open>The time of a check-in in the event table.\<close>

definition checkin_time :: "repo \<Rightarrow> rid \<Rightarrow> int option" where
  "checkin_time q r = map_option ev_mtime (find (\<lambda>e. ev_objid e = r \<and> ev_type e = ''ci'') (t_event q))"

definition touch :: "int option \<Rightarrow> bytes \<Rightarrow> unit checkout_act" where
  "touch t name =
     (case t of None \<Rightarrow> ret () | Some t \<Rightarrow> ignore_err (chain (safe_path name) (\<lambda>p. on_disk (Chtimes p t))))"

text \<open>The check for local changes; a path that is refused or a file that cannot be read is passed over.\<close>

definition check_local :: "libs \<Rightarrow> vfile_row \<Rightarrow> unit checkout_act" where
  "check_local L v c =
     (if vf_mhash v = [] then (c, Ok ())
      else case safePath (co_dir c) (vf_pathname v) of
             Panic s \<Rightarrow> (c, Panic s)
           | Err _ \<Rightarrow> (c, Ok ())
           | Ok p \<Rightarrow>
               (case ReadFile (co_disk c) p of
                  Panic s \<Rightarrow> (c, Panic s)
                | Err _ \<Rightarrow> (c, Ok ())
                | Ok data \<Rightarrow>
                    (c, bind_ok (disk_hash_of L data (vf_mhash v)) (\<lambda>h.
                          if h \<noteq> vf_mhash v then Err (LocalChanges (vf_pathname v)) else Ok ()))))"

definition set_version :: "rid \<Rightarrow> bytes \<Rightarrow> checkout \<Rightarrow> checkout" where
  "set_version r uuid c = setVVar ''checkout-hash'' uuid (setVVar ''checkout'' (show_int r) c)"

definition finalizeExtract :: "rid \<Rightarrow> unit checkout_act" where
  "finalizeExtract r c =
     (case blob_by_rid (co_repo c) r of None \<Rightarrow> (c, Err (CoSql NoRows)) | Some b \<Rightarrow> (set_version r (bl_uuid b) c, Ok ()))"

definition extract_row :: "libs \<Rightarrow> int option \<Rightarrow> bool \<Rightarrow> vfile_row \<Rightarrow> unit checkout_act" where
  "extract_row L t dryRun v =
     chain (extractSingleFile L (vf_pathname v) (vf_rid v) (vf_isexe v) dryRun) (\<lambda>_. touch t (vf_pathname v))"

definition Extract :: "libs \<Rightarrow> rid \<Rightarrow> ExtractOpts \<Rightarrow> unit checkout_act" where
  "Extract L r opts =
     chain (LoadVFile L r True) (\<lambda>_ c.
       let rows = rows_of c r;
           t = (if ex_SetMTime opts \<and> \<not> ex_DryRun opts then checkin_time (co_repo c) r else None)
       in chain (if \<not> ex_Force opts \<and> \<not> ex_DryRun opts then for_each (check_local L) rows else ret ()) (\<lambda>_.
          chain (for_each (extract_row L t (ex_DryRun opts)) rows) (\<lambda>_. finalizeExtract r)) c)"

section \<open>Adding and removing files (manage.go)\<close>

record ManageCounts =
  mc_Added :: nat
  mc_Updated :: nat
  mc_Skipped :: nat

definition sample_uuid :: "repo \<Rightarrow> bytes" where
  "sample_uuid q = (case find (\<lambda>b. bl_size b \<ge> 0) (t_blob q) of None \<Rightarrow> [] | Some b \<Rightarrow> bl_uuid b)"

definition added_row :: "rid \<Rightarrow> bytes \<Rightarrow> bytes \<Rightarrow> vfile_row" where
  "added_row vid path mhash =
     \<lparr>vf_id = 0, vf_vid = vid, vf_chnged = 1, vf_deleted = 0, vf_isexe = 0, vf_islink = 0, vf_rid = 0, vf_mrid = 0,
      vf_mtime = 0, vf_pathname = path, vf_origname = None, vf_mhash = mhash\<rparr>"

text \<open>Whether the path is new.\<close>

definition manage_path :: "libs \<Rightarrow> rid \<Rightarrow> bytes \<Rightarrow> bool list checkout_act" where
  "manage_path L vid path c =
     (if has_path (co_vfile c) vid path then (c, Ok [False])
      else chain (safe_path path) (\<lambda>p c.
           chain (call CoStorage (ReadFile (co_disk c) p)) (\<lambda>data.
           let mhash = (if length (sample_uuid (co_repo c)) > 40 then l_sha3 L data else l_sha1 L data) in
           chain (change (\<lambda>c. c\<lparr>co_vfile := insert_vfile (added_row vid path mhash) (co_vfile c)\<rparr>)) (\<lambda>_. ret [True])) c) c)"

definition Manage :: "libs \<Rightarrow> bytes list \<Rightarrow> ManageCounts checkout_act" where
  "Manage L paths =
     chain version_act (\<lambda>(vid, _).
     chain (gather (manage_path L vid) paths) (\<lambda>bs.
     ret \<lparr>mc_Added = length (filter id bs), mc_Updated = 0, mc_Skipped = length (filter Not bs)\<rparr>))"

definition delete_vfile :: "int \<Rightarrow> checkout \<Rightarrow> checkout" where
  "delete_vfile i c = c\<lparr>co_vfile := filter (\<lambda>v. vf_id v \<noteq> i) (co_vfile c)\<rparr>"

definition unmanageFile :: "int \<Rightarrow> rid \<Rightarrow> checkout \<Rightarrow> checkout" where
  "unmanageFile i r = (if r = 0 then delete_vfile i else update_vfile i (\<lambda>v. v\<lparr>vf_deleted := 1\<rparr>))"

definition unmanage_id :: "int \<Rightarrow> checkout \<Rightarrow> checkout" where
  "unmanage_id i c = (case find (\<lambda>v. vf_id v = i) (co_vfile c) of None \<Rightarrow> c | Some v \<Rightarrow> unmanageFile i (vf_rid v) c)"

definition unmanage_path :: "rid \<Rightarrow> bytes \<Rightarrow> checkout \<Rightarrow> checkout" where
  "unmanage_path vid path c = (case find_path c vid path of None \<Rightarrow> c | Some v \<Rightarrow> unmanageFile (vf_id v) (vf_rid v) c)"

definition Unmanage :: "bytes list \<Rightarrow> int list \<Rightarrow> unit checkout_act" where
  "Unmanage paths ids =
     chain version_act (\<lambda>(vid, _). change (if length ids > 0 then fold unmanage_id ids else fold (unmanage_path vid) paths))"

section \<open>Staging (checkin.go)\<close>

definition Enqueue :: "bytes list \<Rightarrow> checkout \<Rightarrow> checkout" where
  "Enqueue paths c = c\<lparr>co_queue := Some (fold List.insert paths (case co_queue c of None \<Rightarrow> [] | Some ps \<Rightarrow> ps))\<rparr>"

definition Dequeue :: "bytes list \<Rightarrow> checkout \<Rightarrow> checkout" where
  "Dequeue paths c =
     (if length paths = 0 then c\<lparr>co_queue := None\<rparr>
      else c\<lparr>co_queue := map_option (filter (\<lambda>p. p \<notin> set paths)) (co_queue c)\<rparr>)"

definition IsEnqueued :: "checkout \<Rightarrow> bytes \<Rightarrow> bool" where
  "IsEnqueued c name = (case co_queue c of None \<Rightarrow> True | Some ps \<Rightarrow> name \<in> set ps)"

definition DiscardQueue :: "checkout \<Rightarrow> checkout" where
  "DiscardQueue c = c\<lparr>co_queue := None\<rparr>"

section \<open>Commit (checkin.go)\<close>

record CommitOpts =
  cm_Message :: bytes
  cm_User :: bytes
  cm_Branch :: bytes
  cm_Tags :: "bytes list"
  cm_Delta :: bool
  cm_Time :: gotime
  cm_PreCommitCheck :: "checkout_error option"

text \<open>The changed and the deleted paths of a version.\<close>

definition collectVFileEntries :: "checkout \<Rightarrow> rid \<Rightarrow> bytes list \<times> bytes list" where
  "collectVFileEntries c vid =
     (map vf_pathname (filter (\<lambda>v. \<not> vf_deleted v > 0 \<and> (vf_chnged v > 0 \<or> vf_rid v = 0)) (rows_of c vid)),
      map vf_pathname (filter (\<lambda>v. vf_deleted v > 0) (rows_of c vid)))"

definition should_include :: "checkout \<Rightarrow> bytes \<Rightarrow> bool" where
  "should_include c name =
     (case co_queue c of None \<Rightarrow> True | Some ps \<Rightarrow> if length ps > 0 then name \<in> set ps else True)"

definition parent_file_map :: "FileEntry list \<Rightarrow> (bytes \<times> File) list" where
  "parent_file_map files =
     fold (\<lambda>f. AList.update (fe_Name f) \<lparr>fl_Name = fe_Name f, fl_Content = [], fl_Perm = fe_Perm f\<rparr>) files []"

fun put_changed :: "checkout \<Rightarrow> bytes list \<Rightarrow> (bytes \<times> File) list \<Rightarrow> (checkout_error, (bytes \<times> File) list) outcome" where
  "put_changed c [] m = Ok m"
| "put_changed c (n # ns) m =
     bind_ok (safePath (co_dir c) n) (\<lambda>p.
     bind_ok (wrap_err CoStorage (ReadFile (co_disk c) p)) (\<lambda>data.
       put_changed c ns
         (AList.update n \<lparr>fl_Name = n, fl_Content = data, fl_Perm = (case map_of m n of None \<Rightarrow> [] | Some f \<Rightarrow> fl_Perm f)\<rparr> m)))"

definition unchanged_rid :: "checkout \<Rightarrow> rid \<Rightarrow> FileEntry list \<Rightarrow> bytes \<Rightarrow> (checkout_error, rid) outcome" where
  "unchanged_rid c vid files n =
     (case find_path c vid n of
        Some v \<Rightarrow> Ok (vf_rid v)
      | None \<Rightarrow>
          (case find (\<lambda>f. fe_Name f = n) (rev files) of
             None \<Rightarrow> Ok 0
           | Some f \<Rightarrow> (case blob_by_uuid (co_repo c) (fe_UUID f) of None \<Rightarrow> Err (CoSql NoRows) | Some b \<Rightarrow> Ok (bl_rid b))))"

fun fill_unchanged :: "libs \<Rightarrow> checkout \<Rightarrow> rid \<Rightarrow> FileEntry list \<Rightarrow> (bytes \<times> File) list \<Rightarrow> (checkout_error, File list) outcome" where
  "fill_unchanged L c vid files [] = Ok []"
| "fill_unchanged L c vid files ((n, f) # m) =
     bind_ok (if length (fl_Content f) > 0 then Ok f
              else bind_ok (unchanged_rid c vid files n) (\<lambda>r.
                if r = 0 then Err (NoRid n)
                else bind_ok (wrap_err CoContent (expand L (co_repo c) r)) (\<lambda>data.
                     Ok \<lparr>fl_Name = n, fl_Content = data, fl_Perm = fl_Perm f\<rparr>)))
       (\<lambda>f1. bind_ok (fill_unchanged L c vid files m) (\<lambda>fs. Ok (f1 # fs)))"

definition buildCommitFiles :: "libs \<Rightarrow> checkout \<Rightarrow> rid \<Rightarrow> bytes list \<Rightarrow> bytes list \<Rightarrow> (checkout_error, File list) outcome" where
  "buildCommitFiles L c parentRID changedFiles deletedFiles =
     bind_ok (if parentRID \<noteq> 0 then wrap_err CoManifest (ListFiles L (co_repo c) parentRID) else Ok []) (\<lambda>parentFiles.
       let kept = fold AList.delete (filter (should_include c) deletedFiles) (parent_file_map parentFiles) in
       bind_ok (put_changed c (filter (should_include c) changedFiles) kept) (\<lambda>fileMap.
         fill_unchanged L c parentRID parentFiles fileMap))"

definition commit_tags :: "CommitOpts \<Rightarrow> TagCard list" where
  "commit_tags opts =
     (if cm_Branch opts \<noteq> []
      then [\<lparr>tc_Type = TagPropagating, tc_Name = ''branch'', tc_UUID = ''*'', tc_Value = cm_Branch opts\<rparr>,
            \<lparr>tc_Type = TagSingleton, tc_Name = ''sym-'' @ cm_Branch opts, tc_UUID = ''*'', tc_Value = []\<rparr>]
      else []) @
     map (\<lambda>t. \<lparr>tc_Type = TagSingleton, tc_Name = t, tc_UUID = ''*'', tc_Value = []\<rparr>) (cm_Tags opts)"

definition finalizeCommit :: "libs \<Rightarrow> rid \<Rightarrow> bytes \<Rightarrow> unit checkout_act" where
  "finalizeCommit L newRID newUUID =
     chain (change (set_version newRID newUUID)) (\<lambda>_.
     chain (LoadVFile L newRID True) (\<lambda>_. change DiscardQueue))"

definition Commit :: "libs \<Rightarrow> gotime \<Rightarrow> CommitOpts \<Rightarrow> (rid \<times> bytes) checkout_act" where
  "Commit L now opts =
     chain version_act (\<lambda>(parentRID, _).
     chain (ScanChanges L True) (\<lambda>_.
     chain (call id (case cm_PreCommitCheck opts of None \<Rightarrow> Ok () | Some e \<Rightarrow> Err e)) (\<lambda>_ c.
       let (changedFiles, deletedFiles) = collectVFileEntries c parentRID in
       chain (call id (buildCommitFiles L c parentRID changedFiles deletedFiles)) (\<lambda>commitFiles c.
         case Checkin L now (co_repo c)
                \<lparr>ck_Files = commitFiles, ck_Comment = cm_Message opts, ck_User = cm_User opts, ck_Parent = parentRID,
                 ck_MergeParents = [], ck_Delta = cm_Delta opts,
                 ck_Time = (if cm_Time opts = zero_time then now else cm_Time opts), ck_Tags = commit_tags opts\<rparr> of
           (q1, res) \<Rightarrow>
             chain (call CoManifest res) (\<lambda>(newRID, newUUID).
             chain (finalizeCommit L newRID newUUID) (\<lambda>_. ret (newRID, newUUID))) (c\<lparr>co_repo := q1\<rparr>)) c)))"

section \<open>Revert (revert.go)\<close>

definition remove_at :: "bytes \<Rightarrow> unit checkout_act" where
  "remove_at p = ignore_err (on_disk (Remove_mem p))"

definition vfilePerm :: "int \<Rightarrow> nat checkout_act" where
  "vfilePerm i c =
     (case find (\<lambda>v. vf_id v = i) (co_vfile c) of
        None \<Rightarrow> (c, Err (CoSql NoRows)) | Some v \<Rightarrow> (c, Ok (if vf_isexe v \<noteq> 0 then exec_perm else plain_perm)))"

definition revertFile :: "libs \<Rightarrow> vfile_row \<Rightarrow> unit checkout_act" where
  "revertFile L v =
     chain (safe_path (vf_pathname v)) (\<lambda>p.
       if vf_rid v = 0 then chain (change (delete_vfile (vf_id v))) (\<lambda>_. remove_at p)
       else (\<lambda>c. chain (call CoContent (expand L (co_repo c) (vf_rid v))) (\<lambda>data.
            chain (vfilePerm (vf_id v)) (\<lambda>perm.
            chain (make_parent p) (\<lambda>_.
            chain (write_at p data perm) (\<lambda>_.
            change (update_vfile (vf_id v) (\<lambda>v. v\<lparr>vf_chnged := 0, vf_deleted := 0\<rparr>)))))) c))"

definition revertSinglePath :: "libs \<Rightarrow> rid \<Rightarrow> bytes \<Rightarrow> unit checkout_act" where
  "revertSinglePath L vid path c =
     (case find_path c vid path of
        None \<Rightarrow> (c, Ok ())
      | Some v \<Rightarrow> if vf_chnged v = 0 \<and> vf_deleted v = 0 \<and> vf_rid v \<noteq> 0 then (c, Ok ()) else revertFile L v c)"

definition Revert :: "libs \<Rightarrow> bytes list \<Rightarrow> unit checkout_act" where
  "Revert L paths =
     chain version_act (\<lambda>(vid, _) c.
       (if length paths > 0 then for_each (revertSinglePath L vid) paths
        else for_each (revertFile L) (filter (\<lambda>v. vf_chnged v > 0 \<or> vf_deleted v > 0 \<or> vf_rid v = 0) (rows_of c vid))) c)"

section \<open>Renaming (rename.go)\<close>

definition moveFile :: "bytes \<Rightarrow> bytes \<Rightarrow> nat \<Rightarrow> unit checkout_act" where
  "moveFile oldPath newPath perm c =
     chain (call CoStorage (ReadFile (co_disk c) oldPath)) (\<lambda>data.
     chain (make_parent newPath) (\<lambda>_.
     chain (write_at newPath data perm) (\<lambda>_. remove_at oldPath))) c"

definition move_names :: "int \<Rightarrow> bytes \<Rightarrow> bytes \<Rightarrow> unit checkout_act" where
  "move_names i from_name to_name =
     chain (vfilePerm i) (\<lambda>perm.
     chain (safe_path from_name) (\<lambda>oldPath.
     chain (safe_path to_name) (\<lambda>newPath. moveFile oldPath newPath perm)))"

definition Rename :: "bytes \<Rightarrow> bytes \<Rightarrow> bool \<Rightarrow> unit checkout_act" where
  "Rename from_name to_name doFsMove =
     (if from_name = [] then (\<lambda>c. (c, Panic ''checkout.Rename: empty From''))
      else if to_name = [] then (\<lambda>c. (c, Panic ''checkout.Rename: empty To''))
      else chain version_act (\<lambda>(vid, _) c.
        case find_path c vid from_name of
          None \<Rightarrow> (c, Err (VFileMissing from_name))
        | Some v \<Rightarrow>
            if has_path (co_vfile c) vid to_name then (c, Err (VFileExists to_name))
            else chain (change (update_vfile (vf_id v)
                          (\<lambda>v. v\<lparr>vf_pathname := to_name, vf_origname := Some from_name, vf_chnged := 1\<rparr>))) (\<lambda>_.
                 if doFsMove then move_names (vf_id v) from_name to_name else ret ()) c))"

definition RevertRename :: "bytes \<Rightarrow> bool \<Rightarrow> bool checkout_act" where
  "RevertRename name doFsMove =
     (if name = [] then (\<lambda>c. (c, Panic ''checkout.RevertRename: empty name''))
      else chain version_act (\<lambda>(vid, _) c.
        case find_path c vid name of
          None \<Rightarrow> (c, Err (VFileMissing name))
        | Some v \<Rightarrow>
            (case vf_origname v of
               None \<Rightarrow> (c, Ok False)
             | Some orig \<Rightarrow>
                 if orig = [] then (c, Ok False)
                 else if has_path (filter (\<lambda>w. vf_id w \<noteq> vf_id v) (co_vfile c)) vid orig then (c, Err (CoSql UniqueFailed))
                 else chain (change (update_vfile (vf_id v) (\<lambda>v. v\<lparr>vf_pathname := orig, vf_origname := None, vf_chnged := 0\<rparr>))) (\<lambda>_.
                      chain (if doFsMove then move_names (vf_id v) name orig else ret ()) (\<lambda>_. ret True)) c)))"

section \<open>Status (status.go)\<close>

datatype FileChange = ChangeNone | ChangeAdded | ChangeRemoved | ChangeMissing | ChangeRenamed | ChangeModified

record ChangeEntry =
  ce_Name :: bytes
  ce_Change :: FileChange
  ce_VFileID :: int
  ce_IsExec :: bool
  ce_IsLink :: bool
  ce_OrigName :: bytes

definition HasChanges :: "checkout \<Rightarrow> (checkout_error, bool) outcome" where
  "HasChanges c =
     bind_ok (Version c) (\<lambda>(r, _). Ok (length (filter (\<lambda>v. (vf_chnged v > 0 \<or> vf_deleted v > 0) \<and> vf_vid v = r) (co_vfile c)) > 0))"

definition change_type :: "vfile_row \<Rightarrow> FileChange" where
  "change_type v =
     (if vf_deleted v > 0 then ChangeRemoved
      else if vf_rid v = 0 then ChangeAdded
      else if vf_origname v \<noteq> None \<and> vf_origname v \<noteq> Some [] then ChangeRenamed
      else if vf_chnged v > 0 then ChangeModified else ChangeNone)"

definition change_entry :: "vfile_row \<Rightarrow> ChangeEntry" where
  "change_entry v =
     \<lparr>ce_Name = vf_pathname v, ce_Change = change_type v, ce_VFileID = vf_id v, ce_IsExec = (vf_isexe v \<noteq> 0),
      ce_IsLink = (vf_islink v \<noteq> 0), ce_OrigName = (case vf_origname v of None \<Rightarrow> [] | Some s \<Rightarrow> s)\<rparr>"

text \<open>The entries that the visitor is called with.\<close>

definition VisitChanges :: "libs \<Rightarrow> rid \<Rightarrow> bool \<Rightarrow> ChangeEntry list checkout_act" where
  "VisitChanges L vid scan =
     chain (if scan then ScanChanges L True else ret ()) (\<lambda>_ c.
       (c, Ok (map change_entry (filter (\<lambda>v. vf_vid v = vid \<and> (vf_chnged v > 0 \<or> vf_deleted v > 0 \<or> vf_origname v \<noteq> None)) (co_vfile c)))))"

end
