(* ===== verification/Checkout_Update.thy ===== *)
theory Checkout_Update
  imports Checkout_Ops
begin

text \<open>
  Creating and opening a checkout (\<open>checkout.go\<close>), forks of its branch (\<open>fork.go\<close>) and the
  update to another check-in with its three-way merges (\<open>update.go\<close>).
\<close>

section \<open>Creating and opening (checkout.go)\<close>

text \<open>The leaf check-ins, the latest first.\<close>

definition leaf_events :: "repo \<Rightarrow> event_row list" where
  "leaf_events q =
     sort_key (\<lambda>e. - ev_mtime e)
       (concat (map (\<lambda>l. filter (\<lambda>e. ev_objid e = l \<and> ev_type e = ''ci'') (t_event q)) (t_leaf q)))"

definition initCheckoutVersion :: "repo \<Rightarrow> checkout \<Rightarrow> checkout" where
  "initCheckoutVersion q c =
     (case filter (\<lambda>e. blob_by_rid q (ev_objid e) \<noteq> None) (leaf_events q) of
        [] \<Rightarrow> setVVar ''checkout-hash'' [] (setVVar ''checkout'' ''0'' c)
      | e # _ \<Rightarrow> set_version (ev_objid e) (case blob_by_rid q (ev_objid e) of None \<Rightarrow> [] | Some b \<Rightarrow> bl_uuid b) c)"

definition initUndoState :: "checkout \<Rightarrow> checkout" where
  "initUndoState c = setVVar ''undo_checkout'' ''0'' (setVVar ''undo_available'' ''0'' c)"

text \<open>
  \<open>c0\<close> holds the rows that a checkout database of that name has already, none for a new one; the
  opening of the database file is not modelled.
\<close>

definition Create_checkout :: "libs \<Rightarrow> bytes \<Rightarrow> unit checkout_act" where
  "Create_checkout L repoPath c0 =
     (if co_dir c0 = [] then (c0, Panic ''checkout.Create: empty dir'')
      else chain (on_disk (MkdirAll (co_dir c0) exec_perm)) (\<lambda>_.
           chain (change (\<lambda>c. setVVar ''repository'' repoPath (initUndoState (initCheckoutVersion (co_repo c) c)))) (\<lambda>_.
           chain version_act (\<lambda>(r, _). if r \<noteq> 0 then chain (LoadVFile L r True) (\<lambda>_. ret ()) else ret ()))) c0)"

definition DBNames :: "bytes list" where
  "DBNames = [''.fslckout'', ''_FOSSIL_'']"

fun find_checkout_db :: "nat \<Rightarrow> MemStorage \<Rightarrow> bytes \<Rightarrow> bool \<Rightarrow> bytes option" where
  "find_checkout_db 0 m currentDir searchParents = None"
| "find_checkout_db (Suc n) m currentDir searchParents =
     (case find (\<lambda>p. is_ok (Stat_mem m p)) (map (path_Join currentDir) DBNames) of
        Some p \<Rightarrow> Some p
      | None \<Rightarrow> if \<not> searchParents \<or> Dir currentDir = currentDir then None
                else find_checkout_db n m (Dir currentDir) searchParents)"

definition maxParentSearchDepth :: nat where
  "maxParentSearchDepth = 256"

definition FindCheckoutDB :: "MemStorage \<Rightarrow> bytes \<Rightarrow> bool \<Rightarrow> (checkout_error, bytes) outcome" where
  "FindCheckoutDB m dir searchParents =
     (if dir = [] then Panic ''checkout.FindCheckoutDB: empty dir''
      else case find_checkout_db (maxParentSearchDepth + 1) m dir searchParents of
             None \<Rightarrow> Err (NoCheckoutDB dir) | Some p \<Rightarrow> Ok p)"

text \<open>Opening: the rows of the found database are those of \<open>c\<close>.\<close>

definition Open_checkout :: "bytes \<Rightarrow> bool \<Rightarrow> checkout \<Rightarrow> (checkout_error, checkout) outcome" where
  "Open_checkout dir searchParents c =
     (if dir = [] then Panic ''checkout.Open: empty dir''
      else bind_ok (FindCheckoutDB (co_disk c) dir searchParents) (\<lambda>dbPath.
           if getVVar (co_vvar c) ''checkout'' = [] then Err VersionNotSet
           else let c1 = c\<lparr>co_dir := Dir dbPath, co_queue := None\<rparr> in
             bind_ok (ValidateFingerprint c1) (\<lambda>_. Ok c1)))"

section \<open>Forks (fork.go)\<close>

definition branch_tags :: "repo \<Rightarrow> tagxref_row list" where
  "branch_tags q = filter (\<lambda>x. map_of (t_tag q) (tx_tagid x) = Some ''branch'' \<and> tx_tagtype x > 0) (t_tagxref q)"

definition BranchLeaves :: "repo \<Rightarrow> bytes \<Rightarrow> rid list" where
  "BranchLeaves q branch =
     (let b = (if branch = [] then ''trunk'' else branch) in
      concat (map (\<lambda>l. map (\<lambda>_. l) (filter (\<lambda>x. tx_rid x = l \<and> tx_value x = Some b) (branch_tags q))) (t_leaf q)))"

text \<open>A branch tag without a value reads as an error, so as trunk.\<close>

definition currentBranch :: "repo \<Rightarrow> rid \<Rightarrow> bytes" where
  "currentBranch q r =
     (case sort_key (\<lambda>x. - tx_mtime x) (filter (\<lambda>x. tx_rid x = r) (branch_tags q)) of
        [] \<Rightarrow> ''trunk'' | x # _ \<Rightarrow> (case tx_value x of None \<Rightarrow> ''trunk'' | Some b \<Rightarrow> b))"

definition WouldFork :: "checkout \<Rightarrow> (checkout_error, bool) outcome" where
  "WouldFork c =
     bind_ok (Version c) (\<lambda>(r, _).
       Ok (list_ex (\<lambda>leaf. leaf \<noteq> r) (BranchLeaves (co_repo c) (currentBranch (co_repo c) r))))"

section \<open>Update (update.go)\<close>

datatype UpdateChange =
    UpdateNone | UpdateAdded | UpdateAddPropagated | UpdateRemoved | UpdateRmPropagated | UpdateUpdated | UpdateUpdatedBinary
  | UpdateMerged | UpdateConflictMerged | UpdateConflictAdded | UpdateConflictUnmanaged | UpdateConflictRm | UpdateConflictSymlink
  | UpdateConflictBinary | UpdateRenamed | UpdateEdited

record UpdateOpts =
  up_TargetRID :: rid
  up_SetMTime :: bool
  up_DryRun :: bool

definition CalcUpdateVersion :: "checkout \<Rightarrow> (checkout_error, rid) outcome" where
  "CalcUpdateVersion c =
     bind_ok (Version c) (\<lambda>(current, _).
       case leaf_events (co_repo c) of
         [] \<Rightarrow> Ok 0
       | e # _ \<Rightarrow> if ev_objid e = current then Ok 0 else Ok (ev_objid e))"

record updateFileMaps =
  um_current :: "(bytes \<times> bytes) list"
  um_target :: "(bytes \<times> bytes) list"
  um_ancestor :: "(bytes \<times> bytes) list"
  um_allNames :: "bytes list"

definition uuid_map :: "FileEntry list \<Rightarrow> (bytes \<times> bytes) list" where
  "uuid_map files = fold (\<lambda>f. AList.update (fe_Name f) (fe_UUID f)) files []"

definition buildFileMaps :: "FileEntry list \<Rightarrow> FileEntry list \<Rightarrow> FileEntry list \<Rightarrow> updateFileMaps" where
  "buildFileMaps cur tgt anc =
     \<lparr>um_current = uuid_map cur, um_target = uuid_map tgt, um_ancestor = uuid_map anc,
      um_allNames = remdups (map fe_Name cur @ map fe_Name tgt)\<rparr>"

definition buildUpdateMaps :: "libs \<Rightarrow> repo \<Rightarrow> rid \<Rightarrow> rid \<Rightarrow> (checkout_error, updateFileMaps) outcome" where
  "buildUpdateMaps L q current target =
     bind_ok (wrap_err CoManifest (ListFiles L q current)) (\<lambda>currentFiles.
     bind_ok (wrap_err CoManifest (ListFiles L q target)) (\<lambda>targetFiles.
     bind_ok (case FindCommonAncestor q current target of Ok a \<Rightarrow> Ok a | Err _ \<Rightarrow> Ok current | Panic s \<Rightarrow> Panic s) (\<lambda>ancestor.
     bind_ok (if ancestor = current then Ok currentFiles else wrap_err CoManifest (ListFiles L q ancestor)) (\<lambda>ancestorFiles.
       Ok (buildFileMaps currentFiles targetFiles ancestorFiles)))))"

definition expandUUID :: "libs \<Rightarrow> bytes \<Rightarrow> bytes checkout_act" where
  "expandUUID L uuid c =
     chain (call CoBlob (Exists (co_repo c) uuid)) (\<lambda>found c.
       case found of
         None \<Rightarrow> (c, Err (UuidMissing uuid))
       | Some r \<Rightarrow> call CoContent (expand L (co_repo c) r) c) c"

definition write_in_dir :: "bytes \<Rightarrow> bytes \<Rightarrow> unit checkout_act" where
  "write_in_dir name data =
     chain (safe_path name) (\<lambda>p. chain (make_parent p) (\<lambda>_. write_at p data plain_perm))"

definition writeFileFromUUID :: "libs \<Rightarrow> bytes \<Rightarrow> bytes \<Rightarrow> unit checkout_act" where
  "writeFileFromUUID L name uuid = chain (expandUUID L uuid) (\<lambda>data. write_in_dir name data)"

text \<open>
  A merge that ends with no line has a nil slice as its content, which \<open>MemStorage\<close> refuses; the
  merges that return one of their inputs do not.
\<close>

definition nil_merge :: "bytes \<Rightarrow> bytes \<Rightarrow> bytes \<Rightarrow> Result \<Rightarrow> bool" where
  "nil_merge ancData curData tgtData result \<longleftrightarrow>
     rs_Content result = [] \<and> curData \<noteq> tgtData \<and> ancData \<noteq> curData \<and> ancData \<noteq> tgtData"

definition write_merged :: "bytes \<Rightarrow> bytes \<Rightarrow> bool \<Rightarrow> unit checkout_act" where
  "write_merged name data is_nil =
     chain (safe_path name) (\<lambda>p. chain (make_parent p) (\<lambda>_ c.
       if is_nil then (c, Panic ''MemStorage.WriteFile: data must not be nil'') else write_at p data plain_perm c))"

definition mergeFile :: "libs \<Rightarrow> bytes \<Rightarrow> bytes \<Rightarrow> bytes \<Rightarrow> bytes \<Rightarrow> (bytes \<Rightarrow> bytes \<Rightarrow> bytes \<Rightarrow> Result) \<Rightarrow> bool \<Rightarrow> UpdateChange checkout_act" where
  "mergeFile L name ancUUID curUUID tgtUUID strategy dryRun =
     chain (expandUUID L ancUUID) (\<lambda>ancData.
     chain (expandUUID L curUUID) (\<lambda>curData.
     chain (expandUUID L tgtUUID) (\<lambda>tgtData.
       let result = strategy ancData curData tgtData in
       chain (if dryRun then ret () else write_merged name (rs_Content result) (nil_merge ancData curData tgtData result)) (\<lambda>_.
       ret (if rs_Clean result then UpdateMerged else UpdateConflictMerged)))))"

text \<open>An ancestor without the file reads as the empty hash.\<close>

definition updateFile ::
  "libs \<Rightarrow> bytes \<Rightarrow> bytes option \<Rightarrow> bytes option \<Rightarrow> bytes option \<Rightarrow> (bytes \<Rightarrow> bytes \<Rightarrow> bytes \<Rightarrow> Result) \<Rightarrow> bool \<Rightarrow> UpdateChange checkout_act" where
  "updateFile L name cur tgt anc strategy dryRun =
     (case (cur, tgt) of
        (None, Some tgtUUID) \<Rightarrow>
          chain (if dryRun then ret () else writeFileFromUUID L name tgtUUID) (\<lambda>_. ret UpdateAdded)
      | (Some _, None) \<Rightarrow>
          chain (if dryRun then ret () else chain (safe_path name) remove_at) (\<lambda>_. ret UpdateRemoved)
      | (Some curUUID, Some tgtUUID) \<Rightarrow>
          let ancUUID = (case anc of None \<Rightarrow> [] | Some u \<Rightarrow> u) in
          if curUUID = tgtUUID then ret UpdateNone
          else if curUUID = ancUUID
               then chain (if dryRun then ret () else writeFileFromUUID L name tgtUUID) (\<lambda>_. ret UpdateUpdated)
          else if tgtUUID = ancUUID then ret UpdateNone
          else mergeFile L name ancUUID curUUID tgtUUID strategy dryRun
      | (None, None) \<Rightarrow> ret UpdateNone)"

definition process_name :: "libs \<Rightarrow> updateFileMaps \<Rightarrow> (bytes \<Rightarrow> bytes \<Rightarrow> bytes \<Rightarrow> Result) \<Rightarrow> int option \<Rightarrow> bool \<Rightarrow> bytes \<Rightarrow> unit checkout_act" where
  "process_name L maps strategy t dryRun name =
     chain (updateFile L name (map_of (um_current maps) name) (map_of (um_target maps) name) (map_of (um_ancestor maps) name)
              strategy dryRun) (\<lambda>chg.
       if chg = UpdateNone \<or> chg = UpdateRemoved then ret () else touch t name)"

definition processFileUpdates :: "libs \<Rightarrow> updateFileMaps \<Rightarrow> (bytes \<Rightarrow> bytes \<Rightarrow> bytes \<Rightarrow> Result) \<Rightarrow> int option \<Rightarrow> bool \<Rightarrow> unit checkout_act" where
  "processFileUpdates L maps strategy t dryRun = for_each (process_name L maps strategy t dryRun) (um_allNames maps)"

definition finalizeUpdate :: "libs \<Rightarrow> rid \<Rightarrow> unit checkout_act" where
  "finalizeUpdate L target = chain (LoadVFile L target True) (\<lambda>_. finalizeExtract target)"

definition update_to :: "libs \<Rightarrow> UpdateOpts \<Rightarrow> rid \<Rightarrow> rid \<Rightarrow> unit checkout_act" where
  "update_to L opts current target c =
     chain (call id (buildUpdateMaps L (co_repo c) current target)) (\<lambda>maps c.
       case StrategyByName ''three-way'' of
         None \<Rightarrow> (c, Err (NoStrategy ''three-way''))
       | Some strategy \<Rightarrow>
           let t = (if up_SetMTime opts \<and> \<not> up_DryRun opts then checkin_time (co_repo c) target else None) in
           chain (processFileUpdates L maps strategy t (up_DryRun opts)) (\<lambda>_. finalizeUpdate L target) c) c"

definition Update_checkout :: "libs \<Rightarrow> UpdateOpts \<Rightarrow> unit checkout_act" where
  "Update_checkout L opts =
     chain (if up_TargetRID opts = 0 then (\<lambda>c. (c, CalcUpdateVersion c)) else ret (up_TargetRID opts)) (\<lambda>target.
       if target = 0 then ret ()
       else chain version_act (\<lambda>(currentRID, _).
              if currentRID = target then ret () else update_to L opts currentRID target))"

end
