(* ===== verification/Checkout_Props.thy ===== *)
theory Checkout_Props
  imports Checkout_Update
begin

text \<open>
  No operation of a checkout touches a file outside its directory, and the file table keeps its
  keys.
\<close>

section \<open>Safe paths\<close>

lemma shown_plain:
  assumes "clean_comps False cs" "show_comps False cs \<noteq> ''..''" "\<not> HasPrefix (show_comps False cs) ''../''"
  shows "list_all plain_comp cs"
proof -
  obtain n ps where cs: "cs = replicate n ''..'' @ ps" "list_all plain_comp ps" using assms(1) by (auto simp: clean_comps_def)
  have "n = 0"
  proof (rule ccontr)
    assume "n \<noteq> 0"
    then obtain ds where ds: "cs = ''..'' # ds" using cs(1) by (cases n) auto
    with assms(2,3) show False by (cases ds) (auto simp: show_comps_def HasPrefix_def)
  qed
  with cs show ?thesis by simp
qed

lemma split_shown: "clean_comps False cs \<Longrightarrow> split_slash (show_comps False cs) = cs \<or> split_slash (show_comps False cs) = [''.'']"
  using clean_no_slash by (cases "cs = []") (auto simp: show_comps_def intro!: split_slash_Join)

lemma show_comps_nonempty: "clean_comps False cs \<Longrightarrow> show_comps False cs \<noteq> []"
  using split_shown [of cs] clean_no_slash [of False cs "[]"] by (auto simp: show_comps_def split: if_splits)

lemma rel_comps_clean:
  "rel_comps bs ts = Some rs \<Longrightarrow> list_all plain_comp ts \<Longrightarrow> clean_comps False rs"
proof (induction bs ts rule: rel_comps.induct)
  case (1 b bs t ts)
  then show ?case
    by (auto split: if_splits simp: clean_comps_def map_replicate_const intro!: exI [of _ "Suc (length bs)"])
next
  case (2 ts)
  then show ?case by (auto simp: clean_comps_def intro!: exI [of _ 0])
next
  case (3 b bs)
  then show ?case
    by (auto split: if_splits simp: clean_comps_def map_replicate_const intro!: exI [of _ "Suc (length bs)"] exI [of _ "[]"])
qed

lemma CheckFilename_plain:
  assumes "CheckFilename dir name = Ok cl"
  shows "\<exists>cs. cl = show_comps False cs \<and> clean_comps False cs \<and> list_all plain_comp cs"
proof -
  have not_up: "cl \<noteq> ''..''" "\<not> HasPrefix cl ''../''"
    using assms by (auto simp: CheckFilename_def Let_def bind_ok_eq_Ok split: if_splits)
  have "\<exists>cs. cl = show_comps False cs \<and> clean_comps False cs"
  proof (cases "IsAbs name")
    case True
    with assms obtain r where r: "Rel dir (Clean name) = Some r" "cl = r"
      by (auto simp: CheckFilename_def Let_def bind_ok_eq_Ok split: if_splits option.splits)
    then obtain rs where rs: "rel_comps (path_comps dir) (path_comps name) = Some rs" "r = show_comps False rs"
      by (auto simp: Rel_def split: if_splits)
    have "list_all plain_comp (path_comps name)" using path_comps_clean [of name] True by (auto simp: clean_comps_def)
    with rs r show ?thesis using rel_comps_clean by blast
  next
    case False
    with assms have "cl = Clean name" by (auto simp: CheckFilename_def Let_def split: if_splits)
    with False path_comps_clean [of name] show ?thesis by (auto simp: Clean_def)
  qed
  with not_up shown_plain show ?thesis by blast
qed

lemma safePath_within:
  assumes "safePath dir name = Ok p" "dir \<noteq> []"
  shows "within dir p"
proof -
  obtain cl where cl: "CheckFilename dir name = Ok cl" "p = path_Join dir cl" using assms(1) by (auto simp: safePath_def bind_ok_eq_Ok)
  obtain cs where cs: "cl = show_comps False cs" "clean_comps False cs" "list_all plain_comp cs" using CheckFilename_plain [OF cl(1)] by blast
  then show ?thesis
    using path_Join_within(1) [of cl cs dir] show_comps_parts [OF cs(2)] split_shown [OF cs(2)] show_comps_nonempty [OF cs(2)] assms(2) cl(2)
    by simp
qed

section \<open>What the steps keep\<close>

definition vfile_ok :: "checkout \<Rightarrow> bool" where
  "vfile_ok c \<longleftrightarrow> distinct (map vf_id (co_vfile c)) \<and> distinct (map (\<lambda>v. (vf_vid v, vf_pathname v)) (co_vfile c))"

definition tidy :: "checkout \<Rightarrow> checkout \<Rightarrow> bool" where
  "tidy c c' \<longleftrightarrow> co_dir c' = co_dir c \<and> (vfile_ok c \<longrightarrow> vfile_ok c') \<and>
     (co_dir c \<noteq> [] \<longrightarrow> (\<forall>p. \<not> within (co_dir c) p \<longrightarrow> file_at (co_disk c') p = file_at (co_disk c) p))"

interpretation td: kept_relation tidy
  by unfold_locales (auto simp: tidy_def)

lemma tidy_state [intro]:
  "co_dir c' = co_dir c \<Longrightarrow> co_disk c' = co_disk c \<Longrightarrow> co_vfile c' = co_vfile c \<Longrightarrow> tidy c c'"
  by (simp add: tidy_def vfile_ok_def)

lemma tidy_on_disk:
  assumes "\<And>q. co_dir c \<noteq> [] \<Longrightarrow> \<not> within (co_dir c) q \<Longrightarrow> file_at (fst (f (co_disk c))) q = file_at (co_disk c) q"
  shows "tidy c (fst (on_disk f c))"
  using assms by (auto simp: tidy_def on_disk_def vfile_ok_def split: prod.split)

lemma tidy_ignore_err: "tidy c (fst (f c)) \<Longrightarrow> tidy c (fst (ignore_err f c))"
  by (auto simp: ignore_err_def split: prod.splits outcome.splits)

lemma new_vfile_id_fresh: "new_vfile_id vs \<notin> vf_id ` set vs"
proof -
  have "i \<in> vf_id ` set vs \<Longrightarrow> i \<le> foldr max (map vf_id vs) 0" for i by (induction vs) auto
  then show ?thesis by (force simp: new_vfile_id_def)
qed

lemma vfile_ok_insert: "vfile_ok c \<Longrightarrow> vfile_ok (c\<lparr>co_vfile := insert_vfile v (co_vfile c)\<rparr>)"
  using new_vfile_id_fresh [of "co_vfile c"] by (auto simp: vfile_ok_def insert_vfile_def has_path_def)

lemma vfile_ok_filter: "vfile_ok c \<Longrightarrow> vfile_ok (c\<lparr>co_vfile := filter P (co_vfile c)\<rparr>)"
  by (auto simp: vfile_ok_def distinct_map_filter)

lemma vfile_ok_update:
  assumes "vfile_ok c" "\<And>v. vf_id (f v) = vf_id v" "\<And>v. vf_vid (f v) = vf_vid v" "\<And>v. vf_pathname (f v) = vf_pathname v"
  shows "vfile_ok (update_vfile i f c)"
proof -
  have "map vf_id (co_vfile (update_vfile i f c)) = map vf_id (co_vfile c)"
    "map (\<lambda>v. (vf_vid v, vf_pathname v)) (co_vfile (update_vfile i f c)) = map (\<lambda>v. (vf_vid v, vf_pathname v)) (co_vfile c)"
    using assms(2-) by (auto simp: update_vfile_def)
  with assms(1) show ?thesis by (simp add: vfile_ok_def)
qed

lemma tidy_update:
  "(\<And>v. vf_id (f v) = vf_id v) \<Longrightarrow> (\<And>v. vf_vid (f v) = vf_vid v) \<Longrightarrow> (\<And>v. vf_pathname (f v) = vf_pathname v) \<Longrightarrow>
   tidy c (update_vfile i f c)"
  using vfile_ok_update [of c f i] by (simp add: tidy_def update_vfile_def)

lemma tidy_filter: "tidy c (c\<lparr>co_vfile := filter P (co_vfile c)\<rparr>)"
  using vfile_ok_filter by (simp add: tidy_def)

lemma tidy_insert: "tidy c (c\<lparr>co_vfile := insert_vfile v (co_vfile c)\<rparr>)"
  using vfile_ok_insert by (simp add: tidy_def)

lemma tidy_setVVar: "tidy c (setVVar n v c)" "tidy c (set_version r u c)" "tidy c (DiscardQueue c)"
  by (auto simp: setVVar_def set_version_def DiscardQueue_def)

text \<open>Steps on the disk at a path within the directory.\<close>

definition at_safe :: "checkout \<Rightarrow> bytes \<Rightarrow> bool" where
  "at_safe c p \<longleftrightarrow> p \<noteq> [] \<and> (co_dir c \<noteq> [] \<longrightarrow> within (co_dir c) p)"

lemma tidy_write_at: "at_safe c p \<Longrightarrow> tidy c (fst (write_at p data perm c))"
  unfolding write_at_def by (rule tidy_on_disk) (auto simp: at_safe_def file_at_WriteFile)

lemma tidy_remove_at: "at_safe c p \<Longrightarrow> tidy c (fst (remove_at p c))"
  unfolding remove_at_def by (intro tidy_ignore_err tidy_on_disk) (auto simp: at_safe_def mem.rd_rm)

lemma tidy_make_parent: "tidy c (fst (make_parent p c))"
  unfolding make_parent_def by (rule tidy_on_disk) simp

lemma path_Join_nonempty: "dir \<noteq> [] \<or> b \<noteq> [] \<Longrightarrow> path_Join dir b \<noteq> []"
proof -
  have "show_comps r cs \<noteq> []" if "clean_comps r cs" for r cs
    using that show_comps_nonempty by (cases r) (auto simp: show_comps_def)
  then have "Clean s \<noteq> []" for s using path_comps_clean by (simp add: Clean_def)
  then show "dir \<noteq> [] \<or> b \<noteq> [] \<Longrightarrow> path_Join dir b \<noteq> []" by (auto simp: path_Join_def)
qed

lemma safe_path_Ok: "safe_path name c = (c1, Ok p) \<Longrightarrow> c1 = c \<and> at_safe c p"
proof -
  assume "safe_path name c = (c1, Ok p)"
  then have p: "c1 = c" "safePath (co_dir c) name = Ok p" by (auto simp: safe_path_def)
  then obtain cl where cl: "CheckFilename (co_dir c) name = Ok cl" "p = path_Join (co_dir c) cl" by (auto simp: safePath_def bind_ok_eq_Ok)
  then have "cl \<noteq> []" using CheckFilename_plain [OF cl(1)] show_comps_nonempty by auto
  with cl path_Join_nonempty have "p \<noteq> []" by auto
  with p safePath_within show ?thesis by (auto simp: at_safe_def)
qed

lemma tidy_safe_path: "(\<And>p. at_safe c p \<Longrightarrow> tidy c (fst (f p c))) \<Longrightarrow> tidy c (fst (chain (safe_path name) f c))"
  using safe_path_Ok [of name c] by (intro td.chain) (auto simp: safe_path_def)

lemma at_safe_same: "tidy c c1 \<Longrightarrow> at_safe c p \<Longrightarrow> at_safe c1 p"
  by (simp add: tidy_def at_safe_def)

lemma tidy_after: "tidy c (fst (m c)) \<Longrightarrow> (\<And>x c1. tidy c c1 \<Longrightarrow> tidy c1 (fst (f x c1))) \<Longrightarrow> tidy c (fst (chain m f c))"
  by (rule td.chain) (metis fst_conv)+

lemma tidy_outcome: "tidy c (fst (c, x))"
  by auto

lemmas tidy_rules = td.ret td.call tidy_outcome td.change tidy_update tidy_filter tidy_insert tidy_setVVar tidy_write_at tidy_remove_at
  tidy_make_parent at_safe_same

section \<open>The operations\<close>

lemma tidy_load_entry: "tidy c (fst (load_entry vid f c))"
  unfolding load_entry_def by (intro tidy_after tidy_rules)

lemma tidy_LoadVFile: "tidy c (fst (LoadVFile L r clear c))"
  unfolding LoadVFile_def
  by (intro tidy_after td.change td.call td.gather tidy_load_entry) (auto intro: tidy_filter td.refl)

lemma tidy_scan_entry: "tidy c (fst (scanSingleEntry L h e c))"
proof -
  have "tidy c (fst (case ReadFile (co_disk c) p of
        Panic s \<Rightarrow> (c, Panic s) | Err ErrNotExist \<Rightarrow> (c, Ok ())
      | Ok data \<Rightarrow> if \<not> h then (c, Ok ())
          else chain (call id (disk_hash_of L data (vf_mhash e))) (\<lambda>diskHash.
              change (if diskHash \<noteq> vf_mhash e then (if vf_chnged e = 0 then update_vfile (vf_id e) (\<lambda>v. v\<lparr>vf_chnged := 1\<rparr>) else id)
                      else (if vf_chnged e \<noteq> 0 then update_vfile (vf_id e) (\<lambda>v. v\<lparr>vf_chnged := 0\<rparr>) else id))) c))" for c p
    by (auto split: outcome.split storage_error.split intro!: tidy_after td.call td.change tidy_update td.refl)
  note step = this
  show ?thesis
  proof (cases "vf_deleted e = 0")
    case True
    show ?thesis by (subst scanSingleEntry_def, subst if_not_P, simp add: True) (rule tidy_safe_path, rule step)
  qed (simp add: scanSingleEntry_def td.ret)
qed

lemma tidy_ScanChanges: "tidy c (fst (ScanChanges L h c))"
  unfolding ScanChanges_def version_act_def
  by (intro tidy_after) (auto split: prod.split intro!: td.for_each tidy_scan_entry td.refl)

lemma tidy_extractSingleFile: "tidy c (fst (extractSingleFile L n r x d c))"
  unfolding extractSingleFile_def
  by (auto intro!: td.ret tidy_after [where m = "call w m" for w m] td.call tidy_safe_path tidy_after [where m = "make_parent p" for p]
      tidy_make_parent tidy_write_at intro: at_safe_same)

lemma tidy_touch: "tidy c (fst (touch t n c))"
proof -
  have "tidy c (fst (on_disk (Chtimes p t) c))" for p t c by (rule tidy_on_disk) simp
  then show ?thesis unfolding touch_def by (auto split: option.split intro!: td.ret tidy_ignore_err tidy_safe_path)
qed

lemma tidy_check_local: "tidy c (fst (check_local L v c))"
  by (auto simp: check_local_def split: outcome.split intro: td.refl)

lemma tidy_finalizeExtract: "tidy c (fst (finalizeExtract r c))"
  by (auto simp: finalizeExtract_def split: option.split intro: td.refl tidy_setVVar)

lemma tidy_Extract: "tidy c (fst (Extract L r opts c))"
  unfolding Extract_def extract_row_def Let_def
  by (intro tidy_after [where m = "LoadVFile L r True"] tidy_LoadVFile tidy_after)
     (auto intro!: td.for_each tidy_check_local td.ret tidy_after tidy_extractSingleFile tidy_touch tidy_finalizeExtract)

lemma tidy_manage_path: "tidy c (fst (manage_path L vid path c))"
proof -
  have "tidy c (fst (chain (call CoStorage (ReadFile (co_disk c) p)) (\<lambda>data.
           let mhash = (if length (sample_uuid (co_repo c)) > 40 then l_sha3 L data else l_sha1 L data) in
           chain (change (\<lambda>c. c\<lparr>co_vfile := insert_vfile (added_row vid path mhash) (co_vfile c)\<rparr>)) (\<lambda>_. ret [True])) c))" for p c
    unfolding Let_def by (intro tidy_after td.call td.change tidy_insert td.ret)
  then show ?thesis unfolding manage_path_def by (auto intro: td.refl tidy_safe_path)
qed

lemma tidy_Manage: "tidy c (fst (Manage L paths c))"
  unfolding Manage_def version_act_def
  by (intro tidy_after) (auto split: prod.split intro!: tidy_after td.gather tidy_manage_path td.ret td.refl)

lemma tidy_unmanageFile: "tidy c (unmanageFile i r c)"
  by (auto simp: unmanageFile_def delete_vfile_def intro: tidy_filter tidy_update)

lemma tidy_fold: "(\<And>x c. tidy c (f x c)) \<Longrightarrow> tidy c (fold f xs c)"
  by (induction xs arbitrary: c) (auto intro: td.refl td.trans)

lemma tidy_Unmanage: "tidy c (fst (Unmanage paths ids c))"
proof -
  have "tidy c (unmanage_id i c)" "tidy c (unmanage_path vid n c)" for i vid n c
    by (auto simp: unmanage_id_def unmanage_path_def split: option.split intro: td.refl tidy_unmanageFile)
  then show ?thesis unfolding Unmanage_def version_act_def
    by (intro tidy_after) (auto split: prod.split intro!: td.change tidy_fold td.refl)
qed

lemma tidy_Commit: "tidy c (fst (Commit L now opts c))"
proof -
  have fin: "tidy c (fst (chain (call CoManifest res) (\<lambda>(newRID, newUUID). chain (finalizeCommit L newRID newUUID) (\<lambda>_. ret (newRID, newUUID))) (c\<lparr>co_repo := q\<rparr>)))"
    for res c q
  proof -
    have "tidy (c\<lparr>co_repo := q\<rparr>) (fst (chain (call CoManifest res) (\<lambda>(newRID, newUUID). chain (finalizeCommit L newRID newUUID) (\<lambda>_. ret (newRID, newUUID))) (c\<lparr>co_repo := q\<rparr>)))"
      unfolding finalizeCommit_def
      by (intro tidy_after [where m = "call w m" for w m] td.call)
         (auto split: prod.split intro!: tidy_after td.change tidy_setVVar tidy_LoadVFile td.ret)
    moreover have "tidy c (c\<lparr>co_repo := q\<rparr>)" by auto
    ultimately show ?thesis by (rule td.trans [rotated])
  qed
  show ?thesis unfolding Commit_def version_act_def
    by (intro tidy_after)
       (auto split: prod.split intro!: tidy_after [where m = "ScanChanges L True"] tidy_ScanChanges tidy_after [where m = "call w m" for w m] td.call
          fin td.refl)
qed

lemma tidy_vfilePerm: "tidy c (fst (vfilePerm i c))"
  by (auto simp: vfilePerm_def split: option.split intro: td.refl)

lemma tidy_revertFile: "tidy c (fst (revertFile L v c))"
  unfolding revertFile_def
proof (rule tidy_safe_path)
  fix p assume p: "at_safe c p"
  have "tidy c (fst (chain (change (delete_vfile (vf_id v))) (\<lambda>_. remove_at p) c))"
    using p by (intro tidy_after td.change) (auto simp: delete_vfile_def intro: tidy_filter tidy_remove_at at_safe_same)
  moreover have "tidy c (fst (chain (call CoContent (expand L (co_repo c) (vf_rid v))) (\<lambda>data.
            chain (vfilePerm (vf_id v)) (\<lambda>perm. chain (make_parent p) (\<lambda>_. chain (write_at p data perm) (\<lambda>_.
            change (update_vfile (vf_id v) (\<lambda>v. v\<lparr>vf_chnged := 0, vf_deleted := 0\<rparr>)))))) c))"
    by (intro tidy_after td.call tidy_vfilePerm tidy_make_parent td.change tidy_update tidy_write_at) (blast intro: at_safe_same p, simp_all)
  ultimately show "tidy c (fst ((if vf_rid v = 0 then chain (change (delete_vfile (vf_id v))) (\<lambda>_. remove_at p)
       else (\<lambda>c. chain (call CoContent (expand L (co_repo c) (vf_rid v))) (\<lambda>data.
            chain (vfilePerm (vf_id v)) (\<lambda>perm. chain (make_parent p) (\<lambda>_. chain (write_at p data perm) (\<lambda>_.
            change (update_vfile (vf_id v) (\<lambda>v. v\<lparr>vf_chnged := 0, vf_deleted := 0\<rparr>)))))) c)) c))"
    by simp
qed

lemma tidy_Revert: "tidy c (fst (Revert L paths c))"
proof -
  have "tidy c (fst (revertSinglePath L vid n c))" for vid n c
    by (auto simp: revertSinglePath_def split: option.split intro: td.refl tidy_revertFile)
  then show ?thesis unfolding Revert_def version_act_def
    by (intro tidy_after) (auto split: prod.split intro!: td.for_each tidy_revertFile td.refl)
qed

lemma tidy_moveFile: "at_safe c p \<Longrightarrow> at_safe c p' \<Longrightarrow> tidy c (fst (moveFile p p' perm c))"
  unfolding moveFile_def
  by (intro tidy_after td.call tidy_make_parent tidy_write_at tidy_remove_at) (blast intro: at_safe_same)+

lemma tidy_move_names: "tidy c (fst (move_names i n n' c))"
  unfolding move_names_def by (intro tidy_after tidy_vfilePerm tidy_safe_path tidy_moveFile)

lemma find_path_parts: "find_path c vid n = Some v \<Longrightarrow> v \<in> set (co_vfile c) \<and> vf_vid v = vid \<and> vf_pathname v = n"
  by (auto simp: find_path_def find_Some_iff)

text \<open>A row moves to a path that no other row of its version has.\<close>

lemma tidy_repath:
  assumes "v \<in> set (co_vfile c)" "\<not> has_path (filter (\<lambda>w. vf_id w \<noteq> vf_id v) (co_vfile c)) (vf_vid v) n"
    and "\<And>w. vf_id (f w) = vf_id w" "\<And>w. vf_vid (f w) = vf_vid w" "\<And>w. vf_pathname (f w) = n"
  shows "tidy c (update_vfile (vf_id v) f c)"
proof -
  have "vfile_ok (update_vfile (vf_id v) f c)" if ok: "vfile_ok c"
  proof -
    let ?key = "\<lambda>v. (vf_vid v, vf_pathname v)"
    have one: "w = v" if "w \<in> set (co_vfile c)" "vf_id w = vf_id v" for w
      using ok assms(1) that by (auto simp: vfile_ok_def distinct_map inj_on_def)
    have key: "?key (if vf_id w = vf_id v then f w else w) = (if w = v then (vf_vid v, n) else ?key w)" if "w \<in> set (co_vfile c)" for w
      using one [OF that] assms(4,5) by auto
    have "inj_on (\<lambda>w. if w = v then (vf_vid v, n) else ?key w) (set (co_vfile c))"
    proof (rule inj_onI)
      fix x y assume xy: "x \<in> set (co_vfile c)" "y \<in> set (co_vfile c)"
        "(if x = v then (vf_vid v, n) else ?key x) = (if y = v then (vf_vid v, n) else ?key y)"
      have "?key w \<noteq> (vf_vid v, n)" if "w \<in> set (co_vfile c)" "w \<noteq> v" for w
        using assms(2) one that by (auto simp: has_path_def)
      with xy ok show "x = y" by (auto simp: vfile_ok_def distinct_map inj_on_def split: if_splits)
    qed
    with ok have "distinct (map (\<lambda>w. if w = v then (vf_vid v, n) else ?key w) (co_vfile c))" by (auto simp: vfile_ok_def distinct_map)
    moreover have "map (\<lambda>w. if w = v then (vf_vid v, n) else ?key w) (co_vfile c) = map ?key (co_vfile (update_vfile (vf_id v) f c))"
      using key by (auto simp: update_vfile_def)
    moreover have "map vf_id (co_vfile (update_vfile (vf_id v) f c)) = map vf_id (co_vfile c)" using assms(3) by (auto simp: update_vfile_def)
    ultimately show ?thesis using ok by (simp add: vfile_ok_def)
  qed
  then show ?thesis by (simp add: tidy_def update_vfile_def)
qed

lemma tidy_Rename: "tidy c (fst (Rename n n' mv c))"
proof -
  have step: "tidy c (fst (case find_path c vid n of
          None \<Rightarrow> (c, Err (VFileMissing n))
        | Some v \<Rightarrow> if has_path (co_vfile c) vid n' then (c, Err (VFileExists n'))
            else chain (change (update_vfile (vf_id v) (\<lambda>v. v\<lparr>vf_pathname := n', vf_origname := Some n, vf_chnged := 1\<rparr>)))
                  (\<lambda>_. if mv then move_names (vf_id v) n n' else ret ()) c))" for vid c
  proof (cases "find_path c vid n")
    case (Some v)
    note v = find_path_parts [OF Some]
    show ?thesis
    proof (cases "has_path (co_vfile c) vid n'")
      case False
      then have "\<not> has_path (filter (\<lambda>w. vf_id w \<noteq> vf_id v) (co_vfile c)) (vf_vid v) n'" using v by (auto simp: has_path_def)
      then have "tidy c (update_vfile (vf_id v) (\<lambda>v. v\<lparr>vf_pathname := n', vf_origname := Some n, vf_chnged := 1\<rparr>) c)"
        using v by (intro tidy_repath) auto
      with Some False show ?thesis by (auto intro!: tidy_after td.change tidy_move_names td.ret)
    qed (simp add: Some td.refl)
  qed (simp add: td.refl)
  show ?thesis unfolding Rename_def version_act_def
    by (auto split: prod.split intro!: tidy_after step td.refl)
qed

lemma tidy_RevertRename: "tidy c (fst (RevertRename n mv c))"
proof -
  have step: "tidy c (fst (case find_path c vid n of
          None \<Rightarrow> (c, Err (VFileMissing n))
        | Some v \<Rightarrow>
            (case vf_origname v of
               None \<Rightarrow> (c, Ok False)
             | Some orig \<Rightarrow>
                 if orig = [] then (c, Ok False)
                 else if has_path (filter (\<lambda>w. vf_id w \<noteq> vf_id v) (co_vfile c)) vid orig then (c, Err (CoSql UniqueFailed))
                 else chain (change (update_vfile (vf_id v) (\<lambda>v. v\<lparr>vf_pathname := orig, vf_origname := None, vf_chnged := 0\<rparr>))) (\<lambda>_.
                      chain (if mv then move_names (vf_id v) n orig else ret ()) (\<lambda>_. ret True)) c)))" for vid c
  proof (cases "find_path c vid n")
    case (Some v)
    note v = find_path_parts [OF Some]
    have "tidy c (update_vfile (vf_id v) (\<lambda>v. v\<lparr>vf_pathname := orig, vf_origname := None, vf_chnged := 0\<rparr>) c)"
      if "\<not> has_path (filter (\<lambda>w. vf_id w \<noteq> vf_id v) (co_vfile c)) vid orig" for orig
      using v that by (intro tidy_repath) auto
    with Some show ?thesis by (auto split: option.split intro!: tidy_after td.change tidy_move_names td.ret td.refl)
  qed (simp add: td.refl)
  show ?thesis unfolding RevertRename_def version_act_def
    by (auto split: prod.split intro!: tidy_after step td.refl)
qed

lemma tidy_write_in_dir: "tidy c (fst (write_in_dir n data c))"
  unfolding write_in_dir_def
  by (intro tidy_safe_path tidy_after tidy_make_parent tidy_write_at) (rule at_safe_same)

lemma tidy_write_merged: "tidy c (fst (write_merged n data nil c))"
proof (cases nil)
  case True
  then show ?thesis unfolding write_merged_def
    by (intro tidy_safe_path tidy_after tidy_make_parent) (simp add: td.refl)
next
  case False
  then have "write_merged n data nil = write_in_dir n data" by (simp add: write_merged_def write_in_dir_def)
  then show ?thesis by (simp add: tidy_write_in_dir)
qed

lemma tidy_expandUUID: "tidy c (fst (expandUUID L u c))"
  unfolding expandUUID_def
  by (intro tidy_after td.call) (auto split: option.split intro: td.call td.refl)

lemma tidy_updateFile: "tidy c (fst (updateFile L n cur tgt anc mrg dry c))"
proof -
  have w: "tidy c (fst (writeFileFromUUID L n u c))" for u c
    unfolding writeFileFromUUID_def by (intro tidy_after tidy_expandUUID tidy_write_in_dir)
  have m: "tidy c (fst (mergeFile L n a b u mrg d c))" for a b u c d
    unfolding mergeFile_def Let_def
    by (intro tidy_after tidy_expandUUID td.ret) (auto intro: td.ret tidy_write_merged)
  have r: "tidy c (fst (chain (safe_path n) remove_at c))" for c
    by (intro tidy_safe_path tidy_remove_at)
  show ?thesis unfolding updateFile_def Let_def
    by (auto split: option.split intro!: tidy_after w m r td.ret)
qed

lemma tidy_Update: "tidy c (fst (Update_checkout L opts c))"
proof -
  have pf: "tidy c (fst (processFileUpdates L maps mrg t d c))" for maps mrg t d c
    unfolding processFileUpdates_def process_name_def
    by (intro td.for_each tidy_after tidy_updateFile) (auto intro: td.ret tidy_touch)
  have fin: "tidy c (fst (finalizeUpdate L r c))" for r c
    unfolding finalizeUpdate_def by (intro tidy_after tidy_LoadVFile tidy_finalizeExtract)
  have up: "tidy c (fst (update_to L opts cur tgt c))" for cur tgt c
    unfolding update_to_def Let_def
    by (intro tidy_after td.call) (auto split: option.split intro: td.refl tidy_after pf fin)
  have calc: "tidy c (fst ((if up_TargetRID opts = 0 then (\<lambda>c. (c, CalcUpdateVersion c)) else ret (up_TargetRID opts)) c))" for c
    by (auto intro: td.refl td.ret)
  show ?thesis unfolding Update_checkout_def
    by (intro tidy_after calc)
       (auto simp: version_act_def split: prod.split intro!: td.ret tidy_after up td.refl)
qed

lemma tidy_WriteManifest: "tidy c (fst (WriteManifest L m u c))"
proof -
  have w: "tidy c (fst (chain (safe_path n) (\<lambda>p. write_at p data perm) c))" for n data perm c
    by (intro tidy_safe_path tidy_write_at)
  show ?thesis unfolding WriteManifest_def
    by (intro tidy_after) (auto simp: version_act_def split: prod.split intro!: tidy_after td.call w td.ret td.refl)
qed

text \<open>The operations as data, and a session of them.\<close>

datatype checkout_op =
    OpExtract rid ExtractOpts | OpManage "bytes list" | OpUnmanage "bytes list" "int list"
  | OpEnqueue "bytes list" | OpDequeue "bytes list" | OpDiscardQueue | OpCommit gotime CommitOpts
  | OpRevert "bytes list" | OpRename bytes bytes bool | OpRevertRename bytes bool
  | OpScan bool | OpVisit rid bool | OpUpdate UpdateOpts | OpWriteManifest bool bool

fun do_op :: "libs \<Rightarrow> checkout_op \<Rightarrow> checkout \<Rightarrow> checkout" where
  "do_op L (OpExtract r opts) c = fst (Extract L r opts c)"
| "do_op L (OpManage paths) c = fst (Manage L paths c)"
| "do_op L (OpUnmanage paths ids) c = fst (Unmanage paths ids c)"
| "do_op L (OpEnqueue paths) c = Enqueue paths c"
| "do_op L (OpDequeue paths) c = Dequeue paths c"
| "do_op L OpDiscardQueue c = DiscardQueue c"
| "do_op L (OpCommit now opts) c = fst (Commit L now opts c)"
| "do_op L (OpRevert paths) c = fst (Revert L paths c)"
| "do_op L (OpRename n n' mv) c = fst (Rename n n' mv c)"
| "do_op L (OpRevertRename n mv) c = fst (RevertRename n mv c)"
| "do_op L (OpScan h) c = fst (ScanChanges L h c)"
| "do_op L (OpVisit vid scan) c = fst (VisitChanges L vid scan c)"
| "do_op L (OpUpdate opts) c = fst (Update_checkout L opts c)"
| "do_op L (OpWriteManifest m u) c = fst (WriteManifest L m u c)"

lemma tidy_do_op: "tidy c (do_op L op c)"
proof (cases op)
  case (OpVisit vid scan)
  then show ?thesis
    by (auto simp: VisitChanges_def intro!: tidy_after tidy_ScanChanges td.ret td.refl)
qed (auto simp: Enqueue_def Dequeue_def DiscardQueue_def
       intro: tidy_Extract tidy_Manage tidy_Unmanage tidy_Commit tidy_Revert tidy_Rename tidy_RevertRename tidy_ScanChanges tidy_Update tidy_WriteManifest)

text \<open>
  Claim C22.  Whatever operations run on a checkout and however they end, no file outside its directory is
  created, changed or removed, and no two rows of the file table share an id or a path of a version.
\<close>

theorem checkout_confined:
  assumes "co_dir c \<noteq> []" "\<not> within (co_dir c) p" "vfile_ok c"
  shows "file_at (co_disk (fold (do_op L) ops c)) p = file_at (co_disk c) p \<and> vfile_ok (fold (do_op L) ops c)"
  using tidy_fold [of "do_op L" c ops, OF tidy_do_op] assms by (auto simp: tidy_def)

definition toy_checkout :: checkout where
  "toy_checkout = \<lparr>co_repo = empty_repo, co_vvar = [(''checkout'', ''0'')], co_vfile = [], co_vmerge = [], co_dir = ''/w'', co_queue = None,
     co_disk = \<lparr>ms_files = [(''/w/a'', ''one''), (''/etc'', ''two'')], ms_dirs = [], ms_mtimes = []\<rparr>\<rparr>"

theorem checkout_confined_witness:
  "file_at (co_disk (fold (do_op toy_libs) [OpManage [''a'', ''../etc''], OpRename ''a'' ''../etc'' True] toy_checkout)) ''/etc'' = Some ''two''"
proof -
  have "\<not> within ''/w'' ''/etc''" by (auto simp: within_def path_comps_def clean_step_def IsAbs_def HasPrefix_def)
  with checkout_confined [of toy_checkout "''/etc''" toy_libs "[OpManage [''a'', ''../etc''], OpRename ''a'' ''../etc'' True]"]
  show ?thesis by (simp add: toy_checkout_def vfile_ok_def file_at_def del: fold_simps do_op.simps)
qed

end
