(* ===== verification/Checkout_Extract.thy ===== *)
theory Checkout_Extract
  imports Checkout_Props Handler_Props
begin

text \<open>
  What an extraction leaves: the files of the check-in with their content, and a checkout without
  changes.
\<close>

section \<open>Content under a hash\<close>

lemma expand_stored:
  assumes "expand L q r = Ok c"
  shows "r > 0 \<and> expands (l_inflate L) q r c \<and> (\<exists>b. blob_by_rid q r = Some b \<and> bl_size b \<noteq> - 1)"
proof -
  have r: "r > 0" using assms by (auto simp: Expand_def split: if_splits)
  then have e: "expands (l_inflate L) q r c" using assms Expand_eq_expands by blast
  then obtain d where "Load (l_inflate L) False q r = Ok d" by cases auto
  then have "\<exists>b. blob_by_rid q r = Some b \<and> bl_size b \<noteq> - 1" by (auto simp: Load_def split: if_splits option.splits)
  with r e show ?thesis by blast
qed

lemma authentic_content:
  assumes "authentic L q" "wf_repo q" "blob_by_uuid q u = Some b" "expand L q (bl_rid b) = Ok c"
  shows "digest L u c = u"
proof -
  note b = blob_by_uuid_Some [OF assms(3)]
  obtain b' where b': "blob_by_rid q (bl_rid b) = Some b'" "bl_size b' \<noteq> - 1" using expand_stored [OF assms(4)] by blast
  then have "b' = b" using b blob_by_rid_Some [OF b'(1)] assms(2) by (auto simp: wf_repo_def distinct_map inj_on_def)
  with b b' assms(1) obtain c' where "expands (l_inflate L) q (bl_rid b) c'" "digest L u c' = u" by (auto simp: authentic_def)
  with expand_stored [OF assms(4)] expands_fun show ?thesis by blast
qed

lemma disk_hash_of_digest: "u \<noteq> [] \<Longrightarrow> disk_hash_of L c u = Ok (digest L u c)"
  by (simp add: disk_hash_of_def ContentHash_def digest_def)

section \<open>Loading the file table\<close>

definition entry_rid :: "repo \<Rightarrow> FileEntry \<Rightarrow> rid" where
  "entry_rid q f = (case blob_by_uuid q (fe_UUID f) of None \<Rightarrow> 0 | Some b \<Rightarrow> bl_rid b)"

definition entry_row :: "repo \<Rightarrow> rid \<Rightarrow> FileEntry \<Rightarrow> vfile_row" where
  "entry_row q vid f = tracked_row vid f (entry_rid q f)"

lemma load_entry_Ok:
  "load_entry vid f c = (c', Ok ms) \<Longrightarrow>
   fe_UUID f \<noteq> [] \<and> c' = c\<lparr>co_vfile := insert_vfile (entry_row (co_repo c) vid f) (co_vfile c)\<rparr>"
  by (auto simp: load_entry_def chain_Ok call_def change_def ret_def Exists_def entry_row_def entry_rid_def split: if_splits option.splits)

lemma gather_load_Ok:
  "gather (load_entry vid) fs c = (c', Ok ms) \<Longrightarrow>
   (\<forall>f \<in> set fs. fe_UUID f \<noteq> []) \<and> c' = c\<lparr>co_vfile := fold (\<lambda>f. insert_vfile (entry_row (co_repo c) vid f)) fs (co_vfile c)\<rparr>"
proof (induction fs arbitrary: c ms)
  case (Cons f fs)
  then obtain c1 ms1 ms2 where "load_entry vid f c = (c1, Ok ms1)" "gather (load_entry vid) fs c1 = (c', Ok ms2)"
    by (auto simp: chain_Ok ret_def)
  with load_entry_Ok Cons.IH show ?case by fastforce
qed (simp add: ret_def)

abbreviation strip :: "vfile_row \<Rightarrow> vfile_row" where
  "strip v \<equiv> v\<lparr>vf_id := 0\<rparr>"

lemma entry_row_simps [simp]: "vf_vid (entry_row q vid f) = vid" "vf_pathname (entry_row q vid f) = fe_Name f"
  "vf_mhash (entry_row q vid f) = fe_UUID f" "vf_rid (entry_row q vid f) = entry_rid q f"
  "vf_chnged (entry_row q vid f) = 0" "vf_deleted (entry_row q vid f) = 0" "vf_id (entry_row q vid f) = 0"
  by (simp_all add: entry_row_def tracked_row_def)

lemma fold_insert_rows:
  assumes "distinct (map fe_Name fs)" "\<forall>f \<in> set fs. \<not> has_path vs vid (fe_Name f)"
  shows "map strip (filter (\<lambda>v. vf_vid v = vid) (fold (\<lambda>f. insert_vfile (entry_row q vid f)) fs vs)) =
    map strip (filter (\<lambda>v. vf_vid v = vid) vs) @ map (entry_row q vid) fs"
  using assms
proof (induction fs arbitrary: vs)
  case (Cons f fs)
  let ?v = "(entry_row q vid f)\<lparr>vf_id := new_vfile_id vs\<rparr>"
  have ins: "insert_vfile (entry_row q vid f) vs = vs @ [?v]" using Cons.prems(2) by (simp add: insert_vfile_def)
  have "\<forall>g \<in> set fs. \<not> has_path (vs @ [?v]) vid (fe_Name g)"
    using Cons.prems by (auto simp: has_path_def)
  with Cons.IH [of "vs @ [?v]"] Cons.prems(1) ins have
    "map strip (filter (\<lambda>v. vf_vid v = vid) (fold (\<lambda>f. insert_vfile (entry_row q vid f)) fs (vs @ [?v]))) =
      map strip (filter (\<lambda>v. vf_vid v = vid) (vs @ [?v])) @ map (entry_row q vid) fs"
    by simp
  moreover have "strip ?v = entry_row q vid f" by (simp add: entry_row_def tracked_row_def)
  ultimately show ?case using ins by simp
qed simp

lemma fold_insert_vid:
  "\<forall>v \<in> set vs. vf_vid v = r \<Longrightarrow> \<forall>v \<in> set (fold (\<lambda>f. insert_vfile (entry_row q r f)) fs vs). vf_vid v = r"
proof (induction fs arbitrary: vs)
  case (Cons f fs)
  have "\<forall>v \<in> set (insert_vfile (entry_row q r f) vs). vf_vid v = r" using Cons.prems by (auto simp: insert_vfile_def)
  from Cons.IH [OF this] show ?case by simp
qed simp

lemma LoadVFile_Ok:
  assumes "LoadVFile L r clear c = (c', Ok ms)" "ListFiles L (co_repo c) r = Ok files" "distinct (map fe_Name files)" "rows_of c r = []"
  shows "co_repo c' = co_repo c \<and> co_vvar c' = co_vvar c \<and> co_dir c' = co_dir c \<and> co_disk c' = co_disk c" "map strip (rows_of c' r) = map (entry_row (co_repo c) r) files"
    "\<forall>f \<in> set files. fe_UUID f \<noteq> []" "clear \<Longrightarrow> rows_of c' r = co_vfile c'"
proof -
  define c1 where "c1 = (if clear then c\<lparr>co_vfile := filter (\<lambda>v. vf_vid v = r) (co_vfile c)\<rparr> else c)"
  have c1: "co_repo c1 = co_repo c" "co_vvar c1 = co_vvar c" "co_dir c1 = co_dir c" "co_disk c1 = co_disk c"
      "filter (\<lambda>v. vf_vid v = r) (co_vfile c1) = []" "clear \<Longrightarrow> \<forall>v \<in> set (co_vfile c1). vf_vid v = r"
    using assms(4) by (auto simp: rows_of_def c1_def)
  have "gather (load_entry r) files c1 = (c', Ok ms)"
    using assms(1,2) by (auto simp: LoadVFile_def chain_Ok change_def call_def wrap_err_def c1_def split: if_splits)
  from gather_load_Ok [OF this] have g: "\<forall>f \<in> set files. fe_UUID f \<noteq> []"
    "c' = c1\<lparr>co_vfile := fold (\<lambda>f. insert_vfile (entry_row (co_repo c) r f)) files (co_vfile c1)\<rparr>" by (simp_all add: c1(1))
  show "\<forall>f \<in> set files. fe_UUID f \<noteq> []" by (rule g(1))
  show "co_repo c' = co_repo c \<and> co_vvar c' = co_vvar c \<and> co_dir c' = co_dir c \<and> co_disk c' = co_disk c" by (simp add: g(2) c1)
  have vf: "co_vfile c' = fold (\<lambda>f. insert_vfile (entry_row (co_repo c) r f)) files (co_vfile c1)" by (simp add: g(2))
  have "\<forall>f \<in> set files. \<not> has_path (co_vfile c1) r (fe_Name f)" using c1(5) by (auto simp: has_path_def filter_empty_conv)
  from fold_insert_rows [OF assms(3) this, of "co_repo c"]
  show "map strip (rows_of c' r) = map (entry_row (co_repo c) r) files" by (simp only: rows_of_def vf c1(5) list.map append.simps)
  assume clear
  from fold_insert_vid [OF c1(6) [OF this], of "co_repo c" files] show "rows_of c' r = co_vfile c'" by (simp add: rows_of_def vf)
qed

section \<open>Writing the files\<close>

definition same_rest :: "checkout \<Rightarrow> checkout \<Rightarrow> bool" where
  "same_rest s s' \<longleftrightarrow> co_repo s' = co_repo s \<and> co_vvar s' = co_vvar s \<and> co_vfile s' = co_vfile s \<and> co_vmerge s' = co_vmerge s \<and>
     co_dir s' = co_dir s \<and> co_queue s' = co_queue s"

definition wrote :: "checkout \<Rightarrow> bytes \<Rightarrow> bytes \<Rightarrow> checkout \<Rightarrow> bool" where
  "wrote s p d s' \<longleftrightarrow> p \<noteq> [] \<and> same_rest s s' \<and> file_at (co_disk s') = (file_at (co_disk s))(p \<mapsto> d)"

lemma write_safe_Ok:
  assumes "chain (safe_path n) (\<lambda>p. chain (make_parent p) (\<lambda>_. write_at p d perm)) s = (s', Ok ())"
  shows "\<exists>p. safePath (co_dir s) n = Ok p \<and> wrote s p d s'"
proof -
  from assms obtain p s1 s2 where 1: "safe_path n s = (s1, Ok p)" "make_parent p s1 = (s2, Ok ())" "write_at p d perm s2 = (s', Ok ())"
    by (auto simp: chain_Ok)
  note p = safe_path_Ok [OF 1(1)]
  have "s2 = s\<lparr>co_disk := fst (MkdirAll (Dir p) exec_perm (co_disk s))\<rparr>" using 1(2) p by (auto simp: make_parent_def on_disk_def split: prod.splits)
  moreover have "s' = s2\<lparr>co_disk := fst (WriteFile p d perm (co_disk s2))\<rparr>" using 1(3) by (auto simp: write_at_def on_disk_def split: prod.splits)
  ultimately have "wrote s p d s'" using p by (auto simp: wrote_def same_rest_def at_safe_def file_at_WriteFile fun_eq_iff)
  with 1(1) show ?thesis by (auto simp: safe_path_def)
qed

text \<open>Steps that leave the files and the tables alone.\<close>

definition same_files :: "checkout \<Rightarrow> checkout \<Rightarrow> bool" where
  "same_files s s' \<longleftrightarrow> same_rest s s' \<and> file_at (co_disk s') = file_at (co_disk s)"

interpretation sf: kept_relation same_files
  by unfold_locales (auto simp: same_files_def same_rest_def)

lemma touch_files: "same_files s (fst (touch t n s))"
proof -
  have d: "same_files s (fst (on_disk (Chtimes p t) s))" for p t s
    using Chtimes_file [of p t "co_disk s"] by (cases "Chtimes p t (co_disk s)") (simp add: same_files_def same_rest_def on_disk_def)
  have "same_files s (fst (ignore_err f s))" if "same_files s (fst (f s))" for f :: "unit checkout_act"
    using that by (auto simp: ignore_err_def split: prod.splits outcome.splits)
  moreover have "same_files s (fst (chain (safe_path n) (\<lambda>p. on_disk (Chtimes p t)) s))" for t
    by (intro sf.chain d) (simp add: safe_path_def sf.refl)
  ultimately show ?thesis by (auto simp: touch_def split: option.split intro: sf.ret)
qed

lemma extract_row_Ok:
  assumes "extract_row L t False v s = (s', Ok ())"
  shows "\<exists>p d. safePath (co_dir s) (vf_pathname v) = Ok p \<and> expand L (co_repo s) (vf_rid v) = Ok d \<and> wrote s p d s'"
proof -
  obtain s1 where 1: "extractSingleFile L (vf_pathname v) (vf_rid v) (vf_isexe v) False s = (s1, Ok ())" "touch t (vf_pathname v) s1 = (s', Ok ())"
    using assms by (auto simp: extract_row_def chain_Ok)
  then obtain d where d: "expand L (co_repo s) (vf_rid v) = Ok d"
    "chain (safe_path (vf_pathname v)) (\<lambda>p. chain (make_parent p) (\<lambda>_. write_at p d (if vf_isexe v \<noteq> 0 then exec_perm else plain_perm))) s = (s1, Ok ())"
    by (auto simp: extractSingleFile_def chain_Ok [of "call w m" for w m] call_def wrap_err_def split: outcome.splits)
  obtain p where p: "safePath (co_dir s) (vf_pathname v) = Ok p" "wrote s p d s1" using write_safe_Ok [OF d(2)] by blast
  have "same_files s1 s'" using touch_files [of s1 t "vf_pathname v"] 1(2) by simp
  with p(2) have "wrote s p d s'" by (simp add: wrote_def same_files_def same_rest_def)
  with p(1) d(1) show ?thesis by blast
qed

text \<open>After the loop every file has its content when the paths differ, and other files are left alone.\<close>

lemma extract_rows_Ok:
  assumes "for_each (extract_row L t False) vs s = (s', Ok ())" "inj_on (\<lambda>v. safePath (co_dir s) (vf_pathname v)) (set vs)" "distinct vs"
  shows "same_rest s s' \<and>
    (\<forall>v \<in> set vs. \<exists>p d. safePath (co_dir s) (vf_pathname v) = Ok p \<and> p \<noteq> [] \<and> expand L (co_repo s) (vf_rid v) = Ok d \<and> file_at (co_disk s') p = Some d) \<and>
    (\<forall>p. (\<forall>v \<in> set vs. safePath (co_dir s) (vf_pathname v) \<noteq> Ok p) \<longrightarrow> file_at (co_disk s') p = file_at (co_disk s) p)"
  using assms
proof (induction vs arbitrary: s)
  case (Cons v vs)
  then obtain s1 where 1: "extract_row L t False v s = (s1, Ok ())" "for_each (extract_row L t False) vs s1 = (s', Ok ())"
    by (auto simp: chain_Ok)
  obtain p d where p: "safePath (co_dir s) (vf_pathname v) = Ok p" "expand L (co_repo s) (vf_rid v) = Ok d" "wrote s p d s1"
    using extract_row_Ok [OF 1(1)] by blast
  then have s1: "co_dir s1 = co_dir s" "co_repo s1 = co_repo s" "same_rest s s1" "p \<noteq> []"
    "file_at (co_disk s1) = (file_at (co_disk s))(p \<mapsto> d)" by (simp_all add: wrote_def same_rest_def)
  have inj: "inj_on (\<lambda>v. safePath (co_dir s) (vf_pathname v)) (set vs)" "\<forall>w \<in> set vs. safePath (co_dir s) (vf_pathname w) \<noteq> Ok p" "distinct vs"
    using Cons.prems(2,3) p(1) by (auto simp: inj_on_def)
  note ih = Cons.IH [OF 1(2), unfolded s1(1,2), OF inj(1,3)]
  have "same_rest s s'" using ih s1(3) by (simp add: same_rest_def)
  moreover have "file_at (co_disk s') p = Some d" using ih inj(2) s1(5) by simp
  ultimately show ?case using ih p(1,2) s1(4,5) by auto
qed (simp add: ret_def same_rest_def)

section \<open>A fresh extraction\<close>

lemma map_of_replace_vvar: "map_of (replace_vvar n v vv) m = (if m = n then Some v else map_of vv m)"
proof -
  have "map_of (filter (\<lambda>(n', _). n' \<noteq> n) vv) m = (if m = n then None else map_of vv m)" by (induction vv) auto
  then show ?thesis by (simp add: replace_vvar_def)
qed

lemma getVVar_set [simp]: "getVVar (co_vvar (setVVar n v c)) m = (if m = n then v else getVVar (co_vvar c) m)"
  by (simp add: getVVar_def setVVar_def map_of_replace_vvar)

lemma set_version_simps [simp]: "co_repo (set_version r u c) = co_repo c" "co_vfile (set_version r u c) = co_vfile c"
  "co_dir (set_version r u c) = co_dir c" "co_disk (set_version r u c) = co_disk c"
  by (simp_all add: set_version_def setVVar_def)

lemma Version_set: "row_number r \<Longrightarrow> u \<noteq> [] \<Longrightarrow> Version (set_version r u c) = Ok (r, u)"
proof -
  assume r: "row_number r" "u \<noteq> []"
  have "show_int r \<noteq> []" using show_int_token [of r] by (auto simp: is_token_def)
  with r show ?thesis by (simp add: Version_def set_version_def Atoi_show_int row_number_def Let_def)
qed

lemma strip_entry:
  assumes "strip v = entry_row q r f"
  shows "vf_pathname v = fe_Name f" "vf_mhash v = fe_UUID f" "vf_rid v = entry_rid q f" "vf_deleted v = 0" "vf_chnged v = 0"
proof -
  have "vf_pathname (strip v) = fe_Name f" "vf_mhash (strip v) = fe_UUID f" "vf_rid (strip v) = entry_rid q f"
    "vf_deleted (strip v) = 0" "vf_chnged (strip v) = 0"
    by (simp_all only: assms entry_row_simps)
  then show "vf_pathname v = fe_Name f" "vf_mhash v = fe_UUID f" "vf_rid v = entry_rid q f" "vf_deleted v = 0" "vf_chnged v = 0"
    by simp_all
qed

text \<open>Rows that agree with the files on disk are left alone by a scan.\<close>

lemma scan_agreeing:
  assumes "\<forall>v \<in> set vs. vf_chnged v = 0 \<and> vf_mhash v \<noteq> [] \<and>
    (\<exists>p d. safePath (co_dir c) (vf_pathname v) = Ok p \<and> p \<noteq> [] \<and> file_at (co_disk c) p = Some d \<and> digest L (vf_mhash v) d = vf_mhash v)"
  shows "for_each (scanSingleEntry L True) vs c = (c, Ok ())"
  using assms
proof (induction vs)
  case (Cons v vs)
  then obtain p d where "safePath (co_dir c) (vf_pathname v) = Ok p" "p \<noteq> []" "file_at (co_disk c) p = Some d"
    "digest L (vf_mhash v) d = vf_mhash v" "vf_chnged v = 0" "vf_mhash v \<noteq> []" by auto
  then have "scanSingleEntry L True v c = (c, Ok ())"
    by (simp add: scanSingleEntry_def ret_def chain_def safe_path_def ReadFile_eq disk_hash_of_digest call_def change_def)
  with Cons show ?case by (simp add: chain_def)
qed (simp add: ret_def)

text \<open>A successful extraction loads the table, writes the files and sets the version.\<close>

lemma Extract_run:
  assumes "Extract L r opts c = (c', Ok ())" "\<not> ex_DryRun opts"
  obtains c1 ms t c2 where "LoadVFile L r True c = (c1, Ok ms)" "for_each (extract_row L t False) (rows_of c1 r) c1 = (c2, Ok ())"
    "finalizeExtract r c2 = (c', Ok ())"
proof -
  have keep: "for_each (check_local L) vs s = (s', Ok ()) \<Longrightarrow> s' = s" for vs s s'
  proof (induction vs arbitrary: s)
    case (Cons v vs)
    have "check_local L v s = (s1, Ok ()) \<Longrightarrow> s1 = s" for s1
      by (auto simp: check_local_def split: if_splits outcome.splits)
    with Cons show ?case by (auto simp: chain_Ok)
  qed (simp add: ret_def)
  from assms that show thesis by (auto simp: Extract_def chain_Ok ret_def Let_def split: if_splits dest!: keep)
qed

lemma loaded_rows:
  assumes "map strip vs = map (entry_row q r) files" "distinct (map fe_Name files)" "inj_on (safePath dir) (fe_Name ` set files)"
  shows "\<forall>v \<in> set vs. \<exists>f \<in> set files. strip v = entry_row q r f" "\<forall>f \<in> set files. \<exists>v \<in> set vs. strip v = entry_row q r f"
    "inj_on (\<lambda>v. safePath dir (vf_pathname v)) (set vs)" "distinct vs"
proof -
  have s: "strip ` set vs = entry_row q r ` set files" using arg_cong [OF assms(1), of set] by simp
  then show "\<forall>v \<in> set vs. \<exists>f \<in> set files. strip v = entry_row q r f" by blast
  show "\<forall>f \<in> set files. \<exists>v \<in> set vs. strip v = entry_row q r f"
  proof
    fix f assume "f \<in> set files"
    then have "entry_row q r f \<in> strip ` set vs" by (simp add: s)
    then show "\<exists>v \<in> set vs. strip v = entry_row q r f" by (metis imageE)
  qed
  have "map vf_pathname (map strip vs) = map vf_pathname (map (entry_row q r) files)" by (simp only: assms(1))
  then have "map vf_pathname vs = map fe_Name files" by (simp add: comp_def)
  then have "distinct (map vf_pathname vs)" "vf_pathname ` set vs = fe_Name ` set files"
    using assms(2) by (simp, metis list.set_map)
  then show "inj_on (\<lambda>v. safePath dir (vf_pathname v)) (set vs)" "distinct vs"
    using assms(3) comp_inj_on [of vf_pathname "set vs" "safePath dir"] by (auto simp: distinct_map comp_def)
qed

text \<open>The content of a row's blob has the hash of the file that the row was loaded for.\<close>

lemma entry_content:
  assumes "strip v = entry_row q r f" "expand L q (vf_rid v) = Ok d" "authentic L q" "wf_repo q"
  shows "digest L (fe_UUID f) d = fe_UUID f"
proof -
  from assms(2) expand_stored have "entry_rid q f > 0" by (simp add: strip_entry(3) [OF assms(1)])
  then obtain b where "blob_by_uuid q (fe_UUID f) = Some b" "vf_rid v = bl_rid b"
    by (auto simp: entry_rid_def strip_entry(3) [OF assms(1)] split: option.splits)
  with authentic_content [OF assms(3,4)] assms(2) show ?thesis by simp
qed

text \<open>
  Claim C23.  A successful extraction of a check-in that the file table does not hold yet writes every file of the
  check-in with content of its hash, and the checkout is at that check-in, has no changes, and a scan
  finds none.
\<close>

theorem Extract_clean:
  assumes "Extract L r opts c = (c', Ok ())" "\<not> ex_DryRun opts" "row_number r" "rows_of c r = []"
    and "ListFiles L (co_repo c) r = Ok files" "distinct (map fe_Name files)" "inj_on (safePath (co_dir c)) (fe_Name ` set files)"
    and "authentic L (co_repo c)" "wf_repo (co_repo c)"
  shows "(\<forall>f \<in> set files. \<exists>x. FileContent c' (fe_Name f) = Ok x \<and> digest L (fe_UUID f) x = fe_UUID f) \<and>
    ValidateFingerprint c' = Ok () \<and> ScanChanges L True c' = (c', Ok ()) \<and> HasChanges c' = Ok False"
proof -
  obtain c1 ms t c2 where run: "LoadVFile L r True c = (c1, Ok ms)" "for_each (extract_row L t False) (rows_of c1 r) c1 = (c2, Ok ())"
    "finalizeExtract r c2 = (c', Ok ())" by (rule Extract_run [OF assms(1,2)])
  note tab = LoadVFile_Ok [OF run(1) assms(5,6,4)]
  let ?vs = "rows_of c1 r"
  note rows = loaded_rows [OF tab(2) assms(6,7)]
  have inj: "inj_on (\<lambda>v. safePath (co_dir c1) (vf_pathname v)) (set ?vs)" using rows(3) tab(1) by simp
  note extr = extract_rows_Ok [OF run(2) inj rows(4)]
  have c2: "co_repo c2 = co_repo c" "co_dir c2 = co_dir c" "co_vfile c2 = co_vfile c1"
    using extr tab(1) by (auto simp: same_rest_def)
  obtain b where b: "blob_by_rid (co_repo c) r = Some b" "c' = set_version r (bl_uuid b) c2"
    using run(3) by (auto simp: finalizeExtract_def c2 split: option.splits)
  then have "bl_uuid b \<noteq> []" using assms(9) blob_by_rid_Some [OF b(1)] by (fastforce simp: wf_repo_def list_all_iff)
  then have version: "Version c' = Ok (r, bl_uuid b)" unfolding b(2) by (rule Version_set [OF assms(3)])
  have c': "co_repo c' = co_repo c" "co_dir c' = co_dir c" "co_disk c' = co_disk c2" "rows_of c' r = ?vs" "co_vfile c' = co_vfile c1"
    by (simp_all add: b(2) c2 rows_of_def)
  have ondisk: "\<exists>p d. safePath (co_dir c') (fe_Name f) = Ok p \<and> p \<noteq> [] \<and> file_at (co_disk c') p = Some d \<and> digest L (fe_UUID f) d = fe_UUID f"
    if "v \<in> set ?vs" "strip v = entry_row (co_repo c) r f" for v f
    using extr that(1) tab(1) entry_content [OF that(2) _ assms(8,9)] strip_entry(1) [OF that(2)] by (fastforce simp: c')
  have "\<exists>x. FileContent c' (fe_Name f) = Ok x \<and> digest L (fe_UUID f) x = fe_UUID f" if f: "f \<in> set files" for f
  proof -
    obtain p d where "safePath (co_dir c') (fe_Name f) = Ok p" "p \<noteq> []" "file_at (co_disk c') p = Some d" "digest L (fe_UUID f) d = fe_UUID f"
      using rows(2) f ondisk by blast
    moreover from this(1) have "fe_Name f \<noteq> []" by (auto simp: safePath_def CheckFilename_def)
    ultimately show ?thesis by (simp add: FileContent_def ReadFile_eq)
  qed
  moreover have "ValidateFingerprint c' = Ok ()" using version b(1) assms(3) by (simp add: ValidateFingerprint_def c' row_number_def)
  moreover have "for_each (scanSingleEntry L True) ?vs c' = (c', Ok ())"
  proof (intro scan_agreeing ballI)
    fix v assume v: "v \<in> set ?vs"
    with rows(1) obtain f where f: "f \<in> set files" "strip v = entry_row (co_repo c) r f" by blast
    from ondisk [OF v f(2)] strip_entry [OF f(2)] tab(3) f(1)
    show "vf_chnged v = 0 \<and> vf_mhash v \<noteq> [] \<and> (\<exists>p d. safePath (co_dir c') (vf_pathname v) = Ok p \<and> p \<noteq> [] \<and>
      file_at (co_disk c') p = Some d \<and> digest L (vf_mhash v) d = vf_mhash v)" by simp
  qed
  then have "ScanChanges L True c' = (c', Ok ())" by (simp add: ScanChanges_def version_act_def chain_def version c')
  moreover have "\<forall>v \<in> set ?vs. vf_chnged v = 0 \<and> vf_deleted v = 0" using rows(1) strip_entry(4,5) by (meson ballI)
  then have "HasChanges c' = Ok False" by (simp add: HasChanges_def version c'(5)) (auto simp: rows_of_def filter_empty_conv)
  ultimately show ?thesis by blast
qed

section \<open>Instances\<close>

text \<open>A repository with a check-in of one file, and a checkout of it that is not extracted.\<close>

definition disk_deck :: Deck where
  "disk_deck = tiny_deck\<lparr>dk_F := [\<lparr>fc_Name = ''a'', fc_UUID = l_sha1 toy_libs ''hello'', fc_Perm = [], fc_OldName = []\<rparr>]\<rparr>"

definition disk_repo :: repo where
  "disk_repo = empty_repo\<lparr>t_blob := [toy_row 1 (Marshal (l_md5 toy_libs) disk_deck), toy_row 2 ''hello'']\<rparr>"

definition disk_checkout :: checkout where
  "disk_checkout = toy_checkout\<lparr>co_repo := disk_repo\<rparr>"

definition disk_opts :: ExtractOpts where
  "disk_opts = \<lparr>ex_SetMTime = False, ex_DryRun = False, ex_Force = True\<rparr>"

lemma disk_length: "length (Marshal (l_md5 toy_libs) disk_deck) = 120"
  by code_simp

lemma disk_wf: "wf_deck disk_deck"
proof -
  have "list_all F_ok (dk_F disk_deck)" "list_all trimmed [dk_B disk_deck, dk_G disk_deck, dk_I disk_deck, dk_K disk_deck, dk_N disk_deck, dk_R disk_deck]"
    by code_simp+
  then show ?thesis
    by (simp add: wf_deck_def disk_deck_def tiny_deck_def empty_deck_def D_ok_def encodable_time_def valid_time_def zero_time_def days_in_def)
qed

lemma disk_expands:
  "expands (l_inflate toy_libs) disk_repo 1 (Marshal (l_md5 toy_libs) disk_deck)" "expands (l_inflate toy_libs) disk_repo 2 ''hello''"
proof -
  have "Load (l_inflate toy_libs) False disk_repo 1 = Ok (Marshal (l_md5 toy_libs) disk_deck)" "Load (l_inflate toy_libs) False disk_repo 2 = Ok ''hello''"
    using Load_compressed [OF sample_zlib, of 1 disk_repo "toy_row 1 (Marshal (l_md5 toy_libs) disk_deck)" "Marshal (l_md5 toy_libs) disk_deck"]
      Load_compressed [OF sample_zlib, of 2 disk_repo "toy_row 2 ''hello''" "''hello''"]
    by (simp_all add: disk_repo_def toy_row_def blob_by_rid_def toy_libs_def disk_length [unfolded toy_libs_def, simplified])
  then show "expands (l_inflate toy_libs) disk_repo 1 (Marshal (l_md5 toy_libs) disk_deck)" "expands (l_inflate toy_libs) disk_repo 2 ''hello''"
    by (auto intro!: expands.expands_root simp: disk_repo_def delta_src_def empty_repo_def)
qed

lemma disk_uuids: "l_sha1 toy_libs (Marshal (l_md5 toy_libs) disk_deck) = replicate 40 CHR ''b''"
  "l_sha1 toy_libs ''hello'' = replicate 5 CHR ''a'' @ replicate 35 CHR ''b''"
  using disk_length by (simp_all add: toy_libs_def)

lemma disk_wf_repo: "wf_repo disk_repo"
proof -
  have "replicate 40 CHR ''b'' \<noteq> replicate 5 CHR ''a'' @ replicate 35 CHR ''b''" by (simp add: numeral_eq_Suc)
  then show ?thesis by (simp add: wf_repo_def disk_repo_def toy_row_def empty_repo_def disk_uuids)
qed

lemma disk_authentic: "authentic toy_libs disk_repo"
  using disk_expands by (auto simp: authentic_def disk_repo_def toy_row_def digest_def disk_uuids)

lemma disk_files: "ListFiles toy_libs disk_repo 1 = Ok [\<lparr>fe_Name = ''a'', fe_UUID = l_sha1 toy_libs ''hello'', fe_Perm = []\<rparr>]"
proof -
  have "load_deck toy_libs disk_repo 1 = Ok (canonical disk_deck)"
    using load_deck_holds [OF disk_expands(1)] Parse_Marshal [OF disk_wf] libs_okD(5) [OF toy_libs_ok] by simp
  then show ?thesis
    by (simp add: ListFiles_def GetManifest_def deck_files_def canonical_def disk_deck_def tiny_deck_def empty_deck_def fCardsToEntries_def entry_of_def)
qed

lemma disk_extract: "\<exists>c'. Extract toy_libs 1 disk_opts disk_checkout = (c', Ok ())"
proof -
  have x: "expand toy_libs disk_repo 2 = Ok ''hello''" using disk_expands(2) by (simp add: Expand_eq_expands)
  have p: "safePath ''/w'' ''a'' = Ok ''/w/a''" by code_simp
  have e: "Exists disk_repo (l_sha1 toy_libs ''hello'') = Ok (Some 2)" "expand toy_libs disk_repo 2 = Ok ''hello''" "blob_by_rid disk_repo 1 = Some (toy_row 1 (Marshal (l_md5 toy_libs) disk_deck))"
    using x by (simp_all add: Exists_def blob_by_uuid_def blob_by_rid_def disk_repo_def toy_row_def disk_uuids numeral_eq_Suc)
  show ?thesis
    by (simp add: Extract_def LoadVFile_def chain_def change_def call_def disk_checkout_def disk_files toy_checkout_def
      load_entry_def ret_def rows_of_def insert_vfile_def has_path_def tracked_row_def disk_opts_def
      extract_row_def extractSingleFile_def touch_def safe_path_def p Let_def e make_parent_def write_at_def on_disk_def MkdirAll_def WriteFile_def
      finalizeExtract_def del: fold_simps)
qed

lemma disk_checkout_simps: "co_repo disk_checkout = disk_repo" "rows_of disk_checkout r = []"
  by (simp_all add: disk_checkout_def toy_checkout_def rows_of_def)

theorem Extract_clean_witness:
  "let c' = fst (Extract toy_libs 1 disk_opts disk_checkout) in
     (\<exists>x. FileContent c' ''a'' = Ok x \<and> l_sha1 toy_libs x = l_sha1 toy_libs ''hello'') \<and> HasChanges c' = Ok False"
proof -
  obtain c' where run: "Extract toy_libs 1 disk_opts disk_checkout = (c', Ok ())" using disk_extract by blast
  have row: "row_number 1" by (simp add: row_number_def is_int64_def int64_min_def int64_max_def)
  have lf: "ListFiles toy_libs (co_repo disk_checkout) 1 = Ok [\<lparr>fe_Name = ''a'', fe_UUID = l_sha1 toy_libs ''hello'', fe_Perm = []\<rparr>]"
    by (simp add: disk_checkout_def disk_files)
  from Extract_clean [OF run _ row _ lf] disk_authentic disk_wf_repo
  have "(\<exists>x. FileContent c' ''a'' = Ok x \<and> l_sha1 toy_libs x = l_sha1 toy_libs ''hello'') \<and> HasChanges c' = Ok False"
    by (simp add: disk_opts_def disk_checkout_simps digest_def disk_uuids)
  with run show ?thesis by simp
qed

end
