(* ===== verification/Update_Props.thy ===== *)
theory Update_Props
  imports Checkout_Extract
begin

text \<open>
  What an update does to the files (\<open>internal/checkout/update.go\<close>): every name of the two versions is
  taken from the target, removed, merged or left alone as the three versions say.
\<close>

section \<open>The decision for one file\<close>

text \<open>\<open>u\<close> names content \<open>d\<close> of the repository.\<close>

definition uuid_content :: "libs \<Rightarrow> repo \<Rightarrow> bytes \<Rightarrow> bytes \<Rightarrow> bool" where
  "uuid_content L q u d \<longleftrightarrow> (\<exists>b. blob_by_uuid q u = Some b \<and> expand L q (bl_rid b) = Ok d)"

text \<open>
  What becomes of a file whose hashes in the current version, the target and their ancestor are
  given: \<open>None\<close> if it is left alone, otherwise its new state.
\<close>

definition update_act :: "libs \<Rightarrow> repo \<Rightarrow> bytes option \<Rightarrow> bytes option \<Rightarrow> bytes option \<Rightarrow> bytes option option \<Rightarrow> bool" where
  "update_act L q cur tgt anc act \<longleftrightarrow>
     (let a = (case anc of None \<Rightarrow> [] | Some u \<Rightarrow> u) in
      case (cur, tgt) of
        (None, None) \<Rightarrow> act = None
      | (None, Some t) \<Rightarrow> \<exists>d. uuid_content L q t d \<and> act = Some (Some d)
      | (Some _, None) \<Rightarrow> act = Some None
      | (Some b, Some t) \<Rightarrow>
          if b = t \<or> b \<noteq> a \<and> t = a then act = None
          else if b = a then \<exists>d. uuid_content L q t d \<and> act = Some (Some d)
          else \<exists>x y z. uuid_content L q a x \<and> uuid_content L q b y \<and> uuid_content L q t z \<and>
                 act = Some (Some (rs_Content (ThreeWayText_Merge x y z))))"

definition did :: "checkout \<Rightarrow> bytes \<Rightarrow> bytes option option \<Rightarrow> checkout \<Rightarrow> bool" where
  "did s n act s' \<longleftrightarrow> same_rest s s' \<and>
     (case act of
        None \<Rightarrow> file_at (co_disk s') = file_at (co_disk s)
      | Some w \<Rightarrow> \<exists>p. safePath (co_dir s) n = Ok p \<and> file_at (co_disk s') = (file_at (co_disk s))(p := w))"

lemma did_wrote: "safePath (co_dir s) n = Ok p \<Longrightarrow> wrote s p d s' \<Longrightarrow> did s n (Some (Some d)) s'"
  by (auto simp: did_def wrote_def)

lemma expandUUID_Ok: "expandUUID L u s = (s', Ok d) \<Longrightarrow> s' = s \<and> uuid_content L (co_repo s) u d"
  by (auto simp: expandUUID_def chain_Ok call_def Exists_eq uuid_content_def Exists_def split: option.splits if_splits)

lemma write_in_dir_did: "write_in_dir n d s = (s', Ok ()) \<Longrightarrow> did s n (Some (Some d)) s'"
  unfolding write_in_dir_def using write_safe_Ok did_wrote by blast

lemma write_merged_did: "write_merged n d nil s = (s', Ok ()) \<Longrightarrow> did s n (Some (Some d)) s'"
proof (cases nil)
  case False
  then have "write_merged n d nil = write_in_dir n d" by (simp add: write_merged_def write_in_dir_def)
  then show "write_merged n d nil s = (s', Ok ()) \<Longrightarrow> ?thesis" by (simp add: write_in_dir_did)
qed (auto simp: write_merged_def chain_Ok)

lemma writeFile_did: "writeFileFromUUID L n u s = (s', Ok ()) \<Longrightarrow> \<exists>d. uuid_content L (co_repo s) u d \<and> did s n (Some (Some d)) s'"
  by (auto simp: writeFileFromUUID_def chain_Ok dest!: expandUUID_Ok write_in_dir_did)

lemma remove_did:
  assumes "chain (safe_path n) remove_at s = (s', Ok ())"
  shows "did s n (Some None) s'"
proof -
  from assms obtain s1 p where p: "safe_path n s = (s1, Ok p)" "remove_at p s1 = (s', Ok ())" by (auto simp: chain_Ok)
  note sp = safe_path_Ok [OF p(1)]
  then have "p \<noteq> []" by (simp add: at_safe_def)
  moreover have "co_disk s' = fst (Remove_mem p (co_disk s)) \<and> same_rest s s'"
    using p(2) sp by (auto simp: remove_at_def ignore_err_def on_disk_def same_rest_def split: prod.splits outcome.splits)
  moreover have "safePath (co_dir s) n = Ok p" using p(1) by (auto simp: safe_path_def)
  ultimately show ?thesis by (auto simp: did_def mem.rd_rm fun_eq_iff)
qed

lemma updateFile_did:
  assumes "updateFile L n cur tgt anc ThreeWayText_Merge False s = (s', Ok chg)"
  shows "\<exists>act. update_act L (co_repo s) cur tgt anc act \<and> did s n act s'"
proof -
  have none: "did s n None s" by (simp add: did_def same_rest_def)
  have merge: "\<exists>x y z. uuid_content L (co_repo s) a x \<and> uuid_content L (co_repo s) b y \<and> uuid_content L (co_repo s) t z \<and>
      did s n (Some (Some (rs_Content (ThreeWayText_Merge x y z)))) s'"
    if "mergeFile L n a b t ThreeWayText_Merge False s = (s', Ok chg)" for a b t
    using that by (fastforce simp: mergeFile_def chain_Ok ret_def Let_def dest: expandUUID_Ok write_merged_did)
  show ?thesis
  proof (cases cur; cases tgt)
    assume "cur = None" "tgt = None"
    with assms none show ?thesis by (auto simp: updateFile_def update_act_def ret_def)
  next
    fix t assume "cur = None" "tgt = Some t"
    with assms show ?thesis by (auto simp: updateFile_def update_act_def ret_def chain_Ok dest!: writeFile_did)
  next
    fix b assume "cur = Some b" "tgt = None"
    with assms show ?thesis by (auto simp: updateFile_def update_act_def ret_def chain_Ok [of _ "\<lambda>_. ret UpdateRemoved"] dest!: remove_did)
  next
    fix b t assume "cur = Some b" "tgt = Some t"
    with assms none show ?thesis
      by (auto simp: updateFile_def update_act_def ret_def Let_def chain_Ok split: if_splits dest!: writeFile_did merge)
  qed
qed

section \<open>All files\<close>

lemma did_touch: "did s n act s1 \<Longrightarrow> same_files s1 s' \<Longrightarrow> did s n act s'"
  by (auto simp: did_def same_files_def same_rest_def split: option.splits)

lemma process_name_did:
  assumes "process_name L maps ThreeWayText_Merge t False n s = (s', Ok ())"
  shows "\<exists>act. update_act L (co_repo s) (map_of (um_current maps) n) (map_of (um_target maps) n) (map_of (um_ancestor maps) n) act \<and> did s n act s'"
proof -
  obtain s1 chg where 1: "updateFile L n (map_of (um_current maps) n) (map_of (um_target maps) n) (map_of (um_ancestor maps) n)
      ThreeWayText_Merge False s = (s1, Ok chg)"
    "(if chg = UpdateNone \<or> chg = UpdateRemoved then ret () else touch t n) s1 = (s', Ok ())"
    using assms by (auto simp: process_name_def chain_Ok)
  have "same_files s1 s'" using 1(2) touch_files [of s1 t n] by (auto simp: ret_def sf.refl split: if_splits)
  with updateFile_did [OF 1(1)] did_touch show ?thesis by blast
qed

text \<open>The files after the names \<open>ns\<close>, when different names have different paths.\<close>

definition updated :: "libs \<Rightarrow> updateFileMaps \<Rightarrow> bytes list \<Rightarrow> checkout \<Rightarrow> MemStorage \<Rightarrow> bool" where
  "updated L maps ns s m \<longleftrightarrow>
     (\<forall>n \<in> set ns. \<exists>act. update_act L (co_repo s) (map_of (um_current maps) n) (map_of (um_target maps) n) (map_of (um_ancestor maps) n) act \<and>
        (case act of
           None \<Rightarrow> \<forall>p. safePath (co_dir s) n = Ok p \<longrightarrow> file_at m p = file_at (co_disk s) p
         | Some w \<Rightarrow> \<exists>p. safePath (co_dir s) n = Ok p \<and> file_at m p = w)) \<and>
     (\<forall>p. (\<forall>n \<in> set ns. safePath (co_dir s) n \<noteq> Ok p) \<longrightarrow> file_at m p = file_at (co_disk s) p)"

lemma process_names_updated:
  assumes "for_each (process_name L maps ThreeWayText_Merge t False) ns s = (s', Ok ())" "distinct ns" "inj_on (safePath (co_dir s)) (set ns)"
  shows "same_rest s s' \<and> updated L maps ns s (co_disk s')"
  using assms
proof (induction ns arbitrary: s)
  case (Cons n ns)
  let ?U = "\<lambda>n. update_act L (co_repo s) (map_of (um_current maps) n) (map_of (um_target maps) n) (map_of (um_ancestor maps) n)"
  obtain s1 where 1: "process_name L maps ThreeWayText_Merge t False n s = (s1, Ok ())"
    "for_each (process_name L maps ThreeWayText_Merge t False) ns s1 = (s', Ok ())" using Cons.prems(1) by (auto simp: chain_Ok)
  obtain act where act: "?U n act" "did s n act s1" using process_name_did [OF 1(1)] by blast
  then have s1: "co_dir s1 = co_dir s" "co_repo s1 = co_repo s" "same_rest s s1" by (simp_all add: did_def same_rest_def)
  have new: "safePath (co_dir s) m \<noteq> Ok p" if "m \<in> set ns" "safePath (co_dir s) n = Ok p" for m p
    using Cons.prems(2,3) that by (auto simp: inj_on_def)
  have inj: "inj_on (safePath (co_dir s1)) (set ns)" using Cons.prems(3) s1(1) by (simp add: inj_on_def)
  from Cons.IH [OF 1(2) _ inj] Cons.prems(2) have ih: "same_rest s1 s'" "updated L maps ns s1 (co_disk s')" by simp_all
  have first: "file_at (co_disk s1) p = file_at (co_disk s) p" if "safePath (co_dir s) n \<noteq> Ok p" for p
    using act(2) that by (auto simp: did_def split: option.splits)
  have later: "file_at (co_disk s') p = file_at (co_disk s1) p" if "safePath (co_dir s) n = Ok p" for p
    using ih(2) new that s1(1) by (auto simp: updated_def)
  have "\<exists>act. ?U m act \<and> (case act of
      None \<Rightarrow> \<forall>p. safePath (co_dir s) m = Ok p \<longrightarrow> file_at (co_disk s') p = file_at (co_disk s) p
    | Some w \<Rightarrow> \<exists>p. safePath (co_dir s) m = Ok p \<and> file_at (co_disk s') p = w)" if m: "m \<in> set (n # ns)" for m
  proof (cases "m = n")
    case True
    with act later show ?thesis by (intro exI [of _ act]) (auto simp: did_def split: option.splits)
  next
    case False
    then have "m \<in> set ns" using m by simp
    with ih(2) obtain a where a: "?U m a" "case a of
        None \<Rightarrow> \<forall>p. safePath (co_dir s) m = Ok p \<longrightarrow> file_at (co_disk s') p = file_at (co_disk s1) p
      | Some w \<Rightarrow> \<exists>p. safePath (co_dir s) m = Ok p \<and> file_at (co_disk s') p = w"
      unfolding updated_def s1(1,2) by blast
    moreover have "safePath (co_dir s) n \<noteq> Ok p" if "safePath (co_dir s) m = Ok p" for p using new [OF \<open>m \<in> set ns\<close>] that by blast
    ultimately show ?thesis using first by (intro exI [of _ a]) (auto split: option.splits)
  qed
  moreover have "file_at (co_disk s') p = file_at (co_disk s) p" if "\<forall>n \<in> set (n # ns). safePath (co_dir s) n \<noteq> Ok p" for p
    using ih(2) first that s1(1) by (auto simp: updated_def)
  ultimately have "updated L maps (n # ns) s (co_disk s')" by (simp only: updated_def) blast
  moreover have "same_rest s s'" using s1(3) ih(1) by (simp add: same_rest_def)
  ultimately show ?case by blast
qed (simp add: ret_def same_rest_def updated_def)

lemma LoadVFile_frame:
  assumes "LoadVFile L r clear c = (c', Ok ms)"
  shows "co_repo c' = co_repo c \<and> co_dir c' = co_dir c \<and> co_disk c' = co_disk c"
proof -
  define c1 where "c1 = (if clear then c\<lparr>co_vfile := filter (\<lambda>v. vf_vid v = r) (co_vfile c)\<rparr> else c)"
  obtain files where "gather (load_entry r) files c1 = (c', Ok ms)"
    using assms by (auto simp: LoadVFile_def chain_Ok change_def call_def c1_def split: if_splits)
  from gather_load_Ok [OF this] show ?thesis by (simp add: c1_def)
qed


section \<open>Instances\<close>

text \<open>A second check-in with another content of the file, and a checkout of the first one.\<close>

definition next_deck :: Deck where
  "next_deck = disk_deck\<lparr>dk_F := [\<lparr>fc_Name = ''a'', fc_UUID = l_sha1 toy_libs ''world!'', fc_Perm = [], fc_OldName = []\<rparr>], dk_U := ''you''\<rparr>"

definition two_repo :: repo where
  "two_repo = disk_repo\<lparr>t_blob := t_blob disk_repo @ [toy_row 3 (Marshal (l_md5 toy_libs) next_deck), toy_row 4 ''world!'']\<rparr>"

definition two_checkout :: checkout where
  "two_checkout = disk_checkout\<lparr>co_repo := two_repo, co_vvar := [(''checkout'', ''1''), (''checkout-hash'', replicate 40 CHR ''b'')]\<rparr>"

lemma next_length: "length (Marshal (l_md5 toy_libs) next_deck) = 121"
  by code_simp

lemma next_wf: "wf_deck next_deck"
proof -
  have "list_all F_ok (dk_F next_deck)" "list_all trimmed [dk_B next_deck, dk_G next_deck, dk_I next_deck, dk_K next_deck, dk_N next_deck, dk_R next_deck]"
    by code_simp+
  then show ?thesis
    by (simp add: wf_deck_def next_deck_def disk_deck_def tiny_deck_def empty_deck_def D_ok_def encodable_time_def valid_time_def zero_time_def days_in_def)
qed

lemma two_blobs: "blob_by_rid two_repo 1 = Some (toy_row 1 (Marshal (l_md5 toy_libs) disk_deck))"
    "blob_by_rid two_repo 3 = Some (toy_row 3 (Marshal (l_md5 toy_libs) next_deck))" "blob_by_rid two_repo 4 = Some (toy_row 4 ''world!'')"
    "t_delta two_repo = []" "t_plink two_repo = []"
  by (simp_all add: two_repo_def blob_by_rid_def disk_repo_def toy_row_def empty_repo_def)

lemma two_uuids: "l_sha1 toy_libs (Marshal (l_md5 toy_libs) next_deck) = CHR ''a'' # replicate 39 CHR ''b''"
  "l_sha1 toy_libs ''world!'' = replicate 6 CHR ''a'' @ replicate 34 CHR ''b''"
  using next_length by (simp_all add: toy_libs_def)

lemma two_wf: "wf_repo two_repo"
proof -
  have "distinct [replicate 40 CHR ''b'', replicate 5 CHR ''a'' @ replicate 35 CHR ''b'', CHR ''a'' # replicate 39 CHR ''b'', replicate 6 CHR ''a'' @ replicate 34 CHR ''b'']"
    by (simp add: numeral_eq_Suc)
  then show ?thesis by (simp add: wf_repo_def two_repo_def disk_repo_def toy_row_def empty_repo_def disk_uuids two_uuids)
qed

lemma two_expand: "expand toy_libs two_repo 1 = Ok (Marshal (l_md5 toy_libs) disk_deck)"
    "expand toy_libs two_repo 3 = Ok (Marshal (l_md5 toy_libs) next_deck)" "expand toy_libs two_repo 4 = Ok ''world!''"
proof -
  have e: "expands (l_inflate toy_libs) two_repo r s" if "blob_by_rid two_repo r = Some (toy_row r s)" "r > 0" "length s < 2 ^ 30" for r s
  proof -
    have "Load (l_inflate toy_libs) False two_repo r = Ok s"
      using Load_compressed [OF sample_zlib, of r two_repo "toy_row r s" s] that by (simp add: toy_row_def toy_libs_def)
    then show ?thesis by (intro expands.expands_root) (simp_all add: delta_src_def two_blobs)
  qed
  show "expand toy_libs two_repo 1 = Ok (Marshal (l_md5 toy_libs) disk_deck)"
    "expand toy_libs two_repo 3 = Ok (Marshal (l_md5 toy_libs) next_deck)" "expand toy_libs two_repo 4 = Ok ''world!''"
    using e [of 1 "Marshal (l_md5 toy_libs) disk_deck"] e [of 3 "Marshal (l_md5 toy_libs) next_deck"] e [of 4 "''world!''"]
    by (simp_all add: Expand_eq_expands two_blobs disk_length next_length)
qed

lemma two_files:
  "ListFiles toy_libs two_repo 1 = Ok [\<lparr>fe_Name = ''a'', fe_UUID = l_sha1 toy_libs ''hello'', fe_Perm = []\<rparr>]"
  "ListFiles toy_libs two_repo 3 = Ok [\<lparr>fe_Name = ''a'', fe_UUID = l_sha1 toy_libs ''world!'', fe_Perm = []\<rparr>]"
proof -
  have "load_deck toy_libs two_repo 1 = Ok (canonical disk_deck)" "load_deck toy_libs two_repo 3 = Ok (canonical next_deck)"
    using Parse_Marshal [OF disk_wf] Parse_Marshal [OF next_wf] libs_okD(5) [OF toy_libs_ok] by (simp_all add: load_deck_def two_expand)
  then show "ListFiles toy_libs two_repo 1 = Ok [\<lparr>fe_Name = ''a'', fe_UUID = l_sha1 toy_libs ''hello'', fe_Perm = []\<rparr>]"
    "ListFiles toy_libs two_repo 3 = Ok [\<lparr>fe_Name = ''a'', fe_UUID = l_sha1 toy_libs ''world!'', fe_Perm = []\<rparr>]"
    by (simp_all add: ListFiles_def GetManifest_def deck_files_def canonical_def next_deck_def disk_deck_def tiny_deck_def empty_deck_def
        fCardsToEntries_def entry_of_def)
qed

definition two_maps :: updateFileMaps where
  "two_maps = \<lparr>um_current = [(''a'', l_sha1 toy_libs ''hello'')], um_target = [(''a'', l_sha1 toy_libs ''world!'')],
     um_ancestor = [(''a'', l_sha1 toy_libs ''hello'')], um_allNames = [''a'']\<rparr>"

lemma two_maps_built: "buildUpdateMaps toy_libs two_repo 1 3 = Ok two_maps"
proof -
  have "bfs two_repo [1] [3] [1] [3] = None"
    by (simp add: bfs.simps [of _ "[1]"] half_step_def getParents_def two_blobs)
  then have "FindCommonAncestor two_repo 1 3 = Err (NoCommonAncestor 1 3)" by (simp add: FindCommonAncestor_def)
  then show ?thesis by (simp add: buildUpdateMaps_def two_files buildFileMaps_def uuid_map_def two_maps_def)
qed

definition two_opts :: UpdateOpts where
  "two_opts = \<lparr>up_TargetRID = 3, up_SetMTime = False, up_DryRun = False\<rparr>"

lemma two_fields: "co_repo two_checkout = two_repo" "co_dir two_checkout = ''/w''" "Version two_checkout = Ok (1, replicate 40 CHR ''b'')"
proof -
  have "Atoi ''1'' = Some 1" by code_simp
  then show "Version two_checkout = Ok (1, replicate 40 CHR ''b'')"
    by (simp add: Version_def two_checkout_def getVVar_def)
qed (simp_all add: two_checkout_def disk_checkout_def toy_checkout_def)

lemma two_world: "blob_by_uuid two_repo (l_sha1 toy_libs ''world!'') = Some (toy_row 4 ''world!'')" "l_sha1 toy_libs ''world!'' \<noteq> []"
    "l_sha1 toy_libs ''hello'' \<noteq> l_sha1 toy_libs ''world!''" "l_sha1 toy_libs ''hello'' \<noteq> []" "bl_rid (toy_row 4 ''world!'') = 4"
  by (simp_all add: blob_by_uuid_def two_repo_def disk_repo_def toy_row_def disk_uuids two_uuids numeral_eq_Suc)

lemma two_update: "\<exists>c'. Update_checkout toy_libs two_opts two_checkout = (c', Ok ())"
proof -
  have p: "safePath ''/w'' ''a'' = Ok ''/w/a''" by code_simp
  show ?thesis
    by (simp add: Update_checkout_def two_opts_def chain_def ret_def version_act_def two_fields update_to_def call_def two_maps_built
        StrategyByName_def strategies_def processFileUpdates_def process_name_def two_maps_def updateFile_def two_world writeFileFromUUID_def
        expandUUID_def Exists_def two_expand write_in_dir_def safe_path_def p make_parent_def write_at_def on_disk_def MkdirAll_def
        WriteFile_def touch_def finalizeUpdate_def LoadVFile_def change_def two_files load_entry_def finalizeExtract_def two_blobs)
qed



end
