(* ===== verification/Commit_Props.thy ===== *)
theory Commit_Props
  imports Checkout_Extract
begin

text \<open>
  What a commit contains (\<open>internal/checkout/checkin.go\<close>): the files of the parent without those
  removed, the changed ones from the working directory, the others from the repository.
\<close>

section \<open>The map of files\<close>

text \<open>Every file stands under its own name, once.\<close>

definition named :: "(bytes \<times> File) list \<Rightarrow> bool" where
  "named m \<longleftrightarrow> distinct (map fst m) \<and> (\<forall>(n, f) \<in> set m. fl_Name f = n)"

lemma in_update:
  assumes "named m" "(k, g) \<in> set (AList.update n f m)"
  shows "k = n \<and> g = f \<or> k \<noteq> n \<and> (k, g) \<in> set m"
proof -
  have "distinct (map fst (AList.update n f m))" using assms(1) by (simp add: named_def distinct_update)
  then have "map_of (AList.update n f m) k = Some g" using assms(2) by simp
  then show ?thesis by (auto simp: update_conv' dest: map_of_SomeD split: if_splits)
qed

lemma named_update: "named m \<Longrightarrow> fl_Name f = n \<Longrightarrow> named (AList.update n f m)"
  using in_update [of m _ _ n f] by (fastforce simp: named_def distinct_update)

text \<open>The entry of a file of the parent, without content as yet.\<close>

abbreviation bare_file :: "FileEntry \<Rightarrow> File" where
  "bare_file f \<equiv> \<lparr>fl_Name = fe_Name f, fl_Content = [], fl_Perm = fe_Perm f\<rparr>"

definition bare :: "(bytes \<times> File) list \<Rightarrow> bool" where
  "bare m \<longleftrightarrow> named m \<and> (\<forall>(n, f) \<in> set m. fl_Content f = [])"

lemma bare_update: "bare m \<Longrightarrow> bare (AList.update (fe_Name f) (bare_file f) m)"
  using named_update [of m "bare_file f"] in_update [of m _ _ "fe_Name f" "bare_file f"] by (fastforce simp: bare_def)

lemma bare_updates:
  "bare m \<Longrightarrow> bare (fold (\<lambda>f. AList.update (fe_Name f) (bare_file f)) fs m) \<and>
   fst ` set (fold (\<lambda>f. AList.update (fe_Name f) (bare_file f)) fs m) = fst ` set m \<union> fe_Name ` set fs"
proof (induction fs arbitrary: m)
  case (Cons f fs)
  from Cons.IH [OF bare_update [OF Cons.prems, of f]] show ?case by (simp add: dom_update)
qed simp

lemma bare_deletes: "bare m \<Longrightarrow> bare (fold AList.delete ns m) \<and> fst ` set (fold AList.delete ns m) = fst ` set m - set ns"
proof (induction ns arbitrary: m)
  case (Cons n ns)
  have sub: "set (AList.delete n m) \<subseteq> set m" by (auto simp: AList.delete_eq)
  have "distinct (map fst (AList.delete n m))" using Cons.prems by (intro distinct_delete) (simp add: bare_def named_def)
  then have "bare (AList.delete n m)" using Cons.prems sub by (auto simp: bare_def named_def)
  moreover have "fst ` set (AList.delete n m) = fst ` set m - {n}" by (auto simp: AList.delete_eq)
  moreover have "fst ` set m - {n} - set ns = fst ` set m - set (n # ns)" by auto
  ultimately show ?case using Cons.IH [of "AList.delete n m"] by (simp del: set_simps)
qed simp

section \<open>Changed and unchanged files\<close>

text \<open>The file \<open>n\<close> of the working directory has content \<open>d\<close>.\<close>

definition work_file :: "checkout \<Rightarrow> bytes \<Rightarrow> bytes \<Rightarrow> bool" where
  "work_file c n d \<longleftrightarrow> (\<exists>p. safePath (co_dir c) n = Ok p \<and> ReadFile (co_disk c) p = Ok d)"

text \<open>What \<open>put_changed\<close> made of the map \<open>m\<close>.\<close>

definition changed_files :: "checkout \<Rightarrow> bytes list \<Rightarrow> (bytes \<times> File) list \<Rightarrow> (bytes \<times> File) list \<Rightarrow> bool" where
  "changed_files c ns m m' \<longleftrightarrow> named m' \<and> fst ` set m' = fst ` set m \<union> set ns \<and>
     (\<forall>n f. (n, f) \<in> set m' \<longrightarrow> n \<in> set ns \<and> work_file c n (fl_Content f) \<or> n \<notin> set ns \<and> (n, f) \<in> set m)"

lemma put_changed_Ok: "put_changed c ns m = Ok m' \<Longrightarrow> named m \<Longrightarrow> changed_files c ns m m'"
proof (induction ns arbitrary: m)
  case (Cons n ns)
  define f where "f d = \<lparr>fl_Name = n, fl_Content = d, fl_Perm = (case map_of m n of None \<Rightarrow> [] | Some f \<Rightarrow> fl_Perm f)\<rparr>" for d
  obtain p d where p: "safePath (co_dir c) n = Ok p" "ReadFile (co_disk c) p = Ok d" "put_changed c ns (AList.update n (f d) m) = Ok m'"
    using Cons.prems(1) by (auto simp: bind_ok_eq_Ok f_def)
  have "named (AList.update n (f d) m)" using Cons.prems(2) by (rule named_update) (simp add: f_def)
  note ih = Cons.IH [OF p(3) this]
  have w: "work_file c n (fl_Content (f d))" using p by (auto simp: work_file_def f_def)
  have "k \<in> set (n # ns) \<and> work_file c k (fl_Content g) \<or> k \<notin> set (n # ns) \<and> (k, g) \<in> set m" if "(k, g) \<in> set m'" for k g
  proof (cases "k \<in> set ns")
    case True
    with ih that show ?thesis by (auto simp: changed_files_def)
  next
    case False
    with ih that have "(k, g) \<in> set (AList.update n (f d) m)" by (auto simp: changed_files_def)
    from in_update [OF Cons.prems(2) this] w False show ?thesis by auto
  qed
  with ih show ?case by (auto simp: changed_files_def dom_update)
qed (auto simp: changed_files_def)

text \<open>What \<open>fill_unchanged\<close> made of one entry.\<close>

definition filled :: "libs \<Rightarrow> checkout \<Rightarrow> rid \<Rightarrow> FileEntry list \<Rightarrow> bytes \<times> File \<Rightarrow> File \<Rightarrow> bool" where
  "filled L c vid files x g \<longleftrightarrow>
     (if fl_Content (snd x) \<noteq> [] then g = snd x
      else fl_Name g = fst x \<and>
        (\<exists>r. unchanged_rid c vid files (fst x) = Ok r \<and> r \<noteq> 0 \<and> expand L (co_repo c) r = Ok (fl_Content g)))"

lemma fill_unchanged_Ok: "fill_unchanged L c vid files m = Ok fs \<Longrightarrow> list_all2 (filled L c vid files) m fs"
proof (induction m arbitrary: fs)
  case (Cons x m)
  obtain n f where x: "x = (n, f)" by fastforce
  define step where "step = (if length (fl_Content f) > 0 then Ok f
      else bind_ok (unchanged_rid c vid files n) (\<lambda>r.
        if r = 0 then Err (NoRid n)
        else bind_ok (wrap_err CoContent (expand L (co_repo c) r)) (\<lambda>data. Ok \<lparr>fl_Name = n, fl_Content = data, fl_Perm = fl_Perm f\<rparr>)))"
  from Cons.prems obtain g gs where g: "step = Ok g" "fill_unchanged L c vid files m = Ok gs" "fs = g # gs"
    unfolding x fill_unchanged.simps step_def [symmetric] bind_ok_eq_Ok by blast
  have "filled L c vid files x g" using g(1) by (auto simp: step_def filled_def x bind_ok_eq_Ok split: if_splits)
  with Cons.IH [OF g(2)] g(3) show ?case by simp
qed simp

text \<open>
  Claim C25.  A commit has each name once: the included changed ones and those of the parent that are not removed.
  A changed file that is not empty has the content of the working directory, any other the content
  of its row in the repository.
\<close>

theorem buildCommitFiles_contents:
  assumes "buildCommitFiles L c r changed deleted = Ok fs"
    and "(if r \<noteq> 0 then wrap_err CoManifest (ListFiles L (co_repo c) r) else Ok []) = Ok parent"
    and "ch = filter (should_include c) changed" "del = filter (should_include c) deleted"
  shows "distinct (map fl_Name fs) \<and> fl_Name ` set fs = fe_Name ` set parent - set del \<union> set ch \<and>
    (\<forall>f \<in> set fs. fl_Name f \<in> set ch \<and> fl_Content f \<noteq> [] \<and> work_file c (fl_Name f) (fl_Content f) \<or>
       (fl_Name f \<in> set ch \<longrightarrow> work_file c (fl_Name f) []) \<and>
       (\<exists>i. unchanged_rid c r parent (fl_Name f) = Ok i \<and> i \<noteq> 0 \<and> expand L (co_repo c) i = Ok (fl_Content f)))"
proof -
  define kept where "kept = fold AList.delete del (parent_file_map parent)"
  obtain m where m: "put_changed c ch kept = Ok m" "fill_unchanged L c r parent m = Ok fs"
    using assms by (auto simp: buildCommitFiles_def bind_ok_eq_Ok Let_def kept_def)
  have "bare []" by (simp add: bare_def named_def)
  from bare_updates [OF this, of parent] have parent: "bare (parent_file_map parent) \<and> fst ` set (parent_file_map parent) = fe_Name ` set parent"
    unfolding parent_file_map_def by simp
  have kept: "bare kept" "fst ` set kept = fe_Name ` set parent - set del"
    using bare_deletes [OF parent [THEN conjunct1], of del] parent by (simp_all add: kept_def)
  have put: "changed_files c ch kept m" using put_changed_Ok [OF m(1)] kept(1) by (simp add: bare_def)
  have pair: "\<exists>x \<in> set m. filled L c r parent x f" if f: "f \<in> set fs" for f
  proof -
    obtain k where "k < length fs" "f = fs ! k" using f by (auto simp: in_set_conv_nth)
    with fill_unchanged_Ok [OF m(2)] show ?thesis by (intro bexI [of _ "m ! k"]) (auto simp: list_all2_conv_all_nth)
  qed
  have name: "fl_Name f = fst x" if "filled L c r parent x f" "x \<in> set m" for x f
    using that put by (auto simp: filled_def changed_files_def named_def split: if_splits)
  have "map fl_Name fs = map fst m"
    using fill_unchanged_Ok [OF m(2)] name by (auto simp: list_eq_iff_nth_eq list_all2_conv_all_nth)
  then have "distinct (map fl_Name fs)" "fl_Name ` set fs = fe_Name ` set parent - set del \<union> set ch"
    using put kept(2) by (simp add: changed_files_def named_def, metis changed_files_def list.set_map)
  moreover have "fl_Name f \<in> set ch \<and> fl_Content f \<noteq> [] \<and> work_file c (fl_Name f) (fl_Content f) \<or>
       (fl_Name f \<in> set ch \<longrightarrow> work_file c (fl_Name f) []) \<and>
       (\<exists>i. unchanged_rid c r parent (fl_Name f) = Ok i \<and> i \<noteq> 0 \<and> expand L (co_repo c) i = Ok (fl_Content f))" if f: "f \<in> set fs" for f
  proof -
    obtain n g where x: "(n, g) \<in> set m" "filled L c r parent (n, g) f" using pair [OF f] by auto
    have n: "fl_Name f = n" using name [OF x(2,1)] by simp
    have "n \<in> set ch \<and> work_file c n (fl_Content g) \<or> n \<notin> set ch \<and> fl_Content g = []"
      using put x(1) kept(1) by (fastforce simp: changed_files_def bare_def)
    with x(2) n show ?thesis by (auto simp: filled_def split: if_splits)
  qed
  ultimately show ?thesis by blast
qed

section \<open>Instances\<close>

text \<open>A check-in with the unchanged file \<open>a\<close> and the new file \<open>b\<close>.\<close>

definition commit_checkout :: checkout where
  "commit_checkout = disk_checkout\<lparr>co_vfile := [tracked_row 1 \<lparr>fe_Name = ''a'', fe_UUID = l_sha1 toy_libs ''hello'', fe_Perm = []\<rparr> 2],
     co_disk := \<lparr>ms_files = [(''/w/b'', ''new'')], ms_dirs = [], ms_mtimes = []\<rparr>\<rparr>"

lemma commit_fields: "co_repo commit_checkout = disk_repo" "co_dir commit_checkout = ''/w''" "should_include commit_checkout = (\<lambda>_. True)"
  by (simp_all add: commit_checkout_def disk_checkout_def toy_checkout_def should_include_def fun_eq_iff)

lemma commit_built: "\<exists>fs. buildCommitFiles toy_libs commit_checkout 1 [''b''] [] = Ok fs"
proof -
  have p: "safePath ''/w'' ''b'' = Ok ''/w/b''" by code_simp
  have x: "expand toy_libs disk_repo 2 = Ok ''hello''" using disk_expands(2) by (simp add: Expand_eq_expands)
  have u: "find_path commit_checkout 1 ''a'' = Some (tracked_row 1 \<lparr>fe_Name = ''a'', fe_UUID = l_sha1 toy_libs ''hello'', fe_Perm = []\<rparr> 2)"
    by (simp add: find_path_def commit_checkout_def tracked_row_def)
  have r: "ReadFile (co_disk commit_checkout) ''/w/b'' = Ok ''new''" by (simp add: ReadFile_def commit_checkout_def)
  have v: "vf_rid (tracked_row 1 f 2) = 2" for f by (simp add: tracked_row_def)
  show ?thesis by (simp add: buildCommitFiles_def commit_fields disk_files parent_file_map_def p r unchanged_rid_def u v x)
qed

lemma commit_work: "work_file commit_checkout ''b'' d \<longleftrightarrow> d = ''new''"
proof -
  have p: "safePath ''/w'' ''b'' = Ok ''/w/b''" by code_simp
  show ?thesis by (auto simp: work_file_def commit_fields p ReadFile_def) (simp_all add: commit_checkout_def)
qed

theorem buildCommitFiles_contents_witness:
  "\<exists>fs. buildCommitFiles toy_libs commit_checkout 1 [''b''] [] = Ok fs \<and> fl_Name ` set fs = {''a'', ''b''} \<and>
     (\<exists>f \<in> set fs. fl_Name f = ''b'' \<and> fl_Content f = ''new'')"
proof -
  obtain fs where fs: "buildCommitFiles toy_libs commit_checkout 1 [''b''] [] = Ok fs" using commit_built by blast
  have "(if (1::rid) \<noteq> 0 then wrap_err CoManifest (ListFiles toy_libs (co_repo commit_checkout) 1) else Ok []) =
      Ok [\<lparr>fe_Name = ''a'', fe_UUID = l_sha1 toy_libs ''hello'', fe_Perm = []\<rparr>]" by (simp add: commit_fields disk_files)
  note all = buildCommitFiles_contents [OF fs this refl refl]
  have names: "fl_Name ` set fs = {''a'', ''b''}" using all by (simp add: commit_fields insert_commute)
  then obtain f where f: "f \<in> set fs" "fl_Name f = ''b''" by (metis imageE insertI1 insertI2)
  have "fl_Content f = ''new''" using bspec [OF conjunct2 [OF conjunct2 [OF all]] f(1)] by (auto simp: f(2) commit_fields commit_work)
  with fs names f show ?thesis by blast
qed

end
