(* ===== verification/Undo.thy ===== *)
theory Undo
  imports Checkout_Extract
begin

text \<open>
  Undo and redo of a change of the checkout (\<open>internal/undo/undo.go\<close>): one saved state in the tables
  \<open>undo\<close>, \<open>undo_vfile\<close> and \<open>undo_vmerge\<close>, swapped with the files and tables by \<open>Undo\<close> and back by
  \<open>Redo\<close>.  The code uses the host's files directly, here those of \<open>Storage\<close>: a read fails only for a
  file that is not there, and other failures of the host are not modelled.  What the code prints is
  left out.
\<close>

section \<open>State\<close>

record undo_row =
  un_pathname :: bytes
  un_content :: bytes
  un_existsflag :: bool
  un_isExec :: bool
  un_isLink :: bool
  un_redoflag :: bool

record undo_db =
  ud_vvar :: vvar
  ud_vfile :: "vfile_row list"
  ud_vmerge :: "vmerge_row list"
  ud_undo :: "undo_row list option"
  ud_undo_vfile :: "vfile_row list option"
  ud_undo_vmerge :: "vmerge_row list option"
  ud_disk :: MemStorage

datatype undo_error = UndoScan int | NothingTo bytes | MissingTable bytes | NoVVar bytes

text \<open>A column read as \<open>bool\<close>: \<open>database/sql\<close> takes no other integers than 0 and 1.\<close>

definition scan_bool :: "int \<Rightarrow> (undo_error, bool) outcome" where
  "scan_bool i = (if i = 0 then Ok False else if i = 1 then Ok True else Err (UndoScan i))"

section \<open>Save\<close>

text \<open>The content of a file and whether it exists.\<close>

definition read_current :: "MemStorage \<Rightarrow> bytes \<Rightarrow> bytes \<times> bool" where
  "read_current m p = (case ReadFile m p of Ok data \<Rightarrow> (data, True) | _ \<Rightarrow> ([], False))"

definition undo_row_of :: "MemStorage \<Rightarrow> bytes \<Rightarrow> vfile_row \<Rightarrow> (undo_error, undo_row) outcome" where
  "undo_row_of m dir v =
     bind_ok (scan_bool (vf_isexe v)) (\<lambda>isExec.
     bind_ok (scan_bool (vf_islink v)) (\<lambda>isLink.
       case read_current m (path_Join dir (vf_pathname v)) of (data, exists) \<Rightarrow>
         Ok \<lparr>un_pathname = vf_pathname v, un_content = data, un_existsflag = exists,
             un_isExec = isExec, un_isLink = isLink, un_redoflag = False\<rparr>))"

fun undo_rows :: "MemStorage \<Rightarrow> bytes \<Rightarrow> vfile_row list \<Rightarrow> (undo_error, undo_row list) outcome" where
  "undo_rows m dir [] = Ok []"
| "undo_rows m dir (v # vs) =
     bind_ok (undo_row_of m dir v) (\<lambda>r. bind_ok (undo_rows m dir vs) (\<lambda>rs. Ok (r # rs)))"

definition saved_rows :: "vfile_row list \<Rightarrow> bytes list \<Rightarrow> vfile_row list" where
  "saved_rows vs pathnames = (if length pathnames > 0 then filter (\<lambda>v. vf_pathname v \<in> set pathnames) vs else vs)"

definition delete_vvar :: "bytes \<Rightarrow> vvar \<Rightarrow> vvar" where
  "delete_vvar name vv = filter (\<lambda>(n, _). n \<noteq> name) vv"

definition save_vvar :: "vvar \<Rightarrow> vvar" where
  "save_vvar vv =
     (let vv1 = delete_vvar ''undo_checkout'' vv;
          vv2 = (case map_of vv1 ''checkout'' of None \<Rightarrow> vv1 | Some v \<Rightarrow> (''undo_checkout'', v) # vv1)
      in replace_vvar ''undo_available'' ''1'' vv2)"

definition Save_undo :: "bytes \<Rightarrow> bytes list \<Rightarrow> undo_db \<Rightarrow> undo_db \<times> (undo_error, unit) outcome" where
  "Save_undo dir pathnames s =
     (if dir = [] then (s, Panic ''undo.Save: dir must not be empty'')
      else case undo_rows (ud_disk s) dir (saved_rows (ud_vfile s) pathnames) of
        Ok rows \<Rightarrow>
          (s\<lparr>ud_undo := Some rows, ud_undo_vfile := Some (ud_vfile s), ud_undo_vmerge := Some (ud_vmerge s),
             ud_vvar := save_vvar (ud_vvar s)\<rparr>, Ok ())
      | Err e \<Rightarrow> (s, Err e)
      | Panic p \<Rightarrow> (s, Panic p))"

section \<open>Undo and Redo\<close>

definition restore_file :: "bytes \<Rightarrow> undo_row \<Rightarrow> MemStorage \<Rightarrow> MemStorage" where
  "restore_file p e m =
     (if un_existsflag e then fst (WriteFile p (un_content e) plain_perm (fst (MkdirAll (Dir p) exec_perm m)))
      else if snd (read_current m p) then fst (Remove_mem p m) else m)"

definition swap_row :: "bytes \<Rightarrow> bool \<Rightarrow> undo_row \<Rightarrow> MemStorage \<Rightarrow> MemStorage \<times> undo_row" where
  "swap_row dir wantFlag e m =
     (let p = path_Join dir (un_pathname e) in
      (restore_file p e m,
       e\<lparr>un_content := fst (read_current m p), un_existsflag := snd (read_current m p), un_redoflag := \<not> wantFlag\<rparr>))"

fun swap_rows :: "bytes \<Rightarrow> bool \<Rightarrow> undo_row list \<Rightarrow> MemStorage \<Rightarrow> MemStorage \<times> undo_row list" where
  "swap_rows dir wantFlag [] m = (m, [])"
| "swap_rows dir wantFlag (e # es) m =
     (if un_redoflag e = wantFlag
      then let (m1, e1) = swap_row dir wantFlag e m; (m2, es2) = swap_rows dir wantFlag es m1 in (m2, e1 # es2)
      else let (m2, es2) = swap_rows dir wantFlag es m in (m2, e # es2))"

definition swapCheckout :: "bytes \<Rightarrow> vvar \<Rightarrow> (undo_error, vvar) outcome" where
  "swapCheckout setAvail vv =
     (case map_of vv ''checkout'' of
        None \<Rightarrow> Err (NoVVar ''checkout'')
      | Some curCheckout \<Rightarrow>
          (case map_of vv ''undo_checkout'' of
             None \<Rightarrow> Err (NoVVar ''undo_checkout'')
           | Some undoCheckout \<Rightarrow>
               Ok (replace_vvar ''undo_available'' setAvail
                    (replace_vvar ''undo_checkout'' curCheckout (replace_vvar ''checkout'' undoCheckout vv)))))"

text \<open>An error after the files were swapped takes back the tables and not the files.\<close>

definition swapState :: "bytes \<Rightarrow> bool \<Rightarrow> undo_db \<Rightarrow> undo_db \<times> (undo_error, unit) outcome" where
  "swapState dir redo s =
     (let label = (if redo then ''redo'' else ''undo'');
          wantAvail = (if redo then ''2'' else ''1'');
          setAvail = (if redo then ''1'' else ''2'')
      in if map_of (ud_vvar s) ''undo_available'' \<noteq> Some wantAvail then (s, Err (NothingTo label))
         else case ud_undo s of
           None \<Rightarrow> (s, Err (MissingTable ''undo''))
         | Some rows \<Rightarrow>
             let (m, rows1) = swap_rows dir redo rows (ud_disk s); s1 = s\<lparr>ud_disk := m\<rparr> in
             (case (ud_undo_vfile s, ud_undo_vmerge s) of
                (Some vfile, Some vmerge) \<Rightarrow>
                  (case swapCheckout setAvail (ud_vvar s) of
                     Ok vv \<Rightarrow>
                       (s1\<lparr>ud_undo := Some rows1, ud_vfile := vfile, ud_undo_vfile := Some (ud_vfile s),
                           ud_vmerge := vmerge, ud_undo_vmerge := Some (ud_vmerge s), ud_vvar := vv\<rparr>, Ok ())
                   | Err e \<Rightarrow> (s1, Err e)
                   | Panic p \<Rightarrow> (s1, Panic p))
              | (None, _) \<Rightarrow> (s1, Err (MissingTable ''undo_vfile''))
              | (Some _, None) \<Rightarrow> (s1, Err (MissingTable ''undo_vmerge''))))"

definition Undo_swap :: "bytes \<Rightarrow> undo_db \<Rightarrow> undo_db \<times> (undo_error, unit) outcome" where
  "Undo_swap dir s = (if dir = [] then (s, Panic ''undo.Undo: dir must not be empty'') else swapState dir False s)"

definition Redo_swap :: "bytes \<Rightarrow> undo_db \<Rightarrow> undo_db \<times> (undo_error, unit) outcome" where
  "Redo_swap dir s = (if dir = [] then (s, Panic ''undo.Redo: dir must not be empty'') else swapState dir True s)"

section \<open>Swapping files\<close>

lemma read_current_file: "p \<noteq> [] \<Longrightarrow> read_current m p = (case file_at m p of None \<Rightarrow> ([], False) | Some d \<Rightarrow> (d, True))"
  by (simp add: read_current_def ReadFile_eq split: option.split)

text \<open>What a row of the table says about its file.\<close>

definition row_file :: "undo_row \<Rightarrow> bytes option" where
  "row_file e = (if un_existsflag e then Some (un_content e) else None)"

lemma restore_file_at: "p \<noteq> [] \<Longrightarrow> file_at (restore_file p e m) q = (if q = p then row_file e else file_at m q)"
  by (simp add: restore_file_def row_file_def file_at_WriteFile mem.rd_rm read_current_file split: option.split)

lemma path_Join_dir: "dir \<noteq> [] \<Longrightarrow> path_Join dir p \<noteq> []"
  using path_Join_nonempty by blast

abbreviation row_path :: "bytes \<Rightarrow> undo_row \<Rightarrow> bytes" where
  "row_path dir e \<equiv> path_Join dir (un_pathname e)"

lemma swap_row_parts:
  assumes "dir \<noteq> []" "swap_row dir w e m = (m1, e1)"
  shows "file_at m1 q = (if q = row_path dir e then row_file e else file_at m q)"
    "row_file e1 = file_at m (row_path dir e)" "un_pathname e1 = un_pathname e" "un_redoflag e1 = (\<not> w)"
  using assms path_Join_dir [OF assms(1), of "un_pathname e"]
  by (auto simp: swap_row_def Let_def restore_file_at row_file_def read_current_file split: option.splits)

text \<open>When the paths differ, every file and its row change places and other files stay.\<close>

definition swapped :: "bytes \<Rightarrow> bool \<Rightarrow> undo_row list \<Rightarrow> MemStorage \<Rightarrow> undo_row list \<Rightarrow> MemStorage \<Rightarrow> bool" where
  "swapped dir w es m es1 m1 \<longleftrightarrow>
     map (row_path dir) es1 = map (row_path dir) es \<and> (\<forall>e \<in> set es1. un_redoflag e = (\<not> w)) \<and>
     map row_file es1 = map (\<lambda>e. file_at m (row_path dir e)) es \<and> map row_file es = map (\<lambda>e. file_at m1 (row_path dir e)) es \<and>
     (\<forall>q. q \<notin> row_path dir ` set es \<longrightarrow> file_at m1 q = file_at m q)"

lemma swap_rows_swapped:
  assumes "dir \<noteq> []" "distinct (map (row_path dir) es)" "\<forall>e \<in> set es. un_redoflag e = w" "swap_rows dir w es m = (m1, es1)"
  shows "swapped dir w es m es1 m1"
  using assms(2-4)
proof (induction es arbitrary: m m1 es1)
  case (Cons e es)
  obtain m0 e1 where h: "swap_row dir w e m = (m0, e1)" by fastforce
  obtain es2 where t: "swap_rows dir w es m0 = (m1, es2)" "es1 = e1 # es2"
    using Cons.prems(2,3) h by (auto split: prod.splits)
  note ih = Cons.IH [OF _ _ t(1), unfolded swapped_def] and hp = swap_row_parts [OF assms(1) h]
  have new: "row_path dir e \<notin> row_path dir ` set es" using Cons.prems(1) by auto
  then have "map (\<lambda>e. file_at m0 (row_path dir e)) es = map (\<lambda>e. file_at m (row_path dir e)) es"
    by (intro map_cong refl) (use hp(1) in \<open>auto simp: image_iff\<close>)
  with ih Cons.prems new show ?case by (auto simp: swapped_def t(2) hp)
qed (simp add: swapped_def)

text \<open>The rows that hold the files as they are.\<close>

lemma undo_rows_Ok:
  "undo_rows m dir vs = Ok rows \<Longrightarrow> dir \<noteq> [] \<Longrightarrow>
   map un_pathname rows = map vf_pathname vs \<and> (\<forall>e \<in> set rows. \<not> un_redoflag e \<and> row_file e = file_at m (row_path dir e))"
proof (induction vs arbitrary: rows)
  case (Cons v vs)
  then obtain r rs where r: "undo_row_of m dir v = Ok r" "undo_rows m dir vs = Ok rs" "rows = r # rs" by (auto simp: bind_ok_eq_Ok)
  have "un_pathname r = vf_pathname v \<and> \<not> un_redoflag r \<and> row_file r = file_at m (row_path dir r)"
    using r(1) path_Join_dir [OF Cons.prems(2), of "vf_pathname v"]
    by (auto simp: undo_row_of_def bind_ok_eq_Ok read_current_file row_file_def split: option.splits)
  with Cons.IH [OF r(2) Cons.prems(2)] r(3) show ?case by simp
qed simp

section \<open>Undo and Redo\<close>

lemma map_of_delete_vvar: "map_of (delete_vvar n vv) m = (if m = n then None else map_of vv m)"
  unfolding delete_vvar_def by (induction vv) auto

lemma map_of_save_vvar:
  "map_of (save_vvar vv) m =
     (if m = ''undo_available'' then Some ''1'' else if m = ''undo_checkout'' then map_of vv ''checkout'' else map_of vv m)"
  by (auto simp: save_vvar_def Let_def map_of_replace_vvar map_of_delete_vvar split: option.split)

text \<open>What other operations keep of a saved state.\<close>

definition keeps_undo :: "undo_db \<Rightarrow> undo_db \<Rightarrow> bool" where
  "keeps_undo s s' \<longleftrightarrow>
     ud_undo s' = ud_undo s \<and> ud_undo_vfile s' = ud_undo_vfile s \<and> ud_undo_vmerge s' = ud_undo_vmerge s \<and>
     (\<forall>n \<in> {''undo_available'', ''undo_checkout''}. map_of (ud_vvar s') n = map_of (ud_vvar s) n)"

text \<open>One swap, in either direction.\<close>

lemma swapState_Ok:
  assumes "dir \<noteq> []" "map_of (ud_vvar s) ''undo_available'' = Some (if redo then ''2'' else ''1'')" "ud_undo s = Some rows"
    and "distinct (map (row_path dir) rows)" "\<forall>e \<in> set rows. un_redoflag e = redo"
    and "ud_undo_vfile s = Some vs" "ud_undo_vmerge s = Some ms"
    and "map_of (ud_vvar s) ''checkout'' = Some cur" "map_of (ud_vvar s) ''undo_checkout'' = Some old"
  obtains s1 rows1 where "swapState dir redo s = (s1, Ok ())" "swapped dir redo rows (ud_disk s) rows1 (ud_disk s1)"
    "ud_undo s1 = Some rows1" "ud_vfile s1 = vs" "ud_vmerge s1 = ms" "ud_undo_vfile s1 = Some (ud_vfile s)"
    "ud_undo_vmerge s1 = Some (ud_vmerge s)"
    "map_of (ud_vvar s1) = (map_of (ud_vvar s))(''checkout'' \<mapsto> old, ''undo_checkout'' \<mapsto> cur, ''undo_available'' \<mapsto> if redo then ''1'' else ''2'')"
proof -
  obtain m rows1 where r: "swap_rows dir redo rows (ud_disk s) = (m, rows1)" by fastforce
  have sw: "swapped dir redo rows (ud_disk s) rows1 m" by (rule swap_rows_swapped [OF assms(1,4,5) r])
  define vv where "vv = replace_vvar ''undo_available'' (if redo then ''1'' else ''2'')
    (replace_vvar ''undo_checkout'' cur (replace_vvar ''checkout'' old (ud_vvar s)))"
  have "map_of vv = (map_of (ud_vvar s))(''checkout'' \<mapsto> old, ''undo_checkout'' \<mapsto> cur, ''undo_available'' \<mapsto> if redo then ''1'' else ''2'')"
    by (rule ext) (simp add: vv_def map_of_replace_vvar)
  moreover define s1 where "s1 = s\<lparr>ud_disk := m, ud_undo := Some rows1, ud_vfile := vs, ud_undo_vfile := Some (ud_vfile s), ud_vmerge := ms,
     ud_undo_vmerge := Some (ud_vmerge s), ud_vvar := vv\<rparr>"
  moreover have "swapState dir redo s = (s1, Ok ())"
    using assms(2-9) r by (cases redo) (simp_all add: swapState_def swapCheckout_def vv_def s1_def)
  ultimately show thesis using sw by (intro that [of s1 rows1]) (simp_all add: s1_def)
qed

lemma swapped_twice:
  assumes "swapped dir w es m es1 m1" "swapped dir w' es1 m1 es2 m2"
  shows "file_at m2 = file_at m"
proof
  fix q
  have paths: "row_path dir ` set es1 = row_path dir ` set es" "map (row_path dir) es1 = map (row_path dir) es"
    using assms(1) by (auto simp: swapped_def) (metis imageI image_set)+
  show "file_at m2 q = file_at m q"
  proof (cases "q \<in> row_path dir ` set es")
    case True
    then obtain i where i: "i < length es" "q = row_path dir (es ! i)" by (auto simp: in_set_conv_nth)
    have len: "length es1 = length es" using paths(2) by (metis length_map)
    have "row_path dir (es1 ! i) = q" using i len paths(2) by (metis nth_map)
    moreover have "row_file (es1 ! i) = file_at m (row_path dir (es ! i))" "row_file (es1 ! i) = file_at m2 (row_path dir (es1 ! i))"
      using assms i(1) len by (auto simp: swapped_def list_eq_iff_nth_eq)
    ultimately show ?thesis using i(2) by simp
  next
    case False
    then show ?thesis using assms paths(1) by (simp add: swapped_def)
  qed
qed

text \<open>
  Claim C26.  Whatever has changed since a save, an undo restores the saved files, tables and version and leaves
  other files alone, and a redo then gives back exactly what the undo had replaced.
\<close>

theorem Undo_Redo:
  assumes "Save_undo dir pathnames s = (s1, Ok ())" "keeps_undo s1 s2"
    and "map_of (ud_vvar s) ''checkout'' \<noteq> None" "map_of (ud_vvar s2) ''checkout'' \<noteq> None"
    and "distinct (map (\<lambda>v. path_Join dir (vf_pathname v)) (saved_rows (ud_vfile s) pathnames))"
  shows "\<exists>s3 s4. Undo_swap dir s2 = (s3, Ok ()) \<and> Redo_swap dir s3 = (s4, Ok ()) \<and>
    (\<forall>q. file_at (ud_disk s3) q =
       (if q \<in> (\<lambda>v. path_Join dir (vf_pathname v)) ` set (saved_rows (ud_vfile s) pathnames)
        then file_at (ud_disk s) q else file_at (ud_disk s2) q)) \<and>
    ud_vfile s3 = ud_vfile s \<and> ud_vmerge s3 = ud_vmerge s \<and> map_of (ud_vvar s3) ''checkout'' = map_of (ud_vvar s) ''checkout'' \<and>
    file_at (ud_disk s4) = file_at (ud_disk s2) \<and> ud_vfile s4 = ud_vfile s2 \<and> ud_vmerge s4 = ud_vmerge s2 \<and>
    map_of (ud_vvar s4) = map_of (ud_vvar s2)"
proof -
  let ?vs = "saved_rows (ud_vfile s) pathnames"
  from assms(1) obtain rows where dir: "dir \<noteq> []" and rows: "undo_rows (ud_disk s) dir ?vs = Ok rows"
    and s1: "s1 = s\<lparr>ud_undo := Some rows, ud_undo_vfile := Some (ud_vfile s), ud_undo_vmerge := Some (ud_vmerge s), ud_vvar := save_vvar (ud_vvar s)\<rparr>"
    by (auto simp: Save_undo_def split: if_splits outcome.splits)
  note old = undo_rows_Ok [OF rows dir]
  have "map (path_Join dir) (map un_pathname rows) = map (path_Join dir) (map vf_pathname ?vs)" using old by simp
  then have paths: "map (row_path dir) rows = map (\<lambda>v. path_Join dir (vf_pathname v)) ?vs" by (simp add: comp_def)
  obtain cur where cur: "map_of (ud_vvar s2) ''checkout'' = Some cur" using assms(4) by blast
  obtain prev where prev: "map_of (ud_vvar s) ''checkout'' = Some prev" using assms(3) by blast
  have s2: "ud_undo s2 = Some rows" "ud_undo_vfile s2 = Some (ud_vfile s)" "ud_undo_vmerge s2 = Some (ud_vmerge s)"
    "map_of (ud_vvar s2) ''undo_available'' = Some (if False then ''2'' else ''1'')"
    "map_of (ud_vvar s2) ''undo_checkout'' = Some prev"
    using assms(2) prev by (auto simp: keeps_undo_def s1 map_of_save_vvar)
  have d0: "distinct (map (row_path dir) rows)" "\<forall>e \<in> set rows. un_redoflag e = False" using assms(5) old by (simp_all add: paths)
  obtain s3 rows1 where u: "swapState dir False s2 = (s3, Ok ())" "swapped dir False rows (ud_disk s2) rows1 (ud_disk s3)"
    "ud_undo s3 = Some rows1" "ud_vfile s3 = ud_vfile s" "ud_vmerge s3 = ud_vmerge s" "ud_undo_vfile s3 = Some (ud_vfile s2)"
    "ud_undo_vmerge s3 = Some (ud_vmerge s2)"
    "map_of (ud_vvar s3) = (map_of (ud_vvar s2))(''checkout'' \<mapsto> prev, ''undo_checkout'' \<mapsto> cur, ''undo_available'' \<mapsto> ''2'')"
    by (rule swapState_Ok [OF dir s2(4,1) d0 s2(2,3) cur s2(5), unfolded if_False])
  have d1: "distinct (map (row_path dir) rows1)" "\<forall>e \<in> set rows1. un_redoflag e = True"
    "map_of (ud_vvar s3) ''undo_available'' = Some (if True then ''2'' else ''1'')"
    "map_of (ud_vvar s3) ''checkout'' = Some prev" "map_of (ud_vvar s3) ''undo_checkout'' = Some cur"
    using u(2) d0(1) by (simp_all add: swapped_def u(8))
  obtain s4 rows2 where r: "swapState dir True s3 = (s4, Ok ())" "swapped dir True rows1 (ud_disk s3) rows2 (ud_disk s4)"
    "ud_vfile s4 = ud_vfile s2" "ud_vmerge s4 = ud_vmerge s2"
    "map_of (ud_vvar s4) = (map_of (ud_vvar s3))(''checkout'' \<mapsto> cur, ''undo_checkout'' \<mapsto> prev, ''undo_available'' \<mapsto> ''1'')"
    by (rule swapState_Ok [OF dir d1(3) u(3) d1(1,2) u(6,7) d1(4,5), unfolded if_True])
  have disk: "file_at (ud_disk s3) q = (if q \<in> (\<lambda>v. path_Join dir (vf_pathname v)) ` set ?vs then file_at (ud_disk s) q else file_at (ud_disk s2) q)" for q
  proof -
    have eq: "(\<lambda>v. path_Join dir (vf_pathname v)) ` set ?vs = row_path dir ` set rows" using arg_cong [OF paths, of set] by simp
    show ?thesis unfolding eq using u(2) old by (auto simp: swapped_def)
  qed
  have "map_of (ud_vvar s4) = map_of (ud_vvar s2)" using cur s2(4,5) by (auto simp: r(5) u(8) fun_eq_iff)
  moreover have "map_of (ud_vvar s3) ''checkout'' = map_of (ud_vvar s) ''checkout''" by (simp add: u(8) prev)
  ultimately show ?thesis
    using u(1,4,5) r(1,3,4) disk swapped_twice [OF u(2) r(2)] dir by (auto simp: Undo_swap_def Redo_swap_def)
qed

section \<open>Instances\<close>

definition toy_undo :: undo_db where
  "toy_undo = \<lparr>ud_vvar = [(''checkout'', ''3'')], ud_vfile = [tracked_row 3 \<lparr>fe_Name = ''a'', fe_UUID = ''u'', fe_Perm = []\<rparr> 2],
     ud_vmerge = [], ud_undo = None, ud_undo_vfile = None, ud_undo_vmerge = None,
     ud_disk = \<lparr>ms_files = [(''/w/a'', ''one'')], ms_dirs = [], ms_mtimes = []\<rparr>\<rparr>"

text \<open>An update to another version that removes the file and its row, undone and redone.\<close>

definition toy_updated :: "undo_db \<Rightarrow> undo_db" where
  "toy_updated s = s\<lparr>ud_vvar := replace_vvar ''checkout'' ''5'' (ud_vvar s), ud_vfile := [], ud_disk := fst (Remove_mem ''/w/a'' (ud_disk s))\<rparr>"

theorem Undo_Redo_witness:
  "\<exists>s3 s4. Undo_swap ''/w'' (toy_updated (fst (Save_undo ''/w'' [] toy_undo))) = (s3, Ok ()) \<and> Redo_swap ''/w'' s3 = (s4, Ok ()) \<and>
     file_at (ud_disk s3) ''/w/a'' = Some ''one'' \<and> map_of (ud_vvar s3) ''checkout'' = Some ''3'' \<and>
     file_at (ud_disk s4) ''/w/a'' = None \<and> map_of (ud_vvar s4) ''checkout'' = Some ''5''"
proof -
  have p: "path_Join ''/w'' ''a'' = ''/w/a''" by code_simp
  obtain s1 where s1: "Save_undo ''/w'' [] toy_undo = (s1, Ok ())" "ud_vvar s1 = save_vvar (ud_vvar toy_undo)" "ud_disk s1 = ud_disk toy_undo"
    by (simp add: Save_undo_def toy_undo_def saved_rows_def tracked_row_def undo_row_of_def scan_bool_def p read_current_file file_at_def)
  let ?s2 = "toy_updated s1"
  have vv: "map_of (ud_vvar ?s2) n = (if n = ''checkout'' then Some ''5'' else map_of (ud_vvar s1) n)" for n
    by (simp add: toy_updated_def map_of_replace_vvar)
  have "keeps_undo s1 ?s2" by (simp add: keeps_undo_def vv) (simp add: toy_updated_def)
  from Undo_Redo [OF s1(1) this] obtain s3 s4 where r: "Undo_swap ''/w'' ?s2 = (s3, Ok ())" "Redo_swap ''/w'' s3 = (s4, Ok ())"
    "\<forall>q. file_at (ud_disk s3) q = (if q = ''/w/a'' then file_at (ud_disk toy_undo) q else file_at (ud_disk ?s2) q)"
    "map_of (ud_vvar s3) ''checkout'' = Some ''3''" "file_at (ud_disk s4) = file_at (ud_disk ?s2)" "map_of (ud_vvar s4) = map_of (ud_vvar ?s2)"
    by (auto simp: vv saved_rows_def) (auto simp: toy_undo_def tracked_row_def p)
  have "file_at (ud_disk ?s2) ''/w/a'' = None" by (simp add: toy_updated_def mem.rd_rm)
  with r vv show ?thesis by (simp add: s1(1)) (simp add: toy_undo_def file_at_def)
qed

end
