(* ===== verification/Stash.thy ===== *)
theory Stash
  imports Undo
begin

text \<open>
  Stashing the changes of a checkout (\<open>internal/stash/stash.go\<close>): \<open>Save\<close> records each changed file
  as a delta against its stored content and reverts it, \<open>Pop\<close> writes the files back.  As for
  \<open>Undo\<close>, the host's files are those of \<open>Storage\<close>.  The two tables of the stash are created together.
\<close>

section \<open>State\<close>

record stash_row =
  st_stashid :: int
  st_hash :: bytes
  st_comment :: bytes
  st_ctime :: bytes

record stashfile_row =
  sf_stashid :: int
  sf_isAdded :: bool
  sf_isRemoved :: bool
  sf_isExec :: bool
  sf_isLink :: bool
  sf_hash :: "bytes option"
  sf_origname :: bytes
  sf_newname :: bytes
  sf_delta :: bytes

record stash_db =
  sd_repo :: repo
  sd_vvar :: vvar
  sd_vfile :: "vfile_row list"
  sd_tables :: "(stash_row list \<times> stashfile_row list) option"
  sd_disk :: MemStorage

datatype stash_error =
    StashSql sql_error | BadStashNext bytes | NoChanges | StashStorage storage_error | StashContent content_error
  | StashBlob blob_error | StashDelta delta_error | MissingHash bytes | BaselineUnknown bytes | StashNotFound int | NoStash | NoStashTable

type_synonym 'a stash_act = "stash_db \<Rightarrow> stash_db \<times> (stash_error, 'a) outcome"

definition EnsureTables_stash :: "stash_db \<Rightarrow> stash_db" where
  "EnsureTables_stash s = (if sd_tables s = None then s\<lparr>sd_tables := Some ([], [])\<rparr> else s)"

text \<open>A transaction of the checkout database: its tables go back on failure, the files do not.\<close>

definition stash_tx :: "'a stash_act \<Rightarrow> 'a stash_act" where
  "stash_tx f s = (case f s of (s1, Ok x) \<Rightarrow> (s1, Ok x) | (s1, res) \<Rightarrow> (s\<lparr>sd_disk := sd_disk s1\<rparr>, res))"

text \<open>\<open>FormatInt(id+1, 10)\<close>: the sum wraps.\<close>

definition nextStashID :: "int stash_act" where
  "nextStashID s =
     (case map_of (sd_vvar s) ''stash-next'' of
        None \<Rightarrow> (s\<lparr>sd_vvar := (''stash-next'', ''2'') # sd_vvar s\<rparr>, Ok 1)
      | Some val \<Rightarrow>
          (case Atoi val of
             None \<Rightarrow> (s, Err (BadStashNext val))
           | Some n \<Rightarrow>
               (s\<lparr>sd_vvar := replace_vvar ''stash-next'' (show_int (sint (word_of_int (n + 1) :: 64 word))) (sd_vvar s)\<rparr>, Ok n)))"

section \<open>Save\<close>

record changedFile =
  cf_pathname :: bytes
  cf_rid :: rid
  cf_chnged :: int
  cf_deleted :: int
  cf_isExec :: bool
  cf_isLink :: bool

definition snapshotChangedFiles :: "vfile_row list \<Rightarrow> changedFile list" where
  "snapshotChangedFiles vs =
     map (\<lambda>v. \<lparr>cf_pathname = vf_pathname v, cf_rid = vf_rid v, cf_chnged = vf_chnged v, cf_deleted = vf_deleted v,
            cf_isExec = (vf_isexe v \<noteq> 0), cf_isLink = (vf_islink v \<noteq> 0)\<rparr>)
       (filter (\<lambda>v. vf_chnged v = 1 \<or> vf_deleted v = 1 \<or> vf_rid v = 0) vs)"

definition nullStr :: "bytes \<Rightarrow> bytes option" where
  "nullStr s = (if s = [] then None else Some s)"

definition uuid_of_rid :: "rid \<Rightarrow> bytes stash_act" where
  "uuid_of_rid r s = (s, case blob_by_rid (sd_repo s) r of None \<Rightarrow> Err (StashSql NoRows) | Some b \<Rightarrow> Ok (bl_uuid b))"

definition expand_rid :: "libs \<Rightarrow> rid \<Rightarrow> bytes stash_act" where
  "expand_rid L r s = (s, wrap_err StashContent (expand L (sd_repo s) r))"

definition read_host :: "bytes \<Rightarrow> bytes stash_act" where
  "read_host p s = (s, wrap_err StashStorage (ReadFile (sd_disk s) p))"

definition write_host :: "bytes \<Rightarrow> bytes \<Rightarrow> unit stash_act" where
  "write_host p data s = (s\<lparr>sd_disk := fst (WriteFile p data plain_perm (sd_disk s))\<rparr>, wrap_err StashStorage (snd (WriteFile p data plain_perm (sd_disk s))))"

definition mkdir_host :: "bytes \<Rightarrow> unit stash_act" where
  "mkdir_host p = change (\<lambda>s. s\<lparr>sd_disk := fst (MkdirAll (Dir p) exec_perm (sd_disk s))\<rparr>)"

text \<open>A file that is not there is no error of a removal.\<close>

definition remove_host :: "bytes \<Rightarrow> unit stash_act" where
  "remove_host p s = (s\<lparr>sd_disk := fst (Remove_mem p (sd_disk s))\<rparr>, case snd (Remove_mem p (sd_disk s)) of Panic t \<Rightarrow> Panic t | _ \<Rightarrow> Ok ())"

definition update_paths :: "bytes \<Rightarrow> (vfile_row \<Rightarrow> vfile_row) \<Rightarrow> unit stash_act" where
  "update_paths n f = change (\<lambda>s. s\<lparr>sd_vfile := map (\<lambda>v. if vf_pathname v = n then f v else v) (sd_vfile s)\<rparr>)"

definition delete_paths :: "bytes \<Rightarrow> unit stash_act" where
  "delete_paths n = change (\<lambda>s. s\<lparr>sd_vfile := filter (\<lambda>v. vf_pathname v \<noteq> n) (sd_vfile s)\<rparr>)"

text \<open>\<open>Create\<close> has no result only when it does not end, which does not happen.\<close>

definition make_delta :: "bytes \<Rightarrow> bytes \<Rightarrow> bytes stash_act" where
  "make_delta baseline working s = (s, case Create baseline working of None \<Rightarrow> Panic ''no result'' | Some d \<Rightarrow> Ok d)"

text \<open>The baseline hash and the delta of a file.\<close>

definition stash_content :: "libs \<Rightarrow> bytes \<Rightarrow> changedFile \<Rightarrow> (bytes \<times> bytes) stash_act" where
  "stash_content L fullPath f =
     (if cf_rid f = 0 then chain (read_host fullPath) (\<lambda>data. ret ([], data))
      else if cf_deleted f = 1 then chain (uuid_of_rid (cf_rid f)) (\<lambda>uuid. ret (uuid, []))
      else chain (uuid_of_rid (cf_rid f)) (\<lambda>uuid.
           chain (expand_rid L (cf_rid f)) (\<lambda>baseline.
           chain (read_host fullPath) (\<lambda>working.
           chain (make_delta baseline working) (\<lambda>d. ret (uuid, d))))))"

definition insert_stashfile :: "stashfile_row \<Rightarrow> unit stash_act" where
  "insert_stashfile r s =
     (case sd_tables s of
        None \<Rightarrow> (s, Err NoStashTable)
      | Some (st, sf) \<Rightarrow>
          if list_ex (\<lambda>x. sf_newname x = sf_newname r \<and> sf_stashid x = sf_stashid r) sf then (s, Err (StashSql UniqueFailed))
          else (s\<lparr>sd_tables := Some (st, sf @ [r])\<rparr>, Ok ()))"

definition revert_stashed :: "libs \<Rightarrow> bytes \<Rightarrow> changedFile \<Rightarrow> unit stash_act" where
  "revert_stashed L fullPath f =
     (if cf_rid f = 0 then chain (remove_host fullPath) (\<lambda>_. delete_paths (cf_pathname f))
      else if cf_deleted f = 1
           then chain (expand_rid L (cf_rid f)) (\<lambda>baseline.
                chain (mkdir_host fullPath) (\<lambda>_.
                chain (write_host fullPath baseline) (\<lambda>_.
                update_paths (cf_pathname f) (\<lambda>v. v\<lparr>vf_deleted := 0, vf_chnged := 0\<rparr>))))
      else chain (expand_rid L (cf_rid f)) (\<lambda>baseline.
           chain (write_host fullPath baseline) (\<lambda>_.
           update_paths (cf_pathname f) (\<lambda>v. v\<lparr>vf_chnged := 0\<rparr>))))"

definition store_file :: "libs \<Rightarrow> bytes \<Rightarrow> int \<Rightarrow> changedFile \<Rightarrow> unit stash_act" where
  "store_file L dir stashID f =
     (let fullPath = path_Join dir (cf_pathname f) in
      chain (stash_content L fullPath f) (\<lambda>(baselineHash, deltaBytes).
      chain (insert_stashfile \<lparr>sf_stashid = stashID, sf_isAdded = (cf_rid f = 0), sf_isRemoved = (cf_deleted f = 1),
               sf_isExec = cf_isExec f, sf_isLink = cf_isLink f, sf_hash = nullStr baselineHash, sf_origname = cf_pathname f,
               sf_newname = cf_pathname f, sf_delta = deltaBytes\<rparr>) (\<lambda>_.
      revert_stashed L fullPath f)))"

definition storeAndRevertFiles :: "libs \<Rightarrow> bytes \<Rightarrow> int \<Rightarrow> changedFile list \<Rightarrow> unit stash_act" where
  "storeAndRevertFiles L dir stashID files = for_each (store_file L dir stashID) files"

definition insert_stash :: "stash_row \<Rightarrow> unit stash_act" where
  "insert_stash r s =
     (case sd_tables s of
        None \<Rightarrow> (s, Err NoStashTable)
      | Some (st, sf) \<Rightarrow>
          if st_stashid r \<in> st_stashid ` set st then (s, Err (StashSql UniqueFailed))
          else (s\<lparr>sd_tables := Some (st @ [r], sf)\<rparr>, Ok ()))"

definition save_in_tx :: "libs \<Rightarrow> bytes \<Rightarrow> bytes \<Rightarrow> bytes \<Rightarrow> unit stash_act" where
  "save_in_tx L now dir comment =
     chain nextStashID (\<lambda>stashID s.
     chain (insert_stash \<lparr>st_stashid = stashID, st_hash = getVVar (sd_vvar s) ''checkout-hash'', st_comment = comment, st_ctime = now\<rparr>) (\<lambda>_ s.
       let files = snapshotChangedFiles (sd_vfile s) in
       if files = [] then (s, Err NoChanges) else storeAndRevertFiles L dir stashID files s) s)"

definition Save_stash :: "libs \<Rightarrow> bytes \<Rightarrow> bytes \<Rightarrow> bytes \<Rightarrow> unit stash_act" where
  "Save_stash L now dir comment s =
     (if dir = [] then (s, Panic ''stash.Save: dir must not be empty'')
      else stash_tx (save_in_tx L now dir comment) (EnsureTables_stash s))"

section \<open>Apply, Pop, List, Drop, Clear\<close>

definition apply_file :: "libs \<Rightarrow> bytes \<Rightarrow> stashfile_row \<Rightarrow> unit stash_act" where
  "apply_file L dir r =
     (let fullPath = path_Join dir (sf_newname r) in
      if sf_isAdded r then chain (mkdir_host fullPath) (\<lambda>_. write_host fullPath (sf_delta r))
      else if sf_isRemoved r then remove_host fullPath
      else (case sf_hash r of
              None \<Rightarrow> (\<lambda>s. (s, Err (MissingHash (sf_newname r))))
            | Some h \<Rightarrow>
                (\<lambda>s. chain (call StashBlob (Exists (sd_repo s) h)) (\<lambda>found s.
                   case found of
                     None \<Rightarrow> (s, Err (BaselineUnknown h))
                   | Some rd \<Rightarrow>
                       chain (expand_rid L rd) (\<lambda>baseline.
                       chain (call StashDelta (Apply baseline (sf_delta r))) (\<lambda>res. write_host fullPath res)) s) s)))"

definition Apply_stash :: "libs \<Rightarrow> bytes \<Rightarrow> int \<Rightarrow> unit stash_act" where
  "Apply_stash L dir stashID s =
     (if dir = [] then (s, Panic ''stash.Apply: dir must not be empty'')
      else if stashID \<le> 0 then (s, Panic ''stash.Apply: stashID must be positive'')
      else case sd_tables s of
        None \<Rightarrow> (s, Err NoStashTable)
      | Some (st, sf) \<Rightarrow>
          let rows = filter (\<lambda>r. sf_stashid r = stashID) sf in
          chain (for_each (apply_file L dir) rows) (\<lambda>_ s. (s, if rows = [] then Err (StashNotFound stashID) else Ok ())) s)"

definition Drop_stash :: "int \<Rightarrow> unit stash_act" where
  "Drop_stash stashID s =
     (if stashID \<le> 0 then (s, Panic ''stash.Drop: stashID must be positive'')
      else case sd_tables s of
        None \<Rightarrow> (s, Err NoStashTable)
      | Some (st, sf) \<Rightarrow>
          if stashID \<notin> st_stashid ` set st then (s, Err (StashNotFound stashID))
          else (s\<lparr>sd_tables := Some (filter (\<lambda>r. st_stashid r \<noteq> stashID) st, filter (\<lambda>r. sf_stashid r \<noteq> stashID) sf)\<rparr>, Ok ()))"

definition Pop_stash :: "libs \<Rightarrow> bytes \<Rightarrow> unit stash_act" where
  "Pop_stash L dir s =
     (if dir = [] then (s, Panic ''stash.Pop: dir must not be empty'')
      else case sd_tables s of
        None \<Rightarrow> (s, Err NoStashTable)
      | Some ([], sf) \<Rightarrow> (s, Err NoStash)
      | Some (r # st, sf) \<Rightarrow>
          let stashID = foldr max (map st_stashid st) (st_stashid r) in
          chain (Apply_stash L dir stashID) (\<lambda>_. Drop_stash stashID) s)"

definition List_stash :: "stash_db \<Rightarrow> stash_db \<times> stash_row list" where
  "List_stash s =
     (let s1 = EnsureTables_stash s in
      (s1, sort_key (\<lambda>r. - st_stashid r) (case sd_tables s1 of None \<Rightarrow> [] | Some (st, _) \<Rightarrow> st)))"

definition Clear_stash :: "unit stash_act" where
  "Clear_stash s =
     (case sd_tables s of None \<Rightarrow> (s, Err NoStashTable) | Some _ \<Rightarrow> (s\<lparr>sd_tables := Some ([], [])\<rparr>, Ok ()))"

section \<open>What Save records and Pop restores\<close>

definition same_db :: "stash_db \<Rightarrow> stash_db \<Rightarrow> bool" where
  "same_db s s' \<longleftrightarrow> sd_repo s' = sd_repo s \<and> sd_vvar s' = sd_vvar s \<and> sd_vfile s' = sd_vfile s \<and> sd_tables s' = sd_tables s"

abbreviation disk_file :: "stash_db \<Rightarrow> bytes \<Rightarrow> bytes option" where
  "disk_file s \<equiv> file_at (sd_disk s)"

abbreviation file_path :: "bytes \<Rightarrow> changedFile \<Rightarrow> bytes" where
  "file_path dir f \<equiv> path_Join dir (cf_pathname f)"

text \<open>All contents fit in memory.\<close>

definition fits :: "libs \<Rightarrow> stash_db \<Rightarrow> bool" where
  "fits L s \<longleftrightarrow>
     (\<forall>p d. disk_file s p = Some d \<longrightarrow> length d \<le> max_alloc) \<and>
     (\<forall>r c. expand L (sd_repo s) r = Ok c \<longrightarrow> length c \<le> max_alloc)"

text \<open>What a popped file is: as it was, and a removed one is gone.\<close>

definition popped :: "changedFile \<Rightarrow> bytes option \<Rightarrow> bytes option" where
  "popped f was = (if cf_rid f \<noteq> 0 \<and> cf_deleted f = 1 then None else was)"

text \<open>What a stashed file is on disk: its stored content, and an added one is gone.\<close>

definition reverted :: "libs \<Rightarrow> repo \<Rightarrow> changedFile \<Rightarrow> bytes option \<Rightarrow> bool" where
  "reverted L q f now \<longleftrightarrow> (if cf_rid f = 0 then now = None else \<exists>c. expand L q (cf_rid f) = Ok c \<and> now = Some c)"

text \<open>Applying the row \<open>r\<close> gives the file \<open>p\<close> the content \<open>w\<close>, whatever the files are.\<close>

definition restores :: "libs \<Rightarrow> repo \<Rightarrow> bytes \<Rightarrow> bytes \<Rightarrow> stashfile_row \<Rightarrow> bytes option \<Rightarrow> bool" where
  "restores L q dir p r w \<longleftrightarrow>
     (\<forall>s. sd_repo s = q \<longrightarrow> (\<exists>s'. apply_file L dir r s = (s', Ok ()) \<and> same_db s s' \<and> disk_file s' = (disk_file s)(p := w)))"

lemma write_host_run: "p \<noteq> [] \<Longrightarrow> \<exists>s'. write_host p d s = (s', Ok ()) \<and> same_db s s' \<and> disk_file s' = (disk_file s)(p := Some d)"
  by (simp add: write_host_def same_db_def WriteFile_def file_at_def update_conv' fun_eq_iff)

lemma remove_host_run: "p \<noteq> [] \<Longrightarrow> \<exists>s'. remove_host p s = (s', Ok ()) \<and> same_db s s' \<and> disk_file s' = (disk_file s)(p := None)"
  using mem.rd_rm [of p "sd_disk s"] by (auto simp: remove_host_def same_db_def fun_eq_iff Remove_mem_def)

lemma mkdir_host_run: "\<exists>s'. mkdir_host p s = (s', Ok ()) \<and> same_db s s' \<and> disk_file s' = disk_file s"
  by (simp add: mkdir_host_def change_def same_db_def)

lemma restores_written:
  assumes "path_Join dir (sf_newname r) = p" "dir \<noteq> []"
    and "\<And>s. sd_repo s = q \<Longrightarrow> \<exists>s1. apply_file L dir r s = write_host p w s1 \<and> same_db s s1 \<and> disk_file s1 = disk_file s"
  shows "restores L q dir p r (Some w)"
  unfolding restores_def
proof (intro allI impI)
  fix s :: stash_db assume "sd_repo s = q"
  with assms(3) obtain s1 where s1: "apply_file L dir r s = write_host p w s1" "same_db s s1" "disk_file s1 = disk_file s" by blast
  have "p \<noteq> []" using assms(1,2) path_Join_dir by blast
  from write_host_run [OF this, of w s1] s1
  show "\<exists>s'. apply_file L dir r s = (s', Ok ()) \<and> same_db s s' \<and> disk_file s' = (disk_file s)(p := Some w)"
    by (auto simp: same_db_def)
qed

text \<open>The content recorded for a file restores it.\<close>

lemma recorded_restores:
  assumes "dir \<noteq> []" "wf_repo (sd_repo s)" "fits L s" "stash_content L (file_path dir f) f s = (s1, Ok (h, d))"
    and r: "sf_isAdded r = (cf_rid f = 0)" "sf_isRemoved r = (cf_deleted f = 1)" "sf_hash r = nullStr h" "sf_newname r = cf_pathname f"
      "sf_delta r = d"
  shows "s1 = s \<and> restores L (sd_repo s) dir (file_path dir f) r (popped f (disk_file s (file_path dir f)))"
proof -
  let ?p = "file_path dir f"
  have p: "?p \<noteq> []" using path_Join_dir [OF assms(1)] .
  consider (added) "cf_rid f = 0" | (removed) "cf_rid f \<noteq> 0" "cf_deleted f = 1" | (modified) "cf_rid f \<noteq> 0" "cf_deleted f \<noteq> 1" by blast
  then show ?thesis
  proof cases
    case added
    then have d: "s1 = s" "disk_file s ?p = Some d"
      using assms(4) p by (auto simp: stash_content_def chain_Ok read_host_def ret_def ReadFile_eq split: option.splits)
    have "restores L (sd_repo s) dir ?p r (Some d)"
    proof (rule restores_written)
      fix s' :: stash_db
      show "\<exists>s1. apply_file L dir r s' = write_host ?p d s1 \<and> same_db s' s1 \<and> disk_file s1 = disk_file s'"
        using added mkdir_host_run [of ?p s'] by (auto simp: apply_file_def r chain_def Let_def)
    qed (simp_all add: r assms(1))
    with d added show ?thesis by (simp add: popped_def)
  next
    case removed
    then have "s1 = s" using assms(4) by (auto simp: stash_content_def chain_Ok uuid_of_rid_def ret_def)
    moreover have "restores L (sd_repo s) dir ?p r None"
      using removed remove_host_run [OF p] by (simp add: restores_def apply_file_def r)
    ultimately show ?thesis using removed by (simp add: popped_def)
  next
    case modified
    then obtain b base work where m: "blob_by_rid (sd_repo s) (cf_rid f) = Some b" "h = bl_uuid b" "expand L (sd_repo s) (cf_rid f) = Ok base"
      "disk_file s ?p = Some work" "Create base work = Some d" "s1 = s"
      using assms(4) p by (auto simp: stash_content_def chain_Ok uuid_of_rid_def expand_rid_def read_host_def make_delta_def ret_def ReadFile_eq
          split: option.splits)
    then have size: "length base \<le> max_alloc" "length work \<le> max_alloc" using assms(3) by (auto simp: fits_def)
    then have "length base < 2 ^ 64" by (simp add: max_alloc_def)
    with m(5) size(2) have ap: "Apply base d = Ok work" by (intro Apply_Create)
    have b: "h \<noteq> []" "blob_by_uuid (sd_repo s) h = Some b" "bl_rid b = cf_rid f"
      using blob_by_rid_Some [OF m(1)] assms(2) by (auto simp: m(2) wf_repo_def list_all_iff blob_by_uuid_def find_distinct_key)
    have "restores L (sd_repo s) dir ?p r (Some work)"
    proof (rule restores_written)
      fix s' :: stash_db assume "sd_repo s' = sd_repo s"
      then have "apply_file L dir r s' = write_host ?p work s'"
        using modified b m(3) ap by (simp add: apply_file_def r nullStr_def chain_def call_def Exists_def expand_rid_def)
      then show "\<exists>s1. apply_file L dir r s' = write_host ?p work s1 \<and> same_db s' s1 \<and> disk_file s1 = disk_file s'"
        by (auto simp: same_db_def)
    qed (simp_all add: r assms(1))
    with m modified show ?thesis by (simp add: popped_def)
  qed
qed

section \<open>Saving all files\<close>

text \<open>The result of storing and reverting the files \<open>fs\<close>.\<close>

definition stored_as :: "libs \<Rightarrow> bytes \<Rightarrow> int \<Rightarrow> stash_db \<Rightarrow> changedFile \<Rightarrow> stashfile_row \<Rightarrow> bool" where
  "stored_as L dir i s f r \<longleftrightarrow> sf_stashid r = i \<and>
     restores L (sd_repo s) dir (file_path dir f) r (popped f (disk_file s (file_path dir f)))"

lemma revert_run:
  assumes "dir \<noteq> []" "revert_stashed L (file_path dir f) f s = (s', Ok ())"
  shows "sd_repo s' = sd_repo s \<and> sd_vvar s' = sd_vvar s \<and> sd_tables s' = sd_tables s \<and>
    reverted L (sd_repo s) f (disk_file s' (file_path dir f)) \<and> (\<forall>p. p \<noteq> file_path dir f \<longrightarrow> disk_file s' p = disk_file s p)"
proof -
  let ?p = "file_path dir f"
  have p: "?p \<noteq> []" using path_Join_dir [OF assms(1)] .
  show ?thesis
  proof (cases "cf_rid f = 0")
    case True
    obtain s1 where "remove_host ?p s = (s1, Ok ())" "same_db s s1" "disk_file s1 = (disk_file s)(?p := None)"
      using remove_host_run [OF p] by blast
    with True assms(2) show ?thesis
      by (auto simp: revert_stashed_def chain_def delete_paths_def change_def same_db_def reverted_def)
  next
    case False
    then obtain c s1 where c: "expand L (sd_repo s) (cf_rid f) = Ok c" "same_db s s1" "disk_file s1 = disk_file s"
      "\<exists>s2 h. write_host ?p c s1 = (s2, Ok ()) \<and> s' = s2\<lparr>sd_vfile := h\<rparr>"
      using assms(2) mkdir_host_run [of ?p s]
      by (auto simp: revert_stashed_def chain_Ok expand_rid_def update_paths_def change_def same_db_def split: if_splits)
    with False write_host_run [OF p, of c s1] show ?thesis by (auto simp: same_db_def reverted_def)
  qed
qed

lemma store_file_run:
  assumes "dir \<noteq> []" "wf_repo (sd_repo s)" "fits L s" "store_file L dir i f s = (s', Ok ())" "sd_tables s = Some (st, sf)"
  obtains r where "stored_as L dir i s f r" "sd_tables s' = Some (st, sf @ [r])" "sd_repo s' = sd_repo s" "sd_vvar s' = sd_vvar s" "fits L s'"
    "reverted L (sd_repo s) f (disk_file s' (file_path dir f))" "\<forall>p. p \<noteq> file_path dir f \<longrightarrow> disk_file s' p = disk_file s p"
proof -
  define r where "r h d = \<lparr>sf_stashid = i, sf_isAdded = (cf_rid f = 0), sf_isRemoved = (cf_deleted f = 1), sf_isExec = cf_isExec f,
    sf_isLink = cf_isLink f, sf_hash = nullStr h, sf_origname = cf_pathname f, sf_newname = cf_pathname f, sf_delta = d\<rparr>" for h d
  obtain h d s1 s2 where run: "stash_content L (file_path dir f) f s = (s1, Ok (h, d))" "insert_stashfile (r h d) s1 = (s2, Ok ())"
    "revert_stashed L (file_path dir f) f s2 = (s', Ok ())"
    using assms(4) by (auto simp: store_file_def chain_Ok Let_def r_def)
  have rec: "s1 = s" "stored_as L dir i s f (r h d)"
    using recorded_restores [OF assms(1-3) run(1), of "r h d"] by (simp_all add: stored_as_def r_def)
  have s2: "s2 = s\<lparr>sd_tables := Some (st, sf @ [r h d])\<rparr>"
    using run(2) assms(5) by (auto simp: insert_stashfile_def rec(1) split: if_splits)
  note rev = revert_run [OF assms(1) run(3)]
  have "fits L s'" unfolding fits_def
  proof (intro conjI allI impI)
    fix p x assume x: "disk_file s' p = Some x"
    show "length x \<le> max_alloc"
    proof (cases "p = file_path dir f")
      case True
      with rev x assms(3) show ?thesis by (auto simp: reverted_def fits_def s2 split: if_splits)
    next
      case False
      with rev x assms(3) show ?thesis by (auto simp: fits_def s2)
    qed
  qed (use rev assms(3) in \<open>auto simp: fits_def s2\<close>)
  with rec(2) rev that show thesis by (simp add: s2)
qed

lemma store_files_run:
  assumes "dir \<noteq> []" "wf_repo (sd_repo s)" "fits L s" "distinct (map (file_path dir) fs)" "sd_tables s = Some (st, sf)"
    and "for_each (store_file L dir i) fs s = (s', Ok ())"
  shows "\<exists>rs. list_all2 (stored_as L dir i s) fs rs \<and> sd_tables s' = Some (st, sf @ rs) \<and> sd_repo s' = sd_repo s \<and> sd_vvar s' = sd_vvar s \<and>
    (\<forall>f \<in> set fs. reverted L (sd_repo s) f (disk_file s' (file_path dir f))) \<and>
    (\<forall>p. p \<notin> file_path dir ` set fs \<longrightarrow> disk_file s' p = disk_file s p)"
  using assms(2-6)
proof (induction fs arbitrary: s sf)
  case (Cons f fs)
  from Cons.prems(5) obtain s1 where 1: "store_file L dir i f s = (s1, Ok ())" "for_each (store_file L dir i) fs s1 = (s', Ok ())"
    by (auto simp: chain_Ok)
  obtain r where r: "stored_as L dir i s f r" "sd_tables s1 = Some (st, sf @ [r])" "sd_repo s1 = sd_repo s" "sd_vvar s1 = sd_vvar s" "fits L s1"
    "reverted L (sd_repo s) f (disk_file s1 (file_path dir f))" "\<forall>p. p \<noteq> file_path dir f \<longrightarrow> disk_file s1 p = disk_file s p"
    using store_file_run [OF assms(1) Cons.prems(1,2) 1(1) Cons.prems(4)] by blast
  have new: "file_path dir f \<notin> file_path dir ` set fs" "distinct (map (file_path dir) fs)" using Cons.prems(3) by auto
  from Cons.IH [OF _ r(5) new(2) r(2) 1(2)] Cons.prems(1) r(3) obtain rs where
    rs: "list_all2 (stored_as L dir i s1) fs rs" "sd_tables s' = Some (st, (sf @ [r]) @ rs)" "sd_repo s' = sd_repo s1" "sd_vvar s' = sd_vvar s1"
      "\<forall>f \<in> set fs. reverted L (sd_repo s1) f (disk_file s' (file_path dir f))"
      "\<forall>p. p \<notin> file_path dir ` set fs \<longrightarrow> disk_file s' p = disk_file s1 p" by auto
  have "list_all2 (stored_as L dir i s) fs rs"
    using rs(1) by (rule list.rel_mono_strong) (use new(1) r(3,7) in \<open>auto simp: stored_as_def image_iff\<close>)
  with r(1) have "list_all2 (stored_as L dir i s) (f # fs) (r # rs)" by simp
  then show ?case using rs(2-6) r(3,4,6,7) new(1) by (intro exI [of _ "r # rs"]) auto
qed (simp add: ret_def)

lemma apply_files_run:
  assumes "list_all2 (\<lambda>f r. restores L q dir (file_path dir f) r (w f)) fs rs" "sd_repo s = q" "distinct (map (file_path dir) fs)"
  shows "\<exists>s'. for_each (apply_file L dir) rs s = (s', Ok ()) \<and> same_db s s' \<and> (\<forall>f \<in> set fs. disk_file s' (file_path dir f) = w f) \<and>
    (\<forall>p. p \<notin> file_path dir ` set fs \<longrightarrow> disk_file s' p = disk_file s p)"
  using assms
proof (induction fs rs arbitrary: s rule: list_all2_induct)
  case Nil
  then show ?case by (simp add: ret_def same_db_def)
next
  case (Cons f fs r rs)
  from Cons.hyps(1) Cons.prems(1) obtain s1 where s1: "apply_file L dir r s = (s1, Ok ())" "same_db s s1"
    "disk_file s1 = (disk_file s)(file_path dir f := w f)" by (auto simp: restores_def)
  then have "sd_repo s1 = q" "distinct (map (file_path dir) fs)" using Cons.prems by (simp_all add: same_db_def)
  from Cons.IH [OF this] obtain s' where s': "for_each (apply_file L dir) rs s1 = (s', Ok ())" "same_db s1 s'"
    "\<forall>f \<in> set fs. disk_file s' (file_path dir f) = w f" "\<forall>p. p \<notin> file_path dir ` set fs \<longrightarrow> disk_file s' p = disk_file s1 p" by blast
  have "file_path dir f \<notin> file_path dir ` set fs" using Cons.prems(2) by auto
  then show ?case using s1 s' by (intro exI [of _ s']) (auto simp: chain_def same_db_def)
qed

section \<open>Save and Pop\<close>

text \<open>The ids in use are below the next one.\<close>

definition next_stash :: "stash_db \<Rightarrow> int option" where
  "next_stash s = (case map_of (sd_vvar s) ''stash-next'' of None \<Rightarrow> Some 1 | Some v \<Rightarrow> Atoi v)"

definition stash_ok :: "stash_db \<Rightarrow> bool" where
  "stash_ok s \<longleftrightarrow> (\<exists>n. next_stash s = Some n \<and> n > 0 \<and>
     (case sd_tables s of None \<Rightarrow> True | Some (st, sf) \<Rightarrow> (\<forall>r \<in> set st. st_stashid r < n) \<and> (\<forall>r \<in> set sf. sf_stashid r < n)))"

lemma nextStashID_run:
  assumes "next_stash s = Some n"
  obtains vv where "nextStashID s = (s\<lparr>sd_vvar := vv\<rparr>, Ok n)" "map_of vv ''checkout-hash'' = map_of (sd_vvar s) ''checkout-hash''"
  using assms that
  by (cases "map_of (sd_vvar s) ''stash-next''") (auto simp: next_stash_def nextStashID_def map_of_replace_vvar)

text \<open>A save records every changed file, reverts it, and leaves other files alone.\<close>

lemma Save_run:
  assumes "Save_stash L now dir comment s = (s1, Ok ())" "stash_ok s" "fits L s" "wf_repo (sd_repo s)"
    and "fs = snapshotChangedFiles (sd_vfile s)" "distinct (map (file_path dir) fs)"
    and "sd_tables (EnsureTables_stash s) = Some (st, sf)"
  obtains n h rs where "list_all2 (stored_as L dir n s) fs rs" "rs \<noteq> []" "n > 0" "\<forall>r \<in> set st. st_stashid r < n" "\<forall>r \<in> set sf. sf_stashid r < n"
    "sd_tables s1 = Some (st @ [\<lparr>st_stashid = n, st_hash = h, st_comment = comment, st_ctime = now\<rparr>], sf @ rs)" "sd_repo s1 = sd_repo s"
    "\<forall>f \<in> set fs. reverted L (sd_repo s) f (disk_file s1 (file_path dir f))"
    "\<forall>p. p \<notin> file_path dir ` set fs \<longrightarrow> disk_file s1 p = disk_file s p" "dir \<noteq> []"
proof -
  let ?e = "EnsureTables_stash s"
  have e: "sd_repo ?e = sd_repo s" "sd_vvar ?e = sd_vvar s" "sd_vfile ?e = sd_vfile s" "sd_disk ?e = sd_disk s"
    by (simp_all add: EnsureTables_stash_def)
  obtain n where n: "next_stash ?e = Some n" "n > 0" "\<forall>r \<in> set st. st_stashid r < n" "\<forall>r \<in> set sf. sf_stashid r < n"
    using assms(2,7) by (auto simp: stash_ok_def next_stash_def e EnsureTables_stash_def split: if_splits)
  obtain vv where vv: "nextStashID ?e = (?e\<lparr>sd_vvar := vv\<rparr>, Ok n)" by (rule nextStashID_run [OF n(1)])
  define hd where "hd = \<lparr>st_stashid = n, st_hash = getVVar vv ''checkout-hash'', st_comment = comment, st_ctime = now\<rparr>"
  have new: "n \<notin> st_stashid ` set st" using n(3) by auto
  define e1 where "e1 = ?e\<lparr>sd_vvar := vv, sd_tables := Some (st @ [hd], sf)\<rparr>"
  have dir: "dir \<noteq> []" and tx: "save_in_tx L now dir comment ?e = (s1, Ok ())"
    using assms(1) by (auto simp: Save_stash_def stash_tx_def split: if_splits prod.splits outcome.splits)
  then have run: "fs \<noteq> []" "for_each (store_file L dir n) fs e1 = (s1, Ok ())"
    using vv new assms(5,7) e
    by (auto simp: save_in_tx_def chain_def insert_stash_def hd_def e1_def Let_def storeAndRevertFiles_def split: if_splits)
  have e1: "wf_repo (sd_repo e1)" "fits L e1" "sd_tables e1 = Some (st @ [hd], sf)" "sd_repo e1 = sd_repo s" "sd_disk e1 = sd_disk s"
    using assms(3,4) e by (simp_all add: e1_def fits_def)
  from store_files_run [OF dir e1(1,2) assms(6) e1(3) run(2)] obtain rs where
    rs: "list_all2 (stored_as L dir n e1) fs rs" "sd_tables s1 = Some (st @ [hd], sf @ rs)" "sd_repo s1 = sd_repo s"
      "\<forall>f \<in> set fs. reverted L (sd_repo s) f (disk_file s1 (file_path dir f))"
      "\<forall>p. p \<notin> file_path dir ` set fs \<longrightarrow> disk_file s1 p = disk_file s p" by (auto simp: e1)
  have "stored_as L dir n e1 = stored_as L dir n s" by (simp add: stored_as_def e1 fun_eq_iff)
  moreover have "rs \<noteq> []" using rs(1) run(1) by auto
  ultimately show thesis using rs n(2-4) dir that by (simp add: hd_def)
qed

lemma foldr_max_least: "\<forall>x \<in> set xs. x < (n::int) \<Longrightarrow> foldr max xs n = n"
  by (induction xs) auto

text \<open>
  Claim C27.  A stash that is saved is popped again: every changed file is back as it was, removed ones are gone
  again, and the tables of the stash are as before; in between the files are as in the repository.
\<close>

theorem Save_Pop:
  assumes "Save_stash L now dir comment s = (s1, Ok ())" "stash_ok s" "fits L s" "wf_repo (sd_repo s)"
    and "distinct (map (file_path dir) (snapshotChangedFiles (sd_vfile s)))"
  shows "(\<forall>f \<in> set (snapshotChangedFiles (sd_vfile s)). reverted L (sd_repo s) f (disk_file s1 (file_path dir f))) \<and>
    (\<exists>s2. Pop_stash L dir s1 = (s2, Ok ()) \<and> sd_tables s2 = sd_tables (EnsureTables_stash s) \<and>
      (\<forall>f \<in> set (snapshotChangedFiles (sd_vfile s)). disk_file s2 (file_path dir f) = popped f (disk_file s (file_path dir f))) \<and>
      (\<forall>p. p \<notin> file_path dir ` set (snapshotChangedFiles (sd_vfile s)) \<longrightarrow> disk_file s1 p = disk_file s p \<and> disk_file s2 p = disk_file s p))"
proof -
  define fs where "fs = snapshotChangedFiles (sd_vfile s)"
  obtain st sf where t: "sd_tables (EnsureTables_stash s) = Some (st, sf)"
    by (cases "sd_tables s") (auto simp: EnsureTables_stash_def)
  obtain n h rs where run: "list_all2 (stored_as L dir n s) fs rs" "rs \<noteq> []" "n > 0" "\<forall>r \<in> set st. st_stashid r < n" "\<forall>r \<in> set sf. sf_stashid r < n"
    "sd_tables s1 = Some (st @ [\<lparr>st_stashid = n, st_hash = h, st_comment = comment, st_ctime = now\<rparr>], sf @ rs)" "sd_repo s1 = sd_repo s"
    "\<forall>f \<in> set fs. reverted L (sd_repo s) f (disk_file s1 (file_path dir f))"
    "\<forall>p. p \<notin> file_path dir ` set fs \<longrightarrow> disk_file s1 p = disk_file s p" "dir \<noteq> []"
    by (rule Save_run [OF assms(1-4) fs_def assms(5) [folded fs_def] t])
  have ids: "\<forall>r \<in> set rs. sf_stashid r = n" using run(1) by (auto simp: stored_as_def list_all2_conv_all_nth in_set_conv_nth)
  have rows: "filter (\<lambda>r. sf_stashid r = n) (sf @ rs) = rs" "filter (\<lambda>r. sf_stashid r \<noteq> n) (sf @ rs) = sf" "filter (\<lambda>r. st_stashid r \<noteq> n) st = st"
    using ids run(4,5) by (auto simp: filter_empty_conv filter_id_conv)
  have "list_all2 (\<lambda>f r. restores L (sd_repo s) dir (file_path dir f) r (popped f (disk_file s (file_path dir f)))) fs rs"
    using run(1) by (rule list_all2_mono) (simp add: stored_as_def)
  from apply_files_run [OF this run(7)] assms(5) obtain s2 where
    s2: "for_each (apply_file L dir) rs s1 = (s2, Ok ())" "same_db s1 s2" "\<forall>f \<in> set fs. disk_file s2 (file_path dir f) = popped f (disk_file s (file_path dir f))"
      "\<forall>p. p \<notin> file_path dir ` set fs \<longrightarrow> disk_file s2 p = disk_file s1 p" by (auto simp: fs_def)
  have ap: "Apply_stash L dir n s1 = (s2, Ok ())"
    using run(2,3,6,10) s2(1) rows(1) by (simp add: Apply_stash_def chain_def)
  have dr: "Drop_stash n s2 = (s2\<lparr>sd_tables := Some (st, sf)\<rparr>, Ok ())"
    using run(3,6) s2(2) rows(2,3) by (simp add: Drop_stash_def same_db_def)
  have "Pop_stash L dir s1 = (s2\<lparr>sd_tables := Some (st, sf)\<rparr>, Ok ())"
    using ap dr run(4,6,10) by (cases st) (simp_all add: Pop_stash_def chain_def Let_def foldr_max_least)
  with run(8,9) s2(3,4) t show ?thesis by (auto simp: fs_def)
qed

section \<open>Instances\<close>

text \<open>A checkout with a changed and an added file.\<close>

definition toy_changed :: vfile_row where
  "toy_changed = (tracked_row 1 \<lparr>fe_Name = ''a'', fe_UUID = l_sha1 toy_libs ''hello'', fe_Perm = []\<rparr> 2)\<lparr>vf_chnged := 1\<rparr>"

definition toy_stash :: stash_db where
  "toy_stash = \<lparr>sd_repo = disk_repo, sd_vvar = [], sd_vfile = [toy_changed, added_row 1 ''b'' []], sd_tables = None,
     sd_disk = \<lparr>ms_files = [(''/w/a'', ''hello!''), (''/w/b'', ''new'')], ms_dirs = [], ms_mtimes = []\<rparr>\<rparr>"

lemma toy_stash_fields: "sd_repo toy_stash = disk_repo" "sd_vvar toy_stash = []" "sd_tables toy_stash = None"
    "sd_vfile toy_stash = [toy_changed, added_row 1 ''b'' []]"
    "disk_file toy_stash = (\<lambda>p. if p = ''/w/a'' then Some ''hello!'' else if p = ''/w/b'' then Some ''new'' else None)"
  by (auto simp: toy_stash_def file_at_def)

lemma toy_paths: "path_Join ''/w'' ''a'' = ''/w/a''" "path_Join ''/w'' ''b'' = ''/w/b''"
  by code_simp+

lemma toy_stash_files: "snapshotChangedFiles (sd_vfile toy_stash) =
    [\<lparr>cf_pathname = ''a'', cf_rid = 2, cf_chnged = 1, cf_deleted = 0, cf_isExec = False, cf_isLink = False\<rparr>,
     \<lparr>cf_pathname = ''b'', cf_rid = 0, cf_chnged = 1, cf_deleted = 0, cf_isExec = False, cf_isLink = False\<rparr>]"
  by (simp add: toy_stash_fields snapshotChangedFiles_def toy_changed_def tracked_row_def added_row_def)

lemma toy_stash_fits: "fits toy_libs toy_stash"
proof -
  have "length c \<le> max_alloc" if "expand toy_libs disk_repo r = Ok c" for r c
  proof -
    from expand_stored [OF that] have e: "expands (l_inflate toy_libs) disk_repo r c" and r: "blob_by_rid disk_repo r \<noteq> None" by auto
    from r have "r = 1 \<or> r = 2" by (auto simp: blob_by_rid_def disk_repo_def toy_row_def split: if_splits)
    with e disk_expands expands_fun have "c = Marshal (l_md5 toy_libs) disk_deck \<or> c = ''hello''" by blast
    then show ?thesis using disk_length by (auto simp: max_alloc_def)
  qed
  then show ?thesis by (auto simp: fits_def toy_stash_fields max_alloc_def)
qed

lemma toy_stash_saved: "\<exists>s1. Save_stash toy_libs ''now'' ''/w'' ''work'' toy_stash = (s1, Ok ())"
proof -
  obtain d where d: "Create ''hello'' ''hello!'' = Some d" using Create_total by blast
  have x: "expand toy_libs disk_repo 2 = Ok ''hello''" using disk_expands(2) by (simp add: Expand_eq_expands)
  have b: "blob_by_rid disk_repo 2 = Some (toy_row 2 ''hello'')" by (simp add: blob_by_rid_def disk_repo_def toy_row_def)
  have w: "snd (WriteFile (c # p) y perm m) = Ok ()" "remove_host (c # p) t = (t\<lparr>sd_disk := fst (Remove_mem (c # p) (sd_disk t))\<rparr>, Ok ())" for c p y perm m t
    by (simp_all add: WriteFile_def remove_host_def Remove_mem_def)
  have names: "vf_pathname toy_changed = ''a''" "vf_pathname (added_row 1 ''b'' []) = ''b''"
    by (simp_all add: toy_changed_def tracked_row_def added_row_def)
  show ?thesis
    by (simp add: w names file_at_WriteFile Save_stash_def stash_tx_def save_in_tx_def EnsureTables_stash_def toy_stash_fields nextStashID_def chain_def insert_stash_def
        toy_stash_files [unfolded toy_stash_fields] Let_def storeAndRevertFiles_def store_file_def stash_content_def uuid_of_rid_def expand_rid_def read_host_def make_delta_def
        ret_def insert_stashfile_def revert_stashed_def write_host_def update_paths_def delete_paths_def change_def
        x b d toy_paths ReadFile_eq)
qed

theorem Save_Pop_witness:
  "\<exists>s1 s2. Save_stash toy_libs ''now'' ''/w'' ''work'' toy_stash = (s1, Ok ()) \<and> disk_file s1 ''/w/a'' = Some ''hello'' \<and> disk_file s1 ''/w/b'' = None \<and>
     Pop_stash toy_libs ''/w'' s1 = (s2, Ok ()) \<and> disk_file s2 ''/w/a'' = Some ''hello!'' \<and> disk_file s2 ''/w/b'' = Some ''new''"
proof -
  obtain s1 where s1: "Save_stash toy_libs ''now'' ''/w'' ''work'' toy_stash = (s1, Ok ())" using toy_stash_saved by blast
  have x: "expand toy_libs disk_repo 2 = Ok ''hello''" using disk_expands(2) by (simp add: Expand_eq_expands)
  have ok: "stash_ok toy_stash" by (simp add: stash_ok_def next_stash_def toy_stash_fields)
  have "distinct (map (file_path ''/w'') (snapshotChangedFiles (sd_vfile toy_stash)))" by (simp add: toy_stash_files toy_paths)
  with Save_Pop [OF s1 ok toy_stash_fits] disk_wf_repo obtain s2 where
    "Pop_stash toy_libs ''/w'' s1 = (s2, Ok ())" "disk_file s1 ''/w/a'' = Some ''hello''" "disk_file s1 ''/w/b'' = None"
    "disk_file s2 ''/w/a'' = Some ''hello!''" "disk_file s2 ''/w/b'' = Some ''new''"
    by (auto simp: toy_stash_files [unfolded toy_stash_fields] toy_paths reverted_def popped_def x toy_stash_fields)
  with s1 show ?thesis by blast
qed

end
