(* ===== verification/Spec2Isabelle.thy ===== *)
theory Spec2Isabelle
  imports Delta_Roundtrip Deck_Roundtrip Xfer_Roundtrip Hash Blob Content_Store Content_Cache Content_Cluster Merge Merge_Graph Uv Tag Auth
    Manifest_Log Manifest_Checkin Crosslink_Props Handler_Private Clone_Props Session_Props Ckin_Lock Table_Props Bisect Shun Rebuild Diff_Unified Annotate Update_Props Commit_Props Stash
begin

text \<open>
  A verification development for libfossil, a Go implementation of the Fossil version control
  system: repositories of content-addressed artifacts in SQLite, their manifests and derived
  tables, the sync and clone protocol between repositories, and checkouts of a check-in.

  \<^bold>\<open>The program and the theories.\<close>  Paths are below \<open>src/\<close>; a definition has the name of the Go
  function, method or type it models, sometimes with a suffix where Isabelle has the name already.

  \<^item> Go itself: \<open>Prelude\<close> (bytes, slices, outcomes), \<open>Go_Strings\<close> (\<open>strings\<close>, \<open>strconv\<close>), \<open>Go_Time\<close>
    (\<open>time\<close>), \<open>Go_Heap\<close> (\<open>container/heap\<close>), \<open>Go_Path\<close> (\<open>path/filepath\<close>), \<open>Go_Step\<close> (functions on a state
    that may fail), \<open>Codec\<close> (the interfaces of encoders and decoders).
  \<^item> Formats: \<open>Delta\<close>, \<open>Delta_Roundtrip\<close> (\<open>internal/delta\<close>); \<open>Deck_Encode\<close>, \<open>Deck\<close>, \<open>Deck_Roundtrip\<close>
    (\<open>internal/deck\<close>, the artifacts and their cards); \<open>Xfer\<close>, \<open>Xfer_Roundtrip\<close> (\<open>internal/xfer\<close>, the cards
    and messages of the protocol); \<open>Hash\<close> (\<open>internal/hash\<close>).
  \<^item> The store: \<open>Repo_Tables\<close> (the tables of \<open>db/schema.go\<close> and \<open>internal/repo\<close> as lists of rows in the
    record \<open>repo\<close>, with the SQL statements of the code), \<open>Blob\<close> (\<open>internal/blob\<close>), \<open>Content\<close>,
    \<open>Content_Store\<close>, \<open>Content_Cache\<close>, \<open>Content_Cluster\<close> (\<open>internal/content\<close>), \<open>Uv\<close> (\<open>internal/uv\<close>), \<open>Shun\<close>
    (\<open>internal/shun\<close>), \<open>Rebuild\<close> (\<open>internal/verify\<close>), \<open>Repo_Handle\<close> (\<open>internal/repo/repo.go\<close>,
    \<open>db/schema.go\<close>).
  \<^item> Versions: \<open>Manifest\<close>, \<open>Manifest_Checkin\<close>, \<open>Manifest_Log\<close>, \<open>Crosslink\<close>, \<open>Crosslink_Props\<close>
    (\<open>internal/manifest\<close>: check-ins, listings, the log, the tables derived from artifacts), \<open>Tag\<close>
    (\<open>internal/tag\<close>), \<open>Merge_Diff\<close>, \<open>Merge\<close>, \<open>Merge_Graph\<close> (\<open>internal/merge\<close>), \<open>Path\<close>, \<open>Bisect\<close>
    (\<open>internal/path\<close>, \<open>internal/bisect\<close>), \<open>Diff\<close>, \<open>Diff_Unified\<close> (\<open>internal/diff\<close>), \<open>Annotate\<close>
    (\<open>internal/annotate\<close>).
  \<^item> The protocol (\<open>internal/sync\<close>, \<open>internal/auth\<close>): \<open>Auth\<close>; \<open>Sync_Store\<close>, \<open>Sync_Deliver\<close> (receiving an
    artifact); \<open>Table_Sync\<close>, \<open>Table_Props\<close> (synced tables of \<open>internal/repo/tablesync.go\<close>); the server
    \<open>Handler_State\<close>, \<open>Handler_Tables\<close>, \<open>Handler\<close>, \<open>Handler_Props\<close>, \<open>Handler_Private\<close>, \<open>Ckin_Lock\<close>; cloning
    \<open>Clone\<close>, \<open>Clone_Server\<close>, \<open>Clone_Props\<close>; the client \<open>Session\<close>, \<open>Session_Tables\<close>, \<open>Session_Round\<close>,
    \<open>Session_Props\<close>.
  \<^item> The working directory: \<open>Storage\<close> (\<open>simio/storage_mem.go\<close>, \<open>simio/simclock.go\<close>), \<open>Checkout\<close>,
    \<open>Checkout_Ops\<close>, \<open>Checkout_Update\<close>, \<open>Checkout_Props\<close>, \<open>Checkout_Extract\<close>, \<open>Update_Props\<close>,
    \<open>Commit_Props\<close> (\<open>internal/checkout\<close>), \<open>Undo\<close> (\<open>internal/undo\<close>), \<open>Stash\<close> (\<open>internal/stash\<close>).

  Calls go down this list: a checkout reads and commits through the manifests, these store their
  artifacts as blobs and crosslink them into tables, the protocol moves artifacts between two such
  stores and crosslinks what it received.

  \<^bold>\<open>How the code is modelled.\<close>  \<open>[]byte\<close> and \<open>string\<close> are lists of bytes (\<open>bytes\<close>).  A function that can
  return an error or panic gives an \<open>outcome\<close>: \<open>Ok\<close>, \<open>Err\<close> with a constructor per error of the source, or
  \<open>Panic\<close> with its message.  State goes in and comes out, and comes out changed beside an error too;
  \<open>with_tx\<close> takes it back as a transaction does.  Integers keep their width where they can wrap (64 and
  32-bit words in \<open>Delta\<close> and the checksums), and are integers with the bounds of \<open>int64\<close> written out
  where they are parsed.  Julian days are milliseconds.  A map of Go is an association list, and is
  iterated in list order where Go leaves the order open.  Nil arguments, on which the code panics, are
  excluded by the types.

  Parameters, for code that is not here: the hashes MD5, SHA1 and SHA3, zlib, SQLite's affinity,
  keywords and date functions, JSON, the printing of floats, Unicode case, the clock, random bytes and
  the texts of errors.  They are arguments (records \<open>libs\<close>, \<open>xlib\<close>, \<open>env\<close>), with what is needed of
  them as named hypotheses: \<open>zlib_writer\<close> (inflating a deflated text gives it back, with the header zlib
  writes), \<open>libs_ok\<close> (that, and digests that are words of their length), \<open>sha1_names\<close>.  \<open>sample_zlib\<close>,
  \<open>toy_libs_ok\<close> and the other instances show that they can hold.  No hypothesis says that a hash has no
  collisions: properties speak of content with the right digest.

  \<^bold>\<open>What is shown.\<close>  The properties carry their numbers in the theories.  In groups:

  \<^item> Codecs invert each other: deltas, artifacts, cards, messages, through compression, for all
    inputs that fit the format; results of a delta are confined to its inputs.
  \<^item> The store: what is stored is expanded again, through chains of deltas and through the cache under
    any interleaving; \<open>Expand\<close> agrees with the recursive reading of the tables; clusters name every
    blob that waits; a purge removes what it must and nothing else; a rebuild restores the derived
    tables so that the checks of the code pass.
  \<^item> Versions: a check-in lists its files again, also through a delta manifest; crosslinking defers
    what is incomplete; tags reach the descendants they should; the log is the primary ancestry; path
    search and difference are shortest; bisection ends at a bad check-in with a good parent; patches
    apply; the three-way merge takes both sides when they do not touch.
  \<^item> The protocol: whatever a peer sends, the server and the client keep their content, and keep it
    authentic; without push a request only reads; private artifacts are neither sent nor named without
    the right; a clone of a well-behaved server ends with every public artifact; check-in locks
    exclude each other; synced tables stay typed.
  \<^item> The checkout: no sequence of operations touches a file outside its directory, and a successful
    extraction leaves the content of the check-in and no changes; an update takes, removes, merges or
    leaves each file as the three versions say; a commit holds the files it should; redo inverts undo,
    and popping a stash inverts saving it.

  Interfaces are locales, interpreted on the model: \<open>item_codec\<close>, \<open>stream_codec\<close> and
  \<open>delta_codec\<close> in \<open>Codec\<close>, \<open>merge_strategy\<close> and \<open>one_sided_strategy\<close> in \<open>Merge\<close>, \<open>replicated_register\<close> in \<open>Uv\<close>,
  \<open>file_store\<close> in \<open>Storage\<close>, and \<open>kept_relation\<close>, \<open>step_relation\<close> and \<open>quiet_relation\<close>: relations between
  states that every step of a program keeps, from which the frames of whole operations follow.

  \<^bold>\<open>Bounds and fuel.\<close>  Loops that always end are functions with a measure: the walk of a delta chain (rows
  not yet met), breadth-first searches (rows not yet queued), the merge loop (lines left), the parsers (bytes
  left).  Those that end only on well-formed tables are partial: \<open>log_loop\<close> and \<open>walkParentChain\<close> follow
  primary parents, \<open>chain_walk\<close> the hash chains of the delta encoder (\<open>Create_total\<close> shows that these end).
  Bounds of the code are kept: 100 rounds of a sync or clone, batches of 200 artifacts of a clone (so 19800
  artifacts fit), \<open>MaxGimmeBase\<close> 200, 257 directory levels in \<open>FindCheckoutDB\<close>, and the million steps after
  which tag propagation gives an error and dephantomization stops; the properties hold with these bounds.

  \<^bold>\<open>Not modelled.\<close>  Failures of the database itself and of reading its rows; fault injection above the blob
  store (a Boolean argument below it); observers, callbacks, log output and statistics that only they see;
  the HTTP transport and server and the files of a database (host I/O); failures of the host's
  files other than a file that is missing, in \<open>internal/stash\<close> and \<open>internal/undo\<close>; the branch queries, the FTS5 search, invite tokens and the
  strategy resolver (SQL, base64 and \<open>filepath.Match\<close> with little logic of their own); the facade of the
  root package, the command line, the web interface, the simulation tests and the examples.
\<close>

end
